(* ===== verification/Prelude.thy ===== *)
theory Prelude
  imports Complex_Main "HOL-Library.Sublist"
begin

text \<open>
  Shared ground of the development: how values of the TypeScript code are represented,
  the rounding helpers every money computation uses, strings, database sessions, and the
  generic facts about lists and state machines that the component theories share.

  \<^item> A JavaScript number that the code treats as an amount is an exact rational
    (\<open>rat\<close>).  Where the code tests for non-finite values the number is a
    \<open>jsnum\<close>, which adds NaN and the infinities.  Binary rounding errors of doubles
    are not modelled; the code's own rounding (\<open>Math.round\<close>, \<open>toFixed\<close>) is.
  \<^item> A \<open>Date\<close> is its millisecond count (\<open>time\<close>); \<open>new Date()\<close> is an argument.
  \<^item> A MongoDB \<open>ObjectId\<close> and every identifier is a \<open>string\<close>.
\<close>

named_theorems kobo_simps "closure of two-decimal amounts under the code's arithmetic"

type_synonym oid = string
type_synonym time = int

subsection \<open>Numbers\<close>

datatype jsnum = Fin rat | NaN | PosInf | NegInf

text \<open>\<open>Math.round\<close>: nearest integer, halves towards plus infinity.\<close>

definition math_round :: "rat \<Rightarrow> int" where
  "math_round x = \<lfloor>x + 1/2\<rfloor>"

text \<open>\<open>Math.round(value * 100) / 100\<close>.\<close>

definition round_kobo :: "rat \<Rightarrow> rat" where
  "round_kobo x = of_int (math_round (x * 100)) / 100"

fun round_kobo_js :: "jsnum \<Rightarrow> jsnum" where
  "round_kobo_js (Fin x) = Fin (round_kobo x)"
| "round_kobo_js n = n"

text \<open>\<open>clamp\<close>: non-finite values become 0, negative ones are cut off at 0.\<close>

fun clamp_js :: "jsnum \<Rightarrow> rat" where
  "clamp_js (Fin x) = max x 0"
| "clamp_js _ = 0"

text \<open>JavaScript's \<open>value || fallback\<close> on numbers: 0 and NaN are falsy.\<close>

definition num_or :: "jsnum \<Rightarrow> rat \<Rightarrow> jsnum" where
  "num_or n d = (if n = Fin 0 \<or> n = NaN then Fin d else n)"

definition kobo :: "rat \<Rightarrow> bool" where
  "kobo x \<longleftrightarrow> of_int \<lfloor>x * 100\<rfloor> = x * 100"

lemma koboI: "x * 100 = of_int k \<Longrightarrow> kobo x"
  by (simp only: kobo_def floor_of_int)

lemma koboE:
  assumes "kobo x"
  obtains k where "x = of_int k / 100"
proof -
  from assms have "of_int \<lfloor>x * 100\<rfloor> = x * 100" by (simp only: kobo_def)
  then have "x = of_int \<lfloor>x * 100\<rfloor> / 100" by linarith
  then show thesis by (rule that)
qed

lemma kobo_of_int_div [kobo_simps, simp]: "kobo (of_int k / 100)"
  by (rule koboI [of _ k]) simp

lemma kobo_round [kobo_simps, simp]: "kobo (round_kobo x)"
  by (simp add: round_kobo_def)

lemma kobo_0 [kobo_simps, simp]: "kobo 0"
  by (rule koboI [of _ 0]) simp

lemma kobo_add [kobo_simps]: "kobo x \<Longrightarrow> kobo y \<Longrightarrow> kobo (x + y)"
proof -
  assume "kobo x" and "kobo y"
  then obtain k l where "x = of_int k / 100" and "y = of_int l / 100"
    by (metis koboE)
  then have "(x + y) * 100 = of_int (k + l)" by simp
  then show ?thesis by (rule koboI)
qed

lemma kobo_diff [kobo_simps]: "kobo x \<Longrightarrow> kobo y \<Longrightarrow> kobo (x - y)"
proof -
  assume "kobo x" and "kobo y"
  then obtain k l where "x = of_int k / 100" and "y = of_int l / 100"
    by (metis koboE)
  then have "(x - y) * 100 = of_int (k - l)" by simp
  then show ?thesis by (rule koboI)
qed

lemma kobo_mult_nat [kobo_simps]: "kobo x \<Longrightarrow> kobo (x * of_nat n)"
proof -
  assume "kobo x"
  then obtain k where "x = of_int k / 100" by (rule koboE)
  then have "(x * of_nat n) * 100 = of_int (k * int n)" by simp
  then show ?thesis by (rule koboI)
qed

lemma kobo_min [kobo_simps]: "kobo x \<Longrightarrow> kobo y \<Longrightarrow> kobo (min x y)"
  by (simp add: min_def)

lemma kobo_max [kobo_simps]: "kobo x \<Longrightarrow> kobo y \<Longrightarrow> kobo (max x y)"
  by (simp add: max_def)

lemma math_round_of_int [simp]: "math_round (of_int k) = k"
proof -
  have "\<lfloor>(of_int k :: rat) + 1/2\<rfloor> = k" by linarith
  then show ?thesis by (simp add: math_round_def)
qed

lemma round_kobo_id [kobo_simps]: "kobo x \<Longrightarrow> round_kobo x = x"
  by (auto simp: round_kobo_def elim!: koboE)

lemma math_round_mono: "x \<le> y \<Longrightarrow> math_round x \<le> math_round y"
  by (simp add: math_round_def floor_mono)

lemma round_kobo_mono: "x \<le> y \<Longrightarrow> round_kobo x \<le> round_kobo y"
  by (simp add: round_kobo_def math_round_mono divide_right_mono)

lemma round_kobo_0 [simp]: "round_kobo 0 = 0"
  by (simp add: round_kobo_id)

lemma round_kobo_nonneg: "0 \<le> x \<Longrightarrow> 0 \<le> round_kobo x"
  using round_kobo_mono [of 0 x] by simp

lemma round_kobo_le: "x \<le> y \<Longrightarrow> kobo y \<Longrightarrow> round_kobo x \<le> y"
  using round_kobo_mono [of x y] by (simp add: round_kobo_id)

lemma round_kobo_ge: "y \<le> x \<Longrightarrow> kobo y \<Longrightarrow> y \<le> round_kobo x"
  using round_kobo_mono [of y x] by (simp add: round_kobo_id)

lemma clamp_js_nonneg [simp]: "0 \<le> clamp_js n"
  by (cases n) auto

lemma kobo_clamp_round [kobo_simps, simp]: "kobo (clamp_js (round_kobo_js n))"
  by (cases n) (auto intro: kobo_max)

text \<open>\<open>Number(x.toFixed(6))\<close>: six decimals, halves away from zero.\<close>

definition to_fixed6 :: "rat \<Rightarrow> rat" where
  "to_fixed6 x =
     (if 0 \<le> x then of_int \<lfloor>x * 1000000 + 1/2\<rfloor> / 1000000
      else - (of_int \<lfloor>- x * 1000000 + 1/2\<rfloor> / 1000000))"

definition micro :: "rat \<Rightarrow> bool" where
  "micro x \<longleftrightarrow> of_int \<lfloor>x * 1000000\<rfloor> = x * 1000000"

lemma microI: "x * 1000000 = of_int k \<Longrightarrow> micro x"
  by (simp only: micro_def floor_of_int)

lemma microE:
  assumes "micro x"
  obtains k where "x = of_int k / 1000000"
proof -
  from assms have "of_int \<lfloor>x * 1000000\<rfloor> = x * 1000000" by (simp only: micro_def)
  then have "x = of_int \<lfloor>x * 1000000\<rfloor> / 1000000" by linarith
  then show thesis by (rule that)
qed

lemma micro_0 [simp]: "micro 0"
  by (rule microI [of _ 0]) simp

lemma micro_add: "micro x \<Longrightarrow> micro y \<Longrightarrow> micro (x + y)"
proof -
  assume "micro x" and "micro y"
  then obtain k l where "x = of_int k / 1000000" and "y = of_int l / 1000000"
    by (metis microE)
  then have "(x + y) * 1000000 = of_int (k + l)" by simp
  then show ?thesis by (rule microI)
qed

lemma micro_diff: "micro x \<Longrightarrow> micro y \<Longrightarrow> micro (x - y)"
proof -
  assume "micro x" and "micro y"
  then obtain k l where "x = of_int k / 1000000" and "y = of_int l / 1000000"
    by (metis microE)
  then have "(x - y) * 1000000 = of_int (k - l)" by simp
  then show ?thesis by (rule microI)
qed

lemma micro_uminus: "micro x \<Longrightarrow> micro (- x)"
  using micro_diff [of 0 x] by simp

lemma floor_half_of_int: "\<lfloor>(of_int k :: rat) + 1/2\<rfloor> = k"
  by linarith

lemma to_fixed6_id: "micro x \<Longrightarrow> to_fixed6 x = x"
proof -
  assume "micro x"
  then obtain k where k: "x = of_int k / 1000000" by (rule microE)
  then have "x * 1000000 = of_int k" and "- x * 1000000 = of_int (- k)" by simp_all
  then show ?thesis
    by (simp only: to_fixed6_def floor_half_of_int) (simp add: k)
qed

subsection \<open>Strings\<close>

text \<open>White space of \<open>String.prototype.trim\<close>, within the byte characters of HOL.\<close>

definition is_ws :: "char \<Rightarrow> bool" where
  "is_ws c \<longleftrightarrow> of_char c \<in> {9, 10, 11, 12, 13, 32, 160 :: nat}"

definition js_trim :: "string \<Rightarrow> string" where
  "js_trim s = rev (dropWhile is_ws (rev (dropWhile is_ws s)))"

lemma js_trim_Nil [simp]: "js_trim [] = []"
  by (simp add: js_trim_def)

lemma dropWhile_idem: "dropWhile P (dropWhile P xs) = dropWhile P xs"
  by (induction xs) auto

lemma dropWhile_id_prefix:
  "dropWhile P xs = xs \<Longrightarrow> xs = ys @ zs \<Longrightarrow> dropWhile P ys = ys"
  unfolding dropWhile_eq_self_iff by (cases ys) auto

lemma rev_dropWhile_rev_prefix: "\<exists>zs. xs = rev (dropWhile P (rev xs)) @ zs"
proof -
  have "rev (rev xs) = rev (takeWhile P (rev xs) @ dropWhile P (rev xs))" by simp
  then have "xs = rev (dropWhile P (rev xs)) @ rev (takeWhile P (rev xs))"
    by (simp only: rev_append rev_rev_ident)
  then show ?thesis by blast
qed

lemma js_trim_idem [simp]: "js_trim (js_trim s) = js_trim s"
proof -
  let ?d = "dropWhile is_ws s"
  obtain zs where "?d = rev (dropWhile is_ws (rev ?d)) @ zs"
    using rev_dropWhile_rev_prefix by blast
  then have "dropWhile is_ws (rev (dropWhile is_ws (rev ?d))) = rev (dropWhile is_ws (rev ?d))"
    using dropWhile_id_prefix [of is_ws ?d] dropWhile_idem by blast
  then show ?thesis by (simp add: js_trim_def dropWhile_idem)
qed

subsection \<open>Results\<close>

abbreviation is_ok :: "'e + 'a \<Rightarrow> bool" where
  "is_ok r \<equiv> (case r of Inl _ \<Rightarrow> False | Inr _ \<Rightarrow> True)"

lemma is_okE: "is_ok r \<Longrightarrow> (\<And>a. r = Inr a \<Longrightarrow> P) \<Longrightarrow> P"
  by (cases r) auto

subsection \<open>Lifecycles\<close>

text \<open>
  Every status field of the program is governed by a table of allowed successors.
  A \<open>walk\<close> is a history that follows the table.
\<close>

fun walk :: "('s \<Rightarrow> 's list) \<Rightarrow> 's list \<Rightarrow> bool" where
  "walk nx [] = True"
| "walk nx [s] = True"
| "walk nx (s # t # ss) = (t \<in> set (nx s) \<and> walk nx (t # ss))"

lemma walk_snoc:
  "ss \<noteq> [] \<Longrightarrow> walk nx (ss @ [t]) \<longleftrightarrow> walk nx ss \<and> t \<in> set (nx (last ss))"
  by (induction nx ss rule: walk.induct) auto

lemma walk_append: "walk nx (ss @ ts) \<Longrightarrow> walk nx ss \<and> walk nx ts"
proof (induction nx ss rule: walk.induct)
  case (2 nx s)
  then show ?case by (cases ts) auto
qed auto

lemma walk_tl: "walk nx (s # ss) \<Longrightarrow> walk nx ss"
  by (cases ss) auto

lemma walk_rank_bound:
  fixes rank :: "'s \<Rightarrow> nat"
  assumes "\<And>s t. t \<in> set (nx s) \<Longrightarrow> rank t < rank s"
  shows "walk nx (s # ss) \<Longrightarrow> length ss \<le> rank s"
proof (induction ss arbitrary: s)
  case Nil
  then show ?case by simp
next
  case (Cons t ss)
  then have "rank t < rank s" and "length ss \<le> rank t"
    using assms by auto
  then show ?case by simp
qed

text \<open>
  The contract of a status table with its checker and its terminal states, as every
  state-machine module of the program provides it.
\<close>

locale lifecycle =
  fixes nx :: "'s \<Rightarrow> 's list"
    and valid :: "'s option \<Rightarrow> 's \<Rightarrow> bool"
    and terminal :: "'s \<Rightarrow> bool"
  assumes valid_None: "valid None t"
    and valid_Some: "valid (Some s) t \<longleftrightarrow> s = t \<or> t \<in> set (nx s)"
    and terminal_iff: "terminal s \<longleftrightarrow> nx s = []"
begin

lemma terminal_valid_same: "terminal s \<Longrightarrow> valid (Some s) t \<longleftrightarrow> t = s"
  by (auto simp: valid_Some terminal_iff)

lemma terminal_ends_walk: "terminal s \<Longrightarrow> walk nx (s # ss) \<Longrightarrow> ss = []"
  by (cases ss) (auto simp: terminal_iff)

lemma terminal_only_last:
  "walk nx ss \<Longrightarrow> s \<in> set (butlast ss) \<Longrightarrow> \<not> terminal s"
  by (induction ss rule: induct_list012) (auto simp: terminal_iff split: if_splits)

lemma valid_extends_walk:
  "ss \<noteq> [] \<Longrightarrow> walk nx ss \<Longrightarrow> valid (Some (last ss)) t \<Longrightarrow> t \<noteq> last ss \<Longrightarrow> walk nx (ss @ [t])"
  by (simp add: walk_snoc valid_Some)

end

subsection \<open>Optimistic locking\<close>

text \<open>
  The filter on the \<open>version\<close> field that every transition service builds: a missing
  field counts as version 0.
\<close>

definition version_matches :: "nat option \<Rightarrow> nat \<Rightarrow> bool" where
  "version_matches v e \<longleftrightarrow> (if e = 0 then v = Some 0 \<or> v = None else v = Some e)"

definition eff_version :: "nat option \<Rightarrow> nat" where
  "eff_version v = (case v of None \<Rightarrow> 0 | Some n \<Rightarrow> n)"

text \<open>\<open>$inc: { version: 1 }\<close>, which creates a missing field.\<close>

definition inc_version :: "nat option \<Rightarrow> nat option" where
  "inc_version v = Some (Suc (eff_version v))"

lemma version_matches_iff: "version_matches v e \<longleftrightarrow> eff_version v = e"
  by (auto simp: version_matches_def eff_version_def split: option.splits)

lemma eff_inc_version [simp]: "eff_version (inc_version v) = Suc (eff_version v)"
  by (simp add: inc_version_def eff_version_def)

lemma version_matches_self [simp]: "version_matches v (eff_version v)"
  by (simp add: version_matches_iff)

text \<open>
  What a client may rely on when it names the version it has seen: versions never go
  down, and an effective success consumed exactly the version that was named.
\<close>

primrec run_seq :: "('i \<Rightarrow> 's \<Rightarrow> 'r \<times> 's) \<Rightarrow> 'i list \<Rightarrow> 's \<Rightarrow> 's" where
  "run_seq run [] s = s"
| "run_seq run (i # is) s = run_seq run is (snd (run i s))"

lemma run_seq_invariant:
  assumes "\<And>i s. i \<in> set is \<Longrightarrow> I s \<Longrightarrow> I (snd (run i s))"
  shows "I s \<Longrightarrow> I (run_seq run is s)"
  using assms by (induction "is" arbitrary: s) auto

locale optimistic_lock =
  fixes run :: "'i \<Rightarrow> 's \<Rightarrow> ('e + 'r) \<times> 's"
    and ver :: "'s \<Rightarrow> oid \<Rightarrow> nat"
    and ident :: "'i \<Rightarrow> oid"
    and expected :: "'i \<Rightarrow> nat option"
    and effective :: "'r \<Rightarrow> bool"
    and inv :: "'s \<Rightarrow> bool"
  assumes inv_step: "inv s \<Longrightarrow> inv (snd (run i s))"
    and ver_mono: "inv s \<Longrightarrow> ver s x \<le> ver (snd (run i s)) x"
    and effective_version:
      "inv s \<Longrightarrow> run i s = (Inr r, s') \<Longrightarrow> effective r \<Longrightarrow> expected i = Some v \<Longrightarrow>
         ver s (ident i) = v \<and> v < ver s' (ident i)"
begin

lemma run_all_inv: "inv s \<Longrightarrow> inv (run_seq run is s)"
  by (rule run_seq_invariant) (auto simp: inv_step)

lemma run_all_mono: "inv s \<Longrightarrow> ver s x \<le> ver (run_seq run is s) x"
proof (induction "is" arbitrary: s)
  case Nil
  then show ?case by simp
next
  case (Cons i "is")
  have "ver s x \<le> ver (snd (run i s)) x" using Cons.prems by (rule ver_mono)
  also have "\<dots> \<le> ver (run_seq run is (snd (run i s))) x"
    using Cons.prems by (intro Cons.IH inv_step)
  finally show ?case by simp
qed

lemma no_lost_update:
  assumes "inv s" and "run i s = (Inr r, s')" and "effective r" and "expected i = Some v"
    and "ident j = ident i" and "expected j = Some v"
    and "run j (run_seq run is s') = (Inr r', s'')"
  shows "\<not> effective r'"
proof
  assume "effective r'"
  have inv': "inv s'" using assms(1,2) inv_step [of s i] by simp
  then have "inv (run_seq run is s')" by (rule run_all_inv)
  with assms \<open>effective r'\<close> have "ver (run_seq run is s') (ident i) = v"
    using effective_version [of "run_seq run is s'" j r' s'' v] by simp
  moreover from assms have "v < ver s' (ident i)"
    using effective_version [of s i r s' v] by simp
  ultimately show False
    using run_all_mono [OF inv', of "ident i" "is"] by simp
qed

end

end
