(* ===== verification/Platform.thy ===== *)
theory Platform
  imports Prelude
begin

text \<open>
  What the services share with their surroundings: document collections, database
  sessions (\<open>runInSession\<close>), driver errors, and the audit log of
  \<open>lib/security/audit-log.ts\<close>.

  A MongoDB collection is the list of its documents; \<open>findOne\<close> returns the first
  match, \<open>findOneAndUpdate\<close> and \<open>updateOne\<close> change the first match,
  \<open>updateMany\<close> every match.  The state a service works on is a record of such
  collections, passed explicitly.
\<close>

subsection \<open>Collections\<close>

abbreviation find_one :: "('d \<Rightarrow> bool) \<Rightarrow> 'd list \<Rightarrow> 'd option" where
  "find_one \<equiv> List.find"

fun update_one :: "('d \<Rightarrow> bool) \<Rightarrow> ('d \<Rightarrow> 'd) \<Rightarrow> 'd list \<Rightarrow> 'd list" where
  "update_one P f [] = []"
| "update_one P f (d # ds) = (if P d then f d # ds else d # update_one P f ds)"

definition update_many :: "('d \<Rightarrow> bool) \<Rightarrow> ('d \<Rightarrow> 'd) \<Rightarrow> 'd list \<Rightarrow> 'd list" where
  "update_many P f ds = map (\<lambda>d. if P d then f d else d) ds"

definition find_one_and_update ::
  "('d \<Rightarrow> bool) \<Rightarrow> ('d \<Rightarrow> 'd) \<Rightarrow> 'd list \<Rightarrow> 'd option \<times> 'd list" where
  "find_one_and_update P f ds =
     (case find_one P ds of None \<Rightarrow> (None, ds) | Some d \<Rightarrow> (Some (f d), update_one P f ds))"

lemma find_one_SomeD: "find_one P ds = Some d \<Longrightarrow> P d \<and> d \<in> set ds"
  by (induction ds) (auto split: if_splits)

lemma find_one_append:
  "find_one P (ds @ es) = (case find_one P ds of None \<Rightarrow> find_one P es | Some d \<Rightarrow> Some d)"
  by (induction ds) auto

lemma update_one_no_match: "find_one P ds = None \<Longrightarrow> update_one P f ds = ds"
  by (induction ds) (auto split: if_splits)

lemma length_update_one [simp]: "length (update_one P f ds) = length ds"
  by (induction ds) auto

lemma update_one_keys:
  assumes "\<And>d. k (f d) = k d"
  shows "map k (update_one P f ds) = map k ds"
  by (induction ds) (auto simp: assms)

lemma update_many_keys:
  assumes "\<And>d. k (f d) = k d"
  shows "map k (update_many P f ds) = map k ds"
  by (induction ds) (auto simp: assms update_many_def)

lemma set_update_one: "d \<in> set (update_one P f ds) \<Longrightarrow> d \<in> set ds \<or> (\<exists>e\<in>set ds. P e \<and> d = f e)"
  by (induction ds) (auto split: if_splits)

lemma set_update_many: "d \<in> set (update_many P f ds) \<Longrightarrow> d \<in> set ds \<or> (\<exists>e\<in>set ds. P e \<and> d = f e)"
  by (auto simp: update_many_def split: if_splits)

text \<open>Look-ups by a key that the update does not change.\<close>

lemma find_key_update_one_other:
  assumes "\<And>d. k (f d) = k d" and "\<And>d. P d \<Longrightarrow> k d \<noteq> x"
  shows "find_one (\<lambda>d. k d = x) (update_one P f ds) = find_one (\<lambda>d. k d = x) ds"
  using assms by (induction ds) auto

lemma find_key_update_one:
  assumes "\<And>d. k (f d) = k d" and "\<And>d. P d \<Longrightarrow> k d = x"
    and "find_one (\<lambda>d. k d = x) ds = Some d" and "P d"
  shows "find_one (\<lambda>d. k d = x) (update_one P f ds) = Some (f d)"
  using assms(3,4)
proof (induction ds)
  case Nil
  then show ?case by simp
next
  case (Cons e ds)
  show ?case
  proof (cases "k e = x")
    case True
    with Cons.prems have "e = d" by simp
    with True Cons.prems show ?thesis by (simp add: assms(1))
  next
    case False
    then have "\<not> P e" using assms(2) by blast
    with False Cons show ?thesis by simp
  qed
qed

lemma find_key_update_one_map:
  assumes "\<And>d. k (f d) = k d"
  shows "find_one (\<lambda>d. k d = x) (update_one (\<lambda>d. k d = x) f ds)
           = map_option f (find_one (\<lambda>d. k d = x) ds)"
  by (induction ds) (auto simp: assms)

lemma find_key_update_one_cases:
  assumes "\<And>d. k (f d) = k d"
  shows "find_one (\<lambda>d. k d = x) (update_one P f ds) = find_one (\<lambda>d. k d = x) ds
    \<or> (\<exists>d. find_one (\<lambda>d. k d = x) ds = Some d \<and> P d
          \<and> find_one (\<lambda>d. k d = x) (update_one P f ds) = Some (f d))"
  by (induction ds) (auto simp: assms)

lemma find_key_update_many:
  assumes "\<And>d. k (f d) = k d"
  shows "find_one (\<lambda>d. k d = x) (update_many P f ds) =
           map_option (\<lambda>d. if P d then f d else d) (find_one (\<lambda>d. k d = x) ds)"
  by (induction ds) (auto simp: update_many_def assms)

lemma find_key_unique:
  assumes "distinct (map k ds)" and "d \<in> set ds"
  shows "find_one (\<lambda>e. k e = k d) ds = Some d"
  using assms by (induction ds) auto

lemma filter_key_unique:
  assumes "distinct (map k ds)" and "d \<in> set ds"
  shows "filter (\<lambda>e. k e = k d) ds = [d]"
  using assms by (induction ds) (auto simp: filter_empty_conv image_iff)

lemma update_one_by_key:
  assumes "distinct (map k ds)"
  shows "update_one (\<lambda>d. k d = x) f ds = map (\<lambda>d. if k d = x then f d else d) ds"
  using assms by (induction ds) (auto simp: image_iff intro!: map_idI [symmetric])

lemma update_one_guarded_key:
  assumes "distinct (map k ds)" and "find_one P ds = Some d" and "\<And>e. P e \<Longrightarrow> k e = k d"
  shows "update_one P f ds = map (\<lambda>e. if k e = k d then f e else e) ds"
  using assms(1,2)
proof (induction ds)
  case (Cons e ds)
  show ?case
  proof (cases "P e")
    case True
    with Cons.prems have "e = d" by simp
    with Cons.prems True show ?thesis by (auto simp: image_iff intro!: map_idI [symmetric])
  next
    case False
    with Cons.prems have d: "find_one P ds = Some d" by simp
    with Cons.prems have "k e \<noteq> k d" using find_one_SomeD [OF d] by (auto simp: image_iff)
    with Cons d False show ?thesis by simp
  qed
qed simp

lemma find_after_update:
  assumes "find_one Q ds = Some d" and "distinct (map k ds)" and "\<And>e. Q (f e) = Q e"
  shows "find_one Q (update_one (\<lambda>e. k e = k d) f ds) = Some (f d)"
  using assms(1,2)
proof (induction ds)
  case Nil
  then show ?case by simp
next
  case (Cons e ds)
  show ?case
  proof (cases "Q e")
    case True
    with Cons.prems assms(3) show ?thesis by simp
  next
    case False
    with Cons.prems have d: "find_one Q ds = Some d" by simp
    then have "k e \<noteq> k d" using Cons.prems(2) find_one_SomeD [OF d] by (auto simp: image_iff)
    with False Cons d show ?thesis by simp
  qed
qed

lemma find_key_guarded:
  assumes "distinct (map k ds)"
  shows "find_one (\<lambda>d. k d = x \<and> Q d) ds =
    (case find_one (\<lambda>d. k d = x) ds of
       None \<Rightarrow> None | Some d \<Rightarrow> if Q d then Some d else None)"
  using assms
proof (induction ds)
  case Nil
  then show ?case by simp
next
  case (Cons e ds)
  have "k e = x \<Longrightarrow> find_one (\<lambda>d. k d = x \<and> Q d) ds = None"
    using Cons.prems by (auto simp: find_None_iff image_iff)
  with Cons show ?case by auto
qed

text \<open>How the documents of a collection evolve, one by one.\<close>

lemma list_all2_update_one:
  assumes "\<And>r. P r r" and "\<And>r. Q r \<Longrightarrow> P r (f r)"
  shows "list_all2 P rs (update_one Q f rs)"
  using assms by (induction rs) (auto simp: list_all2_refl)

lemma list_all2_stored: "list_all2 P xs ys \<Longrightarrow> x \<in> set xs \<Longrightarrow> \<exists>y\<in>set ys. P x y"
  by (induction xs ys rule: list_all2_induct) auto

lemma list_all2_origin: "list_all2 P xs ys \<Longrightarrow> y \<in> set ys \<Longrightarrow> \<exists>x\<in>set xs. P x y"
  by (induction xs ys rule: list_all2_induct) auto

subsection \<open>Driver errors and sessions\<close>

record driver_error =
  code :: "int option"
  codeName :: "string option"
  errorLabels :: "string list"

definition write_conflict :: "driver_error \<Rightarrow> bool" where
  "write_conflict e \<longleftrightarrow>
     code e = Some 112 \<or> codeName e = Some ''WriteConflict'' \<or>
     ''TransientTransactionError'' \<in> set (errorLabels e)"

text \<open>
  \<open>runInSession\<close>: inside a caller's session the function simply runs; otherwise it runs
  in a transaction of its own, which is committed when the function returns and aborted
  when it throws or when the commit itself fails (\<open>fault\<close>).  \<open>rollback s s'\<close> is the state
  after an abort: \<open>s\<close> with what was written outside the session.
\<close>

definition run_in_session ::
  "('s \<Rightarrow> 's \<Rightarrow> 's) \<Rightarrow> 'e option \<Rightarrow> bool \<Rightarrow> ('s \<Rightarrow> ('e + 'a) \<times> 's) \<Rightarrow> 's \<Rightarrow> ('e + 'a) \<times> 's" where
  "run_in_session rollback fault existing fn s =
     (if existing then fn s
      else case fn s of
        (Inl e, s') \<Rightarrow> (Inl e, rollback s s')
      | (Inr a, s') \<Rightarrow> (case fault of
            None \<Rightarrow> (Inr a, s')
          | Some e \<Rightarrow> (Inl e, rollback s s')))"

lemma run_in_session_Inr:
  "run_in_session rb fault ex fn s = (Inr a, s') \<Longrightarrow> fn s = (Inr a, s')"
  by (auto simp: run_in_session_def split: if_splits prod.splits sum.splits option.splits)

lemma run_in_session_Inl_own:
  "run_in_session rb fault False fn s = (Inl e, s') \<Longrightarrow> \<exists>s1. s' = rb s s1"
  by (auto simp: run_in_session_def split: prod.splits sum.splits option.splits)

lemma run_in_session_state:
  "snd (run_in_session rb fault ex fn s) \<in> {snd (fn s), rb s (snd (fn s))}"
  by (auto simp: run_in_session_def split: if_splits prod.splits sum.splits option.splits)

subsection \<open>The audit log\<close>

datatype meta = MStr string | MNum rat | MBool bool | MNull

record audit_event =
  ev_actor :: "(string \<times> string option) option"
  ev_action :: string
  ev_targetType :: string
  ev_targetId :: "string option"
  ev_success :: bool
  ev_meta :: "(string \<times> meta) list"

record audit_row =
  ar_actorId :: "string option"
  ar_actorRole :: "string option"
  ar_event :: audit_event

text \<open>
  The surroundings of a call: the clock, the \<open>ObjectId\<close> syntax check of the driver, the
  outcome of the tamper-evident write and of the plain audit-log write, the environment
  variable \<open>CRITICAL_AUDIT_ACTIONS\<close>, and the outcome of the commit.
\<close>

record env =
  now :: time
  valid_oid :: "string \<Rightarrow> bool"
  tamper_ok :: "audit_event \<Rightarrow> bool"
  auditlog_ok :: bool
  critical_cfg :: "string option"
  commit_fault :: "driver_error option"

definition to_lower_char :: "char \<Rightarrow> char" where
  "to_lower_char c = (let n = of_char c in if 65 \<le> n \<and> n \<le> (90::nat) then char_of (n + 32) else c)"

definition js_lower :: "string \<Rightarrow> string" where
  "js_lower s = map to_lower_char s"

fun str_includes :: "string \<Rightarrow> string \<Rightarrow> bool" where
  "str_includes p [] = (p = [])"
| "str_includes p (c # cs) = (prefix p (c # cs) \<or> str_includes p cs)"

lemma str_includes_sublist: "str_includes p s = sublist p s"
  by (induction s) (auto simp: sublist_Cons_right)

fun js_split :: "char \<Rightarrow> string \<Rightarrow> string list" where
  "js_split c [] = [[]]"
| "js_split c (x # xs) =
     (if x = c then [] # js_split c xs
      else (case js_split c xs of [] \<Rightarrow> [[x]] | w # ws \<Rightarrow> (x # w) # ws))"

definition default_critical_action_patterns :: "string list" where
  "default_critical_action_patterns =
     [''kyc'', ''wallet'', ''repayment'', ''payout'', ''loan'', ''asset'', ''investment'',
      ''contract'', ''admin'', ''user.role'', ''notification.broadcast'', ''email.send'']"

definition is_critical_audit_action :: "string option \<Rightarrow> string \<Rightarrow> bool" where
  "is_critical_audit_action cfg action =
     (let configured = (case cfg of None \<Rightarrow> []
            | Some s \<Rightarrow> filter (\<lambda>v. v \<noteq> []) (map (\<lambda>v. js_lower (js_trim v)) (js_split (CHR '','') s)));
          patterns = (if configured \<noteq> [] then configured else default_critical_action_patterns);
          normalized = js_lower action
      in \<exists>p \<in> set patterns. str_includes p normalized)"

definition audit_row_of :: "audit_event \<Rightarrow> audit_row" where
  "audit_row_of ev =
     \<lparr> ar_actorId = map_option fst (ev_actor ev),
       ar_actorRole = (case ev_actor ev of
          Some (_, Some r) \<Rightarrow> if r \<in> {''admin'', ''driver'', ''investor''} then Some r else None
        | _ \<Rightarrow> None),
       ar_event = ev \<rparr>"

text \<open>
  \<open>logAuditEvent\<close>: the tamper-evident entry comes first, and its failure is fatal for a
  critical action; the plain row comes second, outside any session, and its failure is only
  logged (the rethrow of the code needs a failed tamper-evident write of a critical action,
  which has thrown already).  \<open>None\<close> is the \<open>CRITICAL_AUDIT_FAILURE\<close> exception.
\<close>

definition log_audit_event ::
  "env \<Rightarrow> bool option \<Rightarrow> audit_event \<Rightarrow> audit_row list \<Rightarrow> audit_row list option" where
  "log_audit_event E criticalAction ev rows =
     (let mustWrite = (case criticalAction of Some b \<Rightarrow> b
                       | None \<Rightarrow> is_critical_audit_action (critical_cfg E) (ev_action ev))
      in if \<not> tamper_ok E ev \<and> mustWrite then None
         else if auditlog_ok E then Some (rows @ [audit_row_of ev])
         else Some rows)"

lemma log_audit_event_extends:
  "log_audit_event E c ev rows = Some rows' \<Longrightarrow> \<exists>new. rows' = rows @ new"
  by (auto simp: log_audit_event_def Let_def split: if_splits)

definition truthy :: "string option \<Rightarrow> bool" where
  "truthy s \<longleftrightarrow> (case s of None \<Rightarrow> False | Some x \<Rightarrow> x \<noteq> [])"

lemma truthyE: "truthy s \<Longrightarrow> (\<And>x. s = Some x \<Longrightarrow> x \<noteq> [] \<Longrightarrow> P) \<Longrightarrow> P"
  by (cases s) (auto simp: truthy_def)

end
