(* ===== verification/Domain_Lifecycles.thy ===== *)
theory Domain_Lifecycles
  imports Prelude
begin

text \<open>
  The status tables of loans, vehicles, vehicle funding and investments
  (\<open>lib/domain/*-state-machine.ts\<close>): who may follow whom, who may drive a transition,
  which states are final.  Each table is an instance of the locale \<open>lifecycle\<close>.
\<close>

subsection \<open>Loans\<close>

datatype loan_status =
  Loan_Pending | Loan_Under_Review | Loan_Approved | Loan_Rejected
| Loan_Active | Loan_Completed | Loan_Cancelled

datatype loan_actor = Loan_Driver | Loan_Admin | Loan_System

fun LOAN_VALID_TRANSITIONS :: "loan_status \<Rightarrow> loan_status list" where
  "LOAN_VALID_TRANSITIONS Loan_Pending = [Loan_Under_Review, Loan_Rejected, Loan_Cancelled]"
| "LOAN_VALID_TRANSITIONS Loan_Under_Review = [Loan_Approved, Loan_Rejected, Loan_Cancelled]"
| "LOAN_VALID_TRANSITIONS Loan_Approved = [Loan_Active, Loan_Rejected, Loan_Cancelled]"
| "LOAN_VALID_TRANSITIONS Loan_Active = [Loan_Completed]"
| "LOAN_VALID_TRANSITIONS Loan_Rejected = []"
| "LOAN_VALID_TRANSITIONS Loan_Completed = []"
| "LOAN_VALID_TRANSITIONS Loan_Cancelled = []"

fun LOAN_TRANSITION_ACTORS :: "loan_status \<Rightarrow> loan_actor list" where
  "LOAN_TRANSITION_ACTORS Loan_Pending = []"
| "LOAN_TRANSITION_ACTORS Loan_Under_Review = [Loan_Admin]"
| "LOAN_TRANSITION_ACTORS Loan_Approved = [Loan_Admin]"
| "LOAN_TRANSITION_ACTORS Loan_Rejected = [Loan_Admin]"
| "LOAN_TRANSITION_ACTORS Loan_Active = [Loan_Admin, Loan_System]"
| "LOAN_TRANSITION_ACTORS Loan_Completed = [Loan_Admin, Loan_System]"
| "LOAN_TRANSITION_ACTORS Loan_Cancelled = [Loan_Admin, Loan_Driver]"

definition TERMINAL_LOAN_STATES :: "loan_status list" where
  "TERMINAL_LOAN_STATES = [Loan_Rejected, Loan_Completed, Loan_Cancelled]"

definition PRE_ACTIVE_LOAN_STATES :: "loan_status list" where
  "PRE_ACTIVE_LOAN_STATES = [Loan_Pending, Loan_Under_Review, Loan_Approved]"

definition isValidLoanTransition :: "loan_status option \<Rightarrow> loan_status \<Rightarrow> bool" where
  "isValidLoanTransition frm to =
     (case frm of None \<Rightarrow> True
      | Some f \<Rightarrow> f = to \<or> to \<in> set (LOAN_VALID_TRANSITIONS f))"

definition isLoanActorAllowed ::
  "loan_status \<Rightarrow> loan_status option \<Rightarrow> loan_actor \<Rightarrow> bool" where
  "isLoanActorAllowed targetState fromState actorType =
     (if actorType \<notin> set (LOAN_TRANSITION_ACTORS targetState) then False
      else if targetState = Loan_Cancelled \<and> actorType = Loan_Driver
      then (case fromState of None \<Rightarrow> False | Some f \<Rightarrow> f \<in> set PRE_ACTIVE_LOAN_STATES)
      else True)"

definition isTerminalLoanState :: "loan_status \<Rightarrow> bool" where
  "isTerminalLoanState s \<longleftrightarrow> s \<in> set TERMINAL_LOAN_STATES"

definition isRepayableLoanState :: "loan_status option \<Rightarrow> bool" where
  "isRepayableLoanState s \<longleftrightarrow> s = Some Loan_Active"

interpretation loan_life:
  lifecycle LOAN_VALID_TRANSITIONS isValidLoanTransition isTerminalLoanState
proof unfold_locales
  show "isTerminalLoanState s \<longleftrightarrow> LOAN_VALID_TRANSITIONS s = []" for s
    by (cases s) (auto simp: isTerminalLoanState_def TERMINAL_LOAN_STATES_def)
qed (auto simp: isValidLoanTransition_def)

text \<open>A loan makes at most four moves: the table strictly descends in this rank.\<close>

fun loan_rank :: "loan_status \<Rightarrow> nat" where
  "loan_rank Loan_Pending = 4"
| "loan_rank Loan_Under_Review = 3"
| "loan_rank Loan_Approved = 2"
| "loan_rank Loan_Active = 1"
| "loan_rank _ = 0"

lemma loan_rank_decreases: "t \<in> set (LOAN_VALID_TRANSITIONS s) \<Longrightarrow> loan_rank t < loan_rank s"
  by (cases s) auto

text \<open>The states before a given one are forced by the table.\<close>

lemma loan_into_active: "Loan_Active \<in> set (LOAN_VALID_TRANSITIONS s) \<longleftrightarrow> s = Loan_Approved"
  by (cases s) auto

lemma loan_into_completed: "Loan_Completed \<in> set (LOAN_VALID_TRANSITIONS s) \<longleftrightarrow> s = Loan_Active"
  by (cases s) auto

lemma loan_into_approved: "Loan_Approved \<in> set (LOAN_VALID_TRANSITIONS s) \<longleftrightarrow> s = Loan_Under_Review"
  by (cases s) auto

lemma loan_into_pending [simp]: "Loan_Pending \<notin> set (LOAN_VALID_TRANSITIONS s)"
  by (cases s) auto

subsection \<open>Vehicles\<close>

datatype vehicle_status =
  Veh_Available | Veh_Reserved | Veh_Financed | Veh_Maintenance | Veh_Retired

datatype vehicle_funding = Fund_Open | Fund_Funded | Fund_Active

datatype vehicle_actor = Veh_Admin | Veh_System

fun VEHICLE_VALID_TRANSITIONS :: "vehicle_status \<Rightarrow> vehicle_status list" where
  "VEHICLE_VALID_TRANSITIONS Veh_Available = [Veh_Reserved, Veh_Maintenance, Veh_Retired]"
| "VEHICLE_VALID_TRANSITIONS Veh_Reserved = [Veh_Available, Veh_Financed, Veh_Maintenance]"
| "VEHICLE_VALID_TRANSITIONS Veh_Financed = [Veh_Available, Veh_Maintenance, Veh_Retired]"
| "VEHICLE_VALID_TRANSITIONS Veh_Maintenance = [Veh_Available, Veh_Retired]"
| "VEHICLE_VALID_TRANSITIONS Veh_Retired = []"

fun VEHICLE_TRANSITION_ACTORS :: "vehicle_status \<Rightarrow> vehicle_actor list" where
  "VEHICLE_TRANSITION_ACTORS Veh_Available = [Veh_Admin, Veh_System]"
| "VEHICLE_TRANSITION_ACTORS Veh_Reserved = [Veh_Admin, Veh_System]"
| "VEHICLE_TRANSITION_ACTORS Veh_Financed = [Veh_Admin, Veh_System]"
| "VEHICLE_TRANSITION_ACTORS Veh_Maintenance = [Veh_Admin]"
| "VEHICLE_TRANSITION_ACTORS Veh_Retired = [Veh_Admin]"

fun VEHICLE_FUNDING_TRANSITIONS :: "vehicle_funding \<Rightarrow> vehicle_funding list" where
  "VEHICLE_FUNDING_TRANSITIONS Fund_Open = [Fund_Funded]"
| "VEHICLE_FUNDING_TRANSITIONS Fund_Funded = [Fund_Active, Fund_Open]"
| "VEHICLE_FUNDING_TRANSITIONS Fund_Active = [Fund_Funded]"

definition isValidVehicleTransition :: "vehicle_status option \<Rightarrow> vehicle_status \<Rightarrow> bool" where
  "isValidVehicleTransition frm to =
     (case frm of None \<Rightarrow> True
      | Some f \<Rightarrow> f = to \<or> to \<in> set (VEHICLE_VALID_TRANSITIONS f))"

definition isVehicleActorAllowed :: "vehicle_status \<Rightarrow> vehicle_actor \<Rightarrow> bool" where
  "isVehicleActorAllowed targetState actorType \<longleftrightarrow>
     actorType \<in> set (VEHICLE_TRANSITION_ACTORS targetState)"

definition isValidVehicleFundingTransition ::
  "vehicle_funding \<Rightarrow> vehicle_funding \<Rightarrow> bool" where
  "isValidVehicleFundingTransition frm to \<longleftrightarrow>
     frm = to \<or> to \<in> set (VEHICLE_FUNDING_TRANSITIONS frm)"

definition isTerminalVehicleStatus :: "vehicle_status \<Rightarrow> bool" where
  "isTerminalVehicleStatus s \<longleftrightarrow> s = Veh_Retired"

interpretation vehicle_life:
  lifecycle VEHICLE_VALID_TRANSITIONS isValidVehicleTransition isTerminalVehicleStatus
proof unfold_locales
  show "isTerminalVehicleStatus s \<longleftrightarrow> VEHICLE_VALID_TRANSITIONS s = []" for s
    by (cases s) (auto simp: isTerminalVehicleStatus_def)
qed (auto simp: isValidVehicleTransition_def)

text \<open>Funding has no final state and is checked without an absent source state.\<close>

interpretation vehicle_funding_life:
  lifecycle VEHICLE_FUNDING_TRANSITIONS
    "\<lambda>f t. case f of None \<Rightarrow> True | Some s \<Rightarrow> isValidVehicleFundingTransition s t" "\<lambda>_. False"
proof unfold_locales
  show "False \<longleftrightarrow> VEHICLE_FUNDING_TRANSITIONS s = []" for s
    by (cases s) auto
qed (auto simp: isValidVehicleFundingTransition_def)

lemma vehicle_into_financed:
  "Veh_Financed \<in> set (VEHICLE_VALID_TRANSITIONS s) \<longleftrightarrow> s = Veh_Reserved"
  by (cases s) auto

subsection \<open>Investments\<close>

datatype investment_status = Inv_Funding | Inv_Active | Inv_Completed

datatype investment_actor = Inv_Admin | Inv_System

fun INVESTMENT_VALID_TRANSITIONS :: "investment_status \<Rightarrow> investment_status list" where
  "INVESTMENT_VALID_TRANSITIONS Inv_Funding = [Inv_Active]"
| "INVESTMENT_VALID_TRANSITIONS Inv_Active = [Inv_Completed]"
| "INVESTMENT_VALID_TRANSITIONS Inv_Completed = []"

fun INVESTMENT_TRANSITION_ACTORS :: "investment_status \<Rightarrow> investment_actor list" where
  "INVESTMENT_TRANSITION_ACTORS Inv_Funding = []"
| "INVESTMENT_TRANSITION_ACTORS Inv_Active = [Inv_Admin, Inv_System]"
| "INVESTMENT_TRANSITION_ACTORS Inv_Completed = [Inv_Admin, Inv_System]"

definition isValidInvestmentTransition ::
  "investment_status option \<Rightarrow> investment_status \<Rightarrow> bool" where
  "isValidInvestmentTransition frm to =
     (case frm of None \<Rightarrow> True
      | Some f \<Rightarrow> f = to \<or> to \<in> set (INVESTMENT_VALID_TRANSITIONS f))"

definition isInvestmentActorAllowed :: "investment_status \<Rightarrow> investment_actor \<Rightarrow> bool" where
  "isInvestmentActorAllowed targetState actorType \<longleftrightarrow>
     actorType \<in> set (INVESTMENT_TRANSITION_ACTORS targetState)"

definition isTerminalInvestmentState :: "investment_status \<Rightarrow> bool" where
  "isTerminalInvestmentState s \<longleftrightarrow> s = Inv_Completed"

interpretation investment_life:
  lifecycle INVESTMENT_VALID_TRANSITIONS isValidInvestmentTransition isTerminalInvestmentState
proof unfold_locales
  show "isTerminalInvestmentState s \<longleftrightarrow> INVESTMENT_VALID_TRANSITIONS s = []" for s
    by (cases s) (auto simp: isTerminalInvestmentState_def)
qed (auto simp: isValidInvestmentTransition_def)

subsection \<open>Loan histories\<close>

text \<open>
  A loan history that starts in Pending and follows the table has at most four moves,
  cannot move on from a final state, and when it ends in Completed it went through
  Under Review, Approved and Active, in this order.
\<close>

lemma loan_history_shape:
  assumes "walk LOAN_VALID_TRANSITIONS (Loan_Pending # ss)"
  shows "length ss \<le> 4
    \<and> (\<forall>s \<in> set (butlast (Loan_Pending # ss)). \<not> isTerminalLoanState s)
    \<and> (last (Loan_Pending # ss) = Loan_Completed \<longrightarrow>
        ss = [Loan_Under_Review, Loan_Approved, Loan_Active, Loan_Completed])"
proof -
  have len: "length ss \<le> 4"
    using walk_rank_bound [of LOAN_VALID_TRANSITIONS loan_rank, OF loan_rank_decreases assms] by simp
  have fin: "\<forall>s \<in> set (butlast (Loan_Pending # ss)). \<not> isTerminalLoanState s"
    using loan_life.terminal_only_last [OF assms] by blast
  have "ss = [Loan_Under_Review, Loan_Approved, Loan_Active, Loan_Completed]"
    if compl: "last (Loan_Pending # ss) = Loan_Completed"
  proof -
    have "length ss = 0 \<or> length ss = 1 \<or> length ss = 2 \<or> length ss = 3 \<or> length ss = 4"
      using len by linarith
    then show ?thesis
      using assms compl
      by (elim disjE) (auto simp: length_Suc_conv eval_nat_numeral)
  qed
  with len fin show ?thesis by blast
qed

end
