(* ===== verification/Domain_Services.thy ===== *)
theory Domain_Services
  imports Platform Domain_Lifecycles
begin

text \<open>
  The transition services of \<open>lib/domain\<close>: \<open>transitionInvestment\<close>, \<open>transitionVehicle\<close>,
  \<open>transitionVehicleFunding\<close> and \<open>transitionLoan\<close>, each as a function from the
  surroundings (\<open>env\<close>), its input and the database state to a result or an error and the
  next state.  The handlers are followed by inversion lemmas (\<open>*_succeeds\<close>) that the
  properties of the next theory build on.
\<close>

subsection \<open>Errors (\<open>transition-error.ts\<close>)\<close>

datatype err_code =
  REASON_REQUIRED | INVALID_INPUT | NOT_FOUND | INVALID_TRANSITION | FORBIDDEN_ACTOR
| PRECONDITION_FAILED | CONCURRENCY_CONFLICT

datatype domain_error =
  DomainTransitionError err_code
| DomainConcurrencyError string
| DriverFailure driver_error
| CriticalAuditFailure

fun isWriteConflict :: "domain_error \<Rightarrow> bool" where
  "isWriteConflict (DriverFailure d) = write_conflict d"
| "isWriteConflict _ = False"

text \<open>The \<open>code\<close> field: a concurrency error is a transition error with its own code.\<close>

fun error_code :: "domain_error \<Rightarrow> err_code option" where
  "error_code (DomainTransitionError c) = Some c"
| "error_code (DomainConcurrencyError _) = Some CONCURRENCY_CONFLICT"
| "error_code _ = None"

subsection \<open>The documents\<close>

record loan =
  l_id :: oid
  l_driverId :: oid
  l_vehicleId :: oid
  l_requestedAmount :: rat
  l_totalFunded :: rat
  l_status :: loan_status
  l_version :: "nat option"
  l_downPaymentMade :: bool
  l_adminNotes :: "string option"
  l_reviewedDate :: "time option"
  l_approvedDate :: "time option"

record vehicle =
  v_id :: oid
  v_status :: vehicle_status
  v_fundingStatus :: vehicle_funding
  v_driverId :: "oid option"
  v_version :: "nat option"

record investment =
  i_id :: oid
  i_loanId :: "oid option"
  i_vehicleId :: oid
  i_amount :: rat
  i_status :: "investment_status option"
  i_version :: "nat option"

datatype entity_state =
  LoanState loan_status | VehicleState vehicle_status | InvestmentState investment_status

record history_entry =
  h_entityId :: oid
  h_fromState :: entity_state
  h_toState :: entity_state
  h_actorType :: string
  h_actorId :: "oid option"
  h_reason :: string
  h_correlationId :: "string option"
  h_metadata :: "(string \<times> meta) list option"
  h_timestamp :: time

record db =
  loans :: "loan list"
  vehicles :: "vehicle list"
  investments :: "investment list"
  history :: "history_entry list"
  audits :: "audit_row list"

text \<open>
  An aborted transaction undoes everything but the audit rows, which no session covers.  Every other
  write of the services passes \<open>{ session }\<close>; the model takes this from the code and does not track
  the session of a single write.
\<close>

definition rollback :: "db \<Rightarrow> db \<Rightarrow> db" where
  "rollback s s' = s\<lparr>audits := audits s'\<rparr>"

definition toObjectId :: "env \<Rightarrow> string \<Rightarrow> domain_error + oid" where
  "toObjectId E v = (if valid_oid E v then Inr v else Inl (DomainTransitionError INVALID_INPUT))"

subsection \<open>Status names\<close>

fun entity_state_name :: "entity_state \<Rightarrow> string" where
  "entity_state_name (LoanState Loan_Pending) = ''Pending''"
| "entity_state_name (LoanState Loan_Under_Review) = ''Under Review''"
| "entity_state_name (LoanState Loan_Approved) = ''Approved''"
| "entity_state_name (LoanState Loan_Rejected) = ''Rejected''"
| "entity_state_name (LoanState Loan_Active) = ''Active''"
| "entity_state_name (LoanState Loan_Completed) = ''Completed''"
| "entity_state_name (LoanState Loan_Cancelled) = ''Cancelled''"
| "entity_state_name (VehicleState Veh_Available) = ''Available''"
| "entity_state_name (VehicleState Veh_Reserved) = ''Reserved''"
| "entity_state_name (VehicleState Veh_Financed) = ''Financed''"
| "entity_state_name (VehicleState Veh_Maintenance) = ''Maintenance''"
| "entity_state_name (VehicleState Veh_Retired) = ''Retired''"
| "entity_state_name (InvestmentState Inv_Funding) = ''Funding''"
| "entity_state_name (InvestmentState Inv_Active) = ''Active''"
| "entity_state_name (InvestmentState Inv_Completed) = ''Completed''"

fun funding_name :: "vehicle_funding \<Rightarrow> string" where
  "funding_name Fund_Open = ''Open''"
| "funding_name Fund_Funded = ''Funded''"
| "funding_name Fund_Active = ''Active''"

fun loan_actor_name :: "loan_actor \<Rightarrow> string" where
  "loan_actor_name Loan_Driver = ''driver''"
| "loan_actor_name Loan_Admin = ''admin''"
| "loan_actor_name Loan_System = ''system''"

fun vehicle_actor_name :: "vehicle_actor \<Rightarrow> string" where
  "vehicle_actor_name Veh_Admin = ''admin''"
| "vehicle_actor_name Veh_System = ''system''"

fun investment_actor_name :: "investment_actor \<Rightarrow> string" where
  "investment_actor_name Inv_Admin = ''admin''"
| "investment_actor_name Inv_System = ''system''"

text \<open>\<open>s.replace(/\s+/g, "_")\<close>: every run of white space becomes one underscore.\<close>

fun ws_to_underscore :: "string \<Rightarrow> string" where
  "ws_to_underscore [] = []"
| "ws_to_underscore [c] = (if is_ws c then ''_'' else [c])"
| "ws_to_underscore (c # d # cs) =
     (if is_ws c then (if is_ws d then ws_to_underscore (d # cs)
                       else CHR ''_'' # ws_to_underscore (d # cs))
      else c # ws_to_underscore (d # cs))"

subsection \<open>The tail every service shares\<close>

text \<open>
  After the conditional update a service appends one \<open>StateTransitionHistory\<close> row (in the
  session; an actor id that is not an \<open>ObjectId\<close> throws here), then writes the audit event.
\<close>

record transition_note =
  n_entityId :: oid
  n_from :: entity_state
  n_to :: entity_state
  n_actorType :: string
  n_actorId :: "string option"
  n_reason :: string
  n_correlationId :: "string option"
  n_metadata :: "(string \<times> meta) list option"
  n_action :: string
  n_targetType :: string
  n_command :: string

definition note_history :: "env \<Rightarrow> transition_note \<Rightarrow> oid option \<Rightarrow> history_entry" where
  "note_history E n a =
     \<lparr> h_entityId = n_entityId n, h_fromState = n_from n, h_toState = n_to n,
       h_actorType = n_actorType n, h_actorId = a, h_reason = js_trim (n_reason n),
       h_correlationId = n_correlationId n, h_metadata = n_metadata n, h_timestamp = now E \<rparr>"

definition note_event :: "transition_note \<Rightarrow> audit_event" where
  "note_event n =
     \<lparr> ev_actor = (if truthy (n_actorId n) then Some (the (n_actorId n), Some (n_actorType n)) else None),
       ev_action = n_action n,
       ev_targetType = n_targetType n,
       ev_targetId = Some (n_entityId n),
       ev_success = True,
       ev_meta =
         [(''fromState'', MStr (entity_state_name (n_from n))),
          (''toState'', MStr (entity_state_name (n_to n))),
          (''command'', MStr (n_command n)),
          (''reason'', MStr (n_reason n)),
          (''actorType'', MStr (n_actorType n))]
         @ (case n_correlationId n of None \<Rightarrow> [] | Some c \<Rightarrow> [(''correlationId'', MStr c)]) \<rparr>"

definition record_transition :: "env \<Rightarrow> transition_note \<Rightarrow> db \<Rightarrow> (domain_error + unit) \<times> db" where
  "record_transition E n s =
     (case (if truthy (n_actorId n) then map_sum id Some (toObjectId E (the (n_actorId n)))
            else Inr None) of
        Inl e \<Rightarrow> (Inl e, s)
      | Inr a \<Rightarrow>
          (let s1 = s\<lparr>history := history s @ [note_history E n a]\<rparr> in
           case log_audit_event E None (note_event n) (audits s1) of
             None \<Rightarrow> (Inl CriticalAuditFailure, s1)
           | Some rows \<Rightarrow> (Inr (), s1\<lparr>audits := rows\<rparr>)))"

lemma record_transition_Inr:
  assumes "record_transition E n s = (Inr (), s')"
  obtains a rows where "s' = s\<lparr>history := history s @ [note_history E n a], audits := audits s @ rows\<rparr>"
  using assms log_audit_event_extends
  by (fastforce simp: record_transition_def Let_def split: sum.splits option.splits if_splits)

lemma record_transition_frame:
  assumes "record_transition E n s = (r, s')"
  shows "loans s' = loans s \<and> vehicles s' = vehicles s \<and> investments s' = investments s"
  using assms
  by (auto simp: record_transition_def Let_def split: sum.splits option.splits if_splits)

text \<open>The catch clause of the services: a driver's write conflict is a concurrency error.\<close>

fun catch_conflict :: "string \<Rightarrow> (domain_error + 'a) \<times> db \<Rightarrow> (domain_error + 'a) \<times> db" where
  "catch_conflict entity (Inl e, s) =
     (Inl (if isWriteConflict e then DomainConcurrencyError entity else e), s)"
| "catch_conflict entity (Inr a, s) = (Inr a, s)"

lemma catch_conflict_Inr_iff: "catch_conflict entity p = (Inr a, s) \<longleftrightarrow> p = (Inr a, s)"
  by (cases "(entity, p)" rule: catch_conflict.cases) auto

lemma snd_catch_conflict [simp]: "snd (catch_conflict entity p) = snd p"
  by (cases "(entity, p)" rule: catch_conflict.cases) auto

definition in_own_session ::
  "env \<Rightarrow> string \<Rightarrow> bool \<Rightarrow> (db \<Rightarrow> (domain_error + 'a) \<times> db) \<Rightarrow> db \<Rightarrow> (domain_error + 'a) \<times> db" where
  "in_own_session E entity existing body s =
     catch_conflict entity
       (run_in_session rollback (map_option DriverFailure (commit_fault E)) existing body s)"

lemma in_own_session_Inr: "in_own_session E ent ex body s = (Inr a, s') \<Longrightarrow> body s = (Inr a, s')"
  by (auto simp: in_own_session_def catch_conflict_Inr_iff dest: run_in_session_Inr)

lemma in_own_session_state:
  "snd (in_own_session E ent ex body s) \<in> {snd (body s), rollback s (snd (body s))}"
  using run_in_session_state by (simp add: in_own_session_def)

lemma in_own_session_Inl:
  assumes "in_own_session E ent False body s = (Inl e, s')"
  shows "\<exists>s1. s' = rollback s s1"
proof -
  obtain r s1 where run: "run_in_session rollback (map_option DriverFailure (commit_fault E)) False body s = (r, s1)"
    by (cases "run_in_session rollback (map_option DriverFailure (commit_fault E)) False body s") auto
  with assms have "s' = s1" and "\<exists>e'. r = Inl e'"
    by (cases r; auto simp: in_own_session_def)+
  with run show ?thesis by (auto dest: run_in_session_Inl_own)
qed


subsection \<open>Investments (\<open>investment-transition-service.ts\<close>)\<close>

datatype investment_command = Inv_activate | Inv_complete

fun investment_target :: "investment_command \<Rightarrow> investment_status" where
  "investment_target Inv_activate = Inv_Active"
| "investment_target Inv_complete = Inv_Completed"

fun investment_command_name :: "investment_command \<Rightarrow> string" where
  "investment_command_name Inv_activate = ''activate''"
| "investment_command_name Inv_complete = ''complete''"

record investment_input =
  ii_investmentId :: string
  ii_command :: investment_command
  ii_actorType :: investment_actor
  ii_actorId :: "string option"
  ii_reason :: string
  ii_expectedVersion :: "nat option"
  ii_correlationId :: "string option"
  ii_metadata :: "(string \<times> meta) list option"
  ii_session :: bool

definition investment_from :: "investment \<Rightarrow> investment_status" where
  "investment_from d = (case i_status d of None \<Rightarrow> Inv_Funding | Some st \<Rightarrow> st)"

definition investment_note :: "investment_input \<Rightarrow> investment \<Rightarrow> investment_status \<Rightarrow> transition_note" where
  "investment_note inp d to =
     \<lparr> n_entityId = i_id d, n_from = InvestmentState (investment_from d), n_to = InvestmentState to,
       n_actorType = investment_actor_name (ii_actorType inp), n_actorId = ii_actorId inp,
       n_reason = ii_reason inp, n_correlationId = ii_correlationId inp,
       n_metadata = ii_metadata inp,
       n_action = ''investment.transition.'' @ js_lower (entity_state_name (InvestmentState to)),
       n_targetType = ''investment'', n_command = investment_command_name (ii_command inp) \<rparr>"

definition investment_body ::
  "env \<Rightarrow> investment_input \<Rightarrow> oid \<Rightarrow> db
     \<Rightarrow> (domain_error + investment \<times> investment_status \<times> investment_status) \<times> db" where
  "investment_body E inp iid s =
     (case find_one (\<lambda>d. i_id d = iid) (investments s) of
        None \<Rightarrow> (Inl (DomainTransitionError NOT_FOUND), s)
      | Some d \<Rightarrow>
          let frm = investment_from d; to = investment_target (ii_command inp) in
          if frm = to then (Inr (d, frm, to), s)
          else if isTerminalInvestmentState frm
          then (Inl (DomainTransitionError INVALID_TRANSITION), s)
          else if \<not> isValidInvestmentTransition (Some frm) to
          then (Inl (DomainTransitionError INVALID_TRANSITION), s)
          else if \<not> isInvestmentActorAllowed to (ii_actorType inp)
          then (Inl (DomainTransitionError FORBIDDEN_ACTOR), s)
          else
            let expectedVersion = (case ii_expectedVersion inp of
                  Some v \<Rightarrow> v | None \<Rightarrow> eff_version (i_version d)) in
            (case find_one_and_update
                   (\<lambda>e. i_id e = i_id d \<and> version_matches (i_version e) expectedVersion)
                   (\<lambda>e. e\<lparr>i_status := Some to, i_version := inc_version (i_version e)\<rparr>)
                   (investments s) of
              (None, _) \<Rightarrow> (Inl (DomainConcurrencyError ''investment''), s)
            | (Some updated, is') \<Rightarrow>
                (case record_transition E (investment_note inp d to) (s\<lparr>investments := is'\<rparr>) of
                   (Inl e, s') \<Rightarrow> (Inl e, s')
                 | (Inr _, s') \<Rightarrow> (Inr (updated, frm, to), s'))))"

definition transitionInvestment ::
  "env \<Rightarrow> investment_input \<Rightarrow> db
     \<Rightarrow> (domain_error + investment \<times> investment_status \<times> investment_status) \<times> db" where
  "transitionInvestment E inp s =
     (if js_trim (ii_reason inp) = [] then (Inl (DomainTransitionError REASON_REQUIRED), s)
      else case toObjectId E (ii_investmentId inp) of
        Inl e \<Rightarrow> (Inl e, s)
      | Inr iid \<Rightarrow> in_own_session E ''investment'' (ii_session inp) (investment_body E inp iid) s)"

subsection \<open>Vehicles (\<open>vehicle-transition-service.ts\<close>)\<close>

datatype vehicle_command =
  Veh_reserve | Veh_assignDriver | Veh_releaseReservation | Veh_finalize
| Veh_enterMaintenance | Veh_exitMaintenance | Veh_retire

fun vehicle_target :: "vehicle_command \<Rightarrow> vehicle_status" where
  "vehicle_target Veh_reserve = Veh_Reserved"
| "vehicle_target Veh_assignDriver = Veh_Financed"
| "vehicle_target Veh_releaseReservation = Veh_Available"
| "vehicle_target Veh_finalize = Veh_Available"
| "vehicle_target Veh_enterMaintenance = Veh_Maintenance"
| "vehicle_target Veh_exitMaintenance = Veh_Available"
| "vehicle_target Veh_retire = Veh_Retired"

fun vehicle_command_name :: "vehicle_command \<Rightarrow> string" where
  "vehicle_command_name Veh_reserve = ''reserve''"
| "vehicle_command_name Veh_assignDriver = ''assignDriver''"
| "vehicle_command_name Veh_releaseReservation = ''releaseReservation''"
| "vehicle_command_name Veh_finalize = ''finalize''"
| "vehicle_command_name Veh_enterMaintenance = ''enterMaintenance''"
| "vehicle_command_name Veh_exitMaintenance = ''exitMaintenance''"
| "vehicle_command_name Veh_retire = ''retire''"

record vehicle_input =
  vi_vehicleId :: string
  vi_command :: vehicle_command
  vi_actorType :: vehicle_actor
  vi_actorId :: "string option"
  vi_reason :: string
  vi_expectedVersion :: "nat option"
  vi_driverId :: "string option"
  vi_correlationId :: "string option"
  vi_metadata :: "(string \<times> meta) list option"
  vi_session :: bool

record vehicle_funding_input =
  vf_vehicleId :: string
  vf_target :: vehicle_funding
  vf_actorType :: vehicle_actor
  vf_actorId :: "string option"
  vf_reason :: string
  vf_session :: bool

text \<open>
  The fields a transition sets and unsets on the vehicle, or the error that its
  preconditions raise: financing needs a driver, maintenance needs that no loan on the
  vehicle is active, and going back to Available clears the driver.
\<close>

definition vehicle_fields ::
  "env \<Rightarrow> vehicle_input \<Rightarrow> vehicle \<Rightarrow> vehicle_status \<Rightarrow> loan list
     \<Rightarrow> domain_error + (vehicle \<Rightarrow> vehicle)" where
  "vehicle_fields E inp d to ls =
     (if to = Veh_Reserved \<and> truthy (vi_driverId inp) then
        (case toObjectId E (the (vi_driverId inp)) of
           Inl e \<Rightarrow> Inl e
         | Inr drv \<Rightarrow> Inr (\<lambda>v. v\<lparr>v_status := to, v_driverId := Some drv\<rparr>))
      else if to = Veh_Financed then
        (if \<not> truthy (vi_driverId inp) then Inl (DomainTransitionError PRECONDITION_FAILED)
         else case toObjectId E (the (vi_driverId inp)) of
           Inl e \<Rightarrow> Inl e
         | Inr drv \<Rightarrow> Inr (\<lambda>v. v\<lparr>v_status := to, v_driverId := Some drv, v_fundingStatus := Fund_Active\<rparr>))
      else if to = Veh_Available then
        (if v_status d = Veh_Financed
         then Inr (\<lambda>v. v\<lparr>v_status := to, v_driverId := None, v_fundingStatus := Fund_Open\<rparr>)
         else Inr (\<lambda>v. v\<lparr>v_status := to, v_driverId := None\<rparr>))
      else if to = Veh_Maintenance then
        (case find_one (\<lambda>l. l_vehicleId l = v_id d \<and> l_status l = Loan_Active) ls of
           Some _ \<Rightarrow> Inl (DomainTransitionError PRECONDITION_FAILED)
         | None \<Rightarrow> Inr (\<lambda>v. v\<lparr>v_status := to\<rparr>))
      else Inr (\<lambda>v. v\<lparr>v_status := to\<rparr>))"

definition vehicle_note :: "vehicle_input \<Rightarrow> vehicle \<Rightarrow> vehicle_status \<Rightarrow> transition_note" where
  "vehicle_note inp d to =
     \<lparr> n_entityId = v_id d, n_from = VehicleState (v_status d), n_to = VehicleState to,
       n_actorType = vehicle_actor_name (vi_actorType inp), n_actorId = vi_actorId inp,
       n_reason = vi_reason inp, n_correlationId = vi_correlationId inp,
       n_metadata = vi_metadata inp,
       n_action = ''vehicle.transition.'' @ js_lower (entity_state_name (VehicleState to)),
       n_targetType = ''vehicle'', n_command = vehicle_command_name (vi_command inp) \<rparr>"

definition vehicle_body ::
  "env \<Rightarrow> vehicle_input \<Rightarrow> oid \<Rightarrow> db
     \<Rightarrow> (domain_error + vehicle \<times> vehicle_status \<times> vehicle_status) \<times> db" where
  "vehicle_body E inp vid s =
     (case find_one (\<lambda>d. v_id d = vid) (vehicles s) of
        None \<Rightarrow> (Inl (DomainTransitionError NOT_FOUND), s)
      | Some d \<Rightarrow>
          let frm = v_status d; to = vehicle_target (vi_command inp) in
          if frm = to then (Inr (d, frm, to), s)
          else if isTerminalVehicleStatus frm
          then (Inl (DomainTransitionError INVALID_TRANSITION), s)
          else if \<not> isValidVehicleTransition (Some frm) to
          then (Inl (DomainTransitionError INVALID_TRANSITION), s)
          else if \<not> isVehicleActorAllowed to (vi_actorType inp)
          then (Inl (DomainTransitionError FORBIDDEN_ACTOR), s)
          else
            (case vehicle_fields E inp d to (loans s) of
               Inl e \<Rightarrow> (Inl e, s)
             | Inr setFields \<Rightarrow>
                 let expectedVersion = (case vi_expectedVersion inp of
                       Some v \<Rightarrow> v | None \<Rightarrow> eff_version (v_version d)) in
                 (case find_one_and_update
                        (\<lambda>e. v_id e = v_id d \<and> version_matches (v_version e) expectedVersion)
                        (\<lambda>e. (setFields e)\<lparr>v_version := inc_version (v_version e)\<rparr>)
                        (vehicles s) of
                   (None, _) \<Rightarrow> (Inl (DomainConcurrencyError ''vehicle''), s)
                 | (Some updated, vs') \<Rightarrow>
                     (case record_transition E (vehicle_note inp d to) (s\<lparr>vehicles := vs'\<rparr>) of
                        (Inl e, s') \<Rightarrow> (Inl e, s')
                      | (Inr _, s') \<Rightarrow> (Inr (updated, frm, to), s')))))"

definition transitionVehicle ::
  "env \<Rightarrow> vehicle_input \<Rightarrow> db
     \<Rightarrow> (domain_error + vehicle \<times> vehicle_status \<times> vehicle_status) \<times> db" where
  "transitionVehicle E inp s =
     (if js_trim (vi_reason inp) = [] then (Inl (DomainTransitionError REASON_REQUIRED), s)
      else case toObjectId E (vi_vehicleId inp) of
        Inl e \<Rightarrow> (Inl e, s)
      | Inr vid \<Rightarrow> in_own_session E ''vehicle'' (vi_session inp) (vehicle_body E inp vid) s)"

definition funding_event ::
  "vehicle_funding_input \<Rightarrow> vehicle \<Rightarrow> vehicle_funding \<Rightarrow> audit_event" where
  "funding_event inp d to =
     \<lparr> ev_actor = (if truthy (vf_actorId inp)
                   then Some (the (vf_actorId inp), Some (vehicle_actor_name (vf_actorType inp))) else None),
       ev_action = ''vehicle.funding.transition.'' @ js_lower (funding_name to),
       ev_targetType = ''vehicle'', ev_targetId = Some (v_id d), ev_success = True,
       ev_meta = [(''fromFundingStatus'', MStr (funding_name (v_fundingStatus d))),
                  (''toFundingStatus'', MStr (funding_name to)),
                  (''reason'', MStr (vf_reason inp))] \<rparr>"

definition vehicle_funding_body ::
  "env \<Rightarrow> vehicle_funding_input \<Rightarrow> oid \<Rightarrow> db
     \<Rightarrow> (domain_error + vehicle \<times> vehicle_funding \<times> vehicle_funding) \<times> db" where
  "vehicle_funding_body E inp vid s =
     (case find_one (\<lambda>d. v_id d = vid) (vehicles s) of
        None \<Rightarrow> (Inl (DomainTransitionError NOT_FOUND), s)
      | Some d \<Rightarrow>
          let frm = v_fundingStatus d; to = vf_target inp in
          if frm = to then (Inr (d, frm, to), s)
          else if \<not> isValidVehicleFundingTransition frm to
          then (Inl (DomainTransitionError INVALID_TRANSITION), s)
          else
            (case find_one_and_update (\<lambda>e. v_id e = v_id d)
                    (\<lambda>e. e\<lparr>v_fundingStatus := to, v_version := inc_version (v_version e)\<rparr>)
                    (vehicles s) of
               (None, _) \<Rightarrow> (Inl (DomainConcurrencyError ''vehicle''), s)
             | (Some updated, vs') \<Rightarrow>
                 let s1 = s\<lparr>vehicles := vs'\<rparr> in
                 (case log_audit_event E None (funding_event inp d to) (audits s1) of
                   None \<Rightarrow> (Inl CriticalAuditFailure, s1)
                 | Some rows \<Rightarrow> (Inr (updated, frm, to), s1\<lparr>audits := rows\<rparr>))))"

text \<open>This service has neither a reason check nor a catch clause.\<close>

definition transitionVehicleFunding ::
  "env \<Rightarrow> vehicle_funding_input \<Rightarrow> db
     \<Rightarrow> (domain_error + vehicle \<times> vehicle_funding \<times> vehicle_funding) \<times> db" where
  "transitionVehicleFunding E inp s =
     (case toObjectId E (vf_vehicleId inp) of
        Inl e \<Rightarrow> (Inl e, s)
      | Inr vid \<Rightarrow>
          run_in_session rollback (map_option DriverFailure (commit_fault E)) (vf_session inp)
            (vehicle_funding_body E inp vid) s)"

subsection \<open>Loans (\<open>loan-transition-service.ts\<close>)\<close>

datatype loan_command =
  Loan_startReview | Loan_approve | Loan_reject | Loan_activate | Loan_complete | Loan_cancel

fun loan_target :: "loan_command \<Rightarrow> loan_status" where
  "loan_target Loan_startReview = Loan_Under_Review"
| "loan_target Loan_approve = Loan_Approved"
| "loan_target Loan_reject = Loan_Rejected"
| "loan_target Loan_activate = Loan_Active"
| "loan_target Loan_complete = Loan_Completed"
| "loan_target Loan_cancel = Loan_Cancelled"

fun loan_command_name :: "loan_command \<Rightarrow> string" where
  "loan_command_name Loan_startReview = ''startReview''"
| "loan_command_name Loan_approve = ''approve''"
| "loan_command_name Loan_reject = ''reject''"
| "loan_command_name Loan_activate = ''activate''"
| "loan_command_name Loan_complete = ''complete''"
| "loan_command_name Loan_cancel = ''cancel''"

record loan_input =
  li_loanId :: string
  li_command :: loan_command
  li_actorType :: loan_actor
  li_actorId :: "string option"
  li_reason :: string
  li_expectedVersion :: "nat option"
  li_adminNotes :: "string option"
  li_correlationId :: "string option"
  li_metadata :: "(string \<times> meta) list option"
  li_session :: bool

definition loan_set_fields :: "env \<Rightarrow> loan_input \<Rightarrow> loan_status \<Rightarrow> loan \<Rightarrow> loan" where
  "loan_set_fields E inp to d =
     (let d0 = d\<lparr>l_status := to\<rparr>;
          notes = (\<lambda>e. if truthy (li_adminNotes inp) then e\<lparr>l_adminNotes := li_adminNotes inp\<rparr> else e)
      in if to = Loan_Under_Review then d0\<lparr>l_reviewedDate := Some (now E)\<rparr>
         else if to = Loan_Approved then notes (d0\<lparr>l_approvedDate := Some (now E)\<rparr>)
         else if to = Loan_Rejected then notes d0
         else d0)"

text \<open>A loan is activated only when it is fully funded and the down payment is recorded.\<close>

definition loan_preconditions :: "loan \<Rightarrow> loan_status \<Rightarrow> bool" where
  "loan_preconditions d to \<longleftrightarrow>
     (to = Loan_Active \<longrightarrow> \<not> l_totalFunded d < l_requestedAmount d \<and> l_downPaymentMade d)"

text \<open>The writes to the vehicle and to the investments that go with a loan transition.\<close>

definition loan_side_effects :: "loan \<Rightarrow> loan_status \<Rightarrow> db \<Rightarrow> db" where
  "loan_side_effects d to s =
     (let on_vehicle = (\<lambda>f. update_one (\<lambda>v. v_id v = l_vehicleId d) f (vehicles s)) in
      case to of
        Loan_Rejected \<Rightarrow> s\<lparr>vehicles := on_vehicle (\<lambda>v. v\<lparr>v_status := Veh_Available, v_driverId := None\<rparr>)\<rparr>
      | Loan_Active \<Rightarrow>
          s\<lparr>vehicles := on_vehicle (\<lambda>v. v\<lparr>v_status := Veh_Financed, v_fundingStatus := Fund_Active,
                                          v_driverId := Some (l_driverId d)\<rparr>),
            investments := update_many
              (\<lambda>i. i_vehicleId i = l_vehicleId d \<and> i_status i = Some Inv_Funding)
              (\<lambda>i. i\<lparr>i_status := Some Inv_Active, i_version := inc_version (i_version i)\<rparr>)
              (investments s)\<rparr>
      | Loan_Completed \<Rightarrow>
          s\<lparr>vehicles := on_vehicle (\<lambda>v. v\<lparr>v_status := Veh_Available, v_fundingStatus := Fund_Open,
                                          v_driverId := None\<rparr>),
            investments := update_many
              (\<lambda>i. (i_loanId i = Some (l_id d) \<or> i_vehicleId i = l_vehicleId d)
                    \<and> i_status i = Some Inv_Active)
              (\<lambda>i. i\<lparr>i_status := Some Inv_Completed, i_version := inc_version (i_version i)\<rparr>)
              (investments s)\<rparr>
      | Loan_Cancelled \<Rightarrow> s\<lparr>vehicles := on_vehicle (\<lambda>v. v\<lparr>v_status := Veh_Available, v_driverId := None\<rparr>)\<rparr>
      | _ \<Rightarrow> s)"

definition loan_note :: "loan_input \<Rightarrow> loan \<Rightarrow> loan_status \<Rightarrow> transition_note" where
  "loan_note inp d to =
     \<lparr> n_entityId = l_id d, n_from = LoanState (l_status d), n_to = LoanState to,
       n_actorType = loan_actor_name (li_actorType inp), n_actorId = li_actorId inp,
       n_reason = li_reason inp, n_correlationId = li_correlationId inp,
       n_metadata = li_metadata inp,
       n_action = ''loan.transition.'' @ ws_to_underscore (js_lower (entity_state_name (LoanState to))),
       n_targetType = ''loan'', n_command = loan_command_name (li_command inp) \<rparr>"

definition loan_body ::
  "env \<Rightarrow> loan_input \<Rightarrow> oid \<Rightarrow> db \<Rightarrow> (domain_error + loan \<times> loan_status \<times> loan_status) \<times> db" where
  "loan_body E inp lid s =
     (case find_one (\<lambda>d. l_id d = lid) (loans s) of
        None \<Rightarrow> (Inl (DomainTransitionError NOT_FOUND), s)
      | Some d \<Rightarrow>
          let frm = l_status d; to = loan_target (li_command inp) in
          if frm = to then (Inr (d, frm, to), s)
          else if isTerminalLoanState frm
          then (Inl (DomainTransitionError INVALID_TRANSITION), s)
          else if \<not> isValidLoanTransition (Some frm) to
          then (Inl (DomainTransitionError INVALID_TRANSITION), s)
          else if \<not> isLoanActorAllowed to (Some frm) (li_actorType inp)
          then (Inl (DomainTransitionError FORBIDDEN_ACTOR), s)
          else if \<not> loan_preconditions d to
          then (Inl (DomainTransitionError PRECONDITION_FAILED), s)
          else
            let expectedVersion = (case li_expectedVersion inp of
                  Some v \<Rightarrow> v | None \<Rightarrow> eff_version (l_version d)) in
            (case find_one_and_update
                   (\<lambda>e. l_id e = l_id d \<and> version_matches (l_version e) expectedVersion)
                   (\<lambda>e. (loan_set_fields E inp to e)\<lparr>l_version := inc_version (l_version e)\<rparr>)
                   (loans s) of
              (None, _) \<Rightarrow> (Inl (DomainConcurrencyError ''loan''), s)
            | (Some updated, ls') \<Rightarrow>
                (case record_transition E (loan_note inp d to)
                        (loan_side_effects d to (s\<lparr>loans := ls'\<rparr>)) of
                   (Inl e, s') \<Rightarrow> (Inl e, s')
                 | (Inr _, s') \<Rightarrow> (Inr (updated, frm, to), s'))))"

definition transitionLoan ::
  "env \<Rightarrow> loan_input \<Rightarrow> db \<Rightarrow> (domain_error + loan \<times> loan_status \<times> loan_status) \<times> db" where
  "transitionLoan E inp s =
     (if js_trim (li_reason inp) = [] then (Inl (DomainTransitionError REASON_REQUIRED), s)
      else case toObjectId E (li_loanId inp) of
        Inl e \<Rightarrow> (Inl e, s)
      | Inr lid \<Rightarrow> in_own_session E ''loan'' (li_session inp) (loan_body E inp lid) s)"

end
