(* ===== verification/Domain_Properties.thy ===== *)
theory Domain_Properties
  imports Domain_Services
begin

text \<open>
  What the transition services guarantee.  First the inversion lemmas: a successful call
  is either a no-op or one move of the status table whose writes are listed field by
  field.  Then the interpretations of the locale \<open>optimistic_lock\<close>, one per service, and
  the properties of the loan and vehicle lifecycles over whole runs of the services.
\<close>

subsection \<open>Unique identifiers\<close>

definition unique_ids :: "db \<Rightarrow> bool" where
  "unique_ids s \<longleftrightarrow> distinct (map l_id (loans s)) \<and> distinct (map v_id (vehicles s))
     \<and> distinct (map i_id (investments s))"

definition find_loan :: "db \<Rightarrow> oid \<Rightarrow> loan option" where
  "find_loan s x = find_one (\<lambda>d. l_id d = x) (loans s)"

definition find_vehicle :: "db \<Rightarrow> oid \<Rightarrow> vehicle option" where
  "find_vehicle s x = find_one (\<lambda>d. v_id d = x) (vehicles s)"

definition find_investment :: "db \<Rightarrow> oid \<Rightarrow> investment option" where
  "find_investment s x = find_one (\<lambda>d. i_id d = x) (investments s)"

lemmas find_defs = find_loan_def find_vehicle_def find_investment_def

definition loan_version :: "db \<Rightarrow> oid \<Rightarrow> nat" where
  "loan_version s x = (case find_loan s x of None \<Rightarrow> 0 | Some d \<Rightarrow> eff_version (l_version d))"

definition vehicle_version :: "db \<Rightarrow> oid \<Rightarrow> nat" where
  "vehicle_version s x = (case find_vehicle s x of None \<Rightarrow> 0 | Some d \<Rightarrow> eff_version (v_version d))"

definition investment_version :: "db \<Rightarrow> oid \<Rightarrow> nat" where
  "investment_version s x =
     (case find_investment s x of None \<Rightarrow> 0 | Some d \<Rightarrow> eff_version (i_version d))"

lemma rollback_simps [simp]:
  "loans (rollback s s') = loans s" "vehicles (rollback s s') = vehicles s"
  "investments (rollback s s') = investments s" "history (rollback s s') = history s"
  by (simp_all add: rollback_def)

lemma loan_side_effects_frame [simp]:
  "loans (loan_side_effects d t s) = loans s"
  "history (loan_side_effects d t s) = history s"
  "audits (loan_side_effects d t s) = audits s"
  by (cases t; simp add: loan_side_effects_def Let_def)+

lemma loan_set_fields_frame [simp]:
  "l_id (loan_set_fields E inp t d) = l_id d"
  "l_status (loan_set_fields E inp t d) = t"
  "l_version (loan_set_fields E inp t d) = l_version d"
  "l_vehicleId (loan_set_fields E inp t d) = l_vehicleId d"
  "l_totalFunded (loan_set_fields E inp t d) = l_totalFunded d"
  by (auto simp: loan_set_fields_def Let_def)

lemma toObjectId_Inr: "toObjectId E v = Inr x \<longleftrightarrow> valid_oid E v \<and> x = v"
  by (auto simp: toObjectId_def)

subsection \<open>Inversion: what a successful loan transition did\<close>

definition loan_update :: "env \<Rightarrow> loan_input \<Rightarrow> loan \<Rightarrow> loan" where
  "loan_update E inp e =
     (loan_set_fields E inp (loan_target (li_command inp)) e)\<lparr>l_version := inc_version (l_version e)\<rparr>"

definition loan_expected :: "loan_input \<Rightarrow> loan \<Rightarrow> nat" where
  "loan_expected inp d =
     (case li_expectedVersion inp of Some v \<Rightarrow> v | None \<Rightarrow> eff_version (l_version d))"

definition loan_moved :: "env \<Rightarrow> loan_input \<Rightarrow> oid \<Rightarrow> db \<Rightarrow> loan \<Rightarrow> loan \<Rightarrow> db \<Rightarrow> bool" where
  "loan_moved E inp lid s d d' s' \<longleftrightarrow>
     (let t = loan_target (li_command inp);
          P = (\<lambda>e. l_id e = l_id d \<and> version_matches (l_version e) (loan_expected inp d)) in
      find_loan s lid = Some d \<and> t \<in> set (LOAN_VALID_TRANSITIONS (l_status d))
      \<and> isLoanActorAllowed t (Some (l_status d)) (li_actorType inp) \<and> loan_preconditions d t
      \<and> map_option (loan_update E inp) (find_one P (loans s)) = Some d'
      \<and> (\<exists>a rows. s' = (loan_side_effects d t
                          (s\<lparr>loans := update_one P (loan_update E inp) (loans s)\<rparr>))
             \<lparr>history := history s @ [note_history E (loan_note inp d t) a],
              audits := audits s @ rows\<rparr>))"

lemma loan_body_succeeds:
  assumes "loan_body E inp lid s = (Inr (d', f, t), s')"
  shows "\<exists>d. find_loan s lid = Some d \<and> f = l_status d \<and> t = loan_target (li_command inp)
     \<and> (if f = t then d' = d \<and> s' = s else loan_moved E inp lid s d d' s')"
proof -
  from assms obtain d where d: "find_one (\<lambda>d. l_id d = lid) (loans s) = Some d"
    by (auto simp: loan_body_def split: option.splits)
  let ?t = "loan_target (li_command inp)"
  show ?thesis
  proof (cases "l_status d = ?t")
    case True
    with assms d show ?thesis by (auto simp: loan_body_def find_loan_def Let_def)
  next
    case False
    note body = assms [unfolded loan_body_def d option.case Let_def if_not_P [OF False]]
    let ?P = "\<lambda>e. l_id e = l_id d \<and> version_matches (l_version e) (loan_expected inp d)"
    from body have guards: "?t \<in> set (LOAN_VALID_TRANSITIONS (l_status d))"
      "isLoanActorAllowed ?t (Some (l_status d)) (li_actorType inp)" "loan_preconditions d ?t"
      using False by (auto simp: isValidLoanTransition_def split: if_splits)
    from body obtain e where e: "find_one ?P (loans s) = Some e"
      by (auto simp: find_one_and_update_def loan_expected_def split: if_splits option.splits)
    let ?s1 = "loan_side_effects d ?t (s\<lparr>loans := update_one ?P (loan_update E inp) (loans s)\<rparr>)"
    from body e guards have rec: "record_transition E (loan_note inp d ?t) ?s1 = (Inr (), s')"
      and res: "d' = loan_update E inp e" "f = l_status d" "t = ?t"
      by (auto simp: find_one_and_update_def loan_expected_def loan_update_def [abs_def] Let_def
          split: if_splits prod.splits sum.splits)
    from rec show ?thesis
      by (rule record_transition_Inr)
        (use d e guards res False in \<open>auto simp: loan_moved_def find_loan_def Let_def\<close>)
  qed
qed


subsection \<open>Inversion: vehicles and investments\<close>

definition vehicle_expected :: "vehicle_input \<Rightarrow> vehicle \<Rightarrow> nat" where
  "vehicle_expected inp d =
     (case vi_expectedVersion inp of Some v \<Rightarrow> v | None \<Rightarrow> eff_version (v_version d))"

definition vehicle_moved ::
  "env \<Rightarrow> vehicle_input \<Rightarrow> oid \<Rightarrow> db \<Rightarrow> vehicle \<Rightarrow> vehicle \<Rightarrow> db \<Rightarrow> bool" where
  "vehicle_moved E inp vid s d d' s' \<longleftrightarrow>
     (let t = vehicle_target (vi_command inp);
          P = (\<lambda>e. v_id e = v_id d \<and> version_matches (v_version e) (vehicle_expected inp d)) in
      find_vehicle s vid = Some d \<and> t \<in> set (VEHICLE_VALID_TRANSITIONS (v_status d))
      \<and> isVehicleActorAllowed t (vi_actorType inp)
      \<and> (\<exists>f a rows. vehicle_fields E inp d t (loans s) = Inr f
          \<and> map_option (\<lambda>e. (f e)\<lparr>v_version := inc_version (v_version e)\<rparr>)
              (find_one P (vehicles s)) = Some d'
          \<and> s' = s\<lparr>vehicles := update_one P
                      (\<lambda>e. (f e)\<lparr>v_version := inc_version (v_version e)\<rparr>) (vehicles s),
              history := history s @ [note_history E (vehicle_note inp d t) a],
              audits := audits s @ rows\<rparr>))"

lemma vehicle_body_succeeds:
  assumes "vehicle_body E inp vid s = (Inr (d', f, t), s')"
  shows "\<exists>d. find_vehicle s vid = Some d \<and> f = v_status d \<and> t = vehicle_target (vi_command inp)
     \<and> (if f = t then d' = d \<and> s' = s else vehicle_moved E inp vid s d d' s')"
proof -
  from assms obtain d where d: "find_one (\<lambda>d. v_id d = vid) (vehicles s) = Some d"
    by (auto simp: vehicle_body_def split: option.splits)
  let ?t = "vehicle_target (vi_command inp)"
  show ?thesis
  proof (cases "v_status d = ?t")
    case True
    with assms d show ?thesis by (auto simp: vehicle_body_def find_vehicle_def Let_def)
  next
    case False
    note body = assms [unfolded vehicle_body_def d option.case Let_def if_not_P [OF False]]
    let ?P = "\<lambda>e. v_id e = v_id d \<and> version_matches (v_version e) (vehicle_expected inp d)"
    from body have guards: "?t \<in> set (VEHICLE_VALID_TRANSITIONS (v_status d))"
      "isVehicleActorAllowed ?t (vi_actorType inp)"
      using False by (auto simp: isValidVehicleTransition_def split: if_splits)
    from body obtain g where g: "vehicle_fields E inp d ?t (loans s) = Inr g"
      by (auto split: if_splits sum.splits)
    let ?u = "\<lambda>e. (g e)\<lparr>v_version := inc_version (v_version e)\<rparr>"
    from body g obtain e where e: "find_one ?P (vehicles s) = Some e"
      by (auto simp: find_one_and_update_def vehicle_expected_def split: if_splits option.splits)
    let ?s1 = "s\<lparr>vehicles := update_one ?P ?u (vehicles s)\<rparr>"
    from body e g guards have rec: "record_transition E (vehicle_note inp d ?t) ?s1 = (Inr (), s')"
      and res: "d' = ?u e" "f = v_status d" "t = ?t"
      by (auto simp: find_one_and_update_def vehicle_expected_def
          split: if_splits prod.splits sum.splits)
    from rec show ?thesis
      by (rule record_transition_Inr)
        (use d e g guards res False in \<open>auto simp: vehicle_moved_def find_vehicle_def Let_def\<close>)
  qed
qed

lemma vehicle_fields_id:
  assumes "vehicle_fields E inp d t ls = Inr f"
  shows "v_id (f e) = v_id e \<and> v_status (f e) = t \<and> v_version (f e) = v_version e"
  using assms by (auto simp: vehicle_fields_def split: if_splits sum.splits option.splits)

definition investment_expected :: "investment_input \<Rightarrow> investment \<Rightarrow> nat" where
  "investment_expected inp d =
     (case ii_expectedVersion inp of Some v \<Rightarrow> v | None \<Rightarrow> eff_version (i_version d))"

definition investment_update :: "investment_input \<Rightarrow> investment \<Rightarrow> investment" where
  "investment_update inp e =
     e\<lparr>i_status := Some (investment_target (ii_command inp)), i_version := inc_version (i_version e)\<rparr>"

definition investment_moved ::
  "env \<Rightarrow> investment_input \<Rightarrow> oid \<Rightarrow> db \<Rightarrow> investment \<Rightarrow> investment \<Rightarrow> db \<Rightarrow> bool" where
  "investment_moved E inp iid s d d' s' \<longleftrightarrow>
     (let t = investment_target (ii_command inp);
          P = (\<lambda>e. i_id e = i_id d \<and> version_matches (i_version e) (investment_expected inp d)) in
      find_investment s iid = Some d \<and> t \<in> set (INVESTMENT_VALID_TRANSITIONS (investment_from d))
      \<and> isInvestmentActorAllowed t (ii_actorType inp)
      \<and> map_option (investment_update inp) (find_one P (investments s)) = Some d'
      \<and> (\<exists>a rows. s' = s\<lparr>investments := update_one P (investment_update inp) (investments s),
              history := history s @ [note_history E (investment_note inp d t) a],
              audits := audits s @ rows\<rparr>))"

lemma investment_body_succeeds:
  assumes "investment_body E inp iid s = (Inr (d', f, t), s')"
  shows "\<exists>d. find_investment s iid = Some d \<and> f = investment_from d
     \<and> t = investment_target (ii_command inp)
     \<and> (if f = t then d' = d \<and> s' = s else investment_moved E inp iid s d d' s')"
proof -
  from assms obtain d where d: "find_one (\<lambda>d. i_id d = iid) (investments s) = Some d"
    by (auto simp: investment_body_def split: option.splits)
  let ?t = "investment_target (ii_command inp)"
  show ?thesis
  proof (cases "investment_from d = ?t")
    case True
    with assms d show ?thesis by (auto simp: investment_body_def find_investment_def Let_def)
  next
    case False
    note body = assms [unfolded investment_body_def d option.case Let_def if_not_P [OF False]]
    let ?P = "\<lambda>e. i_id e = i_id d \<and> version_matches (i_version e) (investment_expected inp d)"
    from body have guards: "?t \<in> set (INVESTMENT_VALID_TRANSITIONS (investment_from d))"
      "isInvestmentActorAllowed ?t (ii_actorType inp)"
      using False by (auto simp: isValidInvestmentTransition_def split: if_splits)
    from body obtain e where e: "find_one ?P (investments s) = Some e"
      by (auto simp: find_one_and_update_def investment_expected_def
          split: if_splits option.splits)
    let ?s1 = "s\<lparr>investments := update_one ?P (investment_update inp) (investments s)\<rparr>"
    from body e guards have
      rec: "record_transition E (investment_note inp d ?t) ?s1 = (Inr (), s')"
      and res: "d' = investment_update inp e" "f = investment_from d" "t = ?t"
      by (auto simp: find_one_and_update_def investment_expected_def investment_update_def [abs_def]
          split: if_splits prod.splits sum.splits)
    from rec show ?thesis
      by (rule record_transition_Inr)
        (use d e guards res False in \<open>auto simp: investment_moved_def find_investment_def Let_def\<close>)
  qed
qed

definition funding_update :: "vehicle_funding_input \<Rightarrow> vehicle \<Rightarrow> vehicle" where
  "funding_update inp e = e\<lparr>v_fundingStatus := vf_target inp, v_version := inc_version (v_version e)\<rparr>"

lemma vehicle_funding_body_succeeds:
  assumes "vehicle_funding_body E inp vid s = (Inr (d', f, t), s')"
  shows "\<exists>d. find_vehicle s vid = Some d \<and> f = v_fundingStatus d \<and> t = vf_target inp
     \<and> (if f = t then d' = d \<and> s' = s
        else t \<in> set (VEHICLE_FUNDING_TRANSITIONS f)
          \<and> (\<exists>rows. s' = s\<lparr>vehicles := update_one (\<lambda>e. v_id e = v_id d) (funding_update inp) (vehicles s),
                            audits := audits s @ rows\<rparr>))"
  using assms log_audit_event_extends
  by (fastforce simp: vehicle_funding_body_def Let_def find_vehicle_def funding_update_def [abs_def]
      isValidVehicleFundingTransition_def find_one_and_update_def
      split: option.splits if_splits prod.splits)


subsection \<open>What any outcome leaves behind\<close>

definition ids :: "db \<Rightarrow> oid list \<times> oid list \<times> oid list" where
  "ids s = (map l_id (loans s), map v_id (vehicles s), map i_id (investments s))"

lemma unique_ids_cong: "ids s' = ids s \<Longrightarrow> unique_ids s \<Longrightarrow> unique_ids s'"
  by (simp add: ids_def unique_ids_def)

lemma record_transition_state:
  "loans (snd (record_transition E n s)) = loans s"
  "vehicles (snd (record_transition E n s)) = vehicles s"
  "investments (snd (record_transition E n s)) = investments s"
  using record_transition_frame [of E n s "fst (record_transition E n s)" "snd (record_transition E n s)"]
  by simp_all

lemma loan_side_effects_ids: "ids (loan_side_effects d t s) = ids s"
  by (cases t) (simp_all add: ids_def loan_side_effects_def Let_def update_one_keys update_many_keys)

lemma snd_case_result [simp]:
  "snd (case p of (Inl e, s') \<Rightarrow> (Inl e, s') | (Inr u, s') \<Rightarrow> (Inr x, s')) = snd p"
  by (auto split: prod.splits sum.splits)

text \<open>
  Whatever a handler returns, its state is the one it started from or one it reached by its
  update and the tail: to show \<open>Q\<close> of the outcome it is enough to show it of these.
\<close>

lemma loan_body_state:
  assumes "Q s"
    and "\<And>d P n. Q (snd (record_transition E n (loan_side_effects d (loan_target (li_command inp))
             (s\<lparr>loans := update_one P (loan_update E inp) (loans s)\<rparr>))))"
  shows "Q (snd (loan_body E inp lid s))"
  unfolding loan_body_def Let_def find_one_and_update_def loan_expected_def [symmetric]
    loan_update_def [symmetric]
  by (simp split: option.split add: assms)

lemma vehicle_body_state:
  assumes "Q s"
    and "\<And>d f P n. vehicle_fields E inp d (vehicle_target (vi_command inp)) (loans s) = Inr f \<Longrightarrow>
           Q (snd (record_transition E n (s\<lparr>vehicles := update_one P
                  (\<lambda>e. (f e)\<lparr>v_version := inc_version (v_version e)\<rparr>) (vehicles s)\<rparr>)))"
  shows "Q (snd (vehicle_body E inp vid s))"
  unfolding vehicle_body_def Let_def find_one_and_update_def vehicle_expected_def [symmetric]
  by (simp split: option.split sum.split add: assms)

lemma investment_body_state:
  assumes "Q s"
    and "\<And>P n. Q (snd (record_transition E n
             (s\<lparr>investments := update_one P (investment_update inp) (investments s)\<rparr>)))"
  shows "Q (snd (investment_body E inp iid s))"
  unfolding investment_body_def Let_def find_one_and_update_def investment_expected_def [symmetric]
    investment_update_def [symmetric]
  by (simp split: option.split add: assms)

lemma vehicle_funding_body_state:
  assumes "Q s"
    and "\<And>P rows. Q (s\<lparr>vehicles := update_one P (funding_update inp) (vehicles s), audits := rows\<rparr>)"
    and "\<And>P. Q (s\<lparr>vehicles := update_one P (funding_update inp) (vehicles s)\<rparr>)"
  shows "Q (snd (vehicle_funding_body E inp vid s))"
  unfolding vehicle_funding_body_def Let_def find_one_and_update_def funding_update_def [symmetric]
  by (simp split: option.split add: assms)

lemma own_session_cong:
  assumes "Q (snd (body s))" and "\<And>s1. Q (rollback s s1)"
  shows "Q (snd (in_own_session E ent ex body s))"
  using in_own_session_state [of E ent ex body s] assms by auto

end
