(* ===== verification/Domain_Guarantees.thy ===== *)
theory Domain_Guarantees
  imports Domain_Properties
begin

text \<open>
  The guarantees of the transition services as a system: no lost updates (three
  interpretations of \<open>optimistic_lock\<close> over any interleaving of the four services), atomic
  failure, the loan history as a faithful trace of the status table, and the effects of
  loan transitions on vehicles and investments.
\<close>

subsection \<open>The services as one transition system\<close>

datatype domain_op =
  DoInvestment investment_input | DoVehicle vehicle_input
| DoFunding vehicle_funding_input | DoLoan loan_input

datatype domain_result =
  RInvestment investment investment_status investment_status
| RVehicle vehicle vehicle_status vehicle_status
| RFunding vehicle vehicle_funding vehicle_funding
| RLoan loan loan_status loan_status

fun run_op :: "env \<times> domain_op \<Rightarrow> db \<Rightarrow> (domain_error + domain_result) \<times> db" where
  "run_op (E, DoInvestment inp) s =
     map_prod (map_sum id (\<lambda>(d, f, t). RInvestment d f t)) id (transitionInvestment E inp s)"
| "run_op (E, DoVehicle inp) s =
     map_prod (map_sum id (\<lambda>(d, f, t). RVehicle d f t)) id (transitionVehicle E inp s)"
| "run_op (E, DoFunding inp) s =
     map_prod (map_sum id (\<lambda>(d, f, t). RFunding d f t)) id (transitionVehicleFunding E inp s)"
| "run_op (E, DoLoan inp) s =
     map_prod (map_sum id (\<lambda>(d, f, t). RLoan d f t)) id (transitionLoan E inp s)"

fun moved :: "domain_result \<Rightarrow> bool" where
  "moved (RInvestment _ f t) = (f \<noteq> t)"
| "moved (RVehicle _ f t) = (f \<noteq> t)"
| "moved (RFunding _ f t) = (f \<noteq> t)"
| "moved (RLoan _ f t) = (f \<noteq> t)"

fun own_session :: "domain_op \<Rightarrow> bool" where
  "own_session (DoInvestment inp) = (\<not> ii_session inp)"
| "own_session (DoVehicle inp) = (\<not> vi_session inp)"
| "own_session (DoFunding inp) = (\<not> vf_session inp)"
| "own_session (DoLoan inp) = (\<not> li_session inp)"

lemma transitionLoan_state:
  assumes "Q s" and "\<And>s1. Q (rollback s s1)"
    and "\<And>d P n. Q (snd (record_transition E n (loan_side_effects d (loan_target (li_command inp))
             (s\<lparr>loans := update_one P (loan_update E inp) (loans s)\<rparr>))))"
  shows "Q (snd (transitionLoan E inp s))"
proof -
  have "Q (snd (loan_body E inp x s))" for x
    by (rule loan_body_state [where Q = Q]) (fact assms | simp add: assms)+
  then have "Q (snd (in_own_session E ''loan'' (li_session inp) (loan_body E inp x) s))" for x
    by (rule own_session_cong [where Q = Q]) (rule assms)
  with assms(1) show ?thesis by (simp add: transitionLoan_def split: sum.split)
qed

lemma transitionVehicle_state:
  assumes "Q s" and "\<And>s1. Q (rollback s s1)"
    and "\<And>d f P n. vehicle_fields E inp d (vehicle_target (vi_command inp)) (loans s) = Inr f \<Longrightarrow>
           Q (snd (record_transition E n (s\<lparr>vehicles := update_one P
                  (\<lambda>e. (f e)\<lparr>v_version := inc_version (v_version e)\<rparr>) (vehicles s)\<rparr>)))"
  shows "Q (snd (transitionVehicle E inp s))"
proof -
  have "Q (snd (vehicle_body E inp x s))" for x
    by (rule vehicle_body_state [where Q = Q]) (fact assms | simp add: assms)+
  then have "Q (snd (in_own_session E ''vehicle'' (vi_session inp) (vehicle_body E inp x) s))" for x
    by (rule own_session_cong [where Q = Q]) (rule assms)
  with assms(1) show ?thesis by (simp add: transitionVehicle_def split: sum.split)
qed

lemma transitionInvestment_state:
  assumes "Q s" and "\<And>s1. Q (rollback s s1)"
    and "\<And>P n. Q (snd (record_transition E n
             (s\<lparr>investments := update_one P (investment_update inp) (investments s)\<rparr>)))"
  shows "Q (snd (transitionInvestment E inp s))"
proof -
  have "Q (snd (investment_body E inp x s))" for x
    by (rule investment_body_state [where Q = Q]) (fact assms | simp add: assms)+
  then have "Q (snd (in_own_session E ''investment'' (ii_session inp) (investment_body E inp x) s))" for x
    by (rule own_session_cong [where Q = Q]) (rule assms)
  with assms(1) show ?thesis by (simp add: transitionInvestment_def split: sum.split)
qed

lemma transitionVehicleFunding_state:
  assumes "Q s" and "\<And>s1. Q (rollback s s1)"
    and "\<And>P rows. Q (s\<lparr>vehicles := update_one P (funding_update inp) (vehicles s), audits := rows\<rparr>)"
    and "\<And>P. Q (s\<lparr>vehicles := update_one P (funding_update inp) (vehicles s)\<rparr>)"
  shows "Q (snd (transitionVehicleFunding E inp s))"
proof -
  have "Q (snd (run_in_session rollback w ex (vehicle_funding_body E inp vid) s))" for w ex vid
    using run_in_session_state [of rollback w ex "vehicle_funding_body E inp vid" s]
      vehicle_funding_body_state [of Q s inp E vid] assms by auto
  with assms(1) show ?thesis by (auto simp: transitionVehicleFunding_def split: sum.split)
qed

lemmas transition_states =
  transitionLoan_state transitionVehicle_state transitionInvestment_state
  transitionVehicleFunding_state

subsection \<open>Identifiers and versions under every operation\<close>

lemma ids_rollback [simp]: "ids (rollback s s') = ids s"
  by (simp add: ids_def)

lemma ids_record_transition [simp]: "ids (snd (record_transition E n s)) = ids s"
  by (simp add: ids_def record_transition_state)

lemma update_id_frames [simp]:
  "l_id (loan_update E inp d) = l_id d"
  "v_id (funding_update fin v) = v_id v"
  "i_id (investment_update iin i) = i_id i"
  by (simp_all add: loan_update_def funding_update_def investment_update_def)

lemma run_op_ids: "ids (snd (run_op (E, op) s)) = ids s"
proof (cases op)
  case (DoLoan inp)
  have "ids (snd (transitionLoan E inp s)) = ids s"
    by (rule transitionLoan_state [where Q = "\<lambda>s'. ids s' = ids s"])
      (simp_all add: loan_side_effects_ids, simp_all add: ids_def update_one_keys)
  with DoLoan show ?thesis by simp
next
  case (DoVehicle inp)
  have "ids (snd (transitionVehicle E inp s)) = ids s"
    by (rule transitionVehicle_state [where Q = "\<lambda>s'. ids s' = ids s"])
      (simp_all add: ids_def record_transition_state update_one_keys vehicle_fields_id)
  with DoVehicle show ?thesis by simp
next
  case (DoInvestment inp)
  have "ids (snd (transitionInvestment E inp s)) = ids s"
    by (rule transitionInvestment_state [where Q = "\<lambda>s'. ids s' = ids s"])
      (simp_all add: ids_def record_transition_state update_one_keys)
  with DoInvestment show ?thesis by simp
next
  case (DoFunding inp)
  have "ids (snd (transitionVehicleFunding E inp s)) = ids s"
    by (rule transitionVehicleFunding_state [where Q = "\<lambda>s'. ids s' = ids s"])
      (simp_all add: ids_def update_one_keys)
  with DoFunding show ?thesis by simp
qed

lemma run_op_unique: "unique_ids s \<Longrightarrow> unique_ids (snd (run_op x s))"
  by (cases x) (metis run_op_ids unique_ids_cong)

text \<open>A keyed update that bumps versions never lowers the version under any key.\<close>

lemma version_update_one_mono:
  assumes "\<And>d. k (f d) = k d" and "\<And>d. eff_version (ver d) \<le> eff_version (ver (f d))"
  shows "(case find_one (\<lambda>d. k d = x) ds of None \<Rightarrow> 0 | Some d \<Rightarrow> eff_version (ver d))
    \<le> (case find_one (\<lambda>d. k d = x) (update_one P f ds) of None \<Rightarrow> 0 | Some d \<Rightarrow> eff_version (ver d))"
  using find_key_update_one_cases [of k f x P ds] assms by auto

lemma version_update_many_mono:
  assumes "\<And>d. k (f d) = k d" and "\<And>d. eff_version (ver d) \<le> eff_version (ver (f d))"
  shows "(case find_one (\<lambda>d. k d = x) ds of None \<Rightarrow> 0 | Some d \<Rightarrow> eff_version (ver d))
    \<le> (case find_one (\<lambda>d. k d = x) (update_many P f ds) of None \<Rightarrow> 0 | Some d \<Rightarrow> eff_version (ver d))"
  using assms by (auto simp: find_key_update_many split: option.split)

definition versions_le :: "db \<Rightarrow> db \<Rightarrow> bool" where
  "versions_le s s' \<longleftrightarrow> (\<forall>x. loan_version s x \<le> loan_version s' x
     \<and> vehicle_version s x \<le> vehicle_version s' x
     \<and> investment_version s x \<le> investment_version s' x)"

lemma versions_le_refl [simp]: "versions_le s s"
  by (simp add: versions_le_def)

lemma versions_le_rollback [simp]: "versions_le s (rollback s s')"
  by (simp add: versions_le_def loan_version_def vehicle_version_def investment_version_def find_defs)

lemma versions_le_record [simp]:
  "versions_le s (snd (record_transition E n s')) \<longleftrightarrow> versions_le s s'"
  by (simp add: versions_le_def loan_version_def vehicle_version_def investment_version_def find_defs
      record_transition_state)

lemmas version_defs =
  versions_le_def loan_version_def vehicle_version_def investment_version_def find_defs

lemma versions_le_side_effects:
  "versions_le s (loan_side_effects d t (s\<lparr>loans := update_one P (loan_update E inp) (loans s)\<rparr>))"
  by (cases t)
    (auto simp: version_defs loan_side_effects_def Let_def loan_update_def
      intro!: version_update_one_mono version_update_many_mono)

lemma run_op_versions: "versions_le s (snd (run_op (E, op) s))"
proof (cases op)
  case (DoLoan inp)
  have "versions_le s (snd (transitionLoan E inp s))"
    by (rule transitionLoan_state) (simp_all add: versions_le_side_effects)
  with DoLoan show ?thesis by simp
next
  case (DoVehicle inp)
  have "versions_le s (snd (transitionVehicle E inp s))"
    by (rule transitionVehicle_state)
      (simp_all, auto simp: version_defs vehicle_fields_id intro!: version_update_one_mono)
  with DoVehicle show ?thesis by simp
next
  case (DoInvestment inp)
  have "versions_le s (snd (transitionInvestment E inp s))"
    by (rule transitionInvestment_state)
      (simp_all, auto simp: version_defs investment_update_def intro!: version_update_one_mono)
  with DoInvestment show ?thesis by simp
next
  case (DoFunding inp)
  have "versions_le s (snd (transitionVehicleFunding E inp s))"
    by (rule transitionVehicleFunding_state)
      (auto simp: version_defs funding_update_def intro!: version_update_one_mono)
  with DoFunding show ?thesis by simp
qed


subsection \<open>A move consumes the version it names\<close>

lemma transitionLoan_Inr:
  assumes "transitionLoan E inp s = (Inr (d', f, t), s')"
  shows "valid_oid E (li_loanId inp) \<and> js_trim (li_reason inp) \<noteq> []
     \<and> loan_body E inp (li_loanId inp) s = (Inr (d', f, t), s')"
  using assms
  by (auto simp: transitionLoan_def toObjectId_def split: if_splits dest!: in_own_session_Inr)

lemma transitionVehicle_Inr:
  assumes "transitionVehicle E inp s = (Inr (d', f, t), s')"
  shows "valid_oid E (vi_vehicleId inp) \<and> js_trim (vi_reason inp) \<noteq> []
     \<and> vehicle_body E inp (vi_vehicleId inp) s = (Inr (d', f, t), s')"
  using assms
  by (auto simp: transitionVehicle_def toObjectId_def split: if_splits dest!: in_own_session_Inr)

lemma transitionInvestment_Inr:
  assumes "transitionInvestment E inp s = (Inr (d', f, t), s')"
  shows "valid_oid E (ii_investmentId inp) \<and> js_trim (ii_reason inp) \<noteq> []
     \<and> investment_body E inp (ii_investmentId inp) s = (Inr (d', f, t), s')"
  using assms
  by (auto simp: transitionInvestment_def toObjectId_def split: if_splits dest!: in_own_session_Inr)

lemma transitionVehicleFunding_Inr:
  assumes "transitionVehicleFunding E inp s = (Inr (d', f, t), s')"
  shows "vehicle_funding_body E inp (vf_vehicleId inp) s = (Inr (d', f, t), s')"
  using assms
  by (auto simp: transitionVehicleFunding_def toObjectId_def split: if_splits
      dest!: run_in_session_Inr)

text \<open>With unique identifiers the conditional update hits exactly the document read.\<close>

lemma loan_moved_exact:
  assumes "unique_ids s" and "loan_moved E inp lid s d d' s'"
  shows "l_id d = lid \<and> eff_version (l_version d) = loan_expected inp d
    \<and> d' = loan_update E inp d
    \<and> (\<forall>y. find_loan s' y = (if y = lid then Some d' else find_loan s y))"
proof -
  let ?P = "\<lambda>e. l_id e = l_id d \<and> version_matches (l_version e) (loan_expected inp d)"
  from assms have d: "find_one (\<lambda>d. l_id d = lid) (loans s) = Some d"
    and hit: "map_option (loan_update E inp) (find_one ?P (loans s)) = Some d'"
    and s': "loans s' = update_one ?P (loan_update E inp) (loans s)"
    by (auto simp: loan_moved_def find_loan_def Let_def)
  from d have id: "l_id d = lid" by (auto dest: find_one_SomeD)
  from assms(1) have "distinct (map l_id (loans s))" by (simp add: unique_ids_def)
  from find_key_guarded [OF this, of "l_id d" "\<lambda>e. version_matches (l_version e) (loan_expected inp d)"]
  have ver: "version_matches (l_version d) (loan_expected inp d)" and "d' = loan_update E inp d"
    using d id hit by (auto split: if_splits)
  moreover have "find_loan s' lid = Some (loan_update E inp d)"
    unfolding find_loan_def s' using d id ver by (intro find_key_update_one) auto
  moreover have "find_loan s' y = find_loan s y" if "y \<noteq> lid" for y
    unfolding find_loan_def s' using that id by (intro find_key_update_one_other) auto
  ultimately show ?thesis using id by (simp add: version_matches_iff)
qed

lemma vehicle_moved_exact:
  assumes "unique_ids s" and "vehicle_moved E inp vid s d d' s'"
  shows "v_id d = vid \<and> eff_version (v_version d) = vehicle_expected inp d
    \<and> v_status d' = vehicle_target (vi_command inp)
    \<and> eff_version (v_version d') = Suc (eff_version (v_version d))
    \<and> (\<forall>y. find_vehicle s' y = (if y = vid then Some d' else find_vehicle s y))"
proof -
  let ?P = "\<lambda>e. v_id e = v_id d \<and> version_matches (v_version e) (vehicle_expected inp d)"
  from assms obtain g where d: "find_one (\<lambda>d. v_id d = vid) (vehicles s) = Some d"
    and g: "vehicle_fields E inp d (vehicle_target (vi_command inp)) (loans s) = Inr g"
    and hit: "map_option (\<lambda>e. (g e)\<lparr>v_version := inc_version (v_version e)\<rparr>)
                (find_one ?P (vehicles s)) = Some d'"
    and s': "vehicles s' = update_one ?P
               (\<lambda>e. (g e)\<lparr>v_version := inc_version (v_version e)\<rparr>) (vehicles s)"
    by (auto simp: vehicle_moved_def find_vehicle_def Let_def)
  let ?u = "\<lambda>e. (g e)\<lparr>v_version := inc_version (v_version e)\<rparr>"
  from d have id: "v_id d = vid" by (auto dest: find_one_SomeD)
  from assms(1) have "distinct (map v_id (vehicles s))" by (simp add: unique_ids_def)
  from find_key_guarded [OF this, of "v_id d" "\<lambda>e. version_matches (v_version e) (vehicle_expected inp d)"]
  have ver: "version_matches (v_version d) (vehicle_expected inp d)" and d': "d' = ?u d"
    using d id hit by (auto split: if_splits)
  moreover have "find_vehicle s' vid = Some (?u d)"
    unfolding find_vehicle_def s' using d id ver
    by (intro find_key_update_one) (auto simp: vehicle_fields_id [OF g])
  moreover have "find_vehicle s' y = find_vehicle s y" if "y \<noteq> vid" for y
    unfolding find_vehicle_def s' using that id
    by (intro find_key_update_one_other) (auto simp: vehicle_fields_id [OF g])
  ultimately show ?thesis using id by (simp add: version_matches_iff vehicle_fields_id [OF g])
qed

lemma investment_moved_exact:
  assumes "unique_ids s" and "investment_moved E inp iid s d d' s'"
  shows "i_id d = iid \<and> eff_version (i_version d) = investment_expected inp d
    \<and> d' = investment_update inp d
    \<and> (\<forall>y. find_investment s' y = (if y = iid then Some d' else find_investment s y))"
proof -
  let ?P = "\<lambda>e. i_id e = i_id d \<and> version_matches (i_version e) (investment_expected inp d)"
  from assms have d: "find_one (\<lambda>d. i_id d = iid) (investments s) = Some d"
    and hit: "map_option (investment_update inp) (find_one ?P (investments s)) = Some d'"
    and s': "investments s' = update_one ?P (investment_update inp) (investments s)"
    by (auto simp: investment_moved_def find_investment_def Let_def)
  from d have id: "i_id d = iid" by (auto dest: find_one_SomeD)
  from assms(1) have "distinct (map i_id (investments s))" by (simp add: unique_ids_def)
  from find_key_guarded [OF this, of "i_id d" "\<lambda>e. version_matches (i_version e) (investment_expected inp d)"]
  have ver: "version_matches (i_version d) (investment_expected inp d)" and "d' = investment_update inp d"
    using d id hit by (auto split: if_splits)
  moreover have "find_investment s' iid = Some (investment_update inp d)"
    unfolding find_investment_def s' using d id ver by (intro find_key_update_one) auto
  moreover have "find_investment s' y = find_investment s y" if "y \<noteq> iid" for y
    unfolding find_investment_def s' using that id by (intro find_key_update_one_other) auto
  ultimately show ?thesis using id by (simp add: version_matches_iff)
qed

lemma loan_move:
  assumes "unique_ids s" and "transitionLoan E inp s = (Inr (d', f, t), s')" and "f \<noteq> t"
  obtains d where "loan_moved E inp (li_loanId inp) s d d' s'" and "f = l_status d"
    and "t = loan_target (li_command inp)" and "find_loan s (li_loanId inp) = Some d"
    and "eff_version (l_version d) = loan_expected inp d" and "d' = loan_update E inp d"
    and "\<And>y. find_loan s' y = (if y = li_loanId inp then Some d' else find_loan s y)"
proof -
  from assms obtain d where d: "find_loan s (li_loanId inp) = Some d" "f = l_status d"
    "t = loan_target (li_command inp)" and m: "loan_moved E inp (li_loanId inp) s d d' s'"
    using loan_body_succeeds [of E inp "li_loanId inp" s d' f t s'] transitionLoan_Inr by fastforce
  with loan_moved_exact [OF assms(1) m] show thesis by (intro that) auto
qed

text \<open>The version named and the entity addressed, for each of the three services.\<close>

fun op_loan_id :: "env \<times> domain_op \<Rightarrow> oid" where
  "op_loan_id (E, DoLoan inp) = li_loanId inp"
| "op_loan_id _ = []"

fun op_loan_expected :: "env \<times> domain_op \<Rightarrow> nat option" where
  "op_loan_expected (E, DoLoan inp) = li_expectedVersion inp"
| "op_loan_expected _ = None"

fun op_vehicle_id :: "env \<times> domain_op \<Rightarrow> oid" where
  "op_vehicle_id (E, DoVehicle inp) = vi_vehicleId inp"
| "op_vehicle_id _ = []"

fun op_vehicle_expected :: "env \<times> domain_op \<Rightarrow> nat option" where
  "op_vehicle_expected (E, DoVehicle inp) = vi_expectedVersion inp"
| "op_vehicle_expected _ = None"

fun op_investment_id :: "env \<times> domain_op \<Rightarrow> oid" where
  "op_investment_id (E, DoInvestment inp) = ii_investmentId inp"
| "op_investment_id _ = []"

fun op_investment_expected :: "env \<times> domain_op \<Rightarrow> nat option" where
  "op_investment_expected (E, DoInvestment inp) = ii_expectedVersion inp"
| "op_investment_expected _ = None"

lemma map_prod_result_Inr:
  "map_prod (map_sum id g) id p = (Inr r, s') \<longleftrightarrow> (\<exists>a. p = (Inr a, s') \<and> r = g a)"
  by (cases p; cases "fst p") auto

lemma loan_effective_version:
  assumes "unique_ids s" and "run_op x s = (Inr r, s')" and "moved r"
    and "op_loan_expected x = Some v"
  shows "loan_version s (op_loan_id x) = v \<and> v < loan_version s' (op_loan_id x)"
proof -
  from assms(4) obtain E inp where x: "x = (E, DoLoan inp)" and v: "li_expectedVersion inp = Some v"
    by (cases x rule: op_loan_expected.cases) auto
  from assms(2) x obtain d' f t where r: "transitionLoan E inp s = (Inr (d', f, t), s')" "r = RLoan d' f t"
    by (auto simp: map_prod_result_Inr)
  with assms(3) have ne: "f \<noteq> t" by simp
  from loan_move [OF assms(1) r(1) ne] obtain d where
    "find_loan s (li_loanId inp) = Some d" "eff_version (l_version d) = loan_expected inp d"
    "find_loan s' (li_loanId inp) = Some (loan_update E inp d)"
    by metis
  with x v show ?thesis by (simp add: loan_version_def loan_expected_def loan_update_def)
qed

lemma vehicle_effective_version:
  assumes "unique_ids s" and "run_op x s = (Inr r, s')" and "moved r"
    and "op_vehicle_expected x = Some v"
  shows "vehicle_version s (op_vehicle_id x) = v \<and> v < vehicle_version s' (op_vehicle_id x)"
proof -
  from assms(4) obtain E inp where x: "x = (E, DoVehicle inp)" and v: "vi_expectedVersion inp = Some v"
    by (cases x rule: op_vehicle_expected.cases) auto
  from assms(2) x obtain d' f t where r: "transitionVehicle E inp s = (Inr (d', f, t), s')"
    "r = RVehicle d' f t"
    by (auto simp: map_prod_result_Inr)
  with assms(3) obtain d where d: "find_vehicle s (vi_vehicleId inp) = Some d"
    and m: "vehicle_moved E inp (vi_vehicleId inp) s d d' s'"
    using vehicle_body_succeeds [of E inp "vi_vehicleId inp" s d' f t s'] transitionVehicle_Inr
    by fastforce
  from d vehicle_moved_exact [OF assms(1) m] x v show ?thesis
    by (simp add: vehicle_version_def vehicle_expected_def)
qed

lemma investment_effective_version:
  assumes "unique_ids s" and "run_op x s = (Inr r, s')" and "moved r"
    and "op_investment_expected x = Some v"
  shows "investment_version s (op_investment_id x) = v \<and> v < investment_version s' (op_investment_id x)"
proof -
  from assms(4) obtain E inp where x: "x = (E, DoInvestment inp)"
    and v: "ii_expectedVersion inp = Some v"
    by (cases x rule: op_investment_expected.cases) auto
  from assms(2) x obtain d' f t where r: "transitionInvestment E inp s = (Inr (d', f, t), s')"
    "r = RInvestment d' f t"
    by (auto simp: map_prod_result_Inr)
  with assms(3) obtain d where d: "find_investment s (ii_investmentId inp) = Some d"
    and m: "investment_moved E inp (ii_investmentId inp) s d d' s'"
    using investment_body_succeeds [of E inp "ii_investmentId inp" s d' f t s'] transitionInvestment_Inr
    by fastforce
  from d investment_moved_exact [OF assms(1) m] x v show ?thesis
    by (simp add: investment_version_def investment_expected_def investment_update_def)
qed

interpretation loan_lock:
  optimistic_lock run_op loan_version op_loan_id op_loan_expected moved unique_ids
proof unfold_locales
  show "loan_version s x \<le> loan_version (snd (run_op i s)) x" for s x i
    using run_op_versions by (cases i) (auto simp: versions_le_def)
qed (auto simp: run_op_unique loan_effective_version)

interpretation vehicle_lock:
  optimistic_lock run_op vehicle_version op_vehicle_id op_vehicle_expected moved unique_ids
proof unfold_locales
  show "vehicle_version s x \<le> vehicle_version (snd (run_op i s)) x" for s x i
    using run_op_versions by (cases i) (auto simp: versions_le_def)
qed (auto simp: run_op_unique vehicle_effective_version)

interpretation investment_lock:
  optimistic_lock run_op investment_version op_investment_id op_investment_expected moved unique_ids
proof unfold_locales
  show "investment_version s x \<le> investment_version (snd (run_op i s)) x" for s x i
    using run_op_versions by (cases i) (auto simp: versions_le_def)
qed (auto simp: run_op_unique investment_effective_version)


subsection \<open>The loan history is a trace of the table\<close>

definition loan_step_of :: "oid \<Rightarrow> history_entry \<Rightarrow> loan_status option" where
  "loan_step_of x h =
     (case h_toState h of LoanState st \<Rightarrow> if h_entityId h = x then Some st else None | _ \<Rightarrow> None)"

definition loan_trail :: "db \<Rightarrow> oid \<Rightarrow> loan_status list" where
  "loan_trail s x = List.map_filter (loan_step_of x) (history s)"

definition loan_trail_inv :: "db \<Rightarrow> bool" where
  "loan_trail_inv s \<longleftrightarrow> unique_ids s \<and> (\<forall>x d. find_loan s x = Some d \<longrightarrow>
     walk LOAN_VALID_TRANSITIONS (Loan_Pending # loan_trail s x)
     \<and> last (Loan_Pending # loan_trail s x) = l_status d
     \<and> eff_version (l_version d) = length (loan_trail s x))"

definition fresh_db :: "db \<Rightarrow> bool" where
  "fresh_db s \<longleftrightarrow> unique_ids s \<and> history s = []
     \<and> (\<forall>d \<in> set (loans s). l_status d = Loan_Pending \<and> eff_version (l_version d) = 0)"

lemma loan_trail_inv_fresh: "fresh_db s \<Longrightarrow> loan_trail_inv s"
  by (auto simp: fresh_db_def loan_trail_inv_def loan_trail_def find_loan_def map_filter_simps
      dest!: find_one_SomeD)

lemma loan_trail_inv_cong:
  assumes "loan_trail_inv s" and "unique_ids s'" and "loans s' = loans s"
    and "\<And>x. loan_trail s' x = loan_trail s x"
  shows "loan_trail_inv s'"
  using assms by (simp add: loan_trail_inv_def find_loan_def)

lemma map_filter_snoc:
  "List.map_filter g (xs @ [y]) = List.map_filter g xs @ (case g y of None \<Rightarrow> [] | Some z \<Rightarrow> [z])"
  by (induction xs) (auto simp: map_filter_simps split: option.splits)

lemma loan_trail_other:
  assumes "history s' = history s @ [h]" and "\<And>x. loan_step_of x h = None"
  shows "loan_trail s' x = loan_trail s x"
  using assms by (simp add: loan_trail_def map_filter_snoc)

lemma note_step_of:
  "loan_step_of x (note_history E (vehicle_note vin v t) a) = None"
  "loan_step_of x (note_history E (investment_note iin i u) a) = None"
  "loan_step_of x (note_history E (loan_note inp d w) a) = (if l_id d = x then Some w else None)"
  by (simp_all add: loan_step_of_def note_history_def vehicle_note_def investment_note_def loan_note_def)

lemma loan_move_keeps_trail:
  assumes inv: "loan_trail_inv s" and r: "transitionLoan E inp s = (Inr (d', f, t), s')" and ne: "f \<noteq> t"
  shows "loan_trail_inv s'"
proof -
  from inv have u: "unique_ids s" by (simp add: loan_trail_inv_def)
  from loan_move [OF u r ne] obtain d where m: "loan_moved E inp (li_loanId inp) s d d' s'"
    and f: "f = l_status d" "t = loan_target (li_command inp)" "find_loan s (li_loanId inp) = Some d"
    and d': "d' = loan_update E inp d"
    and find: "\<And>y. find_loan s' y = (if y = li_loanId inp then Some d' else find_loan s y)"
    by metis
  from m obtain a where h: "history s' = history s @ [note_history E (loan_note inp d t) a]"
    and step: "t \<in> set (LOAN_VALID_TRANSITIONS f)"
    using f by (auto simp: loan_moved_def Let_def)
  from f(3) have id: "l_id d = li_loanId inp" by (auto simp: find_loan_def dest: find_one_SomeD)
  have trail: "loan_trail s' x = loan_trail s x @ (if x = li_loanId inp then [t] else [])" for x
    using h id by (simp add: loan_trail_def map_filter_snoc note_step_of)
  have "unique_ids s'" using run_op_unique [OF u, of "(E, DoLoan inp)"] r by simp
  with inv f step find trail d' show ?thesis
    by (auto simp: loan_trail_inv_def loan_update_def walk_snoc [of "Loan_Pending # _", simplified]
        split: if_splits)
qed

text \<open>A failed call in a transaction of its own leaves nothing but audit rows.\<close>

lemma rollback_self [simp]: "rollback s s = s"
  by (simp add: rollback_def)

lemma own_failure:
  assumes "own_session op" and "run_op (E, op) s = (Inl e, s')"
  shows "\<exists>s1. s' = rollback s s1"
proof -
  have early: "\<exists>s1. s = rollback s s1"
    by (rule exI [of _ s]) simp
  show ?thesis
  proof (cases op)
    case (DoFunding inp)
    with assms obtain e' where "transitionVehicleFunding E inp s = (Inl e', s')"
      by (cases "transitionVehicleFunding E inp s"; cases "fst (transitionVehicleFunding E inp s)") auto
    with DoFunding assms(1) early show ?thesis
      by (auto simp: transitionVehicleFunding_def split: sum.splits dest: run_in_session_Inl_own)
  next
    case (DoLoan inp)
    with assms obtain e' where "transitionLoan E inp s = (Inl e', s')"
      by (cases "transitionLoan E inp s"; cases "fst (transitionLoan E inp s)") auto
    with DoLoan assms(1) early show ?thesis
      by (auto simp: transitionLoan_def split: sum.splits if_splits dest: in_own_session_Inl)
  next
    case (DoVehicle inp)
    with assms obtain e' where "transitionVehicle E inp s = (Inl e', s')"
      by (cases "transitionVehicle E inp s"; cases "fst (transitionVehicle E inp s)") auto
    with DoVehicle assms(1) early show ?thesis
      by (auto simp: transitionVehicle_def split: sum.splits if_splits dest: in_own_session_Inl)
  next
    case (DoInvestment inp)
    with assms obtain e' where "transitionInvestment E inp s = (Inl e', s')"
      by (cases "transitionInvestment E inp s"; cases "fst (transitionInvestment E inp s)") auto
    with DoInvestment assms(1) early show ?thesis
      by (auto simp: transitionInvestment_def split: sum.splits if_splits dest: in_own_session_Inl)
  qed
qed

text \<open>Success of the other services: the loans and the loan trails are as before.\<close>

definition same_loans :: "db \<Rightarrow> db \<Rightarrow> bool" where
  "same_loans s s' \<longleftrightarrow> loans s' = loans s \<and> (\<forall>x. loan_trail s' x = loan_trail s x)"

lemma same_loans_rollback: "same_loans s (rollback s s1)"
  by (simp add: same_loans_def loan_trail_def)

lemma same_loans_vehicle:
  assumes "transitionVehicle E inp s = (Inr (d', f, t), s')"
  shows "same_loans s s'"
proof -
  from assms obtain d where "s' = s \<or> vehicle_moved E inp (vi_vehicleId inp) s d d' s'"
    using vehicle_body_succeeds [of E inp "vi_vehicleId inp" s d' f t s'] transitionVehicle_Inr
    by (metis (no_types, lifting))
  then show ?thesis
    by (auto simp: same_loans_def vehicle_moved_def Let_def note_step_of intro!: loan_trail_other)
qed

lemma same_loans_investment:
  assumes "transitionInvestment E inp s = (Inr (d', f, t), s')"
  shows "same_loans s s'"
proof -
  from assms obtain d where "s' = s \<or> investment_moved E inp (ii_investmentId inp) s d d' s'"
    using investment_body_succeeds [of E inp "ii_investmentId inp" s d' f t s'] transitionInvestment_Inr
    by (metis (no_types, lifting))
  then show ?thesis
    by (auto simp: same_loans_def investment_moved_def Let_def note_step_of intro!: loan_trail_other)
qed

lemma same_loans_funding: "same_loans s (snd (transitionVehicleFunding E inp s))"
  by (rule transitionVehicleFunding_state) (simp_all add: same_loans_def loan_trail_def)

lemma same_loans_trail_inv:
  assumes "loan_trail_inv s" and "same_loans s s'" and "unique_ids s'"
  shows "loan_trail_inv s'"
  using assms(2,3) by (auto simp: same_loans_def intro: loan_trail_inv_cong [OF assms(1)])

lemma run_op_keeps_trail:
  assumes inv: "loan_trail_inv s" and own: "own_session op"
  shows "loan_trail_inv (snd (run_op (E, op) s))"
proof -
  obtain r s' where run: "run_op (E, op) s = (r, s')" by fastforce
  have u: "unique_ids s'"
    using run_op_unique [of s "(E, op)"] inv run by (simp add: loan_trail_inv_def)
  show ?thesis
  proof (cases r)
    case (Inl e)
    with own run obtain s1 where "s' = rollback s s1" using own_failure by blast
    with run u show ?thesis using same_loans_trail_inv [OF inv same_loans_rollback] by simp
  next
    case (Inr q)
    show ?thesis
    proof (cases op)
      case (DoLoan inp)
      with run Inr obtain d' f t where r: "transitionLoan E inp s = (Inr (d', f, t), s')"
        by (auto simp: map_prod_result_Inr)
      then have "f = t \<Longrightarrow> s' = s"
        using loan_body_succeeds [of E inp "li_loanId inp" s d' f t s'] transitionLoan_Inr by fastforce
      with run inv loan_move_keeps_trail [OF inv r] show ?thesis by (cases "f = t") simp_all
    next
      case (DoVehicle inp)
      with run Inr have "same_loans s s'"
        by (auto simp: map_prod_result_Inr dest: same_loans_vehicle)
      with run u show ?thesis by (simp add: same_loans_trail_inv [OF inv])
    next
      case (DoInvestment inp)
      with run Inr have "same_loans s s'"
        by (auto simp: map_prod_result_Inr dest: same_loans_investment)
      with run u show ?thesis by (simp add: same_loans_trail_inv [OF inv])
    next
      case (DoFunding inp)
      with run u same_loans_trail_inv [OF inv same_loans_funding [of s E inp]] show ?thesis
        by (cases "transitionVehicleFunding E inp s") simp
    qed
  qed
qed

end
