(* ===== verification/Domain_Theorems.thy ===== *)
theory Domain_Theorems
  imports Domain_Guarantees
begin

text \<open>
  The properties of the loan, vehicle and investment services, each followed by a run of
  the services on a small database at which it applies.
\<close>

subsection \<open>A database to run on\<close>

definition demo_env :: env where
  "demo_env = \<lparr>now = 1000, valid_oid = (\<lambda>v. v \<noteq> []), tamper_ok = (\<lambda>_. True), auditlog_ok = True,
     critical_cfg = None, commit_fault = None\<rparr>"

definition demo_loan :: "loan_status \<Rightarrow> nat \<Rightarrow> loan" where
  "demo_loan st n = \<lparr>l_id = ''L'', l_driverId = ''D'', l_vehicleId = ''V'', l_requestedAmount = 500,
     l_totalFunded = 500, l_status = st, l_version = Some n, l_downPaymentMade = True,
     l_adminNotes = None, l_reviewedDate = None, l_approvedDate = None\<rparr>"

definition demo_vehicle :: "vehicle_status \<Rightarrow> vehicle" where
  "demo_vehicle st = \<lparr>v_id = ''V'', v_status = st, v_fundingStatus = Fund_Funded, v_driverId = None,
     v_version = None\<rparr>"

definition demo_investment :: "investment_status \<Rightarrow> investment" where
  "demo_investment st = \<lparr>i_id = ''I'', i_loanId = None, i_vehicleId = ''V'', i_amount = 500,
     i_status = Some st, i_version = Some 0\<rparr>"

definition demo_db :: "loan_status \<Rightarrow> vehicle_status \<Rightarrow> investment_status \<Rightarrow> db" where
  "demo_db ls vs is = \<lparr>loans = [demo_loan ls 0], vehicles = [demo_vehicle vs],
     investments = [demo_investment is], history = [], audits = []\<rparr>"

definition demo_input :: "loan_command \<Rightarrow> nat option \<Rightarrow> loan_input" where
  "demo_input c v = \<lparr>li_loanId = ''L'', li_command = c, li_actorType = Loan_Admin, li_actorId = None,
     li_reason = ''ok'', li_expectedVersion = v, li_adminNotes = None, li_correlationId = None,
     li_metadata = None, li_session = False\<rparr>"

lemmas demo_defs = demo_env_def demo_loan_def demo_vehicle_def demo_investment_def demo_db_def
  demo_input_def

lemmas loan_run_defs =
  transitionLoan_def toObjectId_def in_own_session_def run_in_session_def loan_body_def
  isTerminalLoanState_def TERMINAL_LOAN_STATES_def isValidLoanTransition_def isLoanActorAllowed_def
  loan_preconditions_def find_one_and_update_def version_matches_def record_transition_def
  truthy_def log_audit_event_def loan_set_fields_def loan_side_effects_def update_many_def Let_def
  js_trim_def is_ws_def loan_note_def

lemma demo_unique [simp]: "unique_ids (demo_db a b c)"
  by (simp add: unique_ids_def demo_defs)

lemma demo_success:
  "\<exists>d' s'. transitionLoan demo_env (demo_input Loan_activate v) (demo_db Loan_Approved w Inv_Funding)
      = (Inr (d', Loan_Approved, Loan_Active), s')" if "v = None \<or> v = Some 0"
  using that by (auto simp: loan_run_defs demo_defs eff_version_def)

subsection \<open>Loans\<close>

text \<open>
  C1.  Over any run of the four services, each call in a transaction of its own and with any
  outcome, starting from a database of pending loans: the history rows of a loan spell out
  a walk of the status table that ends in the loan's present status, the version of the
  loan counts the rows, there are at most four of them, and a completed loan was reviewed,
  approved and active before.
\<close>

theorem loan_history_is_a_walk:
  assumes "fresh_db s0" and "\<forall>x \<in> set ops. own_session (snd x)"
    and "find_loan (run_seq run_op ops s0) x = Some d"
  shows "walk LOAN_VALID_TRANSITIONS (Loan_Pending # loan_trail (run_seq run_op ops s0) x)
    \<and> last (Loan_Pending # loan_trail (run_seq run_op ops s0) x) = l_status d
    \<and> eff_version (l_version d) = length (loan_trail (run_seq run_op ops s0) x)
    \<and> eff_version (l_version d) \<le> 4
    \<and> (l_status d = Loan_Completed \<longrightarrow> loan_trail (run_seq run_op ops s0) x =
         [Loan_Under_Review, Loan_Approved, Loan_Active, Loan_Completed])"
proof -
  have "loan_trail_inv (run_seq run_op ops s0)"
  proof (rule run_seq_invariant)
    show "loan_trail_inv s0" using assms(1) by (rule loan_trail_inv_fresh)
    show "loan_trail_inv (snd (run_op i s))" if "i \<in> set ops" "loan_trail_inv s" for i s
      using that assms(2) run_op_keeps_trail [of s "snd i" "fst i"] by simp
  qed
  with assms(3) have inv: "walk LOAN_VALID_TRANSITIONS (Loan_Pending # loan_trail (run_seq run_op ops s0) x)"
    "last (Loan_Pending # loan_trail (run_seq run_op ops s0) x) = l_status d"
    "eff_version (l_version d) = length (loan_trail (run_seq run_op ops s0) x)"
    unfolding loan_trail_inv_def by blast+
  from loan_history_shape [OF inv(1)] inv(2,3) show ?thesis
    using inv(1) by simp
qed

theorem loan_history_is_a_walk_witness:
  "\<exists>d. find_loan (run_seq run_op
         [(demo_env, DoLoan (demo_input Loan_startReview None)),
          (demo_env, DoLoan (demo_input Loan_complete None)),
          (demo_env, DoLoan (demo_input Loan_approve (Some 1)))]
         (demo_db Loan_Pending Veh_Reserved Inv_Funding)) ''L'' = Some d
     \<and> l_status d = Loan_Approved \<and> eff_version (l_version d) = 2 \<and> eff_version (l_version d) \<le> 4"
proof -
  let ?ops = "[(demo_env, DoLoan (demo_input Loan_startReview None)),
     (demo_env, DoLoan (demo_input Loan_complete None)),
     (demo_env, DoLoan (demo_input Loan_approve (Some 1)))]"
  let ?s0 = "demo_db Loan_Pending Veh_Reserved Inv_Funding"
  have fresh: "fresh_db ?s0"
    by (simp add: fresh_db_def) (simp add: demo_defs eff_version_def)
  have own: "\<forall>x \<in> set ?ops. own_session (snd x)" by (simp add: demo_input_def)
  have "\<exists>d. find_loan (run_seq run_op ?ops ?s0) ''L'' = Some d
     \<and> l_status d = Loan_Approved \<and> eff_version (l_version d) = 2"
    by (simp add: loan_run_defs demo_defs eff_version_def inc_version_def find_loan_def rollback_def)
  then obtain d where d: "find_loan (run_seq run_op ?ops ?s0) ''L'' = Some d"
    "l_status d = Loan_Approved" "eff_version (l_version d) = 2" by blast
  from loan_history_is_a_walk [OF fresh own d(1)] d show ?thesis by blast
qed

text \<open>
   No lost update on loans: once a call that named version \<open>v\<close> has moved a loan, no later
  call that names \<open>v\<close> can move it, whatever the four services did in between.
\<close>

theorem loan_no_lost_update:
  assumes "unique_ids s"
    and "transitionLoan E inp s = (Inr (d1, f1, t1), s')" and "f1 \<noteq> t1"
    and "li_expectedVersion inp = Some v" and "li_expectedVersion inp2 = Some v"
    and "li_loanId inp2 = li_loanId inp"
    and "transitionLoan E2 inp2 (run_seq run_op ops s') = (Inr (d2, f2, t2), s'')"
  shows "f2 = t2"
  using loan_lock.no_lost_update [of s "(E, DoLoan inp)" "RLoan d1 f1 t1" s' v "(E2, DoLoan inp2)" ops
      "RLoan d2 f2 t2" s''] assms
  by simp

theorem loan_no_lost_update_witness:
  "\<exists>d1 s'. transitionLoan demo_env (demo_input Loan_activate (Some 0))
        (demo_db Loan_Approved Veh_Reserved Inv_Funding) = (Inr (d1, Loan_Approved, Loan_Active), s')
     \<and> (\<forall>d2 f2 t2 s''. transitionLoan demo_env (demo_input Loan_complete (Some 0)) s'
          = (Inr (d2, f2, t2), s'') \<longrightarrow> f2 = t2)"
proof -
  obtain d1 s' where first: "transitionLoan demo_env (demo_input Loan_activate (Some 0))
      (demo_db Loan_Approved Veh_Reserved Inv_Funding) = (Inr (d1, Loan_Approved, Loan_Active), s')"
    using demo_success [of "Some 0" Veh_Reserved] by auto
  have named: "li_expectedVersion (demo_input c (Some 0)) = Some 0"
    "li_loanId (demo_input c w) = ''L''" for c w
    by (simp_all add: demo_input_def)
  from first loan_no_lost_update [OF demo_unique first, of 0 "demo_input Loan_complete (Some 0)"
      demo_env "[]"] named
  show ?thesis by auto
qed

text \<open>Fields of a moved loan, and of the vehicle and the investments it drags along.\<close>

lemma loan_move_effects:
  assumes "unique_ids s" and "transitionLoan E inp s = (Inr (d', f, t), s')" and "f \<noteq> t"
  shows "\<exists>d rows h. find_loan s (li_loanId inp) = Some d \<and> f = l_status d
    \<and> t = loan_target (li_command inp) \<and> t \<in> set (LOAN_VALID_TRANSITIONS f)
    \<and> isLoanActorAllowed t (Some f) (li_actorType inp) \<and> loan_preconditions d t
    \<and> d' = loan_update E inp d
    \<and> vehicles s' = vehicles (loan_side_effects d t s)
    \<and> investments s' = investments (loan_side_effects d t s)
    \<and> history s' = history s @ [h] \<and> h_entityId h = l_id d
    \<and> h_fromState h = LoanState f \<and> h_toState h = LoanState t \<and> h_timestamp h = now E"
proof -
  from loan_move [OF assms] obtain d where m: "loan_moved E inp (li_loanId inp) s d d' s'"
    and f: "f = l_status d" "t = loan_target (li_command inp)" "find_loan s (li_loanId inp) = Some d"
    and d': "d' = loan_update E inp d"
    by metis
  have frame: "vehicles (loan_side_effects d w (s\<lparr>loans := ls\<rparr>)) = vehicles (loan_side_effects d w s)"
    "investments (loan_side_effects d w (s\<lparr>loans := ls\<rparr>)) = investments (loan_side_effects d w s)" for ls w
    by (cases w; simp add: loan_side_effects_def Let_def)+
  from m f d' show ?thesis
    by (auto simp: loan_moved_def Let_def frame note_history_def loan_note_def)
qed

text \<open>
  C2.  Activating a loan: it was approved, it is fully funded, its down payment is recorded,
  an admin or the system did it; its vehicle (if there is one) is now financed and driven by
  the loan's driver, and no investment in that vehicle is left in Funding.
\<close>

theorem loan_activation:
  assumes "unique_ids s" and "transitionLoan E inp s = (Inr (d', f, Loan_Active), s')"
    and "f \<noteq> Loan_Active"
  shows "f = Loan_Approved \<and> l_requestedAmount d' \<le> l_totalFunded d' \<and> l_downPaymentMade d'
    \<and> li_actorType inp \<in> {Loan_Admin, Loan_System}
    \<and> find_loan s' (li_loanId inp) = Some d'
    \<and> find_vehicle s' (l_vehicleId d') = map_option (\<lambda>v. v\<lparr>v_status := Veh_Financed,
         v_fundingStatus := Fund_Active, v_driverId := Some (l_driverId d')\<rparr>)
         (find_vehicle s (l_vehicleId d'))
    \<and> (\<forall>i \<in> set (investments s'). i_vehicleId i = l_vehicleId d' \<longrightarrow> i_status i \<noteq> Some Inv_Funding)"
proof -
  from loan_move_effects [OF assms] obtain d where d: "find_loan s (li_loanId inp) = Some d"
    "f = l_status d" "loan_target (li_command inp) = Loan_Active"
    "Loan_Active \<in> set (LOAN_VALID_TRANSITIONS f)"
    "isLoanActorAllowed Loan_Active (Some f) (li_actorType inp)" "loan_preconditions d Loan_Active"
    and d': "d' = loan_update E inp d"
    and v: "vehicles s' = vehicles (loan_side_effects d Loan_Active s)"
    and i: "investments s' = investments (loan_side_effects d Loan_Active s)"
    by metis
  have same: "l_vehicleId d' = l_vehicleId d" "l_driverId d' = l_driverId d"
    "l_requestedAmount d' = l_requestedAmount d" "l_downPaymentMade d' = l_downPaymentMade d"
    "l_totalFunded d' = l_totalFunded d"
    using d' d(3) by (simp_all add: loan_update_def loan_set_fields_def Let_def)
  have found: "find_loan s' (li_loanId inp) = Some d'"
    using loan_move [OF assms] by metis
  have "find_vehicle s' (l_vehicleId d) = map_option (\<lambda>u. u\<lparr>v_status := Veh_Financed,
      v_fundingStatus := Fund_Active, v_driverId := Some (l_driverId d)\<rparr>) (find_vehicle s (l_vehicleId d))"
    by (simp add: find_vehicle_def v loan_side_effects_def Let_def find_key_update_one_map)
  moreover have "\<forall>k \<in> set (investments s'). i_vehicleId k = l_vehicleId d \<longrightarrow> i_status k \<noteq> Some Inv_Funding"
    by (auto simp: i loan_side_effects_def Let_def update_many_def)
  ultimately show ?thesis
    using d found same by (auto simp: loan_into_active loan_preconditions_def isLoanActorAllowed_def
        split: if_splits)
qed

theorem loan_activation_witness:
  "\<exists>d' s'. transitionLoan demo_env (demo_input Loan_activate None)
        (demo_db Loan_Approved Veh_Reserved Inv_Funding) = (Inr (d', Loan_Approved, Loan_Active), s')
     \<and> l_requestedAmount d' \<le> l_totalFunded d'
     \<and> find_vehicle s' (l_vehicleId d') = map_option (\<lambda>v. v\<lparr>v_status := Veh_Financed,
         v_fundingStatus := Fund_Active, v_driverId := Some (l_driverId d')\<rparr>)
         (find_vehicle (demo_db Loan_Approved Veh_Reserved Inv_Funding) (l_vehicleId d'))"
proof -
  obtain d' s' where run: "transitionLoan demo_env (demo_input Loan_activate None)
      (demo_db Loan_Approved Veh_Reserved Inv_Funding) = (Inr (d', Loan_Approved, Loan_Active), s')"
    using demo_success [of None Veh_Reserved] by auto
  from loan_activation [OF demo_unique run] run show ?thesis by auto
qed

text \<open>
   Completing a loan frees its vehicle: whatever the status of the vehicle was, Retired
  included, it is Available afterwards, open for funding and without a driver; and every
  active investment in the loan or in the vehicle is completed, no amount changed.
\<close>

theorem loan_completion:
  assumes "unique_ids s" and "transitionLoan E inp s = (Inr (d', f, Loan_Completed), s')"
    and "f \<noteq> Loan_Completed"
  shows "f = Loan_Active
    \<and> find_vehicle s' (l_vehicleId d') = map_option (\<lambda>v. v\<lparr>v_status := Veh_Available,
         v_fundingStatus := Fund_Open, v_driverId := None\<rparr>) (find_vehicle s (l_vehicleId d'))
    \<and> (\<forall>i \<in> set (investments s'). i_vehicleId i = l_vehicleId d' \<or> i_loanId i = Some (l_id d')
          \<longrightarrow> i_status i \<noteq> Some Inv_Active)
    \<and> map i_amount (investments s') = map i_amount (investments s)"
proof -
  from loan_move_effects [OF assms] obtain d where d: "f = l_status d"
    "loan_target (li_command inp) = Loan_Completed" "Loan_Completed \<in> set (LOAN_VALID_TRANSITIONS f)"
    and d': "d' = loan_update E inp d"
    and v: "vehicles s' = vehicles (loan_side_effects d Loan_Completed s)"
    and i: "investments s' = investments (loan_side_effects d Loan_Completed s)"
    by metis
  have same: "l_vehicleId d' = l_vehicleId d" "l_id d' = l_id d"
    using d' by simp_all (simp add: loan_update_def)
  have "find_vehicle s' (l_vehicleId d) = map_option (\<lambda>u. u\<lparr>v_status := Veh_Available,
      v_fundingStatus := Fund_Open, v_driverId := None\<rparr>) (find_vehicle s (l_vehicleId d))"
    by (simp add: find_vehicle_def v loan_side_effects_def Let_def find_key_update_one_map)
  moreover have "\<forall>k \<in> set (investments s'). i_vehicleId k = l_vehicleId d \<or> i_loanId k = Some (l_id d)
      \<longrightarrow> i_status k \<noteq> Some Inv_Active"
    by (auto simp: i loan_side_effects_def Let_def update_many_def)
  moreover have "map i_amount (investments s') = map i_amount (investments s)"
    by (simp add: i loan_side_effects_def Let_def update_many_keys)
  ultimately show ?thesis using d same by (simp add: loan_into_completed)
qed

theorem loan_completion_witness:
  "\<exists>d' s'. transitionLoan demo_env (demo_input Loan_complete None)
        (demo_db Loan_Active Veh_Retired Inv_Active) = (Inr (d', Loan_Active, Loan_Completed), s')
     \<and> find_vehicle s' (l_vehicleId d') = map_option (\<lambda>v. v\<lparr>v_status := Veh_Available,
         v_fundingStatus := Fund_Open, v_driverId := None\<rparr>)
         (find_vehicle (demo_db Loan_Active Veh_Retired Inv_Active) (l_vehicleId d'))"
proof -
  have "\<exists>d' s'. transitionLoan demo_env (demo_input Loan_complete None)
        (demo_db Loan_Active Veh_Retired Inv_Active) = (Inr (d', Loan_Active, Loan_Completed), s')"
    by (simp add: loan_run_defs demo_defs eff_version_def)
  then obtain d' s' where run: "transitionLoan demo_env (demo_input Loan_complete None)
        (demo_db Loan_Active Veh_Retired Inv_Active) = (Inr (d', Loan_Active, Loan_Completed), s')"
    by blast
  from loan_completion [OF demo_unique run] run show ?thesis by auto
qed

text \<open>
   The outcome of a loan command on a loan that exists, in the order of the code's
  checks: an invalid move, a forbidden actor, an unmet precondition and a stale version are
  each reported with their own error and change nothing; otherwise, with the surroundings
  in order, the move happens and appends exactly one history row.
\<close>

theorem loan_command_outcome:
  assumes "js_trim (li_reason inp) \<noteq> []" and "valid_oid E (li_loanId inp)" and "unique_ids s"
    and d: "find_loan s (li_loanId inp) = Some d"
    and t: "t = loan_target (li_command inp)" and ne: "l_status d \<noteq> t"
  shows "(t \<notin> set (LOAN_VALID_TRANSITIONS (l_status d)) \<longrightarrow>
            transitionLoan E inp s = (Inl (DomainTransitionError INVALID_TRANSITION), s))
    \<and> (t \<in> set (LOAN_VALID_TRANSITIONS (l_status d))
        \<and> \<not> isLoanActorAllowed t (Some (l_status d)) (li_actorType inp) \<longrightarrow>
            transitionLoan E inp s = (Inl (DomainTransitionError FORBIDDEN_ACTOR), s))
    \<and> (t \<in> set (LOAN_VALID_TRANSITIONS (l_status d))
        \<and> isLoanActorAllowed t (Some (l_status d)) (li_actorType inp)
        \<and> \<not> loan_preconditions d t \<longrightarrow>
            transitionLoan E inp s = (Inl (DomainTransitionError PRECONDITION_FAILED), s))
    \<and> (t \<in> set (LOAN_VALID_TRANSITIONS (l_status d))
        \<and> isLoanActorAllowed t (Some (l_status d)) (li_actorType inp) \<and> loan_preconditions d t
        \<and> eff_version (l_version d) \<noteq> loan_expected inp d \<longrightarrow>
            transitionLoan E inp s = (Inl (DomainConcurrencyError ''loan''), s))
    \<and> (t \<in> set (LOAN_VALID_TRANSITIONS (l_status d))
        \<and> isLoanActorAllowed t (Some (l_status d)) (li_actorType inp) \<and> loan_preconditions d t
        \<and> eff_version (l_version d) = loan_expected inp d
        \<and> li_actorId inp = None \<and> (\<forall>ev. tamper_ok E ev) \<and> commit_fault E = None \<longrightarrow>
            (\<exists>d' s'. transitionLoan E inp s = (Inr (d', l_status d, t), s')
               \<and> length (history s') = Suc (length (history s))))"
proof -
  have found: "find_one (\<lambda>e. l_id e = li_loanId inp) (loans s) = Some d"
    using d by (simp add: find_loan_def)
  then have id: "l_id d = li_loanId inp" by (auto dest: find_one_SomeD)
  have body: "transitionLoan E inp s = in_own_session E ''loan'' (li_session inp)
      (loan_body E inp (li_loanId inp)) s"
    using assms(1,2) by (simp add: transitionLoan_def toObjectId_def)
  have err: "in_own_session E ''loan'' ex b s = (Inl e, s)"
    if "b s = (Inl e, s)" "\<not> isWriteConflict e" for b e ex
    using that by (simp add: in_own_session_def run_in_session_def)
  have uniq: "distinct (map l_id (loans s))" using assms(3) by (simp add: unique_ids_def)
  have hit: "find_one (\<lambda>e. l_id e = l_id d \<and> version_matches (l_version e) (loan_expected inp d)) (loans s)
      = (if eff_version (l_version d) = loan_expected inp d then Some d else None)"
    using find_key_guarded [OF uniq, of "l_id d" "\<lambda>e. version_matches (l_version e) (loan_expected inp d)"]
      found id by (simp add: version_matches_iff)
  note unfold = loan_body_def found option.case Let_def t [symmetric] if_not_P [OF ne]
    find_one_and_update_def loan_expected_def [symmetric] hit isValidLoanTransition_def
    loan_life.terminal_iff
  show ?thesis unfolding body
    by (auto intro!: err simp: unfold ne split: if_splits)
       (auto simp: in_own_session_def run_in_session_def unfold ne record_transition_def truthy_def
          loan_note_def log_audit_event_def Let_def)
qed

theorem loan_command_outcome_witness:
  "transitionLoan demo_env (demo_input Loan_complete None)
      (demo_db Loan_Approved Veh_Reserved Inv_Funding)
   = (Inl (DomainTransitionError INVALID_TRANSITION), demo_db Loan_Approved Veh_Reserved Inv_Funding)"
proof -
  have "js_trim (li_reason (demo_input Loan_complete None)) \<noteq> []"
    "valid_oid demo_env (li_loanId (demo_input Loan_complete None))"
    "find_loan (demo_db Loan_Approved Veh_Reserved Inv_Funding) (li_loanId (demo_input Loan_complete None))
       = Some (demo_loan Loan_Approved 0)"
    "Loan_Completed = loan_target (li_command (demo_input Loan_complete None))"
    "l_status (demo_loan Loan_Approved 0) \<noteq> Loan_Completed"
    by (simp_all add: demo_defs find_loan_def js_trim_def is_ws_def)
  from loan_command_outcome [OF this(1,2) demo_unique this(3,4,5)] show ?thesis
    by (simp add: demo_loan_def)
qed

text \<open>
   A driver can do one thing to a loan: cancel it before it is active.
\<close>

theorem driver_only_cancels:
  assumes "unique_ids s" and "transitionLoan E inp s = (Inr (d', f, t), s')" and "f \<noteq> t"
    and "li_actorType inp = Loan_Driver"
  shows "t = Loan_Cancelled \<and> f \<in> {Loan_Pending, Loan_Under_Review, Loan_Approved}"
proof -
  from loan_move_effects [OF assms(1-3)]
  have "isLoanActorAllowed t (Some f) Loan_Driver" using assms(4) by auto
  then show ?thesis
    by (cases t) (auto simp: isLoanActorAllowed_def PRE_ACTIVE_LOAN_STATES_def split: if_splits)
qed

theorem driver_only_cancels_witness:
  "\<exists>d' s'. transitionLoan demo_env ((demo_input Loan_cancel None)\<lparr>li_actorType := Loan_Driver\<rparr>)
        (demo_db Loan_Pending Veh_Reserved Inv_Funding) = (Inr (d', Loan_Pending, Loan_Cancelled), s')
     \<and> Loan_Pending \<in> {Loan_Pending, Loan_Under_Review, Loan_Approved}"
proof -
  let ?inp = "(demo_input Loan_cancel None)\<lparr>li_actorType := Loan_Driver\<rparr>"
  have "\<exists>d' s'. transitionLoan demo_env ?inp (demo_db Loan_Pending Veh_Reserved Inv_Funding)
      = (Inr (d', Loan_Pending, Loan_Cancelled), s')"
    by (simp add: loan_run_defs PRE_ACTIVE_LOAN_STATES_def demo_defs eff_version_def)
  then obtain d' s' where run: "transitionLoan demo_env ?inp (demo_db Loan_Pending Veh_Reserved Inv_Funding)
      = (Inr (d', Loan_Pending, Loan_Cancelled), s')" by blast
  from driver_only_cancels [OF demo_unique run] run show ?thesis by auto
qed


subsection \<open>Vehicles\<close>

definition demo_vehicle_input :: "vehicle_command \<Rightarrow> vehicle_input" where
  "demo_vehicle_input c = \<lparr>vi_vehicleId = ''V'', vi_command = c, vi_actorType = Veh_Admin,
     vi_actorId = None, vi_reason = ''ok'', vi_expectedVersion = None, vi_driverId = Some ''D'',
     vi_correlationId = None, vi_metadata = None, vi_session = False\<rparr>"

text \<open>
   What a successful vehicle move implies: it follows the vehicle table (a retired
  vehicle never moves), maintenance is entered by an admin and only while no loan on the
  vehicle is active, a financed vehicle has a driver and active funding, a vehicle that goes
  back to Available has no driver, and its version grows by one.
\<close>

theorem vehicle_move_guards:
  assumes "unique_ids s" and "transitionVehicle E inp s = (Inr (d', f, t), s')" and "f \<noteq> t"
  shows "t \<in> set (VEHICLE_VALID_TRANSITIONS f) \<and> f \<noteq> Veh_Retired
    \<and> find_vehicle s' (vi_vehicleId inp) = Some d' \<and> v_status d' = t
    \<and> vehicle_version s' (vi_vehicleId inp) = Suc (vehicle_version s (vi_vehicleId inp))
    \<and> (t = Veh_Maintenance \<longrightarrow> vi_actorType inp = Veh_Admin
         \<and> (\<forall>l \<in> set (loans s'). l_vehicleId l = vi_vehicleId inp \<longrightarrow> l_status l \<noteq> Loan_Active))
    \<and> (t = Veh_Financed \<longrightarrow> v_fundingStatus d' = Fund_Active
         \<and> (\<exists>drv. v_driverId d' = Some drv \<and> vi_driverId inp = Some drv))
    \<and> (t = Veh_Available \<longrightarrow> v_driverId d' = None)"
proof -
  from assms(2,3) obtain d where d: "find_vehicle s (vi_vehicleId inp) = Some d" "f = v_status d"
    "vehicle_target (vi_command inp) = t" and m: "vehicle_moved E inp (vi_vehicleId inp) s d d' s'"
    using vehicle_body_succeeds [of E inp "vi_vehicleId inp" s d' f t s'] transitionVehicle_Inr
    by fastforce
  note exact = vehicle_moved_exact [OF assms(1) m]
  from m d obtain g e where g: "vehicle_fields E inp d t (loans s) = Inr g"
    and d': "d' = (g e)\<lparr>v_version := inc_version (v_version e)\<rparr>"
    and step: "t \<in> set (VEHICLE_VALID_TRANSITIONS f)" "isVehicleActorAllowed t (vi_actorType inp)"
    and ls: "loans s' = loans s"
    by (auto simp: vehicle_moved_def Let_def)
  from g have "t = Veh_Maintenance \<Longrightarrow>
      find_one (\<lambda>l. l_vehicleId l = v_id d \<and> l_status l = Loan_Active) (loans s) = None"
    by (auto simp: vehicle_fields_def split: option.splits)
  then have idle: "t = Veh_Maintenance \<longrightarrow>
      (\<forall>l \<in> set (loans s'). l_vehicleId l = vi_vehicleId inp \<longrightarrow> l_status l \<noteq> Loan_Active)"
    using exact ls by (auto simp: find_None_iff)
  have fields: "(t = Veh_Financed \<longrightarrow> v_fundingStatus d' = Fund_Active
      \<and> (\<exists>drv. v_driverId d' = Some drv \<and> vi_driverId inp = Some drv)) \<and> (t = Veh_Available \<longrightarrow> v_driverId d' = None)"
    using g unfolding d'
    by (auto simp: vehicle_fields_def toObjectId_def truthy_def split: if_splits option.splits)
  show ?thesis
    using exact step idle fields d ls
    by (auto simp: vehicle_version_def isVehicleActorAllowed_def)
qed

theorem vehicle_move_guards_witness:
  "\<exists>d' s'. transitionVehicle demo_env (demo_vehicle_input Veh_assignDriver)
        (demo_db Loan_Approved Veh_Reserved Inv_Funding) = (Inr (d', Veh_Reserved, Veh_Financed), s')
     \<and> v_fundingStatus d' = Fund_Active \<and> v_driverId d' \<noteq> None"
proof -
  have "\<exists>d' s'. transitionVehicle demo_env (demo_vehicle_input Veh_assignDriver)
        (demo_db Loan_Approved Veh_Reserved Inv_Funding) = (Inr (d', Veh_Reserved, Veh_Financed), s')"
    by (simp add: transitionVehicle_def vehicle_body_def vehicle_fields_def isTerminalVehicleStatus_def
        isValidVehicleTransition_def isVehicleActorAllowed_def vehicle_note_def demo_vehicle_input_def
        loan_run_defs demo_defs eff_version_def)
  then obtain d' s' where run: "transitionVehicle demo_env (demo_vehicle_input Veh_assignDriver)
        (demo_db Loan_Approved Veh_Reserved Inv_Funding) = (Inr (d', Veh_Reserved, Veh_Financed), s')"
    by blast
  from vehicle_move_guards [OF demo_unique run]
  have "v_fundingStatus d' = Fund_Active" and "v_driverId d' \<noteq> None" by auto
  with run show ?thesis by blast
qed

end
