(* ===== verification/Contract_Model.thy ===== *)
theory Contract_Model
  imports Platform Domain_Services
begin

text \<open>
  The hire-purchase contract: its status table (\<open>lib/contracts/state-machine.ts\<close>), the
  document (\<open>models/HirePurchaseContract.ts\<close>) and the repayment schedule derived from its
  terms (\<open>lib/contracts/repayment-schedule.ts\<close>).
\<close>

subsection \<open>The status table\<close>

datatype contract_status =
  PENDING_APPROVAL | APPROVED | VEHICLE_ASSIGNED | ACTIVE | DELINQUENT | RESTRUCTURED
| COMPLETED | REPOSSESSED | CANCELLED | CLOSED

datatype contract_actor = Con_Driver | Con_Admin | Con_System

fun VALID_TRANSITIONS :: "contract_status \<Rightarrow> contract_status list" where
  "VALID_TRANSITIONS PENDING_APPROVAL = [APPROVED, CANCELLED]"
| "VALID_TRANSITIONS APPROVED = [VEHICLE_ASSIGNED, CANCELLED]"
| "VALID_TRANSITIONS VEHICLE_ASSIGNED = [ACTIVE, CANCELLED]"
| "VALID_TRANSITIONS ACTIVE = [DELINQUENT, RESTRUCTURED, COMPLETED]"
| "VALID_TRANSITIONS DELINQUENT = [ACTIVE, RESTRUCTURED, REPOSSESSED, COMPLETED]"
| "VALID_TRANSITIONS RESTRUCTURED = [ACTIVE, DELINQUENT, REPOSSESSED, COMPLETED]"
| "VALID_TRANSITIONS COMPLETED = [ACTIVE, CLOSED]"
| "VALID_TRANSITIONS REPOSSESSED = [CLOSED]"
| "VALID_TRANSITIONS CANCELLED = [CLOSED]"
| "VALID_TRANSITIONS CLOSED = []"

definition PRE_ACTIVATION_STATES :: "contract_status list" where
  "PRE_ACTIVATION_STATES = [PENDING_APPROVAL, APPROVED, VEHICLE_ASSIGNED]"

definition REPAYABLE_STATES :: "contract_status list" where
  "REPAYABLE_STATES = [ACTIVE, DELINQUENT, RESTRUCTURED]"

fun TRANSITION_ACTORS :: "contract_status \<Rightarrow> contract_actor list" where
  "TRANSITION_ACTORS PENDING_APPROVAL = []"
| "TRANSITION_ACTORS APPROVED = [Con_Admin]"
| "TRANSITION_ACTORS VEHICLE_ASSIGNED = [Con_Admin]"
| "TRANSITION_ACTORS ACTIVE = [Con_Admin, Con_System]"
| "TRANSITION_ACTORS DELINQUENT = [Con_Admin, Con_System]"
| "TRANSITION_ACTORS RESTRUCTURED = [Con_Admin]"
| "TRANSITION_ACTORS COMPLETED = [Con_Admin, Con_System]"
| "TRANSITION_ACTORS REPOSSESSED = [Con_Admin]"
| "TRANSITION_ACTORS CANCELLED = [Con_Admin, Con_Driver]"
| "TRANSITION_ACTORS CLOSED = [Con_Admin, Con_System]"

definition isValidTransition :: "contract_status option \<Rightarrow> contract_status \<Rightarrow> bool" where
  "isValidTransition fromState toState =
     (case fromState of None \<Rightarrow> True
      | Some f \<Rightarrow> f = toState \<or> toState \<in> set (VALID_TRANSITIONS f))"

definition isPreActivationState :: "contract_status \<Rightarrow> bool" where
  "isPreActivationState st \<longleftrightarrow> st \<in> set PRE_ACTIVATION_STATES"

definition isRepayableState :: "contract_status \<Rightarrow> bool" where
  "isRepayableState st \<longleftrightarrow> st \<in> set REPAYABLE_STATES"

definition isActorAllowedForTransition ::
  "contract_status \<Rightarrow> contract_status option \<Rightarrow> contract_actor \<Rightarrow> bool" where
  "isActorAllowedForTransition targetState fromState actorType =
     (if actorType \<notin> set (TRANSITION_ACTORS targetState) then False
      else if targetState = CANCELLED \<and> actorType = Con_Driver
      then (case fromState of None \<Rightarrow> False | Some f \<Rightarrow> isPreActivationState f)
      else True)"

interpretation contract_life:
  lifecycle VALID_TRANSITIONS isValidTransition "\<lambda>st. st = CLOSED"
proof unfold_locales
  show "st = CLOSED \<longleftrightarrow> VALID_TRANSITIONS st = []" for st
    by (cases st) auto
qed (auto simp: isValidTransition_def)

text \<open>The table upstream of activation.\<close>

lemma contract_before_pre_activation:
  "t \<in> set PRE_ACTIVATION_STATES \<Longrightarrow> t \<in> set (VALID_TRANSITIONS s) \<Longrightarrow> s \<in> set PRE_ACTIVATION_STATES"
  by (cases s) (auto simp: PRE_ACTIVATION_STATES_def)

lemma contract_into_cancelled:
  "CANCELLED \<in> set (VALID_TRANSITIONS s) \<longleftrightarrow> s \<in> set PRE_ACTIVATION_STATES"
  by (cases s) (auto simp: PRE_ACTIVATION_STATES_def)

lemma contract_into_assigned: "VEHICLE_ASSIGNED \<in> set (VALID_TRANSITIONS s) \<longleftrightarrow> s = APPROVED"
  by (cases s) auto

lemma contract_into_repossessed:
  "REPOSSESSED \<in> set (VALID_TRANSITIONS s) \<longleftrightarrow> s = DELINQUENT \<or> s = RESTRUCTURED"
  by (cases s) auto

lemma contract_into_completed:
  "COMPLETED \<in> set (VALID_TRANSITIONS s) \<longleftrightarrow> isRepayableState s"
  by (cases s) (auto simp: isRepayableState_def REPAYABLE_STATES_def)

lemma pre_activation_walk:
  "walk VALID_TRANSITIONS ss \<Longrightarrow> ss \<noteq> [] \<Longrightarrow> last ss \<in> set PRE_ACTIVATION_STATES
     \<Longrightarrow> set ss \<subseteq> set PRE_ACTIVATION_STATES"
proof (induction ss rule: rev_induct)
  case Nil
  then show ?case by simp
next
  case (snoc t ss)
  show ?case
  proof (cases "ss = []")
    case False
    with snoc.prems have "walk VALID_TRANSITIONS ss" and "t \<in> set (VALID_TRANSITIONS (last ss))"
      by (auto simp: walk_snoc)
    with snoc contract_before_pre_activation [of t "last ss"] False show ?thesis by simp
  qed (use snoc.prems in simp)
qed

subsection \<open>The document\<close>

record timeline_entry =
  t_fromState :: "contract_status option"
  t_toState :: contract_status
  t_actorType :: contract_actor
  t_actorUserId :: "oid option"
  t_reason :: string
  t_metadata :: "(string \<times> meta) list"
  t_timestamp :: time

record contract =
  c_id :: oid
  c_driverUserId :: oid
  c_poolId :: oid
  c_vehicleId :: "oid option"
  c_totalPayableNgn :: rat
  c_durationWeeks :: rat
  c_weeklyPaymentNgn :: rat
  c_startDate :: "time option"
  c_status :: contract_status
  c_version :: "nat option"
  c_timeline :: "timeline_entry list"
  c_totalPaidNgn :: rat
  c_nextDueDate :: "time option"

subsection \<open>The repayment schedule\<close>

datatype schedule_status = PAID | PARTIAL | LATE | UPCOMING

record schedule_item =
  si_installmentNumber :: nat
  si_dueDate :: time
  si_expectedAmountNgn :: rat
  si_paidAmountNgn :: rat
  si_remainingAmountNgn :: rat
  si_status :: schedule_status

text \<open>
  The terms the schedule is computed from.  Amounts are arbitrary JavaScript numbers; the
  start date is \<open>None\<close> when it is not a valid date; the duration is finite.
\<close>

record schedule_terms =
  st_startDate :: "time option"
  st_weeklyPaymentNgn :: jsnum
  st_durationWeeks :: rat
  st_totalPaidNgn :: jsnum
  st_totalPayableNgn :: jsnum

definition clampToNonNegative :: "jsnum \<Rightarrow> rat" where
  "clampToNonNegative n = clamp_js n"

text \<open>A day of \<open>setDate\<close> in milliseconds, for clocks without daylight saving (UTC).\<close>

definition day_ms :: int where
  "day_ms = 86400000"

definition schedule_status_of :: "bool \<Rightarrow> rat \<Rightarrow> rat \<Rightarrow> schedule_status" where
  "schedule_status_of isPastDue paid remaining =
     (if remaining \<le> 0 then PAID
      else if isPastDue \<and> paid > 0 then PARTIAL
      else if isPastDue then LATE
      else UPCOMING)"

text \<open>
  The loop of \<open>Array.from({ length })\<close>: \<open>k\<close> instalments are left, \<open>index\<close> is the next one and
  \<open>remainingPaid\<close> what is left of the payments.
\<close>

definition expected_amount :: "rat \<Rightarrow> rat \<Rightarrow> nat \<Rightarrow> bool \<Rightarrow> rat" where
  "expected_amount weekly payable index isLast =
     (let scheduledCap = (if isLast then payable - weekly * of_nat index else weekly)
      in clampToNonNegative (Fin (min weekly scheduledCap)))"

definition schedule_row :: "time \<Rightarrow> nat \<Rightarrow> time \<Rightarrow> rat \<Rightarrow> rat \<Rightarrow> schedule_item" where
  "schedule_row nw installmentNumber dueDate expected remainingPaid =
     (let paid = min expected remainingPaid;
          remaining = clampToNonNegative (Fin (expected - paid))
      in \<lparr> si_installmentNumber = installmentNumber, si_dueDate = dueDate,
           si_expectedAmountNgn = expected, si_paidAmountNgn = paid,
           si_remainingAmountNgn = remaining,
           si_status = schedule_status_of (dueDate < nw) paid remaining \<rparr>)"

fun schedule_loop ::
  "time \<Rightarrow> time \<Rightarrow> rat \<Rightarrow> rat \<Rightarrow> nat \<Rightarrow> nat \<Rightarrow> rat \<Rightarrow> schedule_item list" where
  "schedule_loop start nw weekly payable index 0 remainingPaid = []"
| "schedule_loop start nw weekly payable index (Suc k) remainingPaid =
     (let installmentNumber = index + 1;
          expected = expected_amount weekly payable index (k = 0);
          row = schedule_row nw installmentNumber (start + int (installmentNumber * 7) * day_ms)
                  expected remainingPaid
      in row # schedule_loop start nw weekly payable (index + 1) k
                 (clampToNonNegative (Fin (remainingPaid - si_paidAmountNgn row))))"

definition buildRepaymentSchedule :: "schedule_terms \<Rightarrow> time \<Rightarrow> schedule_item list" where
  "buildRepaymentSchedule c nw =
     (let weekly = clampToNonNegative (num_or (st_weeklyPaymentNgn c) 0);
          durationWeeks = nat (max 0 \<lfloor>st_durationWeeks c\<rfloor>);
          payable = clampToNonNegative (num_or (st_totalPayableNgn c) 0);
          paid = clampToNonNegative (num_or (st_totalPaidNgn c) 0)
      in case st_startDate c of
           None \<Rightarrow> []
         | Some start \<Rightarrow>
             if weekly \<le> 0 \<or> durationWeeks \<le> 0 \<or> payable \<le> 0 then []
             else schedule_loop start nw weekly payable 0 durationWeeks paid)"

definition contract_terms :: "contract \<Rightarrow> schedule_terms" where
  "contract_terms c =
     \<lparr> st_startDate = c_startDate c, st_weeklyPaymentNgn = Fin (c_weeklyPaymentNgn c),
       st_durationWeeks = c_durationWeeks c, st_totalPaidNgn = Fin (c_totalPaidNgn c),
       st_totalPayableNgn = Fin (c_totalPayableNgn c) \<rparr>"

subsection \<open>Facts about the loop\<close>

lemma length_schedule_loop [simp]:
  "length (schedule_loop start nw weekly payable index k rem) = k"
  by (induction k arbitrary: index rem) (simp_all add: Let_def)

lemma clampToNonNegative_Fin [simp]: "clampToNonNegative (Fin x) = max x 0"
  by (simp add: clampToNonNegative_def)

lemma clampToNonNegative_nonneg [simp]: "0 \<le> clampToNonNegative n"
  by (simp add: clampToNonNegative_def)

lemma expected_amount_bounds:
  "0 \<le> weekly \<Longrightarrow> 0 \<le> expected_amount weekly payable index l \<and> expected_amount weekly payable index l \<le> weekly"
  by (simp add: expected_amount_def Let_def)

lemma schedule_row_sel [simp]:
  "si_expectedAmountNgn (schedule_row nw m due e rem) = e"
  "si_paidAmountNgn (schedule_row nw m due e rem) = min e rem"
  "si_remainingAmountNgn (schedule_row nw m due e rem) = max (e - min e rem) 0"
  "si_dueDate (schedule_row nw m due e rem) = due"
  by (simp_all add: schedule_row_def Let_def)

text \<open>What holds of a single row.\<close>

definition row_ok :: "time \<Rightarrow> rat \<Rightarrow> schedule_item \<Rightarrow> bool" where
  "row_ok nw weekly i \<longleftrightarrow>
     0 \<le> si_paidAmountNgn i \<and> 0 \<le> si_remainingAmountNgn i \<and> si_expectedAmountNgn i \<le> weekly
     \<and> si_expectedAmountNgn i = si_paidAmountNgn i + si_remainingAmountNgn i
     \<and> (si_status i = PAID \<longleftrightarrow> si_remainingAmountNgn i = 0)
     \<and> (si_status i \<in> {LATE, PARTIAL} \<longleftrightarrow> si_remainingAmountNgn i \<noteq> 0 \<and> si_dueDate i < nw)"

lemma schedule_row_ok:
  assumes "0 \<le> rem" and "0 \<le> e" and "e \<le> weekly"
  shows "row_ok nw weekly (schedule_row nw m due e rem)"
proof -
  have "si_status (schedule_row nw m due e rem)
      = schedule_status_of (due < nw) (min e rem) (max (e - min e rem) 0)"
    by (simp add: schedule_row_def Let_def)
  moreover have "max (e - min e rem) 0 = e - min e rem" by simp
  ultimately show ?thesis
    using assms by (auto simp: row_ok_def schedule_status_of_def)
qed

lemma schedule_loop_rows:
  assumes "0 \<le> rem" and "0 \<le> weekly"
  shows "\<forall>i \<in> set (schedule_loop start nw weekly payable index k rem). row_ok nw weekly i"
  using assms
proof (induction k arbitrary: index rem)
  case 0
  then show ?case by simp
next
  case (Suc k)
  have "0 \<le> rem - min (expected_amount weekly payable index (k = 0)) rem" by simp
  note IH = Suc.IH [OF this Suc.prems(2), of "index + 1"]
  have "row_ok nw weekly (schedule_row nw m due (expected_amount weekly payable index (k = 0)) rem)"
    for m due
    by (rule schedule_row_ok) (use Suc.prems expected_amount_bounds [OF Suc.prems(2)] in auto)
  with IH show ?case by (simp add: Let_def)
qed

lemma schedule_loop_sum_expected:
  assumes "0 \<le> weekly"
  shows "(\<Sum>i\<leftarrow>schedule_loop start nw weekly payable index (Suc k) rem. si_expectedAmountNgn i)
     = weekly * of_nat k + expected_amount weekly payable (index + k) True"
  using assms
proof (induction k arbitrary: index rem)
  case 0
  then show ?case by (simp add: Let_def)
next
  case (Suc k)
  have e: "expected_amount weekly payable index (Suc k = 0) = weekly"
    using Suc.prems by (simp add: expected_amount_def)
  show ?case
    unfolding schedule_loop.simps(2) [of _ _ _ _ _ "Suc k"] Let_def list.map sum_list.Cons
      schedule_row_sel e Suc.IH [OF Suc.prems]
    by (simp add: algebra_simps)
qed

lemma schedule_loop_sum_paid:
  assumes "0 \<le> rem" and "0 \<le> weekly"
  shows "(\<Sum>i\<leftarrow>schedule_loop start nw weekly payable index k rem. si_paidAmountNgn i)
     = min rem (\<Sum>i\<leftarrow>schedule_loop start nw weekly payable index k rem. si_expectedAmountNgn i)"
  using assms
proof (induction k arbitrary: index rem)
  case 0
  then show ?case by simp
next
  case (Suc k)
  define e where "e = expected_amount weekly payable index (k = 0)"
  define r where "r = max (rem - min e rem) 0"
  define rest where "rest = schedule_loop start nw weekly payable (index + 1) k r"
  have e: "0 \<le> e" using expected_amount_bounds [OF Suc.prems(2)] by (simp add: e_def)
  have r: "0 \<le> r" by (simp add: r_def)
  have IH: "(\<Sum>i\<leftarrow>rest. si_paidAmountNgn i) = min r (\<Sum>i\<leftarrow>rest. si_expectedAmountNgn i)"
    unfolding rest_def by (rule Suc.IH [OF r Suc.prems(2)])
  have "\<forall>i \<in> set rest. 0 \<le> si_expectedAmountNgn i"
    using schedule_loop_rows [OF r Suc.prems(2), of start nw payable "index + 1" k]
    by (auto simp: rest_def row_ok_def)
  then have pos: "0 \<le> (\<Sum>i\<leftarrow>rest. si_expectedAmountNgn i)"
    by (intro sum_list_nonneg) auto
  have "min e rem + min r x = min rem (e + x)" if "0 \<le> x" for x
    using that e Suc.prems(1) by (simp add: r_def min_def max_def)
  with IH pos show ?case
    by (simp add: Let_def flip: e_def) (simp add: r_def rest_def)
qed

text \<open>Payments fill the instalments in order.\<close>

lemma schedule_loop_fills_in_order:
  assumes "0 \<le> rem" and "0 \<le> weekly"
  shows "sorted_wrt (\<lambda>i j. si_paidAmountNgn j > 0 \<longrightarrow> si_remainingAmountNgn i = 0)
           (schedule_loop start nw weekly payable index k rem)"
  using assms
proof (induction k arbitrary: index rem)
  case 0
  then show ?case by simp
next
  case (Suc k)
  define e where "e = expected_amount weekly payable index (k = 0)"
  define r where "r = max (rem - min e rem) 0"
  define rest where "rest = schedule_loop start nw weekly payable (index + 1) k r"
  have r: "0 \<le> r" by (simp add: r_def)
  have "max (e - min e rem) 0 = 0" if j: "j \<in> set rest" "si_paidAmountNgn j > 0"  for j
  proof (rule ccontr)
    assume "max (e - min e rem) 0 \<noteq> 0"
    then have "r = 0" by (auto simp: r_def min_def max_def split: if_splits)
    then have "(\<Sum>i\<leftarrow>rest. si_paidAmountNgn i) \<le> 0"
      using schedule_loop_sum_paid [OF r Suc.prems(2), of start nw payable "index + 1" k]
      by (simp add: rest_def)
    moreover have "\<forall>i \<in> set rest. 0 \<le> si_paidAmountNgn i"
      using schedule_loop_rows [OF r Suc.prems(2), of start nw payable "index + 1" k]
      by (auto simp: rest_def row_ok_def)
    then have "si_paidAmountNgn j \<le> (\<Sum>i\<leftarrow>rest. si_paidAmountNgn i)"
      using j(1) by (intro member_le_sum_list) auto
    ultimately show False using j(2) by simp
  qed
  moreover have "sorted_wrt (\<lambda>i j. si_paidAmountNgn j > 0 \<longrightarrow> si_remainingAmountNgn i = 0) rest"
    unfolding rest_def by (rule Suc.IH [OF r Suc.prems(2)])
  ultimately show ?case
    by (simp add: Let_def flip: e_def) (auto simp: r_def rest_def)
qed

end
