(* ===== verification/Allocation_Engine.thy ===== *)
theory Allocation_Engine
  imports Contract_Model
begin

text \<open>
  The pure allocation engine of \<open>lib/repayments/allocation-engine.ts\<close>: instalment states
  derived from a contract, the allocation of a payment over arrears, the current instalment,
  fees and principal, the next due date and the arrears report.
\<close>

subsection \<open>Definitions\<close>

record installment =
  in_number :: nat
  in_dueDate :: time
  in_scheduled :: rat
  in_paid :: rat
  in_remaining :: rat
  in_isPastDue :: bool

record breakdown =
  b_arrears :: rat
  b_current :: rat
  b_fees :: rat
  b_principal :: rat
  b_excess :: rat
  b_credits :: "(nat \<times> rat) list"

record allocate_input =
  a_amount :: jsnum
  a_schedule :: "installment list"
  a_remainingBalance :: jsnum
  a_approvedFees :: jsnum

record allocate_result =
  r_accepted :: rat
  r_excess :: rat
  r_breakdown :: breakdown
  r_installments :: "installment list"

text \<open>One instalment of any of the three loops is credited.\<close>

definition credit_of :: "rat \<Rightarrow> installment \<Rightarrow> rat" where
  "credit_of wallet i = round_kobo (min wallet (in_remaining i))"

definition credit_installment :: "rat \<Rightarrow> installment \<Rightarrow> installment" where
  "credit_installment credit i =
     (let paid = round_kobo (in_paid i + credit)
      in i\<lparr>in_paid := paid, in_remaining := round_kobo (max (in_scheduled i - paid) 0)\<rparr>)"

text \<open>
  The loops of steps 1, 2 and 4: walk over the instalments while cash is left, skip those
  the step does not take and those with nothing remaining; step 2 stops after its first
  credit (\<open>once\<close>).  The loop carries the wallet and the step's total and returns the
  instalments, the wallet, the total and the credits it pushed.
\<close>

fun credit_loop ::
  "bool \<Rightarrow> (installment \<Rightarrow> bool) \<Rightarrow> rat \<Rightarrow> rat \<Rightarrow> installment list
     \<Rightarrow> installment list \<times> rat \<times> rat \<times> (nat \<times> rat) list" where
  "credit_loop once takes wallet acc [] = ([], wallet, acc, [])"
| "credit_loop once takes wallet acc (i # is) =
     (if wallet \<le> 0 then (i # is, wallet, acc, [])
      else if \<not> takes i \<or> in_remaining i \<le> 0 then
        (case credit_loop once takes wallet acc is of (is', w, a, cs) \<Rightarrow> (i # is', w, a, cs))
      else
        let credit = credit_of wallet i;
            i' = credit_installment credit i;
            wallet' = round_kobo (wallet - credit);
            acc' = round_kobo (acc + credit);
            c = (in_number i, credit)
        in if once then (i' # is, wallet', acc', [c])
           else (case credit_loop once takes wallet' acc' is of
                   (is', w, a, cs) \<Rightarrow> (i' # is', w, a, c # cs)))"

definition allocatePayment :: "allocate_input \<Rightarrow> allocate_result" where
  "allocatePayment inp =
     (let safeAmount = clamp_js (round_kobo_js (a_amount inp));
          safeBalance = clamp_js (round_kobo_js (a_remainingBalance inp));
          safeFees = clamp_js (round_kobo_js (a_approvedFees inp));
          accepted = min safeAmount safeBalance;
          excess = round_kobo (safeAmount - accepted)
      in case credit_loop False in_isPastDue accepted 0 (a_schedule inp) of
        (insts1, wallet1, arrears, cs1) \<Rightarrow>
      (case credit_loop True (\<lambda>i. \<not> in_isPastDue i) wallet1 0 insts1 of
        (insts2, wallet2, current, cs2) \<Rightarrow>
      let feeCredit = (if wallet2 > 0 \<and> safeFees > 0 then round_kobo (min wallet2 safeFees) else 0);
          wallet3 = (if wallet2 > 0 \<and> safeFees > 0 then round_kobo (wallet2 - feeCredit) else wallet2)
      in case credit_loop False (\<lambda>_. True) wallet3 0 insts2 of
        (insts4, wallet4, early, cs4) \<Rightarrow>
      \<lparr> r_accepted = accepted, r_excess = excess,
        r_breakdown =
          \<lparr> b_arrears = arrears, b_current = current, b_fees = feeCredit, b_principal = early,
            b_excess = (if wallet4 > 0 then round_kobo (excess + wallet4) else excess),
            b_credits = cs1 @ cs2 @ cs4 \<rparr>,
        r_installments = insts4 \<rparr>))"

text \<open>\<open>buildInstallmentStates\<close>, with the same reading of dates as the repayment schedule.\<close>

definition installment_row :: "time \<Rightarrow> nat \<Rightarrow> time \<Rightarrow> rat \<Rightarrow> rat \<Rightarrow> installment" where
  "installment_row nw installmentNumber dueDate scheduled remainingPaid =
     (let paid = round_kobo (min scheduled remainingPaid)
      in \<lparr> in_number = installmentNumber, in_dueDate = dueDate, in_scheduled = scheduled,
           in_paid = paid, in_remaining = round_kobo (max (scheduled - paid) 0),
           in_isPastDue = (dueDate < nw) \<rparr>)"

definition scheduled_amount :: "rat \<Rightarrow> rat \<Rightarrow> nat \<Rightarrow> bool \<Rightarrow> rat" where
  "scheduled_amount weekly payable index isLast =
     (if isLast then round_kobo (max (payable - weekly * of_nat index) 0) else weekly)"

fun installment_loop ::
  "time \<Rightarrow> time \<Rightarrow> rat \<Rightarrow> rat \<Rightarrow> nat \<Rightarrow> nat \<Rightarrow> rat \<Rightarrow> installment list" where
  "installment_loop start nw weekly payable index 0 remainingPaid = []"
| "installment_loop start nw weekly payable index (Suc k) remainingPaid =
     (let installmentNumber = index + 1;
          scheduled = scheduled_amount weekly payable index (k = 0);
          row = installment_row nw installmentNumber
                  (start + int (installmentNumber * 7) * day_ms) scheduled remainingPaid
      in row # installment_loop start nw weekly payable (index + 1) k
                 (round_kobo (max (remainingPaid - in_paid row) 0)))"

definition buildInstallmentStates :: "schedule_terms \<Rightarrow> time \<Rightarrow> installment list" where
  "buildInstallmentStates c nw =
     (let weekly = clamp_js (num_or (st_weeklyPaymentNgn c) 0);
          durationWeeks = nat (max 0 \<lfloor>st_durationWeeks c\<rfloor>);
          payable = clamp_js (num_or (st_totalPayableNgn c) 0);
          paid = clamp_js (num_or (st_totalPaidNgn c) 0)
      in case st_startDate c of
           None \<Rightarrow> []
         | Some start \<Rightarrow>
             if weekly \<le> 0 \<or> durationWeeks \<le> 0 \<or> payable \<le> 0 then []
             else installment_loop start nw weekly payable 0 durationWeeks paid)"

definition calculateNextDueDateFromSchedule :: "installment list \<Rightarrow> time option" where
  "calculateNextDueDateFromSchedule insts =
     (case find_one (\<lambda>i. in_isPastDue i \<and> in_remaining i > 0) insts of
        Some i \<Rightarrow> Some (in_dueDate i)
      | None \<Rightarrow> (case find_one (\<lambda>i. \<not> in_isPastDue i \<and> in_remaining i > 0) insts of
                   Some i \<Rightarrow> Some (in_dueDate i)
                 | None \<Rightarrow> None))"

record arrears_report =
  ar_overdueCount :: nat
  ar_arrearsAmountNgn :: rat
  ar_oldestOverdueDate :: "time option"
  ar_arrearsDays :: int

definition computeArrears :: "time \<Rightarrow> installment list \<Rightarrow> arrears_report" where
  "computeArrears nw insts =
     (let overdue = filter (\<lambda>i. in_isPastDue i \<and> in_remaining i > 0) insts;
          oldest = (case overdue of [] \<Rightarrow> None | i # _ \<Rightarrow> Some (in_dueDate i))
      in \<lparr> ar_overdueCount = length overdue,
           ar_arrearsAmountNgn = foldl (\<lambda>sum i. round_kobo (sum + in_remaining i)) 0 overdue,
           ar_oldestOverdueDate = oldest,
           ar_arrearsDays = (case oldest of None \<Rightarrow> 0 | Some d \<Rightarrow> (nw - d) div 86400000) \<rparr>)"

subsection \<open>The loops\<close>

text \<open>Instalments as the engine keeps them: two decimals, split exactly.\<close>

definition inst_ok :: "installment \<Rightarrow> bool" where
  "inst_ok i \<longleftrightarrow> kobo (in_scheduled i) \<and> kobo (in_paid i) \<and> 0 \<le> in_paid i \<and> 0 \<le> in_remaining i
     \<and> in_scheduled i = in_paid i + in_remaining i"

lemma inst_ok_remaining: "inst_ok i \<Longrightarrow> kobo (in_remaining i)"
proof -
  assume i: "inst_ok i"
  then have "in_remaining i = in_scheduled i - in_paid i" by (simp add: inst_ok_def)
  with i show ?thesis by (simp add: inst_ok_def kobo_diff)
qed

lemma credit_of_bounds:
  assumes "kobo w" and "0 < w" and "0 < in_remaining i"
  shows "kobo (credit_of w i)" "0 \<le> credit_of w i" "credit_of w i \<le> w"
  using assms by (auto simp: credit_of_def intro: round_kobo_nonneg round_kobo_le)

lemma credit_of_exact:
  "kobo w \<Longrightarrow> inst_ok i \<Longrightarrow> credit_of w i = min w (in_remaining i)"
  by (simp add: credit_of_def round_kobo_id kobo_min inst_ok_remaining)

lemma credit_installment_ok:
  assumes "inst_ok i" and "kobo c" and "0 \<le> c" and "c \<le> in_remaining i"
  shows "credit_installment c i = i\<lparr>in_paid := in_paid i + c, in_remaining := in_remaining i - c\<rparr>"
    and "inst_ok (credit_installment c i)"
proof -
  have "round_kobo (in_paid i + c) = in_paid i + c"
    using assms by (simp add: inst_ok_def round_kobo_id kobo_add)
  moreover have "max (in_scheduled i - (in_paid i + c)) 0 = in_remaining i - c"
    using assms by (simp add: inst_ok_def)
  moreover have "kobo (in_remaining i - c)" using assms by (simp add: inst_ok_remaining kobo_diff)
  ultimately show eq: "credit_installment c i = i\<lparr>in_paid := in_paid i + c, in_remaining := in_remaining i - c\<rparr>"
    by (simp add: credit_installment_def Let_def round_kobo_id)
  show "inst_ok (credit_installment c i)"
    unfolding eq using assms by (auto simp: inst_ok_def kobo_add)
qed

text \<open>Whatever the instalments are, a loop only moves cash from the wallet to its total.\<close>

lemma credit_loop_conserves:
  assumes "credit_loop once P w a is = (is', w', a', cs)" and "kobo w" and "kobo a" and "0 \<le> w"
  shows "w' + a' = w + a" "kobo w'" "kobo a'" "0 \<le> w'" "w' \<le> w" "(\<Sum>c\<leftarrow>cs. snd c) = a' - a"
    "map in_number is' = map in_number is" "\<forall>c \<in> set cs. 0 \<le> snd c"
    "map in_scheduled is' = map in_scheduled is" "map in_isPastDue is' = map in_isPastDue is"
proof -
  have "w' + a' = w + a \<and> kobo w' \<and> kobo a' \<and> 0 \<le> w' \<and> w' \<le> w \<and> (\<Sum>c\<leftarrow>cs. snd c) = a' - a
    \<and> map in_number is' = map in_number is \<and> (\<forall>c \<in> set cs. 0 \<le> snd c)
    \<and> map in_scheduled is' = map in_scheduled is \<and> map in_isPastDue is' = map in_isPastDue is"
    using assms
  proof (induction "is" arbitrary: w a is' cs)
    case Nil
    then show ?case by auto
  next
    case (Cons i "is")
    let ?c = "credit_of w i"
    consider "w \<le> 0" | "0 < w" "\<not> P i \<or> in_remaining i \<le> 0" | "0 < w" "P i" "0 < in_remaining i"
      by linarith
    then show ?case
    proof cases
      case 1
      with Cons.prems show ?thesis by auto
    next
      case 2
      obtain is1 w1 a1 cs1 where l: "credit_loop once P w a is = (is1, w1, a1, cs1)"
        by (cases "credit_loop once P w a is")
      with 2 Cons.prems(1) have "is' = i # is1" "w' = w1" "a' = a1" "cs = cs1" by auto
      with l Cons.IH [of w a is1 cs1] Cons.prems show ?thesis by auto
    next
      case 3
      note c = credit_of_bounds [OF Cons.prems(2) 3(1) 3(3)]
      have k: "kobo (w - ?c)" "kobo (a + ?c)" "round_kobo (w - ?c) = w - ?c" "round_kobo (a + ?c) = a + ?c"
        using Cons.prems c by (auto intro: kobo_diff kobo_add round_kobo_id)
      show ?thesis
      proof (cases once)
        case True
        with 3 Cons.prems k c show ?thesis by (auto simp: Let_def credit_installment_def)
      next
        case False
        obtain is1 w1 a1 cs1 where l: "credit_loop once P (w - ?c) (a + ?c) is = (is1, w1, a1, cs1)"
          by (cases "credit_loop once P (w - ?c) (a + ?c) is")
        with 3 False Cons.prems(1) k
        have "is' = credit_installment ?c i # is1" "w' = w1" "a' = a1" "cs = (in_number i, ?c) # cs1"
          by (auto simp: Let_def)
        with l Cons.IH [of "w - ?c" "a + ?c" is1 cs1] k c
        show ?thesis by (auto simp: credit_installment_def Let_def)
      qed
    qed
  qed
  then show "w' + a' = w + a" "kobo w'" "kobo a'" "0 \<le> w'" "w' \<le> w" "(\<Sum>c\<leftarrow>cs. snd c) = a' - a"
    "map in_number is' = map in_number is" "\<forall>c \<in> set cs. 0 \<le> snd c"
    "map in_scheduled is' = map in_scheduled is" "map in_isPastDue is' = map in_isPastDue is"
    by blast+
qed

lemma credit_loop_acc:
  "fst (credit_loop once P w a is) = fst (credit_loop once P w b is)
   \<and> fst (snd (credit_loop once P w a is)) = fst (snd (credit_loop once P w b is))"
proof (induction "is" arbitrary: w a b)
  case (Cons i "is")
  from Cons [of w a b] Cons [of "round_kobo (w - credit_of w i)" "round_kobo (a + credit_of w i)"
    "round_kobo (b + credit_of w i)"]
  show ?case by (auto simp: Let_def split: prod.splits)
qed simp

lemma credit_loop_no_cash: "w \<le> 0 \<Longrightarrow> credit_loop once P w a is = (is, w, a, [])"
  by (cases "is") auto

lemma credit_loop_append:
  "credit_loop False P w a (A @ B) =
     (case credit_loop False P w a A of (A', w1, a1, c1) \<Rightarrow>
        (case credit_loop False P w1 a1 B of (B', w2, a2, c2) \<Rightarrow> (A' @ B', w2, a2, c1 @ c2)))"
proof (induction A arbitrary: w a)
  case Nil
  then show ?case by (auto split: prod.splits)
next
  case (Cons i A)
  show ?case
    by (cases "w \<le> 0") (auto simp: Let_def Cons credit_loop_no_cash split: prod.splits)
qed

lemma credit_loop_skip_append:
  "\<forall>i \<in> set A. \<not> P i \<or> in_remaining i \<le> 0 \<Longrightarrow>
   credit_loop once P w a (A @ B) =
     (case credit_loop once P w a B of (B', w2, a2, c2) \<Rightarrow> (A @ B', w2, a2, c2))"
proof (induction A)
  case Nil
  then show ?case by (auto split: prod.splits)
next
  case (Cons i A)
  then show ?case
    by (cases "w \<le> 0") (auto simp: credit_loop_no_cash split: prod.splits)
qed

lemma credit_loop_cong:
  "\<forall>i \<in> set A. P i = Q i \<Longrightarrow> credit_loop once P w a A = credit_loop once Q w a A"
  by (induction A arbitrary: w a) (auto simp: Let_def split: prod.splits)

lemma credit_installment_flags [simp]:
  "in_isPastDue (credit_installment c i) = in_isPastDue i"
  "in_scheduled (credit_installment c i) = in_scheduled i"
  "in_number (credit_installment c i) = in_number i"
  "in_dueDate (credit_installment c i) = in_dueDate i"
  by (simp_all add: credit_installment_def Let_def)

text \<open>On well-formed instalments a loop keeps them so, and stops only without cash or without need.\<close>

lemma credit_loop_ok:
  assumes "credit_loop once P w a is = (is', w', a', cs)" and "kobo w" and "kobo a" and "0 \<le> w"
    and "\<forall>i \<in> set is. inst_ok i" and P: "\<And>i c. P (credit_installment c i) = P i"
  shows "(\<forall>i \<in> set is'. inst_ok i)
    \<and> (\<Sum>i\<leftarrow>is'. in_paid i) = (\<Sum>i\<leftarrow>is. in_paid i) + (a' - a)
    \<and> (\<not> once \<longrightarrow> w' = 0 \<or> (\<forall>i \<in> set is'. P i \<longrightarrow> in_remaining i = 0))"
  using assms(1-5)
proof (induction "is" arbitrary: w a is' cs)
  case Nil
  then show ?case by auto
next
  case (Cons i "is")
  let ?c = "credit_of w i"
  consider "w = 0" | "0 < w" "\<not> P i \<or> in_remaining i \<le> 0" | "0 < w" "P i" "0 < in_remaining i"
    using Cons.prems(4) by linarith
  then show ?case
  proof cases
    case 1
    with Cons.prems show ?thesis by auto
  next
    case 2
    obtain is1 w1 a1 cs1 where l: "credit_loop once P w a is = (is1, w1, a1, cs1)"
      by (cases "credit_loop once P w a is")
    with 2 Cons.prems(1) have e: "is' = i # is1" "w' = w1" "a' = a1" by auto
    have "in_remaining i = 0" if "P i" using that 2 Cons.prems(5) by (auto simp: inst_ok_def)
    with e l Cons.IH [of w a is1 cs1] Cons.prems show ?thesis by auto
  next
    case 3
    have i: "inst_ok i" using Cons.prems(5) by simp
    note c = credit_of_bounds [OF Cons.prems(2) 3(1) 3(3)]
    have c': "?c = min w (in_remaining i)" by (rule credit_of_exact [OF Cons.prems(2) i])
    have ci: "credit_installment ?c i = i\<lparr>in_paid := in_paid i + ?c, in_remaining := in_remaining i - ?c\<rparr>"
      "inst_ok (credit_installment ?c i)"
      by (rule credit_installment_ok [OF i c(1) c(2)], simp add: c')+
    have k: "kobo (w - ?c)" "kobo (a + ?c)" "round_kobo (w - ?c) = w - ?c" "round_kobo (a + ?c) = a + ?c"
      using Cons.prems c by (auto intro: kobo_diff kobo_add round_kobo_id)
    show ?thesis
    proof (cases once)
      case True
      with 3 Cons.prems k c ci show ?thesis by (auto simp: Let_def)
    next
      case False
      obtain is1 w1 a1 cs1 where l: "credit_loop once P (w - ?c) (a + ?c) is = (is1, w1, a1, cs1)"
        by (cases "credit_loop once P (w - ?c) (a + ?c) is")
      with 3 False Cons.prems(1) k
      have e: "is' = credit_installment ?c i # is1" "w' = w1" "a' = a1"
        by (auto simp: Let_def)
      have IH: "(\<forall>i \<in> set is1. inst_ok i)
          \<and> (\<Sum>i\<leftarrow>is1. in_paid i) = (\<Sum>i\<leftarrow>is. in_paid i) + (a1 - (a + ?c))
          \<and> (\<not> once \<longrightarrow> w' = 0 \<or> (\<forall>i \<in> set is1. P i \<longrightarrow> in_remaining i = 0))"
        using Cons.IH [of "w - ?c" "a + ?c" is1 cs1] l k c Cons.prems(5) e by simp
      have "w' = 0" if "in_remaining i - ?c \<noteq> 0"
      proof -
        have "w - ?c = 0" using that c' by (auto simp: min_def split: if_splits)
        then show ?thesis using l e by (simp add: credit_loop_no_cash)
      qed
      with IH e ci P show ?thesis by auto
    qed
  qed
qed

text \<open>Step 2 followed by step 4 fills what a plain sequential fill would.\<close>

lemma once_then_fill:
  assumes "credit_loop True P w a B = (B2, w2, a2, cs)" and "kobo w" and "0 \<le> w"
    and "\<forall>i \<in> set B. inst_ok i \<and> P i"
  shows "fst (credit_loop False (\<lambda>_. True) w2 b B2) = fst (credit_loop False (\<lambda>_. True) w b B)"
  using assms
proof (induction B arbitrary: B2 cs)
  case Nil
  then show ?case by simp
next
  case (Cons i B)
  let ?c = "credit_of w i"
  consider "w = 0" | "0 < w" "in_remaining i \<le> 0" | "0 < w" "0 < in_remaining i"
    using Cons.prems(3) by linarith
  then show ?case
  proof cases
    case 1
    with Cons.prems show ?thesis by (auto simp: credit_loop_no_cash)
  next
    case 2
    obtain B1 w1 a1 cs1 where l: "credit_loop True P w a B = (B1, w1, a1, cs1)"
      by (cases "credit_loop True P w a B")
    with 2 Cons.prems have e: "B2 = i # B1" "w2 = w1" by auto
    have "fst (credit_loop False (\<lambda>_. True) w2 b B1) = fst (credit_loop False (\<lambda>_. True) w b B)"
      using Cons.IH [of B1 cs1] Cons.prems l e 2 by auto
    with e 2 show ?thesis
      by (cases "w2 \<le> 0") (auto simp: credit_loop_no_cash split: prod.splits)
  next
    case 3
    have i: "inst_ok i" using Cons.prems(4) by simp
    note c = credit_of_bounds [OF Cons.prems(2) 3]
    have c': "?c = min w (in_remaining i)" by (rule credit_of_exact [OF Cons.prems(2) i])
    have ci: "in_remaining (credit_installment ?c i) = in_remaining i - ?c"
      using credit_installment_ok(1) [OF i c(1) c(2)] c' by simp
    have k: "round_kobo (w - ?c) = w - ?c"
      using Cons.prems c by (auto intro: kobo_diff round_kobo_id)
    have e: "B2 = credit_installment ?c i # B" "w2 = w - ?c"
      using 3 Cons.prems(1,4) k by (auto simp: Let_def)
    show ?thesis
    proof (cases "w2 \<le> 0")
      case True
      with e 3 k show ?thesis by (simp add: Let_def credit_loop_no_cash)
    next
      case False
      then have "in_remaining i - ?c = 0" using e c' by (auto simp: min_def split: if_splits)
      with False e 3 k ci show ?thesis
        using credit_loop_acc [of False "\<lambda>_. True" w2 b B "round_kobo (b + ?c)"]
        by (auto simp: Let_def split: prod.splits)
    qed
  qed
qed

subsection \<open>Instalments of a contract\<close>

lemma installment_row_exact:
  assumes "kobo s" and "kobo p" and "0 \<le> s" and "0 \<le> p"
  shows "installment_row nw m due s p =
     \<lparr> in_number = m, in_dueDate = due, in_scheduled = s, in_paid = min s p,
       in_remaining = s - min s p, in_isPastDue = (due < nw) \<rparr>"
    and "inst_ok (installment_row nw m due s p)"
proof -
  have "round_kobo (min s p) = min s p" and "kobo (min s p)"
    using assms by (auto intro: round_kobo_id kobo_min)
  moreover have "max (s - min s p) 0 = s - min s p" by simp
  moreover have "kobo (s - min s p)" using assms by (auto intro: kobo_diff kobo_min)
  ultimately show e: "installment_row nw m due s p =
     \<lparr> in_number = m, in_dueDate = due, in_scheduled = s, in_paid = min s p,
       in_remaining = s - min s p, in_isPastDue = (due < nw) \<rparr>"
    by (simp add: installment_row_def Let_def round_kobo_id)
  show "inst_ok (installment_row nw m due s p)"
    unfolding e inst_ok_def using assms by (auto intro: kobo_min)
qed

lemma scheduled_amount_kobo:
  "kobo weekly \<Longrightarrow> 0 \<le> weekly \<Longrightarrow> kobo (scheduled_amount weekly payable index l)
     \<and> 0 \<le> scheduled_amount weekly payable index l"
  by (simp add: scheduled_amount_def round_kobo_nonneg)

lemma installment_loop_Suc:
  assumes "kobo weekly" and "0 \<le> weekly" and "kobo p" and "0 \<le> p"
    and s: "s = scheduled_amount weekly payable index (k = 0)"
  shows "installment_loop start nw weekly payable index (Suc k) p =
    installment_row nw (index + 1) (start + int ((index + 1) * 7) * day_ms) s p
      # installment_loop start nw weekly payable (index + 1) k (max (p - s) 0)"
proof -
  have k: "kobo s" "0 \<le> s" using scheduled_amount_kobo [OF assms(1,2)] s by auto
  have "in_paid (installment_row nw m due s p) = min s p" for m due
    by (simp add: installment_row_exact(1) [OF k(1) assms(3) k(2) assms(4)])
  moreover have "max (p - min s p) 0 = max (p - s) 0" by auto
  moreover have "kobo (max (p - s) 0)" using assms(3) k by (auto intro: kobo_max kobo_diff)
  ultimately show ?thesis by (simp add: Let_def s [symmetric] round_kobo_id)
qed

lemma installment_loop_ok:
  assumes "kobo weekly" and "0 \<le> weekly" and "kobo p" and "0 \<le> p"
  shows "\<forall>i \<in> set (installment_loop start nw weekly payable index k p). inst_ok i"
  using assms(3,4)
proof (induction k arbitrary: index p)
  case 0
  then show ?case by simp
next
  case (Suc k)
  let ?s = "scheduled_amount weekly payable index (k = 0)"
  have s: "kobo ?s" "0 \<le> ?s" using scheduled_amount_kobo [OF assms(1,2)] by auto
  have "kobo (max (p - ?s) 0)" using Suc.prems s by (auto intro: kobo_max kobo_diff)
  with Suc.IH [of "max (p - ?s) 0" "index + 1"]
    installment_row_exact(2) [OF s(1) Suc.prems(1) s(2) Suc.prems(2)]
  show ?case by (simp add: installment_loop_Suc [OF assms(1,2) Suc.prems refl] del: installment_loop.simps)
qed

text \<open>Filling the instalments with more money is deriving them from a larger payment.\<close>

lemma installment_loop_fill:
  assumes "kobo weekly" and "0 \<le> weekly" and "kobo p" and "0 \<le> p" and "kobo w" and "0 \<le> w"
  shows "fst (credit_loop False (\<lambda>_. True) w a (installment_loop start nw weekly payable index k p))
     = installment_loop start nw weekly payable index k (p + w)"
  using assms(3-6)
proof (induction k arbitrary: index p w a)
  case 0
  then show ?case by simp
next
  case (Suc k)
  let ?s = "scheduled_amount weekly payable index (k = 0)"
  let ?due = "start + int ((index + 1) * 7) * day_ms"
  let ?rest = "\<lambda>q. installment_loop start nw weekly payable (index + 1) k q"
  have s: "kobo ?s" "0 \<le> ?s" using scheduled_amount_kobo [OF assms(1,2)] by auto
  have pw: "kobo (p + w)" "0 \<le> p + w" using Suc.prems by (auto intro: kobo_add)
  note row = installment_row_exact(1) [OF s(1) _ s(2), of _ nw "index + 1" ?due]
  note unfold1 = installment_loop_Suc [OF assms(1,2) Suc.prems(1,2) refl, of start nw payable index k]
  note unfold2 = installment_loop_Suc [OF assms(1,2) pw refl, of start nw payable index k]
  let ?i = "installment_row nw (index + 1) ?due ?s p"
  consider "w = 0" | "0 < w" "?s \<le> p" | "0 < w" "p < ?s" using Suc.prems(4) by linarith
  then show ?case
  proof cases
    case 1
    then show ?thesis by (simp add: credit_loop_no_cash)
  next
    case 2
    have r0: "in_remaining ?i = 0" using 2 row Suc.prems by simp
    have k: "kobo (max (p - ?s) 0)" using Suc.prems s by (auto intro: kobo_max kobo_diff)
    have IH: "fst (credit_loop False (\<lambda>_. True) w a (?rest (max (p - ?s) 0))) = ?rest (max (p - ?s) 0 + w)"
      by (rule Suc.IH) (use k Suc.prems in auto)
    have "max (p - ?s) 0 + w = max (p + w - ?s) 0" using 2 by auto
    moreover have "installment_row nw (index + 1) ?due ?s (p + w) = ?i"
      using 2 row Suc.prems pw by simp
    ultimately show ?thesis
      unfolding unfold1 unfold2 using IH r0 2
      by (auto simp: diff_add_eq split: prod.splits)
  next
    case 3
    have rem: "in_remaining ?i = ?s - p" "in_paid ?i = p" using 3 row Suc.prems by simp_all
    have ok: "inst_ok ?i" by (rule installment_row_exact(2) [OF s(1) Suc.prems(1) s(2) Suc.prems(2)])
    let ?c = "min w (?s - p)"
    have c: "credit_of w ?i = ?c" using credit_of_exact [OF Suc.prems(3) ok] rem by simp
    have kc: "kobo ?c" using Suc.prems s by (auto intro: kobo_min kobo_diff)
    have ci: "credit_installment ?c ?i = ?i\<lparr>in_paid := p + ?c, in_remaining := ?s - p - ?c\<rparr>"
      using credit_installment_ok(1) [OF ok kc] 3 Suc.prems rem by simp
    have same: "credit_installment ?c ?i = installment_row nw (index + 1) ?due ?s (p + w)"
      unfolding ci using row [OF Suc.prems(1,2)] row [OF pw] 3 by (auto simp: min_def)
    have kw: "kobo (w - ?c)" "0 \<le> w - ?c" "round_kobo (w - ?c) = w - ?c"
      using Suc.prems kc by (auto intro: kobo_diff round_kobo_id)
    have z: "max (p - ?s) 0 = 0" "max (p + w - ?s) 0 = w - ?c" using 3 by (auto simp: min_def max_def)
    have IH: "fst (credit_loop False (\<lambda>_. True) (w - ?c) b (?rest 0)) = ?rest (w - ?c)" for b
      using Suc.IH [of 0 "w - ?c" b "index + 1"] kw by simp
    have "0 < in_remaining ?i" using rem 3 by simp
    then have "fst (credit_loop False (\<lambda>_. True) w a (?i # ?rest 0))
        = credit_installment ?c ?i # fst (credit_loop False (\<lambda>_. True) (w - ?c) (round_kobo (a + ?c)) (?rest 0))"
      using 3 c kw(3) by (auto simp: Let_def split: prod.splits)
    then show ?thesis unfolding unfold1 unfold2 z same IH by simp
  qed
qed

lemma installment_loop_sums:
  assumes "kobo weekly" and "0 \<le> weekly" and "kobo p" and "0 \<le> p" and "kobo payable"
  shows "(\<Sum>i\<leftarrow>installment_loop start nw weekly payable index (Suc k) p. in_scheduled i)
      = weekly * of_nat k + max (payable - weekly * of_nat (index + k)) 0"
    and "(\<Sum>i\<leftarrow>installment_loop start nw weekly payable index (Suc k) p. in_paid i)
      = min p (weekly * of_nat k + max (payable - weekly * of_nat (index + k)) 0)"
proof -
  have kl: "kobo (max (payable - weekly * of_nat j) 0)" for j
    using assms by (intro kobo_max kobo_diff kobo_mult_nat) auto
  have goal: "(\<Sum>i\<leftarrow>installment_loop start nw weekly payable index (Suc k) p. in_scheduled i)
      = weekly * of_nat k + max (payable - weekly * of_nat (index + k)) 0
    \<and> (\<Sum>i\<leftarrow>installment_loop start nw weekly payable index (Suc k) p. in_paid i)
      = min p (weekly * of_nat k + max (payable - weekly * of_nat (index + k)) 0)"
    using assms(3,4)
  proof (induction k arbitrary: index p)
    case 0
    have s: "scheduled_amount weekly payable index True = max (payable - weekly * of_nat index) 0"
      using kl by (simp add: scheduled_amount_def round_kobo_id)
    have s0: "0 \<le> max (payable - weekly * of_nat index) 0" by simp
    show ?case
      using installment_loop_Suc [OF assms(1,2) 0 refl, of start nw payable index 0]
        installment_row_exact(1) [OF kl 0(1) s0 0(2)] s
      by (simp del: installment_loop.simps add: installment_loop.simps(1) min.commute)
  next
    case (Suc k)
    have s: "scheduled_amount weekly payable index (Suc k = 0) = weekly"
      by (simp add: scheduled_amount_def)
    have k: "kobo (max (p - weekly) 0)" using Suc.prems assms by (auto intro: kobo_max kobo_diff)
    have row: "in_paid (installment_row nw m due weekly p) = min weekly p"
      "in_scheduled (installment_row nw m due weekly p) = weekly" for m due
      using installment_row_exact(1) [OF assms(1) Suc.prems(1) assms(2) Suc.prems(2)] by simp_all
    have tot: "0 \<le> weekly * of_nat k + max (payable - weekly * of_nat (index + 1 + k)) 0"
      using assms(2) by simp
    have unf: "installment_loop start nw weekly payable index (Suc (Suc k)) p =
        installment_row nw (index + 1) (start + int ((index + 1) * 7) * day_ms) weekly p
        # installment_loop start nw weekly payable (index + 1) (Suc k) (max (p - weekly) 0)"
      using installment_loop_Suc [OF assms(1,2) Suc.prems refl, of start nw payable index "Suc k"] s by simp
    have IH: "(\<Sum>i\<leftarrow>installment_loop start nw weekly payable (index + 1) (Suc k) (max (p - weekly) 0). in_scheduled i)
        = weekly * of_nat k + max (payable - weekly * of_nat (index + 1 + k)) 0"
      "(\<Sum>i\<leftarrow>installment_loop start nw weekly payable (index + 1) (Suc k) (max (p - weekly) 0). in_paid i)
        = min (max (p - weekly) 0) (weekly * of_nat k + max (payable - weekly * of_nat (index + 1 + k)) 0)"
      using Suc.IH [of "max (p - weekly) 0" "index + 1"] k by auto
    have split: "min weekly p + min (max (p - weekly) 0) x = min p (weekly + x)" if "0 \<le> x" for x
      using that assms(2) Suc.prems by (auto simp: min_def max_def)
    have e: "weekly * of_nat (Suc k) = weekly + weekly * of_nat k" "index + Suc k = index + 1 + k"
      by (simp_all add: algebra_simps)
    show ?case
      unfolding unf e list.map sum_list.Cons IH row split [OF tot] by (simp add: add.assoc)
  qed
  then show "(\<Sum>i\<leftarrow>installment_loop start nw weekly payable index (Suc k) p. in_scheduled i)
      = weekly * of_nat k + max (payable - weekly * of_nat (index + k)) 0"
    and "(\<Sum>i\<leftarrow>installment_loop start nw weekly payable index (Suc k) p. in_paid i)
      = min p (weekly * of_nat k + max (payable - weekly * of_nat (index + k)) 0)"
    by blast+
qed

text \<open>The past-due instalments come first.\<close>

lemma installment_loop_not_due:
  "start + int ((index + 1) * 7) * day_ms \<ge> nw \<Longrightarrow>
     \<forall>i \<in> set (installment_loop start nw weekly payable index k p). \<not> in_isPastDue i"
proof (induction k arbitrary: index p)
  case 0
  then show ?case by simp
next
  case (Suc k)
  have "start + int ((index + 1 + 1) * 7) * day_ms \<ge> nw"
    using Suc.prems by (simp add: day_ms_def)
  from Suc.IH [OF this] Suc.prems show ?case
    by (auto simp: Let_def installment_row_def)
qed

lemma installment_loop_split:
  "\<exists>A B. installment_loop start nw weekly payable index k p = A @ B
     \<and> (\<forall>i \<in> set A. in_isPastDue i) \<and> (\<forall>i \<in> set B. \<not> in_isPastDue i)"
proof (induction k arbitrary: index p)
  case 0
  then show ?case by simp
next
  case (Suc k)
  show ?case
  proof (cases "start + int ((index + 1) * 7) * day_ms < nw")
    case False
    then show ?thesis
      using installment_loop_not_due [of nw start index weekly payable "Suc k" p]
      by (intro exI [of _ "[]"] exI) auto
  next
    case True
    let ?r = "installment_row nw (index + 1) (start + int ((index + 1) * 7) * day_ms)
                (scheduled_amount weekly payable index (k = 0)) p"
    from Suc.IH [of "index + 1" "round_kobo (max (p - in_paid ?r) 0)"] obtain A B where
      "installment_loop start nw weekly payable (index + 1) k (round_kobo (max (p - in_paid ?r) 0)) = A @ B"
      "\<forall>i \<in> set A. in_isPastDue i" "\<forall>i \<in> set B. \<not> in_isPastDue i"
      by blast
    moreover have "in_isPastDue ?r" using True by (simp add: installment_row_def Let_def)
    ultimately show ?thesis
      by (intro exI [of _ "?r # A"] exI [of _ B]) (simp add: Let_def)
  qed
qed

end
