(* ===== verification/Allocation_Theorems.thy ===== *)
theory Allocation_Theorems
  imports Allocation_Engine
begin

text \<open>
  Properties of the allocation engine: nothing leaks, the documented order is kept, the
  updated instalments are the ones the next call derives from the new total, and the
  read-side schedule agrees with the engine's instalments.
\<close>

subsection \<open>The stages of an allocation\<close>

text \<open>The four stages with their intermediate wallets, for the proofs.\<close>

lemma allocatePayment_stages:
  assumes "w0 = min (clamp_js (round_kobo_js (a_amount inp))) (clamp_js (round_kobo_js (a_remainingBalance inp)))"
    and "f = clamp_js (round_kobo_js (a_approvedFees inp))"
  obtains i1 w1 x1 c1 i2 w2 x2 c2 x3 w3 i4 w4 x4 c4 where
    "credit_loop False in_isPastDue w0 0 (a_schedule inp) = (i1, w1, x1, c1)"
    "credit_loop True (\<lambda>i. \<not> in_isPastDue i) w1 0 i1 = (i2, w2, x2, c2)"
    "x3 = (if w2 > 0 \<and> f > 0 then round_kobo (min w2 f) else 0)"
    "w3 = (if w2 > 0 \<and> f > 0 then round_kobo (w2 - x3) else w2)"
    "credit_loop False (\<lambda>_. True) w3 0 i2 = (i4, w4, x4, c4)"
    "allocatePayment inp = \<lparr> r_accepted = w0,
       r_excess = round_kobo (clamp_js (round_kobo_js (a_amount inp)) - w0),
       r_breakdown = \<lparr> b_arrears = x1, b_current = x2, b_fees = x3, b_principal = x4,
         b_excess = (if w4 > 0 then round_kobo (round_kobo (clamp_js (round_kobo_js (a_amount inp)) - w0) + w4)
                     else round_kobo (clamp_js (round_kobo_js (a_amount inp)) - w0)),
         b_credits = c1 @ c2 @ c4 \<rparr>, r_installments = i4 \<rparr>"
proof -
  obtain i1 w1 x1 c1 where 1: "credit_loop False in_isPastDue w0 0 (a_schedule inp) = (i1, w1, x1, c1)"
    by (cases "credit_loop False in_isPastDue w0 0 (a_schedule inp)")
  obtain i2 w2 x2 c2 where 2: "credit_loop True (\<lambda>i. \<not> in_isPastDue i) w1 0 i1 = (i2, w2, x2, c2)"
    by (cases "credit_loop True (\<lambda>i. \<not> in_isPastDue i) w1 0 i1")
  define x3 where "x3 = (if w2 > 0 \<and> f > 0 then round_kobo (min w2 f) else 0)"
  define w3 where "w3 = (if w2 > 0 \<and> f > 0 then round_kobo (w2 - x3) else w2)"
  obtain i4 w4 x4 c4 where 4: "credit_loop False (\<lambda>_. True) w3 0 i2 = (i4, w4, x4, c4)"
    by (cases "credit_loop False (\<lambda>_. True) w3 0 i2")
  show thesis
    by (rule that [OF 1 2 x3_def w3_def 4])
       (unfold allocatePayment_def Let_def assms(1) [symmetric] assms(2) [symmetric] 1 prod.case 2
          x3_def [symmetric] w3_def [symmetric] 4, rule refl)
qed

lemma allocatePayment_accepted:
  "r_accepted (allocatePayment inp)
     = min (clamp_js (round_kobo_js (a_amount inp))) (clamp_js (round_kobo_js (a_remainingBalance inp)))"
  by (rule allocatePayment_stages [OF refl refl, of inp]) simp

lemma fee_stage:
  assumes "kobo w" and "0 \<le> w" and "kobo f" and "0 \<le> f"
    and x: "x = (if w > 0 \<and> f > 0 then round_kobo (min w f) else 0)"
    and w': "w' = (if w > 0 \<and> f > 0 then round_kobo (w - x) else w)"
  shows "w' + x = w" "kobo w'" "kobo x" "0 \<le> w'" "0 \<le> x" "x \<le> f" "0 < w' \<Longrightarrow> x = f" "0 < w' \<Longrightarrow> 0 < w"
proof -
  have "x = min w f" using assms by (auto simp: round_kobo_id kobo_min)
  moreover from this have "w' = w - x" using assms by (auto simp: round_kobo_id kobo_diff kobo_min)
  moreover note assms(1-4)
  ultimately show "w' + x = w" "kobo w'" "kobo x" "0 \<le> w'" "0 \<le> x" "x \<le> f" "0 < w' \<Longrightarrow> x = f" "0 < w' \<Longrightarrow> 0 < w"
    by (auto intro: kobo_min kobo_diff simp: min_def split: if_splits)
qed

definition demo_inst :: "nat \<Rightarrow> bool \<Rightarrow> rat \<Rightarrow> rat \<Rightarrow> installment" where
  "demo_inst m due s p = \<lparr> in_number = m, in_dueDate = int m, in_scheduled = s, in_paid = p,
     in_remaining = s - p, in_isPastDue = due \<rparr>"

lemma allocation_conserves:
  shows "let r = allocatePayment inp; b = r_breakdown r; tendered = clamp_js (round_kobo_js (a_amount inp))
    in r_accepted r + r_excess r = tendered
     \<and> r_accepted r \<le> clamp_js (round_kobo_js (a_remainingBalance inp))
     \<and> b_arrears b + b_current b + b_fees b + b_principal b + (b_excess b - r_excess r) = r_accepted r
     \<and> 0 \<le> r_accepted r \<and> 0 \<le> r_excess r \<and> 0 \<le> b_arrears b \<and> 0 \<le> b_current b \<and> 0 \<le> b_fees b
     \<and> 0 \<le> b_principal b \<and> r_excess r \<le> b_excess b
     \<and> b_fees b \<le> clamp_js (round_kobo_js (a_approvedFees inp))
     \<and> (\<Sum>c\<leftarrow>b_credits b. snd c) = b_arrears b + b_current b + b_principal b
     \<and> (\<forall>x \<in> {r_accepted r, r_excess r, b_arrears b, b_current b, b_fees b, b_principal b, b_excess b}. kobo x)
     \<and> map in_number (r_installments r) = map in_number (a_schedule inp)
     \<and> map in_scheduled (r_installments r) = map in_scheduled (a_schedule inp)"
proof -
  let ?t = "clamp_js (round_kobo_js (a_amount inp))"
  let ?f = "clamp_js (round_kobo_js (a_approvedFees inp))"
  define w0 where "w0 = min ?t (clamp_js (round_kobo_js (a_remainingBalance inp)))"
  obtain i1 w1 x1 c1 i2 w2 x2 c2 x3 w3 i4 w4 x4 c4 where
    s1: "credit_loop False in_isPastDue w0 0 (a_schedule inp) = (i1, w1, x1, c1)"
    and s2: "credit_loop True (\<lambda>i. \<not> in_isPastDue i) w1 0 i1 = (i2, w2, x2, c2)"
    and s3: "x3 = (if w2 > 0 \<and> ?f > 0 then round_kobo (min w2 ?f) else 0)"
      "w3 = (if w2 > 0 \<and> ?f > 0 then round_kobo (w2 - x3) else w2)"
    and s4: "credit_loop False (\<lambda>_. True) w3 0 i2 = (i4, w4, x4, c4)"
    and r: "allocatePayment inp = \<lparr> r_accepted = w0, r_excess = round_kobo (?t - w0),
       r_breakdown = \<lparr> b_arrears = x1, b_current = x2, b_fees = x3, b_principal = x4,
         b_excess = (if w4 > 0 then round_kobo (round_kobo (?t - w0) + w4) else round_kobo (?t - w0)),
         b_credits = c1 @ c2 @ c4 \<rparr>, r_installments = i4 \<rparr>"
    by (rule allocatePayment_stages [OF w0_def refl])
  have w0: "kobo w0" "0 \<le> w0" "w0 \<le> ?t" "w0 \<le> clamp_js (round_kobo_js (a_remainingBalance inp))"
    by (auto simp: w0_def intro: kobo_min)
  note l1 = credit_loop_conserves [OF s1 w0(1) kobo_0 w0(2)]
  note l2 = credit_loop_conserves [OF s2 l1(2) kobo_0 l1(4)]
  note l3 = fee_stage [OF l2(2) l2(4) _ _ s3, OF kobo_clamp_round clamp_js_nonneg]
  note l4 = credit_loop_conserves [OF s4 l3(2) kobo_0 l3(4)]
  have "kobo (?t - w0)" by (intro kobo_diff w0 kobo_clamp_round)
  then have e: "round_kobo (?t - w0) = ?t - w0" "kobo (?t - w0)"
    by (simp_all add: round_kobo_id)
  have e4: "round_kobo (?t - w0 + w4) = ?t - w0 + w4" "kobo (?t - w0 + w4)"
    using e l4(2) by (auto intro: round_kobo_id kobo_add)
  have "b_excess (r_breakdown (allocatePayment inp)) = ?t - w0 + w4"
    using l4(4) by (simp add: r e e4)
  then show ?thesis
    using w0 l1 l2 l3 l4 e e4 by (simp add: r Let_def)
qed

lemma allocation_ordered:
  assumes "\<forall>i \<in> set (a_schedule inp). inst_ok i"
  shows "let r = allocatePayment inp; b = r_breakdown r
    in (\<forall>i \<in> set (r_installments r). inst_ok i)
     \<and> (\<Sum>i\<leftarrow>r_installments r. in_paid i)
         = (\<Sum>i\<leftarrow>a_schedule inp. in_paid i) + b_arrears b + b_current b + b_principal b
     \<and> (0 < b_current b + b_fees b + b_principal b \<longrightarrow>
          (\<forall>i \<in> set (r_installments r). in_isPastDue i \<longrightarrow> in_remaining i = 0))
     \<and> (0 < b_principal b \<longrightarrow> b_fees b = clamp_js (round_kobo_js (a_approvedFees inp)))
     \<and> (r_excess r < b_excess b \<longrightarrow> (\<forall>i \<in> set (r_installments r). in_remaining i = 0))"
proof -
  let ?t = "clamp_js (round_kobo_js (a_amount inp))"
  let ?f = "clamp_js (round_kobo_js (a_approvedFees inp))"
  define w0 where "w0 = min ?t (clamp_js (round_kobo_js (a_remainingBalance inp)))"
  obtain i1 w1 x1 c1 i2 w2 x2 c2 x3 w3 i4 w4 x4 c4 where
    s1: "credit_loop False in_isPastDue w0 0 (a_schedule inp) = (i1, w1, x1, c1)"
    and s2: "credit_loop True (\<lambda>i. \<not> in_isPastDue i) w1 0 i1 = (i2, w2, x2, c2)"
    and s3: "x3 = (if w2 > 0 \<and> ?f > 0 then round_kobo (min w2 ?f) else 0)"
      "w3 = (if w2 > 0 \<and> ?f > 0 then round_kobo (w2 - x3) else w2)"
    and s4: "credit_loop False (\<lambda>_. True) w3 0 i2 = (i4, w4, x4, c4)"
    and r: "allocatePayment inp = \<lparr> r_accepted = w0, r_excess = round_kobo (?t - w0),
       r_breakdown = \<lparr> b_arrears = x1, b_current = x2, b_fees = x3, b_principal = x4,
         b_excess = (if w4 > 0 then round_kobo (round_kobo (?t - w0) + w4) else round_kobo (?t - w0)),
         b_credits = c1 @ c2 @ c4 \<rparr>, r_installments = i4 \<rparr>"
    by (rule allocatePayment_stages [OF w0_def refl])
  have w0: "kobo w0" "0 \<le> w0" by (auto simp: w0_def intro: kobo_min)
  note l1 = credit_loop_conserves [OF s1 w0(1) kobo_0 w0(2)]
  note l2 = credit_loop_conserves [OF s2 l1(2) kobo_0 l1(4)]
  note l3 = fee_stage [OF l2(2) l2(4) _ _ s3, OF kobo_clamp_round clamp_js_nonneg]
  note l4 = credit_loop_conserves [OF s4 l3(2) kobo_0 l3(4)]
  note o1 = credit_loop_ok [OF s1 w0(1) kobo_0 w0(2) assms credit_installment_flags(1)]
  have ok1: "\<forall>i \<in> set i1. inst_ok i" using o1 by blast
  note o2 = credit_loop_ok [OF s2 l1(2) kobo_0 l1(4) ok1, simplified]
  have ok2: "\<forall>i \<in> set i2. inst_ok i" using o2 by blast
  note o4 = credit_loop_ok [OF s4 l3(2) kobo_0 l3(4) ok2 refl]
  have sums: "(\<Sum>i\<leftarrow>i4. in_paid i) = (\<Sum>i\<leftarrow>a_schedule inp. in_paid i) + x1 + x2 + x4"
    using o1 o2 o4 by simp
  have arrears: "\<forall>i \<in> set i4. in_isPastDue i \<longrightarrow> in_remaining i = 0" if "0 < x2 + x3 + x4"
  proof -
    have "0 < w1" using that l1 l2 l3 l4 by linarith
    then have a1: "\<forall>i \<in> set i1. in_isPastDue i \<longrightarrow> in_remaining i = 0" using o1 by auto
    have keep: "\<forall>i \<in> set is'. in_isPastDue i \<longrightarrow> in_remaining i = 0"
      if "credit_loop once P w a is = (is', w', a', cs)" "\<forall>i \<in> set is. in_isPastDue i \<longrightarrow> in_remaining i = 0"
      for once P w a "is" is' w' a' cs
      using that
      by (induction "is" arbitrary: w a is' cs)
         (fastforce simp: Let_def split: if_splits prod.splits)+
    show ?thesis using keep [OF s4 keep [OF s2 a1]] .
  qed
  have fees: "x3 = ?f" if "0 < x4" using that l3 l4 by auto
  have left: "\<forall>i \<in> set i4. in_remaining i = 0" if "0 < w4" using that o4 by auto
  have "(r_excess (allocatePayment inp) < b_excess (r_breakdown (allocatePayment inp))) \<longrightarrow> 0 < w4"
    by (simp add: r)
  then show ?thesis
    using o4 sums arrears fees left by (simp add: r Let_def)
qed

subsection \<open>Allocation and derivation agree\<close>

definition terms_kobo :: "schedule_terms \<Rightarrow> rat \<Rightarrow> bool" where
  "terms_kobo c p \<longleftrightarrow> kobo (clampToNonNegative (num_or (st_weeklyPaymentNgn c) 0))
     \<and> kobo (clampToNonNegative (num_or (st_totalPayableNgn c) 0))
     \<and> st_totalPaidNgn c = Fin p \<and> kobo p \<and> 0 \<le> p"

lemma buildInstallmentStates_loop:
  assumes "terms_kobo c p"
  shows "\<exists>start weekly payable k. kobo weekly \<and> 0 \<le> weekly \<and> kobo payable \<and>
     (\<forall>q \<ge> 0. buildInstallmentStates (c\<lparr>st_totalPaidNgn := Fin q\<rparr>) nw
        = installment_loop start nw weekly payable 0 k q)"
proof -
  let ?w = "clamp_js (num_or (st_weeklyPaymentNgn c) 0)"
  let ?p = "clamp_js (num_or (st_totalPayableNgn c) 0)"
  let ?k = "if ?w \<le> 0 \<or> nat (max 0 \<lfloor>st_durationWeeks c\<rfloor>) \<le> 0 \<or> ?p \<le> 0 \<or> st_startDate c = None then 0
            else nat (max 0 \<lfloor>st_durationWeeks c\<rfloor>)"
  have q: "clamp_js (num_or (Fin q) 0) = q" if "0 \<le> q" for q using that by (simp add: num_or_def)
  have "\<forall>q \<ge> 0. buildInstallmentStates (c\<lparr>st_totalPaidNgn := Fin q\<rparr>) nw
        = installment_loop (case st_startDate c of None \<Rightarrow> 0 | Some d \<Rightarrow> d) nw ?w ?p 0 ?k q"
    by (auto simp: buildInstallmentStates_def Let_def q split: option.splits)
  moreover have "kobo ?w" "kobo ?p" using assms by (auto simp: terms_kobo_def clampToNonNegative_def)
  ultimately show ?thesis
    by (intro exI [of _ "case st_startDate c of None \<Rightarrow> 0 | Some d \<Rightarrow> d"] exI [of _ ?w]
        exI [of _ ?p] exI [of _ ?k]) auto
qed

text \<open>Without fees the three loops together are one sequential fill.\<close>

lemma allocation_is_fill:
  assumes "a_schedule inp = A @ B" and "\<forall>i \<in> set A. in_isPastDue i" and "\<forall>i \<in> set B. \<not> in_isPastDue i"
    and "\<forall>i \<in> set (A @ B). inst_ok i" and "a_approvedFees inp = Fin 0"
  shows "r_installments (allocatePayment inp)
     = fst (credit_loop False (\<lambda>_. True) (r_accepted (allocatePayment inp)) 0 (a_schedule inp))"
proof -
  let ?t = "clamp_js (round_kobo_js (a_amount inp))"
  let ?f = "clamp_js (round_kobo_js (a_approvedFees inp))"
  have f: "?f = 0" using assms(5) by simp
  define w0 where "w0 = min ?t (clamp_js (round_kobo_js (a_remainingBalance inp)))"
  obtain i1 w1 x1 c1 i2 w2 x2 c2 x3 w3 i4 w4 x4 c4 where
    s1: "credit_loop False in_isPastDue w0 0 (a_schedule inp) = (i1, w1, x1, c1)"
    and s2: "credit_loop True (\<lambda>i. \<not> in_isPastDue i) w1 0 i1 = (i2, w2, x2, c2)"
    and s3: "x3 = (if w2 > 0 \<and> ?f > 0 then round_kobo (min w2 ?f) else 0)"
      "w3 = (if w2 > 0 \<and> ?f > 0 then round_kobo (w2 - x3) else w2)"
    and s4: "credit_loop False (\<lambda>_. True) w3 0 i2 = (i4, w4, x4, c4)"
    and r: "allocatePayment inp = \<lparr> r_accepted = w0, r_excess = round_kobo (?t - w0),
       r_breakdown = \<lparr> b_arrears = x1, b_current = x2, b_fees = x3, b_principal = x4,
         b_excess = (if w4 > 0 then round_kobo (round_kobo (?t - w0) + w4) else round_kobo (?t - w0)),
         b_credits = c1 @ c2 @ c4 \<rparr>, r_installments = i4 \<rparr>"
    by (rule allocatePayment_stages [OF w0_def refl])
  have w3: "w3 = w2" using s3 f by simp
  have w0: "kobo w0" "0 \<le> w0" by (auto simp: w0_def intro: kobo_min)
  obtain A' wa xa ca where la: "credit_loop False in_isPastDue w0 0 A = (A', wa, xa, ca)"
    by (cases "credit_loop False in_isPastDue w0 0 A")
  have okA: "\<forall>i \<in> set A. inst_ok i" and okB: "\<forall>i \<in> set B. inst_ok i" using assms(4) by auto
  note ca = credit_loop_conserves [OF la w0(1) kobo_0 w0(2)]
  note oa = credit_loop_ok [OF la w0(1) kobo_0 w0(2) okA credit_installment_flags(1)]
  have "credit_loop False in_isPastDue wa xa B = (B, wa, xa, [])"
    using credit_loop_skip_append [of B in_isPastDue False wa xa "[]"] assms(3) by simp
  with s1 la have 1: "i1 = A' @ B" "w1 = wa" by (auto simp: assms(1) credit_loop_append)
  have pd: "\<forall>i \<in> set A'. in_isPastDue i"
    using ca(10) assms(2) by (metis in_set_conv_nth length_map nth_map nth_mem)
  obtain B2 wb xb cb where lb: "credit_loop True (\<lambda>i. \<not> in_isPastDue i) wa 0 B = (B2, wb, xb, cb)"
    by (cases "credit_loop True (\<lambda>i. \<not> in_isPastDue i) wa 0 B")
  have "credit_loop True (\<lambda>i. \<not> in_isPastDue i) wa 0 (A' @ B) = (A' @ B2, wb, xb, cb)"
    using credit_loop_skip_append [of A' "\<lambda>i. \<not> in_isPastDue i" True wa 0 B] pd lb by simp
  with s2 1 have 2: "i2 = A' @ B2" "w2 = wb" by auto
  have nd: "\<forall>i \<in> set B. inst_ok i \<and> \<not> in_isPastDue i" using okB assms(3) by blast
  note once = once_then_fill [OF lb ca(2) ca(4) nd, of 0]
  have 4: "i4 = A' @ fst (credit_loop False (\<lambda>_. True) wb 0 B2)"
  proof (cases "wb \<le> 0")
    case True
    with s4 w3 2 show ?thesis by (simp add: credit_loop_no_cash)
  next
    case False
    have "0 < wa" using False credit_loop_conserves(5) [OF lb ca(2) kobo_0 ca(4)] by linarith
    then have "\<forall>i \<in> set A'. in_remaining i \<le> 0" using oa pd by auto
    then have "credit_loop False (\<lambda>_. True) wb 0 (A' @ B2) =
       (case credit_loop False (\<lambda>_. True) wb 0 B2 of (B', w2, a2, c2) \<Rightarrow> (A' @ B', w2, a2, c2))"
      using credit_loop_skip_append [of A' "\<lambda>_. True"] by simp
    with s4 w3 2 show ?thesis by (auto split: prod.splits)
  qed
  have "credit_loop False (\<lambda>_. True) w0 0 A = (A', wa, xa, ca)"
    using credit_loop_cong [of A in_isPastDue "\<lambda>_. True" False w0 0] assms(2) la by simp
  then have "fst (credit_loop False (\<lambda>_. True) w0 0 (A @ B))
      = A' @ fst (credit_loop False (\<lambda>_. True) wa xa B)"
    by (simp add: credit_loop_append split: prod.splits)
  also have "fst (credit_loop False (\<lambda>_. True) wa xa B) = fst (credit_loop False (\<lambda>_. True) wa 0 B)"
    using credit_loop_acc by blast
  finally show ?thesis using 4 once by (simp add: r assms(1))
qed

lemma allocation_rederives:
  assumes "terms_kobo c p"
    and "inp = \<lparr> a_amount = amt, a_schedule = buildInstallmentStates c nw, a_remainingBalance = bal,
                  a_approvedFees = Fin 0 \<rparr>"
  shows "r_installments (allocatePayment inp)
     = buildInstallmentStates (c\<lparr>st_totalPaidNgn := Fin (p + r_accepted (allocatePayment inp))\<rparr>) nw"
proof -
  let ?acc = "r_accepted (allocatePayment inp)"
  have p: "c\<lparr>st_totalPaidNgn := Fin p\<rparr> = c" "kobo p" "0 \<le> p"
    using assms(1) by (auto simp: terms_kobo_def)
  have acc: "kobo ?acc" "0 \<le> ?acc"
    using allocation_conserves [of inp] by (auto simp: Let_def)
  obtain start weekly payable k where w: "kobo weekly" "0 \<le> weekly"
    and b: "\<And>q. 0 \<le> q \<Longrightarrow> buildInstallmentStates (c\<lparr>st_totalPaidNgn := Fin q\<rparr>) nw
        = installment_loop start nw weekly payable 0 k q"
    using buildInstallmentStates_loop [OF assms(1)] by blast
  have sch: "a_schedule inp = installment_loop start nw weekly payable 0 k p"
    using b [OF p(3)] p(1) by (simp add: assms(2))
  obtain A B where ab: "a_schedule inp = A @ B" "\<forall>i \<in> set A. in_isPastDue i" "\<forall>i \<in> set B. \<not> in_isPastDue i"
    using installment_loop_split [of start nw weekly payable 0 k p] sch by auto
  have ok: "\<forall>i \<in> set (A @ B). inst_ok i"
    using installment_loop_ok [OF w p(2,3), of start nw payable 0 k] ab(1) sch by simp
  have "r_installments (allocatePayment inp) = fst (credit_loop False (\<lambda>_. True) ?acc 0 (a_schedule inp))"
    by (rule allocation_is_fill [OF ab ok]) (simp add: assms(2))
  also have "\<dots> = installment_loop start nw weekly payable 0 k (p + ?acc)"
    unfolding sch by (rule installment_loop_fill [OF w p(2,3) acc])
  also have "\<dots> = buildInstallmentStates (c\<lparr>st_totalPaidNgn := Fin (p + ?acc)\<rparr>) nw"
    using b [of "p + ?acc"] p(3) acc by simp
  finally show ?thesis .
qed

text \<open>With the balance the services pass, every accepted naira lands on an instalment.\<close>

lemma allocation_no_leftover:
  assumes "terms_kobo c p" and "buildInstallmentStates c nw \<noteq> []"
    and b: "b = max (clampToNonNegative (num_or (st_totalPayableNgn c) 0) - p) 0"
    and inp: "inp = \<lparr> a_amount = amt, a_schedule = buildInstallmentStates c nw, a_remainingBalance = Fin b,
                  a_approvedFees = Fin 0 \<rparr>"
  shows "b_excess (r_breakdown (allocatePayment inp)) = r_excess (allocatePayment inp)"
proof (rule ccontr)
  let ?r = "allocatePayment inp"
  let ?w = "clamp_js (num_or (st_weeklyPaymentNgn c) 0)"
  let ?pay = "clamp_js (num_or (st_totalPayableNgn c) 0)"
  assume "b_excess (r_breakdown ?r) \<noteq> r_excess ?r"
  then have gt: "r_excess ?r < b_excess (r_breakdown ?r)"
    using allocation_conserves [of inp] by (auto simp: Let_def)
  have p: "st_totalPaidNgn c = Fin p" "kobo p" "0 \<le> p" and k: "kobo ?w" "kobo ?pay"
    using assms(1) by (auto simp: terms_kobo_def clampToNonNegative_def)
  from assms(2) obtain start where st: "st_startDate c = Some start" and w: "0 < ?w" and pay: "0 < ?pay"
    and "nat (max 0 \<lfloor>st_durationWeeks c\<rfloor>) \<noteq> 0"
    by (auto simp: buildInstallmentStates_def Let_def split: option.splits if_splits)
  then obtain j where n: "nat (max 0 \<lfloor>st_durationWeeks c\<rfloor>) = Suc j"
    by (meson not0_implies_Suc)
  have loop: "buildInstallmentStates c nw = installment_loop start nw ?w ?pay 0 (Suc j) p"
    using st w pay n p by (simp add: buildInstallmentStates_def Let_def num_or_def del: installment_loop.simps)
  note sums = installment_loop_sums [OF k(1) less_imp_le [OF w] p(2,3) k(2), of start nw 0 j]
  define tot where "tot = ?w * of_nat j + max (?pay - ?w * of_nat j) 0"
  have tot: "?pay \<le> tot" by (simp add: tot_def)
  have ok: "\<forall>i \<in> set (a_schedule inp). inst_ok i"
    using installment_loop_ok [OF k(1) less_imp_le [OF w] p(2,3), of start nw ?pay 0 "Suc j"]
    by (simp add: inp loop del: installment_loop.simps)
  note ord = allocation_ordered [OF ok, unfolded Let_def]
  note con = allocation_conserves [of inp, unfolded Let_def]
  have all0: "\<forall>i \<in> set (r_installments ?r). in_remaining i = 0" using ord gt by blast
  have "in_scheduled i = in_paid i" if "i \<in> set (r_installments ?r)" for i
    using that all0 ord by (auto simp: inst_ok_def)
  then have "(\<Sum>i\<leftarrow>r_installments ?r. in_paid i) = (\<Sum>i\<leftarrow>r_installments ?r. in_scheduled i)"
    by (intro arg_cong [where f = sum_list] map_cong) auto
  also have "map in_scheduled (r_installments ?r) = map in_scheduled (a_schedule inp)" using con by blast
  finally have "(\<Sum>i\<leftarrow>r_installments ?r. in_paid i) = tot"
    using sums by (simp add: inp loop tot_def del: installment_loop.simps)
  moreover have "(\<Sum>i\<leftarrow>a_schedule inp. in_paid i) \<le> p"
    using sums by (simp add: inp loop del: installment_loop.simps)
  moreover have "r_accepted ?r \<le> max (?pay - p) 0"
  proof -
    have "kobo (max (?pay - p) 0)" using k p by (auto intro: kobo_max kobo_diff)
    then have "clamp_js (round_kobo_js (a_remainingBalance inp)) = max (?pay - p) 0"
      by (simp add: inp b clampToNonNegative_def round_kobo_id)
    with con show ?thesis by simp
  qed
  moreover have "b_fees (r_breakdown ?r) = 0" using con by (auto simp: inp)
  ultimately have "?pay \<le> (\<Sum>i\<leftarrow>a_schedule inp. in_paid i) + r_accepted ?r - (b_excess (r_breakdown ?r) - r_excess ?r)"
    using ord con tot by auto
  then show False
    using gt \<open>r_accepted ?r \<le> _\<close> \<open>(\<Sum>i\<leftarrow>a_schedule inp. in_paid i) \<le> p\<close> con
    by (auto simp: max_def split: if_splits)
qed

subsection \<open>Facts about derived instalments\<close>

lemma terms_kobo_build:
  assumes "terms_kobo c p" and "buildInstallmentStates c nw \<noteq> []"
  obtains start j where "st_startDate c = Some start"
    and "nat \<lfloor>st_durationWeeks c\<rfloor> = Suc j"
    and "0 < clampToNonNegative (num_or (st_weeklyPaymentNgn c) 0)"
    and "0 < clampToNonNegative (num_or (st_totalPayableNgn c) 0)"
    and "buildInstallmentStates c nw = installment_loop start nw
       (clampToNonNegative (num_or (st_weeklyPaymentNgn c) 0))
       (clampToNonNegative (num_or (st_totalPayableNgn c) 0)) 0 (Suc j) p"
proof -
  let ?w = "clamp_js (num_or (st_weeklyPaymentNgn c) 0)"
  let ?pay = "clamp_js (num_or (st_totalPayableNgn c) 0)"
  have p: "st_totalPaidNgn c = Fin p" "0 \<le> p" using assms(1) by (auto simp: terms_kobo_def)
  from assms(2) obtain start where st: "st_startDate c = Some start" and w: "0 < ?w" and pay: "0 < ?pay"
    and nz: "nat (max 0 \<lfloor>st_durationWeeks c\<rfloor>) \<noteq> 0"
    by (auto simp: buildInstallmentStates_def Let_def split: option.splits if_splits)
  then obtain j where n: "nat (max 0 \<lfloor>st_durationWeeks c\<rfloor>) = Suc j"
    by (meson not0_implies_Suc)
  moreover from n have "nat \<lfloor>st_durationWeeks c\<rfloor> = Suc j" by (simp add: max_def split: if_splits)
  moreover have "buildInstallmentStates c nw = installment_loop start nw ?w ?pay 0 (Suc j) p"
    using st w pay n p by (simp add: buildInstallmentStates_def Let_def num_or_def del: installment_loop.simps)
  ultimately show thesis using that st w pay by (simp add: clampToNonNegative_def)
qed

lemma find_one_map_filter: "find_one P xs = (case filter P xs of [] \<Rightarrow> None | x # _ \<Rightarrow> Some x)"
  by (induction xs) auto

lemma next_due_is_first_open:
  assumes "insts = A @ B" and "\<forall>i \<in> set A. in_isPastDue i" and "\<forall>i \<in> set B. \<not> in_isPastDue i"
  shows "calculateNextDueDateFromSchedule insts
     = map_option in_dueDate (find_one (\<lambda>i. in_remaining i > 0) insts)"
proof -
  have a: "find_one (\<lambda>i. in_isPastDue i \<and> in_remaining i > 0) A = find_one (\<lambda>i. in_remaining i > 0) A"
    using assms(2) by (induction A) auto
  have b: "find_one (\<lambda>i. in_isPastDue i \<and> in_remaining i > 0) B = None"
    using assms(3) by (auto simp: find_None_iff)
  have c: "find_one (\<lambda>i. \<not> in_isPastDue i \<and> in_remaining i > 0) A = None"
    using assms(2) by (auto simp: find_None_iff)
  have d: "find_one (\<lambda>i. \<not> in_isPastDue i \<and> in_remaining i > 0) B = find_one (\<lambda>i. in_remaining i > 0) B"
    using assms(3) by (induction B) auto
  show ?thesis
    by (auto simp: calculateNextDueDateFromSchedule_def assms(1) find_one_append a b c d split: option.splits)
qed

lemma rounded_sum:
  "\<forall>i \<in> set xs. kobo (f i) \<Longrightarrow> kobo a \<Longrightarrow> foldl (\<lambda>s i. round_kobo (s + f i)) a xs = a + (\<Sum>i\<leftarrow>xs. f i)"
proof (induction xs arbitrary: a)
  case (Cons x xs)
  have "kobo (a + f x)" using Cons.prems by (auto intro: kobo_add)
  with Cons show ?case by (simp add: round_kobo_id add.assoc)
qed simp

text \<open>The read-side schedule and the engine, row by row.\<close>

definition same_row :: "schedule_item \<Rightarrow> installment \<Rightarrow> bool" where
  "same_row s i \<longleftrightarrow> si_installmentNumber s = in_number i \<and> si_dueDate s = in_dueDate i
     \<and> si_expectedAmountNgn s = in_scheduled i \<and> si_paidAmountNgn s = in_paid i
     \<and> si_remainingAmountNgn s = in_remaining i"

lemma schedules_agree:
  assumes "kobo weekly" and "0 \<le> weekly" and "kobo payable" and "kobo p" and "0 \<le> p"
    and "payable \<le> weekly * of_nat (index + k)"
  shows "list_all2 same_row (schedule_loop start nw weekly payable index k p)
           (installment_loop start nw weekly payable index k p)"
  using assms(4-6)
proof (induction k arbitrary: index p)
  case 0
  then show ?case by simp
next
  case (Suc k)
  let ?s = "scheduled_amount weekly payable index (k = 0)"
  have s: "kobo ?s" "0 \<le> ?s" using scheduled_amount_kobo [OF assms(1,2)] by auto
  have kl: "kobo (max (payable - weekly * of_nat index) 0)"
    using assms by (intro kobo_max kobo_diff kobo_mult_nat) auto
  have e: "expected_amount weekly payable index (k = 0) = ?s"
    using Suc.prems(3) assms(2) kl
    by (auto simp: expected_amount_def scheduled_amount_def Let_def round_kobo_id algebra_simps)
  have m: "max (p - min ?s p) 0 = max (p - ?s) 0" by auto
  have "kobo (max (p - ?s) 0)" using Suc.prems s by (auto intro: kobo_max kobo_diff)
  then have IH: "list_all2 same_row (schedule_loop start nw weekly payable (index + 1) k (max (p - ?s) 0))
           (installment_loop start nw weekly payable (index + 1) k (max (p - ?s) 0))"
    by (rule Suc.IH) (use Suc.prems(3) in simp_all)
  have row: "same_row (schedule_row nw (index + 1) due ?s p) (installment_row nw (index + 1) due ?s p)" for due
    using installment_row_exact(1) [OF s(1) Suc.prems(1) s(2) Suc.prems(2)]
    by (simp add: same_row_def schedule_row_def Let_def)
  show ?case
    unfolding installment_loop_Suc [OF assms(1,2) Suc.prems(1,2) refl]
    using IH row m e by (simp add: Let_def)
qed

subsection \<open>Properties\<close>

text \<open>
  C5.  No leakage, for every input whatsoever (non-finite amounts and malformed schedules
  included): the tendered amount, rounded, splits exactly into the accepted amount and the
  excess; the accepted amount splits exactly into arrears, current instalment, fees,
  principal and what no instalment could take; no part is negative, every part has two
  decimals; fees stay within the approved fees, the accepted amount within the balance;
  and the per-instalment credits add up to what went to instalments.
\<close>

theorem allocation_conserves_money:
  shows "let r = allocatePayment inp; b = r_breakdown r; tendered = clamp_js (round_kobo_js (a_amount inp))
    in r_accepted r + r_excess r = tendered
     \<and> r_accepted r \<le> clamp_js (round_kobo_js (a_remainingBalance inp))
     \<and> b_arrears b + b_current b + b_fees b + b_principal b + (b_excess b - r_excess r) = r_accepted r
     \<and> 0 \<le> r_accepted r \<and> 0 \<le> r_excess r \<and> 0 \<le> b_arrears b \<and> 0 \<le> b_current b \<and> 0 \<le> b_fees b
     \<and> 0 \<le> b_principal b \<and> r_excess r \<le> b_excess b
     \<and> b_fees b \<le> clamp_js (round_kobo_js (a_approvedFees inp))
     \<and> (\<Sum>c\<leftarrow>b_credits b. snd c) = b_arrears b + b_current b + b_principal b
     \<and> list_all kobo [r_accepted r, r_excess r, b_arrears b, b_current b, b_fees b, b_principal b, b_excess b]
     \<and> map in_number (r_installments r) = map in_number (a_schedule inp)
     \<and> map in_scheduled (r_installments r) = map in_scheduled (a_schedule inp)"
  using allocation_conserves [of inp] by (simp add: Let_def)

text \<open>
  C6.  The documented order, on a well-formed schedule: money goes beyond arrears only when
  no past-due instalment is left open; principal is reduced only when the approved fees are
  paid; money is left over only when the whole schedule is paid; the paid amounts grow by
  exactly what was credited, and every instalment stays well-formed (its remaining amount is
  never negative and is what is scheduled minus what is paid).
\<close>

theorem allocation_order:
  assumes "\<forall>i \<in> set (a_schedule inp). inst_ok i"
  shows "let r = allocatePayment inp; b = r_breakdown r
    in (\<forall>i \<in> set (r_installments r). inst_ok i)
     \<and> (\<Sum>i\<leftarrow>r_installments r. in_paid i)
         = (\<Sum>i\<leftarrow>a_schedule inp. in_paid i) + b_arrears b + b_current b + b_principal b
     \<and> (0 < b_current b + b_fees b + b_principal b \<longrightarrow>
          (\<forall>i \<in> set (r_installments r). in_isPastDue i \<longrightarrow> in_remaining i = 0))
     \<and> (0 < b_principal b \<longrightarrow> b_fees b = clamp_js (round_kobo_js (a_approvedFees inp)))
     \<and> (r_excess r < b_excess b \<longrightarrow> (\<forall>i \<in> set (r_installments r). in_remaining i = 0))"
  by (rule allocation_ordered [OF assms])

theorem allocation_order_witness:
  "list_all inst_ok (r_installments (allocatePayment
      \<lparr> a_amount = Fin 150, a_schedule = [demo_inst 1 True 100 0, demo_inst 2 False 100 0],
        a_remainingBalance = Fin 200, a_approvedFees = Fin 0 \<rparr>))"
proof -
  let ?in = "\<lparr> a_amount = Fin 150, a_schedule = [demo_inst 1 True 100 0, demo_inst 2 False 100 0],
        a_remainingBalance = Fin 200, a_approvedFees = Fin 0 \<rparr>"
  have "kobo 100" by (rule koboI [of _ 10000]) simp
  then have "\<forall>i \<in> set (a_schedule ?in). inst_ok i" by (simp add: inst_ok_def demo_inst_def)
  from allocation_order [OF this] show ?thesis by (simp add: Let_def list_all_iff)
qed

text \<open>
  C7.  Paying a contract: with the contract's own instalments and outstanding balance and
  no fees, every accepted naira lands on an instalment, and the instalments after the
  payment are exactly those that the contract with the new total yields, so that applying
  payments one by one and deriving the state from the running total never disagree.
\<close>

theorem allocation_agrees_with_rederivation:
  assumes "terms_kobo c p" and "buildInstallmentStates c nw \<noteq> []"
    and "b = max (clampToNonNegative (num_or (st_totalPayableNgn c) 0) - p) 0"
    and "r = allocatePayment \<lparr> a_amount = amt, a_schedule = buildInstallmentStates c nw,
               a_remainingBalance = Fin b, a_approvedFees = Fin 0 \<rparr>"
  shows "r_installments r = buildInstallmentStates (c\<lparr>st_totalPaidNgn := Fin (p + r_accepted r)\<rparr>) nw
    \<and> r_accepted r = b_arrears (r_breakdown r) + b_current (r_breakdown r) + b_principal (r_breakdown r)
    \<and> r_accepted r = min (clamp_js (round_kobo_js amt)) b"
proof -
  let ?in = "\<lparr> a_amount = amt, a_schedule = buildInstallmentStates c nw,
               a_remainingBalance = Fin b, a_approvedFees = Fin 0 \<rparr>"
  have kb: "kobo b" "0 \<le> b"
    using assms(1) by (auto simp: assms(3) terms_kobo_def intro: kobo_max kobo_diff)
  note con = allocation_conserves [of ?in, folded assms(4), unfolded Let_def]
  have "b_fees (r_breakdown r) = 0" using con by simp
  moreover have "b_excess (r_breakdown r) = r_excess r"
    using allocation_no_leftover [OF assms(1-3) refl, of amt] by (simp only: assms(4))
  ultimately have "r_accepted r = b_arrears (r_breakdown r) + b_current (r_breakdown r) + b_principal (r_breakdown r)"
    using con by linarith
  moreover have "r_accepted r = min (clamp_js (round_kobo_js amt)) b"
    using allocatePayment_accepted [of ?in] kb by (simp add: assms(4) round_kobo_id)
  moreover have "r_installments r = buildInstallmentStates (c\<lparr>st_totalPaidNgn := Fin (p + r_accepted r)\<rparr>) nw"
    using allocation_rederives [OF assms(1) refl, of amt nw "Fin b"] by (simp only: assms(4))
  ultimately show ?thesis by blast
qed

definition demo_terms :: schedule_terms where
  "demo_terms = \<lparr> st_startDate = Some 0, st_weeklyPaymentNgn = Fin 100, st_durationWeeks = 3,
     st_totalPaidNgn = Fin 150, st_totalPayableNgn = Fin 250 \<rparr>"

lemma demo_terms_kobo: "terms_kobo demo_terms 150"
  by (auto simp: terms_kobo_def demo_terms_def num_or_def intro: koboI [of _ 10000] koboI [of _ 25000]
      koboI [of _ 15000])

lemma demo_terms_build: "buildInstallmentStates demo_terms 0 \<noteq> []"
  by (simp add: buildInstallmentStates_def demo_terms_def num_or_def Let_def eval_nat_numeral)

theorem allocation_agrees_with_rederivation_witness:
  "r_accepted (allocatePayment \<lparr> a_amount = Fin 300, a_schedule = buildInstallmentStates demo_terms 0,
     a_remainingBalance = Fin 100, a_approvedFees = Fin 0 \<rparr>) = min (clamp_js (round_kobo_js (Fin 300))) 100"
proof -
  have "100 = max (clampToNonNegative (num_or (st_totalPayableNgn demo_terms) 0) - 150) 0"
    by (simp add: demo_terms_def num_or_def)
  from allocation_agrees_with_rederivation [OF demo_terms_kobo demo_terms_build this refl]
  show ?thesis by blast
qed

text \<open>
   Deriving the instalments of a contract: one per week; together they schedule the
  payable amount (or the weekly amount for all but the last week, when that is more) and
  account for every naira paid up to that; the next due date is the due date of the first
  instalment that is still open, and there is none exactly when all are paid; the arrears
  report counts the open past-due instalments and adds up what they still lack.
\<close>

theorem installment_states_correct:
  assumes "terms_kobo c p" and "insts = buildInstallmentStates c nw" and "insts \<noteq> []"
    and "n = length insts"
    and "w = clampToNonNegative (num_or (st_weeklyPaymentNgn c) 0)"
    and "pay = clampToNonNegative (num_or (st_totalPayableNgn c) 0)"
  shows "n = nat \<lfloor>st_durationWeeks c\<rfloor>
    \<and> (\<forall>i \<in> set insts. inst_ok i)
    \<and> (\<Sum>i\<leftarrow>insts. in_scheduled i) = max pay (w * of_nat (n - 1))
    \<and> (\<Sum>i\<leftarrow>insts. in_paid i) = min p (max pay (w * of_nat (n - 1)))
    \<and> calculateNextDueDateFromSchedule insts = map_option in_dueDate (find_one (\<lambda>i. in_remaining i > 0) insts)
    \<and> (calculateNextDueDateFromSchedule insts = None \<longleftrightarrow> (\<forall>i \<in> set insts. in_remaining i = 0))
    \<and> ar_arrearsAmountNgn (computeArrears nw insts)
        = (\<Sum>i\<leftarrow>filter in_isPastDue insts. in_scheduled i - in_paid i)
    \<and> ar_overdueCount (computeArrears nw insts)
        = length (filter (\<lambda>i. in_isPastDue i \<and> in_remaining i \<noteq> 0) insts)"
proof -
  obtain start j where st: "nat \<lfloor>st_durationWeeks c\<rfloor> = Suc j" and w: "0 < w" and pay: "0 < pay"
    and b: "insts = installment_loop start nw w pay 0 (Suc j) p"
    by (rule terms_kobo_build [OF assms(1)]) (use assms in auto)
  have k: "kobo w" "kobo pay" "kobo p" "0 \<le> p" using assms by (auto simp: terms_kobo_def)
  have len: "length (installment_loop start nw w pay i m q) = m" for i m q
    by (induction m arbitrary: i q) (auto simp: Let_def)
  have n: "n = Suc j" unfolding assms(4) b by (rule len)
  have ok: "\<forall>i \<in> set insts. inst_ok i"
    unfolding b by (rule installment_loop_ok [OF k(1) less_imp_le [OF w] k(3,4)])
  have tot: "w * of_nat j + max (pay - w * of_nat j) 0 = max pay (w * of_nat j)" by auto
  note sums = installment_loop_sums [OF k(1) less_imp_le [OF w] k(3,4,2), of start nw 0 j, folded b, simplified tot]
  obtain A B where "insts = A @ B" "\<forall>i \<in> set A. in_isPastDue i" "\<forall>i \<in> set B. \<not> in_isPastDue i"
    using installment_loop_split [of start nw w pay 0 "Suc j" p] b by metis
  from next_due_is_first_open [OF this]
  have due: "calculateNextDueDateFromSchedule insts = map_option in_dueDate (find_one (\<lambda>i. in_remaining i > 0) insts)" .
  have open_iff: "in_remaining i > 0 \<longleftrightarrow> in_remaining i \<noteq> 0" if "i \<in> set insts" for i
    using ok that by (auto simp: inst_ok_def)
  then have none: "calculateNextDueDateFromSchedule insts = None \<longleftrightarrow> (\<forall>i \<in> set insts. in_remaining i = 0)"
    by (auto simp: due find_None_iff)
  have same: "filter (\<lambda>i. in_isPastDue i \<and> in_remaining i > 0) insts
      = filter (\<lambda>i. in_isPastDue i \<and> in_remaining i \<noteq> 0) insts"
    using open_iff by (intro filter_cong) auto
  have kr: "\<forall>i \<in> set (filter (\<lambda>i. in_isPastDue i \<and> in_remaining i > 0) insts). kobo (in_remaining i)"
    using ok inst_ok_remaining by simp
  have sum0: "(\<Sum>i\<leftarrow>filter (\<lambda>i. in_isPastDue i \<and> in_remaining i > 0) xs. in_remaining i)
      = (\<Sum>i\<leftarrow>filter in_isPastDue xs. in_scheduled i - in_paid i)" 
    if "\<forall>i \<in> set xs. 0 \<le> in_remaining i \<and> in_scheduled i = in_paid i + in_remaining i" for xs
    using that by (induction xs) auto
  have "ar_arrearsAmountNgn (computeArrears nw insts) = (\<Sum>i\<leftarrow>filter in_isPastDue insts. in_scheduled i - in_paid i)"
    using rounded_sum [OF kr kobo_0] sum0 [of insts] ok by (simp add: computeArrears_def Let_def inst_ok_def)
  moreover have "ar_overdueCount (computeArrears nw insts)
        = length (filter (\<lambda>i. in_isPastDue i \<and> in_remaining i \<noteq> 0) insts)"
    by (simp add: computeArrears_def Let_def same)
  ultimately show ?thesis using st n ok sums due none by (simp add: tot)
qed

theorem installment_states_correct_witness:
  "(\<Sum>i\<leftarrow>buildInstallmentStates demo_terms 0. in_paid i) = 150"
proof -
  have "length (buildInstallmentStates demo_terms 0) = 3"
    by (simp add: buildInstallmentStates_def demo_terms_def num_or_def Let_def eval_nat_numeral)
  then have n: "3 = length (buildInstallmentStates demo_terms 0)" by simp
  have "(\<Sum>i\<leftarrow>buildInstallmentStates demo_terms 0. in_paid i)
      = min 150 (max (clampToNonNegative (num_or (st_totalPayableNgn demo_terms) 0))
          (clampToNonNegative (num_or (st_weeklyPaymentNgn demo_terms) 0) * of_nat (3 - 1)))"
    using installment_states_correct [OF demo_terms_kobo refl demo_terms_build n refl refl] by blast
  then show ?thesis by (simp add: demo_terms_def num_or_def)
qed

text \<open>
   The schedule the driver sees and the instalments the engine pays agree row by row
  whenever the weekly amounts cover the payable amount; when they do not, the engine's last
  instalment takes the difference but the driver's last row stays at the weekly amount, so
  that the driver's schedule adds up to less than the payable amount.
\<close>

theorem driver_schedule_vs_engine:
  assumes "terms_kobo c p" and "buildInstallmentStates c nw \<noteq> []"
    and "n = nat \<lfloor>st_durationWeeks c\<rfloor>"
    and "w = clampToNonNegative (num_or (st_weeklyPaymentNgn c) 0)"
    and "pay = clampToNonNegative (num_or (st_totalPayableNgn c) 0)"
  shows "(pay \<le> w * of_nat n \<longrightarrow> list_all2 same_row (buildRepaymentSchedule c nw) (buildInstallmentStates c nw))
    \<and> (w * of_nat n < pay \<longrightarrow>
        (\<Sum>s\<leftarrow>buildRepaymentSchedule c nw. si_expectedAmountNgn s) = w * of_nat n
        \<and> (\<Sum>i\<leftarrow>buildInstallmentStates c nw. in_scheduled i) = pay)"
proof -
  obtain start j where st: "st_startDate c = Some start" and n: "nat \<lfloor>st_durationWeeks c\<rfloor> = Suc j"
    and w: "0 < w" and pay: "0 < pay" and b: "buildInstallmentStates c nw = installment_loop start nw w pay 0 (Suc j) p"
    by (rule terms_kobo_build [OF assms(1,2)]) (use assms in auto)
  have k: "kobo w" "kobo pay" "kobo p" "0 \<le> p" "st_totalPaidNgn c = Fin p"
    using assms by (auto simp: terms_kobo_def)
  have fl: "nat (max 0 \<lfloor>st_durationWeeks c\<rfloor>) = Suc j" using n by simp
  have s: "buildRepaymentSchedule c nw = schedule_loop start nw w pay 0 (Suc j) p"
    using st w pay fl k(4,5) assms(4,5)
    by (simp add: buildRepaymentSchedule_def Let_def num_or_def del: schedule_loop.simps)
  have 1: "list_all2 same_row (buildRepaymentSchedule c nw) (buildInstallmentStates c nw)"
    if "pay \<le> w * of_nat (Suc j)"
    unfolding s b by (rule schedules_agree) (use k w that in auto)
  have 2: "(\<Sum>s\<leftarrow>buildRepaymentSchedule c nw. si_expectedAmountNgn s) = w * of_nat (Suc j)
        \<and> (\<Sum>i\<leftarrow>buildInstallmentStates c nw. in_scheduled i) = pay" if "w * of_nat (Suc j) < pay"
  proof -
    have gt: "w < pay - w * of_nat j" using that by (simp add: algebra_simps)
    then have "expected_amount w pay (0 + j) True = w"
      using w by (simp add: expected_amount_def)
    then have "(\<Sum>s\<leftarrow>buildRepaymentSchedule c nw. si_expectedAmountNgn s) = w * of_nat (Suc j)"
      using schedule_loop_sum_expected [OF less_imp_le [OF w], of start nw pay 0 j p]
      by (simp add: s algebra_simps del: schedule_loop.simps)
    moreover have "max (pay - w * of_nat (0 + j)) 0 = pay - w * of_nat j" using gt w by simp
    then have "(\<Sum>i\<leftarrow>buildInstallmentStates c nw. in_scheduled i) = pay"
      using installment_loop_sums(1) [OF k(1) less_imp_le [OF w] k(3,4,2), of start nw 0 j]
      by (simp add: b del: installment_loop.simps)
    ultimately show ?thesis by blast
  qed
  show ?thesis using 1 2 n assms(3) by simp
qed

theorem driver_schedule_vs_engine_witness:
  "list_all2 same_row (buildRepaymentSchedule demo_terms 0) (buildInstallmentStates demo_terms 0)"
proof -
  have "clampToNonNegative (num_or (st_totalPayableNgn demo_terms) 0)
      \<le> clampToNonNegative (num_or (st_weeklyPaymentNgn demo_terms) 0) * of_nat (nat \<lfloor>st_durationWeeks demo_terms\<rfloor>)"
    by (simp add: demo_terms_def num_or_def)
  with driver_schedule_vs_engine [OF demo_terms_kobo demo_terms_build refl refl refl] show ?thesis by blast
qed

end
