(* ===== verification/Contract_Service.thy ===== *)
theory Contract_Service
  imports Contract_Model
begin

text \<open>
  \<open>transitionHirePurchaseContract\<close> (\<open>lib/services/contract-transition.service.ts\<close>), the single
  entry point for contract status changes, with its vehicle side effects, its timeline and
  its optimistic concurrency control.
\<close>

subsection \<open>Errors, users, state\<close>

datatype contract_error =
  ContractTransitionError err_code
| ContractConcurrencyError
| ContractDriverFailure driver_error
| ContractAuditFailure

record user =
  u_id :: oid
  u_kycStatus :: "string option"
  u_isKycVerified :: "bool option"
  u_kycVerified :: "bool option"
  u_availableBalance :: rat

definition isKycApproved :: "user option \<Rightarrow> bool" where
  "isKycApproved u =
     (case u of None \<Rightarrow> False
      | Some c \<Rightarrow> u_kycStatus c = Some ''approved_stage2'' \<or> u_isKycVerified c = Some True
                 \<or> u_kycVerified c = Some True)"

record cdb =
  cd_contracts :: "contract list"
  cd_vehicles :: "vehicle list"
  cd_users :: "user list"
  cd_audits :: "audit_row list"

text \<open>As in \<open>Domain_Services\<close>: every write but that of an audit row is in the session of the transaction.\<close>

definition cdb_rollback :: "cdb \<Rightarrow> cdb \<Rightarrow> cdb" where
  "cdb_rollback s s' = s\<lparr>cd_audits := cd_audits s'\<rparr>"

subsection \<open>Input\<close>

record restructure_terms =
  rt_totalPayableNgn :: "rat option"
  rt_weeklyPaymentNgn :: "rat option"
  rt_durationWeeks :: "rat option"
  rt_startDate :: "time option"

record contract_input =
  ci_contractId :: string
  ci_targetState :: contract_status
  ci_actorType :: contract_actor
  ci_actorUserId :: "string option"
  ci_reason :: string
  ci_expectedVersion :: "nat option"
  ci_vehicleId :: "string option"
  ci_restructure :: "restructure_terms option"
  ci_metadata :: "(string \<times> meta) list"
  ci_session :: bool

definition contract_oid :: "env \<Rightarrow> string \<Rightarrow> contract_error + oid" where
  "contract_oid E v = (if valid_oid E v then Inr v else Inl (ContractTransitionError INVALID_INPUT))"

definition precondition_failed :: "contract_error + 'a" where
  "precondition_failed = Inl (ContractTransitionError PRECONDITION_FAILED)"

subsection \<open>Preconditions, fields and vehicle effects per target\<close>

text \<open>
  What a transition to the target will do: the fields it sets on the contract and the
  update of the vehicles.  Every check of the code happens here, before anything is written.
\<close>

definition plan_vehicle_assigned ::
  "env \<Rightarrow> contract_input \<Rightarrow> cdb \<Rightarrow> contract_error + (contract \<Rightarrow> contract) \<times> (vehicle list \<Rightarrow> vehicle list)" where
  "plan_vehicle_assigned E inp s =
     (if \<not> truthy (ci_vehicleId inp) then precondition_failed
      else case contract_oid E (the (ci_vehicleId inp)) of
        Inl e \<Rightarrow> Inl e
      | Inr vid \<Rightarrow>
          (case find_one (\<lambda>v. v_id v = vid) (cd_vehicles s) of
             None \<Rightarrow> precondition_failed
           | Some v \<Rightarrow>
               if v_status v \<noteq> Veh_Available then precondition_failed
               else Inr (\<lambda>c. c\<lparr>c_status := VEHICLE_ASSIGNED, c_vehicleId := Some vid\<rparr>,
                         update_one (\<lambda>v. v_id v = vid) (\<lambda>v. v\<lparr>v_status := Veh_Reserved\<rparr>))))"

definition terms_complete :: "contract \<Rightarrow> bool" where
  "terms_complete c \<longleftrightarrow> c_totalPayableNgn c > 0 \<and> c_durationWeeks c > 0
     \<and> c_weeklyPaymentNgn c > 0 \<and> c_startDate c \<noteq> None"

definition plan_activation ::
  "env \<Rightarrow> contract \<Rightarrow> cdb \<Rightarrow> contract_error + (contract \<Rightarrow> contract) \<times> (vehicle list \<Rightarrow> vehicle list)" where
  "plan_activation E c s =
     (if \<not> isKycApproved (find_one (\<lambda>u. u_id u = c_driverUserId c) (cd_users s))
      then precondition_failed
      else case c_vehicleId c of
        None \<Rightarrow> precondition_failed
      | Some vid \<Rightarrow>
          if \<not> terms_complete c then precondition_failed
          else if buildRepaymentSchedule (contract_terms c) (now E) = [] then precondition_failed
          else Inr (\<lambda>c. c\<lparr>c_status := ACTIVE\<rparr>,
                    update_one (\<lambda>v. v_id v = vid)
                      (\<lambda>v. v\<lparr>v_status := Veh_Financed, v_driverId := Some (c_driverUserId c)\<rparr>)))"

definition plan_restructure ::
  "contract_input \<Rightarrow> contract_error + (contract \<Rightarrow> contract) \<times> (vehicle list \<Rightarrow> vehicle list)" where
  "plan_restructure inp =
     (case ci_restructure inp of
        None \<Rightarrow> precondition_failed
      | Some r \<Rightarrow>
          if rt_totalPayableNgn r = None \<and> rt_weeklyPaymentNgn r = None
             \<and> rt_durationWeeks r = None \<and> rt_startDate r = None
          then precondition_failed
          else Inr (\<lambda>c. c\<lparr>c_status := RESTRUCTURED,
                        c_totalPayableNgn := (case rt_totalPayableNgn r of None \<Rightarrow> c_totalPayableNgn c | Some x \<Rightarrow> x),
                        c_weeklyPaymentNgn := (case rt_weeklyPaymentNgn r of None \<Rightarrow> c_weeklyPaymentNgn c | Some x \<Rightarrow> x),
                        c_durationWeeks := (case rt_durationWeeks r of None \<Rightarrow> c_durationWeeks c | Some x \<Rightarrow> x),
                        c_startDate := (case rt_startDate r of None \<Rightarrow> c_startDate c | Some x \<Rightarrow> Some x)\<rparr>,
                    id))"

definition plan_transition ::
  "env \<Rightarrow> contract_input \<Rightarrow> contract \<Rightarrow> cdb
     \<Rightarrow> contract_error + (contract \<Rightarrow> contract) \<times> (vehicle list \<Rightarrow> vehicle list)" where
  "plan_transition E inp c s =
     (let targetState = ci_targetState inp in
      if targetState = VEHICLE_ASSIGNED then plan_vehicle_assigned E inp s
      else if targetState = ACTIVE \<and> c_status c = VEHICLE_ASSIGNED then plan_activation E c s
      else if targetState = COMPLETED \<and> c_totalPaidNgn c < c_totalPayableNgn c
      then precondition_failed
      else if targetState = RESTRUCTURED then plan_restructure inp
      else Inr (\<lambda>c. c\<lparr>c_status := targetState\<rparr>,
                (case c_vehicleId c of
                   Some vid \<Rightarrow>
                     if targetState = REPOSSESSED
                     then update_one (\<lambda>v. v_id v = vid)
                            (\<lambda>v. v\<lparr>v_status := Veh_Reserved, v_driverId := None\<rparr>)
                     else id
                 | None \<Rightarrow> id)))"

definition vehicle_sync_skipped :: "contract_input \<Rightarrow> contract \<Rightarrow> bool" where
  "vehicle_sync_skipped inp c \<longleftrightarrow> ci_targetState inp = REPOSSESSED \<and> c_vehicleId c = None"

definition timeline_entry_of ::
  "env \<Rightarrow> contract_input \<Rightarrow> contract \<Rightarrow> oid option \<Rightarrow> timeline_entry" where
  "timeline_entry_of E inp c actor =
     \<lparr> t_fromState = Some (c_status c), t_toState = ci_targetState inp,
       t_actorType = ci_actorType inp, t_actorUserId = actor, t_reason = ci_reason inp,
       t_metadata = ci_metadata inp
         @ (if vehicle_sync_skipped inp c then [(''vehicleSyncSkipped'', MBool True)] else []),
       t_timestamp = now E \<rparr>"

subsection \<open>Names in the audit event\<close>

fun contract_status_name :: "contract_status \<Rightarrow> string" where
  "contract_status_name PENDING_APPROVAL = ''PENDING_APPROVAL''"
| "contract_status_name APPROVED = ''APPROVED''"
| "contract_status_name VEHICLE_ASSIGNED = ''VEHICLE_ASSIGNED''"
| "contract_status_name ACTIVE = ''ACTIVE''"
| "contract_status_name DELINQUENT = ''DELINQUENT''"
| "contract_status_name RESTRUCTURED = ''RESTRUCTURED''"
| "contract_status_name COMPLETED = ''COMPLETED''"
| "contract_status_name REPOSSESSED = ''REPOSSESSED''"
| "contract_status_name CANCELLED = ''CANCELLED''"
| "contract_status_name CLOSED = ''CLOSED''"

fun contract_actor_name :: "contract_actor \<Rightarrow> string" where
  "contract_actor_name Con_Driver = ''driver''"
| "contract_actor_name Con_Admin = ''admin''"
| "contract_actor_name Con_System = ''system''"

definition contract_event :: "contract_input \<Rightarrow> contract \<Rightarrow> audit_event" where
  "contract_event inp c =
     \<lparr> ev_actor = (if truthy (ci_actorUserId inp)
          then Some (the (ci_actorUserId inp), Some (contract_actor_name (ci_actorType inp))) else None),
       ev_action = ''CONTRACT_TRANSITION_'' @ contract_status_name (ci_targetState inp),
       ev_targetType = ''HirePurchaseContract'', ev_targetId = Some (c_id c), ev_success = True,
       ev_meta = [(''fromState'', MStr (contract_status_name (c_status c))),
                  (''toState'', MStr (contract_status_name (ci_targetState inp))),
                  (''reason'', MStr (ci_reason inp)),
                  (''actorType'', MStr (contract_actor_name (ci_actorType inp)))] \<rparr>"

subsection \<open>The service\<close>

definition contract_body ::
  "env \<Rightarrow> contract_input \<Rightarrow> oid \<Rightarrow> cdb \<Rightarrow> (contract_error + contract \<times> contract_status) \<times> cdb" where
  "contract_body E inp cid s =
     (case find_one (\<lambda>c. c_id c = cid) (cd_contracts s) of
        None \<Rightarrow> (Inl (ContractTransitionError NOT_FOUND), s)
      | Some c \<Rightarrow>
          let previousState = c_status c; targetState = ci_targetState inp in
          if previousState = targetState then (Inr (c, previousState), s)
          else if \<not> isValidTransition (Some previousState) targetState
          then (Inl (ContractTransitionError INVALID_TRANSITION), s)
          else if \<not> isActorAllowedForTransition targetState (Some previousState) (ci_actorType inp)
          then (Inl (ContractTransitionError FORBIDDEN_ACTOR), s)
          else
            (case plan_transition E inp c s of
               Inl e \<Rightarrow> (Inl e, s)
             | Inr (setFields, vehicleEffect) \<Rightarrow>
                 (case (if truthy (ci_actorUserId inp)
                        then map_sum id Some (contract_oid E (the (ci_actorUserId inp))) else Inr None) of
                    Inl e \<Rightarrow> (Inl e, s)
                  | Inr actor \<Rightarrow>
                      let entry = timeline_entry_of E inp c actor;
                          expectedVersion = (case ci_expectedVersion inp of
                             Some v \<Rightarrow> v | None \<Rightarrow> eff_version (c_version c))
                      in
                      (case find_one_and_update
                             (\<lambda>d. c_id d = c_id c \<and> version_matches (c_version d) expectedVersion)
                             (\<lambda>d. (setFields d)\<lparr>c_version := inc_version (c_version d),
                                                c_timeline := c_timeline d @ [entry]\<rparr>)
                             (cd_contracts s) of
                         (None, _) \<Rightarrow> (Inl ContractConcurrencyError, s)
                       | (Some updated, cs') \<Rightarrow>
                           let s1 = s\<lparr>cd_contracts := cs', cd_vehicles := vehicleEffect (cd_vehicles s)\<rparr> in
                           (case log_audit_event E None (contract_event inp c) (cd_audits s1) of
                              None \<Rightarrow> (Inl ContractAuditFailure, s1)
                            | Some rows \<Rightarrow> (Inr (updated, previousState), s1\<lparr>cd_audits := rows\<rparr>))))))"

fun contract_catch :: "(contract_error + 'a) \<times> cdb \<Rightarrow> (contract_error + 'a) \<times> cdb" where
  "contract_catch (Inl (ContractDriverFailure d), s) =
     (Inl (if write_conflict d then ContractConcurrencyError else ContractDriverFailure d), s)"
| "contract_catch p = p"

definition transitionHirePurchaseContract ::
  "env \<Rightarrow> contract_input \<Rightarrow> cdb \<Rightarrow> (contract_error + contract \<times> contract_status) \<times> cdb" where
  "transitionHirePurchaseContract E inp s =
     (if js_trim (ci_reason inp) = [] then (Inl (ContractTransitionError REASON_REQUIRED), s)
      else case contract_oid E (ci_contractId inp) of
        Inl e \<Rightarrow> (Inl e, s)
      | Inr cid \<Rightarrow>
          contract_catch
            (run_in_session cdb_rollback (map_option ContractDriverFailure (commit_fault E))
               (ci_session inp) (contract_body E inp cid) s))"

subsection \<open>Look-ups and the shape of a move\<close>

definition unique_contracts :: "cdb \<Rightarrow> bool" where
  "unique_contracts s \<longleftrightarrow> distinct (map c_id (cd_contracts s)) \<and> distinct (map v_id (cd_vehicles s))"

definition find_contract :: "cdb \<Rightarrow> oid \<Rightarrow> contract option" where
  "find_contract s x = find_one (\<lambda>c. c_id c = x) (cd_contracts s)"

definition find_cvehicle :: "cdb \<Rightarrow> oid \<Rightarrow> vehicle option" where
  "find_cvehicle s x = find_one (\<lambda>v. v_id v = x) (cd_vehicles s)"

definition contract_version :: "cdb \<Rightarrow> oid \<Rightarrow> nat" where
  "contract_version s x = (case find_contract s x of None \<Rightarrow> 0 | Some c \<Rightarrow> eff_version (c_version c))"

text \<open>The writes of one effective transition.\<close>

definition contract_writes ::
  "env \<Rightarrow> contract_input \<Rightarrow> contract \<Rightarrow> contract \<Rightarrow> cdb \<Rightarrow> cdb \<Rightarrow> bool" where
  "contract_writes E inp c d s s' \<longleftrightarrow>
     (\<exists>setFields vehicleEffect actor expected.
        find_contract s (ci_contractId inp) = Some c
        \<and> c_status c \<noteq> ci_targetState inp
        \<and> ci_targetState inp \<in> set (VALID_TRANSITIONS (c_status c))
        \<and> isActorAllowedForTransition (ci_targetState inp) (Some (c_status c)) (ci_actorType inp)
        \<and> plan_transition E inp c s = Inr (setFields, vehicleEffect)
        \<and> (\<forall>v. ci_expectedVersion inp = Some v \<longrightarrow> expected = v)
        \<and> eff_version (c_version c) = expected
        \<and> d = (setFields c)\<lparr>c_version := Some (Suc expected),
                 c_timeline := c_timeline c @ [timeline_entry_of E inp c actor]\<rparr>
        \<and> cd_contracts s' = update_one (\<lambda>e. c_id e = c_id c)
              (\<lambda>e. (setFields e)\<lparr>c_version := inc_version (c_version e),
                 c_timeline := c_timeline e @ [timeline_entry_of E inp c actor]\<rparr>) (cd_contracts s)
        \<and> cd_vehicles s' = vehicleEffect (cd_vehicles s)
        \<and> cd_users s' = cd_users s)"

definition contract_same :: "cdb \<Rightarrow> cdb \<Rightarrow> bool" where
  "contract_same s s' \<longleftrightarrow> cd_contracts s' = cd_contracts s \<and> cd_vehicles s' = cd_vehicles s
     \<and> cd_users s' = cd_users s"

lemma plan_transition_fields:
  assumes "plan_transition E inp c s = Inr (f, g)"
  shows "c_id (f d) = c_id d" "c_status (f d) = ci_targetState inp" "c_version (f d) = c_version d"
    "c_timeline (f d) = c_timeline d" "c_driverUserId (f d) = c_driverUserId d"
    "c_totalPaidNgn (f d) = c_totalPaidNgn d"
  using assms
  by (auto simp: plan_transition_def plan_vehicle_assigned_def plan_activation_def
      plan_restructure_def precondition_failed_def Let_def
      split: if_splits option.splits sum.splits)

lemma plan_transition_vehicle_ids:
  assumes "plan_transition E inp c s = Inr (f, g)"
  shows "map v_id (g vs) = map v_id vs"
  using assms
  by (auto simp: plan_transition_def plan_vehicle_assigned_def plan_activation_def
      plan_restructure_def precondition_failed_def Let_def update_one_keys
      split: if_splits option.splits sum.splits)

lemma guarded_update:
  assumes "distinct (map k ds)" and "find_one (\<lambda>d. k d = x) ds = Some d"
    and "find_one_and_update (\<lambda>e. k e = k d \<and> Q e) f ds = (Some u, ds')"
  shows "Q d \<and> u = f d \<and> ds' = update_one (\<lambda>e. k e = k d) f ds"
proof -
  have kx: "k d = x" using find_one_SomeD [OF assms(2)] by simp
  have fk: "find_one (\<lambda>e. k e = k d) ds = Some d" using assms(2) kx by simp
  have g: "find_one (\<lambda>e. k e = k d \<and> Q e) ds = (if Q d then Some d else None)"
    using find_key_guarded [OF assms(1), of "k d" Q] fk by simp
  with assms(3) have Q: "Q d" and u: "u = f d"
    and ds': "ds' = update_one (\<lambda>e. k e = k d \<and> Q e) f ds"
    by (auto simp: find_one_and_update_def split: option.splits if_splits)
  have "update_one (\<lambda>e. k e = k d \<and> Q e) f ds = update_one (\<lambda>e. k e = k d) f ds"
    using assms(1) fk Q
  proof (induction ds)
    case (Cons e ds)
    then show ?case by (cases "k e = k d") auto
  qed simp
  with Q u ds' show ?thesis by simp
qed

lemma contract_body_cases:
  assumes "unique_contracts s" and "contract_body E inp (ci_contractId inp) s = (r, s')"
  shows "(\<exists>e. r = Inl e \<and> s' = s)
    \<or> (\<exists>c. r = Inr (c, c_status c) \<and> s' = s \<and> c_status c = ci_targetState inp
          \<and> find_contract s (ci_contractId inp) = Some c)
    \<or> (\<exists>c d. contract_writes E inp c d s s'
          \<and> (r = Inl ContractAuditFailure \<or> r = Inr (d, c_status c)))"
proof (cases "find_one (\<lambda>c. c_id c = ci_contractId inp) (cd_contracts s)")
  case None
  with assms(2) show ?thesis by (auto simp: contract_body_def)
next
  case (Some c)
  let ?to = "ci_targetState inp"
  let ?actor = "if truthy (ci_actorUserId inp)
      then map_sum id Some (contract_oid E (the (ci_actorUserId inp))) else Inr None"
  show ?thesis
  proof (cases "c_status c = ?to \<or> \<not> isValidTransition (Some (c_status c)) ?to
      \<or> \<not> isActorAllowedForTransition ?to (Some (c_status c)) (ci_actorType inp)
      \<or> (\<exists>e. plan_transition E inp c s = Inl e) \<or> (\<exists>e. ?actor = Inl e)")
    case True
    with assms(2) Some show ?thesis
      by (auto simp: contract_body_def Let_def find_contract_def split: if_splits sum.splits)
  next
    case False
    then obtain f g actor where plan: "plan_transition E inp c s = Inr (f, g)"
      and actor: "?actor = Inr actor"
      by (metis old.sum.exhaust surj_pair)
    let ?expected = "case ci_expectedVersion inp of Some v \<Rightarrow> v | None \<Rightarrow> eff_version (c_version c)"
    let ?upd = "\<lambda>d. (f d)\<lparr>c_version := inc_version (c_version d),
        c_timeline := c_timeline d @ [timeline_entry_of E inp c actor]\<rparr>"
    obtain u cs' where fu: "find_one_and_update
        (\<lambda>d. c_id d = c_id c \<and> version_matches (c_version d) ?expected) ?upd (cd_contracts s) = (u, cs')"
      by (cases "find_one_and_update
        (\<lambda>d. c_id d = c_id c \<and> version_matches (c_version d) ?expected) ?upd (cd_contracts s)")
    show ?thesis
    proof (cases u)
      case None
      with False plan actor fu Some assms(2) show ?thesis
        by (auto simp: contract_body_def Let_def)
    next
      case (Some d)
      have "version_matches (c_version c) ?expected \<and> d = ?upd c
          \<and> cs' = update_one (\<lambda>e. c_id e = c_id c) ?upd (cd_contracts s)"
        by (rule guarded_update [where k = c_id])
           (use assms(1) \<open>find_one _ _ = Some c\<close> fu Some in \<open>auto simp: unique_contracts_def\<close>)
      then have v: "eff_version (c_version c) = ?expected" and d: "d = ?upd c"
        and cs': "cs' = update_one (\<lambda>e. c_id e = c_id c) ?upd (cd_contracts s)"
        by (auto simp: version_matches_iff)
      have "cd_contracts s' = cs' \<and> cd_vehicles s' = g (cd_vehicles s) \<and> cd_users s' = cd_users s
          \<and> (r = Inl ContractAuditFailure \<or> r = Inr (d, c_status c))"
        using False plan actor fu Some \<open>find_one _ _ = Some c\<close> assms(2)
        by (auto simp: contract_body_def Let_def split: option.splits)
      moreover have "inc_version (c_version c) = Some (Suc ?expected)"
        by (simp add: inc_version_def v)
      ultimately have "contract_writes E inp c d s s'"
        unfolding contract_writes_def
        using False plan v d cs' \<open>find_one _ _ = Some c\<close>
        by (intro exI [of _ f] exI [of _ g] exI [of _ actor] exI [of _ ?expected])
           (auto simp: find_contract_def isValidTransition_def)
      with \<open>_ \<and> _ \<and> _ \<and> (r = _ \<or> r = _)\<close> show ?thesis by blast
    qed
  qed
qed

lemma contract_same_refl [simp]: "contract_same s s"
  by (simp add: contract_same_def)

lemma contract_same_rollback [simp]: "contract_same s (cdb_rollback s s1)"
  by (simp add: contract_same_def cdb_rollback_def)

lemma contract_catch_Inr: "contract_catch p = (Inr a, s) \<longleftrightarrow> p = (Inr a, s)"
  by (cases p rule: contract_catch.cases) auto

lemma snd_contract_catch [simp]: "snd (contract_catch p) = snd p"
  by (cases p rule: contract_catch.cases) auto

text \<open>Every call of the service ends in one of three ways.\<close>

lemma transition_contract_cases:
  assumes "unique_contracts s" and "transitionHirePurchaseContract E inp s = (r, s')"
  obtains (failed) e where "r = Inl e" and "contract_same s s'"
  | (unchanged) c where "r = Inr (c, c_status c)" and "s' = s" and "c_status c = ci_targetState inp"
      and "find_contract s (ci_contractId inp) = Some c"
  | (torn) c d e where "r = Inl e" and "ci_session inp" and "contract_writes E inp c d s s'"
  | (moved) c d where "r = Inr (d, c_status c)" and "contract_writes E inp c d s s'"
proof -
  let ?fault = "map_option ContractDriverFailure (commit_fault E)"
  let ?body = "contract_body E inp (ci_contractId inp)"
  consider "s' = s" "\<exists>e. r = Inl e"
    | "contract_catch (run_in_session cdb_rollback ?fault (ci_session inp) ?body s) = (r, s')"
    using assms(2)
    by (auto simp: transitionHirePurchaseContract_def contract_oid_def split: if_splits)
  then show thesis
  proof cases
    case 1
    then show thesis using failed by auto
  next
    case 2
    obtain r1 s1 where b: "?body s = (r1, s1)" by (cases "?body s")
    have st: "s' = s1 \<or> s' = cdb_rollback s s1"
      using run_in_session_state [of cdb_rollback ?fault "ci_session inp" ?body s] 2 b
      by (metis insertE singletonD snd_contract_catch snd_conv)
    show thesis
    proof (cases r)
      case (Inr a)
      with 2 have "?body s = (Inr a, s')"
        by (auto simp: contract_catch_Inr dest: run_in_session_Inr)
      then show thesis
        using contract_body_cases [OF assms(1), of E inp "Inr a" s'] Inr unchanged moved by auto
    next
      case (Inl e)
      show thesis
      proof (cases "contract_same s s'")
        case True
        then show thesis using Inl failed by blast
      next
        case False
        then have s1: "s' = s1" using st by auto
        have ses: "ci_session inp"
        proof (rule ccontr)
          assume "\<not> ci_session inp"
          then have "\<exists>s2. s' = cdb_rollback s s2"
          proof -
            obtain r2 s2 where rs: "run_in_session cdb_rollback ?fault (ci_session inp) ?body s = (r2, s2)"
              by (cases "run_in_session cdb_rollback ?fault (ci_session inp) ?body s")
            with 2 have "s' = s2" by (metis snd_contract_catch snd_conv)
            moreover have "\<exists>e. r2 = Inl e"
              using 2 rs Inl by (cases r2) auto
            ultimately show ?thesis
              using rs \<open>\<not> ci_session inp\<close> by (auto dest: run_in_session_Inl_own)
          qed
          with False show False by auto
        qed
        then have "\<exists>e. r1 = Inl e"
          using 2 b Inl by (cases r1) (auto simp: run_in_session_def)
        then show thesis
          using contract_body_cases [OF assms(1) b] False s1 Inl ses torn
          by (auto simp: contract_same_def)
      qed
    qed
  qed
qed

lemma contract_writes_find:
  assumes "contract_writes E inp c d s s'"
  shows "find_contract s' x = (if x = ci_contractId inp then Some d else find_contract s x)"
    and "find_contract s (ci_contractId inp) = Some c" and "c_id c = ci_contractId inp"
    and "map c_id (cd_contracts s') = map c_id (cd_contracts s)"
    and "map v_id (cd_vehicles s') = map v_id (cd_vehicles s)"
    and "eff_version (c_version d) = Suc (eff_version (c_version c))"
    and "c_status d = ci_targetState inp"
    and "\<exists>a. c_timeline d = c_timeline c @ [timeline_entry_of E inp c a]"
proof -
  from assms obtain f g actor expected where
    fc: "find_contract s (ci_contractId inp) = Some c"
    and plan: "plan_transition E inp c s = Inr (f, g)"
    and v: "eff_version (c_version c) = expected"
    and d: "d = (f c)\<lparr>c_version := Some (Suc expected),
                 c_timeline := c_timeline c @ [timeline_entry_of E inp c actor]\<rparr>"
    and cs: "cd_contracts s' = update_one (\<lambda>e. c_id e = c_id c)
              (\<lambda>e. (f e)\<lparr>c_version := inc_version (c_version e),
                 c_timeline := c_timeline e @ [timeline_entry_of E inp c actor]\<rparr>) (cd_contracts s)"
    and vs: "cd_vehicles s' = g (cd_vehicles s)"
    by (auto simp: contract_writes_def)
  note pf = plan_transition_fields [OF plan]
  let ?upd = "\<lambda>e. (f e)\<lparr>c_version := inc_version (c_version e),
                 c_timeline := c_timeline e @ [timeline_entry_of E inp c actor]\<rparr>"
  have idc: "c_id c = ci_contractId inp"
    using fc by (auto simp: find_contract_def dest: find_one_SomeD)
  have upd: "?upd c = d" using v by (simp add: d inc_version_def)
  have keys: "c_id (?upd e) = c_id e" for e by (simp add: pf)
  show "find_contract s' x = (if x = ci_contractId inp then Some d else find_contract s x)"
  proof (cases "x = ci_contractId inp")
    case True
    have "find_contract s' x = map_option ?upd (find_contract s x)"
      unfolding find_contract_def cs True idc [symmetric]
      by (rule find_key_update_one_map [where k = c_id, OF keys])
    with True fc upd show ?thesis by simp
  next
    case False
    have "find_contract s' x = find_contract s x"
      unfolding find_contract_def cs
      by (rule find_key_update_one_other [where k = c_id]) (use False idc in \<open>auto simp: pf\<close>)
    with False show ?thesis by simp
  qed
  show "find_contract s (ci_contractId inp) = Some c" by (rule fc)
  show "c_id c = ci_contractId inp" by (rule idc)
  show "map c_id (cd_contracts s') = map c_id (cd_contracts s)"
    unfolding cs by (rule update_one_keys) (simp add: pf)
  show "map v_id (cd_vehicles s') = map v_id (cd_vehicles s)"
    unfolding vs by (rule plan_transition_vehicle_ids [OF plan])
  have "eff_version (c_version d) = Suc expected" by (simp add: d eff_version_def)
  then show "eff_version (c_version d) = Suc (eff_version (c_version c))" by (simp add: v)
  show "c_status d = ci_targetState inp" by (simp add: d pf)
  show "\<exists>a. c_timeline d = c_timeline c @ [timeline_entry_of E inp c a]" by (auto simp: d)
qed

lemma contract_writes_guards:
  assumes "contract_writes E inp c d s s'"
  shows "ci_targetState inp \<in> set (VALID_TRANSITIONS (c_status c))"
    and "isActorAllowedForTransition (ci_targetState inp) (Some (c_status c)) (ci_actorType inp)"
    and "ci_expectedVersion inp = Some v \<Longrightarrow> eff_version (c_version c) = v"
  using assms by (auto simp: contract_writes_def)

lemma contract_writes_unique:
  "contract_writes E inp c d s s' \<Longrightarrow> unique_contracts s \<Longrightarrow> unique_contracts s'"
  by (simp add: unique_contracts_def contract_writes_find)

lemma contract_same_find: "contract_same s s' \<Longrightarrow> find_contract s' x = find_contract s x"
  by (simp add: contract_same_def find_contract_def)

lemma contract_same_unique: "contract_same s s' \<Longrightarrow> unique_contracts s' = unique_contracts s"
  by (simp add: contract_same_def unique_contracts_def)

end
