(* ===== verification/Contract_Theorems.thy ===== *)
theory Contract_Theorems
  imports Contract_Service
begin

text \<open>
  What holds of hire-purchase contracts over any sequence of transitions: the optimistic
  lock, the timeline as a walk of the status table, and what single transitions imply for
  vehicles, settlement and the repayment schedule.
\<close>

subsection \<open>Runs\<close>

text \<open>A call is effective when the returned contract has another status than before.\<close>

definition run_contract ::
  "env \<times> contract_input \<Rightarrow> cdb \<Rightarrow> (contract_error + contract \<times> contract_status) \<times> cdb" where
  "run_contract op s = transitionHirePurchaseContract (fst op) (snd op) s"

definition contract_effective :: "contract \<times> contract_status \<Rightarrow> bool" where
  "contract_effective r \<longleftrightarrow> c_status (fst r) \<noteq> snd r"

lemma run_contract_unique:
  assumes "unique_contracts s"
  shows "unique_contracts (snd (run_contract op s))"
proof -
  obtain r s' where tr: "transitionHirePurchaseContract (fst op) (snd op) s = (r, s')"
    by (cases "transitionHirePurchaseContract (fst op) (snd op) s")
  from assms tr have "unique_contracts s'"
    by (rule transition_contract_cases)
       (use assms contract_writes_unique contract_same_unique in auto)
  with tr show ?thesis by (simp add: run_contract_def)
qed

lemma contract_writes_version:
  assumes "contract_writes E inp c d s s'"
  shows "contract_version s' x =
    (if x = ci_contractId inp then Suc (contract_version s x) else contract_version s x)"
  using contract_writes_find(1,2,6) [OF assms] by (simp add: contract_version_def)

lemma contract_same_version: "contract_same s s' \<Longrightarrow> contract_version s' x = contract_version s x"
  by (simp add: contract_version_def contract_same_find)

lemma run_contract_version:
  assumes "unique_contracts s"
  shows "contract_version s x \<le> contract_version (snd (run_contract op s)) x"
proof -
  obtain r s' where tr: "transitionHirePurchaseContract (fst op) (snd op) s = (r, s')"
    by (cases "transitionHirePurchaseContract (fst op) (snd op) s")
  from assms tr have "contract_version s x \<le> contract_version s' x"
    by (rule transition_contract_cases)
       (auto simp: contract_writes_version contract_same_version)
  with tr show ?thesis by (simp add: run_contract_def)
qed

lemma run_contract_moved:
  assumes "unique_contracts s" and "run_contract op s = (Inr r, s')" and "contract_effective r"
  shows "\<exists>c. r = (fst r, c_status c) \<and> contract_writes (fst op) (snd op) c (fst r) s s'"
proof -
  from assms(2) have "transitionHirePurchaseContract (fst op) (snd op) s = (Inr r, s')"
    by (simp add: run_contract_def)
  with assms(1) show ?thesis
    by (rule transition_contract_cases) (use assms(3) in \<open>auto simp: contract_effective_def\<close>)
qed

interpretation contract_lock:
  optimistic_lock run_contract contract_version "\<lambda>op. ci_contractId (snd op)"
    "\<lambda>op. ci_expectedVersion (snd op)" contract_effective unique_contracts
proof unfold_locales
  show "unique_contracts s \<Longrightarrow> unique_contracts (snd (run_contract op s))" for s op
    by (rule run_contract_unique)
  show "unique_contracts s \<Longrightarrow> contract_version s x \<le> contract_version (snd (run_contract op s)) x"
    for s op x
    by (rule run_contract_version)
  show "contract_version s (ci_contractId (snd op)) = v
      \<and> v < contract_version s' (ci_contractId (snd op))"
    if "unique_contracts s" "run_contract op s = (Inr r, s')" "contract_effective r"
      "ci_expectedVersion (snd op) = Some v" for s op r s' v
  proof -
    from run_contract_moved [OF that(1-3)] obtain c
      where w: "contract_writes (fst op) (snd op) c (fst r) s s'" by blast
    then have "contract_version s (ci_contractId (snd op)) = v"
      using contract_writes_guards(3) [OF w that(4)] contract_writes_find(2) [OF w]
      by (simp add: contract_version_def)
    with contract_writes_version [OF w] show ?thesis by simp
  qed
qed

subsection \<open>The timeline invariant\<close>

definition contract_trail :: "contract \<Rightarrow> contract_status list" where
  "contract_trail c = map t_toState (c_timeline c)"

definition contract_history_ok :: "contract \<Rightarrow> bool" where
  "contract_history_ok c \<longleftrightarrow>
     walk VALID_TRANSITIONS (PENDING_APPROVAL # contract_trail c)
     \<and> last (PENDING_APPROVAL # contract_trail c) = c_status c
     \<and> eff_version (c_version c) = length (c_timeline c)
     \<and> (\<forall>t \<in> set (c_timeline c). t_toState t = CANCELLED \<and> t_actorType t = Con_Driver
           \<longrightarrow> (\<exists>f \<in> set PRE_ACTIVATION_STATES. t_fromState t = Some f))"

definition contracts_ok :: "cdb \<Rightarrow> bool" where
  "contracts_ok s \<longleftrightarrow> unique_contracts s
     \<and> (\<forall>x c. find_contract s x = Some c \<longrightarrow> contract_history_ok c)"

lemma contract_history_step:
  assumes "contract_writes E inp c d s s'" and "contract_history_ok c"
  shows "contract_history_ok d"
proof -
  from contract_writes_find(8) [OF assms(1)] obtain a
    where tl: "c_timeline d = c_timeline c @ [timeline_entry_of E inp c a]" by blast
  let ?ss = "PENDING_APPROVAL # contract_trail c"
  have d: "PENDING_APPROVAL # contract_trail d = ?ss @ [ci_targetState inp]"
    by (simp add: contract_trail_def tl timeline_entry_of_def)
  have next_ok: "ci_targetState inp \<in> set (VALID_TRANSITIONS (last ?ss))"
    using contract_writes_guards(1) [OF assms(1)] assms(2) by (simp add: contract_history_ok_def)
  have "walk VALID_TRANSITIONS (PENDING_APPROVAL # contract_trail d)"
    unfolding d using assms(2) next_ok
    by (subst walk_snoc) (simp_all add: contract_history_ok_def)
  moreover have "last (PENDING_APPROVAL # contract_trail d) = c_status d"
    unfolding d by (simp add: contract_writes_find(7) [OF assms(1)])
  moreover have "eff_version (c_version d) = length (c_timeline d)"
    using contract_writes_find(6) [OF assms(1)] assms(2) by (simp add: tl contract_history_ok_def)
  moreover have "ci_targetState inp = CANCELLED \<Longrightarrow> c_status c \<in> set PRE_ACTIVATION_STATES"
    using contract_writes_guards(1) [OF assms(1)] by (simp add: contract_into_cancelled)
  then have "\<forall>t \<in> set (c_timeline d). t_toState t = CANCELLED \<and> t_actorType t = Con_Driver
           \<longrightarrow> (\<exists>f \<in> set PRE_ACTIVATION_STATES. t_fromState t = Some f)"
    using assms(2) by (auto simp: tl contract_history_ok_def timeline_entry_of_def)
  ultimately show ?thesis by (simp add: contract_history_ok_def)
qed

lemma run_contract_ok:
  assumes "contracts_ok s"
  shows "contracts_ok (snd (run_contract op s))"
proof -
  obtain r s' where tr: "transitionHirePurchaseContract (fst op) (snd op) s = (r, s')"
    by (cases "transitionHirePurchaseContract (fst op) (snd op) s")
  have u: "unique_contracts s" using assms by (simp add: contracts_ok_def)
  have step: "contracts_ok s'" if "contract_writes E inp c d s s'" for E inp c d
    using that assms contract_history_step [OF that] contract_writes_unique [OF that u]
      contract_writes_find(1,2) [OF that]
    by (auto simp: contracts_ok_def split: if_splits)
  from u tr have "contracts_ok s'"
    by (rule transition_contract_cases)
       (use assms step in \<open>auto simp: contracts_ok_def contract_same_find contract_same_unique\<close>)
  with tr show ?thesis by (simp add: run_contract_def)
qed

definition new_contracts :: "cdb \<Rightarrow> bool" where
  "new_contracts s \<longleftrightarrow> unique_contracts s
     \<and> (\<forall>c \<in> set (cd_contracts s). c_status c = PENDING_APPROVAL \<and> c_timeline c = []
           \<and> eff_version (c_version c) = 0)"

lemma new_contracts_ok: "new_contracts s \<Longrightarrow> contracts_ok s"
  by (auto simp: new_contracts_def contracts_ok_def contract_history_ok_def contract_trail_def
      find_contract_def dest!: find_one_SomeD)

lemma run_contracts_ok: "new_contracts s \<Longrightarrow> contracts_ok (run_seq run_contract ops s)"
  by (rule run_seq_invariant [where I = contracts_ok])
     (auto intro: run_contract_ok new_contracts_ok)

text \<open>What the shape of the table adds to a walk.\<close>

lemma contract_walk_facts:
  assumes "walk VALID_TRANSITIONS (PENDING_APPROVAL # ss)" and "st \<in> set ss"
  shows "st = CLOSED \<Longrightarrow> last ss = CLOSED"
    and "st \<in> {REPOSSESSED, CANCELLED} \<Longrightarrow> last ss \<in> {st, CLOSED}"
    and "st = CANCELLED \<Longrightarrow> ACTIVE \<notin> set ss"
proof -
  have split_facts: "(t = CLOSED \<longrightarrow> zs = []) \<and> (t \<in> {REPOSSESSED, CANCELLED} \<longrightarrow> zs = [] \<or> zs = [CLOSED])"
    if "walk VALID_TRANSITIONS (t # zs)" for t zs
    using that
    by (cases zs; cases "tl zs") (auto simp: contract_life.terminal_iff)
  obtain ys zs where ss: "ss = ys @ st # zs" using assms(2) by (meson split_list)
  have "walk VALID_TRANSITIONS (st # zs)"
    using walk_append [of VALID_TRANSITIONS "PENDING_APPROVAL # ys" "st # zs"] assms(1) ss by simp
  then show "st = CLOSED \<Longrightarrow> last ss = CLOSED"
    and "st \<in> {REPOSSESSED, CANCELLED} \<Longrightarrow> last ss \<in> {st, CLOSED}"
    using split_facts [OF \<open>walk VALID_TRANSITIONS (st # zs)\<close>] ss by auto
  assume st: "st = CANCELLED"
  have "walk VALID_TRANSITIONS ((PENDING_APPROVAL # ys) @ [CANCELLED])"
    using walk_append [of VALID_TRANSITIONS "(PENDING_APPROVAL # ys) @ [CANCELLED]" zs] assms(1) ss st
    by simp
  then have "walk VALID_TRANSITIONS (PENDING_APPROVAL # ys)
      \<and> CANCELLED \<in> set (VALID_TRANSITIONS (last (PENDING_APPROVAL # ys)))"
    by (subst (asm) walk_snoc) simp_all
  then have "walk VALID_TRANSITIONS (PENDING_APPROVAL # ys)"
    and "last (PENDING_APPROVAL # ys) \<in> set PRE_ACTIVATION_STATES"
    by (simp_all only: contract_into_cancelled)
  then have "set (PENDING_APPROVAL # ys) \<subseteq> set PRE_ACTIVATION_STATES"
    by (intro pre_activation_walk) simp_all
  moreover have "zs = [] \<or> zs = [CLOSED]"
    using split_facts [OF \<open>walk VALID_TRANSITIONS (st # zs)\<close>] st by auto
  ultimately show "ACTIVE \<notin> set ss"
    using st by (auto simp: ss PRE_ACTIVATION_STATES_def)
qed

subsection \<open>Vehicles under contract transitions\<close>

lemma contract_writes_vehicles:
  assumes "contract_writes E inp c d s s'"
  shows "ci_targetState inp = VEHICLE_ASSIGNED \<Longrightarrow>
      \<exists>vid. ci_vehicleId inp = Some vid \<and> c_vehicleId d = Some vid
        \<and> (\<exists>v. find_cvehicle s vid = Some v \<and> v_status v = Veh_Available)
        \<and> find_cvehicle s' vid = map_option (\<lambda>v. v\<lparr>v_status := Veh_Reserved\<rparr>) (find_cvehicle s vid)"
    and "find_cvehicle s' x = find_cvehicle s x
      \<or> (\<exists>v w. find_cvehicle s x = Some v \<and> find_cvehicle s' x = Some w
          \<and> v_status w \<in> {Veh_Reserved, Veh_Financed})"
    and "ci_targetState inp \<notin> {VEHICLE_ASSIGNED, ACTIVE, REPOSSESSED} \<Longrightarrow> cd_vehicles s' = cd_vehicles s"
proof -
  from assms obtain f g where plan: "plan_transition E inp c s = Inr (f, g)"
    and vs: "cd_vehicles s' = g (cd_vehicles s)"
    and d: "\<exists>n t. d = (f c)\<lparr>c_version := n, c_timeline := t\<rparr>"
    by (auto simp: contract_writes_def)
  have upd: "find_one (\<lambda>v. v_id v = y) (update_one (\<lambda>v. v_id v = y) h ws)
      = map_option h (find_one (\<lambda>v. v_id v = y) ws)" if "\<And>v. v_id (h v) = v_id v" for h y ws
    by (rule find_key_update_one_map [where k = v_id, OF that])
  show "ci_targetState inp = VEHICLE_ASSIGNED \<Longrightarrow>
      \<exists>vid. ci_vehicleId inp = Some vid \<and> c_vehicleId d = Some vid
        \<and> (\<exists>v. find_cvehicle s vid = Some v \<and> v_status v = Veh_Available)
        \<and> find_cvehicle s' vid = map_option (\<lambda>v. v\<lparr>v_status := Veh_Reserved\<rparr>) (find_cvehicle s vid)"
    using plan d
    by (auto simp: find_cvehicle_def vs plan_transition_def plan_vehicle_assigned_def Let_def upd
        precondition_failed_def contract_oid_def truthy_def split: if_splits option.splits)
  show "find_cvehicle s' x = find_cvehicle s x
      \<or> (\<exists>v w. find_cvehicle s x = Some v \<and> find_cvehicle s' x = Some w
          \<and> v_status w \<in> {Veh_Reserved, Veh_Financed})"
  proof -
    have one: "find_one (\<lambda>v. v_id v = x) (update_one (\<lambda>v. v_id v = y) h ws) = find_one (\<lambda>v. v_id v = x) ws
        \<or> (\<exists>v. find_one (\<lambda>v. v_id v = x) ws = Some v
            \<and> find_one (\<lambda>v. v_id v = x) (update_one (\<lambda>v. v_id v = y) h ws) = Some (h v))"
      if "\<And>v. v_id (h v) = v_id v" for h y ws
      using find_key_update_one_cases [where k = v_id and f = h and P = "\<lambda>v. v_id v = y", OF that] by blast
    from plan consider
        "g = id"
      | y h where "g = update_one (\<lambda>v. v_id v = y) h" "\<And>v. v_id (h v) = v_id v"
          "\<And>v. v_status (h v) \<in> {Veh_Reserved, Veh_Financed}"
      by (auto simp: plan_transition_def plan_vehicle_assigned_def plan_activation_def
          plan_restructure_def precondition_failed_def Let_def
          split: if_splits option.splits sum.splits)
    then show ?thesis
    proof cases
      case 1
      then show ?thesis by (simp add: find_cvehicle_def vs)
    next
      case (2 y h)
      then show ?thesis using one [of h y "cd_vehicles s"] by (auto simp: find_cvehicle_def vs)
    qed
  qed
  show "ci_targetState inp \<notin> {VEHICLE_ASSIGNED, ACTIVE, REPOSSESSED} \<Longrightarrow> cd_vehicles s' = cd_vehicles s"
    using plan
    by (auto simp: vs plan_transition_def plan_restructure_def precondition_failed_def Let_def
        split: if_splits option.splits)
qed

definition vehicle_taken :: "oid \<Rightarrow> cdb \<Rightarrow> bool" where
  "vehicle_taken x s \<longleftrightarrow> unique_contracts s
     \<and> (\<exists>v. find_cvehicle s x = Some v \<and> v_status v \<noteq> Veh_Available)"

lemma run_contract_vehicle_taken:
  assumes "vehicle_taken x s"
  shows "vehicle_taken x (snd (run_contract op s))"
proof -
  obtain r s' where tr: "transitionHirePurchaseContract (fst op) (snd op) s = (r, s')"
    by (cases "transitionHirePurchaseContract (fst op) (snd op) s")
  have u: "unique_contracts s" using assms by (simp add: vehicle_taken_def)
  have step: "vehicle_taken x s'" if "contract_writes E inp c d s s'" for E inp c d
    using contract_writes_vehicles(2) [OF that, of x] contract_writes_unique [OF that u] assms
    by (auto simp: vehicle_taken_def)
  have same: "vehicle_taken x s'" if "contract_same s s'"
    using that assms by (simp add: vehicle_taken_def contract_same_def unique_contracts_def find_cvehicle_def)
  from u tr have "vehicle_taken x s'"
    by (rule transition_contract_cases) (use assms step same in auto)
  with tr show ?thesis by (simp add: run_contract_def)
qed

lemma run_contracts_vehicle_taken:
  "vehicle_taken x s \<Longrightarrow> vehicle_taken x (run_seq run_contract ops s)"
  by (rule run_seq_invariant) (auto intro: run_contract_vehicle_taken)

subsection \<open>A concrete database\<close>

definition c_env :: env where
  "c_env = \<lparr> now = 0, valid_oid = (\<lambda>_. True), tamper_ok = (\<lambda>_. True), auditlog_ok = True,
             critical_cfg = None, commit_fault = None \<rparr>"

definition demo_contract :: "oid \<Rightarrow> contract_status \<Rightarrow> oid option \<Rightarrow> rat \<Rightarrow> contract" where
  "demo_contract x st vid paid =
     \<lparr> c_id = x, c_driverUserId = ''u1'', c_poolId = ''p1'', c_vehicleId = vid,
       c_totalPayableNgn = 300, c_durationWeeks = 3, c_weeklyPaymentNgn = 100, c_startDate = Some 0,
       c_status = st, c_version = Some 0, c_timeline = [], c_totalPaidNgn = paid, c_nextDueDate = None \<rparr>"

definition demo_cdb :: "contract list \<Rightarrow> vehicle_status \<Rightarrow> cdb" where
  "demo_cdb cs vst =
     \<lparr> cd_contracts = cs,
       cd_vehicles = [\<lparr> v_id = ''v1'', v_status = vst, v_fundingStatus = Fund_Open,
                       v_driverId = None, v_version = None \<rparr>],
       cd_users = [\<lparr> u_id = ''u1'', u_kycStatus = Some ''approved_stage2'', u_isKycVerified = None,
                    u_kycVerified = None, u_availableBalance = 0 \<rparr>],
       cd_audits = [] \<rparr>"

definition demo_ci :: "oid \<Rightarrow> contract_status \<Rightarrow> nat option \<Rightarrow> oid option \<Rightarrow> contract_input" where
  "demo_ci x to v vid =
     \<lparr> ci_contractId = x, ci_targetState = to, ci_actorType = Con_Admin, ci_actorUserId = None,
       ci_reason = ''ok'', ci_expectedVersion = v, ci_vehicleId = vid, ci_restructure = None,
       ci_metadata = [], ci_session = False \<rparr>"

lemmas demo_contract_defs = demo_contract_def demo_cdb_def demo_ci_def c_env_def

lemmas contract_service_defs =
  run_contract_def transitionHirePurchaseContract_def contract_body_def plan_transition_def
  plan_vehicle_assigned_def plan_activation_def plan_restructure_def precondition_failed_def
  contract_oid_def run_in_session_def log_audit_event_def truthy_def find_one_and_update_def
  version_matches_def eff_version_def inc_version_def timeline_entry_of_def vehicle_sync_skipped_def
  isValidTransition_def isActorAllowedForTransition_def isKycApproved_def terms_complete_def
  contract_event_def Let_def

lemma js_trim_ok [simp]: "js_trim ''ok'' = ''ok''"
  by (simp add: js_trim_def is_ws_def)

subsection \<open>Properties\<close>

text \<open>
  C3. The timeline of a hire-purchase contract is its true history: over any run of
  transition calls (in a transaction of their own or in a caller's, whatever their outcome)
  from new contracts, the timeline spells out a walk of the status table from
  PENDING_APPROVAL to the present status, the version counts its entries, a closed contract
  stays closed, a repossessed or cancelled one can only be closed, a cancelled one never was
  active, and a driver cancelled only before activation.
\<close>

theorem contract_timeline_is_a_walk:
  assumes "new_contracts s0" and "find_contract (run_seq run_contract ops s0) x = Some c"
  shows "walk VALID_TRANSITIONS (PENDING_APPROVAL # contract_trail c)
    \<and> last (PENDING_APPROVAL # contract_trail c) = c_status c
    \<and> eff_version (c_version c) = length (c_timeline c)
    \<and> (CLOSED \<in> set (contract_trail c) \<longrightarrow> c_status c = CLOSED)
    \<and> (\<forall>st \<in> {REPOSSESSED, CANCELLED}. st \<in> set (contract_trail c) \<longrightarrow> c_status c \<in> {st, CLOSED})
    \<and> (CANCELLED \<in> set (contract_trail c) \<longrightarrow> ACTIVE \<notin> set (contract_trail c))
    \<and> (\<forall>t \<in> set (c_timeline c). t_toState t = CANCELLED \<and> t_actorType t = Con_Driver
         \<longrightarrow> (\<exists>f \<in> set PRE_ACTIVATION_STATES. t_fromState t = Some f))"
proof -
  have ok: "contract_history_ok c"
    using run_contracts_ok [OF assms(1)] assms(2) by (auto simp: contracts_ok_def)
  then have w: "walk VALID_TRANSITIONS (PENDING_APPROVAL # contract_trail c)"
    and l: "last (PENDING_APPROVAL # contract_trail c) = c_status c"
    by (auto simp: contract_history_ok_def)
  have l': "st \<in> set (contract_trail c) \<Longrightarrow> last (contract_trail c) = c_status c" for st
    using l by (auto split: if_splits)
  show ?thesis
    using ok contract_walk_facts [OF w] l' by (auto simp: contract_history_ok_def)
qed

theorem contract_timeline_is_a_walk_witness:
  "\<exists>c. find_contract (run_seq run_contract [(c_env, demo_ci ''c1'' CANCELLED None None)]
          (demo_cdb [demo_contract ''c1'' PENDING_APPROVAL None 0] Veh_Available)) ''c1'' = Some c
     \<and> contract_trail c = [CANCELLED] \<and> ACTIVE \<notin> set (contract_trail c)"
proof -
  let ?s = "demo_cdb [demo_contract ''c1'' PENDING_APPROVAL None 0] Veh_Available"
  let ?ops = "[(c_env, demo_ci ''c1'' CANCELLED None None)]"
  have n: "new_contracts ?s"
    by (simp add: new_contracts_def unique_contracts_def demo_contract_defs eff_version_def)
  obtain c where c: "find_contract (run_seq run_contract ?ops ?s) ''c1'' = Some c"
      "contract_trail c = [CANCELLED]"
    by (simp add: contract_service_defs demo_contract_defs find_contract_def contract_trail_def)
  with contract_timeline_is_a_walk [OF n c(1)] show ?thesis by auto
qed

text \<open>
   No lost update on contracts: once a call that named version \<open>v\<close> has moved a contract,
  no later call naming \<open>v\<close> moves it, whatever transitions happened in between.
\<close>

theorem contract_no_lost_update:
  assumes "unique_contracts s"
    and "transitionHirePurchaseContract E inp s = (Inr (d1, p1), s')" and "c_status d1 \<noteq> p1"
    and "ci_expectedVersion inp = Some v" and "ci_expectedVersion inp2 = Some v"
    and "ci_contractId inp2 = ci_contractId inp"
    and "transitionHirePurchaseContract E2 inp2 (run_seq run_contract ops s') = (Inr (d2, p2), s'')"
  shows "c_status d2 = p2"
  using contract_lock.no_lost_update [of s "(E, inp)" "(d1, p1)" s' v "(E2, inp2)" ops "(d2, p2)" s''] assms
  by (simp add: run_contract_def contract_effective_def)

theorem contract_no_lost_update_witness:
  "\<exists>d1 s' d2 p2 s''.
      transitionHirePurchaseContract c_env (demo_ci ''c1'' APPROVED (Some 0) None)
        (demo_cdb [demo_contract ''c1'' PENDING_APPROVAL None 0] Veh_Available) = (Inr (d1, PENDING_APPROVAL), s')
      \<and> transitionHirePurchaseContract c_env (demo_ci ''c1'' APPROVED (Some 0) None) s' = (Inr (d2, p2), s'')
      \<and> c_status d2 = p2"
proof -
  let ?s = "demo_cdb [demo_contract ''c1'' PENDING_APPROVAL None 0] Veh_Available"
  let ?i = "demo_ci ''c1'' APPROVED (Some 0) None"
  obtain d1 s' where a: "transitionHirePurchaseContract c_env ?i ?s = (Inr (d1, PENDING_APPROVAL), s')"
      "c_status d1 = APPROVED" "cd_contracts s' = [d1]" "c_id d1 = ''c1''"
    by (simp add: contract_service_defs demo_contract_defs)
  obtain d2 p2 s'' where b: "transitionHirePurchaseContract c_env ?i s' = (Inr (d2, p2), s'')"
    by (simp add: contract_service_defs demo_contract_defs a)
  have "c_status d2 = p2"
    by (rule contract_no_lost_update [of ?s c_env ?i d1 PENDING_APPROVAL s' 0 ?i c_env "[]" d2 p2 s''])
       (use a b in \<open>simp_all add: unique_contracts_def demo_contract_defs\<close>)
  with a b show ?thesis by blast
qed

text \<open>
  C4.  A vehicle goes to one contract: after an effective assignment of a vehicle no later
  assignment of it takes effect, on any contract and after any run of contract transitions.
  Cancelling, completing or closing the contract in between does not change this: no contract
  transition makes the vehicle Available again.
\<close>

theorem vehicle_assigned_once:
  assumes "unique_contracts s"
    and "transitionHirePurchaseContract E inp s = (Inr (d1, p1), s')" and "p1 \<noteq> VEHICLE_ASSIGNED"
    and "ci_targetState inp = VEHICLE_ASSIGNED" and "ci_vehicleId inp = Some vid"
    and "transitionHirePurchaseContract E2 inp2 (run_seq run_contract ops s') = (Inr (d2, p2), s'')"
    and "ci_targetState inp2 = VEHICLE_ASSIGNED" and "ci_vehicleId inp2 = Some vid"
  shows "p2 = VEHICLE_ASSIGNED \<and> s'' = run_seq run_contract ops s'"
proof -
  from assms(1,2) have "vehicle_taken vid s'"
    by (rule transition_contract_cases)
       (use assms(1,3-5) contract_writes_vehicles(1) contract_writes_unique in \<open>fastforce simp: vehicle_taken_def\<close>)+
  then have taken: "vehicle_taken vid (run_seq run_contract ops s')"
    by (rule run_contracts_vehicle_taken)
  then have "unique_contracts (run_seq run_contract ops s')" by (simp add: vehicle_taken_def)
  moreover have "\<not> contract_writes E2 inp2 c d (run_seq run_contract ops s') s''" for c d
    using contract_writes_vehicles(1) [of E2 inp2 c d "run_seq run_contract ops s'" s'']
      taken assms(7,8)
    by (auto simp: vehicle_taken_def)
  ultimately show ?thesis
    using assms(6) by (elim transition_contract_cases) (use assms(7) in auto)
qed

theorem vehicle_assigned_once_witness:
  "\<exists>s' d1 d2 p2 s'' s2.
      transitionHirePurchaseContract c_env (demo_ci ''c1'' VEHICLE_ASSIGNED None (Some ''v1''))
        (demo_cdb [demo_contract ''c1'' APPROVED None 0, demo_contract ''c2'' VEHICLE_ASSIGNED None 0] Veh_Available)
        = (Inr (d1, APPROVED), s')
      \<and> run_seq run_contract [(c_env, demo_ci ''c1'' CANCELLED None None)] s' = s2
      \<and> transitionHirePurchaseContract c_env (demo_ci ''c2'' VEHICLE_ASSIGNED None (Some ''v1'')) s2
        = (Inr (d2, p2), s'')
      \<and> p2 = VEHICLE_ASSIGNED \<and> s'' = s2"
proof -
  let ?s = "demo_cdb [demo_contract ''c1'' APPROVED None 0, demo_contract ''c2'' VEHICLE_ASSIGNED None 0] Veh_Available"
  let ?i = "demo_ci ''c1'' VEHICLE_ASSIGNED None (Some ''v1'')"
  let ?j = "demo_ci ''c2'' VEHICLE_ASSIGNED None (Some ''v1'')"
  let ?ops = "[(c_env, demo_ci ''c1'' CANCELLED None None)]"
  obtain d1 s' where a: "transitionHirePurchaseContract c_env ?i ?s = (Inr (d1, APPROVED), s')"
      "cd_contracts s' = [d1, demo_contract ''c2'' VEHICLE_ASSIGNED None 0]"
      "c_id d1 = ''c1''" "c_status d1 = VEHICLE_ASSIGNED" "c_vehicleId d1 = Some ''v1''"
      "c_version d1 = Some 1"
    by (simp add: contract_service_defs demo_contract_defs)
  obtain d2 p2 s'' where b: "transitionHirePurchaseContract c_env ?j (run_seq run_contract ?ops s')
      = (Inr (d2, p2), s'')"
    by (simp add: contract_service_defs demo_contract_defs a PRE_ACTIVATION_STATES_def)
  have u: "unique_contracts ?s" by (simp add: unique_contracts_def demo_contract_defs)
  have ij: "ci_targetState ?i = VEHICLE_ASSIGNED" "ci_vehicleId ?i = Some ''v1''"
      "ci_targetState ?j = VEHICLE_ASSIGNED" "ci_vehicleId ?j = Some ''v1''"
    by (simp_all add: demo_ci_def)
  have "p2 = VEHICLE_ASSIGNED \<and> s'' = run_seq run_contract ?ops s'"
    by (rule vehicle_assigned_once [OF u a(1) _ ij(1,2) b ij(3,4)]) simp
  with a(1) b show ?thesis by blast
qed

text \<open>
   Activating an assigned contract: the driver is KYC approved, the terms are complete
  and give a schedule with one row per week, an admin or the system did it, and the
  assigned vehicle is financed and driven by the contract's driver; no other vehicle changed.
\<close>

theorem contract_activation:
  assumes "unique_contracts s"
    and "transitionHirePurchaseContract E inp s = (Inr (d, VEHICLE_ASSIGNED), s')"
    and "ci_targetState inp = ACTIVE"
  shows "find_contract s' (ci_contractId inp) = Some d \<and> c_status d = ACTIVE
    \<and> isKycApproved (find_one (\<lambda>u. u_id u = c_driverUserId d) (cd_users s))
    \<and> ci_actorType inp \<in> {Con_Admin, Con_System}
    \<and> terms_complete d
    \<and> length (buildRepaymentSchedule (contract_terms d) t) = nat \<lfloor>c_durationWeeks d\<rfloor>
    \<and> 0 < nat \<lfloor>c_durationWeeks d\<rfloor>
    \<and> (\<exists>vid. c_vehicleId d = Some vid
        \<and> find_cvehicle s' vid = map_option (\<lambda>v. v\<lparr>v_status := Veh_Financed,
              v_driverId := Some (c_driverUserId d)\<rparr>) (find_cvehicle s vid)
        \<and> (\<forall>x. x \<noteq> vid \<longrightarrow> find_cvehicle s' x = find_cvehicle s x))"
proof -
  from assms(1,2) obtain c where w: "contract_writes E inp c d s s'" and c: "c_status c = VEHICLE_ASSIGNED"
    by (rule transition_contract_cases) (use assms(3) in auto)
  from w obtain f g where plan: "plan_transition E inp c s = Inr (f, g)"
    and vs: "cd_vehicles s' = g (cd_vehicles s)" and dc: "\<exists>n tl. d = (f c)\<lparr>c_version := n, c_timeline := tl\<rparr>"
    by (auto simp: contract_writes_def)
  from plan assms(3) c have p: "plan_activation E c s = Inr (f, g)" by (simp add: plan_transition_def)
  then obtain vid where vid: "c_vehicleId c = Some vid" and f: "f = (\<lambda>c. c\<lparr>c_status := ACTIVE\<rparr>)"
    and g: "g = update_one (\<lambda>v. v_id v = vid)
                  (\<lambda>v. v\<lparr>v_status := Veh_Financed, v_driverId := Some (c_driverUserId c)\<rparr>)"
    and chk: "isKycApproved (find_one (\<lambda>u. u_id u = c_driverUserId c) (cd_users s))" "terms_complete c"
      "buildRepaymentSchedule (contract_terms c) (now E) \<noteq> []"
    by (auto simp: plan_activation_def precondition_failed_def split: if_splits option.splits)
  from f dc have d: "c_driverUserId d = c_driverUserId c" "c_vehicleId d = Some vid"
      "terms_complete d = terms_complete c" "contract_terms d = contract_terms c"
      "c_durationWeeks d = c_durationWeeks c"
    by (auto simp: vid terms_complete_def contract_terms_def)
  obtain start where st: "c_startDate c = Some start" "0 < c_totalPayableNgn c" "0 < c_weeklyPaymentNgn c"
    using chk(2) by (auto simp: terms_complete_def)
  have weeks: "0 < nat \<lfloor>c_durationWeeks c\<rfloor>"
    using chk(3) st by (auto simp: buildRepaymentSchedule_def contract_terms_def num_or_def Let_def
        split: if_splits)
  then have "length (buildRepaymentSchedule (contract_terms c) t) = nat \<lfloor>c_durationWeeks c\<rfloor>"
    using st by (simp add: buildRepaymentSchedule_def contract_terms_def num_or_def Let_def)
  moreover have "find_cvehicle s' vid = map_option (\<lambda>v. v\<lparr>v_status := Veh_Financed,
              v_driverId := Some (c_driverUserId c)\<rparr>) (find_cvehicle s vid)"
    unfolding find_cvehicle_def vs g by (rule find_key_update_one_map [where k = v_id]) simp
  moreover have "find_cvehicle s' x = find_cvehicle s x" if "x \<noteq> vid" for x
    unfolding find_cvehicle_def vs g
    by (rule find_key_update_one_other [where k = v_id]) (use that in auto)
  moreover have "ci_actorType inp \<in> {Con_Admin, Con_System}"
    using contract_writes_guards(2) [OF w] assms(3)
    by (auto simp: isActorAllowedForTransition_def split: if_splits)
  ultimately show ?thesis
    using chk d weeks contract_writes_find(1,7) [OF w] assms(3) by simp
qed

theorem contract_activation_witness:
  "\<exists>d s'. transitionHirePurchaseContract c_env (demo_ci ''c1'' ACTIVE None None)
        (demo_cdb [demo_contract ''c1'' VEHICLE_ASSIGNED (Some ''v1'') 0] Veh_Reserved)
        = (Inr (d, VEHICLE_ASSIGNED), s') \<and> c_status d = ACTIVE
      \<and> length (buildRepaymentSchedule (contract_terms d) 5) = nat \<lfloor>c_durationWeeks d\<rfloor>"
proof -
  let ?s = "demo_cdb [demo_contract ''c1'' VEHICLE_ASSIGNED (Some ''v1'') 0] Veh_Reserved"
  have sch: "buildRepaymentSchedule (contract_terms (demo_contract ''c1'' VEHICLE_ASSIGNED (Some ''v1'') 0)) 0 \<noteq> []"
    by (simp add: buildRepaymentSchedule_def contract_terms_def demo_contract_def num_or_def Let_def
        eval_nat_numeral)
  obtain d s' where a: "transitionHirePurchaseContract c_env (demo_ci ''c1'' ACTIVE None None) ?s
      = (Inr (d, VEHICLE_ASSIGNED), s')"
    using sch by (simp add: contract_service_defs demo_contract_defs)
  have u: "unique_contracts ?s" by (simp add: unique_contracts_def demo_contract_defs)
  from contract_activation [OF u a, of 5] a show ?thesis by (auto simp: demo_ci_def)
qed

text \<open>
   The two ends of an active contract.  Completion needs a repayable contract whose
  payable amount is paid in full, and touches no vehicle.  Repossession needs a delinquent or
  restructured contract and an admin; the contract's vehicle, if it has one, is Reserved
  and without driver afterwards, and otherwise the timeline entry says that the vehicle was
  skipped.
\<close>

theorem contract_ends:
  assumes "unique_contracts s"
    and "transitionHirePurchaseContract E inp s = (Inr (d, p), s')" and "c_status d \<noteq> p"
  shows "(c_status d = COMPLETED \<longrightarrow> p \<in> set REPAYABLE_STATES \<and> c_totalPayableNgn d \<le> c_totalPaidNgn d
          \<and> cd_vehicles s' = cd_vehicles s)
    \<and> (c_status d = REPOSSESSED \<longrightarrow> p \<in> {DELINQUENT, RESTRUCTURED} \<and> ci_actorType inp = Con_Admin
          \<and> (case c_vehicleId d of
               Some vid \<Rightarrow> find_cvehicle s' vid =
                 map_option (\<lambda>v. v\<lparr>v_status := Veh_Reserved, v_driverId := None\<rparr>) (find_cvehicle s vid)
             | None \<Rightarrow> cd_vehicles s' = cd_vehicles s
                 \<and> (''vehicleSyncSkipped'', MBool True) \<in> set (t_metadata (last (c_timeline d)))))"
proof -
  from assms(1,2) obtain c where w: "contract_writes E inp c d s s'" and p: "p = c_status c"
    by (rule transition_contract_cases) (use assms(3) in auto)
  from w obtain f g a where plan: "plan_transition E inp c s = Inr (f, g)"
    and vs: "cd_vehicles s' = g (cd_vehicles s)"
    and dc: "\<exists>n. d = (f c)\<lparr>c_version := n, c_timeline := c_timeline c @ [timeline_entry_of E inp c a]\<rparr>"
    by (auto simp: contract_writes_def)
  have to: "ci_targetState inp = c_status d" using contract_writes_find(7) [OF w] by simp
  have nx: "c_status d \<in> set (VALID_TRANSITIONS p)"
    using contract_writes_guards(1) [OF w] by (simp add: to p)
  have "p \<in> set REPAYABLE_STATES \<and> c_totalPayableNgn d \<le> c_totalPaidNgn d \<and> cd_vehicles s' = cd_vehicles s"
    if "c_status d = COMPLETED"
    using plan dc nx that vs
    by (auto simp: plan_transition_def to precondition_failed_def Let_def contract_into_completed
        isRepayableState_def split: if_splits option.splits)
  moreover have "p \<in> {DELINQUENT, RESTRUCTURED}" "ci_actorType inp = Con_Admin" if "c_status d = REPOSSESSED"
    using nx contract_writes_guards(2) [OF w] that
    by (auto simp: to contract_into_repossessed isActorAllowedForTransition_def split: if_splits)
  moreover have "case c_vehicleId d of
               Some vid \<Rightarrow> find_cvehicle s' vid =
                 map_option (\<lambda>v. v\<lparr>v_status := Veh_Reserved, v_driverId := None\<rparr>) (find_cvehicle s vid)
             | None \<Rightarrow> cd_vehicles s' = cd_vehicles s
                 \<and> (''vehicleSyncSkipped'', MBool True) \<in> set (t_metadata (last (c_timeline d)))"
    if "c_status d = REPOSSESSED"
  proof (cases "c_vehicleId c")
    case None
    with plan dc that vs show ?thesis
      by (auto simp: plan_transition_def to Let_def timeline_entry_of_def vehicle_sync_skipped_def)
  next
    case (Some vid)
    have "find_cvehicle s' vid
        = map_option (\<lambda>v. v\<lparr>v_status := Veh_Reserved, v_driverId := None\<rparr>) (find_cvehicle s vid)"
      using plan that vs Some
      by (auto simp: plan_transition_def to Let_def find_cvehicle_def find_key_update_one_map [where k = v_id])
    with plan dc that Some show ?thesis by (auto simp: plan_transition_def to Let_def)
  qed
  ultimately show ?thesis by blast
qed

theorem contract_ends_witness:
  "\<exists>d s'. transitionHirePurchaseContract c_env (demo_ci ''c1'' COMPLETED None None)
        (demo_cdb [demo_contract ''c1'' ACTIVE (Some ''v1'') 300] Veh_Financed) = (Inr (d, ACTIVE), s')
      \<and> c_totalPayableNgn d \<le> c_totalPaidNgn d \<and> cd_vehicles s' = cd_vehicles
          (demo_cdb [demo_contract ''c1'' ACTIVE (Some ''v1'') 300] Veh_Financed)"
proof -
  let ?s = "demo_cdb [demo_contract ''c1'' ACTIVE (Some ''v1'') 300] Veh_Financed"
  obtain d s' where a: "transitionHirePurchaseContract c_env (demo_ci ''c1'' COMPLETED None None) ?s
      = (Inr (d, ACTIVE), s')" "c_status d = COMPLETED"
    by (simp add: contract_service_defs demo_contract_defs)
  have u: "unique_contracts ?s" by (simp add: unique_contracts_def demo_contract_defs)
  from contract_ends [OF u a(1)] a show ?thesis by auto
qed

text \<open>
   The schedule of a contract: one row per started week of the duration, every row
  splits its expected amount into a paid and a remaining part, none negative; a row is PAID
  exactly when nothing remains; payments fill the rows in order; altogether the rows
  expect the weekly amount each, the last one at most what is left of the payable amount, and
  they account for every naira paid, up to the amount expected.
\<close>

theorem repayment_schedule_correct:
  assumes "st_startDate c = Some start"
    and w: "w = clampToNonNegative (num_or (st_weeklyPaymentNgn c) 0)" "0 < w"
    and n: "n = nat \<lfloor>st_durationWeeks c\<rfloor>" "0 < n"
    and p: "p = clampToNonNegative (num_or (st_totalPayableNgn c) 0)" "0 < p"
  shows "length (buildRepaymentSchedule c t) = n
    \<and> (\<forall>i \<in> set (buildRepaymentSchedule c t). row_ok t w i)
    \<and> sorted_wrt (\<lambda>i j. si_paidAmountNgn j > 0 \<longrightarrow> si_remainingAmountNgn i = 0)
        (buildRepaymentSchedule c t)
    \<and> (\<Sum>i\<leftarrow>buildRepaymentSchedule c t. si_expectedAmountNgn i)
        = w * of_nat (n - 1) + max 0 (min w (p - w * of_nat (n - 1)))
    \<and> (\<Sum>i\<leftarrow>buildRepaymentSchedule c t. si_paidAmountNgn i)
        = min (clampToNonNegative (num_or (st_totalPaidNgn c) 0))
            (\<Sum>i\<leftarrow>buildRepaymentSchedule c t. si_expectedAmountNgn i)"
proof -
  let ?r = "clampToNonNegative (num_or (st_totalPaidNgn c) 0)"
  have fl: "nat (max 0 \<lfloor>st_durationWeeks c\<rfloor>) = n" using n by simp
  have b: "buildRepaymentSchedule c t = schedule_loop start t w p 0 n ?r"
    using assms fl by (simp add: buildRepaymentSchedule_def Let_def)
  obtain k where k: "n = Suc k" using n(2) by (cases n) auto
  have r0: "0 \<le> ?r" and w0: "0 \<le> w" using w by simp_all
  have "(\<Sum>i\<leftarrow>buildRepaymentSchedule c t. si_expectedAmountNgn i)
        = w * of_nat (n - 1) + max 0 (min w (p - w * of_nat (n - 1)))"
    using schedule_loop_sum_expected [OF w0, of start t p 0 k ?r]
    by (simp add: b k expected_amount_def max.commute del: schedule_loop.simps)
  then show ?thesis
    using schedule_loop_rows [OF r0 w0] schedule_loop_fills_in_order [OF r0 w0]
      schedule_loop_sum_paid [OF r0 w0]
    by (simp add: b del: schedule_loop.simps)
qed

theorem repayment_schedule_correct_witness:
  "(\<Sum>i\<leftarrow>buildRepaymentSchedule \<lparr> st_startDate = Some 0, st_weeklyPaymentNgn = Fin 100,
       st_durationWeeks = 3, st_totalPaidNgn = Fin 150, st_totalPayableNgn = Fin 250 \<rparr> 0.
       si_expectedAmountNgn i) = 250"
proof -
  let ?c = "\<lparr> st_startDate = Some 0, st_weeklyPaymentNgn = Fin 100,
       st_durationWeeks = 3, st_totalPaidNgn = Fin 150, st_totalPayableNgn = Fin 250 \<rparr>"
  have "100 = clampToNonNegative (num_or (st_weeklyPaymentNgn ?c) 0)"
    and "3 = nat \<lfloor>st_durationWeeks ?c\<rfloor>" and "250 = clampToNonNegative (num_or (st_totalPayableNgn ?c) 0)"
    by (simp_all add: num_or_def)
  from repayment_schedule_correct [of ?c 0, OF _ this(1) _ this(2) _ this(3), of 0]
  show ?thesis by simp
qed

end
