(* ===== verification/Repayment_Service.thy ===== *)
theory Repayment_Service
  imports Allocation_Theorems Contract_Theorems
begin

text \<open>
  The repayment service of \<open>lib/repayments/repayment-engine.service.ts\<close>: applying a confirmed
  payment, reversing one, the arrears report, the balance check and the balance repair, on
  the collections they read and write.
\<close>

subsection \<open>Documents\<close>

datatype payment_status = Pay_Pending | Pay_Confirmed | Pay_Failed

record driver_payment =
  p_id :: oid
  p_contractId :: oid
  p_driverUserId :: oid
  p_amountNgn :: rat
  p_appliedAmountNgn :: rat
  p_paystackRef :: string
  p_status :: payment_status
  p_confirmedAt :: "time option"
  p_metadata :: "(string \<times> meta) list"
  p_allocationBreakdown :: "breakdown option"

record payment_allocation =
  al_paymentId :: oid
  al_contractId :: oid
  al_driverUserId :: oid
  al_gatewayRef :: string
  al_amountNgn :: rat
  al_acceptedAmountNgn :: rat
  al_excessAmountNgn :: rat
  al_arrearsNgn :: rat
  al_currentInstallmentNgn :: rat
  al_feesNgn :: rat
  al_principalNgn :: rat
  al_installmentCredits :: "(nat \<times> rat) list"
  al_remainingBalanceAfterNgn :: rat
  al_nextDueDateAfter :: "time option"

datatype reversal_status = Rev_Pending | Rev_Applied | Rev_Failed

datatype reversal_reason =
  PROVIDER_CHARGEBACK | ADMIN_CORRECTION | DUPLICATE_PAYMENT | TEST_PAYMENT | OTHER_REASON

record payment_reversal =
  rv_id :: oid
  rv_originalPaymentId :: oid
  rv_contractId :: oid
  rv_driverUserId :: oid
  rv_reversedAmountNgn :: rat
  rv_reason :: reversal_reason
  rv_notes :: string
  rv_initiatedBy :: oid
  rv_status :: reversal_status
  rv_appliedAt :: "time option"

record money_transaction =
  tx_userId :: oid
  tx_type :: string
  tx_amount :: rat
  tx_relatedId :: string
  tx_gatewayReference :: string
  tx_metadata :: "(string \<times> meta) list"

text \<open>
  The \<open>enum\<close> validator on the \<open>type\<close> path of the Transaction schema; \<open>Transaction.create\<close>
  throws a validation error for any other value.
\<close>

definition TRANSACTION_TYPES :: "string list" where
  "TRANSACTION_TYPES =
     [''investment'', ''loan_disbursement'', ''repayment'', ''deposit'', ''withdrawal'', ''return'',
      ''pool_investment'', ''wallet_funding'', ''wallet_debit'', ''down_payment'']"

record rdb =
  rb_core :: cdb
  rb_payments :: "driver_payment list"
  rb_allocations :: "payment_allocation list"
  rb_reversals :: "payment_reversal list"
  rb_transactions :: "money_transaction list"

text \<open>As in \<open>Domain_Services\<close>: every write but that of an audit row is in the session of the transaction.\<close>

definition rdb_rollback :: "rdb \<Rightarrow> rdb \<Rightarrow> rdb" where
  "rdb_rollback s s' = s\<lparr>rb_core := cdb_rollback (rb_core s) (rb_core s')\<rparr>"

datatype repay_error =
  GatewayRefRequired | ReversalNoteRequired | InvalidIdentifier | PaymentNotFound | ContractNotFound
| NotRepayable contract_status | InvalidVerifiedAmount | AlreadySettled
| NotConfirmed payment_status | NothingApplied | AlreadyReversed
| DuplicateKeyError | ValidationError
| RepayContractError contract_error | RepayDriverFailure driver_error | RepayAuditFailure

definition create_transaction ::
  "money_transaction \<Rightarrow> money_transaction list \<Rightarrow> repay_error + money_transaction list" where
  "create_transaction tx txs =
     (if tx_type tx \<in> set TRANSACTION_TYPES then Inr (txs @ [tx]) else Inl ValidationError)"

subsection \<open>Applying a payment\<close>

record apply_input =
  pi_verifiedAmountNgn :: jsnum
  pi_channel :: "string option"
  pi_metadata :: "(string \<times> meta) list"

record apply_result =
  ap_alreadyProcessed :: bool
  ap_acceptedAmountNgn :: rat
  ap_excessAmountNgn :: rat
  ap_arrearsNgn :: rat
  ap_currentInstallmentNgn :: rat
  ap_feesNgn :: rat
  ap_principalNgn :: rat
  ap_remainingBalanceAfterNgn :: rat
  ap_nextDueDateAfter :: "time option"
  ap_contractCompleted :: bool

definition existing_result :: "payment_allocation \<Rightarrow> apply_result" where
  "existing_result a =
     \<lparr> ap_alreadyProcessed = True, ap_acceptedAmountNgn = al_acceptedAmountNgn a,
       ap_excessAmountNgn = al_excessAmountNgn a, ap_arrearsNgn = al_arrearsNgn a,
       ap_currentInstallmentNgn = al_currentInstallmentNgn a, ap_feesNgn = al_feesNgn a,
       ap_principalNgn = al_principalNgn a,
       ap_remainingBalanceAfterNgn = al_remainingBalanceAfterNgn a,
       ap_nextDueDateAfter = al_nextDueDateAfter a, ap_contractCompleted = False \<rparr>"

definition settled_result :: "apply_input \<Rightarrow> apply_result" where
  "settled_result inp =
     \<lparr> ap_alreadyProcessed = True, ap_acceptedAmountNgn = 0,
       ap_excessAmountNgn = clamp_js (pi_verifiedAmountNgn inp), ap_arrearsNgn = 0,
       ap_currentInstallmentNgn = 0, ap_feesNgn = 0, ap_principalNgn = 0,
       ap_remainingBalanceAfterNgn = 0, ap_nextDueDateAfter = None, ap_contractCompleted = True \<rparr>"

definition result_of ::
  "bool \<Rightarrow> allocate_result \<Rightarrow> rat \<Rightarrow> time option \<Rightarrow> bool \<Rightarrow> apply_result" where
  "result_of already r remaining due completed =
     \<lparr> ap_alreadyProcessed = already, ap_acceptedAmountNgn = r_accepted r,
       ap_excessAmountNgn = r_excess r, ap_arrearsNgn = b_arrears (r_breakdown r),
       ap_currentInstallmentNgn = b_current (r_breakdown r), ap_feesNgn = b_fees (r_breakdown r),
       ap_principalNgn = b_principal (r_breakdown r), ap_remainingBalanceAfterNgn = remaining,
       ap_nextDueDateAfter = due, ap_contractCompleted = completed \<rparr>"

definition allocation_doc ::
  "driver_payment \<Rightarrow> contract \<Rightarrow> string \<Rightarrow> rat \<Rightarrow> allocate_result \<Rightarrow> rat \<Rightarrow> time option \<Rightarrow> payment_allocation" where
  "allocation_doc p c ref verified r remaining due =
     \<lparr> al_paymentId = p_id p, al_contractId = c_id c, al_driverUserId = p_driverUserId p,
       al_gatewayRef = ref, al_amountNgn = verified, al_acceptedAmountNgn = r_accepted r,
       al_excessAmountNgn = r_excess r, al_arrearsNgn = b_arrears (r_breakdown r),
       al_currentInstallmentNgn = b_current (r_breakdown r), al_feesNgn = b_fees (r_breakdown r),
       al_principalNgn = b_principal (r_breakdown r),
       al_installmentCredits = b_credits (r_breakdown r),
       al_remainingBalanceAfterNgn = remaining, al_nextDueDateAfter = due \<rparr>"

text \<open>Object spread: later keys win.\<close>

definition meta_merge :: "(string \<times> meta) list \<Rightarrow> (string \<times> meta) list \<Rightarrow> (string \<times> meta) list" where
  "meta_merge old new = filter (\<lambda>(k, _). k \<notin> set (map fst new)) old @ new"

definition confirm_payment ::
  "env \<Rightarrow> apply_input \<Rightarrow> rat \<Rightarrow> allocate_result \<Rightarrow> driver_payment \<Rightarrow> driver_payment" where
  "confirm_payment E inp verified r p =
     p\<lparr>p_amountNgn := verified, p_appliedAmountNgn := r_accepted r, p_status := Pay_Confirmed,
       p_confirmedAt := Some (now E),
       p_metadata := meta_merge (meta_merge (p_metadata p) (pi_metadata inp))
          [(''channel'', case pi_channel inp of None \<Rightarrow> MNull | Some ch \<Rightarrow> MStr ch),
           (''excessAmountNgn'', MNum (r_excess r))],
       p_allocationBreakdown := Some (r_breakdown r)\<rparr>"

definition excess_transaction :: "driver_payment \<Rightarrow> contract \<Rightarrow> string \<Rightarrow> rat \<Rightarrow> money_transaction" where
  "excess_transaction p c ref excess =
     \<lparr> tx_userId = p_driverUserId p, tx_type = ''wallet_funding'', tx_amount = excess,
       tx_relatedId = c_id c, tx_gatewayReference = ref @ ''_excess'',
       tx_metadata = [(''source'', MStr ''repayment_excess''), (''paymentId'', MStr (p_id p))] \<rparr>"

text \<open>Excess goes to the driver's wallet, with a transaction row.\<close>

definition credit_excess ::
  "driver_payment \<Rightarrow> contract \<Rightarrow> string \<Rightarrow> rat \<Rightarrow> rdb \<Rightarrow> repay_error + rdb" where
  "credit_excess p c ref excess s =
     (if excess > 0 then
        (let core = (rb_core s)\<lparr>cd_users := update_one (\<lambda>u. u_id u = p_driverUserId p)
               (\<lambda>u. u\<lparr>u_availableBalance := u_availableBalance u + excess\<rparr>) (cd_users (rb_core s))\<rparr>
         in case create_transaction (excess_transaction p c ref excess) (rb_transactions s) of
              Inl e \<Rightarrow> Inl e
            | Inr txs \<Rightarrow> Inr (s\<lparr>rb_core := core, rb_transactions := txs\<rparr>))
      else Inr s)"

definition completion_input :: "contract \<Rightarrow> string \<Rightarrow> contract_input" where
  "completion_input c ref =
     \<lparr> ci_contractId = c_id c, ci_targetState = COMPLETED, ci_actorType = Con_System,
       ci_actorUserId = None,
       ci_reason = ''Final repayment installment confirmed; payable balance fully settled.'',
       ci_expectedVersion = None, ci_vehicleId = None, ci_restructure = None,
       ci_metadata = [(''gatewayRef'', MStr ref)], ci_session = True \<rparr>"

definition complete_if_settled ::
  "env \<Rightarrow> contract \<Rightarrow> string \<Rightarrow> rat \<Rightarrow> rdb \<Rightarrow> (repay_error + bool) \<times> rdb" where
  "complete_if_settled E c ref remaining s =
     (if remaining \<le> 0 \<and> c_status c \<noteq> COMPLETED then
        (case transitionHirePurchaseContract E (completion_input c ref) (rb_core s) of
           (Inl e, core) \<Rightarrow> (Inl (RepayContractError e), s\<lparr>rb_core := core\<rparr>)
         | (Inr _, core) \<Rightarrow> (Inr True, s\<lparr>rb_core := core\<rparr>))
      else (Inr False, s))"

definition repayment_event :: "string \<Rightarrow> oid \<Rightarrow> (string \<times> meta) list \<Rightarrow> audit_event" where
  "repayment_event action target m =
     \<lparr> ev_actor = None, ev_action = action, ev_targetType = ''HirePurchaseContract'',
       ev_targetId = Some target, ev_success = True, ev_meta = m \<rparr>"

definition with_audit :: "env \<Rightarrow> audit_event \<Rightarrow> 'a \<Rightarrow> rdb \<Rightarrow> (repay_error + 'a) \<times> rdb" where
  "with_audit E ev a s =
     (case log_audit_event E None ev (cd_audits (rb_core s)) of
        None \<Rightarrow> (Inl RepayAuditFailure, s)
      | Some rows \<Rightarrow> (Inr a, s\<lparr>rb_core := (rb_core s)\<lparr>cd_audits := rows\<rparr>\<rparr>))"

definition set_contract_balance :: "oid \<Rightarrow> rat \<Rightarrow> time option \<Rightarrow> rdb \<Rightarrow> rdb" where
  "set_contract_balance cid paid due s =
     s\<lparr>rb_core := (rb_core s)\<lparr>cd_contracts := update_one (\<lambda>c. c_id c = cid)
         (\<lambda>c. c\<lparr>c_totalPaidNgn := paid, c_nextDueDate := due\<rparr>) (cd_contracts (rb_core s))\<rparr>\<rparr>"

text \<open>
  What one application computes before it writes: the verified amount, the allocation, the
  new total, what remains and the next due date.
\<close>

definition verified_amount :: "apply_input \<Rightarrow> driver_payment \<Rightarrow> rat" where
  "verified_amount inp p = clamp_js (round_kobo_js (num_or (pi_verifiedAmountNgn inp) (p_amountNgn p)))"

definition outstanding :: "contract \<Rightarrow> rat" where
  "outstanding c = round_kobo (max (max (c_totalPayableNgn c) 0 - max (c_totalPaidNgn c) 0) 0)"

definition contract_allocation :: "env \<Rightarrow> contract \<Rightarrow> rat \<Rightarrow> allocate_result" where
  "contract_allocation E c verified =
     allocatePayment \<lparr> a_amount = Fin verified,
       a_schedule = buildInstallmentStates (contract_terms c) (now E),
       a_remainingBalance = Fin (outstanding c), a_approvedFees = Fin 0 \<rparr>"

definition new_total_paid :: "contract \<Rightarrow> allocate_result \<Rightarrow> rat" where
  "new_total_paid c r = round_kobo (max (c_totalPaidNgn c) 0 + r_accepted r)"

definition new_remaining :: "contract \<Rightarrow> rat \<Rightarrow> rat" where
  "new_remaining c paid = round_kobo (max (max (c_totalPayableNgn c) 0 - paid) 0)"

definition next_due :: "allocate_result \<Rightarrow> time option" where
  "next_due r = calculateNextDueDateFromSchedule (r_installments r)"

text \<open>The writes to the allocation, the contract and the payment, in this order.\<close>

definition apply_writes ::
  "env \<Rightarrow> string \<Rightarrow> apply_input \<Rightarrow> driver_payment \<Rightarrow> contract \<Rightarrow> allocate_result \<Rightarrow> rdb \<Rightarrow> rdb" where
  "apply_writes E ref inp p c r s =
     (let verified = verified_amount inp p; paid = new_total_paid c r;
          doc = allocation_doc p c ref verified r (new_remaining c paid) (next_due r);
          s1 = set_contract_balance (c_id c) paid (next_due r)
                 (s\<lparr>rb_allocations := rb_allocations s @ [doc]\<rparr>)
      in s1\<lparr>rb_payments := update_one (\<lambda>q. p_id q = p_id p) (confirm_payment E inp verified r)
                             (rb_payments s1)\<rparr>)"

definition applied_event :: "string \<Rightarrow> contract \<Rightarrow> rat \<Rightarrow> allocate_result \<Rightarrow> bool \<Rightarrow> audit_event" where
  "applied_event ref c verified r completed =
     repayment_event ''repayment.applied'' (c_id c)
       [(''gatewayRef'', MStr ref), (''verifiedAmountNgn'', MNum verified),
        (''acceptedAmountNgn'', MNum (r_accepted r)), (''excessAmountNgn'', MNum (r_excess r)),
        (''newRemainingBalanceNgn'', MNum (new_remaining c (new_total_paid c r))),
        (''contractCompleted'', MBool completed)]"

text \<open>After them: the excess, the completion of the contract, the audit event.\<close>

definition apply_finish ::
  "env \<Rightarrow> string \<Rightarrow> apply_input \<Rightarrow> driver_payment \<Rightarrow> contract \<Rightarrow> allocate_result \<Rightarrow> rdb
     \<Rightarrow> (repay_error + apply_result) \<times> rdb" where
  "apply_finish E ref inp p c r s2 =
     (let remaining = new_remaining c (new_total_paid c r) in
      case credit_excess p c ref (r_excess r) s2 of
        Inl e \<Rightarrow> (Inl e, s2)
      | Inr s3 \<Rightarrow>
          (case complete_if_settled E c ref remaining s3 of
             (Inl e, s4) \<Rightarrow> (Inl e, s4)
           | (Inr completed, s4) \<Rightarrow>
               with_audit E (applied_event ref c (verified_amount inp p) r completed)
                 (result_of False r remaining (next_due r) completed) s4))"

definition apply_body ::
  "env \<Rightarrow> string \<Rightarrow> apply_input \<Rightarrow> rdb \<Rightarrow> (repay_error + apply_result) \<times> rdb" where
  "apply_body E ref inp s =
     (case find_one (\<lambda>p. p_paystackRef p = ref) (rb_payments s) of
        None \<Rightarrow> (Inl PaymentNotFound, s)
      | Some p \<Rightarrow>
     (case find_one (\<lambda>c. c_id c = p_contractId p) (cd_contracts (rb_core s)) of
        None \<Rightarrow> (Inl ContractNotFound, s)
      | Some c \<Rightarrow>
          if \<not> isRepayableState (c_status c) then
            (if c_status c = COMPLETED \<or> c_status c = CLOSED then (Inr (settled_result inp), s)
             else (Inl (NotRepayable (c_status c)), s))
          else if verified_amount inp p \<le> 0 then (Inl InvalidVerifiedAmount, s)
          else if outstanding c \<le> 0 then (Inl AlreadySettled, s)
          else
            let r = contract_allocation E c (verified_amount inp p) in
            if find_one (\<lambda>a. al_gatewayRef a = ref) (rb_allocations s) \<noteq> None
            then (Inr (result_of True r (new_remaining c (new_total_paid c r)) (next_due r) False), s)
            else apply_finish E ref inp p c r (apply_writes E ref inp p c r s)))"

text \<open>\<open>session\<close> tells whether the caller passed a session of its own.\<close>

definition applyDriverPayment ::
  "env \<Rightarrow> bool \<Rightarrow> string \<Rightarrow> apply_input \<Rightarrow> rdb \<Rightarrow> (repay_error + apply_result) \<times> rdb" where
  "applyDriverPayment E session gatewayRef inp s =
     (let ref = js_trim gatewayRef in
      if ref = [] then (Inl GatewayRefRequired, s)
      else case find_one (\<lambda>a. al_gatewayRef a = ref) (rb_allocations s) of
        Some a \<Rightarrow> (Inr (existing_result a), s)
      | None \<Rightarrow> run_in_session rdb_rollback (map_option RepayDriverFailure (commit_fault E)) session
                  (apply_body E ref inp) s)"

subsection \<open>Reversing a payment\<close>

record reverse_input =
  ri_originalGatewayRef :: string
  ri_reason :: reversal_reason
  ri_notes :: string
  ri_initiatedByUserId :: string
  ri_newId :: oid

text \<open>
  The unique index on (payment, status) for pending and applied reversals, which both the
  insert of the pending reversal and the later change to applied have to respect.
\<close>

definition reversal_clash :: "oid \<Rightarrow> reversal_status \<Rightarrow> payment_reversal list \<Rightarrow> bool" where
  "reversal_clash pid st rs \<longleftrightarrow>
     (\<exists>r \<in> set rs. rv_originalPaymentId r = pid \<and> rv_status r = st)"

definition balance_terms :: "contract \<Rightarrow> rat \<Rightarrow> schedule_terms" where
  "balance_terms c paid = (contract_terms c)\<lparr>st_totalPaidNgn := Fin paid\<rparr>"

definition reversal_transaction :: "driver_payment \<Rightarrow> contract \<Rightarrow> string \<Rightarrow> rat \<Rightarrow> oid \<Rightarrow> money_transaction" where
  "reversal_transaction p c ref amount rid =
     \<lparr> tx_userId = p_driverUserId p, tx_type = ''repayment_reversal'', tx_amount = amount,
       tx_relatedId = c_id c, tx_gatewayReference = ref @ ''_reversal'',
       tx_metadata = [(''source'', MStr ''repayment_reversal''), (''originalPaymentId'', MStr (p_id p)),
                      (''reversalId'', MStr rid)] \<rparr>"

definition reverse_body ::
  "env \<Rightarrow> reverse_input \<Rightarrow> rdb \<Rightarrow> (repay_error + oid \<times> rat \<times> rat) \<times> rdb" where
  "reverse_body E inp s =
     (let ref = js_trim (ri_originalGatewayRef inp) in
      case find_one (\<lambda>p. p_paystackRef p = ref) (rb_payments s) of
        None \<Rightarrow> (Inl PaymentNotFound, s)
      | Some p \<Rightarrow>
          if p_status p \<noteq> Pay_Confirmed then (Inl (NotConfirmed (p_status p)), s)
          else (case find_one (\<lambda>c. c_id c = p_contractId p) (cd_contracts (rb_core s)) of
            None \<Rightarrow> (Inl ContractNotFound, s)
          | Some c \<Rightarrow>
              let reversed = max (p_appliedAmountNgn p) 0 in
              if reversed \<le> 0 then (Inl NothingApplied, s)
              else if reversal_clash (p_id p) Rev_Pending (rb_reversals s) then (Inl AlreadyReversed, s)
              else
                let rev0 = \<lparr> rv_id = ri_newId inp, rv_originalPaymentId = p_id p, rv_contractId = c_id c,
                             rv_driverUserId = p_driverUserId p, rv_reversedAmountNgn = reversed,
                             rv_reason = ri_reason inp, rv_notes = js_trim (ri_notes inp),
                             rv_initiatedBy = ri_initiatedByUserId inp, rv_status = Rev_Pending,
                             rv_appliedAt = None \<rparr>;
                    paid = round_kobo (max (c_totalPaidNgn c - reversed) 0);
                    remaining = new_remaining c paid;
                    due = calculateNextDueDateFromSchedule
                            (buildInstallmentStates (balance_terms c paid) (now E));
                    s1 = set_contract_balance (c_id c) paid due
                           (s\<lparr>rb_reversals := rb_reversals s @ [rev0]\<rparr>)
                in if reversal_clash (p_id p) Rev_Applied (rb_reversals s) then (Inl DuplicateKeyError, s1)
                   else
                     let s2 = s1\<lparr>rb_reversals := rb_reversals s
                                   @ [rev0\<lparr>rv_status := Rev_Applied, rv_appliedAt := Some (now E)\<rparr>],
                                 rb_allocations := (case find_one (\<lambda>a. al_gatewayRef a = ref) (rb_allocations s) of
                                    None \<Rightarrow> rb_allocations s | Some a \<Rightarrow> remove1 a (rb_allocations s))\<rparr>
                     in case create_transaction (reversal_transaction p c ref reversed (ri_newId inp))
                               (rb_transactions s2) of
                          Inl e \<Rightarrow> (Inl e, s2)
                        | Inr txs \<Rightarrow>
                            with_audit E
                              (repayment_event ''repayment.reversed'' (c_id c)
                                 [(''originalGatewayRef'', MStr ref), (''reversedAmountNgn'', MNum reversed),
                                  (''initiatedByUserId'', MStr (ri_initiatedByUserId inp)),
                                  (''newRemainingBalanceNgn'', MNum remaining)])
                              (ri_newId inp, reversed, remaining) (s2\<lparr>rb_transactions := txs\<rparr>)))"

definition reverseDriverPayment ::
  "env \<Rightarrow> reverse_input \<Rightarrow> rdb \<Rightarrow> (repay_error + oid \<times> rat \<times> rat) \<times> rdb" where
  "reverseDriverPayment E inp s =
     (if js_trim (ri_originalGatewayRef inp) = [] then (Inl GatewayRefRequired, s)
      else if js_trim (ri_notes inp) = [] then (Inl ReversalNoteRequired, s)
      else if \<not> valid_oid E (ri_initiatedByUserId inp) then (Inl InvalidIdentifier, s)
      else run_in_session rdb_rollback (map_option RepayDriverFailure (commit_fault E)) False
             (reverse_body E inp) s)"

subsection \<open>Reports, check and repair\<close>

definition getArrearsReport :: "env \<Rightarrow> string \<Rightarrow> rdb \<Rightarrow> repay_error + arrears_report" where
  "getArrearsReport E cid s =
     (if \<not> valid_oid E cid then Inl InvalidIdentifier
      else case find_one (\<lambda>c. c_id c = cid) (cd_contracts (rb_core s)) of
        None \<Rightarrow> Inl ContractNotFound
      | Some c \<Rightarrow> Inr (computeArrears (now E) (buildInstallmentStates (contract_terms c) (now E))))"

datatype schedule_issue =
  StartDateInvalid | WeeklyPaymentNotPositive | DurationTooShort | TotalPayableNotPositive
| TotalPaidMismatch rat rat

record schedule_check =
  sc_valid :: bool
  sc_issues :: "schedule_issue list"
  sc_balanceConsistent :: bool
  sc_storedTotalPaidNgn :: rat
  sc_derivedTotalPaidNgn :: rat

definition confirmed_payments :: "oid \<Rightarrow> rdb \<Rightarrow> driver_payment list" where
  "confirmed_payments cid s = filter (\<lambda>p. p_contractId p = cid \<and> p_status p = Pay_Confirmed) (rb_payments s)"

definition derived_total_paid :: "oid \<Rightarrow> rdb \<Rightarrow> rat" where
  "derived_total_paid cid s =
     round_kobo (foldl (\<lambda>sum p. sum + max (p_appliedAmountNgn p) 0) 0 (confirmed_payments cid s))"

definition checkContractSchedule :: "env \<Rightarrow> string \<Rightarrow> rdb \<Rightarrow> repay_error + schedule_check" where
  "checkContractSchedule E cid s =
     (if \<not> valid_oid E cid then Inl InvalidIdentifier
      else case find_one (\<lambda>c. c_id c = cid) (cd_contracts (rb_core s)) of
        None \<Rightarrow> Inl ContractNotFound
      | Some c \<Rightarrow>
          let derived = derived_total_paid (c_id c) s;
              stored = max (c_totalPaidNgn c) 0;
              consistent = (\<bar>stored - derived\<bar> < 1 / 100);
              issues = (if c_startDate c = None then [StartDateInvalid] else [])
                @ (if c_weeklyPaymentNgn c \<le> 0 then [WeeklyPaymentNotPositive] else [])
                @ (if c_durationWeeks c < 1 then [DurationTooShort] else [])
                @ (if c_totalPayableNgn c \<le> 0 then [TotalPayableNotPositive] else [])
                @ (if consistent then [] else [TotalPaidMismatch stored derived])
          in Inr \<lparr> sc_valid = (issues = []), sc_issues = issues, sc_balanceConsistent = consistent,
                   sc_storedTotalPaidNgn = stored, sc_derivedTotalPaidNgn = derived \<rparr>)"

text \<open>The repair is not in a session: an audit failure leaves the new balance in place.\<close>

definition repairContractBalance :: "env \<Rightarrow> string \<Rightarrow> rdb \<Rightarrow> (repay_error + rat) \<times> rdb" where
  "repairContractBalance E cid s =
     (if \<not> valid_oid E cid then (Inl InvalidIdentifier, s)
      else case find_one (\<lambda>c. c_id c = cid) (cd_contracts (rb_core s)) of
        None \<Rightarrow> (Inl ContractNotFound, s)
      | Some c \<Rightarrow>
          let derived = derived_total_paid cid s;
              due = calculateNextDueDateFromSchedule
                      (buildInstallmentStates (balance_terms c derived) (now E))
          in with_audit E
               (repayment_event ''repayment.balance_repaired'' cid
                  [(''derivedTotalPaidNgn'', MNum derived), (''previousTotalPaidNgn'', MNum derived)])
               derived (set_contract_balance cid derived due s))"

end
