(* ===== verification/Repayment_Theorems.thy ===== *)
theory Repayment_Theorems
  imports Repayment_Service
begin

text \<open>
  What the repayment service guarantees over any sequence of its operations: balances add
  up to the payments, a gateway reference is applied once, money is conserved; and that a
  reversal cannot succeed against the present Transaction schema.
\<close>

subsection \<open>What an application writes\<close>

lemma credit_excess_ok:
  "credit_excess p c ref x s = Inr (if x > 0
     then s\<lparr>rb_core := (rb_core s)\<lparr>cd_users := update_one (\<lambda>u. u_id u = p_driverUserId p)
               (\<lambda>u. u\<lparr>u_availableBalance := u_availableBalance u + x\<rparr>) (cd_users (rb_core s))\<rparr>,
            rb_transactions := rb_transactions s @ [excess_transaction p c ref x]\<rparr>
     else s)"
  by (simp add: credit_excess_def create_transaction_def excess_transaction_def TRANSACTION_TYPES_def Let_def)

definition apply_guards :: "string \<Rightarrow> apply_input \<Rightarrow> driver_payment \<Rightarrow> contract \<Rightarrow> rdb \<Rightarrow> bool" where
  "apply_guards ref inp p c s \<longleftrightarrow>
     find_one (\<lambda>p. p_paystackRef p = ref) (rb_payments s) = Some p
     \<and> find_one (\<lambda>c. c_id c = p_contractId p) (cd_contracts (rb_core s)) = Some c
     \<and> isRepayableState (c_status c) \<and> 0 < verified_amount inp p \<and> 0 < outstanding c
     \<and> find_one (\<lambda>a. al_gatewayRef a = ref) (rb_allocations s) = None"

lemma apply_body_cases:
  assumes "apply_body E ref inp s = (res, s')"
  obtains (refused) e where "res = Inl e" "s' = s"
  | (processed) a where "res = Inr a" "ap_alreadyProcessed a" "s' = s"
  | (written) p c r where "apply_guards ref inp p c s" "r = contract_allocation E c (verified_amount inp p)"
      "apply_finish E ref inp p c r (apply_writes E ref inp p c r s) = (res, s')"
proof (cases "find_one (\<lambda>p. p_paystackRef p = ref) (rb_payments s)")
  case None
  with assms refused show thesis by (auto simp: apply_body_def)
next
  case p: (Some p)
  show thesis
  proof (cases "find_one (\<lambda>c. c_id c = p_contractId p) (cd_contracts (rb_core s))")
    case None
    with assms p refused show thesis by (auto simp: apply_body_def)
  next
    case c: (Some c)
    let ?r = "contract_allocation E c (verified_amount inp p)"
    have body: "apply_body E ref inp s =
       (if \<not> isRepayableState (c_status c) then
            (if c_status c = COMPLETED \<or> c_status c = CLOSED then (Inr (settled_result inp), s)
             else (Inl (NotRepayable (c_status c)), s))
          else if verified_amount inp p \<le> 0 then (Inl InvalidVerifiedAmount, s)
          else if outstanding c \<le> 0 then (Inl AlreadySettled, s)
          else if find_one (\<lambda>a. al_gatewayRef a = ref) (rb_allocations s) \<noteq> None
            then (Inr (result_of True ?r (new_remaining c (new_total_paid c ?r)) (next_due ?r) False), s)
            else apply_finish E ref inp p c ?r (apply_writes E ref inp p c ?r s))"
      by (simp only: apply_body_def p c option.case Let_def)
    have sp: "ap_alreadyProcessed (settled_result inp)" "ap_alreadyProcessed (result_of True x y z b)" for x y z b
      by (simp_all add: settled_result_def result_of_def)
    show thesis
    proof (cases "isRepayableState (c_status c) \<and> 0 < verified_amount inp p \<and> 0 < outstanding c
        \<and> find_one (\<lambda>a. al_gatewayRef a = ref) (rb_allocations s) = None")
      case True
      then have "apply_guards ref inp p c s" using p c by (simp add: apply_guards_def)
      moreover have "apply_finish E ref inp p c ?r (apply_writes E ref inp p c ?r s) = (res, s')"
        using True assms by (simp add: body)
      ultimately show thesis by (rule written [OF _ refl])
    next
      case False
      then show thesis
        using assms sp by (auto simp: body split: if_splits intro: refused processed)
    qed
  qed
qed

subsection \<open>Completion leaves balances alone\<close>

definition contract_balance :: "contract \<Rightarrow> oid \<times> rat \<times> rat" where
  "contract_balance c = (c_id c, c_totalPayableNgn c, c_totalPaidNgn c)"

definition balances :: "rdb \<Rightarrow> (oid \<times> rat \<times> rat) list" where
  "balances s = map contract_balance (cd_contracts (rb_core s))"

text \<open>Two states that differ at most in contract statuses, vehicles and the audit log.\<close>

definition same_money :: "rdb \<Rightarrow> rdb \<Rightarrow> bool" where
  "same_money s s' \<longleftrightarrow> balances s' = balances s \<and> rb_payments s' = rb_payments s
     \<and> rb_allocations s' = rb_allocations s \<and> rb_reversals s' = rb_reversals s
     \<and> rb_transactions s' = rb_transactions s \<and> cd_users (rb_core s') = cd_users (rb_core s)
     \<and> (unique_contracts (rb_core s) \<longrightarrow> unique_contracts (rb_core s'))"

lemma same_money_refl [simp]: "same_money s s"
  by (simp add: same_money_def)

lemma same_money_trans: "same_money s s1 \<Longrightarrow> same_money s1 s2 \<Longrightarrow> same_money s s2"
  by (simp add: same_money_def)

lemma same_money_audit: "with_audit E ev a s = (res, s') \<Longrightarrow> same_money s s'"
  by (auto simp: with_audit_def same_money_def balances_def unique_contracts_def split: option.splits)

lemma completion_balances:
  assumes "contract_writes E inp c d core core'" and "ci_targetState inp = COMPLETED"
  shows "map contract_balance (cd_contracts core') = map contract_balance (cd_contracts core)"
proof -
  from assms(1) obtain f g a where plan: "plan_transition E inp c core = Inr (f, g)"
    and cs: "cd_contracts core' = update_one (\<lambda>e. c_id e = c_id c)
              (\<lambda>e. (f e)\<lparr>c_version := inc_version (c_version e),
                 c_timeline := c_timeline e @ [timeline_entry_of E inp c a]\<rparr>) (cd_contracts core)"
    by (auto simp: contract_writes_def)
  from plan assms(2) have "f = (\<lambda>c. c\<lparr>c_status := COMPLETED\<rparr>)"
    by (auto simp: plan_transition_def precondition_failed_def Let_def split: if_splits option.splits)
  then show ?thesis unfolding cs by (intro update_one_keys) (simp add: contract_balance_def)
qed

lemma complete_if_settled_same:
  assumes "unique_contracts (rb_core s)" and "complete_if_settled E c ref rem s = (res, s')"
  shows "same_money s s'"
proof (cases "rem \<le> 0 \<and> c_status c \<noteq> COMPLETED")
  case False
  with assms(2) show ?thesis by (auto simp: complete_if_settled_def)
next
  case True
  obtain r core where tr: "transitionHirePurchaseContract E (completion_input c ref) (rb_core s) = (r, core)"
    by (cases "transitionHirePurchaseContract E (completion_input c ref) (rb_core s)")
  have to: "ci_targetState (completion_input c ref) = COMPLETED" by (simp add: completion_input_def)
  have w: "map contract_balance (cd_contracts core) = map contract_balance (cd_contracts (rb_core s))
      \<and> cd_users core = cd_users (rb_core s) \<and> unique_contracts core"
    if "contract_writes E (completion_input c ref) c1 d (rb_core s) core" for c1 d
    using completion_balances [OF that to] contract_writes_unique [OF that assms(1)] that
    by (auto simp: contract_writes_def)
  have same: "map contract_balance (cd_contracts core) = map contract_balance (cd_contracts (rb_core s))
      \<and> cd_users core = cd_users (rb_core s) \<and> unique_contracts core"
    if "contract_same (rb_core s) core"
    using that assms(1) contract_same_unique [OF that] by (simp add: contract_same_def)
  have "map contract_balance (cd_contracts core) = map contract_balance (cd_contracts (rb_core s))
      \<and> cd_users core = cd_users (rb_core s) \<and> unique_contracts core"
    using assms(1) tr
  proof (rule transition_contract_cases)
    assume "core = rb_core s"
    then show ?thesis using assms(1) by simp
  qed (rule same w; assumption)+
  moreover have "s' = s\<lparr>rb_core := core\<rparr>"
    using assms(2) True tr by (auto simp: complete_if_settled_def split: sum.splits)
  ultimately show ?thesis by (simp add: same_money_def balances_def)
qed

text \<open>The wallet and the transaction row of the excess.\<close>

definition excess_credited :: "string \<Rightarrow> driver_payment \<Rightarrow> contract \<Rightarrow> rat \<Rightarrow> rdb \<Rightarrow> rdb" where
  "excess_credited ref p c x s =
     (if x > 0
      then s\<lparr>rb_core := (rb_core s)\<lparr>cd_users := update_one (\<lambda>u. u_id u = p_driverUserId p)
               (\<lambda>u. u\<lparr>u_availableBalance := u_availableBalance u + x\<rparr>) (cd_users (rb_core s))\<rparr>,
            rb_transactions := rb_transactions s @ [excess_transaction p c ref x]\<rparr>
      else s)"

lemma apply_finish_same:
  assumes "unique_contracts (rb_core s)" and "apply_finish E ref inp p c r s = (res, s')"
  shows "same_money (excess_credited ref p c (r_excess r) s) s'
    \<and> (\<forall>a. res = Inr a \<longrightarrow> (\<exists>completed s4.
         complete_if_settled E c ref (new_remaining c (new_total_paid c r))
           (excess_credited ref p c (r_excess r) s) = (Inr completed, s4)
         \<and> a = result_of False r (new_remaining c (new_total_paid c r)) (next_due r) completed
         \<and> cd_contracts (rb_core s') = cd_contracts (rb_core s4)
         \<and> cd_vehicles (rb_core s') = cd_vehicles (rb_core s4)))"
proof -
  let ?s3 = "excess_credited ref p c (r_excess r) s"
  let ?rem = "new_remaining c (new_total_paid c r)"
  have ce: "credit_excess p c ref (r_excess r) s = Inr ?s3"
    unfolding credit_excess_ok excess_credited_def ..
  obtain r1 s4 where c: "complete_if_settled E c ref ?rem ?s3 = (r1, s4)"
    by (cases "complete_if_settled E c ref ?rem ?s3")
  have u: "unique_contracts (rb_core ?s3)"
    using assms(1) by (simp add: excess_credited_def unique_contracts_def)
  note same1 = complete_if_settled_same [OF u c]
  show ?thesis
  proof (cases r1)
    case (Inl e)
    with assms(2) ce c have "res = Inl e" "s' = s4" by (simp_all add: apply_finish_def)
    with same1 show ?thesis by simp
  next
    case (Inr b)
    with assms(2) ce c have w: "with_audit E (applied_event ref c (verified_amount inp p) r b)
        (result_of False r ?rem (next_due r) b) s4 = (res, s')"
      by (simp add: apply_finish_def)
    have "cd_contracts (rb_core s') = cd_contracts (rb_core s4)" "cd_vehicles (rb_core s') = cd_vehicles (rb_core s4)"
      and "\<forall>a. res = Inr a \<longrightarrow> a = result_of False r ?rem (next_due r) b"
      using w by (auto simp: with_audit_def split: option.splits)
    with same_money_trans [OF same1 same_money_audit [OF w]] c Inr show ?thesis by blast
  qed
qed

subsection \<open>Amounts of an application\<close>

lemma verified_amount_kobo: "kobo (verified_amount inp p)"
  by (simp add: verified_amount_def)

definition contract_money_ok :: "oid \<times> rat \<times> rat \<Rightarrow> bool" where
  "contract_money_ok b \<longleftrightarrow> (case b of (_, pay, paid) \<Rightarrow> kobo pay \<and> kobo paid \<and> 0 \<le> paid \<and> paid \<le> pay)"

lemma application_amounts:
  assumes "contract_money_ok (contract_balance c)" and "kobo v" and "0 < v"
    and r: "r = contract_allocation E c v"
  shows "outstanding c = c_totalPayableNgn c - c_totalPaidNgn c"
    and "r_accepted r = min v (c_totalPayableNgn c - c_totalPaidNgn c)"
    and "r_accepted r + r_excess r = v" and "0 \<le> r_accepted r" and "0 \<le> r_excess r" and "kobo (r_accepted r)"
    and "new_total_paid c r = c_totalPaidNgn c + r_accepted r"
    and "new_total_paid c r \<le> c_totalPayableNgn c"
    and "new_remaining c (new_total_paid c r) = c_totalPayableNgn c - new_total_paid c r"
proof -
  have k: "kobo (c_totalPayableNgn c)" "kobo (c_totalPaidNgn c)" "0 \<le> c_totalPaidNgn c"
      "c_totalPaidNgn c \<le> c_totalPayableNgn c"
    using assms(1) by (auto simp: contract_money_ok_def contract_balance_def)
  show o: "outstanding c = c_totalPayableNgn c - c_totalPaidNgn c"
    using k by (simp add: outstanding_def round_kobo_id kobo_diff)
  have ov: "clamp_js (round_kobo_js (Fin (outstanding c))) = c_totalPayableNgn c - c_totalPaidNgn c"
    using k by (simp add: o round_kobo_id kobo_diff)
  have vv: "clamp_js (round_kobo_js (Fin v)) = v" using assms(2,3) by (simp add: round_kobo_id)
  let ?in = "\<lparr> a_amount = Fin v, a_schedule = buildInstallmentStates (contract_terms c) (now E),
       a_remainingBalance = Fin (outstanding c), a_approvedFees = Fin 0 \<rparr>"
  have r': "r = allocatePayment ?in" by (simp add: r contract_allocation_def)
  show acc: "r_accepted r = min v (c_totalPayableNgn c - c_totalPaidNgn c)"
    unfolding r' allocatePayment_accepted using ov vv by simp
  note con = allocation_conserves [of ?in, folded r', unfolded Let_def]
  show "r_accepted r + r_excess r = v" using con vv by simp
  show pos: "0 \<le> r_accepted r" and "0 \<le> r_excess r" and ka: "kobo (r_accepted r)" using con by auto
  show t: "new_total_paid c r = c_totalPaidNgn c + r_accepted r"
    using k ka by (simp add: new_total_paid_def round_kobo_id kobo_add)
  show le: "new_total_paid c r \<le> c_totalPayableNgn c" using acc t by simp
  show "new_remaining c (new_total_paid c r) = c_totalPayableNgn c - new_total_paid c r"
    using k ka t le pos by (simp add: new_remaining_def round_kobo_id kobo_diff kobo_add)
qed

subsection \<open>The balance invariant\<close>

definition applied_sum :: "oid \<Rightarrow> driver_payment list \<Rightarrow> rat" where
  "applied_sum x ps = (\<Sum>p\<leftarrow>filter (\<lambda>p. p_contractId p = x \<and> p_status p = Pay_Confirmed) ps. p_appliedAmountNgn p)"

definition money_ok :: "rdb \<Rightarrow> bool" where
  "money_ok s \<longleftrightarrow> unique_contracts (rb_core s)
     \<and> distinct (map p_id (rb_payments s)) \<and> distinct (map p_paystackRef (rb_payments s))
     \<and> (\<forall>b \<in> set (balances s). contract_money_ok b \<and> snd (snd b) = applied_sum (fst b) (rb_payments s))
     \<and> (\<forall>p \<in> set (rb_payments s). kobo (p_appliedAmountNgn p) \<and> 0 \<le> p_appliedAmountNgn p)
     \<and> (\<forall>p \<in> set (rb_payments s). p_status p = Pay_Confirmed \<longleftrightarrow>
           p_paystackRef p \<in> al_gatewayRef ` set (rb_allocations s))"

lemma money_ok_same: "same_money s s' \<Longrightarrow> money_ok s \<Longrightarrow> money_ok s'"
  by (simp add: same_money_def money_ok_def)

lemma applied_sum_update:
  assumes "distinct (map p_id ps)" and "p \<in> set ps" and "p_status p \<noteq> Pay_Confirmed"
    and "p_status (f p) = Pay_Confirmed" and "p_contractId (f p) = p_contractId p"
  shows "applied_sum x (update_one (\<lambda>q. p_id q = p_id p) f ps)
     = applied_sum x ps + (if x = p_contractId p then p_appliedAmountNgn (f p) else 0)"
  using assms(1,2)
proof (induction ps)
  case Nil
  then show ?case by simp
next
  case (Cons q ps)
  show ?case
  proof (cases "p_id q = p_id p")
    case True
    with Cons.prems have "q = p" by (auto simp: image_iff)
    with assms show ?thesis by (simp add: applied_sum_def)
  next
    case False
    with Cons show ?thesis by (auto simp: applied_sum_def)
  qed
qed

lemma update_one_unique_set:
  assumes "distinct (map k ds)" and "d \<in> set ds" and "\<And>e. k (f e) = k e"
  shows "set (update_one (\<lambda>e. k e = k d) f ds) = insert (f d) (set ds - {d})"
  using assms(1,2)
proof (induction ds)
  case Nil
  then show ?case by simp
next
  case (Cons e ds)
  show ?case
  proof (cases "k e = k d")
    case True
    with Cons.prems have "e = d" "d \<notin> set ds" by (auto simp: image_iff)
    then show ?thesis by auto
  next
    case False
    with Cons show ?thesis by auto
  qed
qed

lemma money_ok_excess: "money_ok s \<Longrightarrow> money_ok (excess_credited ref p c x s)"
  by (simp add: money_ok_def excess_credited_def balances_def unique_contracts_def)

lemma apply_writes_sel:
  "rb_payments (apply_writes E ref inp p c r s) = update_one (\<lambda>q. p_id q = p_id p)
      (confirm_payment E inp (verified_amount inp p) r) (rb_payments s)"
  "rb_allocations (apply_writes E ref inp p c r s) = rb_allocations s
      @ [allocation_doc p c ref (verified_amount inp p) r (new_remaining c (new_total_paid c r)) (next_due r)]"
  "cd_contracts (rb_core (apply_writes E ref inp p c r s)) = update_one (\<lambda>d. c_id d = c_id c)
      (\<lambda>d. d\<lparr>c_totalPaidNgn := new_total_paid c r, c_nextDueDate := next_due r\<rparr>) (cd_contracts (rb_core s))"
  "cd_vehicles (rb_core (apply_writes E ref inp p c r s)) = cd_vehicles (rb_core s)"
  "cd_users (rb_core (apply_writes E ref inp p c r s)) = cd_users (rb_core s)"
  "rb_reversals (apply_writes E ref inp p c r s) = rb_reversals s"
  by (simp_all add: apply_writes_def Let_def set_contract_balance_def)

lemma confirm_payment_sel [simp]:
  "p_id (confirm_payment E inp v r p) = p_id p"
  "p_paystackRef (confirm_payment E inp v r p) = p_paystackRef p"
  "p_contractId (confirm_payment E inp v r p) = p_contractId p"
  "p_status (confirm_payment E inp v r p) = Pay_Confirmed"
  "p_appliedAmountNgn (confirm_payment E inp v r p) = r_accepted r"
  by (simp_all add: confirm_payment_def)

lemma apply_guards_facts:
  assumes "money_ok s" and "apply_guards ref inp p c s"
  shows "p \<in> set (rb_payments s)" "p_paystackRef p = ref" "c \<in> set (cd_contracts (rb_core s))"
    "c_id c = p_contractId p" "p_status p \<noteq> Pay_Confirmed" "ref \<notin> al_gatewayRef ` set (rb_allocations s)"
    "contract_money_ok (contract_balance c)" "find_contract (rb_core s) (c_id c) = Some c"
proof -
  have f: "find_one (\<lambda>p. p_paystackRef p = ref) (rb_payments s) = Some p"
    "find_one (\<lambda>c. c_id c = p_contractId p) (cd_contracts (rb_core s)) = Some c"
    "find_one (\<lambda>a. al_gatewayRef a = ref) (rb_allocations s) = None"
    using assms(2) by (auto simp: apply_guards_def)
  show p: "p \<in> set (rb_payments s)" and r: "p_paystackRef p = ref" using find_one_SomeD [OF f(1)] by auto
  show c: "c \<in> set (cd_contracts (rb_core s))" and i: "c_id c = p_contractId p" using find_one_SomeD [OF f(2)] by auto
  show n: "ref \<notin> al_gatewayRef ` set (rb_allocations s)" using f(3) by (auto simp: find_None_iff)
  then show "p_status p \<noteq> Pay_Confirmed" using assms(1) p r by (auto simp: money_ok_def)
  show "contract_money_ok (contract_balance c)" using assms(1) c by (auto simp: money_ok_def balances_def)
  show "find_contract (rb_core s) (c_id c) = Some c" using f(2) i by (simp add: find_contract_def)
qed

lemma apply_writes_ok:
  assumes "money_ok s" and "apply_guards ref inp p c s"
    and r: "r = contract_allocation E c (verified_amount inp p)"
  shows "money_ok (apply_writes E ref inp p c r s)"
proof -
  note g = apply_guards_facts [OF assms(1,2)]
  have v: "0 < verified_amount inp p" using assms(2) by (simp add: apply_guards_def)
  note amt = application_amounts [OF g(7) verified_amount_kobo v r]
  let ?s = "apply_writes E ref inp p c r s"
  let ?f = "\<lambda>d. d\<lparr>c_totalPaidNgn := new_total_paid c r, c_nextDueDate := next_due r\<rparr>"
  let ?h = "confirm_payment E inp (verified_amount inp p) r"
  have d: "distinct (map c_id (cd_contracts (rb_core s)))" "distinct (map p_id (rb_payments s))"
      "distinct (map p_paystackRef (rb_payments s))"
    using assms(1) by (auto simp: money_ok_def unique_contracts_def)
  have ids: "map c_id (cd_contracts (rb_core ?s)) = map c_id (cd_contracts (rb_core s))"
    unfolding apply_writes_sel by (rule update_one_keys) simp
  have pids: "map p_id (rb_payments ?s) = map p_id (rb_payments s)"
      "map p_paystackRef (rb_payments ?s) = map p_paystackRef (rb_payments s)"
    unfolding apply_writes_sel by (rule update_one_keys, simp)+
  have cset: "set (cd_contracts (rb_core ?s)) = insert (?f c) (set (cd_contracts (rb_core s)) - {c})"
    unfolding apply_writes_sel by (rule update_one_unique_set [OF d(1) g(3)]) simp
  have pset: "set (rb_payments ?s) = insert (?h p) (set (rb_payments s) - {p})"
    unfolding apply_writes_sel by (rule update_one_unique_set [OF d(2) g(1)]) simp
  have sum: "applied_sum x (rb_payments ?s) = applied_sum x (rb_payments s)
      + (if x = p_contractId p then r_accepted r else 0)" for x
    unfolding apply_writes_sel using applied_sum_update [OF d(2) g(1) g(5), of ?h x] by simp
  have old: "snd (snd (contract_balance e)) = applied_sum (c_id e) (rb_payments s)"
      "contract_money_ok (contract_balance e)" if "e \<in> set (cd_contracts (rb_core s))" for e
    using assms(1) that by (auto simp: money_ok_def balances_def contract_balance_def)
  have bal: "contract_money_ok b \<and> snd (snd b) = applied_sum (fst b) (rb_payments ?s)"
    if b: "b \<in> set (balances ?s)" for b
  proof -
    from b cset consider "b = contract_balance (?f c)"
      | e where "b = contract_balance e" "e \<in> set (cd_contracts (rb_core s))" "e \<noteq> c"
      by (auto simp: balances_def)
    then show ?thesis
    proof cases
      case 1
      have "0 \<le> c_totalPaidNgn c" "kobo (c_totalPaidNgn c)" "kobo (c_totalPayableNgn c)"
        using g(7) by (auto simp: contract_money_ok_def contract_balance_def)
      with 1 amt old(1) [OF g(3)] g(4) show ?thesis
        by (auto simp: contract_money_ok_def contract_balance_def sum intro: kobo_add)
    next
      case 2
      then have "c_id e \<noteq> c_id c" using d(1) g(3) by (auto simp: distinct_map dest: inj_onD)
      with 2 old [OF 2(2)] g(4) show ?thesis by (simp add: sum contract_balance_def)
    qed
  qed
  have amounts: "\<forall>q \<in> set (rb_payments ?s). kobo (p_appliedAmountNgn q) \<and> 0 \<le> p_appliedAmountNgn q"
    using assms(1) amt pset by (auto simp: money_ok_def)
  have conf: "p_status q = Pay_Confirmed \<longleftrightarrow> p_paystackRef q \<in> al_gatewayRef ` set (rb_allocations ?s)"
    if "q \<in> set (rb_payments ?s)" for q
  proof (cases "q = ?h p")
    case True
    then show ?thesis using g(2) by (simp add: apply_writes_sel allocation_doc_def)
  next
    case False
    with that pset have q: "q \<in> set (rb_payments s)" "q \<noteq> p" by auto
    then have "p_paystackRef q \<noteq> ref" using d(3) g(1,2) by (auto simp: distinct_map dest: inj_onD)
    with q assms(1) show ?thesis by (simp add: money_ok_def apply_writes_sel allocation_doc_def)
  qed
  have "unique_contracts (rb_core ?s)"
    using assms(1) ids by (simp add: money_ok_def unique_contracts_def apply_writes_sel)
  with d pids bal amounts conf show ?thesis unfolding money_ok_def by metis
qed

lemma money_ok_rollback: "money_ok (rdb_rollback s s') = money_ok s"
  by (simp add: money_ok_def rdb_rollback_def cdb_rollback_def balances_def unique_contracts_def)

lemma apply_payment_cases:
  assumes "money_ok s" and "applyDriverPayment E ses gref inp s = (res, s')"
  obtains (unprocessed) "\<exists>new. rb_allocations s' = rb_allocations s @ new" "money_ok s'" "\<exists>e. res = Inl e"
  | (processed) a where "res = Inr a" "ap_alreadyProcessed a" "s' = s"
  | (applied) p c r a where "apply_guards (js_trim gref) inp p c s"
      "r = contract_allocation E c (verified_amount inp p)" "res = Inr a" "money_ok s'"
      "apply_finish E (js_trim gref) inp p c r (apply_writes E (js_trim gref) inp p c r s) = (Inr a, s')"
proof -
  let ?ref = "js_trim gref"
  let ?fault = "map_option RepayDriverFailure (commit_fault E)"
  have written: "(\<exists>new. rb_allocations s1 = rb_allocations s @ new) \<and> money_ok s1"
    if "apply_guards ?ref inp p c s" "r = contract_allocation E c (verified_amount inp p)"
      "apply_finish E ?ref inp p c r (apply_writes E ?ref inp p c r s) = (r1, s1)" for p c r r1 s1
  proof -
    have ok: "money_ok (apply_writes E ?ref inp p c r s)" by (rule apply_writes_ok [OF assms(1) that(1,2)])
    then have u: "unique_contracts (rb_core (apply_writes E ?ref inp p c r s))" by (simp add: money_ok_def)
    from apply_finish_same [OF u that(3)]
    have same: "same_money (excess_credited ?ref p c (r_excess r) (apply_writes E ?ref inp p c r s)) s1" by blast
    then have "money_ok s1" using money_ok_same money_ok_excess [OF ok] by blast
    moreover have "rb_allocations s1 = rb_allocations (apply_writes E ?ref inp p c r s)"
      using same by (simp add: same_money_def excess_credited_def)
    ultimately show ?thesis by (simp add: apply_writes_sel)
  qed
  show thesis
  proof (cases "?ref = [] \<or> (\<exists>a. find_one (\<lambda>a. al_gatewayRef a = ?ref) (rb_allocations s) = Some a)")
    case True
    then show thesis
      using assms unprocessed processed
      by (auto simp: applyDriverPayment_def Let_def existing_result_def split: if_splits)
  next
    case False
    then have run: "run_in_session rdb_rollback ?fault ses (apply_body E ?ref inp) s = (res, s')"
      using assms(2) by (simp add: applyDriverPayment_def Let_def)
    obtain r1 s1 where b: "apply_body E ?ref inp s = (r1, s1)" by (cases "apply_body E ?ref inp s")
    have s1: "(\<exists>new. rb_allocations s1 = rb_allocations s @ new) \<and> money_ok s1"
      using b by (rule apply_body_cases) (use assms(1) written in auto)
    show thesis
    proof (cases res)
      case (Inl e)
      have "s' = s1 \<or> s' = rdb_rollback s s1"
        using run_in_session_state [of rdb_rollback ?fault ses "apply_body E ?ref inp" s] run b by auto
      then have "(\<exists>new. rb_allocations s' = rb_allocations s @ new) \<and> money_ok s'"
        using s1 assms(1) by (auto simp: money_ok_rollback) (simp add: rdb_rollback_def)
      with Inl show thesis by (intro unprocessed) auto
    next
      case (Inr a)
      with run have body: "apply_body E ?ref inp s = (Inr a, s')" by (auto dest: run_in_session_Inr)
      from body show thesis
      proof (rule apply_body_cases)
        fix a' assume "Inr a = Inr a'" "ap_alreadyProcessed a'" "s' = s"
        with Inr show thesis by (intro processed) auto
      next
        fix p c r
        assume "apply_guards ?ref inp p c s" "r = contract_allocation E c (verified_amount inp p)"
          "apply_finish E ?ref inp p c r (apply_writes E ?ref inp p c r s) = (Inr a, s')"
        moreover from this written have "money_ok s'" by blast
        ultimately show thesis using Inr by (intro applied)
      qed simp
    qed
  qed
qed

text \<open>Reversal: the insert of its transaction is refused, so everything is rolled back.\<close>

lemma reverse_body_fails: "\<exists>e. fst (reverse_body E inp s) = Inl e"
  by (auto simp: reverse_body_def Let_def create_transaction_def reversal_transaction_def
      TRANSACTION_TYPES_def split: option.splits)

lemma reverse_fails:
  "\<exists>e s1. reverseDriverPayment E inp s = (Inl e, s) \<or> reverseDriverPayment E inp s = (Inl e, rdb_rollback s s1)"
proof -
  obtain e where e: "fst (reverse_body E inp s) = Inl e" using reverse_body_fails by blast
  obtain s1 where "reverse_body E inp s = (Inl e, s1)"
    using e by (metis prod.collapse)
  then have "run_in_session rdb_rollback (map_option RepayDriverFailure (commit_fault E)) False
             (reverse_body E inp) s = (Inl e, rdb_rollback s s1)"
    by (simp add: run_in_session_def)
  then show ?thesis by (auto simp: reverseDriverPayment_def)
qed

lemma derived_is_applied_sum:
  assumes "money_ok s"
  shows "derived_total_paid x s = applied_sum x (rb_payments s)"
proof -
  have "foldl (\<lambda>sum p. sum + max (p_appliedAmountNgn p) 0) a ps = a + (\<Sum>p\<leftarrow>ps. p_appliedAmountNgn p)"
    if "\<forall>p \<in> set ps. 0 \<le> p_appliedAmountNgn p" for a and ps :: "driver_payment list"
    using that by (induction ps arbitrary: a) auto
  moreover have "\<forall>p \<in> set (confirmed_payments x s). 0 \<le> p_appliedAmountNgn p"
    using assms by (auto simp: money_ok_def confirmed_payments_def)
  ultimately have e: "foldl (\<lambda>sum p. sum + max (p_appliedAmountNgn p) 0) 0 (confirmed_payments x s)
      = applied_sum x (rb_payments s)"
    by (simp add: applied_sum_def confirmed_payments_def)
  have "kobo (\<Sum>p\<leftarrow>ps. p_appliedAmountNgn p)" if "\<forall>p \<in> set ps. kobo (p_appliedAmountNgn p)"
    for ps :: "driver_payment list"
    using that by (induction ps) (auto intro: kobo_add)
  then have "kobo (applied_sum x (rb_payments s))"
    using assms by (auto simp: money_ok_def applied_sum_def)
  then show ?thesis by (simp add: derived_total_paid_def e round_kobo_id)
qed

lemma repair_keeps_money:
  assumes "money_ok s" and "repairContractBalance E x s = (res, s')"
  shows "money_ok s' \<and> rb_allocations s' = rb_allocations s"
proof (cases "find_one (\<lambda>c. c_id c = x) (cd_contracts (rb_core s))")
  case None
  with assms show ?thesis by (auto simp: repairContractBalance_def split: if_splits)
next
  case (Some c)
  have c: "c \<in> set (cd_contracts (rb_core s))" "c_id c = x" using find_one_SomeD [OF Some] by auto
  have paid: "c_totalPaidNgn c = derived_total_paid x s"
    unfolding derived_is_applied_sum [OF assms(1)]
    using assms(1) c by (auto simp: money_ok_def balances_def contract_balance_def)
  have d: "distinct (map c_id (cd_contracts (rb_core s)))"
    using assms(1) by (simp add: money_ok_def unique_contracts_def)
  have "map contract_balance (update_one (\<lambda>c. c_id c = x)
         (\<lambda>c. c\<lparr>c_totalPaidNgn := derived_total_paid x s, c_nextDueDate := due\<rparr>) cs) = map contract_balance cs"
    if "find_one (\<lambda>c. c_id c = x) cs = Some c" for due cs
    using that paid by (induction cs) (auto simp: contract_balance_def)
  from this [OF Some] have "same_money s (set_contract_balance x (derived_total_paid x s) due s)" for due
    by (simp add: same_money_def set_contract_balance_def balances_def unique_contracts_def update_one_keys)
  moreover have "\<exists>ev due. with_audit E ev (derived_total_paid x s)
      (set_contract_balance x (derived_total_paid x s) due s) = (res, s') \<or> s' = s"
    using assms(2) Some by (auto simp: repairContractBalance_def Let_def split: if_splits)
  ultimately have "same_money s s'" using same_money_trans same_money_audit by (metis same_money_refl)
  with assms(1) show ?thesis using money_ok_same by (auto simp: same_money_def)
qed

subsection \<open>Runs\<close>

datatype repay_op =
  Op_apply env bool string apply_input | Op_reverse env reverse_input | Op_repair env string

datatype repay_out = Applied apply_result | Reversed oid rat rat | Repaired rat

fun run_repay :: "repay_op \<Rightarrow> rdb \<Rightarrow> (repay_error + repay_out) \<times> rdb" where
  "run_repay (Op_apply E ses ref inp) s = apfst (map_sum id Applied) (applyDriverPayment E ses ref inp s)"
| "run_repay (Op_reverse E inp) s =
     apfst (map_sum id (\<lambda>(i, a, b). Reversed i a b)) (reverseDriverPayment E inp s)"
| "run_repay (Op_repair E cid) s = apfst (map_sum id Repaired) (repairContractBalance E cid s)"

lemma run_repay_ok:
  assumes "money_ok s"
  shows "money_ok (snd (run_repay op s)) \<and> (\<exists>new. rb_allocations (snd (run_repay op s)) = rb_allocations s @ new)"
proof (cases op)
  case (Op_apply E ses ref inp)
  obtain r s' where a: "applyDriverPayment E ses ref inp s = (r, s')" by (cases "applyDriverPayment E ses ref inp s")
  from assms a have "money_ok s' \<and> (\<exists>new. rb_allocations s' = rb_allocations s @ new)"
  proof (rule apply_payment_cases)
    fix p c q b
    let ?w = "apply_writes E (js_trim ref) inp p c q s"
    assume g: "apply_guards (js_trim ref) inp p c s" "q = contract_allocation E c (verified_amount inp p)"
      and m: "money_ok s'" and f: "apply_finish E (js_trim ref) inp p c q ?w = (Inr b, s')"
    have u: "unique_contracts (rb_core ?w)" using apply_writes_ok [OF assms g] by (simp add: money_ok_def)
    have "rb_allocations s' = rb_allocations ?w"
      using apply_finish_same [OF u f] by (auto simp: same_money_def excess_credited_def)
    with m show ?thesis by (simp add: apply_writes_sel)
  qed (use assms in auto)
  with a Op_apply show ?thesis by simp
next
  case (Op_reverse E inp)
  then have "snd (run_repay op s) = s \<or> (\<exists>s1. snd (run_repay op s) = rdb_rollback s s1)"
    using reverse_fails [of E inp s] by auto
  then show ?thesis using assms by (auto simp: money_ok_rollback) (simp_all add: rdb_rollback_def)
next
  case (Op_repair E cid)
  obtain r s' where a: "repairContractBalance E cid s = (r, s')" by (cases "repairContractBalance E cid s")
  with repair_keeps_money [OF assms a] Op_repair show ?thesis by simp
qed

lemma run_all_repay_ok:
  "money_ok s \<Longrightarrow> money_ok (run_seq run_repay ops s)
     \<and> (\<exists>new. rb_allocations (run_seq run_repay ops s) = rb_allocations s @ new)"
proof (induction ops arbitrary: s)
  case Nil
  then show ?case by simp
next
  case (Cons op ops)
  from run_repay_ok [OF Cons.prems, of op] obtain new where
    "money_ok (snd (run_repay op s))" "rb_allocations (snd (run_repay op s)) = rb_allocations s @ new" by blast
  with Cons.IH [of "snd (run_repay op s)"] show ?case by auto
qed

end
