(* ===== verification/Repayment_Properties.thy ===== *)
theory Repayment_Properties
  imports Repayment_Theorems
begin

text \<open>The properties of the repayment service, with a concrete database for their witnesses.\<close>

subsection \<open>Completion at the end of an application\<close>

lemma completed_contract:
  assumes "unique_contracts (rb_core s)" and "find_contract (rb_core s) (c_id c) = Some c1"
    and "isRepayableState (c_status c1)" and "c_status c1 = c_status c"
    and "complete_if_settled E c ref rem s = (Inr completed, s')"
  shows "completed = (rem \<le> 0)
    \<and> (\<exists>c'. find_contract (rb_core s') (c_id c) = Some c'
        \<and> c_totalPaidNgn c' = c_totalPaidNgn c1 \<and> c_totalPayableNgn c' = c_totalPayableNgn c1
        \<and> c_nextDueDate c' = c_nextDueDate c1
        \<and> c_status c' = (if completed then COMPLETED else c_status c1))"
proof (cases "rem \<le> 0")
  case False
  with assms show ?thesis by (auto simp: complete_if_settled_def)
next
  case True
  have nc: "c_status c \<noteq> COMPLETED"
    using assms(3,4) by (auto simp: isRepayableState_def REPAYABLE_STATES_def)
  let ?in = "completion_input c ref"
  have in_sel: "ci_targetState ?in = COMPLETED" "ci_contractId ?in = c_id c"
    by (simp_all add: completion_input_def)
  obtain res core where tr: "transitionHirePurchaseContract E ?in (rb_core s) = (res, core)"
    by (cases "transitionHirePurchaseContract E ?in (rb_core s)")
  with assms(5) True nc have res: "\<exists>d. res = Inr d" and s': "s' = s\<lparr>rb_core := core\<rparr>" and "completed"
    by (auto simp: complete_if_settled_def split: sum.splits)
  from assms(1) tr have "\<exists>c0 d. contract_writes E ?in c0 d (rb_core s) core"
  proof (rule transition_contract_cases)
    fix c0 assume "c_status c0 = ci_targetState ?in" "find_contract (rb_core s) (ci_contractId ?in) = Some c0"
    then show ?thesis using assms(2,4) nc by (simp add: in_sel)
  qed (use res in auto)
  then obtain c0 d where w: "contract_writes E ?in c0 d (rb_core s) core" by blast
  have c0: "c0 = c1" using contract_writes_find(2) [OF w] assms(2) by (simp add: in_sel)
  have "find_contract core (c_id c) = Some d"
    using contract_writes_find(1) [OF w, of "c_id c"] by (simp add: in_sel)
  moreover have "c_totalPaidNgn d = c_totalPaidNgn c1 \<and> c_totalPayableNgn d = c_totalPayableNgn c1
      \<and> c_nextDueDate d = c_nextDueDate c1 \<and> c_status d = COMPLETED"
  proof -
    from w obtain f g where plan: "plan_transition E ?in c0 (rb_core s) = Inr (f, g)"
      and d: "\<exists>n t. d = (f c0)\<lparr>c_version := n, c_timeline := t\<rparr>"
      by (auto simp: contract_writes_def)
    from plan have "f = (\<lambda>c. c\<lparr>c_status := COMPLETED\<rparr>)"
      by (auto simp: plan_transition_def in_sel precondition_failed_def Let_def split: if_splits option.splits)
    with d show ?thesis by (auto simp: c0)
  qed
  ultimately show ?thesis using True \<open>completed\<close> s' by simp
qed

subsection \<open>A concrete database\<close>

definition demo_payment :: "oid \<Rightarrow> driver_payment" where
  "demo_payment ref = \<lparr> p_id = ref, p_contractId = ''c1'', p_driverUserId = ''u1'', p_amountNgn = 120,
     p_appliedAmountNgn = 0, p_paystackRef = ref, p_status = Pay_Pending, p_confirmedAt = None,
     p_metadata = [], p_allocationBreakdown = None \<rparr>"

definition demo_rdb :: "contract_status \<Rightarrow> rat \<Rightarrow> rdb" where
  "demo_rdb st paid = \<lparr> rb_core = demo_cdb [demo_contract ''c1'' st None paid] Veh_Financed,
     rb_payments = [demo_payment ''r''], rb_allocations = [], rb_reversals = [], rb_transactions = [] \<rparr>"

definition demo_apply :: apply_input where
  "demo_apply = \<lparr> pi_verifiedAmountNgn = Fin 120, pi_channel = None, pi_metadata = [] \<rparr>"

lemma c_env_sel [simp]:
  "now c_env = 0" "valid_oid c_env = (\<lambda>_. True)" "tamper_ok c_env = (\<lambda>_. True)" "auditlog_ok c_env"
  "critical_cfg c_env = None" "commit_fault c_env = None"
  by (simp_all add: c_env_def)

lemma js_trim_r [simp]: "js_trim ''r'' = ''r''"
  by (simp add: js_trim_def is_ws_def)

lemma kobo_numeral [simp]: "kobo (numeral n)"
  by (rule koboI [of _ "numeral n * 100"]) simp

lemma demo_money_ok: "money_ok (demo_rdb ACTIVE 0)"
  by (simp add: money_ok_def demo_rdb_def demo_contract_defs unique_contracts_def balances_def
      contract_balance_def contract_money_ok_def applied_sum_def demo_payment_def)

lemma demo_apply_result:
  "\<exists>a s'. applyDriverPayment c_env False ''r'' demo_apply (demo_rdb ACTIVE 0) = (Inr a, s')
     \<and> \<not> ap_alreadyProcessed a \<and> \<not> ap_contractCompleted a"
proof -
  let ?s = "demo_rdb ACTIVE 0"
  let ?c = "demo_contract ''c1'' ACTIVE None 0"
  let ?p = "demo_payment ''r''"
  have fp: "find_one (\<lambda>p. p_paystackRef p = ''r'') (rb_payments ?s) = Some ?p"
    by (simp add: demo_rdb_def demo_payment_def)
  have fc: "find_one (\<lambda>c. c_id c = p_contractId ?p) (cd_contracts (rb_core ?s)) = Some ?c"
    by (simp add: demo_rdb_def demo_payment_def demo_contract_defs)
  have v: "verified_amount demo_apply ?p = 120"
    by (simp add: verified_amount_def demo_apply_def num_or_def round_kobo_id)
  have mok: "contract_money_ok (contract_balance ?c)"
    by (simp add: contract_money_ok_def contract_balance_def demo_contract_def)
  let ?r = "contract_allocation c_env ?c 120"
  have k: "kobo 120" "(0::rat) < 120" by simp_all
  note amt = application_amounts [where E = c_env, OF mok k refl]
  have g: "apply_guards ''r'' demo_apply ?p ?c ?s"
    using fp fc v amt(1)
    by (simp add: apply_guards_def isRepayableState_def REPAYABLE_STATES_def demo_contract_def)
       (simp add: demo_rdb_def)
  have none: "find_one (\<lambda>a. al_gatewayRef a = ''r'') (rb_allocations ?s) = None"
    by (simp add: demo_rdb_def)
  have body: "apply_body c_env ''r'' demo_apply ?s
      = apply_finish c_env ''r'' demo_apply ?p ?c ?r (apply_writes c_env ''r'' demo_apply ?p ?c ?r ?s)"
    using g fp fc v by (simp add: apply_body_def apply_guards_def Let_def)
  have acc: "r_accepted ?r = 120" using amt(2) by (simp add: demo_contract_def)
  have rem: "new_remaining ?c (new_total_paid ?c ?r) = 180"
    by (simp add: new_remaining_def amt(7) acc) (simp add: demo_contract_def round_kobo_id)
  have "credit_excess ?p ?c ''r'' (r_excess ?r) s = Inr s" for s
    using amt(3) acc by (simp add: credit_excess_def)
  then obtain s' where f: "apply_finish c_env ''r'' demo_apply ?p ?c ?r (apply_writes c_env ''r'' demo_apply ?p ?c ?r ?s)
      = (Inr (result_of False ?r 180 (next_due ?r) False), s')"
    by (simp add: apply_finish_def Let_def rem complete_if_settled_def with_audit_def
        log_audit_event_def)
  have "applyDriverPayment c_env False ''r'' demo_apply ?s
      = (Inr (result_of False ?r 180 (next_due ?r) False), s')"
    using none by (simp add: applyDriverPayment_def Let_def run_in_session_def body f)
  then show ?thesis by (auto simp: result_of_def)
qed

subsection \<open>Properties\<close>

text \<open>
  C8.  Balances and payments agree: over any run of applications, reversals and repairs, in
  sessions of their own or of a caller, whatever their outcome, the total paid on a contract
  is the sum of what its confirmed payments applied, it lies between 0 and the payable amount,
  and the balance check finds it consistent.
\<close>

theorem payments_add_up:
  assumes "money_ok s" and "find_contract (rb_core (run_seq run_repay ops s)) x = Some c"
  shows "c_totalPaidNgn c = applied_sum x (rb_payments (run_seq run_repay ops s))
    \<and> 0 \<le> c_totalPaidNgn c \<and> c_totalPaidNgn c \<le> c_totalPayableNgn c
    \<and> (valid_oid E x \<longrightarrow> (\<exists>k. checkContractSchedule E x (run_seq run_repay ops s) = Inr k
          \<and> sc_balanceConsistent k \<and> sc_derivedTotalPaidNgn k = c_totalPaidNgn c))"
proof -
  let ?s = "run_seq run_repay ops s"
  have ok: "money_ok ?s" using run_all_repay_ok [OF assms(1)] by blast
  have c: "c \<in> set (cd_contracts (rb_core ?s))" "c_id c = x"
    using find_one_SomeD [OF assms(2) [unfolded find_contract_def]] by auto
  have m: "contract_money_ok (contract_balance c)" "c_totalPaidNgn c = applied_sum x (rb_payments ?s)"
    using ok c by (auto simp: money_ok_def balances_def contract_balance_def)
  have k: "checkContractSchedule E x ?s = Inr k' \<Longrightarrow>
      sc_balanceConsistent k' \<and> sc_derivedTotalPaidNgn k' = c_totalPaidNgn c" if "valid_oid E x" for k'
    using that assms(2) m c
    by (auto simp: checkContractSchedule_def Let_def find_contract_def derived_is_applied_sum [OF ok]
        contract_money_ok_def contract_balance_def)
  have "\<exists>k. checkContractSchedule E x ?s = Inr k" if "valid_oid E x"
    using that assms(2) by (simp add: checkContractSchedule_def Let_def find_contract_def)
  with m k show ?thesis by (auto simp: contract_money_ok_def contract_balance_def)
qed

theorem payments_add_up_witness:
  "\<exists>c. find_contract (rb_core (run_seq run_repay [] (demo_rdb ACTIVE 0))) ''c1'' = Some c
     \<and> c_totalPaidNgn c = applied_sum ''c1'' (rb_payments (run_seq run_repay [] (demo_rdb ACTIVE 0)))"
proof -
  have f: "find_contract (rb_core (run_seq run_repay [] (demo_rdb ACTIVE 0))) ''c1''
      = Some (demo_contract ''c1'' ACTIVE None 0)"
    by (simp add: find_contract_def demo_rdb_def demo_contract_defs)
  from payments_add_up [OF demo_money_ok f] f show ?thesis by blast
qed

text \<open>
  C9.  A gateway reference is applied once: after it has been applied, and after any run of
  further operations, delivering it again returns the recorded figures as already processed
  and changes nothing.
\<close>

theorem payment_applied_once:
  assumes "money_ok s"
    and "applyDriverPayment E ses gref inp s = (Inr a, s1)" and "\<not> ap_alreadyProcessed a"
    and "js_trim gref2 = js_trim gref"
  shows "applyDriverPayment E2 ses2 gref2 inp2 (run_seq run_repay ops s1)
    = (Inr (a\<lparr>ap_alreadyProcessed := True, ap_contractCompleted := False\<rparr>), run_seq run_repay ops s1)"
proof -
  let ?ref = "js_trim gref"
  have nonempty: "?ref \<noteq> []" using assms(2) by (auto simp: applyDriverPayment_def Let_def)
  from assms(1,2) obtain p c r where g: "apply_guards ?ref inp p c s"
    and r: "r = contract_allocation E c (verified_amount inp p)" and ok: "money_ok s1"
    and fin: "apply_finish E ?ref inp p c r (apply_writes E ?ref inp p c r s) = (Inr a, s1)"
    by (rule apply_payment_cases) (use assms(3) in auto)
  let ?w = "apply_writes E ?ref inp p c r s"
  let ?doc = "allocation_doc p c ?ref (verified_amount inp p) r (new_remaining c (new_total_paid c r)) (next_due r)"
  have u: "unique_contracts (rb_core ?w)" using apply_writes_ok [OF assms(1) g r] by (simp add: money_ok_def)
  note fs = apply_finish_same [OF u fin]
  have al: "rb_allocations s1 = rb_allocations s @ [?doc]"
    using fs by (simp add: same_money_def excess_credited_def apply_writes_sel)
  obtain new where new: "rb_allocations (run_seq run_repay ops s1) = rb_allocations s1 @ new"
    using run_all_repay_ok [OF ok] by blast
  have "find_one (\<lambda>a. al_gatewayRef a = ?ref) (rb_allocations s) = None" using g by (simp add: apply_guards_def)
  then have "find_one (\<lambda>a. al_gatewayRef a = ?ref) (rb_allocations (run_seq run_repay ops s1)) = Some ?doc"
    by (simp add: new al find_one_append allocation_doc_def)
  moreover obtain b where "a = result_of False r (new_remaining c (new_total_paid c r)) (next_due r) b"
    using fs by blast
  then have "existing_result ?doc = a\<lparr>ap_alreadyProcessed := True, ap_contractCompleted := False\<rparr>"
    by (simp add: existing_result_def allocation_doc_def result_of_def)
  ultimately show ?thesis using nonempty assms(4) by (simp add: applyDriverPayment_def Let_def)
qed

theorem payment_applied_once_witness:
  "\<exists>a s1. applyDriverPayment c_env False ''r'' demo_apply (demo_rdb ACTIVE 0) = (Inr a, s1)
     \<and> applyDriverPayment c_env False ''r'' demo_apply s1
         = (Inr (a\<lparr>ap_alreadyProcessed := True, ap_contractCompleted := False\<rparr>), s1)"
proof -
  obtain a s1 where a: "applyDriverPayment c_env False ''r'' demo_apply (demo_rdb ACTIVE 0) = (Inr a, s1)"
      "\<not> ap_alreadyProcessed a"
    using demo_apply_result by blast
  with payment_applied_once [OF demo_money_ok a refl, of c_env False demo_apply "[]"] show ?thesis by auto
qed

text \<open>
  C10.  What applying a payment does.  The verified amount splits into what the contract takes
  (at most what is outstanding) and the excess; the contract's total grows by the former, the
  driver's wallet by the latter and no other wallet changes; the payment is confirmed with
  the accepted amount; the contract is completed exactly when nothing remains, and its next
  due date is the one reported.
\<close>

theorem apply_payment_effect:
  assumes "money_ok s"
    and "applyDriverPayment E ses gref inp s = (Inr a, s')" and "\<not> ap_alreadyProcessed a"
  shows "\<exists>p c c'. find_one (\<lambda>p. p_paystackRef p = js_trim gref) (rb_payments s) = Some p
    \<and> find_contract (rb_core s) (p_contractId p) = Some c
    \<and> find_contract (rb_core s') (p_contractId p) = Some c'
    \<and> isRepayableState (c_status c)
    \<and> ap_acceptedAmountNgn a = min (verified_amount inp p) (c_totalPayableNgn c - c_totalPaidNgn c)
    \<and> 0 < ap_acceptedAmountNgn a
    \<and> ap_acceptedAmountNgn a + ap_excessAmountNgn a = verified_amount inp p
    \<and> c_totalPaidNgn c' = c_totalPaidNgn c + ap_acceptedAmountNgn a
    \<and> ap_remainingBalanceAfterNgn a = c_totalPayableNgn c' - c_totalPaidNgn c'
    \<and> c_nextDueDate c' = ap_nextDueDateAfter a
    \<and> (ap_contractCompleted a \<longleftrightarrow> c_totalPaidNgn c' = c_totalPayableNgn c')
    \<and> c_status c' = (if ap_contractCompleted a then COMPLETED else c_status c)
    \<and> (\<exists>p'. find_one (\<lambda>p. p_paystackRef p = js_trim gref) (rb_payments s') = Some p'
         \<and> p_status p' = Pay_Confirmed \<and> p_appliedAmountNgn p' = ap_acceptedAmountNgn a)
    \<and> (\<forall>u. find_one (\<lambda>d. u_id d = u) (cd_users (rb_core s')) =
         map_option (\<lambda>d. if u = p_driverUserId p
             then d\<lparr>u_availableBalance := u_availableBalance d + ap_excessAmountNgn a\<rparr> else d)
           (find_one (\<lambda>d. u_id d = u) (cd_users (rb_core s))))"
proof -
  let ?ref = "js_trim gref"
  from assms(1,2) obtain p c r where g: "apply_guards ?ref inp p c s"
    and r: "r = contract_allocation E c (verified_amount inp p)" and ok: "money_ok s'"
    and fin: "apply_finish E ?ref inp p c r (apply_writes E ?ref inp p c r s) = (Inr a, s')"
    by (rule apply_payment_cases) (use assms(3) in auto)
  let ?w = "apply_writes E ?ref inp p c r s"
  let ?x = "excess_credited ?ref p c (r_excess r) ?w"
  let ?c1 = "c\<lparr>c_totalPaidNgn := new_total_paid c r, c_nextDueDate := next_due r\<rparr>"
  note gf = apply_guards_facts [OF assms(1) g]
  have v: "0 < verified_amount inp p" using g by (simp add: apply_guards_def)
  note amt = application_amounts [OF gf(7) verified_amount_kobo v r]
  have uw: "unique_contracts (rb_core ?w)" using apply_writes_ok [OF assms(1) g r] by (simp add: money_ok_def)
  note fs = apply_finish_same [OF uw fin]
  have core: "cd_contracts (rb_core ?x) = cd_contracts (rb_core ?w)" by (simp add: excess_credited_def)
  have f1: "find_contract (rb_core ?x) (c_id c) = Some ?c1"
    using gf(8) unfolding find_contract_def core apply_writes_sel
    by (subst find_key_update_one_map [where k = c_id]) simp_all
  from fs obtain b s4 where cs: "complete_if_settled E c ?ref (new_remaining c (new_total_paid c r)) ?x = (Inr b, s4)"
    and a: "a = result_of False r (new_remaining c (new_total_paid c r)) (next_due r) b"
    and cc: "cd_contracts (rb_core s') = cd_contracts (rb_core s4)"
    and same: "same_money ?x s'"
    by blast
  have ux: "unique_contracts (rb_core ?x)" using uw by (simp add: excess_credited_def unique_contracts_def)
  have rep: "isRepayableState (c_status c)" using g by (simp add: apply_guards_def)
  from completed_contract [OF ux f1 _ _ cs] rep obtain c' where c': "find_contract (rb_core s') (c_id c) = Some c'"
      "c_totalPaidNgn c' = new_total_paid c r" "c_totalPayableNgn c' = c_totalPayableNgn c"
      "c_nextDueDate c' = next_due r" "c_status c' = (if b then COMPLETED else c_status c)"
    and b: "b = (new_remaining c (new_total_paid c r) \<le> 0)"
    by (auto simp: find_contract_def cc)
  have pay: "rb_payments s' = rb_payments ?w" using same by (simp add: same_money_def excess_credited_def)
  have fp: "find_one (\<lambda>p. p_paystackRef p = ?ref) (rb_payments s) = Some p" using g by (simp add: apply_guards_def)
  have "find_one (\<lambda>q. p_paystackRef q = ?ref) (rb_payments s') = Some (confirm_payment E inp (verified_amount inp p) r p)"
    unfolding pay apply_writes_sel
    by (rule find_after_update [OF fp]) (use assms(1) in \<open>simp_all add: money_ok_def\<close>)
  then have p': "\<exists>p'. find_one (\<lambda>p. p_paystackRef p = ?ref) (rb_payments s') = Some p'
      \<and> p_status p' = Pay_Confirmed \<and> p_appliedAmountNgn p' = r_accepted r"
    by auto
  have users: "find_one (\<lambda>d. u_id d = u) (cd_users (rb_core s')) =
         map_option (\<lambda>d. if u = p_driverUserId p
             then d\<lparr>u_availableBalance := u_availableBalance d + r_excess r\<rparr> else d)
           (find_one (\<lambda>d. u_id d = u) (cd_users (rb_core s)))" for u
  proof -
    have e: "cd_users (rb_core s') = (if r_excess r > 0 then update_one (\<lambda>u. u_id u = p_driverUserId p)
               (\<lambda>u. u\<lparr>u_availableBalance := u_availableBalance u + r_excess r\<rparr>) (cd_users (rb_core s))
             else cd_users (rb_core s))"
      using same by (simp add: same_money_def excess_credited_def apply_writes_sel)
    have id: "d\<lparr>u_availableBalance := u_availableBalance d + 0\<rparr> = d" for d :: user
      by (cases d) simp
    show ?thesis
    proof (cases "r_excess r > 0")
      case False
      then have "r_excess r = 0" using amt(5) by simp
      then show ?thesis
        by (cases "find_one (\<lambda>d. u_id d = u) (cd_users (rb_core s))") (simp_all only: e id, simp_all)
    next
      case True
      show ?thesis
      proof (cases "u = p_driverUserId p")
        case True
        then show ?thesis unfolding e using \<open>r_excess r > 0\<close>
          by (simp add: find_key_update_one_map [where k = u_id])
      next
        case False
        have "find_one (\<lambda>d. u_id d = u) (update_one (\<lambda>u. u_id u = p_driverUserId p)
               (\<lambda>u. u\<lparr>u_availableBalance := u_availableBalance u + r_excess r\<rparr>) (cd_users (rb_core s)))
            = find_one (\<lambda>d. u_id d = u) (cd_users (rb_core s))"
          by (rule find_key_update_one_other [where k = u_id]) (use False in auto)
        then show ?thesis unfolding e using \<open>r_excess r > 0\<close> False by (simp add: map_option.id [unfolded id_def])
      qed
    qed
  qed
  have acc: "0 < r_accepted r" using amt(1,2) v g by (auto simp: apply_guards_def)
  have "find_contract (rb_core s) (p_contractId p) = Some c" using gf(4,8) by simp
  moreover have "new_remaining c (new_total_paid c r) \<le> 0 \<longleftrightarrow> new_total_paid c r = c_totalPayableNgn c"
    using amt(8,9) by auto
  moreover have sel: "ap_acceptedAmountNgn a = r_accepted r" "ap_excessAmountNgn a = r_excess r"
      "ap_remainingBalanceAfterNgn a = new_remaining c (new_total_paid c r)"
      "ap_nextDueDateAfter a = next_due r" "ap_contractCompleted a = b"
    by (simp_all add: a result_of_def)
  ultimately show ?thesis
    unfolding sel using fp c' b rep amt(2,3,7,9) acc p' users gf(4)
    by - (rule exI [of _ p], rule exI [of _ c], rule exI [of _ c'], intro conjI, simp_all)
qed

theorem apply_payment_effect_witness:
  "\<exists>a s' p. applyDriverPayment c_env False ''r'' demo_apply (demo_rdb ACTIVE 0) = (Inr a, s')
     \<and> find_one (\<lambda>p. p_paystackRef p = ''r'') (rb_payments (demo_rdb ACTIVE 0)) = Some p
     \<and> ap_acceptedAmountNgn a + ap_excessAmountNgn a = verified_amount demo_apply p"
proof -
  obtain a s1 where a: "applyDriverPayment c_env False ''r'' demo_apply (demo_rdb ACTIVE 0) = (Inr a, s1)"
      "\<not> ap_alreadyProcessed a"
    using demo_apply_result by blast
  from apply_payment_effect [OF demo_money_ok a] obtain p where
    "find_one (\<lambda>p. p_paystackRef p = ''r'') (rb_payments (demo_rdb ACTIVE 0)) = Some p"
    "ap_acceptedAmountNgn a + ap_excessAmountNgn a = verified_amount demo_apply p"
    by auto
  with a(1) show ?thesis by blast
qed

text \<open>
  No payment can be reversed, against \<open>docs/repayment-engine.md\<close>: whatever the input and the state,
  the reversal ends in an error, because its transaction row has the type \<open>repayment_reversal\<close>,
  which the Transaction schema does not admit.  The aborted transaction leaves contracts, payments,
  allocations, reversals, transactions and wallets as they were.
\<close>

lemma reversal_never_succeeds:
  shows "\<exists>e s'. reverseDriverPayment E inp s = (Inl e, s')
    \<and> rb_payments s' = rb_payments s \<and> rb_allocations s' = rb_allocations s
    \<and> rb_reversals s' = rb_reversals s \<and> rb_transactions s' = rb_transactions s
    \<and> cd_contracts (rb_core s') = cd_contracts (rb_core s)
    \<and> cd_users (rb_core s') = cd_users (rb_core s)"
proof -
  have "rb_payments (rdb_rollback s s1) = rb_payments s \<and> rb_allocations (rdb_rollback s s1) = rb_allocations s
    \<and> rb_reversals (rdb_rollback s s1) = rb_reversals s \<and> rb_transactions (rdb_rollback s s1) = rb_transactions s
    \<and> cd_contracts (rb_core (rdb_rollback s s1)) = cd_contracts (rb_core s)
    \<and> cd_users (rb_core (rdb_rollback s s1)) = cd_users (rb_core s)" for s1
    by (simp add: rdb_rollback_def cdb_rollback_def)
  then show ?thesis using reverse_fails [of E inp s] by auto
qed

text \<open>
   A payment that arrives after its contract is completed is reported as processed, with
  its whole amount as excess, but nothing is written: the payment stays unconfirmed and no
  wallet is credited.
\<close>

theorem late_payment_not_credited:
  assumes "js_trim gref \<noteq> []"
    and "find_one (\<lambda>a. al_gatewayRef a = js_trim gref) (rb_allocations s) = None"
    and "find_one (\<lambda>p. p_paystackRef p = js_trim gref) (rb_payments s) = Some p"
    and "find_contract (rb_core s) (p_contractId p) = Some c"
    and "c_status c \<in> {COMPLETED, CLOSED}" and "ses \<or> commit_fault E = None"
  shows "\<exists>a. applyDriverPayment E ses gref inp s = (Inr a, s)
    \<and> ap_alreadyProcessed a \<and> ap_contractCompleted a
    \<and> ap_excessAmountNgn a = clamp_js (pi_verifiedAmountNgn inp)"
proof -
  have "\<not> isRepayableState (c_status c)"
    using assms(5) by (auto simp: isRepayableState_def REPAYABLE_STATES_def)
  then have "apply_body E (js_trim gref) inp s = (Inr (settled_result inp), s)"
    using assms(3-5) by (auto simp: apply_body_def find_contract_def)
  then have "applyDriverPayment E ses gref inp s = (Inr (settled_result inp), s)"
    using assms(1,2,6) by (auto simp: applyDriverPayment_def Let_def run_in_session_def)
  then show ?thesis by (simp add: settled_result_def)
qed

theorem late_payment_not_credited_witness:
  "\<exists>a. applyDriverPayment c_env False ''r'' demo_apply (demo_rdb COMPLETED 300) = (Inr a, demo_rdb COMPLETED 300)
    \<and> ap_alreadyProcessed a \<and> ap_excessAmountNgn a = 120"
proof -
  let ?s = "demo_rdb COMPLETED 300"
  have "find_one (\<lambda>a. al_gatewayRef a = js_trim ''r'') (rb_allocations ?s) = None"
    and "find_one (\<lambda>p. p_paystackRef p = js_trim ''r'') (rb_payments ?s) = Some (demo_payment ''r'')"
    and "find_contract (rb_core ?s) (p_contractId (demo_payment ''r'')) = Some (demo_contract ''c1'' COMPLETED None 300)"
    and "c_status (demo_contract ''c1'' COMPLETED None 300) \<in> {COMPLETED, CLOSED}"
    by (simp_all add: demo_rdb_def demo_payment_def demo_contract_defs find_contract_def)
  from late_payment_not_credited [OF _ this, of False c_env demo_apply]
  show ?thesis by (auto simp: c_env_def demo_apply_def)
qed

end
