(* ===== verification/Ledger_Model.thy ===== *)
theory Ledger_Model
  imports Platform
begin

text \<open>
  The double-entry ledger: the documents of \<open>models/LedgerAccount.ts\<close>,
  \<open>models/LedgerJournal.ts\<close> and \<open>models/LedgerEntry.ts\<close>, the core of
  \<open>lib/ledger/posting.service.ts\<close> (\<open>getOrCreateAccount\<close>, \<open>postJournal\<close>,
  \<open>reverseJournal\<close>) and its nine posting helpers.

  The functions are modelled without a caller's session, as every call in the repository
  has it: the journal is written before its entries, and what was written stays written
  when a later step throws.  Object ids are drawn in order from \<open>lg_oid\<close>; \<open>lg_stored i\<close> says
  whether the database stores the \<open>i\<close>-th document of a batch of entries.
\<close>

subsection \<open>Documents\<close>

datatype account_type = Asset | Liability | Equity | Revenue | Expense

datatype account_category =
  Investor_wallet | Driver_balance | Pool_escrow | Platform_clearing | Revenue_fees
| Repayments_receivable | Payouts_payable | Settlement_in_transit | Refunds_payable
| Platform_reserve | Suspense | Adjustment_category

datatype owner_type = Own_driver | Own_investor | Own_admin | Own_system

datatype direction = Debit | Credit

datatype ledger_event =
  Ev_wallet_funding | Ev_wallet_debit | Ev_pool_investment | Ev_down_payment | Ev_repayment
| Ev_refund | Ev_payout | Ev_fee | Ev_adjustment

datatype journal_status = Jrn_Posted | Jrn_Reversed

record ledger_account =
  la_id :: oid
  la_type :: account_type
  la_category :: account_category
  la_owner :: "oid option"
  la_ownerType :: "owner_type option"
  la_entity :: "string option"
  la_currency :: string
  la_name :: string
  la_archived :: bool

record ledger_journal =
  lj_id :: oid
  lj_key :: string
  lj_event :: ledger_event
  lj_description :: string
  lj_postedAt :: time
  lj_status :: journal_status
  lj_isReversed :: bool
  lj_reversedBy :: "oid option"
  lj_actor :: "oid option"
  lj_reason :: "string option"
  lj_metadata :: "(string \<times> meta) list"

record ledger_entry =
  le_journal :: oid
  le_account :: oid
  le_direction :: direction
  le_amount :: rat
  le_currency :: string
  le_timestamp :: time

record entry_input =
  ei_account :: oid
  ei_direction :: direction
  ei_amount :: rat
  ei_currency :: string

record journal_input =
  ji_key :: string
  ji_event :: ledger_event
  ji_description :: string
  ji_entries :: "entry_input list"
  ji_actor :: "oid option"
  ji_reason :: "string option"
  ji_metadata :: "(string \<times> meta) list"

record account_input =
  ai_category :: account_category
  ai_type :: account_type
  ai_currency :: string
  ai_owner :: "oid option"
  ai_ownerType :: "owner_type option"
  ai_entity :: "string option"

record ledger_db =
  lg_accounts :: "ledger_account list"
  lg_journals :: "ledger_journal list"
  lg_entries :: "ledger_entry list"
  lg_next :: nat

record ledger_env =
  lg_now :: time
  lg_oid :: "nat \<Rightarrow> oid"
  lg_valid_oid :: "string \<Rightarrow> bool"
  lg_stored :: "nat \<Rightarrow> bool"

datatype ledger_error =
  Adjustment_needs_actor | Too_few_entries | Amount_not_positive
| Unbalanced_journal string rat rat | Journal_invalid | Entry_rejected | Cast_failed
| Journal_not_found | Already_reversed | Account_not_found

text \<open>One \<open>await\<close> after the other: the second call sees the state the first one left.\<close>

definition await ::
  "('s \<Rightarrow> ('e + 'a) \<times> 's) \<Rightarrow> ('a \<Rightarrow> 's \<Rightarrow> ('e + 'b) \<times> 's) \<Rightarrow> 's \<Rightarrow> ('e + 'b) \<times> 's" where
  "await f g s = (case f s of (Inl e, s') \<Rightarrow> (Inl e, s') | (Inr a, s') \<Rightarrow> g a s')"

text \<open>A template such as \<open>`${n}`\<close> prints an integer in decimal.\<close>

fun digits :: "nat \<Rightarrow> string" where
  "digits n = (if n < 10 then [char_of (48 + n)] else digits (n div 10) @ [char_of (48 + n mod 10)])"

declare digits.simps [simp del]

definition show_int :: "int \<Rightarrow> string" where
  "show_int i = (if i < 0 then CHR ''-'' # digits (nat (- i)) else digits (nat i))"

subsection \<open>Accounts\<close>

fun category_text :: "account_category \<Rightarrow> string" where
  "category_text Investor_wallet = ''INVESTOR_WALLET''"
| "category_text Driver_balance = ''DRIVER_BALANCE''"
| "category_text Pool_escrow = ''POOL_ESCROW''"
| "category_text Platform_clearing = ''PLATFORM_CLEARING''"
| "category_text Revenue_fees = ''REVENUE_FEES''"
| "category_text Repayments_receivable = ''REPAYMENTS_RECEIVABLE''"
| "category_text Payouts_payable = ''PAYOUTS_PAYABLE''"
| "category_text Settlement_in_transit = ''SETTLEMENT_IN_TRANSIT''"
| "category_text Refunds_payable = ''REFUNDS_PAYABLE''"
| "category_text Platform_reserve = ''PLATFORM_RESERVE''"
| "category_text Suspense = ''SUSPENSE''"
| "category_text Adjustment_category = ''ADJUSTMENT''"

definition or_ngn :: "string option \<Rightarrow> string" where
  "or_ngn c = (case c of None \<Rightarrow> ''NGN'' | Some x \<Rightarrow> if x = [] then ''NGN'' else x)"

text \<open>
  The query of \<open>getOrCreateAccount\<close>: owner and entity are part of it only when they are given.
\<close>

definition account_matches :: "account_input \<Rightarrow> ledger_account \<Rightarrow> bool" where
  "account_matches q a \<longleftrightarrow>
     la_category a = ai_category q \<and> la_currency a = ai_currency q
     \<and> (truthy (ai_owner q) \<longrightarrow> la_owner a = ai_owner q)
     \<and> (truthy (ai_entity q) \<longrightarrow> la_entity a = ai_entity q)"

definition new_account :: "ledger_env \<Rightarrow> account_input \<Rightarrow> ledger_db \<Rightarrow> ledger_account" where
  "new_account E q s = \<lparr> la_id = lg_oid E (lg_next s), la_type = ai_type q, la_category = ai_category q,
     la_owner = ai_owner q, la_ownerType = ai_ownerType q, la_entity = ai_entity q,
     la_currency = ai_currency q,
     la_name = category_text (ai_category q) @ '' ('' @ ai_currency q @ '')'', la_archived = False \<rparr>"

definition owner_castable :: "ledger_env \<Rightarrow> oid option \<Rightarrow> bool" where
  "owner_castable E x \<longleftrightarrow> (case x of None \<Rightarrow> True | Some i \<Rightarrow> lg_valid_oid E i)"

definition getOrCreateAccount ::
  "ledger_env \<Rightarrow> account_input \<Rightarrow> ledger_db \<Rightarrow> (ledger_error + ledger_account) \<times> ledger_db" where
  "getOrCreateAccount E p s =
     (let q = p\<lparr>ai_currency := or_ngn (Some (ai_currency p))\<rparr>
      in if truthy (ai_owner q) \<and> \<not> owner_castable E (ai_owner q) then (Inl Cast_failed, s)
         else case find_one (account_matches q) (lg_accounts s) of
           Some a \<Rightarrow> (Inr a, s)
         | None \<Rightarrow> (if \<not> owner_castable E (ai_owner q) then (Inl Cast_failed, s)
             else (Inr (new_account E q s),
                   s\<lparr>lg_accounts := lg_accounts s @ [new_account E q s], lg_next := Suc (lg_next s)\<rparr>)))"

subsection \<open>Posting a journal\<close>

type_synonym currency_totals = "(string \<times> rat \<times> rat) list"

fun add_to_totals :: "entry_input \<Rightarrow> string \<Rightarrow> currency_totals \<Rightarrow> currency_totals" where
  "add_to_totals e c [] =
     (case ei_direction e of
        Debit \<Rightarrow> [(c, to_fixed6 (0 + ei_amount e), 0)]
      | Credit \<Rightarrow> [(c, 0, to_fixed6 (0 + ei_amount e))])"
| "add_to_totals e c ((c', d, k) # ts) =
     (if c = c' then
        (case ei_direction e of
           Debit \<Rightarrow> (c', to_fixed6 (d + ei_amount e), k) # ts
         | Credit \<Rightarrow> (c', d, to_fixed6 (k + ei_amount e)) # ts)
      else (c', d, k) # add_to_totals e c ts)"

definition entry_currency :: "entry_input \<Rightarrow> string" where
  "entry_currency e = or_ngn (Some (ei_currency e))"

fun journal_totals :: "entry_input list \<Rightarrow> currency_totals \<Rightarrow> ledger_error + currency_totals" where
  "journal_totals [] ts = Inr ts"
| "journal_totals (e # es) ts =
     (if ei_amount e \<le> 0 then Inl Amount_not_positive
      else journal_totals es (add_to_totals e (entry_currency e) ts))"

definition tolerance :: rat where
  "tolerance = 1 / 100000"

fun check_totals :: "currency_totals \<Rightarrow> ledger_error option" where
  "check_totals [] = None"
| "check_totals ((c, d, k) # ts) =
     (if \<bar>d - k\<bar> > tolerance then Some (Unbalanced_journal c d k) else check_totals ts)"

definition journal_check :: "journal_input \<Rightarrow> ledger_error option" where
  "journal_check p =
     (if ji_event p = Ev_adjustment \<and> (\<not> truthy (ji_actor p) \<or> \<not> truthy (ji_reason p))
      then Some Adjustment_needs_actor
      else if length (ji_entries p) < 2 then Some Too_few_entries
      else case journal_totals (ji_entries p) [] of
        Inl e \<Rightarrow> Some e
      | Inr ts \<Rightarrow> check_totals ts)"

definition new_journal :: "ledger_env \<Rightarrow> journal_input \<Rightarrow> ledger_db \<Rightarrow> ledger_journal" where
  "new_journal E p s = \<lparr> lj_id = lg_oid E (lg_next s), lj_key = ji_key p, lj_event = ji_event p,
     lj_description = ji_description p, lj_postedAt = lg_now E, lj_status = Jrn_Posted,
     lj_isReversed = False, lj_reversedBy = None, lj_actor = ji_actor p, lj_reason = ji_reason p,
     lj_metadata = ji_metadata p \<rparr>"

text \<open>What the schemas accept.\<close>

definition journal_valid :: "ledger_env \<Rightarrow> journal_input \<Rightarrow> bool" where
  "journal_valid E p \<longleftrightarrow> ji_key p \<noteq> [] \<and> ji_description p \<noteq> [] \<and> owner_castable E (ji_actor p)"

definition min_entry :: rat where
  "min_entry = 1 / 1000000"

definition entry_valid :: "ledger_env \<Rightarrow> ledger_entry \<Rightarrow> bool" where
  "entry_valid E e \<longleftrightarrow> min_entry \<le> le_amount e \<and> lg_valid_oid E (le_account e)"

definition entry_doc :: "ledger_journal \<Rightarrow> entry_input \<Rightarrow> ledger_entry" where
  "entry_doc j e = \<lparr> le_journal = lj_id j, le_account = ei_account e, le_direction = ei_direction e,
     le_amount = ei_amount e, le_currency = entry_currency e, le_timestamp = lj_postedAt j \<rparr>"

text \<open>
  \<open>LedgerEntry.create\<close> of an array saves every document by itself; one that is rejected
  does not undo the others.
\<close>

definition storable :: "ledger_env \<Rightarrow> ledger_entry list \<Rightarrow> ledger_entry list" where
  "storable E es = map snd (filter (\<lambda>(i, e). lg_stored E i \<and> entry_valid E e) (enumerate 0 es))"

definition write_journal ::
  "ledger_env \<Rightarrow> journal_input \<Rightarrow> ledger_db \<Rightarrow> (ledger_error + ledger_journal) \<times> ledger_db" where
  "write_journal E p s =
     (let j = new_journal E p s;
          docs = map (entry_doc j) (ji_entries p);
          s' = s\<lparr>lg_journals := lg_journals s @ [j], lg_entries := lg_entries s @ storable E docs,
                 lg_next := Suc (lg_next s)\<rparr>
      in (if storable E docs = docs then Inr j else Inl Entry_rejected, s'))"

definition postJournal ::
  "ledger_env \<Rightarrow> journal_input \<Rightarrow> ledger_db \<Rightarrow> (ledger_error + ledger_journal) \<times> ledger_db" where
  "postJournal E p s =
     (case find_one (\<lambda>j. lj_key j = ji_key p) (lg_journals s) of
        Some j \<Rightarrow> (Inr j, s)
      | None \<Rightarrow> (case journal_check p of
          Some e \<Rightarrow> (Inl e, s)
        | None \<Rightarrow> if journal_valid E p then write_journal E p s else (Inl Journal_invalid, s)))"

subsection \<open>Reversing a journal\<close>

fun opposite :: "direction \<Rightarrow> direction" where
  "opposite Debit = Credit"
| "opposite Credit = Debit"

definition reversing_input :: "ledger_entry \<Rightarrow> entry_input" where
  "reversing_input e = \<lparr> ei_account = le_account e, ei_direction = opposite (le_direction e),
     ei_amount = le_amount e, ei_currency = le_currency e \<rparr>"

definition reversal_key :: "ledger_env \<Rightarrow> ledger_journal \<Rightarrow> string" where
  "reversal_key E j = ''reversal_'' @ lj_key j @ ''_'' @ show_int (lg_now E)"

definition entries_of :: "oid \<Rightarrow> ledger_db \<Rightarrow> ledger_entry list" where
  "entries_of jid s = filter (\<lambda>e. le_journal e = jid) (lg_entries s)"

definition reversal_input ::
  "ledger_env \<Rightarrow> ledger_journal \<Rightarrow> oid option \<Rightarrow> string \<Rightarrow> ledger_db \<Rightarrow> journal_input" where
  "reversal_input E j actor reason s = \<lparr> ji_key = reversal_key E j, ji_event = Ev_adjustment,
     ji_description = ''Reversal of journal '' @ lj_key j @ '': '' @ reason,
     ji_entries = map reversing_input (entries_of (lj_id j) s), ji_actor = actor,
     ji_reason = Some reason, ji_metadata = [(''reversalOf'', MStr (lj_id j))] \<rparr>"

definition mark_reversed :: "oid \<Rightarrow> oid \<Rightarrow> ledger_db \<Rightarrow> ledger_db" where
  "mark_reversed jid by s = s\<lparr>lg_journals := update_one (\<lambda>j. lj_id j = jid)
     (\<lambda>j. j\<lparr>lj_isReversed := True, lj_status := Jrn_Reversed, lj_reversedBy := Some by\<rparr>) (lg_journals s)\<rparr>"

definition reverseJournal ::
  "ledger_env \<Rightarrow> oid \<Rightarrow> oid option \<Rightarrow> string \<Rightarrow> ledger_db \<Rightarrow> (ledger_error + ledger_journal) \<times> ledger_db" where
  "reverseJournal E jid actor reason s =
     (if \<not> lg_valid_oid E jid then (Inl Cast_failed, s)
      else case find_one (\<lambda>j. lj_id j = jid) (lg_journals s) of
        None \<Rightarrow> (Inl Journal_not_found, s)
      | Some j \<Rightarrow>
          if lj_isReversed j then (Inl Already_reversed, s)
          else await (postJournal E (reversal_input E j actor reason s))
                 (\<lambda>r s'. (Inr r, mark_reversed jid (lj_id r) s')) s)"

end
