(* ===== verification/Ledger_Posting.thy ===== *)
theory Ledger_Posting
  imports Ledger_Model
begin

text \<open>
  The nine posting helpers of \<open>lib/ledger/posting.service.ts\<close>: each looks its accounts up
  (or creates them), in the order of the code, and posts one balanced journal.
\<close>

datatype wallet_user = User_driver | User_investor

record wallet_params =
  wp_user :: oid
  wp_type :: wallet_user
  wp_amount :: rat
  wp_currency :: "string option"
  wp_key :: string
  wp_description :: "string option"

record pool_params =
  pp_investor :: oid
  pp_pool :: string
  pp_amount :: rat
  pp_currency :: "string option"
  pp_key :: string

record down_params =
  dp_driver :: oid
  dp_pool :: "string option"
  dp_amount :: rat
  dp_currency :: "string option"
  dp_key :: string

record repay_params =
  rp_driver :: oid
  rp_amount :: rat
  rp_fee :: "rat option"
  rp_currency :: "string option"
  rp_key :: string

record adjust_params =
  ap_target :: oid
  ap_direction :: direction
  ap_amount :: rat
  ap_currency :: "string option"
  ap_actor :: "oid option"
  ap_reason :: string
  ap_key :: string

fun wallet_category :: "wallet_user \<Rightarrow> account_category" where
  "wallet_category User_investor = Investor_wallet"
| "wallet_category User_driver = Driver_balance"

fun wallet_owner :: "wallet_user \<Rightarrow> owner_type" where
  "wallet_owner User_investor = Own_investor"
| "wallet_owner User_driver = Own_driver"

fun wallet_text :: "wallet_user \<Rightarrow> string" where
  "wallet_text User_investor = ''investor''"
| "wallet_text User_driver = ''driver''"

definition owned_account :: "account_category \<Rightarrow> owner_type \<Rightarrow> oid \<Rightarrow> string \<Rightarrow> account_input" where
  "owned_account cat ot u cur = \<lparr> ai_category = cat, ai_type = Liability, ai_currency = cur,
     ai_owner = Some u, ai_ownerType = Some ot, ai_entity = None \<rparr>"

definition platform_account ::
  "account_category \<Rightarrow> account_type \<Rightarrow> string option \<Rightarrow> string \<Rightarrow> account_input" where
  "platform_account cat ty ent cur = \<lparr> ai_category = cat, ai_type = ty, ai_currency = cur,
     ai_owner = None, ai_ownerType = None, ai_entity = ent \<rparr>"

definition wallet_account :: "wallet_params \<Rightarrow> account_input" where
  "wallet_account p = owned_account (wallet_category (wp_type p)) (wallet_owner (wp_type p)) (wp_user p)
     (or_ngn (wp_currency p))"

definition or_text :: "string option \<Rightarrow> string \<Rightarrow> string" where
  "or_text x d = (if truthy x then the x else d)"

definition debit :: "ledger_account \<Rightarrow> rat \<Rightarrow> string \<Rightarrow> entry_input" where
  "debit a x c = \<lparr> ei_account = la_id a, ei_direction = Debit, ei_amount = x, ei_currency = c \<rparr>"

definition credit :: "ledger_account \<Rightarrow> rat \<Rightarrow> string \<Rightarrow> entry_input" where
  "credit a x c = \<lparr> ei_account = la_id a, ei_direction = Credit, ei_amount = x, ei_currency = c \<rparr>"

definition plain_journal :: "string \<Rightarrow> ledger_event \<Rightarrow> string \<Rightarrow> entry_input list \<Rightarrow> journal_input" where
  "plain_journal key ev d es = \<lparr> ji_key = key, ji_event = ev, ji_description = d, ji_entries = es,
     ji_actor = None, ji_reason = None, ji_metadata = [] \<rparr>"

type_synonym posting = "ledger_db \<Rightarrow> (ledger_error + ledger_journal) \<times> ledger_db"

definition postWalletFunding :: "ledger_env \<Rightarrow> wallet_params \<Rightarrow> posting" where
  "postWalletFunding E p =
     (let cur = or_ngn (wp_currency p) in
      await (getOrCreateAccount E (wallet_account p)) (\<lambda>wallet.
      await (getOrCreateAccount E (platform_account Platform_clearing Asset None cur)) (\<lambda>clearing.
      postJournal E (plain_journal (wp_key p) Ev_wallet_funding
        (or_text (wp_description p) (''Wallet funding for '' @ wallet_text (wp_type p) @ '' '' @ wp_user p))
        [debit clearing (wp_amount p) cur, credit wallet (wp_amount p) cur]))))"

definition postWalletDebit :: "ledger_env \<Rightarrow> wallet_params \<Rightarrow> posting" where
  "postWalletDebit E p =
     (let cur = or_ngn (wp_currency p) in
      await (getOrCreateAccount E (wallet_account p)) (\<lambda>wallet.
      await (getOrCreateAccount E (platform_account Platform_clearing Asset None cur)) (\<lambda>clearing.
      postJournal E (plain_journal (wp_key p) Ev_wallet_debit
        (or_text (wp_description p) (''Wallet debit for '' @ wallet_text (wp_type p) @ '' '' @ wp_user p))
        [debit wallet (wp_amount p) cur, credit clearing (wp_amount p) cur]))))"

definition postPoolInvestment :: "ledger_env \<Rightarrow> pool_params \<Rightarrow> posting" where
  "postPoolInvestment E p =
     (let cur = or_ngn (pp_currency p) in
      await (getOrCreateAccount E (owned_account Investor_wallet Own_investor (pp_investor p) cur)) (\<lambda>wallet.
      await (getOrCreateAccount E (platform_account Pool_escrow Liability (Some (pp_pool p)) cur)) (\<lambda>escrow.
      postJournal E (plain_journal (pp_key p) Ev_pool_investment (''Pool investment into '' @ pp_pool p)
        [debit wallet (pp_amount p) cur, credit escrow (pp_amount p) cur]))))"

definition postDownPayment :: "ledger_env \<Rightarrow> down_params \<Rightarrow> posting" where
  "postDownPayment E p =
     (let cur = or_ngn (dp_currency p) in
      await (getOrCreateAccount E (owned_account Driver_balance Own_driver (dp_driver p) cur)) (\<lambda>wallet.
      await (getOrCreateAccount E (platform_account Repayments_receivable Asset (dp_pool p) cur)) (\<lambda>receivable.
      postJournal E (plain_journal (dp_key p) Ev_down_payment (''Down payment by driver '' @ dp_driver p)
        [debit wallet (dp_amount p) cur, credit receivable (dp_amount p) cur]))))"

definition postRepayment :: "ledger_env \<Rightarrow> repay_params \<Rightarrow> posting" where
  "postRepayment E p =
     (let cur = or_ngn (rp_currency p);
          fee = (case rp_fee p of None \<Rightarrow> 0 | Some f \<Rightarrow> f);
          descr = ''Repayment from driver '' @ rp_driver p in
      await (getOrCreateAccount E (owned_account Driver_balance Own_driver (rp_driver p) cur)) (\<lambda>wallet.
      await (getOrCreateAccount E (platform_account Repayments_receivable Asset None cur)) (\<lambda>receivable.
      let entries = [debit wallet (rp_amount p) cur, credit receivable (rp_amount p - fee) cur] in
      if 0 < fee then
        await (getOrCreateAccount E (platform_account Revenue_fees Revenue None cur)) (\<lambda>revenue.
        postJournal E (plain_journal (rp_key p) Ev_repayment descr (entries @ [credit revenue fee cur])))
      else postJournal E (plain_journal (rp_key p) Ev_repayment descr entries))))"

definition postRefund :: "ledger_env \<Rightarrow> pool_params \<Rightarrow> posting" where
  "postRefund E p =
     (let cur = or_ngn (pp_currency p) in
      await (getOrCreateAccount E (platform_account Pool_escrow Liability (Some (pp_pool p)) cur)) (\<lambda>escrow.
      await (getOrCreateAccount E (owned_account Investor_wallet Own_investor (pp_investor p) cur)) (\<lambda>wallet.
      postJournal E (plain_journal (pp_key p) Ev_refund
        (''Refund from pool '' @ pp_pool p @ '' to investor '' @ pp_investor p)
        [debit escrow (pp_amount p) cur, credit wallet (pp_amount p) cur]))))"

definition postPayout :: "ledger_env \<Rightarrow> wallet_params \<Rightarrow> posting" where
  "postPayout E p =
     (let cur = or_ngn (wp_currency p) in
      await (getOrCreateAccount E (platform_account Payouts_payable Liability None cur)) (\<lambda>payable.
      await (getOrCreateAccount E (platform_account Platform_clearing Asset None cur)) (\<lambda>clearing.
      postJournal E (plain_journal (wp_key p) Ev_payout
        (''Payout processing for '' @ wallet_text (wp_type p) @ '' '' @ wp_user p)
        [debit payable (wp_amount p) cur, credit clearing (wp_amount p) cur]))))"

definition postFee :: "ledger_env \<Rightarrow> wallet_params \<Rightarrow> posting" where
  "postFee E p =
     (let cur = or_ngn (wp_currency p) in
      await (getOrCreateAccount E (wallet_account p)) (\<lambda>wallet.
      await (getOrCreateAccount E (platform_account Revenue_fees Revenue None cur)) (\<lambda>revenue.
      postJournal E (plain_journal (wp_key p) Ev_fee
        (or_text (wp_description p)
           (''Platform fee charged to '' @ wallet_text (wp_type p) @ '' '' @ wp_user p))
        [debit wallet (wp_amount p) cur, credit revenue (wp_amount p) cur]))))"

definition postAdjustment :: "ledger_env \<Rightarrow> adjust_params \<Rightarrow> posting" where
  "postAdjustment E p =
     (let cur = or_ngn (ap_currency p) in
      await (getOrCreateAccount E (platform_account Adjustment_category Equity None cur)) (\<lambda>adj.
      postJournal E \<lparr> ji_key = ap_key p, ji_event = Ev_adjustment,
        ji_description = ''Administrative adjustment: '' @ ap_reason p,
        ji_entries = [
          \<lparr> ei_account = ap_target p, ei_direction = ap_direction p, ei_amount = ap_amount p, ei_currency = cur \<rparr>,
          \<lparr> ei_account = la_id adj, ei_direction = opposite (ap_direction p), ei_amount = ap_amount p,
            ei_currency = cur \<rparr>],
        ji_actor = ap_actor p, ji_reason = Some (ap_reason p), ji_metadata = [] \<rparr>))"

subsection \<open>Runs of ledger operations\<close>

datatype ledger_op =
  Wallet_funding wallet_params | Wallet_debit wallet_params | Pool_investment pool_params
| Down_payment down_params | Repayment repay_params | Refund pool_params | Payout wallet_params
| Fee wallet_params | Adjust adjust_params | Reverse oid "oid option" string

fun run_ledger_op :: "ledger_env \<Rightarrow> ledger_op \<Rightarrow> posting" where
  "run_ledger_op E (Wallet_funding p) = postWalletFunding E p"
| "run_ledger_op E (Wallet_debit p) = postWalletDebit E p"
| "run_ledger_op E (Pool_investment p) = postPoolInvestment E p"
| "run_ledger_op E (Down_payment p) = postDownPayment E p"
| "run_ledger_op E (Repayment p) = postRepayment E p"
| "run_ledger_op E (Refund p) = postRefund E p"
| "run_ledger_op E (Payout p) = postPayout E p"
| "run_ledger_op E (Fee p) = postFee E p"
| "run_ledger_op E (Adjust p) = postAdjustment E p"
| "run_ledger_op E (Reverse j a r) = reverseJournal E j a r"

text \<open>Operations happen at their own times: a run pairs each with its environment.\<close>

definition run_ledger :: "ledger_env \<times> ledger_op \<Rightarrow> posting" where
  "run_ledger = (\<lambda>(E, op). run_ledger_op E op)"

end
