(* ===== verification/Ledger_Projection.thy ===== *)
theory Ledger_Projection
  imports Ledger_Posting Contract_Service
begin

text \<open>
  Balances derived from the ledger (\<open>lib/ledger/projection.service.ts\<close>) and the filters of
  the transaction ledger dashboard (\<open>lib/ledger/ledger.ts\<close>).
\<close>

subsection \<open>Account balances\<close>

definition direction_total :: "direction \<Rightarrow> ledger_entry list \<Rightarrow> rat" where
  "direction_total d es = (\<Sum>e\<leftarrow>filter (\<lambda>e. le_direction e = d) es. le_amount e)"

fun natural_balance :: "account_type \<Rightarrow> rat \<Rightarrow> rat \<Rightarrow> rat" where
  "natural_balance Asset d c = to_fixed6 (d - c)"
| "natural_balance Expense d c = to_fixed6 (d - c)"
| "natural_balance _ d c = to_fixed6 (c - d)"

definition computeAccountBalance :: "oid \<Rightarrow> ledger_db \<Rightarrow> ledger_error + rat" where
  "computeAccountBalance aid s =
     (case find_one (\<lambda>a. la_id a = aid) (lg_accounts s) of
        None \<Rightarrow> Inl Account_not_found
      | Some a \<Rightarrow>
          (let entries = filter (\<lambda>e. le_account e = aid) (lg_entries s);
               debitTotal = to_fixed6 (direction_total Debit entries);
               creditTotal = to_fixed6 (direction_total Credit entries)
           in Inr (natural_balance (la_type a) debitTotal creditTotal)))"

subsection \<open>Rebuilding the cached balances\<close>

definition wallet_accounts :: "ledger_db \<Rightarrow> ledger_account list" where
  "wallet_accounts s = filter (\<lambda>a. la_category a \<in> {Investor_wallet, Driver_balance} \<and> la_owner a \<noteq> None)
     (lg_accounts s)"

record rebuild_report =
  rr_updatedCount :: nat
  rr_errors :: "(oid option \<times> ledger_error) list"

fun rebuild_loop ::
  "ledger_db \<Rightarrow> ledger_account list \<Rightarrow> user list \<Rightarrow> rebuild_report \<Rightarrow> user list \<times> rebuild_report" where
  "rebuild_loop s [] us r = (us, r)"
| "rebuild_loop s (a # as) us r =
     (case computeAccountBalance (la_id a) s of
        Inl e \<Rightarrow> rebuild_loop s as us (r\<lparr>rr_errors := rr_errors r @ [(la_owner a, e)]\<rparr>)
      | Inr b \<Rightarrow> rebuild_loop s as
          (update_one (\<lambda>u. Some (u_id u) = la_owner a) (\<lambda>u. u\<lparr>u_availableBalance := b\<rparr>) us)
          (r\<lparr>rr_updatedCount := Suc (rr_updatedCount r)\<rparr>))"

definition rebuildUserBalances :: "ledger_db \<Rightarrow> user list \<Rightarrow> user list \<times> rebuild_report" where
  "rebuildUserBalances s us =
     rebuild_loop s (wallet_accounts s) us \<lparr> rr_updatedCount = 0, rr_errors = [] \<rparr>"

subsection \<open>Reconciliation\<close>

definition report_currency :: "ledger_entry \<Rightarrow> string" where
  "report_currency e = or_ngn (Some (le_currency e))"

fun reconcile_add :: "ledger_entry \<Rightarrow> currency_totals \<Rightarrow> currency_totals" where
  "reconcile_add e [] =
     [(report_currency e, if le_direction e = Debit then le_amount e else 0,
       if le_direction e = Debit then 0 else le_amount e)]"
| "reconcile_add e ((c, d, k) # ts) =
     (if report_currency e = c then
        (c, if le_direction e = Debit then d + le_amount e else d,
         if le_direction e = Debit then k else k + le_amount e) # ts
      else (c, d, k) # reconcile_add e ts)"

definition reconcile_totals :: "ledger_entry list \<Rightarrow> currency_totals" where
  "reconcile_totals es = fold reconcile_add es []"

record currency_report =
  cr_currency :: string
  cr_totalDebits :: rat
  cr_totalCredits :: rat
  cr_imbalance :: rat

definition currency_line :: "string \<times> rat \<times> rat \<Rightarrow> currency_report" where
  "currency_line = (\<lambda>(c, d, k). \<lparr> cr_currency = c, cr_totalDebits = to_fixed6 d, cr_totalCredits = to_fixed6 k,
     cr_imbalance = to_fixed6 (to_fixed6 d - to_fixed6 k) \<rparr>)"

record account_line =
  al_accountId :: oid
  al_name :: string
  al_category :: account_category
  al_currency :: string
  al_balance :: "ledger_error + rat"

record reconciliation_report =
  rc_isBalanced :: bool
  rc_totals :: "currency_report list"
  rc_accounts :: "account_line list"

definition reconcileLedger :: "ledger_db \<Rightarrow> reconciliation_report" where
  "reconcileLedger s =
     (let lines = map currency_line (reconcile_totals (lg_entries s))
      in \<lparr> rc_isBalanced = list_all (\<lambda>l. \<not> \<bar>cr_imbalance l\<bar> > tolerance) lines,
           rc_totals = lines,
           rc_accounts = map (\<lambda>a. \<lparr> al_accountId = la_id a, al_name = la_name a,
             al_category = la_category a, al_currency = la_currency a,
             al_balance = computeAccountBalance (la_id a) s \<rparr>) (lg_accounts s) \<rparr>)"

subsection \<open>The transaction ledger of the dashboard\<close>

definition LEDGER_TRANSACTION_TYPES :: "string list" where
  "LEDGER_TRANSACTION_TYPES =
     [''investment'', ''loan_disbursement'', ''repayment'', ''deposit'', ''withdrawal'', ''return'',
      ''pool_investment'', ''wallet_funding'', ''wallet_debit'', ''down_payment'']"

definition LEDGER_STATUSES :: "string list" where
  "LEDGER_STATUSES = [''Pending'', ''Completed'', ''Failed'']"

definition LEDGER_METHODS :: "string list" where
  "LEDGER_METHODS = [''wallet'', ''internal_wallet'', ''gateway'', ''paystack'', ''privy'', ''system'']"

definition LEDGER_USER_TYPES :: "string list" where
  "LEDGER_USER_TYPES = [''driver'', ''investor'', ''admin'']"

datatype reconciliation_status = Reconciled | Rec_Pending | Rec_Failed | Rec_Duplicate

definition CREDIT_TYPES :: "string list" where
  "CREDIT_TYPES = [''deposit'', ''wallet_funding'', ''return'', ''loan_disbursement'']"

definition getLedgerDirection :: "string \<Rightarrow> direction" where
  "getLedgerDirection t = (if t \<in> set CREDIT_TYPES then Credit else Debit)"

definition getReconciliationStatus :: "string \<Rightarrow> string option \<Rightarrow> string list \<Rightarrow> reconciliation_status" where
  "getReconciliationStatus status reference duplicates =
     (if status = ''Failed'' then Rec_Failed
      else if status = ''Pending'' then Rec_Pending
      else if truthy reference \<and> the reference \<in> set duplicates then Rec_Duplicate
      else Reconciled)"

record ledger_query =
  lq_search :: string
  lq_type :: string
  lq_status :: string
  lq_method :: string
  lq_from :: string
  lq_to :: string
  lq_userType :: string
  lq_userId :: string

datatype ledger_role = Role_admin | Role_driver | Role_investor

record ledger_actor =
  act_id :: string
  act_role :: ledger_role

text \<open>
  The MongoDB filter that is built, one optional field per key.  \<open>parse\<close> stands for
  \<open>new Date(s).getTime()\<close> (\<open>None\<close> is an invalid date) and \<open>day_end\<close> for
  \<open>setHours(23, 59, 59, 999)\<close> in the server's time zone; the search string is matched
  literally and without case, as its escaped regular expression does.
\<close>

record ledger_filter =
  lf_userId :: "string option"
  lf_userType :: "string option"
  lf_type :: "string option"
  lf_status :: "string option"
  lf_method :: "string option"
  lf_gte :: "time option"
  lf_lte :: "time option"
  lf_search :: "string option"

definition one_of :: "string \<Rightarrow> string list \<Rightarrow> string option" where
  "one_of x xs = (if x \<in> set xs then Some x else None)"

definition buildLedgerFilter ::
  "(string \<Rightarrow> time option) \<Rightarrow> (time \<Rightarrow> time) \<Rightarrow> ledger_query \<Rightarrow> ledger_actor \<Rightarrow> ledger_filter" where
  "buildLedgerFilter parse day_end q actor =
     \<lparr> lf_userId = (if act_role actor = Role_admin then (if lq_userId q \<noteq> [] then Some (lq_userId q) else None)
                    else Some (act_id actor)),
       lf_userType = (if act_role actor = Role_admin then one_of (lq_userType q) LEDGER_USER_TYPES else None),
       lf_type = one_of (lq_type q) LEDGER_TRANSACTION_TYPES,
       lf_status = one_of (lq_status q) LEDGER_STATUSES,
       lf_method = one_of (lq_method q) LEDGER_METHODS,
       lf_gte = (if lq_from q \<noteq> [] then parse (lq_from q) else None),
       lf_lte = (if lq_to q \<noteq> [] then map_option day_end (parse (lq_to q)) else None),
       lf_search = (if lq_search q \<noteq> [] then Some (lq_search q) else None) \<rparr>"

end
