(* ===== verification/Ledger_Books.thy ===== *)
theory Ledger_Books
  imports Ledger_Projection
begin

text \<open>
  The library of ledger lemmas: signed sums of entries, the effect of \<open>getOrCreateAccount\<close>
  and \<open>postJournal\<close> on the collections, and the invariants of a ledger that has only been
  written through the posting service.
\<close>

subsection \<open>Signed sums\<close>

definition signed :: "ledger_entry \<Rightarrow> rat" where
  "signed e = (case le_direction e of Debit \<Rightarrow> le_amount e | Credit \<Rightarrow> - le_amount e)"

definition net :: "(ledger_entry \<Rightarrow> bool) \<Rightarrow> ledger_entry list \<Rightarrow> rat" where
  "net P es = (\<Sum>e\<leftarrow>filter P es. signed e)"

lemma net_Nil [simp]: "net P [] = 0"
  by (simp add: net_def)

lemma net_Cons [simp]: "net P (e # es) = (if P e then signed e else 0) + net P es"
  by (simp add: net_def)

lemma net_append [simp]: "net P (es @ fs) = net P es + net P fs"
  by (simp add: net_def)

lemma net_cong: "(\<And>e. e \<in> set es \<Longrightarrow> P e = Q e) \<Longrightarrow> net P es = net Q es"
  by (induction es) auto

lemma net_filter: "net P (filter Q es) = net (\<lambda>e. Q e \<and> P e) es"
  by (induction es) auto

lemma net_none: "(\<And>e. e \<in> set es \<Longrightarrow> \<not> P e) \<Longrightarrow> net P es = 0"
  by (induction es) auto

lemma net_directions:
  "net P es = direction_total Debit (filter P es) - direction_total Credit (filter P es)"
proof (induction es)
  case Nil
  then show ?case by (simp add: direction_total_def)
next
  case (Cons e es)
  then show ?case by (cases "le_direction e") (simp_all add: direction_total_def signed_def)
qed

lemma micro_direction_total:
  "list_all (\<lambda>e. micro (le_amount e)) es \<Longrightarrow> micro (direction_total d es)"
  by (induction es) (auto simp: direction_total_def intro: micro_add)

text \<open>The same on the inputs of a journal.\<close>

definition isigned :: "entry_input \<Rightarrow> rat" where
  "isigned e = (case ei_direction e of Debit \<Rightarrow> ei_amount e | Credit \<Rightarrow> - ei_amount e)"

definition inet :: "string \<Rightarrow> entry_input list \<Rightarrow> rat" where
  "inet c es = (\<Sum>e\<leftarrow>filter (\<lambda>e. entry_currency e = c) es. isigned e)"

lemma inet_Nil [simp]: "inet c [] = 0"
  by (simp add: inet_def)

lemma inet_Cons [simp]: "inet c (e # es) = (if entry_currency e = c then isigned e else 0) + inet c es"
  by (simp add: inet_def)

lemma inet_append [simp]: "inet c (es @ fs) = inet c es + inet c fs"
  by (simp add: inet_def)

lemma entry_doc_sel [simp]:
  "le_journal (entry_doc j e) = lj_id j" "le_account (entry_doc j e) = ei_account e"
  "le_amount (entry_doc j e) = ei_amount e" "le_currency (entry_doc j e) = entry_currency e"
  "le_direction (entry_doc j e) = ei_direction e"
  by (simp_all add: entry_doc_def)

lemma signed_entry_doc [simp]: "signed (entry_doc j e) = isigned e"
  by (cases "ei_direction e") (simp_all add: signed_def isigned_def)

lemma net_entry_docs:
  "net (\<lambda>e. le_currency e = c) (map (entry_doc j) es) = inet c es"
  by (induction es) auto

lemma or_ngn_nonempty [simp]: "or_ngn x \<noteq> []"
  by (auto simp: or_ngn_def split: option.splits)

lemma or_ngn_id: "c \<noteq> [] \<Longrightarrow> or_ngn (Some c) = c"
  by (simp add: or_ngn_def)

lemma entry_currency_nonempty [simp]: "entry_currency e \<noteq> []"
  by (simp add: entry_currency_def)

lemma signed_reversing [simp]: "isigned (reversing_input e) = - signed e"
  by (cases "le_direction e") (simp_all add: isigned_def signed_def reversing_input_def)

lemma reversing_sel [simp]:
  "ei_amount (reversing_input e) = le_amount e" "ei_account (reversing_input e) = le_account e"
  "entry_currency (reversing_input e) = or_ngn (Some (le_currency e))"
  by (simp_all add: reversing_input_def entry_currency_def)

subsection \<open>The check of a journal\<close>

text \<open>Looking a currency up in the totals of a journal.\<close>

fun total_of :: "string \<Rightarrow> currency_totals \<Rightarrow> rat \<times> rat" where
  "total_of c [] = (0, 0)"
| "total_of c ((c', d, k) # ts) = (if c = c' then (d, k) else total_of c ts)"

definition micro_totals :: "currency_totals \<Rightarrow> bool" where
  "micro_totals ts \<longleftrightarrow> list_all (\<lambda>(c, d, k). micro d \<and> micro k) ts"

lemma micro_add_to_totals:
  "micro (ei_amount e) \<Longrightarrow> micro_totals ts \<Longrightarrow> micro_totals (add_to_totals e c ts)"
  by (induction ts) (auto simp: micro_totals_def to_fixed6_id micro_add split: direction.splits)

lemma total_of_add:
  assumes "micro (ei_amount e)" and "micro_totals ts"
  shows "fst (total_of c (add_to_totals e c' ts)) - snd (total_of c (add_to_totals e c' ts))
    = fst (total_of c ts) - snd (total_of c ts) + (if c = c' then isigned e else 0)"
  using assms
  by (induction ts)
    (auto simp: micro_totals_def to_fixed6_id micro_add isigned_def split: direction.splits)

lemma journal_totals_net:
  assumes "journal_totals es ts = Inr ts'" and "list_all (\<lambda>e. micro (ei_amount e)) es" and "micro_totals ts"
  shows "micro_totals ts' \<and> (\<forall>c. fst (total_of c ts') - snd (total_of c ts')
    = fst (total_of c ts) - snd (total_of c ts) + inet c es)"
  using assms
proof (induction es arbitrary: ts)
  case Nil
  then show ?case by simp
next
  case (Cons e es)
  then have "journal_totals es (add_to_totals e (entry_currency e) ts) = Inr ts'"
    by (simp split: if_splits)
  from Cons.IH [OF this] Cons.prems(2,3) show ?case
    by (simp add: micro_add_to_totals total_of_add)
qed

lemma journal_totals_Inr:
  "list_all (\<lambda>e. 0 < ei_amount e) es \<Longrightarrow> \<exists>ts'. journal_totals es ts = Inr ts'"
  by (induction es arbitrary: ts) (auto simp: not_le)

lemma journal_totals_positive:
  "journal_totals es ts = Inr ts' \<Longrightarrow> list_all (\<lambda>e. 0 < ei_amount e) es"
  by (induction es arbitrary: ts) (auto split: if_splits)

lemma check_totals_None:
  "check_totals ts = None \<longleftrightarrow> list_all (\<lambda>(c, d, k). \<bar>d - k\<bar> \<le> tolerance) ts"
  by (induction ts) (auto simp: not_less split: if_splits)

lemma check_totals_of:
  "check_totals ts = None \<Longrightarrow> \<bar>fst (total_of c ts) - snd (total_of c ts)\<bar> \<le> tolerance"
  by (induction ts) (auto simp: tolerance_def split: if_splits)

text \<open>Every line of the totals has its own currency.\<close>

lemma fst_add_to_totals:
  "fst ` set (add_to_totals e c ts) = insert c (fst ` set ts)"
proof (induction ts)
  case Nil
  then show ?case by (simp split: direction.splits)
next
  case (Cons t ts)
  obtain c' d k where "t = (c', d, k)" by (cases t)
  with Cons show ?case by (simp add: insert_commute split: direction.splits)
qed

lemma distinct_add_to_totals:
  "distinct (map fst ts) \<Longrightarrow> distinct (map fst (add_to_totals e c ts))"
proof (induction ts)
  case Nil
  then show ?case by (simp split: direction.splits)
next
  case (Cons t ts)
  obtain c' d k where t: "t = (c', d, k)" by (cases t)
  have "c \<noteq> c' \<Longrightarrow> c' \<notin> set (map fst (add_to_totals e c ts))"
    using Cons.prems fst_add_to_totals [of e c ts] by (simp add: t)
  with Cons show ?case by (auto simp: t split: direction.splits)
qed

lemma distinct_journal_totals:
  "journal_totals es ts = Inr ts' \<Longrightarrow> distinct (map fst ts) \<Longrightarrow> distinct (map fst ts')"
  by (induction es arbitrary: ts) (auto simp: distinct_add_to_totals split: if_splits)

lemma total_of_member:
  "distinct (map fst ts) \<Longrightarrow> (c, d, k) \<in> set ts \<Longrightarrow> total_of c ts = (d, k)"
proof (induction ts)
  case Nil
  then show ?case by simp
next
  case (Cons t ts)
  then show ?case by (cases t) (force simp: image_iff)
qed

text \<open>An exactly balanced journal of amounts with at most six decimals passes the check.\<close>

lemma exact_journal_check:
  assumes "2 \<le> length (ji_entries p)" and "list_all (\<lambda>e. 0 < ei_amount e \<and> micro (ei_amount e)) (ji_entries p)"
    and "\<And>c. inet c (ji_entries p) = 0"
    and "ji_event p = Ev_adjustment \<Longrightarrow> truthy (ji_actor p) \<and> truthy (ji_reason p)"
  shows "journal_check p = None"
proof -
  from assms(2) have pos: "list_all (\<lambda>e. 0 < ei_amount e) (ji_entries p)"
    and mic: "list_all (\<lambda>e. micro (ei_amount e)) (ji_entries p)"
    by (auto simp: list_all_iff)
  obtain ts where ts: "journal_totals (ji_entries p) [] = Inr ts"
    using journal_totals_Inr [OF pos] by blast
  have eq: "fst (total_of c ts) = snd (total_of c ts)" for c
    using journal_totals_net [OF ts mic] assms(3) by (simp add: micro_totals_def)
  have "distinct (map fst ts)" using distinct_journal_totals [OF ts] by simp
  then have "d = k" if "(c, d, k) \<in> set ts" for c d k
    using that eq [of c] total_of_member [of ts c d k] by simp
  then have "check_totals ts = None"
    by (fastforce simp: check_totals_None list_all_iff tolerance_def)
  with assms(1,4) ts show ?thesis by (auto simp: journal_check_def)
qed

lemma journal_check_net:
  assumes "journal_check p = None" and "list_all (\<lambda>e. micro (ei_amount e)) (ji_entries p)"
  shows "\<bar>inet c (ji_entries p)\<bar> \<le> tolerance"
proof -
  from assms(1) obtain ts where ts: "journal_totals (ji_entries p) [] = Inr ts" "check_totals ts = None"
    by (auto simp: journal_check_def split: if_splits sum.splits)
  then show ?thesis
    using journal_totals_net [OF ts(1) assms(2)] check_totals_of [of ts c] by (simp add: micro_totals_def)
qed

lemma journal_check_positive:
  "journal_check p = None \<Longrightarrow> list_all (\<lambda>e. 0 < ei_amount e) (ji_entries p)"
  by (auto simp: journal_check_def dest: journal_totals_positive split: if_splits sum.splits)

subsection \<open>What the surroundings guarantee\<close>

text \<open>
  \<open>good_ids\<close>: the driver's object ids are pairwise different and well-formed;
  \<open>good_env\<close>: the environment of a call uses these ids and its database stores what it
  accepts.
\<close>

definition good_ids :: "(nat \<Rightarrow> oid) \<Rightarrow> (string \<Rightarrow> bool) \<Rightarrow> bool" where
  "good_ids ids vld \<longleftrightarrow> inj ids \<and> (\<forall>n. vld (ids n))"

definition id_env :: "(nat \<Rightarrow> oid) \<Rightarrow> (string \<Rightarrow> bool) \<Rightarrow> ledger_env \<Rightarrow> bool" where
  "id_env ids vld E \<longleftrightarrow> lg_oid E = ids \<and> lg_valid_oid E = vld"

text \<open>
  Every entry is stored.  The posting service writes the journal first and may fail on an entry; what
  then stays behind is not covered by the results that assume \<open>good_env\<close>.
\<close>

definition good_env :: "(nat \<Rightarrow> oid) \<Rightarrow> (string \<Rightarrow> bool) \<Rightarrow> ledger_env \<Rightarrow> bool" where
  "good_env ids vld E \<longleftrightarrow> id_env ids vld E \<and> (\<forall>n. lg_stored E n)"

text \<open>The shape of a ledger that only the posting service has written.\<close>

definition well_formed :: "(nat \<Rightarrow> oid) \<Rightarrow> (string \<Rightarrow> bool) \<Rightarrow> ledger_db \<Rightarrow> bool" where
  "well_formed ids vld s \<longleftrightarrow>
     la_id ` set (lg_accounts s) \<union> lj_id ` set (lg_journals s) \<subseteq> ids ` {..<lg_next s}
     \<and> distinct (map la_id (lg_accounts s)) \<and> distinct (map lj_id (lg_journals s))
     \<and> distinct (map lj_key (lg_journals s))
     \<and> list_all (\<lambda>e. le_journal e \<in> lj_id ` set (lg_journals s) \<and> min_entry \<le> le_amount e
          \<and> vld (le_account e) \<and> le_currency e \<noteq> []) (lg_entries s)"

lemma well_formedD:
  assumes "well_formed ids vld s"
  shows "la_id ` set (lg_accounts s) \<subseteq> ids ` {..<lg_next s}"
    and "lj_id ` set (lg_journals s) \<subseteq> ids ` {..<lg_next s}"
    and "distinct (map la_id (lg_accounts s))" and "distinct (map lj_id (lg_journals s))"
    and "distinct (map lj_key (lg_journals s))"
    and "\<And>e. e \<in> set (lg_entries s) \<Longrightarrow> le_journal e \<in> lj_id ` set (lg_journals s)
          \<and> min_entry \<le> le_amount e \<and> vld (le_account e) \<and> le_currency e \<noteq> []"
  using assms by (auto simp: well_formed_def list_all_iff)

lemma fresh_id:
  "good_ids ids vld \<Longrightarrow> X \<subseteq> ids ` {..<n} \<Longrightarrow> ids n \<notin> X"
  by (auto simp: good_ids_def inj_def)

lemma ids_grow: "X \<subseteq> ids ` {..<n} \<Longrightarrow> X \<subseteq> ids ` {..<Suc n}"
  by (auto simp: lessThan_Suc)

subsection \<open>The effect of the two core calls\<close>

lemma account_call:
  assumes "getOrCreateAccount E p s = (r, s')" and "id_env ids vld E" and "good_ids ids vld"
    and "well_formed ids vld s"
  shows "well_formed ids vld s'" and "lg_journals s' = lg_journals s" and "lg_entries s' = lg_entries s"
    and "\<exists>new. lg_accounts s' = lg_accounts s @ new
           \<and> list_all (\<lambda>a. la_type a = ai_type p \<and> la_category a = ai_category p) new"
    and "\<And>a. r = Inr a \<Longrightarrow> a \<in> set (lg_accounts s') \<and> vld (la_id a)
           \<and> la_category a = ai_category p \<and> la_currency a = or_ngn (Some (ai_currency p))"
proof -
  let ?q = "p\<lparr>ai_currency := or_ngn (Some (ai_currency p))\<rparr>"
  note wf = well_formedD [OF assms(4)]
  have old: "vld (la_id a)" if "a \<in> set (lg_accounts s)" for a
    using that wf(1) assms(3) by (auto simp: good_ids_def)
  consider (same) "s' = s" "\<And>a. r = Inr a \<Longrightarrow> find_one (account_matches ?q) (lg_accounts s) = Some a"
    | (new) "r = Inr (new_account E ?q s)"
        "s' = s\<lparr>lg_accounts := lg_accounts s @ [new_account E ?q s], lg_next := Suc (lg_next s)\<rparr>"
  proof (cases "find_one (account_matches ?q) (lg_accounts s)")
    case None
    have "(s' = s \<and> (\<exists>e. r = Inl e)) \<or> (r = Inr (new_account E ?q s)
      \<and> s' = s\<lparr>lg_accounts := lg_accounts s @ [new_account E ?q s], lg_next := Suc (lg_next s)\<rparr>)"
      using assms(1) unfolding getOrCreateAccount_def Let_def None by (simp split: if_splits) blast+
    then show thesis using same new by fastforce
  next
    case (Some a)
    have "s' = s \<and> (\<forall>b. r = Inr b \<longrightarrow> b = a)"
      using assms(1) unfolding getOrCreateAccount_def Let_def Some by (auto split: if_splits)
    then show thesis using same Some by blast
  qed
  then have "well_formed ids vld s' \<and> lg_journals s' = lg_journals s \<and> lg_entries s' = lg_entries s
    \<and> (\<exists>new. lg_accounts s' = lg_accounts s @ new
           \<and> list_all (\<lambda>a. la_type a = ai_type p \<and> la_category a = ai_category p) new)
    \<and> (\<forall>a. r = Inr a \<longrightarrow> a \<in> set (lg_accounts s') \<and> vld (la_id a)
           \<and> la_category a = ai_category p \<and> la_currency a = or_ngn (Some (ai_currency p)))"
  proof cases
    case same
    with assms(4) old show ?thesis
      by (auto dest!: find_one_SomeD simp: account_matches_def)
  next
    case new
    have id: "lg_oid E = ids" "vld (ids (lg_next s))"
      using assms(2,3) by (simp_all add: id_env_def good_ids_def)
    have "ids (lg_next s) \<notin> la_id ` set (lg_accounts s)" using fresh_id [OF assms(3) wf(1)] .
    then have "well_formed ids vld s'"
      using assms(4) id ids_grow [OF wf(1)] ids_grow [OF wf(2)]
      by (simp add: well_formed_def new new_account_def)
    with new id show ?thesis by (simp add: new_account_def)
  qed
  then show "well_formed ids vld s'" and "lg_journals s' = lg_journals s" and "lg_entries s' = lg_entries s"
    and "\<exists>new. lg_accounts s' = lg_accounts s @ new
           \<and> list_all (\<lambda>a. la_type a = ai_type p \<and> la_category a = ai_category p) new"
    and "\<And>a. r = Inr a \<Longrightarrow> a \<in> set (lg_accounts s') \<and> vld (la_id a)
           \<and> la_category a = ai_category p \<and> la_currency a = or_ngn (Some (ai_currency p))"
    by blast+
qed

lemma storable_all:
  assumes "\<And>n. lg_stored E n" and "list_all (entry_valid E) es"
  shows "storable E es = es"
proof -
  have "filter (\<lambda>(i, e). lg_stored E i \<and> entry_valid E e) (enumerate 0 es) = enumerate 0 es"
    using assms by (auto simp: list_all_iff filter_id_conv in_set_enumerate_eq)
  then show ?thesis by (simp add: storable_def)
qed

lemma storable_subset: "e \<in> set (storable E es) \<Longrightarrow> e \<in> set es \<and> entry_valid E e"
  by (auto simp: storable_def in_set_enumerate_eq)

text \<open>What \<open>postJournal\<close> did: nothing at all, or a new journal with the entries that were stored.\<close>

lemma post_cases:
  assumes "postJournal E p s = (r, s')"
  obtains (old) j where "s' = s" "r = Inr j" "find_one (\<lambda>j. lj_key j = ji_key p) (lg_journals s) = Some j"
  | (refused) e where "s' = s" "r = Inl e" "find_one (\<lambda>j. lj_key j = ji_key p) (lg_journals s) = None"
      "journal_check p \<noteq> None \<or> \<not> journal_valid E p"
  | (posted) "find_one (\<lambda>j. lj_key j = ji_key p) (lg_journals s) = None"
      "journal_check p = None" "journal_valid E p"
      "s' = s\<lparr>lg_journals := lg_journals s @ [new_journal E p s],
              lg_entries := lg_entries s @ storable E (map (entry_doc (new_journal E p s)) (ji_entries p)),
              lg_next := Suc (lg_next s)\<rparr>"
      "r = (if storable E (map (entry_doc (new_journal E p s)) (ji_entries p))
               = map (entry_doc (new_journal E p s)) (ji_entries p)
            then Inr (new_journal E p s) else Inl Entry_rejected)"
  using assms
  by (auto simp: postJournal_def write_journal_def Let_def split: option.splits if_splits)

lemma new_journal_sel [simp]:
  "lj_id (new_journal E p s) = lg_oid E (lg_next s)" "lj_key (new_journal E p s) = ji_key p"
  "lj_isReversed (new_journal E p s) = False"
  by (simp_all add: new_journal_def)

lemma post_well_formed:
  assumes "postJournal E p s = (r, s')" and "id_env ids vld E" and "good_ids ids vld"
    and "well_formed ids vld s"
  shows "well_formed ids vld s'"
  using assms(1)
proof (cases rule: post_cases)
  case posted
  note wf = well_formedD [OF assms(4)]
  have id: "lg_oid E = ids" "lg_valid_oid E = vld" using assms(2) by (simp_all add: id_env_def)
  have fresh: "ids (lg_next s) \<notin> lj_id ` set (lg_journals s)" using fresh_id [OF assms(3) wf(2)] .
  have key: "ji_key p \<notin> lj_key ` set (lg_journals s)"
    using posted(1) by (force simp: find_None_iff)
  have "list_all (\<lambda>e. le_journal e \<in> insert (ids (lg_next s)) (lj_id ` set (lg_journals s))
      \<and> min_entry \<le> le_amount e \<and> vld (le_account e) \<and> le_currency e \<noteq> []) (lg_entries s')"
    using wf(6) id
    by (auto simp: posted(4) list_all_iff entry_valid_def dest!: storable_subset)
  with fresh key wf ids_grow [OF wf(1)] ids_grow [OF wf(2)] id show ?thesis
    by (simp add: well_formed_def posted(4))
qed (use assms(4) in simp_all)

lemma mark_reversed_sel [simp]:
  "lg_accounts (mark_reversed i b s) = lg_accounts s" "lg_entries (mark_reversed i b s) = lg_entries s"
  "lg_next (mark_reversed i b s) = lg_next s"
  "map lj_id (lg_journals (mark_reversed i b s)) = map lj_id (lg_journals s)"
  "map lj_key (lg_journals (mark_reversed i b s)) = map lj_key (lg_journals s)"
  by (simp_all add: mark_reversed_def update_one_keys)

lemma mark_reversed_well_formed:
  assumes "well_formed ids vld s"
  shows "well_formed ids vld (mark_reversed i b s)"
proof -
  have "lj_id ` set (lg_journals (mark_reversed i b s)) = lj_id ` set (lg_journals s)"
    by (metis list.set_map mark_reversed_sel(4))
  then show ?thesis using assms by (simp add: well_formed_def)
qed

lemma length_mark_reversed [simp]: "length (lg_journals (mark_reversed i b s)) = length (lg_journals s)"
  by (simp add: mark_reversed_def)

end
