(* ===== verification/Ledger_Invariants.thy ===== *)
theory Ledger_Invariants
  imports Ledger_Books
begin

text \<open>
  The invariants of the ledger.  What a posting helper needs from the two core calls is the
  locale \<open>ledger_service\<close>; it is interpreted three times on the model: for exactly balanced
  books, for books within the tolerance, and for the types of the chart of accounts.
\<close>

locale ledger_service =
  fixes acct :: "account_input \<Rightarrow> 's \<Rightarrow> ('e + 'a) \<times> 's"
    and post :: "'p \<Rightarrow> 's \<Rightarrow> ('e + 'j) \<times> 's"
    and inv :: "'s \<Rightarrow> bool"
    and charted :: "account_input \<Rightarrow> bool"
    and ok :: "'a \<Rightarrow> bool"
    and good :: "'p \<Rightarrow> bool"
  assumes acct_inv: "inv s \<Longrightarrow> charted q \<Longrightarrow> acct q s = (r, s') \<Longrightarrow> inv s'"
    and acct_ok: "inv s \<Longrightarrow> charted q \<Longrightarrow> acct q s = (Inr a, s') \<Longrightarrow> ok a"
    and post_inv: "inv s \<Longrightarrow> good p \<Longrightarrow> inv (snd (post p s))"
begin

lemma acct_then:
  assumes "inv s" and "charted q" and "\<And>a s'. inv s' \<Longrightarrow> ok a \<Longrightarrow> inv (snd (g a s'))"
  shows "inv (snd (await (acct q) g s))"
proof -
  obtain r s' where r: "acct q s = (r, s')" by (cases "acct q s")
  with assms acct_inv [of s q r s'] acct_ok [of s q _ s'] show ?thesis
    by (cases r) (auto simp: await_def)
qed

lemma two_accounts:
  assumes "inv s" and "charted q1" and "charted q2" and "\<And>a b. ok a \<Longrightarrow> ok b \<Longrightarrow> good (mk a b)"
  shows "inv (snd (await (acct q1) (\<lambda>a. await (acct q2) (\<lambda>b. post (mk a b))) s))"
  using assms by (intro acct_then post_inv) auto

end

subsection \<open>Exactly balanced books\<close>

definition exact_books :: "(nat \<Rightarrow> oid) \<Rightarrow> (string \<Rightarrow> bool) \<Rightarrow> ledger_db \<Rightarrow> bool" where
  "exact_books ids vld s \<longleftrightarrow> well_formed ids vld s
     \<and> list_all (\<lambda>e. micro (le_amount e)) (lg_entries s)
     \<and> (\<forall>c. net (\<lambda>e. le_currency e = c) (lg_entries s) = 0)
     \<and> (\<forall>j c. net (\<lambda>e. le_journal e = j \<and> le_currency e = c) (lg_entries s) = 0)"

definition exact_input :: "(string \<Rightarrow> bool) \<Rightarrow> journal_input \<Rightarrow> bool" where
  "exact_input vld p \<longleftrightarrow>
     list_all (\<lambda>e. micro (ei_amount e) \<and> vld (ei_account e)) (ji_entries p) \<and> (\<forall>c. inet c (ji_entries p) = 0)"

lemma micro_ge_min: "micro x \<Longrightarrow> 0 < x \<Longrightarrow> min_entry \<le> x"
proof -
  assume "micro x" "0 < x"
  then obtain k where k: "x = of_int k / 1000000" by (auto elim!: microE)
  with \<open>0 < x\<close> have "1 \<le> k" by (simp add: zero_less_divide_iff)
  then have "(1 :: rat) \<le> of_int k" by simp
  with k show ?thesis by (simp add: min_entry_def)
qed

lemma storable_inputs:
  assumes "good_env ids vld E" and "journal_check p = None"
    and "list_all (\<lambda>e. micro (ei_amount e) \<and> vld (ei_account e)) (ji_entries p)"
  shows "storable E (map (entry_doc j) (ji_entries p)) = map (entry_doc j) (ji_entries p)"
proof (rule storable_all)
  show "lg_stored E n" for n using assms(1) by (simp add: good_env_def)
  show "list_all (entry_valid E) (map (entry_doc j) (ji_entries p))"
    using assms journal_check_positive [OF assms(2)]
    by (auto simp: list_all_iff entry_valid_def good_env_def id_env_def intro: micro_ge_min)
qed

lemma net_journal_docs:
  "net (\<lambda>e. le_journal e = i \<and> le_currency e = c) (map (entry_doc j) es)
     = (if lj_id j = i then inet c es else 0)"
  by (induction es) auto

lemma exact_acct:
  assumes "exact_books ids vld s" and "getOrCreateAccount E q s = (r, s')" and "id_env ids vld E" and "good_ids ids vld"
  shows "exact_books ids vld s'"
  using assms account_call [OF assms(2,3,4)] by (simp add: exact_books_def)

lemma exact_post:
  assumes "exact_books ids vld s" and "exact_input vld p" and "good_env ids vld E" and "good_ids ids vld"
  shows "exact_books ids vld (snd (postJournal E p s))"
proof -
  obtain r s' where rs: "postJournal E p s = (r, s')" by (cases "postJournal E p s")
  have env: "id_env ids vld E" using assms(3) by (simp add: good_env_def)
  have wf: "well_formed ids vld s'"
    using post_well_formed [OF rs env assms(4)] assms(1) by (simp add: exact_books_def)
  from rs have "exact_books ids vld s'"
  proof (cases rule: post_cases)
    case posted
    let ?j = "new_journal E p s"
    have docs: "storable E (map (entry_doc ?j) (ji_entries p)) = map (entry_doc ?j) (ji_entries p)"
      using storable_inputs [OF assms(3) posted(2)] assms(2) by (simp add: exact_input_def)
    show ?thesis
      using wf assms(1,2) posted(4) docs
      by (auto simp: exact_books_def exact_input_def net_entry_docs net_journal_docs list_all_iff)
  qed (use assms(1) in simp_all)
  with rs show ?thesis by simp
qed

text \<open>The invariant of a call: its surroundings are good and the books are exact.\<close>

definition exact_state :: "(nat \<Rightarrow> oid) \<Rightarrow> (string \<Rightarrow> bool) \<Rightarrow> ledger_env \<Rightarrow> ledger_db \<Rightarrow> bool" where
  "exact_state ids vld E s \<longleftrightarrow> good_env ids vld E \<and> good_ids ids vld \<and> exact_books ids vld s"

interpretation exact: ledger_service "getOrCreateAccount E" "postJournal E" "exact_state ids vld E"
    "\<lambda>_. True" "\<lambda>a. vld (la_id a)" "exact_input vld" for E ids vld
proof
  show "exact_state ids vld E s'"
    if "exact_state ids vld E s" "True" "getOrCreateAccount E q s = (r, s')" for s q r s'
    using exact_acct [OF _ that(3)] that(1) by (simp add: exact_state_def good_env_def)
  show "vld (la_id a)"
    if "exact_state ids vld E s" "True" "getOrCreateAccount E q s = (Inr a, s')" for s q a s'
    using account_call(5) [OF that(3), of ids vld] that(1)
    by (simp add: exact_state_def good_env_def exact_books_def)
  show "exact_state ids vld E (snd (postJournal E p s))" if "exact_state ids vld E s" "exact_input vld p" for s p
    using exact_post that by (simp add: exact_state_def)
qed

text \<open>The amounts an operation brings in.\<close>

fun op_micro :: "(string \<Rightarrow> bool) \<Rightarrow> ledger_op \<Rightarrow> bool" where
  "op_micro vld (Wallet_funding p) = micro (wp_amount p)"
| "op_micro vld (Wallet_debit p) = micro (wp_amount p)"
| "op_micro vld (Pool_investment p) = micro (pp_amount p)"
| "op_micro vld (Down_payment p) = micro (dp_amount p)"
| "op_micro vld (Repayment p) =
     (micro (rp_amount p) \<and> (case rp_fee p of None \<Rightarrow> True | Some f \<Rightarrow> micro f \<and> 0 \<le> f))"
| "op_micro vld (Refund p) = micro (pp_amount p)"
| "op_micro vld (Payout p) = micro (wp_amount p)"
| "op_micro vld (Fee p) = micro (wp_amount p)"
| "op_micro vld (Adjust p) = (micro (ap_amount p) \<and> vld (ap_target p))"
| "op_micro vld (Reverse j a r) = True"

lemma exact_inputI:
  "list_all (\<lambda>e. micro (ei_amount e) \<and> vld (ei_account e)) (ji_entries p) \<Longrightarrow> (\<And>c. inet c (ji_entries p) = 0) \<Longrightarrow>
     exact_input vld p"
  by (simp add: exact_input_def)

lemmas journal_entry_simps =
  exact_input_def plain_journal_def debit_def credit_def isigned_def entry_currency_def

lemma exact_two_legs:
  assumes "micro x" and "vld (la_id a)" and "vld (la_id b)"
  shows "exact_input vld (plain_journal k ev d [debit a x c, credit b x c])"
  using assms by (simp add: journal_entry_simps)

lemma postings_exact:
  assumes "exact_state ids vld E s" and "op_micro vld op" and "\<forall>j a r. op \<noteq> Reverse j a r"
  shows "exact_state ids vld E (snd (run_ledger_op E op s))"
proof (cases op)
  case (Repayment p)
  let ?fee = "case rp_fee p of None \<Rightarrow> 0 | Some f \<Rightarrow> f"
  have fee: "micro ?fee" "0 \<le> ?fee" "micro (rp_amount p)" "micro (rp_amount p - ?fee)"
    using assms(2) Repayment by (auto split: option.splits intro: micro_diff)
  show ?thesis
    using fee by (auto simp: Repayment postRepayment_def Let_def journal_entry_simps
      intro!: exact.acct_then exact.post_inv assms(1))
next
  case (Adjust p)
  show ?thesis
    using assms(2) by (cases "ap_direction p")
      (auto simp: Adjust postAdjustment_def Let_def journal_entry_simps
        intro!: exact.acct_then exact.post_inv assms(1))
next
  case (Reverse j a r)
  with assms(3) show ?thesis by simp
qed (use assms(1,2) in \<open>auto simp: postWalletFunding_def postWalletDebit_def postPoolInvestment_def
    postDownPayment_def postRefund_def postPayout_def postFee_def Let_def
    intro!: exact.two_accounts exact_two_legs\<close>)

lemma mark_reversed_exact: "exact_state ids vld E s \<Longrightarrow> exact_state ids vld E (mark_reversed i b s)"
  by (simp add: exact_state_def exact_books_def mark_reversed_well_formed)

lemma inet_reversing:
  assumes "\<And>e. e \<in> set es \<Longrightarrow> le_currency e \<noteq> []"
  shows "inet c (map reversing_input es) = - net (\<lambda>e. le_currency e = c) es"
  using assms by (induction es) (auto simp: or_ngn_id)

lemma exact_entry:
  assumes "exact_books ids vld s" and "e \<in> set (lg_entries s)"
  shows "le_currency e \<noteq> [] \<and> vld (le_account e) \<and> micro (le_amount e) \<and> 0 < le_amount e"
proof -
  have "min_entry \<le> le_amount e \<and> vld (le_account e) \<and> le_currency e \<noteq> []"
    using assms well_formedD(6) [of ids vld s e] by (simp add: exact_books_def)
  moreover have "0 < min_entry" by (simp add: min_entry_def)
  ultimately show ?thesis using assms by (auto simp: exact_books_def list_all_iff)
qed

lemma reversal_input_exact:
  assumes "exact_books ids vld s"
  shows "exact_input vld (reversal_input E d a r s)"
proof (rule exact_inputI)
  show "list_all (\<lambda>e. micro (ei_amount e) \<and> vld (ei_account e)) (ji_entries (reversal_input E d a r s))"
    using exact_entry [OF assms] by (auto simp: reversal_input_def entries_of_def list_all_iff)
  show "inet c (ji_entries (reversal_input E d a r s)) = 0" for c
    using assms exact_entry [OF assms] inet_reversing [of "entries_of (lj_id d) s" c]
    by (simp add: reversal_input_def entries_of_def net_filter exact_books_def)
qed

lemma reversal_exact:
  assumes "exact_state ids vld E s"
  shows "exact_state ids vld E (snd (reverseJournal E j a r s))"
proof (cases "lg_valid_oid E j \<and> (\<exists>d. find_one (\<lambda>d. lj_id d = j) (lg_journals s) = Some d \<and> \<not> lj_isReversed d)")
  case False
  with assms show ?thesis
    by (auto simp: reverseJournal_def split: option.splits)
next
  case True
  then obtain d where d: "lg_valid_oid E j" "find_one (\<lambda>d. lj_id d = j) (lg_journals s) = Some d"
    "\<not> lj_isReversed d" by blast
  have "exact_state ids vld E (snd (postJournal E (reversal_input E d a r s) s))"
    using assms reversal_input_exact by (intro exact.post_inv) (auto simp: exact_state_def)
  then show ?thesis
    using d by (auto simp: reverseJournal_def await_def mark_reversed_exact split: prod.splits sum.splits)
qed

lemma run_exact:
  assumes "exact_state ids vld E s" and "op_micro vld op"
  shows "exact_state ids vld E (snd (run_ledger_op E op s))"
  using assms postings_exact [OF assms] reversal_exact [OF assms(1)] by (cases op) auto

subsection \<open>The reconciliation report\<close>

lemma total_of_reconcile_add:
  "fst (total_of c (reconcile_add e ts)) - snd (total_of c (reconcile_add e ts))
     = fst (total_of c ts) - snd (total_of c ts) + (if report_currency e = c then signed e else 0)"
  by (induction ts) (auto simp: signed_def split: direction.splits)

lemma total_of_reconcile:
  "fst (total_of c (fold reconcile_add es ts)) - snd (total_of c (fold reconcile_add es ts))
     = fst (total_of c ts) - snd (total_of c ts) + net (\<lambda>e. report_currency e = c) es"
  by (induction es arbitrary: ts) (simp_all add: total_of_reconcile_add)

lemma fst_reconcile_add: "fst ` set (reconcile_add e ts) = insert (report_currency e) (fst ` set ts)"
proof (induction ts)
  case (Cons t ts)
  then show ?case by (cases t) (auto simp: insert_commute)
qed simp

lemma distinct_reconcile_add: "distinct (map fst ts) \<Longrightarrow> distinct (map fst (reconcile_add e ts))"
proof (induction ts)
  case Nil
  then show ?case by simp
next
  case (Cons t ts)
  obtain c d k where t: "t = (c, d, k)" by (cases t)
  have "report_currency e \<noteq> c \<Longrightarrow> c \<notin> set (map fst (reconcile_add e ts))"
    using Cons.prems fst_reconcile_add [of e ts] by (simp add: t)
  with Cons show ?case by (simp add: t)
qed

lemma distinct_reconcile: "distinct (map fst ts) \<Longrightarrow> distinct (map fst (fold reconcile_add es ts))"
  by (induction es arbitrary: ts) (simp_all add: distinct_reconcile_add)

lemma reconcile_member:
  assumes "(c, d, k) \<in> set (reconcile_totals es)"
  shows "d - k = net (\<lambda>e. report_currency e = c) es"
proof -
  have "distinct (map fst (reconcile_totals es))" by (simp add: reconcile_totals_def distinct_reconcile)
  from total_of_member [OF this assms] show ?thesis
    using total_of_reconcile [of c es "[]"] by (simp add: reconcile_totals_def)
qed

lemma to_fixed6_0 [simp]: "to_fixed6 0 = 0"
  by (simp add: to_fixed6_id)

lemma exact_reconciles:
  assumes "exact_books ids vld s"
  shows "rc_isBalanced (reconcileLedger s)"
    and "list_all (\<lambda>l. cr_imbalance l = 0) (rc_totals (reconcileLedger s))"
proof -
  have cur: "report_currency e = le_currency e" if "e \<in> set (lg_entries s)" for e
    using well_formedD(6) [of ids vld s e] assms that
    by (simp add: exact_books_def report_currency_def or_ngn_id)
  have "d = k" if "(c, d, k) \<in> set (reconcile_totals (lg_entries s))" for c d k
    using reconcile_member [OF that] assms cur net_cong [of "lg_entries s" "\<lambda>e. report_currency e = c"
      "\<lambda>e. le_currency e = c"] by (simp add: exact_books_def)
  then have "list_all (\<lambda>l. cr_imbalance l = 0) (map currency_line (reconcile_totals (lg_entries s)))"
    by (fastforce simp: list_all_iff currency_line_def)
  then show "rc_isBalanced (reconcileLedger s)"
    and "list_all (\<lambda>l. cr_imbalance l = 0) (rc_totals (reconcileLedger s))"
    by (auto simp: reconcileLedger_def Let_def list_all_iff tolerance_def)
qed

subsection \<open>Books within the tolerance\<close>

text \<open>
  \<open>postJournal\<close> itself accepts a journal that is off by at most the tolerance, so arbitrary
  postings leave the books off by at most the tolerance per journal.
\<close>

definition bounded_books :: "(nat \<Rightarrow> oid) \<Rightarrow> (string \<Rightarrow> bool) \<Rightarrow> ledger_db \<Rightarrow> bool" where
  "bounded_books ids vld s \<longleftrightarrow> well_formed ids vld s
     \<and> (\<forall>c. \<bar>net (\<lambda>e. le_currency e = c) (lg_entries s)\<bar> \<le> of_nat (length (lg_journals s)) * tolerance)"

definition micro_input :: "(string \<Rightarrow> bool) \<Rightarrow> journal_input \<Rightarrow> bool" where
  "micro_input vld p \<longleftrightarrow> list_all (\<lambda>e. micro (ei_amount e) \<and> vld (ei_account e)) (ji_entries p)"

definition bounded_state :: "(nat \<Rightarrow> oid) \<Rightarrow> (string \<Rightarrow> bool) \<Rightarrow> ledger_env \<Rightarrow> ledger_db \<Rightarrow> bool" where
  "bounded_state ids vld E s \<longleftrightarrow> good_env ids vld E \<and> good_ids ids vld \<and> bounded_books ids vld s"

lemma bounded_post:
  assumes "bounded_state ids vld E s" and "micro_input vld p"
  shows "bounded_state ids vld E (snd (postJournal E p s))"
proof -
  obtain r s' where rs: "postJournal E p s = (r, s')" by (cases "postJournal E p s")
  have env: "good_env ids vld E" "id_env ids vld E" "good_ids ids vld" "bounded_books ids vld s"
    using assms(1) by (simp_all add: bounded_state_def good_env_def)
  have wf: "well_formed ids vld s'"
    using post_well_formed [OF rs env(2,3)] env(4) by (simp add: bounded_books_def)
  from rs have "bounded_books ids vld s'"
  proof (cases rule: post_cases)
    case posted
    let ?j = "new_journal E p s"
    have docs: "storable E (map (entry_doc ?j) (ji_entries p)) = map (entry_doc ?j) (ji_entries p)"
      using storable_inputs [OF env(1) posted(2)] assms(2) by (simp add: micro_input_def)
    have small: "\<bar>inet c (ji_entries p)\<bar> \<le> tolerance" for c
      using journal_check_net [OF posted(2)] assms(2) by (auto simp: micro_input_def list_all_iff)
    have "\<bar>net (\<lambda>e. le_currency e = c) (lg_entries s')\<bar>
        \<le> of_nat (length (lg_journals s')) * tolerance" for c
    proof -
      have "\<bar>net (\<lambda>e. le_currency e = c) (lg_entries s)\<bar> \<le> of_nat (length (lg_journals s)) * tolerance"
        using env(4) by (simp add: bounded_books_def)
      with small [of c] show ?thesis
        by (simp add: posted(4) docs net_entry_docs distrib_right)
    qed
    with wf show ?thesis by (simp add: bounded_books_def)
  qed (use env in simp_all)
  with rs env show ?thesis by (simp add: bounded_state_def)
qed

interpretation bounded: ledger_service "getOrCreateAccount E" "postJournal E" "bounded_state ids vld E"
    "\<lambda>_. True" "\<lambda>a. vld (la_id a)" "micro_input vld" for E ids vld
proof
  fix s q r s'
  assume st: "bounded_state ids vld E s" and call: "getOrCreateAccount E q s = (r, s')"
  then have wf: "id_env ids vld E" "good_ids ids vld" "well_formed ids vld s"
    by (simp_all add: bounded_state_def good_env_def bounded_books_def)
  note ac = account_call [OF call wf]
  show "bounded_state ids vld E s'"
    using st ac(1,2,3) by (simp add: bounded_state_def bounded_books_def)
next
  fix s q a s'
  assume st: "bounded_state ids vld E s" and call: "getOrCreateAccount E q s = (Inr a, s')"
  then have wf: "id_env ids vld E" "good_ids ids vld" "well_formed ids vld s"
    by (simp_all add: bounded_state_def good_env_def bounded_books_def)
  then show "vld (la_id a)" using account_call(5) [OF call wf, of a] by simp
next
  show "bounded_state ids vld E (snd (postJournal E p s))"
    if "bounded_state ids vld E s" "micro_input vld p" for s p
    using bounded_post that .
qed

subsection \<open>The chart of accounts\<close>

text \<open>The account type each category has; the helpers never open accounts of the other categories.\<close>

fun chart :: "account_category \<Rightarrow> account_type option" where
  "chart Investor_wallet = Some Liability"
| "chart Driver_balance = Some Liability"
| "chart Pool_escrow = Some Liability"
| "chart Payouts_payable = Some Liability"
| "chart Platform_clearing = Some Asset"
| "chart Repayments_receivable = Some Asset"
| "chart Revenue_fees = Some Revenue"
| "chart Adjustment_category = Some Equity"
| "chart _ = None"

definition charted_books :: "ledger_db \<Rightarrow> bool" where
  "charted_books s \<longleftrightarrow> list_all (\<lambda>a. chart (la_category a) = Some (la_type a)) (lg_accounts s)"

definition charted_input :: "account_input \<Rightarrow> bool" where
  "charted_input q \<longleftrightarrow> chart (ai_category q) = Some (ai_type q)"

lemma account_call_charted:
  assumes "charted_books s" and "charted_input q" and "getOrCreateAccount E q s = (r, s')"
  shows "charted_books s'"
  using assms unfolding getOrCreateAccount_def Let_def
  by (auto simp: charted_books_def charted_input_def new_account_def split: if_splits option.splits)

lemma post_accounts [simp]: "lg_accounts (snd (postJournal E p s)) = lg_accounts s"
  by (simp add: postJournal_def write_journal_def Let_def split: option.splits)

interpretation charted: ledger_service "getOrCreateAccount E" "postJournal E" charted_books
    charted_input "\<lambda>_. True" "\<lambda>_. True" for E
proof
  show "charted_books s'" if "charted_books s" "charted_input q" "getOrCreateAccount E q s = (r, s')" for s q r s'
    using account_call_charted that .
  show "charted_books (snd (postJournal E p s))" if "charted_books s" "True" for s p
    using that by (simp add: charted_books_def)
qed simp

lemma charted_wallet [simp]: "charted_input (wallet_account p)"
  by (cases "wp_type p") (simp_all add: charted_input_def wallet_account_def owned_account_def)

lemma charted_owned [simp]:
  "charted_input (owned_account Investor_wallet ot u c)" "charted_input (owned_account Driver_balance ot u c)"
  by (simp_all add: charted_input_def owned_account_def)

lemma charted_platform [simp]: "charted_input (platform_account cat ty ent c) \<longleftrightarrow> chart cat = Some ty"
  by (simp add: charted_input_def platform_account_def)

lemma reversal_accounts [simp]: "lg_accounts (snd (reverseJournal E j a r s)) = lg_accounts s"
proof -
  have "lg_accounts s' = lg_accounts s" if "postJournal E p s = (x, s')" for x p s'
    using post_accounts [of E p s] that by simp
  then show ?thesis
    by (auto simp: reverseJournal_def await_def split: option.splits prod.splits sum.splits)
qed

lemma run_charted:
  assumes "charted_books s"
  shows "charted_books (snd (run_ledger_op E op s))"
proof (cases op)
  case (Reverse j a r)
  with assms show ?thesis by (simp add: charted_books_def)
qed (auto simp: postWalletFunding_def postWalletDebit_def postPoolInvestment_def
    postDownPayment_def postRepayment_def postRefund_def postPayout_def postFee_def postAdjustment_def Let_def
    intro!: charted.acct_then charted.post_inv assms)

end
