(* ===== verification/Ledger_Refinement.thy ===== *)
theory Ledger_Refinement
  imports Ledger_Invariants
begin

text \<open>
  An abstract bookkeeping specification and the proof that the posting service implements
  it.  The specification knows the reference keys already posted and, per account category
  and currency, one signed balance (debits minus credits); a posting moves amounts between
  categories, once per key.
\<close>

type_synonym book = "string list \<times> (account_category \<Rightarrow> string \<Rightarrow> rat)"

fun op_key :: "ledger_op \<Rightarrow> string option" where
  "op_key (Wallet_funding p) = Some (wp_key p)"
| "op_key (Wallet_debit p) = Some (wp_key p)"
| "op_key (Pool_investment p) = Some (pp_key p)"
| "op_key (Down_payment p) = Some (dp_key p)"
| "op_key (Repayment p) = Some (rp_key p)"
| "op_key (Refund p) = Some (pp_key p)"
| "op_key (Payout p) = Some (wp_key p)"
| "op_key (Fee p) = Some (wp_key p)"
| "op_key (Adjust p) = Some (ap_key p)"
| "op_key (Reverse j a r) = None"

fun op_currency :: "ledger_op \<Rightarrow> string" where
  "op_currency (Wallet_funding p) = or_ngn (wp_currency p)"
| "op_currency (Wallet_debit p) = or_ngn (wp_currency p)"
| "op_currency (Pool_investment p) = or_ngn (pp_currency p)"
| "op_currency (Down_payment p) = or_ngn (dp_currency p)"
| "op_currency (Repayment p) = or_ngn (rp_currency p)"
| "op_currency (Refund p) = or_ngn (pp_currency p)"
| "op_currency (Payout p) = or_ngn (wp_currency p)"
| "op_currency (Fee p) = or_ngn (wp_currency p)"
| "op_currency (Adjust p) = or_ngn (ap_currency p)"
| "op_currency (Reverse j a r) = ''NGN''"

text \<open>Where the money goes: positive numbers are debits.\<close>

fun op_moves :: "ledger_op \<Rightarrow> (account_category \<times> rat) list" where
  "op_moves (Wallet_funding p) = [(Platform_clearing, wp_amount p), (wallet_category (wp_type p), - wp_amount p)]"
| "op_moves (Wallet_debit p) = [(wallet_category (wp_type p), wp_amount p), (Platform_clearing, - wp_amount p)]"
| "op_moves (Pool_investment p) = [(Investor_wallet, pp_amount p), (Pool_escrow, - pp_amount p)]"
| "op_moves (Down_payment p) = [(Driver_balance, dp_amount p), (Repayments_receivable, - dp_amount p)]"
| "op_moves (Repayment p) =
     (let fee = (case rp_fee p of None \<Rightarrow> 0 | Some f \<Rightarrow> f) in
      [(Driver_balance, rp_amount p), (Repayments_receivable, - (rp_amount p - fee)), (Revenue_fees, - fee)])"
| "op_moves (Refund p) = [(Pool_escrow, pp_amount p), (Investor_wallet, - pp_amount p)]"
| "op_moves (Payout p) = [(Payouts_payable, wp_amount p), (Platform_clearing, - wp_amount p)]"
| "op_moves (Fee p) = [(wallet_category (wp_type p), wp_amount p), (Revenue_fees, - wp_amount p)]"
| "op_moves _ = []"

definition spec_step :: "ledger_op \<Rightarrow> book \<Rightarrow> book" where
  "spec_step op = (\<lambda>(keys, b). case op_key op of
     None \<Rightarrow> (keys, b)
   | Some k \<Rightarrow> if k \<in> set keys then (keys, b)
       else (keys @ [k], \<lambda>cat cur. b cat cur
         + (if cur = op_currency op then \<Sum>m\<leftarrow>op_moves op. (if fst m = cat then snd m else 0) else 0)))"

text \<open>The abstraction function.\<close>

definition category_of :: "ledger_account list \<Rightarrow> oid \<Rightarrow> account_category option" where
  "category_of accts aid = map_option la_category (find_one (\<lambda>a. la_id a = aid) accts)"

definition book_of :: "ledger_db \<Rightarrow> book" where
  "book_of s = (map lj_key (lg_journals s),
     \<lambda>cat cur. net (\<lambda>e. category_of (lg_accounts s) (le_account e) = Some cat \<and> le_currency e = cur) (lg_entries s))"

text \<open>The operations the specification covers, and when they must succeed.\<close>

definition good_amount :: "rat \<Rightarrow> bool" where
  "good_amount x \<longleftrightarrow> micro x \<and> 0 < x"

fun plain_op :: "(string \<Rightarrow> bool) \<Rightarrow> ledger_op \<Rightarrow> bool" where
  "plain_op vld (Wallet_funding p) = (good_amount (wp_amount p) \<and> vld (wp_user p) \<and> wp_key p \<noteq> [])"
| "plain_op vld (Wallet_debit p) = (good_amount (wp_amount p) \<and> vld (wp_user p) \<and> wp_key p \<noteq> [])"
| "plain_op vld (Pool_investment p) = (good_amount (pp_amount p) \<and> vld (pp_investor p) \<and> pp_key p \<noteq> [])"
| "plain_op vld (Down_payment p) = (good_amount (dp_amount p) \<and> vld (dp_driver p) \<and> dp_key p \<noteq> [])"
| "plain_op vld (Repayment p) = (good_amount (rp_amount p) \<and> vld (rp_driver p) \<and> rp_key p \<noteq> []
     \<and> (case rp_fee p of None \<Rightarrow> True | Some f \<Rightarrow> micro f \<and> 0 \<le> f \<and> f < rp_amount p))"
| "plain_op vld (Refund p) = (good_amount (pp_amount p) \<and> vld (pp_investor p) \<and> pp_key p \<noteq> [])"
| "plain_op vld (Payout p) = (good_amount (wp_amount p) \<and> vld (wp_user p) \<and> wp_key p \<noteq> [])"
| "plain_op vld (Fee p) = (good_amount (wp_amount p) \<and> vld (wp_user p) \<and> wp_key p \<noteq> [])"
| "plain_op vld _ = False"

text \<open>Every entry belongs to an account that exists.\<close>

definition linked_books :: "(nat \<Rightarrow> oid) \<Rightarrow> (string \<Rightarrow> bool) \<Rightarrow> ledger_env \<Rightarrow> ledger_db \<Rightarrow> bool" where
  "linked_books ids vld E s \<longleftrightarrow> good_env ids vld E \<and> good_ids ids vld \<and> well_formed ids vld s
     \<and> list_all (\<lambda>e. le_account e \<in> la_id ` set (lg_accounts s)) (lg_entries s)"

lemma category_of_append:
  "aid \<in> la_id ` set as \<Longrightarrow> category_of (as @ bs) aid = category_of as aid"
  by (induction as) (auto simp: category_of_def)

lemma category_of_member:
  "distinct (map la_id as) \<Longrightarrow> a \<in> set as \<Longrightarrow> category_of as (la_id a) = Some (la_category a)"
  by (simp add: category_of_def find_key_unique)

text \<open>Opening an account changes neither keys nor balances.\<close>

lemma linked_account:
  assumes "linked_books ids vld E s" and "getOrCreateAccount E q s = (r, s')"
  shows "linked_books ids vld E s'" and "book_of s' = book_of s"
    and "la_id ` set (lg_accounts s) \<subseteq> la_id ` set (lg_accounts s')"
    and "set (lg_accounts s) \<subseteq> set (lg_accounts s')"
    and "lg_journals s' = lg_journals s" and "lg_entries s' = lg_entries s"
    and "\<And>a. r = Inr a \<Longrightarrow> a \<in> set (lg_accounts s') \<and> vld (la_id a) \<and> la_category a = ai_category q"
proof -
  have pre: "id_env ids vld E" "good_ids ids vld" "well_formed ids vld s"
    using assms(1) by (simp_all add: linked_books_def good_env_def)
  note ac = account_call [OF assms(2) pre]
  obtain new where new: "lg_accounts s' = lg_accounts s @ new" using ac(4) by blast
  show "la_id ` set (lg_accounts s) \<subseteq> la_id ` set (lg_accounts s')"
    and "set (lg_accounts s) \<subseteq> set (lg_accounts s')" using new by auto
  show "linked_books ids vld E s'"
    using assms(1) ac(1,3) new by (auto simp: linked_books_def list_all_iff)
  have "category_of (lg_accounts s') (le_account e) = category_of (lg_accounts s) (le_account e)"
    if "e \<in> set (lg_entries s)" for e
    using that assms(1) new by (auto simp: linked_books_def list_all_iff category_of_append)
  then show "book_of s' = book_of s"
    using ac(2,3) by (auto simp: book_of_def fun_eq_iff intro!: net_cong)
  show "lg_journals s' = lg_journals s" "lg_entries s' = lg_entries s" using ac(2,3) .
  show "\<And>a. r = Inr a \<Longrightarrow> a \<in> set (lg_accounts s') \<and> vld (la_id a) \<and> la_category a = ai_category q"
    using ac(5) by blast
qed

lemma account_succeeds:
  assumes "owner_castable E (ai_owner q)"
  shows "\<exists>a. fst (getOrCreateAccount E q s) = Inr a"
  using assms by (auto simp: getOrCreateAccount_def Let_def split: option.splits)

text \<open>Two look-ups, then the rest of the operation on a state with the same books.\<close>

lemma await_account:
  assumes "linked_books ids vld E s" and "owner_castable E (ai_owner q)"
  obtains a s' where "await (getOrCreateAccount E q) g s = g a s'" and "linked_books ids vld E s'"
    and "book_of s' = book_of s" and "a \<in> set (lg_accounts s')" and "vld (la_id a)"
    and "la_category a = ai_category q" and "set (lg_accounts s) \<subseteq> set (lg_accounts s')"
    and "lg_journals s' = lg_journals s" and "lg_entries s' = lg_entries s"
proof -
  obtain a s' where call: "getOrCreateAccount E q s = (Inr a, s')"
    using account_succeeds [OF assms(2), of s] by (metis prod.collapse)
  show thesis
    using linked_account [OF assms(1) call] that call by (simp add: await_def)
qed

text \<open>Posting a journal on existing accounts.\<close>

lemma net_category_docs:
  "net (\<lambda>e. category_of as (le_account e) = Some cat \<and> le_currency e = cur) (map (entry_doc j) es)
     = (\<Sum>e\<leftarrow>es. if category_of as (ei_account e) = Some cat \<and> entry_currency e = cur then isigned e else 0)"
  by (induction es) auto

definition postable :: "(string \<Rightarrow> bool) \<Rightarrow> ledger_db \<Rightarrow> journal_input \<Rightarrow> bool" where
  "postable vld s p \<longleftrightarrow> 2 \<le> length (ji_entries p) \<and> ji_key p \<noteq> [] \<and> ji_description p \<noteq> []
     \<and> ji_actor p = None \<and> ji_event p \<noteq> Ev_adjustment \<and> (\<forall>c. inet c (ji_entries p) = 0)
     \<and> list_all (\<lambda>e. good_amount (ei_amount e) \<and> vld (ei_account e) \<and> ei_account e \<in> la_id ` set (lg_accounts s))
         (ji_entries p)"

lemma post_linked:
  assumes "linked_books ids vld E s" and "postable vld s p"
  shows "linked_books ids vld E (snd (postJournal E p s))"
    and "book_of (snd (postJournal E p s)) =
      (if ji_key p \<in> set (fst (book_of s)) then book_of s
       else (fst (book_of s) @ [ji_key p], \<lambda>cat cur. snd (book_of s) cat cur
         + (\<Sum>e\<leftarrow>ji_entries p. if category_of (lg_accounts s) (ei_account e) = Some cat
               \<and> entry_currency e = cur then isigned e else 0)))"
proof -
  obtain r s' where rs: "postJournal E p s = (r, s')" by (cases "postJournal E p s")
  have env: "good_env ids vld E" "id_env ids vld E" "good_ids ids vld" "well_formed ids vld s"
    using assms(1) by (simp_all add: linked_books_def good_env_def)
  have mic: "list_all (\<lambda>e. micro (ei_amount e) \<and> vld (ei_account e)) (ji_entries p)"
    and pos: "list_all (\<lambda>e. 0 < ei_amount e \<and> micro (ei_amount e)) (ji_entries p)"
    using assms(2) by (auto simp: postable_def good_amount_def list_all_iff)
  have chk: "journal_check p = None"
    using exact_journal_check [OF _ pos] assms(2) by (simp add: postable_def)
  have val: "journal_valid E p" using assms(2) by (simp add: journal_valid_def postable_def owner_castable_def)
  have wf: "well_formed ids vld s'" using post_well_formed [OF rs env(2-4)] .
  from rs have "linked_books ids vld E s' \<and> book_of s' =
      (if ji_key p \<in> set (fst (book_of s)) then book_of s
       else (fst (book_of s) @ [ji_key p], \<lambda>cat cur. snd (book_of s) cat cur
         + (\<Sum>e\<leftarrow>ji_entries p. if category_of (lg_accounts s) (ei_account e) = Some cat
               \<and> entry_currency e = cur then isigned e else 0)))"
  proof (cases rule: post_cases)
    case (old j)
    then have "ji_key p \<in> set (fst (book_of s))"
      by (force simp: book_of_def dest: find_one_SomeD)
    with old assms(1) show ?thesis by simp
  next
    case (refused e)
    with chk val show ?thesis by simp
  next
    case posted
    have docs: "storable E (map (entry_doc j) (ji_entries p)) = map (entry_doc j) (ji_entries p)" for j
      using storable_inputs [OF env(1) chk mic] .
    have "ji_key p \<notin> set (fst (book_of s))"
      using posted(1) by (force simp: book_of_def find_None_iff)
    moreover have "linked_books ids vld E s'"
      using assms wf posted(4) docs
      by (auto simp: linked_books_def list_all_iff postable_def)
    ultimately show ?thesis
      by (simp add: book_of_def posted(4) docs net_category_docs fun_eq_iff)
  qed
  then show "linked_books ids vld E (snd (postJournal E p s))"
    and "book_of (snd (postJournal E p s)) =
      (if ji_key p \<in> set (fst (book_of s)) then book_of s
       else (fst (book_of s) @ [ji_key p], \<lambda>cat cur. snd (book_of s) cat cur
         + (\<Sum>e\<leftarrow>ji_entries p. if category_of (lg_accounts s) (ei_account e) = Some cat
               \<and> entry_currency e = cur then isigned e else 0)))"
    using rs by simp_all
qed

subsection \<open>Simulation\<close>

text \<open>What one posting does to the abstract book.\<close>

definition move_book :: "string \<Rightarrow> string \<Rightarrow> (account_category \<times> rat) list \<Rightarrow> book \<Rightarrow> book" where
  "move_book k c ms = (\<lambda>(keys, b).
     if k \<in> set keys then (keys, b)
     else (keys @ [k], \<lambda>cat cur. b cat cur
       + (if cur = c then \<Sum>m\<leftarrow>ms. (if fst m = cat then snd m else 0) else 0)))"

lemma spec_step_move:
  "op_key op = Some k \<Longrightarrow> spec_step op = move_book k (op_currency op) (op_moves op)"
  by (simp add: spec_step_def move_book_def)

lemma two_legs_refine:
  assumes "linked_books ids vld E s" and "owner_castable E (ai_owner qa)" and "owner_castable E (ai_owner qb)"
    and "good_amount x" and "k \<noteq> []" and "d \<noteq> []" and "ev \<noteq> Ev_adjustment" and "c \<noteq> []"
    and mk: "\<And>a b. mk a b = (if swap then [debit b x c, credit a x c] else [debit a x c, credit b x c])"
    and ms: "move_book k c ms = move_book k c [(ai_category qa, if swap then - x else x), (ai_category qb, if swap then x else - x)]"
    and run: "run = await (getOrCreateAccount E qa) (\<lambda>a. await (getOrCreateAccount E qb) (\<lambda>b.
                      postJournal E (plain_journal k ev d (mk a b)))) s"
  shows "linked_books ids vld E (snd run) \<and> book_of (snd run) = move_book k c ms (book_of s)"
proof -
  obtain a s1 where 1: "run = await (getOrCreateAccount E qb) (\<lambda>b. postJournal E (plain_journal k ev d (mk a b))) s1"
      "linked_books ids vld E s1" "book_of s1 = book_of s" "a \<in> set (lg_accounts s1)" "vld (la_id a)"
      "la_category a = ai_category qa"
    by (rule await_account [OF assms(1,2), where g = "\<lambda>a. await (getOrCreateAccount E qb) (\<lambda>b.
           postJournal E (plain_journal k ev d (mk a b)))"]) (simp only: run)
  obtain b s2 where 2: "run = postJournal E (plain_journal k ev d (mk a b)) s2" "linked_books ids vld E s2"
      "book_of s2 = book_of s1" "b \<in> set (lg_accounts s2)" "vld (la_id b)" "la_category b = ai_category qb"
      "set (lg_accounts s1) \<subseteq> set (lg_accounts s2)"
    by (rule await_account [OF 1(2) assms(3), where g = "\<lambda>b. postJournal E (plain_journal k ev d (mk a b))"])
      (simp only: 1(1))
  let ?p = "plain_journal k ev d (mk a b)"
  have a: "a \<in> set (lg_accounts s2)" using 1(4) 2(7) by blast
  have "distinct (map la_id (lg_accounts s2))" using 2(2) well_formedD(3) [of ids vld s2] by (simp add: linked_books_def)
  then have cat: "category_of (lg_accounts s2) (la_id a) = Some (ai_category qa)"
      "category_of (lg_accounts s2) (la_id b) = Some (ai_category qb)"
    using category_of_member [of "lg_accounts s2"] a 1(6) 2(4,6) by simp_all
  have "postable vld s2 ?p"
    using assms(4-8) 1(5) 2(4,5) a
    by (simp add: postable_def plain_journal_def mk debit_def credit_def isigned_def entry_currency_def or_ngn_id)
  note post = post_linked [OF 2(2) this]
  have "book_of (snd run) = move_book k c [(ai_category qa, if swap then - x else x), (ai_category qb, if swap then x else - x)] (book_of s)"
    using post(2) cat 1(3) 2(3) assms(8)
    by (auto simp: 2(1) plain_journal_def move_book_def mk debit_def credit_def isigned_def entry_currency_def
      or_ngn_id fun_eq_iff split: prod.splits)
  with post(1) ms 2(1) show ?thesis by simp
qed

lemma repayment_refines:
  assumes "linked_books ids vld E s" and "plain_op vld (Repayment p)"
  shows "linked_books ids vld E (snd (postRepayment E p s))
    \<and> book_of (snd (postRepayment E p s)) = move_book (rp_key p) (or_ngn (rp_currency p)) (op_moves (Repayment p)) (book_of s)"
proof -
  let ?fee = "case rp_fee p of None \<Rightarrow> 0 | Some f \<Rightarrow> f" and ?c = "or_ngn (rp_currency p)"
    and ?d = "''Repayment from driver '' @ rp_driver p"
  let ?q1 = "owned_account Driver_balance Own_driver (rp_driver p) ?c"
    and ?q2 = "platform_account Repayments_receivable Asset None ?c"
    and ?q3 = "platform_account Revenue_fees Revenue None ?c"
  let ?post = "\<lambda>es. postJournal E (plain_journal (rp_key p) Ev_repayment ?d es)"
  let ?es = "\<lambda>a b. [debit a (rp_amount p) ?c, credit b (rp_amount p - ?fee) ?c]"
  let ?rest = "\<lambda>a b. if 0 < ?fee then await (getOrCreateAccount E ?q3) (\<lambda>r. ?post (?es a b @ [credit r ?fee ?c]))
                     else ?post (?es a b)"
  have run: "postRepayment E p s = await (getOrCreateAccount E ?q1) (\<lambda>a. await (getOrCreateAccount E ?q2) (\<lambda>b. ?rest a b)) s"
    by (simp only: postRepayment_def Let_def)
  have vld: "lg_valid_oid E = vld" using assms(1) by (simp add: linked_books_def good_env_def id_env_def)
  have ok: "owner_castable E (ai_owner ?q1)" "owner_castable E (ai_owner ?q2)" "owner_castable E (ai_owner ?q3)"
    using assms(2) vld by (simp_all add: owner_castable_def owned_account_def platform_account_def)
  have amt: "good_amount (rp_amount p)" "good_amount (rp_amount p - ?fee)" "0 < ?fee \<Longrightarrow> good_amount ?fee" "0 \<le> ?fee"
    "rp_key p \<noteq> []"
    using assms(2) by (auto simp: good_amount_def micro_diff split: option.splits)
  obtain a s1 where 1: "postRepayment E p s = await (getOrCreateAccount E ?q2) (\<lambda>b. ?rest a b) s1"
      "linked_books ids vld E s1" "book_of s1 = book_of s" "a \<in> set (lg_accounts s1)" "vld (la_id a)"
      "la_category a = ai_category ?q1"
    by (rule await_account [OF assms(1) ok(1), where g = "\<lambda>a. await (getOrCreateAccount E ?q2) (\<lambda>b. ?rest a b)"])
      (simp only: run)
  obtain b s2 where 2: "postRepayment E p s = ?rest a b s2" "linked_books ids vld E s2"
      "book_of s2 = book_of s1" "b \<in> set (lg_accounts s2)" "vld (la_id b)" "la_category b = ai_category ?q2"
      "set (lg_accounts s1) \<subseteq> set (lg_accounts s2)"
    by (rule await_account [OF 1(2) ok(2), where g = "\<lambda>b. ?rest a b"]) (simp only: 1(1))
  have cat: "category_of (lg_accounts t) (la_id x) = Some (la_category x)"
    if "linked_books ids vld E t" "x \<in> set (lg_accounts t)" for t x
    using that well_formedD(3) [of ids vld t] by (simp add: linked_books_def category_of_member)
  show ?thesis
  proof (cases "0 < ?fee")
    case False
    with amt(4) have fee: "?fee = 0" by simp
    let ?p = "plain_journal (rp_key p) Ev_repayment ?d (?es a b)"
    have "postable vld s2 ?p"
      using amt 1(4,5) 2(4,5,7) fee
      by (auto simp: postable_def plain_journal_def debit_def credit_def isigned_def entry_currency_def or_ngn_id)
    note post = post_linked [OF 2(2) this]
    have "postRepayment E p s = postJournal E ?p s2" using 2(1) False by simp
    then show ?thesis
      using post cat [OF 2(2), of a] cat [OF 2(2), of b] 1(3,4,6) 2(3,4,6,7) fee
      by (auto simp: plain_journal_def move_book_def debit_def credit_def isigned_def entry_currency_def
        or_ngn_id fun_eq_iff owned_account_def platform_account_def split: prod.splits)
  next
    case True
    obtain r s3 where 3: "postRepayment E p s = ?post (?es a b @ [credit r ?fee ?c]) s3" "linked_books ids vld E s3"
        "book_of s3 = book_of s2" "r \<in> set (lg_accounts s3)" "vld (la_id r)" "la_category r = ai_category ?q3"
        "set (lg_accounts s2) \<subseteq> set (lg_accounts s3)"
      by (rule await_account [OF 2(2) ok(3), where g = "\<lambda>r. ?post (?es a b @ [credit r ?fee ?c])"])
        (use 2(1) True in simp)
    let ?p = "plain_journal (rp_key p) Ev_repayment ?d (?es a b @ [credit r ?fee ?c])"
    have mem: "a \<in> set (lg_accounts s3)" "b \<in> set (lg_accounts s3)" using 1(4) 2(4,7) 3(7) by blast+
    have "postable vld s3 ?p"
      using amt(1,2,5) amt(3) [OF True] mem 1(5) 2(5) 3(4,5)
      by (auto simp: postable_def plain_journal_def debit_def credit_def isigned_def entry_currency_def or_ngn_id)
    note post = post_linked [OF 3(2) this]
    show ?thesis
      using post cat [OF 3(2) mem(1)] cat [OF 3(2) mem(2)] cat [OF 3(2,4)] 1(3,6) 2(3,6) 3(3,6)
      by (auto simp: 3(1) plain_journal_def move_book_def debit_def credit_def isigned_def entry_currency_def
        or_ngn_id fun_eq_iff owned_account_def platform_account_def Let_def split: prod.splits)
  qed
qed

lemmas leg_simps = Let_def or_text_def truthy_def

lemma posting_refines:
  assumes "linked_books ids vld E s" and "plain_op vld op"
  shows "linked_books ids vld E (snd (run_ledger_op E op s))
    \<and> book_of (snd (run_ledger_op E op s)) = spec_step op (book_of s)"
proof -
  have cast: "owner_castable E (ai_owner (wallet_account p)) \<longleftrightarrow> vld (wp_user p)"
    "owner_castable E (ai_owner (owned_account cat ot u c)) \<longleftrightarrow> vld u"
    "owner_castable E (ai_owner (platform_account cat ty ent c))" for p cat ot u c ty ent
    using assms(1) by (simp_all add: linked_books_def good_env_def id_env_def owner_castable_def
      wallet_account_def owned_account_def platform_account_def)
  have sel: "ai_category (wallet_account p) = wallet_category (wp_type p)"
    "ai_category (owned_account cat ot u c) = cat" "ai_category (platform_account cat ty ent c) = cat"
    for p cat ot u c ty ent
    by (simp_all add: wallet_account_def owned_account_def platform_account_def)
  note go = two_legs_refine [OF assms(1)]
  show ?thesis
  proof (cases op)
    case (Wallet_funding p)
    show ?thesis
      using assms(2) unfolding Wallet_funding spec_step_move [OF op_key.simps(1)]
      by (intro go [where swap = True and x = "wp_amount p" and qa = "wallet_account p"
            and qb = "platform_account Platform_clearing Asset None (or_ngn (wp_currency p))"
            and mk = "\<lambda>w c. [debit c (wp_amount p) (or_ngn (wp_currency p)), credit w (wp_amount p) (or_ngn (wp_currency p))]"])
        (auto simp: postWalletFunding_def cast sel leg_simps move_book_def add.commute fun_eq_iff
          split: option.splits)
  next
    case (Wallet_debit p)
    show ?thesis
      using assms(2) unfolding Wallet_debit spec_step_move [OF op_key.simps(2)]
      by (intro go [where swap = False and x = "wp_amount p" and qa = "wallet_account p"
            and qb = "platform_account Platform_clearing Asset None (or_ngn (wp_currency p))"
            and mk = "\<lambda>w c. [debit w (wp_amount p) (or_ngn (wp_currency p)), credit c (wp_amount p) (or_ngn (wp_currency p))]"])
        (auto simp: postWalletDebit_def cast sel leg_simps split: option.splits)
  next
    case (Pool_investment p)
    show ?thesis
      using assms(2) unfolding Pool_investment spec_step_move [OF op_key.simps(3)]
      by (intro go [where swap = False and x = "pp_amount p" and qa = "owned_account Investor_wallet Own_investor (pp_investor p) (or_ngn (pp_currency p))"
            and qb = "platform_account Pool_escrow Liability (Some (pp_pool p)) (or_ngn (pp_currency p))"
            and mk = "\<lambda>w c. [debit w (pp_amount p) (or_ngn (pp_currency p)), credit c (pp_amount p) (or_ngn (pp_currency p))]"])
        (auto simp: postPoolInvestment_def cast sel leg_simps split: option.splits)
  next
    case (Down_payment p)
    show ?thesis
      using assms(2) unfolding Down_payment spec_step_move [OF op_key.simps(4)]
      by (intro go [where swap = False and x = "dp_amount p" and qa = "owned_account Driver_balance Own_driver (dp_driver p) (or_ngn (dp_currency p))"
            and qb = "platform_account Repayments_receivable Asset (dp_pool p) (or_ngn (dp_currency p))"
            and mk = "\<lambda>w c. [debit w (dp_amount p) (or_ngn (dp_currency p)), credit c (dp_amount p) (or_ngn (dp_currency p))]"])
        (auto simp: postDownPayment_def cast sel leg_simps split: option.splits)
  next
    case (Refund p)
    show ?thesis
      using assms(2) unfolding Refund spec_step_move [OF op_key.simps(6)]
      by (intro go [where swap = False and x = "pp_amount p" and qa = "platform_account Pool_escrow Liability (Some (pp_pool p)) (or_ngn (pp_currency p))"
            and qb = "owned_account Investor_wallet Own_investor (pp_investor p) (or_ngn (pp_currency p))"
            and mk = "\<lambda>w c. [debit w (pp_amount p) (or_ngn (pp_currency p)), credit c (pp_amount p) (or_ngn (pp_currency p))]"])
        (auto simp: postRefund_def cast sel leg_simps split: option.splits)
  next
    case (Payout p)
    show ?thesis
      using assms(2) unfolding Payout spec_step_move [OF op_key.simps(7)]
      by (intro go [where swap = False and x = "wp_amount p" and qa = "platform_account Payouts_payable Liability None (or_ngn (wp_currency p))"
            and qb = "platform_account Platform_clearing Asset None (or_ngn (wp_currency p))"
            and mk = "\<lambda>w c. [debit w (wp_amount p) (or_ngn (wp_currency p)), credit c (wp_amount p) (or_ngn (wp_currency p))]"])
        (auto simp: postPayout_def cast sel leg_simps split: option.splits)
  next
    case (Fee p)
    show ?thesis
      using assms(2) unfolding Fee spec_step_move [OF op_key.simps(8)]
      by (intro go [where swap = False and x = "wp_amount p" and qa = "wallet_account p"
            and qb = "platform_account Revenue_fees Revenue None (or_ngn (wp_currency p))"
            and mk = "\<lambda>w c. [debit w (wp_amount p) (or_ngn (wp_currency p)), credit c (wp_amount p) (or_ngn (wp_currency p))]"])
        (auto simp: postFee_def cast sel leg_simps split: option.splits)
  next
    case (Repayment p)
    then show ?thesis
      using repayment_refines [OF assms(1)] assms(2) by (simp add: spec_step_move [OF op_key.simps(5)])
  qed (use assms(2) in simp_all)
qed

end
