(* ===== verification/Ledger_Guarantees.thy ===== *)
theory Ledger_Guarantees
  imports Ledger_Refinement
begin

text \<open>
  The lemmas behind the properties of the ledger: repeated keys, reversals, one-sided
  adjustments, account balances and the rebuilt user balances.
\<close>

subsection \<open>Repeated keys\<close>

text \<open>Opening accounts leaves journals and entries alone, whatever the environment.\<close>

lemma account_books:
  "getOrCreateAccount E q s = (r, s') \<Longrightarrow> lg_journals s' = lg_journals s \<and> lg_entries s' = lg_entries s
     \<and> (\<forall>e. r = Inl e \<longrightarrow> e = Cast_failed)"
  unfolding getOrCreateAccount_def Let_def by (auto split: if_splits option.splits)

definition settled_on :: "ledger_db \<Rightarrow> ledger_journal \<Rightarrow> (ledger_error + ledger_journal) \<times> ledger_db \<Rightarrow> bool" where
  "settled_on s j x \<longleftrightarrow> lg_journals (snd x) = lg_journals s \<and> lg_entries (snd x) = lg_entries s
     \<and> (case fst x of Inl e \<Rightarrow> e = Cast_failed | Inr i \<Rightarrow> i = j)"

lemma await_settled:
  assumes "\<And>a s'. lg_journals s' = lg_journals s \<Longrightarrow> lg_entries s' = lg_entries s \<Longrightarrow> settled_on s j (g a s')"
  shows "settled_on s j (await (getOrCreateAccount E q) g s)"
proof -
  obtain r s' where c: "getOrCreateAccount E q s = (r, s')" by (cases "getOrCreateAccount E q s")
  with account_books [OF c] assms show ?thesis
    by (cases r) (auto simp: await_def settled_on_def)
qed

lemma await_settled':
  assumes "lg_journals t = lg_journals s" and "lg_entries t = lg_entries s"
    and "\<And>a s'. lg_journals s' = lg_journals s \<Longrightarrow> lg_entries s' = lg_entries s \<Longrightarrow> settled_on s j (g a s')"
  shows "settled_on s j (await (getOrCreateAccount E q) g t)"
  using await_settled [of t j g E q] assms by (simp add: settled_on_def)

lemma post_settled:
  assumes "find_one (\<lambda>j. lj_key j = k) (lg_journals s) = Some j" and "lg_journals t = lg_journals s"
    and "lg_entries t = lg_entries s" and "ji_key p = k"
  shows "settled_on s j (postJournal E p t)"
  using assms by (simp add: postJournal_def settled_on_def)

lemma ji_key_plain [simp]: "ji_key (plain_journal k ev d es) = k"
  by (simp add: plain_journal_def)

lemma op_settled:
  assumes known: "find_one (\<lambda>j. lj_key j = k) (lg_journals s) = Some j" and "op_key op = Some k"
  shows "settled_on s j (run_ledger_op E op s)"
  using assms(2)
  by (cases op) (auto simp: postWalletFunding_def postWalletDebit_def postPoolInvestment_def
    postDownPayment_def postRepayment_def postRefund_def postPayout_def postFee_def postAdjustment_def Let_def
    intro!: await_settled' post_settled [OF known])

subsection \<open>Account balances as signed sums\<close>

fun credit_normal :: "account_type \<Rightarrow> bool" where
  "credit_normal Asset = False"
| "credit_normal Expense = False"
| "credit_normal _ = True"

lemma natural_balance_exact:
  "micro d \<Longrightarrow> micro c \<Longrightarrow> natural_balance ty d c = (if credit_normal ty then c - d else d - c)"
  by (cases ty) (simp_all add: to_fixed6_id micro_diff)

lemma balance_net:
  assumes "exact_books ids vld s" and "find_one (\<lambda>a. la_id a = aid) (lg_accounts s) = Some a"
  shows "computeAccountBalance aid s = Inr ((if credit_normal (la_type a) then - 1 else 1)
           * net (\<lambda>e. le_account e = aid) (lg_entries s))"
proof -
  let ?es = "filter (\<lambda>e. le_account e = aid) (lg_entries s)"
  have "list_all (\<lambda>e. micro (le_amount e)) ?es"
    using assms(1) by (auto simp: exact_books_def list_all_iff)
  then have m: "micro (direction_total d ?es)" for d by (rule micro_direction_total)
  show ?thesis
    using m by (simp add: computeAccountBalance_def assms(2) Let_def to_fixed6_id natural_balance_exact net_directions)
qed

subsection \<open>Reversals\<close>

text \<open>A posting that went through: what is new are its accounts, one journal, its entries.\<close>

definition posted_on :: "ledger_db \<Rightarrow> ledger_journal \<Rightarrow> ledger_db \<Rightarrow> bool" where
  "posted_on s j s' \<longleftrightarrow> (\<exists>new es. lg_accounts s' = lg_accounts s @ new \<and> lg_journals s' = lg_journals s @ [j]
     \<and> lg_entries s' = lg_entries s @ es \<and> \<not> lj_isReversed j \<and> 2 \<le> length es
     \<and> list_all (\<lambda>e. le_journal e = lj_id j) es)"

definition fresh_result :: "ledger_db \<Rightarrow> (ledger_error + ledger_journal) \<times> ledger_db \<Rightarrow> bool" where
  "fresh_result s x \<longleftrightarrow> (case fst x of Inl e \<Rightarrow> True | Inr j \<Rightarrow> posted_on s j (snd x))"

definition same_books :: "ledger_db \<Rightarrow> ledger_db \<Rightarrow> bool" where
  "same_books s t \<longleftrightarrow> (\<exists>new. lg_accounts t = lg_accounts s @ new) \<and> lg_journals t = lg_journals s \<and> lg_entries t = lg_entries s"

lemma same_books_refl [simp]: "same_books s s"
  by (simp add: same_books_def)

lemma account_same_books:
  assumes "getOrCreateAccount E q t = (r, t')" and "same_books s t"
  shows "same_books s t'"
proof -
  have "\<exists>new. lg_accounts t' = lg_accounts t @ new"
    using assms(1) unfolding getOrCreateAccount_def Let_def
    by (auto split: if_splits option.splits)
  with assms(2) account_books [OF assms(1)] show ?thesis by (auto simp: same_books_def)
qed

lemma await_fresh:
  assumes "same_books s t" and "\<And>a s'. same_books s s' \<Longrightarrow> fresh_result s (g a s')"
  shows "fresh_result s (await (getOrCreateAccount E q) g t)"
proof -
  obtain r t' where c: "getOrCreateAccount E q t = (r, t')" by (cases "getOrCreateAccount E q t")
  with account_same_books [OF c assms(1)] assms(2) show ?thesis
    by (cases r) (auto simp: await_def fresh_result_def)
qed

lemma journal_check_two: "journal_check p = None \<Longrightarrow> 2 \<le> length (ji_entries p)"
  by (auto simp: journal_check_def split: if_splits)

lemma post_fresh:
  assumes "same_books s t" and "k \<notin> lj_key ` set (lg_journals s)" and "ji_key p = k"
  shows "fresh_result s (postJournal E p t)"
proof -
  obtain r t' where c: "postJournal E p t = (r, t')" by (cases "postJournal E p t")
  then show ?thesis
  proof (cases rule: post_cases)
    case (old j)
    then have "ji_key p \<in> lj_key ` set (lg_journals s)"
      using assms(1) by (force simp: same_books_def dest: find_one_SomeD)
    with assms(2,3) show ?thesis by simp
  next
    case (refused e)
    with c show ?thesis by (simp add: fresh_result_def)
  next
    case posted
    then show ?thesis
      using assms(1) c journal_check_two [OF posted(2)]
      by (auto simp: fresh_result_def posted_on_def same_books_def list_all_iff)
  qed
qed

lemma op_fresh:
  assumes "op_key op = Some k" and new: "k \<notin> lj_key ` set (lg_journals s)"
  shows "fresh_result s (run_ledger_op E op s)"
  using assms(1)
  by (cases op) (auto simp: postWalletFunding_def postWalletDebit_def postPoolInvestment_def
    postDownPayment_def postRepayment_def postRefund_def postPayout_def postFee_def postAdjustment_def Let_def
    intro!: await_fresh post_fresh [OF _ new])

lemma net_reversing_docs:
  "net P (map (entry_doc j) (map reversing_input es)) = - net (\<lambda>e. P (entry_doc j (reversing_input e))) es"
  by (induction es) auto

text \<open>Reversing the last journal of exact books succeeds and undoes it on every account.\<close>

lemma reversal_undoes:
  assumes "exact_state ids vld E s1" and "posted_on s j s1" and "well_formed ids vld s"
    and "vld (lj_id j)" and "actor \<noteq> []" and "vld actor" and "reason \<noteq> []"
    and "reversal_key E j \<notin> lj_key ` set (lg_journals s1)"
  obtains r s2 where "reverseJournal E (lj_id j) (Some actor) reason s1 = (Inr r, s2)"
    and "exact_state ids vld E s2" and "lg_accounts s2 = lg_accounts s1"
    and "\<forall>a c. net (\<lambda>e. le_account e = a \<and> le_currency e = c) (lg_entries s2)
              = net (\<lambda>e. le_account e = a \<and> le_currency e = c) (lg_entries s)"
    and "\<forall>a. net (\<lambda>e. le_account e = a) (lg_entries s2) = net (\<lambda>e. le_account e = a) (lg_entries s)"
proof -
  let ?p = "reversal_input E j (Some actor) reason s1"
  obtain es where es: "lg_journals s1 = lg_journals s @ [j]" "lg_entries s1 = lg_entries s @ es"
      "\<not> lj_isReversed j" "2 \<le> length es" "list_all (\<lambda>e. le_journal e = lj_id j) es"
    using assms(2) by (auto simp: posted_on_def)
  have books: "exact_books ids vld s1" and genv: "good_env ids vld E" and gids: "good_ids ids vld"
    using assms(1) by (simp_all add: exact_state_def)
  have wf1: "well_formed ids vld s1" using books by (simp add: exact_books_def)
  have new: "lj_id j \<notin> lj_id ` set (lg_journals s)"
    using well_formedD(4) [OF wf1] by (simp add: es(1))
  have "le_journal e \<noteq> lj_id j" if "e \<in> set (lg_entries s)" for e
    using well_formedD(6) [OF assms(3) that] new by metis
  then have of_j: "entries_of (lj_id j) s1 = es"
    using es(2,5) by (auto simp: entries_of_def list_all_iff filter_empty_conv)
  then have inputs: "ji_entries ?p = map reversing_input es" by (simp add: reversal_input_def)
  have find: "find_one (\<lambda>d. lj_id d = lj_id j) (lg_journals s1) = Some j"
    using find_key_unique [OF well_formedD(4) [OF wf1], of j] es(1) by simp
  have ex: "exact_input vld ?p" using reversal_input_exact [OF books] .
  have "list_all (\<lambda>e. 0 < ei_amount e \<and> micro (ei_amount e)) (ji_entries ?p)"
    using exact_entry [OF books] es(2) by (auto simp: inputs list_all_iff)
  then have chk: "journal_check ?p = None"
    using exact_journal_check [of ?p] ex es(4) assms(5,7)
    by (simp add: exact_input_def inputs) (simp add: reversal_input_def truthy_def)
  have key: "find_one (\<lambda>d. lj_key d = ji_key ?p) (lg_journals s1) = None"
    using assms(8) by (force simp: reversal_input_def find_None_iff)
  have val: "journal_valid E ?p"
    using assms(6) genv by (simp add: journal_valid_def reversal_input_def reversal_key_def owner_castable_def good_env_def id_env_def)
  have docs: "storable E (map (entry_doc d) (ji_entries ?p)) = map (entry_doc d) (ji_entries ?p)" for d
    using storable_inputs [OF genv chk] ex by (simp add: exact_input_def)
  let ?r = "new_journal E ?p s1"
  obtain s' where s': "postJournal E ?p s1 = (Inr ?r, s')" "lg_entries s' = lg_entries s1 @ map (entry_doc ?r) (ji_entries ?p)"
    by (simp add: postJournal_def key chk val write_journal_def Let_def docs)
  let ?s2 = "mark_reversed (lj_id j) (lj_id ?r) s'"
  have run: "reverseJournal E (lj_id j) (Some actor) reason s1 = (Inr ?r, ?s2)"
    using find es(3) assms(4) s'(1) genv by (simp add: reverseJournal_def await_def good_env_def id_env_def)
  have cur: "le_currency e \<noteq> []" if "e \<in> set es" for e
    using exact_entry [OF books, of e] that es(2) by simp
  have "net (\<lambda>e. P (le_account e) (le_currency e)) (lg_entries ?s2)
      = net (\<lambda>e. P (le_account e) (le_currency e)) (lg_entries s)" for P
  proof -
    have "net (\<lambda>e. P (le_account e) (or_ngn (Some (le_currency e)))) es = net (\<lambda>e. P (le_account e) (le_currency e)) es"
      using cur by (intro net_cong) (simp add: or_ngn_id)
    then show ?thesis
      unfolding mark_reversed_sel s'(2) inputs es(2) net_append net_reversing_docs by simp
  qed
  from this [of "\<lambda>a c. a = _ \<and> c = _"] this [of "\<lambda>a c. a = _"] show thesis
    using that [OF run] reversal_exact [OF assms(1), of "lj_id j" "Some actor" reason] run
      reversal_accounts [of E "lj_id j" "Some actor" reason s1] by simp
qed

subsection \<open>One-sided adjustments\<close>

lemma enumerate_pair: "enumerate 0 [x, y] = [(0, x), (1, y)]"
  by (simp add: enumerate_eq_zip)

text \<open>An adjustment of a malformed account id: only the entry of the adjustment account is stored.\<close>

lemma half_adjustment:
  assumes "exact_state ids vld E s" and "\<not> vld (ap_target p)" and "good_amount (ap_amount p)"
    and "ap_key p \<noteq> []" and "ap_key p \<notin> lj_key ` set (lg_journals s)"
    and "ap_actor p = Some actor" and "actor \<noteq> []" and "vld actor" and "ap_reason p \<noteq> []"
  obtains j e s' where "postAdjustment E p s = (Inl Entry_rejected, s')"
    and "lg_journals s' = lg_journals s @ [j]" and "lj_key j = ap_key p"
    and "lg_entries s' = lg_entries s @ [e]" and "le_currency e = or_ngn (ap_currency p)"
    and "signed e = (case ap_direction p of Debit \<Rightarrow> - ap_amount p | Credit \<Rightarrow> ap_amount p)"
proof -
  let ?c = "or_ngn (ap_currency p)"
  have env: "good_env ids vld E" "id_env ids vld E" "good_ids ids vld" "exact_books ids vld s"
    using assms(1) by (simp_all add: exact_state_def good_env_def)
  have vld: "lg_valid_oid E = vld" using env(2) by (simp add: id_env_def)
  let ?q = "platform_account Adjustment_category Equity None ?c"
  obtain a s1 where call: "getOrCreateAccount E ?q s = (Inr a, s1)"
    using account_succeeds [of E ?q s] by (metis (no_types, lifting) account_input.select_convs(4) option.case(1)
      owner_castable_def platform_account_def prod.collapse)
  have a: "vld (la_id a)" "lg_journals s1 = lg_journals s" "lg_entries s1 = lg_entries s"
    using account_call [OF call env(2,3)] env(4) by (auto simp: exact_books_def)
  let ?p = "\<lparr> ji_key = ap_key p, ji_event = Ev_adjustment,
        ji_description = ''Administrative adjustment: '' @ ap_reason p,
        ji_entries = [
          \<lparr> ei_account = ap_target p, ei_direction = ap_direction p, ei_amount = ap_amount p, ei_currency = ?c \<rparr>,
          \<lparr> ei_account = la_id a, ei_direction = opposite (ap_direction p), ei_amount = ap_amount p,
            ei_currency = ?c \<rparr>],
        ji_actor = ap_actor p, ji_reason = Some (ap_reason p), ji_metadata = [] \<rparr>"
  have run: "postAdjustment E p s = postJournal E ?p s1"
    by (simp add: postAdjustment_def Let_def await_def call)
  have amt: "0 < ap_amount p" "micro (ap_amount p)" "min_entry \<le> ap_amount p"
    using assms(3) by (auto simp: good_amount_def intro: micro_ge_min)
  have "inet c (ji_entries ?p) = 0" for c
    by (cases "ap_direction p") (simp_all add: isigned_def entry_currency_def)
  then have chk: "journal_check ?p = None"
    using amt assms(6,7,9) by (intro exact_journal_check) (simp_all add: truthy_def)
  have key: "find_one (\<lambda>d. lj_key d = ap_key p) (lg_journals s1) = None"
    using assms(5) a(2) by (force simp: find_None_iff)
  have val: "journal_valid E ?p"
    using assms(4,6,8) vld by (simp add: journal_valid_def owner_castable_def)
  let ?j = "new_journal E ?p s1"
  let ?e = "entry_doc ?j \<lparr> ei_account = la_id a, ei_direction = opposite (ap_direction p), ei_amount = ap_amount p,
            ei_currency = ?c \<rparr>"
  have one: "storable E (map (entry_doc ?j) (ji_entries ?p)) = [?e]"
    using env(1) assms(2) a(1) amt(3) vld
    by (simp add: storable_def enumerate_pair entry_valid_def good_env_def)
  show thesis
  proof (rule that [of "s1\<lparr>lg_journals := lg_journals s1 @ [?j], lg_entries := lg_entries s1 @ [?e],
                          lg_next := Suc (lg_next s1)\<rparr>" ?j ?e])
    show "postAdjustment E p s = (Inl Entry_rejected, s1\<lparr>lg_journals := lg_journals s1 @ [?j],
            lg_entries := lg_entries s1 @ [?e], lg_next := Suc (lg_next s1)\<rparr>)"
      unfolding run postJournal_def write_journal_def Let_def one using key chk val by simp
    show "signed ?e = (case ap_direction p of Debit \<Rightarrow> - ap_amount p | Credit \<Rightarrow> ap_amount p)"
      by (cases "ap_direction p") (simp_all add: isigned_def)
  qed (simp_all add: a entry_currency_def or_ngn_id)
qed

lemma total_of_absent: "(c, d, k) \<notin> set ts \<Longrightarrow> total_of c ts = (d, k) \<Longrightarrow> total_of c ts = (0, 0)"
  by (induction ts) (auto split: if_splits)

lemma unbalanced_reported:
  assumes "list_all (\<lambda>e. le_currency e \<noteq> []) (lg_entries s)"
    and "list_all (\<lambda>e. micro (le_amount e)) (lg_entries s)"
    and "tolerance < \<bar>net (\<lambda>e. le_currency e = c) (lg_entries s)\<bar>"
  shows "\<not> rc_isBalanced (reconcileLedger s)"
proof
  assume bal: "rc_isBalanced (reconcileLedger s)"
  let ?ts = "reconcile_totals (lg_entries s)"
  have cur: "net (\<lambda>e. report_currency e = c) (lg_entries s) = net (\<lambda>e. le_currency e = c) (lg_entries s)"
    using assms(1) by (intro net_cong) (auto simp: report_currency_def or_ngn_id list_all_iff)
  have mic: "list_all (\<lambda>(c, d, k). micro d \<and> micro k) (fold reconcile_add es ts)"
    if "list_all (\<lambda>(c, d, k). micro d \<and> micro k) ts" "list_all (\<lambda>e. micro (le_amount e)) es" for es ts
  proof -
    have one: "list_all (\<lambda>(c, d, k). micro d \<and> micro k) (reconcile_add e ts)"
      if "list_all (\<lambda>(c, d, k). micro d \<and> micro k) ts" "micro (le_amount e)" for e ts
      using that by (induction ts) (auto intro: micro_add)
    show ?thesis using that by (induction es arbitrary: ts) (auto simp: one)
  qed
  obtain d k where dk: "total_of c ?ts = (d, k)" by (cases "total_of c ?ts")
  then have net: "d - k = net (\<lambda>e. le_currency e = c) (lg_entries s)"
    using total_of_reconcile [of c "lg_entries s" "[]"] cur by (simp add: reconcile_totals_def)
  have "(c, d, k) \<in> set ?ts"
  proof (rule ccontr)
    assume "(c, d, k) \<notin> set ?ts"
    then have "total_of c ?ts = (0, 0)" using dk by (rule total_of_absent)
    with dk net assms(3) show False by (simp add: tolerance_def)
  qed
  moreover from this mic [of "[]" "lg_entries s"] assms(2) have "micro d" "micro k"
    by (auto simp: reconcile_totals_def list_all_iff)
  ultimately have "\<bar>d - k\<bar> \<le> tolerance"
    using bal by (force simp: reconcileLedger_def Let_def list_all_iff currency_line_def to_fixed6_id micro_diff not_less)
  with net assms(3) show False by simp
qed

subsection \<open>Rebuilt user balances\<close>

definition own_accounts :: "oid \<Rightarrow> ledger_account list \<Rightarrow> ledger_account list" where
  "own_accounts u as = filter (\<lambda>a. la_owner a = Some u) as"

definition rebuilt :: "ledger_db \<Rightarrow> ledger_account list \<Rightarrow> user \<Rightarrow> user" where
  "rebuilt s as u = (case own_accounts (u_id u) as of
     [] \<Rightarrow> u
   | bs \<Rightarrow> (case computeAccountBalance (la_id (last bs)) s of Inl _ \<Rightarrow> u | Inr b \<Rightarrow> u\<lparr>u_availableBalance := b\<rparr>))"

lemma balance_of_member:
  "a \<in> set (lg_accounts s) \<Longrightarrow> \<exists>b. computeAccountBalance (la_id a) s = Inr b"
  by (auto simp: computeAccountBalance_def Let_def find_None_iff split: option.splits)

lemma rebuild_loop_result:
  assumes "set as \<subseteq> set (lg_accounts s)" and "list_all (\<lambda>a. la_owner a \<noteq> None) as" and "distinct (map u_id us)"
  shows "rebuild_loop s as us r = (map (rebuilt s as) us,
           r\<lparr>rr_updatedCount := rr_updatedCount r + length as\<rparr>)"
  using assms
proof (induction as arbitrary: us r)
  case Nil
  have "rebuilt s [] = id" by (simp add: rebuilt_def own_accounts_def fun_eq_iff)
  then show ?case by simp
next
  case (Cons a as)
  have sub: "set as \<subseteq> set (lg_accounts s)" using Cons.prems(1) by simp
  obtain b where b: "computeAccountBalance (la_id a) s = Inr b"
    using balance_of_member [of a s] Cons.prems(1) by auto
  obtain w where w: "la_owner a = Some w" using Cons.prems(2) by auto
  let ?us = "update_one (\<lambda>u. Some (u_id u) = la_owner a) (\<lambda>u. u\<lparr>u_availableBalance := b\<rparr>) us"
  have upd: "?us = map (\<lambda>u. if u_id u = w then u\<lparr>u_availableBalance := b\<rparr> else u) us"
    using update_one_by_key [OF Cons.prems(3), of w] by (simp add: w)
  have "distinct (map u_id ?us)" using Cons.prems(3) by (simp add: update_one_keys)
  with Cons have "rebuild_loop s (a # as) us r = (map (rebuilt s as) ?us,
      r\<lparr>rr_updatedCount := rr_updatedCount r + length (a # as)\<rparr>)"
    by (simp add: b)
  moreover have "rebuilt s as (if u_id u = w then u\<lparr>u_availableBalance := b\<rparr> else u) = rebuilt s (a # as) u" for u
  proof (cases "own_accounts (u_id u) as")
    case Nil
    with b w show ?thesis by (auto simp: rebuilt_def own_accounts_def)
  next
    case (Cons d ds)
    then have "last (own_accounts (u_id u) as) \<in> set (own_accounts (u_id u) as)" by (intro last_in_set) simp
    then have "last (d # ds) \<in> set (lg_accounts s)"
      using sub by (auto simp: Cons [symmetric] own_accounts_def)
    then obtain v where "computeAccountBalance (la_id (last (d # ds))) s = Inr v" by (metis balance_of_member)
    with Cons w show ?thesis by (auto simp: rebuilt_def own_accounts_def)
  qed
  ultimately show ?case by (simp add: upd comp_def)
qed

end
