(* ===== verification/Ledger_Theorems.thy ===== *)
theory Ledger_Theorems
  imports Ledger_Guarantees
begin

text \<open>
  The properties of the double-entry ledger: exact books, idempotent postings, the
  refinement of the abstract bookkeeping specification, reversals, the chart of accounts,
  the tolerance, one-sided adjustments and the rebuilt user balances.
\<close>

subsection \<open>A small ledger for the witnesses\<close>

definition demo_oid :: "nat \<Rightarrow> oid" where
  "demo_oid n = replicate (Suc n) (CHR ''a'')"

definition demo_valid :: "string \<Rightarrow> bool" where
  "demo_valid x \<longleftrightarrow> x \<noteq> [] \<and> list_all (\<lambda>c. c = CHR ''a'') x"

definition lenv :: "time \<Rightarrow> ledger_env" where
  "lenv t = \<lparr> lg_now = t, lg_oid = demo_oid, lg_valid_oid = demo_valid, lg_stored = (\<lambda>_. True) \<rparr>"

definition empty_ledger :: ledger_db where
  "empty_ledger = \<lparr> lg_accounts = [], lg_journals = [], lg_entries = [], lg_next = 0 \<rparr>"

lemma demo_ids [simp]: "good_ids demo_oid demo_valid"
proof -
  have "inj demo_oid" by (rule injI) (simp add: demo_oid_def list_eq_iff_nth_eq del: replicate_Suc)
  then show ?thesis by (simp add: good_ids_def demo_valid_def demo_oid_def list_all_iff)
qed

lemma demo_env [simp]: "good_env demo_oid demo_valid (lenv t)" "id_env demo_oid demo_valid (lenv t)"
  by (simp_all add: good_env_def id_env_def lenv_def)

lemma empty_exact [simp]: "exact_books demo_oid demo_valid empty_ledger"
  by (simp add: exact_books_def well_formed_def empty_ledger_def)

lemma micro_numeral [simp]: "micro (numeral k)" "micro 1"
  by (rule microI [of _ "numeral k * 1000000"], simp) (rule microI [of _ 1000000], simp)

definition fund :: "rat \<Rightarrow> string \<Rightarrow> wallet_params" where
  "fund x k = \<lparr> wp_user = ''aa'', wp_type = User_investor, wp_amount = x, wp_currency = None, wp_key = k,
     wp_description = None \<rparr>"

lemma demo_valid_strings [simp]: "demo_valid ''a''" "demo_valid ''aa''" "\<not> demo_valid ''zz''"
  by (simp_all add: demo_valid_def)

lemma exact_run:
  assumes "list_all (\<lambda>i. good_env ids vld (fst i) \<and> op_micro vld (snd i)) ops" and "good_ids ids vld"
    and "exact_books ids vld s"
  shows "exact_books ids vld (run_seq run_ledger ops s)"
proof (rule run_seq_invariant [where I = "exact_books ids vld"])
  fix i t
  assume "i \<in> set ops" and "exact_books ids vld t"
  then show "exact_books ids vld (snd (run_ledger i t))"
    using assms run_exact [of ids vld "fst i" t "snd i"]
    by (auto simp: run_ledger_def exact_state_def list_all_iff split: prod.splits)
qed (rule assms(3))

subsection \<open>Exact books\<close>

text \<open>
  C11.  Double entry: whatever sequence of postings, adjustments (of well-formed account ids)
  and reversals runs, successful or not, on amounts with at most six decimals, the debits
  equal the credits in every currency, every single journal is balanced in every currency,
  and the system-wide reconciliation reports a balanced ledger with no imbalance at all.
\<close>

theorem ledger_always_balanced:
  assumes "list_all (\<lambda>i. good_env ids vld (fst i) \<and> op_micro vld (snd i)) ops" and "good_ids ids vld"
    and "exact_books ids vld s"
  shows "let s' = run_seq run_ledger ops s in
     (\<forall>c. net (\<lambda>e. le_currency e = c) (lg_entries s') = 0)
   \<and> (\<forall>j c. net (\<lambda>e. le_journal e = j \<and> le_currency e = c) (lg_entries s') = 0)
   \<and> rc_isBalanced (reconcileLedger s')
   \<and> list_all (\<lambda>l. cr_imbalance l = 0) (rc_totals (reconcileLedger s'))"
proof -
  have books: "exact_books ids vld (run_seq run_ledger ops s)" by (rule exact_run [OF assms])
  with exact_reconciles [OF books] show ?thesis by (simp add: Let_def exact_books_def)
qed

theorem ledger_always_balanced_witness:
  "rc_isBalanced (reconcileLedger (run_seq run_ledger
      [(lenv 1, Wallet_funding (fund 100 ''k1'')), (lenv 2, Fee (fund 5 ''k2''))] empty_ledger))"
  using ledger_always_balanced [of demo_oid demo_valid
      "[(lenv 1, Wallet_funding (fund 100 ''k1'')), (lenv 2, Fee (fund 5 ''k2''))]" empty_ledger]
  by (simp only: Let_def) (simp add: fund_def)

text \<open>
   Postings are idempotent in their reference key: whichever helper is called with a key
  that a journal already carries, in whatever environment, no journal and no entry is
  written, and the answer is that journal (or the failure of an account look-up).
\<close>

theorem posting_idempotent:
  assumes "find_one (\<lambda>j. lj_key j = k) (lg_journals s) = Some j" and "op_key op = Some k"
    and "run_ledger_op E op s = (r, s')"
  shows "lg_journals s' = lg_journals s \<and> lg_entries s' = lg_entries s
    \<and> (case r of Inl e \<Rightarrow> e = Cast_failed | Inr i \<Rightarrow> i = j)"
  using op_settled [OF assms(1,2), of E] assms(3) by (simp add: settled_on_def)

definition funded_ledger :: ledger_db where
  "funded_ledger = snd (run_ledger_op (lenv 1) (Wallet_funding (fund 100 ''k1'')) empty_ledger)"

lemma to_fixed6_numeral [simp]: "to_fixed6 (numeral k) = numeral k"
  by (simp add: to_fixed6_id)

lemmas demo_ledger_defs = funded_ledger_def run_ledger_op.simps postWalletFunding_def wallet_account_def
  owned_account_def platform_account_def await_def getOrCreateAccount_def new_account_def empty_ledger_def
  fund_def or_ngn_def Let_def truthy_def owner_castable_def lenv_def postJournal_def plain_journal_def
  debit_def credit_def journal_check_def entry_currency_def tolerance_def journal_valid_def or_text_def
  write_journal_def new_journal_def entry_doc_def storable_def enumerate_pair entry_valid_def min_entry_def
  account_matches_def demo_oid_def

theorem posting_idempotent_witness:
  "lg_entries (snd (run_ledger_op (lenv 2) (Wallet_debit (fund 7 ''k1'')) funded_ledger)) = lg_entries funded_ledger
   \<and> length (lg_entries funded_ledger) = 2"
proof
  obtain j where j: "find_one (\<lambda>j. lj_key j = ''k1'') (lg_journals funded_ledger) = Some j"
    by (simp add: demo_ledger_defs)
  obtain r s' where run: "run_ledger_op (lenv 2) (Wallet_debit (fund 7 ''k1'')) funded_ledger = (r, s')"
    by (cases "run_ledger_op (lenv 2) (Wallet_debit (fund 7 ''k1'')) funded_ledger")
  then show "lg_entries (snd (run_ledger_op (lenv 2) (Wallet_debit (fund 7 ''k1'')) funded_ledger)) = lg_entries funded_ledger"
    using posting_idempotent [OF j _ run] by (simp add: fund_def)
  show "length (lg_entries funded_ledger) = 2" by (simp add: demo_ledger_defs)
qed

subsection \<open>Refinement of the abstract books\<close>

lemma linked_empty [simp]: "linked_books demo_oid demo_valid (lenv t) empty_ledger"
  by (simp add: linked_books_def well_formed_def empty_ledger_def)

lemma linked_env: "linked_books ids vld E s \<Longrightarrow> good_env ids vld E' \<Longrightarrow> linked_books ids vld E' s"
  by (simp add: linked_books_def)

lemma spec_run:
  assumes "list_all (\<lambda>i. good_env ids vld (fst i) \<and> plain_op vld (snd i)) ops" and "linked_books ids vld E s"
  shows "book_of (run_seq run_ledger ops s) = fold (\<lambda>i. spec_step (snd i)) ops (book_of s)"
  using assms
proof (induction ops arbitrary: E s)
  case Nil
  then show ?case by simp
next
  case (Cons i ops)
  then have "linked_books ids vld (fst i) s" and "plain_op vld (snd i)"
    using linked_env by auto
  from posting_refines [OF this] have
    "linked_books ids vld (fst i) (snd (run_ledger i s))" "book_of (snd (run_ledger i s)) = spec_step (snd i) (book_of s)"
    by (simp_all add: run_ledger_def split_beta)
  with Cons.IH [of "fst i" "snd (run_ledger i s)"] Cons.prems(1) show ?case by simp
qed

text \<open>
  C12.  The posting service refines an abstract bookkeeping specification.  The specification
  keeps the reference keys and one signed balance per account category and currency; a
  posting with a new key moves its amount (for a repayment: fee and principal apart) from
  one category to another, and a posting with a known key does nothing.  Through the
  abstraction function, any run of the eight posting helpers with well-formed inputs behaves
  exactly like the specification, whichever accounts it found or had to create.
\<close>

theorem postings_refine_books:
  assumes "list_all (\<lambda>i. good_env ids vld (fst i) \<and> plain_op vld (snd i)) ops" and "linked_books ids vld E s"
  shows "book_of (run_seq run_ledger ops s) = fold (\<lambda>i. spec_step (snd i)) ops (book_of s)"
  using assms by (rule spec_run)

definition demo_repayment :: repay_params where
  "demo_repayment = \<lparr> rp_driver = ''aaa'', rp_amount = 50, rp_fee = Some 2, rp_currency = None, rp_key = ''k3'' \<rparr>"

theorem postings_refine_books_witness:
  "snd (book_of (run_seq run_ledger [(lenv 1, Wallet_funding (fund 100 ''k1'')), (lenv 2, Repayment demo_repayment),
      (lenv 3, Wallet_funding (fund 100 ''k1''))] empty_ledger)) Repayments_receivable ''NGN'' = - 48"
proof -
  let ?ops = "[(lenv 1, Wallet_funding (fund 100 ''k1'')), (lenv 2, Repayment demo_repayment),
      (lenv 3, Wallet_funding (fund 100 ''k1''))]"
  have "list_all (\<lambda>i. good_env demo_oid demo_valid (fst i) \<and> plain_op demo_valid (snd i)) ?ops"
    by (simp add: fund_def demo_repayment_def good_amount_def demo_valid_def)
  from postings_refine_books [OF this linked_empty] show ?thesis
    by (simp add: book_of_def empty_ledger_def spec_step_def fund_def demo_repayment_def or_ngn_def)
qed

subsection \<open>Reversal\<close>

text \<open>
  C13.  Posting and reversing is a round trip: when a posting has gone through as a new journal
  and an administrator (with a reason) reverses it, the reversal succeeds, and afterwards every
  account that existed before has exactly the balance it had before, and every account has the
  same net amount in every currency.
\<close>

theorem reversal_round_trip:
  assumes "exact_state ids vld E s" and "op_micro vld op" and "op_key op = Some k"
    and "k \<notin> lj_key ` set (lg_journals s)" and "run_ledger_op E op s = (Inr j, s1)"
    and "good_env ids vld E2" and "actor \<noteq> []" and "vld actor" and "reason \<noteq> []"
    and "reversal_key E2 j \<notin> lj_key ` set (lg_journals s1)"
  shows "\<exists>r s2. reverseJournal E2 (lj_id j) (Some actor) reason s1 = (Inr r, s2)
    \<and> list_all (\<lambda>a. computeAccountBalance (la_id a) s2 = computeAccountBalance (la_id a) s) (lg_accounts s)
    \<and> (\<forall>a c. net (\<lambda>e. le_account e = a \<and> le_currency e = c) (lg_entries s2)
              = net (\<lambda>e. le_account e = a \<and> le_currency e = c) (lg_entries s))"
proof -
  have books: "exact_books ids vld s" and ids: "good_ids ids vld" using assms(1) by (simp_all add: exact_state_def)
  have wf: "well_formed ids vld s" using books by (simp add: exact_books_def)
  have post: "posted_on s j s1"
    using op_fresh [OF assms(3,4), of E] assms(5) by (simp add: fresh_result_def)
  have s1: "exact_state ids vld E2 s1"
    using run_exact [OF assms(1,2)] assms(5,6) by (simp add: exact_state_def)
  then have "lj_id j \<in> ids ` UNIV"
    using well_formedD(2) [of ids vld s1] post by (auto simp: exact_state_def exact_books_def posted_on_def)
  then have vj: "vld (lj_id j)" using ids by (auto simp: good_ids_def)
  obtain r s2 where rev: "reverseJournal E2 (lj_id j) (Some actor) reason s1 = (Inr r, s2)"
      "exact_state ids vld E2 s2" "lg_accounts s2 = lg_accounts s1"
      "\<forall>a c. net (\<lambda>e. le_account e = a \<and> le_currency e = c) (lg_entries s2)
              = net (\<lambda>e. le_account e = a \<and> le_currency e = c) (lg_entries s)"
      "\<forall>a. net (\<lambda>e. le_account e = a) (lg_entries s2) = net (\<lambda>e. le_account e = a) (lg_entries s)"
    using reversal_undoes [OF s1 post wf vj assms(7-10)] by blast
  have "computeAccountBalance (la_id a) s2 = computeAccountBalance (la_id a) s" if "a \<in> set (lg_accounts s)" for a
  proof -
    have old: "find_one (\<lambda>d. la_id d = la_id a) (lg_accounts s) = Some a"
      using find_key_unique [OF well_formedD(3) [OF wf] that] .
    then have "find_one (\<lambda>d. la_id d = la_id a) (lg_accounts s2) = Some a"
      using rev(3) post by (auto simp: posted_on_def find_one_append)
    with old show ?thesis
      using balance_net [OF books old] balance_net [of ids vld s2] rev(2,5) by (simp add: exact_state_def)
  qed
  with rev(1,4) show ?thesis by (auto simp: list_all_iff)
qed

theorem reversal_round_trip_witness:
  "\<exists>j r s2. fst (run_ledger_op (lenv 1) (Wallet_funding (fund 100 ''k1'')) empty_ledger) = Inr j
     \<and> reverseJournal (lenv 2) (lj_id j) (Some ''a'') ''error'' funded_ledger = (Inr r, s2)"
proof -
  obtain j where j: "run_ledger_op (lenv 1) (Wallet_funding (fund 100 ''k1'')) empty_ledger = (Inr j, funded_ledger)"
    by (simp add: demo_ledger_defs)
  have jk: "map lj_key (lg_journals funded_ledger) = [''k1'']" by (simp add: demo_ledger_defs)
  then have keys: "lj_key ` set (lg_journals funded_ledger) = {''k1''}"
    by (metis list.set_map list.simps(15) empty_set)
  have "exact_state demo_oid demo_valid (lenv 1) empty_ledger" by (simp add: exact_state_def)
  from reversal_round_trip [OF this _ _ _ j, of "''k1''" "lenv 2" "''a''" "''error''"] j keys show ?thesis
    by (auto simp: fund_def empty_ledger_def reversal_key_def)
qed

subsection \<open>The chart of accounts\<close>

text \<open>
  C14.  Typing: whatever runs, in any environment, every account of the ledger has the type
  that the chart of accounts gives its category (wallets, escrow and payables are liabilities,
  clearing and receivables assets, fees revenue, adjustments equity), and on exact books the
  computed balance of every account is its signed sum, counted on the side of that type.
\<close>

theorem accounts_typed:
  assumes "charted_books s" and "list_all (\<lambda>i. good_env ids vld (fst i) \<and> op_micro vld (snd i)) ops"
    and "good_ids ids vld" and "exact_books ids vld s"
  shows "let s' = run_seq run_ledger ops s in charted_books s'
    \<and> list_all (\<lambda>a. computeAccountBalance (la_id a) s' =
         Inr ((if chart (la_category a) = Some Asset then 1 else - 1) * net (\<lambda>e. le_account e = la_id a) (lg_entries s')))
       (lg_accounts s')"
proof -
  let ?s = "run_seq run_ledger ops s"
  have ch: "charted_books ?s"
    by (rule run_seq_invariant [where I = charted_books])
      (auto simp: run_ledger_def split_beta run_charted assms(1))
  have books: "exact_books ids vld ?s" by (rule exact_run [OF assms(2-4)])
  have "computeAccountBalance (la_id a) ?s =
      Inr ((if chart (la_category a) = Some Asset then 1 else - 1) * net (\<lambda>e. le_account e = la_id a) (lg_entries ?s))"
    if a: "a \<in> set (lg_accounts ?s)" for a
  proof -
    have "find_one (\<lambda>d. la_id d = la_id a) (lg_accounts ?s) = Some a"
      using find_key_unique [OF _ a] well_formedD(3) [of ids vld ?s] books by (simp add: exact_books_def)
    moreover have "chart (la_category a) = Some (la_type a)" using ch a by (simp add: charted_books_def list_all_iff)
    moreover have "credit_normal (la_type a) \<longleftrightarrow> chart (la_category a) \<noteq> Some Asset"
      using calculation(2) by (cases "la_category a") auto
    ultimately show ?thesis using balance_net [OF books] by simp
  qed
  with ch show ?thesis by (simp add: Let_def list_all_iff)
qed

lemma charted_empty [simp]: "charted_books empty_ledger"
  by (simp add: charted_books_def empty_ledger_def)

theorem accounts_typed_witness:
  "charted_books (run_seq run_ledger [(lenv 1, Wallet_funding (fund 100 ''k1''))] empty_ledger)"
  using accounts_typed [of empty_ledger demo_oid demo_valid "[(lenv 1, Wallet_funding (fund 100 ''k1''))]"]
  by (simp add: Let_def fund_def)

subsection \<open>The tolerance\<close>

definition run_post :: "ledger_env \<times> journal_input \<Rightarrow> posting" where
  "run_post = (\<lambda>(E, p). postJournal E p)"

text \<open>
  C15.  Bounds: \<open>postJournal\<close> lets a journal pass whose debits and credits differ by up to
  0.00001, and the differences add up.  After any run of arbitrary journals (six decimals,
  well-formed accounts) the imbalance of every currency is at most 0.00001 times the number
  of journals.  The witness shows the bound is reached and that two accepted journals are
  enough for the reconciliation to call the ledger unbalanced.
\<close>

theorem imbalance_bounded:
  assumes "list_all (\<lambda>i. good_env ids vld (fst i) \<and> micro_input vld (snd i)) ps" and "good_ids ids vld"
    and "bounded_books ids vld s"
  shows "\<forall>c. \<bar>net (\<lambda>e. le_currency e = c) (lg_entries (run_seq run_post ps s))\<bar>
      \<le> of_nat (length (lg_journals (run_seq run_post ps s))) * tolerance"
proof -
  have "bounded_books ids vld (run_seq run_post ps s)"
  proof (rule run_seq_invariant [where I = "bounded_books ids vld"])
    fix i t
    assume "i \<in> set ps" and "bounded_books ids vld t"
    then show "bounded_books ids vld (snd (run_post i t))"
      using assms(1,2) bounded.post_inv [of ids vld "fst i" t "snd i"]
      by (auto simp: run_post_def bounded_state_def list_all_iff split_beta)
  qed (rule assms(3))
  then show ?thesis by (simp add: bounded_books_def)
qed

definition skewed :: "string \<Rightarrow> journal_input" where
  "skewed k = plain_journal k Ev_payout ''skewed''
     [\<lparr> ei_account = ''a'', ei_direction = Debit, ei_amount = 1, ei_currency = ''NGN'' \<rparr>,
      \<lparr> ei_account = ''aa'', ei_direction = Credit, ei_amount = 1 - tolerance, ei_currency = ''NGN'' \<rparr>]"

definition skewed_ledger :: ledger_db where
  "skewed_ledger = run_seq run_post [(lenv 1, skewed ''k1''), (lenv 2, skewed ''k2'')] empty_ledger"

lemma micro_tolerance: "micro (1 - tolerance)"
  by (rule microI [of _ 999990]) (simp add: tolerance_def)

lemma skewed_entries:
  "map (\<lambda>e. (le_direction e, le_amount e, le_currency e)) (lg_entries skewed_ledger) =
     [(Debit, 1, ''NGN''), (Credit, 1 - tolerance, ''NGN''), (Debit, 1, ''NGN''), (Credit, 1 - tolerance, ''NGN'')]"
proof -
  have fix1: "to_fixed6 1 = 1" "to_fixed6 (1 - tolerance) = 1 - tolerance"
    by (simp_all add: to_fixed6_id micro_tolerance)
  have chk: "journal_check (skewed k) = None" for k
    using fix1 by (simp add: journal_check_def skewed_def plain_journal_def entry_currency_def or_ngn_def)
      (simp add: tolerance_def)
  have mic: "micro_input demo_valid (skewed k)" for k
    by (simp add: micro_input_def skewed_def plain_journal_def micro_tolerance)
  have docs: "storable (lenv t) (map (entry_doc j) (ji_entries (skewed k))) = map (entry_doc j) (ji_entries (skewed k))"
    for t j k
    using storable_inputs [of demo_oid demo_valid "lenv t" "skewed k" j] chk mic by (simp add: micro_input_def)
  have val: "journal_valid (lenv t) (skewed k) \<longleftrightarrow> k \<noteq> []" for t k
    by (simp add: journal_valid_def skewed_def plain_journal_def owner_castable_def)
  have key: "ji_key (skewed k) = k" for k by (simp add: skewed_def)
  have post: "postJournal (lenv t) (skewed k) s = (Inr (new_journal (lenv t) (skewed k) s),
      s\<lparr>lg_journals := lg_journals s @ [new_journal (lenv t) (skewed k) s],
        lg_entries := lg_entries s @ map (entry_doc (new_journal (lenv t) (skewed k) s)) (ji_entries (skewed k)),
        lg_next := Suc (lg_next s)\<rparr>)"
    if "k \<noteq> []" "k \<notin> lj_key ` set (lg_journals s)" for t k s
  proof -
    have "find_one (\<lambda>j. lj_key j = ji_key (skewed k)) (lg_journals s) = None"
      using that(2) by (force simp: find_None_iff key)
    then show ?thesis by (simp add: postJournal_def chk val that(1) write_journal_def Let_def docs)
  qed
  show ?thesis
    by (simp add: skewed_ledger_def run_post_def post empty_ledger_def key)
      (simp add: skewed_def plain_journal_def entry_currency_def or_ngn_def)
qed

lemma skewed_net: "net (\<lambda>e. le_currency e = ''NGN'') (lg_entries skewed_ledger) = 2 * tolerance"
proof -
  obtain a b c d where es: "lg_entries skewed_ledger = [a, b, c, d]"
    using arg_cong [OF skewed_entries, of length] by (auto simp: length_Suc_conv numeral_eq_Suc)
  show ?thesis using skewed_entries by (auto simp: es signed_def)
qed

lemma skewed_unbalanced: "\<not> rc_isBalanced (reconcileLedger skewed_ledger)"
proof (rule unbalanced_reported [of _ "''NGN''"])
  obtain a b c d where es: "lg_entries skewed_ledger = [a, b, c, d]"
    using arg_cong [OF skewed_entries, of length] by (auto simp: length_Suc_conv numeral_eq_Suc)
  show "list_all (\<lambda>e. le_currency e \<noteq> []) (lg_entries skewed_ledger)"
    and "list_all (\<lambda>e. micro (le_amount e)) (lg_entries skewed_ledger)"
    using skewed_entries by (auto simp: es micro_tolerance)
  show "tolerance < \<bar>net (\<lambda>e. le_currency e = ''NGN'') (lg_entries skewed_ledger)\<bar>"
    unfolding skewed_net by (simp add: tolerance_def)
qed

theorem imbalance_bounded_witness:
  "\<bar>net (\<lambda>e. le_currency e = ''NGN'') (lg_entries skewed_ledger)\<bar>
      \<le> of_nat (length (lg_journals skewed_ledger)) * tolerance
   \<and> net (\<lambda>e. le_currency e = ''NGN'') (lg_entries skewed_ledger) = 2 * tolerance
   \<and> \<not> rc_isBalanced (reconcileLedger skewed_ledger)"
proof -
  have "list_all (\<lambda>i. good_env demo_oid demo_valid (fst i) \<and> micro_input demo_valid (snd i))
      [(lenv 1, skewed ''k1''), (lenv 2, skewed ''k2'')]"
    by (simp add: micro_input_def skewed_def plain_journal_def micro_tolerance)
  moreover have "bounded_books demo_oid demo_valid empty_ledger"
    by (simp add: bounded_books_def well_formed_def empty_ledger_def)
  ultimately have "\<forall>c. \<bar>net (\<lambda>e. le_currency e = c) (lg_entries skewed_ledger)\<bar>
      \<le> of_nat (length (lg_journals skewed_ledger)) * tolerance"
    unfolding skewed_ledger_def by (rule imbalance_bounded [OF _ demo_ids])
  then show ?thesis using skewed_net skewed_unbalanced by metis
qed

subsection \<open>One-sided adjustments\<close>

text \<open>
   An adjustment is not atomic: with a malformed target account id, on exact books, the
  call fails, but its journal stays posted together with the entry of the adjustment account
  alone, so the currency is off by the whole amount and the reconciliation reports an
  unbalanced ledger; repeating the call then answers with that journal as if it had worked.
\<close>

theorem malformed_adjustment_unbalances:
  assumes "exact_state ids vld E s" and "\<not> vld (ap_target p)" and "good_amount (ap_amount p)"
    and "tolerance < ap_amount p" and "ap_key p \<noteq> []" and "ap_key p \<notin> lj_key ` set (lg_journals s)"
    and "ap_actor p = Some actor" and "actor \<noteq> []" and "vld actor" and "ap_reason p \<noteq> []"
  shows "\<exists>j s'. postAdjustment E p s = (Inl Entry_rejected, s') \<and> j \<in> set (lg_journals s') \<and> lj_key j = ap_key p
    \<and> \<bar>net (\<lambda>e. le_currency e = or_ngn (ap_currency p)) (lg_entries s')\<bar> = ap_amount p
    \<and> \<not> rc_isBalanced (reconcileLedger s')
    \<and> fst (postAdjustment E p s') = Inr j"
proof -
  let ?c = "or_ngn (ap_currency p)"
  have books: "exact_books ids vld s" and genv: "id_env ids vld E" and ids: "good_ids ids vld"
    using assms(1) by (simp_all add: exact_state_def good_env_def)
  obtain j e s' where half: "postAdjustment E p s = (Inl Entry_rejected, s')" "lg_journals s' = lg_journals s @ [j]"
      "lj_key j = ap_key p" "lg_entries s' = lg_entries s @ [e]" "le_currency e = ?c"
      "signed e = (case ap_direction p of Debit \<Rightarrow> - ap_amount p | Credit \<Rightarrow> ap_amount p)"
    by (rule half_adjustment [OF assms(1-3,5-10)])
  have pos: "0 < ap_amount p" "micro (ap_amount p)" using assms(3) by (simp_all add: good_amount_def)
  have net: "\<bar>net (\<lambda>e. le_currency e = ?c) (lg_entries s')\<bar> = ap_amount p"
    using half(4-6) books pos by (cases "ap_direction p") (simp_all add: exact_books_def)
  have "\<bar>le_amount e\<bar> = \<bar>signed e\<bar>" by (cases "le_direction e") (simp_all add: signed_def)
  then have "le_amount e = ap_amount p \<or> le_amount e = - ap_amount p"
    using half(6) by (cases "ap_direction p") auto
  then have "micro (le_amount e)" using pos(2) micro_uminus by auto
  then have bad: "\<not> rc_isBalanced (reconcileLedger s')"
    using half(4,5) net assms(4) books exact_entry [OF books]
    by (intro unbalanced_reported [of _ ?c]) (auto simp: list_all_iff)
  have find: "find_one (\<lambda>d. lj_key d = ap_key p) (lg_journals s') = Some j"
  proof -
    have "find_one (\<lambda>d. lj_key d = ap_key p) (lg_journals s) = None"
      using assms(6) by (force simp: find_None_iff)
    then show ?thesis using half(2,3) by (simp add: find_one_append)
  qed
  have "fst (postAdjustment E p s') = Inr j"
  proof -
    obtain a s1 where "getOrCreateAccount E (platform_account Adjustment_category Equity None ?c) s' = (Inr a, s1)"
      using account_succeeds [of E "platform_account Adjustment_category Equity None ?c" s']
      by (auto simp: owner_castable_def platform_account_def fst_def split: prod.splits)
    with account_books [OF this] find show ?thesis
      by (simp add: postAdjustment_def Let_def await_def postJournal_def)
  qed
  with half net bad show ?thesis by auto
qed

definition demo_adjustment :: adjust_params where
  "demo_adjustment = \<lparr> ap_target = ''zz'', ap_direction = Credit, ap_amount = 5, ap_currency = None,
     ap_actor = Some ''a'', ap_reason = ''fix'', ap_key = ''adj'' \<rparr>"

theorem malformed_adjustment_unbalances_witness:
  "\<exists>s'. postAdjustment (lenv 1) demo_adjustment empty_ledger = (Inl Entry_rejected, s')
     \<and> \<not> rc_isBalanced (reconcileLedger s')"
proof -
  have "exact_state demo_oid demo_valid (lenv 1) empty_ledger" by (simp add: exact_state_def)
  from malformed_adjustment_unbalances [OF this, of demo_adjustment "''a''"] show ?thesis
    by (auto simp: demo_adjustment_def good_amount_def tolerance_def empty_ledger_def)
qed

subsection \<open>Rebuilding user balances\<close>

text \<open>
   \<open>rebuildUserBalances\<close> never fails, counts every owned wallet account, and changes
  nothing but the available balances of their owners: each gets the computed balance of the
  last of its wallet accounts, whatever their currencies; users without one are untouched.
\<close>

theorem rebuild_effect:
  assumes "distinct (map u_id us)"
  shows "rebuildUserBalances s us = (map (rebuilt s (wallet_accounts s)) us,
           \<lparr> rr_updatedCount = length (wallet_accounts s), rr_errors = [] \<rparr>)"
  unfolding rebuildUserBalances_def
  using rebuild_loop_result [of "wallet_accounts s" s us] assms
  by (auto simp: wallet_accounts_def list_all_iff)

definition demo_user :: "oid \<Rightarrow> user" where
  "demo_user x = \<lparr> u_id = x, u_kycStatus = None, u_isKycVerified = None, u_kycVerified = None,
     u_availableBalance = 0 \<rparr>"

theorem rebuild_effect_witness:
  "map u_availableBalance (fst (rebuildUserBalances funded_ledger [demo_user ''aa'', demo_user ''aaa''])) = [100, 0]"
proof -
  have acc: "\<exists>a b. lg_accounts funded_ledger = [a, b] \<and> la_owner a = Some ''aa'' \<and> la_category a = Investor_wallet
      \<and> la_owner b = None \<and> computeAccountBalance (la_id a) funded_ledger = Inr 100"
    by (simp add: demo_ledger_defs computeAccountBalance_def direction_total_def)
  have "distinct (map u_id [demo_user ''aa'', demo_user ''aaa''])" by (simp add: demo_user_def)
  from rebuild_effect [OF this, of funded_ledger] acc show ?thesis
    by (auto simp: rebuilt_def own_accounts_def wallet_accounts_def demo_user_def)
qed

end
