(* ===== verification/Settlement_Model.thy ===== *)
theory Settlement_Model
  imports Contract_Service
begin

text \<open>
  Settlement of provider payments: the state machine of \<open>lib/settlement/state-machine.ts\<close>,
  the rail configuration of \<open>lib/settlement/config.ts\<close>, the record of
  \<open>models/SettlementRecord.ts\<close> and the services of
  \<open>lib/settlement/settlement-service.ts\<close>, with the settlement step of the Stellar indexer
  (\<open>lib/stellar/indexer.ts\<close>).
\<close>

subsection \<open>The state machine\<close>

datatype settlement_state =
  Set_initiated | Set_provider_pending | Set_observed | Set_provisionally_credited | Set_confirmed
| Set_reversed | Set_disputed | Set_failed | Set_expired

datatype settlement_rail = Rail_paystack | Rail_stellar | Rail_internal_ledger | Rail_bank_transfer

datatype settlement_trigger = By_webhook | By_verifier | By_indexer | By_operator | By_system

datatype payment_kind =
  For_wallet_funding | For_down_payment | For_driver_repayment | For_pool_investment | For_payout

fun SETTLEMENT_TRANSITIONS :: "settlement_state \<Rightarrow> settlement_state list" where
  "SETTLEMENT_TRANSITIONS Set_initiated =
     [Set_provider_pending, Set_observed, Set_provisionally_credited, Set_confirmed, Set_failed, Set_expired]"
| "SETTLEMENT_TRANSITIONS Set_provider_pending =
     [Set_observed, Set_provisionally_credited, Set_confirmed, Set_failed, Set_expired]"
| "SETTLEMENT_TRANSITIONS Set_observed = [Set_provisionally_credited, Set_confirmed, Set_failed, Set_expired]"
| "SETTLEMENT_TRANSITIONS Set_provisionally_credited = [Set_confirmed, Set_reversed, Set_failed]"
| "SETTLEMENT_TRANSITIONS Set_confirmed = [Set_reversed, Set_disputed]"
| "SETTLEMENT_TRANSITIONS Set_disputed = [Set_confirmed, Set_reversed]"
| "SETTLEMENT_TRANSITIONS Set_reversed = []"
| "SETTLEMENT_TRANSITIONS Set_failed = []"
| "SETTLEMENT_TRANSITIONS Set_expired = []"

definition isValidSettlementTransition :: "settlement_state option \<Rightarrow> settlement_state \<Rightarrow> bool" where
  "isValidSettlementTransition frm to =
     (case frm of None \<Rightarrow> True | Some f \<Rightarrow> f = to \<or> to \<in> set (SETTLEMENT_TRANSITIONS f))"

interpretation settlement_cycle: lifecycle SETTLEMENT_TRANSITIONS isValidSettlementTransition
    "\<lambda>s. SETTLEMENT_TRANSITIONS s = []"
  by unfold_locales (simp_all add: isValidSettlementTransition_def)

fun determineSafeActions :: "settlement_state \<Rightarrow> bool \<Rightarrow> string list" where
  "determineSafeActions Set_initiated stuck =
     (if stuck then [''RETRY_VERIFICATION'', ''MARK_EXPIRED'', ''FORCE_CONFIRM''] else [''RETRY_VERIFICATION''])"
| "determineSafeActions Set_provider_pending stuck =
     (if stuck then [''RETRY_VERIFICATION'', ''MARK_EXPIRED'', ''FORCE_CONFIRM''] else [''RETRY_VERIFICATION''])"
| "determineSafeActions Set_observed stuck =
     (if stuck then [''RETRY_VERIFICATION'', ''FORCE_CONFIRM'', ''POST_REVERSAL''] else [''RETRY_VERIFICATION''])"
| "determineSafeActions Set_provisionally_credited stuck =
     (if stuck then [''RETRY_VERIFICATION'', ''FORCE_CONFIRM'', ''POST_REVERSAL''] else [''RETRY_VERIFICATION''])"
| "determineSafeActions Set_confirmed stuck = [''POST_REVERSAL'', ''FLAG_DISPUTE'']"
| "determineSafeActions Set_disputed stuck = [''RESOLVE_DISPUTE_CONFIRM'', ''RESOLVE_DISPUTE_REVERSE'']"
| "determineSafeActions Set_failed stuck = [''REINITIALIZE_SETTLEMENT'']"
| "determineSafeActions Set_expired stuck = [''REINITIALIZE_SETTLEMENT'']"
| "determineSafeActions Set_reversed stuck = []"

subsection \<open>Rails\<close>

record rail_config =
  rcf_rail :: settlement_rail
  rcf_finalityThreshold :: nat
  rcf_pendingTimeoutMs :: int
  rcf_observedTimeoutMs :: int
  rcf_autoExpire :: bool

definition rail_config_of :: "settlement_rail \<Rightarrow> nat \<Rightarrow> int \<Rightarrow> int \<Rightarrow> bool \<Rightarrow> rail_config" where
  "rail_config_of r n p ob e = \<lparr> rcf_rail = r, rcf_finalityThreshold = n, rcf_pendingTimeoutMs = p,
     rcf_observedTimeoutMs = ob, rcf_autoExpire = e \<rparr>"

fun production_config :: "settlement_rail \<Rightarrow> rail_config" where
  "production_config Rail_paystack = rail_config_of Rail_paystack 1 (15 * 60 * 1000) (30 * 60 * 1000) False"
| "production_config Rail_stellar = rail_config_of Rail_stellar 3 (5 * 60 * 1000) (10 * 60 * 1000) False"
| "production_config Rail_bank_transfer =
     rail_config_of Rail_bank_transfer 1 (24 * 60 * 60 * 1000) (48 * 60 * 60 * 1000) False"
| "production_config Rail_internal_ledger = rail_config_of Rail_internal_ledger 1 (5 * 60 * 1000) (5 * 60 * 1000) True"

fun development_config :: "settlement_rail \<Rightarrow> rail_config" where
  "development_config Rail_paystack = rail_config_of Rail_paystack 1 (5 * 60 * 1000) (10 * 60 * 1000) True"
| "development_config Rail_stellar = rail_config_of Rail_stellar 1 (2 * 60 * 1000) (5 * 60 * 1000) True"
| "development_config Rail_bank_transfer =
     rail_config_of Rail_bank_transfer 1 (60 * 60 * 1000) (120 * 60 * 1000) False"
| "development_config Rail_internal_ledger = rail_config_of Rail_internal_ledger 1 (60 * 1000) (60 * 1000) True"

definition getRailSettlementConfig :: "settlement_rail \<Rightarrow> string \<Rightarrow> rail_config" where
  "getRailSettlementConfig rail e = (if e = ''production'' then production_config rail else development_config rail)"

subsection \<open>Records\<close>

record timeline_event =
  te_from :: "settlement_state option"
  te_to :: settlement_state
  te_triggeredBy :: settlement_trigger
  te_reason :: string
  te_safeActions :: "string list"
  te_metadata :: "(string \<times> meta) list"
  te_timestamp :: time

record settlement_links =
  sl_stellarHash :: "string option"
  sl_ledgerJournalId :: "string option"
  sl_poolInvestmentId :: "string option"
  sl_userTransactionId :: "string option"
  sl_driverPaymentId :: "string option"

record settlement =
  se_id :: string
  se_rail :: settlement_rail
  se_environment :: string
  se_state :: settlement_state
  se_providerReference :: string
  se_links :: settlement_links
  se_userId :: oid
  se_userType :: string
  se_paymentType :: payment_kind
  se_amount :: rat
  se_currency :: string
  se_finalityThreshold :: nat
  se_confirmationsCount :: nat
  se_timeline :: "timeline_event list"
  se_isStuck :: bool
  se_stuckReason :: "string option"
  se_alertSent :: bool
  se_lastEvaluatedAt :: "time option"
  se_createdAt :: time

text \<open>The balance buckets of a user, beside the fields the contract service reads.\<close>

record wallet_owner = user +
  w_pendingBalance :: rat
  w_heldBalance :: rat
  w_reversedBalance :: rat

record reversal_tx =
  rt_id :: oid
  rt_userId :: oid
  rt_userType :: string
  rt_type :: string
  rt_amount :: rat
  rt_currency :: string
  rt_method :: string
  rt_status :: string
  rt_gatewayReference :: string
  rt_relatedId :: string
  rt_deducted :: "rat \<times> rat \<times> rat"

text \<open>The fields of an \<open>AuditLog\<close> document that its schema requires or checks.\<close>

record audit_doc =
  ad_action :: "string option"
  ad_targetType :: "string option"
  ad_targetId :: "string option"

record sdb =
  sd_settlements :: "settlement list"
  sd_users :: "wallet_owner list"
  sd_transactions :: "reversal_tx list"
  sd_audit :: "audit_doc list"

text \<open>
  The surroundings of a call: clock, id syntax, \<open>NODE_ENV\<close>, the settlement id generated at
  each attempt, the id of the reversal transaction and the outcome of the commit.
\<close>

record senv =
  sv_now :: time
  sv_valid_oid :: "string \<Rightarrow> bool"
  sv_node_env :: string
  sv_new_id :: "nat \<Rightarrow> string"
  sv_tx_id :: oid
  sv_commit_fault :: "driver_error option"

datatype settle_error =
  Reference_required | Settlement_invalid | Id_collisions | Settlement_not_found
| Invalid_settlement_transition settlement_state settlement_state | Settle_validation
| Settle_cast | Settle_driver driver_error

end
