(* ===== verification/Settlement_Service.thy ===== *)
theory Settlement_Service
  imports Settlement_Model
begin

text \<open>
  \<open>initiateSettlement\<close>, \<open>transitionSettlementState\<close>, \<open>executeReversalJournal\<close> and
  \<open>evaluateFinalityTimeouts\<close>.  Every write of a transition happens in its transaction, so an
  error of a call without a caller's session leaves the database as it was.  The durations in
  the texts of the timeout evaluation are left out.
\<close>

subsection \<open>Initiating\<close>

record initiate_input =
  ii_rail :: settlement_rail
  ii_providerReference :: string
  ii_userId :: oid
  ii_userType :: string
  ii_paymentType :: payment_kind
  ii_amount :: rat
  ii_currency :: "string option"
  ii_links :: settlement_links
  ii_initialState :: "settlement_state option"
  ii_triggeredBy :: "settlement_trigger option"
  ii_reason :: "string option"
  ii_metadata :: "(string \<times> meta) list"

definition PENDING_STATES :: "settlement_state list" where
  "PENDING_STATES = [Set_initiated, Set_provider_pending, Set_observed, Set_provisionally_credited]"

definition initial_event :: "senv \<Rightarrow> initiate_input \<Rightarrow> timeline_event" where
  "initial_event E inp =
     (let st = (case ii_initialState inp of None \<Rightarrow> Set_initiated | Some x \<Rightarrow> x)
      in \<lparr> te_from = None, te_to = st,
           te_triggeredBy = (case ii_triggeredBy inp of None \<Rightarrow> By_system | Some b \<Rightarrow> b),
           te_reason = (if truthy (ii_reason inp) then the (ii_reason inp) else ''Settlement record initiated''),
           te_safeActions = determineSafeActions st False, te_metadata = ii_metadata inp,
           te_timestamp = sv_now E \<rparr>)"

definition new_settlement :: "senv \<Rightarrow> initiate_input \<Rightarrow> string \<Rightarrow> string \<Rightarrow> settlement" where
  "new_settlement E inp ref sid =
     \<lparr> se_id = sid, se_rail = ii_rail inp, se_environment = sv_node_env E,
       se_state = te_to (initial_event E inp), se_providerReference = ref, se_links = ii_links inp,
       se_userId = ii_userId inp, se_userType = ii_userType inp, se_paymentType = ii_paymentType inp,
       se_amount = ii_amount inp,
       se_currency = (if truthy (ii_currency inp) then the (ii_currency inp) else ''NGN''),
       se_finalityThreshold = rcf_finalityThreshold (getRailSettlementConfig (ii_rail inp) (sv_node_env E)),
       se_confirmationsCount = 0, se_timeline = [initial_event E inp], se_isStuck = False,
       se_stuckReason = None, se_alertSent = False, se_lastEvaluatedAt = None, se_createdAt = sv_now E \<rparr>"

text \<open>What the schema accepts.\<close>

definition settlement_valid :: "senv \<Rightarrow> initiate_input \<Rightarrow> bool" where
  "settlement_valid E inp \<longleftrightarrow> 0 \<le> ii_amount inp \<and> sv_valid_oid E (ii_userId inp)
     \<and> ii_userType inp \<in> {''driver'', ''investor'', ''admin''}"

definition add_pending :: "rat \<Rightarrow> wallet_owner \<Rightarrow> wallet_owner" where
  "add_pending x u = u\<lparr>w_pendingBalance := w_pendingBalance u + x\<rparr>"

definition insert_settlement :: "settlement \<Rightarrow> sdb \<Rightarrow> sdb" where
  "insert_settlement st s =
     s\<lparr>sd_settlements := sd_settlements s @ [st],
       sd_users := (if se_state st \<in> set PENDING_STATES \<and> se_paymentType st = For_wallet_funding
                    then update_one (\<lambda>u. u_id u = se_userId st) (add_pending (se_amount st)) (sd_users s)
                    else sd_users s)\<rparr>"

definition MAX_SETTLEMENT_ID_COLLISION_RETRIES :: nat where
  "MAX_SETTLEMENT_ID_COLLISION_RETRIES = 3"

text \<open>
  The loop over the attempts; \<open>n\<close> is \<open>attempt\<close>.  A commit that fails is neither of the
  duplicate-key errors and is thrown.
\<close>

function initiate_loop ::
  "senv \<Rightarrow> initiate_input \<Rightarrow> string \<Rightarrow> nat \<Rightarrow> sdb \<Rightarrow> (settle_error + settlement \<times> bool) \<times> sdb" where
  "initiate_loop E inp ref n s =
     (if MAX_SETTLEMENT_ID_COLLISION_RETRIES < n then (Inl Id_collisions, s)
      else if \<not> settlement_valid E inp then (Inl Settlement_invalid, s)
      else if sv_new_id E n \<in> se_id ` set (sd_settlements s) then
        (if n = MAX_SETTLEMENT_ID_COLLISION_RETRIES then (Inl Id_collisions, s)
         else initiate_loop E inp ref (Suc n) s)
      else (case sv_commit_fault E of
          Some e \<Rightarrow> (Inl (Settle_driver e), s)
        | None \<Rightarrow> (let st = new_settlement E inp ref (sv_new_id E n)
                   in (Inr (st, False), insert_settlement st s))))"
  by pat_completeness auto
termination by (relation "measure (\<lambda>(E, inp, ref, n, s). Suc MAX_SETTLEMENT_ID_COLLISION_RETRIES - n)") auto

definition initiateSettlement ::
  "senv \<Rightarrow> initiate_input \<Rightarrow> sdb \<Rightarrow> (settle_error + settlement \<times> bool) \<times> sdb" where
  "initiateSettlement E inp s =
     (let ref = js_trim (ii_providerReference inp)
      in if ref = [] then (Inl Reference_required, s)
         else case find_one (\<lambda>t. se_providerReference t = ref \<and> se_rail t = ii_rail inp) (sd_settlements s) of
           Some t \<Rightarrow> (Inr (t, True), s)
         | None \<Rightarrow> initiate_loop E inp ref 1 s)"

subsection \<open>Reversal\<close>

record settle_input =
  si_settlementId :: "string option"
  si_providerReference :: "string option"
  si_targetState :: settlement_state
  si_triggeredBy :: settlement_trigger
  si_reason :: string
  si_links :: settlement_links
  si_confirmationsCount :: "nat option"
  si_metadata :: "(string \<times> meta) list"

text \<open>What is taken from the available, the held and the pending balance.\<close>

definition reversal_split :: "wallet_owner \<Rightarrow> rat \<Rightarrow> rat \<times> rat \<times> rat" where
  "reversal_split u amount =
     (if u_availableBalance u \<ge> amount then (amount, 0, 0)
      else let rest = amount - u_availableBalance u
           in if w_heldBalance u \<ge> rest then (u_availableBalance u, rest, 0)
              else (u_availableBalance u, w_heldBalance u, min (w_pendingBalance u) (rest - w_heldBalance u)))"

definition reversed_user :: "wallet_owner \<Rightarrow> rat \<Rightarrow> wallet_owner" where
  "reversed_user u amount =
     (case reversal_split u amount of (a, h, p) \<Rightarrow>
        u\<lparr>u_availableBalance := max (u_availableBalance u - a) 0,
          w_heldBalance := max (w_heldBalance u - h) 0,
          w_pendingBalance := max (w_pendingBalance u - p) 0,
          w_reversedBalance := w_reversedBalance u + amount\<rparr>)"

definition reversal_transaction_of :: "senv \<Rightarrow> settlement \<Rightarrow> wallet_owner \<Rightarrow> reversal_tx" where
  "reversal_transaction_of E st u =
     \<lparr> rt_id = sv_tx_id E, rt_userId = u_id u, rt_userType = se_userType st, rt_type = ''wallet_debit'',
       rt_amount = se_amount st, rt_currency = se_currency st,
       rt_method = (if se_rail st = Rail_paystack then ''paystack'' else ''system''),
       rt_status = ''Completed'', rt_gatewayReference = ''REV-'' @ se_providerReference st,
       rt_relatedId = (if truthy (sl_userTransactionId (se_links st)) then the (sl_userTransactionId (se_links st))
                       else se_id st),
       rt_deducted = reversal_split u (se_amount st) \<rparr>"

text \<open>
  The audit document of the reversal sets \<open>userId\<close>, \<open>targetModel\<close>, \<open>details\<close> and
  \<open>timestamp\<close>, none of which is a path of the schema; the required \<open>targetType\<close> is missing.
\<close>

definition reversal_audit :: "settlement \<Rightarrow> audit_doc" where
  "reversal_audit st = \<lparr> ad_action = Some ''SETTLEMENT_REVERSAL_POSTED'', ad_targetType = None,
     ad_targetId = Some (se_id st) \<rparr>"

definition create_audit :: "audit_doc \<Rightarrow> audit_doc list \<Rightarrow> settle_error + audit_doc list" where
  "create_audit d ds =
     (if truthy (map_option js_trim (ad_action d)) \<and> truthy (map_option js_trim (ad_targetType d))
      then Inr (ds @ [d]) else Inl Settle_validation)"

definition executeReversalJournal ::
  "senv \<Rightarrow> wallet_owner \<Rightarrow> settlement \<Rightarrow> sdb \<Rightarrow> (settle_error + wallet_owner \<times> settlement) \<times> sdb" where
  "executeReversalJournal E u st s =
     (let tx = reversal_transaction_of E st u;
          st' = st\<lparr>se_links := (se_links st)\<lparr>sl_ledgerJournalId := Some (rt_id tx)\<rparr>\<rparr>;
          s' = s\<lparr>sd_transactions := sd_transactions s @ [tx]\<rparr>
      in case create_audit (reversal_audit st) (sd_audit s) of
           Inl e \<Rightarrow> (Inl e, s')
         | Inr audit \<Rightarrow> (Inr (reversed_user u (se_amount st), st'), s'\<lparr>sd_audit := audit\<rparr>))"

subsection \<open>Transitions\<close>

definition link_or :: "string option \<Rightarrow> string option \<Rightarrow> string option" where
  "link_or x old = (if truthy x then x else old)"

definition merge_links :: "settlement_links \<Rightarrow> settlement_links \<Rightarrow> settlement_links" where
  "merge_links new old =
     \<lparr> sl_stellarHash = link_or (sl_stellarHash new) (sl_stellarHash old),
       sl_ledgerJournalId = link_or (sl_ledgerJournalId new) (sl_ledgerJournalId old),
       sl_poolInvestmentId = link_or (sl_poolInvestmentId new) (sl_poolInvestmentId old),
       sl_userTransactionId = link_or (sl_userTransactionId new) (sl_userTransactionId old),
       sl_driverPaymentId = link_or (sl_driverPaymentId new) (sl_driverPaymentId old) \<rparr>"

definition settlement_event :: "senv \<Rightarrow> settle_input \<Rightarrow> settlement \<Rightarrow> timeline_event" where
  "settlement_event E inp st =
     \<lparr> te_from = Some (se_state st), te_to = si_targetState inp, te_triggeredBy = si_triggeredBy inp,
       te_reason = si_reason inp, te_safeActions = determineSafeActions (si_targetState inp) False,
       te_metadata = si_metadata inp, te_timestamp = sv_now E \<rparr>"

definition moved_settlement :: "senv \<Rightarrow> settle_input \<Rightarrow> settlement \<Rightarrow> settlement" where
  "moved_settlement E inp st =
     st\<lparr>se_links := merge_links (si_links inp) (se_links st),
        se_confirmationsCount := (case si_confirmationsCount inp of None \<Rightarrow> se_confirmationsCount st | Some n \<Rightarrow> n),
        se_state := si_targetState inp,
        se_timeline := se_timeline st @ [settlement_event E inp st],
        se_isStuck := False, se_stuckReason := None\<rparr>"

text \<open>The movements between the balance buckets of a funded wallet, reversals apart.\<close>

definition wallet_moves :: "settlement_state \<Rightarrow> settlement_state \<Rightarrow> rat \<Rightarrow> wallet_owner \<Rightarrow> wallet_owner" where
  "wallet_moves prev to amount u =
     (let wasPending = prev \<in> set PENDING_STATES;
          unpended = (if wasPending
            then u\<lparr>w_pendingBalance := max (w_pendingBalance u - min (w_pendingBalance u) amount) 0\<rparr> else u)
      in case to of
        Set_confirmed \<Rightarrow> unpended\<lparr>u_availableBalance := u_availableBalance u + amount\<rparr>
      | Set_disputed \<Rightarrow>
          (let hold = min (u_availableBalance u) amount
           in u\<lparr>u_availableBalance := max (u_availableBalance u - hold) 0,
                w_heldBalance := w_heldBalance u + hold\<rparr>)
      | Set_failed \<Rightarrow> unpended
      | Set_expired \<Rightarrow> unpended
      | _ \<Rightarrow> u)"

text \<open>The \<open>min: 0\<close> validator of a saved available balance.\<close>

definition user_saveable :: "wallet_owner \<Rightarrow> wallet_owner \<Rightarrow> bool" where
  "user_saveable old new \<longleftrightarrow> u_availableBalance new = u_availableBalance old \<or> 0 \<le> u_availableBalance new"

definition save_user :: "wallet_owner \<Rightarrow> sdb \<Rightarrow> sdb" where
  "save_user u s = s\<lparr>sd_users := update_one (\<lambda>v. u_id v = u_id u) (\<lambda>_. u) (sd_users s)\<rparr>"

definition save_settlement :: "settlement \<Rightarrow> sdb \<Rightarrow> sdb" where
  "save_settlement st s = s\<lparr>sd_settlements := update_one (\<lambda>t. se_id t = se_id st) (\<lambda>_. st) (sd_settlements s)\<rparr>"

text \<open>What happens to the user of the settlement: nothing, a reversal, or a bucket movement.\<close>

definition settle_user ::
  "senv \<Rightarrow> settlement_state \<Rightarrow> settlement \<Rightarrow> sdb \<Rightarrow> (settle_error + settlement) \<times> sdb" where
  "settle_user E prev st s =
     (case find_one (\<lambda>u. u_id u = se_userId st) (sd_users s) of
        None \<Rightarrow> (Inr st, s)
      | Some u \<Rightarrow>
          if se_state st = Set_reversed then
            (case executeReversalJournal E u st s of
               (Inl e, s') \<Rightarrow> (Inl e, s')
             | (Inr (u', st'), s') \<Rightarrow> (Inr st', save_user u' s'))
          else if se_paymentType st = For_wallet_funding then
            (let u' = wallet_moves prev (se_state st) (se_amount st) u
             in if user_saveable u u' then (Inr st, save_user u' s) else (Inl Settle_validation, s))
          else (Inr st, s))"

definition find_settlement :: "settle_input \<Rightarrow> settlement list \<Rightarrow> settlement option" where
  "find_settlement inp ds =
     (if truthy (si_settlementId inp) then find_one (\<lambda>t. Some (se_id t) = si_settlementId inp) ds
      else if truthy (si_providerReference inp)
      then find_one (\<lambda>t. se_providerReference t = js_trim (the (si_providerReference inp))) ds
      else None)"

definition settle_body ::
  "senv \<Rightarrow> settle_input \<Rightarrow> sdb \<Rightarrow> (settle_error + settlement \<times> settlement_state) \<times> sdb" where
  "settle_body E inp s =
     (case find_settlement inp (sd_settlements s) of
        None \<Rightarrow> (Inl Settlement_not_found, s)
      | Some st \<Rightarrow>
          if se_state st = si_targetState inp then (Inr (st, se_state st), s)
          else if \<not> isValidSettlementTransition (Some (se_state st)) (si_targetState inp)
          then (Inl (Invalid_settlement_transition (se_state st) (si_targetState inp)), s)
          else (case settle_user E (se_state st) (moved_settlement E inp st) s of
              (Inl e, s') \<Rightarrow> (Inl e, s')
            | (Inr st', s') \<Rightarrow>
                if si_reason inp = [] then (Inl Settle_validation, s')
                else (Inr (st', se_state st), save_settlement st' s')))"

definition transitionSettlementState ::
  "senv \<Rightarrow> bool \<Rightarrow> settle_input \<Rightarrow> sdb \<Rightarrow> (settle_error + settlement \<times> settlement_state) \<times> sdb" where
  "transitionSettlementState E session inp s =
     run_in_session (\<lambda>s s'. s) (map_option Settle_driver (sv_commit_fault E)) session (settle_body E inp) s"

subsection \<open>Timeouts\<close>

record timeout_report =
  tr_evaluatedCount :: nat
  tr_stuckCount :: nat
  tr_expiredCount :: nat

definition no_links :: settlement_links where
  "no_links = \<lparr> sl_stellarHash = None, sl_ledgerJournalId = None, sl_poolInvestmentId = None,
     sl_userTransactionId = None, sl_driverPaymentId = None \<rparr>"

definition expire_input :: "settlement \<Rightarrow> settle_input" where
  "expire_input st = \<lparr> si_settlementId = Some (se_id st), si_providerReference = None,
     si_targetState = Set_expired, si_triggeredBy = By_system,
     si_reason = ''Settlement automatically expired after exceeding timeout threshold'',
     si_links = no_links, si_confirmationsCount = None, si_metadata = [] \<rparr>"

definition timeout_of :: "settlement \<Rightarrow> int" where
  "timeout_of st =
     (let c = getRailSettlementConfig (se_rail st) (se_environment st)
      in if se_state st = Set_observed \<or> se_state st = Set_provisionally_credited
         then rcf_observedTimeoutMs c else rcf_pendingTimeoutMs c)"

definition overdue :: "senv \<Rightarrow> settlement \<Rightarrow> bool" where
  "overdue E st \<longleftrightarrow> sv_now E - se_createdAt st > timeout_of st"

definition auto_expires :: "settlement \<Rightarrow> bool" where
  "auto_expires st = rcf_autoExpire (getRailSettlementConfig (se_rail st) (se_environment st))"

definition mark_stuck :: "senv \<Rightarrow> settlement \<Rightarrow> settlement" where
  "mark_stuck E st = st\<lparr>se_isStuck := True, se_stuckReason := Some ''Settlement pending'', se_alertSent := True,
     se_lastEvaluatedAt := Some (sv_now E)\<rparr>"

fun timeout_loop ::
  "senv \<Rightarrow> settlement list \<Rightarrow> timeout_report \<Rightarrow> sdb \<Rightarrow> (settle_error + timeout_report) \<times> sdb" where
  "timeout_loop E [] r s = (Inr r, s)"
| "timeout_loop E (st # sts) r s =
     (if \<not> overdue E st then timeout_loop E sts r s
      else if auto_expires st then
        (case transitionSettlementState E False (expire_input st) s of
           (Inl e, s') \<Rightarrow> (Inl e, s')
         | (Inr _, s') \<Rightarrow> timeout_loop E sts (r\<lparr>tr_expiredCount := Suc (tr_expiredCount r)\<rparr>) s')
      else timeout_loop E sts (r\<lparr>tr_stuckCount := Suc (tr_stuckCount r)\<rparr>)
             (s\<lparr>sd_settlements := update_one (\<lambda>t. se_id t = se_id st) (mark_stuck E) (sd_settlements s)\<rparr>))"

definition evaluateFinalityTimeouts :: "senv \<Rightarrow> sdb \<Rightarrow> (settle_error + timeout_report) \<times> sdb" where
  "evaluateFinalityTimeouts E s =
     (let active = filter (\<lambda>t. se_state t \<in> set PENDING_STATES) (sd_settlements s)
      in timeout_loop E active \<lparr> tr_evaluatedCount = length active, tr_stuckCount = 0, tr_expiredCount = 0 \<rparr> s)"

subsection \<open>The Stellar indexer\<close>

text \<open>
  The settlement part of indexing one operation (its event document was new): the operation
  counts as one more confirmation of the matching settlement.
\<close>

record indexed_op =
  op_id :: string
  op_txHash :: string

definition matches_op :: "indexed_op \<Rightarrow> settlement \<Rightarrow> bool" where
  "matches_op p st \<longleftrightarrow> (se_providerReference st = op_txHash p \<or> sl_stellarHash (se_links st) = Some (op_txHash p)
     \<or> se_providerReference st = op_id p) \<and> se_rail st = Rail_stellar"

definition index_input :: "indexed_op \<Rightarrow> settlement \<Rightarrow> settle_input" where
  "index_input p st =
     (let n = Suc (se_confirmationsCount st)
      in \<lparr> si_settlementId = Some (se_id st), si_providerReference = None,
           si_targetState = (if n \<ge> se_finalityThreshold st then Set_confirmed else Set_observed),
           si_triggeredBy = By_indexer, si_reason = ''Indexed Stellar operation '' @ op_id p,
           si_links = no_links\<lparr>sl_stellarHash := Some (op_txHash p)\<rparr>, si_confirmationsCount = Some n,
           si_metadata = [] \<rparr>)"

definition index_settlement ::
  "senv \<Rightarrow> indexed_op \<Rightarrow> sdb \<Rightarrow> (settle_error + (settlement \<times> settlement_state) option) \<times> sdb" where
  "index_settlement E p s =
     (case find_one (matches_op p) (sd_settlements s) of
        None \<Rightarrow> (Inr None, s)
      | Some st \<Rightarrow>
          if se_state st = Set_confirmed then (Inr None, s)
          else (case transitionSettlementState E False (index_input p st) s of
                  (Inl e, s') \<Rightarrow> (Inl e, s')
                | (Inr x, s') \<Rightarrow> (Inr (Some x), s')))"

end
