(* ===== verification/Settlement_Guarantees.thy ===== *)
theory Settlement_Guarantees
  imports Settlement_Service
begin

text \<open>
  The lemmas behind the settlement properties: what a transition changes, the timeline
  invariant, non-negative balances, and the loops of initiation and timeout evaluation.
\<close>

subsection \<open>What a transition changes\<close>

lemma users_save_settlement [simp]: "sd_users (save_settlement st s) = sd_users s"
  by (simp add: save_settlement_def)

lemma settlements_save_user [simp]: "sd_settlements (save_user u s) = sd_settlements s"
  by (simp add: save_user_def)

lemma reversal_fails:
  "executeReversalJournal E u st s = (r, s') \<Longrightarrow> r = Inl Settle_validation \<and> sd_settlements s' = sd_settlements s
     \<and> sd_users s' = sd_users s"
  by (auto simp: executeReversalJournal_def Let_def create_audit_def reversal_audit_def truthy_def)

text \<open>The user part of a transition: refused, or a transition that is not the reversal of a user's settlement.\<close>

lemma settle_user_cases:
  assumes "settle_user E prev st s = (r, s')"
  obtains (refused) "r = Inl Settle_validation" "sd_settlements s' = sd_settlements s" "sd_users s' = sd_users s"
  | (no_user) "r = Inr st" "s' = s" "find_one (\<lambda>u. u_id u = se_userId st) (sd_users s) = None"
  | (other) u where "r = Inr st" "s' = s" "find_one (\<lambda>u. u_id u = se_userId st) (sd_users s) = Some u"
      "se_state st \<noteq> Set_reversed" "se_paymentType st \<noteq> For_wallet_funding"
  | (moved) u where "r = Inr st" "find_one (\<lambda>u. u_id u = se_userId st) (sd_users s) = Some u"
      "se_state st \<noteq> Set_reversed" "se_paymentType st = For_wallet_funding"
      "user_saveable u (wallet_moves prev (se_state st) (se_amount st) u)"
      "s' = save_user (wallet_moves prev (se_state st) (se_amount st) u) s"
proof (cases "find_one (\<lambda>u. u_id u = se_userId st) (sd_users s)")
  case None
  with assms show thesis by (intro no_user) (simp_all add: settle_user_def)
next
  case (Some u)
  show thesis
  proof (cases "se_state st = Set_reversed")
    case True
    obtain x t where x: "executeReversalJournal E u st s = (x, t)" by (cases "executeReversalJournal E u st s")
    with True Some assms reversal_fails [OF x] show thesis
      by (intro refused) (auto simp: settle_user_def)
  next
    case False
    let ?u = "wallet_moves prev (se_state st) (se_amount st) u"
    consider "se_paymentType st \<noteq> For_wallet_funding" | "se_paymentType st = For_wallet_funding" "user_saveable u ?u"
      | "se_paymentType st = For_wallet_funding" "\<not> user_saveable u ?u" by blast
    then show thesis
    proof cases
      case 1
      with Some False assms show thesis by (intro other) (simp_all add: settle_user_def)
    next
      case 2
      with Some False assms show thesis by (intro moved) (auto simp: settle_user_def Let_def)
    next
      case 3
      with Some False assms show thesis by (intro refused) (simp_all add: settle_user_def Let_def)
    qed
  qed
qed

lemma moved_sel [simp]:
  "se_id (moved_settlement E inp st) = se_id st" "se_state (moved_settlement E inp st) = si_targetState inp"
  "se_amount (moved_settlement E inp st) = se_amount st" "se_userId (moved_settlement E inp st) = se_userId st"
  "se_paymentType (moved_settlement E inp st) = se_paymentType st"
  "se_timeline (moved_settlement E inp st) = se_timeline st @ [settlement_event E inp st]"
  "se_providerReference (moved_settlement E inp st) = se_providerReference st"
  "se_rail (moved_settlement E inp st) = se_rail st"
  "se_finalityThreshold (moved_settlement E inp st) = se_finalityThreshold st"
  "se_isStuck (moved_settlement E inp st) = False"
  "se_createdAt (moved_settlement E inp st) = se_createdAt st"
  "se_environment (moved_settlement E inp st) = se_environment st"
  by (simp_all add: moved_settlement_def)

lemma settle_body_cases:
  assumes "settle_body E inp s = (r, s')"
  obtains (failed) e where "r = Inl e" "sd_settlements s' = sd_settlements s"
  | (same) st where "find_settlement inp (sd_settlements s) = Some st" "r = Inr (st, se_state st)" "s' = s"
      "se_state st = si_targetState inp"
  | (moved) st s1 where "find_settlement inp (sd_settlements s) = Some st" "se_state st \<noteq> si_targetState inp"
      "si_targetState inp \<in> set (SETTLEMENT_TRANSITIONS (se_state st))"
      "settle_user E (se_state st) (moved_settlement E inp st) s = (Inr (moved_settlement E inp st), s1)"
      "sd_settlements s1 = sd_settlements s" "si_reason inp \<noteq> []"
      "r = Inr (moved_settlement E inp st, se_state st)" "s' = save_settlement (moved_settlement E inp st) s1"
proof (cases "find_settlement inp (sd_settlements s)")
  case None
  with assms show thesis by (intro failed) (auto simp: settle_body_def)
next
  case (Some st)
  show thesis
  proof (cases "se_state st = si_targetState inp \<or> \<not> isValidSettlementTransition (Some (se_state st)) (si_targetState inp)")
    case True
    with Some assms same failed show thesis by (auto simp: settle_body_def split: if_splits)
  next
    case False
    then have ok: "se_state st \<noteq> si_targetState inp" "si_targetState inp \<in> set (SETTLEMENT_TRANSITIONS (se_state st))"
      by (auto simp: isValidSettlementTransition_def)
    let ?st = "moved_settlement E inp st"
    obtain x s1 where x: "settle_user E (se_state st) ?st s = (x, s1)" by (cases "settle_user E (se_state st) ?st s")
    have sets: "sd_settlements s1 = sd_settlements s" and xr: "x = Inl Settle_validation \<or> x = Inr ?st"
      using x by (cases rule: settle_user_cases, simp_all)+
    have res: "(r, s') = (case x of Inl e \<Rightarrow> (Inl e, s1)
        | Inr st' \<Rightarrow> if si_reason inp = [] then (Inl Settle_validation, s1) else (Inr (st', se_state st), save_settlement st' s1))"
      using assms Some ok x False by (simp add: settle_body_def)
    consider "x = Inl Settle_validation" | "x = Inr ?st" "si_reason inp = []" | "x = Inr ?st" "si_reason inp \<noteq> []"
      using xr by blast
    then show thesis
    proof cases
      case 1
      with res sets show thesis by (intro failed) simp_all
    next
      case 2
      with res sets show thesis by (intro failed) simp_all
    next
      case 3
      with res sets x Some ok show thesis by (intro moved) simp_all
    qed
  qed
qed

text \<open>A call in its own transaction: it failed and nothing changed, or the body's result was committed.\<close>

lemma transition_cases:
  assumes "transitionSettlementState E False inp s = (r, s')"
  obtains (failed) e where "r = Inl e" "s' = s"
  | (committed) x where "r = Inr x" "settle_body E inp s = (Inr x, s')" "sv_commit_fault E = None"
  using assms
  by (auto simp: transitionSettlementState_def run_in_session_def split: prod.splits sum.splits option.splits)

lemma find_settlementD:
  "find_settlement inp ds = Some st \<Longrightarrow> st \<in> set ds"
  by (auto simp: find_settlement_def split: if_splits dest: find_one_SomeD)

subsection \<open>Timelines\<close>

definition timeline_ok :: "settlement \<Rightarrow> bool" where
  "timeline_ok st \<longleftrightarrow> se_timeline st \<noteq> []
     \<and> walk SETTLEMENT_TRANSITIONS (map te_to (se_timeline st))
     \<and> te_to (last (se_timeline st)) = se_state st
     \<and> map te_from (se_timeline st) = None # map Some (butlast (map te_to (se_timeline st)))
     \<and> 0 \<le> se_amount st"

definition balances_ok :: "wallet_owner \<Rightarrow> bool" where
  "balances_ok u \<longleftrightarrow> 0 \<le> u_availableBalance u \<and> 0 \<le> w_pendingBalance u \<and> 0 \<le> w_heldBalance u
     \<and> 0 \<le> w_reversedBalance u"

definition settlements_ok :: "sdb \<Rightarrow> bool" where
  "settlements_ok s \<longleftrightarrow> distinct (map se_id (sd_settlements s)) \<and> list_all timeline_ok (sd_settlements s)
     \<and> list_all balances_ok (sd_users s)"

lemma moved_timeline:
  assumes "timeline_ok st" and "si_targetState inp \<in> set (SETTLEMENT_TRANSITIONS (se_state st))"
  shows "timeline_ok (moved_settlement E inp st)"
proof -
  let ?tl = "map te_to (se_timeline st)"
  have ne: "?tl \<noteq> []" "last ?tl = se_state st" using assms(1) by (simp_all add: timeline_ok_def last_map)
  have "walk SETTLEMENT_TRANSITIONS (?tl @ [si_targetState inp])"
    using assms ne by (simp add: walk_snoc timeline_ok_def)
  moreover have "map Some ?tl = map Some (butlast ?tl) @ [Some (se_state st)]"
    using ne by (metis append_butlast_last_id list.simps(8,9) map_append)
  ultimately show ?thesis
    using assms(1) by (auto simp: timeline_ok_def settlement_event_def)
qed

lemma wallet_moves_ok:
  "balances_ok u \<Longrightarrow> 0 \<le> x \<Longrightarrow> balances_ok (wallet_moves prev to x u)"
  by (cases to) (auto simp: wallet_moves_def Let_def balances_ok_def)

lemma wallet_moves_id [simp]: "u_id (wallet_moves prev to x u) = u_id u"
  by (cases to) (auto simp: wallet_moves_def Let_def)

lemma save_user_ok:
  "list_all balances_ok (sd_users s) \<Longrightarrow> balances_ok u \<Longrightarrow> list_all balances_ok (sd_users (save_user u s))"
  by (auto simp: save_user_def list_all_iff dest!: set_update_one)

lemma transition_ok:
  assumes "settlements_ok s" and "transitionSettlementState E False inp s = (r, s')"
  shows "settlements_ok s'"
  using assms(2)
proof (cases rule: transition_cases)
  case (failed e)
  with assms(1) show ?thesis by simp
next
  case (committed x)
  from committed(2) show ?thesis
  proof (cases rule: settle_body_cases)
    case (same st)
    with assms(1) show ?thesis by simp
  next
    case (moved st s1)
    have st: "timeline_ok st" "0 \<le> se_amount st"
      using find_settlementD [OF moved(1)] assms(1) by (auto simp: settlements_ok_def list_all_iff timeline_ok_def)
    have sets: "sd_settlements s' = update_one (\<lambda>t. se_id t = se_id st) (\<lambda>_. moved_settlement E inp st) (sd_settlements s)"
      using moved(5,8) by (simp add: save_settlement_def)
    have "distinct (map se_id (sd_settlements s'))"
      using assms(1) unfolding sets settlements_ok_def
      by (subst update_one_by_key) (auto simp: comp_def if_distrib cong: if_cong intro: map_cong)
    moreover have "list_all timeline_ok (sd_settlements s')"
      using assms(1) moved_timeline [OF st(1) moved(3)]
      unfolding sets by (auto simp: settlements_ok_def list_all_iff dest!: set_update_one)
    moreover have "list_all balances_ok (sd_users s')"
    proof -
      have users: "list_all balances_ok (sd_users s)" using assms(1) by (simp add: settlements_ok_def)
      have "list_all balances_ok (sd_users s1)"
        using moved(4)
      proof (cases rule: settle_user_cases)
        case (moved u)
        then have "balances_ok u" using users by (auto simp: list_all_iff dest: find_one_SomeD)
        with moved st(2) show ?thesis by (simp add: users save_user_ok wallet_moves_ok)
      qed (use users in simp_all)
      then show ?thesis using moved(8) by simp
    qed
    ultimately show ?thesis by (simp add: settlements_ok_def)
  qed simp
qed

subsection \<open>Initiation\<close>

declare initiate_loop.simps [simp del]

definition free_attempts :: "senv \<Rightarrow> sdb \<Rightarrow> nat list" where
  "free_attempts E s = filter (\<lambda>n. sv_new_id E n \<notin> se_id ` set (sd_settlements s)) [1, 2, 3]"

lemma initiate_loop_result:
  assumes "settlement_valid E inp" and "sv_commit_fault E = None"
  shows "initiate_loop E inp ref 1 s =
    (case free_attempts E s of [] \<Rightarrow> (Inl Id_collisions, s)
     | n # _ \<Rightarrow> (Inr (new_settlement E inp ref (sv_new_id E n), False),
                 insert_settlement (new_settlement E inp ref (sv_new_id E n)) s))"
proof -
  let ?new = "\<lambda>n. (Inr (new_settlement E inp ref (sv_new_id E n), False),
                 insert_settlement (new_settlement E inp ref (sv_new_id E n)) s)"
  have step: "initiate_loop E inp ref n s =
      (if sv_new_id E n \<in> se_id ` set (sd_settlements s)
       then (if n = 3 then (Inl Id_collisions, s) else initiate_loop E inp ref (Suc n) s) else ?new n)"
    if "n \<le> 3" for n
    using that assms by (subst initiate_loop.simps) (simp add: MAX_SETTLEMENT_ID_COLLISION_RETRIES_def Let_def)
  have "initiate_loop E inp ref 3 s =
      (if sv_new_id E 3 \<in> se_id ` set (sd_settlements s) then (Inl Id_collisions, s) else ?new 3)"
    using step [of 3] by simp
  moreover have "initiate_loop E inp ref 2 s =
      (if sv_new_id E 2 \<in> se_id ` set (sd_settlements s) then initiate_loop E inp ref 3 s else ?new 2)"
    using step [of 2] by simp
  moreover have "initiate_loop E inp ref 1 s =
      (if sv_new_id E 1 \<in> se_id ` set (sd_settlements s) then initiate_loop E inp ref 2 s else ?new 1)"
    using step [of 1] by (simp only: Suc_1) simp
  ultimately show ?thesis by (simp add: free_attempts_def)
qed

lemma initiate_loop_cases:
  "initiate_loop E inp ref n s = (r, s') \<Longrightarrow> (\<exists>e. r = Inl e) \<and> s' = s
     \<or> (\<exists>k. settlement_valid E inp \<and> sv_new_id E k \<notin> se_id ` set (sd_settlements s)
          \<and> r = Inr (new_settlement E inp ref (sv_new_id E k), False)
          \<and> s' = insert_settlement (new_settlement E inp ref (sv_new_id E k)) s)"
proof (induction E inp ref n s rule: initiate_loop.induct)
  case (1 E inp ref n s)
  show ?case
  proof (cases "n < MAX_SETTLEMENT_ID_COLLISION_RETRIES \<and> settlement_valid E inp
      \<and> sv_new_id E n \<in> se_id ` set (sd_settlements s)")
    case True
    with 1(2) have "initiate_loop E inp ref (Suc n) s = (r, s')"
      by (subst (asm) initiate_loop.simps) simp
    with 1(1) True show ?thesis by simp
  next
    case False
    with 1(2) show ?thesis
      by (subst (asm) initiate_loop.simps) (auto simp: Let_def split: if_splits option.splits)
  qed
qed

lemma new_settlement_ok: "settlement_valid E inp \<Longrightarrow> timeline_ok (new_settlement E inp ref i)"
  by (simp add: timeline_ok_def new_settlement_def settlement_valid_def initial_event_def Let_def)

lemma initiate_ok:
  assumes "settlements_ok s" and "initiateSettlement E inp s = (r, s')"
  shows "settlements_ok s'"
proof -
  have "s' = s \<or> (\<exists>ref k. settlement_valid E inp \<and> sv_new_id E k \<notin> se_id ` set (sd_settlements s)
      \<and> s' = insert_settlement (new_settlement E inp ref (sv_new_id E k)) s)"
  proof (cases "s' = s")
    case False
    let ?ref = "js_trim (ii_providerReference inp)"
    have "initiate_loop E inp ?ref 1 s = (r, s')"
      using assms(2) False by (simp add: initiateSettlement_def Let_def split: if_splits option.splits)
    from initiate_loop_cases [OF this] False show ?thesis by blast
  qed simp
  then show ?thesis
  proof
    assume "\<exists>ref k. settlement_valid E inp \<and> sv_new_id E k \<notin> se_id ` set (sd_settlements s)
      \<and> s' = insert_settlement (new_settlement E inp ref (sv_new_id E k)) s"
    then obtain ref k where k: "settlement_valid E inp" "sv_new_id E k \<notin> se_id ` set (sd_settlements s)"
        "s' = insert_settlement (new_settlement E inp ref (sv_new_id E k)) s" by blast
    have "balances_ok (add_pending (ii_amount inp) u)" if "balances_ok u" for u
      using that k(1) by (simp add: balances_ok_def add_pending_def settlement_valid_def)
    then have "list_all balances_ok (sd_users s')"
      using assms(1) unfolding k(3)
      by (auto simp: insert_settlement_def settlements_ok_def list_all_iff new_settlement_def dest!: set_update_one)
    with assms(1) k new_settlement_ok [OF k(1), of ref "sv_new_id E k"] show ?thesis
      by (simp add: settlements_ok_def insert_settlement_def) (simp add: new_settlement_def)
  qed (use assms(1) in simp)
qed

subsection \<open>Timeouts\<close>

lemma settle_user_ok_succeeds:
  assumes "list_all balances_ok (sd_users s)" and "0 \<le> se_amount st" and "se_state st \<noteq> Set_reversed"
  shows "\<exists>s1. settle_user E prev st s = (Inr st, s1)"
proof (cases "find_one (\<lambda>u. u_id u = se_userId st) (sd_users s)")
  case None
  then show ?thesis by (simp add: settle_user_def)
next
  case (Some u)
  then have "balances_ok u" using assms(1) by (auto simp: list_all_iff dest: find_one_SomeD)
  then have "user_saveable u (wallet_moves prev (se_state st) (se_amount st) u)"
    using wallet_moves_ok assms(2) by (simp add: user_saveable_def balances_ok_def)
  with Some assms(3) show ?thesis by (simp add: settle_user_def Let_def)
qed

text \<open>A well-formed transition that the table allows and that is no reversal goes through.\<close>

lemma transition_succeeds:
  assumes "settlements_ok s" and "find_settlement inp (sd_settlements s) = Some st"
    and "si_targetState inp \<in> set (SETTLEMENT_TRANSITIONS (se_state st))" and "si_targetState inp \<noteq> se_state st"
    and "si_targetState inp \<noteq> Set_reversed" and "si_reason inp \<noteq> []" and "sv_commit_fault E = None"
  obtains s' where "transitionSettlementState E False inp s = (Inr (moved_settlement E inp st, se_state st), s')"
    and "sd_settlements s' = update_one (\<lambda>t. se_id t = se_id st) (\<lambda>_. moved_settlement E inp st) (sd_settlements s)"
proof -
  let ?st = "moved_settlement E inp st"
  have "0 \<le> se_amount st"
    using find_settlementD [OF assms(2)] assms(1) by (auto simp: settlements_ok_def list_all_iff timeline_ok_def)
  then obtain s1 where s1: "settle_user E (se_state st) ?st s = (Inr ?st, s1)"
    using settle_user_ok_succeeds [of s ?st] assms(1,5) by (auto simp: settlements_ok_def)
  then have sets: "sd_settlements s1 = sd_settlements s" by (cases rule: settle_user_cases) simp_all
  have "settle_body E inp s = (Inr (?st, se_state st), save_settlement ?st s1)"
    using assms s1 by (simp add: settle_body_def isValidSettlementTransition_def)
  then show thesis
    using that [of "save_settlement ?st s1"] assms(7) sets
    by (simp add: transitionSettlementState_def run_in_session_def save_settlement_def)
qed

lemma find_by_id:
  assumes "st \<in> set ds" and "distinct (map se_id ds)" and "se_id st \<noteq> []"
    and "si_settlementId inp = Some (se_id st)"
  shows "find_settlement inp ds = Some st"
  using find_key_unique [OF assms(2,1)] assms(3,4) by (simp add: find_settlement_def truthy_def)

definition blocking :: "senv \<Rightarrow> settlement \<Rightarrow> bool" where
  "blocking E st \<longleftrightarrow> overdue E st \<and> auto_expires st \<and> se_state st = Set_provisionally_credited"

definition handled :: "senv \<Rightarrow> settlement \<Rightarrow> bool" where
  "handled E st \<longleftrightarrow> \<not> overdue E st \<or> se_state st \<notin> set PENDING_STATES \<or> se_isStuck st"

text \<open>What the evaluation does to one settlement, and to all of them.\<close>

definition evaluated :: "senv \<Rightarrow> settlement \<Rightarrow> settlement" where
  "evaluated E t = (if \<not> overdue E t then t
     else if auto_expires t then moved_settlement E (expire_input t) t else mark_stuck E t)"

definition evaluate_all :: "senv \<Rightarrow> settlement list \<Rightarrow> settlement list \<Rightarrow> settlement list" where
  "evaluate_all E sts ds = map (\<lambda>t. if t \<in> set sts then evaluated E t else t) ds"

lemma mark_stuck_sel [simp]:
  "se_id (mark_stuck E t) = se_id t" "timeline_ok (mark_stuck E t) = timeline_ok t"
  "se_isStuck (mark_stuck E t) = True"
  by (simp_all add: mark_stuck_def timeline_ok_def)

lemma expire_input_sel [simp]:
  "si_settlementId (expire_input t) = Some (se_id t)" "si_targetState (expire_input t) = Set_expired"
  "si_reason (expire_input t) \<noteq> []"
  by (simp_all add: expire_input_def)

lemma pending_expires:
  "se_state t \<in> set PENDING_STATES \<Longrightarrow> se_state t \<noteq> Set_provisionally_credited \<Longrightarrow>
     Set_expired \<in> set (SETTLEMENT_TRANSITIONS (se_state t)) \<and> Set_expired \<noteq> se_state t"
  by (cases "se_state t") (auto simp: PENDING_STATES_def)

lemma mark_stuck_ok:
  assumes "settlements_ok s"
  shows "settlements_ok (s\<lparr>sd_settlements := update_one (\<lambda>t. se_id t = i) (mark_stuck E) (sd_settlements s)\<rparr>)"
  using assms by (auto simp: settlements_ok_def update_one_keys list_all_iff dest!: set_update_one)

lemma evaluated_id [simp]: "se_id (evaluated E t) = se_id t"
  by (simp add: evaluated_def)

text \<open>Updating one settlement by its id, seen from the rest of the loop.\<close>

lemma evaluate_rest:
  assumes "distinct (map se_id ds)" and "st \<in> set ds" and "set sts \<subseteq> set ds" and "st \<notin> set sts"
    and "f st = evaluated E st"
  defines "ds' \<equiv> update_one (\<lambda>t. se_id t = se_id st) f ds"
  shows "set sts \<subseteq> set ds'" and "evaluate_all E sts ds' = evaluate_all E (st # sts) ds"
proof -
  have ds': "ds' = map (\<lambda>t. if t = st then evaluated E st else t) ds"
  proof -
    have "(se_id t = se_id st) = (t = st)" if "t \<in> set ds" for t
      using that assms(1,2) by (metis find_key_unique option.inject)
    then show ?thesis
      unfolding ds'_def update_one_by_key [OF assms(1)] by (auto simp: assms(5))
  qed
  show "set sts \<subseteq> set ds'" using assms(3,4) unfolding ds' by force
  have new: "evaluated E st \<in> set sts \<Longrightarrow> evaluated E st = st"
    using assms(1-3) evaluated_id by (metis find_key_unique option.inject subset_eq)
  show "evaluate_all E sts ds' = evaluate_all E (st # sts) ds"
    unfolding ds' evaluate_all_def using new assms(4) by (auto simp: comp_def)
qed

lemma timeout_loop_result:
  assumes "settlements_ok s" and "sv_commit_fault E = None" and "set sts \<subseteq> set (sd_settlements s)"
    and "distinct sts" and "list_all (\<lambda>t. se_id t \<noteq> [] \<and> se_state t \<in> set PENDING_STATES) sts"
    and "timeout_loop E sts r s = (x, s')"
  shows "if list_ex (blocking E) sts then \<exists>e. x = Inl e
    else x = Inr (r\<lparr>tr_expiredCount := tr_expiredCount r + length (filter (\<lambda>t. overdue E t \<and> auto_expires t) sts),
                    tr_stuckCount := tr_stuckCount r + length (filter (\<lambda>t. overdue E t \<and> \<not> auto_expires t) sts)\<rparr>)
      \<and> sd_settlements s' = evaluate_all E sts (sd_settlements s)"
  using assms
proof (induction sts arbitrary: r s)
  case Nil
  then show ?case by (simp add: evaluate_all_def)
next
  case (Cons st sts)
  have dist: "distinct (map se_id (sd_settlements s))" and mem: "st \<in> set (sd_settlements s)"
    using Cons.prems(1,3) by (simp_all add: settlements_ok_def)
  note rest = evaluate_rest [OF dist mem, of sts _ E]
  show ?case
  proof (cases "overdue E st")
    case False
    then have "evaluate_all E (st # sts) (sd_settlements s) = evaluate_all E sts (sd_settlements s)"
      by (auto simp: evaluate_all_def evaluated_def)
    with Cons.IH [of s r] Cons.prems False show ?thesis by (simp add: blocking_def)
  next
    case over: True
    show ?thesis
    proof (cases "auto_expires st")
      case False
      let ?s = "s\<lparr>sd_settlements := update_one (\<lambda>t. se_id t = se_id st) (mark_stuck E) (sd_settlements s)\<rparr>"
      have ev: "mark_stuck E st = evaluated E st" using over False by (simp add: evaluated_def)
      have "set sts \<subseteq> set (sd_settlements ?s)"
        "evaluate_all E sts (sd_settlements ?s) = evaluate_all E (st # sts) (sd_settlements s)"
        using rest [of "mark_stuck E"] Cons.prems(3,4) ev by simp_all
      with Cons.IH [of ?s "r\<lparr>tr_stuckCount := Suc (tr_stuckCount r)\<rparr>"] Cons.prems over False
        mark_stuck_ok [OF Cons.prems(1), of "se_id st" E]
      show ?thesis by (simp add: blocking_def)
    next
      case auto: True
      have find: "find_settlement (expire_input st) (sd_settlements s) = Some st"
        using find_by_id [OF mem dist] Cons.prems(5) by simp
      show ?thesis
      proof (cases "se_state st = Set_provisionally_credited")
        case True
        have "transitionSettlementState E False (expire_input st) s = (Inl (Invalid_settlement_transition (se_state st) Set_expired), s)"
          using find True by (simp add: transitionSettlementState_def run_in_session_def settle_body_def
            isValidSettlementTransition_def)
        with Cons.prems(6) over auto True show ?thesis by (auto simp: blocking_def)
      next
        case False
        have "se_state st \<in> set PENDING_STATES" using Cons.prems(5) by simp
        from pending_expires [OF this False] obtain s1 where
            s1: "transitionSettlementState E False (expire_input st) s = (Inr (moved_settlement E (expire_input st) st, se_state st), s1)"
              "sd_settlements s1 = update_one (\<lambda>t. se_id t = se_id st) (\<lambda>_. moved_settlement E (expire_input st) st) (sd_settlements s)"
          using transition_succeeds [OF Cons.prems(1) find _ _ _ _ Cons.prems(2)] by auto
        have ev: "moved_settlement E (expire_input st) st = evaluated E st" using over auto by (simp add: evaluated_def)
        have "set sts \<subseteq> set (sd_settlements s1)"
          "evaluate_all E sts (sd_settlements s1) = evaluate_all E (st # sts) (sd_settlements s)"
          using rest [of "\<lambda>_. moved_settlement E (expire_input st) st"] Cons.prems(3,4) ev s1(2) by simp_all
        with Cons.IH [of s1 "r\<lparr>tr_expiredCount := Suc (tr_expiredCount r)\<rparr>"] Cons.prems over auto s1 False
          transition_ok [OF Cons.prems(1) s1(1)]
        show ?thesis by (simp add: blocking_def)
      qed
    qed
  qed
qed

subsection \<open>Confirmations of the indexer\<close>

lemma find_one_same_filter:
  "find_one Q ds = Some d \<Longrightarrow> Q d' \<Longrightarrow> find_one Q (update_one Q (\<lambda>_. d') ds) = Some d'"
  by (induction ds) (auto split: if_splits)

lemma find_one_replaced:
  assumes "find_one Q ds = Some d" and "distinct (map k ds)" and "Q d'"
  shows "find_one Q (update_one (\<lambda>e. k e = k d) (\<lambda>_. d') ds) = Some d'"
  using assms
proof (induction ds)
  case (Cons e ds)
  show ?case
  proof (cases "Q e")
    case False
    with Cons.prems have d: "find_one Q ds = Some d" by simp
    then have "k e \<noteq> k d" using Cons.prems(2) find_one_SomeD [OF d] by (auto simp: image_iff)
    with False Cons d show ?thesis by simp
  qed (use Cons.prems in simp)
qed simp

text \<open>A settlement that waits for further confirmations, and what the next operation does to it.\<close>

definition waiting :: "string \<Rightarrow> settlement \<Rightarrow> sdb \<Rightarrow> bool" where
  "waiting i st s \<longleftrightarrow> se_id st = i \<and> i \<noteq> [] \<and> st \<in> set (sd_settlements s) \<and> settlements_ok s
     \<and> se_state st = Set_observed \<and> se_confirmationsCount st = 1 \<and> 3 \<le> se_finalityThreshold st"

lemma waiting_stays:
  assumes "waiting i st s" and "find_one (matches_op p) (sd_settlements s) = Some st" and "sv_commit_fault E = None"
  shows "snd (index_settlement E p s) = s"
proof -
  have "find_settlement (index_input p st) (sd_settlements s) = Some st"
    using assms(1) by (intro find_by_id) (auto simp: waiting_def settlements_ok_def index_input_def Let_def)
  then have "settle_body E (index_input p st) s = (Inr (st, se_state st), s)"
    using assms(1) by (simp add: settle_body_def waiting_def index_input_def Let_def)
  then show ?thesis
    using assms by (simp add: index_settlement_def waiting_def transitionSettlementState_def run_in_session_def)
qed

lemma first_confirmation:
  assumes "settlements_ok s" and "find_one (matches_op p) (sd_settlements s) = Some st"
    and "se_state st \<in> {Set_initiated, Set_provider_pending}" and "se_confirmationsCount st = 0"
    and "3 \<le> se_finalityThreshold st" and "se_id st \<noteq> []" and "sv_commit_fault E = None"
  obtains st' where "waiting (se_id st) st' (snd (index_settlement E p s))"
    and "sd_settlements (snd (index_settlement E p s)) = update_one (\<lambda>t. se_id t = se_id st) (\<lambda>_. st') (sd_settlements s)"
    and "se_providerReference st' = se_providerReference st" and "se_rail st' = se_rail st"
proof -
  let ?inp = "index_input p st"
  let ?st = "moved_settlement E ?inp st"
  have mem: "st \<in> set (sd_settlements s)" using find_one_SomeD [OF assms(2)] by simp
  have target: "si_targetState ?inp = Set_observed" "si_reason ?inp \<noteq> []" "se_confirmationsCount ?st = 1"
    using assms(4,5) by (simp_all add: index_input_def Let_def moved_settlement_def)
  have find: "find_settlement ?inp (sd_settlements s) = Some st"
    using assms(1,6) mem by (intro find_by_id) (auto simp: settlements_ok_def index_input_def Let_def)
  have go: "Set_observed \<in> set (SETTLEMENT_TRANSITIONS (se_state st))" "Set_observed \<noteq> se_state st" "se_state st \<noteq> Set_confirmed"
    using assms(3) by auto
  obtain s' where s': "transitionSettlementState E False ?inp s = (Inr (?st, se_state st), s')"
      "sd_settlements s' = update_one (\<lambda>t. se_id t = se_id st) (\<lambda>_. ?st) (sd_settlements s)"
    using transition_succeeds [OF assms(1) find _ _ _ target(2) assms(7)] go target(1) by auto
  have run: "snd (index_settlement E p s) = s'"
    using assms(2) go(3) s'(1) by (simp add: index_settlement_def)
  have "find_one (\<lambda>t. se_id t = se_id st) (sd_settlements s') = Some ?st"
    using find_one_replaced [of "\<lambda>t. se_id t = se_id st" "sd_settlements s" st se_id ?st]
      find_key_unique [OF _ mem, of se_id] assms(1) s'(2) by (simp add: settlements_ok_def)
  then have "?st \<in> set (sd_settlements s')" using find_one_SomeD by metis
  then have "waiting (se_id st) ?st (snd (index_settlement E p s))"
    using transition_ok [OF assms(1) s'(1)] assms(5,6) target run by (simp add: waiting_def)
  then show thesis using that s'(2) run by simp
qed

end
