(* ===== verification/Settlement_Theorems.thy ===== *)
theory Settlement_Theorems
  imports Settlement_Guarantees
begin

text \<open>
  The properties of the settlement component: timelines and balances over any run,
  conservation of money under a transition, reversals, the bounded search for an identifier,
  the timeout evaluation and the confirmations counted by the Stellar indexer.
\<close>

datatype settle_op = Initiate initiate_input | Settle settle_input | Evaluate | Index indexed_op

fun run_settle_op :: "senv \<Rightarrow> settle_op \<Rightarrow> sdb \<Rightarrow> sdb" where
  "run_settle_op E (Initiate inp) s = snd (initiateSettlement E inp s)"
| "run_settle_op E (Settle inp) s = snd (transitionSettlementState E False inp s)"
| "run_settle_op E Evaluate s = snd (evaluateFinalityTimeouts E s)"
| "run_settle_op E (Index p) s = snd (index_settlement E p s)"

definition run_settle :: "senv \<times> settle_op \<Rightarrow> sdb \<Rightarrow> unit \<times> sdb" where
  "run_settle = (\<lambda>(E, op) s. ((), run_settle_op E op s))"

lemma timeout_loop_ok: "settlements_ok s \<Longrightarrow> settlements_ok (snd (timeout_loop E sts r s))"
proof (induction sts arbitrary: r s)
  case (Cons st sts)
  have "settlements_ok s1" if "transitionSettlementState E False (expire_input st) s = (x, s1)" for x s1
    using transition_ok [OF Cons.prems that] .
  then show ?case
    using Cons.IH Cons.prems mark_stuck_ok [OF Cons.prems, of "se_id st" E]
    by (auto split: prod.splits sum.splits)
qed simp

lemma run_settle_ok: "settlements_ok s \<Longrightarrow> settlements_ok (run_settle_op E op s)"
proof (cases op)
  case (Index p)
  assume ok: "settlements_ok s"
  have "settlements_ok s1" if "transitionSettlementState E False inp s = (x, s1)" for inp x s1
    using transition_ok [OF ok that] .
  then show ?thesis
    using ok Index by (auto simp: index_settlement_def split: option.splits prod.splits sum.splits)
qed (auto simp: evaluateFinalityTimeouts_def Let_def timeout_loop_ok intro: initiate_ok transition_ok prod.collapse [symmetric])

text \<open>
  C16. Over any run of initiations, transitions, timeout evaluations and indexed operations,
  the timeline of every settlement is a walk of the transition table that ends in its present
  state, each entry starting where the one before it ended, so a settlement that is reversed,
  failed or expired never moves again; settlement ids stay unique and no balance bucket of any
  user ever becomes negative.
\<close>

theorem settlement_timeline_is_a_walk:
  assumes "settlements_ok s"
  shows "let s' = run_seq run_settle ops s in
     distinct (map se_id (sd_settlements s'))
   \<and> list_all (\<lambda>st. walk SETTLEMENT_TRANSITIONS (map te_to (se_timeline st))
        \<and> te_to (last (se_timeline st)) = se_state st
        \<and> map te_from (se_timeline st) = None # map Some (butlast (map te_to (se_timeline st)))
        \<and> list_all (\<lambda>t. SETTLEMENT_TRANSITIONS t \<noteq> []) (butlast (map te_to (se_timeline st))))
      (sd_settlements s')
   \<and> list_all balances_ok (sd_users s')"
proof -
  have ok: "settlements_ok (run_seq run_settle ops s)"
    by (rule run_seq_invariant [where I = settlements_ok])
      (auto simp: run_settle_def run_settle_ok assms split: prod.splits)
  have "list_all (\<lambda>t. SETTLEMENT_TRANSITIONS t \<noteq> []) (butlast (map te_to (se_timeline st)))"
    if "timeline_ok st" for st
    using that settlement_cycle.terminal_only_last [of "map te_to (se_timeline st)"]
    by (auto simp: timeline_ok_def list_all_iff)
  with ok show ?thesis
    by (auto simp: Let_def settlements_ok_def list_all_iff timeline_ok_def)
qed

subsection \<open>A small database for the witnesses\<close>

definition sdemo_env :: "time \<Rightarrow> senv" where
  "sdemo_env t = \<lparr> sv_now = t, sv_valid_oid = (\<lambda>x. x \<noteq> []), sv_node_env = ''production'',
     sv_new_id = (\<lambda>n. ''STL'' @ replicate n (CHR ''x'')), sv_tx_id = ''tx'', sv_commit_fault = None \<rparr>"

definition sdemo_user :: wallet_owner where
  "sdemo_user = \<lparr> u_id = ''u1'', u_kycStatus = None, u_isKycVerified = None, u_kycVerified = None,
     u_availableBalance = 100, w_pendingBalance = 40, w_heldBalance = 0, w_reversedBalance = 0 \<rparr>"

definition sdemo_event :: "settlement_state \<Rightarrow> timeline_event" where
  "sdemo_event st = \<lparr> te_from = None, te_to = st, te_triggeredBy = By_system, te_reason = ''r'',
     te_safeActions = [], te_metadata = [], te_timestamp = 0 \<rparr>"

definition sdemo_settlement :: "settlement_rail \<Rightarrow> settlement_state \<Rightarrow> settlement" where
  "sdemo_settlement rail st =
     \<lparr> se_id = ''STL1'', se_rail = rail, se_environment = ''production'', se_state = st,
       se_providerReference = ''ref'', se_links = no_links, se_userId = ''u1'', se_userType = ''driver'',
       se_paymentType = For_wallet_funding, se_amount = 40, se_currency = ''NGN'',
       se_finalityThreshold = rcf_finalityThreshold (getRailSettlementConfig rail ''production''),
       se_confirmationsCount = 0, se_timeline = [sdemo_event st], se_isStuck = False, se_stuckReason = None,
       se_alertSent = False, se_lastEvaluatedAt = None, se_createdAt = 0 \<rparr>"

definition sdemo :: "settlement_rail \<Rightarrow> settlement_state \<Rightarrow> sdb" where
  "sdemo rail st = \<lparr> sd_settlements = [sdemo_settlement rail st], sd_users = [sdemo_user],
     sd_transactions = [], sd_audit = [] \<rparr>"

definition to_state :: "settlement_state \<Rightarrow> settle_input" where
  "to_state st = \<lparr> si_settlementId = Some ''STL1'', si_providerReference = None, si_targetState = st,
     si_triggeredBy = By_operator, si_reason = ''operator'', si_links = no_links,
     si_confirmationsCount = None, si_metadata = [] \<rparr>"

lemma sdemo_ok [simp]: "settlements_ok (sdemo rail st)"
  by (simp add: settlements_ok_def sdemo_def timeline_ok_def sdemo_settlement_def sdemo_event_def
    balances_ok_def sdemo_user_def)

lemma sdemo_sel [simp]:
  "sd_settlements (sdemo rail st) = [sdemo_settlement rail st]" "sd_users (sdemo rail st) = [sdemo_user]"
  "se_id (sdemo_settlement rail st) = ''STL1''" "se_state (sdemo_settlement rail st) = st"
  "se_amount (sdemo_settlement rail st) = 40" "se_userId (sdemo_settlement rail st) = ''u1''"
  "se_paymentType (sdemo_settlement rail st) = For_wallet_funding" "u_id sdemo_user = ''u1''"
  "se_providerReference (sdemo_settlement rail st) = ''ref''" "se_rail (sdemo_settlement rail st) = rail"
  "se_createdAt (sdemo_settlement rail st) = 0" "se_environment (sdemo_settlement rail st) = ''production''"
  "se_confirmationsCount (sdemo_settlement rail st) = 0"
  "se_isStuck (sdemo_settlement rail st) = False"
  by (simp_all add: sdemo_def sdemo_settlement_def sdemo_user_def)

lemma to_state_sel [simp]:
  "si_settlementId (to_state st) = Some ''STL1''" "si_targetState (to_state st) = st"
  "si_reason (to_state st) = ''operator''"
  by (simp_all add: to_state_def)

lemma sdemo_find [simp]: "find_settlement (to_state t) [sdemo_settlement rail st] = Some (sdemo_settlement rail st)"
  by (simp add: find_settlement_def truthy_def)

lemma sdemo_env_sel [simp]: "sv_commit_fault (sdemo_env t) = None" "sv_now (sdemo_env t) = t"
  by (simp_all add: sdemo_env_def)

theorem settlement_timeline_is_a_walk_witness:
  "list_all balances_ok (sd_users (run_seq run_settle
     [(sdemo_env 1, Settle (to_state Set_confirmed)), (sdemo_env 2, Settle (to_state Set_disputed))]
     (sdemo Rail_paystack Set_initiated)))"
  using settlement_timeline_is_a_walk [OF sdemo_ok, of
      "[(sdemo_env 1, Settle (to_state Set_confirmed)), (sdemo_env 2, Settle (to_state Set_disputed))]"
      Rail_paystack Set_initiated]
  by (simp only: Let_def)

subsection \<open>Money\<close>

definition wallet_total :: "wallet_owner \<Rightarrow> rat" where
  "wallet_total u = u_availableBalance u + w_pendingBalance u + w_heldBalance u"

text \<open>
  C17.  What a transition of a funded wallet does to the money of its owner (available, pending
  and held together), when the pending amount is still there: confirming, providing and
  disputing only move it between the buckets, failing and expiring take it away, but resolving
  a dispute by confirming adds the amount once more, because the hold is never released.
\<close>

theorem settlement_money:
  assumes "settlements_ok s" and "transitionSettlementState E False inp s = (Inr (st', prev), s')"
    and "se_state st' \<noteq> prev" and "se_paymentType st' = For_wallet_funding"
    and "find_one (\<lambda>u. u_id u = se_userId st') (sd_users s) = Some u"
    and "prev \<in> set PENDING_STATES \<Longrightarrow> se_amount st' \<le> w_pendingBalance u"
  shows "\<exists>u'. find_one (\<lambda>u. u_id u = se_userId st') (sd_users s') = Some u'
    \<and> wallet_total u' = wallet_total u
        + (if prev = Set_disputed \<and> se_state st' = Set_confirmed then se_amount st'
           else if se_state st' \<in> {Set_failed, Set_expired} then - se_amount st' else 0)"
  using assms(2)
proof (cases rule: transition_cases)
  case (committed x)
  from committed(2) show ?thesis
  proof (cases rule: settle_body_cases)
    case (same st)
    with committed(1) assms(3) show ?thesis by simp
  next
    case (moved st s1)
    have st': "st' = moved_settlement E inp st" "prev = se_state st" using moved(7) committed(1) by auto
    have amt: "0 \<le> se_amount st"
      using find_settlementD [OF moved(1)] assms(1) by (auto simp: settlements_ok_def list_all_iff timeline_ok_def)
    have u: "balances_ok u" "u_id u = se_userId st"
      using find_one_SomeD [OF assms(5)] assms(1) st' by (auto simp: settlements_ok_def list_all_iff)
    let ?u = "wallet_moves prev (si_targetState inp) (se_amount st) u"
    from moved(4) have user: "sd_users s1 = update_one (\<lambda>v. u_id v = se_userId st) (\<lambda>_. ?u) (sd_users s)"
      "si_targetState inp \<noteq> Set_reversed"
      by (cases rule: settle_user_cases; use assms(4,5) st' u in \<open>simp add: save_user_def\<close>)+
    have "find_one (\<lambda>v. u_id v = se_userId st) (sd_users s') = Some ?u"
    proof -
      have "find_one (\<lambda>v. u_id v = se_userId st) (sd_users s) = Some u" using assms(5) st' by simp
      then show ?thesis
        using moved(8) user(1) u(2) find_one_same_filter [of "\<lambda>v. u_id v = se_userId st" "sd_users s" u ?u]
        by simp
    qed
    moreover have "wallet_total ?u = wallet_total u
        + (if prev = Set_disputed \<and> si_targetState inp = Set_confirmed then se_amount st
           else if si_targetState inp \<in> {Set_failed, Set_expired} then - se_amount st else 0)"
      using moved(3) assms(6) amt u(1) user(2) st'
      by (cases "se_state st"; cases "si_targetState inp")
        (auto simp: wallet_moves_def Let_def wallet_total_def PENDING_STATES_def balances_ok_def min_def max_def)
    ultimately show ?thesis using st' by auto
  qed simp
qed simp

theorem settlement_money_witness:
  "\<exists>st' s' u'. transitionSettlementState (sdemo_env 1) False (to_state Set_confirmed) (sdemo Rail_paystack Set_disputed)
       = (Inr (st', Set_disputed), s')
     \<and> find_one (\<lambda>u. u_id u = ''u1'') (sd_users s') = Some u' \<and> wallet_total u' = wallet_total sdemo_user + 40"
proof -
  obtain s' where s': "transitionSettlementState (sdemo_env 1) False (to_state Set_confirmed) (sdemo Rail_paystack Set_disputed)
      = (Inr (moved_settlement (sdemo_env 1) (to_state Set_confirmed) (sdemo_settlement Rail_paystack Set_disputed),
              Set_disputed), s')"
    by (rule transition_succeeds [of "sdemo Rail_paystack Set_disputed" "to_state Set_confirmed"
          "sdemo_settlement Rail_paystack Set_disputed" "sdemo_env 1"]) simp_all
  from settlement_money [OF sdemo_ok this, of sdemo_user] show ?thesis
    using s' by (auto simp: PENDING_STATES_def)
qed

subsection \<open>Reversals\<close>

text \<open>
   A settlement whose user exists can never be reversed: from every state that the table
  lets go to reversed, with whatever input, the call ends in a validation error (the audit
  document lacks its target type) and the whole transaction is rolled back.
\<close>

theorem reversal_of_settlement_fails:
  assumes "find_settlement inp (sd_settlements s) = Some st" and "si_targetState inp = Set_reversed"
    and "Set_reversed \<in> set (SETTLEMENT_TRANSITIONS (se_state st))"
    and "find_one (\<lambda>u. u_id u = se_userId st) (sd_users s) = Some u"
  shows "transitionSettlementState E False inp s = (Inl Settle_validation, s)"
proof -
  have "se_state st \<noteq> Set_reversed" using assms(3) by (cases "se_state st") auto
  moreover obtain x t where x: "executeReversalJournal E u (moved_settlement E inp st) s = (x, t)"
    by (cases "executeReversalJournal E u (moved_settlement E inp st) s")
  ultimately have "fst (settle_body E inp s) = Inl Settle_validation"
    using assms reversal_fails [OF x]
    by (simp add: settle_body_def isValidSettlementTransition_def settle_user_def)
  then show ?thesis
    by (cases "settle_body E inp s") (simp add: transitionSettlementState_def run_in_session_def)
qed

theorem reversal_of_settlement_fails_witness:
  "transitionSettlementState (sdemo_env 1) False (to_state Set_reversed) (sdemo Rail_paystack Set_confirmed)
     = (Inl Settle_validation, sdemo Rail_paystack Set_confirmed)"
  by (rule reversal_of_settlement_fails [where st = "sdemo_settlement Rail_paystack Set_confirmed" and u = sdemo_user])
    simp_all

subsection \<open>Identifiers\<close>

text \<open>
  C19.  Initiation terminates after at most three attempts: for a new reference it creates
  exactly one settlement, under the first of the three generated identifiers that is still
  free, and fails, changing nothing, only when all three are taken; and once the settlement
  exists, initiating the same reference on the same rail again, in whatever environment,
  returns it without changing anything.
\<close>

theorem initiation_terminates:
  assumes "settlement_valid E inp" and "sv_commit_fault E = None" and "ref = js_trim (ii_providerReference inp)"
    and "ref \<noteq> []"
    and "find_one (\<lambda>t. se_providerReference t = ref \<and> se_rail t = ii_rail inp) (sd_settlements s) = None"
    and "js_trim (ii_providerReference again) = ref" and "ii_rail again = ii_rail inp"
  shows "case filter (\<lambda>n. sv_new_id E n \<notin> se_id ` set (sd_settlements s)) [1, 2, 3] of
      [] \<Rightarrow> initiateSettlement E inp s = (Inl Id_collisions, s)
    | n # _ \<Rightarrow> (let st = new_settlement E inp ref (sv_new_id E n); s' = insert_settlement st s
        in initiateSettlement E inp s = (Inr (st, False), s')
         \<and> initiateSettlement E' again s' = (Inr (st, True), s'))"
proof -
  have run: "initiateSettlement E inp s = initiate_loop E inp ref 1 s"
    using assms(3-5) by (simp add: initiateSettlement_def Let_def)
  have "initiateSettlement E' again (insert_settlement (new_settlement E inp ref i) s)
      = (Inr (new_settlement E inp ref i, True), insert_settlement (new_settlement E inp ref i) s)" for i
    using assms(4-7)
    by (simp add: initiateSettlement_def Let_def insert_settlement_def find_one_append)
      (simp add: new_settlement_def)
  then show ?thesis
    unfolding run initiate_loop_result [OF assms(1,2)] free_attempts_def
    by (simp add: Let_def split: list.split)
qed

definition demo_initiate :: initiate_input where
  "demo_initiate = \<lparr> ii_rail = Rail_stellar, ii_providerReference = '' new '', ii_userId = ''u1'',
     ii_userType = ''driver'', ii_paymentType = For_wallet_funding, ii_amount = 10, ii_currency = None,
     ii_links = no_links, ii_initialState = None, ii_triggeredBy = None, ii_reason = None, ii_metadata = [] \<rparr>"

lemma trim_new [simp]: "js_trim '' new '' = ''new''"
  by (simp add: js_trim_def is_ws_def)

theorem initiation_terminates_witness:
  "\<exists>st s'. initiateSettlement (sdemo_env 1) demo_initiate (sdemo Rail_paystack Set_initiated) = (Inr (st, False), s')
     \<and> initiateSettlement (sdemo_env 2) demo_initiate s' = (Inr (st, True), s')"
proof -
  have "settlement_valid (sdemo_env 1) demo_initiate"
    by (simp add: settlement_valid_def demo_initiate_def sdemo_env_def)
  from initiation_terminates [OF this _ refl, of "sdemo Rail_paystack Set_initiated" demo_initiate "sdemo_env 2"]
  show ?thesis by (simp add: demo_initiate_def sdemo_env_def Let_def)
qed

subsection \<open>Timeouts\<close>

text \<open>
   The timeout evaluation gets every overdue settlement handled, expired or flagged as stuck,
  and counts them, unless an overdue provisionally credited settlement sits on a rail that
  expires automatically: that transition is not in the table, so the evaluation then throws,
  and it throws exactly in that case.
\<close>

theorem timeouts_handled:
  assumes "settlements_ok s" and "sv_commit_fault E = None" and "list_all (\<lambda>t. se_id t \<noteq> []) (sd_settlements s)"
    and "active = filter (\<lambda>t. se_state t \<in> set PENDING_STATES) (sd_settlements s)"
  shows "if list_ex (blocking E) active then \<exists>e. fst (evaluateFinalityTimeouts E s) = Inl e
    else \<exists>s'. evaluateFinalityTimeouts E s = (Inr \<lparr> tr_evaluatedCount = length active,
             tr_stuckCount = length (filter (\<lambda>t. overdue E t \<and> \<not> auto_expires t) active),
             tr_expiredCount = length (filter (\<lambda>t. overdue E t \<and> auto_expires t) active) \<rparr>, s')
        \<and> list_all (handled E) (sd_settlements s')"
proof -
  let ?r = "\<lparr> tr_evaluatedCount = length active, tr_stuckCount = 0, tr_expiredCount = 0 \<rparr>"
  obtain x s' where run: "timeout_loop E active ?r s = (x, s')" by (cases "timeout_loop E active ?r s")
  have eval: "evaluateFinalityTimeouts E s = (x, s')"
    using run assms(4) by (simp add: evaluateFinalityTimeouts_def Let_def)
  have "distinct active"
    using assms(1,4) by (auto simp: settlements_ok_def distinct_map)
  moreover have "list_all (\<lambda>t. se_id t \<noteq> [] \<and> se_state t \<in> set PENDING_STATES) active" "set active \<subseteq> set (sd_settlements s)"
    using assms(3,4) by (auto simp: list_all_iff)
  ultimately have res: "if list_ex (blocking E) active then \<exists>e. x = Inl e
    else x = Inr (?r\<lparr>tr_expiredCount := length (filter (\<lambda>t. overdue E t \<and> auto_expires t) active),
                    tr_stuckCount := length (filter (\<lambda>t. overdue E t \<and> \<not> auto_expires t) active)\<rparr>)
      \<and> sd_settlements s' = evaluate_all E active (sd_settlements s)"
    using timeout_loop_result [OF assms(1,2) _ _ _ run] by simp
  have "handled E (if t \<in> set active then evaluated E t else t)" if "t \<in> set (sd_settlements s)" for t
    using that assms(4) by (auto simp: handled_def evaluated_def PENDING_STATES_def)
  then have "list_all (handled E) (evaluate_all E active (sd_settlements s))"
    by (fastforce simp: evaluate_all_def list_all_iff)
  with res eval show ?thesis by (auto split: if_splits)
qed

theorem timeouts_handled_witness:
  "(\<exists>e. fst (evaluateFinalityTimeouts (sdemo_env 1000000) (sdemo Rail_internal_ledger Set_provisionally_credited)) = Inl e)
   \<and> (\<exists>r. fst (evaluateFinalityTimeouts (sdemo_env 1000000) (sdemo Rail_paystack Set_observed)) = Inr r)"
proof
  have over: "blocking (sdemo_env 1000000) (sdemo_settlement Rail_internal_ledger Set_provisionally_credited)"
    by (simp add: blocking_def overdue_def timeout_of_def auto_expires_def getRailSettlementConfig_def
      rail_config_of_def Let_def)
  then show "\<exists>e. fst (evaluateFinalityTimeouts (sdemo_env 1000000) (sdemo Rail_internal_ledger Set_provisionally_credited)) = Inl e"
    using timeouts_handled [OF sdemo_ok, of "sdemo_env 1000000" Rail_internal_ledger Set_provisionally_credited]
    by (simp add: PENDING_STATES_def)
  have "\<not> blocking (sdemo_env 1000000) (sdemo_settlement Rail_paystack Set_observed)"
    by (simp add: blocking_def)
  then show "\<exists>r. fst (evaluateFinalityTimeouts (sdemo_env 1000000) (sdemo Rail_paystack Set_observed)) = Inr r"
    using timeouts_handled [OF sdemo_ok, of "sdemo_env 1000000" Rail_paystack Set_observed]
    by (auto simp: PENDING_STATES_def)
qed

subsection \<open>The Stellar indexer\<close>

definition run_index :: "senv \<times> indexed_op \<Rightarrow> sdb \<Rightarrow> unit \<times> sdb" where
  "run_index = (\<lambda>(E, p) s. ((), snd (index_settlement E p s)))"

lemma waiting_run:
  assumes "waiting i st s"
    and "list_all (\<lambda>x. sv_commit_fault (fst x) = None \<and> find_one (matches_op (snd x)) (sd_settlements s) = Some st) ops"
  shows "run_seq run_index ops s = s"
  using assms(2)
proof (induction ops)
  case (Cons x ops)
  then have "snd (index_settlement (fst x) (snd x) s) = s"
    using waiting_stays [OF assms(1), of "snd x" "fst x"] by simp
  then have "snd (run_index x s) = s" by (simp add: run_index_def split_beta)
  with Cons show ?case by simp
qed simp

text \<open>
  C18.  A settlement on the Stellar rail that needs three confirmations (the production
  threshold) never becomes final through the indexer: however many operations of its
  transaction are indexed, at least one, it is observed with one confirmation and stays so,
  because a repeated observation returns before it stores the new count.
\<close>

theorem stellar_never_final:
  assumes "settlements_ok s" and "se_id st \<noteq> []" and "se_state st \<in> {Set_initiated, Set_provider_pending}"
    and "se_confirmationsCount st = 0" and "3 \<le> se_finalityThreshold st" and "ops \<noteq> []"
    and "list_all (\<lambda>x. sv_commit_fault (fst x) = None \<and> op_txHash (snd x) = se_providerReference st
           \<and> find_one (matches_op (snd x)) (sd_settlements s) = Some st) ops"
  shows "\<exists>st'. find_one (\<lambda>t. se_id t = se_id st) (sd_settlements (run_seq run_index ops s)) = Some st'
    \<and> se_state st' = Set_observed \<and> se_confirmationsCount st' = 1"
proof -
  obtain x ops' where ops: "ops = x # ops'" using assms(6) by (cases ops) auto
  have fst: "sv_commit_fault (fst x) = None" "op_txHash (snd x) = se_providerReference st"
    "find_one (matches_op (snd x)) (sd_settlements s) = Some st"
    using assms(7) by (simp_all add: ops)
  let ?s = "snd (index_settlement (fst x) (snd x) s)"
  obtain st' where st': "waiting (se_id st) st' ?s" "se_providerReference st' = se_providerReference st"
      "sd_settlements ?s = update_one (\<lambda>t. se_id t = se_id st) (\<lambda>_. st') (sd_settlements s)" "se_rail st' = se_rail st"
    by (rule first_confirmation [OF assms(1) fst(3) assms(3-5,2) fst(1)])
  have dist: "distinct (map se_id (sd_settlements s))" using assms(1) by (simp add: settlements_ok_def)
  have "find_one (matches_op (snd y)) (sd_settlements ?s) = Some st'" if "y \<in> set ops'" for y
  proof -
    have y: "op_txHash (snd y) = se_providerReference st" "find_one (matches_op (snd y)) (sd_settlements s) = Some st"
      using assms(7) that by (auto simp: ops list_all_iff)
    then have "matches_op (snd y) st'"
      using st'(2,4) find_one_SomeD [OF y(2)] by (simp add: matches_op_def)
    then show ?thesis unfolding st'(3) by (rule find_one_replaced [OF y(2) dist])
  qed
  then have "run_seq run_index ops' ?s = ?s"
    using waiting_run [OF st'(1)] assms(7) by (auto simp: ops list_all_iff)
  then have run: "run_seq run_index ops s = ?s" by (simp add: ops run_index_def split_beta)
  have "st' \<in> set (sd_settlements ?s)" "distinct (map se_id (sd_settlements ?s))" "se_id st' = se_id st"
    using st'(1) by (simp_all add: waiting_def settlements_ok_def)
  then have "find_one (\<lambda>t. se_id t = se_id st) (sd_settlements ?s) = Some st'"
    using find_key_unique [of se_id "sd_settlements ?s" st'] by simp
  with run st'(1) show ?thesis by (simp add: waiting_def)
qed

definition demo_op :: indexed_op where
  "demo_op = \<lparr> op_id = ''op1'', op_txHash = ''ref'' \<rparr>"

theorem stellar_never_final_witness:
  "\<exists>st'. find_one (\<lambda>t. se_id t = ''STL1'') (sd_settlements (run_seq run_index
       [(sdemo_env 1, demo_op), (sdemo_env 2, demo_op), (sdemo_env 3, demo_op)] (sdemo Rail_stellar Set_initiated))) = Some st'
     \<and> se_state st' = Set_observed"
proof -
  have "3 \<le> se_finalityThreshold (sdemo_settlement Rail_stellar Set_initiated)"
    by (simp add: sdemo_settlement_def getRailSettlementConfig_def rail_config_of_def)
  then show ?thesis
    using stellar_never_final [OF sdemo_ok, of "sdemo_settlement Rail_stellar Set_initiated"
        "[(sdemo_env 1, demo_op), (sdemo_env 2, demo_op), (sdemo_env 3, demo_op)]" Rail_stellar Set_initiated]
    by (auto simp: demo_op_def matches_op_def)
qed

end
