(* ===== verification/Csv_Export.thy ===== *)
theory Csv_Export
  imports Main
begin

text \<open>
  The CSV encoder of the exports (\<open>lib/exports/csv-stream.ts\<close>): quoting, the neutralisation of
  spreadsheet formulas, and the document that \<open>createCsvStream\<close> emits chunk by chunk.  A
  string is the list of its UTF-16 code units, because the list of formula sigils has
  full-width characters.  Against it stands a reader of RFC 4180 documents, a reference
  definition that is not part of the program.
\<close>

type_synonym units = "nat list"

definition FORMULA_SIGILS :: "nat list" where
  "FORMULA_SIGILS = [61, 43, 45, 64, 65309, 65291, 65293, 65312]"

definition DIRECT_TRIGGER_CHARS :: "nat list" where
  "DIRECT_TRIGGER_CHARS = FORMULA_SIGILS @ [9, 13, 10]"

text \<open>The class \<open>[\s\x00-\x1F\x7F]\<close>.\<close>

definition whitespace_or_control :: "nat \<Rightarrow> bool" where
  "whitespace_or_control c \<longleftrightarrow> c \<le> 32 \<or> c = 127 \<or> c \<in> {160, 5760, 8232, 8233, 8239, 8287, 12288, 65279}
     \<or> (8192 \<le> c \<and> c \<le> 8202)"

definition startsWithFormulaTrigger :: "units \<Rightarrow> bool" where
  "startsWithFormulaTrigger raw =
     (case raw of [] \<Rightarrow> False
      | c # _ \<Rightarrow> c \<in> set DIRECT_TRIGGER_CHARS
          \<or> (case dropWhile whitespace_or_control raw of [] \<Rightarrow> False | v # _ \<Rightarrow> v \<in> set FORMULA_SIGILS))"

definition needs_quoting :: "units \<Rightarrow> bool" where
  "needs_quoting s \<longleftrightarrow> list_ex (\<lambda>c. c \<in> {34, 13, 10, 44}) s"

text \<open>
  The value of a cell: nothing, a number, boolean or bigint with its printed form, or a text
  (a date is a text, its ISO form).
\<close>

datatype csv_value = Csv_null | Csv_trusted units | Csv_text units

definition neutralized :: "units \<Rightarrow> units" where
  "neutralized raw = (if startsWithFormulaTrigger raw then 39 # raw else raw)"

fun double_quotes :: "units \<Rightarrow> units" where
  "double_quotes [] = []"
| "double_quotes (c # cs) = (if c = 34 then 34 # 34 # double_quotes cs else c # double_quotes cs)"

fun csvEscape :: "csv_value \<Rightarrow> units" where
  "csvEscape Csv_null = []"
| "csvEscape (Csv_trusted t) = t"
| "csvEscape (Csv_text raw) =
     (let n = neutralized raw in if needs_quoting n then 34 # double_quotes n @ [34] else n)"

fun join_commas :: "units list \<Rightarrow> units" where
  "join_commas [] = []"
| "join_commas [x] = x"
| "join_commas (x # y # zs) = x @ 44 # join_commas (y # zs)"

definition csv_line :: "csv_value list \<Rightarrow> units" where
  "csv_line cells = join_commas (map csvEscape cells) @ [10]"

text \<open>All chunks of the stream: byte order mark and header line, then one line per row.\<close>

definition createCsvStream :: "units list \<Rightarrow> csv_value list list \<Rightarrow> units" where
  "createCsvStream headers rows = 65279 # csv_line (map Csv_text headers) @ concat (map csv_line rows)"

subsection \<open>A reader\<close>

definition cons_fst :: "'a \<Rightarrow> 'a list \<times> 'b \<Rightarrow> 'a list \<times> 'b" where
  "cons_fst x p = (x # fst p, snd p)"

lemma cons_fst_simp [simp]: "cons_fst x (a, b) = (x # a, b)"
  by (simp add: cons_fst_def)

text \<open>The inside of a quoted field, up to the closing quote.\<close>

fun read_quoted :: "units \<Rightarrow> units \<times> units" where
  "read_quoted [] = ([], [])"
| "read_quoted [c] = (if c = 34 then ([], []) else ([c], []))"
| "read_quoted (c # d # cs) =
     (if c = 34 then (if d = 34 then cons_fst 34 (read_quoted cs) else ([], d # cs))
      else cons_fst c (read_quoted (d # cs)))"

definition read_field :: "units \<Rightarrow> units \<times> units" where
  "read_field cs =
     (case cs of
        [] \<Rightarrow> ([], [])
      | c # ds \<Rightarrow> if c = 34 then read_quoted ds
                else (takeWhile (\<lambda>c. c \<noteq> 44 \<and> c \<noteq> 10) cs, dropWhile (\<lambda>c. c \<noteq> 44 \<and> c \<noteq> 10) cs))"

lemma length_read_quoted: "length (snd (read_quoted cs)) \<le> length cs"
  by (induction cs rule: read_quoted.induct) (auto simp: cons_fst_def)

lemma length_read_field: "length (snd (read_field cs)) \<le> length cs"
proof (cases cs)
  case (Cons c ds)
  then show ?thesis
    using length_read_quoted [of ds] by (auto simp: read_field_def length_dropWhile_le le_Suc_eq)
qed (simp add: read_field_def)

function read_record :: "units \<Rightarrow> units list \<times> units" where
  "read_record cs =
     (case snd (read_field cs) of
        [] \<Rightarrow> ([fst (read_field cs)], [])
      | c # r \<Rightarrow> if c = 44 then cons_fst (fst (read_field cs)) (read_record r)
               else ([fst (read_field cs)], r))"
  by pat_completeness auto
termination
proof (relation "measure length")
  fix cs c r
  assume "snd (read_field cs) = c # r"
  then show "(r, cs) \<in> measure length" using length_read_field [of cs] by simp
qed simp

declare read_record.simps [simp del]

lemma length_read_record: "cs \<noteq> [] \<Longrightarrow> length (snd (read_record cs)) < length cs"
proof (induction cs rule: read_record.induct)
  case (1 cs)
  note len = length_read_field [of cs]
  show ?case
  proof (cases "snd (read_field cs)")
    case Nil
    with 1(2) show ?thesis by (simp add: read_record.simps [of cs])
  next
    case (Cons c r)
    have "length (snd (read_record r)) \<le> length r" if "c = 44"
    proof (cases "r = []")
      case True
      then show ?thesis by (simp add: read_record.simps [of "[]"] read_field_def)
    next
      case False
      with 1(1) [OF Cons that] show ?thesis by simp
    qed
    with Cons len show ?thesis by (force simp: read_record.simps [of cs] cons_fst_def)
  qed
qed

function read_document :: "units \<Rightarrow> units list list" where
  "read_document cs = (if cs = [] then [] else fst (read_record cs) # read_document (snd (read_record cs)))"
  by pat_completeness auto
termination by (relation "measure length") (auto simp: length_read_record)

declare read_document.simps [simp del]

subsection \<open>Reading what was written\<close>

fun cell_text :: "csv_value \<Rightarrow> units" where
  "cell_text Csv_null = []"
| "cell_text (Csv_trusted t) = t"
| "cell_text (Csv_text raw) = neutralized raw"

text \<open>Printed numbers and booleans need no quoting.\<close>

fun trusted_ok :: "csv_value \<Rightarrow> bool" where
  "trusted_ok (Csv_trusted t) = (\<not> needs_quoting t)"
| "trusted_ok _ = True"

lemma read_quoted_doubled:
  "d \<noteq> 34 \<Longrightarrow> read_quoted (double_quotes s @ 34 # d # rest) = (s, d # rest)"
proof (induction s)
  case (Cons c s)
  show ?case
  proof (cases "c = 34")
    case False
    obtain e es where "double_quotes s @ 34 # d # rest = e # es"
      by (cases "double_quotes s @ 34 # d # rest") auto
    with False Cons show ?thesis by simp
  qed (use Cons in simp)
qed simp

lemma read_unquoted:
  assumes "\<not> needs_quoting s" and "d \<in> {44, 10}"
  shows "read_field (s @ d # rest) = (s, d # rest)"
proof -
  have all: "\<forall>c\<in>set s. c \<noteq> 44 \<and> c \<noteq> 10 \<and> c \<noteq> 34"
    using assms(1) by (auto simp: needs_quoting_def list_ex_iff)
  then have "takeWhile (\<lambda>c. c \<noteq> 44 \<and> c \<noteq> 10) (s @ d # rest) = s"
    and "dropWhile (\<lambda>c. c \<noteq> 44 \<and> c \<noteq> 10) (s @ d # rest) = d # rest"
    using assms(2) by (auto simp: takeWhile_append2 dropWhile_append2)
  with all assms(2) show ?thesis by (cases s) (auto simp: read_field_def)
qed

lemma read_cell:
  assumes "trusted_ok c" and "d \<in> {44, 10}"
  shows "read_field (csvEscape c @ d # rest) = (cell_text c, d # rest)"
proof (cases c)
  case Csv_null
  then show ?thesis using read_unquoted [of "[]" d rest] assms(2) by (simp add: needs_quoting_def)
next
  case (Csv_trusted t)
  then show ?thesis using read_unquoted [of t d rest] assms by simp
next
  case (Csv_text raw)
  show ?thesis
  proof (cases "needs_quoting (neutralized raw)")
    case True
    have "d \<noteq> 34" using assms(2) by auto
    from read_quoted_doubled [OF this] Csv_text True show ?thesis by (simp add: read_field_def Let_def)
  qed (use Csv_text read_unquoted [of "neutralized raw" d rest] assms(2) in \<open>simp add: Let_def\<close>)
qed

lemma read_line:
  "cells \<noteq> [] \<Longrightarrow> list_all trusted_ok cells \<Longrightarrow> read_record (csv_line cells @ rest) = (map cell_text cells, rest)"
proof (induction cells rule: induct_list012)
  case (2 c)
  then show ?case
    using read_cell [of c 10 rest] by (simp add: csv_line_def read_record.simps)
next
  case (3 c d cells)
  have "csv_line (c # d # cells) @ rest = csvEscape c @ 44 # csv_line (d # cells) @ rest"
    by (simp add: csv_line_def)
  with 3 read_cell [of c 44 "csv_line (d # cells) @ rest"] show ?case
    by (simp add: read_record.simps [of "csvEscape c @ 44 # _"])
qed simp

lemma csv_line_nonempty [simp]: "csv_line cells \<noteq> []"
  by (simp add: csv_line_def)

lemma read_lines:
  "list_all (\<lambda>r. r \<noteq> [] \<and> list_all trusted_ok r) rows \<Longrightarrow>
     read_document (concat (map csv_line rows)) = map (map cell_text) rows"
proof (induction rows)
  case Nil
  then show ?case by (simp add: read_document.simps)
next
  case (Cons r rows)
  then show ?case
    using read_line [of r "concat (map csv_line rows)"]
    by (subst read_document.simps) simp
qed

lemma neutralized_harmless: "\<not> startsWithFormulaTrigger (neutralized raw)"
  by (simp add: neutralized_def startsWithFormulaTrigger_def DIRECT_TRIGGER_CHARS_def FORMULA_SIGILS_def
    whitespace_or_control_def)

text \<open>
  C21.  Exported documents read back: with at least one column, a reader of RFC 4180 documents
  recovers from the emitted stream exactly the headers and the cells of every row (quotes,
  commas and line breaks in texts included), each text as it is or behind one apostrophe, and
  no text cell that it recovers is one a spreadsheet would take for a formula.
\<close>

theorem csv_round_trip:
  assumes "headers \<noteq> []" and "list_all (\<lambda>r. r \<noteq> [] \<and> list_all trusted_ok r) rows"
  shows "read_document (tl (createCsvStream headers rows))
      = map neutralized headers # map (map cell_text) rows
    \<and> (\<forall>raw. cell_text (Csv_text raw) \<in> {raw, 39 # raw}
         \<and> \<not> startsWithFormulaTrigger (cell_text (Csv_text raw)))"
proof -
  have "tl (createCsvStream headers rows) = concat (map csv_line (map Csv_text headers # rows))"
    by (simp add: createCsvStream_def)
  moreover have "list_all (\<lambda>r. r \<noteq> [] \<and> list_all trusted_ok r) (map Csv_text headers # rows)"
    using assms by (simp add: list_all_iff)
  ultimately show ?thesis
    using read_lines [of "map Csv_text headers # rows"] neutralized_harmless
    by (simp add: comp_def) (simp add: neutralized_def)
qed

theorem csv_round_trip_witness:
  "read_document (tl (createCsvStream [[68]] [[Csv_text [61, 34, 44, 10], Csv_null], [Csv_trusted [45, 53]]]))
     = [[[68]], [[39, 61, 34, 44, 10], []], [[45, 53]]]"
  using csv_round_trip [of "[[68]]" "[[Csv_text [61, 34, 44, 10], Csv_null], [Csv_trusted [45, 53]]]"]
  by (simp add: needs_quoting_def neutralized_def startsWithFormulaTrigger_def DIRECT_TRIGGER_CHARS_def
    FORMULA_SIGILS_def whitespace_or_control_def)

end
