(* ===== verification/Ledger_Dashboard.thy ===== *)
theory Ledger_Dashboard
  imports Ledger_Projection Csv_Export "HOL-Library.Multiset" "HOL-Library.Option_ord"
begin

text \<open>
  The transaction ledger of the dashboard: the rows of \<open>lib/ledger/ledger.ts\<close>, the list route
  \<open>app/api/transactions/ledger/route.ts\<close> with the money and pagination helpers of
  \<open>lib/api\<close>, and the cells of the CSV export route beside it.

  A filter is applied to the documents of the collection.  The route sorts by descending
  timestamp alone, so the database chooses the order of rows with equal timestamps, and may
  choose another one in the next request: the arrangement of a request is an argument, and
  \<open>sorts_newest_first\<close> is all that MongoDB promises of it.  Metadata is left out (the routes drop
  it).
\<close>

subsection \<open>Money and pages\<close>

definition upper_char :: "char \<Rightarrow> char" where
  "upper_char c = (let n = of_char c in if 97 \<le> n \<and> n \<le> (122::nat) then char_of (n - 32) else c)"

definition js_upper :: "string \<Rightarrow> string" where
  "js_upper s = map upper_char s"

definition minorUnitExponent :: "string \<Rightarrow> nat" where
  "minorUnitExponent currency = (if js_upper currency = ''XLM'' then 7 else 2)"

record money =
  my_currency :: string
  my_amountMinor :: int
  my_amountMajor :: rat

fun safe_number :: "jsnum \<Rightarrow> rat" where
  "safe_number (Fin x) = x"
| "safe_number _ = 0"

definition money_of :: "jsnum \<Rightarrow> string \<Rightarrow> money" where
  "money_of amountMajor currency =
     (let c = js_upper currency; factor = 10 ^ minorUnitExponent c;
          minor = math_round (safe_number amountMajor * factor)
      in \<lparr> my_currency = c, my_amountMinor = minor, my_amountMajor = of_int minor / factor \<rparr>)"

definition moneyFromMinor :: "jsnum \<Rightarrow> string \<Rightarrow> money" where
  "moneyFromMinor amountMinor currency =
     (let c = js_upper currency; factor = 10 ^ minorUnitExponent c;
          minor = math_round (safe_number amountMinor)
      in \<lparr> my_currency = c, my_amountMinor = minor, my_amountMajor = of_int minor / factor \<rparr>)"

record pagination =
  pg_page :: nat
  pg_pageSize :: nat
  pg_total :: nat
  pg_totalPages :: nat
  pg_hasNext :: bool
  pg_hasPrevious :: bool

definition buildPaginationMeta :: "nat \<Rightarrow> nat \<Rightarrow> nat \<Rightarrow> pagination" where
  "buildPaginationMeta page pageSize n =
     (let pages = max 1 ((n + pageSize - 1) div pageSize)
      in \<lparr> pg_page = page, pg_pageSize = pageSize, pg_total = n, pg_totalPages = pages,
           pg_hasNext = page < pages, pg_hasPrevious = page > 1 \<rparr>)"

definition skip_limit :: "nat \<Rightarrow> nat \<Rightarrow> 'a list \<Rightarrow> 'a list" where
  "skip_limit page pageSize xs = take pageSize (drop ((page - 1) * pageSize) xs)"

subsection \<open>Transactions and rows\<close>

record ledger_tx =
  lt_id :: oid
  lt_userId :: oid
  lt_userType :: "string option"
  lt_type :: string
  lt_amount :: "jsnum option"
  lt_amountOriginal :: "jsnum option"
  lt_currency :: "string option"
  lt_originalCurrency :: "string option"
  lt_exchangeRate :: "jsnum option"
  lt_method :: "string option"
  lt_reference :: "string option"
  lt_description :: "string option"
  lt_status :: "string option"
  lt_relatedId :: "string option"
  lt_timestamp :: "time option"

text \<open>The user document that an administrator's query populates.\<close>

record ledger_person =
  lp_id :: oid
  lp_fullName :: "string option"
  lp_name :: "string option"
  lp_email :: "string option"

record ledger_row =
  lr_id :: oid
  lr_userId :: oid
  lr_userType :: string
  lr_userName :: "string option"
  lr_userEmail :: "string option"
  lr_type :: string
  lr_direction :: direction
  lr_amount :: jsnum
  lr_amountOriginal :: "jsnum option"
  lr_currency :: string
  lr_originalCurrency :: "string option"
  lr_exchangeRate :: "jsnum option"
  lr_method :: "string option"
  lr_reference :: "string option"
  lr_description :: string
  lr_status :: string
  lr_reconciliation :: reconciliation_status
  lr_relatedId :: "string option"
  lr_timestamp :: time

definition or_default :: "'a option \<Rightarrow> 'a \<Rightarrow> 'a" where
  "or_default x d = (case x of None \<Rightarrow> d | Some y \<Rightarrow> y)"

definition normalizeLedgerEntry :: "time \<Rightarrow> ledger_tx \<Rightarrow> ledger_person option \<Rightarrow> string list \<Rightarrow> ledger_row" where
  "normalizeLedgerEntry nw tx populated duplicates =
     (let status = or_default (lt_status tx) ''Completed''
      in \<lparr> lr_id = lt_id tx,
           lr_userId = (case populated of None \<Rightarrow> lt_userId tx | Some p \<Rightarrow> lp_id p),
           lr_userType = or_default (lt_userType tx) [],
           lr_userName = (case populated of None \<Rightarrow> None
             | Some p \<Rightarrow> (case lp_fullName p of None \<Rightarrow> lp_name p | Some n \<Rightarrow> Some n)),
           lr_userEmail = (case populated of None \<Rightarrow> None | Some p \<Rightarrow> lp_email p),
           lr_type = lt_type tx, lr_direction = getLedgerDirection (lt_type tx),
           lr_amount = or_default (lt_amount tx) (Fin 0), lr_amountOriginal = lt_amountOriginal tx,
           lr_currency = or_default (lt_currency tx) ''NGN'', lr_originalCurrency = lt_originalCurrency tx,
           lr_exchangeRate = lt_exchangeRate tx, lr_method = lt_method tx, lr_reference = lt_reference tx,
           lr_description = or_default (lt_description tx) [], lr_status = status,
           lr_reconciliation = getReconciliationStatus status (lt_reference tx) duplicates,
           lr_relatedId = lt_relatedId tx, lr_timestamp = or_default (lt_timestamp tx) nw \<rparr>)"

subsection \<open>The query\<close>

definition contains_ci :: "string \<Rightarrow> string option \<Rightarrow> bool" where
  "contains_ci needle field =
     (case field of None \<Rightarrow> False | Some f \<Rightarrow> str_includes (js_lower needle) (js_lower f))"

definition field_is :: "'a option \<Rightarrow> 'a option \<Rightarrow> bool" where
  "field_is wanted field \<longleftrightarrow> wanted = None \<or> field = wanted"

definition filter_matches :: "ledger_filter \<Rightarrow> ledger_tx \<Rightarrow> bool" where
  "filter_matches f tx \<longleftrightarrow>
     field_is (lf_userId f) (Some (lt_userId tx)) \<and> field_is (lf_userType f) (lt_userType tx)
     \<and> field_is (lf_type f) (Some (lt_type tx)) \<and> field_is (lf_status f) (lt_status tx)
     \<and> field_is (lf_method f) (lt_method tx)
     \<and> (case lf_gte f of None \<Rightarrow> True | Some a \<Rightarrow> (case lt_timestamp tx of None \<Rightarrow> False | Some t \<Rightarrow> a \<le> t))
     \<and> (case lf_lte f of None \<Rightarrow> True | Some b \<Rightarrow> (case lt_timestamp tx of None \<Rightarrow> False | Some t \<Rightarrow> t \<le> b))
     \<and> (case lf_search f of None \<Rightarrow> True
         | Some q \<Rightarrow> contains_ci q (lt_description tx) \<or> contains_ci q (lt_reference tx) \<or> contains_ci q (lt_relatedId tx))"

text \<open>References that occur more than once among the transactions of the base filter.\<close>

definition duplicate_references :: "ledger_filter \<Rightarrow> ledger_tx list \<Rightarrow> string list" where
  "duplicate_references f txs =
     (let refs = concat (map (\<lambda>t. case lt_reference t of Some r \<Rightarrow> if r = [] then [] else [r] | None \<Rightarrow> [])
                           (filter (filter_matches f) txs))
      in remdups (filter (\<lambda>r. length (filter ((=) r) refs) > 1) refs))"

text \<open>The clause that the reconciliation parameter adds; its status replaces the one of the base filter.\<close>

definition row_selected :: "string \<Rightarrow> ledger_filter \<Rightarrow> string list \<Rightarrow> ledger_tx \<Rightarrow> bool" where
  "row_selected rec f dups tx =
     (if rec = ''failed'' then filter_matches (f\<lparr>lf_status := Some ''Failed''\<rparr>) tx
      else if rec = ''pending'' then filter_matches (f\<lparr>lf_status := Some ''Pending''\<rparr>) tx
      else if rec = ''duplicate'' then filter_matches f tx \<and> truthy (lt_reference tx) \<and> the (lt_reference tx) \<in> set dups
      else if rec = ''reconciled'' then filter_matches (f\<lparr>lf_status := Some ''Completed''\<rparr>) tx
        \<and> \<not> (lt_reference tx \<noteq> None \<and> the (lt_reference tx) \<in> set dups)
      else filter_matches f tx)"

record list_query =
  qy_params :: ledger_query
  qy_reconciliation :: string
  qy_page :: nat
  qy_pageSize :: nat

record list_response =
  lx_rows :: "(ledger_row \<times> money) list"
  lx_pagination :: pagination
  lx_duplicateCount :: nat

text \<open>For non-administrators the route blanks the user parameters before the filter is built.\<close>

definition route_params :: "ledger_actor \<Rightarrow> ledger_query \<Rightarrow> ledger_query" where
  "route_params actor q =
     (if act_role actor = Role_admin then q else q\<lparr>lq_userType := [], lq_userId := []\<rparr>)"

definition matching_txs :: "(string \<Rightarrow> time option) \<Rightarrow> (time \<Rightarrow> time) \<Rightarrow> ledger_actor \<Rightarrow> list_query \<Rightarrow> ledger_tx list \<Rightarrow> ledger_tx list" where
  "matching_txs parse day_end actor q txs =
     (let f = buildLedgerFilter parse day_end (route_params actor (qy_params q)) actor;
          dups = duplicate_references f txs
      in filter (row_selected (qy_reconciliation q) f dups) txs)"

text \<open>
  What \<open>sort({ timestamp: -1 })\<close> promises: the same documents, no document before a newer one, a
  missing timestamp below every other.  Nothing is said of documents with equal timestamps.
\<close>

definition newest_first_txs :: "ledger_tx list \<Rightarrow> bool" where
  "newest_first_txs ts = sorted (rev (map lt_timestamp ts))"

definition sorts_newest_first :: "(ledger_tx list \<Rightarrow> ledger_tx list) \<Rightarrow> bool" where
  "sorts_newest_first arrange = (\<forall>ts. mset (arrange ts) = mset ts \<and> newest_first_txs (arrange ts))"

definition listLedgerTransactions ::
  "(string \<Rightarrow> time option) \<Rightarrow> (time \<Rightarrow> time) \<Rightarrow> time \<Rightarrow> (oid \<Rightarrow> ledger_person option)
     \<Rightarrow> (ledger_tx list \<Rightarrow> ledger_tx list) \<Rightarrow> ledger_actor \<Rightarrow> list_query \<Rightarrow> ledger_tx list \<Rightarrow> list_response" where
  "listLedgerTransactions parse day_end nw person arrange actor q txs =
     (let f = buildLedgerFilter parse day_end (route_params actor (qy_params q)) actor;
          dups = duplicate_references f txs;
          selected = matching_txs parse day_end actor q txs;
          row = (\<lambda>t. normalizeLedgerEntry nw t (if act_role actor = Role_admin then person (lt_userId t) else None) dups)
      in \<lparr> lx_rows = map (\<lambda>t. (row t, money_of (lr_amount (row t)) (lr_currency (row t))))
             (skip_limit (qy_page q) (qy_pageSize q) (arrange selected)),
           lx_pagination = buildPaginationMeta (qy_page q) (qy_pageSize q) (length selected),
           lx_duplicateCount = length dups \<rparr>)"

subsection \<open>The export\<close>

definition units_of :: "string \<Rightarrow> units" where
  "units_of s = map of_char s"

fun direction_text :: "direction \<Rightarrow> string" where
  "direction_text Credit = ''credit''"
| "direction_text Debit = ''debit''"

fun reconciliation_text :: "reconciliation_status \<Rightarrow> string" where
  "reconciliation_text Reconciled = ''reconciled''"
| "reconciliation_text Rec_Pending = ''pending''"
| "reconciliation_text Rec_Failed = ''failed''"
| "reconciliation_text Rec_Duplicate = ''duplicate''"

text \<open>\<open>iso_text\<close> prints a timestamp and \<open>print_number\<close> an amount.\<close>

definition export_row :: "(time \<Rightarrow> string) \<Rightarrow> (jsnum \<Rightarrow> string) \<Rightarrow> bool \<Rightarrow> ledger_row \<Rightarrow> csv_value list" where
  "export_row iso_text print_number isAdmin e =
     (let txt = (\<lambda>s. Csv_text (units_of s)) in
      [txt (iso_text (lr_timestamp e)), txt (lr_type e), txt (direction_text (lr_direction e)),
       Csv_trusted (units_of (print_number (lr_amount e))), txt (lr_currency e), txt (lr_status e),
       txt (reconciliation_text (lr_reconciliation e)), txt (or_default (lr_method e) []),
       txt (or_default (lr_reference e) []), txt (lr_description e)]
      @ (if isAdmin then [txt (or_default (lr_userName e) []), txt (or_default (lr_userEmail e) []), txt (lr_userType e)]
         else []))"

end
