(* ===== verification/Payout_Engine.thy ===== *)
theory Payout_Engine
  imports Js_Sort
begin

text \<open>
  The division of a distribution among the investors of a pool
  (\<open>lib/payouts/engine.ts\<close>): fee and reserve by basis points, then the largest-remainder
  method over the ownership units.  \<open>localeCompare\<close> depends on the collation data of the
  JavaScript engine and is the argument \<open>collate\<close> (negative, zero or positive).
\<close>

subsection \<open>Definitions\<close>

record snapshot_entry =
  sn_investorId :: string
  sn_units :: rat

datatype allocation_status = Al_pending | Al_paid | Al_failed | Al_held

record payout_allocation =
  al_investorId :: string
  al_amount :: rat
  al_status :: allocation_status
  al_txId :: "string option"
  al_failureReason :: "string option"

definition new_allocation :: "string \<Rightarrow> rat \<Rightarrow> payout_allocation" where
  "new_allocation i x = \<lparr> al_investorId = i, al_amount = x, al_status = Al_pending,
     al_txId = None, al_failureReason = None \<rparr>"

record calculation_result =
  cr_allocations :: "payout_allocation list"
  cr_feeAmount :: rat
  cr_reserveAmount :: rat
  cr_roundingRemainder :: rat

record frac_entry =
  fr_investorId :: string
  fr_floor :: rat
  fr_frac :: rat

definition bps_part :: "rat \<Rightarrow> rat \<Rightarrow> rat" where
  "bps_part amount bps = of_int \<lfloor>(amount * bps) / 10000\<rfloor>"

definition total_units :: "snapshot_entry list \<Rightarrow> int" where
  "total_units snapshot = (\<Sum>r\<leftarrow>snapshot. max 0 \<lfloor>sn_units r\<rfloor>)"

definition frac_of :: "rat \<Rightarrow> int \<Rightarrow> snapshot_entry \<Rightarrow> frac_entry" where
  "frac_of remaining U s =
     (let quota = (remaining * sn_units s) / of_int U; fl = of_int \<lfloor>quota\<rfloor>
      in \<lparr> fr_investorId = sn_investorId s, fr_floor = fl, fr_frac = quota - fl \<rparr>)"

definition frac_compare :: "(string \<Rightarrow> string \<Rightarrow> int) \<Rightarrow> frac_entry \<Rightarrow> frac_entry \<Rightarrow> rat" where
  "frac_compare collate a b =
     (if fr_frac b - fr_frac a \<noteq> 0 then fr_frac b - fr_frac a
      else of_int (collate (fr_investorId a) (fr_investorId b)))"

text \<open>\<open>allocMap\<close> with the floors, and the loop that hands out what is left, one unit at a time.\<close>

definition floor_map :: "frac_entry list \<Rightarrow> string \<Rightarrow> rat option" where
  "floor_map frs = fold (\<lambda>f m. m(fr_investorId f \<mapsto> fr_floor f)) frs Map.empty"

definition or_zero :: "rat option \<Rightarrow> rat" where
  "or_zero v = (case v of None \<Rightarrow> 0 | Some x \<Rightarrow> x)"

function leftover_loop ::
  "frac_entry list \<Rightarrow> (string \<Rightarrow> rat option) \<Rightarrow> rat \<Rightarrow> nat \<Rightarrow> (string \<Rightarrow> rat option)" where
  "leftover_loop frs m leftover idx =
     (if leftover > 0 \<and> idx < length frs then
        (let id = fr_investorId (frs ! idx);
             m' = m(id \<mapsto> or_zero (m id) + 1);
             idx' = (if Suc idx = length frs \<and> leftover - 1 > 0 then 0 else Suc idx)
         in leftover_loop frs m' (leftover - 1) idx')
      else m)"
  by pat_completeness auto
termination
  by (relation "measure (\<lambda>(frs, m, leftover, idx). nat \<lceil>leftover\<rceil>)")
     (auto simp: nat_less_iff zless_nat_eq_int_zless)

declare leftover_loop.simps [simp del]

definition calculateAllocations ::
  "(string \<Rightarrow> string \<Rightarrow> int) \<Rightarrow> snapshot_entry list \<Rightarrow> rat \<Rightarrow> rat \<Rightarrow> rat \<Rightarrow> string + calculation_result" where
  "calculateAllocations collate snapshot distributable feeBps reserveBps =
     (if distributable < 0 then Inl ''distributableAmount must be >= 0''
      else
        (let fee = bps_part distributable feeBps;
             reserve = bps_part distributable reserveBps;
             remaining = distributable - fee - reserve;
             U = total_units snapshot
         in if U = 0 \<or> remaining \<le> 0 then
              Inr \<lparr> cr_allocations = map (\<lambda>s. new_allocation (sn_investorId s) 0) snapshot,
                    cr_feeAmount = fee, cr_reserveAmount = reserve, cr_roundingRemainder = remaining \<rparr>
            else
              (let fracs = map (frac_of remaining U) snapshot;
                   allocated = (\<Sum>f\<leftarrow>fracs. fr_floor f);
                   sorted_fracs = js_sort (frac_compare collate) fracs;
                   allocMap = leftover_loop sorted_fracs (floor_map sorted_fracs) (remaining - allocated) 0;
                   allocations = map (\<lambda>s. new_allocation (sn_investorId s) (or_zero (allocMap (sn_investorId s)))) snapshot;
                   sumAlloc = (\<Sum>a\<leftarrow>allocations. al_amount a)
               in Inr \<lparr> cr_allocations = allocations, cr_feeAmount = fee, cr_reserveAmount = reserve,
                        cr_roundingRemainder = distributable - fee - reserve - sumAlloc \<rparr>)))"

lemma or_zero_simps [simp]: "or_zero None = 0" "or_zero (Some x) = x"
  by (simp_all add: or_zero_def)

subsection \<open>Sorting\<close>

lemma sorted_js_insert:
  assumes "sorted_wrt (\<lambda>a b. fr_frac b \<le> fr_frac a) ys"
  shows "sorted_wrt (\<lambda>a b. fr_frac b \<le> fr_frac a) (js_insert (frac_compare collate) x ys)"
  using assms by (induction ys) (auto simp: frac_compare_def split: if_splits)

lemma sorted_js_sort: "sorted_wrt (\<lambda>a b. fr_frac b \<le> fr_frac a) (js_sort (frac_compare collate) xs)"
  unfolding js_sort_def by (induction xs) (auto intro: sorted_js_insert)

subsection \<open>The loop over the remainder\<close>

lemma leftover_loop_counts:
  assumes "idx + k \<le> length frs"
  shows "leftover_loop frs m (of_nat k) idx =
    fold (\<lambda>f m. m(fr_investorId f \<mapsto> or_zero (m (fr_investorId f)) + 1)) (take k (drop idx frs)) m"
  using assms
proof (induction k arbitrary: m idx)
  case 0
  then show ?case by (simp add: leftover_loop.simps)
next
  case (Suc k)
  let ?f = "frs ! idx"
  have d: "drop idx frs = ?f # drop (Suc idx) frs"
    using Suc.prems by (simp add: Cons_nth_drop_Suc)
  show ?case
  proof (cases "Suc idx = length frs \<and> k > 0")
    case True
    with Suc.prems show ?thesis by simp
  next
    case False
    then have "leftover_loop frs m (of_nat (Suc k)) idx =
      leftover_loop frs (m(fr_investorId ?f \<mapsto> or_zero (m (fr_investorId ?f)) + 1)) (of_nat k) (Suc idx)"
      using Suc.prems by (subst leftover_loop.simps) (auto simp: Let_def)
    with Suc.IH [of "Suc idx"] Suc.prems show ?thesis by (simp add: d fun_upd_def)
  qed
qed

lemma fold_increment:
  assumes "distinct (map fr_investorId fs)"
  shows "fold (\<lambda>f m. m(fr_investorId f \<mapsto> or_zero (m (fr_investorId f)) + 1)) fs m i =
    (if i \<in> fr_investorId ` set fs then Some (or_zero (m i) + 1) else m i)"
  using assms by (induction fs arbitrary: m) auto

lemma floor_map_other: "i \<notin> fr_investorId ` set fs \<Longrightarrow>
    fold (\<lambda>f m. m(fr_investorId f \<mapsto> fr_floor f)) fs m i = m i"
  by (induction fs arbitrary: m) auto

lemma floor_map_lookup:
  assumes "distinct (map fr_investorId fs)" and "f \<in> set fs"
  shows "floor_map fs (fr_investorId f) = Some (fr_floor f)"
proof -
  have "fold (\<lambda>f m. m(fr_investorId f \<mapsto> fr_floor f)) fs m (fr_investorId f) = Some (fr_floor f)" for m
    using assms by (induction fs arbitrary: m) (auto simp: floor_map_other)
  then show ?thesis by (simp add: floor_map_def)
qed

subsection \<open>The shares\<close>

definition whole :: "rat \<Rightarrow> bool" where
  "whole x \<longleftrightarrow> of_int \<lfloor>x\<rfloor> = x"

lemma whole_of_int [simp]: "whole (of_int k)"
  by (simp add: whole_def)

lemma wholeE: "whole x \<Longrightarrow> (\<And>k. x = of_int k \<Longrightarrow> P) \<Longrightarrow> P"
  by (metis whole_def)

lemma whole_diff: "whole x \<Longrightarrow> whole y \<Longrightarrow> whole (x - y)"
  by (metis of_int_diff wholeE whole_of_int)

lemma whole_sum_list: "(\<And>x. x \<in> set xs \<Longrightarrow> whole (f x)) \<Longrightarrow> whole (\<Sum>x\<leftarrow>xs. f x)"
proof (induction xs)
  case (Cons x xs)
  then obtain k l where "f x = of_int k" and "(\<Sum>x\<leftarrow>xs. f x) = of_int l"
    by (metis list.set_intros wholeE)
  then show ?case by (metis list.simps(9) of_int_add sum_list.Cons whole_of_int)
qed (simp add: whole_def)

definition valid_snapshot :: "snapshot_entry list \<Rightarrow> bool" where
  "valid_snapshot snap \<longleftrightarrow> list_all (\<lambda>s. whole (sn_units s) \<and> 0 \<le> sn_units s) snap
     \<and> distinct (map sn_investorId snap)"

lemma units_total:
  assumes "list_all (\<lambda>s. whole (sn_units s) \<and> 0 \<le> sn_units s) snap"
  shows "(\<Sum>s\<leftarrow>snap. sn_units s) = of_int (total_units snap)"
  using assms by (induction snap) (auto simp: total_units_def whole_def max_def)

definition quota :: "rat \<Rightarrow> snapshot_entry list \<Rightarrow> snapshot_entry \<Rightarrow> rat" where
  "quota remaining snap s = (remaining * sn_units s) / of_int (total_units snap)"

lemma frac_of_simps [simp]:
  "fr_investorId (frac_of R (total_units snap) s) = sn_investorId s"
  "fr_floor (frac_of R (total_units snap) s) = of_int \<lfloor>quota R snap s\<rfloor>"
  "fr_frac (frac_of R (total_units snap) s) = quota R snap s - of_int \<lfloor>quota R snap s\<rfloor>"
  by (simp_all add: frac_of_def quota_def Let_def)

lemma quota_total:
  assumes "list_all (\<lambda>s. whole (sn_units s) \<and> 0 \<le> sn_units s) snap" and "total_units snap \<noteq> 0"
  shows "(\<Sum>s\<leftarrow>snap. quota R snap s) = R"
proof -
  have "(\<Sum>s\<leftarrow>snap. quota R snap s) = (\<Sum>s\<leftarrow>snap. (R / of_int (total_units snap)) * sn_units s)"
    by (rule arg_cong [where f = sum_list]) (simp add: quota_def)
  also have "\<dots> = R / of_int (total_units snap) * (\<Sum>s\<leftarrow>snap. sn_units s)"
    by (rule sum_list_const_mult)
  also have "\<dots> = R" using assms by (simp add: units_total)
  finally show ?thesis .
qed

text \<open>The number of units left over is a whole number below the number of investors.\<close>

lemma leftover_bound:
  assumes "list_all (\<lambda>s. whole (sn_units s) \<and> 0 \<le> sn_units s) snap" and "total_units snap \<noteq> 0"
    and "whole R"
  obtains k where "R - (\<Sum>s\<leftarrow>snap. of_int \<lfloor>quota R snap s\<rfloor>) = of_nat k" and "k \<le> length snap"
proof -
  let ?S = "R - (\<Sum>s\<leftarrow>snap. of_int \<lfloor>quota R snap s\<rfloor>)"
  have S: "?S = (\<Sum>s\<leftarrow>snap. quota R snap s - of_int \<lfloor>quota R snap s\<rfloor>)"
    using quota_total [OF assms(1,2), of R] by (simp add: sum_list_subtractf)
  have "0 \<le> ?S" unfolding S by (rule sum_list_nonneg) auto
  moreover have "?S \<le> (\<Sum>s\<leftarrow>snap. 1)"
    unfolding S by (rule sum_list_mono) linarith
  moreover have "whole ?S" using assms(3) by (intro whole_diff whole_sum_list) auto
  then obtain k where "?S = of_int k" by (rule wholeE)
  ultimately have "?S = of_nat (nat k)" "nat k \<le> length snap" by (auto simp: sum_list_triv)
  then show thesis by (rule that)
qed

text \<open>What every investor gets: the floor of the quota, and one unit more for the first ones in the order.\<close>

definition bonus :: "(string \<Rightarrow> string \<Rightarrow> int) \<Rightarrow> rat \<Rightarrow> snapshot_entry list \<Rightarrow> frac_entry list" where
  "bonus collate R snap =
     (let sorted_fracs = js_sort (frac_compare collate) (map (frac_of R (total_units snap)) snap)
      in take (nat \<lfloor>R - (\<Sum>s\<leftarrow>snap. of_int \<lfloor>quota R snap s\<rfloor>)\<rfloor>) sorted_fracs)"

definition share :: "(string \<Rightarrow> string \<Rightarrow> int) \<Rightarrow> rat \<Rightarrow> snapshot_entry list \<Rightarrow> snapshot_entry \<Rightarrow> rat" where
  "share collate R snap s =
     of_int \<lfloor>quota R snap s\<rfloor> + (if frac_of R (total_units snap) s \<in> set (bonus collate R snap) then 1 else 0)"

lemma distinct_js_sort_ids:
  assumes "distinct (map fr_investorId fs)"
  shows "distinct (map fr_investorId (js_sort cmp fs))"
  using assms by (metis distinct_map mset_eq_imp_distinct_iff mset_js_sort set_js_sort)

lemma ids_fracs:
  assumes snap: "valid_snapshot snap"
  shows "distinct (map fr_investorId (js_sort cmp (map (frac_of R (total_units snap)) snap)))"
  using snap by (intro distinct_js_sort_ids) (simp add: valid_snapshot_def comp_def)

lemma leftover_is_share:
  assumes snap: "valid_snapshot snap" and U: "total_units snap \<noteq> 0" and R: "whole R"
    and "s \<in> set snap"
  shows "or_zero (leftover_loop (js_sort (frac_compare collate) (map (frac_of R (total_units snap)) snap))
            (floor_map (js_sort (frac_compare collate) (map (frac_of R (total_units snap)) snap)))
            (R - (\<Sum>f\<leftarrow>map (frac_of R (total_units snap)) snap. fr_floor f)) 0 (sn_investorId s))
         = share collate R snap s"
proof -
  let ?fr = "js_sort (frac_compare collate) (map (frac_of R (total_units snap)) snap)"
  let ?f = "frac_of R (total_units snap) s"
  obtain k where k: "R - (\<Sum>s\<leftarrow>snap. of_int \<lfloor>quota R snap s\<rfloor>) = of_nat k" "k \<le> length snap"
    using leftover_bound [OF _ U R] snap by (metis valid_snapshot_def)
  have L: "R - (\<Sum>f\<leftarrow>map (frac_of R (total_units snap)) snap. fr_floor f) = of_nat k"
    using k(1) by (simp add: comp_def)
  have b: "bonus collate R snap = take k ?fr" using k by (simp add: bonus_def Let_def)
  have f: "?f \<in> set ?fr" using assms(4) by simp
  have inj: "inj_on fr_investorId (set ?fr)" using ids_fracs [OF snap] by (simp only: distinct_map)
  have "sn_investorId s \<in> fr_investorId ` set (take k ?fr) \<longleftrightarrow> ?f \<in> set (take k ?fr)"
    using inj_on_image_mem_iff [OF inj f set_take_subset] by simp
  moreover have "distinct (map fr_investorId (take k ?fr))"
    using ids_fracs [OF snap] by (simp add: take_map [symmetric])
  moreover have "leftover_loop ?fr (floor_map ?fr) (of_nat k) 0 =
    fold (\<lambda>f m. m(fr_investorId f \<mapsto> or_zero (m (fr_investorId f)) + 1)) (take k ?fr) (floor_map ?fr)"
    using k(2) leftover_loop_counts [of 0 k ?fr "floor_map ?fr"] by simp
  moreover have "floor_map ?fr (sn_investorId s) = Some (of_int \<lfloor>quota R snap s\<rfloor>)"
    using floor_map_lookup [OF ids_fracs [OF snap] f] by simp
  ultimately show ?thesis
    unfolding L b share_def by (simp add: fold_increment)
qed

lemma sum_shares:
  assumes snap: "valid_snapshot snap" and U: "total_units snap \<noteq> 0" and R: "whole R"
  shows "(\<Sum>s\<leftarrow>snap. share collate R snap s) = R"
proof -
  let ?fs = "map (frac_of R (total_units snap)) snap"
  let ?fr = "js_sort (frac_compare collate) ?fs"
  let ?B = "\<lambda>f. if f \<in> set (bonus collate R snap) then 1 else (0::rat)"
  obtain k where k: "R - (\<Sum>s\<leftarrow>snap. of_int \<lfloor>quota R snap s\<rfloor>) = of_nat k" "k \<le> length snap"
    using leftover_bound [OF _ U R] snap by (metis valid_snapshot_def)
  have b: "bonus collate R snap = take k ?fr" using k by (simp add: bonus_def Let_def)
  have "distinct ?fr" using ids_fracs [OF snap] unfolding distinct_map by blast
  then have disj: "set (take k ?fr) \<inter> set (drop k ?fr) = {}"
    by (metis append_take_drop_id distinct_append)
  have "(\<Sum>f\<leftarrow>?fs. ?B f) = (\<Sum>f\<leftarrow>?fr. ?B f)"
    by (rule sum_list_js_sort [symmetric])
  also have "\<dots> = (\<Sum>f\<leftarrow>take k ?fr. ?B f) + (\<Sum>f\<leftarrow>drop k ?fr. ?B f)"
    using sum_list_append [of "map ?B (take k ?fr)" "map ?B (drop k ?fr)"]
    by (simp only: map_append [symmetric] append_take_drop_id)
  also have "(\<Sum>f\<leftarrow>take k ?fr. ?B f) = (\<Sum>f\<leftarrow>take k ?fr. 1)"
    by (rule arg_cong [where f = sum_list], rule map_cong) (auto simp: b)
  also have "(\<Sum>f\<leftarrow>drop k ?fr. ?B f) = (\<Sum>f\<leftarrow>drop k ?fr. 0)"
    using disj by (intro arg_cong [where f = sum_list] map_cong) (auto simp: b)
  finally have "(\<Sum>f\<leftarrow>?fs. ?B f) = of_nat k" using k(2) by (simp add: sum_list_triv)
  then show ?thesis using k(1) by (simp add: share_def sum_list_addf comp_def)
qed

lemma share_monotone:
  assumes snap: "valid_snapshot snap" and U: "total_units snap \<noteq> 0" and R: "whole R"
    and "s \<in> set snap" and "t \<in> set snap" and "sn_units s < sn_units t" and "0 \<le> R"
  shows "share collate R snap s \<le> share collate R snap t"
proof -
  let ?q = "quota R snap" and ?f = "frac_of R (total_units snap)"
  let ?fr = "js_sort (frac_compare collate) (map ?f snap)"
  have "0 \<le> (\<Sum>s\<leftarrow>snap. sn_units s)"
    using snap by (intro sum_list_nonneg) (auto simp: valid_snapshot_def list_all_iff)
  then have U0: "0 \<le> (of_int (total_units snap) :: rat)"
    using snap units_total by (metis valid_snapshot_def)
  then have q: "?q s \<le> ?q t"
    using assms(6,7) by (simp add: quota_def divide_right_mono mult_left_mono)
  show ?thesis
  proof (cases "\<lfloor>?q s\<rfloor> = \<lfloor>?q t\<rfloor>")
    case False
    then have "\<lfloor>?q s\<rfloor> + 1 \<le> \<lfloor>?q t\<rfloor>" using floor_mono [OF q] by linarith
    then have "(of_int \<lfloor>?q s\<rfloor> :: rat) + 1 \<le> of_int \<lfloor>?q t\<rfloor>" by linarith
    then show ?thesis by (simp add: share_def)
  next
    case True
    show ?thesis
    proof (cases "R = 0")
      case False
      then have "?q s < ?q t"
        using assms(6,7) U0 U by (simp add: quota_def divide_strict_right_mono)
      have "?f t \<in> set (bonus collate R snap)" if "?f s \<in> set (bonus collate R snap)"
      proof (rule ccontr)
        assume "?f t \<notin> set (bonus collate R snap)"
        moreover obtain k where b: "bonus collate R snap = take k ?fr" by (auto simp: bonus_def Let_def)
        moreover have "?f t \<in> set ?fr" using assms(5) by simp
        ultimately have "?f t \<in> set (drop k ?fr)"
          by (metis Un_iff append_take_drop_id set_append)
        moreover have "sorted_wrt (\<lambda>a b. fr_frac b \<le> fr_frac a) (take k ?fr @ drop k ?fr)"
          by (simp add: sorted_js_sort)
        ultimately have "fr_frac (?f t) \<le> fr_frac (?f s)"
          using that b by (metis sorted_wrt_append)
        with True \<open>?q s < ?q t\<close> show False by simp
      qed
      with True show ?thesis by (simp add: share_def)
    next
      case R0: True
      have "bonus collate R snap = []" by (simp add: bonus_def R0 quota_def)
      with True show ?thesis by (simp add: share_def)
    qed
  qed
qed

subsection \<open>The division of a distribution\<close>

lemma bps_part_bounds:
  assumes "0 \<le> amount" and "0 \<le> bps"
  shows "0 \<le> bps_part amount bps" and "bps_part amount bps \<le> amount * bps / 10000"
  using assms by (simp add: bps_part_def, simp only: bps_part_def of_int_floor_le)

lemma distributable_left:
  assumes "0 \<le> amount" and "0 \<le> fee" and "0 \<le> res" and "fee + res \<le> 10000"
  shows "0 \<le> amount - bps_part amount fee - bps_part amount res"
proof -
  have "bps_part amount fee + bps_part amount res \<le> amount * fee / 10000 + amount * res / 10000"
    using assms bps_part_bounds(2) by (intro add_mono) auto
  also have "\<dots> = amount * (fee + res) / 10000" by (simp add: field_simps)
  also have "\<dots> \<le> amount * 10000 / 10000"
    using assms by (intro divide_right_mono mult_left_mono) auto
  finally show ?thesis by simp
qed

text \<open>The result of a calculation on a valid snapshot, in closed form.\<close>

definition closed_shares ::
  "(string \<Rightarrow> string \<Rightarrow> int) \<Rightarrow> rat \<Rightarrow> snapshot_entry list \<Rightarrow> snapshot_entry \<Rightarrow> rat" where
  "closed_shares collate R snap s =
     (if total_units snap = 0 \<or> R \<le> 0 then 0 else share collate R snap s)"

lemma calculateAllocations_closed:
  assumes "valid_snapshot snap" and "whole D" and "calculateAllocations collate snap D fee res = Inr r"
    and "R = D - bps_part D fee - bps_part D res"
  shows "cr_allocations r = map (\<lambda>s. new_allocation (sn_investorId s) (closed_shares collate R snap s)) snap"
    and "cr_feeAmount r = bps_part D fee" and "cr_reserveAmount r = bps_part D res"
    and "cr_roundingRemainder r = (if total_units snap = 0 \<or> R \<le> 0 then R else 0)"
proof -
  have R: "whole R" unfolding assms(4) by (intro whole_diff assms(2)) (simp_all add: bps_part_def)
  have D: "\<not> D < 0" using assms(3) by (auto simp: calculateAllocations_def)
  let ?fs = "map (frac_of R (total_units snap)) snap"
  let ?m = "leftover_loop (js_sort (frac_compare collate) ?fs) (floor_map (js_sort (frac_compare collate) ?fs))
              (R - (\<Sum>f\<leftarrow>?fs. fr_floor f)) 0"
  let ?as = "map (\<lambda>s. new_allocation (sn_investorId s) (or_zero (?m (sn_investorId s)))) snap"
  have "Inr r = (if total_units snap = 0 \<or> R \<le> 0 then
      Inr \<lparr> cr_allocations = map (\<lambda>s. new_allocation (sn_investorId s) 0) snap,
            cr_feeAmount = bps_part D fee, cr_reserveAmount = bps_part D res, cr_roundingRemainder = R \<rparr>
    else (Inr \<lparr> cr_allocations = ?as, cr_feeAmount = bps_part D fee, cr_reserveAmount = bps_part D res,
            cr_roundingRemainder = R - (\<Sum>a\<leftarrow>?as. al_amount a) \<rparr> :: string + calculation_result))"
    unfolding assms(3) [symmetric] calculateAllocations_def Let_def assms(4) by (simp only: D if_False)
  note calc = this
  have "cr_allocations r = map (\<lambda>s. new_allocation (sn_investorId s) (closed_shares collate R snap s)) snap
     \<and> cr_feeAmount r = bps_part D fee \<and> cr_reserveAmount r = bps_part D res
     \<and> cr_roundingRemainder r = (if total_units snap = 0 \<or> R \<le> 0 then R else 0)"
  proof (cases "total_units snap = 0 \<or> R \<le> 0")
    case True
    then show ?thesis using calc by (auto simp: closed_shares_def)
  next
    case False
    have sh: "?as = map (\<lambda>s. new_allocation (sn_investorId s) (share collate R snap s)) snap"
      using leftover_is_share [OF assms(1) _ R] False by (intro map_cong) auto
    have "(\<Sum>a\<leftarrow>map (\<lambda>s. new_allocation (sn_investorId s) (share collate R snap s)) snap. al_amount a) = R"
      using sum_shares [OF assms(1) _ R] False by (simp add: comp_def new_allocation_def)
    then show ?thesis using calc False unfolding sh by (simp add: closed_shares_def)
  qed
  then show "cr_allocations r = map (\<lambda>s. new_allocation (sn_investorId s) (closed_shares collate R snap s)) snap"
    and "cr_feeAmount r = bps_part D fee" and "cr_reserveAmount r = bps_part D res"
    and "cr_roundingRemainder r = (if total_units snap = 0 \<or> R \<le> 0 then R else 0)"
    by auto
qed

lemma closed_shares_bounds:
  assumes "0 \<le> R"
  shows "of_int \<lfloor>quota R snap s\<rfloor> \<le> closed_shares collate R snap s
    \<and> closed_shares collate R snap s \<le> of_int \<lfloor>quota R snap s\<rfloor> + 1"
  using assms by (auto simp: closed_shares_def share_def quota_def)

lemma closed_shares_mono:
  assumes "valid_snapshot snap" and "whole R" and "s \<in> set snap" and "t \<in> set snap"
    and "sn_units s < sn_units t"
  shows "closed_shares collate R snap s \<le> closed_shares collate R snap t"
  using share_monotone [OF assms(1) _ assms(2-5)] by (auto simp: closed_shares_def)

lemma closed_shares_sum:
  assumes "valid_snapshot snap" and "whole R"
  shows "(\<Sum>s\<leftarrow>snap. closed_shares collate R snap s) = (if total_units snap = 0 \<or> R \<le> 0 then 0 else R)"
  using sum_shares [OF assms(1) _ assms(2), of collate] by (auto simp: closed_shares_def sum_list_triv)

text \<open>
  C22. A distribution is divided without loss: allocations, fee, reserve and rounding remainder
  add up to the amount, the remainder is zero whenever somebody holds units, every investor
  gets the floor of the exact pro-rata quota or one minor unit more, and more units never
  mean less money, whatever collation order breaks the ties.
\<close>
theorem payout_division:
  assumes "valid_snapshot snap" and "whole D" and "0 \<le> fee" and "0 \<le> res" and "fee + res \<le> 10000"
    and "calculateAllocations collate snap D fee res = Inr r"
  shows "map al_investorId (cr_allocations r) = map sn_investorId snap
    \<and> cr_feeAmount r + cr_reserveAmount r + (\<Sum>a\<leftarrow>cr_allocations r. al_amount a) + cr_roundingRemainder r = D
    \<and> (total_units snap \<noteq> 0 \<longrightarrow> cr_roundingRemainder r = 0)
    \<and> list_all2 (\<lambda>s a. of_int \<lfloor>quota (D - cr_feeAmount r - cr_reserveAmount r) snap s\<rfloor> \<le> al_amount a
         \<and> al_amount a \<le> of_int \<lfloor>quota (D - cr_feeAmount r - cr_reserveAmount r) snap s\<rfloor> + 1)
       snap (cr_allocations r)
    \<and> (\<forall>i < length snap. \<forall>j < length snap. sn_units (snap ! i) < sn_units (snap ! j) \<longrightarrow>
         al_amount (cr_allocations r ! i) \<le> al_amount (cr_allocations r ! j))"
proof -
  define R where "R = D - bps_part D fee - bps_part D res"
  have D: "0 \<le> D" using assms(6) by (auto simp: calculateAllocations_def split: if_splits)
  then have R0: "0 \<le> R" unfolding R_def using assms(3-5) by (rule distributable_left)
  have R: "whole R" unfolding R_def by (intro whole_diff assms(2)) (simp_all add: bps_part_def)
  note c = calculateAllocations_closed [OF assms(1,2,6) R_def]
  have m: "map al_amount (cr_allocations r) = map (closed_shares collate R snap) snap"
    by (simp add: c(1) new_allocation_def)
  have sum: "(\<Sum>a\<leftarrow>cr_allocations r. al_amount a) = (if total_units snap = 0 \<or> R \<le> 0 then 0 else R)"
    unfolding m by (rule closed_shares_sum [OF assms(1) R])
  have Rr: "D - cr_feeAmount r - cr_reserveAmount r = R" by (simp add: c R_def)
  have "map al_investorId (cr_allocations r) = map sn_investorId snap"
    by (simp add: c(1) new_allocation_def)
  moreover have "cr_feeAmount r + cr_reserveAmount r + (\<Sum>a\<leftarrow>cr_allocations r. al_amount a) + cr_roundingRemainder r = D"
    unfolding sum c(2,3,4) using R0 by (auto simp: R_def)
  moreover have "total_units snap \<noteq> 0 \<longrightarrow> cr_roundingRemainder r = 0" using R0 by (simp add: c(4))
  moreover have "list_all2 (\<lambda>s a. of_int \<lfloor>quota R snap s\<rfloor> \<le> al_amount a
         \<and> al_amount a \<le> of_int \<lfloor>quota R snap s\<rfloor> + 1) snap (cr_allocations r)"
    using closed_shares_bounds [OF R0, of snap _ collate]
    by (simp add: c(1) new_allocation_def list_all2_conv_all_nth)
  moreover have "\<forall>i < length snap. \<forall>j < length snap. sn_units (snap ! i) < sn_units (snap ! j) \<longrightarrow>
         al_amount (cr_allocations r ! i) \<le> al_amount (cr_allocations r ! j)"
    using closed_shares_mono [OF assms(1) R] by (simp add: c(1) new_allocation_def)
  ultimately show ?thesis unfolding Rr by blast
qed

definition demo_snapshot :: "snapshot_entry list" where
  "demo_snapshot = [\<lparr> sn_investorId = ''a'', sn_units = 1 \<rparr>, \<lparr> sn_investorId = ''b'', sn_units = 1 \<rparr>,
     \<lparr> sn_investorId = ''c'', sn_units = 4 \<rparr>]"

definition demo_calculation :: calculation_result where
  "demo_calculation = \<lparr> cr_allocations = [new_allocation ''a'' 17, new_allocation ''b'' 17, new_allocation ''c'' 66],
     cr_feeAmount = 1, cr_reserveAmount = 0, cr_roundingRemainder = 0 \<rparr>"

lemma demo_calculates: "calculateAllocations (\<lambda>_ _. 0) demo_snapshot 101 100 0 = Inr demo_calculation"
  by code_simp

lemma payout_division_witness:
  "cr_feeAmount demo_calculation + cr_reserveAmount demo_calculation
     + (\<Sum>a\<leftarrow>cr_allocations demo_calculation. al_amount a) + cr_roundingRemainder demo_calculation = 101"
  using payout_division [of demo_snapshot 101 100 0 "\<lambda>_ _. 0" demo_calculation] demo_calculates
  by (simp add: valid_snapshot_def demo_snapshot_def whole_def)

text \<open>
  Two entries of one investor break the division: the map keeps one share per investor and
  both entries are paid it, here 150 out of 100.
\<close>

lemma repeated_investor_overpaid:
  "map_sum id (map al_amount \<circ> cr_allocations) (calculateAllocations (\<lambda>_ _. 0)
     [\<lparr> sn_investorId = ''a'', sn_units = 1 \<rparr>, \<lparr> sn_investorId = ''a'', sn_units = 3 \<rparr>] 100 0 0) = Inr [75, 75]"
  by code_simp

end
