(* ===== verification/Payout_Service.thy ===== *)
theory Payout_Service
  imports Payout_Engine Platform
begin

text \<open>
  The distribution service (\<open>lib/payouts/service.ts\<close>) over its in-memory store.  The payment
  provider is the argument \<open>pe_post\<close>: what the \<open>n\<close>-th call answers.  \<open>po_calls\<close> records the
  calls the service has made, with the distribution they were made for.

  \<open>execute\<close> starts the payments of all unpaid allocations before it awaits the first answer,
  so it is two steps, \<open>execute_start\<close> and \<open>execute_finish\<close>; \<open>execute\<close> is the run in which nothing
  happens in between.
\<close>

subsection \<open>Data\<close>

datatype distribution_state =
  Dis_draft | Dis_calculated | Dis_approved | Dis_processing | Dis_paid
| Dis_partially_failed | Dis_reversed | Dis_cancelled

record distribution =
  di_id :: string
  di_poolId :: string
  di_snapshot :: "snapshot_entry list"
  di_distributableAmount :: rat
  di_feeBps :: rat
  di_reserveBps :: rat
  di_allocations :: "payout_allocation list"
  di_feeAmount :: rat
  di_reserveAmount :: rat
  di_roundingRemainder :: rat
  di_state :: distribution_state
  di_createdBy :: string
  di_approvedBy :: "string option"
  di_createdAt :: time
  di_approvedAt :: "time option"
  di_executedAt :: "time option"

record draft_options =
  dr_poolId :: string
  dr_snapshot :: "snapshot_entry list"
  dr_distributableAmount :: rat
  dr_feeBps :: "rat option"
  dr_reserveBps :: "rat option"
  dr_createdBy :: string

datatype payment_outcome = Outcome bool "string option" "string option" | Outcome_throws string

record payment_call =
  pc_distribution :: string
  pc_investorId :: string
  pc_amount :: rat
  pc_outcome :: payment_outcome

record payout_db =
  po_store :: "string \<Rightarrow> distribution option"
  po_next :: nat
  po_calls :: "payment_call list"

record payout_env =
  pe_now :: time
  pe_new_id :: "nat \<Rightarrow> string"
  pe_collate :: "string \<Rightarrow> string \<Rightarrow> int"
  pe_post :: "nat \<Rightarrow> string \<Rightarrow> rat \<Rightarrow> payment_outcome"

fun succeeded :: "payment_outcome \<Rightarrow> bool" where
  "succeeded (Outcome b t r) = b"
| "succeeded (Outcome_throws m) = False"

subsection \<open>Operations\<close>

definition put_distribution :: "distribution \<Rightarrow> payout_db \<Rightarrow> payout_db" where
  "put_distribution d s = s\<lparr>po_store := (po_store s)(di_id d \<mapsto> d)\<rparr>"

definition createDraft :: "payout_env \<Rightarrow> draft_options \<Rightarrow> payout_db \<Rightarrow> (string + distribution) \<times> payout_db" where
  "createDraft E opts s =
     (let d = \<lparr> di_id = pe_new_id E (po_next s), di_poolId = dr_poolId opts,
            di_snapshot = map (\<lambda>r. \<lparr> sn_investorId = sn_investorId r, sn_units = of_int (max 0 \<lfloor>sn_units r\<rfloor>) \<rparr>) (dr_snapshot opts),
            di_distributableAmount = dr_distributableAmount opts,
            di_feeBps = or_zero (dr_feeBps opts), di_reserveBps = or_zero (dr_reserveBps opts),
            di_allocations = [], di_feeAmount = 0, di_reserveAmount = 0, di_roundingRemainder = 0,
            di_state = Dis_draft, di_createdBy = dr_createdBy opts, di_approvedBy = None,
            di_createdAt = pe_now E, di_approvedAt = None, di_executedAt = None \<rparr>
      in (Inr d, put_distribution d (s\<lparr>po_next := Suc (po_next s)\<rparr>)))"

definition get_distribution :: "string \<Rightarrow> payout_db \<Rightarrow> string + distribution" where
  "get_distribution did s =
     (case po_store s did of None \<Rightarrow> Inl ''distribution not found'' | Some d \<Rightarrow> Inr d)"

definition calculate :: "payout_env \<Rightarrow> string \<Rightarrow> payout_db \<Rightarrow> (string + distribution) \<times> payout_db" where
  "calculate E did s =
     (case get_distribution did s of Inl e \<Rightarrow> (Inl e, s) | Inr d \<Rightarrow>
        if di_state d \<noteq> Dis_draft then (Inl ''can only calculate a draft distribution'', s)
        else case calculateAllocations (pe_collate E) (di_snapshot d) (di_distributableAmount d) (di_feeBps d) (di_reserveBps d) of
          Inl e \<Rightarrow> (Inl e, s)
        | Inr r \<Rightarrow>
            (let d' = d\<lparr>di_allocations := cr_allocations r, di_feeAmount := cr_feeAmount r,
                        di_reserveAmount := cr_reserveAmount r, di_roundingRemainder := cr_roundingRemainder r,
                        di_state := Dis_calculated\<rparr>
             in (Inr d', put_distribution d' s)))"

definition approve :: "payout_env \<Rightarrow> string \<Rightarrow> string \<Rightarrow> string option \<Rightarrow> payout_db \<Rightarrow> (string + distribution) \<times> payout_db" where
  "approve E did approver calculator s =
     (case get_distribution did s of Inl e \<Rightarrow> (Inl e, s) | Inr d \<Rightarrow>
        if di_state d \<noteq> Dis_calculated then (Inl ''only calculated distributions can be approved'', s)
        else if truthy calculator \<and> calculator = Some approver then (Inl ''approver cannot be the calculator'', s)
        else (let d' = d\<lparr>di_state := Dis_approved, di_approvedBy := Some approver, di_approvedAt := Some (pe_now E)\<rparr>
              in (Inr d', put_distribution d' s)))"

text \<open>Starting the payments, in the order of the allocations, and taking in the answers.\<close>

fun post_all :: "payout_env \<Rightarrow> string \<Rightarrow> payout_allocation list \<Rightarrow> payment_call list
    \<Rightarrow> payment_outcome option list \<times> payment_call list" where
  "post_all E did [] calls = ([], calls)"
| "post_all E did (a # as) calls =
     (if al_status a = Al_paid then (let (outs, calls') = post_all E did as calls in (None # outs, calls'))
      else (let r = pe_post E (length calls) (al_investorId a) (al_amount a);
                (outs, calls') = post_all E did as
                  (calls @ [\<lparr> pc_distribution = did, pc_investorId = al_investorId a, pc_amount = al_amount a, pc_outcome = r \<rparr>])
            in (Some r # outs, calls')))"

fun take_outcome :: "payment_outcome \<Rightarrow> payout_allocation \<Rightarrow> payout_allocation" where
  "take_outcome (Outcome True tx err) a = a\<lparr>al_status := Al_paid, al_txId := tx\<rparr>"
| "take_outcome (Outcome False tx err) a = a\<lparr>al_status := Al_failed, al_failureReason := err\<rparr>"
| "take_outcome (Outcome_throws m) a = a\<lparr>al_status := Al_failed, al_failureReason := Some m\<rparr>"

fun take_answer :: "payment_outcome option \<Rightarrow> payout_allocation \<Rightarrow> payout_allocation" where
  "take_answer None a = a"
| "take_answer (Some r) a = take_outcome r a"

definition any_failed :: "payout_allocation list \<Rightarrow> bool" where
  "any_failed as \<longleftrightarrow> list_ex (\<lambda>a. al_status a = Al_failed) as"

definition execute_start ::
  "payout_env \<Rightarrow> string \<Rightarrow> payout_db \<Rightarrow> (string + payment_outcome option list option) \<times> payout_db" where
  "execute_start E did s =
     (case get_distribution did s of Inl e \<Rightarrow> (Inl e, s) | Inr d \<Rightarrow>
        if di_state d = Dis_paid then (Inr None, s)
        else if di_state d \<noteq> Dis_approved \<and> di_state d \<noteq> Dis_processing \<and> di_state d \<noteq> Dis_calculated
        then (Inl ''only approved distributions can be executed'', s)
        else (let (outs, calls) = post_all E did (di_allocations d) (po_calls s)
              in (Inr (Some outs), (put_distribution (d\<lparr>di_state := Dis_processing\<rparr>) s)\<lparr>po_calls := calls\<rparr>)))"

definition execute_finish ::
  "payout_env \<Rightarrow> string \<Rightarrow> payment_outcome option list \<Rightarrow> payout_db \<Rightarrow> (string + distribution) \<times> payout_db" where
  "execute_finish E did outs s =
     (case get_distribution did s of Inl e \<Rightarrow> (Inl e, s) | Inr d \<Rightarrow>
        (let as = map2 take_answer outs (di_allocations d);
             d' = d\<lparr>di_allocations := as, di_state := (if any_failed as then Dis_partially_failed else Dis_paid),
                    di_executedAt := Some (pe_now E)\<rparr>
         in (Inr d', put_distribution d' s)))"

definition execute :: "payout_env \<Rightarrow> string \<Rightarrow> payout_db \<Rightarrow> (string + distribution) \<times> payout_db" where
  "execute E did s =
     (case execute_start E did s of
        (Inl e, s') \<Rightarrow> (Inl e, s')
      | (Inr None, s') \<Rightarrow> (get_distribution did s', s')
      | (Inr (Some outs), s') \<Rightarrow> execute_finish E did outs s')"

definition set_pending :: "payout_allocation \<Rightarrow> payout_allocation" where
  "set_pending a = a\<lparr>al_status := Al_pending\<rparr>"

definition retryRecipient ::
  "payout_env \<Rightarrow> string \<Rightarrow> string \<Rightarrow> payout_db \<Rightarrow> (string + payout_allocation) \<times> payout_db" where
  "retryRecipient E did investorId s =
     (case get_distribution did s of Inl e \<Rightarrow> (Inl e, s) | Inr d \<Rightarrow>
        (case find_one (\<lambda>a. al_investorId a = investorId) (di_allocations d) of
           None \<Rightarrow> (Inl ''allocation not found'', s)
         | Some a \<Rightarrow>
             if al_status a = Al_paid then (Inr a, s)
             else
               (let r = pe_post E (length (po_calls s)) (al_investorId a) (al_amount a);
                    s1 = s\<lparr>po_calls := po_calls s @
                      [\<lparr> pc_distribution = did, pc_investorId = al_investorId a, pc_amount = al_amount a, pc_outcome = r \<rparr>]\<rparr>;
                    set_first = (\<lambda>f. update_one (\<lambda>a. al_investorId a = investorId) f (di_allocations d))
                in case r of
                     Outcome_throws m \<Rightarrow> (Inl m, put_distribution (d\<lparr>di_allocations := set_first set_pending\<rparr>) s1)
                   | Outcome ok tx err \<Rightarrow>
                       (let as = set_first (\<lambda>a. take_outcome r (set_pending a));
                            d' = d\<lparr>di_allocations := as,
                              di_state := (if list_all (\<lambda>a. al_status a = Al_paid) as then Dis_paid
                                           else if any_failed as then Dis_partially_failed else di_state d)\<rparr>
                        in (Inr (take_outcome r (set_pending a)), put_distribution d' s1)))))"

definition hold_paid :: "payout_allocation \<Rightarrow> payout_allocation" where
  "hold_paid a = (if al_status a = Al_paid then a\<lparr>al_status := Al_held\<rparr> else a)"

definition reverse_distribution :: "string \<Rightarrow> payout_db \<Rightarrow> (string + distribution) \<times> payout_db" where
  "reverse_distribution did s =
     (case get_distribution did s of Inl e \<Rightarrow> (Inl e, s) | Inr d \<Rightarrow>
        if di_state d \<noteq> Dis_paid \<and> di_state d \<noteq> Dis_partially_failed
        then (Inl ''only paid or partially_failed distributions can be reversed'', s)
        else (let d' = d\<lparr>di_allocations := map hold_paid (di_allocations d), di_state := Dis_reversed\<rparr>
              in (Inr d', put_distribution d' s)))"

end
