(* ===== verification/Payout_Theorems.thy ===== *)
theory Payout_Theorems
  imports Payout_Service
begin

text \<open>
  What the distribution service guarantees: over any sequence of its operations without a
  reversal an investor is paid the allocation at most once and a distribution never pays out
  more than what is left after fee and reserve; and what it does not guarantee, by example:
  overlapping executions, and retries after a reversal.
\<close>

subsection \<open>Money paid out\<close>

definition paid_calls :: "(string \<Rightarrow> bool) \<Rightarrow> string \<Rightarrow> payment_call list \<Rightarrow> rat" where
  "paid_calls P did calls =
     (\<Sum>c\<leftarrow>filter (\<lambda>c. pc_distribution c = did \<and> P (pc_investorId c) \<and> succeeded (pc_outcome c)) calls. pc_amount c)"

definition paid_allocations :: "(string \<Rightarrow> bool) \<Rightarrow> payout_allocation list \<Rightarrow> rat" where
  "paid_allocations P as = (\<Sum>a\<leftarrow>filter (\<lambda>a. al_status a = Al_paid \<and> P (al_investorId a)) as. al_amount a)"

lemma paid_calls_append [simp]: "paid_calls P did (cs @ ds) = paid_calls P did cs + paid_calls P did ds"
  by (simp add: paid_calls_def)

lemma paid_calls_Nil [simp]: "paid_calls P did [] = 0"
  by (simp add: paid_calls_def)

lemma paid_calls_single:
  "paid_calls P did [c] = (if pc_distribution c = did \<and> P (pc_investorId c) \<and> succeeded (pc_outcome c) then pc_amount c else 0)"
  by (simp add: paid_calls_def)

lemma paid_allocations_Cons:
  "paid_allocations P (a # as) =
     (if al_status a = Al_paid \<and> P (al_investorId a) then al_amount a else 0) + paid_allocations P as"
  by (simp add: paid_allocations_def)

lemma paid_allocations_Nil [simp]: "paid_allocations P [] = 0"
  by (simp add: paid_allocations_def)

lemma take_outcome_simps [simp]:
  "al_investorId (take_outcome r a) = al_investorId a"
  "al_amount (take_outcome r a) = al_amount a"
  "al_status (take_outcome r a) = Al_paid \<longleftrightarrow> succeeded r"
  "al_status (take_outcome r a) \<noteq> Al_held"
  by (cases "(r, a)" rule: take_outcome.cases; simp)+

lemma take_answer_simps [simp]:
  "al_investorId (take_answer x a) = al_investorId a"
  "al_amount (take_answer x a) = al_amount a"
  by (cases x; simp)+

lemma set_pending_simps [simp]:
  "al_investorId (set_pending a) = al_investorId a" "al_amount (set_pending a) = al_amount a"
  "al_status (set_pending a) = Al_pending"
  by (simp_all add: set_pending_def)

subsection \<open>One round of payments\<close>

lemma post_all_length: "post_all E did as calls = (outs, calls') \<Longrightarrow> length outs = length as"
  by (induction as arbitrary: calls outs calls') (auto simp: Let_def split: prod.splits if_splits)

lemma post_all_extends:
  "post_all E did as calls = (outs, calls') \<Longrightarrow>
     \<exists>new. calls' = calls @ new \<and> list_all (\<lambda>c. pc_distribution c = did) new"
proof (induction as arbitrary: calls outs calls')
  case (Cons a as)
  show ?case
  proof (cases "al_status a = Al_paid")
    case True
    with Cons show ?thesis by (auto simp: Let_def split: prod.splits)
  next
    case False
    let ?c = "\<lparr> pc_distribution = did, pc_investorId = al_investorId a, pc_amount = al_amount a,
                pc_outcome = pe_post E (length calls) (al_investorId a) (al_amount a) \<rparr>"
    obtain o1 c1 where p: "post_all E did as (calls @ [?c]) = (o1, c1)" by fastforce
    then obtain new where "c1 = (calls @ [?c]) @ new" "list_all (\<lambda>c. pc_distribution c = did) new"
      using Cons.IH by blast
    moreover have "calls' = c1" using Cons.prems False p by (simp add: Let_def)
    ultimately have "calls' = calls @ (?c # new) \<and> list_all (\<lambda>c. pc_distribution c = did) (?c # new)" by simp
    then show ?thesis by blast
  qed
qed simp

lemma post_all_paid:
  "post_all E did as calls = (outs, calls') \<Longrightarrow>
     paid_calls P did calls' - paid_calls P did calls
       = paid_allocations P (map2 take_answer outs as) - paid_allocations P as"
proof (induction as arbitrary: calls outs calls')
  case (Cons a as)
  show ?case
  proof (cases "al_status a = Al_paid")
    case True
    obtain o1 c1 where p: "post_all E did as calls = (o1, c1)" by fastforce
    with Cons.prems True have "outs = None # o1" "calls' = c1" by (auto simp: Let_def)
    with Cons.IH [OF p] True show ?thesis by (simp add: paid_allocations_Cons)
  next
    case False
    let ?r = "pe_post E (length calls) (al_investorId a) (al_amount a)"
    let ?c = "\<lparr> pc_distribution = did, pc_investorId = al_investorId a, pc_amount = al_amount a, pc_outcome = ?r \<rparr>"
    obtain o1 c1 where p: "post_all E did as (calls @ [?c]) = (o1, c1)" by fastforce
    with Cons.prems False have o: "outs = Some ?r # o1" "calls' = c1" by (auto simp: Let_def)
    with Cons.IH [OF p] False show ?thesis
      by (simp add: paid_allocations_Cons paid_calls_single algebra_simps)
  qed
qed simp

lemma map2_take_answer:
  assumes "length outs = length as"
  shows "map al_investorId (map2 take_answer outs as) = map al_investorId as"
    and "map al_amount (map2 take_answer outs as) = map al_amount as"
  using assms by (induction outs as rule: list_induct2) auto

lemma paid_allocations_update_one:
  assumes "find_one (\<lambda>a. al_investorId a = i) as = Some a" and "al_status a \<noteq> Al_paid"
    and "\<And>b. al_investorId (f b) = al_investorId b" and "\<And>b. al_amount (f b) = al_amount b"
  shows "paid_allocations P (update_one (\<lambda>a. al_investorId a = i) f as) =
    paid_allocations P as + (if al_status (f a) = Al_paid \<and> P (al_investorId a) then al_amount a else 0)"
  using assms(1) by (induction as) (auto simp: paid_allocations_Cons assms(2-4) split: if_splits)

subsection \<open>The invariant of a run without reversals\<close>

definition sound_distribution :: "distribution \<Rightarrow> bool" where
  "sound_distribution d \<longleftrightarrow>
     valid_snapshot (di_snapshot d) \<and> whole (di_distributableAmount d) \<and> 0 \<le> di_feeBps d \<and> 0 \<le> di_reserveBps d
     \<and> di_feeBps d + di_reserveBps d \<le> 10000
     \<and> (di_state d = Dis_draft \<longrightarrow> di_allocations d = [])
     \<and> (di_state d \<noteq> Dis_draft \<longrightarrow>
          map al_investorId (di_allocations d) = map sn_investorId (di_snapshot d)
          \<and> list_all (\<lambda>x. 0 \<le> x) (map al_amount (di_allocations d))
          \<and> sum_list (map al_amount (di_allocations d)) \<le> di_distributableAmount d - di_feeAmount d - di_reserveAmount d)"

definition payouts_ok :: "(nat \<Rightarrow> string) \<Rightarrow> payout_db \<Rightarrow> bool" where
  "payouts_ok ids s \<longleftrightarrow>
     (\<forall>did d. po_store s did = Some d \<longrightarrow>
        di_id d = did \<and> (\<exists>n < po_next s. did = ids n) \<and> sound_distribution d
        \<and> (\<forall>P. paid_calls P did (po_calls s) = paid_allocations P (di_allocations d)))
     \<and> (\<forall>c \<in> set (po_calls s). \<exists>n < po_next s. pc_distribution c = ids n)"

lemma paid_calls_elsewhere:
  "list_all (\<lambda>c. pc_distribution c = did) new \<Longrightarrow> did' \<noteq> did \<Longrightarrow> paid_calls P did' new = 0"
  by (induction new) (auto simp: paid_calls_def)

lemma put_ok:
  assumes "payouts_ok ids s" and "po_store s did = Some d" and "di_id d' = did" and "sound_distribution d'"
    and "list_all (\<lambda>c. pc_distribution c = did) new"
    and "\<And>P. paid_calls P did new = paid_allocations P (di_allocations d') - paid_allocations P (di_allocations d)"
  shows "payouts_ok ids ((put_distribution d' s)\<lparr>po_calls := po_calls s @ new\<rparr>)"
proof -
  let ?s = "(put_distribution d' s)\<lparr>po_calls := po_calls s @ new\<rparr>"
  have n: "\<exists>n < po_next s. did = ids n" using assms(1,2) by (auto simp: payouts_ok_def)
  have "di_id e = x \<and> (\<exists>n < po_next s. x = ids n) \<and> sound_distribution e
      \<and> (\<forall>P. paid_calls P x (po_calls s @ new) = paid_allocations P (di_allocations e))"
    if e: "po_store ?s x = Some e" for x e
  proof (cases "x = did")
    case True
    with e assms(3) have "e = d'" by (simp add: put_distribution_def)
    moreover have "paid_calls P did (po_calls s) = paid_allocations P (di_allocations d)" for P
      using assms(1,2) by (simp add: payouts_ok_def)
    ultimately show ?thesis using True n assms(3,4,6) by simp
  next
    case False
    with e assms(3) have "po_store s x = Some e" by (simp add: put_distribution_def)
    with assms(1) show ?thesis
      using paid_calls_elsewhere [OF assms(5) False] by (simp add: payouts_ok_def)
  qed
  moreover have "\<exists>n < po_next s. pc_distribution c = ids n" if "c \<in> set (po_calls s @ new)" for c
  proof (cases "c \<in> set new")
    case True
    with assms(5) have "pc_distribution c = did" by (simp add: list_all_iff)
    with n show ?thesis by simp
  next
    case False
    with that assms(1) show ?thesis by (simp add: payouts_ok_def)
  qed
  moreover have "po_next ?s = po_next s" and "po_calls ?s = po_calls s @ new"
    by (simp_all add: put_distribution_def)
  ultimately show ?thesis unfolding payouts_ok_def by metis
qed

lemma put_ok_same_calls:
  assumes "payouts_ok ids s" and "po_store s did = Some d" and "di_id d' = did" and "sound_distribution d'"
    and "\<And>P. paid_allocations P (di_allocations d') = paid_allocations P (di_allocations d)"
  shows "payouts_ok ids (put_distribution d' s)"
  using put_ok [OF assms(1-4), of "[]"] assms(5) by (simp add: put_distribution_def)

lemma payouts_okD:
  assumes "payouts_ok ids s" and "po_store s did = Some d"
  shows "di_id d = did" "sound_distribution d"
    "paid_calls P did (po_calls s) = paid_allocations P (di_allocations d)"
  using assms by (auto simp: payouts_ok_def)

lemma closed_shares_nonneg:
  assumes "valid_snapshot snap" and "0 \<le> R" and "s \<in> set snap"
  shows "0 \<le> closed_shares collate R snap s"
proof -
  have u: "0 \<le> sn_units s" using assms(1,3) by (auto simp: valid_snapshot_def list_all_iff)
  have "0 \<le> (of_int (total_units snap) :: rat)"
    by (auto simp: total_units_def intro!: sum_list_nonneg)
  then have "0 \<le> quota R snap s" using u assms(2) by (simp add: quota_def)
  then have "(0::rat) \<le> of_int \<lfloor>quota R snap s\<rfloor>" by simp
  then show ?thesis using closed_shares_bounds [OF assms(2), of snap s collate] by linarith
qed

lemma calculation_sound:
  assumes "sound_distribution d" and "di_state d = Dis_draft"
    and "calculateAllocations collate (di_snapshot d) (di_distributableAmount d) (di_feeBps d) (di_reserveBps d) = Inr r"
  shows "sound_distribution (d\<lparr>di_allocations := cr_allocations r, di_feeAmount := cr_feeAmount r,
           di_reserveAmount := cr_reserveAmount r, di_roundingRemainder := rem, di_state := Dis_calculated\<rparr>)"
    and "list_all (\<lambda>a. al_status a = Al_pending) (cr_allocations r)"
proof -
  let ?D = "di_distributableAmount d" and ?snap = "di_snapshot d"
  define R where "R = ?D - bps_part ?D (di_feeBps d) - bps_part ?D (di_reserveBps d)"
  have v: "valid_snapshot ?snap" "whole ?D" "0 \<le> di_feeBps d" "0 \<le> di_reserveBps d" "di_feeBps d + di_reserveBps d \<le> 10000"
    using assms(1) by (auto simp: sound_distribution_def)
  have "0 \<le> ?D" using assms(3) by (auto simp: calculateAllocations_def split: if_splits)
  then have R0: "0 \<le> R" unfolding R_def using v(3-5) by (rule distributable_left)
  have R: "whole R" unfolding R_def by (intro whole_diff v(2)) (simp_all add: bps_part_def)
  note c = calculateAllocations_closed [OF v(1,2) assms(3) R_def]
  have m: "map al_amount (cr_allocations r) = map (closed_shares collate R ?snap) ?snap"
    by (simp add: c(1) new_allocation_def)
  have "sum_list (map al_amount (cr_allocations r)) \<le> R"
    unfolding m using closed_shares_sum [OF v(1) R, of collate] R0 by auto
  moreover have "list_all (\<lambda>x. 0 \<le> x) (map al_amount (cr_allocations r))"
    unfolding m using closed_shares_nonneg [OF v(1) R0] by (simp add: list_all_iff)
  moreover have "map al_investorId (cr_allocations r) = map sn_investorId ?snap"
    by (simp add: c(1) new_allocation_def)
  ultimately show "sound_distribution (d\<lparr>di_allocations := cr_allocations r, di_feeAmount := cr_feeAmount r,
           di_reserveAmount := cr_reserveAmount r, di_roundingRemainder := rem, di_state := Dis_calculated\<rparr>)"
    using v by (simp add: sound_distribution_def c(2,3) R_def)
  show "list_all (\<lambda>a. al_status a = Al_pending) (cr_allocations r)"
    by (simp add: c(1) new_allocation_def list_all_iff)
qed

lemma paid_allocations_pending: "list_all (\<lambda>a. al_status a = Al_pending) as \<Longrightarrow> paid_allocations P as = 0"
  by (induction as) (auto simp: paid_allocations_Cons)

subsection \<open>Operations keep the invariant\<close>

datatype payout_op =
  Create_draft draft_options | Calculate string | Approve string string "string option" | Execute string
| Retry string string | Reverse_distribution string

fun payout_step :: "payout_env \<times> payout_op \<Rightarrow> payout_db \<Rightarrow> unit \<times> payout_db" where
  "payout_step (E, Create_draft opts) s = ((), snd (createDraft E opts s))"
| "payout_step (E, Calculate did) s = ((), snd (calculate E did s))"
| "payout_step (E, Approve did a c) s = ((), snd (approve E did a c s))"
| "payout_step (E, Execute did) s = ((), snd (execute E did s))"
| "payout_step (E, Retry did i) s = ((), snd (retryRecipient E did i s))"
| "payout_step (E, Reverse_distribution did) s = ((), snd (reverse_distribution did s))"

definition good_draft :: "draft_options \<Rightarrow> bool" where
  "good_draft opts \<longleftrightarrow> distinct (map sn_investorId (dr_snapshot opts)) \<and> whole (dr_distributableAmount opts)
     \<and> 0 \<le> or_zero (dr_feeBps opts) \<and> 0 \<le> or_zero (dr_reserveBps opts)
     \<and> or_zero (dr_feeBps opts) + or_zero (dr_reserveBps opts) \<le> 10000"

fun irreversible :: "(nat \<Rightarrow> string) \<Rightarrow> payout_env \<times> payout_op \<Rightarrow> bool" where
  "irreversible ids (E, Create_draft opts) \<longleftrightarrow> pe_new_id E = ids \<and> good_draft opts"
| "irreversible ids (E, Reverse_distribution did) \<longleftrightarrow> False"
| "irreversible ids _ \<longleftrightarrow> True"

lemma get_distribution_Inr [simp]: "get_distribution did s = Inr d \<longleftrightarrow> po_store s did = Some d"
  by (auto simp: get_distribution_def split: option.splits)

lemma createDraft_ok:
  assumes "payouts_ok ids s" and "inj ids" and "pe_new_id E = ids" and "good_draft opts"
  shows "payouts_ok ids (snd (createDraft E opts s))"
proof -
  let ?i = "ids (po_next s)"
  define d where "d = \<lparr> di_id = ?i, di_poolId = dr_poolId opts,
    di_snapshot = map (\<lambda>r. \<lparr> sn_investorId = sn_investorId r, sn_units = of_int (max 0 \<lfloor>sn_units r\<rfloor>) \<rparr>) (dr_snapshot opts),
    di_distributableAmount = dr_distributableAmount opts,
    di_feeBps = or_zero (dr_feeBps opts), di_reserveBps = or_zero (dr_reserveBps opts),
    di_allocations = [], di_feeAmount = 0, di_reserveAmount = 0, di_roundingRemainder = 0,
    di_state = Dis_draft, di_createdBy = dr_createdBy opts, di_approvedBy = None,
    di_createdAt = pe_now E, di_approvedAt = None, di_executedAt = None \<rparr>"
  have new: "ids n \<noteq> ?i" if "n < po_next s" for n using that assms(2) by (auto simp: inj_eq)
  have snap: "valid_snapshot (di_snapshot d)"
    using assms(4) by (simp add: d_def valid_snapshot_def good_draft_def list_all_iff comp_def del: of_int_max)
  have sound: "sound_distribution d"
    using assms(4) snap by (simp add: sound_distribution_def) (simp add: d_def good_draft_def)
  have none: "filter (\<lambda>c. pc_distribution c = ?i \<and> P (pc_investorId c) \<and> succeeded (pc_outcome c)) (po_calls s) = []" for P
    using assms(1) new by (auto simp: payouts_ok_def filter_empty_conv)
  then have paid: "paid_calls P ?i (po_calls s) = paid_allocations P (di_allocations d)" for P
    by (simp add: paid_calls_def d_def)
  have st: "snd (createDraft E opts s) = put_distribution d (s\<lparr>po_next := Suc (po_next s)\<rparr>)"
    by (simp add: createDraft_def Let_def d_def assms(3))
  have "di_id e = x \<and> (\<exists>n < Suc (po_next s). x = ids n) \<and> sound_distribution e
      \<and> (\<forall>P. paid_calls P x (po_calls s) = paid_allocations P (di_allocations e))"
    if e: "((po_store s)(?i \<mapsto> d)) x = Some e" for x e
  proof (cases "x = ?i")
    case True
    with e have "e = d" by simp
    with True sound paid show ?thesis by (auto simp: d_def)
  next
    case False
    with e have "po_store s x = Some e" by simp
    with assms(1) show ?thesis by (metis less_Suc_eq payouts_ok_def)
  qed
  moreover have "\<exists>n < Suc (po_next s). pc_distribution c = ids n" if "c \<in> set (po_calls s)" for c
    using that assms(1) by (metis less_Suc_eq payouts_ok_def)
  moreover have "po_store (snd (createDraft E opts s)) = (po_store s)(?i \<mapsto> d)"
    and "po_next (snd (createDraft E opts s)) = Suc (po_next s)" and "po_calls (snd (createDraft E opts s)) = po_calls s"
    unfolding st by (simp_all add: put_distribution_def d_def)
  ultimately show ?thesis unfolding payouts_ok_def by metis
qed

lemma calculate_ok:
  assumes "payouts_ok ids s"
  shows "payouts_ok ids (snd (calculate E did s))"
proof (cases "po_store s did")
  case None
  then show ?thesis using assms by (simp add: calculate_def get_distribution_def)
next
  case (Some d)
  let ?c = "calculateAllocations (pe_collate E) (di_snapshot d) (di_distributableAmount d) (di_feeBps d) (di_reserveBps d)"
  show ?thesis
  proof (cases "di_state d = Dis_draft \<and> is_ok ?c")
    case False
    then show ?thesis using assms Some by (auto simp: calculate_def get_distribution_def split: sum.splits)
  next
    case True
    then obtain r where r: "?c = Inr r" by (auto elim: is_okE)
    note c = calculation_sound [OF payouts_okD(2) [OF assms Some] _ r]
    have "di_allocations d = []"
      using True payouts_okD(2) [OF assms Some] by (simp add: sound_distribution_def)
    moreover have "snd (calculate E did s) = put_distribution (d\<lparr>di_allocations := cr_allocations r, di_feeAmount := cr_feeAmount r,
           di_reserveAmount := cr_reserveAmount r, di_roundingRemainder := cr_roundingRemainder r, di_state := Dis_calculated\<rparr>) s"
      using Some True r by (simp add: calculate_def get_distribution_def Let_def)
    ultimately show ?thesis
      using put_ok_same_calls [OF assms Some _ c(1)] c(2) True payouts_okD(1) [OF assms Some]
      by (simp add: paid_allocations_pending)
  qed
qed

lemma approve_ok:
  assumes "payouts_ok ids s"
  shows "payouts_ok ids (snd (approve E did a c s))"
proof (cases "\<exists>d. po_store s did = Some d \<and> di_state d = Dis_calculated \<and> \<not> (truthy c \<and> c = Some a)")
  case False
  then show ?thesis
    using assms by (auto simp: approve_def get_distribution_def split: option.splits)
next
  case True
  then obtain d where d: "po_store s did = Some d" "di_state d = Dis_calculated" "\<not> (truthy c \<and> c = Some a)" by blast
  have "sound_distribution (d\<lparr>di_state := Dis_approved, di_approvedBy := Some a, di_approvedAt := Some (pe_now E)\<rparr>)"
    using payouts_okD(2) [OF assms d(1)] d(2) by (simp add: sound_distribution_def)
  then show ?thesis
    using put_ok_same_calls [OF assms d(1)] payouts_okD(1) [OF assms d(1)] d
    by (auto simp: approve_def get_distribution_def Let_def)
qed

lemma execute_cases:
  obtains (unchanged) "snd (execute E did s) = s"
  | (paid) d outs calls where "po_store s did = Some d" "di_state d \<in> {Dis_approved, Dis_processing, Dis_calculated}"
      "post_all E did (di_allocations d) (po_calls s) = (outs, calls)"
      "di_id d = did \<Longrightarrow> execute E did s =
        (let as = map2 take_answer outs (di_allocations d);
             d' = d\<lparr>di_allocations := as, di_state := (if any_failed as then Dis_partially_failed else Dis_paid),
                    di_executedAt := Some (pe_now E)\<rparr>
         in (Inr d', (put_distribution d' s)\<lparr>po_calls := calls\<rparr>))"
proof (cases "\<exists>d. po_store s did = Some d \<and> di_state d \<in> {Dis_approved, Dis_processing, Dis_calculated}")
  case False
  then have "snd (execute E did s) = s"
    by (auto simp: execute_def execute_start_def get_distribution_def split: option.splits)
  then show thesis by (rule unchanged)
next
  case True
  then obtain d where d: "po_store s did = Some d" "di_state d \<in> {Dis_approved, Dis_processing, Dis_calculated}" by blast
  obtain outs calls where p: "post_all E did (di_allocations d) (po_calls s) = (outs, calls)" by fastforce
  show thesis
  proof (rule paid [OF d p])
    assume "di_id d = did"
    with d p show "execute E did s =
        (let as = map2 take_answer outs (di_allocations d);
             d' = d\<lparr>di_allocations := as, di_state := (if any_failed as then Dis_partially_failed else Dis_paid),
                    di_executedAt := Some (pe_now E)\<rparr>
         in (Inr d', (put_distribution d' s)\<lparr>po_calls := calls\<rparr>))"
      by (auto simp: execute_def execute_start_def execute_finish_def get_distribution_def Let_def put_distribution_def)
  qed
qed

lemma execute_ok:
  assumes "payouts_ok ids s"
  shows "payouts_ok ids (snd (execute E did s))"
proof (cases rule: execute_cases [of E did s])
  case unchanged
  with assms show ?thesis by simp
next
  case (paid d outs calls)
  let ?as = "map2 take_answer outs (di_allocations d)"
  let ?d = "d\<lparr>di_allocations := ?as, di_state := (if any_failed ?as then Dis_partially_failed else Dis_paid),
              di_executedAt := Some (pe_now E)\<rparr>"
  note d = payouts_okD [OF assms paid(1)]
  obtain new where new: "calls = po_calls s @ new" "list_all (\<lambda>c. pc_distribution c = did) new"
    using post_all_extends [OF paid(3)] by blast
  have len: "length outs = length (di_allocations d)" using paid(3) by (rule post_all_length)
  have "sound_distribution ?d"
    using d(2) paid(2) map2_take_answer [OF len] by (auto simp: sound_distribution_def)
  moreover have "paid_calls P did new = paid_allocations P ?as - paid_allocations P (di_allocations d)" for P
    using post_all_paid [OF paid(3), of P] by (simp add: new(1))
  ultimately have "payouts_ok ids ((put_distribution ?d s)\<lparr>po_calls := po_calls s @ new\<rparr>)"
    using put_ok [OF assms paid(1) _ _ new(2), of ?d] d(1) by simp
  then show ?thesis using paid(4) d(1) by (simp add: Let_def new(1))
qed

lemma retry_cases:
  obtains (unchanged) "snd (retryRecipient E did i s) = s"
  | (called) d a r f st where "po_store s did = Some d" "find_one (\<lambda>a. al_investorId a = i) (di_allocations d) = Some a"
      "al_status a \<noteq> Al_paid" "r = pe_post E (length (po_calls s)) (al_investorId a) (al_amount a)"
      "\<And>b. al_investorId (f b) = al_investorId b" "\<And>b. al_amount (f b) = al_amount b"
      "\<And>b. al_status (f b) = Al_paid \<longleftrightarrow> succeeded r"
      "st \<in> {di_state d, Dis_paid, Dis_partially_failed}"
      "di_id d = did \<Longrightarrow> snd (retryRecipient E did i s) =
        (put_distribution (d\<lparr>di_allocations := update_one (\<lambda>a. al_investorId a = i) f (di_allocations d), di_state := st\<rparr>) s)
          \<lparr>po_calls := po_calls s @ [\<lparr> pc_distribution = did, pc_investorId = al_investorId a, pc_amount = al_amount a, pc_outcome = r \<rparr>]\<rparr>"
proof (cases "\<exists>d a. po_store s did = Some d \<and> find_one (\<lambda>a. al_investorId a = i) (di_allocations d) = Some a \<and> al_status a \<noteq> Al_paid")
  case False
  then have "snd (retryRecipient E did i s) = s"
    by (auto simp: retryRecipient_def get_distribution_def split: option.splits)
  then show thesis by (rule unchanged)
next
  case True
  then obtain d a where d: "po_store s did = Some d" "find_one (\<lambda>a. al_investorId a = i) (di_allocations d) = Some a" "al_status a \<noteq> Al_paid"
    by blast
  let ?r = "pe_post E (length (po_calls s)) (al_investorId a) (al_amount a)"
  have g: "get_distribution did s = Inr d" using d(1) by simp
  show thesis
  proof (cases ?r)
    case (Outcome ok tx err)
    let ?f = "\<lambda>b. take_outcome ?r (set_pending b)"
    let ?as = "update_one (\<lambda>a. al_investorId a = i) ?f (di_allocations d)"
    show thesis
      by (rule called [OF d refl, where f = ?f and st = "if list_all (\<lambda>a. al_status a = Al_paid) ?as then Dis_paid
            else if any_failed ?as then Dis_partially_failed else di_state d"])
         (use d(2,3) Outcome in \<open>auto simp: retryRecipient_def g Let_def put_distribution_def\<close>)
  next
    case (Outcome_throws m)
    show thesis
      by (rule called [OF d refl, where f = set_pending and st = "di_state d"])
         (use d(2,3) Outcome_throws in \<open>auto simp: retryRecipient_def g Let_def put_distribution_def\<close>)
  qed
qed

lemma retry_ok:
  assumes "payouts_ok ids s"
  shows "payouts_ok ids (snd (retryRecipient E did i s))"
proof (cases rule: retry_cases [of E did i s])
  case unchanged
  with assms show ?thesis by simp
next
  case (called d a r f st)
  let ?as = "update_one (\<lambda>a. al_investorId a = i) f (di_allocations d)"
  let ?c = "\<lparr> pc_distribution = did, pc_investorId = al_investorId a, pc_amount = al_amount a, pc_outcome = r \<rparr>"
  note d = payouts_okD [OF assms called(1)]
  have nd: "di_state d \<noteq> Dis_draft"
    using d(2) called(2) by (auto simp: sound_distribution_def)
  have "sound_distribution (d\<lparr>di_allocations := ?as, di_state := st\<rparr>)"
    using d(2) nd called(5,6,8) by (auto simp: sound_distribution_def update_one_keys)
  moreover have "paid_calls P did [?c] = paid_allocations P ?as - paid_allocations P (di_allocations d)" for P
    using paid_allocations_update_one [OF called(2,3), of f P] called(5-7)
    by (auto simp: paid_calls_single)
  ultimately have "payouts_ok ids ((put_distribution (d\<lparr>di_allocations := ?as, di_state := st\<rparr>) s)\<lparr>po_calls := po_calls s @ [?c]\<rparr>)"
    using put_ok [OF assms called(1), of "d\<lparr>di_allocations := ?as, di_state := st\<rparr>" "[?c]"] d(1) by simp
  then show ?thesis using called(9) d(1) by simp
qed

lemma payout_step_ok:
  assumes "payouts_ok ids s" and "inj ids" and "irreversible ids i"
  shows "payouts_ok ids (snd (payout_step i s))"
  using assms(3) createDraft_ok [OF assms(1,2)] calculate_ok [OF assms(1)] approve_ok [OF assms(1)]
    execute_ok [OF assms(1)] retry_ok [OF assms(1)]
  by (cases "(ids, i)" rule: irreversible.cases) auto

definition empty_payouts :: payout_db where
  "empty_payouts = \<lparr> po_store = Map.empty, po_next = 0, po_calls = [] \<rparr>"

lemma run_payouts_ok:
  assumes "inj ids" and "list_all (irreversible ids) ops"
  shows "payouts_ok ids (run_seq payout_step ops empty_payouts)"
proof (rule run_seq_invariant)
  show "payouts_ok ids (snd (payout_step i s))" if "i \<in> set ops" and "payouts_ok ids s" for i s
    using that assms by (auto intro: payout_step_ok simp: list_all_iff)
  show "payouts_ok ids empty_payouts" by (simp add: payouts_ok_def empty_payouts_def)
qed

lemma paid_allocations_le:
  "list_all (\<lambda>x. 0 \<le> x) (map al_amount as) \<Longrightarrow> paid_allocations P as \<le> sum_list (map al_amount as)"
  by (induction as) (auto simp: paid_allocations_Cons)

lemma paid_allocations_one:
  assumes "distinct (map al_investorId as)" and "a \<in> set as"
  shows "paid_allocations (\<lambda>i. i = al_investorId a) as = (if al_status a = Al_paid then al_amount a else 0)"
proof -
  have "filter (\<lambda>b. al_status b = Al_paid \<and> al_investorId b = al_investorId a) as = (if al_status a = Al_paid then [a] else [])"
    using assms by (induction as) (auto simp: filter_empty_conv image_iff)
  then show ?thesis by (simp add: paid_allocations_def)
qed

subsection \<open>Nobody is paid twice\<close>

text \<open>
  C23. Whatever operations run one after another without a reversal (drafts, calculations,
  approvals, executions, retries, with a provider that answers as it likes), the successful
  payments made to an investor for a distribution add up to the allocation when it is marked
  paid and to nothing otherwise, and all of them together never exceed what is left of the
  distribution after fee and reserve.
\<close>
theorem payout_once:
  assumes "inj ids" and "list_all (irreversible ids) ops"
    and "po_store (run_seq payout_step ops empty_payouts) did = Some d"
  shows "list_all (\<lambda>a. paid_calls (\<lambda>i. i = al_investorId a) did (po_calls (run_seq payout_step ops empty_payouts))
                      = (if al_status a = Al_paid then al_amount a else 0)) (di_allocations d)
    \<and> (di_state d \<noteq> Dis_draft \<longrightarrow>
         paid_calls (\<lambda>_. True) did (po_calls (run_seq payout_step ops empty_payouts))
           \<le> di_distributableAmount d - di_feeAmount d - di_reserveAmount d)"
proof -
  let ?s = "run_seq payout_step ops empty_payouts"
  note ok = run_payouts_ok [OF assms(1,2)]
  note d = payouts_okD [OF ok assms(3)]
  have "distinct (map al_investorId (di_allocations d))"
    using d(2) by (cases "di_state d = Dis_draft") (auto simp: sound_distribution_def valid_snapshot_def)
  then have "list_all (\<lambda>a. paid_calls (\<lambda>i. i = al_investorId a) did (po_calls ?s)
      = (if al_status a = Al_paid then al_amount a else 0)) (di_allocations d)"
    using d(3) by (simp add: list_all_iff paid_allocations_one)
  moreover have "paid_calls (\<lambda>_. True) did (po_calls ?s) \<le> di_distributableAmount d - di_feeAmount d - di_reserveAmount d"
    if "di_state d \<noteq> Dis_draft"
  proof -
    have "paid_calls (\<lambda>_. True) did (po_calls ?s) \<le> sum_list (map al_amount (di_allocations d))"
      using d(2) that by (simp add: d(3) sound_distribution_def paid_allocations_le)
    with d(2) that show ?thesis by (simp add: sound_distribution_def)
  qed
  ultimately show ?thesis by blast
qed

definition demo_payout_env :: payout_env where
  "demo_payout_env = \<lparr> pe_now = 0, pe_new_id = (\<lambda>n. replicate n (CHR ''d'')), pe_collate = (\<lambda>_ _. 0),
     pe_post = (\<lambda>n i x. Outcome (n \<noteq> 1) None None) \<rparr>"

definition demo_draft :: draft_options where
  "demo_draft = \<lparr> dr_poolId = ''p'', dr_snapshot = demo_snapshot, dr_distributableAmount = 101,
     dr_feeBps = Some 100, dr_reserveBps = None, dr_createdBy = ''admin'' \<rparr>"

definition demo_payout_ops :: "(payout_env \<times> payout_op) list" where
  "demo_payout_ops = map (Pair demo_payout_env)
     [Create_draft demo_draft, Calculate [], Execute [], Retry [] ''b'']"

lemma demo_payout_run:
  "map_option di_state (po_store (run_seq payout_step demo_payout_ops empty_payouts) []) = Some Dis_paid"
  by code_simp

lemma demo_payout_ids: "inj (\<lambda>n. replicate n (CHR ''d''))"
  by (rule injI) (metis length_replicate)

lemma payout_once_witness:
  "\<exists>d. po_store (run_seq payout_step demo_payout_ops empty_payouts) [] = Some d \<and> di_state d = Dis_paid
     \<and> paid_calls (\<lambda>_. True) [] (po_calls (run_seq payout_step demo_payout_ops empty_payouts))
         \<le> di_distributableAmount d - di_feeAmount d - di_reserveAmount d"
proof -
  obtain d where d: "po_store (run_seq payout_step demo_payout_ops empty_payouts) [] = Some d" "di_state d = Dis_paid"
    using demo_payout_run by auto
  have "list_all (irreversible (\<lambda>n. replicate n (CHR ''d''))) demo_payout_ops"
    by (simp add: demo_payout_ops_def demo_payout_env_def good_draft_def demo_draft_def demo_snapshot_def whole_def)
  then show ?thesis using payout_once [OF demo_payout_ids _ d(1)] d by auto
qed

subsection \<open>What the service does not guard against\<close>

text \<open>Two overlapping executions of one distribution both start every payment.\<close>

definition overlapping_payouts :: payout_db where
  "overlapping_payouts =
     (let E = demo_payout_env\<lparr>pe_post := (\<lambda>_ _ _. Outcome True None None)\<rparr>;
          s = run_seq payout_step [(E, Create_draft demo_draft), (E, Calculate [])] empty_payouts;
          s1 = snd (execute_start E [] s); s2 = snd (execute_start E [] s1)
      in s2)"

lemma overlapping_executions_pay_twice:
  "paid_calls (\<lambda>_. True) [] (po_calls overlapping_payouts) = 200"
  by code_simp

text \<open>
  A retry looks at nothing but the status of the allocation: after a reversal it pays the held
  allocations again and ends with a paid distribution.
\<close>

definition reversed_payouts :: payout_db where
  "reversed_payouts =
     (let E = demo_payout_env\<lparr>pe_post := (\<lambda>_ _ _. Outcome True None None)\<rparr>
      in run_seq payout_step
          (map (Pair E) [Create_draft demo_draft, Calculate [], Execute [], Reverse_distribution [],
             Retry [] ''a'', Retry [] ''b'', Retry [] ''c'']) empty_payouts)"

lemma retry_after_reversal_pays_again:
  "paid_calls (\<lambda>_. True) [] (po_calls reversed_payouts) = 200
   \<and> map_option di_state (po_store reversed_payouts []) = Some Dis_paid"
  by code_simp

end
