(* ===== verification/Json_Text.thy ===== *)
theory Json_Text
  imports Platform "HOL-Library.List_Lexorder" "HOL-Library.Char_ord"
begin

text \<open>
  JSON values with their canonical text, as \<open>lib/consent/financial-consent.ts\<close> and
  \<open>lib/security/audit-hash.ts\<close> hash them: keys are sorted at every depth and the value is printed
  by \<open>JSON.stringify\<close>.  The decimal text of a number is an argument.  Keys that look like array
  indices, which JavaScript moves to the front of an object, do not occur.

  The main fact is that the text determines the value (\<open>json_text_inj\<close>), so that a digest of the
  text binds every field.
\<close>

subsection \<open>Canonical JSON\<close>

datatype json =
  J_null | J_bool bool | J_number rat | J_string string | J_date time
| J_array "json list" | J_object "(string \<times> json) list"

text \<open>\<open>sortForCanonicalJson\<close>: dates become their text, object keys are sorted, at every depth.\<close>

fun sort_json :: "(time \<Rightarrow> string) \<Rightarrow> json \<Rightarrow> json" where
  "sort_json iso_text (J_date t) = J_string (iso_text t)"
| "sort_json iso_text (J_array xs) = J_array (map (sort_json iso_text) xs)"
| "sort_json iso_text (J_object kvs) =
     J_object (sort_key fst (map (\<lambda>kv. (fst kv, sort_json iso_text (snd kv))) kvs))"
| "sort_json iso_text j = j"

text \<open>\<open>JSON.stringify\<close> of such a value, in which no date is left.\<close>

definition hex_digit :: "nat \<Rightarrow> char" where
  "hex_digit n = (if n < 10 then char_of (48 + n) else char_of (87 + n))"

definition json_char :: "char \<Rightarrow> string" where
  "json_char c =
     (let n = of_char c :: nat in
      if n = 34 then [CHR 0x5C, CHR 0x22] else if n = 92 then [CHR 0x5C, CHR 0x5C]
      else if n = 8 then [CHR 0x5C, CHR ''b''] else if n = 9 then [CHR 0x5C, CHR ''t'']
      else if n = 10 then [CHR 0x5C, CHR ''n''] else if n = 12 then [CHR 0x5C, CHR ''f'']
      else if n = 13 then [CHR 0x5C, CHR ''r'']
      else if n < 32 then [CHR 0x5C, CHR ''u'', CHR ''0'', CHR ''0'', hex_digit (n div 16), hex_digit (n mod 16)]
      else [c])"

definition json_quote :: "string \<Rightarrow> string" where
  "json_quote s = [CHR 0x22] @ concat (map json_char s) @ [CHR 0x22]"

fun join_with :: "string \<Rightarrow> string list \<Rightarrow> string" where
  "join_with sep [] = []"
| "join_with sep [x] = x"
| "join_with sep (x # y # ys) = x @ sep @ join_with sep (y # ys)"

fun json_text :: "(rat \<Rightarrow> string) \<Rightarrow> json \<Rightarrow> string" where
  "json_text num J_null = ''null''"
| "json_text num (J_bool b) = (if b then ''true'' else ''false'')"
| "json_text num (J_number x) = num x"
| "json_text num (J_string s) = json_quote s"
| "json_text num (J_date t) = ''null''"
| "json_text num (J_array xs) = ''['' @ join_with '','' (map (json_text num) xs) @ '']''"
| "json_text num (J_object kvs) =
     ''{'' @ join_with '','' (map (\<lambda>kv. json_quote (fst kv) @ '':'' @ json_text num (snd kv)) kvs) @ ''}''"

subsection \<open>The text determines the value\<close>

fun dateless :: "json \<Rightarrow> bool" where
  "dateless (J_date t) = False"
| "dateless (J_array xs) = list_all dateless xs"
| "dateless (J_object kvs) = list_all (\<lambda>kv. dateless (snd kv)) kvs"
| "dateless j = True"

definition number_char :: "char \<Rightarrow> bool" where
  "number_char c \<longleftrightarrow> c \<in> set ''0123456789+-.e''"

definition num_ok :: "(rat \<Rightarrow> string) \<Rightarrow> bool" where
  "num_ok num \<longleftrightarrow> inj num \<and> (\<forall>x. num x \<noteq> [] \<and> list_all number_char (num x))"

abbreviation stopper :: "char \<Rightarrow> bool" where
  "stopper c \<equiv> c \<in> {CHR '','', CHR '']'', CHR ''}''}"

definition stops :: "string \<Rightarrow> bool" where
  "stops r \<longleftrightarrow> (case r of [] \<Rightarrow> True | c # _ \<Rightarrow> stopper c)"

lemma stops_simps [simp]: "stops []" "stops (c # r) = stopper c"
  by (simp_all add: stops_def)

text \<open>Reading back one character of a quoted string.\<close>

definition hex_value :: "char \<Rightarrow> nat" where
  "hex_value c = (let n = of_char c in if n < 58 then n - 48 else n - 87)"

definition unescape :: "char \<Rightarrow> char" where
  "unescape c = (if c = CHR ''b'' then char_of (8::nat) else if c = CHR ''t'' then char_of (9::nat) else if c = CHR ''n'' then char_of (10::nat)
     else if c = CHR ''f'' then char_of (12::nat) else if c = CHR ''r'' then char_of (13::nat) else c)"

fun read_char :: "string \<Rightarrow> char \<times> string" where
  "read_char (a # b # r) =
     (if a = CHR 0x5C then
        (if b = CHR ''u'' then (char_of (16 * hex_value (r ! 2) + hex_value (r ! 3)), drop 4 r) else (unescape b, r))
      else (a, b # r))"
| "read_char (a # r) = (a, r)"
| "read_char [] = (CHR ''0'', [])"

lemma hex_value_digit: "n < 16 \<Longrightarrow> hex_value (hex_digit n) = n"
  by (simp add: hex_value_def hex_digit_def)

lemma read_char_json: "read_char (json_char c @ r) = (c, r)"
proof -
  obtain n :: nat where c: "c = char_of n" and n: "n < 256" "of_char c = n"
    by (rule that [of "of_char c"]) simp_all
  show ?thesis
  proof (cases "n \<in> {34, 92, 8, 9, 10, 12, 13}")
    case True
    have "char_of (34::nat) = CHR 0x22" "char_of (92::nat) = CHR 0x5C" by code_simp+
    with True show ?thesis using n(2) by (auto simp: json_char_def c unescape_def)
  next
    case False
    show ?thesis
    proof (cases "n < 32")
      case True
      with False n(2) have "json_char c = [CHR 0x5C, CHR ''u'', CHR ''0'', CHR ''0'', hex_digit (n div 16), hex_digit (n mod 16)]"
        by (simp add: json_char_def)
      moreover have "char_of (16 * (n div 16) + n mod 16) = c" by (simp add: c)
      ultimately show ?thesis using True by (simp add: hex_value_digit)
    next
      case False
      with \<open>n \<notin> _\<close> n(2) have "json_char c = [c]" by (simp add: json_char_def)
      moreover have "c \<noteq> CHR 0x5C" using n(2) \<open>n \<notin> _\<close> by auto
      ultimately show ?thesis by (cases r) auto
    qed
  qed
qed

lemma json_char_inj: "json_char c @ r = json_char d @ r' \<Longrightarrow> c = d \<and> r = r'"
  by (metis read_char_json prod.inject)

lemma json_char_hd: "\<exists>a r. json_char c = a # r \<and> a \<noteq> CHR 0x22"
  by (auto simp: json_char_def Let_def)

lemma json_chars_inj:
  "concat (map json_char s) @ CHR 0x22 # r = concat (map json_char t) @ CHR 0x22 # r' \<Longrightarrow> s = t \<and> r = r'"
proof (induction s arbitrary: t)
  case Nil
  show ?case
  proof (cases t)
    case (Cons d t')
    with Nil json_char_hd [of d] show ?thesis by auto
  qed (use Nil in simp)
next
  case (Cons c s)
  show ?case
  proof (cases t)
    case Nil
    with Cons.prems json_char_hd [of c] show ?thesis by auto
  next
    case t: (Cons d t')
    with Cons.prems have "c = d \<and> concat (map json_char s) @ CHR 0x22 # r = concat (map json_char t') @ CHR 0x22 # r'"
      by (intro json_char_inj) simp
    with Cons.IH t show ?thesis by blast
  qed
qed

lemma json_quote_inj: "json_quote s @ r = json_quote t @ r' \<Longrightarrow> s = t \<and> r = r'"
  by (rule json_chars_inj) (simp add: json_quote_def)

text \<open>Numbers end where their characters end.\<close>

lemma number_prefix:
  "list_all number_char a \<Longrightarrow> list_all number_char b \<Longrightarrow> stops r \<Longrightarrow> stops r' \<Longrightarrow> a @ r = b @ r' \<Longrightarrow> a = b \<and> r = r'"
proof (induction a arbitrary: b)
  case Nil
  then show ?case by (cases b) (auto simp: number_char_def stops_def)
next
  case (Cons x a)
  show ?case
  proof (cases b)
    case Nil
    with Cons.prems show ?thesis by (auto simp: number_char_def stops_def)
  next
    case (Cons y b')
    with Cons.prems Cons.IH [of b'] show ?thesis by simp
  qed
qed

text \<open>Lists of items between brackets.\<close>

definition tail_text :: "('a \<Rightarrow> string) \<Rightarrow> 'a list \<Rightarrow> string" where
  "tail_text t xs = concat (map (\<lambda>x. CHR '','' # t x) xs)"

lemma join_with_Cons: "join_with '','' (map t (x # xs)) = t x @ tail_text t xs"
  by (induction xs arbitrary: x) (auto simp: tail_text_def)

definition item_inj :: "('a \<Rightarrow> string) \<Rightarrow> ('a \<Rightarrow> bool) \<Rightarrow> 'a \<Rightarrow> bool" where
  "item_inj t P x \<longleftrightarrow> (\<forall>y r r'. P y \<longrightarrow> stops r \<longrightarrow> stops r' \<longrightarrow> t x @ r = t y @ r' \<longrightarrow> x = y \<and> r = r')"

lemma item_injD: "item_inj t P x \<Longrightarrow> P y \<Longrightarrow> stops r \<Longrightarrow> stops r' \<Longrightarrow> t x @ r = t y @ r' \<Longrightarrow> x = y \<and> r = r'"
  by (auto simp: item_inj_def)

lemma tail_text_simps [simp]: "tail_text t [] = []" "tail_text t (x # xs) = CHR '','' # t x @ tail_text t xs"
  by (simp_all add: tail_text_def)

lemma stops_tail: "stopper c \<Longrightarrow> stops (tail_text t xs @ c # r)"
  by (cases xs) auto

lemma tail_inj:
  assumes "c \<in> {CHR '']'', CHR ''}''}"
  shows "list_all (item_inj t P) xs \<Longrightarrow> list_all P ys \<Longrightarrow> tail_text t xs @ c # r = tail_text t ys @ c # r' \<Longrightarrow> xs = ys \<and> r = r'"
proof (induction xs arbitrary: ys)
  case Nil
  with assms show ?case by (cases ys) auto
next
  case (Cons x xs)
  show ?case
  proof (cases ys)
    case Nil
    with Cons.prems assms show ?thesis by auto
  next
    case (Cons y ys')
    have "x = y \<and> tail_text t xs @ c # r = tail_text t ys' @ c # r'"
      by (rule item_injD [where t = t and P = P]) (use Cons.prems Cons assms in \<open>auto intro: stops_tail\<close>)
    with Cons.IH [of ys'] Cons.prems Cons show ?thesis by simp
  qed
qed

lemma items_inj:
  assumes "c \<in> {CHR '']'', CHR ''}''}" and "list_all (item_inj t P) xs" and "list_all P ys"
    and "\<And>x. \<exists>a q. t x = a # q \<and> \<not> stopper a"
    and "join_with '','' (map t xs) @ c # r = join_with '','' (map t ys) @ c # r'"
  shows "xs = ys \<and> r = r'"
proof (cases xs)
  case Nil
  show ?thesis
  proof (cases ys)
    case (Cons y ys')
    obtain a q where "t y = a # q" "\<not> stopper a" using assms(4) by blast
    with Nil Cons assms(1,5) show ?thesis by (auto simp del: list.map(2) simp: join_with_Cons)
  qed (use Nil assms in simp)
next
  case (Cons x xs')
  show ?thesis
  proof (cases ys)
    case Nil
    obtain a q where "t x = a # q" "\<not> stopper a" using assms(4) by blast
    with Cons Nil assms(1,5) show ?thesis by (auto simp del: list.map(2) simp: join_with_Cons)
  next
    case ys: (Cons y ys')
    have "x = y \<and> tail_text t xs' @ c # r = tail_text t ys' @ c # r'"
      by (rule item_injD [where t = t and P = P])
         (use Cons ys assms in \<open>auto intro: stops_tail simp: join_with_Cons simp del: list.map(2)\<close>)
    with tail_inj [OF assms(1), of t P xs' ys' r r'] Cons ys assms(2,3) show ?thesis by simp
  qed
qed

text \<open>The kind of a value shows in its first character.\<close>

fun json_head :: "json \<Rightarrow> char \<Rightarrow> bool" where
  "json_head J_null c = (c = CHR ''n'')"
| "json_head (J_bool b) c = (c = (if b then CHR ''t'' else CHR ''f''))"
| "json_head (J_number x) c = number_char c"
| "json_head (J_string s) c = (c = CHR 0x22)"
| "json_head (J_date t) c = (c = CHR ''n'')"
| "json_head (J_array xs) c = (c = CHR ''['')"
| "json_head (J_object kvs) c = (c = CHR ''{'')"

lemma json_text_head:
  assumes "num_ok num"
  shows "\<exists>a q. json_text num j = a # q \<and> json_head j a \<and> \<not> stopper a"
proof (cases j)
  case (J_number x)
  have "list_all number_char (num x)" "num x \<noteq> []" using assms by (auto simp: num_ok_def)
  with J_number show ?thesis by (cases "num x") (auto simp: number_char_def)
qed (auto simp: json_quote_def)

lemma json_heads_agree:
  assumes "num_ok num" and "json_text num j @ r = json_text num j' @ r'"
  shows "\<exists>a. json_head j a \<and> json_head j' a"
  using json_text_head [OF assms(1), of j] json_text_head [OF assms(1), of j'] assms(2) by fastforce

lemma number_char_simps [simp]:
  "\<not> number_char CHR ''n''" "\<not> number_char CHR ''t''" "\<not> number_char CHR ''f''" "\<not> number_char CHR 0x22"
  "\<not> number_char CHR ''[''" "\<not> number_char CHR ''{''"
  by (simp_all add: number_char_def)

definition pair_text :: "(rat \<Rightarrow> string) \<Rightarrow> string \<times> json \<Rightarrow> string" where
  "pair_text num kv = json_quote (fst kv) @ '':'' @ json_text num (snd kv)"

lemma json_text_inj:
  assumes num: "num_ok num"
  shows "dateless j \<Longrightarrow> dateless j' \<Longrightarrow> stops r \<Longrightarrow> stops r' \<Longrightarrow> json_text num j @ r = json_text num j' @ r' \<Longrightarrow> j = j' \<and> r = r'"
proof (induction j arbitrary: j' r r')
  case (J_array xs)
  obtain ys where j': "j' = J_array ys"
    using json_heads_agree [OF num J_array.prems(5)] J_array.prems(2) by (cases j') (auto split: if_splits)
  have "list_all (item_inj (json_text num) dateless) xs"
    unfolding list_all_iff item_inj_def using J_array.IH J_array.prems(1) by (auto simp: list_all_iff)
  moreover have "\<exists>a q. json_text num x = a # q \<and> \<not> stopper a" for x using json_text_head [OF num, of x] by blast
  ultimately have "xs = ys \<and> r = r'"
    using J_array.prems j' by (intro items_inj [where c = "CHR '']''" and t = "json_text num" and P = dateless]) auto
  with j' show ?case by simp
next
  case (J_object kvs)
  obtain lws where j': "j' = J_object lws"
    using json_heads_agree [OF num J_object.prems(5)] J_object.prems(2) by (cases j') (auto split: if_splits)
  have "item_inj (pair_text num) (\<lambda>kv. dateless (snd kv)) kv" if kv: "kv \<in> set kvs" for kv
    unfolding item_inj_def
  proof (intro allI impI)
    fix lw q q' assume d: "dateless (snd lw)" "stops q" "stops q'" and eq: "pair_text num kv @ q = pair_text num lw @ q'"
    then have "fst kv = fst lw \<and> '':'' @ json_text num (snd kv) @ q = '':'' @ json_text num (snd lw) @ q'"
      by (intro json_quote_inj) (simp add: pair_text_def)
    moreover have "dateless (snd kv)" using J_object.prems(1) kv by (auto simp: list_all_iff)
    moreover have "snd kv \<in> Basic_BNFs.snds kv" by (simp add: snds.intros)
    ultimately show "kv = lw \<and> q = q'" using J_object.IH [OF kv, of "snd kv" "snd lw" q q'] d by (simp add: prod_eq_iff)
  qed
  then have "list_all (item_inj (pair_text num) (\<lambda>kv. dateless (snd kv))) kvs" by (simp add: list_all_iff)
  moreover have "\<exists>a q. pair_text num x = a # q \<and> \<not> stopper a" for x by (simp add: pair_text_def json_quote_def)
  ultimately have "kvs = lws \<and> r = r'"
    using J_object.prems j'
    by (intro items_inj [where c = "CHR ''}''" and t = "pair_text num" and P = "\<lambda>kv. dateless (snd kv)"]) (auto simp: pair_text_def [abs_def])
  with j' show ?case by simp
next
  case (J_number x)
  obtain y where j': "j' = J_number y"
    using json_heads_agree [OF num J_number.prems(5)] J_number.prems(2) by (cases j') (auto split: if_splits)
  have "num x = num y \<and> r = r'"
    by (rule number_prefix) (use num J_number.prems j' in \<open>auto simp: num_ok_def\<close>)
  with num j' show ?case by (auto simp: num_ok_def inj_def)
next
  case (J_string s)
  obtain t where j': "j' = J_string t"
    using json_heads_agree [OF num J_string.prems(5)] J_string.prems(2) by (cases j') (auto split: if_splits)
  with J_string.prems json_quote_inj [of s r t r'] show ?case by simp
next
  case J_null
  then show ?case using json_heads_agree [OF num J_null.prems(5)] by (cases j') (auto split: if_splits)
next
  case (J_bool b)
  then show ?case using json_heads_agree [OF num J_bool.prems(5)] by (cases j'; cases b) (auto split: if_splits)
qed simp

lemma json_text_eq:
  assumes "num_ok num" and "dateless j" and "dateless j'" and "json_text num j = json_text num j'"
  shows "j = j'"
  using json_text_inj [OF assms(1-3), of "[]" "[]"] assms(4) by simp

end
