(* ===== verification/Consent_Model.thy ===== *)
theory Consent_Model
  imports Js_Sort Json_Text
begin

text \<open>
  Consent to legal documents (\<open>lib/consent/financial-consent.ts\<close>): canonical JSON, the documents
  in force, challenges, acceptances and the check that guards an investment.

  SHA-256 is the argument \<open>cv_sha\<close>; the decimal text of a number and the ISO text of a date are
  \<open>cv_num\<close> and \<open>cv_iso\<close>; random identifiers and nonces are arguments too.
\<close>

subsection \<open>Documents\<close>

datatype legal_key = Risk_disclosure | Fee_schedule | Privacy_notice | Hire_purchase_terms | Investment_terms

fun legal_key_name :: "legal_key \<Rightarrow> string" where
  "legal_key_name Risk_disclosure = ''risk_disclosure''"
| "legal_key_name Fee_schedule = ''fee_schedule''"
| "legal_key_name Privacy_notice = ''privacy_notice''"
| "legal_key_name Hire_purchase_terms = ''hire_purchase_terms''"
| "legal_key_name Investment_terms = ''investment_terms''"

definition REQUIRED_INVESTMENT_DOCUMENTS :: "legal_key list" where
  "REQUIRED_INVESTMENT_DOCUMENTS = [Risk_disclosure, Fee_schedule, Privacy_notice, Investment_terms]"

definition REQUIRED_HIRE_PURCHASE_DOCUMENTS :: "legal_key list" where
  "REQUIRED_HIRE_PURCHASE_DOCUMENTS = [Risk_disclosure, Fee_schedule, Privacy_notice, Hire_purchase_terms]"

datatype legal_status = Legal_draft | Legal_published | Legal_retired

record legal_document =
  ld_id :: oid
  ld_key :: legal_key
  ld_version :: string
  ld_locale :: string
  ld_jurisdiction :: string
  ld_canonicalBytes :: string
  ld_sha256 :: string
  ld_status :: legal_status
  ld_effectiveFrom :: time
  ld_effectiveTo :: "time option"
  ld_createdAt :: time

datatype consent_role = Consent_driver | Consent_investor | Consent_admin

fun consent_role_name :: "consent_role \<Rightarrow> string" where
  "consent_role_name Consent_driver = ''driver''"
| "consent_role_name Consent_investor = ''investor''"
| "consent_role_name Consent_admin = ''admin''"

datatype intent_type = Intent_pool_investment | Intent_hire_purchase

fun intent_type_name :: "intent_type \<Rightarrow> string" where
  "intent_type_name Intent_pool_investment = ''pool_investment''"
| "intent_type_name Intent_hire_purchase = ''hire_purchase_contract''"

record consent_intent =
  ci_type :: intent_type
  ci_id :: string
  ci_terms :: json

record intent_summary =
  sm_type :: intent_type
  sm_id :: string
  sm_summaryHash :: string

datatype challenge_status = Challenge_open | Challenge_accepted | Challenge_expired

record consent_challenge =
  ch_id :: string
  ch_userId :: oid
  ch_role :: consent_role
  ch_locale :: string
  ch_jurisdiction :: string
  ch_documentVersionIds :: "oid list"
  ch_documentSetHash :: string
  ch_intent :: intent_summary
  ch_nonce :: string
  ch_challengeHash :: string
  ch_expiresAt :: time
  ch_status :: challenge_status
  ch_acceptedAt :: "time option"

record render_manifest =
  rm_renderer :: string
  rm_renderedAt :: "time option"
  rm_extra :: "(string \<times> json) list"

record consent_acceptance =
  ca_id :: string
  ca_challengeId :: string
  ca_userId :: oid
  ca_role :: consent_role
  ca_locale :: string
  ca_jurisdiction :: string
  ca_documentVersionIds :: "oid list"
  ca_documentSetHash :: string
  ca_intent :: intent_summary
  ca_consentHash :: string
  ca_renderManifest :: json
  ca_acceptedAt :: time
  ca_withdrawnAt :: "time option"
  ca_withdrawalReason :: "string option"
  ca_grandfathered :: bool

record consent_db =
  co_documents :: "legal_document list"
  co_challenges :: "consent_challenge list"
  co_acceptances :: "consent_acceptance list"

datatype consent_error = Consent_required string | Consent_rejected string | Consent_duplicate

record consent_env =
  cv_now :: time
  cv_valid_oid :: "string \<Rightarrow> bool"
  cv_sha :: "string \<Rightarrow> string"
  cv_num :: "rat \<Rightarrow> string"
  cv_iso :: "time \<Rightarrow> string"
  cv_collate :: "string \<Rightarrow> string \<Rightarrow> int"
  cv_uuid :: string
  cv_nonce :: string

end
