(* ===== verification/Consent_Service.thy ===== *)
theory Consent_Service
  imports Consent_Model
begin

text \<open>
  The operations of \<open>lib/consent/financial-consent.ts\<close>: opening a challenge, accepting it once,
  checking an acceptance against the terms and the documents in force, withdrawing it.
\<close>

subsection \<open>Digests\<close>

definition canonicalJson :: "consent_env \<Rightarrow> json \<Rightarrow> string" where
  "canonicalJson E j = json_text (cv_num E) (sort_json (cv_iso E) j)"

definition intentSummaryHash :: "consent_env \<Rightarrow> consent_intent \<Rightarrow> string" where
  "intentSummaryHash E i = cv_sha E (canonicalJson E (J_object
     [(''type'', J_string (intent_type_name (ci_type i))), (''id'', J_string (ci_id i)), (''terms'', ci_terms i)]))"

definition computeDocumentSetHash :: "consent_env \<Rightarrow> legal_document list \<Rightarrow> string" where
  "computeDocumentSetHash E docs = cv_sha E (canonicalJson E (J_array (map (\<lambda>d. J_object
     [(''id'', J_string (ld_id d)), (''key'', J_string (legal_key_name (ld_key d))),
      (''version'', J_string (ld_version d)), (''sha256'', J_string (ld_sha256 d))]) docs)))"

definition hashEvidenceValue :: "consent_env \<Rightarrow> string option \<Rightarrow> string option" where
  "hashEvidenceValue E v =
     (case v of None \<Rightarrow> None
      | Some x \<Rightarrow> (if js_trim x = [] then None else Some (cv_sha E (js_trim x))))"

definition to_upper_char :: "char \<Rightarrow> char" where
  "to_upper_char c = (let n = of_char c in if 97 \<le> n \<and> n \<le> (122::nat) then char_of (n - 32) else c)"

definition normalizeLocale :: "string \<Rightarrow> string" where
  "normalizeLocale l = (let t = js_lower (js_trim l) in if t = [] then ''en-ng'' else t)"

definition normalizeJurisdiction :: "string \<Rightarrow> string" where
  "normalizeJurisdiction j = (let t = map to_upper_char (js_trim j) in if t = [] then ''NG'' else t)"

definition assertObjectId :: "consent_env \<Rightarrow> string \<Rightarrow> string \<Rightarrow> consent_error + oid" where
  "assertObjectId E v field =
     (if cv_valid_oid E v then Inr v else Inl (Consent_rejected (''Invalid '' @ field @ ''.'')))"

subsection \<open>The documents in force\<close>

definition in_force :: "time \<Rightarrow> legal_document \<Rightarrow> bool" where
  "in_force t d \<longleftrightarrow> ld_status d = Legal_published \<and> ld_effectiveFrom d \<le> t
     \<and> (case ld_effectiveTo d of None \<Rightarrow> True | Some e \<Rightarrow> t < e)"

definition locale_candidates :: "string \<Rightarrow> string list" where
  "locale_candidates locale =
     (let n = normalizeLocale locale; h = hd (js_split (CHR ''-'') n); fallback = (if h = [] then ''en'' else h)
      in dedupe [n, fallback, ''en-ng'', ''en''])"

definition newest_first :: "legal_document \<Rightarrow> legal_document \<Rightarrow> rat" where
  "newest_first a b = of_int (if ld_effectiveFrom a \<noteq> ld_effectiveFrom b then ld_effectiveFrom b - ld_effectiveFrom a
                              else ld_createdAt b - ld_createdAt a)"

definition locale_rank :: "string list \<Rightarrow> legal_document \<Rightarrow> legal_document \<Rightarrow> rat" where
  "locale_rank ls a b =
     (let d = index_of (ld_locale a) ls - index_of (ld_locale b) ls
      in of_int (if d \<noteq> 0 then d else ld_effectiveFrom b - ld_effectiveFrom a))"

definition find_document ::
  "time \<Rightarrow> string list \<Rightarrow> string \<Rightarrow> legal_document list \<Rightarrow> legal_key \<Rightarrow> legal_document option" where
  "find_document t ls jurisdiction docs k =
     (let candidates = js_sort newest_first (filter (\<lambda>d. ld_key d = k \<and> ld_jurisdiction d = normalizeJurisdiction jurisdiction
            \<and> ld_locale d \<in> set ls \<and> in_force t d) docs)
      in case js_sort (locale_rank ls) candidates of [] \<Rightarrow> None | d # _ \<Rightarrow> Some d)"

fun match_documents ::
  "time \<Rightarrow> string list \<Rightarrow> string \<Rightarrow> legal_document list \<Rightarrow> legal_key list \<Rightarrow> consent_error + legal_document list" where
  "match_documents t ls j docs [] = Inr []"
| "match_documents t ls j docs (k # ks) =
     (case find_document t ls j docs k of
        None \<Rightarrow> Inl (Consent_required (''No published '' @ legal_key_name k @ '' document is available for this jurisdiction.''))
      | Some d \<Rightarrow> (case match_documents t ls j docs ks of Inl e \<Rightarrow> Inl e | Inr ds \<Rightarrow> Inr (d # ds)))"

definition resolveEffectiveDocuments ::
  "consent_env \<Rightarrow> legal_key list \<Rightarrow> string \<Rightarrow> string \<Rightarrow> time \<Rightarrow> legal_document list \<Rightarrow> consent_error + legal_document list" where
  "resolveEffectiveDocuments E keys locale jurisdiction t docs =
     (case match_documents t (locale_candidates locale) jurisdiction docs keys of
        Inl e \<Rightarrow> Inl e
      | Inr ds \<Rightarrow> Inr (js_sort (\<lambda>a b. of_int (cv_collate E (legal_key_name (ld_key a)) (legal_key_name (ld_key b)))) ds))"

subsection \<open>Challenges\<close>

record challenge_input =
  ic_userId :: string
  ic_role :: consent_role
  ic_locale :: string
  ic_jurisdiction :: string
  ic_requiredDocuments :: "legal_key list"
  ic_intent :: consent_intent
  ic_expiresInSeconds :: "int option"

definition challengeHashPayload ::
  "consent_env \<Rightarrow> string \<Rightarrow> string \<Rightarrow> consent_role \<Rightarrow> string \<Rightarrow> string \<Rightarrow> string \<Rightarrow> consent_intent \<Rightarrow> string \<Rightarrow> string \<Rightarrow> time \<Rightarrow> string" where
  "challengeHashPayload E cid uid role locale jurisdiction setHash i summaryHash nonce expiresAt =
     cv_sha E (canonicalJson E (J_object
       [(''challengeId'', J_string cid), (''userId'', J_string uid), (''role'', J_string (consent_role_name role)),
        (''locale'', J_string locale), (''jurisdiction'', J_string jurisdiction), (''documentSetHash'', J_string setHash),
        (''intentType'', J_string (intent_type_name (ci_type i))), (''intentId'', J_string (ci_id i)),
        (''intentSummaryHash'', J_string summaryHash), (''nonce'', J_string nonce), (''expiresAt'', J_string (cv_iso E expiresAt))]))"

definition createConsentChallenge ::
  "consent_env \<Rightarrow> challenge_input \<Rightarrow> consent_db \<Rightarrow> (consent_error + consent_challenge) \<times> consent_db" where
  "createConsentChallenge E inp s =
     (case assertObjectId E (ic_userId inp) ''user id'' of Inl e \<Rightarrow> (Inl e, s) | Inr uid \<Rightarrow>
       (let locale = normalizeLocale (ic_locale inp); jurisdiction = normalizeJurisdiction (ic_jurisdiction inp) in
        case resolveEffectiveDocuments E (ic_requiredDocuments inp) locale jurisdiction (cv_now E) (co_documents s) of
          Inl e \<Rightarrow> (Inl e, s)
        | Inr docs \<Rightarrow>
          (let setHash = computeDocumentSetHash E docs;
               cid = ''consent_chal_'' @ cv_uuid E;
               expiresAt = cv_now E + (case ic_expiresInSeconds inp of None \<Rightarrow> 900 | Some n \<Rightarrow> if n = 0 then 900 else n) * 1000;
               summaryHash = intentSummaryHash E (ic_intent inp);
               ch = \<lparr> ch_id = cid, ch_userId = uid, ch_role = ic_role inp, ch_locale = locale, ch_jurisdiction = jurisdiction,
                      ch_documentVersionIds = map ld_id docs, ch_documentSetHash = setHash,
                      ch_intent = \<lparr> sm_type = ci_type (ic_intent inp), sm_id = ci_id (ic_intent inp), sm_summaryHash = summaryHash \<rparr>,
                      ch_nonce = cv_nonce E,
                      ch_challengeHash = challengeHashPayload E cid (ic_userId inp) (ic_role inp) locale jurisdiction setHash
                        (ic_intent inp) summaryHash (cv_nonce E) expiresAt,
                      ch_expiresAt = expiresAt, ch_status = Challenge_open, ch_acceptedAt = None \<rparr>
           in if cid \<in> ch_id ` set (co_challenges s) then (Inl Consent_duplicate, s)
              else (Inr ch, s\<lparr>co_challenges := co_challenges s @ [ch]\<rparr>))))"

subsection \<open>Acceptance\<close>

record accept_input =
  ia_challengeId :: string
  ia_userId :: string
  ia_role :: consent_role
  ia_intent :: consent_intent
  ia_renderManifest :: render_manifest

definition acceptable :: "consent_env \<Rightarrow> accept_input \<Rightarrow> oid \<Rightarrow> consent_challenge \<Rightarrow> bool" where
  "acceptable E inp uid ch \<longleftrightarrow> ch_id ch = ia_challengeId inp \<and> ch_userId ch = uid \<and> ch_role ch = ia_role inp
     \<and> sm_type (ch_intent ch) = ci_type (ia_intent inp) \<and> sm_id (ch_intent ch) = ci_id (ia_intent inp)
     \<and> sm_summaryHash (ch_intent ch) = intentSummaryHash E (ia_intent inp)
     \<and> ch_status ch = Challenge_open \<and> cv_now E < ch_expiresAt ch"

definition mark_accepted :: "consent_env \<Rightarrow> consent_challenge \<Rightarrow> consent_challenge" where
  "mark_accepted E ch = ch\<lparr>ch_status := Challenge_accepted, ch_acceptedAt := Some (cv_now E)\<rparr>"

definition expired_challenge :: "consent_env \<Rightarrow> string \<Rightarrow> consent_challenge \<Rightarrow> bool" where
  "expired_challenge E cid ch \<longleftrightarrow> ch_id ch = cid \<and> ch_status ch = Challenge_open \<and> ch_expiresAt ch \<le> cv_now E"

definition manifest_json :: "consent_env \<Rightarrow> consent_challenge \<Rightarrow> render_manifest \<Rightarrow> json" where
  "manifest_json E ch m = J_object
     ([(''renderer'', J_string (rm_renderer m))] @ rm_extra m @
      [(''renderedAt'', J_date (case rm_renderedAt m of None \<Rightarrow> cv_now E | Some t \<Rightarrow> t)),
       (''locale'', J_string (ch_locale ch)), (''jurisdiction'', J_string (ch_jurisdiction ch)),
       (''documentSetHash'', J_string (ch_documentSetHash ch)),
       (''documentVersionIds'', J_array (map J_string (ch_documentVersionIds ch)))])"

definition intent_json :: "intent_summary \<Rightarrow> json" where
  "intent_json i = J_object [(''type'', J_string (intent_type_name (sm_type i))), (''id'', J_string (sm_id i)),
     (''summaryHash'', J_string (sm_summaryHash i))]"

definition acceptance_of :: "consent_env \<Rightarrow> accept_input \<Rightarrow> consent_challenge \<Rightarrow> consent_acceptance" where
  "acceptance_of E inp ch =
     (let aid = ''consent_acc_'' @ cv_uuid E; manifest = manifest_json E ch (ia_renderManifest inp) in
      \<lparr> ca_id = aid, ca_challengeId = ch_id ch, ca_userId = ch_userId ch, ca_role = ia_role inp,
        ca_locale = ch_locale ch, ca_jurisdiction = ch_jurisdiction ch,
        ca_documentVersionIds = ch_documentVersionIds ch, ca_documentSetHash = ch_documentSetHash ch, ca_intent = ch_intent ch,
        ca_consentHash = cv_sha E (canonicalJson E (J_object
          [(''acceptanceId'', J_string aid), (''challengeHash'', J_string (ch_challengeHash ch)), (''userId'', J_string (ia_userId inp)),
           (''role'', J_string (consent_role_name (ia_role inp))), (''documentSetHash'', J_string (ch_documentSetHash ch)),
           (''intent'', intent_json (ch_intent ch)), (''acceptedAt'', J_string (cv_iso E (cv_now E))), (''renderManifest'', manifest)])),
        ca_renderManifest = manifest, ca_acceptedAt = cv_now E, ca_withdrawnAt = None, ca_withdrawalReason = None,
        ca_grandfathered = False \<rparr>)"

text \<open>The unique indexes of the acceptances.\<close>

definition acceptance_taken :: "consent_acceptance \<Rightarrow> consent_acceptance list \<Rightarrow> bool" where
  "acceptance_taken a as \<longleftrightarrow>
     list_ex (\<lambda>b. ca_id b = ca_id a \<or> ca_challengeId b = ca_challengeId a \<or> ca_consentHash b = ca_consentHash a) as"

definition acceptConsentChallenge ::
  "consent_env \<Rightarrow> accept_input \<Rightarrow> consent_db \<Rightarrow> (consent_error + consent_acceptance) \<times> consent_db" where
  "acceptConsentChallenge E inp s =
     (case assertObjectId E (ia_userId inp) ''user id'' of Inl e \<Rightarrow> (Inl e, s) | Inr uid \<Rightarrow>
       (case find_one_and_update (acceptable E inp uid) (mark_accepted E) (co_challenges s) of
          (None, _) \<Rightarrow>
            (Inl (Consent_rejected ''Consent could not be applied to this action.''),
             s\<lparr>co_challenges := update_one (expired_challenge E (ia_challengeId inp)) (\<lambda>ch. ch\<lparr>ch_status := Challenge_expired\<rparr>) (co_challenges s)\<rparr>)
        | (Some ch, chs) \<Rightarrow>
            (let s1 = s\<lparr>co_challenges := chs\<rparr>; a = acceptance_of E inp ch in
             if acceptance_taken a (co_acceptances s) then (Inl Consent_duplicate, s1)
             else (Inr a, s1\<lparr>co_acceptances := co_acceptances s @ [a]\<rparr>))))"

text \<open>
  The TTL index on \<open>expiresAt\<close>: thirty days after its expiry MongoDB may delete a challenge at any
  time, whatever its status; \<open>ids\<close> are the challenges one pass of the TTL monitor gets to.
\<close>

definition ttl_delete :: "consent_env \<Rightarrow> string list \<Rightarrow> consent_db \<Rightarrow> consent_db" where
  "ttl_delete E ids s = s\<lparr>co_challenges :=
     filter (\<lambda>ch. \<not> (ch_id ch \<in> set ids \<and> ch_expiresAt ch + 60 * 60 * 24 * 30 * 1000 \<le> cv_now E)) (co_challenges s)\<rparr>"

subsection \<open>Requiring and withdrawing consent\<close>

record consent_requirement =
  cq_userId :: string
  cq_role :: consent_role
  cq_jurisdiction :: string
  cq_intent :: consent_intent
  cq_requiredDocuments :: "legal_key list"
  cq_acceptanceId :: "string option"

definition covers :: "consent_env \<Rightarrow> consent_requirement \<Rightarrow> oid \<Rightarrow> consent_acceptance \<Rightarrow> bool" where
  "covers E q uid a \<longleftrightarrow> Some (ca_id a) = cq_acceptanceId q \<and> ca_userId a = uid \<and> ca_role a = cq_role q
     \<and> ca_jurisdiction a = normalizeJurisdiction (cq_jurisdiction q)
     \<and> sm_type (ca_intent a) = ci_type (cq_intent q) \<and> sm_id (ca_intent a) = ci_id (cq_intent q)
     \<and> sm_summaryHash (ca_intent a) = intentSummaryHash E (cq_intent q) \<and> ca_withdrawnAt a = None"

definition requireAcceptedConsent ::
  "consent_env \<Rightarrow> consent_requirement \<Rightarrow> consent_db \<Rightarrow> consent_error + consent_acceptance" where
  "requireAcceptedConsent E q s =
     (if \<not> truthy (cq_acceptanceId q) then Inl (Consent_required ''Consent is required for this action.'')
      else case assertObjectId E (cq_userId q) ''user id'' of Inl e \<Rightarrow> Inl e | Inr uid \<Rightarrow>
        (case find_one (covers E q uid) (co_acceptances s) of
           None \<Rightarrow> Inl (Consent_rejected ''Consent could not be applied to this action.'')
         | Some a \<Rightarrow>
             (case resolveEffectiveDocuments E (cq_requiredDocuments q) (ca_locale a) (cq_jurisdiction q) (cv_now E) (co_documents s) of
                Inl e \<Rightarrow> Inl e
              | Inr docs \<Rightarrow>
                  if ca_documentSetHash a \<noteq> computeDocumentSetHash E docs
                  then Inl (Consent_required ''Updated terms require consent.'') else Inr a)))"

definition verifyLegalDocumentVersionHash :: "consent_env \<Rightarrow> string \<Rightarrow> consent_db \<Rightarrow> consent_error + bool" where
  "verifyLegalDocumentVersionHash E did s =
     (case assertObjectId E did ''document version id'' of Inl e \<Rightarrow> Inl e | Inr i \<Rightarrow>
        (case find_one (\<lambda>d. ld_id d = i) (co_documents s) of
           None \<Rightarrow> Inr False
         | Some d \<Rightarrow> Inr (ld_sha256 d = cv_sha E (ld_canonicalBytes d))))"

definition latest_acceptance :: "consent_acceptance list \<Rightarrow> consent_acceptance option" where
  "latest_acceptance as =
     (case js_sort (\<lambda>a b. of_int (ca_acceptedAt b - ca_acceptedAt a)) as of [] \<Rightarrow> None | a # _ \<Rightarrow> Some a)"

definition requiresReconsentForMaterialChange ::
  "consent_env \<Rightarrow> string \<Rightarrow> intent_type \<Rightarrow> string \<Rightarrow> string \<Rightarrow> string \<Rightarrow> consent_db \<Rightarrow> consent_error + bool" where
  "requiresReconsentForMaterialChange E userId itype iid jurisdiction currentHash s =
     (case assertObjectId E userId ''user id'' of Inl e \<Rightarrow> Inl e | Inr uid \<Rightarrow>
        (case latest_acceptance (filter (\<lambda>a. ca_userId a = uid \<and> sm_type (ca_intent a) = itype \<and> sm_id (ca_intent a) = iid
               \<and> ca_jurisdiction a = normalizeJurisdiction jurisdiction \<and> ca_withdrawnAt a = None) (co_acceptances s)) of
           None \<Rightarrow> Inr True
         | Some a \<Rightarrow> if ca_grandfathered a then Inr False else Inr (ca_documentSetHash a \<noteq> currentHash)))"

definition withdrawable :: "string \<Rightarrow> oid \<Rightarrow> consent_acceptance \<Rightarrow> bool" where
  "withdrawable aid uid a \<longleftrightarrow> ca_id a = aid \<and> ca_userId a = uid \<and> ca_withdrawnAt a = None"

definition mark_withdrawn :: "time \<Rightarrow> string option \<Rightarrow> consent_acceptance \<Rightarrow> consent_acceptance" where
  "mark_withdrawn t reason a = a\<lparr>ca_withdrawnAt := Some t,
     ca_withdrawalReason := Some (if truthy reason then the reason else ''User withdrawal'')\<rparr>"

definition withdrawConsent ::
  "consent_env \<Rightarrow> string \<Rightarrow> string \<Rightarrow> string option \<Rightarrow> consent_db \<Rightarrow> (consent_error + consent_acceptance) \<times> consent_db" where
  "withdrawConsent E aid userId reason s =
     (case assertObjectId E userId ''user id'' of Inl e \<Rightarrow> (Inl e, s) | Inr uid \<Rightarrow>
        (case find_one_and_update (withdrawable aid uid) (mark_withdrawn (cv_now E) reason) (co_acceptances s) of
           (None, _) \<Rightarrow> (Inl (Consent_rejected ''Consent is not withdrawable or was already withdrawn.''), s)
         | (Some a, as) \<Rightarrow> (Inr a, s\<lparr>co_acceptances := as\<rparr>)))"

end
