(* ===== verification/Consent_Theorems.thy ===== *)
theory Consent_Theorems
  imports Consent_Service "HOL-Library.Countable"
begin

text \<open>
  Where acceptances come from.  A run interleaves the consent operations with deletions by the TTL
  index and with changes of the published documents; the history of the run says which call
  opened the challenge behind an acceptance and which documents it resolved.
\<close>

lemma find_one_and_update_Some:
  "find_one_and_update P f ds = (Some d', ds') \<longleftrightarrow>
     (\<exists>d. find_one P ds = Some d \<and> d' = f d \<and> ds' = update_one P f ds)"
  by (auto simp: find_one_and_update_def split: option.splits)

lemma find_one_and_update_None:
  "find_one_and_update P f ds = (None, ds') \<longleftrightarrow> find_one P ds = None \<and> ds' = ds"
  by (auto simp: find_one_and_update_def split: option.splits)

subsection \<open>Runs\<close>

text \<open>
  One step of a run: an operation, a pass of the TTL monitor, or a new content of the document
  collection, which no code of the repository writes.
\<close>

datatype consent_op = Open_challenge challenge_input | Accept_challenge accept_input | Withdraw string string "string option"
  | Ttl_pass "string list" | Publish "legal_document list"

fun consent_step :: "consent_env \<times> consent_op \<Rightarrow> consent_db \<Rightarrow> unit \<times> consent_db" where
  "consent_step (E, Open_challenge inp) s = ((), snd (createConsentChallenge E inp s))"
| "consent_step (E, Accept_challenge inp) s = ((), snd (acceptConsentChallenge E inp s))"
| "consent_step (E, Withdraw aid uid reason) s = ((), snd (withdrawConsent E aid uid reason s))"
| "consent_step (E, Ttl_pass ids) s = ((), ttl_delete E ids s)"
| "consent_step (E, Publish docs) s = ((), s\<lparr>co_documents := docs\<rparr>)"

definition no_consents :: "legal_document list \<Rightarrow> consent_db" where
  "no_consents docs = \<lparr> co_documents = docs, co_challenges = [], co_acceptances = [] \<rparr>"

type_synonym consent_run = "(consent_env \<times> consent_op) list"

definition consents_after :: "legal_document list \<Rightarrow> consent_run \<Rightarrow> consent_db" where
  "consents_after docs ops = run_seq consent_step ops (no_consents docs)"

lemma run_seq_snoc: "run_seq run (is @ [i]) s = snd (run i (run_seq run is s))"
  by (induction "is" arbitrary: s) simp_all

lemma consents_after_simps [simp]:
  "consents_after docs [] = no_consents docs"
  "consents_after docs (ops @ [i]) = snd (consent_step i (consents_after docs ops))"
  by (simp_all add: consents_after_def run_seq_snoc)

text \<open>
  The call that opened a challenge, the documents it resolved from the collection of that moment
  and recorded in the challenge; and the call that granted an acceptance.
\<close>

definition opened_with ::
  "legal_document list \<Rightarrow> consent_run \<Rightarrow> consent_challenge \<Rightarrow> consent_env \<Rightarrow> legal_document list \<Rightarrow> bool" where
  "opened_with docs ops ch E ds \<longleftrightarrow> (\<exists>pre inp post. ops = pre @ (E, Open_challenge inp) # post
     \<and> fst (createConsentChallenge E inp (consents_after docs pre)) = Inr ch
     \<and> resolveEffectiveDocuments E (ic_requiredDocuments inp) (normalizeLocale (ic_locale inp))
         (normalizeJurisdiction (ic_jurisdiction inp)) (cv_now E) (co_documents (consents_after docs pre)) = Inr ds
     \<and> ch_documentVersionIds ch = map ld_id ds \<and> ch_documentSetHash ch = computeDocumentSetHash E ds)"

definition granted_at ::
  "legal_document list \<Rightarrow> consent_run \<Rightarrow> consent_acceptance \<Rightarrow> consent_run \<Rightarrow> consent_env \<Rightarrow> accept_input \<Rightarrow> bool" where
  "granted_at docs ops a pre E inp \<longleftrightarrow> (\<exists>post. ops = pre @ (E, Accept_challenge inp) # post
     \<and> fst (acceptConsentChallenge E inp (consents_after docs pre)) = Inr a)"

text \<open>What never changes of a challenge.\<close>

definition challenge_terms :: "consent_challenge \<Rightarrow> consent_challenge" where
  "challenge_terms ch = ch\<lparr>ch_status := Challenge_open, ch_acceptedAt := None\<rparr>"

lemma challenge_terms_updates [simp]:
  "challenge_terms (ch\<lparr>ch_status := st\<rparr>) = challenge_terms ch" "challenge_terms (mark_accepted E ch) = challenge_terms ch"
  by (simp_all add: challenge_terms_def mark_accepted_def)

lemma challenge_terms_eq:
  "challenge_terms ch = challenge_terms c \<Longrightarrow>
     ch_id ch = ch_id c \<and> ch_userId ch = ch_userId c \<and> ch_role ch = ch_role c \<and> ch_intent ch = ch_intent c
     \<and> ch_documentSetHash ch = ch_documentSetHash c \<and> ch_documentVersionIds ch = ch_documentVersionIds c
     \<and> ch_expiresAt ch = ch_expiresAt c"
  by (cases ch; cases c) (simp add: challenge_terms_def)

subsection \<open>What one step does\<close>

lemma create_challenge_Inr:
  assumes "createConsentChallenge E inp s = (Inr ch, s')"
  shows "s' = s\<lparr>co_challenges := co_challenges s @ [ch]\<rparr>"
    and "\<exists>ds. resolveEffectiveDocuments E (ic_requiredDocuments inp) (normalizeLocale (ic_locale inp))
           (normalizeJurisdiction (ic_jurisdiction inp)) (cv_now E) (co_documents s) = Inr ds
         \<and> ch_documentVersionIds ch = map ld_id ds \<and> ch_documentSetHash ch = computeDocumentSetHash E ds"
  using assms by (auto simp: createConsentChallenge_def Let_def split: sum.splits if_splits)

lemma create_challenge_Inl: "createConsentChallenge E inp s = (Inl e, s') \<Longrightarrow> s' = s"
  by (auto simp: createConsentChallenge_def Let_def split: sum.splits if_splits)

lemma acceptance_of_sel [simp]:
  "ca_challengeId (acceptance_of E inp ch) = ch_id ch"
  by (simp add: acceptance_of_def Let_def)

lemma accept_cases:
  obtains (refused) r P f where "acceptConsentChallenge E inp s = (Inl r, s\<lparr>co_challenges := update_one P f (co_challenges s)\<rparr>)"
      "\<And>ch. P ch \<Longrightarrow> ch_status ch = Challenge_open" "\<And>ch. ch_id (f ch) = ch_id ch"
  | (accepted) ch where "find_one (acceptable E inp (ia_userId inp)) (co_challenges s) = Some ch"
      "\<not> acceptance_taken (acceptance_of E inp (mark_accepted E ch)) (co_acceptances s)"
      "acceptConsentChallenge E inp s = (Inr (acceptance_of E inp (mark_accepted E ch)),
         s\<lparr>co_challenges := update_one (acceptable E inp (ia_userId inp)) (mark_accepted E) (co_challenges s),
           co_acceptances := co_acceptances s @ [acceptance_of E inp (mark_accepted E ch)]\<rparr>)"
proof (cases "cv_valid_oid E (ia_userId inp)")
  case False
  have "update_one (\<lambda>_. False) id (co_challenges s) = co_challenges s" by (rule update_one_no_match) (simp add: find_None_iff)
  with False show thesis
    using refused [of _ "\<lambda>_. False" id] by (simp add: acceptConsentChallenge_def assertObjectId_def)
next
  case True
  let ?P = "acceptable E inp (ia_userId inp)"
  show thesis
  proof (cases "find_one ?P (co_challenges s)")
    case None
    with True show thesis
      using refused [of _ "expired_challenge E (ia_challengeId inp)" "\<lambda>ch. ch\<lparr>ch_status := Challenge_expired\<rparr>"]
      by (simp add: acceptConsentChallenge_def assertObjectId_def find_one_and_update_def expired_challenge_def)
  next
    case (Some ch)
    show thesis
    proof (cases "acceptance_taken (acceptance_of E inp (mark_accepted E ch)) (co_acceptances s)")
      case True
      with Some \<open>cv_valid_oid E (ia_userId inp)\<close> show thesis
        using refused [of _ ?P "mark_accepted E"]
        by (simp add: acceptConsentChallenge_def assertObjectId_def find_one_and_update_def acceptable_def mark_accepted_def Let_def)
    next
      case False
      with Some True show thesis
        using accepted [OF Some False]
        by (simp add: acceptConsentChallenge_def assertObjectId_def find_one_and_update_def Let_def)
    qed
  qed
qed

lemma accept_Inr:
  assumes "fst (acceptConsentChallenge E inp s) = Inr a"
  shows "\<exists>ch \<in> set (co_challenges s). acceptable E inp (ia_userId inp) ch \<and> a = acceptance_of E inp (mark_accepted E ch)"
proof (cases rule: accept_cases [of E inp s])
  case (refused r P f)
  with assms show ?thesis by simp
next
  case (accepted ch)
  with assms find_one_SomeD [OF accepted(1)] show ?thesis by auto
qed

lemma accept_terms:
  assumes "ch \<in> set (co_challenges (snd (acceptConsentChallenge E inp s)))"
  shows "\<exists>c \<in> set (co_challenges s). challenge_terms ch = challenge_terms c"
proof -
  have "\<exists>c \<in> set (co_challenges s). ch = c \<or> ch = mark_accepted E c \<or> ch = c\<lparr>ch_status := Challenge_expired\<rparr>"
    using assms by (auto simp: acceptConsentChallenge_def assertObjectId_def find_one_and_update_def Let_def
      dest: set_update_one split: option.splits if_splits)
  then show ?thesis by auto
qed

lemma withdraw_effect:
  "snd (withdrawConsent E aid uid reason s) = s
   \<or> snd (withdrawConsent E aid uid reason s)
       = s\<lparr>co_acceptances := update_one (withdrawable aid uid) (mark_withdrawn (cv_now E) reason) (co_acceptances s)\<rparr>"
  by (auto simp: withdrawConsent_def assertObjectId_def find_one_and_update_def split: option.splits)

lemma step_challenges:
  assumes "ch \<in> set (co_challenges (snd (consent_step i s)))"
  shows "(\<exists>c \<in> set (co_challenges s). challenge_terms ch = challenge_terms c)
    \<or> (\<exists>E inp. i = (E, Open_challenge inp) \<and> fst (createConsentChallenge E inp s) = Inr ch)"
proof (cases "(i, s)" rule: consent_step.cases)
  case (1 E inp s')
  obtain r s'' where c: "createConsentChallenge E inp s = (r, s'')" by fastforce
  show ?thesis
  proof (cases r)
    case (Inl e)
    with 1 c assms create_challenge_Inl [of E inp s e s''] show ?thesis by auto
  next
    case (Inr ch0)
    with 1 c assms create_challenge_Inr(1) [of E inp s ch0 s''] show ?thesis by auto
  qed
next
  case (2 E inp s')
  with assms accept_terms show ?thesis by auto
next
  case (3 E aid uid reason s')
  with assms withdraw_effect [of E aid uid reason s] show ?thesis by auto
next
  case (4 E ids s')
  with assms show ?thesis by (auto simp: ttl_delete_def)
next
  case (5 E ds s')
  with assms show ?thesis by auto
qed

lemma create_keeps_acceptances: "co_acceptances (snd (createConsentChallenge E inp s)) = co_acceptances s"
  by (auto simp: createConsentChallenge_def Let_def split: sum.splits)

lemma step_acceptances:
  assumes "a \<in> set (co_acceptances (snd (consent_step i s)))" and "ca_withdrawnAt a = None"
  shows "a \<in> set (co_acceptances s)
    \<or> (\<exists>E inp. i = (E, Accept_challenge inp) \<and> fst (acceptConsentChallenge E inp s) = Inr a)"
proof (cases "(i, s)" rule: consent_step.cases)
  case (1 E inp s')
  with assms create_keeps_acceptances show ?thesis by auto
next
  case (2 E inp s')
  have "a \<in> set (co_acceptances s) \<or> fst (acceptConsentChallenge E inp s) = Inr a"
    using accept_cases [of E inp s] assms 2 by (cases rule: accept_cases [of E inp s]) auto
  with 2 show ?thesis by auto
next
  case (3 E aid uid reason s')
  then have "a \<in> set (co_acceptances s) \<or> (\<exists>b. a = mark_withdrawn (cv_now E) reason b)"
    using assms withdraw_effect [of E aid uid reason s] by (auto dest!: set_update_one)
  with assms(2) show ?thesis by (auto simp: mark_withdrawn_def)
next
  case (4 E ids s')
  with assms show ?thesis by (auto simp: ttl_delete_def)
next
  case (5 E ds s')
  with assms show ?thesis by auto
qed

definition once_each :: "consent_db \<Rightarrow> bool" where
  "once_each s = distinct (map ca_challengeId (co_acceptances s))"

lemma step_once_each:
  assumes "once_each s"
  shows "once_each (snd (consent_step i s))"
proof (cases "(i, s)" rule: consent_step.cases)
  case (1 E inp s')
  with assms create_keeps_acceptances show ?thesis by (auto simp: once_each_def)
next
  case (2 E inp s')
  have "once_each (snd (acceptConsentChallenge E inp s))"
    using assms by (cases rule: accept_cases [of E inp s]) (auto simp: once_each_def acceptance_taken_def list_ex_iff)
  with 2 show ?thesis by auto
next
  case (3 E aid uid reason s')
  have "ca_challengeId (mark_withdrawn t r a) = ca_challengeId a" for t r a by (simp add: mark_withdrawn_def)
  with 3 assms withdraw_effect [of E aid uid reason s] show ?thesis by (auto simp: once_each_def update_one_keys)
next
  case (4 E ids s')
  with assms show ?thesis by (auto simp: once_each_def ttl_delete_def)
next
  case (5 E ds s')
  with assms show ?thesis by (auto simp: once_each_def)
qed

lemma consents_once_each: "once_each (consents_after docs ops)"
  unfolding consents_after_def
  by (rule run_seq_invariant [where I = once_each]) (auto simp: step_once_each, simp add: once_each_def no_consents_def)

subsection \<open>The history behind a challenge and an acceptance\<close>

lemma opened_with_later: "opened_with docs ops ch E ds \<Longrightarrow> opened_with docs (ops @ rest) ch E ds"
  unfolding opened_with_def by fastforce

lemma granted_at_later: "granted_at docs ops a pre E inp \<Longrightarrow> granted_at docs (ops @ rest) a pre E inp"
  unfolding granted_at_def by fastforce

lemma challenge_opened:
  "ch \<in> set (co_challenges (consents_after docs ops)) \<Longrightarrow>
     \<exists>ch0 E ds. opened_with docs ops ch0 E ds \<and> challenge_terms ch = challenge_terms ch0"
proof (induction ops arbitrary: ch rule: rev_induct)
  case Nil
  then show ?case by (simp add: no_consents_def)
next
  case (snoc i ops)
  from step_challenges [of ch i "consents_after docs ops"] snoc.prems
  consider c where "c \<in> set (co_challenges (consents_after docs ops))" "challenge_terms ch = challenge_terms c"
    | E inp where "i = (E, Open_challenge inp)" "fst (createConsentChallenge E inp (consents_after docs ops)) = Inr ch"
    by auto
  then show ?case
  proof cases
    case (1 c)
    then obtain ch0 E ds where "opened_with docs ops ch0 E ds" "challenge_terms ch = challenge_terms ch0"
      using snoc.IH [of c] by auto
    then show ?thesis using opened_with_later by blast
  next
    case (2 E inp)
    then have "createConsentChallenge E inp (consents_after docs ops) = (Inr ch, snd (createConsentChallenge E inp (consents_after docs ops)))"
      by (simp add: prod_eq_iff)
    from create_challenge_Inr(2) [OF this] 2 have "\<exists>ds. opened_with docs (ops @ [i]) ch E ds"
      unfolding opened_with_def by fastforce
    then show ?thesis by blast
  qed
qed

lemma acceptance_granted:
  "a \<in> set (co_acceptances (consents_after docs ops)) \<Longrightarrow> ca_withdrawnAt a = None \<Longrightarrow> \<exists>pre E inp. granted_at docs ops a pre E inp"
proof (induction ops rule: rev_induct)
  case Nil
  then show ?case by (simp add: no_consents_def)
next
  case (snoc i ops)
  from step_acceptances [of a i "consents_after docs ops"] snoc.prems
  consider "a \<in> set (co_acceptances (consents_after docs ops))"
    | E inp where "i = (E, Accept_challenge inp)" "fst (acceptConsentChallenge E inp (consents_after docs ops)) = Inr a"
    by auto
  then show ?case
  proof cases
    case 1
    with snoc.IH snoc.prems(2) granted_at_later show ?thesis by blast
  next
    case (2 E inp)
    then have "granted_at docs (ops @ [i]) a ops E inp" unfolding granted_at_def by fastforce
    then show ?thesis by blast
  qed
qed

lemma find_document_Some:
  assumes "find_document t ls j docs k = Some d"
  shows "ld_key d = k \<and> in_force t d \<and> d \<in> set docs \<and> ld_jurisdiction d = normalizeJurisdiction j \<and> ld_locale d \<in> set ls"
proof -
  let ?c = "filter (\<lambda>d. ld_key d = k \<and> ld_jurisdiction d = normalizeJurisdiction j
            \<and> ld_locale d \<in> set ls \<and> in_force t d) docs"
  obtain ds where "js_sort (locale_rank ls) (js_sort newest_first ?c) = d # ds"
    using assms by (auto simp: find_document_def Let_def split: list.splits)
  then have "d \<in> set ?c" using js_sort_hd by fastforce
  then show ?thesis by simp
qed

lemma match_documents_Inr:
  "match_documents t ls j docs ks = Inr ds \<Longrightarrow>
     map ld_key ds = ks \<and> list_all (\<lambda>d. in_force t d \<and> d \<in> set docs) ds"
  by (induction ks arbitrary: ds)
     (auto split: option.splits sum.splits dest: find_document_Some)

lemma resolved_documents:
  assumes "resolveEffectiveDocuments E keys locale j t docs = Inr ds"
  shows "mset (map ld_key ds) = mset keys" and "list_all (\<lambda>d. in_force t d \<and> d \<in> set docs) ds"
proof -
  obtain es where es: "match_documents t (locale_candidates locale) j docs keys = Inr es"
    and ds: "mset ds = mset es"
    using assms by (auto simp: resolveEffectiveDocuments_def split: sum.splits)
  then have "map ld_key es = keys" and all: "list_all (\<lambda>d. in_force t d \<and> d \<in> set docs) es"
    using match_documents_Inr by blast+
  then show "mset (map ld_key ds) = mset keys" using ds by (metis mset_map)
  have "set ds = set es" using ds by (rule mset_eq_setD)
  with all show "list_all (\<lambda>d. in_force t d \<and> d \<in> set docs) ds" by (simp add: list_all_iff)
qed

lemma requireAcceptedConsent_Inr:
  assumes "requireAcceptedConsent E q s = Inr a"
  shows "a \<in> set (co_acceptances s)" and "covers E q (cq_userId q) a"
    and "\<exists>docs. resolveEffectiveDocuments E (cq_requiredDocuments q) (ca_locale a) (cq_jurisdiction q) (cv_now E) (co_documents s) = Inr docs
           \<and> ca_documentSetHash a = computeDocumentSetHash E docs"
proof -
  have f: "find_one (covers E q (cq_userId q)) (co_acceptances s) = Some a
    \<and> (\<exists>docs. resolveEffectiveDocuments E (cq_requiredDocuments q) (ca_locale a) (cq_jurisdiction q) (cv_now E) (co_documents s) = Inr docs
           \<and> ca_documentSetHash a = computeDocumentSetHash E docs)"
    using assms by (auto simp: requireAcceptedConsent_def assertObjectId_def split: if_splits sum.splits option.splits)
  then show "a \<in> set (co_acceptances s)" "covers E q (cq_userId q) a"
    using find_one_SomeD by (metis)+
  from f show "\<exists>docs. resolveEffectiveDocuments E (cq_requiredDocuments q) (ca_locale a) (cq_jurisdiction q) (cv_now E) (co_documents s) = Inr docs
           \<and> ca_documentSetHash a = computeDocumentSetHash E docs" by blast
qed

subsection \<open>A document set and its digest\<close>

definition document_set_json :: "legal_document list \<Rightarrow> json" where
  "document_set_json docs = J_array (map (\<lambda>d. J_object
     [(''id'', J_string (ld_id d)), (''key'', J_string (legal_key_name (ld_key d))),
      (''version'', J_string (ld_version d)), (''sha256'', J_string (ld_sha256 d))]) docs)"

definition document_facts :: "legal_document \<Rightarrow> oid \<times> legal_key \<times> string \<times> string" where
  "document_facts d = (ld_id d, ld_key d, ld_version d, ld_sha256 d)"

lemma computeDocumentSetHash_text: "computeDocumentSetHash E docs = cv_sha E (canonicalJson E (document_set_json docs))"
  by (simp add: computeDocumentSetHash_def document_set_json_def)

lemma legal_key_name_inj: "legal_key_name k = legal_key_name l \<Longrightarrow> k = l"
  by (cases k; cases l) simp_all

definition sorted_facts :: "oid \<times> legal_key \<times> string \<times> string \<Rightarrow> json" where
  "sorted_facts f = (case f of (i, k, v, h) \<Rightarrow> J_object
     [(''id'', J_string i), (''key'', J_string (legal_key_name k)), (''sha256'', J_string h), (''version'', J_string v)])"

lemma sort_facts:
  "sort_json it (document_set_json docs) = J_array (map sorted_facts (map document_facts docs))"
  by (simp add: document_set_json_def sorted_facts_def document_facts_def comp_def)

lemma sorted_facts_inj: "inj sorted_facts"
  by (auto simp: inj_def sorted_facts_def dest: legal_key_name_inj)

text \<open>No number occurs in the text, so any printer of numbers will do to read it back.\<close>

definition unary :: "rat \<Rightarrow> string" where
  "unary x = replicate (Suc (to_nat x)) CHR ''0''"

lemma unary_ok: "num_ok unary"
  by (auto simp: num_ok_def unary_def inj_def list_all_iff number_char_def dest: arg_cong [where f = length])

lemma facts_text: "json_text num (sorted_facts f) = json_text unary (sorted_facts f)"
  by (cases f) (simp add: sorted_facts_def)

lemma document_text_binds:
  assumes "canonicalJson E (document_set_json ds) = canonicalJson F (document_set_json es)"
  shows "map document_facts ds = map document_facts es"
proof -
  let ?j = "\<lambda>xs. J_array (map sorted_facts (map document_facts xs))"
  have "json_text unary (?j ds) = json_text unary (?j es)"
    using assms by (simp add: canonicalJson_def sort_facts comp_def facts_text [of "cv_num E"] facts_text [of "cv_num F"])
  moreover have "dateless (?j xs)" for xs :: "legal_document list"
    by (simp add: list_all_iff sorted_facts_def split: prod.split)
  ultimately have "map sorted_facts (map document_facts ds) = map sorted_facts (map document_facts es)"
    using json_text_eq [OF unary_ok, of "?j ds" "?j es"] by blast
  then show ?thesis using sorted_facts_inj by (metis inj_map_eq_map)
qed

text \<open>
  C24.  When the check of a required consent passes after any run of consent operations, TTL
  deletions and changes of the published documents, then the acceptance it returns was granted by
  an earlier acceptance call, before its challenge expired, on a challenge that an earlier call
  opened for this user, in this role, about an intent with the same digest of its terms; no other
  acceptance comes from that challenge and it is not withdrawn.  The check resolves the required
  keys in the collection as it is now: one stored document in force now for every key.  Their
  digest is that of the documents resolved and recorded when the challenge was opened, so they are
  the same documents (id, key, version, content digest), unless two different texts were found
  with one SHA-256 digest.
\<close>

theorem consent_behind_requirement:
  assumes "requireAcceptedConsent E q (consents_after docs ops) = Inr a"
  shows "\<exists>pre F inp ch G shown ds.
      granted_at docs ops a pre F inp \<and> opened_with docs pre ch G shown
    \<and> ch_id ch = ca_challengeId a \<and> ch_userId ch = cq_userId q \<and> ch_role ch = cq_role q
    \<and> sm_summaryHash (ch_intent ch) = intentSummaryHash E (cq_intent q)
    \<and> ca_acceptedAt a = cv_now F \<and> cv_now F < ch_expiresAt ch
    \<and> filter (\<lambda>b. ca_challengeId b = ca_challengeId a) (co_acceptances (consents_after docs ops)) = [a]
    \<and> ca_withdrawnAt a = None
    \<and> resolveEffectiveDocuments E (cq_requiredDocuments q) (ca_locale a) (cq_jurisdiction q) (cv_now E)
        (co_documents (consents_after docs ops)) = Inr ds
    \<and> mset (map ld_key ds) = mset (cq_requiredDocuments q)
    \<and> list_all (\<lambda>d. in_force (cv_now E) d \<and> d \<in> set (co_documents (consents_after docs ops))) ds
    \<and> computeDocumentSetHash E ds = computeDocumentSetHash G shown
    \<and> (map document_facts ds = map document_facts shown
       \<or> canonicalJson E (document_set_json ds) \<noteq> canonicalJson G (document_set_json shown))"
proof -
  let ?s = "consents_after docs ops"
  note a = requireAcceptedConsent_Inr [OF assms]
  have w: "ca_withdrawnAt a = None" using a(2) by (simp add: covers_def)
  obtain pre F inp where g: "granted_at docs ops a pre F inp" using acceptance_granted [OF a(1) w] by blast
  then obtain c where c: "c \<in> set (co_challenges (consents_after docs pre))" "acceptable F inp (ia_userId inp) c"
      "a = acceptance_of F inp (mark_accepted F c)"
    using accept_Inr unfolding granted_at_def by blast
  obtain ch G shown where o: "opened_with docs pre ch G shown" "challenge_terms c = challenge_terms ch"
    using challenge_opened [OF c(1)] by blast
  note eq = challenge_terms_eq [OF o(2)]
  have ch: "ch_id ch = ca_challengeId a" "ch_userId ch = ca_userId a" "ch_role ch = ca_role a" "ch_intent ch = ca_intent a"
      "ch_documentSetHash ch = ca_documentSetHash a" "ca_acceptedAt a = cv_now F" "cv_now F < ch_expiresAt ch"
    using c(2) eq unfolding c(3) by (auto simp: acceptance_of_def mark_accepted_def acceptable_def Let_def)
  have cov: "ca_userId a = cq_userId q" "ca_role a = cq_role q" "sm_summaryHash (ca_intent a) = intentSummaryHash E (cq_intent q)"
    using a(2) by (simp_all add: covers_def)
  have only: "filter (\<lambda>b. ca_challengeId b = ca_challengeId a) (co_acceptances ?s) = [a]"
    using consents_once_each [of docs ops] a(1) unfolding once_each_def by (rule filter_key_unique)
  obtain ds where ds: "resolveEffectiveDocuments E (cq_requiredDocuments q) (ca_locale a) (cq_jurisdiction q) (cv_now E) (co_documents ?s) = Inr ds"
      "ca_documentSetHash a = computeDocumentSetHash E ds" using a(3) by blast
  have same: "computeDocumentSetHash E ds = computeDocumentSetHash G shown"
    using o(1) ch(5) ds(2) by (auto simp: opened_with_def)
  show ?thesis
    by (intro exI [of _ pre] exI [of _ F] exI [of _ inp] exI [of _ ch] exI [of _ G] exI [of _ shown] exI [of _ ds] conjI)
       (use g o(1) ch cov only w ds(1) same resolved_documents [OF ds(1)] document_text_binds [of E ds G shown] in \<open>simp_all, blast\<close>)
qed

subsection \<open>An example\<close>

definition demo_consent_env :: "time \<Rightarrow> consent_env" where
  "demo_consent_env t = \<lparr> cv_now = t, cv_valid_oid = (\<lambda>_. True), cv_sha = (\<lambda>x. x), cv_num = (\<lambda>_. ''1''),
     cv_iso = (\<lambda>_. ''t''), cv_collate = (\<lambda>_ _. 0), cv_uuid = ''u'', cv_nonce = ''n'' \<rparr>"

definition demo_document :: legal_document where
  "demo_document = \<lparr> ld_id = ''d1'', ld_key = Risk_disclosure, ld_version = ''1'', ld_locale = ''en'', ld_jurisdiction = ''NG'',
     ld_canonicalBytes = ''b'', ld_sha256 = ''b'', ld_status = Legal_published, ld_effectiveFrom = 0, ld_effectiveTo = None,
     ld_createdAt = 0 \<rparr>"

definition demo_intent :: consent_intent where
  "demo_intent = \<lparr> ci_type = Intent_pool_investment, ci_id = ''p'', ci_terms = J_object [(''b'', J_number 1), (''a'', J_null)] \<rparr>"

definition demo_consent_ops :: "(consent_env \<times> consent_op) list" where
  "demo_consent_ops =
     [(demo_consent_env 1, Open_challenge \<lparr> ic_userId = ''u1'', ic_role = Consent_investor, ic_locale = ''en'', ic_jurisdiction = ''ng'',
         ic_requiredDocuments = [Risk_disclosure], ic_intent = demo_intent, ic_expiresInSeconds = None \<rparr>),
      (demo_consent_env 2, Accept_challenge \<lparr> ia_challengeId = ''consent_chal_u'', ia_userId = ''u1'', ia_role = Consent_investor,
         ia_intent = demo_intent, ia_renderManifest = \<lparr> rm_renderer = ''r'', rm_renderedAt = None, rm_extra = [] \<rparr> \<rparr>),
      (demo_consent_env 3000000000, Ttl_pass [''consent_chal_u''])]"

definition demo_requirement :: consent_requirement where
  "demo_requirement = \<lparr> cq_userId = ''u1'', cq_role = Consent_investor, cq_jurisdiction = ''NG'', cq_intent = demo_intent,
     cq_requiredDocuments = [Risk_disclosure], cq_acceptanceId = Some ''consent_acc_u'' \<rparr>"

lemma demo_requirement_met:
  "is_ok (requireAcceptedConsent (demo_consent_env 3000000001) demo_requirement (consents_after [demo_document] demo_consent_ops))"
  by code_simp

lemma consent_behind_requirement_witness:
  "\<exists>a. requireAcceptedConsent (demo_consent_env 3000000001) demo_requirement
        (consents_after [demo_document] demo_consent_ops) = Inr a \<and> ca_withdrawnAt a = None"
proof -
  obtain a where a: "requireAcceptedConsent (demo_consent_env 3000000001) demo_requirement
        (consents_after [demo_document] demo_consent_ops) = Inr a"
    using demo_requirement_met by (auto elim: is_okE)
  from consent_behind_requirement [OF a] a show ?thesis by blast
qed

end
