(* ===== verification/Investment_Service.thy ===== *)
theory Investment_Service
  imports Consent_Theorems
begin

text \<open>
  Investment pools: \<open>lib/services/investments.service.ts\<close> and \<open>lib/services/pools.service.ts\<close> with
  the documents of \<open>models/InvestmentPool.ts\<close>, \<open>models/InvestmentReservation.ts\<close> and
  \<open>models/PoolInvestment.ts\<close>.

  The body of an investment runs in one transaction: an error leaves the database as it was.
  \<open>iv_fault n\<close> says whether the driver aborts the \<open>n\<close>-th attempt, \<open>iv_oid\<close> supplies the ids of new
  documents.  The checks of the digests' format are left to the consent component, which
  stores only digests.
\<close>

subsection \<open>Documents\<close>

datatype pool_asset = Asset_SHUTTLE | Asset_KEKE
datatype pool_status = Pool_OPEN | Pool_FUNDED | Pool_CLOSED
datatype reservation_status = Rsv_PENDING | Rsv_RESERVED | Rsv_SETTLED | Rsv_EXPIRED | Rsv_CANCELLED | Rsv_FAILED
datatype pool_investment_status = Pos_PENDING | Pos_CONFIRMED | Pos_FAILED

record pool =
  ip_id :: oid
  ip_assetType :: pool_asset
  ip_assetPriceNgn :: rat
  ip_targetAmountNgn :: rat
  ip_minContributionNgn :: rat
  ip_status :: pool_status
  ip_currentRaisedNgn :: rat
  ip_investorCount :: nat
  ip_createdBy :: oid
  ip_description :: "string option"
  ip_createdAt :: time

record investor =
  iu_id :: oid
  iu_role :: "string option"
  iu_availableBalance :: rat
  iu_heldBalance :: rat
  iu_totalInvested :: rat
  iu_kycStatus :: "string option"
  iu_isKycVerified :: "bool option"
  iu_kycVerified :: "bool option"

record reservation =
  rs_id :: oid
  rs_poolId :: oid
  rs_userId :: oid
  rs_idempotencyKey :: string
  rs_amountNgn :: rat
  rs_status :: reservation_status
  rs_expiresAt :: time
  rs_poolInvestmentId :: "oid option"

record pool_investment =
  pi_id :: oid
  pi_poolId :: oid
  pi_userId :: oid
  pi_amountNgn :: rat
  pi_ownershipUnits :: int
  pi_ownershipBps :: int
  pi_txRef :: string
  pi_reservationId :: oid
  pi_consentAcceptanceId :: string
  pi_acceptedDocumentSetHash :: string
  pi_acceptedDocumentVersionIds :: "oid list"
  pi_status :: pool_investment_status

record invest_transaction =
  it_userId :: oid
  it_userType :: string
  it_type :: string
  it_amount :: rat
  it_method :: string
  it_status :: string
  it_relatedId :: string
  it_gatewayReference :: string
  it_reservationId :: oid

record idb =
  vd_pools :: "pool list"
  vd_users :: "investor list"
  vd_reservations :: "reservation list"
  vd_investments :: "pool_investment list"
  vd_transactions :: "invest_transaction list"
  vd_consents :: consent_db
  vd_next :: nat

record txn_fault = driver_error +
  tf_message :: string

record invest_env = consent_env +
  iv_oid :: "nat \<Rightarrow> oid"
  iv_key_uuid :: string
  iv_fault :: "nat \<Rightarrow> txn_fault option"

datatype invest_error =
  Invest_refused string | Invest_consent consent_error | Invest_duplicate | Invest_validation | Invest_driver txn_fault

subsection \<open>Reservations and ownership\<close>

fun RESERVATION_TRANSITIONS :: "reservation_status \<Rightarrow> reservation_status list" where
  "RESERVATION_TRANSITIONS Rsv_PENDING = [Rsv_RESERVED, Rsv_FAILED, Rsv_CANCELLED]"
| "RESERVATION_TRANSITIONS Rsv_RESERVED = [Rsv_SETTLED, Rsv_EXPIRED, Rsv_CANCELLED, Rsv_FAILED]"
| "RESERVATION_TRANSITIONS _ = []"

definition TERMINAL_RESERVATION_STATES :: "reservation_status list" where
  "TERMINAL_RESERVATION_STATES = [Rsv_SETTLED, Rsv_EXPIRED, Rsv_CANCELLED, Rsv_FAILED]"

definition isValidReservationTransition :: "reservation_status \<Rightarrow> reservation_status \<Rightarrow> bool" where
  "isValidReservationTransition f t \<longleftrightarrow> t \<in> set (RESERVATION_TRANSITIONS f)"

definition TOTAL_OWNERSHIP_UNITS :: int where "TOTAL_OWNERSHIP_UNITS = 1000000"
definition TOTAL_OWNERSHIP_BPS :: int where "TOTAL_OWNERSHIP_BPS = 10000"
definition INVESTMENT_RESERVATION_TTL_MS :: int where "INVESTMENT_RESERVATION_TTL_MS = 5 * 60 * 1000"

definition calculateOwnership :: "rat \<Rightarrow> rat \<Rightarrow> int \<times> int" where
  "calculateOwnership amount target =
     (max \<lfloor>(amount * of_int TOTAL_OWNERSHIP_UNITS) / target\<rfloor> 0, max \<lfloor>(amount * 10000) / target\<rfloor> 0)"

definition shouldRetryMongoTransaction :: "invest_error \<Rightarrow> bool" where
  "shouldRetryMongoTransaction e = (case e of
     Invest_driver f \<Rightarrow> code f = Some 251 \<or> codeName f = Some ''NoSuchTransaction''
       \<or> ''TransientTransactionError'' \<in> set (errorLabels f)
       \<or> str_includes ''does not match any in-progress transactions'' (js_lower (tf_message f))
   | _ \<Rightarrow> False)"

subsection \<open>Investing\<close>

record invest_input =
  vi_poolId :: string
  vi_userId :: string
  vi_amountNgn :: jsnum
  vi_txRef :: "string option"
  vi_idempotencyKey :: "string option"
  vi_consentAcceptanceId :: "string option"
  vi_jurisdiction :: string
  vi_role :: consent_role

record invest_result =
  vr_poolId :: oid
  vr_userId :: oid
  vr_amountNgn :: rat
  vr_ownershipUnits :: int
  vr_ownershipBps :: int
  vr_txRef :: string
  vr_consentAcceptanceId :: string
  vr_acceptedDocumentSetHash :: string
  vr_poolStatus :: pool_status
  vr_currentRaisedNgn :: rat
  vr_targetAmountNgn :: rat
  vr_investorCount :: nat
  vr_userBalanceNgn :: rat

definition trimmed :: "string option \<Rightarrow> string" where
  "trimmed v = (case v of None \<Rightarrow> [] | Some x \<Rightarrow> js_trim x)"

definition idempotencyKeyFor :: "invest_env \<Rightarrow> invest_input \<Rightarrow> string" where
  "idempotencyKeyFor E inp =
     (if trimmed (vi_idempotencyKey inp) \<noteq> [] then trimmed (vi_idempotencyKey inp)
      else if trimmed (vi_txRef inp) \<noteq> [] then trimmed (vi_txRef inp) else iv_key_uuid E)"

definition reservation_result :: "pool_investment \<Rightarrow> pool \<Rightarrow> investor \<Rightarrow> invest_result" where
  "reservation_result i p u =
     \<lparr> vr_poolId = ip_id p, vr_userId = iu_id u, vr_amountNgn = pi_amountNgn i,
       vr_ownershipUnits = pi_ownershipUnits i, vr_ownershipBps = pi_ownershipBps i, vr_txRef = pi_txRef i,
       vr_consentAcceptanceId = pi_consentAcceptanceId i, vr_acceptedDocumentSetHash = pi_acceptedDocumentSetHash i,
       vr_poolStatus = ip_status p, vr_currentRaisedNgn = ip_currentRaisedNgn p, vr_targetAmountNgn = ip_targetAmountNgn p,
       vr_investorCount = ip_investorCount p, vr_userBalanceNgn = iu_availableBalance u \<rparr>"

definition resultForReservation :: "reservation \<Rightarrow> idb \<Rightarrow> invest_error + invest_result option" where
  "resultForReservation r s =
     (case rs_poolInvestmentId r of None \<Rightarrow> Inr None | Some iid \<Rightarrow>
        if rs_status r \<noteq> Rsv_SETTLED then Inr None
        else
          (case (find_one (\<lambda>i. pi_id i = iid) (vd_investments s), find_one (\<lambda>p. ip_id p = rs_poolId r) (vd_pools s),
                 find_one (\<lambda>u. iu_id u = rs_userId r) (vd_users s)) of
             (Some i, Some p, Some u) \<Rightarrow> Inr (Some (reservation_result i p u))
           | _ \<Rightarrow> Inl (Invest_refused ''Investment reservation is incomplete.'')))"

definition prior_result :: "oid \<Rightarrow> string \<Rightarrow> idb \<Rightarrow> invest_error + invest_result option" where
  "prior_result uid key s =
     (case find_one (\<lambda>r. rs_userId r = uid \<and> rs_idempotencyKey r = key) (vd_reservations s) of
        None \<Rightarrow> Inr None | Some r \<Rightarrow> resultForReservation r s)"

text \<open>The guarded reads and writes of the transaction.\<close>

definition has_room :: "oid \<Rightarrow> rat \<Rightarrow> pool \<Rightarrow> bool" where
  "has_room pid x p \<longleftrightarrow> ip_id p = pid \<and> ip_status p = Pool_OPEN \<and> x \<le> ip_targetAmountNgn p - ip_currentRaisedNgn p"

definition accepts_contribution :: "oid \<Rightarrow> rat \<Rightarrow> pool \<Rightarrow> bool" where
  "accepts_contribution pid x p \<longleftrightarrow> has_room pid x p \<and> ip_minContributionNgn p \<le> x"

definition can_invest :: "oid \<Rightarrow> rat \<Rightarrow> investor \<Rightarrow> bool" where
  "can_invest uid x u \<longleftrightarrow> iu_id u = uid \<and> x \<le> iu_availableBalance u
     \<and> (iu_kycStatus u = Some ''approved_stage2'' \<or> iu_isKycVerified u = Some True \<or> iu_kycVerified u = Some True)"

definition hold_funds :: "rat \<Rightarrow> investor \<Rightarrow> investor" where
  "hold_funds x u = u\<lparr>iu_availableBalance := iu_availableBalance u - x, iu_heldBalance := iu_heldBalance u + x\<rparr>"

definition invest_held :: "rat \<Rightarrow> investor \<Rightarrow> investor" where
  "invest_held x u = u\<lparr>iu_heldBalance := iu_heldBalance u - x, iu_totalInvested := iu_totalInvested u + x\<rparr>"

definition raise_pool :: "rat \<Rightarrow> bool \<Rightarrow> pool \<Rightarrow> pool" where
  "raise_pool x returning p = p\<lparr>ip_currentRaisedNgn := ip_currentRaisedNgn p + x,
     ip_investorCount := ip_investorCount p + (if returning then 0 else 1)\<rparr>"

definition fund_pool :: "pool \<Rightarrow> pool" where
  "fund_pool p = (if ip_targetAmountNgn p \<le> ip_currentRaisedNgn p then p\<lparr>ip_status := Pool_FUNDED\<rparr> else p)"

definition new_reservation :: "invest_env \<Rightarrow> oid \<Rightarrow> oid \<Rightarrow> oid \<Rightarrow> string \<Rightarrow> rat \<Rightarrow> reservation" where
  "new_reservation E rid pid uid key x = \<lparr> rs_id = rid, rs_poolId = pid, rs_userId = uid, rs_idempotencyKey = key,
     rs_amountNgn = x, rs_status = Rsv_PENDING, rs_expiresAt = cv_now E + INVESTMENT_RESERVATION_TTL_MS, rs_poolInvestmentId = None \<rparr>"

definition reservation_valid :: "reservation \<Rightarrow> reservation list \<Rightarrow> invest_error option" where
  "reservation_valid r rs =
     (if length (rs_idempotencyKey r) > 128 then Some Invest_validation
      else if list_ex (\<lambda>q. rs_userId q = rs_userId r \<and> rs_idempotencyKey q = rs_idempotencyKey r) rs
      then Some Invest_duplicate else None)"

definition investment_requirement :: "invest_input \<Rightarrow> pool \<Rightarrow> rat \<Rightarrow> string \<Rightarrow> consent_requirement" where
  "investment_requirement inp p x txRef =
     \<lparr> cq_userId = vi_userId inp, cq_role = vi_role inp, cq_jurisdiction = vi_jurisdiction inp,
       cq_intent = \<lparr> ci_type = Intent_pool_investment, ci_id = ip_id p,
         ci_terms = J_object [(''amountNgn'', J_number x), (''txRef'', J_string txRef), (''poolId'', J_string (ip_id p)),
           (''targetAmountNgn'', J_number (ip_targetAmountNgn p)), (''jurisdiction'', J_string (vi_jurisdiction inp))] \<rparr>,
       cq_requiredDocuments = REQUIRED_INVESTMENT_DOCUMENTS, cq_acceptanceId = vi_consentAcceptanceId inp \<rparr>"

definition new_investment :: "oid \<Rightarrow> pool \<Rightarrow> investor \<Rightarrow> rat \<Rightarrow> string \<Rightarrow> oid \<Rightarrow> consent_acceptance \<Rightarrow> pool_investment" where
  "new_investment iid p u x txRef rid c =
     \<lparr> pi_id = iid, pi_poolId = ip_id p, pi_userId = iu_id u, pi_amountNgn = x,
       pi_ownershipUnits = fst (calculateOwnership x (ip_targetAmountNgn p)),
       pi_ownershipBps = snd (calculateOwnership x (ip_targetAmountNgn p)), pi_txRef = txRef, pi_reservationId = rid,
       pi_consentAcceptanceId = ca_id c, pi_acceptedDocumentSetHash = ca_documentSetHash c,
       pi_acceptedDocumentVersionIds = ca_documentVersionIds c, pi_status = Pos_CONFIRMED \<rparr>"

definition role_or_investor :: "string option \<Rightarrow> string" where
  "role_or_investor r = (if truthy r then the r else ''investor'')"

definition new_invest_transaction :: "investor \<Rightarrow> rat \<Rightarrow> pool \<Rightarrow> string \<Rightarrow> oid \<Rightarrow> invest_transaction" where
  "new_invest_transaction u x p txRef rid =
     \<lparr> it_userId = iu_id u, it_userType = role_or_investor (iu_role u), it_type = ''pool_investment'', it_amount = x,
       it_method = ''internal_wallet'', it_status = ''Completed'', it_relatedId = ip_id p, it_gatewayReference = txRef, it_reservationId = rid \<rparr>"

definition user_invested_in :: "oid \<Rightarrow> oid \<Rightarrow> pool_investment \<Rightarrow> bool" where
  "user_invested_in pid uid i \<longleftrightarrow> pi_poolId i = pid \<and> pi_userId i = uid \<and> pi_status i = Pos_CONFIRMED"

text \<open>
  The body of the transaction.  The reservation is written three times in the code (PENDING,
  RESERVED, SETTLED); inside the transaction only its last state is kept.
\<close>

definition invest_body :: "invest_env \<Rightarrow> invest_input \<Rightarrow> string \<Rightarrow> rat \<Rightarrow> idb \<Rightarrow> invest_error + invest_result \<times> idb" where
  "invest_body E inp key x s =
     (let pid = vi_poolId inp; uid = vi_userId inp; rid = iv_oid E (vd_next s); iid = iv_oid E (Suc (vd_next s));
          r = new_reservation E rid pid uid key x in
      case reservation_valid r (vd_reservations s) of Some e \<Rightarrow> Inl e | None \<Rightarrow>
      (case find_one (accepts_contribution pid x) (vd_pools s) of
         None \<Rightarrow> Inl (Invest_refused ''Pool is closed, funded, or lacks remaining capacity.'')
       | Some p \<Rightarrow>
      (case find_one_and_update (can_invest uid x) (hold_funds x) (vd_users s) of
         (None, _) \<Rightarrow> Inl (Invest_refused ''Insufficient wallet balance or investor KYC is not approved.'')
       | (Some u, users1) \<Rightarrow>
         (let txRef = (if trimmed (vi_txRef inp) \<noteq> [] then trimmed (vi_txRef inp) else ''pool_'' @ rid) in
      case requireAcceptedConsent (consent_env.truncate E) (investment_requirement inp p x txRef) (vd_consents s) of
         Inl e \<Rightarrow> Inl (Invest_consent e)
       | Inr c \<Rightarrow>
         (let returning = list_ex (user_invested_in (ip_id p) (iu_id u)) (vd_investments s);
              i = new_investment iid p u x txRef rid c in
      if pi_ownershipBps i > 10000 then Inl Invest_validation
      else case find_one_and_update (has_room (ip_id p) x) (raise_pool x returning) (vd_pools s) of
         (None, _) \<Rightarrow> Inl (Invest_refused ''Pool no longer has remaining capacity.'')
       | (Some p1, pools1) \<Rightarrow>
         (let p2 = fund_pool p1;
              settled = r\<lparr>rs_status := Rsv_SETTLED, rs_poolInvestmentId := Some iid\<rparr>
          in Inr (\<lparr> vr_poolId = ip_id p2, vr_userId = iu_id u, vr_amountNgn = x, vr_ownershipUnits = pi_ownershipUnits i,
                    vr_ownershipBps = pi_ownershipBps i, vr_txRef = txRef, vr_consentAcceptanceId = ca_id c,
                    vr_acceptedDocumentSetHash = ca_documentSetHash c, vr_poolStatus = ip_status p2,
                    vr_currentRaisedNgn = ip_currentRaisedNgn p2, vr_targetAmountNgn = ip_targetAmountNgn p2,
                    vr_investorCount = ip_investorCount p2, vr_userBalanceNgn = iu_availableBalance u \<rparr>,
                  s\<lparr>vd_pools := update_one (\<lambda>q. ip_id q = ip_id p2) fund_pool pools1,
                    vd_users := update_one (\<lambda>v. iu_id v = iu_id u \<and> x \<le> iu_heldBalance v) (invest_held x) users1,
                    vd_reservations := vd_reservations s @ [settled],
                    vd_investments := vd_investments s @ [i],
                    vd_transactions := vd_transactions s @ [new_invest_transaction u x p2 txRef rid],
                    vd_next := Suc (Suc (vd_next s))\<rparr>)))))))"

definition invest_attempt ::
  "invest_env \<Rightarrow> invest_input \<Rightarrow> string \<Rightarrow> rat \<Rightarrow> nat \<Rightarrow> idb \<Rightarrow> (invest_error + invest_result) \<times> idb" where
  "invest_attempt E inp key x n s =
     (case iv_fault E n of Some f \<Rightarrow> (Inl (Invest_driver f), s)
      | None \<Rightarrow> (case invest_body E inp key x s of Inl e \<Rightarrow> (Inl e, s) | Inr (r, s') \<Rightarrow> (Inr r, s')))"

fun invest_loop ::
  "invest_env \<Rightarrow> invest_input \<Rightarrow> string \<Rightarrow> rat \<Rightarrow> nat list \<Rightarrow> idb \<Rightarrow> (invest_error + invest_result) \<times> idb" where
  "invest_loop E inp key x [] s = (Inl (Invest_refused ''Unable to process investment transaction.''), s)"
| "invest_loop E inp key x (n # ns) s =
     (case invest_attempt E inp key x n s of
        (Inr r, s') \<Rightarrow> (Inr r, s')
      | (Inl e, s') \<Rightarrow>
          (case (if e = Invest_duplicate then prior_result (vi_userId inp) key s' else Inr None) of
             Inl e' \<Rightarrow> (Inl e', s')
           | Inr (Some r) \<Rightarrow> (Inr r, s')
           | Inr None \<Rightarrow> if n = 2 \<or> \<not> shouldRetryMongoTransaction e then (Inl e, s') else invest_loop E inp key x ns s'))"

definition investInPool :: "invest_env \<Rightarrow> invest_input \<Rightarrow> idb \<Rightarrow> (invest_error + invest_result) \<times> idb" where
  "investInPool E inp s =
     (if \<not> cv_valid_oid E (vi_poolId inp) then (Inl (Invest_refused ''Invalid pool ID.''), s)
      else if \<not> cv_valid_oid E (vi_userId inp) then (Inl (Invest_refused ''Invalid user ID.''), s)
      else case vi_amountNgn inp of Fin x \<Rightarrow>
        (if x \<le> 0 then (Inl (Invest_refused ''Amount must be greater than zero.''), s)
         else (let key = idempotencyKeyFor E inp in
           case find_one (\<lambda>r. rs_userId r = vi_userId inp \<and> rs_idempotencyKey r = key) (vd_reservations s) of
             Some r \<Rightarrow> (case resultForReservation r s of
                 Inl e \<Rightarrow> (Inl e, s)
               | Inr (Some res) \<Rightarrow> (Inr res, s)
               | Inr None \<Rightarrow> (Inl (Invest_refused ''An investment with this idempotency key is still being processed.''), s))
           | None \<Rightarrow> invest_loop E inp key x [0, 1, 2] s))
      | _ \<Rightarrow> (Inl (Invest_refused ''Amount must be greater than zero.''), s))"

subsection \<open>Expiring holds\<close>

definition expirable :: "time \<Rightarrow> reservation \<Rightarrow> bool" where
  "expirable t r \<longleftrightarrow> rs_status r = Rsv_RESERVED \<and> rs_expiresAt r \<le> t"

definition release_hold :: "rat \<Rightarrow> investor \<Rightarrow> investor" where
  "release_hold x u = u\<lparr>iu_heldBalance := iu_heldBalance u - x, iu_availableBalance := iu_availableBalance u + x\<rparr>"

fun expire_loop :: "time \<Rightarrow> reservation list \<Rightarrow> nat \<Rightarrow> idb \<Rightarrow> nat \<times> idb" where
  "expire_loop t [] n s = (n, s)"
| "expire_loop t (r # rs) n s =
     (case find_one_and_update (\<lambda>q. rs_id q = rs_id r \<and> expirable t q) (\<lambda>q. q\<lparr>rs_status := Rsv_EXPIRED\<rparr>) (vd_reservations s) of
        (None, _) \<Rightarrow> expire_loop t rs n s
      | (Some q, qs) \<Rightarrow> expire_loop t rs (Suc n)
          (s\<lparr>vd_reservations := qs,
             vd_users := update_one (\<lambda>u. iu_id u = rs_userId q \<and> rs_amountNgn q \<le> iu_heldBalance u)
                (release_hold (rs_amountNgn q)) (vd_users s)\<rparr>))"

definition expireInvestmentReservations :: "time \<Rightarrow> txn_fault option \<Rightarrow> idb \<Rightarrow> (txn_fault + nat) \<times> idb" where
  "expireInvestmentReservations t fault s =
     (case expire_loop t (filter (expirable t) (vd_reservations s)) 0 s of (n, s') \<Rightarrow>
        (case fault of Some f \<Rightarrow> (Inl f, s) | None \<Rightarrow> (Inr n, s')))"

subsection \<open>Pools\<close>

fun ASSET_PRICE_NGN :: "pool_asset \<Rightarrow> rat" where
  "ASSET_PRICE_NGN Asset_SHUTTLE = 4600000"
| "ASSET_PRICE_NGN Asset_KEKE = 3500000"

definition calculateOwnershipFromAmount :: "jsnum \<Rightarrow> jsnum \<Rightarrow> int \<times> int" where
  "calculateOwnershipFromAmount amount target =
     (case (amount, target) of
        (Fin a, Fin t) \<Rightarrow> if t \<le> 0 then (0, 0)
          else (max \<lfloor>(a * of_int TOTAL_OWNERSHIP_UNITS) / t\<rfloor> 0, max \<lfloor>(a * of_int TOTAL_OWNERSHIP_BPS) / t\<rfloor> 0)
      | _ \<Rightarrow> (0, 0))"

record pool_summary =
  ps_pool :: pool
  ps_remainingAmountNgn :: rat
  ps_progressRatio :: rat
  ps_userOwnership :: "(int \<times> int) option"
  ps_userInvestedNgn :: "rat option"

definition normalizePool :: "pool \<Rightarrow> pool_summary" where
  "normalizePool p = \<lparr> ps_pool = p,
     ps_remainingAmountNgn = max (ip_targetAmountNgn p - ip_currentRaisedNgn p) 0,
     ps_progressRatio = (if ip_targetAmountNgn p > 0 then ip_currentRaisedNgn p / ip_targetAmountNgn p else 0),
     ps_userOwnership = None, ps_userInvestedNgn = None \<rparr>"

record pool_input =
  po_assetType :: pool_asset
  po_createdBy :: oid
  po_targetAmountNgn :: "jsnum option"
  po_minContributionNgn :: "jsnum option"
  po_description :: "string option"

definition new_pool :: "invest_env \<Rightarrow> pool_input \<Rightarrow> oid \<Rightarrow> rat \<Rightarrow> rat \<Rightarrow> pool" where
  "new_pool E inp pid target minc =
     \<lparr> ip_id = pid, ip_assetType = po_assetType inp, ip_assetPriceNgn = ASSET_PRICE_NGN (po_assetType inp),
       ip_targetAmountNgn = target, ip_minContributionNgn = minc, ip_status = Pool_OPEN, ip_currentRaisedNgn = 0,
       ip_investorCount = 0, ip_createdBy = po_createdBy inp,
       ip_description = (if trimmed (po_description inp) = [] then None else Some (trimmed (po_description inp))),
       ip_createdAt = cv_now E \<rparr>"

definition createPool :: "invest_env \<Rightarrow> pool_input \<Rightarrow> idb \<Rightarrow> (string + pool_summary) \<times> idb" where
  "createPool E inp s =
     (let price = ASSET_PRICE_NGN (po_assetType inp) in
      case (case po_targetAmountNgn inp of None \<Rightarrow> Fin price | Some t \<Rightarrow> t) of Fin target \<Rightarrow>
        (if target \<le> 0 then (Inl ''Target amount must be greater than zero.'', s)
         else case (case po_minContributionNgn inp of None \<Rightarrow> Fin 5000 | Some m \<Rightarrow> m) of Fin minc \<Rightarrow>
           (if minc \<le> 0 then (Inl ''Minimum contribution must be greater than zero.'', s)
            else if target < minc then (Inl ''Minimum contribution cannot exceed target amount.'', s)
            else (let p = new_pool E inp (iv_oid E (vd_next s)) target minc
                  in (Inr (normalizePool p), s\<lparr>vd_pools := vd_pools s @ [p], vd_next := Suc (vd_next s)\<rparr>)))
         | _ \<Rightarrow> (Inl ''Minimum contribution must be greater than zero.'', s))
      | _ \<Rightarrow> (Inl ''Target amount must be greater than zero.'', s))"

definition invested_amount :: "oid \<Rightarrow> oid \<Rightarrow> pool_investment list \<Rightarrow> rat" where
  "invested_amount pid uid is = (\<Sum>i\<leftarrow>filter (user_invested_in pid uid) is. pi_amountNgn i)"

definition with_ownership :: "oid \<Rightarrow> pool_investment list \<Rightarrow> pool_summary \<Rightarrow> pool_summary" where
  "with_ownership uid is v =
     (let x = invested_amount (ip_id (ps_pool v)) uid is
      in v\<lparr>ps_userOwnership := Some (calculateOwnershipFromAmount (Fin x) (Fin (ip_targetAmountNgn (ps_pool v)))),
           ps_userInvestedNgn := Some x\<rparr>)"

definition listPools :: "invest_env \<Rightarrow> string option \<Rightarrow> idb \<Rightarrow> pool_summary list" where
  "listPools E userId s =
     (let vs = map normalizePool (js_sort (\<lambda>a b. of_int (ip_createdAt b - ip_createdAt a)) (vd_pools s))
      in if truthy userId \<and> cv_valid_oid E (the userId) then map (with_ownership (the userId) (vd_investments s)) vs else vs)"

definition getPoolById :: "invest_env \<Rightarrow> string \<Rightarrow> string option \<Rightarrow> idb \<Rightarrow> string + pool_summary" where
  "getPoolById E pid userId s =
     (if \<not> cv_valid_oid E pid then Inl ''Invalid pool ID.''
      else case find_one (\<lambda>p. ip_id p = pid) (vd_pools s) of None \<Rightarrow> Inl ''Pool not found.''
      | Some p \<Rightarrow> if truthy userId \<and> cv_valid_oid E (the userId) then Inr (with_ownership (the userId) (vd_investments s) (normalizePool p))
                 else Inr (normalizePool p))"

end
