(* ===== verification/Investment_Theorems.thy ===== *)
theory Investment_Theorems
  imports Investment_Service
begin

text \<open>
  What the investment service guarantees: pools are never oversubscribed and their totals are
  the sums of their investments, every naira invested left exactly one wallet, and a key
  invests once.
\<close>

subsection \<open>What an investment writes\<close>

definition moved_user :: "rat \<Rightarrow> investor \<Rightarrow> investor" where
  "moved_user x u = u\<lparr>iu_availableBalance := iu_availableBalance u - x, iu_totalInvested := iu_totalInvested u + x\<rparr>"

definition raised :: "oid \<Rightarrow> rat \<Rightarrow> bool \<Rightarrow> pool \<Rightarrow> pool" where
  "raised pid x returning q = (if ip_id q = pid then fund_pool (raise_pool x returning q) else q)"

definition invested ::
  "invest_env \<Rightarrow> invest_input \<Rightarrow> string \<Rightarrow> rat \<Rightarrow> pool \<Rightarrow> investor \<Rightarrow> consent_acceptance \<Rightarrow> string \<Rightarrow> idb \<Rightarrow> idb" where
  "invested E inp key x p u c txRef s =
     (let rid = iv_oid E (vd_next s); iid = iv_oid E (Suc (vd_next s)) in
      s\<lparr>vd_pools := map (raised (ip_id p) x (list_ex (user_invested_in (ip_id p) (iu_id u)) (vd_investments s))) (vd_pools s),
        vd_users := map (\<lambda>v. if iu_id v = iu_id u then moved_user x v else v) (vd_users s),
        vd_reservations := vd_reservations s @
          [(new_reservation E rid (ip_id p) (iu_id u) key x)\<lparr>rs_status := Rsv_SETTLED, rs_poolInvestmentId := Some iid\<rparr>],
        vd_investments := vd_investments s @ [new_investment iid p u x txRef rid c],
        vd_transactions := vd_transactions s @ [new_invest_transaction u x p txRef rid],
        vd_next := Suc (Suc (vd_next s))\<rparr>)"

lemma fund_raise_sel [simp]:
  "ip_id (raise_pool x b p) = ip_id p" "ip_id (fund_pool p) = ip_id p" "ip_id (raised pid x b p) = ip_id p"
  "ip_targetAmountNgn (raise_pool x b p) = ip_targetAmountNgn p" "ip_targetAmountNgn (fund_pool p) = ip_targetAmountNgn p"
  "ip_targetAmountNgn (raised pid x b p) = ip_targetAmountNgn p"
  by (simp_all add: raise_pool_def fund_pool_def raised_def)

lemma invest_body_effect:
  assumes "invest_body E inp key x s = Inr (r, s')" and "distinct (map ip_id (vd_pools s))"
    and "distinct (map iu_id (vd_users s))" and "list_all (\<lambda>u. 0 \<le> iu_heldBalance u) (vd_users s)"
  obtains p u c txRef where "p \<in> set (vd_pools s)" "accepts_contribution (vi_poolId inp) x p"
    "u \<in> set (vd_users s)" "can_invest (vi_userId inp) x u"
    "txRef = (if trimmed (vi_txRef inp) \<noteq> [] then trimmed (vi_txRef inp) else ''pool_'' @ iv_oid E (vd_next s))"
    "requireAcceptedConsent (consent_env.truncate E) (investment_requirement inp p x txRef) (vd_consents s) = Inr c"
    "reservation_valid (new_reservation E (iv_oid E (vd_next s)) (ip_id p) (iu_id u) key x) (vd_reservations s) = None"
    "s' = invested E inp key x p u c txRef s"
    "vr_ownershipUnits r = fst (calculateOwnership x (ip_targetAmountNgn p))"
    "vr_userBalanceNgn r = iu_availableBalance u - x" "vr_amountNgn r = x" "vr_txRef r = txRef"
    "vr_consentAcceptanceId r = ca_id c" "vr_userId r = iu_id u" "vr_poolId r = ip_id p"
    "vr_ownershipBps r = snd (calculateOwnership x (ip_targetAmountNgn p))" "vr_acceptedDocumentSetHash r = ca_documentSetHash c"
proof -
  let ?rid = "iv_oid E (vd_next s)" and ?iid = "iv_oid E (Suc (vd_next s))"
  let ?txRef = "if trimmed (vi_txRef inp) \<noteq> [] then trimmed (vi_txRef inp) else ''pool_'' @ ?rid"
  obtain p where p: "find_one (accepts_contribution (vi_poolId inp) x) (vd_pools s) = Some p"
    and rv: "reservation_valid (new_reservation E ?rid (vi_poolId inp) (vi_userId inp) key x) (vd_reservations s) = None"
    using assms(1) by (auto simp: invest_body_def Let_def split: option.splits)
  obtain u where u: "find_one (can_invest (vi_userId inp) x) (vd_users s) = Some u"
    using assms(1) p rv by (auto simp: invest_body_def Let_def find_one_and_update_def split: option.splits)
  obtain c where c: "requireAcceptedConsent (consent_env.truncate E) (investment_requirement inp p x ?txRef) (vd_consents s) = Inr c"
    using assms(1) p rv u by (auto simp: invest_body_def Let_def find_one_and_update_def split: sum.splits)
  let ?ret = "list_ex (user_invested_in (ip_id p) (iu_id u)) (vd_investments s)"
  have P: "p \<in> set (vd_pools s)" "accepts_contribution (vi_poolId inp) x p" "ip_id p = vi_poolId inp"
    using find_one_SomeD [OF p] by (auto simp: accepts_contribution_def has_room_def)
  have U: "u \<in> set (vd_users s)" "can_invest (vi_userId inp) x u" "iu_id u = vi_userId inp"
    using find_one_SomeD [OF u] by (auto simp: can_invest_def)
  have p': "find_one (has_room (ip_id p) x) (vd_pools s) = Some p"
    using find_key_guarded [OF assms(2), of "ip_id p" "\<lambda>p. ip_status p = Pool_OPEN \<and> x \<le> ip_targetAmountNgn p - ip_currentRaisedNgn p"]
      find_key_unique [OF assms(2) P(1)] P(2,3)
    by (simp add: has_room_def [abs_def] accepts_contribution_def)
  have pools: "update_one (\<lambda>q. ip_id q = ip_id p) fund_pool (update_one (has_room (ip_id p) x) (raise_pool x ?ret) (vd_pools s))
      = map (raised (ip_id p) x ?ret) (vd_pools s)"
  proof -
    have "update_one (has_room (ip_id p) x) (raise_pool x ?ret) (vd_pools s)
        = map (\<lambda>q. if ip_id q = ip_id p then raise_pool x ?ret q else q) (vd_pools s)"
      by (rule update_one_guarded_key [OF assms(2) p']) (simp add: has_room_def)
    moreover have "distinct (map ip_id (map (\<lambda>q. if ip_id q = ip_id p then raise_pool x ?ret q else q) (vd_pools s)))"
      using assms(2) by (simp add: comp_def if_distrib cong: if_cong)
    ultimately show ?thesis
      by (simp add: update_one_by_key raised_def [abs_def] comp_def if_distrib cong: if_cong)
  qed
  have users: "update_one (\<lambda>v. iu_id v = iu_id (hold_funds x u) \<and> x \<le> iu_heldBalance v) (invest_held x)
        (update_one (can_invest (vi_userId inp) x) (hold_funds x) (vd_users s))
      = map (\<lambda>v. if iu_id v = iu_id u then moved_user x v else v) (vd_users s)"
  proof -
    let ?us = "map (\<lambda>v. if iu_id v = iu_id u then hold_funds x v else v) (vd_users s)"
    have k: "iu_id (hold_funds x v) = iu_id v" for v by (simp add: hold_funds_def)
    have one: "update_one (can_invest (vi_userId inp) x) (hold_funds x) (vd_users s) = ?us"
      by (rule update_one_guarded_key [OF assms(3) u]) (use U(3) in \<open>simp add: can_invest_def\<close>)
    have d: "distinct (map iu_id ?us)" using assms(3) by (simp add: comp_def if_distrib k cong: if_cong)
    have hu: "hold_funds x u \<in> set ?us" using U(1) by (auto simp: image_iff)
    have "x \<le> iu_heldBalance (hold_funds x u)"
      using assms(4) U(1) by (auto simp: hold_funds_def list_all_iff)
    then have f: "find_one (\<lambda>v. iu_id v = iu_id (hold_funds x u) \<and> x \<le> iu_heldBalance v) ?us = Some (hold_funds x u)"
      using find_key_guarded [OF d, of "iu_id (hold_funds x u)"] find_key_unique [OF d hu] by simp
    show ?thesis
      unfolding one update_one_guarded_key [OF d f, of "invest_held x", simplified]
      by (simp add: comp_def k moved_user_def invest_held_def hold_funds_def if_distrib cong: if_cong)
  qed
  have room: "\<not> pi_ownershipBps (new_investment ?iid p u x ?txRef ?rid c) > 10000"
    using assms(1) p rv u c
    by (auto simp: invest_body_def Let_def find_one_and_update_def new_investment_def hold_funds_def split: if_splits)
  have i: "new_investment ?iid p (hold_funds x u) x t ?rid c = new_investment ?iid p u x t ?rid c"
    "new_invest_transaction (hold_funds x u) x (fund_pool (raise_pool x b p)) t ?rid = new_invest_transaction u x p t ?rid"
    "iu_id (hold_funds x u) = iu_id u" "iu_availableBalance (hold_funds x u) = iu_availableBalance u - x" for t b
    by (simp_all add: new_investment_def new_invest_transaction_def hold_funds_def)
  have body: "invest_body E inp key x s = Inr
     (\<lparr> vr_poolId = ip_id p, vr_userId = iu_id u, vr_amountNgn = x,
        vr_ownershipUnits = pi_ownershipUnits (new_investment ?iid p u x ?txRef ?rid c),
        vr_ownershipBps = pi_ownershipBps (new_investment ?iid p u x ?txRef ?rid c), vr_txRef = ?txRef, vr_consentAcceptanceId = ca_id c,
        vr_acceptedDocumentSetHash = ca_documentSetHash c, vr_poolStatus = ip_status (fund_pool (raise_pool x ?ret p)),
        vr_currentRaisedNgn = ip_currentRaisedNgn (fund_pool (raise_pool x ?ret p)),
        vr_targetAmountNgn = ip_targetAmountNgn p, vr_investorCount = ip_investorCount (fund_pool (raise_pool x ?ret p)),
        vr_userBalanceNgn = iu_availableBalance u - x \<rparr>, invested E inp key x p u c ?txRef s)"
    unfolding invest_body_def Let_def rv option.case p find_one_and_update_def u prod.case c sum.case
    using p' room pools users
    by (simp add: i invested_def Let_def P(3) U(3) split del: if_split)
  show thesis
    by (rule that [OF P(1,2) U(1,2) refl c])
       (use rv body assms(1) P(3) U(3) in \<open>auto simp: new_investment_def\<close>)
qed

subsection \<open>The invariant\<close>

definition raised_in :: "oid \<Rightarrow> pool_investment list \<Rightarrow> rat" where
  "raised_in pid is = (\<Sum>i\<leftarrow>filter (\<lambda>i. pi_poolId i = pid) is. pi_amountNgn i)"

definition invested_by :: "oid \<Rightarrow> pool_investment list \<Rightarrow> rat" where
  "invested_by uid is = (\<Sum>i\<leftarrow>filter (\<lambda>i. pi_userId i = uid) is. pi_amountNgn i)"

definition investors_in :: "oid \<Rightarrow> pool_investment list \<Rightarrow> oid set" where
  "investors_in pid is = pi_userId ` set (filter (\<lambda>i. pi_poolId i = pid) is)"

definition pool_ok :: "pool_investment list \<Rightarrow> pool \<Rightarrow> bool" where
  "pool_ok is p \<longleftrightarrow> 0 < ip_targetAmountNgn p \<and> ip_currentRaisedNgn p = raised_in (ip_id p) is
     \<and> ip_currentRaisedNgn p \<le> ip_targetAmountNgn p
     \<and> ip_status p = (if ip_currentRaisedNgn p < ip_targetAmountNgn p then Pool_OPEN else Pool_FUNDED)
     \<and> ip_investorCount p = card (investors_in (ip_id p) is)"

definition investment_ok :: "pool list \<Rightarrow> pool_investment \<Rightarrow> bool" where
  "investment_ok ps i \<longleftrightarrow> 0 < pi_amountNgn i \<and> pi_status i = Pos_CONFIRMED
     \<and> (\<exists>p \<in> set ps. ip_id p = pi_poolId i \<and> (pi_ownershipUnits i, pi_ownershipBps i) = calculateOwnership (pi_amountNgn i) (ip_targetAmountNgn p))"

definition user_ok :: "pool_investment list \<Rightarrow> investor \<Rightarrow> investor \<Rightarrow> bool" where
  "user_ok is u v \<longleftrightarrow> iu_id v = iu_id u \<and> iu_heldBalance v = iu_heldBalance u \<and> 0 \<le> iu_heldBalance v
     \<and> iu_availableBalance v = iu_availableBalance u - invested_by (iu_id u) is \<and> 0 \<le> iu_availableBalance v
     \<and> iu_totalInvested v = iu_totalInvested u + invested_by (iu_id u) is"

definition reservation_of :: "reservation \<Rightarrow> pool_investment \<Rightarrow> bool" where
  "reservation_of r i \<longleftrightarrow> rs_status r = Rsv_SETTLED \<and> rs_poolInvestmentId r = Some (pi_id i) \<and> rs_id r = pi_reservationId i
     \<and> rs_userId r = pi_userId i \<and> rs_poolId r = pi_poolId i \<and> rs_amountNgn r = pi_amountNgn i"

definition idb_ok :: "(nat \<Rightarrow> oid) \<Rightarrow> investor list \<Rightarrow> idb \<Rightarrow> bool" where
  "idb_ok ids us s \<longleftrightarrow> distinct (map ip_id (vd_pools s)) \<and> distinct (map iu_id us)
     \<and> distinct (map pi_id (vd_investments s))
     \<and> distinct (map (\<lambda>r. (rs_userId r, rs_idempotencyKey r)) (vd_reservations s))
     \<and> list_all (pool_ok (vd_investments s)) (vd_pools s)
     \<and> list_all (investment_ok (vd_pools s)) (vd_investments s)
     \<and> list_all2 (user_ok (vd_investments s)) us (vd_users s)
     \<and> list_all2 reservation_of (vd_reservations s) (vd_investments s)
     \<and> ip_id ` set (vd_pools s) \<subseteq> ids ` {..<vd_next s} \<and> pi_id ` set (vd_investments s) \<subseteq> ids ` {..<vd_next s}"

lemma sums_snoc [simp]:
  "raised_in pid (is @ [i]) = raised_in pid is + (if pi_poolId i = pid then pi_amountNgn i else 0)"
  "invested_by uid (is @ [i]) = invested_by uid is + (if pi_userId i = uid then pi_amountNgn i else 0)"
  "investors_in pid (is @ [i]) = (if pi_poolId i = pid then insert (pi_userId i) (investors_in pid is) else investors_in pid is)"
  by (simp_all add: raised_in_def invested_by_def investors_in_def)

lemma finite_investors [simp]: "finite (investors_in pid is)"
  by (simp add: investors_in_def)

lemma returning_investor:
  assumes "list_all (investment_ok ps) is"
  shows "list_ex (user_invested_in pid uid) is \<longleftrightarrow> uid \<in> investors_in pid is"
  using assms by (auto simp: list_ex_iff list_all_iff user_invested_in_def investors_in_def investment_ok_def)

lemma user_ids: "list_all2 (user_ok is) us vs \<Longrightarrow> map iu_id vs = map iu_id us"
  by (induction rule: list_all2_induct) (auto simp: user_ok_def)

lemma pool_ok_raised:
  assumes "pool_ok is q" and "accepts_contribution pid x p" and "p \<in> set ps" and "q \<in> set ps" and "distinct (map ip_id ps)"
    and "list_all (investment_ok ps) is" and "pi_poolId i = ip_id p" and "pi_userId i = uid" and "pi_amountNgn i = x" and "0 < x"
  shows "pool_ok (is @ [i]) (raised (ip_id p) x (list_ex (user_invested_in (ip_id p) uid) is) q)"
proof (cases "ip_id q = ip_id p")
  case False
  with assms show ?thesis by (simp add: pool_ok_def raised_def)
next
  case True
  then have "q = p" using assms(3-5) by (meson distinct_map inj_onD)
  with assms have "x \<le> ip_targetAmountNgn q - ip_currentRaisedNgn q" by (simp add: accepts_contribution_def has_room_def)
  with assms True show ?thesis
    by (auto simp: pool_ok_def raised_def fund_pool_def raise_pool_def returning_investor [OF assms(6)] insert_absorb)
qed

lemma user_ok_moved:
  assumes "user_ok is v0 v" and "can_invest uid x u" and "v = u \<or> iu_id v \<noteq> iu_id u" and "pi_userId i = iu_id u" and "pi_amountNgn i = x"
  shows "user_ok (is @ [i]) v0 (if iu_id v = iu_id u then moved_user x v else v)"
  using assms by (auto simp: user_ok_def moved_user_def can_invest_def)

lemma list_all2_map_member:
  assumes "list_all2 P xs ys" and "\<And>x y. P x y \<Longrightarrow> y \<in> set ys \<Longrightarrow> Q x (f y)"
  shows "list_all2 Q xs (map f ys)"
  using assms by (simp add: list_all2_conv_all_nth)

lemma invested_ok:
  assumes ok: "idb_ok ids us s" and E: "iv_oid E = ids" "inj ids"
    and p: "p \<in> set (vd_pools s)" "accepts_contribution pid x p"
    and u: "u \<in> set (vd_users s)" "can_invest uid x u" and x: "0 < x"
    and r: "reservation_valid (new_reservation E (iv_oid E (vd_next s)) (ip_id p) (iu_id u) key x) (vd_reservations s) = None"
  shows "idb_ok ids us (invested E inp key x p u c txRef s)"
proof -
  let ?i = "new_investment (ids (Suc (vd_next s))) p u x txRef (ids (vd_next s)) c"
  let ?ps = "map (raised (ip_id p) x (list_ex (user_invested_in (ip_id p) (iu_id u)) (vd_investments s))) (vd_pools s)"
  have i: "pi_poolId ?i = ip_id p" "pi_userId ?i = iu_id u" "pi_amountNgn ?i = x" "pi_id ?i = ids (Suc (vd_next s))"
    by (simp_all add: new_investment_def)
  have d: "distinct (map ip_id (vd_pools s))" "list_all (investment_ok (vd_pools s)) (vd_investments s)"
    using ok by (auto simp: idb_ok_def)
  have ids_ps: "map ip_id ?ps = map ip_id (vd_pools s)" by simp
  have du: "distinct (map iu_id (vd_users s))"
    using ok user_ids [of "vd_investments s" us "vd_users s"] by (simp add: idb_ok_def)
  have "list_all (pool_ok (vd_investments s @ [?i])) ?ps"
    using ok pool_ok_raised [OF _ p(2,1) _ d i(1,2,3) x] by (simp add: idb_ok_def list_all_iff)
  moreover have same: "investment_ok ?ps j = investment_ok (vd_pools s) j" for j
    by (auto simp: investment_ok_def)
  then have "list_all (investment_ok ?ps) (vd_investments s @ [?i])"
    using d(2) p(1) x by (auto simp: list_all_iff) (auto simp: investment_ok_def new_investment_def)
  moreover have "list_all2 (user_ok (vd_investments s @ [?i])) us (map (\<lambda>v. if iu_id v = iu_id u then moved_user x v else v) (vd_users s))"
  proof (rule list_all2_map_member)
    show "list_all2 (user_ok (vd_investments s)) us (vd_users s)" using ok by (simp add: idb_ok_def)
    show "user_ok (vd_investments s @ [?i]) v0 (if iu_id v = iu_id u then moved_user x v else v)"
      if "user_ok (vd_investments s) v0 v" "v \<in> set (vd_users s)" for v0 v
      using that(1) u(2) _ i(2,3)
    proof (rule user_ok_moved)
      show "v = u \<or> iu_id v \<noteq> iu_id u" using that(2) u(1) du by (meson distinct_map inj_onD)
    qed
  qed
  moreover have "list_all2 reservation_of (vd_reservations s @
      [(new_reservation E (ids (vd_next s)) (ip_id p) (iu_id u) key x)\<lparr>rs_status := Rsv_SETTLED, rs_poolInvestmentId := Some (ids (Suc (vd_next s)))\<rparr>])
      (vd_investments s @ [?i])"
    using ok by (auto simp: idb_ok_def reservation_of_def new_reservation_def new_investment_def intro: list_all2_appendI)
  moreover have "(iu_id u, key) \<notin> (\<lambda>r. (rs_userId r, rs_idempotencyKey r)) ` set (vd_reservations s)"
    using r by (auto simp: reservation_valid_def new_reservation_def list_ex_iff split: if_splits)
  then have "distinct (map (\<lambda>r. (rs_userId r, rs_idempotencyKey r)) (vd_reservations s @
      [(new_reservation E (ids (vd_next s)) (ip_id p) (iu_id u) key x)\<lparr>rs_status := Rsv_SETTLED, rs_poolInvestmentId := Some (ids (Suc (vd_next s)))\<rparr>]))"
    using ok by (simp add: idb_ok_def new_reservation_def)
  moreover have "ids (Suc (vd_next s)) \<notin> pi_id ` set (vd_investments s)"
    using ok E(2) by (auto simp: idb_ok_def inj_eq)
  then have "distinct (map pi_id (vd_investments s @ [?i]))" using ok by (simp add: idb_ok_def i(4))
  moreover have "ip_id ` set (vd_pools s) \<subseteq> ids ` {..<Suc (Suc (vd_next s))}" "pi_id ` set (vd_investments s @ [?i]) \<subseteq> ids ` {..<Suc (Suc (vd_next s))}"
    using ok by (auto simp: idb_ok_def i(4) dest!: subsetD)
  ultimately show ?thesis
    using ok by (simp add: idb_ok_def invested_def Let_def E(1) image_image comp_def)
qed

subsection \<open>Every operation keeps it\<close>

text \<open>
  Beside whole calls, a run may contain single transactions of calls that overlap: what such
  a call read before plays no part in what its transaction writes.
\<close>

datatype invest_op =
  Create_pool pool_input | Invest invest_input | Invest_transaction invest_input string rat nat
| Expire time "txn_fault option"

fun invest_step :: "invest_env \<times> invest_op \<Rightarrow> idb \<Rightarrow> unit \<times> idb" where
  "invest_step (E, Create_pool inp) s = ((), snd (createPool E inp s))"
| "invest_step (E, Invest inp) s = ((), snd (investInPool E inp s))"
| "invest_step (E, Invest_transaction inp key x n) s = ((), snd (invest_attempt E inp key x n s))"
| "invest_step (E, Expire t fault) s = ((), snd (expireInvestmentReservations t fault s))"

fun good_invest_op :: "(nat \<Rightarrow> oid) \<Rightarrow> invest_env \<times> invest_op \<Rightarrow> bool" where
  "good_invest_op ids (E, Invest_transaction inp key x n) \<longleftrightarrow> iv_oid E = ids \<and> 0 < x"
| "good_invest_op ids (E, _) \<longleftrightarrow> iv_oid E = ids"

lemma idb_ok_users:
  assumes "idb_ok ids us s"
  shows "distinct (map iu_id (vd_users s))" and "list_all (\<lambda>u. 0 \<le> iu_heldBalance u) (vd_users s)"
proof -
  have l: "list_all2 (user_ok (vd_investments s)) us (vd_users s)" and "distinct (map iu_id us)"
    using assms by (auto simp: idb_ok_def)
  then show "distinct (map iu_id (vd_users s))" by (simp add: user_ids)
  show "list_all (\<lambda>u. 0 \<le> iu_heldBalance u) (vd_users s)"
    using l by (induction rule: list_all2_induct) (auto simp: user_ok_def)
qed

lemma invest_body_ok:
  assumes "idb_ok ids us s" and "iv_oid E = ids" "inj ids" and "0 < x" and "invest_body E inp key x s = Inr (r, s')"
  shows "idb_ok ids us s'"
proof -
  have d: "distinct (map ip_id (vd_pools s))" using assms(1) by (simp add: idb_ok_def)
  obtain p u c txRef where e: "p \<in> set (vd_pools s)" "accepts_contribution (vi_poolId inp) x p" "u \<in> set (vd_users s)"
      "can_invest (vi_userId inp) x u"
      "reservation_valid (new_reservation E (iv_oid E (vd_next s)) (ip_id p) (iu_id u) key x) (vd_reservations s) = None"
      "s' = invested E inp key x p u c txRef s"
    by (rule invest_body_effect [OF assms(5) d idb_ok_users [OF assms(1)]])
  show ?thesis unfolding e(6) by (rule invested_ok [OF assms(1-3) e(1-4) assms(4) e(5)])
qed

lemma attempt_cases:
  "invest_attempt E inp key x n s = (res, s') \<Longrightarrow>
     (s' = s \<and> (\<exists>e. res = Inl e)) \<or> (\<exists>r. res = Inr r \<and> invest_body E inp key x s = Inr (r, s'))"
  by (auto simp: invest_attempt_def split: option.splits sum.splits)

lemma invest_loop_cases:
  "invest_loop E inp key x ns s = (res, s') \<Longrightarrow>
     (s' = s \<and> (\<exists>e. res = Inl e)) \<or> (s' = s \<and> (\<exists>r. res = Inr r \<and> prior_result (vi_userId inp) key s = Inr (Some r)))
     \<or> (\<exists>r. res = Inr r \<and> invest_body E inp key x s = Inr (r, s'))"
proof (induction ns)
  case (Cons n ns)
  obtain a t where a: "invest_attempt E inp key x n s = (a, t)" by fastforce
  show ?case
  proof (cases a)
    case (Inr r)
    with a Cons.prems attempt_cases [OF a] show ?thesis by auto
  next
    case (Inl e)
    with attempt_cases [OF a] have t: "t = s" by simp
    show ?thesis
    proof (cases "if e = Invest_duplicate then prior_result (vi_userId inp) key s else Inr None")
      case (Inl e')
      with a \<open>a = Inl e\<close> t Cons.prems show ?thesis by auto
    next
      case (Inr o1)
      show ?thesis
      proof (cases o1)
        case (Some r)
        with Inr have "prior_result (vi_userId inp) key s = Inr (Some r)" by (simp split: if_splits)
        with Inr Some a \<open>a = Inl e\<close> t Cons.prems show ?thesis by auto
      next
        case None
        with Inr a \<open>a = Inl e\<close> t Cons.prems Cons.IH show ?thesis by (auto split: if_splits)
      qed
    qed
  qed
qed auto

lemma invest_cases:
  assumes "investInPool E inp s = (res, s')"
  shows "(s' = s \<and> (\<exists>e. res = Inl e))
    \<or> (s' = s \<and> (\<exists>r. res = Inr r \<and> prior_result (vi_userId inp) (idempotencyKeyFor E inp) s = Inr (Some r)))
    \<or> (\<exists>x r. vi_amountNgn inp = Fin x \<and> 0 < x \<and> res = Inr r \<and> invest_body E inp (idempotencyKeyFor E inp) x s = Inr (r, s'))"
proof (cases "vi_amountNgn inp")
  case (Fin x)
  let ?key = "idempotencyKeyFor E inp"
  let ?f = "find_one (\<lambda>r. rs_userId r = vi_userId inp \<and> rs_idempotencyKey r = ?key) (vd_reservations s)"
  show ?thesis
  proof (cases "cv_valid_oid E (vi_poolId inp) \<and> cv_valid_oid E (vi_userId inp) \<and> 0 < x")
    case False
    with Fin assms show ?thesis by (auto simp: investInPool_def split: if_splits)
  next
    case True
    show ?thesis
    proof (cases ?f)
      case (Some r)
      with Fin True assms show ?thesis
        by (auto simp: investInPool_def Let_def prior_result_def split: sum.splits option.splits)
    next
      case None
      with Fin True assms have "invest_loop E inp ?key x [0, 1, 2] s = (res, s')"
        by (simp add: investInPool_def Let_def)
      from invest_loop_cases [OF this] Fin True show ?thesis by auto
    qed
  qed
qed (use assms in \<open>auto simp: investInPool_def split: if_splits\<close>)

lemma nothing_expirable:
  assumes "idb_ok ids us s"
  shows "filter (expirable t) (vd_reservations s) = []"
proof -
  have "list_all2 reservation_of (vd_reservations s) (vd_investments s)" using assms by (simp add: idb_ok_def)
  then have "\<forall>r \<in> set (vd_reservations s). rs_status r = Rsv_SETTLED"
    by (induction rule: list_all2_induct) (auto simp: reservation_of_def)
  then show ?thesis by (auto simp: filter_empty_conv expirable_def)
qed

lemma expire_nothing:
  assumes "idb_ok ids us s"
  shows "expireInvestmentReservations t fault s = ((case fault of None \<Rightarrow> Inr 0 | Some f \<Rightarrow> Inl f), s)"
  by (simp add: expireInvestmentReservations_def nothing_expirable [OF assms] split: option.splits)

lemma createPool_Inr:
  "createPool E inp s = (Inr v, s') \<Longrightarrow> \<exists>target minc. s' = s\<lparr>vd_pools := vd_pools s @ [new_pool E inp (iv_oid E (vd_next s)) target minc],
      vd_next := Suc (vd_next s)\<rparr> \<and> 0 < target"
  by (auto simp: createPool_def Let_def split: jsnum.splits if_splits)

lemma createPool_Inl: "createPool E inp s = (Inl e, s') \<Longrightarrow> s' = s"
  by (auto simp: createPool_def Let_def split: jsnum.splits if_splits)

lemma createPool_cases:
  "snd (createPool E inp s) = s \<or>
   (\<exists>p. snd (createPool E inp s) = s\<lparr>vd_pools := vd_pools s @ [p], vd_next := Suc (vd_next s)\<rparr>
      \<and> ip_id p = iv_oid E (vd_next s) \<and> 0 < ip_targetAmountNgn p \<and> ip_status p = Pool_OPEN \<and> ip_currentRaisedNgn p = 0
      \<and> ip_investorCount p = 0)"
proof -
  obtain r s' where r: "createPool E inp s = (r, s')" by fastforce
  show ?thesis
  proof (cases r)
    case (Inl e)
    with r createPool_Inl [of E inp s e s'] show ?thesis by simp
  next
    case (Inr v)
    with r createPool_Inr [of E inp s v s'] obtain target minc where
      "s' = s\<lparr>vd_pools := vd_pools s @ [new_pool E inp (iv_oid E (vd_next s)) target minc], vd_next := Suc (vd_next s)\<rparr>" "0 < target"
      by auto
    with r show ?thesis by (intro disjI2 exI [of _ "new_pool E inp (iv_oid E (vd_next s)) target minc"]) (simp add: new_pool_def)
  qed
qed

lemma createPool_ok:
  assumes "idb_ok ids us s" and "iv_oid E = ids" and "inj ids"
  shows "idb_ok ids us (snd (createPool E inp s))"
proof -
  consider "snd (createPool E inp s) = s"
    | p where "snd (createPool E inp s) = s\<lparr>vd_pools := vd_pools s @ [p], vd_next := Suc (vd_next s)\<rparr>"
        "ip_id p = ids (vd_next s)" "0 < ip_targetAmountNgn p" "ip_status p = Pool_OPEN" "ip_currentRaisedNgn p = 0" "ip_investorCount p = 0"
    using createPool_cases [of E inp s] assms(2) by blast
  then show ?thesis
  proof cases
    case 1
    with assms(1) show ?thesis by simp
  next
    case (2 p)
    have new: "ip_id p \<notin> ip_id ` set (vd_pools s)"
      using assms(1,3) 2(2) by (auto simp: idb_ok_def inj_eq)
    have none: "pi_poolId i \<noteq> ip_id p" if "i \<in> set (vd_investments s)" for i
    proof -
      have "list_all (investment_ok (vd_pools s)) (vd_investments s)" using assms(1) by (simp add: idb_ok_def)
      with that have "investment_ok (vd_pools s) i" by (simp add: list_all_iff)
      then obtain q where "q \<in> set (vd_pools s)" "ip_id q = pi_poolId i" unfolding investment_ok_def by blast
      then have "pi_poolId i \<in> ip_id ` set (vd_pools s)" by (metis imageI)
      with new show ?thesis by metis
    qed
    then have "filter (\<lambda>i. pi_poolId i = ip_id p) (vd_investments s) = []" by (auto simp: filter_empty_conv)
    then have "pool_ok (vd_investments s) p"
      using 2(3-6) by (simp add: pool_ok_def raised_in_def investors_in_def)
    moreover have "list_all (investment_ok (vd_pools s @ [p])) (vd_investments s)"
      using assms(1) by (auto simp: idb_ok_def list_all_iff investment_ok_def)
    moreover have "ip_id ` set (vd_pools s @ [p]) \<subseteq> ids ` {..<Suc (vd_next s)}" "pi_id ` set (vd_investments s) \<subseteq> ids ` {..<Suc (vd_next s)}"
      using assms(1) 2(2) by (auto simp: idb_ok_def dest!: subsetD)
    ultimately show ?thesis unfolding 2(1) using assms(1) new by (simp add: idb_ok_def)
  qed
qed

lemma invest_step_ok:
  assumes "idb_ok ids us s" and "inj ids" and "good_invest_op ids i"
  shows "idb_ok ids us (snd (invest_step i s))"
proof (cases "(i, s)" rule: invest_step.cases)
  case (1 E inp s1)
  with assms createPool_ok [of ids us s E inp] show ?thesis by simp
next
  case (2 E inp s1)
  obtain res s' where r: "investInPool E inp s = (res, s')" by fastforce
  from 2 assms(3) have E: "iv_oid E = ids" by simp
  from invest_cases [OF r] assms invest_body_ok [OF assms(1) E assms(2)] have "idb_ok ids us s'" by blast
  with r 2 show ?thesis by simp
next
  case (3 E inp key x n s1)
  obtain res s' where r: "invest_attempt E inp key x n s = (res, s')" by fastforce
  from 3 assms(3) have E: "iv_oid E = ids" "0 < x" by auto
  from attempt_cases [OF r] assms invest_body_ok [OF assms(1) E(1) assms(2) E(2)] have "idb_ok ids us s'" by blast
  with r 3 show ?thesis by simp
next
  case (4 E t fault s1)
  with assms(1) expire_nothing [of ids us s t fault] show ?thesis by simp
qed

end
