(* ===== verification/Investment_Properties.thy ===== *)
theory Investment_Properties
  imports Investment_Theorems
begin

text \<open>The properties of the investment service, with a small pool for their witnesses.\<close>

definition fresh_idb :: "investor list \<Rightarrow> consent_db \<Rightarrow> idb" where
  "fresh_idb us cs = \<lparr> vd_pools = [], vd_users = us, vd_reservations = [], vd_investments = [],
     vd_transactions = [], vd_consents = cs, vd_next = 0 \<rparr>"

definition solvent :: "investor list \<Rightarrow> bool" where
  "solvent us \<longleftrightarrow> distinct (map iu_id us) \<and> list_all (\<lambda>u. 0 \<le> iu_availableBalance u \<and> 0 \<le> iu_heldBalance u) us"

lemma run_invest_ok:
  assumes "inj ids" and "list_all (good_invest_op ids) ops" and "solvent us"
  shows "idb_ok ids us (run_seq invest_step ops (fresh_idb us cs))"
proof (rule run_seq_invariant)
  show "idb_ok ids us (snd (invest_step i s))" if "i \<in> set ops" "idb_ok ids us s" for i s
    using that assms by (auto intro: invest_step_ok simp: list_all_iff)
  show "idb_ok ids us (fresh_idb us cs)"
    using assms(3) by (auto simp: idb_ok_def fresh_idb_def solvent_def list_all_iff list_all2_conv_all_nth user_ok_def invested_by_def)
qed

definition units_in :: "oid \<Rightarrow> pool_investment list \<Rightarrow> int" where
  "units_in pid is = (\<Sum>i\<leftarrow>filter (\<lambda>i. pi_poolId i = pid) is. pi_ownershipUnits i)"

lemma sum_units_bound:
  assumes "\<And>i. i \<in> set is \<Longrightarrow> of_int (pi_ownershipUnits i) \<le> pi_amountNgn i * 1000000 / t"
  shows "(of_int (\<Sum>i\<leftarrow>is. pi_ownershipUnits i) :: rat) \<le> (\<Sum>i\<leftarrow>is. pi_amountNgn i) * 1000000 / t"
  using assms by (induction "is") (force simp: field_simps add_divide_distrib)+

lemma units_bounded:
  assumes "idb_ok ids us s" and "p \<in> set (vd_pools s)"
  shows "units_in (ip_id p) (vd_investments s) \<le> TOTAL_OWNERSHIP_UNITS"
proof -
  let ?t = "ip_targetAmountNgn p" and ?is = "filter (\<lambda>i. pi_poolId i = ip_id p) (vd_investments s)"
  have p: "pool_ok (vd_investments s) p" using assms by (simp add: idb_ok_def list_all_iff)
  have d: "distinct (map ip_id (vd_pools s))" using assms(1) by (simp add: idb_ok_def)
  have "of_int (pi_ownershipUnits i) \<le> pi_amountNgn i * 1000000 / ?t" if "i \<in> set ?is" for i
  proof -
    have "list_all (investment_ok (vd_pools s)) (vd_investments s)" using assms(1) by (simp add: idb_ok_def)
    with that have "investment_ok (vd_pools s) i" by (simp add: list_all_iff)
    then obtain q where q: "q \<in> set (vd_pools s)" "ip_id q = pi_poolId i" "0 < pi_amountNgn i"
        "pi_ownershipUnits i = fst (calculateOwnership (pi_amountNgn i) (ip_targetAmountNgn q))"
      unfolding investment_ok_def by (metis fst_conv)
    have "q = p" using q(1,2) that assms(2) d by (auto simp: distinct_map dest: inj_onD)
    with q(3,4) p show ?thesis
      by (auto simp: calculateOwnership_def TOTAL_OWNERSHIP_UNITS_def pool_ok_def max_def)
  qed
  from sum_units_bound [of ?is, OF this]
  have "of_int (units_in (ip_id p) (vd_investments s)) \<le> raised_in (ip_id p) (vd_investments s) * 1000000 / ?t"
    by (simp add: units_in_def raised_in_def)
  also have "\<dots> \<le> ?t * 1000000 / ?t" using p by (intro divide_right_mono mult_right_mono) (auto simp: pool_ok_def)
  also have "\<dots> = 1000000" using p by (simp add: pool_ok_def)
  finally show ?thesis by (simp add: TOTAL_OWNERSHIP_UNITS_def)
qed

text \<open>
  C25. Whatever pools are created, whatever investments succeed, fail, repeat or overlap and
  whenever holds are expired: the total of a pool is the sum of its investments and never
  above its target, a pool is FUNDED exactly when it has reached the target, the investor count
  is the number of different investors, the ownership units handed out never exceed the
  million; and every wallet has lost exactly what its owner invested and is never overdrawn,
  with nothing left on hold.
\<close>
theorem pool_never_oversubscribed:
  assumes "inj ids" and "list_all (good_invest_op ids) ops" and "solvent us"
    and "s = run_seq invest_step ops (fresh_idb us cs)"
  shows "list_all (\<lambda>p. ip_currentRaisedNgn p = raised_in (ip_id p) (vd_investments s)
        \<and> ip_currentRaisedNgn p \<le> ip_targetAmountNgn p
        \<and> (ip_status p = Pool_FUNDED \<longleftrightarrow> ip_currentRaisedNgn p = ip_targetAmountNgn p)
        \<and> ip_investorCount p = card (investors_in (ip_id p) (vd_investments s))
        \<and> units_in (ip_id p) (vd_investments s) \<le> TOTAL_OWNERSHIP_UNITS) (vd_pools s)
    \<and> list_all2 (\<lambda>u v. iu_id v = iu_id u \<and> 0 \<le> iu_availableBalance v \<and> iu_heldBalance v = iu_heldBalance u
        \<and> iu_availableBalance v = iu_availableBalance u - invested_by (iu_id u) (vd_investments s)
        \<and> iu_totalInvested v = iu_totalInvested u + invested_by (iu_id u) (vd_investments s)) us (vd_users s)"
proof
  have ok: "idb_ok ids us s" unfolding assms(4) by (rule run_invest_ok [OF assms(1-3)])
  then have "list_all (pool_ok (vd_investments s)) (vd_pools s)" by (simp add: idb_ok_def)
  with units_bounded [OF ok] show "list_all (\<lambda>p. ip_currentRaisedNgn p = raised_in (ip_id p) (vd_investments s)
        \<and> ip_currentRaisedNgn p \<le> ip_targetAmountNgn p
        \<and> (ip_status p = Pool_FUNDED \<longleftrightarrow> ip_currentRaisedNgn p = ip_targetAmountNgn p)
        \<and> ip_investorCount p = card (investors_in (ip_id p) (vd_investments s))
        \<and> units_in (ip_id p) (vd_investments s) \<le> TOTAL_OWNERSHIP_UNITS) (vd_pools s)"
    by (auto simp: list_all_iff pool_ok_def split: if_splits)
  have "list_all2 (user_ok (vd_investments s)) us (vd_users s)" using ok by (simp add: idb_ok_def)
  then show "list_all2 (\<lambda>u v. iu_id v = iu_id u \<and> 0 \<le> iu_availableBalance v \<and> iu_heldBalance v = iu_heldBalance u
        \<and> iu_availableBalance v = iu_availableBalance u - invested_by (iu_id u) (vd_investments s)
        \<and> iu_totalInvested v = iu_totalInvested u + invested_by (iu_id u) (vd_investments s)) us (vd_users s)"
    by (rule list_all2_mono) (simp add: user_ok_def)
qed

text \<open>
  Nothing is ever on hold outside a transaction: the sweep that releases expired holds has
  nothing to do.
\<close>

lemma expiry_sweep_is_idle:
  assumes "inj ids" and "list_all (good_invest_op ids) ops" and "solvent us"
  shows "expireInvestmentReservations t None (run_seq invest_step ops (fresh_idb us cs))
    = (Inr 0, run_seq invest_step ops (fresh_idb us cs))"
  using expire_nothing [OF run_invest_ok [OF assms], of t None] by simp

subsection \<open>One investment\<close>

text \<open>
  A call that changes the database was an investment of a positive amount within the room
  of an open pool and above its minimum, by an approved user who had the money and who has
  accepted the documents in force for exactly these terms; it moves the amount from the wallet
  to the invested total, records one confirmed position with its share of the million units,
  one settled reservation and one transaction, and raises the pool, which becomes FUNDED when
  the target is reached.
\<close>
theorem investment_effect:
  assumes "inj ids" and "list_all (good_invest_op ids) ops" and "solvent us"
    and "s = run_seq invest_step ops (fresh_idb us cs)" and "investInPool E inp s = (res, s')" and "s' \<noteq> s"
  shows "\<exists>x p u c txRef r. vi_amountNgn inp = Fin x \<and> 0 < x \<and> res = Inr r
    \<and> p \<in> set (vd_pools s) \<and> ip_id p = vi_poolId inp \<and> ip_status p = Pool_OPEN
    \<and> ip_minContributionNgn p \<le> x \<and> x \<le> ip_targetAmountNgn p - ip_currentRaisedNgn p
    \<and> u \<in> set (vd_users s) \<and> can_invest (vi_userId inp) x u
    \<and> requireAcceptedConsent (consent_env.truncate E) (investment_requirement inp p x txRef) (vd_consents s) = Inr c
    \<and> s' = invested E inp (idempotencyKeyFor E inp) x p u c txRef s
    \<and> vr_amountNgn r = x \<and> vr_ownershipUnits r = \<lfloor>x * 1000000 / ip_targetAmountNgn p\<rfloor>
    \<and> vr_userBalanceNgn r = iu_availableBalance u - x"
proof -
  have ok: "idb_ok ids us s" unfolding assms(4) by (rule run_invest_ok [OF assms(1-3)])
  then have d: "distinct (map ip_id (vd_pools s))" by (simp add: idb_ok_def)
  from invest_cases [OF assms(5)] assms(6) obtain x r where x: "vi_amountNgn inp = Fin x" "0 < x" "res = Inr r"
      "invest_body E inp (idempotencyKeyFor E inp) x s = Inr (r, s')"
    by blast
  obtain p u c txRef where e: "p \<in> set (vd_pools s)" "accepts_contribution (vi_poolId inp) x p" "u \<in> set (vd_users s)"
      "can_invest (vi_userId inp) x u"
      "requireAcceptedConsent (consent_env.truncate E) (investment_requirement inp p x txRef) (vd_consents s) = Inr c"
      "s' = invested E inp (idempotencyKeyFor E inp) x p u c txRef s"
      "vr_ownershipUnits r = fst (calculateOwnership x (ip_targetAmountNgn p))"
      "vr_userBalanceNgn r = iu_availableBalance u - x" "vr_amountNgn r = x"
    by (rule invest_body_effect [OF x(4) d idb_ok_users [OF ok]])
  have "pool_ok (vd_investments s) p" using ok e(1) by (simp add: idb_ok_def list_all_iff)
  then have "0 < ip_targetAmountNgn p" by (simp add: pool_ok_def)
  then have "0 \<le> x * 1000000 / ip_targetAmountNgn p" using x(2) by simp
  then have "vr_ownershipUnits r = \<lfloor>x * 1000000 / ip_targetAmountNgn p\<rfloor>"
    unfolding e(7) calculateOwnership_def TOTAL_OWNERSHIP_UNITS_def by (simp add: max_def del: zero_le_floor) linarith
  with e x(1-3) show ?thesis unfolding accepts_contribution_def has_room_def by blast
qed

subsection \<open>A key invests once\<close>

definition same_position :: "invest_result \<Rightarrow> invest_result \<Rightarrow> bool" where
  "same_position r q \<longleftrightarrow> vr_poolId r = vr_poolId q \<and> vr_userId r = vr_userId q \<and> vr_amountNgn r = vr_amountNgn q
     \<and> vr_ownershipUnits r = vr_ownershipUnits q \<and> vr_ownershipBps r = vr_ownershipBps q \<and> vr_txRef r = vr_txRef q
     \<and> vr_consentAcceptanceId r = vr_consentAcceptanceId q \<and> vr_acceptedDocumentSetHash r = vr_acceptedDocumentSetHash q"

lemma same_position_refl [simp]: "same_position r r"
  by (simp add: same_position_def)

definition later :: "idb \<Rightarrow> idb \<Rightarrow> bool" where
  "later s t \<longleftrightarrow> (\<exists>rs. vd_reservations t = vd_reservations s @ rs) \<and> (\<exists>is. vd_investments t = vd_investments s @ is)
     \<and> ip_id ` set (vd_pools s) \<subseteq> ip_id ` set (vd_pools t) \<and> map iu_id (vd_users t) = map iu_id (vd_users s)"

lemma later_refl [simp]: "later s s"
  by (simp add: later_def)

lemma later_trans: "later s t \<Longrightarrow> later t u \<Longrightarrow> later s u"
  by (fastforce simp: later_def)

lemma later_invested: "later s (invested E inp key x p u c txRef s)"
  by (auto simp: later_def invested_def Let_def moved_user_def image_iff)

lemma later_body:
  assumes "idb_ok ids us s" and "invest_body E inp key x s = Inr (r, s')"
  shows "later s s'"
proof -
  have d: "distinct (map ip_id (vd_pools s))" using assms(1) by (simp add: idb_ok_def)
  show ?thesis
    by (rule invest_body_effect [OF assms(2) d idb_ok_users [OF assms(1)]]) (simp add: later_invested)
qed

lemma later_step:
  assumes "idb_ok ids us s" and "good_invest_op ids i"
  shows "later s (snd (invest_step i s))"
proof (cases "(i, s)" rule: invest_step.cases)
  case (1 E inp s1)
  then show ?thesis using createPool_cases [of E inp s] by (auto simp: later_def)
next
  case (2 E inp s1)
  obtain res s' where r: "investInPool E inp s = (res, s')" by fastforce
  from invest_cases [OF r] later_body [OF assms(1)] have "later s s'" by (metis later_refl)
  with r 2 show ?thesis by simp
next
  case (3 E inp key x n s1)
  obtain res s' where r: "invest_attempt E inp key x n s = (res, s')" by fastforce
  from attempt_cases [OF r] later_body [OF assms(1)] have "later s s'" by (metis later_refl)
  with r 3 show ?thesis by simp
next
  case (4 E t fault s1)
  with assms(1) expire_nothing [of ids us s t fault] show ?thesis by simp
qed

lemma later_run:
  assumes "idb_ok ids us s" and "inj ids" and "list_all (good_invest_op ids) ops"
  shows "later s (run_seq invest_step ops s) \<and> idb_ok ids us (run_seq invest_step ops s)"
  using assms(1,3)
proof (induction ops arbitrary: s)
  case (Cons i ops)
  then have "idb_ok ids us (snd (invest_step i s))" "later s (snd (invest_step i s))"
    using invest_step_ok [OF _ assms(2)] later_step by auto
  with Cons.IH Cons.prems show ?case using later_trans by fastforce
qed simp

lemma find_key_exists: "x \<in> k ` set ds \<Longrightarrow> \<exists>d. find_one (\<lambda>d. k d = x) ds = Some d \<and> k d = x"
  by (induction ds) auto

lemma prior_result_iff:
  "prior_result uid key s = Inr (Some r) \<longleftrightarrow>
    (\<exists>v iid i p u. find_one (\<lambda>r. rs_userId r = uid \<and> rs_idempotencyKey r = key) (vd_reservations s) = Some v
       \<and> rs_poolInvestmentId v = Some iid \<and> rs_status v = Rsv_SETTLED \<and> find_one (\<lambda>i. pi_id i = iid) (vd_investments s) = Some i
       \<and> find_one (\<lambda>p. ip_id p = rs_poolId v) (vd_pools s) = Some p \<and> find_one (\<lambda>u. iu_id u = rs_userId v) (vd_users s) = Some u
       \<and> r = reservation_result i p u)"
  by (auto simp: prior_result_def resultForReservation_def split: option.splits if_splits)

lemma prior_result_later:
  assumes "prior_result uid key s = Inr (Some r)" and "later s t"
  shows "\<exists>q. prior_result uid key t = Inr (Some q) \<and> same_position q r"
proof -
  obtain rs "is" where l: "vd_reservations t = vd_reservations s @ rs" "vd_investments t = vd_investments s @ is"
      "ip_id ` set (vd_pools s) \<subseteq> ip_id ` set (vd_pools t)" "iu_id ` set (vd_users t) = iu_id ` set (vd_users s)"
    using assms(2) unfolding later_def by (metis list.set_map)
  obtain v iid i p u where f: "find_one (\<lambda>r. rs_userId r = uid \<and> rs_idempotencyKey r = key) (vd_reservations s) = Some v"
      "rs_poolInvestmentId v = Some iid" "rs_status v = Rsv_SETTLED" "find_one (\<lambda>i. pi_id i = iid) (vd_investments s) = Some i"
      "find_one (\<lambda>p. ip_id p = rs_poolId v) (vd_pools s) = Some p" "find_one (\<lambda>u. iu_id u = rs_userId v) (vd_users s) = Some u"
      "r = reservation_result i p u"
    using assms(1) unfolding prior_result_iff by blast
  note f5 = find_one_SomeD [OF f(5)] and f6 = find_one_SomeD [OF f(6)]
  have "rs_poolId v \<in> ip_id ` set (vd_pools t)" using l(3) f5 by (metis image_eqI subsetD)
  then obtain p' where p': "find_one (\<lambda>p. ip_id p = rs_poolId v) (vd_pools t) = Some p'" "ip_id p' = rs_poolId v"
    using find_key_exists by metis
  have "rs_userId v \<in> iu_id ` set (vd_users t)" using l(4) f6 by (metis image_eqI)
  then obtain u' where u': "find_one (\<lambda>u. iu_id u = rs_userId v) (vd_users t) = Some u'" "iu_id u' = rs_userId v"
    using find_key_exists by metis
  have "prior_result uid key t = Inr (Some (reservation_result i p' u'))"
    unfolding prior_result_iff
    using f(1-4) p'(1) u'(1) by (simp add: l(1,2) find_one_append)
  moreover have "same_position (reservation_result i p' u') r"
    using f(7) f5 f6 p'(2) u'(2) by (simp add: same_position_def reservation_result_def)
  ultimately show ?thesis by blast
qed

lemma prior_result_fresh:
  assumes "idb_ok ids us s" and "iv_oid E = ids" "inj ids" and "0 < x" and "invest_body E inp key x s = Inr (r, s')"
  shows "\<exists>q. prior_result (vi_userId inp) key s' = Inr (Some q) \<and> same_position q r"
proof -
  have d: "distinct (map ip_id (vd_pools s))" using assms(1) by (simp add: idb_ok_def)
  obtain p u c txRef where e: "p \<in> set (vd_pools s)" "accepts_contribution (vi_poolId inp) x p" "u \<in> set (vd_users s)"
      "can_invest (vi_userId inp) x u"
      "reservation_valid (new_reservation E (iv_oid E (vd_next s)) (ip_id p) (iu_id u) key x) (vd_reservations s) = None"
      "s' = invested E inp key x p u c txRef s"
      "vr_ownershipUnits r = fst (calculateOwnership x (ip_targetAmountNgn p))" "vr_amountNgn r = x" "vr_txRef r = txRef"
      "vr_consentAcceptanceId r = ca_id c" "vr_userId r = iu_id u" "vr_poolId r = ip_id p"
      "vr_ownershipBps r = snd (calculateOwnership x (ip_targetAmountNgn p))" "vr_acceptedDocumentSetHash r = ca_documentSetHash c"
    by (rule invest_body_effect [OF assms(5) d idb_ok_users [OF assms(1)]])
  have uid: "vi_userId inp = iu_id u" using e(4) by (simp add: can_invest_def)
  let ?iid = "iv_oid E (Suc (vd_next s))" and ?rid = "iv_oid E (vd_next s)"
  let ?v = "(new_reservation E ?rid (ip_id p) (iu_id u) key x)\<lparr>rs_status := Rsv_SETTLED, rs_poolInvestmentId := Some ?iid\<rparr>"
  let ?i = "new_investment ?iid p u x txRef ?rid c"
  have "find_one (\<lambda>r. rs_userId r = vi_userId inp \<and> rs_idempotencyKey r = key) (vd_reservations s) = None"
    using e(5) by (auto simp: uid reservation_valid_def new_reservation_def list_ex_iff find_None_iff split: if_splits)
  then have v: "find_one (\<lambda>r. rs_userId r = vi_userId inp \<and> rs_idempotencyKey r = key) (vd_reservations s') = Some ?v"
    by (simp add: e(6) invested_def Let_def find_one_append uid new_reservation_def)
  have ok': "idb_ok ids us s'" by (rule invest_body_ok [OF assms])
  have "?i \<in> set (vd_investments s')" by (simp add: e(6) invested_def Let_def)
  moreover have "distinct (map pi_id (vd_investments s'))" using ok' by (simp add: idb_ok_def)
  ultimately have "find_one (\<lambda>j. pi_id j = pi_id ?i) (vd_investments s') = Some ?i" by (intro find_key_unique)
  then have i: "find_one (\<lambda>j. pi_id j = ?iid) (vd_investments s') = Some ?i" by (simp add: new_investment_def)
  have l: "later s s'" by (simp add: e(6) later_invested)
  then have "ip_id p \<in> ip_id ` set (vd_pools s')" using e(1) by (auto simp: later_def)
  then obtain p' where p': "find_one (\<lambda>q. ip_id q = ip_id p) (vd_pools s') = Some p'" "ip_id p' = ip_id p"
    using find_key_exists by metis
  have "iu_id u \<in> iu_id ` set (vd_users s')" using l e(3) unfolding later_def by (metis image_eqI list.set_map)
  then obtain u' where u': "find_one (\<lambda>v. iu_id v = iu_id u) (vd_users s') = Some u'" "iu_id u' = iu_id u"
    using find_key_exists by metis
  have "prior_result (vi_userId inp) key s' = Inr (Some (reservation_result ?i p' u'))"
    unfolding prior_result_iff using v i p'(1) u'(1) by (simp add: new_reservation_def)
  moreover have "same_position (reservation_result ?i p' u') r"
    using e(7-14) p'(2) u'(2) by (simp add: same_position_def reservation_result_def new_investment_def)
  ultimately show ?thesis by blast
qed

text \<open>
  After a successful investment, however the pools and wallets have changed since, a
  second call of the same user with the same key invests nothing: it answers with the position
  of the first one (pool, amount, units, reference, consent), whatever amount or pool it names.
\<close>
theorem investment_once:
  assumes "inj ids" and "list_all (good_invest_op ids) ops" and "solvent us"
    and "investInPool E inp (run_seq invest_step ops (fresh_idb us cs)) = (Inr r, s')" and "iv_oid E = ids"
    and "list_all (good_invest_op ids) ops'" and "t = run_seq invest_step ops' s'"
    and "vi_userId inp' = vi_userId inp" and "idempotencyKeyFor E' inp' = idempotencyKeyFor E inp"
    and "cv_valid_oid E' (vi_poolId inp')" and "cv_valid_oid E' (vi_userId inp')" and "vi_amountNgn inp' = Fin y" and "0 < y"
  shows "\<exists>q. investInPool E' inp' t = (Inr q, t) \<and> same_position q r"
proof -
  let ?s = "run_seq invest_step ops (fresh_idb us cs)" and ?key = "idempotencyKeyFor E inp"
  have ok: "idb_ok ids us ?s" by (rule run_invest_ok [OF assms(1-3)])
  have "(\<exists>q. prior_result (vi_userId inp) ?key s' = Inr (Some q) \<and> same_position q r) \<and> idb_ok ids us s'"
  proof -
    consider "prior_result (vi_userId inp) ?key s' = Inr (Some r)" "s' = ?s"
      | x where "0 < x" "invest_body E inp ?key x ?s = Inr (r, s')"
      using invest_cases [OF assms(4)] by auto
    then show ?thesis
    proof cases
      case 1
      with ok show ?thesis by (metis same_position_refl)
    next
      case (2 x)
      then show ?thesis
        using prior_result_fresh [OF ok assms(5,1)] invest_body_ok [OF ok assms(5,1)] by blast
    qed
  qed
  then obtain q where q: "prior_result (vi_userId inp) ?key s' = Inr (Some q)" "same_position q r" and ok': "idb_ok ids us s'"
    by blast
  have "later s' t" unfolding assms(7) using later_run [OF ok' assms(1,6)] by blast
  then obtain q' where q': "prior_result (vi_userId inp) ?key t = Inr (Some q')" "same_position q' q"
    using prior_result_later [OF q(1)] by blast
  have "same_position q' r" using q(2) q'(2) by (simp add: same_position_def)
  moreover have "investInPool E' inp' t = (Inr q', t)"
    using q'(1) assms(8-13)
    by (auto simp: investInPool_def Let_def prior_result_def split: option.splits)
  ultimately show ?thesis by blast
qed

subsection \<open>An example\<close>

definition demo_invest_env :: invest_env where
  "demo_invest_env = \<lparr> cv_now = 5, cv_valid_oid = (\<lambda>_. True), cv_sha = (\<lambda>_. ''h''), cv_num = (\<lambda>_. ''1''), cv_iso = (\<lambda>_. ''t''),
     cv_collate = (\<lambda>_ _. 0), cv_uuid = ''u'', cv_nonce = ''n'', iv_oid = (\<lambda>n. replicate n (CHR ''a'')), iv_key_uuid = ''k'',
     iv_fault = (\<lambda>_. None) \<rparr>"

definition demo_documents :: "legal_document list" where
  "demo_documents = map (\<lambda>k. demo_document\<lparr>ld_key := k\<rparr>) REQUIRED_INVESTMENT_DOCUMENTS"

definition demo_acceptance :: consent_acceptance where
  "demo_acceptance = \<lparr> ca_id = ''acc'', ca_challengeId = ''chal'', ca_userId = ''u1'', ca_role = Consent_investor, ca_locale = ''en'',
     ca_jurisdiction = ''NG'', ca_documentVersionIds = [], ca_documentSetHash = ''h'',
     ca_intent = \<lparr> sm_type = Intent_pool_investment, sm_id = [], sm_summaryHash = ''h'' \<rparr>, ca_consentHash = ''h'',
     ca_renderManifest = J_null, ca_acceptedAt = 1, ca_withdrawnAt = None, ca_withdrawalReason = None, ca_grandfathered = False \<rparr>"

definition demo_consents :: consent_db where
  "demo_consents = \<lparr> co_documents = demo_documents, co_challenges = [], co_acceptances = [demo_acceptance] \<rparr>"

definition demo_investor :: investor where
  "demo_investor = \<lparr> iu_id = ''u1'', iu_role = None, iu_availableBalance = 10000, iu_heldBalance = 0, iu_totalInvested = 0,
     iu_kycStatus = Some ''approved_stage2'', iu_isKycVerified = None, iu_kycVerified = None \<rparr>"

definition demo_pool :: pool_input where
  "demo_pool = \<lparr> po_assetType = Asset_KEKE, po_createdBy = ''ad'', po_targetAmountNgn = Some (Fin 20000), po_minContributionNgn = None,
     po_description = None \<rparr>"

definition demo_invest :: invest_input where
  "demo_invest = \<lparr> vi_poolId = [], vi_userId = ''u1'', vi_amountNgn = Fin 6000, vi_txRef = Some ''t1'', vi_idempotencyKey = None,
     vi_consentAcceptanceId = Some ''acc'', vi_jurisdiction = ''NG'', vi_role = Consent_investor \<rparr>"

definition demo_invest_ops :: "(invest_env \<times> invest_op) list" where
  "demo_invest_ops = [(demo_invest_env, Create_pool demo_pool)]"

abbreviation demo_pool_db :: idb where
  "demo_pool_db \<equiv> run_seq invest_step demo_invest_ops (fresh_idb [demo_investor] demo_consents)"

lemma demo_invest_ids: "inj (\<lambda>n. replicate n (CHR ''a''))"
  by (rule injI) (metis length_replicate)

lemma demo_invest_good:
  "list_all (good_invest_op (\<lambda>n. replicate n (CHR ''a''))) demo_invest_ops" "solvent [demo_investor]"
  by (simp_all add: demo_invest_ops_def demo_invest_env_def solvent_def demo_investor_def)

lemma demo_invest_succeeds: "is_ok (fst (investInPool demo_invest_env demo_invest demo_pool_db))"
  by code_simp

lemma demo_invest_raises: "map ip_currentRaisedNgn (vd_pools (snd (investInPool demo_invest_env demo_invest demo_pool_db))) = [6000]"
  by code_simp

lemma pool_never_oversubscribed_witness:
  "list_all (\<lambda>p. ip_currentRaisedNgn p \<le> ip_targetAmountNgn p)
     (vd_pools (run_seq invest_step (demo_invest_ops @ [(demo_invest_env, Invest demo_invest)]) (fresh_idb [demo_investor] demo_consents)))"
proof -
  have "list_all (good_invest_op (\<lambda>n. replicate n (CHR ''a''))) (demo_invest_ops @ [(demo_invest_env, Invest demo_invest)])"
    by (simp add: demo_invest_ops_def demo_invest_env_def)
  from conjunct1 [OF pool_never_oversubscribed [OF demo_invest_ids this demo_invest_good(2) refl, of demo_consents]]
  show ?thesis by (rule list.pred_mono_strong) blast
qed

lemma investment_effect_witness:
  "\<exists>p \<in> set (vd_pools demo_pool_db). 6000 \<le> ip_targetAmountNgn p - ip_currentRaisedNgn p"
proof -
  obtain res s' where r: "investInPool demo_invest_env demo_invest demo_pool_db = (res, s')" by fastforce
  have "map ip_currentRaisedNgn (vd_pools s') = [6000]" using demo_invest_raises r by simp
  moreover have "map ip_currentRaisedNgn (vd_pools demo_pool_db) = [0]" by code_simp
  ultimately have "s' \<noteq> demo_pool_db" by force
  from investment_effect [OF demo_invest_ids demo_invest_good refl r this]
  show ?thesis by (auto simp: demo_invest_def)
qed

lemma investment_once_witness:
  "\<exists>q t. investInPool demo_invest_env demo_invest t = (Inr q, t) \<and> t \<noteq> demo_pool_db"
proof -
  obtain r s' where r: "investInPool demo_invest_env demo_invest demo_pool_db = (Inr r, s')"
    using demo_invest_succeeds by (cases "investInPool demo_invest_env demo_invest demo_pool_db") (auto elim: is_okE)
  have "map ip_currentRaisedNgn (vd_pools s') = [6000]" using demo_invest_raises r by simp
  moreover have "map ip_currentRaisedNgn (vd_pools demo_pool_db) = [0]" by code_simp
  ultimately have "s' \<noteq> demo_pool_db" by force
  moreover have "\<exists>q. investInPool demo_invest_env demo_invest s' = (Inr q, s') \<and> same_position q r"
    by (rule investment_once [OF demo_invest_ids demo_invest_good r, of "[]" s' demo_invest demo_invest_env 6000])
       (simp_all add: demo_invest_env_def demo_invest_def)
  ultimately show ?thesis by blast
qed

end
