(* ===== verification/Gateway_Service.thy ===== *)
theory Gateway_Service
  imports Platform
begin

text \<open>
  Crediting a payment reported by the provider: \<open>processGatewayCharge\<close> of
  \<open>lib/services/paystack-processing.service.ts\<close>, called by the verification route and by the
  webhook for the same reference.

  \<open>withTransaction\<close> may run its callback several times: an attempt is committed, rolled back and
  repeated, or given up.  The variables that the callback assigns outside itself
  (\<open>gateway_locals\<close>) survive a rollback, the database does not.
\<close>

subsection \<open>Documents\<close>

datatype gateway_payment = Wallet_funding | Down_payment
datatype processed_via = Via_verify | Via_webhook

record gateway_event =
  ge_id :: string
  ge_paymentType :: gateway_payment
  ge_processedVia :: processed_via

record gateway_user =
  gu_id :: oid
  gu_email :: string
  gu_role :: "string option"
  gu_availableBalance :: "rat option"

record gateway_loan =
  gl_id :: oid
  gl_downPaymentMade :: bool
  gl_downPaymentAmount :: rat
  gl_downPaymentDate :: "time option"

record gateway_tx =
  gt_userId :: oid
  gt_userType :: string
  gt_amount :: rat
  gt_type :: string
  gt_status :: string
  gt_method :: string
  gt_gatewayReference :: string
  gt_relatedId :: "string option"
  gt_timestamp :: time

record gateway_db =
  gw_events :: "gateway_event list"
  gw_users :: "gateway_user list"
  gw_loans :: "gateway_loan list"
  gw_txs :: "gateway_tx list"
  gw_audits :: "audit_row list"

text \<open>
  \<open>gv_retries\<close> is how often the driver runs the callback again; \<open>gv_dup_fault\<close> is what becomes of a
  transaction in which an insert met a duplicate key and the callback returned: the server has
  aborted it, so the driver may give up with an error (\<open>Some\<close>) or end it without effect (\<open>None\<close>).
\<close>

record gateway_env = env +
  gv_retries :: nat
  gv_dup_fault :: "driver_error option"

record charge_input =
  gi_reference :: string
  gi_paymentType :: gateway_payment
  gi_amountNgn :: jsnum
  gi_userId :: "string option"
  gi_loanId :: "string option"
  gi_email :: "string option"
  gi_fallbackUserId :: "string option"
  gi_processedVia :: processed_via

datatype charge_result =
  Funded_wallet bool rat rat
| Paid_down bool rat "string option"

datatype gateway_error = Gateway_refused string | Gateway_driver driver_error | Gateway_audit_failure

record gateway_locals =
  lo_createdLock :: bool
  lo_result :: "charge_result option"
  lo_user :: "oid option"
  lo_loan :: "oid option"

definition no_locals :: gateway_locals where
  "no_locals = \<lparr> lo_createdLock = False, lo_result = None, lo_user = None, lo_loan = None \<rparr>"

subsection \<open>Look-ups\<close>

definition balance_of :: "gateway_user \<Rightarrow> rat" where
  "balance_of u = (case gu_availableBalance u of None \<Rightarrow> 0 | Some x \<Rightarrow> x)"

definition by_object_id :: "gateway_env \<Rightarrow> string option \<Rightarrow> gateway_user list \<Rightarrow> gateway_user option" where
  "by_object_id E v us =
     (case v of None \<Rightarrow> None
      | Some x \<Rightarrow> if valid_oid E x then find_one (\<lambda>u. gu_id u = x) us else None)"

definition resolveUserByMetadata :: "gateway_env \<Rightarrow> charge_input \<Rightarrow> gateway_user list \<Rightarrow> gateway_user option" where
  "resolveUserByMetadata E inp us =
     (case by_object_id E (gi_userId inp) us of Some u \<Rightarrow> Some u | None \<Rightarrow>
     (case by_object_id E (gi_fallbackUserId inp) us of Some u \<Rightarrow> Some u | None \<Rightarrow>
       (if truthy (gi_email inp) then find_one (\<lambda>u. gu_email u = js_lower (the (gi_email inp))) us else None)))"

text \<open>The completed transaction of a reference with the latest timestamp.\<close>

fun latest_tx :: "gateway_tx list \<Rightarrow> gateway_tx option" where
  "latest_tx [] = None"
| "latest_tx (t # ts) =
     (case latest_tx ts of None \<Rightarrow> Some t
      | Some t' \<Rightarrow> if gt_timestamp t < gt_timestamp t' then Some t' else Some t)"

definition loadExistingProcessedResult :: "string \<Rightarrow> gateway_db \<Rightarrow> charge_result" where
  "loadExistingProcessedResult ref s =
     (let from_lock = (case find_one (\<lambda>e. ge_id e = ref) (gw_events s) of
            Some e \<Rightarrow> if ge_paymentType e = Down_payment then Paid_down True 0 None else Funded_wallet True 0 0
          | None \<Rightarrow> Funded_wallet True 0 0)
      in case latest_tx (filter (\<lambda>t. gt_gatewayReference t = ref \<and> gt_status t = ''Completed'') (gw_txs s)) of
           None \<Rightarrow> from_lock
         | Some t \<Rightarrow>
             if gt_type t = ''down_payment'' then
               Paid_down True (gt_amount t) (if truthy (gt_relatedId t) then gt_relatedId t else None)
             else if gt_type t = ''wallet_funding'' then
               Funded_wallet True (gt_amount t)
                 (case find_one (\<lambda>u. gu_id u = gt_userId t) (gw_users s) of None \<Rightarrow> 0 | Some u \<Rightarrow> balance_of u)
             else from_lock)"

subsection \<open>The callback of the transaction\<close>

definition gateway_event_of :: "string \<Rightarrow> charge_input \<Rightarrow> gateway_event" where
  "gateway_event_of ref inp =
     \<lparr> ge_id = ref, ge_paymentType = gi_paymentType inp, ge_processedVia = gi_processedVia inp \<rparr>"

definition role_or :: "string \<Rightarrow> gateway_user \<Rightarrow> string" where
  "role_or d u = (if truthy (gu_role u) then the (gu_role u) else d)"

definition down_payment_tx :: "gateway_env \<Rightarrow> string \<Rightarrow> rat \<Rightarrow> gateway_user \<Rightarrow> gateway_loan \<Rightarrow> gateway_tx" where
  "down_payment_tx E ref x u l =
     \<lparr> gt_userId = gu_id u, gt_userType = role_or ''driver'' u, gt_amount = x, gt_type = ''down_payment'',
       gt_status = ''Completed'', gt_method = ''paystack'', gt_gatewayReference = ref,
       gt_relatedId = Some (gl_id l), gt_timestamp = now E \<rparr>"

definition wallet_funding_tx :: "gateway_env \<Rightarrow> string \<Rightarrow> rat \<Rightarrow> gateway_user \<Rightarrow> gateway_tx" where
  "wallet_funding_tx E ref x u =
     \<lparr> gt_userId = gu_id u, gt_userType = role_or ''investor'' u, gt_amount = x, gt_type = ''wallet_funding'',
       gt_status = ''Completed'', gt_method = ''paystack'', gt_gatewayReference = ref,
       gt_relatedId = None, gt_timestamp = now E \<rparr>"

definition mark_down_payment :: "gateway_env \<Rightarrow> rat \<Rightarrow> gateway_loan \<Rightarrow> gateway_loan" where
  "mark_down_payment E x l = l\<lparr>gl_downPaymentMade := True, gl_downPaymentAmount := x, gl_downPaymentDate := Some (now E)\<rparr>"

definition credit_wallet :: "rat \<Rightarrow> gateway_user \<Rightarrow> gateway_user" where
  "credit_wallet x u = u\<lparr>gu_availableBalance := Some (balance_of u + x)\<rparr>"

definition down_payment_body ::
  "gateway_env \<Rightarrow> string \<Rightarrow> rat \<Rightarrow> charge_input \<Rightarrow> gateway_locals \<Rightarrow> gateway_db \<Rightarrow> (gateway_error + unit) \<times> gateway_locals \<times> gateway_db" where
  "down_payment_body E ref x inp lv s =
     (let loan = (case gi_loanId inp of None \<Rightarrow> None
                  | Some i \<Rightarrow> if valid_oid E i then find_one (\<lambda>l. gl_id l = i) (gw_loans s) else None)
      in case (loan, resolveUserByMetadata E inp (gw_users s)) of
           (Some l, Some u) \<Rightarrow>
             (Inr (),
              lv\<lparr>lo_loan := Some (gl_id l), lo_user := Some (gu_id u), lo_result := Some (Paid_down False x (Some (gl_id l)))\<rparr>,
              s\<lparr>gw_loans := update_one (\<lambda>m. gl_id m = gl_id l) (mark_down_payment E x) (gw_loans s),
                gw_txs := gw_txs s @ [down_payment_tx E ref x u l]\<rparr>)
         | _ \<Rightarrow> (Inl (Gateway_refused ''Unable to resolve down payment context.''), lv, s))"

definition wallet_body ::
  "gateway_env \<Rightarrow> string \<Rightarrow> rat \<Rightarrow> charge_input \<Rightarrow> gateway_locals \<Rightarrow> gateway_db \<Rightarrow> (gateway_error + unit) \<times> gateway_locals \<times> gateway_db" where
  "wallet_body E ref x inp lv s =
     (case resolveUserByMetadata E inp (gw_users s) of
        None \<Rightarrow> (Inl (Gateway_refused ''User not found for this transaction.''), lv, s)
      | Some u \<Rightarrow>
          (Inr (),
           lv\<lparr>lo_user := Some (gu_id u), lo_result := Some (Funded_wallet False x (balance_of u + x))\<rparr>,
           s\<lparr>gw_users := update_one (\<lambda>v. gu_id v = gu_id u) (credit_wallet x) (gw_users s),
             gw_txs := gw_txs s @ [wallet_funding_tx E ref x u]\<rparr>))"

definition gateway_callback ::
  "gateway_env \<Rightarrow> string \<Rightarrow> rat \<Rightarrow> charge_input \<Rightarrow> gateway_locals \<Rightarrow> gateway_db \<Rightarrow> (gateway_error + unit) \<times> gateway_locals \<times> gateway_db" where
  "gateway_callback E ref x inp lv s =
     (if ref \<in> ge_id ` set (gw_events s) then
        (case gv_dup_fault E of None \<Rightarrow> (Inr (), lv, s) | Some f \<Rightarrow> (Inl (Gateway_driver f), lv, s))
      else (let lv1 = lv\<lparr>lo_createdLock := True\<rparr>; s1 = s\<lparr>gw_events := gw_events s @ [gateway_event_of ref inp]\<rparr>
            in if gi_paymentType inp = Down_payment then down_payment_body E ref x inp lv1 s1
               else wallet_body E ref x inp lv1 s1))"

subsection \<open>Attempts\<close>

datatype attempt_end = Att_commit | Att_rollback | Att_abort driver_error

definition gateway_attempt ::
  "gateway_env \<Rightarrow> string \<Rightarrow> rat \<Rightarrow> charge_input \<Rightarrow> attempt_end \<Rightarrow> gateway_locals \<Rightarrow> gateway_db
    \<Rightarrow> (gateway_error + unit) \<times> gateway_locals \<times> gateway_db" where
  "gateway_attempt E ref x inp out lv s =
     (case gateway_callback E ref x inp lv s of
        (Inl e, lv', _) \<Rightarrow> (Inl e, lv', s)
      | (Inr _, lv', s') \<Rightarrow>
          (case out of Att_commit \<Rightarrow> (Inr (), lv', s') | Att_rollback \<Rightarrow> (Inr (), lv', s) | Att_abort f \<Rightarrow> (Inl (Gateway_driver f), lv', s)))"

primrec gateway_attempts ::
  "gateway_env \<Rightarrow> string \<Rightarrow> rat \<Rightarrow> charge_input \<Rightarrow> nat \<Rightarrow> gateway_locals \<Rightarrow> gateway_db
    \<Rightarrow> (gateway_error + unit) \<times> gateway_locals \<times> gateway_db" where
  "gateway_attempts E ref x inp 0 lv s =
     gateway_attempt E ref x inp (case commit_fault E of None \<Rightarrow> Att_commit | Some f \<Rightarrow> Att_abort f) lv s"
| "gateway_attempts E ref x inp (Suc n) lv s =
     (case gateway_attempt E ref x inp Att_rollback lv s of
        (Inl e, lv', s') \<Rightarrow> (Inl e, lv', s')
      | (Inr _, lv', s') \<Rightarrow> gateway_attempts E ref x inp n lv' s')"

definition charge_event :: "string \<Rightarrow> rat \<Rightarrow> charge_input \<Rightarrow> gateway_locals \<Rightarrow> string option \<Rightarrow> audit_event" where
  "charge_event ref x inp lv failure =
     (let wallet = gi_paymentType inp = Wallet_funding in
      \<lparr> ev_actor = None,
        ev_action = (if wallet then ''wallet.credit'' else ''loan.down_payment''),
        ev_targetType = (if wallet then ''user'' else ''loan''),
        ev_targetId = (if wallet then lo_user lv else lo_loan lv),
        ev_success = (failure = None),
        ev_meta = [(''reference'', MStr ref), (''paymentType'', MStr (if wallet then ''wallet_funding'' else ''down_payment'')),
          (''processedVia'', MStr (if gi_processedVia inp = Via_verify then ''verify'' else ''webhook'')), (''amountNgn'', MNum x)]
          @ (case failure of None \<Rightarrow> [] | Some m \<Rightarrow> [(''error'', MStr m)]) \<rparr>)"

definition error_message :: "gateway_error \<Rightarrow> string" where
  "error_message e = (case e of Gateway_refused m \<Rightarrow> m | _ \<Rightarrow> ''driver error'')"

definition finish_charge ::
  "gateway_env \<Rightarrow> string \<Rightarrow> rat \<Rightarrow> charge_input \<Rightarrow> gateway_error + unit \<Rightarrow> gateway_locals \<Rightarrow> gateway_db
    \<Rightarrow> (gateway_error + charge_result) \<times> gateway_db" where
  "finish_charge E ref x inp r lv s =
     (case r of
        Inl e \<Rightarrow>
          (case log_audit_event (env.truncate E) None (charge_event ref x inp lv (Some (error_message e))) (gw_audits s) of
             None \<Rightarrow> (Inl Gateway_audit_failure, s)
           | Some rows \<Rightarrow> (Inl e, s\<lparr>gw_audits := rows\<rparr>))
      | Inr _ \<Rightarrow>
          if \<not> lo_createdLock lv then (Inr (loadExistingProcessedResult ref s), s)
          else (case lo_result lv of
             None \<Rightarrow> (Inl (Gateway_refused ''Unable to process payment.''), s)
           | Some res \<Rightarrow>
               (case log_audit_event (env.truncate E) None (charge_event ref x inp lv None) (gw_audits s) of
                  None \<Rightarrow> (Inl Gateway_audit_failure, s)
                | Some rows \<Rightarrow> (Inr res, s\<lparr>gw_audits := rows\<rparr>))))"

definition processGatewayCharge :: "gateway_env \<Rightarrow> charge_input \<Rightarrow> gateway_db \<Rightarrow> (gateway_error + charge_result) \<times> gateway_db" where
  "processGatewayCharge E inp s =
     (let ref = js_trim (gi_reference inp) in
      if ref = [] then (Inl (Gateway_refused ''Payment reference is required.''), s)
      else case gi_amountNgn inp of
        Fin x \<Rightarrow>
          (if x \<le> 0 then (Inl (Gateway_refused ''Invalid payment amount.''), s)
           else (case gateway_attempts E ref x inp (gv_retries E) no_locals s of
                   (r, lv, s') \<Rightarrow> finish_charge E ref x inp r lv s'))
      | _ \<Rightarrow> (Inl (Gateway_refused ''Invalid payment amount.''), s))"

end
