(* ===== verification/Gateway_Theorems.thy ===== *)
theory Gateway_Theorems
  imports Gateway_Service
begin

text \<open>
  What any interleaving of attempts keeps: one transaction per reference, wallets that match
  their transactions; and what a repeated call answers.
\<close>

subsection \<open>One attempt\<close>

definition funded :: "oid \<Rightarrow> gateway_tx list \<Rightarrow> rat" where
  "funded uid ts = (\<Sum>t\<leftarrow>filter (\<lambda>t. gt_userId t = uid \<and> gt_type t = ''wallet_funding'') ts. gt_amount t)"

definition down_paid :: "oid \<Rightarrow> gateway_tx list \<Rightarrow> bool" where
  "down_paid lid ts = list_ex (\<lambda>t. gt_relatedId t = Some lid \<and> gt_type t = ''down_payment'') ts"

lemma funded_append [simp]: "funded uid (ts @ us) = funded uid ts + funded uid us"
  by (simp add: funded_def)

lemma funded_Cons [simp]:
  "funded uid (t # ts) = (if gt_userId t = uid \<and> gt_type t = ''wallet_funding'' then gt_amount t else 0) + funded uid ts"
  "funded uid [] = 0"
  by (simp_all add: funded_def)

lemma down_paid_append [simp]: "down_paid lid (ts @ us) = (down_paid lid ts \<or> down_paid lid us)"
  by (simp add: down_paid_def)

lemma down_paid_Cons [simp]:
  "down_paid lid (t # ts) = (gt_relatedId t = Some lid \<and> gt_type t = ''down_payment'' \<or> down_paid lid ts)"
  "down_paid lid [] = False"
  by (simp_all add: down_paid_def)

lemma tx_sel [simp]:
  "gt_userId (wallet_funding_tx E ref x u) = gu_id u" "gt_type (wallet_funding_tx E ref x u) = ''wallet_funding''"
  "gt_amount (wallet_funding_tx E ref x u) = x" "gt_gatewayReference (wallet_funding_tx E ref x u) = ref"
  "gt_relatedId (wallet_funding_tx E ref x u) = None" "gt_status (wallet_funding_tx E ref x u) = ''Completed''"
  "gt_userId (down_payment_tx E ref x u l) = gu_id u" "gt_type (down_payment_tx E ref x u l) = ''down_payment''"
  "gt_amount (down_payment_tx E ref x u l) = x" "gt_gatewayReference (down_payment_tx E ref x u l) = ref"
  "gt_relatedId (down_payment_tx E ref x u l) = Some (gl_id l)" "gt_status (down_payment_tx E ref x u l) = ''Completed''"
  by (simp_all add: wallet_funding_tx_def down_payment_tx_def)

lemma by_object_id_Some: "by_object_id E v us = Some u \<Longrightarrow> u \<in> set us"
  by (auto simp: by_object_id_def split: option.splits if_splits dest!: find_one_SomeD)

lemma resolve_Some: "resolveUserByMetadata E inp us = Some u \<Longrightarrow> u \<in> set us"
  by (auto simp: resolveUserByMetadata_def split: option.splits if_splits dest!: find_one_SomeD by_object_id_Some)

text \<open>What a successful callback with a fresh reference has done.\<close>

definition wallet_done :: "gateway_env \<Rightarrow> string \<Rightarrow> rat \<Rightarrow> charge_input \<Rightarrow> gateway_user \<Rightarrow> gateway_db \<Rightarrow> gateway_db" where
  "wallet_done E ref x inp u s =
     s\<lparr>gw_events := gw_events s @ [gateway_event_of ref inp],
       gw_users := update_one (\<lambda>v. gu_id v = gu_id u) (credit_wallet x) (gw_users s),
       gw_txs := gw_txs s @ [wallet_funding_tx E ref x u]\<rparr>"

definition down_done :: "gateway_env \<Rightarrow> string \<Rightarrow> rat \<Rightarrow> charge_input \<Rightarrow> gateway_user \<Rightarrow> gateway_loan \<Rightarrow> gateway_db \<Rightarrow> gateway_db" where
  "down_done E ref x inp u l s =
     s\<lparr>gw_events := gw_events s @ [gateway_event_of ref inp],
       gw_loans := update_one (\<lambda>m. gl_id m = gl_id l) (mark_down_payment E x) (gw_loans s),
       gw_txs := gw_txs s @ [down_payment_tx E ref x u l]\<rparr>"

lemma callback_cases:
  assumes "gateway_callback E ref x inp lv s = (Inr (), lv', s')"
  obtains (seen) "ref \<in> ge_id ` set (gw_events s)" "s' = s" "lv' = lv"
  | (wallet) u where "ref \<notin> ge_id ` set (gw_events s)" "gi_paymentType inp = Wallet_funding" "u \<in> set (gw_users s)"
      "s' = wallet_done E ref x inp u s" "lo_createdLock lv'" "lo_result lv' = Some (Funded_wallet False x (balance_of u + x))"
  | (down) u l where "ref \<notin> ge_id ` set (gw_events s)" "gi_paymentType inp = Down_payment" "u \<in> set (gw_users s)" "l \<in> set (gw_loans s)"
      "gi_loanId inp = Some (gl_id l)" "valid_oid E (gl_id l)"
      "s' = down_done E ref x inp u l s" "lo_createdLock lv'" "lo_result lv' = Some (Paid_down False x (Some (gl_id l)))"
proof (cases "ref \<in> ge_id ` set (gw_events s)")
  case True
  with assms show thesis by (intro seen) (auto simp: gateway_callback_def split: option.splits)
next
  case False
  show thesis
  proof (cases "gi_paymentType inp")
    case Wallet_funding
    with assms False obtain u where u: "resolveUserByMetadata E inp (gw_users s) = Some u"
      by (auto simp: gateway_callback_def wallet_body_def Let_def split: option.splits)
    show thesis
      using assms False Wallet_funding u resolve_Some [OF u]
      by (intro wallet [of u]) (auto simp: gateway_callback_def wallet_body_def wallet_done_def Let_def)
  next
    case Down_payment
    with assms False obtain u l where u: "resolveUserByMetadata E inp (gw_users s) = Some u"
      and l: "gi_loanId inp = Some (gl_id l)" "valid_oid E (gl_id l)" "find_one (\<lambda>m. gl_id m = gl_id l) (gw_loans s) = Some l"
      by (auto simp: gateway_callback_def down_payment_body_def Let_def split: option.splits if_splits dest: find_one_SomeD)
    show thesis
      using assms False Down_payment u l resolve_Some [OF u] find_one_SomeD [OF l(3)]
      by (intro down [of u l]) (auto simp: gateway_callback_def down_payment_body_def down_done_def Let_def)
  qed
qed

lemma wallet_attempt_cases:
  assumes "gateway_attempt E ref x inp out lv s = (r, lv', s')"
  obtains "s' = s"
  | "gateway_callback E ref x inp lv s = (Inr (), lv', s')" "out = Att_commit" "r = Inr ()"
  using assms by (auto simp: gateway_attempt_def split: prod.splits sum.splits attempt_end.splits unit.splits)

subsection \<open>The invariant\<close>

definition user_matches :: "gateway_tx list \<Rightarrow> gateway_user \<Rightarrow> gateway_user \<Rightarrow> bool" where
  "user_matches ts u v \<longleftrightarrow> gu_id v = gu_id u \<and> balance_of v = balance_of u + funded (gu_id u) ts"

definition loan_matches :: "gateway_tx list \<Rightarrow> gateway_loan \<Rightarrow> gateway_loan \<Rightarrow> bool" where
  "loan_matches ts l m \<longleftrightarrow> gl_id m = gl_id l \<and> gl_downPaymentMade m = (gl_downPaymentMade l \<or> down_paid (gl_id l) ts)"

definition gateway_ok :: "gateway_user list \<Rightarrow> gateway_loan list \<Rightarrow> gateway_db \<Rightarrow> bool" where
  "gateway_ok us ls s \<longleftrightarrow> distinct (map ge_id (gw_events s)) \<and> map gt_gatewayReference (gw_txs s) = map ge_id (gw_events s)
     \<and> list_all (\<lambda>t. gt_status t = ''Completed'' \<and> gt_type t \<in> {''wallet_funding'', ''down_payment''}) (gw_txs s)
     \<and> list_all2 (user_matches (gw_txs s)) us (gw_users s) \<and> list_all2 (loan_matches (gw_txs s)) ls (gw_loans s)"

lemma matched_keys:
  "list_all2 (user_matches ts) us vs \<Longrightarrow> map gu_id vs = map gu_id us"
  "list_all2 (loan_matches ts) ls ms \<Longrightarrow> map gl_id ms = map gl_id ls"
  by (auto simp: list_all2_conv_all_nth user_matches_def loan_matches_def intro!: nth_equalityI)

lemma wallet_done_ok:
  assumes ok: "gateway_ok us ls s" and d: "distinct (map gu_id us)" and new: "ref \<notin> ge_id ` set (gw_events s)" and u: "u \<in> set (gw_users s)"
  shows "gateway_ok us ls (wallet_done E ref x inp u s)"
proof -
  let ?t = "wallet_funding_tx E ref x u"
  have us: "list_all2 (user_matches (gw_txs s)) us (gw_users s)" and ls: "list_all2 (loan_matches (gw_txs s)) ls (gw_loans s)"
    using ok by (auto simp: gateway_ok_def)
  have "distinct (map gu_id (gw_users s))" using d matched_keys(1) [OF us] by simp
  then have upd: "update_one (\<lambda>v. gu_id v = gu_id u) (credit_wallet x) (gw_users s)
      = map (\<lambda>v. if gu_id v = gu_id u then credit_wallet x v else v) (gw_users s)"
    by (rule update_one_by_key)
  have "user_matches (gw_txs s @ [?t]) w (if gu_id v = gu_id u then credit_wallet x v else v)" if "user_matches (gw_txs s) w v" for w v
    using that by (auto simp: user_matches_def credit_wallet_def balance_of_def split: option.splits)
  with us have "list_all2 (user_matches (gw_txs s @ [?t])) us (map (\<lambda>v. if gu_id v = gu_id u then credit_wallet x v else v) (gw_users s))"
    by (auto simp: list_all2_conv_all_nth)
  moreover have "list_all2 (loan_matches (gw_txs s @ [?t])) ls (gw_loans s)"
    using ls by (rule list_all2_mono) (simp add: loan_matches_def)
  ultimately show ?thesis using ok new by (auto simp: gateway_ok_def wallet_done_def upd gateway_event_of_def)
qed

lemma down_done_ok:
  assumes ok: "gateway_ok us ls s" and d: "distinct (map gl_id ls)" and new: "ref \<notin> ge_id ` set (gw_events s)" and l: "l \<in> set (gw_loans s)"
  shows "gateway_ok us ls (down_done E ref x inp u l s)"
proof -
  let ?t = "down_payment_tx E ref x u l"
  have us: "list_all2 (user_matches (gw_txs s)) us (gw_users s)" and ls: "list_all2 (loan_matches (gw_txs s)) ls (gw_loans s)"
    using ok by (auto simp: gateway_ok_def)
  have "distinct (map gl_id (gw_loans s))" using d matched_keys(2) [OF ls] by simp
  then have upd: "update_one (\<lambda>m. gl_id m = gl_id l) (mark_down_payment E x) (gw_loans s)
      = map (\<lambda>m. if gl_id m = gl_id l then mark_down_payment E x m else m) (gw_loans s)"
    by (rule update_one_by_key)
  have "loan_matches (gw_txs s @ [?t]) k (if gl_id m = gl_id l then mark_down_payment E x m else m)" if "loan_matches (gw_txs s) k m" for k m
    using that by (auto simp: loan_matches_def mark_down_payment_def)
  with ls have "list_all2 (loan_matches (gw_txs s @ [?t])) ls (map (\<lambda>m. if gl_id m = gl_id l then mark_down_payment E x m else m) (gw_loans s))"
    by (auto simp: list_all2_conv_all_nth)
  moreover have "list_all2 (user_matches (gw_txs s @ [?t])) us (gw_users s)"
    using us by (rule list_all2_mono) (simp add: user_matches_def)
  ultimately show ?thesis using ok new by (auto simp: gateway_ok_def down_done_def upd gateway_event_of_def)
qed

lemma attempt_ok:
  assumes "gateway_attempt E ref x inp out lv s = (r, lv', s')" and "gateway_ok us ls s"
    and "distinct (map gu_id us)" and "distinct (map gl_id ls)"
  shows "gateway_ok us ls s'"
  using assms(1)
proof (cases rule: wallet_attempt_cases)
  case 1
  with assms show ?thesis by simp
next
  case 2
  from 2(1) show ?thesis
    by (cases rule: callback_cases) (use assms in \<open>auto intro: wallet_done_ok down_done_ok\<close>)
qed

text \<open>An attempt of any call, with whatever its variables hold from earlier attempts.\<close>

datatype gateway_move = Attempt gateway_env string rat charge_input attempt_end gateway_locals

fun gateway_step :: "gateway_move \<Rightarrow> gateway_db \<Rightarrow> (gateway_error + unit) \<times> gateway_db" where
  "gateway_step (Attempt E ref x inp out lv) s = (case gateway_attempt E ref x inp out lv s of (r, lv', s') \<Rightarrow> (r, s'))"

definition unpaid_gateway :: "gateway_user list \<Rightarrow> gateway_loan list \<Rightarrow> gateway_db" where
  "unpaid_gateway us ls = \<lparr> gw_events = [], gw_users = us, gw_loans = ls, gw_txs = [], gw_audits = [] \<rparr>"

lemma step_ok:
  assumes "gateway_ok us ls s" and "distinct (map gu_id us)" and "distinct (map gl_id ls)"
  shows "gateway_ok us ls (snd (gateway_step m s))"
  using assms by (cases m) (auto split: prod.splits dest: attempt_ok)

lemma run_gateway_ok:
  assumes "distinct (map gu_id us)" and "distinct (map gl_id ls)" and "gateway_ok us ls s"
  shows "gateway_ok us ls (run_seq gateway_step ms s)"
  by (rule run_seq_invariant [where I = "gateway_ok us ls"]) (auto simp: step_ok assms)

lemma unpaid_ok: "gateway_ok us ls (unpaid_gateway us ls)"
  by (auto simp: gateway_ok_def unpaid_gateway_def list_all2_conv_all_nth user_matches_def loan_matches_def)

text \<open>
  C26. However the verification route and the webhook interleave their attempts, repeat them
  after a rollback or give them up: a reference has at most one completed transaction and it
  has one exactly when its event is recorded; a wallet has grown by the amounts of its funding
  transactions, and a loan is marked paid down exactly when it was before or a down payment
  names it.
\<close>
theorem gateway_credits_once:
  assumes "distinct (map gu_id us)" and "distinct (map gl_id ls)"
    and "s = run_seq gateway_step ms (unpaid_gateway us ls)"
  shows "distinct (map gt_gatewayReference (gw_txs s))
    \<and> map gt_gatewayReference (gw_txs s) = map ge_id (gw_events s)
    \<and> list_all2 (\<lambda>u v. gu_id v = gu_id u \<and> balance_of v = balance_of u + funded (gu_id u) (gw_txs s)) us (gw_users s)
    \<and> list_all2 (\<lambda>l m. gl_id m = gl_id l \<and> gl_downPaymentMade m = (gl_downPaymentMade l \<or> down_paid (gl_id l) (gw_txs s))) ls (gw_loans s)"
proof -
  have ok: "gateway_ok us ls s" unfolding assms(3) by (rule run_gateway_ok [OF assms(1,2) unpaid_ok])
  then have "distinct (map gt_gatewayReference (gw_txs s))" "map gt_gatewayReference (gw_txs s) = map ge_id (gw_events s)"
    by (simp_all add: gateway_ok_def)
  moreover have "list_all2 (user_matches (gw_txs s)) us (gw_users s)" using ok by (simp add: gateway_ok_def)
  moreover have "list_all2 (loan_matches (gw_txs s)) ls (gw_loans s)" using ok by (simp add: gateway_ok_def)
  ultimately show ?thesis by (auto simp: user_matches_def loan_matches_def elim: list_all2_mono)
qed

subsection \<open>Repeating a call\<close>

lemma attempts_Inr:
  assumes "gateway_attempts E ref x inp n lv s = (Inr (), lv', s')"
  shows "commit_fault E = None \<and> (\<exists>lv1. gateway_callback E ref x inp lv1 s = (Inr (), lv', s')
           \<and> (ref \<in> ge_id ` set (gw_events s) \<longrightarrow> lv1 = lv))"
  using assms
proof (induction n arbitrary: lv)
  case 0
  then show ?case by (auto simp: gateway_attempt_def split: prod.splits sum.splits unit.splits option.splits attempt_end.splits)
next
  case (Suc n)
  then obtain lv1 where a: "gateway_attempt E ref x inp Att_rollback lv s = (Inr (), lv1, s)"
      "gateway_attempts E ref x inp n lv1 s = (Inr (), lv', s')"
    by (auto simp: gateway_attempt_def split: prod.splits sum.splits unit.splits)
  have "lv1 = lv" if "ref \<in> ge_id ` set (gw_events s)"
    using a(1) that by (simp add: gateway_attempt_def gateway_callback_def split: option.splits)
  with Suc.IH [OF a(2)] show ?case by blast
qed

lemma step_txs: "\<exists>new. gw_txs (snd (gateway_step m s)) = gw_txs s @ new"
proof (cases m)
  case (Attempt E ref x inp out lv)
  obtain r lv' s' where a: "gateway_attempt E ref x inp out lv s = (r, lv', s')" by (metis surj_pair)
  then have "\<exists>new. gw_txs s' = gw_txs s @ new"
  proof (cases rule: wallet_attempt_cases)
    case 2
    from 2(1) show ?thesis by (cases rule: callback_cases) (auto simp: wallet_done_def down_done_def)
  qed simp
  with a Attempt show ?thesis by simp
qed

lemma run_txs: "\<exists>new. gw_txs (run_seq gateway_step ms s) = gw_txs s @ new"
proof (induction ms arbitrary: s)
  case (Cons m ms)
  from Cons [of "snd (gateway_step m s)"] step_txs [of m s] show ?case by auto
qed simp

definition same_charge :: "charge_result \<Rightarrow> charge_result \<Rightarrow> bool" where
  "same_charge r r' \<longleftrightarrow> (case (r, r') of
     (Funded_wallet _ x _, Funded_wallet a y _) \<Rightarrow> a \<and> y = x
   | (Paid_down _ x l, Paid_down a y l') \<Rightarrow> a \<and> y = x \<and> l' = l
   | _ \<Rightarrow> False)"

definition tells :: "gateway_tx \<Rightarrow> charge_result \<Rightarrow> bool" where
  "tells t r \<longleftrightarrow> (case r of
     Funded_wallet _ x _ \<Rightarrow> gt_type t = ''wallet_funding'' \<and> gt_amount t = x
   | Paid_down _ x l \<Rightarrow> gt_type t = ''down_payment'' \<and> gt_amount t = x \<and> l = (if truthy (gt_relatedId t) then gt_relatedId t else None))"

lemma existing_result:
  assumes "gateway_ok us ls s" and "t \<in> set (gw_txs s)"
  shows "tells t (loadExistingProcessedResult (gt_gatewayReference t) s)
    \<and> (\<forall>r. tells t r \<longrightarrow> same_charge r (loadExistingProcessedResult (gt_gatewayReference t) s))"
proof -
  have "distinct (map gt_gatewayReference (gw_txs s))" using assms(1) by (simp add: gateway_ok_def)
  note f = filter_key_unique [OF this assms(2)]
  have "filter (\<lambda>u. gt_gatewayReference u = gt_gatewayReference t \<and> gt_status u = ''Completed'') (gw_txs s)
      = filter (\<lambda>u. gt_gatewayReference u = gt_gatewayReference t) (gw_txs s)"
    using assms(1) by (intro filter_cong) (auto simp: gateway_ok_def list_all_iff)
  with f have "filter (\<lambda>u. gt_gatewayReference u = gt_gatewayReference t \<and> gt_status u = ''Completed'') (gw_txs s) = [t]"
    by simp
  moreover have "gt_type t \<in> {''wallet_funding'', ''down_payment''}" using assms by (auto simp: gateway_ok_def list_all_iff)
  ultimately show ?thesis
    by (auto simp: loadExistingProcessedResult_def tells_def same_charge_def split: charge_result.splits)
qed

lemma charge_InrE:
  assumes "processGatewayCharge E inp s = (Inr r, s')"
  obtains x lv s1 where "gi_amountNgn inp = Fin x"
    "gateway_attempts E (js_trim (gi_reference inp)) x inp (gv_retries E) no_locals s = (Inr (), lv, s1)"
    "finish_charge E (js_trim (gi_reference inp)) x inp (Inr ()) lv s1 = (Inr r, s')"
proof (cases "gi_amountNgn inp")
  case (Fin x)
  obtain q lv s1 where a: "gateway_attempts E (js_trim (gi_reference inp)) x inp (gv_retries E) no_locals s = (q, lv, s1)"
    by (metis surj_pair)
  with assms Fin have f: "finish_charge E (js_trim (gi_reference inp)) x inp q lv s1 = (Inr r, s')"
    by (simp add: processGatewayCharge_def Let_def split: if_splits)
  show thesis
  proof (cases q)
    case (Inl e)
    with f show thesis by (simp add: finish_charge_def split: option.splits)
  next
    case (Inr v)
    with that [OF Fin] a f show thesis by (cases v) simp
  qed
qed (use assms in \<open>simp_all add: processGatewayCharge_def Let_def split: if_splits\<close>)

lemma charge_recorded:
  assumes ok: "gateway_ok us ls s" and d: "distinct (map gu_id us)" "distinct (map gl_id ls)" and no_empty: "\<not> valid_oid E []"
    and c: "processGatewayCharge E inp s = (Inr r, s')"
  shows "gateway_ok us ls s' \<and> (\<exists>t \<in> set (gw_txs s'). gt_gatewayReference t = js_trim (gi_reference inp) \<and> tells t r)"
proof -
  let ?ref = "js_trim (gi_reference inp)"
  obtain x lv s1 where x: "gi_amountNgn inp = Fin x"
      and a: "gateway_attempts E ?ref x inp (gv_retries E) no_locals s = (Inr (), lv, s1)"
      and f: "finish_charge E ?ref x inp (Inr ()) lv s1 = (Inr r, s')"
    using c by (rule charge_InrE)
  from attempts_Inr [OF a] obtain lv1 where cb: "gateway_callback E ?ref x inp lv1 s = (Inr (), lv, s1)"
      and lv1: "?ref \<in> ge_id ` set (gw_events s) \<longrightarrow> lv1 = no_locals" by blast
  from cb show ?thesis
  proof (cases rule: callback_cases)
    case seen
    then have s': "s' = s" "r = loadExistingProcessedResult ?ref s"
      using f lv1 by (auto simp: finish_charge_def no_locals_def)
    from seen(1) ok have "?ref \<in> gt_gatewayReference ` set (gw_txs s)"
      by (metis (mono_tags, lifting) gateway_ok_def list.set_map)
    then obtain t where "t \<in> set (gw_txs s)" "?ref = gt_gatewayReference t" by blast
    with existing_result [OF ok this(1)] ok s' show ?thesis by auto
  next
    case (wallet u)
    from wallet f obtain rows where "s' = s1\<lparr>gw_audits := rows\<rparr>" "r = Funded_wallet False x (balance_of u + x)"
      by (auto simp: finish_charge_def split: option.splits)
    moreover have "gateway_ok us ls s1" using wallet ok d by (auto intro: wallet_done_ok)
    ultimately show ?thesis using wallet
      by (auto simp: gateway_ok_def wallet_done_def tells_def)
  next
    case (down u l)
    from down f obtain rows where "s' = s1\<lparr>gw_audits := rows\<rparr>" "r = Paid_down False x (Some (gl_id l))"
      by (auto simp: finish_charge_def split: option.splits)
    moreover have "gateway_ok us ls s1" using down ok d by (auto intro: down_done_ok)
    moreover have "gl_id l \<noteq> []" using down(6) no_empty by auto
    ultimately show ?thesis using down
      by (auto simp: gateway_ok_def down_done_def tells_def truthy_def)
  qed
qed

text \<open>
  Once a call for a reference has answered, every later call for it - from the other route,
  with another amount or user, after any attempts in between - changes nothing at all and
  answers that the payment was already processed, with the amount and the loan of the first, when the
  driver ends the transaction with the duplicate key without an error.
\<close>
theorem gateway_replay:
  assumes "distinct (map gu_id us)" and "distinct (map gl_id ls)" and "\<not> valid_oid E []"
    and "processGatewayCharge E inp (run_seq gateway_step ms (unpaid_gateway us ls)) = (Inr r, s)"
    and "s' = run_seq gateway_step ms' s" and "js_trim (gi_reference inp') = js_trim (gi_reference inp)"
    and "gi_amountNgn inp' = Fin x" and "0 < x" and "commit_fault E' = None" and "gv_dup_fault E' = None"
  shows "\<exists>r'. processGatewayCharge E' inp' s' = (Inr r', s') \<and> same_charge r r'"
proof -
  let ?ref = "js_trim (gi_reference inp)"
  from charge_recorded [OF run_gateway_ok [OF assms(1,2) unpaid_ok] assms(1-4)]
  obtain t where ok: "gateway_ok us ls s" and t: "t \<in> set (gw_txs s)" "gt_gatewayReference t = ?ref" "tells t r" by blast
  have ok': "gateway_ok us ls s'" unfolding assms(5) by (rule run_gateway_ok [OF assms(1,2) ok])
  have t': "t \<in> set (gw_txs s')" using run_txs [of ms' s] t(1) by (auto simp: assms(5))
  have ref: "?ref \<noteq> []" using assms(4) by (auto simp: processGatewayCharge_def)
  have "map gt_gatewayReference (gw_txs s') = map ge_id (gw_events s')" using ok' by (simp add: gateway_ok_def)
  then have seen: "?ref \<in> ge_id ` set (gw_events s')" using t' t(2) by (metis image_eqI list.set_map)
  have "gateway_attempts E' ?ref x inp' n no_locals s' = (Inr (), no_locals, s')" for n
    using seen assms(9,10) by (induction n) (simp_all add: gateway_attempt_def gateway_callback_def)
  then have "processGatewayCharge E' inp' s' = (Inr (loadExistingProcessedResult ?ref s'), s')"
    using assms(6-8) ref by (simp add: processGatewayCharge_def finish_charge_def no_locals_def)
  with existing_result [OF ok' t'] t(2,3) show ?thesis by metis
qed

subsection \<open>A payment that both routes report\<close>

definition demo_gateway_env :: gateway_env where
  "demo_gateway_env = \<lparr> now = 5, valid_oid = (\<lambda>v. v \<noteq> []), tamper_ok = (\<lambda>_. True), auditlog_ok = True, critical_cfg = None,
     commit_fault = None, gv_retries = 1, gv_dup_fault = None \<rparr>"

definition demo_charge :: "processed_via \<Rightarrow> charge_input" where
  "demo_charge v = \<lparr> gi_reference = ''psk'', gi_paymentType = Wallet_funding, gi_amountNgn = Fin 2500, gi_userId = Some ''u1'',
     gi_loanId = None, gi_email = None, gi_fallbackUserId = None, gi_processedVia = v \<rparr>"

definition demo_gateway_user :: gateway_user where
  "demo_gateway_user = \<lparr> gu_id = ''u1'', gu_email = ''a'', gu_role = Some ''investor'', gu_availableBalance = Some 100 \<rparr>"

abbreviation demo_unpaid :: gateway_db where
  "demo_unpaid \<equiv> unpaid_gateway [demo_gateway_user] []"

definition demo_moves :: "gateway_move list" where
  "demo_moves = map (\<lambda>(v, out). Attempt demo_gateway_env ''psk'' 2500 (demo_charge v) out no_locals)
     [(Via_verify, Att_rollback), (Via_webhook, Att_commit), (Via_verify, Att_commit)]"

lemma demo_moves_users: "map gu_availableBalance (gw_users (run_seq gateway_step demo_moves demo_unpaid)) = [Some 2600]"
  by code_simp

lemma gateway_credits_once_witness:
  "distinct (map gt_gatewayReference (gw_txs (run_seq gateway_step demo_moves demo_unpaid)))"
  by (rule conjunct1 [OF gateway_credits_once [where us = "[demo_gateway_user]" and ls = "[]" and ms = demo_moves]]) simp_all

lemma demo_charge_result:
  "fst (processGatewayCharge demo_gateway_env (demo_charge Via_verify) (run_seq gateway_step [] demo_unpaid)) = Inr (Funded_wallet False 2500 2600)"
  by code_simp

lemma gateway_replay_witness:
  "\<exists>s r'. processGatewayCharge demo_gateway_env (demo_charge Via_webhook) s = (Inr r', s) \<and> same_charge (Funded_wallet False 2500 2600) r'"
proof -
  obtain s where r: "processGatewayCharge demo_gateway_env (demo_charge Via_verify) (run_seq gateway_step [] demo_unpaid)
      = (Inr (Funded_wallet False 2500 2600), s)"
    using demo_charge_result by (metis prod.collapse)
  have "\<exists>r'. processGatewayCharge demo_gateway_env (demo_charge Via_webhook) s = (Inr r', s) \<and> same_charge (Funded_wallet False 2500 2600) r'"
    by (rule gateway_replay [where ms' = "[]" and x = 2500, OF _ _ _ r])
       (simp_all add: demo_gateway_env_def demo_charge_def)
  then show ?thesis by blast
qed

text \<open>
  The variables of the callback outlive a rollback: a call whose first attempt is rolled back and
  whose second attempt finds the reference taken by the other route still answers with the
  result of its first attempt, as if it had credited the wallet itself.
\<close>

lemma rolled_back_attempt_answers:
  defines "first \<equiv> gateway_attempt demo_gateway_env ''psk'' 2500 (demo_charge Via_verify) Att_rollback no_locals demo_unpaid"
  shows "case first of (_, lv, s) \<Rightarrow>
    let s1 = snd (gateway_step (Attempt demo_gateway_env ''psk'' 2500 (demo_charge Via_webhook) Att_commit no_locals) s)
    in case gateway_attempt demo_gateway_env ''psk'' 2500 (demo_charge Via_verify) Att_commit lv s1 of (r, lv', s2) \<Rightarrow>
         fst (finish_charge demo_gateway_env ''psk'' 2500 (demo_charge Via_verify) r lv' s2) = Inr (Funded_wallet False 2500 2600)
         \<and> map gu_availableBalance (gw_users s2) = [Some 2600]"
  unfolding first_def by code_simp

end
