(* ===== verification/Audit_Chain.thy ===== *)
theory Audit_Chain
  imports Js_Sort Json_Text
begin

text \<open>
  The tamper-evident audit log: \<open>lib/security/audit-hash.ts\<close>, \<open>tamper-evident-audit.ts\<close> and
  \<open>audit-checkpoint.ts\<close> with the documents of \<open>models/TamperEvidentAuditLog.ts\<close>,
  \<open>models/AuditSequence.ts\<close> and \<open>models/AuditCheckpoint.ts\<close>.

  SHA-256, HMAC, number and date texts and random identifiers are arguments.  What the
  collection gives back for the metadata of an event is the argument \<open>ax_stored\<close>.
  An entry is written in two steps, as the code does across its \<open>await\<close>s: a sequence number
  is reserved, then the event is linked to its predecessor and inserted.
\<close>

subsection \<open>Canonical data\<close>

text \<open>\<open>sortObjectKeys\<close>: a date is an object without keys here.\<close>

fun sortObjectKeys :: "json \<Rightarrow> json" where
  "sortObjectKeys (J_date t) = J_object []"
| "sortObjectKeys (J_array xs) = J_array (map sortObjectKeys xs)"
| "sortObjectKeys (J_object kvs) = J_object (sort_key fst (map (\<lambda>kv. (fst kv, sortObjectKeys (snd kv))) kvs))"
| "sortObjectKeys j = j"

record audit_entry =
  tl_sequence :: nat
  tl_eventId :: string
  tl_actorId :: "string option"
  tl_actorRole :: "string option"
  tl_actorIdentifier :: "string option"
  tl_action :: string
  tl_targetType :: string
  tl_targetId :: "string option"
  tl_status :: string
  tl_requestId :: "string option"
  tl_metadata :: "json option"
  tl_ipAddress :: "string option"
  tl_userAgent :: "string option"
  tl_timestamp :: time
  tl_previousHash :: string
  tl_eventHash :: string
  tl_canonicalData :: string
  tl_partition :: string
  tl_isLegacy :: bool

record audit_sequence =
  aq_partition :: string
  aq_nextSequence :: nat

record audit_checkpoint =
  kp_partition :: string
  kp_number :: nat
  kp_startSequence :: nat
  kp_endSequence :: nat
  kp_startEventHash :: string
  kp_endEventHash :: string
  kp_rootHash :: string
  kp_signature :: string
  kp_signedBy :: string
  kp_signedAt :: time
  kp_eventCount :: nat

record audit_db =
  au_events :: "audit_entry list"
  au_sequences :: "audit_sequence list"
  au_checkpoints :: "audit_checkpoint list"

datatype audit_stage = At_connect | At_reserve | At_create | At_checkpoint

record audit_env =
  ax_now :: time
  ax_month :: string
  ax_sha :: "string \<Rightarrow> string"
  ax_hmac :: "string \<Rightarrow> string \<Rightarrow> string"
  ax_num :: "rat \<Rightarrow> string"
  ax_iso :: "time \<Rightarrow> string"
  ax_uuid :: string
  ax_stored :: "json option \<Rightarrow> json option"
  ax_key :: string
  ax_previousKeys :: "string list"
  ax_fault :: "audit_stage option"

text \<open>A field whose value is \<open>undefined\<close> does not appear in the text.\<close>

definition text_field :: "string \<Rightarrow> string option \<Rightarrow> (string \<times> json) list" where
  "text_field k v = (if truthy v then [(k, J_string (the v))] else [])"

definition buildCanonicalAuditEventData :: "audit_env \<Rightarrow> audit_entry \<Rightarrow> json" where
  "buildCanonicalAuditEventData E e = J_object
     ([(''sequence'', J_number (of_nat (tl_sequence e))), (''eventId'', J_string (tl_eventId e))]
      @ text_field ''actorId'' (tl_actorId e) @ text_field ''actorRole'' (tl_actorRole e)
      @ text_field ''actorIdentifier'' (tl_actorIdentifier e)
      @ [(''action'', J_string (tl_action e)), (''targetType'', J_string (tl_targetType e))]
      @ text_field ''targetId'' (tl_targetId e)
      @ [(''status'', J_string (tl_status e))]
      @ text_field ''requestId'' (tl_requestId e)
      @ (case tl_metadata e of None \<Rightarrow> [] | Some m \<Rightarrow> [(''metadata'', m)])
      @ text_field ''ipAddress'' (tl_ipAddress e) @ text_field ''userAgent'' (tl_userAgent e)
      @ [(''timestamp'', J_string (ax_iso E (tl_timestamp e))), (''partition'', J_string (tl_partition e)),
         (''previousHash'', J_string (tl_previousHash e))]
      @ (if tl_isLegacy e then [(''isLegacy'', J_bool True)] else []))"

definition canonicalizeEventData :: "audit_env \<Rightarrow> json \<Rightarrow> string" where
  "canonicalizeEventData E j = json_text (ax_num E) (sortObjectKeys j)"

definition computeEventHash :: "audit_env \<Rightarrow> string \<Rightarrow> string" where
  "computeEventHash E d = ax_sha E d"

definition computeChainHash :: "audit_env \<Rightarrow> string \<Rightarrow> json \<Rightarrow> string" where
  "computeChainHash E previousHash d = ax_sha E (previousHash @ canonicalizeEventData E d)"

definition computeRootHash :: "audit_env \<Rightarrow> string list \<Rightarrow> string" where
  "computeRootHash E hs =
     (case hs of [] \<Rightarrow> ax_sha E ''EMPTY_ROOT'' | [h] \<Rightarrow> h | _ \<Rightarrow> ax_sha E (concat hs))"

definition getGenesisHash :: "audit_env \<Rightarrow> string \<Rightarrow> string" where
  "getGenesisHash E part = ax_sha E (''GENESIS:'' @ part)"

subsection \<open>Metadata\<close>

definition sensitiveFields :: "string list" where
  "sensitiveFields = [''password'', ''token'', ''secret'', ''apiKey'', ''privateKey'', ''accessToken'', ''refreshToken'',
     ''sessionId'', ''kycDocument'', ''rawKycData'', ''ssn'', ''taxId'', ''creditCard'', ''bankAccount'']"

fun sanitize_json :: "json \<Rightarrow> json" where
  "sanitize_json (J_object kvs) =
     J_object (map (\<lambda>kv. (fst kv, sanitize_json (snd kv))) (filter (\<lambda>kv. fst kv \<notin> set sensitiveFields) kvs))"
| "sanitize_json (J_date t) = J_object []"
| "sanitize_json j = j"

definition sanitizeAuditMetadata :: "json option \<Rightarrow> json option" where
  "sanitizeAuditMetadata m = map_option sanitize_json m"

definition piiFields :: "string list" where
  "piiFields = [''email'', ''phone'', ''address'', ''name'', ''firstName'', ''lastName'']"

definition redact_text :: "string \<Rightarrow> string" where
  "redact_text v = (if length v > 4 then take 2 v @ ''***'' @ drop (length v - 2) v else ''***'')"

fun redact_json :: "json \<Rightarrow> json" where
  "redact_json (J_object kvs) =
     J_object (map (\<lambda>kv. (fst kv,
       case snd kv of J_string v \<Rightarrow> J_string (if fst kv \<in> set piiFields then redact_text v else v)
       | v \<Rightarrow> redact_json v)) kvs)"
| "redact_json (J_date t) = J_object []"
| "redact_json j = j"

definition redactPII :: "json option \<Rightarrow> json option" where
  "redactPII m = map_option redact_json m"

subsection \<open>Checkpoints\<close>

fun hex_decode :: "string \<Rightarrow> nat list" where
  "hex_decode (a # b # r) =
     (let v = (\<lambda>c. let n = of_char c :: nat in
            if 48 \<le> n \<and> n \<le> 57 then Some (n - 48) else if 97 \<le> n \<and> n \<le> 102 then Some (n - 87)
            else if 65 \<le> n \<and> n \<le> 70 then Some (n - 55) else None)
      in case (v a, v b) of (Some x, Some y) \<Rightarrow> (16 * x + y) # hex_decode r | _ \<Rightarrow> [])"
| "hex_decode _ = []"

definition sign_checkpoint :: "audit_env \<Rightarrow> string \<Rightarrow> string" where
  "sign_checkpoint E d = ax_hmac E (ax_key E) d"

definition verify_signature :: "audit_env \<Rightarrow> string \<Rightarrow> string \<Rightarrow> bool" where
  "verify_signature E d sig =
     list_ex (\<lambda>k. hex_decode sig = hex_decode (ax_hmac E k d)) (ax_key E # ax_previousKeys E)"

definition key_identifier :: "audit_env \<Rightarrow> string" where
  "key_identifier E = take 16 (ax_sha E (ax_key E))"

definition signature_data :: "audit_env \<Rightarrow> string \<Rightarrow> nat \<Rightarrow> nat \<Rightarrow> nat \<Rightarrow> string \<Rightarrow> string" where
  "signature_data E part number start endSequence rootHash = json_text (ax_num E) (J_object
     [(''partition'', J_string part), (''checkpointNumber'', J_number (of_nat number)),
      (''startSequence'', J_number (of_nat start)), (''endSequence'', J_number (of_nat endSequence)), (''rootHash'', J_string rootHash)])"

definition sorted_events :: "(audit_entry \<Rightarrow> bool) \<Rightarrow> audit_db \<Rightarrow> audit_entry list" where
  "sorted_events P s = sort_key tl_sequence (filter P (au_events s))"

fun latest_checkpoint :: "audit_checkpoint list \<Rightarrow> audit_checkpoint option" where
  "latest_checkpoint [] = None"
| "latest_checkpoint (c # cs) =
     (case latest_checkpoint cs of None \<Rightarrow> Some c
      | Some d \<Rightarrow> if kp_number c < kp_number d then Some d else Some c)"

definition last_checkpoint :: "string \<Rightarrow> audit_db \<Rightarrow> audit_checkpoint option" where
  "last_checkpoint part s = latest_checkpoint (filter (\<lambda>c. kp_partition c = part) (au_checkpoints s))"

definition next_start :: "string \<Rightarrow> audit_db \<Rightarrow> nat" where
  "next_start part s = (case last_checkpoint part s of None \<Rightarrow> 0 | Some c \<Rightarrow> kp_endSequence c + 1)"

definition uncheckpointed :: "string \<Rightarrow> audit_db \<Rightarrow> audit_entry \<Rightarrow> bool" where
  "uncheckpointed part s e \<longleftrightarrow> tl_partition e = part \<and> next_start part s \<le> tl_sequence e \<and> \<not> tl_isLegacy e"

definition new_checkpoint :: "audit_env \<Rightarrow> string \<Rightarrow> audit_entry list \<Rightarrow> audit_db \<Rightarrow> audit_checkpoint" where
  "new_checkpoint E part events s =
     (let number = (case last_checkpoint part s of None \<Rightarrow> 1 | Some c \<Rightarrow> kp_number c + 1); start = next_start part s;
          endSequence = tl_sequence (last events); rootHash = computeRootHash E (map tl_eventHash events)
      in \<lparr> kp_partition = part, kp_number = number, kp_startSequence = start, kp_endSequence = endSequence,
           kp_startEventHash = tl_eventHash (hd events), kp_endEventHash = tl_eventHash (last events),
           kp_rootHash = rootHash,
           kp_signature = sign_checkpoint E (signature_data E part number start endSequence rootHash),
           kp_signedBy = key_identifier E, kp_signedAt = ax_now E, kp_eventCount = length events \<rparr>)"

definition createCheckpoint :: "audit_env \<Rightarrow> string \<Rightarrow> audit_db \<Rightarrow> (string + audit_checkpoint) \<times> audit_db" where
  "createCheckpoint E part s =
     (let events = sorted_events (uncheckpointed part s) s
      in if events = [] then (Inl ''No new events to checkpoint'', s)
         else (let c = new_checkpoint E part events s in (Inr c, s\<lparr>au_checkpoints := au_checkpoints s @ [c]\<rparr>)))"

definition verifyCheckpointSignature :: "audit_env \<Rightarrow> audit_checkpoint option \<Rightarrow> bool" where
  "verifyCheckpointSignature E c =
     (case c of None \<Rightarrow> False
      | Some c \<Rightarrow> verify_signature E (signature_data E (kp_partition c) (kp_number c) (kp_startSequence c) (kp_endSequence c) (kp_rootHash c))
                    (kp_signature c))"

definition getCheckpointStats :: "string \<Rightarrow> audit_db \<Rightarrow> nat \<times> (nat \<times> nat \<times> time) option \<times> nat" where
  "getCheckpointStats part s =
     (let cs = filter (\<lambda>c. kp_partition c = part) (au_checkpoints s)
      in (length cs, map_option (\<lambda>c. (kp_number c, kp_eventCount c, kp_signedAt c)) (latest_checkpoint cs),
          sum_list (map kp_eventCount cs)))"

definition autoCheckpointIfNeeded :: "audit_env \<Rightarrow> string \<Rightarrow> nat \<Rightarrow> audit_db \<Rightarrow> audit_db" where
  "autoCheckpointIfNeeded E part threshold s =
     (if threshold \<le> length (filter (uncheckpointed part s) (au_events s)) then snd (createCheckpoint E part s) else s)"

end
