(* ===== verification/Audit_Log.thy ===== *)
theory Audit_Log
  imports Audit_Chain
begin

text \<open>
  Writing to the tamper-evident log and verifying it: \<open>logTamperEvidentAuditEvent\<close> and the queries
  of \<open>lib/security/tamper-evident-audit.ts\<close>, and \<open>lib/security/audit-verification.ts\<close>.

  The messages and detail objects of verification errors are left out; type, sequence and
  event id are kept.
\<close>

subsection \<open>Writing\<close>

record audit_actor =
  ac_id :: "string option"
  ac_role :: "string option"
  ac_email :: "string option"
  ac_walletAddress :: "string option"

record audit_input =
  ti_actor :: "audit_actor option"
  ti_action :: string
  ti_targetType :: string
  ti_targetId :: "string option"
  ti_status :: "string option"
  ti_requestId :: "string option"
  ti_ipAddress :: "string option"
  ti_userAgent :: "string option"
  ti_metadata :: "json option"
  ti_partition :: "string option"
  ti_criticalAction :: bool

datatype audit_outcome = Audit_logged string | Audit_failed string | Audit_thrown string

definition reserveNextSequence :: "string \<Rightarrow> audit_db \<Rightarrow> nat \<times> audit_db" where
  "reserveNextSequence part s =
     (case find_one (\<lambda>q. aq_partition q = part) (au_sequences s) of
        None \<Rightarrow> (0, s\<lparr>au_sequences := au_sequences s @ [\<lparr> aq_partition = part, aq_nextSequence = 1 \<rparr>]\<rparr>)
      | Some q \<Rightarrow> (aq_nextSequence q,
          s\<lparr>au_sequences := update_one (\<lambda>q. aq_partition q = part) (\<lambda>q. q\<lparr>aq_nextSequence := aq_nextSequence q + 1\<rparr>) (au_sequences s)\<rparr>))"

definition getPreviousHash :: "audit_env \<Rightarrow> string \<Rightarrow> nat \<Rightarrow> audit_db \<Rightarrow> string option" where
  "getPreviousHash E part n s =
     (if n = 0 then Some (getGenesisHash E part)
      else (case find_one (\<lambda>e. tl_partition e = part \<and> tl_sequence e = n - 1) (au_events s) of
              None \<Rightarrow> None | Some e \<Rightarrow> if tl_eventHash e = [] then None else Some (tl_eventHash e)))"

definition known_role :: "string option \<Rightarrow> string option" where
  "known_role r = (case r of None \<Rightarrow> None
     | Some x \<Rightarrow> if x \<in> {''admin'', ''driver'', ''investor'', ''system''} then Some x else None)"

definition or_undefined :: "string option \<Rightarrow> string option" where
  "or_undefined v = (if truthy v then v else None)"

definition actor_identifier :: "audit_actor \<Rightarrow> string option" where
  "actor_identifier a = (if truthy (ac_email a) then ac_email a else ac_walletAddress a)"

definition new_entry :: "audit_env \<Rightarrow> audit_input \<Rightarrow> string \<Rightarrow> nat \<Rightarrow> string \<Rightarrow> audit_entry" where
  "new_entry E inp part n prev =
     (let e = \<lparr> tl_sequence = n, tl_eventId = ax_uuid E,
           tl_actorId = Option.bind (ti_actor inp) ac_id,
           tl_actorRole = Option.bind (ti_actor inp) (\<lambda>a. known_role (ac_role a)),
           tl_actorIdentifier = Option.bind (ti_actor inp) actor_identifier,
           tl_action = ti_action inp, tl_targetType = ti_targetType inp, tl_targetId = or_undefined (ti_targetId inp),
           tl_status = (if truthy (ti_status inp) then the (ti_status inp) else ''success''),
           tl_requestId = or_undefined (ti_requestId inp), tl_metadata = sanitizeAuditMetadata (ti_metadata inp),
           tl_ipAddress = or_undefined (ti_ipAddress inp), tl_userAgent = or_undefined (ti_userAgent inp),
           tl_timestamp = ax_now E, tl_previousHash = prev, tl_eventHash = [], tl_canonicalData = [],
           tl_partition = part, tl_isLegacy = False \<rparr>;
         canonicalData = canonicalizeEventData E (buildCanonicalAuditEventData E e)
      in e\<lparr>tl_eventHash := computeEventHash E (prev @ canonicalData), tl_canonicalData := canonicalData\<rparr>)"

text \<open>The unique indexes of the collection.\<close>

definition entry_clashes :: "audit_entry \<Rightarrow> audit_entry list \<Rightarrow> bool" where
  "entry_clashes e es = list_ex (\<lambda>f. tl_eventId f = tl_eventId e \<or> tl_eventHash f = tl_eventHash e
     \<or> tl_partition f = tl_partition e \<and> tl_sequence f = tl_sequence e) es"

definition write_event :: "audit_env \<Rightarrow> audit_input \<Rightarrow> string \<Rightarrow> nat \<Rightarrow> audit_db \<Rightarrow> (string + string) \<times> audit_db" where
  "write_event E inp part n s =
     (case getPreviousHash E part n s of None \<Rightarrow> (Inl ''AUDIT_PREDECESSOR_MISSING'', s)
      | Some prev \<Rightarrow>
         (let e = new_entry E inp part n prev in
          if ax_fault E = Some At_create then (Inl ''driver error'', s)
          else if entry_clashes e (au_events s) then (Inl ''duplicate key'', s)
          else (let s1 = s\<lparr>au_events := au_events s @ [e\<lparr>tl_metadata := ax_stored E (tl_metadata e)\<rparr>]\<rparr>
                in if ax_fault E = Some At_checkpoint then (Inl ''driver error'', s1)
                   else (Inr (tl_eventId e), autoCheckpointIfNeeded E part 1000 s1))))"

definition log_partition :: "audit_env \<Rightarrow> audit_input \<Rightarrow> string" where
  "log_partition E inp = (if truthy (ti_partition inp) then the (ti_partition inp) else ax_month E)"

definition log_body :: "audit_env \<Rightarrow> audit_input \<Rightarrow> audit_db \<Rightarrow> (string + string) \<times> audit_db" where
  "log_body E inp s =
     (if ax_fault E = Some At_connect then (Inl ''driver error'', s)
      else (let part = log_partition E inp in
        if ax_fault E = Some At_reserve then (Inl ''driver error'', s)
        else (case reserveNextSequence part s of (n, s1) \<Rightarrow> write_event E inp part n s1)))"

definition logTamperEvidentAuditEvent :: "audit_env \<Rightarrow> audit_input \<Rightarrow> audit_db \<Rightarrow> audit_outcome \<times> audit_db" where
  "logTamperEvidentAuditEvent E inp s =
     (case log_body E inp s of
        (Inr eid, s') \<Rightarrow> (Audit_logged eid, s')
      | (Inl m, s') \<Rightarrow> (if ti_criticalAction inp then Audit_thrown (''CRITICAL_AUDIT_FAILURE: '' @ m) else Audit_failed m, s'))"

text \<open>The batch stops at an event that throws.\<close>

fun logTamperEvidentAuditEventBatch ::
  "(audit_env \<times> audit_input) list \<Rightarrow> audit_db \<Rightarrow> (string + string list \<times> string list) \<times> audit_db" where
  "logTamperEvidentAuditEventBatch [] s = (Inr ([], []), s)"
| "logTamperEvidentAuditEventBatch ((E, inp) # rest) s =
     (case logTamperEvidentAuditEvent E inp s of
        (Audit_thrown m, s1) \<Rightarrow> (Inl m, s1)
      | (r, s1) \<Rightarrow>
         (case logTamperEvidentAuditEventBatch rest s1 of
            (Inl m, s2) \<Rightarrow> (Inl m, s2)
          | (Inr (ids, errs), s2) \<Rightarrow>
              (case r of Audit_logged i \<Rightarrow> (Inr (if i = [] then ids else i # ids, errs), s2)
               | Audit_failed m \<Rightarrow> (Inr (ids, if m = [] then errs else m # errs), s2)
               | Audit_thrown m \<Rightarrow> (Inl m, s2))))"

subsection \<open>Reading\<close>

definition in_range :: "nat option \<Rightarrow> nat option \<Rightarrow> nat \<Rightarrow> bool" where
  "in_range lo hi n \<longleftrightarrow> (case lo of None \<Rightarrow> True | Some a \<Rightarrow> a \<le> n) \<and> (case hi of None \<Rightarrow> True | Some b \<Rightarrow> n \<le> b)"

definition limited :: "nat option \<Rightarrow> 'a list \<Rightarrow> 'a list" where
  "limited n xs = (case n of None \<Rightarrow> xs | Some k \<Rightarrow> if k = 0 then xs else take k xs)"

definition getAuditEvents :: "string \<Rightarrow> nat option \<Rightarrow> nat option \<Rightarrow> nat option \<Rightarrow> bool \<Rightarrow> audit_db \<Rightarrow> audit_entry list" where
  "getAuditEvents part lo hi cap includeLegacy s =
     limited cap (sorted_events (\<lambda>e. tl_partition e = part \<and> in_range lo hi (tl_sequence e) \<and> (includeLegacy \<or> \<not> tl_isLegacy e)) s)"

record audit_criteria =
  sc_partition :: "string option"
  sc_action :: "string option"
  sc_actorId :: "string option"
  sc_targetType :: "string option"
  sc_targetId :: "string option"
  sc_status :: "string option"
  sc_startDate :: "time option"
  sc_endDate :: "time option"
  sc_limit :: "nat option"

definition wants :: "string option \<Rightarrow> string option \<Rightarrow> bool" where
  "wants c v \<longleftrightarrow> (truthy c \<longrightarrow> v = c)"

definition searchAuditEvents :: "audit_criteria \<Rightarrow> audit_db \<Rightarrow> audit_entry list" where
  "searchAuditEvents c s =
     limited (sc_limit c) (sort_key (\<lambda>e. - tl_timestamp e) (filter (\<lambda>e.
       wants (sc_partition c) (Some (tl_partition e)) \<and> wants (sc_action c) (Some (tl_action e)) \<and> wants (sc_actorId c) (tl_actorId e)
       \<and> wants (sc_targetType c) (Some (tl_targetType e)) \<and> wants (sc_targetId c) (tl_targetId e) \<and> wants (sc_status c) (Some (tl_status e))
       \<and> (case sc_startDate c of None \<Rightarrow> True | Some t \<Rightarrow> t \<le> tl_timestamp e)
       \<and> (case sc_endDate c of None \<Rightarrow> True | Some t \<Rightarrow> tl_timestamp e \<le> t) \<and> \<not> tl_isLegacy e) (au_events s)))"

subsection \<open>Verifying\<close>

datatype verification_kind =
  Broken_chain | Missing_sequence | Invalid_hash | Malformed_event | Invalid_checkpoint | Checkpoint_signature_invalid

record verification_error =
  ve_type :: verification_kind
  ve_sequence :: "nat option"
  ve_eventId :: "string option"

datatype verification_warning = Legacy_events nat | Legacy_event string | Missing_checkpoint nat | Old_checkpoint nat int

record verification_result =
  vs_valid :: bool
  vs_errors :: "verification_error list"
  vs_warnings :: "verification_warning list"
  vs_totalEvents :: nat
  vs_eventsVerified :: nat
  vs_firstSequence :: nat
  vs_lastSequence :: nat
  vs_partition :: string
  vs_checkpointsVerified :: "nat option"

definition finding_at :: "verification_kind \<Rightarrow> audit_entry \<Rightarrow> verification_error" where
  "finding_at k e = \<lparr> ve_type = k, ve_sequence = Some (tl_sequence e), ve_eventId = Some (tl_eventId e) \<rparr>"

definition recomputed :: "audit_env \<Rightarrow> audit_entry \<Rightarrow> string" where
  "recomputed E e = canonicalizeEventData E (buildCanonicalAuditEventData E e)"

definition sequence_errors :: "nat option \<Rightarrow> string option \<Rightarrow> audit_entry \<Rightarrow> verification_error list" where
  "sequence_errors before eid e =
     (case before of None \<Rightarrow> []
      | Some n \<Rightarrow> if tl_sequence e \<noteq> n + 1
          then [\<lparr> ve_type = Missing_sequence, ve_sequence = Some (n + 1), ve_eventId = eid \<rparr>] else [])"

definition hash_errors :: "audit_env \<Rightarrow> audit_entry \<Rightarrow> verification_error list" where
  "hash_errors E e =
     (if tl_canonicalData e \<noteq> recomputed E e then [finding_at Invalid_hash e] else [])
     @ (if tl_eventHash e \<noteq> computeEventHash E (tl_previousHash e @ recomputed E e) then [finding_at Invalid_hash e] else [])"

fun check_events :: "audit_env \<Rightarrow> nat option \<Rightarrow> string \<Rightarrow> audit_entry list \<Rightarrow> verification_error list" where
  "check_events E before expected [] = []"
| "check_events E before expected (e # es) =
     sequence_errors before None e
     @ (if tl_previousHash e \<noteq> expected then [finding_at Broken_chain e] else [])
     @ hash_errors E e
     @ (if tl_eventId e = [] \<or> tl_action e = [] \<or> tl_targetType e = [] then [finding_at Malformed_event e] else [])
     @ check_events E (Some (tl_sequence e)) (tl_eventHash e) es"

fun check_checkpoints ::
  "audit_env \<Rightarrow> string \<Rightarrow> audit_db \<Rightarrow> audit_checkpoint list \<Rightarrow> verification_error list \<times> verification_warning list \<times> nat" where
  "check_checkpoints E part s [] = ([], [], 0)"
| "check_checkpoints E part s (c # cs) =
     (case check_checkpoints E part s cs of (errs, warns, n) \<Rightarrow>
       (if \<not> verify_signature E (signature_data E (kp_partition c) (kp_number c) (kp_startSequence c) (kp_endSequence c) (kp_rootHash c)) (kp_signature c)
        then (\<lparr> ve_type = Checkpoint_signature_invalid, ve_sequence = None, ve_eventId = None \<rparr> # errs, warns, n)
        else if kp_rootHash c \<noteq> computeRootHash E (map tl_eventHash (sorted_events
               (\<lambda>e. tl_partition e = part \<and> kp_startSequence c \<le> tl_sequence e \<and> tl_sequence e \<le> kp_endSequence c \<and> \<not> tl_isLegacy e) s))
        then (\<lparr> ve_type = Invalid_checkpoint, ve_sequence = None, ve_eventId = None \<rparr> # errs, warns, n)
        else (errs,
          (if 30 * 86400000 < ax_now E - kp_signedAt c then [Old_checkpoint (kp_number c) ((ax_now E - kp_signedAt c) div 86400000)] else []) @ warns,
          n + 1)))"

definition verifyCheckpoints :: "audit_env \<Rightarrow> string \<Rightarrow> audit_db \<Rightarrow> verification_error list \<times> verification_warning list \<times> nat" where
  "verifyCheckpoints E part s =
     (let cs = sort_key kp_number (filter (\<lambda>c. kp_partition c = part) (au_checkpoints s));
          n = length (filter (\<lambda>e. tl_partition e = part \<and> \<not> tl_isLegacy e) (au_events s))
      in case check_checkpoints E part s cs of (errs, warns, verified) \<Rightarrow>
           (errs, warns @ (if cs = [] \<and> 1000 < n then [Missing_checkpoint n] else []), verified))"

definition expected_start :: "audit_env \<Rightarrow> string \<Rightarrow> audit_entry list \<Rightarrow> audit_db \<Rightarrow> string" where
  "expected_start E part es s =
     (case es of [] \<Rightarrow> getGenesisHash E part
      | e # _ \<Rightarrow>
          if tl_sequence e > 0 then
            (case find_one (\<lambda>f. tl_partition f = part \<and> tl_sequence f = tl_sequence e - 1 \<and> \<not> tl_isLegacy f) (au_events s) of
               None \<Rightarrow> tl_previousHash e | Some f \<Rightarrow> if tl_eventHash f = [] then tl_previousHash e else tl_eventHash f)
          else getGenesisHash E part)"

definition verifyAuditChain :: "audit_env \<Rightarrow> string \<Rightarrow> nat option \<Rightarrow> nat option \<Rightarrow> bool \<Rightarrow> audit_db \<Rightarrow> verification_result" where
  "verifyAuditChain E part lo hi withCheckpoints s =
     (let events = sorted_events (\<lambda>e. tl_partition e = part \<and> in_range lo hi (tl_sequence e)) s in
      if events = [] then \<lparr> vs_valid = True, vs_errors = [], vs_warnings = [], vs_totalEvents = 0, vs_eventsVerified = 0,
        vs_firstSequence = 0, vs_lastSequence = 0, vs_partition = part, vs_checkpointsVerified = None \<rparr>
      else
        (let legacy = filter tl_isLegacy events; verifiable = filter (\<lambda>e. \<not> tl_isLegacy e) events;
             errs1 = check_events E None (expected_start E part verifiable s) verifiable;
             (errs2, warns2, n) = (if withCheckpoints then verifyCheckpoints E part s else ([], [], 0));
             errs = errs1 @ errs2
         in \<lparr> vs_valid = (errs = []), vs_errors = errs,
              vs_warnings = (if legacy \<noteq> [] then [Legacy_events (length legacy)] else []) @ warns2,
              vs_totalEvents = length events, vs_eventsVerified = length verifiable,
              vs_firstSequence = tl_sequence (hd events), vs_lastSequence = tl_sequence (last events), vs_partition = part,
              vs_checkpointsVerified = (if withCheckpoints then Some n else None) \<rparr>))"

definition verifySingleEvent :: "audit_env \<Rightarrow> string \<Rightarrow> audit_db \<Rightarrow> verification_error list" where
  "verifySingleEvent E eid s =
     (case find_one (\<lambda>e. tl_eventId e = eid) (au_events s) of
        None \<Rightarrow> [\<lparr> ve_type = Malformed_event, ve_sequence = None, ve_eventId = Some eid \<rparr>]
      | Some e \<Rightarrow> if tl_isLegacy e then [] else hash_errors E e)"

subsection \<open>Exports and anomalies\<close>

record export_manifest =
  em_partition :: "string option"
  em_startSequence :: "nat option"
  em_endSequence :: "nat option"
  em_startEventHash :: "string option"
  em_endEventHash :: "string option"

text \<open>An exported event without a required field is skipped; its hash is not expected next.\<close>

fun check_exported :: "audit_env \<Rightarrow> nat option \<Rightarrow> string \<Rightarrow> audit_entry list \<Rightarrow> verification_error list \<times> verification_warning list \<times> nat" where
  "check_exported E before expected [] = ([], [], 0)"
| "check_exported E before expected (e # es) =
     (let seqErrs = sequence_errors before (Some (tl_eventId e)) e in
      if tl_eventId e = [] \<or> tl_action e = [] \<or> tl_targetType e = [] \<or> tl_previousHash e = [] \<or> tl_eventHash e = [] then
        (case check_exported E (Some (tl_sequence e)) expected es of (errs, warns, n) \<Rightarrow>
           (seqErrs @ [finding_at Malformed_event e] @ errs, warns, n))
      else
        (case check_exported E (Some (tl_sequence e)) (tl_eventHash e) es of (errs, warns, n) \<Rightarrow>
           (seqErrs @ (if tl_previousHash e \<noteq> expected then [finding_at Broken_chain e] else []) @ hash_errors E e @ errs,
            (if tl_isLegacy e then [Legacy_event (tl_eventId e)] else []) @ warns, n + 1)))"

definition manifest_errors :: "export_manifest \<Rightarrow> audit_entry list \<Rightarrow> verification_error list" where
  "manifest_errors m es =
     (let first = (case es of [] \<Rightarrow> None | e # _ \<Rightarrow> Some e); final = (if es = [] then None else Some (last es));
          err = (\<lambda>k n. \<lparr> ve_type = k, ve_sequence = n, ve_eventId = None \<rparr>) in
      (if em_startSequence m \<noteq> None \<and> map_option tl_sequence first \<noteq> em_startSequence m then [err Missing_sequence (em_startSequence m)] else [])
      @ (if em_endSequence m \<noteq> None \<and> map_option tl_sequence final \<noteq> em_endSequence m then [err Missing_sequence (em_endSequence m)] else [])
      @ (if truthy (em_startEventHash m) \<and> map_option tl_eventHash first \<noteq> em_startEventHash m then [err Invalid_hash (map_option tl_sequence first)] else [])
      @ (if truthy (em_endEventHash m) \<and> map_option tl_eventHash final \<noteq> em_endEventHash m then [err Invalid_hash (map_option tl_sequence final)] else []))"

definition verifyAuditExportPayload :: "audit_env \<Rightarrow> export_manifest option \<Rightarrow> audit_entry list option \<Rightarrow> nat option \<Rightarrow> verification_result" where
  "verifyAuditExportPayload E manifest payload checkpoints =
     (let es = (case payload of None \<Rightarrow> [] | Some es \<Rightarrow> es);
          named = (case manifest of None \<Rightarrow> None | Some m \<Rightarrow> em_partition m);
          part = (if truthy named then the named
                  else (case es of e # _ \<Rightarrow> if tl_partition e \<noteq> [] then tl_partition e else ''unknown'' | [] \<Rightarrow> ''unknown''));
          start = (case es of e # _ \<Rightarrow> if tl_previousHash e \<noteq> [] then tl_previousHash e else getGenesisHash E part
                   | [] \<Rightarrow> getGenesisHash E part)
      in case check_exported E None start es of (errs, warns, n) \<Rightarrow>
         (let all = (if payload = None then [\<lparr> ve_type = Malformed_event, ve_sequence = None, ve_eventId = None \<rparr>] else [])
                @ errs @ (case manifest of None \<Rightarrow> [] | Some m \<Rightarrow> manifest_errors m es)
          in \<lparr> vs_valid = (all = []), vs_errors = all, vs_warnings = warns, vs_totalEvents = length es, vs_eventsVerified = n,
               vs_firstSequence = (if es = [] then 0 else tl_sequence (hd es)),
               vs_lastSequence = (if es = [] then 0 else tl_sequence (last es)), vs_partition = part, vs_checkpointsVerified = checkpoints \<rparr>))"

fun out_of_order :: "audit_entry list \<Rightarrow> (nat \<times> time) list" where
  "out_of_order (a # b # es) =
     (if tl_timestamp b < tl_timestamp a then (tl_sequence b, tl_timestamp b) # out_of_order (b # es) else out_of_order (b # es))"
| "out_of_order es = []"

definition detectAnomalies :: "string \<Rightarrow> audit_db \<Rightarrow> nat list \<times> nat list \<times> (nat \<times> time) list" where
  "detectAnomalies part s =
     (let es = sorted_events (\<lambda>e. tl_partition e = part \<and> \<not> tl_isLegacy e) s; ns = map tl_sequence es
      in (if es = [] then [] else filter (\<lambda>n. n \<notin> set ns) [hd ns ..< last ns + 1],
          filter (\<lambda>n. count_list ns n > 1) (sort (remdups ns)), out_of_order es))"

end
