(* ===== verification/Audit_Theorems.thy ===== *)
theory Audit_Theorems
  imports Audit_Log
begin

text \<open>
  The chain of hashes: what every interleaving of reservations, writes and checkpoints keeps,
  that it verifies, and what two chains that verify have in common.
\<close>

subsection \<open>Chains\<close>

definition entry_ok :: "audit_env \<Rightarrow> audit_entry \<Rightarrow> bool" where
  "entry_ok E e \<longleftrightarrow> \<not> tl_isLegacy e \<and> tl_eventId e \<noteq> [] \<and> tl_action e \<noteq> [] \<and> tl_targetType e \<noteq> []
     \<and> tl_canonicalData e = recomputed E e \<and> tl_eventHash e = ax_sha E (tl_previousHash e @ recomputed E e)"

fun chained :: "audit_env \<Rightarrow> nat \<Rightarrow> string \<Rightarrow> audit_entry list \<Rightarrow> bool" where
  "chained E n h [] = True"
| "chained E n h (e # es) = (tl_sequence e = n \<and> tl_previousHash e = h \<and> entry_ok E e \<and> chained E (Suc n) (tl_eventHash e) es)"

definition end_hash :: "string \<Rightarrow> audit_entry list \<Rightarrow> string" where
  "end_hash h es = (if es = [] then h else tl_eventHash (last es))"

lemma chained_append [simp]:
  "chained E n h (es @ fs) = (chained E n h es \<and> chained E (n + length es) (end_hash h es) fs)"
  by (induction es arbitrary: n h) (auto simp: end_hash_def)

lemma chained_sequences: "chained E n h es \<Longrightarrow> map tl_sequence es = [n ..< n + length es]"
proof (induction es arbitrary: n h)
  case (Cons e es)
  then show ?case using Cons.IH [of "Suc n" "tl_eventHash e"] Cons.prems
    by (simp add: upt_conv_Cons del: upt_Suc)
qed simp

lemma chained_nth: "chained E n h es \<Longrightarrow> i < length es \<Longrightarrow> tl_sequence (es ! i) = n + i"
  by (metis chained_sequences length_map nth_map nth_upt length_upt add_diff_cancel_left' nat_add_left_cancel_less)

lemma chained_entry_ok: "chained E n h es \<Longrightarrow> list_all (entry_ok E) es"
  by (induction es arbitrary: n h) auto

lemma chained_bounds: "chained E n h es \<Longrightarrow> e \<in> set es \<Longrightarrow> n \<le> tl_sequence e \<and> tl_sequence e < n + length es"
  by (induction es arbitrary: n h) fastforce+

lemma chained_filter_from:
  "chained E n h es \<Longrightarrow> filter (\<lambda>e. k \<le> tl_sequence e) es = drop (k - n) es"
proof (induction es arbitrary: n h)
  case (Cons e es)
  show ?case
  proof (cases "k \<le> n")
    case True
    with chained_bounds [OF Cons.prems] have "\<forall>x \<in> set (e # es). k \<le> tl_sequence x" by (meson le_trans)
    then show ?thesis using True by (simp add: filter_id_conv)
  next
    case False
    with Cons.prems Cons.IH [of "Suc n" "tl_eventHash e"] have "filter (\<lambda>e. k \<le> tl_sequence e) (e # es) = drop (k - Suc n) es" by simp
    also have "\<dots> = drop (k - n) (e # es)" using False by (simp add: drop_Cons')
    finally show ?thesis .
  qed
qed simp

lemma chained_filter_to:
  "chained E n h es \<Longrightarrow> filter (\<lambda>e. tl_sequence e \<le> k) es = take (Suc k - n) es"
proof (induction es arbitrary: n h)
  case (Cons e es)
  show ?case
  proof (cases "n \<le> k")
    case True
    with Cons.prems Cons.IH [of "Suc n" "tl_eventHash e"] have "filter (\<lambda>e. tl_sequence e \<le> k) (e # es) = e # take (Suc k - Suc n) es" by simp
    also have "\<dots> = take (Suc k - n) (e # es)" using True by (simp add: take_Cons')
    finally show ?thesis .
  next
    case False
    with chained_bounds [OF Cons.prems] have "\<forall>x \<in> set (e # es). \<not> tl_sequence x \<le> k" by (meson le_trans)
    then show ?thesis using False by simp
  qed
qed simp

lemma chained_drop:
  assumes "chained E n h es" and "k \<le> length es"
  shows "chained E (n + k) (end_hash h (take k es)) (drop k es)"
proof -
  from assms(1) have "chained E n h (take k es @ drop k es)" by (simp only: append_take_drop_id)
  then show ?thesis using assms(2) by (simp only: chained_append length_take min_absorb2)
qed

lemma chained_take: "chained E n h es \<Longrightarrow> chained E n h (take k es)"
  by (metis append_take_drop_id chained_append)

lemma entry_ok_checks:
  "entry_ok E e \<Longrightarrow> hash_errors E e = [] \<and> \<not> (tl_eventId e = [] \<or> tl_action e = [] \<or> tl_targetType e = [])"
  by (simp add: entry_ok_def hash_errors_def computeEventHash_def)

lemma checks_entry_ok:
  "hash_errors E e = [] \<Longrightarrow> \<not> (tl_eventId e = [] \<or> tl_action e = [] \<or> tl_targetType e = []) \<Longrightarrow> \<not> tl_isLegacy e \<Longrightarrow> entry_ok E e"
  by (simp add: entry_ok_def hash_errors_def computeEventHash_def split: if_splits)

lemma chained_verifies:
  "chained E n h es \<Longrightarrow> before = None \<or> before = Some (n - 1) \<and> 0 < n \<Longrightarrow> check_events E before h es = []"
proof (induction es arbitrary: n h before)
  case (Cons e es)
  have "check_events E (Some (tl_sequence e)) (tl_eventHash e) es = []"
    by (rule Cons.IH [of "Suc n"]) (use Cons.prems in simp_all)
  moreover have "sequence_errors before None e = []"
    using Cons.prems by (auto simp: sequence_errors_def)
  ultimately show ?case using Cons.prems entry_ok_checks [of E e] by simp
qed simp

lemma verified_chained:
  "check_events E before h es = [] \<Longrightarrow> list_all (\<lambda>e. \<not> tl_isLegacy e) es
    \<Longrightarrow> before = Some (n - 1) \<and> 0 < n \<or> before = None \<and> (es = [] \<or> tl_sequence (hd es) = n) \<Longrightarrow> chained E n h es"
proof (induction es arbitrary: n h before)
  case (Cons e es)
  from Cons.prems(1) have c: "sequence_errors before None e = []" "tl_previousHash e = h" "hash_errors E e = []"
      "\<not> (tl_eventId e = [] \<or> tl_action e = [] \<or> tl_targetType e = [])" "check_events E (Some (tl_sequence e)) (tl_eventHash e) es = []"
    by (simp_all split: if_splits)
  have n: "tl_sequence e = n" using c(1) Cons.prems(3) by (auto simp: sequence_errors_def split: if_splits)
  have "chained E (Suc n) (tl_eventHash e) es"
    by (rule Cons.IH [OF c(5)]) (use Cons.prems n in simp_all)
  with c n Cons.prems(2) checks_entry_ok [of E e] show ?case by simp
qed simp

subsection \<open>The state of the log\<close>

definition part_events :: "string \<Rightarrow> audit_db \<Rightarrow> audit_entry list" where
  "part_events part s = filter (\<lambda>e. tl_partition e = part) (au_events s)"

definition checkpoint_text :: "audit_env \<Rightarrow> audit_checkpoint \<Rightarrow> string" where
  "checkpoint_text E c = signature_data E (kp_partition c) (kp_number c) (kp_startSequence c) (kp_endSequence c) (kp_rootHash c)"

definition checkpoint_ok :: "audit_env \<Rightarrow> audit_db \<Rightarrow> audit_checkpoint \<Rightarrow> bool" where
  "checkpoint_ok E s c \<longleftrightarrow> kp_endSequence c < length (part_events (kp_partition c) s)
     \<and> kp_rootHash c = computeRootHash E (map tl_eventHash (filter (\<lambda>e. kp_startSequence c \<le> tl_sequence e \<and> tl_sequence e \<le> kp_endSequence c)
                          (part_events (kp_partition c) s)))
     \<and> verify_signature E (checkpoint_text E c) (kp_signature c)"

definition audit_ok :: "audit_env \<Rightarrow> audit_db \<Rightarrow> bool" where
  "audit_ok E s \<longleftrightarrow> (\<forall>part. chained E 0 (getGenesisHash E part) (part_events part s))
     \<and> (\<forall>c \<in> set (au_checkpoints s). checkpoint_ok E s c)"

text \<open>The same algorithms, and a signing key that the verifier still knows.\<close>

definition same_crypto :: "audit_env \<Rightarrow> audit_env \<Rightarrow> bool" where
  "same_crypto E F \<longleftrightarrow> ax_sha F = ax_sha E \<and> ax_hmac F = ax_hmac E \<and> ax_num F = ax_num E \<and> ax_iso F = ax_iso E
     \<and> ax_key F \<in> set (ax_key E # ax_previousKeys E)"

lemma same_crypto_eqs:
  assumes "same_crypto E F"
  shows "buildCanonicalAuditEventData F = buildCanonicalAuditEventData E" "canonicalizeEventData F = canonicalizeEventData E"
    "computeEventHash F = computeEventHash E" "computeRootHash F = computeRootHash E" "getGenesisHash F = getGenesisHash E"
    "signature_data F = signature_data E" "ax_sha F = ax_sha E" "ax_hmac F = ax_hmac E"
  using assms by (auto simp: same_crypto_def buildCanonicalAuditEventData_def canonicalizeEventData_def computeEventHash_def
      computeRootHash_def getGenesisHash_def signature_data_def split: list.splits intro!: ext)

lemma signed_verifies: "same_crypto E F \<Longrightarrow> verify_signature E d (sign_checkpoint F d)"
  by (auto simp: same_crypto_def verify_signature_def sign_checkpoint_def list_ex_iff)

lemma sorted_part_events:
  assumes "chained E 0 h (part_events part s)" and "\<And>e. P e \<longleftrightarrow> tl_partition e = part \<and> Q e"
  shows "sorted_events P s = filter Q (part_events part s)"
proof -
  have "filter P (au_events s) = filter Q (part_events part s)" by (simp add: part_events_def) (rule filter_cong, auto simp: assms(2))
  moreover have "sorted (map tl_sequence (filter Q (part_events part s)))"
    by (rule sorted_filter) (simp add: chained_sequences [OF assms(1)])
  ultimately show ?thesis by (simp add: sorted_events_def sort_key_id_if_sorted)
qed

lemma chained_not_legacy: "chained E n h es \<Longrightarrow> e \<in> set es \<Longrightarrow> \<not> tl_isLegacy e"
  using chained_entry_ok [of E n h es] by (auto simp: list_all_iff entry_ok_def)

lemma audit_ok_chain: "audit_ok E s \<Longrightarrow> chained E 0 (getGenesisHash E part) (part_events part s)"
  by (simp add: audit_ok_def)

text \<open>Checkpoints.\<close>

lemma createCheckpoint_ok:
  assumes ok: "audit_ok E s" and F: "same_crypto E F"
  shows "audit_ok E (snd (createCheckpoint F part s))"
proof -
  let ?n = "next_start part s" and ?es = "part_events part s"
  have ch: "chained E 0 (getGenesisHash E part) ?es" by (rule audit_ok_chain [OF ok])
  have ev: "sorted_events (uncheckpointed part s) s = filter (\<lambda>e. ?n \<le> tl_sequence e \<and> \<not> tl_isLegacy e) ?es"
    by (rule sorted_part_events [OF ch]) (auto simp: uncheckpointed_def)
  also have "\<dots> = filter (\<lambda>e. ?n \<le> tl_sequence e) ?es"
    by (rule filter_cong) (auto dest: chained_not_legacy [OF ch])
  also have "\<dots> = drop ?n ?es" using chained_filter_from [OF ch] by simp
  finally have ev: "sorted_events (uncheckpointed part s) s = drop ?n ?es" .
  show ?thesis
  proof (cases "drop ?n ?es = []")
    case True
    with ok ev show ?thesis by (simp add: createCheckpoint_def)
  next
    case False
    then have n: "?n < length ?es" by simp
    have l: "tl_sequence (last (drop ?n ?es)) = length ?es - 1"
      using False chained_nth [OF ch, of "length ?es - 1"] n by (simp add: last_drop last_conv_nth)
    have "filter (\<lambda>e. ?n \<le> tl_sequence e \<and> tl_sequence e \<le> length ?es - 1) ?es = filter (\<lambda>e. ?n \<le> tl_sequence e) ?es"
      using chained_bounds [OF ch] by (intro filter_cong) fastforce+
    then have w: "filter (\<lambda>e. ?n \<le> tl_sequence e \<and> tl_sequence e \<le> length ?es - Suc 0) ?es = drop ?n ?es"
      using chained_filter_from [OF ch] by simp
    define c where "c = new_checkpoint F part (drop ?n ?es) s"
    have c: "createCheckpoint F part s = (Inr c, s\<lparr>au_checkpoints := au_checkpoints s @ [c]\<rparr>)"
        "kp_partition c = part" "kp_startSequence c = ?n" "kp_endSequence c = length ?es - 1"
        "kp_rootHash c = computeRootHash E (map tl_eventHash (drop ?n ?es))"
        "kp_signature c = sign_checkpoint F (checkpoint_text E c)"
      using ev False l
      by (simp_all add: createCheckpoint_def c_def new_checkpoint_def same_crypto_eqs [OF F] checkpoint_text_def Let_def)
    have "checkpoint_ok E s c"
      using c n w signed_verifies [OF F, of "checkpoint_text E c"] by (simp add: checkpoint_ok_def)
    moreover have "checkpoint_ok E (s\<lparr>au_checkpoints := cs\<rparr>) d = checkpoint_ok E s d" for cs d
      by (simp add: checkpoint_ok_def part_events_def)
    moreover have "part_events p (s\<lparr>au_checkpoints := cs\<rparr>) = part_events p s" for p cs by (simp add: part_events_def)
    ultimately show ?thesis using ok c(1) by (auto simp: audit_ok_def)
  qed
qed

lemma autoCheckpoint_ok: "audit_ok E s \<Longrightarrow> same_crypto E F \<Longrightarrow> audit_ok E (autoCheckpointIfNeeded F part k s)"
  by (simp add: autoCheckpointIfNeeded_def createCheckpoint_ok)

lemma reserve_ok: "audit_ok E s \<Longrightarrow> audit_ok E (snd (reserveNextSequence part s))"
  by (auto simp: audit_ok_def checkpoint_ok_def part_events_def reserveNextSequence_def split: option.splits)

subsection \<open>Writing keeps the chain\<close>

definition good_write :: "audit_env \<Rightarrow> audit_env \<Rightarrow> audit_input \<Rightarrow> bool" where
  "good_write E F inp \<longleftrightarrow> same_crypto E F \<and> ax_uuid F \<noteq> [] \<and> ti_action inp \<noteq> [] \<and> ti_targetType inp \<noteq> []
     \<and> ax_stored F (sanitizeAuditMetadata (ti_metadata inp)) = sanitizeAuditMetadata (ti_metadata inp)"

definition stored_entry :: "audit_env \<Rightarrow> audit_input \<Rightarrow> string \<Rightarrow> nat \<Rightarrow> string \<Rightarrow> audit_entry" where
  "stored_entry F inp part n prev = (new_entry F inp part n prev)\<lparr>tl_metadata := ax_stored F (tl_metadata (new_entry F inp part n prev))\<rparr>"

lemma new_entry_sel [simp]:
  "tl_sequence (new_entry F inp part n prev) = n" "tl_previousHash (new_entry F inp part n prev) = prev"
  "tl_partition (new_entry F inp part n prev) = part" "tl_eventId (new_entry F inp part n prev) = ax_uuid F"
  "tl_action (new_entry F inp part n prev) = ti_action inp" "tl_targetType (new_entry F inp part n prev) = ti_targetType inp"
  "tl_isLegacy (new_entry F inp part n prev) = False"
  "tl_metadata (new_entry F inp part n prev) = sanitizeAuditMetadata (ti_metadata inp)"
  by (simp_all add: new_entry_def Let_def)

lemma new_entry_hashes:
  "tl_canonicalData (new_entry F inp part n prev) = recomputed F (new_entry F inp part n prev)"
  "tl_eventHash (new_entry F inp part n prev) = ax_sha F (prev @ recomputed F (new_entry F inp part n prev))"
  by (simp_all add: new_entry_def Let_def recomputed_def buildCanonicalAuditEventData_def computeEventHash_def)

lemma stored_entry_ok:
  assumes "good_write E F inp"
  shows "stored_entry F inp part n prev = new_entry F inp part n prev" and "entry_ok E (new_entry F inp part n prev)"
proof -
  have F: "same_crypto E F" using assms by (simp add: good_write_def)
  show "stored_entry F inp part n prev = new_entry F inp part n prev"
    using assms by (simp add: stored_entry_def good_write_def)
  show "entry_ok E (new_entry F inp part n prev)"
    using assms new_entry_hashes [of F inp part n prev]
    by (simp add: entry_ok_def good_write_def recomputed_def same_crypto_eqs [OF F])
qed

lemma write_cases:
  assumes "write_event F inp part n s = (r, s')"
  obtains (refused) m where "r = Inl m" "s' = s"
  | (written) prev s1 where "getPreviousHash F part n s = Some prev" "\<not> entry_clashes (new_entry F inp part n prev) (au_events s)"
      "s1 = s\<lparr>au_events := au_events s @ [stored_entry F inp part n prev]\<rparr>" "s' = s1 \<or> s' = autoCheckpointIfNeeded F part 1000 s1"
proof (cases "getPreviousHash F part n s")
  case None
  with assms refused show thesis by (auto simp: write_event_def)
next
  case (Some prev)
  show thesis
  proof (cases "ax_fault F = Some At_create \<or> entry_clashes (new_entry F inp part n prev) (au_events s)")
    case True
    with Some assms refused show thesis by (auto simp: write_event_def Let_def split: if_splits)
  next
    case False
    with Some assms show thesis
      by (intro written [of prev "s\<lparr>au_events := au_events s @ [stored_entry F inp part n prev]\<rparr>"])
         (auto simp: write_event_def Let_def stored_entry_def split: if_splits)
  qed
qed

lemma previous_hash_is_end:
  assumes ch: "chained E 0 (getGenesisHash E part) (part_events part s)" and F: "same_crypto E F"
    and prev: "getPreviousHash F part n s = Some prev" and new: "\<not> entry_clashes e (au_events s)"
    and e: "tl_partition e = part" "tl_sequence e = n"
  shows "n = length (part_events part s) \<and> prev = end_hash (getGenesisHash E part) (part_events part s)"
proof -
  let ?es = "part_events part s"
  have fresh: "tl_sequence f \<noteq> n" if "f \<in> set ?es" for f
    using new that e by (auto simp: entry_clashes_def list_ex_iff part_events_def)
  have le: "length ?es \<le> n"
  proof (rule ccontr)
    assume "\<not> length ?es \<le> n"
    then have "n < length ?es" by simp
    with chained_nth [OF ch this] fresh [of "?es ! n"] show False by simp
  qed
  show ?thesis
  proof (cases n)
    case 0
    with le prev show ?thesis by (simp add: getPreviousHash_def end_hash_def same_crypto_eqs [OF F])
  next
    case (Suc m)
    with prev obtain f where f: "find_one (\<lambda>e. tl_partition e = part \<and> tl_sequence e = m) (au_events s) = Some f" "prev = tl_eventHash f"
      by (auto simp: getPreviousHash_def split: option.splits if_splits)
    then have f': "f \<in> set ?es" "tl_sequence f = m" by (auto dest!: find_one_SomeD simp: part_events_def)
    then have "m < length ?es" using chained_bounds [OF ch f'(1)] by simp
    then have n: "n = length ?es" using le Suc by simp
    obtain i where i: "i < length ?es" "?es ! i = f" using f'(1) by (metis in_set_conv_nth)
    then have "i = m" using chained_nth [OF ch i(1)] f'(2) by simp
    moreover have "length ?es - 1 = m" "?es \<noteq> []" using n Suc by auto
    ultimately show ?thesis using i n f(2) by (simp add: end_hash_def last_conv_nth)
  qed
qed

lemma append_event_ok:
  assumes ok: "audit_ok E s" and ch: "chained E (length (part_events part s)) (end_hash (getGenesisHash E part) (part_events part s)) [e]"
    and e: "tl_partition e = part"
  shows "audit_ok E (s\<lparr>au_events := au_events s @ [e]\<rparr>)"
proof -
  let ?s = "s\<lparr>au_events := au_events s @ [e]\<rparr>"
  have pe: "part_events p ?s = part_events p s @ (if p = part then [e] else [])" for p
    using e by (simp add: part_events_def)
  have chains: "chained E 0 (getGenesisHash E p) (part_events p ?s)" for p
    using audit_ok_chain [OF ok, of p] ch by (simp add: pe)
  have "checkpoint_ok E ?s c" if c: "checkpoint_ok E s c" for c
  proof -
    have "\<not> tl_sequence e \<le> kp_endSequence c" if "kp_partition c = part"
      using c ch that by (simp add: checkpoint_ok_def)
    with c show ?thesis by (auto simp: checkpoint_ok_def pe)
  qed
  with ok chains show ?thesis by (simp add: audit_ok_def)
qed

lemma write_ok:
  assumes "audit_ok E s" and "good_write E F inp"
  shows "audit_ok E (snd (write_event F inp part n s))"
proof -
  obtain r s' where w: "write_event F inp part n s = (r, s')" by fastforce
  then show ?thesis
  proof (cases rule: write_cases)
    case (refused m)
    with w assms show ?thesis by simp
  next
    case (written prev s1)
    have F: "same_crypto E F" using assms(2) by (simp add: good_write_def)
    let ?e = "new_entry F inp part n prev"
    have "n = length (part_events part s) \<and> prev = end_hash (getGenesisHash E part) (part_events part s)"
      by (rule previous_hash_is_end [OF audit_ok_chain [OF assms(1)] F written(1,2)]) simp_all
    then have "audit_ok E s1"
      unfolding written(3) stored_entry_ok(1) [OF assms(2)]
      by (intro append_event_ok [OF assms(1), of part]) (simp_all add: stored_entry_ok(2) [OF assms(2)])
    with written(4) w autoCheckpoint_ok [OF _ F] show ?thesis by auto
  qed
qed

datatype audit_op = Reserve string | Write audit_env audit_input string nat | Checkpoint audit_env string

fun audit_step :: "audit_op \<Rightarrow> audit_db \<Rightarrow> unit \<times> audit_db" where
  "audit_step (Reserve part) s = ((), snd (reserveNextSequence part s))"
| "audit_step (Write F inp part n) s = ((), snd (write_event F inp part n s))"
| "audit_step (Checkpoint F part) s = ((), snd (createCheckpoint F part s))"

fun good_audit_op :: "audit_env \<Rightarrow> audit_op \<Rightarrow> bool" where
  "good_audit_op E (Reserve part) = True"
| "good_audit_op E (Write F inp part n) = good_write E F inp"
| "good_audit_op E (Checkpoint F part) = same_crypto E F"

definition no_log :: audit_db where
  "no_log = \<lparr> au_events = [], au_sequences = [], au_checkpoints = [] \<rparr>"

lemma run_audit_ok:
  assumes "list_all (good_audit_op E) ops"
  shows "audit_ok E (run_seq audit_step ops no_log)"
proof (rule run_seq_invariant)
  show "audit_ok E (snd (audit_step m s))" if "m \<in> set ops" "audit_ok E s" for m s
  proof -
    have "good_audit_op E m" using that(1) assms by (simp add: list_all_iff)
    with that(2) show ?thesis by (cases m) (simp_all add: reserve_ok write_ok createCheckpoint_ok)
  qed
  show "audit_ok E no_log" by (simp add: audit_ok_def no_log_def part_events_def)
qed

subsection \<open>The log verifies\<close>

lemma ok_range:
  assumes ok: "audit_ok E s" and es: "es = sorted_events (\<lambda>e. tl_partition e = part \<and> in_range lo hi (tl_sequence e)) s"
  shows "list_all (\<lambda>e. \<not> tl_isLegacy e) es" and "check_events E None (expected_start E part es s) es = []"
proof -
  let ?es = "part_events part s" and ?g = "getGenesisHash E part"
  have ch: "chained E 0 ?g ?es" by (rule audit_ok_chain [OF ok])
  define a where "a = (case lo of None \<Rightarrow> 0 | Some k \<Rightarrow> k)"
  define upto where "upto = (case hi of None \<Rightarrow> ?es | Some k \<Rightarrow> take (Suc k) ?es)"
  have cu: "chained E 0 ?g upto" using ch chained_take [OF ch] by (simp add: upto_def split: option.splits)
  have "es = filter (\<lambda>e. in_range lo hi (tl_sequence e)) ?es" unfolding es by (rule sorted_part_events [OF ch]) simp
  also have "\<dots> = filter (\<lambda>e. a \<le> tl_sequence e) (filter (\<lambda>e. case hi of None \<Rightarrow> True | Some k \<Rightarrow> tl_sequence e \<le> k) ?es)"
    by (auto simp: in_range_def a_def conj_commute intro!: filter_cong split: option.splits)
  also have "filter (\<lambda>e. case hi of None \<Rightarrow> True | Some k \<Rightarrow> tl_sequence e \<le> k) ?es = upto"
    using chained_filter_to [OF ch] by (simp add: upto_def split: option.splits)
  also have "filter (\<lambda>e. a \<le> tl_sequence e) upto = drop a upto" using chained_filter_from [OF cu] by simp
  finally have es: "es = drop a upto" .
  show "list_all (\<lambda>e. \<not> tl_isLegacy e) es"
    using chained_not_legacy [OF cu] by (auto simp: es list_all_iff dest: in_set_dropD)
  show "check_events E None (expected_start E part es s) es = []"
  proof (cases "es = []")
    case False
    then have le: "a < length upto" by (simp add: es)
    have c: "chained E a (end_hash ?g (take a upto)) es" using chained_drop [OF cu, of a] le by (simp add: es)
    obtain e r where e: "es = e # r" using False by (cases es) auto
    with c have e': "tl_sequence e = a" "tl_previousHash e = end_hash ?g (take a upto)" by auto
    have "expected_start E part es s = end_hash ?g (take a upto)"
    proof (cases "a = 0")
      case True
      with e e'(1) show ?thesis by (simp add: expected_start_def end_hash_def)
    next
      case a: False
      have m: "a - 1 < length upto" "tl_sequence (upto ! (a - 1)) = a - 1" using le a chained_nth [OF cu, of "a - 1"] by auto
      have eh: "end_hash ?g (take a upto) = tl_eventHash (upto ! (a - 1))"
        using a le take_Suc_conv_app_nth [OF m(1)] by (auto simp: end_hash_def)
      have "set upto \<subseteq> set ?es" by (auto simp: upto_def split: option.splits dest: in_set_takeD)
      then have u: "upto ! (a - 1) \<in> set ?es" using m(1) nth_mem by blast
      have "tl_eventHash f = tl_eventHash (upto ! (a - 1))"
        if f: "find_one (\<lambda>f. tl_partition f = part \<and> tl_sequence f = a - 1 \<and> \<not> tl_isLegacy f) (au_events s) = Some f" for f
      proof -
        have f': "f \<in> set ?es" "tl_sequence f = a - 1" using find_one_SomeD [OF f] by (auto simp: part_events_def)
        have "distinct (map tl_sequence ?es)" by (simp add: chained_sequences [OF ch])
        with f' u m(2) have "f = upto ! (a - 1)" by (metis distinct_map inj_onD)
        then show ?thesis by simp
      qed
      then show ?thesis using e e' a eh by (auto simp: expected_start_def split: option.splits)
    qed
    with c show ?thesis by (simp add: chained_verifies)
  qed simp
qed

lemma checkpoints_verify:
  assumes "audit_ok E s" and "list_all (\<lambda>c. kp_partition c = part \<and> c \<in> set (au_checkpoints s)) cs"
  shows "fst (check_checkpoints E part s cs) = [] \<and> snd (snd (check_checkpoints E part s cs)) = length cs"
  using assms(2)
proof (induction cs)
  case (Cons c cs)
  have ok: "checkpoint_ok E s c" using assms(1) Cons.prems by (simp add: audit_ok_def)
  have ch: "chained E 0 (getGenesisHash E part) (part_events part s)" by (rule audit_ok_chain [OF assms(1)])
  let ?P = "\<lambda>e. tl_partition e = part \<and> kp_startSequence c \<le> tl_sequence e \<and> tl_sequence e \<le> kp_endSequence c \<and> \<not> tl_isLegacy e"
  have "sorted_events ?P s = filter (\<lambda>e. kp_startSequence c \<le> tl_sequence e \<and> tl_sequence e \<le> kp_endSequence c \<and> \<not> tl_isLegacy e) (part_events part s)"
    by (rule sorted_part_events [OF ch]) simp
  also have "\<dots> = filter (\<lambda>e. kp_startSequence c \<le> tl_sequence e \<and> tl_sequence e \<le> kp_endSequence c) (part_events part s)"
    by (rule filter_cong) (auto dest: chained_not_legacy [OF ch])
  finally have root: "computeRootHash E (map tl_eventHash (sorted_events ?P s)) = kp_rootHash c"
    using ok Cons.prems by (simp add: checkpoint_ok_def)
  have sig: "verify_signature E (checkpoint_text E c) (kp_signature c)" using ok by (simp add: checkpoint_ok_def)
  obtain errs warns n where r: "check_checkpoints E part s cs = (errs, warns, n)" by (metis surj_pair)
  have "errs = []" "n = length cs" using Cons r by simp_all
  with r root sig show ?case by (simp add: checkpoint_text_def)
qed simp

lemma ok_no_anomalies:
  assumes "audit_ok E s"
  shows "fst (detectAnomalies part s) = [] \<and> fst (snd (detectAnomalies part s)) = []"
proof -
  have ch: "chained E 0 (getGenesisHash E part) (part_events part s)" by (rule audit_ok_chain [OF assms])
  have "sorted_events (\<lambda>e. tl_partition e = part \<and> \<not> tl_isLegacy e) s = filter (\<lambda>e. \<not> tl_isLegacy e) (part_events part s)"
    by (rule sorted_part_events [OF ch]) simp
  also have "\<dots> = part_events part s" using chained_not_legacy [OF ch] by (simp add: filter_id_conv)
  finally have es: "sorted_events (\<lambda>e. tl_partition e = part \<and> \<not> tl_isLegacy e) s = part_events part s" .
  have ns: "map tl_sequence (part_events part s) = [0 ..< length (part_events part s)]" using chained_sequences [OF ch] by simp
  have "count_list [0 ..< k] m \<le> 1" for k m :: nat
    by (induction k) (auto simp: count_list_0_iff)
  then show ?thesis unfolding detectAnomalies_def Let_def es ns
    by (auto simp: filter_empty_conv not_less dest: leD)
qed

end
