(* ===== verification/Audit_Properties.thy ===== *)
theory Audit_Properties
  imports Audit_Theorems
begin

text \<open>The properties of the tamper-evident log: it verifies, it is bound by its last hash, and a gap stops it.\<close>

subsection \<open>What the canonical data binds\<close>

definition evidence :: "audit_env \<Rightarrow> audit_entry \<Rightarrow> nat \<times> string list \<times> string option list \<times> json option" where
  "evidence E e = (tl_sequence e,
     [tl_eventId e, tl_action e, tl_targetType e, tl_status e, ax_iso E (tl_timestamp e), tl_partition e, tl_previousHash e],
     map or_undefined [tl_actorId e, tl_actorRole e, tl_actorIdentifier e, tl_targetId e, tl_requestId e, tl_ipAddress e, tl_userAgent e],
     map_option sortObjectKeys (tl_metadata e))"

definition canonical_fields :: "audit_env \<Rightarrow> audit_entry \<Rightarrow> (string \<times> json) list" where
  "canonical_fields E e = (case buildCanonicalAuditEventData E e of J_object kvs \<Rightarrow> kvs | _ \<Rightarrow> [])"

lemma build_fields: "buildCanonicalAuditEventData E e = J_object (canonical_fields E e)"
  by (simp add: canonical_fields_def buildCanonicalAuditEventData_def)

definition present :: "(string \<times> json option) list \<Rightarrow> (string \<times> json) list" where
  "present fs = concat (map (\<lambda>(k, v). case v of None \<Rightarrow> [] | Some x \<Rightarrow> [(k, x)]) fs)"

lemma present_simps [simp]:
  "present [] = []" "present ((k, v) # fs) = (case v of None \<Rightarrow> [] | Some x \<Rightarrow> [(k, x)]) @ present fs"
  by (simp_all add: present_def)

lemma present_key: "k \<in> fst ` set (present fs) \<Longrightarrow> k \<in> fst ` set fs"
  by (force simp: present_def split: option.splits)

lemma present_distinct: "distinct (map fst fs) \<Longrightarrow> distinct (map fst (present fs))"
proof (induction fs)
  case (Cons f fs)
  obtain l v where f: "f = (l, v)" by fastforce
  have "l \<notin> fst ` set (present fs)" using present_key [of l fs] Cons.prems f by auto
  with Cons f show ?case by (cases v) simp_all
qed simp

lemma present_map_of: "distinct (map fst fs) \<Longrightarrow> map_of (present fs) k = Option.bind (map_of fs k) (\<lambda>v. v)"
proof (induction fs)
  case (Cons f fs)
  obtain l v where f: "f = (l, v)" by fastforce
  have "l \<notin> fst ` set (present fs)" using present_key [of l fs] Cons.prems f by auto
  then have "map_of (present fs) l = None" by (simp add: map_of_eq_None_iff)
  with Cons f show ?case by (cases v; cases "k = l") simp_all
qed simp

definition field_options :: "audit_env \<Rightarrow> audit_entry \<Rightarrow> (string \<times> json option) list" where
  "field_options E e =
     [(''sequence'', Some (J_number (of_nat (tl_sequence e)))), (''eventId'', Some (J_string (tl_eventId e))),
      (''actorId'', map_option J_string (or_undefined (tl_actorId e))),
      (''actorRole'', map_option J_string (or_undefined (tl_actorRole e))),
      (''actorIdentifier'', map_option J_string (or_undefined (tl_actorIdentifier e))),
      (''action'', Some (J_string (tl_action e))), (''targetType'', Some (J_string (tl_targetType e))),
      (''targetId'', map_option J_string (or_undefined (tl_targetId e))),
      (''status'', Some (J_string (tl_status e))),
      (''requestId'', map_option J_string (or_undefined (tl_requestId e))), (''metadata'', tl_metadata e),
      (''ipAddress'', map_option J_string (or_undefined (tl_ipAddress e))),
      (''userAgent'', map_option J_string (or_undefined (tl_userAgent e))),
      (''timestamp'', Some (J_string (ax_iso E (tl_timestamp e)))), (''partition'', Some (J_string (tl_partition e))),
      (''previousHash'', Some (J_string (tl_previousHash e))), (''isLegacy'', if tl_isLegacy e then Some (J_bool True) else None)]"

lemma text_field_option: "text_field k v = (case map_option J_string (or_undefined v) of None \<Rightarrow> [] | Some x \<Rightarrow> [(k, x)])"
  by (auto simp: text_field_def or_undefined_def elim: truthyE)

lemma fields_present: "canonical_fields E e = present (field_options E e)"
  by (simp add: canonical_fields_def buildCanonicalAuditEventData_def field_options_def text_field_option)

lemma field_keys_distinct: "distinct (map fst (field_options E e))"
  by (simp add: field_options_def)

lemma distinct_fields: "distinct (map fst (canonical_fields E e))"
  unfolding fields_present by (rule present_distinct [OF field_keys_distinct])

lemma sorted_fields:
  assumes "sortObjectKeys (J_object kvs) = sortObjectKeys (J_object lws)" and "distinct (map fst kvs)" and "distinct (map fst lws)"
  shows "map_option sortObjectKeys (map_of kvs k) = map_option sortObjectKeys (map_of lws k)"
proof -
  have look: "map_of (sort_key fst (map (\<lambda>kv. (fst kv, sortObjectKeys (snd kv))) xs)) k = map_option sortObjectKeys (map_of xs k)"
    if "distinct (map fst xs)" for xs :: "(string \<times> json) list"
  proof -
    let ?ys = "map (\<lambda>kv. (fst kv, sortObjectKeys (snd kv))) xs"
    have d: "distinct (map fst ?ys)" using that by (simp add: o_def)
    have "mset (map fst (sort_key fst ?ys)) = mset (map fst ?ys)" by (simp only: mset_map mset_sort)
    then have "distinct (map fst (sort_key fst ?ys))" using d mset_eq_imp_distinct_iff by blast
    then have "map_of (sort_key fst ?ys) = map_of ?ys"
      using d by (intro map_of_inject_set [THEN iffD2]) simp_all
    moreover have "map_of ?ys k = map_option sortObjectKeys (map_of xs k)"
      by (induction xs) auto
    ultimately show ?thesis by simp
  qed
  from assms(1) have "sort_key fst (map (\<lambda>kv. (fst kv, sortObjectKeys (snd kv))) kvs)
      = sort_key fst (map (\<lambda>kv. (fst kv, sortObjectKeys (snd kv))) lws)" by simp
  then show ?thesis using look [OF assms(2)] look [OF assms(3)] by metis
qed

lemma field_values:
  "map_of (canonical_fields E e) ''sequence'' = Some (J_number (of_nat (tl_sequence e)))"
  "map_of (canonical_fields E e) ''eventId'' = Some (J_string (tl_eventId e))"
  "map_of (canonical_fields E e) ''action'' = Some (J_string (tl_action e))"
  "map_of (canonical_fields E e) ''targetType'' = Some (J_string (tl_targetType e))"
  "map_of (canonical_fields E e) ''status'' = Some (J_string (tl_status e))"
  "map_of (canonical_fields E e) ''timestamp'' = Some (J_string (ax_iso E (tl_timestamp e)))"
  "map_of (canonical_fields E e) ''partition'' = Some (J_string (tl_partition e))"
  "map_of (canonical_fields E e) ''previousHash'' = Some (J_string (tl_previousHash e))"
  "map_of (canonical_fields E e) ''metadata'' = tl_metadata e"
  "map_of (canonical_fields E e) ''actorId'' = map_option J_string (or_undefined (tl_actorId e))"
  "map_of (canonical_fields E e) ''actorRole'' = map_option J_string (or_undefined (tl_actorRole e))"
  "map_of (canonical_fields E e) ''actorIdentifier'' = map_option J_string (or_undefined (tl_actorIdentifier e))"
  "map_of (canonical_fields E e) ''targetId'' = map_option J_string (or_undefined (tl_targetId e))"
  "map_of (canonical_fields E e) ''requestId'' = map_option J_string (or_undefined (tl_requestId e))"
  "map_of (canonical_fields E e) ''ipAddress'' = map_option J_string (or_undefined (tl_ipAddress e))"
  "map_of (canonical_fields E e) ''userAgent'' = map_option J_string (or_undefined (tl_userAgent e))"
  unfolding fields_present present_map_of [OF field_keys_distinct] by (simp_all add: field_options_def)

lemma dateless_sorted: "dateless (sortObjectKeys j)"
  by (induction j) (auto simp: list_all_iff)

lemma strings_determined: "map_option sortObjectKeys (map_option J_string x) = map_option sortObjectKeys (map_option J_string y) \<Longrightarrow> x = y"
  by (cases x; cases y) simp_all

lemma same_evidence:
  assumes "num_ok (ax_num E)" and "recomputed E e = recomputed E f"
  shows "evidence E e = evidence E f"
proof -
  have "sortObjectKeys (J_object (canonical_fields E e)) = sortObjectKeys (J_object (canonical_fields E f))"
    using assms(2) unfolding recomputed_def canonicalizeEventData_def build_fields
    by (rule json_text_eq [OF assms(1) dateless_sorted dateless_sorted])
  then have v: "map_option sortObjectKeys (map_of (canonical_fields E e) k) = map_option sortObjectKeys (map_of (canonical_fields E f) k)" for k
    by (rule sorted_fields [OF _ distinct_fields distinct_fields])
  have "tl_sequence e = tl_sequence f" using v [of "''sequence''"] by (simp add: field_values)
  moreover have "tl_eventId e = tl_eventId f" using v [of "''eventId''"] by (simp add: field_values)
  moreover have "tl_action e = tl_action f" using v [of "''action''"] by (simp add: field_values)
  moreover have "tl_targetType e = tl_targetType f" using v [of "''targetType''"] by (simp add: field_values)
  moreover have "tl_status e = tl_status f" using v [of "''status''"] by (simp add: field_values)
  moreover have "ax_iso E (tl_timestamp e) = ax_iso E (tl_timestamp f)" using v [of "''timestamp''"] by (simp add: field_values)
  moreover have "tl_partition e = tl_partition f" using v [of "''partition''"] by (simp add: field_values)
  moreover have "tl_previousHash e = tl_previousHash f" using v [of "''previousHash''"] by (simp add: field_values)
  moreover have "map_option sortObjectKeys (tl_metadata e) = map_option sortObjectKeys (tl_metadata f)"
    using v [of "''metadata''"] by (simp only: field_values)
  moreover have "or_undefined (tl_actorId e) = or_undefined (tl_actorId f)"
    using v [of "''actorId''"] by (simp only: field_values strings_determined)
  moreover have "or_undefined (tl_actorRole e) = or_undefined (tl_actorRole f)"
    using v [of "''actorRole''"] by (simp only: field_values strings_determined)
  moreover have "or_undefined (tl_actorIdentifier e) = or_undefined (tl_actorIdentifier f)"
    using v [of "''actorIdentifier''"] by (simp only: field_values strings_determined)
  moreover have "or_undefined (tl_targetId e) = or_undefined (tl_targetId f)"
    using v [of "''targetId''"] by (simp only: field_values strings_determined)
  moreover have "or_undefined (tl_requestId e) = or_undefined (tl_requestId f)"
    using v [of "''requestId''"] by (simp only: field_values strings_determined)
  moreover have "or_undefined (tl_ipAddress e) = or_undefined (tl_ipAddress f)"
    using v [of "''ipAddress''"] by (simp only: field_values strings_determined)
  moreover have "or_undefined (tl_userAgent e) = or_undefined (tl_userAgent f)"
    using v [of "''userAgent''"] by (simp only: field_values strings_determined)
  ultimately show ?thesis by (simp add: evidence_def)
qed

subsection \<open>Two chains with the same last hash\<close>

definition hashed_text :: "audit_env \<Rightarrow> audit_entry \<Rightarrow> string" where
  "hashed_text E e = tl_previousHash e @ recomputed E e"

lemma chains_agree:
  assumes num: "num_ok (ax_num E)" and len: "\<And>x. length (ax_sha E x) = k"
  shows "chained E 0 (ax_sha E g) es \<Longrightarrow> chained E 0 (ax_sha E g) fs \<Longrightarrow> es \<noteq> [] \<Longrightarrow> fs \<noteq> []
    \<Longrightarrow> tl_eventHash (last es) = tl_eventHash (last fs)
    \<Longrightarrow> inj_on (ax_sha E) (hashed_text E ` (set es \<union> set fs)) \<Longrightarrow> map (evidence E) es = map (evidence E) fs"
proof (induction es arbitrary: fs rule: rev_induct)
  case (snoc e es)
  obtain f gs where fs: "fs = gs @ [f]" using snoc.prems(4) by (cases fs rule: rev_cases) auto
  let ?g = "ax_sha E g"
  have e: "entry_ok E e" "tl_sequence e = length es" "tl_previousHash e = end_hash ?g es" and es: "chained E 0 ?g es"
    using snoc.prems(1) by auto
  have f: "entry_ok E f" "tl_sequence f = length gs" "tl_previousHash f = end_hash ?g gs" and gs: "chained E 0 ?g gs"
    using snoc.prems(2) fs by auto
  have hash_of: "\<exists>x. end_hash ?g xs = ax_sha E x" if "chained E 0 ?g xs" for xs
    using chained_entry_ok [OF that] by (cases xs rule: rev_cases) (auto simp: end_hash_def entry_ok_def)
  have eq: "ax_sha E (hashed_text E e) = ax_sha E (hashed_text E f)"
    using e(1) f(1) snoc.prems(5) fs by (simp add: entry_ok_def hashed_text_def)
  have "hashed_text E e = hashed_text E f"
    by (rule inj_onD [OF snoc.prems(6) eq]) (simp_all add: fs)
  moreover have "length (tl_previousHash e) = length (tl_previousHash f)"
    using hash_of [OF es] hash_of [OF gs] e(3) f(3) len by metis
  ultimately have p: "tl_previousHash e = tl_previousHash f" "recomputed E e = recomputed E f"
    by (simp_all add: hashed_text_def)
  have ev: "evidence E e = evidence E f" by (rule same_evidence [OF num p(2)])
  then have l: "length es = length gs" using e(2) f(2) by (simp add: evidence_def)
  show ?case
  proof (cases "es = []")
    case True
    with l ev fs show ?thesis by simp
  next
    case False
    with l have "gs \<noteq> []" by auto
    have "tl_eventHash (last es) = tl_eventHash (last gs)" using p(1) e(3) f(3) False \<open>gs \<noteq> []\<close> by (simp add: end_hash_def)
    moreover have "inj_on (ax_sha E) (hashed_text E ` (set es \<union> set gs))"
      by (rule inj_on_subset [OF snoc.prems(6)]) (auto simp: fs)
    ultimately have "map (evidence E) es = map (evidence E) gs" by (rule snoc.IH [OF es gs False \<open>gs \<noteq> []\<close>])
    with ev fs show ?thesis by simp
  qed
qed simp

definition recorded :: "string \<Rightarrow> audit_db \<Rightarrow> audit_entry list" where
  "recorded part s = sorted_events (\<lambda>e. tl_partition e = part) s"

lemma verified_recorded:
  assumes "vs_valid (verifyAuditChain E part None None b s)" and "list_all (\<lambda>e. \<not> tl_isLegacy e) (recorded part s)"
    and "recorded part s \<noteq> []" and "tl_sequence (hd (recorded part s)) = 0"
  shows "chained E 0 (getGenesisHash E part) (recorded part s)"
proof -
  let ?es = "recorded part s"
  have es: "sorted_events (\<lambda>e. tl_partition e = part \<and> in_range None None (tl_sequence e)) s = ?es"
    by (simp add: recorded_def in_range_def)
  have v: "filter (\<lambda>e. \<not> tl_isLegacy e) ?es = ?es" using assms(2) by (simp add: filter_id_conv list_all_iff)
  have "check_events E None (expected_start E part ?es s) ?es = []"
    using assms(1,3) unfolding verifyAuditChain_def es Let_def v by (simp split: prod.splits if_splits)
  moreover have "expected_start E part ?es s = getGenesisHash E part"
    using assms(3,4) by (cases ?es) (simp_all add: expected_start_def)
  ultimately show ?thesis using verified_chained [of E None "getGenesisHash E part" ?es 0] assms(2,4) by simp
qed

text \<open>
  C27. Two states of the log that both verify, start at sequence 0 and end in the same event hash
  record the same events in a partition, field by field, as long as SHA-256 has outputs of one
  length and no collision among the texts hashed: nothing can be changed, inserted, dropped or
  reordered before an event whose hash is known.
\<close>
theorem last_hash_binds_log:
  assumes "vs_valid (verifyAuditChain E part None None b s)" and "vs_valid (verifyAuditChain E part None None c t)"
    and "list_all (\<lambda>e. \<not> tl_isLegacy e) (recorded part s @ recorded part t)"
    and "recorded part s \<noteq> []" and "recorded part t \<noteq> []"
    and "tl_sequence (hd (recorded part s)) = 0" and "tl_sequence (hd (recorded part t)) = 0"
    and "tl_eventHash (last (recorded part s)) = tl_eventHash (last (recorded part t))"
    and "num_ok (ax_num E)" and "\<And>x. length (ax_sha E x) = k"
    and "inj_on (ax_sha E) (hashed_text E ` (set (recorded part s) \<union> set (recorded part t)))"
  shows "map (evidence E) (recorded part s) = map (evidence E) (recorded part t)"
proof (rule chains_agree [OF assms(9,10) _ _ assms(4,5,8,11)])
  show "chained E 0 (ax_sha E (''GENESIS:'' @ part)) (recorded part s)"
    using verified_recorded [OF assms(1) _ assms(4,6)] assms(3) by (simp add: getGenesisHash_def)
  show "chained E 0 (ax_sha E (''GENESIS:'' @ part)) (recorded part t)"
    using verified_recorded [OF assms(2) _ assms(5,7)] assms(3) by (simp add: getGenesisHash_def)
qed

text \<open>
  C28. However reservations, writes and checkpoints of several callers interleave, fail or stop
  half way, the log verifies: every range of every partition, with the signed checkpoints, gives
  no error, every event is counted as verified, and no sequence number is missing or repeated.
\<close>
theorem audit_log_verifies:
  assumes "list_all (good_audit_op E) ops" and "s = run_seq audit_step ops no_log"
  shows "vs_valid (verifyAuditChain E part lo hi b s) \<and> vs_errors (verifyAuditChain E part lo hi b s) = []
    \<and> vs_eventsVerified (verifyAuditChain E part lo hi b s) = vs_totalEvents (verifyAuditChain E part lo hi b s)
    \<and> fst (detectAnomalies part s) = [] \<and> fst (snd (detectAnomalies part s)) = []"
proof -
  have ok: "audit_ok E s" unfolding assms(2) by (rule run_audit_ok [OF assms(1)])
  let ?es = "sorted_events (\<lambda>e. tl_partition e = part \<and> in_range lo hi (tl_sequence e)) s"
  note es = ok_range [OF ok refl, of part lo hi]
  have v: "filter (\<lambda>e. \<not> tl_isLegacy e) ?es = ?es" using es(1) by (simp add: filter_id_conv list_all_iff)
  have l: "filter tl_isLegacy ?es = []" using es(1) by (simp add: filter_empty_conv list_all_iff)
  let ?cs = "sort_key kp_number (filter (\<lambda>c. kp_partition c = part) (au_checkpoints s))"
  have "fst (check_checkpoints E part s ?cs) = []"
    by (rule conjunct1 [OF checkpoints_verify [OF ok]]) (simp add: list_all_iff)
  then have c: "fst (verifyCheckpoints E part s) = []" by (simp add: verifyCheckpoints_def Let_def split: prod.splits)
  show ?thesis
    using es(2) c ok_no_anomalies [OF ok, of part]
    by (auto simp: verifyAuditChain_def Let_def v l split: prod.splits if_splits)
qed

subsection \<open>A gap in the sequence\<close>

abbreviation sequence_of :: "string \<Rightarrow> audit_db \<Rightarrow> audit_sequence option" where
  "sequence_of part s \<equiv> find_one (\<lambda>q. aq_partition q = part) (au_sequences s)"

definition next_number :: "string \<Rightarrow> audit_db \<Rightarrow> nat" where
  "next_number part s = (case sequence_of part s of None \<Rightarrow> 0 | Some q \<Rightarrow> aq_nextSequence q)"

lemma reserve_effect:
  assumes "reserveNextSequence part s = (n, s1)"
  shows "n = next_number part s" "next_number part s1 = Suc n" "p \<noteq> part \<Longrightarrow> next_number p s1 = next_number p s"
    "au_events s1 = au_events s"
proof -
  have other: "p \<noteq> part \<Longrightarrow> find_one (\<lambda>q. aq_partition q = p) (update_one (\<lambda>q. aq_partition q = part) (\<lambda>q. q\<lparr>aq_nextSequence := Suc (aq_nextSequence q)\<rparr>) qs)
      = find_one (\<lambda>q. aq_partition q = p) qs" for qs
    by (rule find_key_update_one_other [where k = aq_partition]) auto
  have same: "find_one (\<lambda>q. aq_partition q = part) (update_one (\<lambda>q. aq_partition q = part) (\<lambda>q. q\<lparr>aq_nextSequence := Suc (aq_nextSequence q)\<rparr>) qs)
      = map_option (\<lambda>q. q\<lparr>aq_nextSequence := Suc (aq_nextSequence q)\<rparr>) (find_one (\<lambda>q. aq_partition q = part) qs)" for qs
    by (rule find_key_update_one_map [where k = aq_partition]) simp
  from assms show "n = next_number part s" "next_number part s1 = Suc n" "p \<noteq> part \<Longrightarrow> next_number p s1 = next_number p s"
    "au_events s1 = au_events s"
    by (auto simp: reserveNextSequence_def next_number_def find_one_append other same split: option.splits)
qed

lemma checkpoint_spares [simp]:
  "au_events (autoCheckpointIfNeeded E part k s) = au_events s" "au_sequences (autoCheckpointIfNeeded E part k s) = au_sequences s"
  by (simp_all add: autoCheckpointIfNeeded_def createCheckpoint_def Let_def)

lemma next_number_auto [simp]: "next_number p (autoCheckpointIfNeeded E part k s) = next_number p s"
  by (simp add: next_number_def)

lemma write_effect:
  assumes "write_event F inp part n s = (r, s')"
  shows "next_number p s' = next_number p s"
    "au_events s' = au_events s \<or> (\<exists>e prev. au_events s' = au_events s @ [e] \<and> tl_partition e = part \<and> tl_sequence e = n \<and> getPreviousHash F part n s = Some prev)"
proof -
  from assms have "next_number p s' = next_number p s \<and> (au_events s' = au_events s
      \<or> (\<exists>e prev. au_events s' = au_events s @ [e] \<and> tl_partition e = part \<and> tl_sequence e = n \<and> getPreviousHash F part n s = Some prev))"
  proof (cases rule: write_cases)
    case (written prev s1)
    then have "au_events s' = au_events s @ [stored_entry F inp part n prev]" "next_number p s' = next_number p s"
      by (auto simp: next_number_def)
    with written(1) show ?thesis by (auto simp: stored_entry_def)
  qed simp
  then show "next_number p s' = next_number p s"
    "au_events s' = au_events s \<or> (\<exists>e prev. au_events s' = au_events s @ [e] \<and> tl_partition e = part \<and> tl_sequence e = n \<and> getPreviousHash F part n s = Some prev)"
    by blast+
qed

text \<open>\<open>below part k s\<close>: the events of the partition have numbers below \<open>k\<close>.\<close>

definition below :: "string \<Rightarrow> nat \<Rightarrow> audit_db \<Rightarrow> bool" where
  "below part k s \<longleftrightarrow> (\<forall>e \<in> set (au_events s). tl_partition e = part \<longrightarrow> tl_sequence e < k)"

lemma previous_missing: "below part k s \<Longrightarrow> k < n \<Longrightarrow> getPreviousHash F part n s = None"
  by (fastforce simp: getPreviousHash_def below_def find_None_iff split: option.splits dest!: find_one_SomeD)

abbreviation log_step :: "audit_env \<times> audit_input \<Rightarrow> audit_db \<Rightarrow> audit_outcome \<times> audit_db" where
  "log_step c s \<equiv> logTamperEvidentAuditEvent (fst c) (snd c) s"

lemma log_cases:
  assumes "logTamperEvidentAuditEvent E inp s = (r, s')"
  obtains (early) "s' = s" "\<And>i. r \<noteq> Audit_logged i" "ax_fault E = Some At_connect \<or> ax_fault E = Some At_reserve"
  | (tried) n s1 q where "reserveNextSequence (log_partition E inp) s = (n, s1)" "write_event E inp (log_partition E inp) n s1 = (q, s')"
      "\<And>i. r = Audit_logged i \<Longrightarrow> q = Inr i"
proof (cases "ax_fault E = Some At_connect \<or> ax_fault E = Some At_reserve")
  case True
  with assms early show thesis by (auto simp: logTamperEvidentAuditEvent_def log_body_def Let_def split: if_splits)
next
  case False
  obtain n s1 where n: "reserveNextSequence (log_partition E inp) s = (n, s1)" by fastforce
  obtain q s2 where q: "write_event E inp (log_partition E inp) n s1 = (q, s2)" by fastforce
  from assms False n q show thesis
    by (intro tried [OF n, of q]) (auto simp: logTamperEvidentAuditEvent_def log_body_def Let_def split: sum.splits if_splits)
qed

lemma log_counts:
  assumes "\<And>p. below p (next_number p s) s"
  shows "below p (next_number p (snd (log_step c s))) (snd (log_step c s))"
proof -
  obtain E inp where c: "c = (E, inp)" by fastforce
  obtain r s' where l: "logTamperEvidentAuditEvent E inp s = (r, s')" by fastforce
  then have "below p (next_number p s') s'"
  proof (cases rule: log_cases)
    case (tried n s1 q)
    note a = reserve_effect [OF tried(1)] and w = write_effect [OF tried(2)]
    have s1: "below p (next_number p s1) s1"
      using assms [of p] a(1,2,4) a(3) [of p] by (cases "p = log_partition E inp") (auto simp: below_def)
    with w(2) a(2) show ?thesis by (auto simp: below_def w(1))
  qed (simp add: assms)
  with l c show ?thesis by simp
qed

lemma log_stuck:
  assumes "below part k s" and "k < next_number part s" and "logTamperEvidentAuditEvent E inp s = (r, s')"
  shows "below part k s'" and "k < next_number part s'" and "filter (\<lambda>e. tl_partition e = part) (au_events s') = filter (\<lambda>e. tl_partition e = part) (au_events s)"
    and "log_partition E inp = part \<Longrightarrow> r \<noteq> Audit_logged i"
proof -
  from assms(3) have "below part k s' \<and> k < next_number part s'
      \<and> filter (\<lambda>e. tl_partition e = part) (au_events s') = filter (\<lambda>e. tl_partition e = part) (au_events s)
      \<and> (log_partition E inp = part \<longrightarrow> r \<noteq> Audit_logged i)"
  proof (cases rule: log_cases)
    case (tried n s1 q)
    note a = reserve_effect [OF tried(1)] and w = write_effect [OF tried(2)]
    have b: "below part k s1" using assms(1) a(4) by (simp add: below_def)
    show ?thesis
    proof (cases "log_partition E inp = part")
      case True
      with a(1) assms(2) have "getPreviousHash E part n s1 = None" by (intro previous_missing [OF b]) simp
      with tried(2) True have "q = Inl ''AUDIT_PREDECESSOR_MISSING''" "s' = s1" by (auto simp: write_event_def)
      with tried(3) a True b assms(2) show ?thesis by auto
    next
      case False
      with a(3) [of part] assms(2) have "k < next_number part s1" by simp
      with w(1) [of part] w(2) a(4) b False show ?thesis by (auto simp: below_def)
    qed
  qed (use assms in simp)
  then show "below part k s'" "k < next_number part s'" "filter (\<lambda>e. tl_partition e = part) (au_events s') = filter (\<lambda>e. tl_partition e = part) (au_events s)"
    "log_partition E inp = part \<Longrightarrow> r \<noteq> Audit_logged i" by blast+
qed

text \<open>
  If inserting one event fails after its number was reserved, the partition is closed for
  good: whatever is logged afterwards, no later event of the partition is accepted and none is
  stored - so every critical operation of that month throws.
\<close>
theorem failed_insert_closes_partition:
  assumes "s = run_seq log_step calls no_log" and "ax_fault E = Some At_create"
    and "logTamperEvidentAuditEvent E inp s = (r, s1)" and "s2 = run_seq log_step later s1"
    and "log_partition F jnp = log_partition E inp" and "logTamperEvidentAuditEvent F jnp s2 = (q, s3)"
  shows "q \<noteq> Audit_logged i \<and> filter (\<lambda>e. tl_partition e = log_partition E inp) (au_events s3)
      = filter (\<lambda>e. tl_partition e = log_partition E inp) (au_events s)"
proof -
  let ?p = "log_partition E inp" and ?k = "next_number (log_partition E inp) s"
  let ?I = "\<lambda>t. below ?p ?k t \<and> ?k < next_number ?p t
    \<and> filter (\<lambda>e. tl_partition e = ?p) (au_events t) = filter (\<lambda>e. tl_partition e = ?p) (au_events s)"
  have "\<forall>p. below p (next_number p s) s"
    unfolding assms(1)
    by (rule run_seq_invariant [where I = "\<lambda>s. \<forall>p. below p (next_number p s) s"]) (use log_counts in blast, simp add: below_def no_log_def)
  then have b: "below ?p ?k s" by blast
  have I1: "?I s1" using assms(3)
  proof (cases rule: log_cases)
    case (tried n t q)
    note a = reserve_effect [OF tried(1)]
    have "s1 = t" using tried(2) assms(2) by (auto simp: write_event_def Let_def split: option.splits)
    with a b show ?thesis by (simp add: below_def)
  qed (use assms(2) in simp)
  have step: "?I (snd (log_step c t))" if "?I t" for c t
  proof -
    obtain r' t' where l: "logTamperEvidentAuditEvent (fst c) (snd c) t = (r', t')" by fastforce
    from that log_stuck [where part = ?p and k = ?k, OF _ _ l] l show ?thesis by simp
  qed
  have I2: "?I s2" unfolding assms(4) by (rule run_seq_invariant [where I = ?I]) (use step I1 in blast)+
  with log_stuck(3) [where part = ?p and k = ?k, OF _ _ assms(6)] log_stuck(4) [where part = ?p and k = ?k and i = i, OF _ _ assms(6)] assms(5) show ?thesis by simp
qed

subsection \<open>What goes unnoticed\<close>

text \<open>
  Verification never asks that a partition starts at sequence 0: as long as no checkpoint covers
  them, the oldest events can be deleted, however many, and the rest verifies.
\<close>

lemma deleted_prefix_unnoticed:
  assumes ok: "audit_ok E s" and none: "au_checkpoints s = []"
    and t: "t = s\<lparr>au_events := filter (\<lambda>e. \<not> (tl_partition e = part \<and> tl_sequence e < k)) (au_events s)\<rparr>"
  shows "vs_valid (verifyAuditChain E part None None b t)"
proof -
  let ?es = "part_events part s" and ?g = "getGenesisHash E part"
  have ch: "chained E 0 ?g ?es" by (rule audit_ok_chain [OF ok])
  have "part_events part t = filter (\<lambda>e. k \<le> tl_sequence e) ?es"
    by (auto simp: t part_events_def not_less intro!: filter_cong)
  then have pt: "part_events part t = drop k ?es" using chained_filter_from [OF ch] by simp
  have "sorted (map tl_sequence (drop k ?es))" by (simp add: drop_map [symmetric] chained_sequences [OF ch] sorted_wrt_drop)
  then have st: "sorted_events (\<lambda>e. tl_partition e = part \<and> in_range None None (tl_sequence e)) t = drop k ?es"
    using pt by (simp add: sorted_events_def part_events_def in_range_def sort_key_id_if_sorted)
  have nl: "filter (\<lambda>e. \<not> tl_isLegacy e) (drop k ?es) = drop k ?es"
    using chained_not_legacy [OF ch] by (auto simp: filter_id_conv dest: in_set_dropD)
  have "check_events E None (expected_start E part (drop k ?es) t) (drop k ?es) = []"
  proof (cases "drop k ?es")
    case (Cons e r)
    then have k: "k \<le> length ?es" by (metis drop_all list.distinct(1) nle_le)
    have c: "chained E k (end_hash ?g (take k ?es)) (e # r)" using chained_drop [OF ch k] Cons by simp
    have gone: "find_one (\<lambda>f. tl_partition f = part \<and> tl_sequence f = tl_sequence e - 1 \<and> \<not> tl_isLegacy f) (au_events t) = None" if "0 < k"
      using c that by (auto simp: t find_None_iff)
    have "expected_start E part (e # r) t = tl_previousHash e"
    proof (cases "k = 0")
      case True
      with c show ?thesis by (simp add: expected_start_def end_hash_def)
    next
      case False
      with gone c show ?thesis by (simp add: expected_start_def)
    qed
    with c Cons show ?thesis using chained_verifies [of E k "end_hash ?g (take k ?es)" "e # r" None] by simp
  qed simp
  moreover have "fst (verifyCheckpoints E part t) = []" by (simp add: verifyCheckpoints_def Let_def t none)
  ultimately show ?thesis unfolding verifyAuditChain_def st Let_def nl by (auto split: prod.splits)
qed

lemma arrays_are_not_sanitized: "sanitize_json (J_array [J_object [(''password'', v)]]) = J_array [J_object [(''password'', v)]]"
  by simp

lemma dates_are_not_bound: "canonicalizeEventData E (J_object [(''due'', J_date a)]) = canonicalizeEventData E (J_object [(''due'', J_date c)])"
  by (simp add: canonicalizeEventData_def)

subsection \<open>A small log\<close>

definition demo_num :: "rat \<Rightarrow> string" where
  "demo_num x = (case quotient_of x of (a, d) \<Rightarrow>
     (if a < 0 then ''-'' else []) @ replicate (nat \<bar>a\<bar>) (CHR ''1'') @ CHR ''.'' # replicate (nat d) (CHR ''1''))"

lemma replicate_dot: "replicate m (CHR ''1'') @ CHR ''.'' # r = replicate n (CHR ''1'') @ CHR ''.'' # q \<Longrightarrow> m = n \<and> r = q"
proof (induction m arbitrary: n)
  case 0
  then show ?case by (cases n) auto
next
  case (Suc m)
  then show ?case by (cases n) auto
qed

lemma demo_num_ok: "num_ok demo_num"
proof -
  have "x = y" if eq: "demo_num x = demo_num y" for x y
  proof -
    obtain a d where x: "quotient_of x = (a, d)" by fastforce
    obtain b f where y: "quotient_of y = (b, f)" by fastforce
    have pos: "0 < d" "0 < f" using quotient_of_denom_pos [OF x] quotient_of_denom_pos [OF y] by auto
    have nodash: "replicate n (CHR ''1'') @ CHR ''.'' # r \<noteq> CHR ''-'' # q" for n r q by (cases n) auto
    have sign: "(a < 0) = (b < 0)" using eq nodash nodash [symmetric] by (auto simp: demo_num_def x y split: if_splits)
    then have "replicate (nat \<bar>a\<bar>) (CHR ''1'') @ CHR ''.'' # replicate (nat d) (CHR ''1'')
        = replicate (nat \<bar>b\<bar>) (CHR ''1'') @ CHR ''.'' # replicate (nat f) (CHR ''1'')"
      using eq by (auto simp: demo_num_def x y split: if_splits)
    from replicate_dot [OF this] have "nat \<bar>a\<bar> = nat \<bar>b\<bar>" "nat d = nat f" by auto
    with sign pos have "a = b" "d = f" by auto
    with x y show "x = y" by (metis quotient_of_div)
  qed
  moreover have "demo_num x \<noteq> []" "list_all number_char (demo_num x)" for x
    by (auto simp: demo_num_def list_all_iff number_char_def split: prod.splits)
  ultimately show ?thesis by (auto simp: num_ok_def inj_def)
qed

definition demo_audit_env :: "string \<Rightarrow> audit_env" where
  "demo_audit_env uuid = \<lparr> ax_now = 7, ax_month = ''m'', ax_sha = (\<lambda>x. [char_of (length x)]), ax_hmac = (@), ax_num = demo_num,
     ax_iso = (\<lambda>_. ''t''), ax_uuid = uuid, ax_stored = (\<lambda>m. m), ax_key = ''k'', ax_previousKeys = [], ax_fault = None \<rparr>"

definition demo_audit_input :: audit_input where
  "demo_audit_input = \<lparr> ti_actor = None, ti_action = ''wallet.credit'', ti_targetType = ''user'', ti_targetId = None, ti_status = None,
     ti_requestId = None, ti_ipAddress = None, ti_userAgent = None, ti_metadata = None, ti_partition = None, ti_criticalAction = True \<rparr>"

definition demo_audit_ops :: "audit_op list" where
  "demo_audit_ops = [Reserve ''m'', Reserve ''m'', Write (demo_audit_env ''bb'') demo_audit_input ''m'' 1,
     Write (demo_audit_env ''a'') demo_audit_input ''m'' 0, Write (demo_audit_env ''bb'') demo_audit_input ''m'' 1,
     Checkpoint (demo_audit_env ''c'') ''m'']"

abbreviation demo_log :: audit_db where
  "demo_log \<equiv> run_seq audit_step demo_audit_ops no_log"

lemma demo_good: "list_all (good_audit_op (demo_audit_env ''v'')) demo_audit_ops"
  by (simp add: demo_audit_ops_def good_write_def same_crypto_def demo_audit_env_def demo_audit_input_def)

lemma demo_log_numbers: "map tl_sequence (recorded ''m'' demo_log) = [0, 1]" by code_simp

lemma audit_log_verifies_witness:
  "vs_valid (verifyAuditChain (demo_audit_env ''v'') ''m'' (Some 1) None True demo_log)"
  by (rule conjunct1 [OF audit_log_verifies [OF demo_good refl]])

lemma last_hash_binds_log_witness:
  "map (evidence (demo_audit_env ''v'')) (recorded ''m'' demo_log)
    = map (evidence (demo_audit_env ''v'')) (recorded ''m'' (snd (audit_step (Reserve ''m'') demo_log)))"
proof (rule last_hash_binds_log [where k = 1])
  show "vs_valid (verifyAuditChain (demo_audit_env ''v'') ''m'' None None True demo_log)" by code_simp
  show "vs_valid (verifyAuditChain (demo_audit_env ''v'') ''m'' None None True (snd (audit_step (Reserve ''m'') demo_log)))" by code_simp
  show "list_all (\<lambda>e. \<not> tl_isLegacy e) (recorded ''m'' demo_log @ recorded ''m'' (snd (audit_step (Reserve ''m'') demo_log)))" by code_simp
  show "recorded ''m'' demo_log \<noteq> []" by code_simp
  show "recorded ''m'' (snd (audit_step (Reserve ''m'') demo_log)) \<noteq> []" by code_simp
  show "tl_sequence (hd (recorded ''m'' demo_log)) = 0" by code_simp
  show "tl_sequence (hd (recorded ''m'' (snd (audit_step (Reserve ''m'') demo_log)))) = 0" by code_simp
  show "tl_eventHash (last (recorded ''m'' demo_log)) = tl_eventHash (last (recorded ''m'' (snd (audit_step (Reserve ''m'') demo_log))))" by code_simp
  show "num_ok (ax_num (demo_audit_env ''v''))" by (simp add: demo_audit_env_def demo_num_ok)
  show "length (ax_sha (demo_audit_env ''v'') x) = 1" for x by (simp add: demo_audit_env_def)
  show "inj_on (ax_sha (demo_audit_env ''v'')) (hashed_text (demo_audit_env ''v'') `
      (set (recorded ''m'' demo_log) \<union> set (recorded ''m'' (snd (audit_step (Reserve ''m'') demo_log)))))" by code_simp
qed

lemma failed_insert_closes_partition_witness:
  "\<exists>s1. fst (logTamperEvidentAuditEvent (demo_audit_env ''b'') demo_audit_input s1) \<noteq> Audit_logged ''b''"
proof -
  let ?E = "(demo_audit_env ''a'')\<lparr>ax_fault := Some At_create\<rparr>"
  obtain r s1 where a: "logTamperEvidentAuditEvent ?E demo_audit_input no_log = (r, s1)" by fastforce
  obtain q s3 where b: "logTamperEvidentAuditEvent (demo_audit_env ''b'') demo_audit_input s1 = (q, s3)" by fastforce
  have "q \<noteq> Audit_logged ''b''"
    by (rule conjunct1 [OF failed_insert_closes_partition [where calls = "[]" and later = "[]", OF _ _ a _ _ b]])
       (simp_all add: log_partition_def demo_audit_env_def demo_audit_input_def truthy_def)
  with b show ?thesis by (metis fst_conv)
qed

end
