(* ===== verification/Event_Projection.thy ===== *)
theory Event_Projection
  imports Js_Sort Json_Text "HOL-Library.AList" "HOL-Library.Product_Lexorder"
begin

text \<open>
  Contract events of the Soroban contracts: decoding (\<open>lib/stellar/events/decoders.ts\<close>), reducing
  them to projections (\<open>lib/stellar/projections/reducers.ts\<close>) and rebuilding the projections from a
  log (\<open>lib/stellar/projections/rebuild.ts\<close>), over the types of \<open>types/contract-events.ts\<close>.

  Totals are integers: \<open>BigInt\<close> and \<open>toString\<close> are inverse on them.  An object keyed by a
  string or number is an association list.  \<open>localeCompare\<close>, the text of a number and the value
  of a numeric text are arguments.
\<close>

subsection \<open>Types\<close>

datatype pool_event_type = Pool_created | Pool_funded | Pool_repaid | Pool_refund | Pool_closed
datatype repayment_event_type = Repayment_init | Driver_assigned | Repayment_recorded

record pool_payload =
  pp_version :: jsnum
  pp_asset :: string
  pp_amount :: string
  pp_pool_id :: jsnum
  pp_position_id :: string
  pp_actor :: string
  pp_reference :: string
  pp_post_funded_units :: jsnum
  pp_post_total_invested :: string
  pp_post_total_repaid :: string

record repayment_payload =
  rp_version :: jsnum
  rp_driver :: string
  rp_pool_or_vehicle :: string
  rp_actor :: string
  rp_amountText :: string
  rp_post_total_owed :: string
  rp_post_total_repaid :: string

datatype event_body = Pool_body pool_event_type pool_payload | Repayment_body repayment_event_type repayment_payload

record chain_event =
  xe_id :: string
  xe_contractId :: string
  xe_ledger :: int
  xe_eventIndex :: int
  xe_transactionHash :: string
  xe_schemaVersion :: jsnum
  xe_timestamp :: "string option"
  xe_body :: event_body

record investor_position =
  pz_poolId :: jsnum
  pz_investor :: string
  pz_units :: int
  pz_invested :: int
  pz_repaid :: int
  pz_refunded :: int

record pool_projection =
  pj_id :: jsnum
  pj_asset :: string
  pj_fundedUnits :: jsnum
  pj_totalInvested :: int
  pj_totalRepaid :: int
  pj_active :: bool
  pj_lastLedger :: int
  pj_lastEventId :: string
  pj_positions :: "(string \<times> investor_position) list"

record driver_projection =
  dj_driver :: string
  dj_poolOrVehicle :: string
  dj_totalOwed :: string
  dj_totalRepaid :: int
  dj_active :: bool
  dj_lastLedger :: int
  dj_lastEventId :: string

datatype projection_error = Invalid_payload string | Incompatible_version jsnum | Bigint_syntax | Duplicate_on_empty string

definition CURRENT_EVENT_SCHEMA_VERSION :: rat where "CURRENT_EVENT_SCHEMA_VERSION = 1"
definition MAX_EVENT_PAYLOAD_BYTES :: nat where "MAX_EVENT_PAYLOAD_BYTES = 1024"

subsection \<open>Conversions\<close>

text \<open>\<open>BigInt\<close> of a text: signed decimal, or a prefixed hexadecimal, octal or binary literal.\<close>

definition digit_value :: "char \<Rightarrow> nat" where
  "digit_value c = (let n = of_char c in
     if 48 \<le> n \<and> n \<le> 57 then n - 48 else if 97 \<le> n \<and> n \<le> 122 then n - 87 else if 65 \<le> n \<and> n \<le> 90 then n - 55 else 99)"

definition digits_value :: "nat \<Rightarrow> string \<Rightarrow> int option" where
  "digits_value base ds =
     (if ds \<noteq> [] \<and> list_all (\<lambda>c. digit_value c < base) ds
      then Some (foldl (\<lambda>v c. v * int base + int (digit_value c)) 0 ds) else None)"

definition big_int :: "string \<Rightarrow> int option" where
  "big_int s =
     (case js_trim s of
        [] \<Rightarrow> Some 0
      | a # ds \<Rightarrow>
          if a = CHR ''-'' then map_option uminus (digits_value 10 ds)
          else if a = CHR ''+'' then digits_value 10 ds
          else (case ds of
             b # es \<Rightarrow>
               if a = CHR ''0'' \<and> b \<in> {CHR ''x'', CHR ''X''} then digits_value 16 es
               else if a = CHR ''0'' \<and> b \<in> {CHR ''o'', CHR ''O''} then digits_value 8 es
               else if a = CHR ''0'' \<and> b \<in> {CHR ''b'', CHR ''B''} then digits_value 2 es
               else digits_value 10 (a # ds)
           | [] \<Rightarrow> digits_value 10 [a]))"

record decode_env =
  de_num :: "rat \<Rightarrow> string"
  de_numeral :: "string \<Rightarrow> jsnum"

text \<open>\<open>String(v)\<close>, \<open>Number(v)\<close> and the two ways to default a missing field.\<close>

fun js_string :: "decode_env \<Rightarrow> json \<Rightarrow> string" where
  "js_string D J_null = ''null''"
| "js_string D (J_bool b) = (if b then ''true'' else ''false'')"
| "js_string D (J_number x) = de_num D x"
| "js_string D (J_string s) = s"
| "js_string D (J_date t) = ''''"
| "js_string D (J_array xs) = join_with '','' (map (\<lambda>x. if x = J_null then [] else js_string D x) xs)"
| "js_string D (J_object kvs) = ''[object Object]''"

fun js_number :: "decode_env \<Rightarrow> json \<Rightarrow> jsnum" where
  "js_number D J_null = Fin 0"
| "js_number D (J_bool b) = Fin (if b then 1 else 0)"
| "js_number D (J_number x) = Fin x"
| "js_number D (J_string s) = de_numeral D s"
| "js_number D (J_date t) = Fin (of_int t)"
| "js_number D (J_array xs) = de_numeral D (js_string D (J_array xs))"
| "js_number D (J_object kvs) = NaN"

definition json_falsy :: "json \<Rightarrow> bool" where
  "json_falsy j \<longleftrightarrow> j = J_null \<or> j = J_bool False \<or> j = J_number 0 \<or> j = J_string []"

definition field_or :: "(string \<times> json) list \<Rightarrow> string \<Rightarrow> json \<Rightarrow> json" where
  "field_or kvs k d = (case map_of kvs k of None \<Rightarrow> d | Some j \<Rightarrow> if json_falsy j then d else j)"

definition field_default :: "(string \<times> json) list \<Rightarrow> string \<Rightarrow> json \<Rightarrow> json" where
  "field_default kvs k d = (case map_of kvs k of None \<Rightarrow> d | Some j \<Rightarrow> if j = J_null then d else j)"

definition byte_length :: "string \<Rightarrow> nat" where
  "byte_length s = sum_list (map (\<lambda>c. if (of_char c :: nat) < 128 then 1 else 2) s)"

subsection \<open>Decoding\<close>

record raw_event =
  re_id :: "string option"
  re_contractId :: string
  re_ledger :: int
  re_eventIndex :: "int option"
  re_transactionHash :: string
  re_topics :: "string list"
  re_value :: "(string \<times> json) list"
  re_timestamp :: "string option"

definition pool_event_types :: "(string \<times> pool_event_type) list" where
  "pool_event_types = [(''pool_created_v1'', Pool_created), (''pool_funded_v1'', Pool_funded), (''pool_repaid_v1'', Pool_repaid),
     (''pool_refund_v1'', Pool_refund), (''pool_closed_v1'', Pool_closed)]"

definition repayment_event_types :: "(string \<times> repayment_event_type) list" where
  "repayment_event_types = [(''repayment_init_v1'', Repayment_init), (''driver_assigned_v1'', Driver_assigned),
     (''repayment_recorded_v1'', Repayment_recorded)]"

definition version_above :: "jsnum \<Rightarrow> bool" where
  "version_above v \<longleftrightarrow> (case v of Fin x \<Rightarrow> CURRENT_EVENT_SCHEMA_VERSION < x | PosInf \<Rightarrow> True | _ \<Rightarrow> False)"

definition decode_pool :: "decode_env \<Rightarrow> jsnum \<Rightarrow> (string \<times> json) list \<Rightarrow> pool_payload" where
  "decode_pool D v p =
     \<lparr> pp_version = v, pp_asset = js_string D (field_or p ''asset'' (J_string [])),
       pp_amount = js_string D (field_default p ''amount'' (J_string ''0'')),
       pp_pool_id = js_number D (field_default p ''pool_id'' (J_number 0)),
       pp_position_id = js_string D (field_or p ''position_id'' (J_string [])),
       pp_actor = js_string D (field_or p ''actor'' (field_or p ''position_id'' (J_string []))),
       pp_reference = js_string D (field_or p ''reference'' (J_string [])),
       pp_post_funded_units = js_number D (field_default p ''post_funded_units'' (J_number 0)),
       pp_post_total_invested = js_string D (field_default p ''post_total_invested'' (field_default p ''amount'' (J_string ''0''))),
       pp_post_total_repaid = js_string D (field_default p ''post_total_repaid'' (J_string ''0'')) \<rparr>"

definition decode_repayment :: "decode_env \<Rightarrow> jsnum \<Rightarrow> (string \<times> json) list \<Rightarrow> repayment_payload" where
  "decode_repayment D v p =
     \<lparr> rp_version = v, rp_driver = js_string D (field_or p ''driver'' (J_string [])),
       rp_pool_or_vehicle = js_string D (field_or p ''pool_or_vehicle'' (J_string [])),
       rp_actor = js_string D (field_or p ''actor'' (field_or p ''driver'' (J_string []))),
       rp_amountText = js_string D (field_default p ''amount'' (J_string ''0'')),
       rp_post_total_owed = js_string D (field_default p ''post_total_owed'' (J_string ''0'')),
       rp_post_total_repaid = js_string D (field_default p ''post_total_repaid'' (field_default p ''amount'' (J_string ''0''))) \<rparr>"

definition event_id_of :: "decode_env \<Rightarrow> raw_event \<Rightarrow> string" where
  "event_id_of D raw = (case re_id raw of Some i \<Rightarrow> i
     | None \<Rightarrow> re_transactionHash raw @ '':'' @ de_num D (of_int (re_ledger raw)) @ '':''
                 @ de_num D (of_int (case re_eventIndex raw of None \<Rightarrow> 0 | Some i \<Rightarrow> i)))"

definition parseContractEvent :: "decode_env \<Rightarrow> raw_event \<Rightarrow> projection_error + chain_event" where
  "parseContractEvent D raw =
     (let category = (case re_topics raw of [] \<Rightarrow> [] | c # _ \<Rightarrow> c);
          eventType = (case re_topics raw of _ # t # _ \<Rightarrow> t | _ \<Rightarrow> ''undefined'');
          p = re_value raw;
          version = js_number D (field_default p ''version'' (J_number 1));
          event = (\<lambda>body. \<lparr> xe_id = event_id_of D raw, xe_contractId = re_contractId raw, xe_ledger = re_ledger raw,
             xe_eventIndex = (case re_eventIndex raw of None \<Rightarrow> 0 | Some i \<Rightarrow> i), xe_transactionHash = re_transactionHash raw,
             xe_schemaVersion = version, xe_timestamp = re_timestamp raw, xe_body = body \<rparr>)
      in if category \<notin> {''chainmove_pool_v1'', ''repayment_v1''} then Inl (Invalid_payload ''Unsupported event category'')
         else if byte_length (json_text (de_num D) (J_object p)) > MAX_EVENT_PAYLOAD_BYTES then Inl (Invalid_payload ''Event payload size'')
         else if version_above version then Inl (Incompatible_version version)
         else if category = ''chainmove_pool_v1'' then
           (case map_of pool_event_types eventType of
              None \<Rightarrow> Inl (Invalid_payload ''Unsupported pool event type'')
            | Some t \<Rightarrow> Inr (event (Pool_body t (decode_pool D version p))))
         else
           (case map_of repayment_event_types eventType of
              None \<Rightarrow> Inl (Invalid_payload ''Unsupported repayment event type'')
            | Some t \<Rightarrow> Inr (event (Repayment_body t (decode_repayment D version p)))))"

subsection \<open>Reducing\<close>

definition later_event :: "chain_event \<Rightarrow> int \<Rightarrow> string \<Rightarrow> bool" where
  "later_event e ledger eid \<longleftrightarrow> xe_ledger e > ledger \<or> xe_ledger e = ledger \<and> xe_id e > eid"

definition new_pool_projection :: "chain_event \<Rightarrow> pool_payload \<Rightarrow> pool_projection" where
  "new_pool_projection e p =
     \<lparr> pj_id = pp_pool_id p, pj_asset = pp_asset p, pj_fundedUnits = Fin 0, pj_totalInvested = 0, pj_totalRepaid = 0,
       pj_active = True, pj_lastLedger = xe_ledger e, pj_lastEventId = xe_id e, pj_positions = [] \<rparr>"

definition touch_pool :: "chain_event \<Rightarrow> pool_projection \<Rightarrow> pool_projection" where
  "touch_pool e s = (if later_event e (pj_lastLedger s) (pj_lastEventId s)
     then s\<lparr>pj_lastLedger := xe_ledger e, pj_lastEventId := xe_id e\<rparr> else s)"

definition above_zero :: "jsnum \<Rightarrow> bool" where
  "above_zero n \<longleftrightarrow> (case n of Fin x \<Rightarrow> 0 < x | PosInf \<Rightarrow> True | _ \<Rightarrow> False)"

definition fund_position :: "pool_payload \<Rightarrow> int \<Rightarrow> (string \<times> investor_position) list \<Rightarrow> (string \<times> investor_position) list" where
  "fund_position p amount ps =
     (let pos = (case map_of ps (pp_position_id p) of Some q \<Rightarrow> q
           | None \<Rightarrow> \<lparr> pz_poolId = pp_pool_id p, pz_investor = pp_position_id p, pz_units = 0, pz_invested = 0, pz_repaid = 0, pz_refunded = 0 \<rparr>)
      in AList.update (pp_position_id p)
           (pos\<lparr>pz_invested := pz_invested pos + amount,
                pz_units := pz_units pos + (if above_zero (pp_post_funded_units p) then 1 else 0)\<rparr>) ps)"

definition change_position ::
  "pool_payload \<Rightarrow> (investor_position \<Rightarrow> investor_position) \<Rightarrow> (string \<times> investor_position) list \<Rightarrow> (string \<times> investor_position) list" where
  "change_position p f ps =
     (case map_of ps (pp_position_id p) of
        Some q \<Rightarrow> if pp_position_id p = [] then ps else AList.update (pp_position_id p) (f q) ps
      | None \<Rightarrow> ps)"

definition pool_effect :: "pool_event_type \<Rightarrow> pool_payload \<Rightarrow> int \<Rightarrow> pool_projection \<Rightarrow> pool_projection" where
  "pool_effect t p amount s =
     (case t of
        Pool_created \<Rightarrow> s\<lparr>pj_asset := pp_asset p, pj_active := True\<rparr>
      | Pool_funded \<Rightarrow> s\<lparr>pj_totalInvested := pj_totalInvested s + amount, pj_fundedUnits := pp_post_funded_units p,
                          pj_positions := fund_position p amount (pj_positions s)\<rparr>
      | Pool_repaid \<Rightarrow> s\<lparr>pj_totalRepaid := pj_totalRepaid s + amount,
                          pj_positions := change_position p (\<lambda>q. q\<lparr>pz_repaid := pz_repaid q + amount\<rparr>) (pj_positions s)\<rparr>
      | Pool_refund \<Rightarrow> s\<lparr>pj_totalInvested := pj_totalInvested s - amount,
                          pj_positions := change_position p (\<lambda>q. q\<lparr>pz_invested := pz_invested q - amount, pz_refunded := pz_refunded q + amount\<rparr>)
                            (pj_positions s)\<rparr>
      | Pool_closed \<Rightarrow> s\<lparr>pj_active := False\<rparr>)"

definition reducePoolEvent ::
  "pool_projection option \<Rightarrow> chain_event \<Rightarrow> pool_event_type \<Rightarrow> pool_payload \<Rightarrow> string set
    \<Rightarrow> projection_error + pool_projection \<times> bool \<times> string set" where
  "reducePoolEvent current e t p seen =
     (if xe_id e \<in> seen then
        (case current of None \<Rightarrow> Inl (Duplicate_on_empty (xe_id e)) | Some s \<Rightarrow> Inr (s, True, seen))
      else
        (let s = touch_pool e (case current of Some s \<Rightarrow> s | None \<Rightarrow> new_pool_projection e p)
         in case big_int (pp_amount p) of None \<Rightarrow> Inl Bigint_syntax
            | Some amount \<Rightarrow> Inr (pool_effect t p amount s, False, insert (xe_id e) seen)))"

definition new_driver_projection :: "chain_event \<Rightarrow> repayment_payload \<Rightarrow> driver_projection" where
  "new_driver_projection e p =
     \<lparr> dj_driver = rp_driver p, dj_poolOrVehicle = rp_pool_or_vehicle p, dj_totalOwed = ''0'', dj_totalRepaid = 0,
       dj_active = True, dj_lastLedger = xe_ledger e, dj_lastEventId = xe_id e \<rparr>"

definition touch_driver :: "chain_event \<Rightarrow> driver_projection \<Rightarrow> driver_projection" where
  "touch_driver e s = (if later_event e (dj_lastLedger s) (dj_lastEventId s)
     then s\<lparr>dj_lastLedger := xe_ledger e, dj_lastEventId := xe_id e\<rparr> else s)"

definition driver_effect :: "repayment_event_type \<Rightarrow> repayment_payload \<Rightarrow> int \<Rightarrow> driver_projection \<Rightarrow> driver_projection" where
  "driver_effect t p amount s =
     (case t of
        Repayment_init \<Rightarrow> s\<lparr>dj_active := True\<rparr>
      | Driver_assigned \<Rightarrow> s\<lparr>dj_driver := rp_driver p, dj_poolOrVehicle := rp_pool_or_vehicle p,
                              dj_totalOwed := (if rp_post_total_owed p \<noteq> [] then rp_post_total_owed p else rp_amountText p), dj_active := True\<rparr>
      | Repayment_recorded \<Rightarrow> s\<lparr>dj_totalRepaid := dj_totalRepaid s + amount\<rparr>)"

definition reduceRepaymentEvent ::
  "driver_projection option \<Rightarrow> chain_event \<Rightarrow> repayment_event_type \<Rightarrow> repayment_payload \<Rightarrow> string set
    \<Rightarrow> projection_error + driver_projection \<times> bool \<times> string set" where
  "reduceRepaymentEvent current e t p seen =
     (if xe_id e \<in> seen then
        (case current of None \<Rightarrow> Inl (Duplicate_on_empty (xe_id e)) | Some s \<Rightarrow> Inr (s, True, seen))
      else
        (let s = touch_driver e (case current of Some s \<Rightarrow> s | None \<Rightarrow> new_driver_projection e p)
         in case big_int (rp_amountText p) of None \<Rightarrow> Inl Bigint_syntax
            | Some amount \<Rightarrow> Inr (driver_effect t p amount s, False, insert (xe_id e) seen)))"

subsection \<open>Rebuilding\<close>

record replay_state =
  ry_pools :: "(jsnum \<times> pool_projection) list"
  ry_drivers :: "(string \<times> driver_projection) list"
  ry_seen :: "string set"
  ry_processed :: nat
  ry_duplicates :: nat
  ry_minLedger :: "int option"
  ry_maxLedger :: int

definition empty_replay :: replay_state where
  "empty_replay = \<lparr> ry_pools = [], ry_drivers = [], ry_seen = {}, ry_processed = 0, ry_duplicates = 0, ry_minLedger = None, ry_maxLedger = -1 \<rparr>"

definition count_event :: "chain_event \<Rightarrow> replay_state \<Rightarrow> replay_state" where
  "count_event e s = s\<lparr>ry_processed := ry_processed s + 1,
     ry_minLedger := Some (case ry_minLedger s of None \<Rightarrow> xe_ledger e | Some m \<Rightarrow> min m (xe_ledger e)),
     ry_maxLedger := max (ry_maxLedger s) (xe_ledger e)\<rparr>"

definition replay_event :: "chain_event \<Rightarrow> replay_state \<Rightarrow> projection_error + replay_state" where
  "replay_event e s0 =
     (let s = count_event e s0 in
      case xe_body e of
        Pool_body t p \<Rightarrow>
          (case reducePoolEvent (map_of (ry_pools s) (pp_pool_id p)) e t p (ry_seen s) of
             Inl err \<Rightarrow> Inl err
           | Inr (q, dup, seen) \<Rightarrow>
               Inr (if dup then s\<lparr>ry_duplicates := ry_duplicates s + 1\<rparr>
                    else s\<lparr>ry_pools := AList.update (pp_pool_id p) q (ry_pools s), ry_seen := seen\<rparr>))
      | Repayment_body t p \<Rightarrow>
          (case reduceRepaymentEvent (map_of (ry_drivers s) (rp_driver p)) e t p (ry_seen s) of
             Inl err \<Rightarrow> Inl err
           | Inr (q, dup, seen) \<Rightarrow>
               Inr (if dup then s\<lparr>ry_duplicates := ry_duplicates s + 1\<rparr>
                    else s\<lparr>ry_drivers := AList.update (rp_driver p) q (ry_drivers s), ry_seen := seen\<rparr>)))"

fun replay :: "chain_event list \<Rightarrow> replay_state \<Rightarrow> projection_error + replay_state" where
  "replay [] s = Inr s"
| "replay (e # es) s = (case replay_event e s of Inl err \<Rightarrow> Inl err | Inr s' \<Rightarrow> replay es s')"

definition in_ledgers :: "int option \<Rightarrow> int option \<Rightarrow> chain_event \<Rightarrow> bool" where
  "in_ledgers lo hi e \<longleftrightarrow> (case lo of None \<Rightarrow> True | Some a \<Rightarrow> a \<le> xe_ledger e) \<and> (case hi of None \<Rightarrow> True | Some b \<Rightarrow> xe_ledger e \<le> b)"

definition event_order :: "(string \<Rightarrow> string \<Rightarrow> int) \<Rightarrow> chain_event \<Rightarrow> chain_event \<Rightarrow> rat" where
  "event_order collate a b = of_int
     (if xe_ledger a \<noteq> xe_ledger b then xe_ledger a - xe_ledger b
      else if xe_eventIndex a \<noteq> xe_eventIndex b then xe_eventIndex a - xe_eventIndex b
      else collate (xe_id a) (xe_id b))"

record rebuild_result =
  rr_pools :: "(jsnum \<times> pool_projection) list"
  rr_drivers :: "(string \<times> driver_projection) list"
  rr_processed :: nat
  rr_duplicates :: nat
  rr_range :: "int \<times> int"

definition rebuild_of :: "replay_state \<Rightarrow> rebuild_result" where
  "rebuild_of s = \<lparr> rr_pools = ry_pools s, rr_drivers = ry_drivers s, rr_processed = ry_processed s, rr_duplicates = ry_duplicates s,
     rr_range = (case ry_minLedger s of None \<Rightarrow> 0 | Some m \<Rightarrow> m, if ry_maxLedger s = -1 then 0 else ry_maxLedger s) \<rparr>"

definition rebuildProjectionsFromEvents ::
  "(string \<Rightarrow> string \<Rightarrow> int) \<Rightarrow> chain_event list \<Rightarrow> int option \<Rightarrow> int option \<Rightarrow> projection_error + rebuild_result" where
  "rebuildProjectionsFromEvents collate events lo hi =
     (case replay (js_sort (event_order collate) (filter (in_ledgers lo hi) events)) empty_replay of
        Inl err \<Rightarrow> Inl err | Inr s \<Rightarrow> Inr (rebuild_of s))"

datatype mismatch = Missing_in_rebuilt string | Missing_in_incremental string | Totals_differ string

definition pool_mismatch :: "string \<Rightarrow> pool_projection option \<Rightarrow> pool_projection option \<Rightarrow> mismatch list" where
  "pool_mismatch key r i =
     (case (r, i) of
        (None, _) \<Rightarrow> [Missing_in_rebuilt key]
      | (_, None) \<Rightarrow> [Missing_in_incremental key]
      | (Some a, Some b) \<Rightarrow>
          if pj_totalInvested a \<noteq> pj_totalInvested b \<or> pj_totalRepaid a \<noteq> pj_totalRepaid b
             \<or> pj_fundedUnits a \<noteq> pj_fundedUnits b \<or> pj_fundedUnits a = NaN \<or> pj_active a \<noteq> pj_active b
          then [Totals_differ key] else [])"

definition driver_mismatch :: "string \<Rightarrow> driver_projection option \<Rightarrow> driver_projection option \<Rightarrow> mismatch list" where
  "driver_mismatch key r i =
     (case (r, i) of
        (None, _) \<Rightarrow> [Missing_in_rebuilt key]
      | (_, None) \<Rightarrow> [Missing_in_incremental key]
      | (Some a, Some b) \<Rightarrow>
          if dj_totalOwed a \<noteq> dj_totalOwed b \<or> dj_totalRepaid a \<noteq> dj_totalRepaid b \<or> dj_active a \<noteq> dj_active b
          then [Totals_differ key] else [])"

definition compareProjections ::
  "(jsnum \<Rightarrow> string) \<Rightarrow> rebuild_result \<Rightarrow> (jsnum \<times> pool_projection) list \<Rightarrow> (string \<times> driver_projection) list \<Rightarrow> mismatch list" where
  "compareProjections key_text r pools drivers =
     concat (map (\<lambda>k. pool_mismatch (key_text k) (map_of (rr_pools r) k) (map_of pools k)) (dedupe (map fst (rr_pools r) @ map fst pools)))
     @ concat (map (\<lambda>k. driver_mismatch k (map_of (rr_drivers r) k) (map_of drivers k)) (dedupe (map fst (rr_drivers r) @ map fst drivers)))"

end
