(* ===== verification/Event_Theorems.thy ===== *)
theory Event_Theorems
  imports Event_Projection "HOL-Library.Countable"
begin

text \<open>
  Rebuilding projections: the order in which events arrive and how often they arrive do not
  matter, a rebuild can be resumed at any ledger, and totals are sums over the log.
\<close>

subsection \<open>Sorting the log\<close>

text \<open>\<open>localeCompare\<close> is the order of a rank, different texts having different ranks.\<close>

definition collation_ok :: "(string \<Rightarrow> string \<Rightarrow> int) \<Rightarrow> (string \<Rightarrow> rat) \<Rightarrow> bool" where
  "collation_ok collate rank \<longleftrightarrow> inj rank \<and> (\<forall>a b. collate a b \<le> 0 \<longleftrightarrow> rank a \<le> rank b)"

definition event_key :: "(string \<Rightarrow> rat) \<Rightarrow> chain_event \<Rightarrow> int \<times> int \<times> rat" where
  "event_key rank e = (xe_ledger e, xe_eventIndex e, rank (xe_id e))"

lemma event_order_key:
  assumes "collation_ok collate rank"
  shows "event_order collate a b \<le> 0 \<longleftrightarrow> event_key rank a \<le> event_key rank b"
  using assms by (auto simp: event_order_def event_key_def collation_ok_def less_eq_prod_def)

lemma js_sort_key:
  fixes key :: "'a \<Rightarrow> 'k :: linorder"
  assumes "\<And>a b. cmp a b \<le> 0 \<longleftrightarrow> key a \<le> key b"
  shows "js_sort cmp xs = sort_key key xs"
proof -
  have "js_insert cmp x ys = insort_key key x ys" for x ys by (induction ys) (auto simp: assms)
  then show ?thesis unfolding js_sort_def sort_key_def by (induction xs) simp_all
qed

lemma sort_key_prefix:
  fixes key :: "'a \<Rightarrow> 'k :: linorder"
  assumes "\<And>a b. key a \<le> key b \<Longrightarrow> P b \<Longrightarrow> P a"
  shows "sort_key key xs = sort_key key (filter P xs) @ sort_key key (filter (\<lambda>x. \<not> P x) xs)"
proof -
  have split: "sorted (map key ys) \<Longrightarrow> ys = filter P ys @ filter (\<lambda>x. \<not> P x) ys" for ys
  proof (induction ys)
    case (Cons y ys)
    show ?case
    proof (cases "P y")
      case True
      with Cons show ?thesis by simp
    next
      case False
      with Cons.prems assms [of y] have "\<forall>z \<in> set ys. \<not> P z" by auto
      with False show ?thesis by simp
    qed
  qed simp
  have "sort_key key xs = filter P (sort_key key xs) @ filter (\<lambda>x. \<not> P x) (sort_key key xs)" by (rule split) simp
  then show ?thesis by (simp only: filter_sort)
qed

lemma strictly_sorted_adj:
  fixes key :: "'a \<Rightarrow> 'k :: linorder"
  shows "sorted (map key xs) \<Longrightarrow> inj_on key (set xs) \<Longrightarrow> sorted_wrt (<) (map key (remdups_adj xs))"
proof (induction xs rule: remdups_adj.induct)
  case (3 x y xs)
  show ?case
  proof (cases "x = y")
    case True
    with 3 show ?thesis by simp
  next
    case False
    with 3 have ih: "sorted_wrt (<) (map key (remdups_adj (y # xs)))" by (simp add: inj_on_def)
    have "key x < key z" if "z \<in> set (y # xs)" for z
    proof -
      have "key x < key y" using 3(3,4) False by (auto simp: inj_on_def order_less_le)
      moreover have "key y \<le> key z" using 3(3) that by auto
      ultimately show ?thesis by simp
    qed
    with ih False show ?thesis by simp
  qed
qed simp_all

lemma sorted_once:
  fixes key :: "'a \<Rightarrow> 'k :: linorder"
  assumes "set xs = set ys" and "inj_on key (set xs)"
  shows "remdups_adj (sort_key key xs) = remdups_adj (sort_key key ys)"
proof -
  have a: "sorted_wrt (<) (map key (remdups_adj (sort_key key xs)))" and b: "sorted_wrt (<) (map key (remdups_adj (sort_key key ys)))"
    using assms by (auto intro!: strictly_sorted_adj)
  have "map key (remdups_adj (sort_key key xs)) = map key (remdups_adj (sort_key key ys))"
    by (rule strict_sorted_equal [OF b a]) (simp add: assms(1))
  then show ?thesis by (rule map_inj_on) (use assms in simp)
qed

subsection \<open>Events seen twice\<close>

definition core :: "replay_state \<Rightarrow> (jsnum \<times> pool_projection) list \<times> (string \<times> driver_projection) list \<times> string set" where
  "core s = (ry_pools s, ry_drivers s, ry_seen s)"

abbreviation core_result :: "projection_error + replay_state \<Rightarrow> _" where
  "core_result \<equiv> map_sum (\<lambda>e. e) core"

lemma core_cases: "core s = core t \<longleftrightarrow> ry_pools s = ry_pools t \<and> ry_drivers s = ry_drivers t \<and> ry_seen s = ry_seen t"
  by (simp add: core_def)

lemma count_event_sel [simp]:
  "ry_pools (count_event e s) = ry_pools s" "ry_drivers (count_event e s) = ry_drivers s" "ry_seen (count_event e s) = ry_seen s"
  "ry_duplicates (count_event e s) = ry_duplicates s"
  by (simp_all add: count_event_def)

lemma replay_event_core:
  assumes "core s = core t"
  shows "core_result (replay_event e s) = core_result (replay_event e t)"
proof (cases "xe_body e")
  case (Pool_body k p)
  with assms show ?thesis
    by (cases "reducePoolEvent (map_of (ry_pools t) (pp_pool_id p)) e k p (ry_seen t)")
       (auto simp: replay_event_def core_cases core_def Let_def)
next
  case (Repayment_body k p)
  with assms show ?thesis
    by (cases "reduceRepaymentEvent (map_of (ry_drivers t) (rp_driver p)) e k p (ry_seen t)")
       (auto simp: replay_event_def core_cases core_def Let_def)
qed

lemma replay_core: "core s = core t \<Longrightarrow> core_result (replay es s) = core_result (replay es t)"
proof (induction es arbitrary: s t)
  case (Cons e es)
  show ?case
  proof (cases "replay_event e s")
    case (Inl a)
    with replay_event_core [OF Cons.prems, of e] show ?thesis by (cases "replay_event e t") auto
  next
    case (Inr s')
    with replay_event_core [OF Cons.prems, of e] obtain t' where t': "replay_event e t = Inr t'" "core s' = core t'"
      by (cases "replay_event e t") auto
    with Inr Cons.IH [OF t'(2)] show ?thesis by simp
  qed
qed simp

definition covered :: "chain_event \<Rightarrow> replay_state \<Rightarrow> bool" where
  "covered e s \<longleftrightarrow> xe_id e \<in> ry_seen s \<and>
     (case xe_body e of Pool_body t p \<Rightarrow> map_of (ry_pools s) (pp_pool_id p) \<noteq> None
      | Repayment_body t p \<Rightarrow> map_of (ry_drivers s) (rp_driver p) \<noteq> None)"

lemma reduce_seen:
  "xe_id e \<in> seen \<Longrightarrow> reducePoolEvent (Some q) e t p seen = Inr (q, True, seen)"
  "xe_id e \<in> seen \<Longrightarrow> reduceRepaymentEvent (Some w) e k r seen = Inr (w, True, seen)"
  by (simp_all add: reducePoolEvent_def reduceRepaymentEvent_def)

lemma reduce_pool_result:
  assumes "reducePoolEvent c e t p seen = Inr (q, dup, seen')"
  shows "xe_id e \<in> seen' \<and> (dup \<longrightarrow> c \<noteq> None \<and> seen' = seen)"
proof (cases "xe_id e \<in> seen")
  case True
  with assms show ?thesis by (cases c) (simp_all add: reducePoolEvent_def)
next
  case False
  with assms show ?thesis by (cases "big_int (pp_amount p)") (auto simp: reducePoolEvent_def Let_def)
qed

lemma reduce_repayment_result:
  assumes "reduceRepaymentEvent c e t p seen = Inr (q, dup, seen')"
  shows "xe_id e \<in> seen' \<and> (dup \<longrightarrow> c \<noteq> None \<and> seen' = seen)"
proof (cases "xe_id e \<in> seen")
  case True
  with assms show ?thesis by (cases c) (simp_all add: reduceRepaymentEvent_def)
next
  case False
  with assms show ?thesis by (cases "big_int (rp_amountText p)") (auto simp: reduceRepaymentEvent_def Let_def)
qed

lemma event_covered:
  assumes "replay_event e s = Inr s'"
  shows "covered e s'"
proof (cases "xe_body e")
  case (Pool_body t p)
  with assms obtain q dup seen where "reducePoolEvent (map_of (ry_pools s) (pp_pool_id p)) e t p (ry_seen s) = Inr (q, dup, seen)"
    by (auto simp: replay_event_def Let_def split: sum.splits)
  with assms Pool_body reduce_pool_result [OF this] show ?thesis
    by (cases dup) (auto simp: replay_event_def covered_def Let_def update_conv')
next
  case (Repayment_body t p)
  with assms obtain q dup seen where "reduceRepaymentEvent (map_of (ry_drivers s) (rp_driver p)) e t p (ry_seen s) = Inr (q, dup, seen)"
    by (auto simp: replay_event_def Let_def split: sum.splits)
  with assms Repayment_body reduce_repayment_result [OF this] show ?thesis
    by (cases dup) (auto simp: replay_event_def covered_def Let_def update_conv')
qed

lemma covered_again:
  assumes "covered e s"
  shows "\<exists>t. replay_event e s = Inr t \<and> core t = core s"
proof (cases "xe_body e")
  case (Pool_body t p)
  with assms obtain q where "map_of (ry_pools s) (pp_pool_id p) = Some q" "xe_id e \<in> ry_seen s" by (auto simp: covered_def)
  with Pool_body show ?thesis by (simp add: replay_event_def reduce_seen core_def Let_def)
next
  case (Repayment_body t p)
  with assms obtain q where "map_of (ry_drivers s) (rp_driver p) = Some q" "xe_id e \<in> ry_seen s" by (auto simp: covered_def)
  with Repayment_body show ?thesis by (simp add: replay_event_def reduce_seen core_def Let_def)
qed

lemma replay_adjacent: "core_result (replay (remdups_adj es) s) = core_result (replay es s)"
proof (induction es arbitrary: s rule: remdups_adj.induct)
  case (3 x y xs)
  show ?case
  proof (cases "x = y")
    case True
    show ?thesis
    proof (cases "replay_event x s")
      case (Inl a)
      with True 3(1) [OF True, of s] show ?thesis by simp
    next
      case (Inr s1)
      then obtain t where t: "replay_event x s1 = Inr t" "core t = core s1" using covered_again event_covered by blast
      have "core_result (replay (remdups_adj (x # y # xs)) s) = core_result (replay (x # xs) s)" using True 3(1) [OF True, of s] by simp
      also have "\<dots> = core_result (replay xs s1)" using Inr by simp
      also have "\<dots> = core_result (replay xs t)" by (rule replay_core) (simp add: t)
      also have "\<dots> = core_result (replay (x # y # xs) s)" using Inr t True by simp
      finally show ?thesis .
    qed
  next
    case False
    then show ?thesis using 3(2) [OF False] by (cases "replay_event x s") simp_all
  qed
qed simp_all

lemma replay_append: "replay (xs @ ys) s = (case replay xs s of Inl e \<Rightarrow> Inl e | Inr t \<Rightarrow> replay ys t)"
  by (induction xs arbitrary: s) (auto split: sum.splits)

subsection \<open>Rebuilding\<close>

definition replayed :: "(string \<Rightarrow> string \<Rightarrow> int) \<Rightarrow> chain_event list \<Rightarrow> projection_error + replay_state" where
  "replayed collate es = replay (js_sort (event_order collate) es) empty_replay"

definition same_projections :: "projection_error + rebuild_result \<Rightarrow> projection_error + rebuild_result \<Rightarrow> bool" where
  "same_projections r q \<longleftrightarrow> (case (r, q) of
     (Inl a, Inl b) \<Rightarrow> a = b
   | (Inr a, Inr b) \<Rightarrow> rr_pools a = rr_pools b \<and> rr_drivers a = rr_drivers b
   | _ \<Rightarrow> False)"

lemma replayed_set:
  assumes "collation_ok collate rank" and "set es = set fs" and "inj_on xe_id (set es)"
  shows "core_result (replayed collate es) = core_result (replayed collate fs)"
proof -
  have srt: "js_sort (event_order collate) xs = sort_key (event_key rank) xs" for xs
    by (rule js_sort_key) (rule event_order_key [OF assms(1)])
  have "inj_on (event_key rank) (set es)"
    using assms(1,3) by (auto simp: inj_on_def event_key_def collation_ok_def inj_def)
  from sorted_once [OF assms(2) this]
  have "core_result (replay (remdups_adj (sort_key (event_key rank) es)) empty_replay)
      = core_result (replay (remdups_adj (sort_key (event_key rank) fs)) empty_replay)" by simp
  then show ?thesis by (simp add: replay_adjacent replayed_def srt)
qed

lemma replayed_resumes:
  assumes "collation_ok collate rank"
  shows "replayed collate es = (case replayed collate (filter (in_ledgers None (Some L)) es) of
     Inl err \<Rightarrow> Inl err
   | Inr s \<Rightarrow> replay (js_sort (event_order collate) (filter (in_ledgers (Some (L + 1)) None) es)) s)"
proof -
  have srt: "js_sort (event_order collate) xs = sort_key (event_key rank) xs" for xs
    by (rule js_sort_key) (rule event_order_key [OF assms])
  have "sort_key (event_key rank) es = sort_key (event_key rank) (filter (in_ledgers None (Some L)) es)
      @ sort_key (event_key rank) (filter (\<lambda>e. \<not> in_ledgers None (Some L) e) es)"
    by (rule sort_key_prefix) (auto simp: in_ledgers_def event_key_def less_eq_prod_def)
  moreover have "filter (\<lambda>e. \<not> in_ledgers None (Some L) e) es = filter (in_ledgers (Some (L + 1)) None) es"
    by (rule filter_cong) (auto simp: in_ledgers_def)
  ultimately show ?thesis by (simp add: replayed_def srt replay_append split: sum.split)
qed

text \<open>
  C29. Rebuilding gives the same pools and drivers, or the same error, for every list of the same
  events: neither the order in which they arrive nor how often each arrives matters.  And
  rebuilding up to any ledger and then reducing the later events in order is the same as
  rebuilding everything.
\<close>
theorem rebuild_deterministic:
  assumes "collation_ok collate rank" and "set es = set fs" and "inj_on xe_id (set es)"
  shows "same_projections (rebuildProjectionsFromEvents collate es lo hi) (rebuildProjectionsFromEvents collate fs lo hi)
    \<and> rebuildProjectionsFromEvents collate es None None = (case replayed collate (filter (in_ledgers None (Some L)) es) of
        Inl err \<Rightarrow> Inl err
      | Inr s \<Rightarrow> map_sum (\<lambda>e. e) rebuild_of (replay (js_sort (event_order collate) (filter (in_ledgers (Some (L + 1)) None) es)) s))"
proof
  let ?f = "filter (in_ledgers lo hi)"
  have "core_result (replayed collate (?f es)) = core_result (replayed collate (?f fs))"
    by (rule replayed_set [OF assms(1)]) (use assms(2,3) in \<open>auto intro: inj_on_subset\<close>)
  then show "same_projections (rebuildProjectionsFromEvents collate es lo hi) (rebuildProjectionsFromEvents collate fs lo hi)"
    by (cases "replayed collate (?f es)"; cases "replayed collate (?f fs)")
       (simp_all add: rebuildProjectionsFromEvents_def replayed_def same_projections_def rebuild_of_def core_def)
  have "filter (in_ledgers None None) es = es" by (simp add: in_ledgers_def)
  then have "rebuildProjectionsFromEvents collate es None None = map_sum (\<lambda>e. e) rebuild_of (replayed collate es)"
    by (simp add: rebuildProjectionsFromEvents_def replayed_def split: sum.splits)
  also note replayed_resumes [OF assms(1), of es L]
  finally show "rebuildProjectionsFromEvents collate es None None = (case replayed collate (filter (in_ledgers None (Some L)) es) of
      Inl err \<Rightarrow> Inl err
    | Inr s \<Rightarrow> map_sum (\<lambda>e. e) rebuild_of (replay (js_sort (event_order collate) (filter (in_ledgers (Some (L + 1)) None) es)) s))"
    by (simp split: sum.splits)
qed

subsection \<open>Totals\<close>

definition amount_of :: "string \<Rightarrow> int" where
  "amount_of t = (case big_int t of None \<Rightarrow> 0 | Some v \<Rightarrow> v)"

definition pool_amount :: "pool_event_type \<Rightarrow> jsnum \<Rightarrow> chain_event \<Rightarrow> int" where
  "pool_amount k pid e = (case xe_body e of Pool_body t p \<Rightarrow> if t = k \<and> pp_pool_id p = pid then amount_of (pp_amount p) else 0 | _ \<Rightarrow> 0)"

definition repaid_amount :: "string \<Rightarrow> chain_event \<Rightarrow> int" where
  "repaid_amount d e = (case xe_body e of
     Repayment_body t p \<Rightarrow> if t = Repayment_recorded \<and> rp_driver p = d then amount_of (rp_amountText p) else 0 | _ \<Rightarrow> 0)"

definition logged :: "(chain_event \<Rightarrow> int) \<Rightarrow> chain_event list \<Rightarrow> int" where
  "logged f es = sum_list (map f es)"

lemma logged_simps [simp]: "logged f [] = 0" "logged f (es @ [e]) = logged f es + f e"
  by (simp_all add: logged_def)

definition pool_totals :: "jsnum \<Rightarrow> chain_event list \<Rightarrow> pool_projection \<Rightarrow> bool" where
  "pool_totals pid es q \<longleftrightarrow> pj_totalInvested q = logged (pool_amount Pool_funded pid) es - logged (pool_amount Pool_refund pid) es
     \<and> pj_totalRepaid q = logged (pool_amount Pool_repaid pid) es"

definition driver_totals :: "string \<Rightarrow> chain_event list \<Rightarrow> driver_projection \<Rightarrow> bool" where
  "driver_totals d es q \<longleftrightarrow> dj_totalRepaid q = logged (repaid_amount d) es"

definition concerns_pool :: "jsnum \<Rightarrow> chain_event \<Rightarrow> bool" where
  "concerns_pool pid e \<longleftrightarrow> (case xe_body e of Pool_body t p \<Rightarrow> pp_pool_id p = pid | _ \<Rightarrow> False)"

definition concerns_driver :: "string \<Rightarrow> chain_event \<Rightarrow> bool" where
  "concerns_driver d e \<longleftrightarrow> (case xe_body e of Repayment_body t p \<Rightarrow> rp_driver p = d | _ \<Rightarrow> False)"

definition sums_ok :: "chain_event list \<Rightarrow> replay_state \<Rightarrow> bool" where
  "sums_ok es s \<longleftrightarrow> ry_seen s = xe_id ` set es
     \<and> (\<forall>pid. case map_of (ry_pools s) pid of None \<Rightarrow> \<not> list_ex (concerns_pool pid) es | Some q \<Rightarrow> pool_totals pid es q \<and> list_ex (concerns_pool pid) es)
     \<and> (\<forall>d. case map_of (ry_drivers s) d of None \<Rightarrow> \<not> list_ex (concerns_driver d) es | Some q \<Rightarrow> driver_totals d es q \<and> list_ex (concerns_driver d) es)"

lemma effect_totals [simp]:
  "pj_totalInvested (pool_effect t p a (touch_pool e s)) = pj_totalInvested s + (if t = Pool_funded then a else if t = Pool_refund then - a else 0)"
  "pj_totalRepaid (pool_effect t p a (touch_pool e s)) = pj_totalRepaid s + (if t = Pool_repaid then a else 0)"
  "dj_totalRepaid (driver_effect k r a (touch_driver e w)) = dj_totalRepaid w + (if k = Repayment_recorded then a else 0)"
  by (simp_all add: pool_effect_def touch_pool_def driver_effect_def touch_driver_def split: pool_event_type.splits repayment_event_type.splits)

lemma other_pool: "\<not> list_ex (concerns_pool pid) es \<Longrightarrow> logged (pool_amount k pid) es = 0"
  by (induction es) (auto simp: logged_def pool_amount_def concerns_pool_def split: event_body.splits)

lemma other_driver: "\<not> list_ex (concerns_driver d) es \<Longrightarrow> logged (repaid_amount d) es = 0"
  by (induction es) (auto simp: logged_def repaid_amount_def concerns_driver_def split: event_body.splits)

lemma pool_step_ok:
  assumes ok: "sums_ok es s" and new: "xe_id e \<notin> xe_id ` set es" and r: "replay_event e s = Inr s'" and b: "xe_body e = Pool_body t p"
  shows "sums_ok (es @ [e]) s'"
proof -
  let ?c = "map_of (ry_pools s) (pp_pool_id p)"
  let ?base = "case ?c of Some q \<Rightarrow> q | None \<Rightarrow> new_pool_projection e p"
  have seen: "xe_id e \<notin> ry_seen s" using ok new by (simp add: sums_ok_def)
  obtain a where a: "big_int (pp_amount p) = Some a"
      and s': "s' = (count_event e s)\<lparr>ry_pools := AList.update (pp_pool_id p) (pool_effect t p a (touch_pool e ?base)) (ry_pools s), ry_seen := insert (xe_id e) (ry_seen s)\<rparr>"
    using r b seen by (auto simp: replay_event_def reducePoolEvent_def Let_def split: option.splits)
  have am: "pool_amount k pid e = (if t = k \<and> pp_pool_id p = pid then a else 0)" "repaid_amount d e = 0" for k pid d
    using a b by (auto simp: pool_amount_def repaid_amount_def amount_of_def)
  have c: "concerns_pool pid e \<longleftrightarrow> pp_pool_id p = pid" "\<not> concerns_driver d e" for pid d
    using b by (auto simp: concerns_pool_def concerns_driver_def)
  have base: "pool_totals (pp_pool_id p) es ?base"
  proof (cases ?c)
    case None
    then have "\<not> list_ex (concerns_pool (pp_pool_id p)) es" using ok by (auto simp: sums_ok_def dest: spec [of _ "pp_pool_id p"])
    with None show ?thesis by (simp add: pool_totals_def new_pool_projection_def other_pool)
  next
    case (Some q)
    then show ?thesis using ok by (auto simp: sums_ok_def dest: spec [of _ "pp_pool_id p"])
  qed
  then have own: "pool_totals (pp_pool_id p) (es @ [e]) (pool_effect t p a (touch_pool e ?base))"
    by (cases t) (simp_all add: pool_totals_def am)
  show ?thesis
    unfolding sums_ok_def
  proof (intro conjI allI)
    show "ry_seen s' = xe_id ` set (es @ [e])" using ok by (simp add: s' sums_ok_def)
    fix pid
    show "case map_of (ry_pools s') pid of None \<Rightarrow> \<not> list_ex (concerns_pool pid) (es @ [e])
        | Some q \<Rightarrow> pool_totals pid (es @ [e]) q \<and> list_ex (concerns_pool pid) (es @ [e])"
    proof (cases "pid = pp_pool_id p")
      case True
      with own show ?thesis by (simp add: s' update_conv' c)
    next
      case False
      with ok show ?thesis by (auto simp: s' update_conv' c am sums_ok_def pool_totals_def split: option.splits dest: spec [of _ pid])
    qed
  next
    fix d
    show "case map_of (ry_drivers s') d of None \<Rightarrow> \<not> list_ex (concerns_driver d) (es @ [e])
        | Some q \<Rightarrow> driver_totals d (es @ [e]) q \<and> list_ex (concerns_driver d) (es @ [e])"
      using ok by (auto simp: s' c am sums_ok_def driver_totals_def split: option.splits dest: spec [of _ d])
  qed
qed

lemma driver_step_ok:
  assumes ok: "sums_ok es s" and new: "xe_id e \<notin> xe_id ` set es" and r: "replay_event e s = Inr s'" and b: "xe_body e = Repayment_body t p"
  shows "sums_ok (es @ [e]) s'"
proof -
  let ?c = "map_of (ry_drivers s) (rp_driver p)"
  let ?base = "case ?c of Some q \<Rightarrow> q | None \<Rightarrow> new_driver_projection e p"
  have seen: "xe_id e \<notin> ry_seen s" using ok new by (simp add: sums_ok_def)
  obtain a where a: "big_int (rp_amountText p) = Some a"
      and s': "s' = (count_event e s)\<lparr>ry_drivers := AList.update (rp_driver p) (driver_effect t p a (touch_driver e ?base)) (ry_drivers s), ry_seen := insert (xe_id e) (ry_seen s)\<rparr>"
    using r b seen by (auto simp: replay_event_def reduceRepaymentEvent_def Let_def split: option.splits)
  have am: "repaid_amount d e = (if t = Repayment_recorded \<and> rp_driver p = d then a else 0)" "pool_amount k pid e = 0" for k pid d
    using a b by (auto simp: pool_amount_def repaid_amount_def amount_of_def)
  have c: "concerns_driver d e \<longleftrightarrow> rp_driver p = d" "\<not> concerns_pool pid e" for pid d
    using b by (auto simp: concerns_pool_def concerns_driver_def)
  have base: "driver_totals (rp_driver p) es ?base"
  proof (cases ?c)
    case None
    then have "\<not> list_ex (concerns_driver (rp_driver p)) es" using ok by (auto simp: sums_ok_def dest: spec [of _ "rp_driver p"])
    with None show ?thesis by (simp add: driver_totals_def new_driver_projection_def other_driver)
  next
    case (Some q)
    then show ?thesis using ok by (auto simp: sums_ok_def dest: spec [of _ "rp_driver p"])
  qed
  then have own: "driver_totals (rp_driver p) (es @ [e]) (driver_effect t p a (touch_driver e ?base))"
    by (cases t) (simp_all add: driver_totals_def am)
  show ?thesis
    unfolding sums_ok_def
  proof (intro conjI allI)
    show "ry_seen s' = xe_id ` set (es @ [e])" using ok by (simp add: s' sums_ok_def)
    fix pid
    show "case map_of (ry_pools s') pid of None \<Rightarrow> \<not> list_ex (concerns_pool pid) (es @ [e])
        | Some q \<Rightarrow> pool_totals pid (es @ [e]) q \<and> list_ex (concerns_pool pid) (es @ [e])"
      using ok by (auto simp: s' c am sums_ok_def pool_totals_def split: option.splits dest: spec [of _ pid])
  next
    fix d
    show "case map_of (ry_drivers s') d of None \<Rightarrow> \<not> list_ex (concerns_driver d) (es @ [e])
        | Some q \<Rightarrow> driver_totals d (es @ [e]) q \<and> list_ex (concerns_driver d) (es @ [e])"
    proof (cases "d = rp_driver p")
      case True
      with own show ?thesis by (simp add: s' update_conv' c)
    next
      case False
      with ok show ?thesis by (auto simp: s' update_conv' c am sums_ok_def driver_totals_def split: option.splits dest: spec [of _ d])
    qed
  qed
qed

lemma replay_sums: "distinct (map xe_id es) \<Longrightarrow> replay es empty_replay = Inr s \<Longrightarrow> sums_ok es s"
proof (induction es arbitrary: s rule: rev_induct)
  case Nil
  then show ?case by (auto simp: sums_ok_def empty_replay_def)
next
  case (snoc e es)
  then obtain s1 where s1: "replay es empty_replay = Inr s1" "replay_event e s1 = Inr s"
    by (auto simp: replay_append split: sum.splits)
  have ok: "sums_ok es s1" using snoc s1 by simp
  have new: "xe_id e \<notin> xe_id ` set es" using snoc.prems(1) by auto
  show ?case
    by (cases "xe_body e") (use pool_step_ok [OF ok new s1(2)] driver_step_ok [OF ok new s1(2)] in auto)
qed

lemma logged_mset: "mset es = mset fs \<Longrightarrow> logged f es = logged f fs"
  by (metis logged_def mset_map sum_mset_sum_list)

lemma list_ex_set: "set es = set fs \<Longrightarrow> list_ex P es = list_ex P fs"
  by (simp add: list_ex_iff)

text \<open>
  In projections rebuilt from a log of different events, in whatever order it is given, a pool
  has raised what its funding events brought in less its refunds and repaid what its repayment
  events say, a driver has repaid the sum of the recorded repayments, and exactly the pools and
  drivers that occur in the ledgers asked for are present.
\<close>
theorem rebuilt_totals:
  assumes "distinct (map xe_id es)" and "rebuildProjectionsFromEvents collate es lo hi = Inr r" and "ls = filter (in_ledgers lo hi) es"
  shows "(case map_of (rr_pools r) pid of
      None \<Rightarrow> \<not> list_ex (concerns_pool pid) ls
    | Some q \<Rightarrow> list_ex (concerns_pool pid) ls
        \<and> pj_totalInvested q = logged (pool_amount Pool_funded pid) ls - logged (pool_amount Pool_refund pid) ls
        \<and> pj_totalRepaid q = logged (pool_amount Pool_repaid pid) ls)
    \<and> (case map_of (rr_drivers r) d of
      None \<Rightarrow> \<not> list_ex (concerns_driver d) ls
    | Some q \<Rightarrow> list_ex (concerns_driver d) ls \<and> dj_totalRepaid q = logged (repaid_amount d) ls)"
proof -
  let ?es = "js_sort (event_order collate) ls"
  obtain s where s: "replay ?es empty_replay = Inr s" "r = rebuild_of s"
    using assms(2) by (auto simp: rebuildProjectionsFromEvents_def assms(3) split: sum.splits)
  have "distinct (map xe_id ls)" unfolding assms(3) by (rule distinct_map_filter [OF assms(1)])
  then have "distinct (map xe_id ?es)" by (metis mset_js_sort mset_map mset_eq_imp_distinct_iff)
  then have ok: "sums_ok ?es s" using s(1) by (rule replay_sums)
  have l: "logged f ?es = logged f ls" "list_ex P ?es = list_ex P ls" for f P
    by (rule logged_mset, simp) (rule list_ex_set, simp)
  have r: "rr_pools r = ry_pools s" "rr_drivers r = ry_drivers s" using s(2) by (simp_all add: rebuild_of_def)
  from ok have "case map_of (ry_pools s) pid of None \<Rightarrow> \<not> list_ex (concerns_pool pid) ?es
      | Some q \<Rightarrow> pool_totals pid ?es q \<and> list_ex (concerns_pool pid) ?es" by (simp add: sums_ok_def)
  moreover from ok have "case map_of (ry_drivers s) d of None \<Rightarrow> \<not> list_ex (concerns_driver d) ?es
      | Some q \<Rightarrow> driver_totals d ?es q \<and> list_ex (concerns_driver d) ?es" by (simp add: sums_ok_def)
  ultimately show ?thesis unfolding r l pool_totals_def driver_totals_def by (auto split: option.splits)
qed

text \<open>Positions are not compared: a rebuild that puts an investment on another position passes.\<close>

lemma positions_not_compared:
  "compareProjections key (r\<lparr>rr_pools := map (\<lambda>(k, q). (k, q\<lparr>pj_positions := f q\<rparr>)) (rr_pools r)\<rparr>) pools drivers
    = compareProjections key r pools drivers"
proof -
  have "map_of (map (\<lambda>(k, q). (k, q\<lparr>pj_positions := f q\<rparr>)) ps) k = map_option (\<lambda>q. q\<lparr>pj_positions := f q\<rparr>) (map_of ps k)" for ps :: "(jsnum \<times> pool_projection) list" and k
    by (induction ps) auto
  moreover have "fst \<circ> (\<lambda>(k, q). (k, q\<lparr>pj_positions := f q\<rparr>)) = (fst :: jsnum \<times> pool_projection \<Rightarrow> jsnum)" by auto
  moreover have "pool_mismatch k (map_option (\<lambda>q. q\<lparr>pj_positions := f q\<rparr>) a) b = pool_mismatch k a b" for k a b
    by (cases a; cases b) (simp_all add: pool_mismatch_def)
  ultimately show ?thesis by (simp add: compareProjections_def)
qed

subsection \<open>A small log\<close>

definition demo_event :: "string \<Rightarrow> int \<Rightarrow> pool_event_type \<Rightarrow> string \<Rightarrow> chain_event" where
  "demo_event i l t x = \<lparr> xe_id = i, xe_contractId = [], xe_ledger = l, xe_eventIndex = 0, xe_transactionHash = [], xe_schemaVersion = Fin 1,
     xe_timestamp = None, xe_body = Pool_body t \<lparr> pp_version = Fin 1, pp_asset = ''NGN'', pp_amount = x, pp_pool_id = Fin 1,
       pp_position_id = ''p'', pp_actor = ''p'', pp_reference = [], pp_post_funded_units = Fin 1, pp_post_total_invested = x,
       pp_post_total_repaid = ''0'' \<rparr> \<rparr>"

definition demo_events :: "chain_event list" where
  "demo_events = [demo_event ''b'' 7 Pool_refund ''20'', demo_event ''a'' 5 Pool_funded ''120'', demo_event ''c'' 9 Pool_repaid ''30'']"

definition rank_of :: "string \<Rightarrow> rat" where
  "rank_of s = of_nat (to_nat s)"

definition collate_of :: "string \<Rightarrow> string \<Rightarrow> int" where
  "collate_of a b = (if rank_of a \<le> rank_of b then 0 else 1)"

lemma collate_of_ok: "collation_ok collate_of rank_of"
  by (auto simp: collation_ok_def collate_of_def rank_of_def inj_def)

lemma rebuild_deterministic_witness:
  "same_projections (rebuildProjectionsFromEvents collate_of (demo_events @ demo_events) None (Some 8))
     (rebuildProjectionsFromEvents collate_of (rev demo_events) None (Some 8))"
  by (rule conjunct1 [OF rebuild_deterministic [OF collate_of_ok]])
     (auto simp: demo_events_def demo_event_def inj_on_def)

lemma rebuilt_totals_witness:
  "\<exists>r. rebuildProjectionsFromEvents (\<lambda>_ _. 0) demo_events None None = Inr r
     \<and> map_option pj_totalInvested (map_of (rr_pools r) (Fin 1)) = Some 100"
proof -
  have "case rebuildProjectionsFromEvents (\<lambda>_ _. 0) demo_events None None of Inl _ \<Rightarrow> False | Inr r \<Rightarrow> map_of (rr_pools r) (Fin 1) \<noteq> None"
    by code_simp
  then obtain r q where r: "rebuildProjectionsFromEvents (\<lambda>_ _. 0) demo_events None None = Inr r" "map_of (rr_pools r) (Fin 1) = Some q"
    by (auto split: sum.splits)
  have d: "distinct (map xe_id demo_events)" by (simp add: demo_events_def demo_event_def)
  have f: "filter (in_ledgers None None) demo_events = demo_events" by (simp add: in_ledgers_def)
  have l: "logged (pool_amount Pool_funded (Fin 1)) demo_events = 120" "logged (pool_amount Pool_refund (Fin 1)) demo_events = 20"
    by code_simp+
  from rebuilt_totals [OF d r(1) refl, of "Fin 1" "[]"] r f l show ?thesis by (auto split: option.splits)
qed

end
