(* ===== verification/Approval_Model.thy ===== *)
theory Approval_Model
  imports Json_Text
begin

text \<open>
  Four-eyes approval of sensitive operations, \<open>lib/approvals/\<close>: the request document of
  \<open>models/ApprovalRequest.ts\<close>, the errors, and the executors of \<open>executors.ts\<close>.

  An executor is a record of functions, as the interface \<open>ApprovalExecutor\<close> is.  The executor that
  changes roles is complete; the two others call the reconciliation and the repair engine, which
  are the fields of \<open>approval_engines\<close>.  A resource version is the time \<open>updatedAt\<close>, whose ISO text
  the code compares.
\<close>

subsection \<open>Errors\<close>

datatype approval_code =
  Ap_target_not_found | Ap_invalid_command | Ap_already_in_flight | Ap_not_found | Ap_not_pending
| Ap_expired | Ap_self_approval | Ap_forbidden | Ap_conflict | Ap_requester_revoked
| Ap_approver_revoked | Ap_stale_resource | Ap_business_rule | Ap_execution_failed

text \<open>What can be thrown: an \<open>ApprovalError\<close>, or any other exception.\<close>

datatype approval_failure = Approval_error approval_code string | Other_error string

definition failure_message :: "approval_failure \<Rightarrow> string" where
  "failure_message e = (case e of Approval_error c m \<Rightarrow> m | Other_error m \<Rightarrow> ''Execution failed.'')"

subsection \<open>Requests\<close>

datatype approval_status =
  Req_pending | Req_approved | Req_rejected | Req_cancelled | Req_expired
| Req_executing | Req_executed | Req_execution_failed | Req_stale

definition approval_status_name :: "approval_status \<Rightarrow> string" where
  "approval_status_name st = (case st of Req_pending \<Rightarrow> ''pending'' | Req_approved \<Rightarrow> ''approved''
     | Req_rejected \<Rightarrow> ''rejected'' | Req_cancelled \<Rightarrow> ''cancelled'' | Req_expired \<Rightarrow> ''expired''
     | Req_executing \<Rightarrow> ''executing'' | Req_executed \<Rightarrow> ''executed''
     | Req_execution_failed \<Rightarrow> ''execution_failed'' | Req_stale \<Rightarrow> ''stale'')"

record approval_event =
  he_event :: string
  he_actorId :: "string option"
  he_at :: time
  he_reason :: "string option"

datatype risk_level = Risk_standard | Risk_high

record approval_request =
  aq_id :: oid
  aq_operationType :: string
  aq_riskLevel :: risk_level
  aq_targetType :: string
  aq_targetId :: string
  aq_resourceVersion :: time
  aq_proposedCommand :: json
  aq_beforeState :: json
  aq_afterState :: json
  aq_requesterId :: string
  aq_requesterRole :: string
  aq_reason :: string
  aq_evidenceRefs :: "string list"
  aq_status :: approval_status
  aq_approverId :: "string option"
  aq_decisionReason :: "string option"
  aq_decidedAt :: "time option"
  aq_expiresAt :: time
  aq_executedAt :: "time option"
  aq_executionError :: "string option"
  aq_resultRefs :: "(string \<times> string) list"
  aq_emergencyOverride :: bool
  aq_emergencyOverrideReason :: "string option"
  aq_history :: "approval_event list"
  aq_createdAt :: time
  aq_updatedAt :: time

definition in_flight :: "approval_request \<Rightarrow> bool" where
  "in_flight r \<longleftrightarrow> aq_status r \<in> {Req_pending, Req_approved, Req_executing}"

subsection \<open>The targets\<close>

record approval_user =
  av_id :: oid
  av_role :: string
  av_updatedAt :: time

record discrepancy_doc =
  dy_id :: oid
  dy_remediationStatus :: string
  dy_updatedAt :: time

record finding_doc =
  fy_id :: oid
  fy_status :: string
  fy_repairability :: string
  fy_updatedAt :: time

text \<open>The collections that executors read and write; \<open>aw_other\<close> is what only the engines know.\<close>

record 'x approval_world =
  aw_users :: "approval_user list"
  aw_discrepancies :: "discrepancy_doc list"
  aw_findings :: "finding_doc list"
  aw_audits :: "audit_row list"
  aw_other :: 'x

record approval_actor =
  ac_id :: string
  ac_role :: string

record prepared_approval =
  pp_command :: json
  pp_before :: json
  pp_after :: json
  pp_exempt :: bool
  pp_evidenceRefs :: "string list"

record repair_preview =
  rv_strategy :: string
  rv_ruleId :: string
  rv_repairability :: string
  rv_fingerprint :: string
  rv_proposedChanges :: json
  rv_compensationPlan :: json

record 'x approval_engines =
  en_previewRemediation :: "string \<Rightarrow> string \<Rightarrow> 'x approval_world \<Rightarrow> approval_failure + json \<times> json"
  en_remediateDiscrepancy :: "string \<Rightarrow> string \<Rightarrow> string \<Rightarrow> string \<Rightarrow> 'x approval_world
      \<Rightarrow> (approval_failure + string option \<times> string option) \<times> 'x approval_world"
  en_previewRepair :: "string \<Rightarrow> 'x approval_world \<Rightarrow> approval_failure + repair_preview"
  en_applyRepair :: "string \<Rightarrow> string \<Rightarrow> 'x approval_world
      \<Rightarrow> (approval_failure + bool \<times> string option \<times> string option) \<times> 'x approval_world"

record 'x approval_executor =
  ex_targetType :: string
  ex_prepare :: "string \<Rightarrow> json \<Rightarrow> 'x approval_world \<Rightarrow> approval_failure + prepared_approval"
  ex_loadResourceVersion :: "string \<Rightarrow> 'x approval_world \<Rightarrow> approval_failure + time"
  ex_revalidate :: "string \<Rightarrow> json \<Rightarrow> 'x approval_world \<Rightarrow> approval_failure + unit"
  ex_execute :: "string \<Rightarrow> json \<Rightarrow> string \<Rightarrow> string \<Rightarrow> 'x approval_world
      \<Rightarrow> (approval_failure + (string \<times> string) list) \<times> 'x approval_world"

record approval_env = env +
  ae_ttlHours :: int
  ae_newId :: oid
  ae_num :: "rat \<Rightarrow> string"

text \<open>\<open>findById\<close>: an id that cannot be cast to an \<open>ObjectId\<close> is an exception of the driver.\<close>

definition find_doc_by_id :: "approval_env \<Rightarrow> ('d \<Rightarrow> oid) \<Rightarrow> string \<Rightarrow> 'd list \<Rightarrow> approval_failure + 'd option" where
  "find_doc_by_id E k i ds = (if valid_oid E i then Inr (find_one (\<lambda>d. k d = i) ds) else Inl (Other_error ''CastError''))"

definition find_target ::
  "approval_env \<Rightarrow> string \<Rightarrow> ('d \<Rightarrow> oid) \<Rightarrow> string \<Rightarrow> 'd list \<Rightarrow> approval_failure + 'd" where
  "find_target E gone k i ds =
     (case find_doc_by_id E k i ds of
        Inl e \<Rightarrow> Inl e
      | Inr None \<Rightarrow> Inl (Approval_error Ap_target_not_found gone)
      | Inr (Some d) \<Rightarrow> Inr d)"

text \<open>\<open>logAuditEvent\<close> on the world.\<close>

definition approval_audit ::
  "approval_env \<Rightarrow> bool option \<Rightarrow> audit_event \<Rightarrow> 'x approval_world \<Rightarrow> approval_failure + 'x approval_world" where
  "approval_audit E crit ev w =
     (case log_audit_event (env.truncate E) crit ev (aw_audits w) of
        None \<Rightarrow> Inl (Other_error ''CRITICAL_AUDIT_FAILURE'')
      | Some rows \<Rightarrow> Inr (w\<lparr>aw_audits := rows\<rparr>))"

subsection \<open>Commands\<close>

definition json_field :: "string \<Rightarrow> json \<Rightarrow> json option" where
  "json_field k j = (case j of J_object kvs \<Rightarrow> map_of kvs k | _ \<Rightarrow> None)"

text \<open>\<open>String(x || "")\<close> of a field of a request body (which holds no dates).\<close>

fun js_String :: "(rat \<Rightarrow> string) \<Rightarrow> json \<Rightarrow> string" where
  "js_String num J_null = ''null''"
| "js_String num (J_bool b) = (if b then ''true'' else ''false'')"
| "js_String num (J_number x) = num x"
| "js_String num (J_string s) = s"
| "js_String num (J_date t) = []"
| "js_String num (J_array xs) =
     join_with '','' (map (\<lambda>x. if x = J_null then [] else js_String num x) xs)"
| "js_String num (J_object kvs) = ''[object Object]''"

definition field_text :: "(rat \<Rightarrow> string) \<Rightarrow> string \<Rightarrow> json \<Rightarrow> string" where
  "field_text num k j =
     (case json_field k j of
        None \<Rightarrow> []
      | Some v \<Rightarrow> if v \<in> {J_null, J_bool False, J_number 0} then [] else js_String num v)"

definition string_field :: "string \<Rightarrow> json \<Rightarrow> string option" where
  "string_field k j = (case json_field k j of Some (J_string s) \<Rightarrow> Some s | _ \<Rightarrow> None)"

subsection \<open>Executors\<close>

definition RECONCILIATION_ACTIONS :: "string list" where
  "RECONCILIATION_ACTIONS =
     [''RECONCILE_CREATE_TRANSACTION'', ''RECONCILE_POST_REVERSAL'', ''RECONCILE_UPDATE_STATUS'', ''IGNORE'']"

definition prepare_remediation ::
  "approval_env \<Rightarrow> 'x approval_engines \<Rightarrow> string \<Rightarrow> json \<Rightarrow> 'x approval_world \<Rightarrow> approval_failure + prepared_approval" where
  "prepare_remediation E G tid raw w =
     (let action = field_text (ae_num E) ''action'' raw in
      if action \<notin> set RECONCILIATION_ACTIONS then Inl (Approval_error Ap_invalid_command ''Invalid remediation action.'')
      else (let notes = (case string_field ''notes'' raw of None \<Rightarrow> [] | Some s \<Rightarrow> js_trim s) in
        case en_previewRemediation G tid action w of
          Inl e \<Rightarrow> Inl e
        | Inr (before, after) \<Rightarrow> Inr
            \<lparr> pp_command = J_object [(''action'', J_string action), (''notes'', J_string notes)],
              pp_before = before, pp_after = after, pp_exempt = (action = ''IGNORE''),
              pp_evidenceRefs = [''reconciliation_discrepancy:'' @ tid] \<rparr>))"

definition revalidate_remediation ::
  "approval_env \<Rightarrow> string \<Rightarrow> json \<Rightarrow> 'x approval_world \<Rightarrow> approval_failure + unit" where
  "revalidate_remediation E tid cmd w =
     (case find_target E ''Reconciliation discrepancy no longer exists.'' dy_id tid (aw_discrepancies w) of
        Inl e \<Rightarrow> Inl e
      | Inr d \<Rightarrow> if dy_remediationStatus d \<noteq> ''unresolved''
               then Inl (Approval_error Ap_business_rule (''Discrepancy is already '' @ dy_remediationStatus d @ ''.''))
               else Inr ())"

definition execute_remediation ::
  "'x approval_engines \<Rightarrow> string \<Rightarrow> json \<Rightarrow> string \<Rightarrow> string \<Rightarrow> 'x approval_world
     \<Rightarrow> (approval_failure + (string \<times> string) list) \<times> 'x approval_world" where
  "execute_remediation G tid cmd approver requester w =
     (let action = (case string_field ''action'' cmd of None \<Rightarrow> [] | Some a \<Rightarrow> a);
          notes = (case string_field ''notes'' cmd of
                     Some (c # cs) \<Rightarrow> c # cs | _ \<Rightarrow> ''Approved via maker-checker workflow'')
      in case en_remediateDiscrepancy G tid action approver notes w of
           (Inl e, w') \<Rightarrow> (Inl e, w')
         | (Inr (tx, al), w') \<Rightarrow> (Inr ([(''reconciliation_discrepancy'', tid)]
              @ (case tx of Some (c # cs) \<Rightarrow> [(''transaction'', c # cs)] | _ \<Rightarrow> [])
              @ (case al of Some l \<Rightarrow> [(''audit_log'', l)] | None \<Rightarrow> [])), w'))"

definition reconciliationRemediateExecutor ::
  "approval_env \<Rightarrow> 'x approval_engines \<Rightarrow> 'x approval_executor" where
  "reconciliationRemediateExecutor E G =
     \<lparr> ex_targetType = ''reconciliation_discrepancy'',
       ex_prepare = prepare_remediation E G,
       ex_loadResourceVersion = (\<lambda>tid w. map_sum (\<lambda>e. e) dy_updatedAt
          (find_target E ''Reconciliation discrepancy no longer exists.'' dy_id tid (aw_discrepancies w))),
       ex_revalidate = revalidate_remediation E,
       ex_execute = execute_remediation G \<rparr>"

definition FINANCIAL_REPAIR_STRATEGIES :: "string list" where
  "FINANCIAL_REPAIR_STRATEGIES =
     [''RECONCILE_WALLET_BALANCE'', ''RECALCULATE_LOAN_FUNDING'', ''RECALCULATE_POOL_FUNDING'',
      ''REOPEN_OR_RECONCILE_CONTRACT'']"

definition prepare_repair ::
  "'x approval_engines \<Rightarrow> string \<Rightarrow> json \<Rightarrow> 'x approval_world \<Rightarrow> approval_failure + prepared_approval" where
  "prepare_repair G tid raw w =
     (case en_previewRepair G tid w of
        Inl e \<Rightarrow> Inl e
      | Inr p \<Rightarrow> Inr
          \<lparr> pp_command = J_object [(''strategy'', J_string (rv_strategy p))],
            pp_before = J_object [(''ruleId'', J_string (rv_ruleId p)), (''repairability'', J_string (rv_repairability p))],
            pp_after = J_object [(''proposedChanges'', rv_proposedChanges p), (''compensationPlan'', rv_compensationPlan p)],
            pp_exempt = (rv_strategy p \<notin> set FINANCIAL_REPAIR_STRATEGIES),
            pp_evidenceRefs = [''invariant_finding:'' @ tid, ''fingerprint:'' @ rv_fingerprint p] \<rparr>)"

definition revalidate_repair ::
  "approval_env \<Rightarrow> string \<Rightarrow> json \<Rightarrow> 'x approval_world \<Rightarrow> approval_failure + unit" where
  "revalidate_repair E tid cmd w =
     (case find_target E ''Finding no longer exists.'' fy_id tid (aw_findings w) of
        Inl e \<Rightarrow> Inl e
      | Inr f \<Rightarrow> if fy_status f = ''REPAIRED'' then Inl (Approval_error Ap_business_rule ''Finding is already repaired.'')
               else if fy_repairability f = ''MANUAL_ONLY''
               then Inl (Approval_error Ap_business_rule ''Finding requires manual repair.'') else Inr ())"

definition execute_repair ::
  "'x approval_engines \<Rightarrow> string \<Rightarrow> json \<Rightarrow> string \<Rightarrow> string \<Rightarrow> 'x approval_world
     \<Rightarrow> (approval_failure + (string \<times> string) list) \<times> 'x approval_world" where
  "execute_repair G tid cmd approver requester w =
     (case en_applyRepair G tid approver w of
        (Inl e, w') \<Rightarrow> (Inl e, w')
      | (Inr (success, error, al), w') \<Rightarrow>
          if \<not> success then (Inl (Approval_error Ap_execution_failed
                (case error of Some (c # cs) \<Rightarrow> c # cs | _ \<Rightarrow> ''Repair failed.'')), w')
          else (Inr ([(''invariant_finding'', tid)]
                @ (case al of Some (c # cs) \<Rightarrow> [(''audit_log'', c # cs)] | _ \<Rightarrow> [])), w'))"

definition integrityRepairApplyExecutor ::
  "approval_env \<Rightarrow> 'x approval_engines \<Rightarrow> 'x approval_executor" where
  "integrityRepairApplyExecutor E G =
     \<lparr> ex_targetType = ''invariant_finding'',
       ex_prepare = prepare_repair G,
       ex_loadResourceVersion = (\<lambda>tid w. map_sum (\<lambda>e. e) fy_updatedAt
          (find_target E ''Finding no longer exists.'' fy_id tid (aw_findings w))),
       ex_revalidate = revalidate_repair E,
       ex_execute = execute_repair G \<rparr>"

definition VALID_ROLES :: "string list" where
  "VALID_ROLES = [''admin'', ''driver'', ''investor'']"

definition isPrivilegeCrossingRoleChange :: "string \<Rightarrow> string \<Rightarrow> bool" where
  "isPrivilegeCrossingRoleChange fromRole toRole \<longleftrightarrow> fromRole \<noteq> toRole \<and> (fromRole = ''admin'' \<or> toRole = ''admin'')"

definition prepare_role ::
  "approval_env \<Rightarrow> string \<Rightarrow> json \<Rightarrow> 'x approval_world \<Rightarrow> approval_failure + prepared_approval" where
  "prepare_role E tid raw w =
     (let role = field_text (ae_num E) ''role'' raw in
      if role \<notin> set VALID_ROLES then Inl (Approval_error Ap_invalid_command ''Invalid role.'')
      else case find_target E ''User no longer exists.'' av_id tid (aw_users w) of
          Inl e \<Rightarrow> Inl e
        | Inr u \<Rightarrow> Inr
            \<lparr> pp_command = J_object [(''role'', J_string role)],
              pp_before = J_object [(''role'', J_string (av_role u))],
              pp_after = J_object [(''role'', J_string role)],
              pp_exempt = (\<not> isPrivilegeCrossingRoleChange (av_role u) role),
              pp_evidenceRefs = [''user:'' @ tid] \<rparr>)"

definition admin_count :: "'x approval_world \<Rightarrow> nat" where
  "admin_count w = length (filter (\<lambda>u. av_role u = ''admin'') (aw_users w))"

definition revalidate_role ::
  "approval_env \<Rightarrow> string \<Rightarrow> json \<Rightarrow> 'x approval_world \<Rightarrow> approval_failure + unit" where
  "revalidate_role E tid cmd w =
     (case find_target E ''User no longer exists.'' av_id tid (aw_users w) of
        Inl e \<Rightarrow> Inl e
      | Inr u \<Rightarrow> if av_role u = ''admin'' \<and> string_field ''role'' cmd \<noteq> Some ''admin'' \<and> admin_count w \<le> 1
               then Inl (Approval_error Ap_business_rule ''At least one admin account must remain active.'')
               else Inr ())"

definition role_event :: "string \<Rightarrow> string \<Rightarrow> string \<Rightarrow> string \<Rightarrow> string \<Rightarrow> audit_event" where
  "role_event tid approver requester previous next_role =
     \<lparr> ev_actor = Some (approver, Some ''admin''), ev_action = ''user.role_reassign'', ev_targetType = ''user'',
       ev_targetId = Some tid, ev_success = True,
       ev_meta = [(''previousRole'', MStr previous), (''newRole'', MStr next_role), (''requesterId'', MStr requester)] \<rparr>"

definition execute_role ::
  "approval_env \<Rightarrow> string \<Rightarrow> json \<Rightarrow> string \<Rightarrow> string \<Rightarrow> 'x approval_world
     \<Rightarrow> (approval_failure + (string \<times> string) list) \<times> 'x approval_world" where
  "execute_role E tid cmd approver requester w =
     (case find_target E ''User no longer exists.'' av_id tid (aw_users w) of
        Inl e \<Rightarrow> (Inl e, w)
      | Inr u \<Rightarrow>
         (let next_role = (case string_field ''role'' cmd of None \<Rightarrow> [] | Some a \<Rightarrow> a);
              w1 = (if next_role = av_role u then w else w\<lparr>aw_users := update_one (\<lambda>v. av_id v = tid)
                       (\<lambda>v. v\<lparr>av_role := next_role, av_updatedAt := now E\<rparr>) (aw_users w)\<rparr>)
          in case approval_audit E None (role_event tid approver requester (av_role u) next_role) w1 of
               Inl e \<Rightarrow> (Inl e, w1)
             | Inr w2 \<Rightarrow> (Inr [(''user'', tid)], w2)))"

definition userRoleReassignExecutor :: "approval_env \<Rightarrow> 'x approval_executor" where
  "userRoleReassignExecutor E =
     \<lparr> ex_targetType = ''user'',
       ex_prepare = prepare_role E,
       ex_loadResourceVersion = (\<lambda>tid w. map_sum (\<lambda>e. e) av_updatedAt
          (find_target E ''User no longer exists.'' av_id tid (aw_users w))),
       ex_revalidate = revalidate_role E,
       ex_execute = execute_role E \<rparr>"

definition getExecutor ::
  "approval_env \<Rightarrow> 'x approval_engines \<Rightarrow> string \<Rightarrow> approval_failure + 'x approval_executor" where
  "getExecutor E G op =
     (if op = ''reconciliation.remediate'' then Inr (reconciliationRemediateExecutor E G)
      else if op = ''integrity.repair.apply'' then Inr (integrityRepairApplyExecutor E G)
      else if op = ''user.role_reassign'' then Inr (userRoleReassignExecutor E)
      else Inl (Approval_error Ap_invalid_command (''Unknown operation type: '' @ op)))"

end
