(* ===== verification/Approval_Service.thy ===== *)
theory Approval_Service
  imports Approval_Model Js_Sort
begin

text \<open>
  The operations of \<open>lib/approvals/service.ts\<close>.  Every operation is cut at its database calls into
  stages, each of which is atomic; the operations compose their stages, and
  \<open>Approval_System\<close> lets the stages of concurrent calls interleave.
\<close>

record 'x approval_db =
  ad_requests :: "approval_request list"
  ad_world :: "'x approval_world"

definition EXECUTION_TIMEOUT_MS :: time where
  "EXECUTION_TIMEOUT_MS = 5 * 60 * 1000"

definition hasAdminPermission :: "approval_env \<Rightarrow> string \<Rightarrow> 'x approval_world \<Rightarrow> approval_failure + bool" where
  "hasAdminPermission E uid w =
     (case find_doc_by_id E av_id uid (aw_users w) of
        Inl e \<Rightarrow> Inl e
      | Inr None \<Rightarrow> Inr False
      | Inr (Some u) \<Rightarrow> Inr (av_role u = ''admin''))"

subsection \<open>Guarded updates\<close>

text \<open>
  \<open>findOneAndUpdate\<close> and \<open>updateOne\<close> on one request in a given status; \<open>stamp\<close> pushes an event
  and sets the status and \<open>updatedAt\<close>.
\<close>

definition at_status :: "oid \<Rightarrow> approval_status \<Rightarrow> approval_request \<Rightarrow> bool" where
  "at_status i st r \<longleftrightarrow> aq_id r = i \<and> aq_status r = st"

definition stamp ::
  "approval_env \<Rightarrow> approval_status \<Rightarrow> string \<Rightarrow> string option \<Rightarrow> string option \<Rightarrow> approval_request \<Rightarrow> approval_request" where
  "stamp E st event actor reason r =
     r\<lparr>aq_status := st, aq_updatedAt := now E,
       aq_history := aq_history r @ [\<lparr>he_event = event, he_actorId = actor, he_at = now E, he_reason = reason\<rparr>]\<rparr>"

definition advance ::
  "oid \<Rightarrow> approval_status \<Rightarrow> (approval_request \<Rightarrow> approval_request) \<Rightarrow> 'x approval_db
     \<Rightarrow> approval_request option \<times> 'x approval_db" where
  "advance i st f db =
     (case find_one_and_update (at_status i st) f (ad_requests db) of
        (r, rs) \<Rightarrow> (r, db\<lparr>ad_requests := rs\<rparr>))"

definition decided ::
  "approval_env \<Rightarrow> string \<Rightarrow> string option \<Rightarrow> approval_request \<Rightarrow> approval_request" where
  "decided E approver reason r =
     r\<lparr>aq_approverId := Some approver, aq_decisionReason := reason, aq_decidedAt := Some (now E)\<rparr>"

subsection \<open>Requests whose time has run out\<close>

definition expire :: "approval_env \<Rightarrow> approval_request \<Rightarrow> approval_request" where
  "expire E = stamp E Req_expired ''expired'' None None"

definition time_out :: "approval_env \<Rightarrow> approval_request \<Rightarrow> approval_request" where
  "time_out E r = (stamp E Req_execution_failed ''execution_failed'' None (Some ''stuck_execution_timeout'') r)
     \<lparr>aq_executionError := Some ''Execution timed out (stuck in-flight).''\<rparr>"

definition reapStaleRequest ::
  "approval_env \<Rightarrow> approval_request \<Rightarrow> 'x approval_db \<Rightarrow> approval_request \<times> 'x approval_db" where
  "reapStaleRequest E r db =
     (if aq_status r = Req_pending \<and> aq_expiresAt r \<le> now E then
        (case advance (aq_id r) Req_pending (expire E) db of
           (None, db') \<Rightarrow> (r, db') | (Some r', db') \<Rightarrow> (r', db'))
      else if aq_status r = Req_executing \<and> now E - aq_updatedAt r > EXECUTION_TIMEOUT_MS then
        (case advance (aq_id r) Req_executing (time_out E) db of
           (None, db') \<Rightarrow> (r, db') | (Some r', db') \<Rightarrow> (r', db'))
      else (r, db))"

definition getApprovalRequestById ::
  "approval_env \<Rightarrow> string \<Rightarrow> 'x approval_db \<Rightarrow> (approval_failure + approval_request option) \<times> 'x approval_db" where
  "getApprovalRequestById E i db =
     (case find_doc_by_id E aq_id i (ad_requests db) of
        Inl e \<Rightarrow> (Inl e, db)
      | Inr None \<Rightarrow> (Inr None, db)
      | Inr (Some r) \<Rightarrow> (case reapStaleRequest E r db of (r', db') \<Rightarrow> (Inr (Some r'), db')))"

fun reap_all ::
  "approval_env \<Rightarrow> approval_request list \<Rightarrow> 'x approval_db \<Rightarrow> approval_request list \<times> 'x approval_db" where
  "reap_all E [] db = ([], db)"
| "reap_all E (r # rs) db =
     (case reapStaleRequest E r db of (r', db1) \<Rightarrow>
        (case reap_all E rs db1 of (rs', db2) \<Rightarrow> (r' # rs', db2)))"

record request_page =
  rp_requests :: "approval_request list"
  rp_total :: nat
  rp_page :: int
  rp_pageSize :: int

definition page_or :: "int \<Rightarrow> int option \<Rightarrow> int" where
  "page_or d x = (case x of None \<Rightarrow> d | Some n \<Rightarrow> if n = 0 then d else n)"

definition matches_filter :: "string option \<Rightarrow> string option \<Rightarrow> approval_request \<Rightarrow> bool" where
  "matches_filter status op r \<longleftrightarrow>
     (truthy status \<longrightarrow> status = Some (approval_status_name (aq_status r)))
     \<and> (truthy op \<longrightarrow> op = Some (aq_operationType r))"

definition listApprovalRequests ::
  "approval_env \<Rightarrow> string option \<Rightarrow> string option \<Rightarrow> int option \<Rightarrow> int option \<Rightarrow> 'x approval_db
     \<Rightarrow> request_page \<times> 'x approval_db" where
  "listApprovalRequests E status op page pageSize db =
     (let p = max 1 (page_or 1 page); n = min 100 (max 1 (page_or 20 pageSize));
          sorted_rs = js_sort (\<lambda>a b. of_int (aq_createdAt b - aq_createdAt a))
                        (filter (matches_filter status op) (ad_requests db));
          candidates = take (nat n) (drop (nat ((p - 1) * n)) sorted_rs)
      in case reap_all E candidates db of (rs, db') \<Rightarrow>
           (\<lparr> rp_requests = rs, rp_total = length (filter (matches_filter status op) (ad_requests db')),
              rp_page = p, rp_pageSize = n \<rparr>, db'))"

subsection \<open>Creating a request\<close>

record create_request_input =
  cq_operationType :: string
  cq_targetId :: string
  cq_rawCommand :: json
  cq_requester :: approval_actor
  cq_reason :: string

definition create_prepare ::
  "approval_env \<Rightarrow> 'x approval_engines \<Rightarrow> create_request_input \<Rightarrow> 'x approval_world
     \<Rightarrow> approval_failure + 'x approval_executor \<times> prepared_approval \<times> time" where
  "create_prepare E G inp w =
     (if js_trim (cq_reason inp) = [] then
        Inl (Approval_error Ap_invalid_command ''A reason is required to request this operation.'')
      else case getExecutor E G (cq_operationType inp) of Inl e \<Rightarrow> Inl e | Inr ex \<Rightarrow>
        (case ex_prepare ex (cq_targetId inp) (cq_rawCommand inp) w of Inl e \<Rightarrow> Inl e | Inr p \<Rightarrow>
          (case ex_revalidate ex (cq_targetId inp) (pp_command p) w of Inl e \<Rightarrow> Inl e | Inr _ \<Rightarrow>
            (case ex_loadResourceVersion ex (cq_targetId inp) w of Inl e \<Rightarrow> Inl e
             | Inr v \<Rightarrow> Inr (ex, p, v)))))"

definition new_request ::
  "approval_env \<Rightarrow> create_request_input \<Rightarrow> string \<Rightarrow> prepared_approval \<Rightarrow> time \<Rightarrow> approval_request" where
  "new_request E inp target p v =
     \<lparr> aq_id = ae_newId E, aq_operationType = cq_operationType inp,
       aq_riskLevel = (if pp_exempt p then Risk_standard else Risk_high),
       aq_targetType = target, aq_targetId = cq_targetId inp, aq_resourceVersion = v,
       aq_proposedCommand = pp_command p, aq_beforeState = pp_before p, aq_afterState = pp_after p,
       aq_requesterId = ac_id (cq_requester inp), aq_requesterRole = ac_role (cq_requester inp),
       aq_reason = js_trim (cq_reason inp), aq_evidenceRefs = pp_evidenceRefs p,
       aq_status = (if pp_exempt p then Req_executing else Req_pending),
       aq_approverId = None, aq_decisionReason = None, aq_decidedAt = None,
       aq_expiresAt = now E + ae_ttlHours E * 3600000,
       aq_executedAt = None, aq_executionError = None, aq_resultRefs = [],
       aq_emergencyOverride = False, aq_emergencyOverrideReason = None,
       aq_history = [\<lparr>he_event = ''requested'', he_actorId = Some (ac_id (cq_requester inp)), he_at = now E,
                       he_reason = (if pp_exempt p then Some ''exempt_low_risk'' else None)\<rparr>],
       aq_createdAt = now E, aq_updatedAt = now E \<rparr>"

text \<open>\<open>ApprovalRequest.create\<close> under the partial unique index on the target of requests in flight.\<close>

definition create_insert :: "approval_request \<Rightarrow> 'x approval_db \<Rightarrow> (approval_failure + approval_request) \<times> 'x approval_db" where
  "create_insert r db =
     (if aq_requesterId r = [] \<or> aq_requesterRole r = [] then (Inl (Other_error ''ValidationError''), db)
      else if in_flight r \<and> list_ex (\<lambda>q. in_flight q \<and> aq_targetType q = aq_targetType r \<and> aq_targetId q = aq_targetId r) (ad_requests db)
      then (Inl (Approval_error Ap_already_in_flight ''An approval request is already in flight for this target.''), db)
      else (Inr r, db\<lparr>ad_requests := ad_requests db @ [r]\<rparr>))"

definition request_event ::
  "approval_actor \<Rightarrow> string \<Rightarrow> bool \<Rightarrow> approval_request \<Rightarrow> (string \<times> meta) list \<Rightarrow> audit_event" where
  "request_event actor action ok r extra =
     \<lparr> ev_actor = Some (ac_id actor, Some (ac_role actor)),
       ev_action = ''approval.'' @ action @ ''.'' @ aq_operationType r, ev_targetType = aq_targetType r,
       ev_targetId = Some (aq_targetId r), ev_success = ok, ev_meta = (''requestId'', MStr (aq_id r)) # extra \<rparr>"

definition audit_request ::
  "approval_env \<Rightarrow> bool option \<Rightarrow> audit_event \<Rightarrow> 'x approval_db \<Rightarrow> approval_failure + 'x approval_db" where
  "audit_request E crit ev db =
     (case approval_audit E crit ev (ad_world db) of
        Inl e \<Rightarrow> Inl e | Inr w \<Rightarrow> Inr (db\<lparr>ad_world := w\<rparr>))"

text \<open>\<open>findByIdAndUpdate\<close>: no guard on the status.\<close>

definition update_request ::
  "oid \<Rightarrow> (approval_request \<Rightarrow> approval_request) \<Rightarrow> 'x approval_db \<Rightarrow> approval_request option \<times> 'x approval_db" where
  "update_request i f db =
     (case find_one_and_update (\<lambda>r. aq_id r = i) f (ad_requests db) of
        (r, rs) \<Rightarrow> (r, db\<lparr>ad_requests := rs\<rparr>))"

definition run_executor ::
  "'x approval_executor \<Rightarrow> approval_request \<Rightarrow> string \<Rightarrow> 'x approval_db
     \<Rightarrow> (approval_failure + (string \<times> string) list) \<times> 'x approval_db" where
  "run_executor ex r approver db =
     (case ex_execute ex (aq_targetId r) (aq_proposedCommand r) approver (aq_requesterId r) (ad_world db) of
        (res, w) \<Rightarrow> (res, db\<lparr>ad_world := w\<rparr>))"

definition exempt_failed ::
  "approval_env \<Rightarrow> oid \<Rightarrow> approval_failure \<Rightarrow> 'x approval_db \<Rightarrow> (approval_failure + approval_request \<times> bool) \<times> 'x approval_db" where
  "exempt_failed E i e db =
     (Inl e, snd (update_request i (\<lambda>r. (stamp E Req_execution_failed ''execution_failed'' None (Some (failure_message e)) r)
        \<lparr>aq_executionError := Some (failure_message e)\<rparr>) db))"

definition exempt_finish ::
  "approval_env \<Rightarrow> approval_actor \<Rightarrow> approval_request \<Rightarrow> approval_failure + (string \<times> string) list \<Rightarrow> 'x approval_db
     \<Rightarrow> (approval_failure + approval_request \<times> bool) \<times> 'x approval_db" where
  "exempt_finish E requester r res db =
     (case res of Inl e \<Rightarrow> exempt_failed E (aq_id r) e db
      | Inr refs \<Rightarrow>
         (case update_request (aq_id r) (\<lambda>r. (stamp E Req_executed ''exempt_executed'' (Some (ac_id requester)) None r)
                 \<lparr>aq_executedAt := Some (now E), aq_resultRefs := refs\<rparr>) db of (r', db1) \<Rightarrow>
           (case audit_request E None (request_event requester ''exempt_executed'' True r []) db1 of
              Inl e \<Rightarrow> exempt_failed E (aq_id r) e db1
            | Inr db2 \<Rightarrow> (Inr (case r' of None \<Rightarrow> r | Some x \<Rightarrow> x, True), db2))))"

definition createApprovalRequest ::
  "approval_env \<Rightarrow> 'x approval_engines \<Rightarrow> create_request_input \<Rightarrow> 'x approval_db
     \<Rightarrow> (approval_failure + approval_request \<times> bool) \<times> 'x approval_db" where
  "createApprovalRequest E G inp db =
     (case create_prepare E G inp (ad_world db) of Inl e \<Rightarrow> (Inl e, db) | Inr (ex, p, v) \<Rightarrow>
       (case create_insert (new_request E inp (ex_targetType ex) p v) db of
          (Inl e, db1) \<Rightarrow> (Inl e, db1)
        | (Inr r, db1) \<Rightarrow>
           (if pp_exempt p then
              (case run_executor ex r (ac_id (cq_requester inp)) db1 of
                 (res, db2) \<Rightarrow> exempt_finish E (cq_requester inp) r res db2)
            else (case audit_request E None (request_event (cq_requester inp) ''requested'' True r []) db1 of
                    Inl e \<Rightarrow> (Inl e, db1) | Inr db2 \<Rightarrow> (Inr (r, False), db2)))))"

subsection \<open>Execution\<close>

text \<open>The claim, the checks under the claim, the executor and the ending, one stage each.\<close>

definition claim_execution ::
  "approval_env \<Rightarrow> oid \<Rightarrow> 'x approval_db \<Rightarrow> (approval_failure + approval_request) \<times> 'x approval_db" where
  "claim_execution E i db =
     (case advance i Req_approved (stamp E Req_executing ''executing'' None None) db of
        (None, db') \<Rightarrow> (Inl (Approval_error Ap_conflict ''Approval request is no longer awaiting execution.''), db')
      | (Some r, db') \<Rightarrow> (Inr r, db'))"

definition execution_checks ::
  "approval_env \<Rightarrow> 'x approval_executor \<Rightarrow> approval_request \<Rightarrow> 'x approval_db \<Rightarrow> (approval_failure + unit) \<times> 'x approval_db" where
  "execution_checks E ex r db =
     (case ex_loadResourceVersion ex (aq_targetId r) (ad_world db) of Inl e \<Rightarrow> (Inl e, db) | Inr v \<Rightarrow>
        (if v \<noteq> aq_resourceVersion r then
           (Inl (Approval_error Ap_stale_resource ''The target resource changed after this request was created.''),
            snd (advance (aq_id r) Req_executing (stamp E Req_stale ''stale'' None None) db))
         else (ex_revalidate ex (aq_targetId r) (aq_proposedCommand r) (ad_world db), db)))"

definition execution_failed ::
  "approval_env \<Rightarrow> approval_actor \<Rightarrow> approval_request \<Rightarrow> approval_failure \<Rightarrow> 'x approval_db
     \<Rightarrow> (approval_failure + approval_request) \<times> 'x approval_db" where
  "execution_failed E approver r e db =
     (let db1 = snd (advance (aq_id r) Req_executing
                  (\<lambda>r. (stamp E Req_execution_failed ''execution_failed'' None (Some (failure_message e)) r)
                     \<lparr>aq_executionError := Some (failure_message e)\<rparr>) db)
      in case audit_request E None (request_event approver ''execution_failed'' False r [(''error'', MStr (failure_message e))]) db1 of
           Inl e' \<Rightarrow> (Inl e', db1) | Inr db2 \<Rightarrow> (Inl e, db2))"

definition execution_finish ::
  "approval_env \<Rightarrow> approval_actor \<Rightarrow> approval_request \<Rightarrow> approval_failure + (string \<times> string) list \<Rightarrow> 'x approval_db
     \<Rightarrow> (approval_failure + approval_request) \<times> 'x approval_db" where
  "execution_finish E approver r res db =
     (case res of Inl e \<Rightarrow> execution_failed E approver r e db
      | Inr refs \<Rightarrow>
         (case advance (aq_id r) Req_executing (\<lambda>r. (stamp E Req_executed ''executed'' (Some (ac_id approver)) None r)
                 \<lparr>aq_executedAt := Some (now E), aq_resultRefs := refs\<rparr>) db of (r', db1) \<Rightarrow>
           (case audit_request E None (request_event approver ''executed'' True r []) db1 of
              Inl e \<Rightarrow> execution_failed E approver r e db1
            | Inr db2 \<Rightarrow> (Inr (case r' of None \<Rightarrow> r | Some x \<Rightarrow> x), db2))))"

definition executeClaimedRequest ::
  "approval_env \<Rightarrow> 'x approval_engines \<Rightarrow> approval_request \<Rightarrow> approval_actor \<Rightarrow> 'x approval_db
     \<Rightarrow> (approval_failure + approval_request) \<times> 'x approval_db" where
  "executeClaimedRequest E G r approver db =
     (case getExecutor E G (aq_operationType r) of Inl e \<Rightarrow> (Inl e, db) | Inr ex \<Rightarrow>
       (case claim_execution E (aq_id r) db of (Inl e, db1) \<Rightarrow> (Inl e, db1) | (Inr c, db1) \<Rightarrow>
         (case execution_checks E ex c db1 of
            (Inl e, db2) \<Rightarrow> execution_failed E approver c e db2
          | (Inr _, db2) \<Rightarrow>
             (case run_executor ex c (ac_id approver) db2 of
                (res, db3) \<Rightarrow> execution_finish E approver c res db3))))"

subsection \<open>Decisions\<close>

record decide_input =
  di_requestId :: string
  di_approve :: bool
  di_approver :: approval_actor
  di_reason :: "string option"
  di_emergencyOverride :: bool
  di_emergencyOverrideReason :: "string option"

definition status_error :: "approval_code \<Rightarrow> approval_status \<Rightarrow> approval_failure" where
  "status_error c st = Approval_error c (''Approval request is '' @ approval_status_name st @ ''.'')"

text \<open>Everything up to the decision itself: the request as read and reaped.\<close>

definition decide_check ::
  "approval_env \<Rightarrow> decide_input \<Rightarrow> 'x approval_db \<Rightarrow> (approval_failure + approval_request) \<times> 'x approval_db" where
  "decide_check E inp db =
     (if ac_role (di_approver inp) \<noteq> ''admin'' then
        (Inl (Approval_error Ap_forbidden ''Only an admin can decide an approval request.''), db)
      else case find_doc_by_id E aq_id (di_requestId inp) (ad_requests db) of
        Inl e \<Rightarrow> (Inl e, db)
      | Inr None \<Rightarrow> (Inl (Approval_error Ap_not_found ''Approval request not found.''), db)
      | Inr (Some r) \<Rightarrow>
         (case reapStaleRequest E r db of (r', db') \<Rightarrow>
            (if aq_status r' \<noteq> Req_pending then
               (Inl (status_error (if aq_status r' = Req_expired then Ap_expired else Ap_not_pending) (aq_status r')), db')
             else if aq_requesterId r' = ac_id (di_approver inp) then
               (Inl (Approval_error Ap_self_approval ''The requester cannot approve their own request.''), db')
             else if di_emergencyOverride inp \<and> (case di_emergencyOverrideReason inp of None \<Rightarrow> True
                       | Some x \<Rightarrow> length (js_trim x) < 30) then
               (Inl (Approval_error Ap_invalid_command
                  ''Emergency override requires a written justification of at least 30 characters.''), db')
             else (Inr r', db'))))"

definition reject_request ::
  "approval_env \<Rightarrow> decide_input \<Rightarrow> approval_request \<Rightarrow> 'x approval_db \<Rightarrow> (approval_failure + approval_request) \<times> 'x approval_db" where
  "reject_request E inp r db =
     (let approver = di_approver inp in
      case advance (aq_id r) Req_pending (\<lambda>q. stamp E Req_rejected ''rejected'' (Some (ac_id approver)) (di_reason inp)
             (decided E (ac_id approver) (di_reason inp) q)) db of
        (None, db1) \<Rightarrow> (Inl (Approval_error Ap_conflict ''Approval request was already decided.''), db1)
      | (Some r', db1) \<Rightarrow>
         (case audit_request E None (request_event approver ''rejected'' True r
                  (case di_reason inp of None \<Rightarrow> [] | Some x \<Rightarrow> [(''reason'', MStr x)])) db1 of
            Inl e \<Rightarrow> (Inl e, db1) | Inr db2 \<Rightarrow> (Inr r', db2)))"

text \<open>Both sides of the four-eyes check against the users as they are now.\<close>

definition decide_permissions ::
  "approval_env \<Rightarrow> decide_input \<Rightarrow> approval_request \<Rightarrow> 'x approval_db \<Rightarrow> (approval_failure + unit) \<times> 'x approval_db" where
  "decide_permissions E inp r db =
     (case hasAdminPermission E (aq_requesterId r) (ad_world db) of Inl e \<Rightarrow> (Inl e, db) | Inr requesterEligible \<Rightarrow>
       (case hasAdminPermission E (ac_id (di_approver inp)) (ad_world db) of Inl e \<Rightarrow> (Inl e, db) | Inr approverEligible \<Rightarrow>
         (if \<not> approverEligible then
            (Inl (Approval_error Ap_approver_revoked ''Your admin permission could not be verified.''), db)
          else if \<not> requesterEligible then
            (Inl (Approval_error Ap_requester_revoked ''The requester no longer holds the permission required for this action.''),
             snd (advance (aq_id r) Req_pending (\<lambda>q. stamp E Req_rejected ''auto_rejected'' None (Some ''requester_lost_permission'')
               (decided E (ac_id (di_approver inp)) (Some ''requester_lost_permission'') q)) db))
          else (Inr (), db))))"

definition approve_request ::
  "approval_env \<Rightarrow> decide_input \<Rightarrow> approval_request \<Rightarrow> approval_request" where
  "approve_request E inp q =
     (let a = ac_id (di_approver inp); q1 = decided E a (di_reason inp) q in
      if di_emergencyOverride inp then
        (stamp E Req_approved ''approved_emergency_override'' (Some a) (di_reason inp) q1)
          \<lparr>aq_emergencyOverride := True, aq_emergencyOverrideReason := di_emergencyOverrideReason inp\<rparr>
      else stamp E Req_approved ''approved'' (Some a) (di_reason inp) q1)"

definition decide_claim ::
  "approval_env \<Rightarrow> decide_input \<Rightarrow> approval_request \<Rightarrow> 'x approval_db \<Rightarrow> (approval_failure + approval_request) \<times> 'x approval_db" where
  "decide_claim E inp r db =
     (case advance (aq_id r) Req_pending (approve_request E inp) db of
        (None, db1) \<Rightarrow> (Inl (Approval_error Ap_conflict ''Approval request was already decided.''), db1)
      | (Some c, db1) \<Rightarrow>
         (if di_emergencyOverride inp then
            (case audit_request E (Some True) (request_event (di_approver inp) ''emergency_override'' True r
                    (case di_emergencyOverrideReason inp of None \<Rightarrow> [] | Some x \<Rightarrow> [(''reason'', MStr x)])) db1 of
               Inl e \<Rightarrow> (Inl e, db1) | Inr db2 \<Rightarrow> (Inr c, db2))
          else (Inr c, db1)))"

definition decideApprovalRequest ::
  "approval_env \<Rightarrow> 'x approval_engines \<Rightarrow> decide_input \<Rightarrow> 'x approval_db
     \<Rightarrow> (approval_failure + approval_request) \<times> 'x approval_db" where
  "decideApprovalRequest E G inp db =
     (case decide_check E inp db of (Inl e, db1) \<Rightarrow> (Inl e, db1) | (Inr r, db1) \<Rightarrow>
       (if \<not> di_approve inp then reject_request E inp r db1
        else case decide_permissions E inp r db1 of (Inl e, db2) \<Rightarrow> (Inl e, db2) | (Inr _, db2) \<Rightarrow>
          (case decide_claim E inp r db2 of (Inl e, db3) \<Rightarrow> (Inl e, db3)
           | (Inr c, db3) \<Rightarrow> executeClaimedRequest E G c (di_approver inp) db3)))"

definition cancelApprovalRequest ::
  "approval_env \<Rightarrow> string \<Rightarrow> approval_actor \<Rightarrow> string option \<Rightarrow> 'x approval_db
     \<Rightarrow> (approval_failure + approval_request) \<times> 'x approval_db" where
  "cancelApprovalRequest E i actor reason db =
     (case find_doc_by_id E aq_id i (ad_requests db) of
        Inl e \<Rightarrow> (Inl e, db)
      | Inr None \<Rightarrow> (Inl (Approval_error Ap_not_found ''Approval request not found.''), db)
      | Inr (Some r) \<Rightarrow>
         (case reapStaleRequest E r db of (r', db1) \<Rightarrow>
            (if aq_status r' \<noteq> Req_pending then (Inl (status_error Ap_not_pending (aq_status r')), db1)
             else if aq_requesterId r' \<noteq> ac_id actor \<and> ac_role actor \<noteq> ''admin'' then
               (Inl (Approval_error Ap_forbidden ''Only the requester or an admin can cancel this request.''), db1)
             else case advance (aq_id r') Req_pending (\<lambda>q. stamp E Req_cancelled ''cancelled'' (Some (ac_id actor)) reason
                     (q\<lparr>aq_decisionReason := reason, aq_decidedAt := Some (now E)\<rparr>)) db1 of
               (None, db2) \<Rightarrow> (Inl (Approval_error Ap_conflict ''Approval request was already decided.''), db2)
             | (Some c, db2) \<Rightarrow>
                (case audit_request E None (request_event actor ''cancelled'' True r'
                        (case reason of None \<Rightarrow> [] | Some x \<Rightarrow> [(''reason'', MStr x)])) db2 of
                   Inl e \<Rightarrow> (Inl e, db2) | Inr db3 \<Rightarrow> (Inr c, db3)))))"

end
