(* ===== verification/Approval_System.thy ===== *)
theory Approval_System
  imports Approval_Service
begin

text \<open>
  Concurrent approval calls.  A call in progress is a task that has finished one of its stages;
  between two stages any other call may run, the clock may move and users may change.  \<open>as_runs\<close>
  and \<open>as_exempt_runs\<close> record every call of an executor with the request it was made for.
\<close>

datatype approval_task =
  Task_insert approval_actor approval_request
| Task_requested approval_actor approval_request
| Task_exempt approval_actor approval_request
| Task_exempt_ran approval_actor approval_request "approval_failure + (string \<times> string) list"
| Task_checked decide_input approval_request
| Task_permitted decide_input approval_request
| Task_approved approval_actor approval_request
| Task_claimed approval_actor approval_request
| Task_ready approval_actor approval_request
| Task_ran approval_actor approval_request "approval_failure + (string \<times> string) list"

record 'x approval_system =
  as_db :: "'x approval_db"
  as_tasks :: "approval_task list"
  as_runs :: "(oid \<times> string) list"
  as_exempt_runs :: "oid list"

definition goes_on :: "(approval_failure + 'a) \<Rightarrow> ('a \<Rightarrow> approval_task) \<Rightarrow> approval_task list" where
  "goes_on res t = (case res of Inl e \<Rightarrow> [] | Inr a \<Rightarrow> [t a])"

definition goes_with :: "'x approval_system \<Rightarrow> 'x approval_db \<Rightarrow> approval_task list \<Rightarrow> 'x approval_system" where
  "goes_with s db ts = s\<lparr>as_db := db, as_tasks := ts\<rparr>"

text \<open>
  The steps.  \<open>reap\<close> is \<open>getApprovalRequestById\<close> and \<open>listApprovalRequests\<close> with a snapshot that
  may be old; \<open>outside\<close> is any other part of the program changing the targets; \<open>crash\<close> ends a call.
\<close>

inductive approval_step :: "'x approval_engines \<Rightarrow> 'x approval_system \<Rightarrow> 'x approval_system \<Rightarrow> bool"
  for G :: "'x approval_engines" where
  prepare: "create_prepare E G inp (ad_world (as_db s)) = Inr (ex, p, v) \<Longrightarrow>
    approval_step G s (goes_with s (as_db s)
      (as_tasks s @ [Task_insert (cq_requester inp) (new_request E inp (ex_targetType ex) p v)]))"
| insert: "as_tasks s = ts @ Task_insert a r # us \<Longrightarrow> create_insert r (as_db s) = (res, db)
    \<Longrightarrow> aq_id r \<notin> aq_id ` set (ad_requests (as_db s)) \<Longrightarrow>
    approval_step G s (goes_with s db (ts @ goes_on res (if aq_riskLevel r = Risk_standard then Task_exempt a
      else Task_requested a) @ us))"
| requested: "as_tasks s = ts @ Task_requested a r # us
    \<Longrightarrow> audit_request E None (request_event a ''requested'' True r []) (as_db s) = Inr db \<Longrightarrow>
    approval_step G s (goes_with s db (ts @ us))"
| exempt_run: "as_tasks s = ts @ Task_exempt a r # us \<Longrightarrow> getExecutor E G (aq_operationType r) = Inr ex
    \<Longrightarrow> run_executor ex r (ac_id a) (as_db s) = (res, db) \<Longrightarrow>
    approval_step G s ((goes_with s db (ts @ Task_exempt_ran a r res # us))
      \<lparr>as_exempt_runs := as_exempt_runs s @ [aq_id r]\<rparr>)"
| exempt_end: "as_tasks s = ts @ Task_exempt_ran a r res # us
    \<Longrightarrow> exempt_finish E a r res (as_db s) = (res', db) \<Longrightarrow>
    approval_step G s (goes_with s db (ts @ us))"
| check: "di_approve inp \<Longrightarrow> decide_check E inp (as_db s) = (res, db) \<Longrightarrow>
    approval_step G s (goes_with s db (as_tasks s @ goes_on res (Task_checked inp)))"
| permissions: "as_tasks s = ts @ Task_checked inp r # us
    \<Longrightarrow> decide_permissions E inp r (as_db s) = (res, db) \<Longrightarrow>
    approval_step G s (goes_with s db (ts @ goes_on res (\<lambda>_. Task_permitted inp r) @ us))"
| approved: "as_tasks s = ts @ Task_permitted inp r # us
    \<Longrightarrow> decide_claim E inp r (as_db s) = (res, db) \<Longrightarrow>
    approval_step G s (goes_with s db (ts @ goes_on res (Task_approved (di_approver inp)) @ us))"
| claim: "as_tasks s = ts @ Task_approved a r # us
    \<Longrightarrow> claim_execution E (aq_id r) (as_db s) = (res, db) \<Longrightarrow>
    approval_step G s (goes_with s db (ts @ goes_on res (Task_claimed a) @ us))"
| checks: "as_tasks s = ts @ Task_claimed a r # us \<Longrightarrow> getExecutor E G (aq_operationType r) = Inr ex
    \<Longrightarrow> execution_checks E ex r (as_db s) = (res, db) \<Longrightarrow>
    approval_step G s (goes_with s db
      (ts @ (case res of Inl e \<Rightarrow> Task_ran a r (Inl e) | Inr _ \<Rightarrow> Task_ready a r) # us))"
| run: "as_tasks s = ts @ Task_ready a r # us \<Longrightarrow> getExecutor E G (aq_operationType r) = Inr ex
    \<Longrightarrow> run_executor ex r (ac_id a) (as_db s) = (res, db) \<Longrightarrow>
    approval_step G s ((goes_with s db (ts @ Task_ran a r res # us))
      \<lparr>as_runs := as_runs s @ [(aq_id r, ac_id a)]\<rparr>)"
| finish: "as_tasks s = ts @ Task_ran a r res # us
    \<Longrightarrow> execution_finish E a r res (as_db s) = (res', db) \<Longrightarrow>
    approval_step G s (goes_with s db (ts @ us))"
| reject: "\<not> di_approve inp \<Longrightarrow> decideApprovalRequest E G inp (as_db s) = (res, db) \<Longrightarrow>
    approval_step G s (goes_with s db (as_tasks s))"
| cancel: "cancelApprovalRequest E i a reason (as_db s) = (res, db) \<Longrightarrow>
    approval_step G s (goes_with s db (as_tasks s))"
| reap: "reapStaleRequest E r (as_db s) = (r', db) \<Longrightarrow>
    approval_step G s (goes_with s db (as_tasks s))"
| outside: "approval_step G s (goes_with s ((as_db s)\<lparr>ad_world := w\<rparr>) (as_tasks s))"
| crash: "as_tasks s = ts @ t # us \<Longrightarrow> approval_step G s (goes_with s (as_db s) (ts @ us))"

definition approval_start :: "'x approval_world \<Rightarrow> 'x approval_system" where
  "approval_start w = \<lparr> as_db = \<lparr>ad_requests = [], ad_world = w\<rparr>, as_tasks = [], as_runs = [], as_exempt_runs = [] \<rparr>"

inductive approval_reach :: "'x approval_engines \<Rightarrow> 'x approval_system \<Rightarrow> bool" for G :: "'x approval_engines" where
  start: "approval_reach G (approval_start w)"
| step: "approval_reach G s \<Longrightarrow> approval_step G s s' \<Longrightarrow> approval_reach G s'"

subsection \<open>How the requests evolve\<close>

definition running :: "approval_request \<Rightarrow> bool" where
  "running r \<longleftrightarrow> aq_status r \<in> {Req_executing, Req_executed, Req_execution_failed}"

text \<open>
  What every update keeps: who asked, the risk, and, once the request is decided, who decided;
  a decided request never becomes pending.  \<open>quiet\<close> updates also keep a request running.
\<close>

definition keeps :: "approval_request \<Rightarrow> approval_request \<Rightarrow> bool" where
  "keeps r r' \<longleftrightarrow> aq_id r' = aq_id r \<and> aq_requesterId r' = aq_requesterId r \<and> aq_riskLevel r' = aq_riskLevel r
     \<and> (aq_status r \<noteq> Req_pending \<longrightarrow> aq_status r' \<noteq> Req_pending \<and> aq_approverId r' = aq_approverId r)"

definition quiet :: "approval_request \<Rightarrow> approval_request \<Rightarrow> bool" where
  "quiet r r' \<longleftrightarrow> keeps r r' \<and> (running r \<longrightarrow> running r')"

lemma quiet_refl [simp]: "quiet r r" and keeps_refl [simp]: "keeps r r"
  by (simp_all add: quiet_def keeps_def)

lemma quiet_trans: "quiet a b \<Longrightarrow> quiet b c \<Longrightarrow> quiet a c"
  by (simp add: quiet_def keeps_def)

definition evolves :: "(approval_request \<Rightarrow> approval_request \<Rightarrow> bool) \<Rightarrow> 'x approval_db \<Rightarrow> 'x approval_db \<Rightarrow> bool" where
  "evolves P db db' \<longleftrightarrow> list_all2 P (ad_requests db) (ad_requests db')"

lemma evolves_refl [simp]: "evolves quiet db db"
  by (simp add: evolves_def list_all2_refl)

lemma evolves_trans: "evolves quiet a b \<Longrightarrow> evolves quiet b c \<Longrightarrow> evolves quiet a c"
  unfolding evolves_def by (rule list_all2_trans [of quiet quiet quiet]) (rule quiet_trans)

lemma evolves_same: "ad_requests db' = ad_requests db \<Longrightarrow> evolves quiet db db'"
  by (simp add: evolves_def list_all2_refl)

lemma advance_requests:
  "ad_requests (snd (advance i st f db)) = ad_requests db
   \<or> ad_requests (snd (advance i st f db)) = update_one (at_status i st) f (ad_requests db)"
  by (auto simp: advance_def find_one_and_update_def split: option.splits)

lemma advance_evolves:
  assumes "\<And>r. at_status i st r \<Longrightarrow> P r (f r)" and "\<And>r. P r r"
  shows "evolves P db (snd (advance i st f db))"
  using advance_requests [of i st f db] list_all2_update_one [of P "at_status i st" f "ad_requests db"] assms
  by (auto simp: evolves_def list_all2_refl)

lemma found_updated: "find_one P rs = Some r \<Longrightarrow> f r \<in> set (update_one P f rs)"
  by (induction rs) (auto split: if_splits)

lemma advance_Some:
  assumes "advance i st f db = (Some r', db')"
  obtains r where "r \<in> set (ad_requests db)" "aq_id r = i" "aq_status r = st" "r' = f r" "f r \<in> set (ad_requests db')"
proof -
  from assms obtain r where r: "find_one (at_status i st) (ad_requests db) = Some r" "r' = f r"
    "ad_requests db' = update_one (at_status i st) f (ad_requests db)"
    by (auto simp: advance_def find_one_and_update_def split: option.splits)
  with r show ?thesis using that find_one_SomeD [OF r(1)] found_updated [OF r(1)] by (auto simp: at_status_def)
qed

lemma advance_stored: "advance i st f db = (Some r', db') \<Longrightarrow> r' \<in> set (ad_requests db')"
  by (erule advance_Some) simp

lemmas stage_defs = stamp_def decided_def expire_def time_out_def at_status_def keeps_def

lemma audit_request_same: "audit_request E c ev db = Inr db' \<Longrightarrow> ad_requests db' = ad_requests db"
  by (auto simp: audit_request_def split: sum.splits)

lemma run_executor_same: "run_executor ex r a db = (res, db') \<Longrightarrow> ad_requests db' = ad_requests db"
  by (auto simp: run_executor_def split: prod.splits)

lemma decides_quiet: "at_status i Req_pending r \<Longrightarrow> aq_id r' = aq_id r \<Longrightarrow> aq_requesterId r' = aq_requesterId r
  \<Longrightarrow> aq_riskLevel r' = aq_riskLevel r \<Longrightarrow> quiet r r'"
  by (simp add: quiet_def keeps_def at_status_def running_def)

lemma expire_quiet: "at_status i Req_pending r \<Longrightarrow> quiet r (expire E r)"
  by (erule decides_quiet) (simp_all add: stage_defs)

lemma approve_fields [simp]:
  "aq_id (approve_request E inp q) = aq_id q" "aq_requesterId (approve_request E inp q) = aq_requesterId q"
  "aq_riskLevel (approve_request E inp q) = aq_riskLevel q" "aq_status (approve_request E inp q) = Req_approved"
  "aq_approverId (approve_request E inp q) = Some (ac_id (di_approver inp))"
  by (simp_all add: approve_request_def stamp_def decided_def Let_def)

lemma approve_quiet: "at_status i Req_pending r \<Longrightarrow> quiet r (approve_request E inp r)"
  by (erule decides_quiet) simp_all

lemma runs_quiet:
  "aq_status r \<noteq> Req_pending \<Longrightarrow> aq_status r' \<in> {Req_executing, Req_executed, Req_execution_failed}
  \<Longrightarrow> aq_id r' = aq_id r \<Longrightarrow> aq_requesterId r' = aq_requesterId r \<Longrightarrow> aq_riskLevel r' = aq_riskLevel r
  \<Longrightarrow> aq_approverId r' = aq_approverId r \<Longrightarrow> quiet r r'"
  by (auto simp: quiet_def keeps_def running_def)

lemma reap_evolves: "evolves quiet db (snd (reapStaleRequest E r db))"
proof -
  have a: "evolves quiet db (snd (advance (aq_id r) Req_pending (expire E) db))"
    by (rule advance_evolves) (auto intro: expire_quiet)
  have b: "evolves quiet db (snd (advance (aq_id r) Req_executing (time_out E) db))"
    by (rule advance_evolves) (auto intro!: runs_quiet simp: stage_defs)
  from a b show ?thesis
    by (cases "advance (aq_id r) Req_pending (expire E) db"; cases "advance (aq_id r) Req_executing (time_out E) db")
      (simp add: reapStaleRequest_def split: option.splits)
qed

lemma list_all2_ids: "list_all2 keeps xs ys \<Longrightarrow> map aq_id ys = map aq_id xs"
  by (induction xs ys rule: list_all2_induct) (auto simp: keeps_def)

lemma quiet_keeps: "quiet r r' \<Longrightarrow> keeps r r'"
  by (simp add: quiet_def)

lemma evolves_keeps: "evolves quiet db db' \<Longrightarrow> evolves keeps db db'"
  by (auto simp: evolves_def intro: list_all2_mono quiet_keeps)

lemma evolves_ids: "evolves keeps db db' \<Longrightarrow> map aq_id (ad_requests db') = map aq_id (ad_requests db)"
  unfolding evolves_def by (rule list_all2_ids)

text \<open>The stages one by one.\<close>

definition stored :: "'x approval_db \<Rightarrow> (approval_request \<Rightarrow> bool) \<Rightarrow> bool" where
  "stored db P \<longleftrightarrow> (\<exists>r\<in>set (ad_requests db). P r)"

lemma stored_mono: "evolves Q db db' \<Longrightarrow> stored db P \<Longrightarrow> (\<And>r r'. Q r r' \<Longrightarrow> P r \<Longrightarrow> P' r') \<Longrightarrow> stored db' P'"
  unfolding stored_def evolves_def by (meson list_all2_stored)

lemma reap_stored:
  assumes "reapStaleRequest E r db = (r', db')" and "r \<in> set (ad_requests db)"
  shows "stored db' (\<lambda>q. aq_id q = aq_id r' \<and> aq_requesterId q = aq_requesterId r')"
proof -
  have ev: "evolves quiet db db'" using reap_evolves [of db E r] assms(1) by simp
  have same: "stored db' (\<lambda>q. aq_id q = aq_id r \<and> aq_requesterId q = aq_requesterId r)"
  proof (rule stored_mono [OF ev])
    show "stored db (\<lambda>x. x = r)" using assms(2) by (simp add: stored_def)
  qed (simp add: quiet_def keeps_def)
  have upd: "stored db' (\<lambda>q. aq_id q = aq_id r' \<and> aq_requesterId q = aq_requesterId r')"
    if "advance i st f db = (Some r', db')" for i st f
    using advance_stored [OF that] by (auto simp: stored_def)
  from assms(1) same upd show ?thesis
    by (auto simp: reapStaleRequest_def split: if_splits prod.splits option.splits)
qed

lemma decide_check_evolves:
  assumes "decide_check E inp db = (res, db')"
  shows "evolves quiet db db'"
proof -
  have "evolves quiet db d" if "reapStaleRequest E r db = (q, d)" for r q d
    using reap_evolves [of db E r] that by simp
  with assms show ?thesis
    by (simp add: decide_check_def split: if_splits sum.splits option.splits prod.splits)
qed

lemma decide_check_stored:
  assumes "decide_check E inp db = (Inr r, db')"
  shows "stored db' (\<lambda>q. aq_id q = aq_id r \<and> aq_requesterId q \<noteq> ac_id (di_approver inp))"
proof -
  from assms obtain r0 where r0: "find_doc_by_id E aq_id (di_requestId inp) (ad_requests db) = Inr (Some r0)"
    and reap: "reapStaleRequest E r0 db = (r, db')" and ne: "aq_requesterId r \<noteq> ac_id (di_approver inp)"
    by (auto simp: decide_check_def split: if_splits sum.splits option.splits prod.splits)
  have "r0 \<in> set (ad_requests db)"
    using r0 by (auto simp: find_doc_by_id_def dest!: find_one_SomeD split: if_splits)
  from reap_stored [OF reap this] ne show ?thesis by (auto simp: stored_def)
qed

lemma permissions_evolves:
  assumes "decide_permissions E inp r db = (res, db')"
  shows "evolves quiet db db'"
proof -
  have "evolves quiet db (snd (advance (aq_id r) Req_pending (\<lambda>q. stamp E Req_rejected ''auto_rejected'' None
      (Some ''requester_lost_permission'') (decided E (ac_id (di_approver inp)) (Some ''requester_lost_permission'') q)) db))"
    by (rule advance_evolves) (auto intro!: decides_quiet simp: stage_defs)
  with assms show ?thesis by (auto simp: decide_permissions_def split: sum.splits if_splits)
qed

lemma decide_claim_evolves:
  assumes "decide_claim E inp r db = (res, db')"
  shows "evolves quiet db db'"
proof -
  obtain c db1 where adv: "advance (aq_id r) Req_pending (approve_request E inp) db = (c, db1)" by fastforce
  have "evolves quiet db db1"
    using advance_evolves [of "aq_id r" Req_pending quiet "approve_request E inp" db] approve_quiet adv by (metis quiet_refl snd_conv)
  moreover have "ad_requests db' = ad_requests db1"
    using assms adv by (auto simp: decide_claim_def audit_request_same split: option.splits if_splits sum.splits)
  ultimately show ?thesis by (simp add: evolves_def)
qed

lemma decide_claim_stored:
  assumes "decide_claim E inp r db = (Inr c, db')"
  obtains q where "q \<in> set (ad_requests db)" "aq_id q = aq_id r" "aq_id c = aq_id r"
    "stored db' (\<lambda>p. aq_id p = aq_id q \<and> aq_requesterId p = aq_requesterId q \<and> aq_status p \<noteq> Req_pending
       \<and> aq_approverId p = Some (ac_id (di_approver inp)))"
proof -
  obtain c' db1 where adv: "advance (aq_id r) Req_pending (approve_request E inp) db = (c', db1)" by fastforce
  with assms have c: "c' = Some c" and same: "ad_requests db' = ad_requests db1"
    by (auto simp: decide_claim_def audit_request_same split: option.splits if_splits sum.splits)
  obtain q where q: "q \<in> set (ad_requests db)" "aq_id q = aq_id r"
    "c = approve_request E inp q" "approve_request E inp q \<in> set (ad_requests db1)"
    by (rule advance_Some [OF adv [unfolded c]])
  show thesis by (rule that [OF q(1,2)]) (use q same in \<open>auto simp: stored_def intro!: bexI [of _ "approve_request E inp q"]\<close>)
qed

lemma claim_evolves: "claim_execution E i db = (res, db') \<Longrightarrow> evolves quiet db db'"
proof -
  assume c: "claim_execution E i db = (res, db')"
  have "evolves quiet db (snd (advance i Req_approved (stamp E Req_executing ''executing'' None None) db))"
    by (rule advance_evolves) (auto intro!: runs_quiet simp: stage_defs)
  with c show ?thesis by (auto simp: claim_execution_def split: prod.splits option.splits)
qed

lemma claim_stored:
  assumes "claim_execution E i db = (Inr c, db')"
  obtains q where "q \<in> set (ad_requests db)" "aq_id q = i" "aq_status q = Req_approved" "aq_id c = i"
    "aq_requesterId c = aq_requesterId q" "aq_approverId c = aq_approverId q" "running c" "c \<in> set (ad_requests db')"
proof -
  from assms have "advance i Req_approved (stamp E Req_executing ''executing'' None None) db = (Some c, db')"
    by (auto simp: claim_execution_def split: prod.splits option.splits)
  then obtain q where "q \<in> set (ad_requests db)" "aq_id q = i" "aq_status q = Req_approved"
    "c = stamp E Req_executing ''executing'' None None q" "c \<in> set (ad_requests db')"
    using advance_stored by (auto elim: advance_Some)
  then show thesis by (intro that) (auto simp: stamp_def running_def)
qed

definition quiet_but :: "oid \<Rightarrow> approval_request \<Rightarrow> approval_request \<Rightarrow> bool" where
  "quiet_but i q q' \<longleftrightarrow> keeps q q' \<and> (aq_id q \<noteq> i \<longrightarrow> quiet q q')"

lemma checks_pass: "execution_checks E ex r db = (Inr u, db') \<Longrightarrow> db' = db"
  by (auto simp: execution_checks_def split: sum.splits if_splits)

lemma checks_evolve:
  assumes "execution_checks E ex r db = (res, db')"
  shows "evolves (quiet_but (aq_id r)) db db'"
proof -
  have "evolves (quiet_but (aq_id r)) db (snd (advance (aq_id r) Req_executing (stamp E Req_stale ''stale'' None None) db))"
    by (rule advance_evolves) (auto simp: quiet_but_def stage_defs)
  moreover have "evolves (quiet_but (aq_id r)) db db"
    by (simp add: evolves_def list_all2_refl quiet_but_def)
  ultimately show ?thesis using assms by (auto simp: execution_checks_def split: sum.splits if_splits)
qed

lemma execution_failed_evolves:
  assumes "execution_failed E a r e db = (res, db')"
  shows "evolves quiet db db'"
proof -
  let ?db1 = "snd (advance (aq_id r) Req_executing (\<lambda>r. (stamp E Req_execution_failed ''execution_failed'' None
      (Some (failure_message e)) r)\<lparr>aq_executionError := Some (failure_message e)\<rparr>) db)"
  have "evolves quiet db ?db1"
    by (rule advance_evolves) (auto intro!: runs_quiet simp: stage_defs)
  moreover have "ad_requests db' = ad_requests ?db1"
    using assms by (auto simp: execution_failed_def Let_def audit_request_same split: sum.splits)
  ultimately show ?thesis by (simp add: evolves_def)
qed

lemma finish_evolves:
  assumes "execution_finish E a r res db = (res', db')"
  shows "evolves quiet db db'"
proof (cases res)
  case (Inl e)
  with assms show ?thesis by (simp add: execution_finish_def execution_failed_evolves)
next
  case (Inr refs)
  let ?adv = "advance (aq_id r) Req_executing (\<lambda>r. (stamp E Req_executed ''executed'' (Some (ac_id a)) None r)
                 \<lparr>aq_executedAt := Some (now E), aq_resultRefs := refs\<rparr>) db"
  have ev: "evolves quiet db (snd ?adv)"
    by (rule advance_evolves) (auto intro!: runs_quiet simp: stage_defs)
  show ?thesis
  proof (cases "audit_request E None (request_event a ''executed'' True r []) (snd ?adv)")
    case (Inl e)
    with assms Inr have "execution_failed E a r e (snd ?adv) = (res', db')"
      by (simp add: execution_finish_def split: prod.splits)
    then show ?thesis using ev execution_failed_evolves evolves_trans by blast
  next
    case (Inr db2)
    with assms \<open>res = Inr refs\<close> have "ad_requests db' = ad_requests (snd ?adv)"
      by (auto simp: execution_finish_def audit_request_same split: prod.splits)
    with ev show ?thesis by (simp add: evolves_def)
  qed
qed

lemma update_request_evolves:
  assumes "\<And>r. quiet r (f r)"
  shows "evolves quiet db (snd (update_request i f db))"
proof -
  have "list_all2 quiet (ad_requests db) (update_one (\<lambda>r. aq_id r = i) f (ad_requests db))"
    by (rule list_all2_update_one) (simp_all add: assms)
  then show ?thesis
    by (auto simp: update_request_def evolves_def find_one_and_update_def list_all2_refl split: option.splits)
qed

lemma ends_quiet: "quiet r ((stamp E Req_execution_failed ev a m r)\<lparr>aq_executionError := x\<rparr>)"
  "quiet r ((stamp E Req_executed ev a m r)\<lparr>aq_executedAt := t, aq_resultRefs := refs\<rparr>)"
  by (simp_all add: quiet_def keeps_def running_def stamp_def)

lemma exempt_failed_evolves: "evolves quiet db (snd (exempt_failed E i e db))"
  by (simp add: exempt_failed_def update_request_evolves ends_quiet)

lemma exempt_finish_evolves:
  assumes "exempt_finish E a r res db = (res', db')"
  shows "evolves quiet db db'"
proof (cases res)
  case (Inl e)
  with assms exempt_failed_evolves [of db E "aq_id r" e] show ?thesis by (simp add: exempt_finish_def)
next
  case (Inr refs)
  let ?upd = "update_request (aq_id r) (\<lambda>r. (stamp E Req_executed ''exempt_executed'' (Some (ac_id a)) None r)
                 \<lparr>aq_executedAt := Some (now E), aq_resultRefs := refs\<rparr>) db"
  have ev: "evolves quiet db (snd ?upd)" by (simp add: update_request_evolves ends_quiet)
  show ?thesis
  proof (cases "audit_request E None (request_event a ''exempt_executed'' True r []) (snd ?upd)")
    case (Inl e)
    with assms Inr have "exempt_failed E (aq_id r) e (snd ?upd) = (res', db')"
      by (simp add: exempt_finish_def split: prod.splits)
    then show ?thesis using ev exempt_failed_evolves [of "snd ?upd" E "aq_id r" e] evolves_trans by simp
  next
    case (Inr db2)
    with assms \<open>res = Inr refs\<close> have "ad_requests db' = ad_requests (snd ?upd)"
      by (auto simp: exempt_finish_def audit_request_same split: prod.splits)
    with ev show ?thesis by (simp add: evolves_def)
  qed
qed

end
