(* ===== verification/Approval_Theorems.thy ===== *)
theory Approval_Theorems
  imports Approval_System
begin

text \<open>
  The guarantees of the approval workflow: four eyes and one execution under any interleaving,
  what an approval requires and does, and that an administrator always remains.
\<close>

subsection \<open>The remaining stages\<close>

lemma reject_evolves:
  assumes "reject_request E inp r db = (res, db')"
  shows "evolves quiet db db'"
proof -
  let ?adv = "advance (aq_id r) Req_pending (\<lambda>q. stamp E Req_rejected ''rejected'' (Some (ac_id (di_approver inp))) (di_reason inp)
             (decided E (ac_id (di_approver inp)) (di_reason inp) q)) db"
  have "evolves quiet db (snd ?adv)"
    by (rule advance_evolves) (auto intro!: decides_quiet simp: stage_defs)
  moreover have "ad_requests db' = ad_requests (snd ?adv)"
    using assms by (auto simp: reject_request_def Let_def audit_request_same split: prod.splits option.splits sum.splits)
  ultimately show ?thesis by (simp add: evolves_def)
qed

lemma reject_decision_evolves:
  assumes "\<not> di_approve inp" and "decideApprovalRequest E G inp db = (res, db')"
  shows "evolves quiet db db'"
proof -
  obtain c db1 where c: "decide_check E inp db = (c, db1)" by fastforce
  from decide_check_evolves [OF c] have ev: "evolves quiet db db1" .
  show ?thesis
  proof (cases c)
    case (Inl e)
    with assms c ev show ?thesis by (simp add: decideApprovalRequest_def)
  next
    case (Inr r)
    with assms c have "reject_request E inp r db1 = (res, db')" by (simp add: decideApprovalRequest_def)
    from evolves_trans [OF ev reject_evolves [OF this]] show ?thesis .
  qed
qed

lemma cancel_evolves:
  assumes "cancelApprovalRequest E i a reason db = (res, db')"
  shows "evolves quiet db db'"
proof (cases "find_doc_by_id E aq_id i (ad_requests db)")
  case (Inl e)
  with assms show ?thesis by (simp add: cancelApprovalRequest_def)
next
  case (Inr x)
  show ?thesis
  proof (cases x)
    case None
    with assms Inr show ?thesis by (simp add: cancelApprovalRequest_def)
  next
    case (Some r)
    obtain r' db1 where reap: "reapStaleRequest E r db = (r', db1)" by fastforce
    then have ev: "evolves quiet db db1" using reap_evolves [of db E r] by simp
    let ?adv = "advance (aq_id r') Req_pending (\<lambda>q. stamp E Req_cancelled ''cancelled'' (Some (ac_id a)) reason
                     (q\<lparr>aq_decisionReason := reason, aq_decidedAt := Some (now E)\<rparr>)) db1"
    have "evolves quiet db1 (snd ?adv)"
      by (rule advance_evolves) (auto intro!: decides_quiet simp: stage_defs)
    moreover have "ad_requests db' = ad_requests (snd ?adv) \<or> db' = db1"
      using assms Inr Some reap
      by (auto simp: cancelApprovalRequest_def audit_request_same split: if_splits prod.splits option.splits sum.splits)
    ultimately have "evolves quiet db1 db'" by (auto simp: evolves_def list_all2_refl)
    with ev show ?thesis by (rule evolves_trans)
  qed
qed

subsection \<open>The invariant of the interleaved system\<close>

fun checked_by :: "approval_task \<Rightarrow> (oid \<times> string) list" where
  "checked_by (Task_checked inp r) = [(aq_id r, ac_id (di_approver inp))]"
| "checked_by (Task_permitted inp r) = [(aq_id r, ac_id (di_approver inp))]"
| "checked_by t = []"

fun approving :: "approval_task \<Rightarrow> (oid \<times> string) list" where
  "approving (Task_approved a r) = [(aq_id r, ac_id a)]"
| "approving t = []"

fun holding :: "approval_task \<Rightarrow> (oid \<times> string) list" where
  "holding (Task_claimed a r) = [(aq_id r, ac_id a)]"
| "holding (Task_ready a r) = [(aq_id r, ac_id a)]"
| "holding t = []"

fun exempting :: "approval_task \<Rightarrow> oid list" where
  "exempting (Task_exempt a r) = [aq_id r]"
| "exempting t = []"

definition all_of :: "(approval_task \<Rightarrow> 'b list) \<Rightarrow> 'x approval_system \<Rightarrow> 'b list" where
  "all_of f s = concat (map f (as_tasks s))"

definition holders :: "'x approval_system \<Rightarrow> (oid \<times> string) list" where
  "holders s = all_of holding s @ as_runs s"

definition other_requester :: "'x approval_db \<Rightarrow> oid \<times> string \<Rightarrow> bool" where
  "other_requester db p \<longleftrightarrow> stored db (\<lambda>r. aq_id r = fst p \<and> aq_requesterId r \<noteq> snd p)"

definition approved_by :: "'x approval_db \<Rightarrow> oid \<times> string \<Rightarrow> bool" where
  "approved_by db p \<longleftrightarrow> stored db (\<lambda>r. aq_id r = fst p \<and> aq_requesterId r \<noteq> snd p \<and> aq_status r \<noteq> Req_pending
     \<and> aq_approverId r = Some (snd p))"

definition executing_for :: "'x approval_db \<Rightarrow> oid \<times> string \<Rightarrow> bool" where
  "executing_for db p \<longleftrightarrow> stored db (\<lambda>r. aq_id r = fst p \<and> aq_requesterId r \<noteq> snd p \<and> running r
     \<and> aq_approverId r = Some (snd p))"

definition low_risk :: "'x approval_db \<Rightarrow> oid \<Rightarrow> bool" where
  "low_risk db i \<longleftrightarrow> stored db (\<lambda>r. aq_id r = i \<and> aq_riskLevel r = Risk_standard)"

definition system_ok :: "'x approval_system \<Rightarrow> bool" where
  "system_ok s \<longleftrightarrow> distinct (map aq_id (ad_requests (as_db s)))
     \<and> list_all (other_requester (as_db s)) (all_of checked_by s)
     \<and> list_all (approved_by (as_db s)) (all_of approving s)
     \<and> distinct (map fst (holders s)) \<and> list_all (executing_for (as_db s)) (holders s)
     \<and> list_all (low_risk (as_db s)) (all_of exempting s @ as_exempt_runs s)"

text \<open>Each fact about a stored request survives a quiet update.\<close>

lemma running_not_pending: "running r \<Longrightarrow> aq_status r \<noteq> Req_pending"
  by (auto simp: running_def)

lemma other_requester_mono: "evolves keeps db db' \<Longrightarrow> other_requester db p \<Longrightarrow> other_requester db' p"
  unfolding other_requester_def by (erule (1) stored_mono) (auto simp: keeps_def)

lemma approved_by_mono: "evolves keeps db db' \<Longrightarrow> approved_by db p \<Longrightarrow> approved_by db' p"
  unfolding approved_by_def by (erule (1) stored_mono) (auto simp: keeps_def)

lemma executing_for_mono: "evolves quiet db db' \<Longrightarrow> executing_for db p \<Longrightarrow> executing_for db' p"
  unfolding executing_for_def
  by (erule (1) stored_mono) (auto simp: quiet_def keeps_def dest: running_not_pending)

lemma executing_for_but:
  "evolves (quiet_but i) db db' \<Longrightarrow> fst p \<noteq> i \<Longrightarrow> executing_for db p \<Longrightarrow> executing_for db' p"
  unfolding executing_for_def
  by (erule (1) stored_mono) (auto simp: quiet_but_def quiet_def keeps_def dest: running_not_pending)

lemma low_risk_mono: "evolves keeps db db' \<Longrightarrow> low_risk db i \<Longrightarrow> low_risk db' i"
  unfolding low_risk_def by (erule (1) stored_mono) (auto simp: keeps_def)

lemma stored_unique:
  assumes "distinct (map aq_id (ad_requests db))" and "stored db (\<lambda>r. aq_id r = i \<and> P r)"
    and "q \<in> set (ad_requests db)" and "aq_id q = i"
  shows "P q"
proof -
  from assms(2) obtain r where r: "r \<in> set (ad_requests db)" "aq_id r = i" "P r" by (auto simp: stored_def)
  with assms have "r = q" by (auto simp: distinct_map dest: inj_onD)
  with r show ?thesis by simp
qed

text \<open>The invariant under a quiet change: whatever is new must be justified.\<close>

lemma system_ok_quiet:
  assumes ok: "system_ok s" and ev: "evolves quiet (as_db s) (as_db s')"
    and "\<And>p. p \<in> set (all_of checked_by s') \<Longrightarrow> p \<in> set (all_of checked_by s) \<or> other_requester (as_db s') p"
    and "\<And>p. p \<in> set (all_of approving s') \<Longrightarrow> p \<in> set (all_of approving s) \<or> approved_by (as_db s') p"
    and "\<And>i. i \<in> set (all_of exempting s' @ as_exempt_runs s') \<Longrightarrow> i \<in> set (all_of exempting s @ as_exempt_runs s)"
    and "distinct (map fst (holders s'))"
    and "\<And>p. p \<in> set (holders s') \<Longrightarrow> p \<in> set (holders s) \<or> executing_for (as_db s') p"
  shows "system_ok s'"
proof -
  note k = evolves_keeps [OF ev]
  have old: "list_all (other_requester (as_db s')) (all_of checked_by s)"
    "list_all (approved_by (as_db s')) (all_of approving s)"
    "list_all (executing_for (as_db s')) (holders s)"
    "list_all (low_risk (as_db s')) (all_of exempting s @ as_exempt_runs s)"
    using ok k ev unfolding system_ok_def list_all_iff
    by (blast intro: other_requester_mono approved_by_mono executing_for_mono low_risk_mono)+
  have "distinct (map aq_id (ad_requests (as_db s')))"
    using ok evolves_ids [OF k] by (simp add: system_ok_def)
  then show ?thesis using assms(3-7) old unfolding system_ok_def list_all_iff by blast
qed

lemma all_of_goes [simp]:
  "all_of f (goes_with s db ts) = concat (map f ts)"
  "all_of f (s\<lparr>as_runs := x\<rparr>) = all_of f s" "all_of f (s\<lparr>as_exempt_runs := y\<rparr>) = all_of f s"
  "as_db (goes_with s db ts) = db" "as_runs (goes_with s db ts) = as_runs s"
  "as_exempt_runs (goes_with s db ts) = as_exempt_runs s" "as_tasks (goes_with s db ts) = ts"
  by (simp_all add: all_of_def goes_with_def)

lemma goes_on_simps [simp]: "goes_on (Inl e) t = []" "goes_on (Inr a) t = [t a]"
  by (simp_all add: goes_on_def)

lemma system_ok_insert:
  assumes ok: "system_ok s" and t: "as_tasks s = ts @ Task_insert a r # us"
    and c: "create_insert r (as_db s) = (res, db)" and new: "aq_id r \<notin> aq_id ` set (ad_requests (as_db s))"
  shows "system_ok (goes_with s db (ts @ goes_on res (if aq_riskLevel r = Risk_standard then Task_exempt a
      else Task_requested a) @ us))" (is "system_ok ?s'")
proof (cases res)
  case (Inl e)
  with c have "db = as_db s" by (auto simp: create_insert_def split: if_splits)
  then show ?thesis using ok t Inl
    by (intro system_ok_quiet [OF ok]) (auto simp: holders_def system_ok_def all_of_def)
next
  case (Inr q)
  with c have db: "ad_requests db = ad_requests (as_db s) @ [r]" "q = r"
    by (auto simp: create_insert_def split: if_splits)
  have mono: "stored (as_db s) P \<Longrightarrow> stored db P" for P by (auto simp: stored_def db)
  have "low_risk db (aq_id r)" if "aq_riskLevel r = Risk_standard"
    using that by (auto simp: low_risk_def stored_def db)
  then show ?thesis using ok new t Inr db mono
    by (auto simp: system_ok_def holders_def all_of_def list_all_iff other_requester_def approved_by_def
        executing_for_def low_risk_def)
qed

lemma system_ok_claim:
  assumes ok: "system_ok s" and t: "as_tasks s = ts @ Task_approved a r # us"
    and c: "claim_execution E (aq_id r) (as_db s) = (res, db)"
  shows "system_ok (goes_with s db (ts @ goes_on res (Task_claimed a) @ us))" (is "system_ok ?s'")
proof (cases res)
  case (Inl e)
  then show ?thesis using ok t claim_evolves [OF c]
    by (intro system_ok_quiet [OF ok]) (auto simp: holders_def system_ok_def all_of_def)
next
  case (Inr q)
  from claim_stored [OF c [unfolded Inr]] obtain p where p: "p \<in> set (ad_requests (as_db s))" "aq_id p = aq_id r"
    "aq_status p = Req_approved" "aq_id q = aq_id r" "aq_requesterId q = aq_requesterId p"
    "aq_approverId q = aq_approverId p" "running q" "q \<in> set (ad_requests db)" .
  have ids: "distinct (map aq_id (ad_requests (as_db s)))" using ok by (simp add: system_ok_def)
  have "approved_by (as_db s) (aq_id r, ac_id a)" using ok t by (simp add: system_ok_def all_of_def)
  then have "aq_requesterId p \<noteq> ac_id a \<and> aq_status p \<noteq> Req_pending \<and> aq_approverId p = Some (ac_id a)"
    using stored_unique [OF ids _ p(1,2)] by (simp add: approved_by_def)
  with p have new: "executing_for db (aq_id r, ac_id a)" by (auto simp: executing_for_def stored_def)
  have "\<not> executing_for (as_db s) (aq_id r, b)" for b
  proof
    assume "executing_for (as_db s) (aq_id r, b)"
    from stored_unique [OF ids this [unfolded executing_for_def fst_conv snd_conv] p(1,2)] p(3)
    show False by (simp add: running_def)
  qed
  then have fresh: "aq_id r \<notin> fst ` set (holders s)"
    using ok by (fastforce simp: system_ok_def list_all_iff)
  show ?thesis
    by (rule system_ok_quiet [OF ok])
      (use ok t Inr new fresh p(4) claim_evolves [OF c] in \<open>auto simp: holders_def system_ok_def all_of_def\<close>)
qed

lemma distinct_around:
  "distinct (map fst (as @ p # bs)) \<Longrightarrow> q \<in> set (as @ bs) \<Longrightarrow> q \<in> set (as @ p # bs) \<and> fst q \<noteq> fst p"
  by (auto simp: image_iff)

lemma system_ok_checks:
  assumes ok: "system_ok s" and t: "as_tasks s = ts @ Task_claimed a r # us"
    and c: "execution_checks E ex r (as_db s) = (res, db)"
  shows "system_ok (goes_with s db
    (ts @ (case res of Inl e \<Rightarrow> Task_ran a r (Inl e) | Inr _ \<Rightarrow> Task_ready a r) # us))" (is "system_ok ?s'")
proof (cases res)
  case (Inr u)
  with c checks_pass have "db = as_db s" by blast
  then show ?thesis using ok t Inr
    by (intro system_ok_quiet [OF ok]) (auto simp: holders_def system_ok_def all_of_def)
next
  case (Inl e)
  have but: "evolves (quiet_but (aq_id r)) (as_db s) db" using c by (rule checks_evolve)
  then have k: "evolves keeps (as_db s) db"
    by (auto simp: evolves_def quiet_but_def intro: list_all2_mono)
  have other: "p \<in> set (holders s) \<and> fst p \<noteq> aq_id r" if "p \<in> set (holders ?s')" for p
  proof -
    let ?as = "concat (map holding ts)" and ?bs = "concat (map holding us) @ as_runs s"
    have h: "holders s = ?as @ (aq_id r, ac_id a) # ?bs" "holders ?s' = ?as @ ?bs"
      using t Inl by (simp_all add: holders_def all_of_def)
    have "distinct (map fst (?as @ (aq_id r, ac_id a) # ?bs))"
      using ok unfolding system_ok_def h(1) by blast
    from distinct_around [OF this that [unfolded h]] show ?thesis unfolding h by simp
  qed
  show ?thesis
    unfolding system_ok_def list_all_iff
  proof (intro conjI ballI)
    show "executing_for (as_db ?s') p" if "p \<in> set (holders ?s')" for p
      using other [OF that] ok executing_for_but [OF but] by (simp add: system_ok_def list_all_iff)
    show "distinct (map fst (holders ?s'))"
      using ok t Inl by (auto simp: system_ok_def holders_def all_of_def)
    show "distinct (map aq_id (ad_requests (as_db ?s')))"
      using ok evolves_ids [OF k] by (simp add: system_ok_def)
  qed (use ok t Inl in \<open>auto simp: system_ok_def all_of_def list_all_iff intro!: other_requester_mono [OF k]
      approved_by_mono [OF k] low_risk_mono [OF k]\<close>)
qed

lemma system_ok_permissions:
  assumes ok: "system_ok s" and t: "as_tasks s = ts @ Task_checked inp r # us"
    and c: "decide_permissions E inp r (as_db s) = (res, db)"
  shows "system_ok (goes_with s db (ts @ goes_on res (\<lambda>_. Task_permitted inp r) @ us))"
  by (cases res; rule system_ok_quiet [OF ok])
    (use ok t permissions_evolves [OF c] in \<open>auto simp: holders_def system_ok_def all_of_def\<close>)

lemma system_ok_approved:
  assumes ok: "system_ok s" and t: "as_tasks s = ts @ Task_permitted inp r # us"
    and c: "decide_claim E inp r (as_db s) = (res, db)"
  shows "system_ok (goes_with s db (ts @ goes_on res (Task_approved (di_approver inp)) @ us))"
proof (cases res)
  case (Inl e)
  then show ?thesis using ok t decide_claim_evolves [OF c]
    by (intro system_ok_quiet [OF ok]) (auto simp: holders_def system_ok_def all_of_def)
next
  case (Inr q)
  from decide_claim_stored [OF c [unfolded Inr]] obtain p where p: "p \<in> set (ad_requests (as_db s))"
    "aq_id p = aq_id r" "aq_id q = aq_id r" and st: "stored db (\<lambda>x. aq_id x = aq_id p \<and> aq_requesterId x = aq_requesterId p
       \<and> aq_status x \<noteq> Req_pending \<and> aq_approverId x = Some (ac_id (di_approver inp)))" .
  have ids: "distinct (map aq_id (ad_requests (as_db s)))" using ok by (simp add: system_ok_def)
  have "other_requester (as_db s) (aq_id r, ac_id (di_approver inp))" using ok t by (simp add: system_ok_def all_of_def)
  then have "aq_requesterId p \<noteq> ac_id (di_approver inp)"
    using stored_unique [OF ids _ p(1,2)] by (simp add: other_requester_def)
  then have "approved_by db (aq_id q, ac_id (di_approver inp))"
    using st p by (auto simp: approved_by_def stored_def)
  then show ?thesis using ok t Inr decide_claim_evolves [OF c]
    by (intro system_ok_quiet [OF ok]) (auto simp: holders_def system_ok_def all_of_def)
qed

lemma system_ok_check:
  assumes ok: "system_ok s" and c: "decide_check E inp (as_db s) = (res, db)"
  shows "system_ok (goes_with s db (as_tasks s @ goes_on res (Task_checked inp)))"
proof (cases res)
  case (Inl e)
  then show ?thesis using ok decide_check_evolves [OF c]
    by (intro system_ok_quiet [OF ok]) (auto simp: holders_def system_ok_def all_of_def)
next
  case (Inr r)
  from decide_check_stored [OF c [unfolded Inr]]
  have "other_requester db (aq_id r, ac_id (di_approver inp))" by (simp add: other_requester_def)
  then show ?thesis using ok Inr decide_check_evolves [OF c]
    by (intro system_ok_quiet [OF ok]) (auto simp: holders_def system_ok_def all_of_def)
qed

lemma system_ok_passive:
  assumes ok: "system_ok s" and ev: "evolves quiet (as_db s) db"
    and f: "set ts \<subseteq> set (as_tasks s)" and d: "distinct (map fst (concat (map holding ts) @ as_runs s))"
  shows "system_ok (goes_with s db ts)"
  by (rule system_ok_quiet [OF ok]) (use ev f d in \<open>auto simp: holders_def all_of_def\<close>)

lemma distinct_without: "distinct (as @ bs @ cs) \<Longrightarrow> distinct (as @ cs)"
  by auto

lemma holders_remove:
  assumes "system_ok s" and "as_tasks s = ts @ t # us"
  shows "distinct (map fst (concat (map holding (ts @ us)) @ as_runs s))"
proof -
  have "distinct (map fst (concat (map holding ts)) @ map fst (holding t)
      @ map fst (concat (map holding us)) @ map fst (as_runs s))"
    using assms(1) unfolding system_ok_def holders_def all_of_def assms(2) by (simp only: map_append concat_append
        list.map concat.simps append_assoc)
  from distinct_without [OF this] show ?thesis by (simp only: map_append concat_append append_assoc)
qed

lemma system_ok_end:
  assumes "system_ok s" and "as_tasks s = ts @ t # us" and "evolves quiet (as_db s) db"
  shows "system_ok (goes_with s db (ts @ us))"
  by (rule system_ok_passive [OF assms(1,3) _ holders_remove [OF assms(1,2)]]) (use assms(2) in \<open>auto simp: all_of_def\<close>)

lemma system_ok_stay:
  assumes "system_ok s" and "evolves quiet (as_db s) db"
  shows "system_ok (goes_with s db (as_tasks s))"
  by (rule system_ok_passive [OF assms]) (use assms(1) in \<open>auto simp: all_of_def system_ok_def holders_def\<close>)

lemma approval_step_ok:
  assumes "approval_step G s s'" and "system_ok s"
  shows "system_ok s'"
  using assms
proof (induction rule: approval_step.induct)
  case (prepare E inp s ex p v)
  then show ?case by (intro system_ok_quiet [OF prepare(2)]) (auto simp: holders_def system_ok_def all_of_def)
next
  case (insert s ts a r us res db)
  from system_ok_insert [OF insert(4,1,2,3)] show ?case .
next
  case (requested s ts a r us E db)
  then show ?case by (blast intro: system_ok_end evolves_same audit_request_same)
next
  case (exempt_run s ts a r us E ex res db)
  then show ?case using evolves_same [OF run_executor_same [OF exempt_run(3)]]
    by (intro system_ok_quiet [OF exempt_run(4)])
      (auto simp: holders_def system_ok_def all_of_def)
next
  case (exempt_end s ts a r res us E res' db)
  then show ?case by (blast intro: system_ok_end exempt_finish_evolves)
next
  case (check inp E s res db)
  from system_ok_check [OF check(3,2)] show ?case .
next
  case (permissions s ts inp r us E res db)
  from system_ok_permissions [OF permissions(3,1,2)] show ?case .
next
  case (approved s ts inp r us E res db)
  from system_ok_approved [OF approved(3,1,2)] show ?case .
next
  case (claim s ts a r us E res db)
  from system_ok_claim [OF claim(3,1,2)] show ?case .
next
  case (checks s ts a r us E ex res db)
  from system_ok_checks [OF checks(4,1,3)] show ?case .
next
  case (run s ts a r us E ex res db)
  then show ?case using evolves_same [OF run_executor_same [OF run(3)]]
    by (intro system_ok_quiet [OF run(4)])
      (auto simp: holders_def system_ok_def all_of_def)
next
  case (finish s ts a r res us E res' db)
  then show ?case by (blast intro: system_ok_end finish_evolves)
next
  case (reject inp E s res db)
  then show ?case by (blast intro: system_ok_stay reject_decision_evolves)
next
  case (cancel E i a reason s res db)
  then show ?case by (blast intro: system_ok_stay cancel_evolves)
next
  case (reap E r s r' db)
  then show ?case using reap_evolves [of "as_db s" E r] by (auto intro: system_ok_stay)
next
  case (outside s w)
  then show ?case by (intro system_ok_stay evolves_same) simp_all
next
  case (crash s ts t us)
  then show ?case by (intro system_ok_end) simp_all
qed

lemma approval_reach_ok: "approval_reach G s \<Longrightarrow> system_ok s"
proof (induction rule: approval_reach.induct)
  case (start w)
  show ?case by (simp add: approval_start_def system_ok_def holders_def all_of_def)
next
  case (step s s')
  then show ?case by (blast intro: approval_step_ok)
qed

end
