(* ===== verification/Approval_Properties.thy ===== *)
theory Approval_Properties
  imports Approval_Theorems
begin

text \<open>
  The properties of the approval workflow, with a scheduler that runs chosen stages of concurrent
  calls, so that concrete interleavings can be computed.
\<close>

subsection \<open>Running an interleaving\<close>

datatype approval_move = Move_prepare create_request_input | Move_check decide_input | Move_task nat

definition task_stage ::
  "approval_env \<Rightarrow> 'x approval_engines \<Rightarrow> 'x approval_system \<Rightarrow> approval_task \<Rightarrow> ('x approval_db \<times> approval_task list \<times> (oid \<times> string) list) option" where
  "task_stage E G s t = (let db = as_db s in
     case t of
       Task_insert a r \<Rightarrow> (if aq_id r \<in> aq_id ` set (ad_requests db) then None
         else case create_insert r db of (res, db') \<Rightarrow>
           Some (db', goes_on res (if aq_riskLevel r = Risk_standard then Task_exempt a else Task_requested a), []))
     | Task_checked inp r \<Rightarrow> (case decide_permissions E inp r db of (res, db') \<Rightarrow>
           Some (db', goes_on res (\<lambda>_. Task_permitted inp r), []))
     | Task_permitted inp r \<Rightarrow> (case decide_claim E inp r db of (res, db') \<Rightarrow>
           Some (db', goes_on res (Task_approved (di_approver inp)), []))
     | Task_approved a r \<Rightarrow> (case claim_execution E (aq_id r) db of (res, db') \<Rightarrow>
           Some (db', goes_on res (Task_claimed a), []))
     | Task_claimed a r \<Rightarrow> (case getExecutor E G (aq_operationType r) of Inl e \<Rightarrow> None | Inr ex \<Rightarrow>
           (case execution_checks E ex r db of (res, db') \<Rightarrow>
              Some (db', [case res of Inl e \<Rightarrow> Task_ran a r (Inl e) | Inr _ \<Rightarrow> Task_ready a r], [])))
     | Task_ready a r \<Rightarrow> (case getExecutor E G (aq_operationType r) of Inl e \<Rightarrow> None | Inr ex \<Rightarrow>
           (case run_executor ex r (ac_id a) db of (res, db') \<Rightarrow>
              Some (db', [Task_ran a r res], [(aq_id r, ac_id a)])))
     | Task_ran a r res \<Rightarrow> (case execution_finish E a r res db of (res', db') \<Rightarrow> Some (db', [], []))
     | _ \<Rightarrow> None)"

definition make_move ::
  "'x approval_engines \<Rightarrow> approval_env \<times> approval_move \<Rightarrow> 'x approval_system \<Rightarrow> 'x approval_system option" where
  "make_move G m s = (case m of (E, mv) \<Rightarrow> (case mv of
       Move_prepare inp \<Rightarrow> (case create_prepare E G inp (ad_world (as_db s)) of Inl e \<Rightarrow> None
         | Inr (ex, p, v) \<Rightarrow> Some (goes_with s (as_db s)
             (as_tasks s @ [Task_insert (cq_requester inp) (new_request E inp (ex_targetType ex) p v)])))
     | Move_check inp \<Rightarrow> (if di_approve inp then
         (case decide_check E inp (as_db s) of (res, db) \<Rightarrow>
            Some (goes_with s db (as_tasks s @ goes_on res (Task_checked inp)))) else None)
     | Move_task n \<Rightarrow> (if n < length (as_tasks s) then
         (case task_stage E G s (as_tasks s ! n) of None \<Rightarrow> None
          | Some (db, new, runs) \<Rightarrow> Some ((goes_with s db (take n (as_tasks s) @ new @ drop (Suc n) (as_tasks s)))
              \<lparr>as_runs := as_runs s @ runs\<rparr>)) else None)))"

fun make_moves ::
  "'x approval_engines \<Rightarrow> (approval_env \<times> approval_move) list \<Rightarrow> 'x approval_system \<Rightarrow> 'x approval_system option" where
  "make_moves G [] s = Some s"
| "make_moves G (m # ms) s = (case make_move G m s of None \<Rightarrow> None | Some s' \<Rightarrow> make_moves G ms s')"

lemma no_more_runs [simp]: "(goes_with s db ts)\<lparr>as_runs := as_runs s\<rparr> = goes_with s db ts"
  by (simp add: goes_with_def)

lemma task_stage_sound:
  assumes t: "as_tasks s = ts @ t # us" and st: "task_stage E G s t = Some (db, new, runs)"
  shows "approval_step G s ((goes_with s db (ts @ new @ us))\<lparr>as_runs := as_runs s @ runs\<rparr>)"
proof (cases t)
  case (Task_insert a r)
  then show ?thesis using st t approval_step.insert [of s ts a r us]
    by (auto simp: task_stage_def Let_def split: if_splits prod.splits)
next
  case (Task_checked inp r)
  then show ?thesis using st t approval_step.permissions [of s ts inp r us E]
    by (auto simp: task_stage_def Let_def split: prod.splits)
next
  case (Task_permitted inp r)
  then show ?thesis using st t approval_step.approved [of s ts inp r us E]
    by (auto simp: task_stage_def Let_def split: prod.splits)
next
  case (Task_approved a r)
  then show ?thesis using st t approval_step.claim [of s ts a r us E]
    by (auto simp: task_stage_def Let_def split: prod.splits)
next
  case (Task_claimed a r)
  then show ?thesis using st t approval_step.checks [of s ts a r us E G]
    by (cases "getExecutor E G (aq_operationType r)") (auto simp: task_stage_def Let_def split: prod.splits)
next
  case (Task_ready a r)
  then show ?thesis using st t approval_step.run [of s ts a r us E G]
    by (auto simp: task_stage_def Let_def split: prod.splits sum.splits)
next
  case (Task_ran a r res)
  then show ?thesis using st t approval_step.finish [of s ts a r res us E]
    by (auto simp: task_stage_def Let_def split: prod.splits)
qed (use st in \<open>simp_all add: task_stage_def Let_def\<close>)

lemma make_move_sound:
  assumes "make_move G m s = Some s'"
  shows "approval_step G s s'"
proof -
  obtain E mv where m: "m = (E, mv)" by (cases m)
  show ?thesis
  proof (cases mv)
    case (Move_prepare inp)
    then show ?thesis using assms m approval_step.prepare [of E G inp s]
      by (auto simp: make_move_def split: sum.splits)
  next
    case (Move_check inp)
    then show ?thesis using assms m approval_step.check [of inp E s]
      by (auto simp: make_move_def split: prod.splits if_splits)
  next
    case (Move_task n)
    then obtain db new runs where n: "n < length (as_tasks s)" and st: "task_stage E G s (as_tasks s ! n) = Some (db, new, runs)"
      and s': "s' = (goes_with s db (take n (as_tasks s) @ new @ drop (Suc n) (as_tasks s)))\<lparr>as_runs := as_runs s @ runs\<rparr>"
      using assms m by (auto simp: make_move_def split: if_splits option.splits)
    from task_stage_sound [OF id_take_nth_drop [OF n] st] s' show ?thesis by simp
  qed
qed

lemma make_moves_reach: "make_moves G ms s = Some s' \<Longrightarrow> approval_reach G s \<Longrightarrow> approval_reach G s'"
  by (induction ms arbitrary: s) (auto split: option.splits dest: make_move_sound intro: approval_reach.step)

subsection \<open>Four eyes, once\<close>

text \<open>
  C30. Under any interleaving of concurrent approval calls, each approved request is executed at most
  once; whoever an execution is made for is the stored approver of the request and not its
  requester, and the request is then executing, executed or failed.  The only other executions are
  those of requests of standard risk.
\<close>

theorem approved_by_another:
  assumes "approval_reach G s"
  shows "distinct (map fst (as_runs s))
    \<and> list_all (\<lambda>(i, a). list_ex (\<lambda>r. aq_id r = i \<and> aq_approverId r = Some a \<and> aq_requesterId r \<noteq> a
         \<and> aq_status r \<in> {Req_executing, Req_executed, Req_execution_failed}) (ad_requests (as_db s))) (as_runs s)
    \<and> list_all (\<lambda>i. list_ex (\<lambda>r. aq_id r = i \<and> aq_riskLevel r = Risk_standard) (ad_requests (as_db s))) (as_exempt_runs s)"
proof -
  note ok = approval_reach_ok [OF assms, unfolded system_ok_def holders_def]
  have "list_all (executing_for (as_db s)) (as_runs s)" and "list_all (low_risk (as_db s)) (as_exempt_runs s)"
    and "distinct (map fst (as_runs s))"
    using ok by auto
  then show ?thesis
    by (auto simp: list_all_iff list_ex_iff executing_for_def low_risk_def stored_def running_def; fastforce)
qed

subsection \<open>Two administrators demote each other\<close>

definition ap_env :: "oid \<Rightarrow> time \<Rightarrow> approval_env" where
  "ap_env i t = \<lparr> now = t, valid_oid = (\<lambda>_. True), tamper_ok = (\<lambda>_. True), auditlog_ok = True, critical_cfg = None,
     commit_fault = None, ae_ttlHours = 72, ae_newId = i, ae_num = (\<lambda>_. []) \<rparr>"

definition demo_engines :: "unit approval_engines" where
  "demo_engines = \<lparr> en_previewRemediation = (\<lambda>t a w. Inr (J_null, J_null)),
     en_remediateDiscrepancy = (\<lambda>t a p n w. (Inr (None, None), w)),
     en_previewRepair = (\<lambda>t w. Inl (Other_error [])), en_applyRepair = (\<lambda>t p w. (Inl (Other_error []), w)) \<rparr>"

definition demo_world :: "unit approval_world" where
  "demo_world = \<lparr> aw_users = [\<lparr>av_id = ''a1'', av_role = ''admin'', av_updatedAt = 0\<rparr>,
       \<lparr>av_id = ''a2'', av_role = ''admin'', av_updatedAt = 0\<rparr>, \<lparr>av_id = ''d1'', av_role = ''driver'', av_updatedAt = 0\<rparr>],
     aw_discrepancies = [], aw_findings = [], aw_audits = [], aw_other = () \<rparr>"

definition demo_create :: "string \<Rightarrow> string \<Rightarrow> string \<Rightarrow> create_request_input" where
  "demo_create requester target role = \<lparr> cq_operationType = ''user.role_reassign'', cq_targetId = target,
     cq_rawCommand = J_object [(''role'', J_string role)], cq_requester = \<lparr>ac_id = requester, ac_role = ''admin''\<rparr>,
     cq_reason = ''left the team'' \<rparr>"

definition demo_decide :: "string \<Rightarrow> string \<Rightarrow> decide_input" where
  "demo_decide i approver = \<lparr> di_requestId = i, di_approve = True, di_approver = \<lparr>ac_id = approver, ac_role = ''admin''\<rparr>,
     di_reason = None, di_emergencyOverride = False, di_emergencyOverrideReason = None \<rparr>"

definition demo_promotion :: "(approval_env \<times> approval_move) list" where
  "demo_promotion = [(ap_env ''r1'' 10, Move_prepare (demo_create ''a1'' ''d1'' ''admin'')), (ap_env [] 11, Move_task 0),
     (ap_env [] 20, Move_check (demo_decide ''r1'' ''a2'')), (ap_env [] 21, Move_task 1), (ap_env [] 22, Move_task 1),
     (ap_env [] 23, Move_task 1), (ap_env [] 24, Move_task 1), (ap_env [] 25, Move_task 1), (ap_env [] 26, Move_task 1)]"

lemma demo_promotion_runs:
  "map_option (\<lambda>s. (as_runs s, map aq_status (ad_requests (as_db s)), map av_role (aw_users (ad_world (as_db s)))))
     (make_moves demo_engines demo_promotion (approval_start demo_world))
   = Some ([(''r1'', ''a2'')], [Req_executed], [''admin'', ''admin'', ''admin''])"
  by code_simp

theorem approved_by_another_witness:
  "\<exists>s. approval_reach demo_engines s \<and> as_runs s = [(''r1'', ''a2'')]
    \<and> list_ex (\<lambda>r. aq_id r = ''r1'' \<and> aq_approverId r = Some ''a2'' \<and> aq_requesterId r \<noteq> ''a2''
         \<and> aq_status r \<in> {Req_executing, Req_executed, Req_execution_failed}) (ad_requests (as_db s))"
proof -
  obtain s where s: "make_moves demo_engines demo_promotion (approval_start demo_world) = Some s"
    "as_runs s = [(''r1'', ''a2'')]"
    using demo_promotion_runs by auto
  have "approval_reach demo_engines s" by (rule make_moves_reach [OF s(1) approval_reach.start])
  with approved_by_another [OF this] s(2) show ?thesis by auto
qed

text \<open>
  Two requests, each to demote the other administrator, pass their checks before either is executed:
  the rule that one administrator must remain is checked too early, and none remains.
\<close>

definition demo_race :: "(approval_env \<times> approval_move) list" where
  "demo_race = [(ap_env ''r1'' 10, Move_prepare (demo_create ''a1'' ''a2'' ''driver'')), (ap_env [] 11, Move_task 0),
     (ap_env ''r2'' 12, Move_prepare (demo_create ''a2'' ''a1'' ''driver'')), (ap_env [] 13, Move_task 1),
     (ap_env [] 20, Move_check (demo_decide ''r1'' ''a2'')), (ap_env [] 20, Move_check (demo_decide ''r2'' ''a1'')),
     (ap_env [] 21, Move_task 2), (ap_env [] 21, Move_task 3), (ap_env [] 22, Move_task 2), (ap_env [] 22, Move_task 3),
     (ap_env [] 23, Move_task 2), (ap_env [] 23, Move_task 3), (ap_env [] 24, Move_task 2), (ap_env [] 24, Move_task 3),
     (ap_env [] 25, Move_task 2), (ap_env [] 25, Move_task 3), (ap_env [] 26, Move_task 2), (ap_env [] 26, Move_task 2)]"

lemma demo_race_runs:
  "map_option (\<lambda>s. (map aq_status (ad_requests (as_db s)), admin_count (ad_world (as_db s))))
     (make_moves demo_engines demo_race (approval_start demo_world)) = Some ([Req_executed, Req_executed], 0)"
  by code_simp

lemma concurrent_demotions_leave_no_admin:
  "\<exists>s. approval_reach demo_engines s \<and> admin_count (ad_world (as_db s)) = 0"
proof -
  obtain s where s: "make_moves demo_engines demo_race (approval_start demo_world) = Some s"
    "admin_count (ad_world (as_db s)) = 0"
    using demo_race_runs by auto
  from make_moves_reach [OF s(1) approval_reach.start] s(2) show ?thesis by blast
qed

subsection \<open>Operations that stop halfway\<close>

text \<open>
  An emergency approval whose audit entry cannot be written leaves the request approved: nobody can
  execute, cancel or expire it, and the target accepts no other request.
\<close>

definition demo_failing :: "oid \<Rightarrow> time \<Rightarrow> approval_env" where
  "demo_failing i t = (ap_env i t)\<lparr>tamper_ok := (\<lambda>_. False)\<rparr>"

definition demo_start :: "unit approval_db" where
  "demo_start = \<lparr>ad_requests = [], ad_world = demo_world\<rparr>"

definition ap_db :: "unit approval_db" where
  "ap_db = snd (createApprovalRequest (ap_env ''r1'' 10) demo_engines (demo_create ''a1'' ''d1'' ''admin'')
     demo_start)"

definition demo_override :: decide_input where
  "demo_override = (demo_decide ''r1'' ''a2'')\<lparr>di_emergencyOverride := True,
     di_emergencyOverrideReason := Some ''the only other administrator is ill''\<rparr>"

lemma override_audit_failure_blocks_target:
  "(case decideApprovalRequest (demo_failing [] 20) demo_engines demo_override ap_db of (res, db) \<Rightarrow>
      res = Inl (Other_error ''CRITICAL_AUDIT_FAILURE'') \<and> map aq_status (ad_requests db) = [Req_approved]
      \<and> (let E = ap_env ''r2'' 999999999 in
         fst (cancelApprovalRequest E ''r1'' \<lparr>ac_id = ''a1'', ac_role = ''admin''\<rparr> None db)
           = Inl (Approval_error Ap_not_pending ''Approval request is approved.'')
         \<and> map aq_status (ad_requests (snd (getApprovalRequestById E ''r1'' db))) = [Req_approved]
         \<and> fst (createApprovalRequest E demo_engines (demo_create ''a1'' ''d1'' ''admin'') db)
           = Inl (Approval_error Ap_already_in_flight ''An approval request is already in flight for this target.'')))"
  by code_simp

text \<open>
  A change of low risk that was carried out is reported as failed when its audit entry cannot be
  written: the user has the new role.
\<close>

lemma exempt_change_reported_failed:
  "(case createApprovalRequest ((ap_env ''r1'' 10)\<lparr>tamper_ok := (\<lambda>ev. ev_action ev = ''user.role_reassign'')\<rparr>)
       demo_engines (demo_create ''a1'' ''d1'' ''investor'') demo_start of (res, db) \<Rightarrow>
     res = Inl (Other_error ''CRITICAL_AUDIT_FAILURE'') \<and> map aq_status (ad_requests db) = [Req_execution_failed]
     \<and> map av_role (aw_users (ad_world db)) = [''admin'', ''admin'', ''investor''])"
  by code_simp

subsection \<open>What an approval needs and does\<close>

lemma advance_unique:
  assumes d: "distinct (map aq_id (ad_requests db))" and r: "r \<in> set (ad_requests db)"
    and a: "advance (aq_id r) st f db = (Some c, db')" and f: "\<And>q. aq_id (f q) = aq_id q"
  shows "aq_status r = st \<and> c = f r \<and> c \<in> set (ad_requests db') \<and> distinct (map aq_id (ad_requests db'))
    \<and> ad_world db' = ad_world db"
proof -
  obtain q where q: "q \<in> set (ad_requests db)" "aq_id q = aq_id r" "aq_status q = st" "c = f q" "c \<in> set (ad_requests db')"
    by (rule advance_Some [OF a]) auto
  with d r have "q = r" by (auto simp: distinct_map dest: inj_onD)
  moreover have "map aq_id (update_one (at_status (aq_id r) st) f (ad_requests db)) = map aq_id (ad_requests db)"
    by (rule update_one_keys) (rule f)
  moreover have "ad_world db' = ad_world db"
    and "ad_requests db' = ad_requests db \<or> ad_requests db' = update_one (at_status (aq_id r) st) f (ad_requests db)"
    using a by (auto simp: advance_def find_one_and_update_def split: option.splits)
  ultimately show ?thesis using q d by metis
qed

lemma stamp_id [simp]: "aq_id (stamp E st ev a m r) = aq_id r"
  by (simp add: stamp_def)

lemma approve_keeps [simp]:
  "aq_operationType (approve_request E inp q) = aq_operationType q" "aq_targetId (approve_request E inp q) = aq_targetId q"
  "aq_resourceVersion (approve_request E inp q) = aq_resourceVersion q" "aq_proposedCommand (approve_request E inp q) = aq_proposedCommand q"
  by (simp_all add: approve_request_def stamp_def decided_def Let_def)

lemma pending_reaped:
  assumes "reapStaleRequest E r db = (r', db')" and "aq_status r' = Req_pending"
  shows "r' = r \<and> ad_world db' = ad_world db \<and> (aq_expiresAt r \<le> now E \<longrightarrow> (\<forall>q\<in>set (ad_requests db). \<not> at_status (aq_id r) Req_pending q))
    \<and> (now E < aq_expiresAt r \<longrightarrow> db' = db)"
  using assms
  by (auto simp: reapStaleRequest_def advance_def find_one_and_update_def expire_def time_out_def stamp_def find_None_iff
      split: if_splits prod.splits option.splits)

lemma decide_check_facts:
  assumes c: "decide_check E inp db = (Inr r, db')"
  shows "find_one (\<lambda>q. aq_id q = di_requestId inp) (ad_requests db) = Some r \<and> db' = db \<and> aq_status r = Req_pending
    \<and> now E < aq_expiresAt r \<and> ac_role (di_approver inp) = ''admin'' \<and> aq_requesterId r \<noteq> ac_id (di_approver inp)"
proof -
  from c obtain r0 where f: "find_one (\<lambda>q. aq_id q = di_requestId inp) (ad_requests db) = Some r0"
    and reap: "reapStaleRequest E r0 db = (r, db')" and p: "aq_status r = Req_pending"
    and rest: "ac_role (di_approver inp) = ''admin''" "aq_requesterId r \<noteq> ac_id (di_approver inp)"
    by (auto simp: decide_check_def find_doc_by_id_def split: if_splits option.splits prod.splits)
  note pr = pending_reaped [OF reap p]
  have "at_status (aq_id r0) Req_pending r0" "r0 \<in> set (ad_requests db)"
    using pr p find_one_SomeD [OF f] by (auto simp: at_status_def)
  then have "now E < aq_expiresAt r0" using pr by force
  with pr f p rest show ?thesis by simp
qed

lemma execution_success:
  assumes x: "executeClaimedRequest E G c a db = (Inr r', db')"
    and d: "distinct (map aq_id (ad_requests db))" and c: "c \<in> set (ad_requests db)"
  shows "\<exists>ex refs w. getExecutor E G (aq_operationType c) = Inr ex
    \<and> ex_loadResourceVersion ex (aq_targetId c) (ad_world db) = Inr (aq_resourceVersion c)
    \<and> ex_revalidate ex (aq_targetId c) (aq_proposedCommand c) (ad_world db) = Inr ()
    \<and> ex_execute ex (aq_targetId c) (aq_proposedCommand c) (ac_id a) (aq_requesterId c) (ad_world db) = (Inr refs, w)
    \<and> aw_users (ad_world db') = aw_users w
    \<and> aq_status r' = Req_executed \<and> aq_resultRefs r' = refs \<and> aq_approverId r' = aq_approverId c
    \<and> aq_requesterId r' = aq_requesterId c \<and> aq_id r' = aq_id c \<and> r' \<in> set (ad_requests db')"
proof -
  from x obtain ex c1 db1 db2 res db3 where ex: "getExecutor E G (aq_operationType c) = Inr ex"
    and cl: "claim_execution E (aq_id c) db = (Inr c1, db1)" and ch: "execution_checks E ex c1 db1 = (Inr (), db2)"
    and run: "run_executor ex c1 (ac_id a) db2 = (res, db3)" and fin: "execution_finish E a c1 res db3 = (Inr r', db')"
    by (auto simp: executeClaimedRequest_def execution_failed_def Let_def split: sum.splits prod.splits)
  have adv: "advance (aq_id c) Req_approved (stamp E Req_executing ''executing'' None None) db = (Some c1, db1)"
    using cl by (auto simp: claim_execution_def split: prod.splits option.splits)
  note a1 = advance_unique [OF d c adv stamp_id]
  then have c1: "c1 = stamp E Req_executing ''executing'' None None c" and w1: "ad_world db1 = ad_world db" by auto
  have same: "aq_targetId c1 = aq_targetId c" "aq_proposedCommand c1 = aq_proposedCommand c" "aq_id c1 = aq_id c"
    "aq_requesterId c1 = aq_requesterId c" "aq_approverId c1 = aq_approverId c" "aq_resourceVersion c1 = aq_resourceVersion c"
    "aq_status c1 = Req_executing"
    by (simp_all add: c1 stamp_def)
  have db2: "db2 = db1" using ch by (rule checks_pass)
  have checks: "ex_loadResourceVersion ex (aq_targetId c) (ad_world db) = Inr (aq_resourceVersion c)"
    "ex_revalidate ex (aq_targetId c) (aq_proposedCommand c) (ad_world db) = Inr ()"
    using ch w1 same by (auto simp: execution_checks_def split: sum.splits if_splits)
  from fin obtain refs where res: "res = Inr refs"
    by (cases res) (auto simp: execution_finish_def execution_failed_def Let_def split: sum.splits)
  obtain w where run': "ex_execute ex (aq_targetId c) (aq_proposedCommand c) (ac_id a) (aq_requesterId c) (ad_world db) = (Inr refs, w)"
    and db3: "db3 = db1\<lparr>ad_world := w\<rparr>"
    using run res same w1 db2 by (auto simp: run_executor_def split: prod.splits)
  let ?f = "\<lambda>r. (stamp E Req_executed ''executed'' (Some (ac_id a)) None r)\<lparr>aq_executedAt := Some (now E), aq_resultRefs := refs\<rparr>"
  obtain q db4 where adv2: "advance (aq_id c1) Req_executing ?f db3 = (q, db4)" by fastforce
  have in3: "c1 \<in> set (ad_requests db3)" "distinct (map aq_id (ad_requests db3))" using a1 db3 by auto
  have "at_status (aq_id c1) Req_executing c1" using same(7) by (simp add: at_status_def)
  then obtain q' where q: "q = Some q'"
    using adv2 in3(1) by (auto simp: advance_def find_one_and_update_def find_None_iff split: option.splits)
  note a2 = advance_unique [OF in3(2,1) adv2 [unfolded q], simplified]
  have "r' = q'" and "\<exists>rows. ad_world db' = (ad_world db4)\<lparr>aw_audits := rows\<rparr> \<and> ad_requests db' = ad_requests db4"
    using fin res adv2 q
    by (auto simp: execution_finish_def execution_failed_def Let_def audit_request_def approval_audit_def split: sum.splits option.splits)
  with a2 ex checks run' db3 same show ?thesis by (auto simp: stamp_def)
qed

definition with_audits :: "'x approval_world \<Rightarrow> audit_row list \<Rightarrow> 'x approval_world" where
  "with_audits w rows = w\<lparr>aw_audits := rows\<rparr>"

lemma decide_claim_facts:
  assumes c: "decide_claim E inp r db = (Inr c, db')" and d: "distinct (map aq_id (ad_requests db))"
    and r: "r \<in> set (ad_requests db)"
  shows "c = approve_request E inp r \<and> c \<in> set (ad_requests db') \<and> distinct (map aq_id (ad_requests db'))
    \<and> (\<exists>rows. ad_world db' = with_audits (ad_world db) rows)"
proof -
  obtain q db1 where adv: "advance (aq_id r) Req_pending (approve_request E inp) db = (q, db1)" by fastforce
  with c have q: "q = Some c" and "ad_requests db' = ad_requests db1 \<and> (\<exists>rows. ad_world db' = with_audits (ad_world db1) rows)"
    by (auto simp: decide_claim_def audit_request_def approval_audit_def with_audits_def split: option.splits if_splits sum.splits)
       (metis approval_world.surjective approval_world.update_convs(4))+
  with advance_unique [OF d r adv [unfolded q]] show ?thesis by auto
qed

lemma permissions_facts:
  "decide_permissions E inp r db = (Inr u, db') \<Longrightarrow> db' = db \<and> hasAdminPermission E (aq_requesterId r) (ad_world db) = Inr True
     \<and> hasAdminPermission E (ac_id (di_approver inp)) (ad_world db) = Inr True"
  by (auto simp: decide_permissions_def split: sum.splits if_splits)

text \<open>
  C31. An approval that succeeds was decided on a pending, unexpired request by an administrator other
  than its requester; both still are administrators in the database, the target has the version it
  had when the request was made and passes the executor's checks, and the executor ran once, with the
  stored command, with the result that the request now records.
\<close>

theorem approval_effect:
  assumes "distinct (map aq_id (ad_requests db))" and "di_approve inp"
    and "decideApprovalRequest E G inp db = (Inr r', db')"
  shows "\<exists>r ex refs rows w. find_one (\<lambda>q. aq_id q = di_requestId inp) (ad_requests db) = Some r
    \<and> aq_status r = Req_pending \<and> now E < aq_expiresAt r
    \<and> ac_role (di_approver inp) = ''admin'' \<and> aq_requesterId r \<noteq> ac_id (di_approver inp)
    \<and> hasAdminPermission E (aq_requesterId r) (ad_world db) = Inr True
    \<and> hasAdminPermission E (ac_id (di_approver inp)) (ad_world db) = Inr True
    \<and> getExecutor E G (aq_operationType r) = Inr ex
    \<and> ex_loadResourceVersion ex (aq_targetId r) (with_audits (ad_world db) rows) = Inr (aq_resourceVersion r)
    \<and> ex_revalidate ex (aq_targetId r) (aq_proposedCommand r) (with_audits (ad_world db) rows) = Inr ()
    \<and> ex_execute ex (aq_targetId r) (aq_proposedCommand r) (ac_id (di_approver inp)) (aq_requesterId r)
        (with_audits (ad_world db) rows) = (Inr refs, w)
    \<and> aw_users (ad_world db') = aw_users w
    \<and> aq_id r' = aq_id r \<and> aq_status r' = Req_executed \<and> aq_resultRefs r' = refs
    \<and> aq_approverId r' = Some (ac_id (di_approver inp)) \<and> r' \<in> set (ad_requests db')"
proof -
  from assms(2,3) obtain r db1 u db2 c db3 where ch: "decide_check E inp db = (Inr r, db1)"
    and pm: "decide_permissions E inp r db1 = (Inr u, db2)" and cl: "decide_claim E inp r db2 = (Inr c, db3)"
    and x: "executeClaimedRequest E G c (di_approver inp) db3 = (Inr r', db')"
    by (auto simp: decideApprovalRequest_def split: prod.splits sum.splits)
  note f = decide_check_facts [OF ch] and p = permissions_facts [OF pm]
  have db: "db1 = db" "db2 = db" using f p by auto
  have r: "r \<in> set (ad_requests db2)" using f db find_one_SomeD by metis
  from decide_claim_facts [OF cl _ r] assms(1) db obtain rows where c: "c = approve_request E inp r" "c \<in> set (ad_requests db3)"
    "distinct (map aq_id (ad_requests db3))" "ad_world db3 = with_audits (ad_world db) rows" by auto
  from execution_success [OF x c(3,2)] f p c(1,4) db show ?thesis by auto
qed

theorem approval_effect_witness:
  "\<exists>r'. decideApprovalRequest (ap_env [] 20) demo_engines (demo_decide ''r1'' ''a2'') ap_db
      = (Inr r', snd (decideApprovalRequest (ap_env [] 20) demo_engines (demo_decide ''r1'' ''a2'') ap_db))
    \<and> aq_status r' = Req_executed \<and> aq_approverId r' = Some ''a2''"
proof -
  obtain res db' where x: "decideApprovalRequest (ap_env [] 20) demo_engines (demo_decide ''r1'' ''a2'') ap_db = (res, db')"
    by fastforce
  have "case fst (decideApprovalRequest (ap_env [] 20) demo_engines (demo_decide ''r1'' ''a2'') ap_db) of
      Inl e \<Rightarrow> False | Inr r \<Rightarrow> True" by code_simp
  then obtain r' where r': "decideApprovalRequest (ap_env [] 20) demo_engines (demo_decide ''r1'' ''a2'') ap_db = (Inr r', db')"
    using x by (cases res) simp_all
  have d: "distinct (map aq_id (ad_requests ap_db))" by code_simp
  have a: "di_approve (demo_decide ''r1'' ''a2'')" "ac_id (di_approver (demo_decide ''r1'' ''a2'')) = ''a2''"
    by (simp_all add: demo_decide_def)
  from approval_effect [OF d a(1) r'] a(2) r' show ?thesis by (auto simp del: One_nat_def)
qed

end
