(* ===== verification/Approval_Admins.thy ===== *)
theory Approval_Admins
  imports Approval_Properties
begin

text \<open>
  Calls of the approval service that run one after another never remove the last administrator.
\<close>

subsection \<open>An administrator remains\<close>

text \<open>The engines of the two other executors change no user's role.\<close>

definition engines_keep_roles :: "'x approval_engines \<Rightarrow> bool" where
  "engines_keep_roles G \<longleftrightarrow>
     (\<forall>t a p n w. map av_role (aw_users (snd (en_remediateDiscrepancy G t a p n w))) = map av_role (aw_users w))
     \<and> (\<forall>t p w. map av_role (aw_users (snd (en_applyRepair G t p w))) = map av_role (aw_users w))"

datatype approval_call =
  Call_create approval_env create_request_input
| Call_decide approval_env decide_input
| Call_cancel approval_env string approval_actor "string option"
| Call_get approval_env string
| Call_list approval_env "string option" "string option" "int option" "int option"

fun run_approval_call :: "'x approval_engines \<Rightarrow> approval_call \<Rightarrow> 'x approval_db \<Rightarrow> 'x approval_db" where
  "run_approval_call G (Call_create E inp) db = snd (createApprovalRequest E G inp db)"
| "run_approval_call G (Call_decide E inp) db = snd (decideApprovalRequest E G inp db)"
| "run_approval_call G (Call_cancel E i a reason) db = snd (cancelApprovalRequest E i a reason db)"
| "run_approval_call G (Call_get E i) db = snd (getApprovalRequestById E i db)"
| "run_approval_call G (Call_list E st op p n) db = snd (listApprovalRequests E st op p n db)"

definition roles :: "'x approval_db \<Rightarrow> string list" where
  "roles db = map av_role (aw_users (ad_world db))"

definition has_admin :: "'x approval_db \<Rightarrow> bool" where
  "has_admin db \<longleftrightarrow> admin_count (ad_world db) > 0"

lemma has_admin_roles: "has_admin db \<longleftrightarrow> ''admin'' \<in> set (roles db)"
  by (auto simp: has_admin_def admin_count_def roles_def filter_empty_conv intro: rev_image_eqI)

lemma audit_roles: "audit_request E c ev db = Inr db' \<Longrightarrow> roles db' = roles db"
  by (auto simp: audit_request_def approval_audit_def roles_def split: sum.splits option.splits)

lemma advance_roles: "advance i st f db = (r, db') \<Longrightarrow> roles db' = roles db"
  by (auto simp: advance_def roles_def split: prod.splits)

lemma update_request_roles: "update_request i f db = (r, db') \<Longrightarrow> roles db' = roles db"
  by (auto simp: update_request_def roles_def split: prod.splits)

lemma snd_advance_roles [simp]: "roles (snd (advance i st f db)) = roles db"
  using advance_roles [of i st f db] by (metis prod.collapse)

lemma reap_roles: "reapStaleRequest E r db = (r', db') \<Longrightarrow> roles db' = roles db"
  by (auto simp: reapStaleRequest_def split: if_splits prod.splits option.splits dest: advance_roles)

lemma execution_failed_roles: "execution_failed E a r e db = (res, db') \<Longrightarrow> roles db' = roles db"
  by (auto simp: execution_failed_def Let_def split: sum.splits dest: audit_roles)

lemma finish_roles: "execution_finish E a r res db = (res', db') \<Longrightarrow> roles db' = roles db"
  by (auto simp: execution_finish_def split: sum.splits prod.splits
      dest!: advance_roles audit_roles execution_failed_roles)

lemma exempt_finish_roles: "exempt_finish E a r res db = (res', db') \<Longrightarrow> roles db' = roles db"
  by (auto simp: exempt_finish_def exempt_failed_def split: sum.splits prod.splits
      dest!: update_request_roles audit_roles) (metis prod.collapse update_request_roles)+

lemma update_one_roles:
  assumes "find_one P us = Some u" and "''admin'' \<in> av_role ` set us"
    and "av_role u = ''admin'' \<Longrightarrow> role \<noteq> ''admin'' \<Longrightarrow> length (filter (\<lambda>u. av_role u = ''admin'') us) > 1"
  shows "''admin'' \<in> av_role ` set (update_one P (\<lambda>v. v\<lparr>av_role := role, av_updatedAt := t\<rparr>) us)"
  using assms
proof (induction us)
  case (Cons x us)
  show ?case
  proof (cases "P x")
    case True
    then show ?thesis using Cons.prems
      by (cases "role = ''admin''"; cases "av_role x = ''admin''") (auto simp: filter_empty_conv intro: rev_image_eqI)
  next
    case False
    then show ?thesis using Cons by (cases "av_role x = ''admin''") auto
  qed
qed simp

definition world_roles :: "'x approval_world \<Rightarrow> string list" where
  "world_roles w = map av_role (aw_users w)"

lemma roles_world: "roles db = world_roles (ad_world db)"
  by (simp add: roles_def world_roles_def)

lemma approval_audit_roles: "approval_audit E c ev w = Inr w' \<Longrightarrow> world_roles w' = world_roles w"
  by (auto simp: approval_audit_def world_roles_def split: option.splits)

lemma execute_role_keeps:
  assumes rv: "revalidate_role E tid cmd w = Inr ()" and ad: "''admin'' \<in> set (world_roles w)"
    and ex: "execute_role E tid cmd a r w = (res, w')"
  shows "''admin'' \<in> set (world_roles w')"
proof -
  from rv obtain u where u: "find_target E ''User no longer exists.'' av_id tid (aw_users w) = Inr u"
    by (auto simp: revalidate_role_def split: sum.splits)
  define role where "role = (case string_field ''role'' cmd of None \<Rightarrow> [] | Some a \<Rightarrow> a)"
  have one: "find_one (\<lambda>d. av_id d = tid) (aw_users w) = Some u"
    using u by (auto simp: find_target_def find_doc_by_id_def split: if_splits option.splits)
  have more: "av_role u = ''admin'' \<Longrightarrow> role \<noteq> ''admin'' \<Longrightarrow> length (filter (\<lambda>u. av_role u = ''admin'') (aw_users w)) > 1"
    using rv u by (auto simp: revalidate_role_def admin_count_def role_def split: if_splits option.splits)
  define w1 where "w1 = (if role = av_role u then w else w\<lparr>aw_users := update_one (\<lambda>v. av_id v = tid)
                       (\<lambda>v. v\<lparr>av_role := role, av_updatedAt := now E\<rparr>) (aw_users w)\<rparr>)"
  have "''admin'' \<in> set (world_roles w1)"
    using update_one_roles [OF one _ more] ad by (simp add: w1_def world_roles_def)
  moreover have "world_roles w' = world_roles w1"
    using ex u unfolding execute_role_def w1_def role_def
    by (auto simp: Let_def split: sum.splits if_splits dest: approval_audit_roles)
  ultimately show ?thesis by simp
qed

lemma execute_keeps_admin:
  assumes G: "engines_keep_roles G" and ex: "getExecutor E G op = Inr ex"
    and rv: "ex_revalidate ex tid cmd w = Inr ()" and ad: "''admin'' \<in> set (world_roles w)"
    and run: "ex_execute ex tid cmd a r w = (res, w')"
  shows "''admin'' \<in> set (world_roles w')"
proof -
  have rem: "world_roles (snd (en_remediateDiscrepancy G t a p n w)) = world_roles w"
    and rep: "world_roles (snd (en_applyRepair G t p w)) = world_roles w" for t a p n w
    using G by (auto simp: engines_keep_roles_def world_roles_def)
  have k1: "world_roles w' = world_roles w" if "execute_remediation G tid cmd a r w = (res, w')"
    using that rem [of tid _ a _ w] by (auto simp: execute_remediation_def Let_def split: prod.splits sum.splits) (metis snd_conv)+
  have k2: "world_roles w' = world_roles w" if "execute_repair G tid cmd a r w = (res, w')"
    using that rep [of tid a w] by (auto simp: execute_repair_def split: prod.splits sum.splits if_splits)
  consider "ex_execute ex = execute_remediation G" | "ex_execute ex = execute_repair G"
    | "ex_execute ex = execute_role E" "ex_revalidate ex = revalidate_role E"
    using ex by (auto simp: getExecutor_def reconciliationRemediateExecutor_def integrityRepairApplyExecutor_def
        userRoleReassignExecutor_def split: if_splits)
  then show ?thesis
  proof cases
    case 1
    with run k1 ad show ?thesis by simp
  next
    case 2
    with run k2 ad show ?thesis by simp
  next
    case 3
    with rv ad run show ?thesis by (auto intro: execute_role_keeps)
  qed
qed

lemma run_executor_keeps_admin:
  assumes "engines_keep_roles G" and "getExecutor E G op = Inr ex"
    and "ex_revalidate ex (aq_targetId r) (aq_proposedCommand r) (ad_world db) = Inr ()" and "has_admin db"
    and "run_executor ex r a db = (res, db')"
  shows "has_admin db'"
  using assms execute_keeps_admin [OF assms(1-3)]
  by (auto simp: run_executor_def has_admin_roles roles_world split: prod.splits)

lemma create_keeps_admin:
  assumes G: "engines_keep_roles G" and ad: "has_admin db" and c: "createApprovalRequest E G inp db = (res, db')"
  shows "has_admin db'"
proof (cases "create_prepare E G inp (ad_world db)")
  case (Inl e)
  with c ad show ?thesis by (simp add: createApprovalRequest_def)
next
  case (Inr t)
  obtain ex p v where t: "t = (ex, p, v)" by (cases t)
  from Inr t have ex: "getExecutor E G (cq_operationType inp) = Inr ex"
    and rv: "ex_revalidate ex (cq_targetId inp) (pp_command p) (ad_world db) = Inr ()"
    by (auto simp: create_prepare_def split: if_splits sum.splits)
  let ?r = "new_request E inp (ex_targetType ex) p v"
  obtain q db1 where ins: "create_insert ?r db = (q, db1)" by fastforce
  then have w: "ad_world db1 = ad_world db" "\<And>r. q = Inr r \<Longrightarrow> r = ?r"
    by (auto simp: create_insert_def split: if_splits)
  have ad1: "has_admin db1" using ad w by (simp add: has_admin_def)
  show ?thesis
  proof (cases q)
    case (Inl e)
    with c Inr t ins ad1 show ?thesis by (simp add: createApprovalRequest_def)
  next
    case (Inr r)
    show ?thesis
    proof (cases "pp_exempt p")
      case False
      with c \<open>create_prepare E G inp (ad_world db) = Inr t\<close> t ins ad1 Inr show ?thesis
        by (auto simp: createApprovalRequest_def has_admin_roles split: sum.splits dest: audit_roles)
    next
      case True
      obtain x db2 where run: "run_executor ex r (ac_id (cq_requester inp)) db1 = (x, db2)" by fastforce
      have "has_admin db2"
        by (rule run_executor_keeps_admin [OF G ex _ ad1 run]) (use rv w Inr in \<open>simp add: new_request_def\<close>)
      moreover have "exempt_finish E (cq_requester inp) r x db2 = (res, db')"
        using c \<open>create_prepare E G inp (ad_world db) = Inr t\<close> t ins Inr True run by (simp add: createApprovalRequest_def)
      ultimately show ?thesis using exempt_finish_roles by (metis has_admin_roles)
    qed
  qed
qed

lemma decide_check_roles: "decide_check E inp db = (res, db') \<Longrightarrow> roles db' = roles db"
  by (auto simp: decide_check_def split: if_splits sum.splits option.splits prod.splits dest: reap_roles)

lemma permissions_roles: "decide_permissions E inp r db = (res, db') \<Longrightarrow> roles db' = roles db"
  by (auto simp: decide_permissions_def split: if_splits sum.splits)

lemma decide_claim_roles: "decide_claim E inp r db = (res, db') \<Longrightarrow> roles db' = roles db"
  by (auto simp: decide_claim_def split: if_splits sum.splits option.splits prod.splits dest!: advance_roles audit_roles)

lemma reject_roles: "reject_request E inp r db = (res, db') \<Longrightarrow> roles db' = roles db"
  by (auto simp: reject_request_def Let_def split: sum.splits option.splits prod.splits dest!: advance_roles audit_roles)

lemma claim_roles: "claim_execution E i db = (res, db') \<Longrightarrow> roles db' = roles db"
  by (auto simp: claim_execution_def split: option.splits prod.splits dest: advance_roles)

lemma checks_roles: "execution_checks E ex r db = (res, db') \<Longrightarrow> roles db' = roles db"
  by (auto simp: execution_checks_def split: sum.splits if_splits)

lemma execution_keeps_admin:
  assumes G: "engines_keep_roles G" and ad: "has_admin db" and x: "executeClaimedRequest E G c a db = (res, db')"
  shows "has_admin db'"
proof (cases "getExecutor E G (aq_operationType c)")
  case (Inl e)
  with x ad show ?thesis by (simp add: executeClaimedRequest_def)
next
  case (Inr ex)
  obtain q db1 where cl: "claim_execution E (aq_id c) db = (q, db1)" by fastforce
  from claim_roles [OF cl] ad have ad1: "has_admin db1" by (simp add: has_admin_roles)
  show ?thesis
  proof (cases q)
    case (Inl e)
    with x cl Inr ad1 show ?thesis by (simp add: executeClaimedRequest_def)
  next
    case (Inr c1)
    obtain k db2 where ch: "execution_checks E ex c1 db1 = (k, db2)" by fastforce
    from checks_roles [OF ch] ad1 have ad2: "has_admin db2" by (simp add: has_admin_roles)
    show ?thesis
    proof (cases k)
      case (Inl e)
      with x cl Inr ch \<open>getExecutor E G (aq_operationType c) = Inr ex\<close> ad2 show ?thesis
        by (auto simp: executeClaimedRequest_def has_admin_roles dest: execution_failed_roles)
    next
      case (Inr u)
      then have ok: "db2 = db1" "ex_revalidate ex (aq_targetId c1) (aq_proposedCommand c1) (ad_world db1) = Inr ()"
        using ch by (auto simp: execution_checks_def split: sum.splits if_splits)
      obtain y db3 where run: "run_executor ex c1 (ac_id a) db2 = (y, db3)" by fastforce
      have "has_admin db3"
        by (rule run_executor_keeps_admin [OF G \<open>getExecutor E G (aq_operationType c) = Inr ex\<close> _ ad2 run]) (use ok in simp)
      moreover have "execution_finish E a c1 y db3 = (res, db')"
        using x cl \<open>q = Inr c1\<close> ch Inr run \<open>getExecutor E G (aq_operationType c) = Inr ex\<close>
        by (simp add: executeClaimedRequest_def)
      ultimately show ?thesis using finish_roles by (metis has_admin_roles)
    qed
  qed
qed

lemma decide_keeps_admin:
  assumes G: "engines_keep_roles G" and ad: "has_admin db" and x: "decideApprovalRequest E G inp db = (res, db')"
  shows "has_admin db'"
proof -
  obtain q db1 where ch: "decide_check E inp db = (q, db1)" by fastforce
  from decide_check_roles [OF ch] ad have ad1: "has_admin db1" by (simp add: has_admin_roles)
  show ?thesis
  proof (cases q)
    case (Inl e)
    with x ch ad1 show ?thesis by (simp add: decideApprovalRequest_def)
  next
    case (Inr r)
    show ?thesis
    proof (cases "di_approve inp")
      case False
      with x ch Inr ad1 show ?thesis by (auto simp: decideApprovalRequest_def has_admin_roles dest: reject_roles)
    next
      case True
      obtain u db2 where pm: "decide_permissions E inp r db1 = (u, db2)" by fastforce
      obtain c db3 where cl: "decide_claim E inp r db2 = (c, db3)" by fastforce
      have ad3: "has_admin db2" "has_admin db3"
        using ad1 permissions_roles [OF pm] decide_claim_roles [OF cl] by (simp_all add: has_admin_roles)
      with x ch Inr True pm cl show ?thesis
        by (cases u; cases c) (auto simp: decideApprovalRequest_def intro: execution_keeps_admin [OF G])
    qed
  qed
qed

lemma cancel_roles: "cancelApprovalRequest E i a reason db = (res, db') \<Longrightarrow> roles db' = roles db"
  by (auto simp: cancelApprovalRequest_def split: sum.splits option.splits prod.splits if_splits
      dest!: advance_roles audit_roles reap_roles)

lemma get_roles: "getApprovalRequestById E i db = (res, db') \<Longrightarrow> roles db' = roles db"
  by (auto simp: getApprovalRequestById_def split: sum.splits option.splits prod.splits dest: reap_roles)

lemma reap_all_roles: "reap_all E rs db = (rs', db') \<Longrightarrow> roles db' = roles db"
  by (induction rs arbitrary: db rs') (auto split: prod.splits dest: reap_roles)

lemma list_roles: "listApprovalRequests E st op p n db = (res, db') \<Longrightarrow> roles db' = roles db"
  by (auto simp: listApprovalRequests_def Let_def split: prod.splits dest: reap_all_roles)

lemma call_keeps_admin: "engines_keep_roles G \<Longrightarrow> has_admin db \<Longrightarrow> has_admin (run_approval_call G c db)"
proof (cases c)
  case (Call_create E inp)
  then show "engines_keep_roles G \<Longrightarrow> has_admin db \<Longrightarrow> ?thesis"
    using create_keeps_admin [of G db E inp] by (cases "createApprovalRequest E G inp db") simp
next
  case (Call_decide E inp)
  then show "engines_keep_roles G \<Longrightarrow> has_admin db \<Longrightarrow> ?thesis"
    using decide_keeps_admin [of G db E inp] by (cases "decideApprovalRequest E G inp db") simp
next
  case (Call_cancel E i a reason)
  then show "has_admin db \<Longrightarrow> ?thesis"
    using cancel_roles [of E i a reason db] by (cases "cancelApprovalRequest E i a reason db") (simp add: has_admin_roles)
next
  case (Call_get E i)
  then show "has_admin db \<Longrightarrow> ?thesis"
    using get_roles [of E i db] by (cases "getApprovalRequestById E i db") (simp add: has_admin_roles)
next
  case (Call_list E st op p n)
  then show "has_admin db \<Longrightarrow> ?thesis"
    using list_roles [of E st op p n db] by (cases "listApprovalRequests E st op p n db") (simp add: has_admin_roles)
qed

text \<open>
  C32. Calls of the approval service that run one after another, with any inputs, leave at least one
  administrator if there was one (interleaved calls do not: \<open>concurrent_demotions_leave_no_admin\<close>).
\<close>

theorem an_admin_remains:
  assumes "engines_keep_roles G" and "admin_count (ad_world db) > 0"
  shows "admin_count (ad_world (foldl (\<lambda>d c. run_approval_call G c d) db calls)) > 0"
  using assms call_keeps_admin [OF assms(1)]
  by (induction calls arbitrary: db) (simp_all add: has_admin_def)

definition demo_calls :: "approval_call list" where
  "demo_calls = [Call_create (ap_env ''r1'' 10) (demo_create ''a1'' ''a2'' ''driver''),
     Call_create (ap_env ''r2'' 12) (demo_create ''a2'' ''a1'' ''driver''),
     Call_decide (ap_env [] 20) (demo_decide ''r1'' ''a2''), Call_decide (ap_env [] 30) (demo_decide ''r2'' ''a1'')]"

theorem an_admin_remains_witness:
  "admin_count (ad_world (foldl (\<lambda>d c. run_approval_call demo_engines c d) demo_start demo_calls)) > 0
   \<and> map av_role (aw_users (ad_world (foldl (\<lambda>d c. run_approval_call demo_engines c d) demo_start demo_calls)))
       = [''admin'', ''driver'', ''driver'']"
proof -
  have "engines_keep_roles demo_engines" by (simp add: engines_keep_roles_def demo_engines_def)
  moreover have "admin_count (ad_world demo_start) > 0" by code_simp
  moreover have "map av_role (aw_users (ad_world (foldl (\<lambda>d c. run_approval_call demo_engines c d) demo_start demo_calls)))
       = [''admin'', ''driver'', ''driver'']" by code_simp
  ultimately show ?thesis by (simp add: an_admin_remains)
qed

end
