(* ===== verification/Decimal_Text.thy ===== *)
theory Decimal_Text
  imports Prelude
begin

text \<open>
  Numbers written as decimal digits, as the quote amounts of \<open>lib/fx/types.ts\<close> and the sequence
  numbers and amounts of \<open>lib/custody/\<close> are: the value of a digit string.
\<close>

definition is_digit :: "char \<Rightarrow> bool" where
  "is_digit c \<longleftrightarrow> c \<in> set ''0123456789''"

definition decimal_digit :: "char \<Rightarrow> nat" where
  "decimal_digit c = of_char c - 48"

definition decimal_value :: "string \<Rightarrow> nat" where
  "decimal_value s = foldl (\<lambda>n c. 10 * n + decimal_digit c) 0 s"

lemma decimal_value_append: "decimal_value (s @ [c]) = 10 * decimal_value s + decimal_digit c"
  by (simp add: decimal_value_def)

lemma decimal_value_pad: "decimal_value (s @ replicate n (CHR ''0'')) = decimal_value s * 10 ^ n"
proof (induction n)
  case (Suc n)
  have "s @ replicate (Suc n) (CHR ''0'') = (s @ replicate n (CHR ''0'')) @ [CHR ''0'']"
    by (simp add: replicate_append_same)
  then show ?case using Suc by (simp only: decimal_value_append) (simp add: decimal_digit_def)
qed simp

subsection \<open>Texts without leading zeros\<close>

definition plain_number :: "string \<Rightarrow> bool" where
  "plain_number s \<longleftrightarrow> s \<noteq> [] \<and> list_all is_digit s \<and> (hd s = CHR ''0'' \<longrightarrow> length s = 1)"

lemma digit_less: "is_digit c \<Longrightarrow> decimal_digit c < 10"
  by (auto simp: is_digit_def decimal_digit_def)

lemma digit_inj: "is_digit c \<Longrightarrow> is_digit d \<Longrightarrow> decimal_digit c = decimal_digit d \<Longrightarrow> c = d"
  by (auto simp: is_digit_def decimal_digit_def)

lemma digit_nonzero: "is_digit c \<Longrightarrow> c \<noteq> CHR ''0'' \<Longrightarrow> 0 < decimal_digit c"
  by (auto simp: is_digit_def decimal_digit_def)

lemma decimal_value_less: "list_all is_digit s \<Longrightarrow> decimal_value s < 10 ^ length s"
proof (induction s rule: rev_induct)
  case (snoc c s)
  then have "decimal_value s < 10 ^ length s" "decimal_digit c < 10" by (simp_all add: digit_less)
  then show ?case by (simp add: decimal_value_append)
qed (simp add: decimal_value_def)

lemma decimal_value_ge:
  "list_all is_digit s \<Longrightarrow> s \<noteq> [] \<Longrightarrow> hd s \<noteq> CHR ''0'' \<Longrightarrow> 10 ^ (length s - 1) \<le> decimal_value s"
proof (induction s rule: rev_induct)
  case (snoc c s)
  show ?case
  proof (cases s)
    case Nil
    with snoc.prems show ?thesis by (simp add: decimal_value_def Suc_le_eq digit_nonzero)
  next
    case (Cons d t)
    with snoc have "10 ^ (length s - 1) \<le> decimal_value s" by simp
    moreover have "length (s @ [c]) - 1 = Suc (length s - 1)" using Cons by simp
    ultimately show ?thesis by (simp only: decimal_value_append power_Suc)
  qed
qed simp

lemma decimal_value_same_length:
  "length s = length t \<Longrightarrow> list_all is_digit s \<Longrightarrow> list_all is_digit t \<Longrightarrow> decimal_value s = decimal_value t \<Longrightarrow> s = t"
proof (induction s arbitrary: t rule: rev_induct)
  case (snoc c s)
  then obtain d u where t: "t = u @ [d]" by (cases t rule: rev_cases) auto
  have dig: "decimal_digit c < 10" "decimal_digit d < 10" using snoc.prems t by (simp_all add: digit_less)
  have eq: "10 * decimal_value s + decimal_digit c = 10 * decimal_value u + decimal_digit d"
    using snoc.prems(4) t by (simp add: decimal_value_append)
  from eq dig have "decimal_value s = decimal_value u" "decimal_digit c = decimal_digit d" by presburger+
  with snoc t digit_inj show ?case by auto
qed simp

text \<open>Without leading zeros equal numbers are equal texts.\<close>

lemma plain_number_inj:
  assumes "plain_number s" and "plain_number t" and "decimal_value s = decimal_value t"
  shows "s = t"
proof -
  have lower: "10 ^ (length x - 1) \<le> decimal_value x \<or> x = ''0''" if "plain_number x" for x
  proof (cases "hd x = CHR ''0''")
    case True
    with that show ?thesis by (cases x) (auto simp: plain_number_def)
  qed (use that decimal_value_ge in \<open>auto simp: plain_number_def\<close>)
  have upper: "decimal_value x < 10 ^ length x" if "plain_number x" for x
    using that decimal_value_less by (auto simp: plain_number_def)
  have zero: "decimal_value ''0'' = 0" by (simp add: decimal_value_def decimal_digit_def)
  have short: "length x \<le> length y" if x: "plain_number x" and y: "plain_number y" and v: "decimal_value x = decimal_value y" for x y
  proof (cases "x = ''0''")
    case True
    with y show ?thesis by (cases y) (auto simp: plain_number_def)
  next
    case False
    with lower [OF x] v have "10 ^ (length x - 1) \<le> decimal_value y" by simp
    also have "decimal_value y < 10 ^ length y" by (rule upper [OF y])
    finally have "length x - 1 < length y" by (simp add: power_strict_increasing_iff)
    then show ?thesis by simp
  qed
  have "length s = length t" using short [OF assms] short [OF assms(2,1) assms(3) [symmetric]] by simp
  then show ?thesis using decimal_value_same_length assms by (simp add: plain_number_def)
qed

end
