(* ===== verification/Fx_Quotes.thy ===== *)
theory Fx_Quotes
  imports Platform Decimal_Text
begin

text \<open>
  Exchange-rate quotes, \<open>lib/fx/types.ts\<close> and \<open>adapters.ts\<close>: currencies, money in minor units, the
  quote document of \<open>models/ExchangeRateQuote.ts\<close>, the two repositories (in memory and MongoDB), and
  the locale of what the service needs of a repository.
\<close>

subsection \<open>Currencies and amounts\<close>

datatype currency = Cur_NGN | Cur_USD | Cur_EUR | Cur_GBP

definition currency_code :: "currency \<Rightarrow> string" where
  "currency_code c = (case c of Cur_NGN \<Rightarrow> ''NGN'' | Cur_USD \<Rightarrow> ''USD'' | Cur_EUR \<Rightarrow> ''EUR'' | Cur_GBP \<Rightarrow> ''GBP'')"

definition SUPPORTED_CURRENCIES :: "currency list" where
  "SUPPORTED_CURRENCIES = [Cur_NGN, Cur_USD, Cur_EUR, Cur_GBP]"

definition fx_upper :: "char \<Rightarrow> char" where
  "fx_upper c = (let n = of_char c in if 97 \<le> n \<and> n \<le> (122::nat) then char_of (n - 32) else c)"

text \<open>Errors are their messages.\<close>

definition assertCurrency :: "string \<Rightarrow> string + currency" where
  "assertCurrency v =
     (case find_one (\<lambda>c. currency_code c = map fx_upper (js_trim v)) SUPPORTED_CURRENCIES of
        None \<Rightarrow> Inl ''Invalid enum value.'' | Some c \<Rightarrow> Inr c)"

definition isValidRate :: "jsnum \<Rightarrow> bool" where
  "isValidRate r = (case r of Fin x \<Rightarrow> x > 0 | _ \<Rightarrow> False)"

definition MINOR_UNITS :: "currency \<Rightarrow> nat" where
  "MINOR_UNITS c = 2"

definition EPSILON :: rat where
  "EPSILON = 1 / 2 ^ 52"

definition toMinorUnits :: "jsnum \<Rightarrow> currency \<Rightarrow> string + int" where
  "toMinorUnits a c =
     (case a of Fin x \<Rightarrow> Inr (math_round ((x + EPSILON) * 10 ^ MINOR_UNITS c))
      | _ \<Rightarrow> Inl ''Money amount must be finite.'')"

definition fromMinorUnits :: "int \<Rightarrow> currency \<Rightarrow> rat" where
  "fromMinorUnits m c = of_int m / 10 ^ MINOR_UNITS c"

record converted =
  cm_sourceAmountMinor :: int
  cm_convertedAmountMinor :: int
  cm_convertedAmountMajor :: rat

fun js_mult :: "jsnum \<Rightarrow> jsnum \<Rightarrow> jsnum" where
  "js_mult (Fin a) (Fin b) = Fin (a * b)"
| "js_mult NaN b = NaN"
| "js_mult a NaN = NaN"
| "js_mult (Fin a) PosInf = (if a = 0 then NaN else if a > 0 then PosInf else NegInf)"
| "js_mult (Fin a) NegInf = (if a = 0 then NaN else if a > 0 then NegInf else PosInf)"
| "js_mult PosInf (Fin a) = (if a = 0 then NaN else if a > 0 then PosInf else NegInf)"
| "js_mult NegInf (Fin a) = (if a = 0 then NaN else if a > 0 then NegInf else PosInf)"
| "js_mult PosInf PosInf = PosInf"
| "js_mult NegInf NegInf = PosInf"
| "js_mult a b = NegInf"

definition convertMajorAmount :: "jsnum \<Rightarrow> jsnum \<Rightarrow> currency \<Rightarrow> currency \<Rightarrow> string + converted" where
  "convertMajorAmount amountMajor rate source target =
     (if \<not> isValidRate rate then Inl ''Exchange rate must be positive and finite.''
      else case toMinorUnits (js_mult amountMajor rate) target of Inl e \<Rightarrow> Inl e | Inr m \<Rightarrow>
        (case toMinorUnits amountMajor source of Inl e \<Rightarrow> Inl e | Inr sm \<Rightarrow>
           Inr \<lparr> cm_sourceAmountMinor = sm, cm_convertedAmountMinor = m,
                 cm_convertedAmountMajor = fromMinorUnits m target \<rparr>))"

subsection \<open>Decimal texts\<close>

definition decimal_text :: "string \<Rightarrow> bool" where
  "decimal_text s \<longleftrightarrow>
     (case js_split (CHR ''.'') s of
        [w] \<Rightarrow> w \<noteq> [] \<and> list_all is_digit w
      | [w, f] \<Rightarrow> w \<noteq> [] \<and> list_all is_digit w \<and> f \<noteq> [] \<and> list_all is_digit f
      | _ \<Rightarrow> False)"

definition MAX_SAFE_INTEGER :: int where
  "MAX_SAFE_INTEGER = 2 ^ 53 - 1"

definition parseDecimalToMinorUnits :: "string \<Rightarrow> currency \<Rightarrow> string + int" where
  "parseDecimalToMinorUnits value c =
     (let raw = js_trim value; decimals = MINOR_UNITS c in
      if \<not> decimal_text raw then Inl ''Money amount must be a positive decimal.''
      else (let parts = js_split (CHR ''.'') raw; whole = hd parts;
                fraction = (case tl parts of [] \<Rightarrow> [] | f # _ \<Rightarrow> f)
            in if length fraction > decimals then
                 Inl (currency_code c @ '' amounts support at most 2 decimal places.'')
               else (let padded = fraction @ replicate (decimals - length fraction) (CHR ''0'');
                         minor = int (decimal_value whole) * 10 ^ decimals + int (decimal_value padded)
                     in if minor \<le> 0 \<or> minor > MAX_SAFE_INTEGER
                        then Inl ''Money amount is outside the supported exact range.'' else Inr minor)))"

subsection \<open>Providers\<close>

record provider_quote =
  pv_rate :: jsnum
  pv_provider :: string
  pv_providerTimestamp :: time

text \<open>A provider adapter: a failed call is \<open>Inl\<close>.\<close>

type_synonym provider_adapter = "currency \<Rightarrow> currency \<Rightarrow> string + provider_quote"

definition fx_pair :: "currency \<Rightarrow> currency \<Rightarrow> string" where
  "fx_pair b q = currency_code b @ ''/'' @ currency_code q"

definition static_getRate :: "(string \<Rightarrow> jsnum option) \<Rightarrow> string \<Rightarrow> time \<Rightarrow> provider_adapter" where
  "static_getRate rates name t b q =
     (let valid = (\<lambda>k. case rates k of None \<Rightarrow> False | Some r \<Rightarrow> isValidRate r) in
      if valid (fx_pair b q) then
        Inr \<lparr> pv_rate = the (rates (fx_pair b q)), pv_provider = name, pv_providerTimestamp = t \<rparr>
      else if valid (fx_pair q b) then
        Inr \<lparr> pv_rate = (case rates (fx_pair q b) of Some (Fin r) \<Rightarrow> Fin (1 / r) | _ \<Rightarrow> NaN),
              pv_provider = name, pv_providerTimestamp = t \<rparr>
      else Inl (''Unsupported FX pair '' @ fx_pair b q @ ''.''))"

definition timeout_getRate :: provider_adapter where
  "timeout_getRate b q = Inl ''FX provider timed out.''"

definition is_upper :: "char \<Rightarrow> bool" where
  "is_upper c \<longleftrightarrow> c \<in> set ''ABCDEFGHIJKLMNOPQRSTUVWXYZ''"

definition pair_ok :: "string \<Rightarrow> bool" where
  "pair_ok k \<longleftrightarrow> length k = 7 \<and> list_all is_upper (take 3 k) \<and> k ! 3 = CHR ''/'' \<and> list_all is_upper (drop 4 k)"

text \<open>\<open>parseStaticRates\<close>, on the object that \<open>JSON.parse\<close> returns (\<open>None\<close>: no text is configured).\<close>

definition parseStaticRates :: "(string \<times> jsnum) list option \<Rightarrow> string + (string \<times> jsnum) list" where
  "parseStaticRates raw =
     (case raw of
        None \<Rightarrow> Inr [(''USD/NGN'', Fin 1500), (''EUR/NGN'', Fin 1650), (''GBP/NGN'', Fin 1900), (''NGN/NGN'', Fin 1)]
      | Some kvs \<Rightarrow> (case find_one (\<lambda>kv. \<not> (pair_ok (fst kv) \<and> isValidRate (snd kv))) kvs of
            Some kv \<Rightarrow> Inl (''Invalid static FX rate for '' @ fst kv @ ''.'')
          | None \<Rightarrow> Inr kvs))"

subsection \<open>Quotes\<close>

datatype quote_direction = Quote_direct | Quote_inverse
datatype amount_policy = Exact_source | Max_source
datatype quote_status = Quote_created | Quote_locked | Quote_consumed | Quote_expired

record quote =
  qu_id :: oid
  qu_version :: int
  qu_baseCurrency :: currency
  qu_quoteCurrency :: currency
  qu_direction :: quote_direction
  qu_sourceAmountMajor :: rat
  qu_sourceAmountMinor :: int
  qu_convertedAmountMajor :: rat
  qu_convertedAmountMinor :: int
  qu_rate :: rat
  qu_providerRate :: rat
  qu_provider :: string
  qu_providerTimestamp :: time
  qu_fetchedAt :: time
  qu_expiresAt :: time
  qu_markupBps :: rat
  qu_spreadBps :: rat
  qu_amountPolicy :: amount_policy
  qu_status :: quote_status
  qu_idempotencyKey :: "string option"
  qu_consumedAt :: "time option"
  qu_consumedBy :: "string option"

record consume_input =
  cn_quoteId :: oid
  cn_expectedVersion :: int
  cn_baseCurrency :: currency
  cn_quoteCurrency :: currency
  cn_direction :: quote_direction
  cn_sourceAmountMajor :: "rat option"
  cn_sourceAmountMinor :: "int option"
  cn_amountPolicy :: amount_policy
  cn_consumedBy :: string
  cn_now :: time

datatype consume_failure =
  Consume_not_found | Consume_already_consumed | Consume_expired | Consume_locked
| Consume_amount_mismatch | Consume_conflict

definition consumed :: "consume_input \<Rightarrow> quote \<Rightarrow> quote" where
  "consumed inp q = q\<lparr>qu_version := qu_version q + 1, qu_status := Quote_consumed,
     qu_consumedAt := Some (cn_now inp), qu_consumedBy := Some (cn_consumedBy inp)\<rparr>"

definition amountMatches :: "quote \<Rightarrow> consume_input \<Rightarrow> bool" where
  "amountMatches q inp =
     (case cn_sourceAmountMinor inp of
        Some m \<Rightarrow> (if qu_amountPolicy q = Exact_source then qu_sourceAmountMinor q = m else qu_sourceAmountMinor q \<ge> m)
      | None \<Rightarrow> (case cn_sourceAmountMajor inp of None \<Rightarrow> False
          | Some a \<Rightarrow> if qu_amountPolicy q = Exact_source then qu_sourceAmountMajor q = a else qu_sourceAmountMajor q \<ge> a))"

subsection \<open>The repository interface\<close>

text \<open>
  \<open>Inl\<close> is an exception with its message; a consumption that is refused is a value
  (\<open>{ ok: false, reason }\<close>) and not an exception.
\<close>

record 's quote_repository =
  qr_create :: "quote \<Rightarrow> 's \<Rightarrow> (string + quote) \<times> 's"
  qr_findById :: "oid \<Rightarrow> 's \<Rightarrow> string + quote option"
  qr_findByIdempotencyKey :: "string \<Rightarrow> 's \<Rightarrow> quote option"
  qr_update :: "quote \<Rightarrow> 's \<Rightarrow> (string + quote) \<times> 's"
  qr_consume :: "consume_input \<Rightarrow> 's \<Rightarrow> (string + (consume_failure + quote)) \<times> 's"

subsection \<open>In memory\<close>

text \<open>A \<open>Map\<close> from ids to quotes in insertion order.\<close>

fun map_set :: "quote \<Rightarrow> quote list \<Rightarrow> quote list" where
  "map_set q [] = [q]"
| "map_set q (p # ps) = (if qu_id p = qu_id q then q # ps else p # map_set q ps)"

definition quote_by_id :: "oid \<Rightarrow> quote list \<Rightarrow> quote option" where
  "quote_by_id i qs = find_one (\<lambda>q. qu_id q = i) qs"

definition quote_by_key :: "string \<Rightarrow> quote list \<Rightarrow> quote option" where
  "quote_by_key k qs = find_one (\<lambda>q. qu_idempotencyKey q = Some k) qs"

definition memory_create :: "quote \<Rightarrow> quote list \<Rightarrow> (string + quote) \<times> quote list" where
  "memory_create q qs = (Inr q, map_set q qs)"

definition memory_update :: "quote \<Rightarrow> quote list \<Rightarrow> (string + quote) \<times> quote list" where
  "memory_update q qs =
     (if qu_status q = Quote_consumed then (Inl ''Use atomic consume to consume quotes.'', qs)
      else case quote_by_id (qu_id q) qs of
        Some c \<Rightarrow> (if qu_status c = Quote_consumed \<or> qu_version c \<noteq> qu_version q then (Inr c, qs)
                  else (let u = q\<lparr>qu_version := qu_version c + 1\<rparr> in (Inr u, map_set u qs)))
      | None \<Rightarrow> (let u = q\<lparr>qu_version := qu_version q + 1\<rparr> in (Inr u, map_set u qs)))"

definition memory_consume :: "consume_input \<Rightarrow> quote list \<Rightarrow> (consume_failure + quote) \<times> quote list" where
  "memory_consume inp qs =
     (case quote_by_id (cn_quoteId inp) qs of
        None \<Rightarrow> (Inl Consume_not_found, qs)
      | Some q \<Rightarrow>
         (if qu_status q = Quote_consumed then (Inl Consume_already_consumed, qs)
          else if qu_expiresAt q < cn_now inp \<or> qu_status q = Quote_expired then (Inl Consume_expired, qs)
          else if qu_status q \<noteq> Quote_locked then (Inl Consume_conflict, qs)
          else if \<not> amountMatches q inp then (Inl Consume_amount_mismatch, qs)
          else if qu_version q \<noteq> cn_expectedVersion inp \<or> qu_baseCurrency q \<noteq> cn_baseCurrency inp
               \<or> qu_quoteCurrency q \<noteq> cn_quoteCurrency inp \<or> qu_direction q \<noteq> cn_direction inp
               \<or> qu_amountPolicy q \<noteq> cn_amountPolicy inp \<or> qu_status q \<noteq> Quote_locked
          then (Inl Consume_conflict, qs)
          else (Inr (consumed inp q), map_set (consumed inp q) qs)))"

definition InMemoryQuoteRepository :: "quote list quote_repository" where
  "InMemoryQuoteRepository = \<lparr> qr_create = memory_create, qr_findById = (\<lambda>i qs. Inr (quote_by_id i qs)),
     qr_findByIdempotencyKey = quote_by_key, qr_update = memory_update,
     qr_consume = (\<lambda>inp qs. case memory_consume inp qs of (r, qs') \<Rightarrow> (Inr r, qs')) \<rparr>"

subsection \<open>In MongoDB\<close>

text \<open>
  \<open>newId\<close> is the id that the driver gives a new document, as \<open>toString\<close> prints it; ids are unique,
  and so are idempotency keys where they are present.  \<open>castOid\<close> is Mongoose's cast of the text in a
  query to an ObjectId, again as \<open>toString\<close> prints it (an upper-case text names the same document);
  a text that cannot be cast makes the query throw a \<open>CastError\<close>, its message shortened here.
\<close>

definition cast_error :: "string \<Rightarrow> string" where
  "cast_error i = ''Cast to ObjectId failed for value '' @ i"

definition mongoose_find :: "(string \<Rightarrow> oid option) \<Rightarrow> string \<Rightarrow> quote list \<Rightarrow> string + quote option" where
  "mongoose_find castOid i qs =
     (case castOid i of None \<Rightarrow> Inl (cast_error i) | Some j \<Rightarrow> Inr (quote_by_id j qs))"

definition mongoose_create :: "(quote list \<Rightarrow> oid) \<Rightarrow> quote \<Rightarrow> quote list \<Rightarrow> (string + quote) \<times> quote list" where
  "mongoose_create newId q qs =
     (let d = q\<lparr>qu_id := newId qs, qu_consumedAt := None, qu_consumedBy := None\<rparr> in
      if list_ex (\<lambda>p. qu_id p = qu_id d) qs
       \<or> qu_idempotencyKey q \<noteq> None \<and> list_ex (\<lambda>p. qu_idempotencyKey p = qu_idempotencyKey q) qs
      then (Inl ''E11000 duplicate key error'', qs) else (Inr d, qs @ [d]))"

definition mongoose_update :: "(string \<Rightarrow> oid option) \<Rightarrow> quote \<Rightarrow> quote list \<Rightarrow> (string + quote) \<times> quote list" where
  "mongoose_update castOid q qs =
     (if qu_status q = Quote_consumed then (Inl ''Use atomic consume to consume quotes.'', qs)
      else case castOid (qu_id q) of None \<Rightarrow> (Inl (cast_error (qu_id q)), qs) | Some j \<Rightarrow>
        (case find_one_and_update
             (\<lambda>d. qu_id d = j \<and> qu_version d = qu_version q \<and> qu_status d \<noteq> Quote_consumed)
             (\<lambda>d. d\<lparr>qu_status := qu_status q,
                    qu_consumedAt := (case qu_consumedAt q of None \<Rightarrow> qu_consumedAt d | x \<Rightarrow> x),
                    qu_consumedBy := (case qu_consumedBy q of None \<Rightarrow> qu_consumedBy d | x \<Rightarrow> x),
                    qu_version := qu_version d + 1\<rparr>) qs of
        (Some d, qs') \<Rightarrow> (Inr d, qs')
      | (None, qs') \<Rightarrow> (case quote_by_id j qs of
            Some c \<Rightarrow> (Inr c, qs') | None \<Rightarrow> (Inl ''Quote not found.'', qs'))))"

text \<open>An amount that is not given matches no document, as every document has both amounts.\<close>

definition consumeAmountFilter :: "consume_input \<Rightarrow> quote \<Rightarrow> bool" where
  "consumeAmountFilter inp d =
     (case cn_sourceAmountMinor inp of
        Some m \<Rightarrow> (if cn_amountPolicy inp = Exact_source then qu_sourceAmountMinor d = m else qu_sourceAmountMinor d \<ge> m)
      | None \<Rightarrow> (case cn_sourceAmountMajor inp of None \<Rightarrow> False
          | Some a \<Rightarrow> if cn_amountPolicy inp = Exact_source then qu_sourceAmountMajor d = a else qu_sourceAmountMajor d \<ge> a))"

definition consume_filter :: "consume_input \<Rightarrow> quote \<Rightarrow> bool" where
  "consume_filter inp d \<longleftrightarrow> qu_id d = cn_quoteId inp \<and> qu_version d = cn_expectedVersion inp
     \<and> qu_status d = Quote_locked \<and> qu_expiresAt d \<ge> cn_now inp
     \<and> qu_baseCurrency d = cn_baseCurrency inp \<and> qu_quoteCurrency d = cn_quoteCurrency inp
     \<and> qu_direction d = cn_direction inp \<and> qu_amountPolicy d = cn_amountPolicy inp
     \<and> consumeAmountFilter inp d"

definition resolveConsumeFailure :: "consume_input \<Rightarrow> quote option \<Rightarrow> consume_failure" where
  "resolveConsumeFailure inp cur =
     (case cur of
        None \<Rightarrow> Consume_not_found
      | Some q \<Rightarrow>
         (if qu_status q = Quote_consumed then Consume_already_consumed
          else if qu_status q = Quote_expired \<or> qu_expiresAt q < cn_now inp then Consume_expired
          else if qu_status q \<noteq> Quote_locked then Consume_conflict
          else if qu_amountPolicy q \<noteq> cn_amountPolicy inp then Consume_conflict
          else if \<not> amountMatches q inp then Consume_amount_mismatch
          else Consume_conflict))"

definition mongoose_consume ::
  "(string \<Rightarrow> oid option) \<Rightarrow> consume_input \<Rightarrow> quote list \<Rightarrow> (string + (consume_failure + quote)) \<times> quote list" where
  "mongoose_consume castOid inp qs =
     (case castOid (cn_quoteId inp) of None \<Rightarrow> (Inl (cast_error (cn_quoteId inp)), qs) | Some j \<Rightarrow>
        (case find_one_and_update (consume_filter (inp\<lparr>cn_quoteId := j\<rparr>)) (consumed inp) qs of
           (Some d, qs') \<Rightarrow> (Inr (Inr d), qs')
         | (None, qs') \<Rightarrow> (Inr (Inl (resolveConsumeFailure inp (quote_by_id j qs'))), qs')))"

definition MongooseQuoteRepository :: "(string \<Rightarrow> oid option) \<Rightarrow> (quote list \<Rightarrow> oid) \<Rightarrow> quote list quote_repository" where
  "MongooseQuoteRepository castOid newId = \<lparr> qr_create = mongoose_create newId, qr_findById = mongoose_find castOid,
     qr_findByIdempotencyKey = quote_by_key, qr_update = mongoose_update castOid, qr_consume = mongoose_consume castOid \<rparr>"

end
