(* ===== verification/Fx_Service.thy ===== *)
theory Fx_Service
  imports Fx_Quotes
begin

text \<open>
  \<open>ExchangeRateQuoteService\<close> of \<open>lib/fx/quote-service.ts\<close> over any repository: creating a quote from the
  first provider that answers, locking it, consuming it.  Errors are their messages.
\<close>

record fx_config =
  fc_maxQuoteAgeMs :: int
  fc_quoteTtlMs :: int
  fc_deviationThresholdBps :: rat
  fc_markupBps :: rat
  fc_supportedPairs :: "string list"

subsection \<open>Providers in order\<close>

definition deviationBps :: "rat \<Rightarrow> rat \<Rightarrow> rat" where
  "deviationBps a b = \<bar>a - b\<bar> / min a b * 10000"

definition finite_part :: "jsnum \<Rightarrow> rat" where
  "finite_part r = (case r of Fin x \<Rightarrow> x | _ \<Rightarrow> 0)"

text \<open>The loop over the providers, with its variables \<open>firstRate\<close> and \<open>lastError\<close>.\<close>

fun provider_loop ::
  "fx_config \<Rightarrow> currency \<Rightarrow> currency \<Rightarrow> rat option \<Rightarrow> string option \<Rightarrow> provider_adapter list \<Rightarrow> string + provider_quote" where
  "provider_loop C b q firstRate lastError [] =
     Inl (case lastError of None \<Rightarrow> ''No FX providers configured.'' | Some e \<Rightarrow> e)"
| "provider_loop C b q firstRate lastError (p # ps) =
     (case p b q of
        Inl e \<Rightarrow> provider_loop C b q firstRate (Some e) ps
      | Inr pq \<Rightarrow>
         (if \<not> isValidRate (pv_rate pq) then
            provider_loop C b q firstRate (Some ''FX provider returned an invalid rate.'') ps
          else if (case firstRate of None \<Rightarrow> False
                   | Some f \<Rightarrow> deviationBps f (finite_part (pv_rate pq)) > fc_deviationThresholdBps C) then
            provider_loop C b q firstRate (Some ''FX fallback deviation threshold breached.'') ps
          else Inr pq))"

definition resolveProviderQuote ::
  "fx_config \<Rightarrow> provider_adapter list \<Rightarrow> currency \<Rightarrow> currency \<Rightarrow> string + provider_quote" where
  "resolveProviderQuote C ps b q = provider_loop C b q None None ps"

subsection \<open>Creating a quote\<close>

record quote_input =
  qi_baseCurrency :: string
  qi_quoteCurrency :: string
  qi_sourceAmountMajor :: jsnum
  qi_direction :: "quote_direction option"
  qi_amountPolicy :: "amount_policy option"
  qi_idempotencyKey :: "string option"
  qi_now :: time

definition quote_from ::
  "fx_config \<Rightarrow> oid \<Rightarrow> quote_input \<Rightarrow> currency \<Rightarrow> currency \<Rightarrow> rat \<Rightarrow> provider_quote \<Rightarrow> rat \<Rightarrow> converted \<Rightarrow> quote" where
  "quote_from C newId inp b q amount pq rate a =
     \<lparr> qu_id = newId, qu_version = 1, qu_baseCurrency = b, qu_quoteCurrency = q,
       qu_direction = (case qi_direction inp of None \<Rightarrow> Quote_direct | Some d \<Rightarrow> d),
       qu_sourceAmountMajor = amount, qu_sourceAmountMinor = cm_sourceAmountMinor a,
       qu_convertedAmountMajor = cm_convertedAmountMajor a, qu_convertedAmountMinor = cm_convertedAmountMinor a,
       qu_rate = rate, qu_providerRate = finite_part (pv_rate pq), qu_provider = pv_provider pq,
       qu_providerTimestamp = pv_providerTimestamp pq, qu_fetchedAt = qi_now inp,
       qu_expiresAt = qi_now inp + fc_quoteTtlMs C, qu_markupBps = fc_markupBps C, qu_spreadBps = fc_markupBps C,
       qu_amountPolicy = (case qi_amountPolicy inp of None \<Rightarrow> Exact_source | Some p \<Rightarrow> p),
       qu_status = Quote_created, qu_idempotencyKey = qi_idempotencyKey inp,
       qu_consumedAt = None, qu_consumedBy = None \<rparr>"

definition new_quote ::
  "fx_config \<Rightarrow> provider_adapter list \<Rightarrow> oid \<Rightarrow> quote_input \<Rightarrow> currency \<Rightarrow> currency \<Rightarrow> string + quote" where
  "new_quote C ps newId inp b q =
     (case resolveProviderQuote C ps b q of Inl e \<Rightarrow> Inl e | Inr pq \<Rightarrow>
       (if qi_now inp - pv_providerTimestamp pq > fc_maxQuoteAgeMs C then Inl ''FX provider quote is stale.''
        else (let rate = finite_part (pv_rate pq) * (1 + fc_markupBps C / 10000) in
          if \<not> isValidRate (Fin rate) then Inl ''FX provider returned an invalid rate.''
          else case convertMajorAmount (qi_sourceAmountMajor inp) (Fin rate) b q of Inl e \<Rightarrow> Inl e | Inr a \<Rightarrow>
            Inr (quote_from C newId inp b q (finite_part (qi_sourceAmountMajor inp)) pq rate a))))"

definition createQuote ::
  "'s quote_repository \<Rightarrow> fx_config \<Rightarrow> provider_adapter list \<Rightarrow> oid \<Rightarrow> quote_input \<Rightarrow> 's \<Rightarrow> (string + quote) \<times> 's" where
  "createQuote R C ps newId inp s =
     (case assertCurrency (qi_baseCurrency inp) of Inl e \<Rightarrow> (Inl e, s) | Inr b \<Rightarrow>
       (case assertCurrency (qi_quoteCurrency inp) of Inl e \<Rightarrow> (Inl e, s) | Inr q \<Rightarrow>
         (if fx_pair b q \<notin> set (fc_supportedPairs C) then (Inl (''Unsupported FX pair '' @ fx_pair b q @ ''.''), s)
          else if \<not> isValidRate (qi_sourceAmountMajor inp) then (Inl ''Quote amount must be greater than zero.'', s)
          else case (if truthy (qi_idempotencyKey inp) then qr_findByIdempotencyKey R (the (qi_idempotencyKey inp)) s else None) of
            Some existing \<Rightarrow> (Inr existing, s)
          | None \<Rightarrow>
             (case new_quote C ps newId inp b q of
                Inl e \<Rightarrow> (Inl e, s)
              | Inr d \<Rightarrow> qr_create R d s))))"

subsection \<open>Locking and consuming\<close>

definition requireQuote :: "'s quote_repository \<Rightarrow> oid \<Rightarrow> 's \<Rightarrow> string + quote" where
  "requireQuote R i s = (case qr_findById R i s of
     Inl e \<Rightarrow> Inl e | Inr None \<Rightarrow> Inl ''Quote not found.'' | Inr (Some q) \<Rightarrow> Inr q)"

definition assertUsable :: "quote \<Rightarrow> time \<Rightarrow> string option" where
  "assertUsable q t =
     (if qu_expiresAt q < t then Some ''Quote has expired.''
      else if qu_status q = Quote_expired then Some ''Quote has expired.'' else None)"

definition lockQuote :: "'s quote_repository \<Rightarrow> oid \<Rightarrow> time \<Rightarrow> 's \<Rightarrow> (string + quote) \<times> 's" where
  "lockQuote R i t s =
     (case requireQuote R i s of Inl e \<Rightarrow> (Inl e, s) | Inr q \<Rightarrow>
       (case assertUsable q t of Some e \<Rightarrow> (Inl e, s) | None \<Rightarrow>
         (if qu_status q = Quote_created then qr_update R (q\<lparr>qu_status := Quote_locked\<rparr>) s else (Inr q, s))))"

record consume_request =
  cr_quoteId :: oid
  cr_baseCurrency :: string
  cr_quoteCurrency :: string
  cr_sourceAmountMajor :: "rat option"
  cr_sourceAmountMinor :: "int option"
  cr_direction :: "quote_direction option"
  cr_amountPolicy :: "amount_policy option"
  cr_consumedBy :: string
  cr_now :: time

definition consumeFailureMessage :: "consume_failure \<Rightarrow> string" where
  "consumeFailureMessage f = (case f of
       Consume_not_found \<Rightarrow> ''Quote not found.''
     | Consume_already_consumed \<Rightarrow> ''Quote has already been consumed.''
     | Consume_expired \<Rightarrow> ''Quote has expired.''
     | Consume_locked \<Rightarrow> ''Quote must be locked before it can be consumed.''
     | Consume_amount_mismatch \<Rightarrow> ''Quote source amount does not match the requested conversion.''
     | Consume_conflict \<Rightarrow> ''Quote consumption conflict.'')"

definition request_direction :: "consume_request \<Rightarrow> quote_direction" where
  "request_direction inp = (case cr_direction inp of None \<Rightarrow> Quote_direct | Some d \<Rightarrow> d)"

definition request_policy :: "consume_request \<Rightarrow> amount_policy" where
  "request_policy inp = (case cr_amountPolicy inp of None \<Rightarrow> Exact_source | Some p \<Rightarrow> p)"

text \<open>The checks on the quote as it was read, and what is then given to the repository.\<close>

definition consume_checks :: "consume_request \<Rightarrow> quote \<Rightarrow> string + consume_input" where
  "consume_checks inp q =
     (case assertUsable q (cr_now inp) of Some e \<Rightarrow> Inl e | None \<Rightarrow>
      (case assertCurrency (cr_baseCurrency inp) of Inl e \<Rightarrow> Inl e | Inr b \<Rightarrow>
       (case assertCurrency (cr_quoteCurrency inp) of Inl e \<Rightarrow> Inl e | Inr c \<Rightarrow>
        (if qu_baseCurrency q \<noteq> b \<or> qu_quoteCurrency q \<noteq> c then
           Inl ''Quote pair does not match the requested conversion.''
         else if request_direction inp \<noteq> qu_direction q then
           Inl ''Quote direction does not match the requested conversion.''
         else if request_policy inp \<noteq> qu_amountPolicy q then
           Inl ''Quote amount policy does not match the requested conversion.''
         else if qu_status q \<noteq> Quote_locked then
           (if qu_status q = Quote_consumed then Inl ''Quote has already been consumed.''
            else Inl ''Quote must be locked before it can be consumed.'')
         else Inr \<lparr> cn_quoteId = qu_id q, cn_expectedVersion = qu_version q, cn_baseCurrency = b, cn_quoteCurrency = c,
             cn_direction = request_direction inp, cn_sourceAmountMajor = cr_sourceAmountMajor inp,
             cn_sourceAmountMinor = cr_sourceAmountMinor inp, cn_amountPolicy = request_policy inp,
             cn_consumedBy = cr_consumedBy inp, cn_now = cr_now inp \<rparr>))))"

definition consumeQuote :: "'s quote_repository \<Rightarrow> consume_request \<Rightarrow> 's \<Rightarrow> (string + quote) \<times> 's" where
  "consumeQuote R inp s =
     (case requireQuote R (cr_quoteId inp) s of Inl e \<Rightarrow> (Inl e, s) | Inr q \<Rightarrow>
       (case consume_checks inp q of Inl e \<Rightarrow> (Inl e, s) | Inr ci \<Rightarrow>
         (case qr_consume R ci s of
            (Inl e, s') \<Rightarrow> (Inl e, s')
          | (Inr (Inl f), s') \<Rightarrow> (Inl (consumeFailureMessage f), s')
          | (Inr (Inr q'), s') \<Rightarrow> (Inr q', s'))))"

subsection \<open>Concurrent calls\<close>

text \<open>
  Every effect of the service is one call of the repository, so concurrent calls are an interleaving
  of these.  \<open>known\<close> are the quotes that calls have read, perhaps long ago; \<open>log\<close> the successful
  consumptions.
\<close>

record 's quote_system =
  qs_store :: 's
  qs_known :: "quote list"
  qs_log :: "quote list"

text \<open>What a repository holds under an id, read by that id.\<close>

definition held :: "'s quote_repository \<Rightarrow> 's \<Rightarrow> oid \<Rightarrow> quote option" where
  "held R s i = (case qr_findById R i s of Inr (Some q) \<Rightarrow> if qu_id q = i then Some q else None | _ \<Rightarrow> None)"

definition new_in :: "'s quote_repository \<Rightarrow> quote \<Rightarrow> 's \<Rightarrow> bool" where
  "new_in R q s \<longleftrightarrow> held R s (qu_id q) = None"

inductive quote_step :: "'s quote_repository \<Rightarrow> 's quote_system \<Rightarrow> 's quote_system \<Rightarrow> bool"
  for R :: "'s quote_repository" where
  create: "qu_status d = Quote_created \<Longrightarrow> qr_create R d (qs_store s) = (Inr q, s') \<Longrightarrow> new_in R q (qs_store s)
    \<Longrightarrow> quote_step R s (s\<lparr>qs_store := s'\<rparr>)"
| create_fails: "qu_status d = Quote_created \<Longrightarrow> qr_create R d (qs_store s) = (Inl e, s')
    \<Longrightarrow> quote_step R s (s\<lparr>qs_store := s'\<rparr>)"
| read: "qr_findById R i (qs_store s) = Inr (Some q) \<Longrightarrow> quote_step R s (s\<lparr>qs_known := q # qs_known s\<rparr>)"
| lock: "q \<in> set (qs_known s) \<Longrightarrow> qu_status q = Quote_created
    \<Longrightarrow> qr_update R (q\<lparr>qu_status := Quote_locked\<rparr>) (qs_store s) = (res, s')
    \<Longrightarrow> quote_step R s (s\<lparr>qs_store := s'\<rparr>)"
| consume: "q \<in> set (qs_known s) \<Longrightarrow> consume_checks inp q = Inr ci \<Longrightarrow> qr_consume R ci (qs_store s) = (res, s')
    \<Longrightarrow> quote_step R s (s\<lparr>qs_store := s', qs_log := (case res of Inr (Inr c) \<Rightarrow> qs_log s @ [c] | _ \<Rightarrow> qs_log s)\<rparr>)"

inductive quotes_reach :: "'s quote_repository \<Rightarrow> 's \<Rightarrow> 's quote_system \<Rightarrow> bool"
  for R :: "'s quote_repository" and empty_store :: 's where
  start: "quotes_reach R empty_store \<lparr> qs_store = empty_store, qs_known = [], qs_log = [] \<rparr>"
| step: "quotes_reach R empty_store s \<Longrightarrow> quote_step R s s' \<Longrightarrow> quotes_reach R empty_store s'"

end
