(* ===== verification/Fx_Theorems.thy ===== *)
theory Fx_Theorems
  imports Fx_Service
begin

text \<open>
  The contract between the quote service and its repository as a locale, the guarantees that follow
  from it under interleaving, and its two interpretations; the two repositories behave alike for the
  service; the amounts of a new quote.
\<close>

subsection \<open>The contract\<close>

text \<open>The terms of a quote: what never changes after it was created.\<close>

definition terms :: "quote \<Rightarrow> quote" where
  "terms q = q\<lparr>qu_version := 0, qu_status := Quote_created, qu_consumedAt := None, qu_consumedBy := None\<rparr>"

lemma terms_simps [simp]:
  "terms (q\<lparr>qu_status := st\<rparr>) = terms q" "terms (consumed inp q) = terms q"
  "qu_id (consumed inp q) = qu_id q" "qu_status (consumed inp q) = Quote_consumed"
  by (simp_all add: terms_def consumed_def)

lemma terms_id: "terms q = terms p \<Longrightarrow> qu_id q = qu_id p"
  by (metis quote.select_convs(1) quote.surjective quote.update_convs(2,19,21,22) terms_def)

locale quote_contract =
  fixes R :: "'s quote_repository" and empty_store :: 's and ok :: "'s \<Rightarrow> bool"
  assumes ok_empty: "ok empty_store" and held_empty: "held R empty_store i = None"
    and find_held: "ok s \<Longrightarrow> qr_findById R i s = Inr (Some q) \<Longrightarrow> held R s (qu_id q) = Some q"
    and create_law: "ok s \<Longrightarrow> qr_create R d s = (Inr q, s') \<Longrightarrow> new_in R q s
      \<Longrightarrow> ok s' \<and> held R s' i = (if i = qu_id q then Some q else held R s i)"
    and create_fails: "qr_create R d s = (Inl e, s') \<Longrightarrow> s' = s"
    and update_law: "ok s \<Longrightarrow> qr_update R u s = (res, s') \<Longrightarrow> qu_status u = Quote_locked
      \<Longrightarrow> held R s (qu_id u) = Some c \<Longrightarrow> terms c = terms u
      \<Longrightarrow> ok s' \<and> (s' = s \<or> qu_status c \<noteq> Quote_consumed
           \<and> (\<exists>c'. terms c' = terms c \<and> qu_status c' = Quote_locked
               \<and> (\<forall>i. held R s' i = (if i = qu_id u then Some c' else held R s i))))"
    and consume_throws: "qr_consume R inp s = (Inl e, s') \<Longrightarrow> s' = s"
    and consume_fails: "qr_consume R inp s = (Inr (Inl f), s') \<Longrightarrow> s' = s"
    and consume_law: "ok s \<Longrightarrow> qr_consume R inp s = (Inr (Inr c), s')
      \<Longrightarrow> ok s' \<and> (\<exists>q. held R s (qu_id c) = Some q \<and> qu_status q = Quote_locked
           \<and> cn_now inp \<le> qu_expiresAt q \<and> qu_version q = cn_expectedVersion inp \<and> amountMatches q inp
           \<and> c = consumed inp q
           \<and> (\<forall>i. held R s' i = (if i = qu_id c then Some c else held R s i)))"
begin

definition stored_terms :: "'s \<Rightarrow> quote \<Rightarrow> bool" where
  "stored_terms s q \<longleftrightarrow> (\<exists>c. held R s (qu_id q) = Some c \<and> terms c = terms q)"

definition final_in :: "'s \<Rightarrow> quote \<Rightarrow> bool" where
  "final_in s c \<longleftrightarrow> held R s (qu_id c) = Some c \<and> qu_status c = Quote_consumed
     \<and> (\<exists>t. qu_consumedAt c = Some t \<and> t \<le> qu_expiresAt c)"

definition quotes_ok :: "'s quote_system \<Rightarrow> bool" where
  "quotes_ok s \<longleftrightarrow> ok (qs_store s) \<and> (\<forall>q\<in>set (qs_known s). stored_terms (qs_store s) q)
     \<and> distinct (map qu_id (qs_log s)) \<and> (\<forall>c\<in>set (qs_log s). final_in (qs_store s) c)"

lemma quotes_ok_change:
  assumes "quotes_ok s" and "ok s'"
    and "\<And>i. held R s' i = (if i = qu_id c' then Some c' else held R (qs_store s) i)"
    and "case held R (qs_store s) (qu_id c') of None \<Rightarrow> True
         | Some c \<Rightarrow> qu_status c \<noteq> Quote_consumed \<and> terms c' = terms c"
  shows "quotes_ok (s\<lparr>qs_store := s'\<rparr>)"
proof -
  have "stored_terms s' q" if q: "stored_terms (qs_store s) q" for q
    using q assms(3,4) by (auto simp: stored_terms_def split: option.splits)
  moreover have "final_in s' c" if c: "final_in (qs_store s) c" for c
    using c assms(3,4) by (auto simp: final_in_def split: option.splits)
  ultimately show ?thesis using assms(1,2) by (simp add: quotes_ok_def)
qed

lemma quote_step_ok:
  assumes "quote_step R s s'" and "quotes_ok s"
  shows "quotes_ok s'"
  using assms
proof (induction rule: quote_step.induct)
  case (create d s q s')
  have k: "ok (qs_store s)" using create by (simp add: quotes_ok_def)
  note l = create_law [OF k create(2,3)]
  show ?case
    by (rule quotes_ok_change [where c' = q]) (use create l in \<open>auto simp: new_in_def\<close>)
next
  case (create_fails d s e s')
  then show ?case using quote_contract.create_fails [OF quote_contract_axioms] by fastforce
next
  case (read i s q)
  then show ?case using find_held [of "qs_store s" i q] by (auto simp: quotes_ok_def stored_terms_def)
next
  case (lock q s res s')
  let ?u = "q\<lparr>qu_status := Quote_locked\<rparr>"
  obtain c where c: "held R (qs_store s) (qu_id q) = Some c" "terms c = terms q"
    using lock by (auto simp: quotes_ok_def stored_terms_def)
  have k: "ok (qs_store s)" using lock by (simp add: quotes_ok_def)
  have l: "ok s' \<and> (s' = qs_store s \<or> qu_status c \<noteq> Quote_consumed
           \<and> (\<exists>c'. terms c' = terms c \<and> qu_status c' = Quote_locked
               \<and> (\<forall>i. held R s' i = (if i = qu_id q then Some c' else held R (qs_store s) i))))"
    using update_law [OF k lock(3), of c] c by simp
  show ?case
  proof (cases "s' = qs_store s")
    case True
    with lock show ?thesis by simp
  next
    case False
    with l obtain c' where c': "terms c' = terms c" "qu_status c \<noteq> Quote_consumed"
      "\<And>i. held R s' i = (if i = qu_id q then Some c' else held R (qs_store s) i)" by auto
    have "qu_id c' = qu_id q" using c c' terms_id by metis
    with c c' l lock show ?thesis by (intro quotes_ok_change [where c' = c']) auto
  qed
next
  case (consume q s inp ci res s')
  consider e where "res = Inl e" | f where "res = Inr (Inl f)" | c where "res = Inr (Inr c)"
    by (metis old.sum.exhaust)
  then show ?case
  proof cases
    case 1
    with consume consume_throws show ?thesis by fastforce
  next
    case 2
    with consume consume_fails show ?thesis by fastforce
  next
    case (3 c)
    have k: "ok (qs_store s)" using consume by (simp add: quotes_ok_def)
    from consume_law [OF k consume(3) [unfolded 3]] obtain p where p: "ok s'"
      "held R (qs_store s) (qu_id c) = Some p" "qu_status p = Quote_locked" "cn_now ci \<le> qu_expiresAt p"
      "c = consumed ci p"
      "\<And>i. held R s' i = (if i = qu_id c then Some c else held R (qs_store s) i)" by blast
    have ch: "quotes_ok (s\<lparr>qs_store := s'\<rparr>)"
      by (rule quotes_ok_change [where c' = c]) (use consume p in auto)
    have new: "qu_id c \<notin> qu_id ` set (qs_log s)"
    proof
      assume "qu_id c \<in> qu_id ` set (qs_log s)"
      then obtain x where "x \<in> set (qs_log s)" "qu_id x = qu_id c" by auto
      with consume(4) p(2,3) show False by (auto simp: quotes_ok_def final_in_def)
    qed
    have "final_in s' c" using p by (auto simp: final_in_def consumed_def)
    with ch new 3 show ?thesis by (auto simp: quotes_ok_def)
  qed
qed

lemma reach_ok: "quotes_reach R empty_store s \<Longrightarrow> quotes_ok s"
proof (induction rule: quotes_reach.induct)
  case start
  show ?case using ok_empty by (simp add: quotes_ok_def)
next
  case (step s s')
  then show ?case by (blast intro: quote_step_ok)
qed

lemma consumed_once:
  assumes "quotes_reach R empty_store s"
  shows "distinct (map qu_id (qs_log s))
    \<and> (\<forall>c\<in>set (qs_log s). held R (qs_store s) (qu_id c) = Some c \<and> qu_status c = Quote_consumed
         \<and> (\<exists>t. qu_consumedAt c = Some t \<and> t \<le> qu_expiresAt c))
    \<and> (\<forall>q\<in>set (qs_known s). \<exists>c. held R (qs_store s) (qu_id q) = Some c \<and> terms c = terms q)"
  using reach_ok [OF assms] by (auto simp: quotes_ok_def final_in_def stored_terms_def)

end

subsection \<open>Both repositories keep the contract\<close>

definition ids_distinct :: "quote list \<Rightarrow> bool" where
  "ids_distinct qs \<longleftrightarrow> distinct (map qu_id qs)"

lemma quote_by_id_id: "quote_by_id i qs = Some q \<Longrightarrow> qu_id q = i"
  by (auto simp: quote_by_id_def dest: find_one_SomeD)

lemma quote_by_id_None: "quote_by_id i qs = None \<longleftrightarrow> i \<notin> qu_id ` set qs"
  by (auto simp: quote_by_id_def find_None_iff)

lemma map_set_ids: "map qu_id (map_set q qs) = (if qu_id q \<in> qu_id ` set qs then map qu_id qs else map qu_id qs @ [qu_id q])"
  by (induction qs) auto

lemma map_set_distinct: "ids_distinct qs \<Longrightarrow> ids_distinct (map_set q qs)"
  by (auto simp: ids_distinct_def map_set_ids)

lemma map_set_find: "quote_by_id i (map_set q qs) = (if i = qu_id q then Some q else quote_by_id i qs)"
  by (induction qs) (auto simp: quote_by_id_def)

lemma append_find:
  "quote_by_id (qu_id q) qs = None \<Longrightarrow> quote_by_id i (qs @ [q]) = (if i = qu_id q then Some q else quote_by_id i qs)"
  by (auto simp: quote_by_id_def find_one_append split: option.splits dest: find_one_SomeD)

text \<open>Under distinct ids an update by id and condition is a \<open>map_set\<close> of the quote with that id.\<close>

lemma update_one_set:
  assumes "ids_distinct qs" and "quote_by_id i qs = Some q" and "P q" and "\<And>d. P d \<Longrightarrow> qu_id d = i"
    and "qu_id (f q) = i"
  shows "update_one P f qs = map_set (f q) qs"
  using assms
proof (induction qs)
  case (Cons x qs)
  show ?case
  proof (cases "qu_id x = i")
    case True
    with Cons.prems have "x = q" by (simp add: quote_by_id_def)
    with Cons.prems True show ?thesis by simp
  next
    case False
    with Cons show ?thesis by (auto simp: quote_by_id_def ids_distinct_def)
  qed
qed (simp add: quote_by_id_def)

lemma find_by_condition:
  assumes "ids_distinct qs" and "\<And>d. P d \<Longrightarrow> qu_id d = i"
  shows "find_one P qs = (case quote_by_id i qs of None \<Rightarrow> None | Some q \<Rightarrow> if P q then Some q else None)"
proof -
  have e: "P = (\<lambda>d. qu_id d = i \<and> P d)" using assms(2) by auto
  have "find_one (\<lambda>d. qu_id d = i \<and> P d) qs
      = (case find_one (\<lambda>d. qu_id d = i) qs of None \<Rightarrow> None | Some d \<Rightarrow> if P d then Some d else None)"
    by (rule find_key_guarded) (use assms(1) in \<open>simp add: ids_distinct_def\<close>)
  with e show ?thesis by (simp add: quote_by_id_def)
qed

lemma memory_update_law:
  assumes d: "ids_distinct qs" and u: "memory_update u qs = (res, qs')" and st: "qu_status u = Quote_locked"
    and c: "quote_by_id (qu_id u) qs = Some c" and t: "terms c = terms u"
  shows "ids_distinct qs' \<and> (qs' = qs \<or> qu_status c \<noteq> Quote_consumed
     \<and> (\<exists>c'. terms c' = terms c \<and> qu_status c' = Quote_locked
         \<and> (\<forall>i. quote_by_id i qs' = (if i = qu_id u then Some c' else quote_by_id i qs))))"
proof (cases "qu_status c = Quote_consumed \<or> qu_version c \<noteq> qu_version u")
  case True
  with u st c d show ?thesis by (auto simp: memory_update_def)
next
  case False
  let ?u = "u\<lparr>qu_version := qu_version c + 1\<rparr>"
  have qs': "qs' = map_set ?u qs" using False u st c by (auto simp: memory_update_def Let_def)
  have "terms ?u = terms c" using t by (simp add: terms_def)
  then show ?thesis using False st d qs'
    by (auto simp: map_set_find map_set_distinct intro!: exI [of _ ?u])
qed

lemma memory_consume_law:
  assumes d: "ids_distinct qs" and c: "memory_consume inp qs = (Inr c, qs')"
  shows "ids_distinct qs' \<and> (\<exists>q. quote_by_id (cn_quoteId inp) qs = Some q \<and> qu_status q = Quote_locked
     \<and> cn_now inp \<le> qu_expiresAt q \<and> qu_version q = cn_expectedVersion inp \<and> amountMatches q inp \<and> c = consumed inp q
     \<and> (\<forall>i. quote_by_id i qs' = (if i = cn_quoteId inp then Some c else quote_by_id i qs)))"
proof -
  from c obtain q where q: "quote_by_id (cn_quoteId inp) qs = Some q" "qu_status q = Quote_locked"
    "cn_now inp \<le> qu_expiresAt q" "qu_version q = cn_expectedVersion inp" "amountMatches q inp" "c = consumed inp q"
    "qs' = map_set c qs"
    by (auto simp: memory_consume_def split: option.splits if_splits)
  with d quote_by_id_id [OF q(1)] show ?thesis by (auto simp: map_set_find map_set_distinct)
qed

lemma memory_ops:
  "qr_create InMemoryQuoteRepository = memory_create" "qr_findById InMemoryQuoteRepository = (\<lambda>i qs. Inr (quote_by_id i qs))"
  "qr_update InMemoryQuoteRepository = memory_update"
  "qr_consume InMemoryQuoteRepository = (\<lambda>inp qs. case memory_consume inp qs of (r, qs') \<Rightarrow> (Inr r, qs'))"
  by (simp_all add: InMemoryQuoteRepository_def)

lemma memory_held: "held InMemoryQuoteRepository qs i = quote_by_id i qs"
  by (auto simp: held_def memory_ops dest: quote_by_id_id split: option.splits)

lemma memory_create_law:
  "ids_distinct s \<Longrightarrow> memory_create d s = (Inr q, s')
    \<Longrightarrow> ids_distinct s' \<and> quote_by_id i s' = (if i = qu_id q then Some q else quote_by_id i s)"
  by (auto simp: memory_create_def map_set_find map_set_distinct)

lemma memory_fails: "memory_create d s = (Inl e, s') \<Longrightarrow> s' = s" "memory_consume inp s = (Inl f, s') \<Longrightarrow> s' = s"
  by (auto simp: memory_create_def memory_consume_def split: option.splits if_splits)

interpretation memory: quote_contract InMemoryQuoteRepository "[]" ids_distinct
proof (unfold_locales, unfold memory_ops memory_held, goal_cases)
  case (4 s d q s' i)
  then show ?case by (intro memory_create_law)
next
  case (6 s u res s' c)
  then show ?case by (intro memory_update_law)
next
  case (9 s inp c s')
  then have "memory_consume inp s = (Inr c, s')" by (simp split: prod.splits)
  with 9(1) show ?case using memory_consume_law [of s inp c s'] quote_by_id_id by fastforce
qed (auto simp: ids_distinct_def quote_by_id_def dest: memory_fails find_one_SomeD split: prod.splits)

lemma mongoose_ops:
  "qr_create (MongooseQuoteRepository co n) = mongoose_create n" "qr_findById (MongooseQuoteRepository co n) = mongoose_find co"
  "qr_update (MongooseQuoteRepository co n) = mongoose_update co" "qr_consume (MongooseQuoteRepository co n) = mongoose_consume co"
  by (simp_all add: MongooseQuoteRepository_def)

text \<open>The ids of documents are printed ObjectIds: casting one gives it back.\<close>

definition ids_canonical :: "(string \<Rightarrow> oid option) \<Rightarrow> quote list \<Rightarrow> bool" where
  "ids_canonical castOid qs \<longleftrightarrow> ids_distinct qs \<and> list_all (\<lambda>q. castOid (qu_id q) = Some (qu_id q)) qs"

lemma canonical_cast: "ids_canonical co qs \<Longrightarrow> quote_by_id i qs = Some q \<Longrightarrow> co i = Some i"
  by (auto simp: ids_canonical_def list_all_iff quote_by_id_def dest: find_one_SomeD)

lemma mongoose_held:
  assumes "ids_canonical co qs"
  shows "held (MongooseQuoteRepository co n) qs i = quote_by_id i qs"
proof (cases "quote_by_id i qs")
  case None
  then show ?thesis
    by (auto simp: held_def mongoose_ops mongoose_find_def dest: quote_by_id_id split: option.splits)
       (metis assms canonical_cast option.discI option.inject quote_by_id_id)
next
  case (Some q)
  with canonical_cast [OF assms Some] quote_by_id_id [OF Some] show ?thesis
    by (simp add: held_def mongoose_ops mongoose_find_def)
qed

lemma map_set_canonical: "ids_canonical co qs \<Longrightarrow> co (qu_id q) = Some (qu_id q) \<Longrightarrow> ids_canonical co (map_set q qs)"
proof -
  assume a: "ids_canonical co qs" "co (qu_id q) = Some (qu_id q)"
  have "list_all (\<lambda>q. co (qu_id q) = Some (qu_id q)) (map_set q qs)"
    using a by (induction qs) (auto simp: ids_canonical_def ids_distinct_def)
  with a show ?thesis by (simp add: ids_canonical_def map_set_distinct)
qed

lemma mongoose_create_law:
  assumes "ids_canonical co s" and "mongoose_create n d s = (Inr q, s')" and "co (n s) = Some (n s)"
  shows "ids_canonical co s' \<and> quote_by_id i s' = (if i = qu_id q then Some q else quote_by_id i s)"
proof -
  have q: "qu_id q = n s" "qu_id q \<notin> qu_id ` set s" "s' = s @ [q]"
    using assms(2) by (auto simp: mongoose_create_def Let_def list_ex_iff split: if_splits)
  then have "quote_by_id (qu_id q) s = None" using quote_by_id_None by metis
  from append_find [OF this] q assms(1,3) show ?thesis by (auto simp: ids_canonical_def ids_distinct_def)
qed

lemma mongoose_fails:
  "mongoose_create n d s = (Inl e, s') \<Longrightarrow> s' = s" "mongoose_consume co inp s = (Inl e, s') \<Longrightarrow> s' = s"
  "mongoose_consume co inp s = (Inr (Inl f), s') \<Longrightarrow> s' = s"
  by (auto simp: mongoose_create_def Let_def mongoose_consume_def find_one_and_update_def split: option.splits if_splits)

lemma consume_filter_id: "consume_filter inp d \<Longrightarrow> qu_id d = cn_quoteId inp"
  by (simp add: consume_filter_def)

lemma amount_filter_eq: "qu_amountPolicy d = cn_amountPolicy inp \<Longrightarrow> consumeAmountFilter inp d = amountMatches d inp"
  by (simp add: consumeAmountFilter_def amountMatches_def split: option.splits)

lemma amount_filter_any_id [simp]: "consumeAmountFilter (inp\<lparr>cn_quoteId := j\<rparr>) = consumeAmountFilter inp"
  by (rule ext) (simp add: consumeAmountFilter_def cong: option.case_cong)

lemma mongoose_consume_eq:
  assumes "ids_distinct qs" and "co (cn_quoteId inp) = Some j"
  shows "mongoose_consume co inp qs =
    (case quote_by_id j qs of
       Some q \<Rightarrow> if consume_filter (inp\<lparr>cn_quoteId := j\<rparr>) q then (Inr (Inr (consumed inp q)), map_set (consumed inp q) qs)
                 else (Inr (Inl (resolveConsumeFailure inp (Some q))), qs)
     | None \<Rightarrow> (Inr (Inl Consume_not_found), qs))"
proof -
  let ?P = "consume_filter (inp\<lparr>cn_quoteId := j\<rparr>)"
  have P: "?P d \<Longrightarrow> qu_id d = j" for d by (simp add: consume_filter_def)
  show ?thesis
  proof (cases "quote_by_id j qs")
    case None
    then show ?thesis
      using find_by_condition [OF assms(1) P] assms(2)
      by (simp add: mongoose_consume_def find_one_and_update_def resolveConsumeFailure_def)
  next
    case (Some q)
    have "update_one ?P (consumed inp) qs = map_set (consumed inp q) qs" if "?P q"
      by (rule update_one_set [where P = ?P, OF assms(1) Some that]) (use quote_by_id_id [OF Some] P in simp_all)
    with Some show ?thesis
      using find_by_condition [OF assms(1) P] assms(2)
      by (simp add: mongoose_consume_def find_one_and_update_def)
  qed
qed

lemma mongoose_consume_law:
  assumes d: "ids_canonical co qs" and c: "mongoose_consume co inp qs = (Inr (Inr c), qs')"
  shows "ids_canonical co qs' \<and> (\<exists>q. quote_by_id (qu_id c) qs = Some q \<and> qu_status q = Quote_locked
     \<and> cn_now inp \<le> qu_expiresAt q \<and> qu_version q = cn_expectedVersion inp \<and> amountMatches q inp \<and> c = consumed inp q
     \<and> (\<forall>i. quote_by_id i qs' = (if i = qu_id c then Some c else quote_by_id i qs)))"
proof -
  from c obtain j where j: "co (cn_quoteId inp) = Some j"
    by (auto simp: mongoose_consume_def split: option.splits)
  have dist: "ids_distinct qs" using d by (simp add: ids_canonical_def)
  from c obtain q where q: "quote_by_id j qs = Some q" "consume_filter (inp\<lparr>cn_quoteId := j\<rparr>) q" "c = consumed inp q"
    "qs' = map_set c qs"
    unfolding mongoose_consume_eq [OF dist, of co inp, OF j] by (auto split: option.splits if_splits)
  have id: "qu_id c = j" "co j = Some j" using quote_by_id_id [OF q(1)] canonical_cast [OF d q(1)] q(3) by simp_all
  have "amountMatches q inp" using q(2) by (auto simp: consume_filter_def consumeAmountFilter_def amountMatches_def split: option.splits)
  with d q id show ?thesis
    by (auto simp: map_set_find map_set_canonical consume_filter_def)
qed

definition locked_by :: "quote \<Rightarrow> quote \<Rightarrow> quote" where
  "locked_by u d = d\<lparr>qu_status := qu_status u,
                    qu_consumedAt := (case qu_consumedAt u of None \<Rightarrow> qu_consumedAt d | x \<Rightarrow> x),
                    qu_consumedBy := (case qu_consumedBy u of None \<Rightarrow> qu_consumedBy d | x \<Rightarrow> x),
                    qu_version := qu_version d + 1\<rparr>"

lemma locked_by_simps [simp]: "terms (locked_by u d) = terms d" "qu_id (locked_by u d) = qu_id d"
  "qu_status (locked_by u d) = qu_status u"
  by (simp_all add: locked_by_def terms_def)

lemma mongoose_update_eq:
  assumes "ids_distinct qs" and "qu_status u \<noteq> Quote_consumed" and "quote_by_id (qu_id u) qs = Some c"
    and "co (qu_id u) = Some (qu_id u)"
  shows "mongoose_update co u qs =
    (if qu_version c = qu_version u \<and> qu_status c \<noteq> Quote_consumed
     then (Inr (locked_by u c), map_set (locked_by u c) qs) else (Inr c, qs))"
proof -
  let ?P = "\<lambda>d. qu_id d = qu_id u \<and> qu_version d = qu_version u \<and> qu_status d \<noteq> Quote_consumed"
  have f: "find_one ?P qs = (if ?P c then Some c else None)"
    using find_by_condition [OF assms(1), of ?P "qu_id u"] assms(3) by simp
  have "update_one ?P (locked_by u) qs = map_set (locked_by u c) qs" if "?P c"
    by (rule update_one_set [where P = ?P, OF assms(1,3) that]) (use quote_by_id_id [OF assms(3)] in simp_all)
  with f assms(2-4) quote_by_id_id [OF assms(3)] show ?thesis
    by (simp add: mongoose_update_def find_one_and_update_def locked_by_def [symmetric])
qed

lemma mongoose_update_law:
  assumes d: "ids_canonical co qs" and u: "mongoose_update co u qs = (res, qs')" and st: "qu_status u = Quote_locked"
    and c: "quote_by_id (qu_id u) qs = Some c" and t: "terms c = terms u"
  shows "ids_canonical co qs' \<and> (qs' = qs \<or> qu_status c \<noteq> Quote_consumed
     \<and> (\<exists>c'. terms c' = terms c \<and> qu_status c' = Quote_locked
         \<and> (\<forall>i. quote_by_id i qs' = (if i = qu_id u then Some c' else quote_by_id i qs))))"
proof -
  have dist: "ids_distinct qs" using d by (simp add: ids_canonical_def)
  have "mongoose_update co u qs =
    (if qu_version c = qu_version u \<and> qu_status c \<noteq> Quote_consumed
     then (Inr (locked_by u c), map_set (locked_by u c) qs) else (Inr c, qs))"
    using mongoose_update_eq [OF dist, of u c co] c canonical_cast [OF d c] st by simp
  with u d st quote_by_id_id [OF c] canonical_cast [OF d c] show ?thesis
    by (auto simp: map_set_find map_set_canonical split: if_splits intro!: exI [of _ "locked_by u c"])
qed

text \<open>MongoDB keeps the contract when the driver gives documents ids that cast to themselves.\<close>

lemma mongoose_contract:
  assumes new: "\<And>qs. castOid (newId qs) = Some (newId qs)"
  shows "quote_contract (MongooseQuoteRepository castOid newId) [] (ids_canonical castOid)"
proof (unfold_locales, goal_cases)
  case 1
  show ?case by (simp add: ids_canonical_def ids_distinct_def)
next
  case (2 i)
  show ?case by (simp add: mongoose_held ids_canonical_def ids_distinct_def quote_by_id_def)
next
  case (3 s i q)
  then obtain j where "quote_by_id j s = Some q" by (auto simp: mongoose_ops mongoose_find_def split: option.splits)
  with 3(1) quote_by_id_id show ?case by (simp add: mongoose_held)
next
  case (4 s d q s' i)
  then have l: "ids_canonical castOid s' \<and> quote_by_id i s' = (if i = qu_id q then Some q else quote_by_id i s)"
    using mongoose_create_law new by (simp add: mongoose_ops)
  with 4(1) show ?case by (simp add: mongoose_held)
next
  case (5 d s e s')
  then show ?case by (auto simp: mongoose_ops dest: mongoose_fails)
next
  case (6 s u res s' c)
  then have "quote_by_id (qu_id u) s = Some c" "mongoose_update castOid u s = (res, s')"
    by (simp_all add: mongoose_held mongoose_ops)
  with 6 mongoose_update_law [of castOid s u res s' c] show ?case by (auto simp: mongoose_held)
next
  case (7 inp s e s')
  then show ?case by (auto simp: mongoose_ops dest: mongoose_fails)
next
  case (8 inp s f s')
  then show ?case by (auto simp: mongoose_ops dest: mongoose_fails)
next
  case (9 s inp c s')
  then have "mongoose_consume castOid inp s = (Inr (Inr c), s')" by (simp add: mongoose_ops)
  from mongoose_consume_law [OF 9(1) this] 9(1) show ?case by (auto simp: mongoose_held)
qed

subsection \<open>Properties\<close>

text \<open>
  C33. With the MongoDB repository and any number of concurrent calls, a quote is consumed at most
  once, not after it expired, and stays consumed as it was returned; and whatever a call has read of
  the terms of a quote (currencies, amounts, rate, expiry) is still what is stored.  The hypothesis
  is the driver's: the printed id of a new document casts to itself.
\<close>

theorem quote_consumed_once:
  assumes "\<And>qs. castOid (newId qs) = Some (newId qs)"
    and "quotes_reach (MongooseQuoteRepository castOid newId) [] s"
  shows "distinct (map qu_id (qs_log s))
    \<and> list_all (\<lambda>c. quote_by_id (qu_id c) (qs_store s) = Some c \<and> qu_status c = Quote_consumed
         \<and> (case qu_consumedAt c of None \<Rightarrow> False | Some t \<Rightarrow> t \<le> qu_expiresAt c)) (qs_log s)
    \<and> list_all (\<lambda>q. case quote_by_id (qu_id q) (qs_store s) of None \<Rightarrow> False | Some c \<Rightarrow> terms c = terms q) (qs_known s)"
proof -
  note contract = mongoose_contract [of castOid newId, OF assms(1)]
  have "ids_canonical castOid (qs_store s)"
    using quote_contract.reach_ok [OF contract assms(2)] by (simp add: quote_contract.quotes_ok_def [OF contract])
  then have "held (MongooseQuoteRepository castOid newId) (qs_store s) i = quote_by_id i (qs_store s)" for i
    by (rule mongoose_held)
  with quote_contract.consumed_once [OF contract assms(2)] show ?thesis by (auto simp: list_all_iff)
qed

lemma consume_repositories:
  assumes "ids_canonical castOid qs" and "castOid i = Some j"
  shows "consumeQuote (MongooseQuoteRepository castOid newId) (inp\<lparr>cr_quoteId := i\<rparr>) qs
    = consumeQuote InMemoryQuoteRepository (inp\<lparr>cr_quoteId := j\<rparr>) qs"
proof (cases "quote_by_id j qs")
  case (Some q)
  have checks: "consume_checks (inp\<lparr>cr_quoteId := k\<rparr>) q = consume_checks inp q" for k
    by (simp add: consume_checks_def request_direction_def request_policy_def cong: option.case_cong sum.case_cong if_cong)
  show ?thesis
  proof (cases "consume_checks inp q")
    case (Inr ci)
    then have ci: "qu_id q = cn_quoteId ci" "qu_version q = cn_expectedVersion ci" "qu_baseCurrency q = cn_baseCurrency ci"
      "qu_quoteCurrency q = cn_quoteCurrency ci" "qu_direction q = cn_direction ci" "qu_amountPolicy q = cn_amountPolicy ci"
      "qu_status q = Quote_locked" "cn_now ci \<le> qu_expiresAt q"
      by (auto simp: consume_checks_def assertUsable_def split: option.splits sum.splits if_splits)
    have id: "cn_quoteId ci = j" using quote_by_id_id [OF Some] ci(1) by simp
    have dist: "ids_distinct qs" using assms(1) by (simp add: ids_canonical_def)
    have cast: "castOid (cn_quoteId ci) = Some j" using canonical_cast [OF assms(1) Some] id by simp
    have "ci\<lparr>cn_quoteId := j\<rparr> = ci" by (simp flip: id)
    then have "mongoose_consume castOid ci qs = (case memory_consume ci qs of (r, qs') \<Rightarrow> (Inr r, qs'))"
      using Some ci id amount_filter_eq [OF ci(6)]
      by (auto simp: memory_consume_def mongoose_consume_eq [OF dist, of castOid ci, OF cast] consume_filter_def resolveConsumeFailure_def)
    with Some Inr assms(2) show ?thesis
      by (simp add: consumeQuote_def requireQuote_def memory_ops mongoose_ops mongoose_find_def checks split: prod.splits)
  qed (simp add: consumeQuote_def requireQuote_def memory_ops mongoose_ops mongoose_find_def checks Some assms(2))
qed (simp add: consumeQuote_def requireQuote_def memory_ops mongoose_ops mongoose_find_def assms(2))

lemma lock_repositories:
  assumes "ids_canonical castOid qs" and "castOid i = Some j"
    and "list_all (\<lambda>q. qu_status q = Quote_created \<longrightarrow> qu_consumedAt q = None \<and> qu_consumedBy q = None) qs"
  shows "lockQuote (MongooseQuoteRepository castOid newId) i t qs = lockQuote InMemoryQuoteRepository j t qs"
proof (cases "quote_by_id j qs")
  case (Some q)
  have id: "qu_id q = j" "q \<in> set qs" using Some by (auto simp: quote_by_id_def dest: find_one_SomeD)
  have dist: "ids_distinct qs" using assms(1) by (simp add: ids_canonical_def)
  let ?u = "q\<lparr>qu_status := Quote_locked\<rparr>"
  have "memory_update ?u qs = mongoose_update castOid ?u qs" if "qu_status q = Quote_created"
  proof -
    have "qu_consumedAt q = None" "qu_consumedBy q = None" using assms(3) id(2) that by (auto simp: list_all_iff)
    then have "locked_by ?u q = ?u\<lparr>qu_version := qu_version q + 1\<rparr>" by (simp add: locked_by_def)
    then show ?thesis
      using mongoose_update_eq [OF dist, of ?u q castOid] canonical_cast [OF assms(1) Some] Some id that
      by (simp add: memory_update_def Let_def)
  qed
  with Some assms(2) show ?thesis
    by (simp add: lockQuote_def requireQuote_def memory_ops mongoose_ops mongoose_find_def split: option.splits)
qed (simp add: lockQuote_def requireQuote_def memory_ops mongoose_ops mongoose_find_def assms(2))

text \<open>
  C34. The service over MongoDB against the service over the repository in memory, which the tests
  use, on one store whose documents have printed ObjectIds: locking and consuming a quote by a text
  that casts to an ObjectId gives the answer or the error, and the store, that the repository in
  memory gives for the printed form of that ObjectId.  On a text that does not cast both fail and
  change nothing, with different errors: a \<open>CastError\<close> from MongoDB, \<open>Quote not found.\<close> in memory.
\<close>

theorem repositories_agree:
  assumes "ids_canonical castOid qs"
    and "list_all (\<lambda>q. qu_status q = Quote_created \<longrightarrow> qu_consumedAt q = None \<and> qu_consumedBy q = None) qs"
  shows "consumeQuote (MongooseQuoteRepository castOid newId) inp qs
      = (case castOid (cr_quoteId inp) of None \<Rightarrow> (Inl (cast_error (cr_quoteId inp)), qs)
         | Some j \<Rightarrow> consumeQuote InMemoryQuoteRepository (inp\<lparr>cr_quoteId := j\<rparr>) qs)
    \<and> lockQuote (MongooseQuoteRepository castOid newId) i t qs
      = (case castOid i of None \<Rightarrow> (Inl (cast_error i), qs) | Some j \<Rightarrow> lockQuote InMemoryQuoteRepository j t qs)
    \<and> (castOid (cr_quoteId inp) = None \<longrightarrow> consumeQuote InMemoryQuoteRepository inp qs = (Inl ''Quote not found.'', qs))
    \<and> (castOid i = None \<longrightarrow> lockQuote InMemoryQuoteRepository i t qs = (Inl ''Quote not found.'', qs))"
proof (intro conjI impI)
  have absent: "quote_by_id k qs = None" if "castOid k = None" for k
    using canonical_cast [OF assms(1), of k] that by (cases "quote_by_id k qs") auto
  show "consumeQuote (MongooseQuoteRepository castOid newId) inp qs
      = (case castOid (cr_quoteId inp) of None \<Rightarrow> (Inl (cast_error (cr_quoteId inp)), qs)
         | Some j \<Rightarrow> consumeQuote InMemoryQuoteRepository (inp\<lparr>cr_quoteId := j\<rparr>) qs)"
  proof (cases "castOid (cr_quoteId inp)")
    case (Some j)
    from consume_repositories [OF assms(1) this, of newId inp] Some show ?thesis by simp
  qed (simp add: consumeQuote_def requireQuote_def mongoose_ops mongoose_find_def)
  show "lockQuote (MongooseQuoteRepository castOid newId) i t qs
      = (case castOid i of None \<Rightarrow> (Inl (cast_error i), qs) | Some j \<Rightarrow> lockQuote InMemoryQuoteRepository j t qs)"
  proof (cases "castOid i")
    case (Some j)
    from lock_repositories [OF assms(1) this assms(2)] Some show ?thesis by simp
  qed (simp add: lockQuote_def requireQuote_def mongoose_ops mongoose_find_def)
  show "consumeQuote InMemoryQuoteRepository inp qs = (Inl ''Quote not found.'', qs)" if "castOid (cr_quoteId inp) = None"
    using absent [OF that] by (simp add: consumeQuote_def requireQuote_def memory_ops)
  show "lockQuote InMemoryQuoteRepository i t qs = (Inl ''Quote not found.'', qs)" if "castOid i = None"
    using absent [OF that] by (simp add: lockQuote_def requireQuote_def memory_ops)
qed

lemma math_round_error: "\<bar>of_int (math_round x) - x\<bar> \<le> 1 / 2"
  unfolding math_round_def by linarith

lemma minor_units_error:
  assumes "toMinorUnits (Fin x) c = Inr m"
  shows "\<bar>of_int m - x * 100\<bar> \<le> 1 / 2 + 100 * EPSILON"
proof -
  have "m = math_round ((x + EPSILON) * 100)" using assms by (simp add: toMinorUnits_def MINOR_UNITS_def)
  moreover have "(x + EPSILON) * 100 - x * 100 = 100 * EPSILON" by (simp add: algebra_simps)
  moreover have "EPSILON \<ge> 0" by (simp add: EPSILON_def)
  ultimately show ?thesis using math_round_error [of "(x + EPSILON) * 100"] by linarith
qed

lemma provider_loop_valid: "provider_loop C b q f l ps = Inr pq \<Longrightarrow> isValidRate (pv_rate pq)"
  by (induction ps arbitrary: l) (auto split: sum.splits if_splits)

lemma valid_rateE: "isValidRate r \<Longrightarrow> (\<And>x. r = Fin x \<Longrightarrow> x > 0 \<Longrightarrow> P) \<Longrightarrow> P"
  by (cases r) (auto simp: isValidRate_def)

text \<open>
  A new quote takes the rate of a provider whose answer is not too old, with the markup; its
  amounts in minor units are the exact amounts up to half a unit and the added \<open>Number.EPSILON\<close>, and
  the converted amount is what the minor units say.
\<close>

theorem quote_amounts:
  assumes "new_quote C ps newId inp b q = Inr d" and "isValidRate (qi_sourceAmountMajor inp)"
  shows "\<exists>a r pq. qi_sourceAmountMajor inp = Fin a \<and> resolveProviderQuote C ps b q = Inr pq \<and> pv_rate pq = Fin r
    \<and> r > 0 \<and> qi_now inp - pv_providerTimestamp pq \<le> fc_maxQuoteAgeMs C
    \<and> qu_providerRate d = r \<and> qu_rate d = r * (1 + fc_markupBps C / 10000) \<and> qu_rate d > 0
    \<and> \<bar>of_int (qu_convertedAmountMinor d) - a * qu_rate d * 100\<bar> \<le> 1 / 2 + 100 * EPSILON
    \<and> \<bar>of_int (qu_sourceAmountMinor d) - a * 100\<bar> \<le> 1 / 2 + 100 * EPSILON
    \<and> qu_convertedAmountMajor d = of_int (qu_convertedAmountMinor d) / 100
    \<and> qu_expiresAt d = qi_now inp + fc_quoteTtlMs C \<and> qu_status d = Quote_created \<and> qu_version d = 1"
proof -
  obtain a where a: "qi_sourceAmountMajor inp = Fin a" using assms(2) by (auto elim: valid_rateE)
  from assms(1) obtain pq where pq: "resolveProviderQuote C ps b q = Inr pq"
    and age: "qi_now inp - pv_providerTimestamp pq \<le> fc_maxQuoteAgeMs C"
    by (auto simp: new_quote_def split: sum.splits if_splits)
  obtain r where r: "pv_rate pq = Fin r" "r > 0"
    using provider_loop_valid [OF pq [unfolded resolveProviderQuote_def]] by (auto elim: valid_rateE)
  let ?rate = "r * (1 + fc_markupBps C / 10000)"
  obtain cv where v: "isValidRate (Fin ?rate)" and cv: "convertMajorAmount (Fin a) (Fin ?rate) b q = Inr cv"
    and d: "d = quote_from C newId inp b q a pq ?rate cv"
    using assms(1) pq age r a by (auto simp: new_quote_def Let_def finite_part_def split: sum.splits if_splits)
  from cv obtain m sm where m: "toMinorUnits (Fin (a * ?rate)) q = Inr m" "toMinorUnits (Fin a) b = Inr sm"
    "cv = \<lparr> cm_sourceAmountMinor = sm, cm_convertedAmountMinor = m, cm_convertedAmountMajor = fromMinorUnits m q \<rparr>"
    by (auto simp: convertMajorAmount_def split: sum.splits if_splits)
  have "0 < ?rate" using v by (simp add: isValidRate_def)
  with a pq r age d m minor_units_error [OF m(1)] minor_units_error [OF m(2)] show ?thesis
    by (simp add: quote_from_def finite_part_def fromMinorUnits_def MINOR_UNITS_def)
qed

text \<open>\<open>firstRate\<close> is never assigned: no deviation between providers is ever rejected.\<close>

lemma deviation_threshold_ignored:
  "resolveProviderQuote (C\<lparr>fc_deviationThresholdBps := x\<rparr>) ps b q = resolveProviderQuote C ps b q"
proof -
  have "provider_loop (C\<lparr>fc_deviationThresholdBps := x\<rparr>) b q None l ps = provider_loop C b q None l ps" for l
    by (induction ps arbitrary: l) (auto split: sum.splits)
  then show ?thesis by (simp add: resolveProviderQuote_def)
qed

subsection \<open>Exact amounts from decimal texts\<close>

definition decimal_rat :: "string \<Rightarrow> string \<Rightarrow> rat" where
  "decimal_rat whole fraction = of_nat (decimal_value whole) + of_nat (decimal_value fraction) / 10 ^ length fraction"

lemma parse_decimal_exact:
  assumes "parseDecimalToMinorUnits v c = Inr n"
  shows "\<exists>whole fraction. (js_split (CHR ''.'') (js_trim v) = [whole] \<and> fraction = []
       \<or> js_split (CHR ''.'') (js_trim v) = [whole, fraction])
     \<and> of_int n = 100 * decimal_rat whole fraction \<and> 0 < n \<and> n \<le> MAX_SAFE_INTEGER"
proof -
  define parts where "parts = js_split (CHR ''.'') (js_trim v)"
  have dec: "decimal_text (js_trim v)" using assms by (auto simp: parseDecimalToMinorUnits_def Let_def split: if_splits)
  then obtain w f where wf: "parts = [w] \<and> f = [] \<or> parts = [w, f]"
    by (auto simp: decimal_text_def parts_def split: list.splits)
  then have hd_tl: "hd parts = w" "(case tl parts of [] \<Rightarrow> [] | f # _ \<Rightarrow> f) = f" by auto
  have n: "length f \<le> 2" "n = int (decimal_value w) * 100 + int (decimal_value f * 10 ^ (2 - length f))" "0 < n" "n \<le> MAX_SAFE_INTEGER"
    using assms dec hd_tl [unfolded parts_def]
    by (simp_all add: parseDecimalToMinorUnits_def Let_def MINOR_UNITS_def decimal_value_pad split: if_splits)
  have "(10::rat) ^ (2 - length f) * 10 ^ length f = 100"
    using n(1) by (simp add: power_add [symmetric])
  then have "(10::rat) ^ (2 - length f) = 100 / 10 ^ length f" by (simp add: field_simps)
  then have "of_int n = 100 * decimal_rat w f"
    using n(2) by (simp add: decimal_rat_def algebra_simps)
  with n wf show ?thesis unfolding parts_def by blast
qed

subsection \<open>Witnesses\<close>

definition fx_demo_config :: fx_config where
  "fx_demo_config = \<lparr> fc_maxQuoteAgeMs = 60000, fc_quoteTtlMs = 300000, fc_deviationThresholdBps = 100, fc_markupBps = 50,
     fc_supportedPairs = [''USD/NGN''] \<rparr>"

definition fx_input :: quote_input where
  "fx_input = \<lparr> qi_baseCurrency = ''usd'', qi_quoteCurrency = ''NGN'', qi_sourceAmountMajor = Fin 250, qi_direction = None,
     qi_amountPolicy = None, qi_idempotencyKey = Some ''k1'', qi_now = 1000 \<rparr>"

definition fx_provider :: provider_adapter where
  "fx_provider = static_getRate (map_of [(''USD/NGN'', Fin 1500)]) ''static'' 900"

text \<open>Texts of two characters stand for ObjectIds; upper-case texts name the same documents.\<close>

definition fx_cast :: "string \<Rightarrow> oid option" where
  "fx_cast i = (if length i = 2 then Some (map (\<lambda>c. if c = CHR ''Q'' then CHR ''q'' else c) i) else None)"

definition fx_store :: "quote list" where
  "fx_store = snd (createQuote (MongooseQuoteRepository fx_cast (\<lambda>_. ''q1'')) fx_demo_config [timeout_getRate, fx_provider] [] fx_input [])"

definition fx_locked :: "quote list" where
  "fx_locked = snd (lockQuote (MongooseQuoteRepository fx_cast (\<lambda>_. ''q2'')) ''Q1'' 2000 fx_store)"

definition fx_request :: consume_request where
  "fx_request = \<lparr> cr_quoteId = ''q1'', cr_baseCurrency = ''USD'', cr_quoteCurrency = ''NGN'', cr_sourceAmountMajor = None,
     cr_sourceAmountMinor = Some 25000, cr_direction = None, cr_amountPolicy = None, cr_consumedBy = ''u1'', cr_now = 3000 \<rparr>"

lemma fx_runs:
  "map (\<lambda>q. (qu_status q, qu_version q, qu_convertedAmountMinor q)) fx_locked = [(Quote_locked, 2, 37687500)]
   \<and> (case consumeQuote (MongooseQuoteRepository fx_cast (\<lambda>_. ''q2'')) fx_request fx_locked of
        (Inr q, qs) \<Rightarrow> qu_status q = Quote_consumed \<and> qs = [q]
          \<and> fst (consumeQuote (MongooseQuoteRepository fx_cast (\<lambda>_. ''q2'')) fx_request qs) = Inl ''Quote has already been consumed.''
      | _ \<Rightarrow> False)"
  by code_simp

theorem repositories_agree_witness:
  "consumeQuote (MongooseQuoteRepository fx_cast (\<lambda>_. ''q2'')) fx_request fx_locked = consumeQuote InMemoryQuoteRepository fx_request fx_locked
   \<and> lockQuote (MongooseQuoteRepository fx_cast (\<lambda>_. ''q2'')) ''fxq-1'' 2000 fx_locked = (Inl (cast_error ''fxq-1''), fx_locked)
   \<and> lockQuote InMemoryQuoteRepository ''fxq-1'' 2000 fx_locked = (Inl ''Quote not found.'', fx_locked)"
proof -
  have a: "ids_canonical fx_cast fx_locked" by code_simp
  have b: "list_all (\<lambda>q. qu_status q = Quote_created \<longrightarrow> qu_consumedAt q = None \<and> qu_consumedBy q = None) fx_locked" by code_simp
  have "fx_cast (cr_quoteId fx_request) = Some (cr_quoteId fx_request)" "fx_cast ''fxq-1'' = None" by code_simp+
  with repositories_agree [OF a b, of "\<lambda>_. ''q2''" fx_request "''fxq-1''" 2000] show ?thesis by simp
qed

definition fx_repo :: "quote list quote_repository" where
  "fx_repo = MongooseQuoteRepository fx_cast (\<lambda>_. ''q1'')"

definition fx_done :: "quote list" where
  "fx_done = snd (consumeQuote fx_repo fx_request fx_locked)"

definition fx_ci :: consume_input where
  "fx_ci = (case consume_checks fx_request (hd fx_locked) of Inr ci \<Rightarrow> ci
     | Inl e \<Rightarrow> \<lparr> cn_quoteId = [], cn_expectedVersion = 0, cn_baseCurrency = Cur_NGN, cn_quoteCurrency = Cur_NGN,
         cn_direction = Quote_direct, cn_sourceAmountMajor = None, cn_sourceAmountMinor = None,
         cn_amountPolicy = Exact_source, cn_consumedBy = [], cn_now = 0 \<rparr>)"

lemma fx_steps:
  "qu_status (hd fx_store) = Quote_created" "qr_create fx_repo (hd fx_store) [] = (Inr (hd fx_store), fx_store)"
  "new_in fx_repo (hd fx_store) []" "qr_findById fx_repo ''Q1'' fx_store = Inr (Some (hd fx_store))"
  "qr_update fx_repo ((hd fx_store)\<lparr>qu_status := Quote_locked\<rparr>) fx_store = (Inr (hd fx_locked), fx_locked)"
  "qr_findById fx_repo ''q1'' fx_locked = Inr (Some (hd fx_locked))"
  "consume_checks fx_request (hd fx_locked) = Inr fx_ci" "qr_consume fx_repo fx_ci fx_locked = (Inr (Inr (hd fx_done)), fx_done)"
  by code_simp+

lemma fx_reach:
  "quotes_reach fx_repo [] \<lparr> qs_store = fx_done, qs_known = [hd fx_locked, hd fx_store], qs_log = [hd fx_done] \<rparr>"
proof -
  let ?s = "\<lambda>st k l. \<lparr> qs_store = st, qs_known = k, qs_log = l \<rparr>"
  have "quotes_reach fx_repo [] (?s [] [] [])" by (rule quotes_reach.start)
  then have "quotes_reach fx_repo [] (?s fx_store [] [])"
    using quote_step.create [of "hd fx_store" fx_repo "?s [] [] []"] fx_steps(1-3) by (auto intro: quotes_reach.step)
  then have "quotes_reach fx_repo [] (?s fx_store [hd fx_store] [])"
    using quote_step.read [of fx_repo "''Q1''" "?s fx_store [] []"] fx_steps(4) by (auto intro: quotes_reach.step)
  then have "quotes_reach fx_repo [] (?s fx_locked [hd fx_store] [])"
    using quote_step.lock [of "hd fx_store" "?s fx_store [hd fx_store] []" fx_repo] fx_steps(1,5) by (auto intro: quotes_reach.step)
  then have "quotes_reach fx_repo [] (?s fx_locked [hd fx_locked, hd fx_store] [])"
    using quote_step.read [of fx_repo "''q1''" "?s fx_locked [hd fx_store] []"] fx_steps(6) by (auto intro: quotes_reach.step)
  then show ?thesis
    using quote_step.consume [of "hd fx_locked" "?s fx_locked [hd fx_locked, hd fx_store] []" fx_request fx_ci fx_repo]
      fx_steps(7,8) by (auto intro: quotes_reach.step)
qed

theorem quote_consumed_once_witness:
  "quotes_reach fx_repo [] \<lparr> qs_store = fx_done, qs_known = [hd fx_locked, hd fx_store], qs_log = [hd fx_done] \<rparr>
   \<and> quote_by_id (qu_id (hd fx_done)) fx_done = Some (hd fx_done) \<and> qu_status (hd fx_done) = Quote_consumed"
proof -
  have "fx_cast ''q1'' = Some ''q1''" by code_simp
  with fx_reach quote_consumed_once [OF _ fx_reach [unfolded fx_repo_def]] show ?thesis by simp
qed

theorem quote_amounts_witness:
  "\<exists>d. new_quote fx_demo_config [timeout_getRate, fx_provider] ''q1'' fx_input Cur_USD Cur_NGN = Inr d \<and> qu_rate d > 0
     \<and> \<bar>of_int (qu_convertedAmountMinor d) - 250 * qu_rate d * 100\<bar> \<le> 1 / 2 + 100 * EPSILON"
proof -
  have "case new_quote fx_demo_config [timeout_getRate, fx_provider] ''q1'' fx_input Cur_USD Cur_NGN of Inl e \<Rightarrow> False | Inr d \<Rightarrow> True"
    by code_simp
  then obtain d where d: "new_quote fx_demo_config [timeout_getRate, fx_provider] ''q1'' fx_input Cur_USD Cur_NGN = Inr d"
    by (auto split: sum.splits)
  have v: "isValidRate (qi_sourceAmountMajor fx_input)" by code_simp
  from quote_amounts [OF d v] d show ?thesis by (auto simp: fx_input_def)
qed

end
