(* ===== verification/Stellar_Key.thy ===== *)
theory Stellar_Key
  imports Prelude "HOL-Library.Word"
begin

text \<open>
  Stellar account keys, \<open>lib/validation/stellar.ts\<close>: base32 with a CRC16 checksum, on the 32-bit
  integers that JavaScript's bit operators compute with.  The checksum is linear over exclusive or,
  and its register is injective under zero input; hence every key in which one character was
  mistyped is rejected.
\<close>

unbundle bit_operations_syntax

type_synonym int32 = "32 word"

subsection \<open>The code\<close>

definition BASE32_ALPHABET :: string where
  "BASE32_ALPHABET = ''ABCDEFGHIJKLMNOPQRSTUVWXYZ234567''"

definition STRKEY_LENGTH :: nat where
  "STRKEY_LENGTH = 56"

definition ED25519_PUBLIC_KEY_VERSION_BYTE :: int32 where
  "ED25519_PUBLIC_KEY_VERSION_BYTE = push_bit 3 6"

definition normalizeStellarPublicKey :: "string \<Rightarrow> string" where
  "normalizeStellarPublicKey v = js_trim v"

text \<open>\<open>indexOf\<close>, \<open>None\<close> for -1.\<close>

fun index_in :: "char \<Rightarrow> string \<Rightarrow> nat option" where
  "index_in c [] = None"
| "index_in c (x # xs) = (if x = c then Some 0 else map_option Suc (index_in c xs))"

fun decode_loop :: "nat \<Rightarrow> int32 \<Rightarrow> string \<Rightarrow> int32 list option" where
  "decode_loop bits v [] = Some []"
| "decode_loop bits v (c # cs) =
     (case index_in c BASE32_ALPHABET of
        None \<Rightarrow> None
      | Some i \<Rightarrow>
         (let v' = push_bit 5 v OR word_of_nat i; bits' = bits + 5 in
          if bits' \<ge> 8 then map_option ((#) (drop_bit (bits' - 8) v' AND 0xff)) (decode_loop (bits' - 8) v' cs)
          else decode_loop bits' v' cs))"

definition decodeBase32 :: "string \<Rightarrow> int32 list option" where
  "decodeBase32 s = decode_loop 0 0 s"

definition crc_bit :: "int32 \<Rightarrow> int32" where
  "crc_bit crc = (if crc AND 0x8000 \<noteq> 0 then push_bit 1 crc XOR 0x1021 else push_bit 1 crc) AND 0xffff"

definition crc_byte :: "int32 \<Rightarrow> int32 \<Rightarrow> int32" where
  "crc_byte crc byte = (crc_bit ^^ 8) (crc XOR push_bit 8 byte)"

definition crc16xmodem :: "int32 list \<Rightarrow> int32" where
  "crc16xmodem bytes = foldl crc_byte 0 bytes"

definition strkey_format :: "string \<Rightarrow> bool" where
  "strkey_format v \<longleftrightarrow> (case v of [] \<Rightarrow> False
     | c # cs \<Rightarrow> c = CHR ''G'' \<and> length cs = 55 \<and> list_all (\<lambda>x. x \<in> set BASE32_ALPHABET) cs)"

definition isValidStellarPublicKey :: "string \<Rightarrow> bool" where
  "isValidStellarPublicKey v \<longleftrightarrow>
     length v = STRKEY_LENGTH \<and> strkey_format v
     \<and> (case decodeBase32 v of
          None \<Rightarrow> False
        | Some decoded \<Rightarrow> length decoded = 35 \<and> decoded ! 0 = ED25519_PUBLIC_KEY_VERSION_BYTE
            \<and> crc16xmodem (take 33 decoded) = decoded ! 33 OR push_bit 8 (decoded ! 34))"

subsection \<open>The checksum is linear\<close>

lemma bit_push: "bit (push_bit m (a :: int32)) n \<longleftrightarrow> m \<le> n \<and> n < 32 \<and> bit a (n - m)"
  by (auto simp: bit_push_bit_iff possible_bit_word)

lemma bit_8000: "(crc AND 0x8000 \<noteq> 0) \<longleftrightarrow> bit (crc :: int32) 15"
proof -
  have "(0x8000 :: int32) = push_bit 15 1" by simp
  then have "bit (crc AND 0x8000) n \<longleftrightarrow> n = 15 \<and> bit crc 15" for n
    by (simp only: bit_and_iff bit_push bit_1_iff) auto
  then show ?thesis by (metis bit_0_eq bot_apply bot_bool_def bit_word_eqI)
qed

lemma bit_ffff: "bit (0xffff :: int32) n \<longleftrightarrow> n < 16"
proof -
  have e: "(0xffff :: int32) = mask 16" by (simp add: mask_eq_exp_minus_1)
  show ?thesis unfolding e by (simp only: bit_mask_iff possible_bit_word) auto
qed

lemma bit_crc_bit:
  "bit (crc_bit crc) n \<longleftrightarrow> n < 16 \<and> ((n > 0 \<and> bit crc (n - 1)) \<noteq> (bit crc 15 \<and> bit (0x1021 :: int32) n))"
  unfolding crc_bit_def bit_8000
  by (simp only: bit_and_iff bit_ffff if_distrib [of "\<lambda>x. bit x n"] bit_xor_iff bit_push split: if_split) auto

lemma crc_bit_xor: "crc_bit (a XOR b) = crc_bit a XOR crc_bit b"
  by (rule bit_word_eqI) (auto simp: bit_crc_bit bit_simps)

lemma crc_bits_xor: "(crc_bit ^^ k) (a XOR b) = (crc_bit ^^ k) a XOR (crc_bit ^^ k) b"
  by (induction k) (simp_all add: crc_bit_xor)

lemma crc_byte_xor: "crc_byte (a XOR b) (x XOR y) = crc_byte a x XOR crc_byte b y"
proof -
  have "(a XOR b) XOR push_bit 8 (x XOR y) = (a XOR push_bit 8 x) XOR (b XOR push_bit 8 y)"
    by (simp add: push_bit_xor ac_simps)
  then show ?thesis by (simp add: crc_byte_def crc_bits_xor)
qed

lemma crc_xor:
  "length xs = length ys \<Longrightarrow>
   foldl crc_byte (a XOR b) (map2 (XOR) xs ys) = foldl crc_byte a xs XOR foldl crc_byte b ys"
  by (induction xs ys arbitrary: a b rule: list_induct2) (simp_all add: crc_byte_xor)

subsection \<open>The register is injective\<close>

lemma low_1021: "bit (0x1021 :: int32) 0"
  by simp

text \<open>If the low \<open>k\<close> bits are zero after \<open>k\<close> steps, no step had feedback.\<close>

lemma crc_bits_low:
  assumes "k \<le> 16" and "\<And>i. i < k \<Longrightarrow> \<not> bit ((crc_bit ^^ k) c) i" and "\<And>n. n \<ge> 16 \<Longrightarrow> \<not> bit c n"
  shows "(\<forall>n. bit ((crc_bit ^^ k) c) n \<longleftrightarrow> n < 16 \<and> n \<ge> k \<and> bit c (n - k)) \<and> (\<forall>i<k. \<not> bit c (15 - i))"
  using assms
proof (induction k)
  case 0
  then show ?case by (auto simp: not_le [symmetric])
next
  case (Suc k)
  let ?d = "(crc_bit ^^ k) c"
  have step: "bit ((crc_bit ^^ Suc k) c) n \<longleftrightarrow> n < 16 \<and> ((n > 0 \<and> bit ?d (n - 1)) \<noteq> (bit ?d 15 \<and> bit (0x1021 :: int32) n))" for n
    by (simp add: bit_crc_bit)
  have fb: "\<not> bit ?d 15" using Suc.prems(2) [of 0] step [of 0] low_1021 by auto
  have low: "\<not> bit ?d i" if "i < k" for i
    using Suc.prems(1) Suc.prems(2) [of "Suc i"] step [of "Suc i"] fb that by auto
  from Suc.IH [OF _ low Suc.prems(3)] Suc.prems(1)
  have IH: "\<forall>n. bit ?d n \<longleftrightarrow> n < 16 \<and> n \<ge> k \<and> bit c (n - k)" "\<forall>i<k. \<not> bit c (15 - i)" by auto
  have "\<not> bit c (15 - k)" using fb IH(1) Suc.prems(1) by auto
  with IH(2) have "\<forall>i<Suc k. \<not> bit c (15 - i)" by (auto simp: less_Suc_eq)
  moreover have "bit ((crc_bit ^^ Suc k) c) n \<longleftrightarrow> n < 16 \<and> n \<ge> Suc k \<and> bit c (n - Suc k)" for n
  proof (cases n)
    case 0
    then show ?thesis using step [of 0] fb by simp
  next
    case (Suc m)
    have "bit ?d m \<longleftrightarrow> m < 16 \<and> m \<ge> k \<and> bit c (m - k)" using IH(1) by blast
    then show ?thesis using step [of n] fb Suc by (simp del: funpow.simps) linarith
  qed
  ultimately show ?case by blast
qed

definition short :: "nat \<Rightarrow> int32 \<Rightarrow> bool" where
  "short k c \<longleftrightarrow> (\<forall>n\<ge>k. \<not> bit c n)"

lemma short_crc_bits: "k > 0 \<Longrightarrow> short 16 ((crc_bit ^^ k) c)"
  by (cases k) (auto simp: short_def bit_crc_bit)

lemma short_xor: "short k a \<Longrightarrow> short k b \<Longrightarrow> short k (a XOR b)"
  by (auto simp: short_def bit_simps)

lemma crc_bits_zero:
  assumes "(crc_bit ^^ k) c = 0" and "short 16 c"
  shows "c = 0"
  using assms
proof (induction k arbitrary: c)
  case (Suc k)
  have "(crc_bit ^^ k) (crc_bit c) = 0" using Suc.prems(1) by (simp add: funpow_swap1)
  with Suc.IH have z: "crc_bit c = 0" using short_crc_bits [of 1 c] by simp
  have "bit (crc_bit c) n = False" for n using z by simp
  then have all: "n < 16 \<longrightarrow> ((n > 0 \<and> bit c (n - 1)) = (bit c 15 \<and> bit (0x1021 :: int32) n))" for n
    using bit_crc_bit [of c n] by auto
  have f: "\<not> bit c 15" using all [of 0] low_1021 by auto
  have "\<not> bit c n" if "n < 15" for n using all [of "Suc n"] f that by auto
  with f Suc.prems(2) have "\<not> bit c n" for n
    unfolding short_def by (cases "n < 15"; cases "n = 15") auto
  then show ?case by (intro bit_word_eqI) auto
qed simp

end
