(* ===== verification/Stellar_Key_Theorems.thy ===== *)
theory Stellar_Key_Theorems
  imports Stellar_Key
begin

text \<open>
  Decoding is linear over exclusive or, eight characters to five bytes; with the linearity of the
  checksum, a single wrong character leaves a syndrome that is not zero.
\<close>

subsection \<open>Five bytes from eight characters\<close>

lemma bit_ff: "bit (0xff :: int32) n \<longleftrightarrow> n < 8"
proof -
  have e: "(0xff :: int32) = mask 8" by (simp add: mask_eq_exp_minus_1)
  show ?thesis unfolding e by (simp only: bit_mask_iff possible_bit_word) auto
qed

definition group_bytes :: "int32 \<Rightarrow> int32 \<Rightarrow> int32 \<Rightarrow> int32 \<Rightarrow> int32 \<Rightarrow> int32 \<Rightarrow> int32 \<Rightarrow> int32 \<Rightarrow> int32 list" where
  "group_bytes a b c d e f g h =
     [(push_bit 3 a XOR drop_bit 2 b) AND 0xff, (push_bit 6 b XOR push_bit 1 c XOR drop_bit 4 d) AND 0xff,
      (push_bit 4 d XOR drop_bit 1 e) AND 0xff, (push_bit 7 e XOR push_bit 2 f XOR drop_bit 3 g) AND 0xff,
      (push_bit 5 g XOR h) AND 0xff]"

lemmas bit_words = bit_and_iff bit_or_iff bit_xor_iff bit_push bit_drop_bit_eq bit_ff comp_apply

lemma pack_0: "short 5 a \<Longrightarrow> short 5 b \<Longrightarrow>
  drop_bit 2 (push_bit 5 (push_bit 5 v OR a) OR b) AND 0xff = (push_bit 3 a XOR drop_bit 2 b) AND 0xff"
  unfolding short_def by (intro bit_word_eqI) (simp only: bit_words, auto)

lemma pack_1: "short 5 b \<Longrightarrow> short 5 c \<Longrightarrow> short 5 d \<Longrightarrow>
  drop_bit 4 (push_bit 5 (push_bit 5 (push_bit 5 v OR b) OR c) OR d) AND 0xff
   = (push_bit 6 b XOR push_bit 1 c XOR drop_bit 4 d) AND 0xff"
  unfolding short_def by (intro bit_word_eqI) (simp only: bit_words, auto)

lemma pack_2: "short 5 d \<Longrightarrow> short 5 e \<Longrightarrow>
  drop_bit 1 (push_bit 5 (push_bit 5 v OR d) OR e) AND 0xff = (push_bit 4 d XOR drop_bit 1 e) AND 0xff"
  unfolding short_def by (intro bit_word_eqI) (simp only: bit_words, auto)

lemma pack_3: "short 5 e \<Longrightarrow> short 5 f \<Longrightarrow> short 5 g \<Longrightarrow>
  drop_bit 3 (push_bit 5 (push_bit 5 (push_bit 5 v OR e) OR f) OR g) AND 0xff
   = (push_bit 7 e XOR push_bit 2 f XOR drop_bit 3 g) AND 0xff"
  unfolding short_def by (intro bit_word_eqI) (simp only: bit_words, auto)

lemma pack_4: "short 5 g \<Longrightarrow> short 5 h \<Longrightarrow>
  (push_bit 5 (push_bit 5 v OR g) OR h) AND 0xff = (push_bit 5 g XOR h) AND 0xff"
  unfolding short_def by (intro bit_word_eqI) (simp only: bit_words, auto)

text \<open>The values of characters.\<close>

definition char_index :: "char \<Rightarrow> int32" where
  "char_index c = (case index_in c BASE32_ALPHABET of None \<Rightarrow> 0 | Some i \<Rightarrow> word_of_nat i)"

lemma index_in_less: "index_in c xs = Some i \<Longrightarrow> i < length xs"
  by (induction xs arbitrary: i) (auto split: if_splits)

lemma index_in_nth: "index_in c xs = Some i \<Longrightarrow> xs ! i = c"
  by (induction xs arbitrary: i) (auto split: if_splits)

lemma index_in_None: "index_in c xs = None \<longleftrightarrow> c \<notin> set xs"
  by (induction xs) auto

lemma alphabet_length: "length BASE32_ALPHABET = 32"
  by (simp add: BASE32_ALPHABET_def)

lemma short_index: "short 5 (char_index c)"
proof -
  have "i < 32 \<Longrightarrow> short 5 (word_of_nat i)" for i
  proof -
    assume "i < 32"
    have "\<not> bit i n" if "n \<ge> 5" for n
    proof -
      have "(2::nat) ^ 5 \<le> 2 ^ n" using that by (rule power_increasing) simp
      then have "i < 2 ^ n" using \<open>i < 32\<close> by simp
      then show ?thesis by (simp only: bit_iff_odd div_less) simp
    qed
    then show "short 5 (word_of_nat i)" unfolding short_def by (simp add: bit_of_nat_iff)
  qed
  then have some: "short 5 (word_of_nat i)" if "index_in c BASE32_ALPHABET = Some i" for i
    using index_in_less [OF that] alphabet_length by simp
  show ?thesis
  proof (cases "index_in c BASE32_ALPHABET")
    case None
    then show ?thesis by (simp add: char_index_def short_def)
  next
    case (Some i)
    then show ?thesis using some by (simp add: char_index_def)
  qed
qed

lemma char_index_inj:
  assumes "c \<in> set BASE32_ALPHABET" and "d \<in> set BASE32_ALPHABET" and "char_index c = char_index d"
  shows "c = d"
proof -
  obtain i j where ij: "index_in c BASE32_ALPHABET = Some i" "index_in d BASE32_ALPHABET = Some j"
    using assms(1,2) index_in_None by (metis not_None_eq)
  have "i < 32" "j < 32" using ij [THEN index_in_less] alphabet_length by simp_all
  moreover have "(word_of_nat i :: int32) = word_of_nat j" using assms(3) ij by (simp add: char_index_def)
  ultimately have "i = j" by (simp add: word_of_nat_eq_iff take_bit_nat_eq_self)
  with ij index_in_nth show ?thesis by metis
qed

definition in_alphabet :: "string \<Rightarrow> bool" where
  "in_alphabet s \<longleftrightarrow> list_all (\<lambda>c. c \<in> set BASE32_ALPHABET) s"

lemma decode_char:
  assumes "c \<in> set BASE32_ALPHABET"
  shows "decode_loop n v (c # cs) = (let v' = push_bit 5 v OR char_index c in
     if n + 5 \<ge> 8 then map_option ((#) (drop_bit (n + 5 - 8) v' AND 0xff)) (decode_loop (n + 5 - 8) v' cs)
     else decode_loop (n + 5) v' cs)"
  using assms index_in_None [of c] by (auto simp: char_index_def Let_def split: option.splits)

lemma decode_quiet:
  assumes "c \<in> set BASE32_ALPHABET" and "n < 3"
  shows "decode_loop n v (c # cs) = decode_loop (n + 5) (push_bit 5 v OR char_index c) cs"
  using assms(2) by (simp only: decode_char [OF assms(1)] Let_def) simp

lemma decode_byte:
  assumes "c \<in> set BASE32_ALPHABET" and "n \<ge> 3"
  shows "decode_loop n v (c # cs) =
    map_option ((#) (drop_bit (n - 3) (push_bit 5 v OR char_index c) AND 0xff)) (decode_loop (n - 3) (push_bit 5 v OR char_index c) cs)"
  using assms(2) by (simp only: decode_char [OF assms(1)] Let_def) simp

lemma decode_steps:
  assumes "c \<in> set BASE32_ALPHABET"
  shows "decode_loop 0 v (c # cs) = decode_loop 5 (push_bit 5 v OR char_index c) cs"
    "decode_loop 2 v (c # cs) = decode_loop 7 (push_bit 5 v OR char_index c) cs"
    "decode_loop 1 v (c # cs) = decode_loop 6 (push_bit 5 v OR char_index c) cs"
    "decode_loop 5 v (c # cs) = map_option ((#) (drop_bit 2 (push_bit 5 v OR char_index c) AND 0xff)) (decode_loop 2 (push_bit 5 v OR char_index c) cs)"
    "decode_loop 7 v (c # cs) = map_option ((#) (drop_bit 4 (push_bit 5 v OR char_index c) AND 0xff)) (decode_loop 4 (push_bit 5 v OR char_index c) cs)"
    "decode_loop 4 v (c # cs) = map_option ((#) (drop_bit 1 (push_bit 5 v OR char_index c) AND 0xff)) (decode_loop 1 (push_bit 5 v OR char_index c) cs)"
    "decode_loop 6 v (c # cs) = map_option ((#) (drop_bit 3 (push_bit 5 v OR char_index c) AND 0xff)) (decode_loop 3 (push_bit 5 v OR char_index c) cs)"
    "decode_loop 3 v (c # cs) = map_option ((#) ((push_bit 5 v OR char_index c) AND 0xff)) (decode_loop 0 (push_bit 5 v OR char_index c) cs)"
  using decode_quiet [OF assms, of 0] decode_quiet [OF assms, of 2] decode_quiet [OF assms, of 1]
    decode_byte [OF assms, of 5] decode_byte [OF assms, of 7] decode_byte [OF assms, of 4] decode_byte [OF assms, of 6]
    decode_byte [OF assms, of 3]
  by (simp_all del: decode_loop.simps(2) push_bit_or)

fun pack :: "int32 list \<Rightarrow> int32 list" where
  "pack (a # b # c # d # e # f # g # h # r) = group_bytes a b c d e f g h @ pack r"
| "pack r = []"

lemma map_append5: "map_option ((@) [p, q, r, s, t]) x = map_option (\<lambda>y. p # q # r # s # t # y) x"
  by (cases x) auto

lemma decode_group:
  assumes "in_alphabet [a, b, c, d, e, f, g, h]"
  shows "\<exists>v'. decode_loop 0 v (a # b # c # d # e # f # g # h # cs)
    = map_option ((@) (group_bytes (char_index a) (char_index b) (char_index c) (char_index d) (char_index e)
        (char_index f) (char_index g) (char_index h))) (decode_loop 0 v' cs)"
proof -
  have m: "a \<in> set BASE32_ALPHABET" "b \<in> set BASE32_ALPHABET" "c \<in> set BASE32_ALPHABET" "d \<in> set BASE32_ALPHABET"
    "e \<in> set BASE32_ALPHABET" "f \<in> set BASE32_ALPHABET" "g \<in> set BASE32_ALPHABET" "h \<in> set BASE32_ALPHABET"
    using assms by (simp_all add: in_alphabet_def)
  show ?thesis
    by (rule exI) (simp only: decode_steps [OF m(1)] decode_steps [OF m(2)] decode_steps [OF m(3)] decode_steps [OF m(4)]
        decode_steps [OF m(5)] decode_steps [OF m(6)] decode_steps [OF m(7)] decode_steps [OF m(8)]
        pack_0 pack_1 pack_2 pack_3 pack_4 short_index group_bytes_def option.map_comp comp_def map_append5)
qed

lemma decode_pack:
  "in_alphabet s \<Longrightarrow> length s = 8 * n \<Longrightarrow> decode_loop 0 v s = Some (pack (map char_index s))"
proof (induction n arbitrary: s v)
  case (Suc n)
  then obtain a b c d e f g h r where s: "s = a # b # c # d # e # f # g # h # r"
    by (auto simp: length_Suc_conv numeral_eq_Suc)
  have "in_alphabet [a, b, c, d, e, f, g, h]" "in_alphabet r" "length r = 8 * n"
    using Suc.prems s by (auto simp: in_alphabet_def)
  with Suc.IH [of r] decode_group [of a b c d e f g h v r] show ?case
    unfolding s by (auto simp del: decode_loop.simps(2))
qed simp

subsection \<open>The syndrome of a wrong character\<close>

lemma group_xor:
  "group_bytes (a XOR a') (b XOR b') (c XOR c') (d XOR d') (e XOR e') (f XOR f') (g XOR g') (h XOR h')
   = map2 (XOR) (group_bytes a b c d e f g h) (group_bytes a' b' c' d' e' f' g' h')"
proof -
  have d: "(x XOR y) AND 0xff = (x AND 0xff) XOR (y AND 0xff)" for x y :: int32
    by (rule bit_word_eqI) (simp only: bit_words, auto)
  show ?thesis
    by (simp only: group_bytes_def push_bit_xor drop_bit_xor d zip_Cons_Cons zip_Nil list.map prod.case
        xor.assoc xor.commute xor.left_commute)
qed

lemma pack_xor:
  "length xs = 8 * n \<Longrightarrow> length ys = 8 * n \<Longrightarrow> pack (map2 (XOR) xs ys) = map2 (XOR) (pack xs) (pack ys)"
proof (induction n arbitrary: xs ys)
  case (Suc n)
  obtain a b c d e f g h r where x: "xs = a # b # c # d # e # f # g # h # r"
    using Suc.prems(1) by (auto simp: length_Suc_conv numeral_eq_Suc)
  obtain a' b' c' d' e' f' g' h' r' where y: "ys = a' # b' # c' # d' # e' # f' # g' # h' # r'"
    using Suc.prems(2) by (auto simp: length_Suc_conv numeral_eq_Suc)
  have r: "length r = 8 * n" "length r' = 8 * n" using Suc.prems x y by auto
  have z: "zip (group_bytes a b c d e f g h @ pack r) (group_bytes a' b' c' d' e' f' g' h' @ pack r')
    = zip (group_bytes a b c d e f g h) (group_bytes a' b' c' d' e' f' g' h') @ zip (pack r) (pack r')"
    by (rule zip_append) (simp add: group_bytes_def)
  have "pack (map2 (XOR) xs ys)
    = group_bytes (a XOR a') (b XOR b') (c XOR c') (d XOR d') (e XOR e') (f XOR f') (g XOR g') (h XOR h') @ pack (map2 (XOR) r r')"
    unfolding x y by simp
  also have "\<dots> = map2 (XOR) (pack xs) (pack ys)"
    unfolding x y pack.simps z map_append group_xor Suc.IH [OF r] ..
  finally show ?case .
qed simp

lemma length_pack: "length xs = 8 * n \<Longrightarrow> length (pack xs) = 5 * n"
proof (induction n arbitrary: xs)
  case (Suc n)
  obtain a b c d e f g h r where x: "xs = a # b # c # d # e # f # g # h # r"
    using Suc.prems(1) by (auto simp: length_Suc_conv numeral_eq_Suc)
  with Suc show ?case by (simp add: group_bytes_def)
qed simp

lemma short_pack: "length xs = 8 * n \<Longrightarrow> list_all (short 8) (pack xs)"
proof (induction n arbitrary: xs)
  case (Suc n)
  obtain a b c d e f g h r where x: "xs = a # b # c # d # e # f # g # h # r"
    using Suc.prems(1) by (auto simp: length_Suc_conv numeral_eq_Suc)
  have "short 8 (w AND 0xff)" for w :: int32
    unfolding short_def by (simp only: bit_and_iff bit_ff) auto
  with Suc x show ?case by (simp add: group_bytes_def)
qed simp

definition syndrome :: "int32 list \<Rightarrow> int32" where
  "syndrome bs = crc16xmodem (take 33 bs) XOR (bs ! 33 XOR push_bit 8 (bs ! 34))"

lemma syndrome_xor:
  assumes "length xs = 35" and "length ys = 35"
  shows "syndrome (map2 (XOR) xs ys) = syndrome xs XOR syndrome ys"
proof -
  have "crc16xmodem (take 33 (map2 (XOR) xs ys)) = crc16xmodem (take 33 xs) XOR crc16xmodem (take 33 ys)"
    using crc_xor [of "take 33 xs" "take 33 ys" 0 0] assms by (simp add: crc16xmodem_def take_map take_zip)
  then show ?thesis using assms by (simp add: syndrome_def push_bit_xor ac_simps)
qed

lemma valid_syndrome:
  assumes "isValidStellarPublicKey k"
  shows "length k = 56 \<and> in_alphabet k \<and> syndrome (pack (map char_index k)) = 0"
proof -
  have len: "length k = 56" and al: "in_alphabet k"
    using assms by (auto simp: isValidStellarPublicKey_def STRKEY_LENGTH_def strkey_format_def in_alphabet_def
        BASE32_ALPHABET_def split: list.splits)
  let ?b = "pack (map char_index k)"
  have d: "decodeBase32 k = Some ?b" using decode_pack [OF al, of 7] len by (simp add: decodeBase32_def)
  have l: "length ?b = 35" using length_pack [of "map char_index k" 7] len by simp
  have "short 8 (?b ! 33)" using short_pack [of "map char_index k" 7] len l by (simp add: list_all_length)
  then have "?b ! 33 OR push_bit 8 (?b ! 34) = ?b ! 33 XOR push_bit 8 (?b ! 34)"
    unfolding short_def by (intro bit_word_eqI) (simp only: bit_words, auto)
  with assms d have "crc16xmodem (take 33 ?b) = ?b ! 33 XOR push_bit 8 (?b ! 34)"
    by (simp add: isValidStellarPublicKey_def)
  then show ?thesis using len al by (simp add: syndrome_def)
qed

definition unit_error :: "nat \<Rightarrow> nat \<Rightarrow> int32 \<Rightarrow> int32 list" where
  "unit_error n p d = (replicate n 0)[p := d]"

lemma map_index_update:
  assumes "p < length k"
  shows "map char_index (k[p := c]) = map2 (XOR) (map char_index k)
    (unit_error (length k) p (char_index (k ! p) XOR char_index c))"
  using assms by (intro nth_equalityI) (auto simp: unit_error_def nth_list_update xor.assoc [symmetric])

lemma pack_zeros: "pack (replicate (8 * g) 0 @ xs) = replicate (5 * g) 0 @ pack xs"
proof (induction g)
  case (Suc g)
  have "replicate (8 * Suc g) (0 :: int32) = 0 # 0 # 0 # 0 # 0 # 0 # 0 # 0 # replicate (8 * g) 0"
    by (simp add: numeral_eq_Suc)
  moreover have "replicate (5 * Suc g) (0 :: int32) = 0 # 0 # 0 # 0 # 0 # replicate (5 * g) 0"
    by (simp add: numeral_eq_Suc)
  ultimately show ?case using Suc by (simp add: group_bytes_def)
qed simp

lemma list_of_eight: "length xs = 8 \<Longrightarrow> \<exists>a b c d e f g h. xs = [a, b, c, d, e, f, g, h]"
  by (auto simp: length_Suc_conv numeral_eq_Suc)

lemma pack_unit:
  assumes "q < 8" and "g \<le> 6"
  shows "pack (unit_error 56 (8 * g + q) d) = replicate (5 * g) 0 @ pack (unit_error 8 q d) @ replicate (5 * (6 - g)) 0"
proof -
  have e: "(56::nat) = 8 * g + (8 + 8 * (6 - g))" using assms(2) by simp
  have "unit_error 56 (8 * g + q) d = replicate (8 * g) 0 @ unit_error 8 q d @ replicate (8 * (6 - g)) 0"
    using assms(1) unfolding unit_error_def
    by (subst e) (simp only: replicate_add list_update_append, simp)
  moreover have "length (unit_error 8 q d) = 8" by (simp add: unit_error_def)
  then obtain a1 a2 a3 a4 a5 a6 a7 a8 where u: "unit_error 8 q d = [a1, a2, a3, a4, a5, a6, a7, a8]"
    using list_of_eight by blast
  moreover have "pack (replicate (8 * (6 - g)) 0) = replicate (5 * (6 - g)) 0"
    using pack_zeros [of "6 - g" "[]"] by (simp only: append_Nil2 pack.simps)
  ultimately show ?thesis by (simp only: u pack_zeros append_Cons append_Nil pack.simps append_assoc append_Nil2)
qed

subsection \<open>It is never zero\<close>

lemma crc_byte_0 [simp]: "crc_byte 0 0 = 0"
proof -
  have "(crc_bit ^^ k) 0 = 0" for k by (induction k) (simp_all add: crc_bit_def)
  then show ?thesis by (simp add: crc_byte_def)
qed

lemma crc_zeros: "foldl crc_byte 0 (replicate n 0) = 0"
  by (induction n) simp_all

lemma crc_skip: "crc16xmodem (replicate n 0 @ xs) = crc16xmodem xs"
  by (simp add: crc16xmodem_def crc_zeros)

lemma crc_byte_short: "short 16 (crc_byte c b)"
  unfolding crc_byte_def by (rule short_crc_bits) simp

lemma crc_trail:
  assumes "short 16 c" and "foldl crc_byte c (replicate n 0) = 0"
  shows "c = 0"
  using assms
proof (induction n arbitrary: c)
  case (Suc n)
  then have "crc_byte c 0 = 0" using crc_byte_short by simp
  then show ?case using crc_bits_zero Suc.prems(1) by (simp add: crc_byte_def)
qed simp

lemma xor_zero_eq: "a XOR b = (0 :: int32) \<Longrightarrow> a = b"
proof -
  assume "a XOR b = 0"
  then have "(a XOR b) XOR b = 0 XOR b" by simp
  then show ?thesis by (simp add: xor.assoc)
qed

lemma crc_two_bytes:
  assumes x: "short 8 x" and y: "short 8 y" and z: "crc16xmodem [x, y] = 0"
  shows "x = 0 \<and> y = 0"
proof -
  let ?t = "(crc_bit ^^ 8) (push_bit 8 x)"
  have sx: "short 16 (push_bit 8 x)" and sy: "short 16 (push_bit 8 y)"
    using x y by (auto simp: short_def bit_push)
  have st: "short 16 ?t" by (rule short_crc_bits) simp
  have "(crc_bit ^^ 8) (?t XOR push_bit 8 y) = 0" using z by (simp add: crc16xmodem_def crc_byte_def)
  then have e: "?t XOR push_bit 8 y = 0" using crc_bits_zero short_xor [OF st sy] by blast
  then have t: "?t = push_bit 8 y" by (rule xor_zero_eq)
  have low: "\<not> bit ?t i" if "i < 8" for i using that unfolding t bit_push by simp
  have "\<not> bit (push_bit 8 x) n" if "n \<ge> 16" for n using sx that by (simp only: short_def) blast
  from crc_bits_low [of 8 "push_bit 8 x", OF _ low this]
  have hi: "\<forall>i<8. \<not> bit (push_bit 8 x) (15 - i)" by simp
  have "\<not> bit x n" for n
  proof (cases "n < 8")
    case True
    then have "\<not> bit (push_bit 8 x) (15 - (7 - n))" by (intro hi [rule_format]) simp
    then show ?thesis using True unfolding bit_push by simp
  qed (use x in \<open>simp add: short_def\<close>)
  then have "x = 0" by (intro bit_word_eqI) simp
  moreover have "(crc_bit ^^ 8) 0 = 0" using crc_byte_0 by (simp add: crc_byte_def)
  ultimately have "push_bit 8 y = 0" using t by simp
  then have z8: "\<not> bit (push_bit 8 y) (n + 8)" for n by simp
  have "\<not> bit y n" if "n < 8" for n using z8 [of n] that unfolding bit_push by simp
  moreover have "\<not> bit y n" if "n \<ge> 8" for n using y that by (simp add: short_def)
  ultimately have "\<not> bit y n" for n using leI by blast
  then have "y = 0" by (intro bit_word_eqI) simp
  with \<open>x = 0\<close> show ?thesis by simp
qed

lemma short_ff: "short 8 (w AND 0xff)"
  unfolding short_def by (simp only: bit_and_iff bit_ff) auto

text \<open>A character that is not zero leaves a byte that is not zero.\<close>

lemma split_char:
  assumes "short 5 d" and "m \<le> 5" and "push_bit (8 - m) d AND 0xff = 0" and "drop_bit m d AND 0xff = 0"
  shows "d = 0"
proof -
  have "\<not> bit d n" for n
  proof -
    consider "n < m" | "m \<le> n" "n < 5" | "n \<ge> 5" by linarith
    then show ?thesis
    proof cases
      case 1
      have "\<not> bit (push_bit (8 - m) d AND 0xff) (n + (8 - m))" using assms(3) by simp
      then show ?thesis using 1 assms(2) by (simp only: bit_words) auto
    next
      case 2
      have "\<not> bit (drop_bit m d AND 0xff) (n - m)" using assms(4) by simp
      then show ?thesis using 2 by (simp only: bit_words) auto
    qed (use assms(1) in \<open>simp add: short_def\<close>)
  qed
  then show ?thesis by (intro bit_word_eqI) simp
qed

lemma whole_char:
  assumes "short 5 d" and "k \<le> 3" and "push_bit k d AND 0xff = 0"
  shows "d = 0"
proof -
  have "\<not> bit d n" for n
  proof (cases "n < 5")
    case True
    have "\<not> bit (push_bit k d AND 0xff) (n + k)" using assms(3) by simp
    then show ?thesis using True assms(2) by (simp only: bit_words) auto
  qed (use assms(1) in \<open>simp add: short_def\<close>)
  then show ?thesis by (intro bit_word_eqI) simp
qed

lemma unit_bytes:
  "pack (unit_error 8 0 d) = [push_bit 3 d AND 0xff, 0, 0, 0, 0]"
  "pack (unit_error 8 1 d) = [drop_bit 2 d AND 0xff, push_bit 6 d AND 0xff, 0, 0, 0]"
  "pack (unit_error 8 2 d) = [0, push_bit 1 d AND 0xff, 0, 0, 0]"
  "pack (unit_error 8 3 d) = [0, drop_bit 4 d AND 0xff, push_bit 4 d AND 0xff, 0, 0]"
  "pack (unit_error 8 4 d) = [0, 0, drop_bit 1 d AND 0xff, push_bit 7 d AND 0xff, 0]"
  "pack (unit_error 8 5 d) = [0, 0, 0, push_bit 2 d AND 0xff, 0]"
  "pack (unit_error 8 6 d) = [0, 0, 0, drop_bit 3 d AND 0xff, push_bit 5 d AND 0xff]"
  "pack (unit_error 8 7 d) = [0, 0, 0, 0, push_bit 0 d AND 0xff]"
  by (simp_all add: unit_error_def group_bytes_def numeral_eq_Suc)

lemma reps: "replicate 0 z = []" "replicate 1 z = [z]" "replicate 2 z = [z, z]" "replicate 3 z = [z, z, z]"
  by (simp_all add: numeral_eq_Suc)

definition two_bytes :: "int32 list \<Rightarrow> nat \<Rightarrow> int32 \<Rightarrow> int32 \<Rightarrow> nat \<Rightarrow> bool" where
  "two_bytes bs m x y n \<longleftrightarrow> bs = replicate m 0 @ [x, y] @ replicate n 0 \<and> m + n = 3 \<and> short 8 x \<and> short 8 y \<and> (x \<noteq> 0 \<or> y \<noteq> 0)"

lemma short_0 [simp]: "short k 0"
  by (simp add: short_def)

lemma unit_two_bytes:
  assumes d: "short 5 d" "d \<noteq> 0"
  shows "two_bytes (pack (unit_error 8 0 d)) 0 (push_bit 3 d AND 0xff) 0 3"
    "two_bytes (pack (unit_error 8 1 d)) 0 (drop_bit 2 d AND 0xff) (push_bit 6 d AND 0xff) 3"
    "two_bytes (pack (unit_error 8 2 d)) 1 (push_bit 1 d AND 0xff) 0 2"
    "two_bytes (pack (unit_error 8 3 d)) 1 (drop_bit 4 d AND 0xff) (push_bit 4 d AND 0xff) 2"
    "two_bytes (pack (unit_error 8 4 d)) 2 (drop_bit 1 d AND 0xff) (push_bit 7 d AND 0xff) 1"
    "two_bytes (pack (unit_error 8 5 d)) 3 (push_bit 2 d AND 0xff) 0 0"
    "two_bytes (pack (unit_error 8 6 d)) 3 (drop_bit 3 d AND 0xff) (push_bit 5 d AND 0xff) 0"
    "two_bytes (pack (unit_error 8 7 d)) 3 0 (push_bit 0 d AND 0xff) 0"
  using whole_char [OF d(1), of 3] whole_char [OF d(1), of 1] whole_char [OF d(1), of 2] whole_char [OF d(1), of 0]
    split_char [OF d(1), of 2] split_char [OF d(1), of 4] split_char [OF d(1), of 1] split_char [OF d(1), of 3] d(2)
  unfolding two_bytes_def unit_bytes reps
  by (auto simp: short_ff)

lemma unit_shape:
  assumes "q < 8" and "short 5 d" and "d \<noteq> 0"
  obtains m x y n where "two_bytes (pack (unit_error 8 q d)) m x y n"
proof -
  consider "q = 0" | "q = 1" | "q = 2" | "q = 3" | "q = 4" | "q = 5" | "q = 6" | "q = 7" using assms(1) by linarith
  then show thesis using unit_two_bytes [OF assms(2,3)] that by cases blast+
qed

lemma crc_two_in_zeros:
  assumes "two_bytes bs m x y n"
  shows "crc16xmodem (bs @ replicate k 0) \<noteq> 0"
proof
  assume z: "crc16xmodem (bs @ replicate k 0) = 0"
  have "crc16xmodem (replicate m 0 @ [x, y] @ replicate (n + k) 0) = 0"
    using z assms by (simp add: two_bytes_def replicate_add)
  then have "foldl crc_byte (crc16xmodem [x, y]) (replicate (n + k) 0) = 0"
    by (simp add: crc16xmodem_def crc_zeros)
  moreover have "short 16 (crc16xmodem [x, y])" by (simp add: crc16xmodem_def crc_byte_short)
  ultimately have "crc16xmodem [x, y] = 0" by (rule crc_trail [rotated])
  with crc_two_bytes assms show False by (auto simp: two_bytes_def)
qed

lemma eight_times: "(f ^^ 8) x = f (f (f (f (f (f (f (f x)))))))"
  by (simp add: numeral_eq_Suc)

lemma nibble: "list_all (\<lambda>a. drop_bit 8 ((crc_bit ^^ 8) (push_bit 8 a)) \<noteq> 0) [1, 2, 3, 4, 5, 6, 7, 8, 9, 10, 11, 12, 13, 14, 15]"
  by (simp add: eight_times crc_bit_def)

lemma short_4_cases:
  assumes "short 4 a" and "a \<noteq> 0"
  shows "a \<in> set [1, 2, 3, 4, 5, 6, 7, 8, 9, 10, 11, 12, 13, 14, 15]"
proof -
  have "bit a n \<longleftrightarrow> n < 4 \<and> bit a n" for n using assms(1) not_le by (auto simp: short_def)
  then have "a = take_bit 4 a" by (intro bit_word_eqI) (simp add: bit_take_bit_iff)
  then have "unat a = take_bit 4 (unat a)" by (metis unsigned_take_bit_eq)
  then have "unat a < 16" using take_bit_nat_less_exp [of 4 "unat a"] by simp
  then have u: "unat a \<in> set [0..<16]" by simp
  have l: "[0..<16] = [0, 1, 2, 3, 4, 5, 6, 7, 8, 9, 10, 11, 12, 13, 14, 15 :: nat]" by (simp add: upt_conv_Cons numeral_eq_Suc)
  obtain k where "k \<in> set [0, 1, 2, 3, 4, 5, 6, 7, 8, 9, 10, 11, 12, 13, 14, 15 :: nat]" "a = word_of_nat k"
    using u unfolding l by (rule that) simp
  with assms(2) show ?thesis by auto
qed

text \<open>The error in a group before the last one reaches the payload only.\<close>

lemma syndrome_append:
  "length bs = 33 \<Longrightarrow> syndrome (bs @ [x, y]) = crc16xmodem bs XOR (x XOR push_bit 8 y)"
  by (simp add: syndrome_def nth_append)

lemma syndrome_payload:
  assumes "q < 8" and "g < 6" and "short 5 d" and "d \<noteq> 0"
  shows "syndrome (pack (unit_error 56 (8 * g + q) d)) \<noteq> 0"
proof -
  obtain m x y n where b: "two_bytes (pack (unit_error 8 q d)) m x y n" using unit_shape assms(1,3,4) by blast
  let ?b = "pack (unit_error 8 q d)"
  let ?p = "replicate (5 * g) (0 :: int32) @ ?b @ replicate (28 - 5 * g) 0"
  have l: "length ?b = 5" using length_pack [of "unit_error 8 q d" 1] by (simp add: unit_error_def)
  have e: "5 * (6 - g) = (28 - 5 * g) + 2" using assms(2) by simp
  have p: "pack (unit_error 56 (8 * g + q) d) = ?p @ [0, 0]"
    using pack_unit [of q g d] assms(1,2) by (simp only: e replicate_add reps) simp
  have "length ?p = 33" using l assms(2) by simp
  from syndrome_append [OF this] have "syndrome (?p @ [0, 0]) = crc16xmodem ?p" by simp
  then show ?thesis using crc_two_in_zeros [OF b] unfolding p by (simp only: crc_skip not_False_eq_True)
qed

text \<open>In the last group it reaches the payload, the checksum, or both at once.\<close>

lemma crc_pad:
  assumes "crc16xmodem [x, y, z] = 0"
  shows "crc16xmodem [x, y, z, 0, 0] = 0"
  using assms by (simp add: crc16xmodem_def)

lemma checksum_nonzero:
  assumes "short 8 x" and "x XOR push_bit 8 y = 0" and "short 8 y"
  shows "x = 0 \<and> y = 0"
proof -
  have e: "x = push_bit 8 y" by (rule xor_zero_eq [OF assms(2)])
  have y: "\<not> bit y n" for n
  proof (cases "n < 8")
    case True
    have "\<not> bit x (n + 8)" using assms(1) by (simp add: short_def)
    then show ?thesis using True unfolding e by (simp only: bit_push) auto
  qed (use assms(3) in \<open>simp add: short_def\<close>)
  then have "y = 0" by (intro bit_word_eqI) simp
  with e show ?thesis by simp
qed

lemma straddling_nonzero:
  assumes "short 5 d" and "d \<noteq> 0"
  shows "crc16xmodem [0, 0, drop_bit 1 d AND 0xff] XOR (push_bit 7 d AND 0xff) \<noteq> 0"
proof
  let ?a = "drop_bit 1 d AND 0xff" and ?x = "push_bit 7 d AND 0xff"
  assume "crc16xmodem [0, 0, ?a] XOR ?x = 0"
  then have e: "(crc_bit ^^ 8) (push_bit 8 ?a) = ?x"
    using xor_zero_eq by (simp only: crc16xmodem_def foldl.simps crc_byte_0) (simp add: crc_byte_def)
  have a: "short 4 ?a" unfolding short_def using assms(1) by (simp only: bit_words short_def) auto
  have "drop_bit 8 ?x = 0" by (rule bit_word_eqI) (simp only: bit_words, simp)
  with e have "drop_bit 8 ((crc_bit ^^ 8) (push_bit 8 ?a)) = 0" by simp
  then have a0: "?a = 0" using short_4_cases [OF a] nibble unfolding list_all_iff by blast
  have "(crc_bit ^^ 8) 0 = 0" using crc_byte_0 by (simp add: crc_byte_def)
  then have "?x = 0" using e [symmetric] by (simp only: a0 push_bit_of_0)
  with a0 assms split_char [OF assms(1), of 1] show False by simp
qed

lemma syndrome_tail:
  assumes "q < 8" and d: "short 5 d" "d \<noteq> 0"
  shows "syndrome (pack (unit_error 56 (48 + q) d)) \<noteq> 0"
proof -
  have p: "pack (unit_error 56 (48 + q) d) = replicate 30 0 @ pack (unit_error 8 q d)"
    using pack_unit [of q 6 d] assms(1) by simp
  have s: "syndrome (replicate 30 0 @ [b0, b1, b2, b3, b4]) = crc16xmodem [b0, b1, b2] XOR (b3 XOR push_bit 8 b4)" for b0 b1 b2 b3 b4
    using syndrome_append [of "replicate 30 0 @ [b0, b1, b2]" b3 b4] by (simp add: crc_skip)
  have z: "crc16xmodem [0, 0, 0] = 0" by (simp add: crc16xmodem_def)
  note c = crc_two_in_zeros [where k = 0, simplified]
  note u = unit_two_bytes [OF d]
  consider "q = 0" | "q = 1" | "q = 2" | "q = 3" | "q = 4" | "q = 5" | "q = 6" | "q = 7" using assms(1) by linarith
  then show ?thesis
  proof cases
    case 1 then show ?thesis using c [OF u(1)] crc_pad unfolding p by (simp only: unit_bytes s) auto
  next
    case 2 then show ?thesis using c [OF u(2)] crc_pad unfolding p by (simp only: unit_bytes s) auto
  next
    case 3 then show ?thesis using c [OF u(3)] crc_pad unfolding p by (simp only: unit_bytes s) auto
  next
    case 4 then show ?thesis using c [OF u(4)] crc_pad unfolding p by (simp only: unit_bytes s) auto
  next
    case 5 then show ?thesis using straddling_nonzero [OF d] unfolding p by (simp only: unit_bytes s) simp
  next
    case 6 then show ?thesis using checksum_nonzero [OF short_ff, of "push_bit 2 d" 0] whole_char [OF d(1), of 2] d(2)
      unfolding p by (simp only: unit_bytes s z) auto
  next
    case 7 then show ?thesis using checksum_nonzero [OF short_ff, of "drop_bit 3 d" "push_bit 5 d AND 0xff"]
        split_char [OF d(1), of 3] d(2) short_ff
      unfolding p by (simp only: unit_bytes s z) auto
  next
    case 8 then show ?thesis using checksum_nonzero [of 0 "push_bit 0 d AND 0xff"] whole_char [OF d(1), of 0] d(2) short_ff
      unfolding p by (simp only: unit_bytes s z) auto
  qed
qed

lemma syndrome_unit:
  assumes "p < 56" and "short 5 d" and "d \<noteq> 0"
  shows "syndrome (pack (unit_error 56 p d)) \<noteq> 0"
proof (cases "p < 48")
  case True
  then show ?thesis using syndrome_payload [of "p mod 8" "p div 8" d] assms by simp
next
  case False
  then show ?thesis using syndrome_tail [of "p - 48" d] assms by simp
qed

subsection \<open>The claim\<close>

text \<open>
  C35. A key with one mistyped character is rejected: of two strings that differ in exactly one position
  at most one is a Stellar public key, whatever the position and whatever the character.
\<close>

theorem single_typo_rejected:
  assumes "isValidStellarPublicKey k" and "p < length k" and "c \<noteq> k ! p"
  shows "\<not> isValidStellarPublicKey (k[p := c])"
proof
  assume v: "isValidStellarPublicKey (k[p := c])"
  let ?d = "char_index (k ! p) XOR char_index c"
  note k = valid_syndrome [OF assms(1)] and k' = valid_syndrome [OF v]
  have p: "p < 56" using k assms(2) by simp
  have m: "k ! p \<in> set BASE32_ALPHABET" "c \<in> set BASE32_ALPHABET"
    using k k' nth_mem [OF assms(2)] set_update_memI [OF assms(2), of c] by (simp_all add: in_alphabet_def list_all_iff)
  have d: "short 5 ?d" by (rule short_xor [OF short_index short_index])
  have "?d \<noteq> 0" using xor_zero_eq char_index_inj [OF m] assms(3) by blast
  from syndrome_unit [OF p d this] have n: "syndrome (pack (unit_error 56 p ?d)) \<noteq> 0" .
  have l: "length (map char_index k) = 8 * 7" "length (unit_error 56 p ?d) = 8 * 7" using k by (simp_all add: unit_error_def)
  have "pack (map char_index (k[p := c])) = map2 (XOR) (pack (map char_index k)) (pack (unit_error 56 p ?d))"
    using map_index_update [OF assms(2), of c] k pack_xor [OF l] by simp
  moreover have "length (pack (map char_index k)) = 35" "length (pack (unit_error 56 p ?d)) = 35"
    using length_pack [OF l(1)] length_pack [OF l(2)] by simp_all
  ultimately have "syndrome (pack (map char_index (k[p := c]))) = 0 XOR syndrome (pack (unit_error 56 p ?d))"
    using syndrome_xor k by simp
  with n k' show False by simp
qed

definition zero_account :: string where
  "zero_account = ''GAAAAAAAAAAAAAAAAAAAAAAAAAAAAAAAAAAAAAAAAAAAAAAAAAAAAWHF''"

lemma valid_key:
  assumes "in_alphabet k" and "length k = 56" and "hd k = CHR ''G''" and "pack (map char_index k) = b @ [x, y]"
    and "length b = 33" and "hd b = 48" and "crc16xmodem b = x OR push_bit 8 y"
  shows "isValidStellarPublicKey k"
proof -
  have "strkey_format k" using assms(1-3)
    by (cases k) (auto simp: strkey_format_def in_alphabet_def)
  moreover have "decodeBase32 k = Some (b @ [x, y])"
    using decode_pack [OF assms(1), of 7 0] assms(2,4) by (simp add: decodeBase32_def)
  moreover have "b ! 0 = 48" using assms(5,6) by (cases b) auto
  ultimately show ?thesis using assms(2,5,7)
    by (simp add: isValidStellarPublicKey_def STRKEY_LENGTH_def ED25519_PUBLIC_KEY_VERSION_BYTE_def nth_append)
qed

lemmas crc_eval = crc16xmodem_def crc_byte_def eight_times crc_bit_def

lemma zero_account_valid: "isValidStellarPublicKey zero_account"
proof (rule valid_key)
  show "in_alphabet zero_account" by (simp add: in_alphabet_def zero_account_def BASE32_ALPHABET_def)
  show "pack (map char_index zero_account) = [48, 0, 0, 0, 0, 0, 0, 0, 0, 0, 0, 0, 0, 0, 0, 0, 0, 0, 0, 0, 0, 0, 0, 0, 0, 0, 0, 0, 0, 0, 0, 0, 0] @ [0x58, 0xe5]"
    by (simp add: zero_account_def char_index_def BASE32_ALPHABET_def group_bytes_def)
  show "crc16xmodem [48, 0, 0, 0, 0, 0, 0, 0, 0, 0, 0, 0, 0, 0, 0, 0, 0, 0, 0, 0, 0, 0, 0, 0, 0, 0, 0, 0, 0, 0, 0, 0, 0] = 0x58 OR push_bit 8 0xe5" by (simp add: crc_eval)
qed (simp_all add: zero_account_def)

definition one_account :: string where
  "one_account = ''GAAAAAAAAAAAAAAAAAAAAAAAAAAAAAAAAAAAAAAAAAAAAAAAAAAAC6PV''"

lemma one_account_valid: "isValidStellarPublicKey one_account"
proof (rule valid_key)
  show "in_alphabet one_account" by (simp add: in_alphabet_def one_account_def BASE32_ALPHABET_def)
  show "pack (map char_index one_account) = [48, 0, 0, 0, 0, 0, 0, 0, 0, 0, 0, 0, 0, 0, 0, 0, 0, 0, 0, 0, 0, 0, 0, 0, 0, 0, 0, 0, 0, 0, 0, 0, 1] @ [121, 245]"
    by (simp add: one_account_def char_index_def BASE32_ALPHABET_def group_bytes_def)
  show "crc16xmodem [48, 0, 0, 0, 0, 0, 0, 0, 0, 0, 0, 0, 0, 0, 0, 0, 0, 0, 0, 0, 0, 0, 0, 0, 0, 0, 0, 0, 0, 0, 0, 0, 1] = 121 OR push_bit 8 245" by (simp add: crc_eval)
qed (simp_all add: one_account_def)

lemma single_typo_rejected_witness:
  "isValidStellarPublicKey zero_account \<and> \<not> isValidStellarPublicKey (zero_account[7 := CHR ''B''])"
proof -
  have "7 < length zero_account" "CHR ''B'' \<noteq> zero_account ! 7" by (simp_all add: zero_account_def)
  then show ?thesis using single_typo_rejected [OF zero_account_valid, of 7 "CHR ''B''"] zero_account_valid by blast
qed

end
