(* ===== verification/Custody_Policy.thy ===== *)
theory Custody_Policy
  imports Stellar_Key Decimal_Text Json_Text Js_Sort
begin

text \<open>
  Signing policy of the custody accounts, \<open>lib/custody/types.ts\<close> and \<open>lib/custody/policy.ts\<close>: the
  thresholds of each category of operations, the conditions on a set of signers, the weight of
  approvals, and the limits of payouts.

  Weights are rationals; a weight that is not finite fails the same integer test as a fraction.
  Messages that print numbers or lists are shortened.
\<close>

subsection \<open>Types\<close>

datatype op_category = Cat_issuance | Cat_payout | Cat_emergency | Cat_recovery | Cat_rotation

datatype signer_role = Sig_issuer | Sig_distribution | Sig_security | Sig_recovery

datatype quorum_type = Quorum_standard | Quorum_recovery

record signer =
  sg_signerId :: string
  sg_role :: signer_role
  sg_publicKey :: string
  sg_weight :: rat

text \<open>The classes of exceptions; \<open>Duplicate_key\<close> is error 11000 of the driver, \<open>Syntax\<close> that of \<open>BigInt\<close>.\<close>

datatype custody_error =
  Set_invariant string | Policy_violation string | Envelope_invalid string | Operation_invalid string
| Custody_refused string | Ambiguous_submission string | Rotation_refused string | Adapter_refused string
| Config_invalid string | Duplicate_key | Terminal_immutable | Audit_failed | Syntax | Other_failure string

record threshold_policy =
  tp_minSigners :: nat
  tp_minThreshold :: rat
  tp_eligibleRoles :: "signer_role list"
  tp_minDistinctRoles :: nat
  tp_maxApprovalWindowMs :: int
  tp_requireDestinationAllowlist :: bool

definition DEFAULT_THRESHOLD_POLICIES :: "op_category \<Rightarrow> threshold_policy" where
  "DEFAULT_THRESHOLD_POLICIES c = (case c of
     Cat_issuance \<Rightarrow> \<lparr>tp_minSigners = 3, tp_minThreshold = 2, tp_eligibleRoles = [Sig_issuer],
       tp_minDistinctRoles = 1, tp_maxApprovalWindowMs = 30 * 60 * 1000, tp_requireDestinationAllowlist = False\<rparr>
   | Cat_payout \<Rightarrow> \<lparr>tp_minSigners = 2, tp_minThreshold = 2, tp_eligibleRoles = [Sig_distribution],
       tp_minDistinctRoles = 1, tp_maxApprovalWindowMs = 15 * 60 * 1000, tp_requireDestinationAllowlist = True\<rparr>
   | Cat_emergency \<Rightarrow> \<lparr>tp_minSigners = 2, tp_minThreshold = 1, tp_eligibleRoles = [Sig_security, Sig_issuer],
       tp_minDistinctRoles = 1, tp_maxApprovalWindowMs = 10 * 60 * 1000, tp_requireDestinationAllowlist = False\<rparr>
   | Cat_recovery \<Rightarrow> \<lparr>tp_minSigners = 5, tp_minThreshold = 3, tp_eligibleRoles = [Sig_recovery],
       tp_minDistinctRoles = 1, tp_maxApprovalWindowMs = 60 * 60 * 1000, tp_requireDestinationAllowlist = False\<rparr>
   | Cat_rotation \<Rightarrow> \<lparr>tp_minSigners = 3, tp_minThreshold = 2,
       tp_eligibleRoles = [Sig_issuer, Sig_distribution, Sig_security],
       tp_minDistinctRoles = 2, tp_maxApprovalWindowMs = 60 * 60 * 1000, tp_requireDestinationAllowlist = False\<rparr>)"

definition getThresholdPolicy :: "op_category \<Rightarrow> threshold_policy" where
  "getThresholdPolicy c = DEFAULT_THRESHOLD_POLICIES c"

subsection \<open>Sets of signers\<close>

definition is_integer :: "rat \<Rightarrow> bool" where
  "is_integer x \<longleftrightarrow> of_int \<lfloor>x\<rfloor> = x"

fun signer_loop :: "string list \<Rightarrow> string list \<Rightarrow> rat \<Rightarrow> signer list \<Rightarrow> custody_error + rat" where
  "signer_loop ids keys acc [] = Inr acc"
| "signer_loop ids keys acc (sg # sgs) =
     (let key = normalizeStellarPublicKey (sg_publicKey sg) in
      if sg_signerId sg \<in> set ids then Inl (Set_invariant ''Duplicate signerId'')
      else if \<not> isValidStellarPublicKey key then Inl (Set_invariant ''Invalid signer public key'')
      else if key \<in> set keys then Inl (Set_invariant ''Duplicate signer public key'')
      else if \<not> is_integer (sg_weight sg) \<or> sg_weight sg \<le> 0 then
        Inl (Set_invariant ''Signer weight must be a positive integer'')
      else signer_loop (sg_signerId sg # ids) (key # keys) (acc + sg_weight sg) sgs)"

definition validateSignerSetInvariants :: "op_category \<Rightarrow> signer list \<Rightarrow> rat \<Rightarrow> custody_error + unit" where
  "validateSignerSetInvariants category signers threshold =
     (let policy = getThresholdPolicy category in
      if signers = [] then Inl (Set_invariant ''Signer set must include at least one signer'')
      else case signer_loop [] [] 0 signers of
        Inl e \<Rightarrow> Inl e
      | Inr totalWeight \<Rightarrow>
         if \<not> is_integer threshold \<or> threshold \<le> 0 then Inl (Set_invariant ''Threshold must be a positive integer'')
         else if threshold > totalWeight then
           Inl (Set_invariant ''Threshold exceeds total signer weight; this would permanently lock the account'')
         else if length signers < tp_minSigners policy then Inl (Set_invariant ''requires more signers'')
         else if threshold < tp_minThreshold policy then Inl (Set_invariant ''requires a higher threshold'')
         else if of_nat (length (filter (\<lambda>sg. sg_role sg \<in> set (tp_eligibleRoles policy)) signers)) < tp_minThreshold policy then
           Inl (Set_invariant ''requires more signers with an eligible role'')
         else if card (set (map sg_role signers)) < tp_minDistinctRoles policy then
           Inl (Set_invariant ''requires signers spanning more distinct roles'')
         else Inr ())"

definition signer_weight :: "signer list \<Rightarrow> string \<Rightarrow> rat" where
  "signer_weight signers i =
     (case find_one (\<lambda>sg. sg_signerId sg = i) signers of None \<Rightarrow> 0 | Some sg \<Rightarrow> sg_weight sg)"

definition sumApprovedWeight :: "string list \<Rightarrow> signer list \<Rightarrow> rat" where
  "sumApprovedWeight approvals signers =
     foldl (\<lambda>w i. w + signer_weight signers i) 0 (dedupe approvals)"

subsection \<open>Exact amounts\<close>

text \<open>\<open>BigInt(text)\<close>: decimal with an optional sign, or a radix prefix; the empty text is zero.\<close>

definition radix_digit :: "char \<Rightarrow> nat option" where
  "radix_digit c =
     (let n = of_char c :: nat in
      if 48 \<le> n \<and> n \<le> 57 then Some (n - 48) else if 97 \<le> n \<and> n \<le> 102 then Some (n - 87)
      else if 65 \<le> n \<and> n \<le> 70 then Some (n - 55) else None)"

fun radix_value :: "nat \<Rightarrow> nat \<Rightarrow> string \<Rightarrow> int option" where
  "radix_value r n [] = Some (int n)"
| "radix_value r n (c # cs) =
     (case radix_digit c of None \<Rightarrow> None | Some d \<Rightarrow> if d < r then radix_value r (r * n + d) cs else None)"

definition radix_text :: "nat \<Rightarrow> string \<Rightarrow> int option" where
  "radix_text r s = (if s = [] then None else radix_value r 0 s)"

definition js_BigInt :: "string \<Rightarrow> custody_error + int" where
  "js_BigInt text =
     (let t = js_trim text;
          v = (if t = [] then Some 0
               else if take 2 t \<in> {''0x'', ''0X''} then radix_text 16 (drop 2 t)
               else if take 2 t \<in> {''0o'', ''0O''} then radix_text 8 (drop 2 t)
               else if take 2 t \<in> {''0b'', ''0B''} then radix_text 2 (drop 2 t)
               else if hd t = CHR ''-'' then map_option uminus (radix_text 10 (tl t))
               else if hd t = CHR ''+'' then radix_text 10 (tl t)
               else radix_text 10 t)
      in case v of None \<Rightarrow> Inl Syntax | Some n \<Rightarrow> Inr n)"

record payout_check =
  pk_amount :: int
  pk_destination :: string
  pk_allowedDestinations :: "string list"
  pk_maxAmount :: "string option"
  pk_dailyTotalSoFar :: int
  pk_dailyLimit :: "string option"

text \<open>
  The texts of the amounts are printed from integers (\<open>toStroops\<close>) and read back here; the model
  passes the integers.
\<close>

definition within_limit :: "string option \<Rightarrow> int \<Rightarrow> custody_error \<Rightarrow> custody_error + unit" where
  "within_limit limit amount err =
     (case limit of
        None \<Rightarrow> Inr ()
      | Some l \<Rightarrow> (case js_BigInt l of Inl e \<Rightarrow> Inl e | Inr b \<Rightarrow> if amount > b then Inl err else Inr ()))"

definition assertPayoutWithinPolicy :: "payout_check \<Rightarrow> custody_error + unit" where
  "assertPayoutWithinPolicy inp =
     (let destination = normalizeStellarPublicKey (pk_destination inp) in
      if \<not> isValidStellarPublicKey destination then Inl (Policy_violation ''Invalid payout destination public key'')
      else if destination \<notin> set (map normalizeStellarPublicKey (pk_allowedDestinations inp)) then
        Inl (Policy_violation ''Destination is not on the payout allowlist'')
      else if pk_amount inp \<le> 0 then Inl (Policy_violation ''Payout amount must be positive'')
      else case within_limit (pk_maxAmount inp) (pk_amount inp)
             (Policy_violation ''Payout amount exceeds per-operation limit'') of
        Inl e \<Rightarrow> Inl e
      | Inr _ \<Rightarrow> within_limit (pk_dailyLimit inp) (pk_dailyTotalSoFar inp + pk_amount inp)
                   (Policy_violation ''Payout would exceed daily limit''))"

definition STROOPS_PER_UNIT :: int where
  "STROOPS_PER_UNIT = 10000000"

text \<open>\<open>toStroops\<close> of \<open>service.ts\<close>.\<close>

definition toStroops :: "string \<Rightarrow> custody_error + int" where
  "toStroops decimalAmount =
     (let parts = js_split (CHR ''.'') decimalAmount;
          whole = hd parts;
          fraction = (if length parts > 1 then parts ! 1 else []);
          paddedFraction = take 7 (fraction @ ''0000000'')
      in case js_BigInt (if whole = [] then ''0'' else whole) of
           Inl e \<Rightarrow> Inl e
         | Inr w \<Rightarrow> (case js_BigInt (if paddedFraction = [] then ''0'' else paddedFraction) of
              Inl e \<Rightarrow> Inl e
            | Inr f \<Rightarrow> Inr (w * STROOPS_PER_UNIT + f)))"

subsection \<open>What a checked set guarantees\<close>

lemma sumApprovedWeight_sum: "sumApprovedWeight ids signers = (\<Sum>i\<in>set ids. signer_weight signers i)"
proof -
  have "foldl (\<lambda>t i. t + signer_weight signers i) a xs = a + sum_list (map (signer_weight signers) xs)" for a xs
    by (induction xs arbitrary: a) simp_all
  then show ?thesis unfolding sumApprovedWeight_def by (simp add: sum_list_distinct_conv_sum_set)
qed

text \<open>Weights are positive, so another approval never lowers the sum; a repeated one changes nothing.\<close>

definition positive_weights :: "signer list \<Rightarrow> bool" where
  "positive_weights signers \<longleftrightarrow> list_all (\<lambda>sg. sg_weight sg > 0) signers"

lemma signer_weight_nonneg: "positive_weights signers \<Longrightarrow> 0 \<le> signer_weight signers i"
  by (fastforce simp: signer_weight_def positive_weights_def list_all_iff dest!: find_one_SomeD split: option.splits)

lemma sumApprovedWeight_mono:
  assumes "positive_weights signers" and "set is \<subseteq> set js"
  shows "sumApprovedWeight is signers \<le> sumApprovedWeight js signers"
  unfolding sumApprovedWeight_sum using assms by (intro sum_mono2) (auto intro: signer_weight_nonneg)

lemma signer_loop_total:
  "signer_loop ids keys acc sgs = Inr t \<Longrightarrow>
   t = acc + sum_list (map sg_weight sgs) \<and> positive_weights sgs \<and> distinct (map sg_signerId sgs)
   \<and> set (map sg_signerId sgs) \<inter> set ids = {}
   \<and> list_all (\<lambda>sg. isValidStellarPublicKey (normalizeStellarPublicKey (sg_publicKey sg))) sgs
   \<and> distinct (map (\<lambda>sg. normalizeStellarPublicKey (sg_publicKey sg)) sgs)
   \<and> (\<lambda>sg. normalizeStellarPublicKey (sg_publicKey sg)) ` set sgs \<inter> set keys = {}"
proof (induction sgs arbitrary: ids keys acc)
  case (Cons sg sgs)
  from Cons.prems have rec: "signer_loop (sg_signerId sg # ids) (normalizeStellarPublicKey (sg_publicKey sg) # keys)
      (acc + sg_weight sg) sgs = Inr t"
    and c: "sg_signerId sg \<notin> set ids" "isValidStellarPublicKey (normalizeStellarPublicKey (sg_publicKey sg))"
    "normalizeStellarPublicKey (sg_publicKey sg) \<notin> set keys" "0 < sg_weight sg"
    by (auto simp: Let_def split: if_splits)
  from Cons.IH [OF rec] c show ?case by (auto simp: positive_weights_def)
qed (simp add: positive_weights_def)

lemma all_signers_weight:
  assumes "distinct (map sg_signerId sgs)"
  shows "sumApprovedWeight (map sg_signerId sgs) sgs = sum_list (map sg_weight sgs)"
proof -
  have "signer_weight sgs (sg_signerId sg) = sg_weight sg" if "sg \<in> set sgs" for sg
    using find_key_unique [OF assms that] by (simp add: signer_weight_def)
  then have "map (signer_weight sgs) (map sg_signerId sgs) = map sg_weight sgs" by simp
  then show ?thesis using assms
    by (simp only: sumApprovedWeight_sum sum_list_distinct_conv_sum_set [symmetric])
qed

definition sound_set :: "signer list \<Rightarrow> rat \<Rightarrow> bool" where
  "sound_set signers threshold \<longleftrightarrow>
     distinct (map sg_signerId signers) \<and> positive_weights signers \<and> 0 < threshold
     \<and> threshold \<le> sumApprovedWeight (map sg_signerId signers) signers"

lemma validated_set_sound:
  assumes "validateSignerSetInvariants c signers threshold = Inr ()"
  shows "sound_set signers threshold"
proof -
  from assms obtain t where t: "signer_loop [] [] 0 signers = Inr t" "0 < threshold" "threshold \<le> t"
    by (auto simp: validateSignerSetInvariants_def Let_def split: if_splits sum.splits)
  from signer_loop_total [OF t(1)] t(2,3) show ?thesis by (simp add: sound_set_def all_signers_weight)
qed

end
