(* ===== verification/Custody_Envelope.thy ===== *)
theory Custody_Envelope
  imports Custody_Policy
begin

text \<open>
  What signers approve: the configuration of the network (\<open>lib/stellar/config.ts\<close>), the envelope
  (\<open>lib/custody/envelope.ts\<close>, \<open>canonical.ts\<close>), the operations built from its intent
  (\<open>operations.ts\<close>) and the signing adapters (\<open>signer-adapter.ts\<close>).

  The Stellar SDK is an argument: the two network passphrases, the XDR of operations, memos and
  transactions, key pairs.  So are the hash, the ISO text of a time, the collation order of
  \<open>localeCompare\<close>, the protocol of a URL (\<open>None\<close> when \<open>new URL\<close> throws) and a failure of the driver
  when the watermark is written.
\<close>

subsection \<open>The surroundings\<close>

record set_options =
  so_signer :: "(string \<times> json option) option"
  so_masterWeight :: "json option"
  so_lowThreshold :: "json option"
  so_medThreshold :: "json option"
  so_highThreshold :: "json option"

datatype memo_type = Memo_none | Memo_text | Memo_id | Memo_hash

record memo =
  mm_type :: memo_type
  mm_value :: "string option"

record custody_tx =
  tx_sourceAccount :: string
  tx_sequence :: int
  tx_passphrase :: string
  tx_minTime :: int
  tx_maxTime :: int
  tx_operations :: "string list"
  tx_memo :: "string option"

record stellar_sdk =
  sk_TESTNET :: string
  sk_PUBLIC :: string
  sk_payment :: "string \<Rightarrow> (json option \<times> string) option \<Rightarrow> string \<Rightarrow> custody_error + string"
  sk_setOptions :: "set_options \<Rightarrow> custody_error + string"
  sk_memo :: "memo_type \<Rightarrow> string \<Rightarrow> custody_error + string"
  sk_txHash :: "custody_tx \<Rightarrow> string"
  sk_localSign :: "string \<Rightarrow> string \<Rightarrow> string"

record custody_env = env +
  ce_vars :: "string \<Rightarrow> string option"
  ce_protocol :: "string \<Rightarrow> string option"
  ce_sdk :: stellar_sdk
  ce_iso :: "time \<Rightarrow> string"
  ce_num :: "rat \<Rightarrow> string"
  ce_collate :: "string \<Rightarrow> string \<Rightarrow> rat"
  ce_sha :: "string \<Rightarrow> string"
  ce_newId :: oid
  ce_watermarkFault :: "custody_error option"

subsection \<open>Configuration\<close>

definition STELLAR_NETWORKS :: "string list" where
  "STELLAR_NETWORKS = [''testnet'', ''mainnet'']"

record stellar_config =
  sf_network :: string
  sf_horizonUrl :: string
  sf_rpcUrl :: string
  sf_assetCode :: string
  sf_issuerPublicKey :: string
  sf_distributionPublicKey :: string
  sf_contractId :: string
  sf_mock :: bool

definition network_defaults :: "string \<Rightarrow> string \<times> string" where
  "network_defaults n =
     (if n = ''testnet'' then (''https://horizon-testnet.stellar.org'', ''https://soroban-testnet.stellar.org'')
      else (''https://horizon.stellar.org'', ''https://soroban-mainnet.stellar.org''))"

definition REQUIRED_DEPLOYMENT_FIELDS :: "string list" where
  "REQUIRED_DEPLOYMENT_FIELDS = [''STELLAR_ISSUER_PUBLIC_KEY'', ''STELLAR_DISTRIBUTION_PUBLIC_KEY'', ''STELLAR_CONTRACT_ID'']"

definition env_value :: "custody_env \<Rightarrow> string \<Rightarrow> string" where
  "env_value E name = (case ce_vars E name of None \<Rightarrow> [] | Some v \<Rightarrow> js_trim v)"

definition isPlaceholder :: "string \<Rightarrow> bool" where
  "isPlaceholder v = prefix ''replace_'' (js_lower v)"

definition parseStellarNetwork :: "string \<Rightarrow> custody_error + string" where
  "parseStellarNetwork v =
     (let t = js_lower (js_trim v); network = (if t = [] then ''testnet'' else t) in
      if network \<in> set STELLAR_NETWORKS then Inr network
      else Inl (Config_invalid ''Unsupported STELLAR_NETWORK''))"

definition validateUrl :: "custody_env \<Rightarrow> string \<Rightarrow> custody_error + unit" where
  "validateUrl E url =
     (if ce_protocol E url \<in> {Some ''https:'', Some ''http:''} then Inr ()
      else Inl (Config_invalid ''expected an HTTP(S) URL''))"

definition contract_id_format :: "string \<Rightarrow> bool" where
  "contract_id_format v \<longleftrightarrow> (case v of [] \<Rightarrow> False
     | c # cs \<Rightarrow> c = CHR ''C'' \<and> length cs = 55 \<and> list_all (\<lambda>x. x \<in> set BASE32_ALPHABET) cs)"

definition validateDeploymentConfig :: "stellar_config \<Rightarrow> custody_error + unit" where
  "validateDeploymentConfig cfg =
     (if \<not> isValidStellarPublicKey (sf_issuerPublicKey cfg) then Inl (Config_invalid ''Invalid STELLAR_ISSUER_PUBLIC_KEY'')
      else if \<not> isValidStellarPublicKey (sf_distributionPublicKey cfg) then
        Inl (Config_invalid ''Invalid STELLAR_DISTRIBUTION_PUBLIC_KEY'')
      else if \<not> contract_id_format (sf_contractId cfg) then Inl (Config_invalid ''Invalid STELLAR_CONTRACT_ID'')
      else Inr ())"

definition with_default :: "string \<Rightarrow> string \<Rightarrow> string" where
  "with_default v d = (if v = [] then d else v)"

definition config_of :: "custody_env \<Rightarrow> string \<Rightarrow> bool \<Rightarrow> stellar_config" where
  "config_of E network mock =
     \<lparr> sf_network = network,
       sf_horizonUrl = with_default (env_value E ''STELLAR_HORIZON_URL'') (fst (network_defaults network)),
       sf_rpcUrl = with_default (env_value E ''STELLAR_RPC_URL'') (snd (network_defaults network)),
       sf_assetCode = with_default (env_value E ''STELLAR_ASSET_CODE'') ''CMOVE'',
       sf_issuerPublicKey = env_value E ''STELLAR_ISSUER_PUBLIC_KEY'',
       sf_distributionPublicKey = env_value E ''STELLAR_DISTRIBUTION_PUBLIC_KEY'',
       sf_contractId = env_value E ''STELLAR_CONTRACT_ID'',
       sf_mock = mock \<rparr>"

definition getStellarConfig :: "custody_env \<Rightarrow> custody_error + stellar_config" where
  "getStellarConfig E =
     (case parseStellarNetwork (env_value E ''STELLAR_NETWORK'') of
        Inl e \<Rightarrow> Inl e
      | Inr network \<Rightarrow>
         (let mock = js_lower (env_value E ''ENABLE_MOCK_STELLAR'') = ''true'';
              missing = (\<lambda>field. env_value E field = [] \<or> isPlaceholder (env_value E field));
              config = config_of E network mock
          in if mock then Inr config
             else if list_ex missing REQUIRED_DEPLOYMENT_FIELDS then
               Inl (Config_invalid ''Missing required Stellar configuration'')
             else case validateUrl E (sf_horizonUrl config) of
               Inl e \<Rightarrow> Inl e
             | Inr _ \<Rightarrow> (case validateUrl E (sf_rpcUrl config) of
                  Inl e \<Rightarrow> Inl e
                | Inr _ \<Rightarrow> (case validateDeploymentConfig config of Inl e \<Rightarrow> Inl e | Inr _ \<Rightarrow> Inr config))))"

subsection \<open>Canonical text and envelopes\<close>

text \<open>A \<open>Date\<close> inside the parameters has no entries.\<close>

fun canonical_json :: "(string \<Rightarrow> string \<Rightarrow> rat) \<Rightarrow> json \<Rightarrow> json" where
  "canonical_json cmp (J_array xs) = J_array (map (canonical_json cmp) xs)"
| "canonical_json cmp (J_object kvs) =
     J_object (js_sort (\<lambda>a b. cmp (fst a) (fst b)) (map (\<lambda>kv. (fst kv, canonical_json cmp (snd kv))) kvs))"
| "canonical_json cmp (J_date t) = J_object []"
| "canonical_json cmp j = j"

definition canonicalize :: "custody_env \<Rightarrow> json \<Rightarrow> string" where
  "canonicalize E j = json_text (ce_num E) (canonical_json (ce_collate E) j)"

definition canonicalHash :: "custody_env \<Rightarrow> json \<Rightarrow> string" where
  "canonicalHash E j = ce_sha E (canonicalize E j)"

record intent =
  ei_category :: op_category
  ei_operation :: string
  ei_params :: json

record envelope =
  nv_network :: string
  nv_networkPassphrase :: string
  nv_sourceAccount :: string
  nv_sequence :: string
  nv_minTime :: time
  nv_maxTime :: time
  nv_memo :: memo
  nv_intent :: intent

definition getNetworkPassphrase :: "custody_env \<Rightarrow> string \<Rightarrow> custody_error + string" where
  "getNetworkPassphrase E network =
     (let p = (if network = ''testnet'' then sk_TESTNET (ce_sdk E)
               else if network = ''mainnet'' then sk_PUBLIC (ce_sdk E) else [])
      in if p = [] then Inl (Envelope_invalid ''Unsupported network'') else Inr p)"

definition digits_only :: "string \<Rightarrow> bool" where
  "digits_only s \<longleftrightarrow> s \<noteq> [] \<and> list_all is_digit s"

record approval_input =
  ai_sourceAccount :: string
  ai_sequence :: string
  ai_minTime :: time
  ai_maxTime :: time
  ai_memo :: "memo option"
  ai_intent :: intent
  ai_requestedBy :: string
  ai_requestId :: "string option"

definition buildEnvelope :: "custody_env \<Rightarrow> approval_input \<Rightarrow> custody_error + envelope" where
  "buildEnvelope E inp =
     (case getStellarConfig E of
        Inl e \<Rightarrow> Inl e
      | Inr config \<Rightarrow>
         (let sourceAccount = normalizeStellarPublicKey (ai_sourceAccount inp) in
          if \<not> isValidStellarPublicKey sourceAccount then Inl (Envelope_invalid ''Invalid envelope source account'')
          else if \<not> digits_only (ai_sequence inp) then
            Inl (Envelope_invalid ''Envelope sequence must be a non-negative integer string'')
          else if ai_maxTime inp \<le> ai_minTime inp then Inl (Envelope_invalid ''Envelope maxTime must be after minTime'')
          else if ei_operation (ai_intent inp) = [] then
            Inl (Envelope_invalid ''Envelope intent requires a category and operation'')
          else case getNetworkPassphrase E (sf_network config) of
            Inl e \<Rightarrow> Inl e
          | Inr passphrase \<Rightarrow> Inr
              \<lparr> nv_network = sf_network config, nv_networkPassphrase = passphrase,
                nv_sourceAccount = sourceAccount, nv_sequence = ai_sequence inp,
                nv_minTime = ai_minTime inp, nv_maxTime = ai_maxTime inp,
                nv_memo = (case ai_memo inp of None \<Rightarrow> \<lparr>mm_type = Memo_none, mm_value = None\<rparr> | Some m \<Rightarrow> m),
                nv_intent = ai_intent inp \<rparr>))"

definition category_name :: "op_category \<Rightarrow> string" where
  "category_name c = (case c of Cat_issuance \<Rightarrow> ''issuance'' | Cat_payout \<Rightarrow> ''payout'' | Cat_emergency \<Rightarrow> ''emergency''
     | Cat_recovery \<Rightarrow> ''recovery'' | Cat_rotation \<Rightarrow> ''rotation'')"

definition memo_type_name :: "memo_type \<Rightarrow> string" where
  "memo_type_name m = (case m of Memo_none \<Rightarrow> ''none'' | Memo_text \<Rightarrow> ''text'' | Memo_id \<Rightarrow> ''id'' | Memo_hash \<Rightarrow> ''hash'')"

definition envelope_json :: "custody_env \<Rightarrow> envelope \<Rightarrow> json" where
  "envelope_json E v = J_object
     [(''network'', J_string (nv_network v)), (''networkPassphrase'', J_string (nv_networkPassphrase v)),
      (''sourceAccount'', J_string (nv_sourceAccount v)), (''sequence'', J_string (nv_sequence v)),
      (''minTime'', J_string (ce_iso E (nv_minTime v))), (''maxTime'', J_string (ce_iso E (nv_maxTime v))),
      (''memo'', J_object ((''type'', J_string (memo_type_name (mm_type (nv_memo v))))
          # (case mm_value (nv_memo v) of None \<Rightarrow> [] | Some x \<Rightarrow> [(''value'', J_string x)]))),
      (''intent'', J_object [(''category'', J_string (category_name (ei_category (nv_intent v)))),
          (''operation'', J_string (ei_operation (nv_intent v))), (''params'', ei_params (nv_intent v))])]"

definition computeEnvelopeHash :: "custody_env \<Rightarrow> envelope \<Rightarrow> string" where
  "computeEnvelopeHash E v = canonicalHash E (envelope_json E v)"

text \<open>The watermark is an integer; the sequence is a text of digits.\<close>

definition assertEnvelopeFresh :: "custody_env \<Rightarrow> envelope \<Rightarrow> int option \<Rightarrow> custody_error + unit" where
  "assertEnvelopeFresh E v lastConsumed =
     (case getStellarConfig E of
        Inl e \<Rightarrow> Inl e
      | Inr config \<Rightarrow>
         if nv_network v \<noteq> sf_network config then Inl (Envelope_invalid ''Cross-network replay rejected'')
         else case getNetworkPassphrase E (sf_network config) of
           Inl e \<Rightarrow> Inl e
         | Inr passphrase \<Rightarrow>
            if nv_networkPassphrase v \<noteq> passphrase then Inl (Envelope_invalid ''network passphrase mismatch'')
            else if now E < nv_minTime v then Inl (Envelope_invalid ''Envelope is not yet valid (before minTime)'')
            else if now E > nv_maxTime v then Inl (Envelope_invalid ''Envelope has expired (past maxTime); replay rejected'')
            else case lastConsumed of
              None \<Rightarrow> Inr ()
            | Some w \<Rightarrow> if int (decimal_value (nv_sequence v)) \<le> w then Inl (Envelope_invalid ''Stale sequence rejected'')
                else Inr ())"

subsection \<open>Operations\<close>

definition param_field :: "json \<Rightarrow> string \<Rightarrow> json option" where
  "param_field j k = (case j of J_object kvs \<Rightarrow> map_of kvs k | _ \<Rightarrow> None)"

definition json_truthy :: "json option \<Rightarrow> bool" where
  "json_truthy j = (case j of None \<Rightarrow> False | Some J_null \<Rightarrow> False | Some (J_bool b) \<Rightarrow> b
     | Some (J_number x) \<Rightarrow> x \<noteq> 0 | Some (J_string s) \<Rightarrow> s \<noteq> [] | Some _ \<Rightarrow> True)"

text \<open>\<open>normalizeStellarPublicKey\<close> of a value that is no string is a \<open>TypeError\<close>.\<close>

definition normalized_key :: "json option \<Rightarrow> custody_error + string" where
  "normalized_key j = (case j of Some (J_string s) \<Rightarrow> Inr (normalizeStellarPublicKey s)
     | _ \<Rightarrow> Inl (Other_failure ''value.trim is not a function''))"

definition buildPayment :: "stellar_sdk \<Rightarrow> json \<Rightarrow> custody_error + string list" where
  "buildPayment S params =
     (case (param_field params ''destination'', param_field params ''amount'') of
        (Some (J_string dest), Some (J_string amount)) \<Rightarrow>
          (let destination = normalizeStellarPublicKey dest; code = param_field params ''assetCode'';
               issuer = param_field params ''assetIssuer'' in
           if \<not> isValidStellarPublicKey destination then Inl (Operation_invalid ''Invalid payment destination'')
           else if code \<in> {Some (J_string ''native''), Some (J_string ''XLM'')} then
             map_sum id (\<lambda>x. [x]) (sk_payment S destination None amount)
           else case normalized_key (if json_truthy issuer then issuer else Some (J_string [])) of
             Inl e \<Rightarrow> Inl e
           | Inr i \<Rightarrow> map_sum id (\<lambda>x. [x]) (sk_payment S destination (Some (code, i)) amount))
      | _ \<Rightarrow> Inl (Operation_invalid ''Payment requires destination and amount''))"

definition buildSetSignerOptions :: "stellar_sdk \<Rightarrow> json \<Rightarrow> custody_error + string list" where
  "buildSetSignerOptions S params =
     (if (case params of J_object _ \<Rightarrow> False | J_array _ \<Rightarrow> False | J_date _ \<Rightarrow> False | _ \<Rightarrow> True)
      then Inl (Operation_invalid ''setSignerOptions requires parameters'')
      else let signer = (if json_truthy (param_field params ''signer'')
            then (case normalized_key (param_field (the (param_field params ''signer'')) ''publicKey'') of
                    Inl e \<Rightarrow> Inl e
                  | Inr k \<Rightarrow> if isValidStellarPublicKey k
                      then Inr (Some (k, param_field (the (param_field params ''signer'')) ''weight''))
                      else Inl (Operation_invalid ''Invalid signer public key in setSignerOptions''))
            else Inr None)
      in case signer of
           Inl e \<Rightarrow> Inl e
         | Inr sg \<Rightarrow>
            (let options = \<lparr> so_signer = sg, so_masterWeight = param_field params ''masterWeight'',
                   so_lowThreshold = param_field params ''lowThreshold'', so_medThreshold = param_field params ''medThreshold'',
                   so_highThreshold = param_field params ''highThreshold'' \<rparr> in
             if so_signer options = None \<and> so_masterWeight options = None \<and> so_lowThreshold options = None
                \<and> so_medThreshold options = None \<and> so_highThreshold options = None
             then Inl (Operation_invalid ''setSignerOptions requires at least one field to change'')
             else map_sum id (\<lambda>x. [x]) (sk_setOptions S options)))"

definition buildOperations :: "stellar_sdk \<Rightarrow> intent \<Rightarrow> custody_error + string list" where
  "buildOperations S i =
     (if ei_operation i = ''distribution.payment'' then buildPayment S (ei_params i)
      else if ei_operation i \<in> {''rotation.setSignerOptions'', ''emergency.setSignerOptions''} then
        buildSetSignerOptions S (ei_params i)
      else Inl (Operation_invalid ''No operation builder registered''))"

definition computeOperationsHash :: "custody_env \<Rightarrow> intent \<Rightarrow> custody_error + string" where
  "computeOperationsHash E i =
     map_sum id (\<lambda>ops. canonicalHash E (J_array (map J_string ops))) (buildOperations (ce_sdk E) i)"

subsection \<open>Signing adapters\<close>

type_synonym signer_adapter = "string \<Rightarrow> string \<Rightarrow> custody_error + string"

definition hex_char :: "char \<Rightarrow> bool" where
  "hex_char c \<longleftrightarrow> c \<in> set ''0123456789abcdefABCDEF''"

definition local_sign :: "stellar_sdk \<Rightarrow> signer_adapter" where
  "local_sign S signerId payloadHash =
     (if length payloadHash = 64 \<and> list_all hex_char payloadHash then Inr (sk_localSign S signerId payloadHash)
      else Inl (Adapter_refused ''sign() requires a 32-byte hex payload hash''))"

definition createSignerAdapter :: "custody_env \<Rightarrow> custody_error + signer_adapter" where
  "createSignerAdapter E =
     (case getStellarConfig E of
        Inl e \<Rightarrow> Inl e
      | Inr config \<Rightarrow>
         if sf_network config = ''testnet'' \<and> sf_mock config then Inr (local_sign (ce_sdk E))
         else Inl (Adapter_refused ''CUSTODY_ADAPTER_NOT_CONFIGURED''))"

subsection \<open>What a built envelope says\<close>

lemma built_envelope:
  assumes "buildEnvelope E inp = Inr v"
  shows "nv_intent v = ai_intent inp \<and> nv_sequence v = ai_sequence inp \<and> digits_only (nv_sequence v)
    \<and> nv_sourceAccount v = normalizeStellarPublicKey (ai_sourceAccount inp) \<and> nv_minTime v < nv_maxTime v
    \<and> nv_maxTime v = ai_maxTime inp \<and> nv_minTime v = ai_minTime inp"
  using assms by (auto simp: buildEnvelope_def Let_def split: sum.splits if_splits)

lemma config_network: "getStellarConfig E = Inr cfg \<Longrightarrow> sf_network cfg \<in> {''testnet'', ''mainnet''}"
  by (auto simp: getStellarConfig_def config_of_def parseStellarNetwork_def STELLAR_NETWORKS_def Let_def
      split: sum.splits if_splits)

end
