(* ===== verification/Custody_Rotation.thy ===== *)
theory Custody_Rotation
  imports Custody_Envelope
begin

text \<open>
  Signer sets and their rotation: \<open>models/CustodySignerSet.ts\<close> and \<open>lib/custody/rotation.ts\<close>.
  Every update goes through the hook of the schema that protects terminal documents; the schema
  trims the identifiers and keys of signers when it stores them.
\<close>

subsection \<open>Documents\<close>

datatype set_status = Set_pending | Set_active | Set_retiring | Set_retired | Set_rolled_back

record payout_policy =
  py_allowedDestinations :: "string list"
  py_maxAmount :: "string option"
  py_dailyLimit :: "string option"

record rotation_approval =
  rp_approvedBy :: string
  rp_role :: signer_role
  rp_quorumType :: quorum_type
  rp_approvedAt :: time

record signer_set =
  ss_id :: oid
  ss_category :: op_category
  ss_network :: string
  ss_version :: nat
  ss_previousVersion :: "nat option"
  ss_status :: set_status
  ss_signers :: "signer list"
  ss_threshold :: rat
  ss_overlapWindowMs :: int
  ss_effectiveFrom :: "time option"
  ss_effectiveTo :: "time option"
  ss_payoutPolicy :: "payout_policy option"
  ss_rotationApprovals :: "rotation_approval list"
  ss_createdBy :: string
  ss_requestId :: "string option"

datatype request_status =
  Cr_pending | Cr_quorum_reached | Cr_submitting | Cr_submitted | Cr_failed | Cr_expired

record custody_approval =
  ca_signerId :: string
  ca_role :: signer_role
  ca_approvedAt :: time

record ledger_result =
  lr_hash :: string
  lr_ledger :: int
  lr_resultXdr :: string

record custody_request =
  rq_id :: oid
  rq_network :: string
  rq_category :: op_category
  rq_operation :: string
  rq_sourceAccount :: string
  rq_sequence :: string
  rq_envelope :: envelope
  rq_envelopeHash :: string
  rq_operationsHash :: string
  rq_minTime :: time
  rq_maxTime :: time
  rq_signerSetVersion :: nat
  rq_status :: request_status
  rq_approvals :: "custody_approval list"
  rq_requestedBy :: string
  rq_requestId :: "string option"
  rq_ledgerResult :: "(ledger_result \<times> time) option"
  rq_failureReason :: "string option"
  rq_createdAt :: time

record custody_db =
  cd_sets :: "signer_set list"
  cd_requests :: "custody_request list"
  cd_watermarks :: "((string \<times> string) \<times> int) list"
  cd_audits :: "audit_row list"

definition set_terminal :: "signer_set \<Rightarrow> bool" where
  "set_terminal ss \<longleftrightarrow> ss_status ss \<in> {Set_retired, Set_rolled_back}"

definition request_terminal :: "custody_request \<Rightarrow> bool" where
  "request_terminal r \<longleftrightarrow> rq_status r \<in> {Cr_submitted, Cr_failed, Cr_expired}"

text \<open>\<open>findOneAndUpdate\<close> behind the hook that refuses terminal documents.\<close>

definition hooked_update ::
  "('d \<Rightarrow> bool) \<Rightarrow> ('d \<Rightarrow> bool) \<Rightarrow> ('d \<Rightarrow> 'd) \<Rightarrow> 'd list \<Rightarrow> (custody_error + 'd option) \<times> 'd list" where
  "hooked_update term_doc P f ds =
     (case find_one P ds of
        None \<Rightarrow> (Inr None, ds)
      | Some d \<Rightarrow> if term_doc d then (Inl Terminal_immutable, ds) else (Inr (Some (f d)), update_one P f ds))"

definition update_set ::
  "(signer_set \<Rightarrow> bool) \<Rightarrow> (signer_set \<Rightarrow> signer_set) \<Rightarrow> custody_db \<Rightarrow> (custody_error + signer_set option) \<times> custody_db" where
  "update_set P f db = (case hooked_update set_terminal P f (cd_sets db) of
     (res, sets) \<Rightarrow> (res, db\<lparr>cd_sets := sets\<rparr>))"

definition custody_event :: "string \<Rightarrow> string \<Rightarrow> string \<Rightarrow> bool \<Rightarrow> (string \<times> meta) list \<Rightarrow> audit_event" where
  "custody_event action targetType targetId ok m =
     \<lparr> ev_actor = None, ev_action = action, ev_targetType = targetType, ev_targetId = Some targetId,
       ev_success = ok, ev_meta = m \<rparr>"

definition custody_audit :: "custody_env \<Rightarrow> audit_event \<Rightarrow> custody_db \<Rightarrow> (custody_error + unit) \<times> custody_db" where
  "custody_audit E ev db = (case log_audit_event (env.truncate E) (Some True) ev (cd_audits db) of
     None \<Rightarrow> (Inl Audit_failed, db) | Some rows \<Rightarrow> (Inr (), db\<lparr>cd_audits := rows\<rparr>))"

definition audited :: "custody_env \<Rightarrow> audit_event \<Rightarrow> 'a \<Rightarrow> custody_db \<Rightarrow> (custody_error + 'a) \<times> custody_db" where
  "audited E ev a db = (case custody_audit E ev db of (Inl e, db') \<Rightarrow> (Inl e, db') | (Inr _, db') \<Rightarrow> (Inr a, db'))"

subsection \<open>Proposals\<close>

definition stored_signer :: "signer \<Rightarrow> signer" where
  "stored_signer sg = sg\<lparr>sg_signerId := js_trim (sg_signerId sg), sg_publicKey := js_trim (sg_publicKey sg)\<rparr>"

definition of_network :: "op_category \<Rightarrow> string \<Rightarrow> signer_set \<Rightarrow> bool" where
  "of_network c n ss \<longleftrightarrow> ss_category ss = c \<and> ss_network ss = n"

definition create_set :: "signer_set \<Rightarrow> custody_db \<Rightarrow> (custody_error + signer_set) \<times> custody_db" where
  "create_set ss db =
     (if list_ex (\<lambda>x. of_network (ss_category ss) (ss_network ss) x \<and> ss_version x = ss_version ss) (cd_sets db)
      then (Inl Duplicate_key, db) else (Inr ss, db\<lparr>cd_sets := cd_sets db @ [ss]\<rparr>))"

text \<open>\<open>findOne(\<dots>).sort({version: -1})\<close>.\<close>

definition newest_active :: "op_category \<Rightarrow> string \<Rightarrow> signer_set list \<Rightarrow> signer_set option" where
  "newest_active c n sets =
     (case js_sort (\<lambda>a b. of_int (int (ss_version b) - int (ss_version a)))
             (filter (\<lambda>ss. of_network c n ss \<and> ss_status ss = Set_active) sets) of
        [] \<Rightarrow> None | ss # _ \<Rightarrow> Some ss)"

record proposal =
  pl_category :: op_category
  pl_network :: string
  pl_signers :: "signer list"
  pl_threshold :: rat
  pl_overlapWindowMs :: "int option"
  pl_createdBy :: string
  pl_requestId :: "string option"

definition proposed_set :: "custody_env \<Rightarrow> proposal \<Rightarrow> nat \<Rightarrow> nat option \<Rightarrow> set_status \<Rightarrow> time option \<Rightarrow> signer_set" where
  "proposed_set E p version previous status from =
     \<lparr> ss_id = ce_newId E, ss_category = pl_category p, ss_network = js_trim (js_lower (pl_network p)),
       ss_version = version, ss_previousVersion = previous, ss_status = status,
       ss_signers = map stored_signer (pl_signers p), ss_threshold = pl_threshold p,
       ss_overlapWindowMs = (case pl_overlapWindowMs p of None \<Rightarrow> 24 * 60 * 60 * 1000 | Some w \<Rightarrow> w),
       ss_effectiveFrom = from, ss_effectiveTo = None, ss_payoutPolicy = None, ss_rotationApprovals = [],
       ss_createdBy = pl_createdBy p, ss_requestId = pl_requestId p \<rparr>"

definition proposal_event :: "string \<Rightarrow> signer_set \<Rightarrow> audit_event" where
  "proposal_event action ss = custody_event action ''custody_signer_set'' (ss_id ss) True
     [(''category'', MStr (category_name (ss_category ss))), (''network'', MStr (ss_network ss)),
      (''version'', MNum (of_nat (ss_version ss))), (''threshold'', MNum (ss_threshold ss)),
      (''signerCount'', MNum (of_nat (length (ss_signers ss))))]"

definition proposeRotation :: "custody_env \<Rightarrow> proposal \<Rightarrow> custody_db \<Rightarrow> (custody_error + signer_set) \<times> custody_db" where
  "proposeRotation E p db =
     (case validateSignerSetInvariants (pl_category p) (pl_signers p) (pl_threshold p) of
        Inl e \<Rightarrow> (Inl e, db)
      | Inr _ \<Rightarrow>
         (let network = js_trim (js_lower (pl_network p)); c = pl_category p;
              current = newest_active c network (cd_sets db);
              version = (case current of None \<Rightarrow> 0 | Some ss \<Rightarrow> ss_version ss) + 1
          in if list_ex (\<lambda>ss. of_network c network ss \<and> ss_status ss = Set_pending) (cd_sets db)
             then (Inl (Rotation_refused ''A rotation is already pending for this category/network''), db)
             else case create_set (proposed_set E p version (map_option ss_version current) Set_pending None) db of
               (Inl e, db1) \<Rightarrow> (Inl e, db1)
             | (Inr ss, db1) \<Rightarrow> audited E (proposal_event ''custody.rotation.proposed'' ss) ss db1))"

definition GENESIS_CONFIRMATION_TOKEN :: string where
  "GENESIS_CONFIRMATION_TOKEN = ''CONFIRM_GENESIS_SIGNER_SET''"

definition seedGenesisSignerSet ::
  "custody_env \<Rightarrow> proposal \<Rightarrow> string \<Rightarrow> custody_db \<Rightarrow> (custody_error + signer_set) \<times> custody_db" where
  "seedGenesisSignerSet E p confirmationToken db =
     (if confirmationToken \<noteq> GENESIS_CONFIRMATION_TOKEN then
        (Inl (Rotation_refused ''Genesis seeding requires confirmationToken''), db)
      else case validateSignerSetInvariants (pl_category p) (pl_signers p) (pl_threshold p) of
        Inl e \<Rightarrow> (Inl e, db)
      | Inr _ \<Rightarrow>
         if list_ex (of_network (pl_category p) (js_trim (js_lower (pl_network p)))) (cd_sets db)
         then (Inl (Rotation_refused ''A signer set already exists; use proposeRotation instead''), db)
         else case create_set (proposed_set E p 1 None Set_active (Some (now E))) db of
           (Inl e, db1) \<Rightarrow> (Inl e, db1)
         | (Inr ss, db1) \<Rightarrow> audited E (proposal_event ''custody.rotation.genesis_seeded'' ss) ss db1)"

subsection \<open>Approvals of a rotation\<close>

definition governing_category :: "quorum_type \<Rightarrow> op_category" where
  "governing_category q = (case q of Quorum_recovery \<Rightarrow> Cat_recovery | Quorum_standard \<Rightarrow> Cat_rotation)"

definition resolveGoverningSignerSet :: "string \<Rightarrow> quorum_type \<Rightarrow> custody_db \<Rightarrow> custody_error + signer_set" where
  "resolveGoverningSignerSet network q db =
     (case find_one (\<lambda>ss. of_network (governing_category q) network ss \<and> ss_status ss = Set_active) (cd_sets db) of
        None \<Rightarrow> Inl (Rotation_refused ''No active governing signer set is configured'')
      | Some ss \<Rightarrow> Inr ss)"

definition set_by_id :: "custody_env \<Rightarrow> oid \<Rightarrow> custody_db \<Rightarrow> custody_error + signer_set" where
  "set_by_id E i db =
     (if \<not> valid_oid E i then Inl (Other_failure ''CastError'')
      else case find_one (\<lambda>ss. ss_id ss = i) (cd_sets db) of
        None \<Rightarrow> Inl (Rotation_refused ''Signer set not found'')
      | Some ss \<Rightarrow> Inr ss)"

definition at_set :: "oid \<Rightarrow> set_status \<Rightarrow> signer_set \<Rightarrow> bool" where
  "at_set i st ss \<longleftrightarrow> ss_id ss = i \<and> ss_status ss = st"

definition approved_weight :: "quorum_type \<Rightarrow> signer_set \<Rightarrow> signer_set \<Rightarrow> rat" where
  "approved_weight q ss governing =
     sumApprovedWeight (map rp_approvedBy (filter (\<lambda>a. rp_quorumType a = q) (ss_rotationApprovals ss))) (ss_signers governing)"

definition add_rotation_approval :: "custody_env \<Rightarrow> string \<Rightarrow> signer_role \<Rightarrow> quorum_type \<Rightarrow> signer_set \<Rightarrow> signer_set" where
  "add_rotation_approval E by_whom role q ss =
     ss\<lparr>ss_rotationApprovals := ss_rotationApprovals ss @
        [\<lparr>rp_approvedBy = by_whom, rp_role = role, rp_quorumType = q, rp_approvedAt = now E\<rparr>]\<rparr>"

definition role_name :: "signer_role \<Rightarrow> string" where
  "role_name r = (case r of Sig_issuer \<Rightarrow> ''issuer'' | Sig_distribution \<Rightarrow> ''distribution''
     | Sig_security \<Rightarrow> ''security'' | Sig_recovery \<Rightarrow> ''recovery'')"

definition quorum_name :: "quorum_type \<Rightarrow> string" where
  "quorum_name q = (case q of Quorum_standard \<Rightarrow> ''standard'' | Quorum_recovery \<Rightarrow> ''recovery'')"

definition approveRotation ::
  "custody_env \<Rightarrow> oid \<Rightarrow> string \<Rightarrow> signer_role \<Rightarrow> quorum_type \<Rightarrow> custody_db \<Rightarrow> (custody_error + signer_set \<times> bool) \<times> custody_db" where
  "approveRotation E i by_whom role q db =
     (case set_by_id E i db of
        Inl e \<Rightarrow> (Inl e, db)
      | Inr ss \<Rightarrow>
         if ss_status ss \<noteq> Set_pending then (Inl (Rotation_refused ''Cannot approve rotation in this status''), db)
         else case resolveGoverningSignerSet (ss_network ss) q db of
           Inl e \<Rightarrow> (Inl e, db)
         | Inr governing \<Rightarrow>
            if \<not> list_ex (\<lambda>sg. sg_signerId sg = by_whom \<and> sg_role sg = role) (ss_signers governing)
            then (Inl (Rotation_refused ''not an eligible signer in the active signer set''), db)
            else if list_ex (\<lambda>a. rp_approvedBy a = by_whom) (ss_rotationApprovals ss)
            then (Inl (Rotation_refused ''has already approved this rotation''), db)
            else case update_set (at_set i Set_pending) (add_rotation_approval E by_whom role q) db of
              (Inl e, db1) \<Rightarrow> (Inl e, db1)
            | (Inr None, db1) \<Rightarrow> (Inl (Rotation_refused ''Rotation approval conflict; reload and retry''), db1)
            | (Inr (Some updated), db1) \<Rightarrow>
                audited E (custody_event ''custody.rotation.approved'' ''custody_signer_set'' i True
                    [(''approvedBy'', MStr by_whom), (''role'', MStr (role_name role)), (''quorumType'', MStr (quorum_name q))])
                  (updated, approved_weight q updated governing \<ge> ss_threshold governing) db1)"

subsection \<open>Activation, retirement, rollback\<close>

definition used_quorum :: "signer_set \<Rightarrow> quorum_type" where
  "used_quorum ss = (case ss_rotationApprovals ss of
     [] \<Rightarrow> Quorum_standard | a # _ \<Rightarrow> if rp_quorumType a = Quorum_recovery then Quorum_recovery else Quorum_standard)"

definition at_version :: "op_category \<Rightarrow> string \<Rightarrow> nat \<Rightarrow> set_status \<Rightarrow> signer_set \<Rightarrow> bool" where
  "at_version c n v st ss \<longleftrightarrow> of_network c n ss \<and> ss_version ss = v \<and> ss_status ss = st"

definition retire_previous ::
  "custody_env \<Rightarrow> signer_set \<Rightarrow> custody_db \<Rightarrow> (custody_error + signer_set option) \<times> custody_db" where
  "retire_previous E pending db =
     (case ss_previousVersion pending of
        None \<Rightarrow> (Inr None, db)
      | Some v \<Rightarrow> update_set (at_version (ss_category pending) (ss_network pending) v Set_active)
                   (\<lambda>ss. ss\<lparr>ss_status := Set_retiring, ss_effectiveTo := Some (now E + ss_overlapWindowMs pending)\<rparr>) db)"

definition activateRotation ::
  "custody_env \<Rightarrow> oid \<Rightarrow> custody_db \<Rightarrow> (custody_error + signer_set \<times> signer_set option) \<times> custody_db" where
  "activateRotation E i db =
     (case set_by_id E i db of
        Inl e \<Rightarrow> (Inl e, db)
      | Inr pending \<Rightarrow>
         if ss_status pending \<noteq> Set_pending then (Inl (Rotation_refused ''Cannot activate rotation in this status''), db)
         else case resolveGoverningSignerSet (ss_network pending) (used_quorum pending) db of
           Inl e \<Rightarrow> (Inl e, db)
         | Inr governing \<Rightarrow>
            if approved_weight (used_quorum pending) pending governing < ss_threshold governing
            then (Inl (Rotation_refused ''Rotation quorum not met''), db)
            else case update_set (at_set i Set_pending)
                   (\<lambda>ss. ss\<lparr>ss_status := Set_active, ss_effectiveFrom := Some (now E)\<rparr>) db of
              (Inl e, db1) \<Rightarrow> (Inl e, db1)
            | (Inr None, db1) \<Rightarrow> (Inl (Rotation_refused ''Activation conflict; reload and retry''), db1)
            | (Inr (Some activated), db1) \<Rightarrow>
               (case retire_previous E pending db1 of
                  (Inl e, db2) \<Rightarrow> (Inl e, db2)
                | (Inr retiring, db2) \<Rightarrow>
                    audited E (custody_event ''custody.rotation.activated'' ''custody_signer_set'' i True
                        [(''category'', MStr (category_name (ss_category pending))), (''network'', MStr (ss_network pending)),
                         (''version'', MNum (of_nat (ss_version pending))),
                         (''quorumType'', MStr (quorum_name (used_quorum pending)))])
                      (activated, retiring) db2))"

datatype retirement = Set_was_retired | Not_retired string

definition open_requests :: "signer_set \<Rightarrow> custody_db \<Rightarrow> custody_request list" where
  "open_requests ss db = filter (\<lambda>r. rq_signerSetVersion r = ss_version ss \<and> rq_category r = ss_category ss
     \<and> rq_network r = ss_network ss \<and> rq_status r \<in> {Cr_pending, Cr_quorum_reached, Cr_submitting}) (cd_requests db)"

definition retireIfSafe :: "custody_env \<Rightarrow> oid \<Rightarrow> custody_db \<Rightarrow> (custody_error + retirement) \<times> custody_db" where
  "retireIfSafe E i db =
     (case set_by_id E i db of
        Inl e \<Rightarrow> (Inl e, db)
      | Inr ss \<Rightarrow>
         if ss_status ss \<noteq> Set_retiring then (Inr (Not_retired ''status is not retiring''), db)
         else if (case ss_effectiveTo ss of None \<Rightarrow> False | Some t \<Rightarrow> now E < t)
         then (Inr (Not_retired ''Overlap window has not elapsed''), db)
         else if open_requests ss db \<noteq> [] then (Inr (Not_retired ''approval request(s) still pending''), db)
         else case update_set (at_set i Set_retiring) (\<lambda>ss. ss\<lparr>ss_status := Set_retired\<rparr>) db of
           (Inl e, db1) \<Rightarrow> (Inl e, db1)
         | (Inr None, db1) \<Rightarrow> (Inr (Not_retired ''Retirement conflict; reload and retry''), db1)
         | (Inr (Some _), db1) \<Rightarrow>
             audited E (custody_event ''custody.rotation.retired'' ''custody_signer_set'' i True
                 [(''category'', MStr (category_name (ss_category ss))), (''network'', MStr (ss_network ss)),
                  (''version'', MNum (of_nat (ss_version ss)))]) Set_was_retired db1)"

text \<open>The first half of a rollback: the previous set becomes active again.\<close>

definition reactivate_previous :: "signer_set \<Rightarrow> custody_db \<Rightarrow> (custody_error + signer_set option) \<times> custody_db" where
  "reactivate_previous ss db =
     (if ss_status ss = Set_active then
        (case ss_previousVersion ss of
           None \<Rightarrow> (Inr None, db)
         | Some v \<Rightarrow>
            (case update_set (at_version (ss_category ss) (ss_network ss) v Set_retiring)
                    (\<lambda>x. x\<lparr>ss_status := Set_active, ss_effectiveTo := None\<rparr>) db of
               (Inr None, db1) \<Rightarrow> (Inl (Rotation_refused ''Cannot roll back: previous signer set is no longer retiring''), db1)
             | (res, db1) \<Rightarrow> (res, db1)))
      else (Inr None, db))"

definition rollbackRotation ::
  "custody_env \<Rightarrow> oid \<Rightarrow> string \<Rightarrow> custody_db \<Rightarrow> (custody_error + signer_set \<times> signer_set option) \<times> custody_db" where
  "rollbackRotation E i reason db =
     (case set_by_id E i db of
        Inl e \<Rightarrow> (Inl e, db)
      | Inr ss \<Rightarrow>
         if ss_status ss \<notin> {Set_pending, Set_active}
         then (Inl (Rotation_refused ''Cannot roll back a signer set in this status''), db)
         else case reactivate_previous ss db of
           (Inl e, db1) \<Rightarrow> (Inl e, db1)
         | (Inr reactivated, db1) \<Rightarrow>
            (case update_set (at_set i (ss_status ss)) (\<lambda>x. x\<lparr>ss_status := Set_rolled_back\<rparr>) db1 of
               (Inl e, db2) \<Rightarrow> (Inl e, db2)
             | (Inr None, db2) \<Rightarrow> (Inl (Rotation_refused ''Rollback conflict; reload and retry''), db2)
             | (Inr (Some rolledBack), db2) \<Rightarrow>
                 audited E (custody_event ''custody.rotation.rolled_back'' ''custody_signer_set'' i True
                     [(''category'', MStr (category_name (ss_category ss))), (''network'', MStr (ss_network ss)),
                      (''version'', MNum (of_nat (ss_version ss))), (''reason'', MStr reason)])
                   (rolledBack, reactivated) db2))"

subsection \<open>The hook never blocks these updates\<close>

text \<open>Every filter of the module names a status that is not terminal.\<close>

lemma hooked_update_open:
  assumes "\<And>d. P d \<Longrightarrow> \<not> term_doc d"
  shows "hooked_update term_doc P f ds = (case find_one_and_update P f ds of (r, ds') \<Rightarrow> (Inr r, ds'))"
  using assms by (auto simp: hooked_update_def find_one_and_update_def dest!: find_one_SomeD split: option.splits)

lemma update_set_sets:
  "cd_sets (snd (update_set P f db)) = cd_sets db \<or> cd_sets (snd (update_set P f db)) = update_one P f (cd_sets db)"
  by (auto simp: update_set_def hooked_update_def split: option.splits)

lemma audited_sets [simp]:
  "cd_sets (snd (audited E ev a db)) = cd_sets db" "cd_requests (snd (audited E ev a db)) = cd_requests db"
  "cd_watermarks (snd (audited E ev a db)) = cd_watermarks db"
  by (auto simp: audited_def custody_audit_def split: option.splits prod.splits sum.splits)

end
