(* ===== verification/Custody_Service.thy ===== *)
theory Custody_Service
  imports Custody_Rotation
begin

text \<open>
  Approval and submission of custody operations, \<open>lib/custody/service.ts\<close> with the documents of
  \<open>models/CustodyApprovalRequest.ts\<close> and \<open>models/CustodySequenceWatermark.ts\<close>.  Every service is a
  composition of stages, one for each group of database operations between two points where another
  call can run.
\<close>

subsection \<open>Watermarks and daily totals\<close>

definition getWatermark :: "string \<Rightarrow> string \<Rightarrow> custody_db \<Rightarrow> int option" where
  "getWatermark sourceAccount network db = map_of (cd_watermarks db) (sourceAccount, network)"

fun raise_watermark :: "string \<times> string \<Rightarrow> int \<Rightarrow> ((string \<times> string) \<times> int) list \<Rightarrow> ((string \<times> string) \<times> int) list" where
  "raise_watermark k n [] = [(k, n)]"
| "raise_watermark k n (w # ws) = (if fst w = k then (k, max (snd w) n) # ws else w # raise_watermark k n ws)"

definition advanceWatermark :: "custody_env \<Rightarrow> string \<Rightarrow> string \<Rightarrow> string \<Rightarrow> custody_db \<Rightarrow> (custody_error + unit) \<times> custody_db" where
  "advanceWatermark E sourceAccount network sq db =
     (case ce_watermarkFault E of
        Some e \<Rightarrow> (Inl e, db)
      | None \<Rightarrow> (Inr (), db\<lparr>cd_watermarks :=
          raise_watermark (sourceAccount, network) (int (decimal_value sq)) (cd_watermarks db)\<rparr>))"

definition start_of_day_utc :: "time \<Rightarrow> time" where
  "start_of_day_utc t = t - t mod (24 * 60 * 60 * 1000)"

text \<open>\<open>amount.split\<close> of a value that is no string is a \<open>TypeError\<close>.\<close>

definition stroops_of :: "json option \<Rightarrow> custody_error + int" where
  "stroops_of j = (case j of Some (J_string s) \<Rightarrow> toStroops s | _ \<Rightarrow> Inl (Other_failure ''decimalAmount.split is not a function''))"

fun sum_stroops :: "int \<Rightarrow> custody_request list \<Rightarrow> custody_error + int" where
  "sum_stroops acc [] = Inr acc"
| "sum_stroops acc (r # rs) =
     (let amount = param_field (ei_params (nv_intent (rq_envelope r))) ''amount'' in
      if json_truthy amount
      then (case stroops_of amount of Inl e \<Rightarrow> Inl e | Inr n \<Rightarrow> sum_stroops (acc + n) rs)
      else sum_stroops acc rs)"

definition counts_today :: "custody_env \<Rightarrow> string \<Rightarrow> string \<Rightarrow> custody_request \<Rightarrow> bool" where
  "counts_today E sourceAccount network r \<longleftrightarrow>
     rq_sourceAccount r = sourceAccount \<and> rq_network r = network \<and> rq_category r = Cat_payout
     \<and> rq_status r \<in> {Cr_pending, Cr_quorum_reached, Cr_submitting, Cr_submitted}
     \<and> rq_createdAt r \<ge> start_of_day_utc (now E)"

definition sumPayoutStroopsToday :: "custody_env \<Rightarrow> string \<Rightarrow> string \<Rightarrow> custody_db \<Rightarrow> custody_error + int" where
  "sumPayoutStroopsToday E sourceAccount network db =
     sum_stroops 0 (filter (counts_today E sourceAccount network) (cd_requests db))"

subsection \<open>Requests\<close>

definition active_set :: "op_category \<Rightarrow> string \<Rightarrow> custody_db \<Rightarrow> signer_set option" where
  "active_set c n db = find_one (\<lambda>ss. of_network c n ss \<and> ss_status ss = Set_active) (cd_sets db)"

definition payout_guard :: "custody_env \<Rightarrow> envelope \<Rightarrow> signer_set \<Rightarrow> custody_db \<Rightarrow> custody_error + unit" where
  "payout_guard E v ss db =
     (if ei_category (nv_intent v) \<noteq> Cat_payout then Inr ()
      else case ss_payoutPolicy ss of
        None \<Rightarrow> Inl (Custody_refused ''Payout signer set has no payoutPolicy (allowlist/limits) configured'')
      | Some policy \<Rightarrow>
         (case sumPayoutStroopsToday E (nv_sourceAccount v) (nv_network v) db of
            Inl e \<Rightarrow> Inl e
          | Inr dailyTotalSoFar \<Rightarrow>
             (let params = ei_params (nv_intent v) in
              case stroops_of (param_field params ''amount'') of
                Inl e \<Rightarrow> Inl e
              | Inr amount \<Rightarrow>
                 (case param_field params ''destination'' of
                    Some (J_string destination) \<Rightarrow> assertPayoutWithinPolicy
                      \<lparr> pk_amount = amount, pk_destination = destination,
                        pk_allowedDestinations = py_allowedDestinations policy, pk_maxAmount = py_maxAmount policy,
                        pk_dailyTotalSoFar = dailyTotalSoFar, pk_dailyLimit = py_dailyLimit policy \<rparr>
                  | _ \<Rightarrow> Inl (Other_failure ''value.trim is not a function'')))))"

definition new_custody_request :: "custody_env \<Rightarrow> approval_input \<Rightarrow> envelope \<Rightarrow> signer_set \<Rightarrow> string \<Rightarrow> custody_request" where
  "new_custody_request E inp v ss operationsHash =
     \<lparr> rq_id = ce_newId E, rq_network = nv_network v, rq_category = ei_category (nv_intent v),
       rq_operation = ei_operation (nv_intent v), rq_sourceAccount = nv_sourceAccount v, rq_sequence = nv_sequence v,
       rq_envelope = v, rq_envelopeHash = computeEnvelopeHash E v, rq_operationsHash = operationsHash,
       rq_minTime = nv_minTime v, rq_maxTime = nv_maxTime v, rq_signerSetVersion = ss_version ss,
       rq_status = Cr_pending, rq_approvals = [], rq_requestedBy = ai_requestedBy inp,
       rq_requestId = ai_requestId inp, rq_ledgerResult = None, rq_failureReason = None, rq_createdAt = now E \<rparr>"

text \<open>The checks of \<open>requestApproval\<close>, up to the insertion.\<close>

definition request_prepare :: "custody_env \<Rightarrow> approval_input \<Rightarrow> custody_db \<Rightarrow> custody_error + custody_request" where
  "request_prepare E inp db =
     (case buildEnvelope E inp of
        Inl e \<Rightarrow> Inl e
      | Inr v \<Rightarrow>
         (case assertEnvelopeFresh E v (getWatermark (nv_sourceAccount v) (nv_network v) db) of
            Inl e \<Rightarrow> Inl e
          | Inr _ \<Rightarrow>
             (case active_set (ei_category (nv_intent v)) (nv_network v) db of
                None \<Rightarrow> Inl (Custody_refused ''No active signer set for category'')
              | Some ss \<Rightarrow>
                 (case payout_guard E v ss db of
                    Inl e \<Rightarrow> Inl e
                  | Inr _ \<Rightarrow>
                     (case computeOperationsHash E (nv_intent v) of
                        Inl e \<Rightarrow> Inl e
                      | Inr h \<Rightarrow> Inr (new_custody_request E inp v ss h))))))"

definition same_slot :: "custody_request \<Rightarrow> custody_request \<Rightarrow> bool" where
  "same_slot a b \<longleftrightarrow> rq_sourceAccount a = rq_sourceAccount b \<and> rq_network a = rq_network b \<and> rq_sequence a = rq_sequence b"

text \<open>The two unique indexes of the collection, and the exception they become.\<close>

definition request_create :: "custody_request \<Rightarrow> custody_db \<Rightarrow> (custody_error + custody_request) \<times> custody_db" where
  "request_create r db =
     (if list_ex (\<lambda>x. rq_network x = rq_network r \<and> rq_envelopeHash x = rq_envelopeHash r) (cd_requests db)
         \<or> list_ex (same_slot r) (cd_requests db)
      then (Inl (Custody_refused ''Replay rejected: an approval request for this envelope or sequence already exists''), db)
      else (Inr r, db\<lparr>cd_requests := cd_requests db @ [r]\<rparr>))"

definition request_audit :: "custody_env \<Rightarrow> custody_request \<Rightarrow> custody_db \<Rightarrow> (custody_error + custody_request) \<times> custody_db" where
  "request_audit E r db =
     audited E (custody_event ''custody.approval.requested'' ''custody_approval_request'' (rq_id r) True
        [(''category'', MStr (category_name (rq_category r))), (''operation'', MStr (rq_operation r)),
         (''envelopeHash'', MStr (rq_envelopeHash r)), (''sourceAccount'', MStr (rq_sourceAccount r)),
         (''sequence'', MStr (rq_sequence r))]) r db"

definition request_insert :: "custody_env \<Rightarrow> custody_request \<Rightarrow> custody_db \<Rightarrow> (custody_error + custody_request) \<times> custody_db" where
  "request_insert E r db = (case request_create r db of (Inl e, db1) \<Rightarrow> (Inl e, db1) | (Inr r1, db1) \<Rightarrow> request_audit E r1 db1)"

definition requestApproval :: "custody_env \<Rightarrow> approval_input \<Rightarrow> custody_db \<Rightarrow> (custody_error + custody_request) \<times> custody_db" where
  "requestApproval E inp db =
     (case request_prepare E inp db of Inl e \<Rightarrow> (Inl e, db) | Inr r \<Rightarrow> request_insert E r db)"

subsection \<open>Approvals\<close>

definition request_by_id :: "custody_env \<Rightarrow> oid \<Rightarrow> custody_db \<Rightarrow> custody_error + custody_request" where
  "request_by_id E i db =
     (if \<not> valid_oid E i then Inl (Other_failure ''CastError'')
      else case find_one (\<lambda>r. rq_id r = i) (cd_requests db) of
        None \<Rightarrow> Inl (Custody_refused ''Approval request not found'')
      | Some r \<Rightarrow> Inr r)"

definition update_custody_request ::
  "(custody_request \<Rightarrow> bool) \<Rightarrow> (custody_request \<Rightarrow> custody_request) \<Rightarrow> custody_db \<Rightarrow> (custody_error + custody_request option) \<times> custody_db" where
  "update_custody_request P f db = (case hooked_update request_terminal P f (cd_requests db) of
     (res, rs) \<Rightarrow> (res, db\<lparr>cd_requests := rs\<rparr>))"

definition at_request :: "oid \<Rightarrow> request_status \<Rightarrow> custody_request \<Rightarrow> bool" where
  "at_request i st r \<longleftrightarrow> rq_id r = i \<and> rq_status r = st"

definition approve_check ::
  "custody_env \<Rightarrow> oid \<Rightarrow> string \<Rightarrow> signer_role \<Rightarrow> custody_db \<Rightarrow> custody_error + custody_request \<times> signer_set" where
  "approve_check E i signerId role db =
     (case request_by_id E i db of
        Inl e \<Rightarrow> Inl e
      | Inr r \<Rightarrow>
         if rq_status r \<notin> {Cr_pending, Cr_quorum_reached} then Inl (Custody_refused ''Cannot approve a request in this status'')
         else if now E > rq_maxTime r then Inl (Custody_refused ''Approval window has expired; replay rejected'')
         else case find_one (\<lambda>ss. of_network (rq_category r) (rq_network r) ss \<and> ss_version ss = rq_signerSetVersion r
                  \<and> ss_status ss \<in> {Set_active, Set_retiring}) (cd_sets db) of
           None \<Rightarrow> Inl (Custody_refused ''No active or retiring signer set backs this approval request'')
         | Some ss \<Rightarrow>
            if \<not> list_ex (\<lambda>sg. sg_signerId sg = signerId \<and> sg_role sg = role) (ss_signers ss)
            then Inl (Custody_refused ''not an eligible signer for this request'')
            else if list_ex (\<lambda>a. ca_signerId a = signerId) (rq_approvals r)
            then Inl (Custody_refused ''has already approved this request'')
            else Inr (r, ss))"

definition add_approval :: "custody_env \<Rightarrow> string \<Rightarrow> signer_role \<Rightarrow> custody_request \<Rightarrow> custody_request" where
  "add_approval E signerId role r =
     r\<lparr>rq_approvals := rq_approvals r @ [\<lparr>ca_signerId = signerId, ca_role = role, ca_approvedAt = now E\<rparr>]\<rparr>"

definition approve_push ::
  "custody_env \<Rightarrow> oid \<Rightarrow> string \<Rightarrow> signer_role \<Rightarrow> custody_request \<Rightarrow> custody_db \<Rightarrow> (custody_error + custody_request) \<times> custody_db" where
  "approve_push E i signerId role r db =
     (case update_custody_request (at_request i (rq_status r)) (add_approval E signerId role) db of
        (Inl e, db1) \<Rightarrow> (Inl e, db1)
      | (Inr None, db1) \<Rightarrow> (Inl (Custody_refused ''Approval conflict; reload and retry''), db1)
      | (Inr (Some updated), db1) \<Rightarrow>
          audited E (custody_event ''custody.approval.granted'' ''custody_approval_request'' i True
            [(''signerId'', MStr signerId), (''role'', MStr (role_name role))]) updated db1)"

definition request_weight :: "custody_request \<Rightarrow> signer_set \<Rightarrow> rat" where
  "request_weight r ss = sumApprovedWeight (map ca_signerId (rq_approvals r)) (ss_signers ss)"

definition approve_promote ::
  "oid \<Rightarrow> custody_request \<Rightarrow> signer_set \<Rightarrow> custody_db \<Rightarrow> (custody_error + custody_request) \<times> custody_db" where
  "approve_promote i updated ss db =
     (if request_weight updated ss \<ge> ss_threshold ss \<and> rq_status updated = Cr_pending
      then (case update_custody_request (at_request i Cr_pending) (\<lambda>r. r\<lparr>rq_status := Cr_quorum_reached\<rparr>) db of
              (Inl e, db1) \<Rightarrow> (Inl e, db1)
            | (Inr None, db1) \<Rightarrow> (Inr updated, db1)
            | (Inr (Some promoted), db1) \<Rightarrow> (Inr promoted, db1))
      else (Inr updated, db))"

definition approve_custody :: "custody_env \<Rightarrow> oid \<Rightarrow> string \<Rightarrow> signer_role \<Rightarrow> custody_db \<Rightarrow> (custody_error + custody_request) \<times> custody_db" where
  "approve_custody E i signerId role db =
     (case approve_check E i signerId role db of
        Inl e \<Rightarrow> (Inl e, db)
      | Inr (r, ss) \<Rightarrow>
         (case approve_push E i signerId role r db of
            (Inl e, db1) \<Rightarrow> (Inl e, db1)
          | (Inr updated, db1) \<Rightarrow> approve_promote i updated ss db1))"

subsection \<open>Submission\<close>

definition finalize_claim :: "oid \<Rightarrow> custody_db \<Rightarrow> (custody_error + custody_request) \<times> custody_db" where
  "finalize_claim i db =
     (case update_custody_request (at_request i Cr_quorum_reached) (\<lambda>r. r\<lparr>rq_status := Cr_submitting\<rparr>) db of
        (Inl e, db1) \<Rightarrow> (Inl e, db1)
      | (Inr None, db1) \<Rightarrow> (Inl (Custody_refused ''Cannot finalize: request is not in quorum_reached status''), db1)
      | (Inr (Some claimed), db1) \<Rightarrow> (Inr claimed, db1))"

definition seconds :: "time \<Rightarrow> int" where
  "seconds t = t div 1000"

definition build_transaction :: "stellar_sdk \<Rightarrow> envelope \<Rightarrow> custody_error + custody_tx" where
  "build_transaction S v =
     (case buildOperations S (nv_intent v) of
        Inl e \<Rightarrow> Inl e
      | Inr operations \<Rightarrow>
         (let tx = (\<lambda>m. \<lparr> tx_sourceAccount = nv_sourceAccount v, tx_sequence = int (decimal_value (nv_sequence v)),
                tx_passphrase = nv_networkPassphrase v, tx_minTime = seconds (nv_minTime v),
                tx_maxTime = seconds (nv_maxTime v), tx_operations = operations, tx_memo = m \<rparr>)
          in if mm_type (nv_memo v) \<noteq> Memo_none \<and> truthy (mm_value (nv_memo v))
             then map_sum id (\<lambda>m. tx (Some m)) (sk_memo S (mm_type (nv_memo v)) (the (mm_value (nv_memo v))))
             else Inr (tx None)))"

text \<open>One signature for every approver that is in the set: identifier, public key, signature.\<close>

fun sign_all :: "signer_adapter \<Rightarrow> string \<Rightarrow> signer list \<Rightarrow> string list \<Rightarrow> custody_error + (string \<times> string \<times> string) list" where
  "sign_all adapter payloadHash signers [] = Inr []"
| "sign_all adapter payloadHash signers (i # is) =
     (case find_one (\<lambda>sg. sg_signerId sg = i) signers of
        None \<Rightarrow> sign_all adapter payloadHash signers is
      | Some sg \<Rightarrow>
         (case adapter i payloadHash of
            Inl e \<Rightarrow> Inl e
          | Inr signature \<Rightarrow> map_sum id (\<lambda>rest. (i, sg_publicKey sg, signature) # rest) (sign_all adapter payloadHash signers is)))"

definition pinned_set :: "custody_request \<Rightarrow> custody_db \<Rightarrow> signer_set option" where
  "pinned_set r db = find_one (\<lambda>ss. of_network (rq_category r) (rq_network r) ss \<and> ss_version ss = rq_signerSetVersion r) (cd_sets db)"

definition finalize_sign ::
  "custody_env \<Rightarrow> signer_adapter option \<Rightarrow> custody_request \<Rightarrow> signer_set \<Rightarrow> custody_error + custody_tx \<times> (string \<times> string \<times> string) list" where
  "finalize_sign E chosen claimed ss =
     (case build_transaction (ce_sdk E) (rq_envelope claimed) of
        Inl e \<Rightarrow> Inl e
      | Inr tx \<Rightarrow>
         (case (case chosen of Some a \<Rightarrow> Inr a | None \<Rightarrow> createSignerAdapter E) of
            Inl e \<Rightarrow> Inl e
          | Inr adapter \<Rightarrow> map_sum id (Pair tx)
              (sign_all adapter (sk_txHash (ce_sdk E) tx) (ss_signers ss) (dedupe (map ca_signerId (rq_approvals claimed))))))"

definition finalize_build ::
  "custody_env \<Rightarrow> signer_adapter option \<Rightarrow> custody_request \<Rightarrow> custody_db \<Rightarrow> custody_error + custody_tx \<times> (string \<times> string \<times> string) list" where
  "finalize_build E chosen claimed db =
     (let v = rq_envelope claimed in
      if now E > rq_maxTime claimed then Inl (Custody_refused ''Approval window expired before submission; replay rejected'')
      else if computeEnvelopeHash E v \<noteq> rq_envelopeHash claimed then Inl (Custody_refused ''Envelope integrity check failed'')
      else case assertEnvelopeFresh E v (getWatermark (rq_sourceAccount claimed) (rq_network claimed) db) of
        Inl e \<Rightarrow> Inl e
      | Inr _ \<Rightarrow>
         (case computeOperationsHash E (nv_intent v) of
            Inl e \<Rightarrow> Inl e
          | Inr h \<Rightarrow>
             if h \<noteq> rq_operationsHash claimed then Inl (Custody_refused ''Cross-intent replay rejected'')
             else case pinned_set claimed db of
               None \<Rightarrow> Inl (Custody_refused ''Signer set no longer exists'')
             | Some ss \<Rightarrow>
                if request_weight claimed ss < ss_threshold ss then Inl (Custody_refused ''Quorum not met at finalize time'')
                else finalize_sign E chosen claimed ss))"

definition custody_message :: "custody_error \<Rightarrow> string" where
  "custody_message e = (case e of Set_invariant m \<Rightarrow> m | Policy_violation m \<Rightarrow> m | Envelope_invalid m \<Rightarrow> m
     | Operation_invalid m \<Rightarrow> m | Custody_refused m \<Rightarrow> m | Ambiguous_submission m \<Rightarrow> m | Rotation_refused m \<Rightarrow> m
     | Adapter_refused m \<Rightarrow> m | Config_invalid m \<Rightarrow> m | Other_failure m \<Rightarrow> m | _ \<Rightarrow> ''Unknown submission failure'')"

definition submission_event :: "string \<Rightarrow> custody_request \<Rightarrow> bool \<Rightarrow> string \<Rightarrow> audit_event" where
  "submission_event action r ok reason = custody_event action ''custody_approval_request'' (rq_id r) ok
     [(''category'', MStr (category_name (rq_category r))), (''envelopeHash'', MStr (rq_envelopeHash r)), (''reason'', MStr reason)]"

definition ambiguous :: "custody_error \<Rightarrow> bool" where
  "ambiguous e \<longleftrightarrow> (case e of Ambiguous_submission _ \<Rightarrow> True | _ \<Rightarrow> False)"

text \<open>The \<open>catch\<close> block.\<close>

definition finalize_fail :: "custody_env \<Rightarrow> custody_request \<Rightarrow> custody_error \<Rightarrow> custody_db \<Rightarrow> (custody_error + custody_request option) \<times> custody_db" where
  "finalize_fail E claimed err db =
     (if ambiguous err
      then (case custody_audit E (submission_event ''custody.envelope.submission_ambiguous'' claimed False (custody_message err)) db of
              (Inl e, db1) \<Rightarrow> (Inl e, db1) | (Inr _, db1) \<Rightarrow> (Inl err, db1))
      else (case update_custody_request (at_request (rq_id claimed) Cr_submitting)
                 (\<lambda>r. r\<lparr>rq_status := Cr_failed, rq_failureReason := Some (custody_message err)\<rparr>) db of
            (Inl e, db1) \<Rightarrow> (Inl e, db1)
          | (Inr _, db1) \<Rightarrow>
             (case custody_audit E (submission_event ''custody.envelope.submission_failed'' claimed False (custody_message err)) db1 of
                (Inl e, db2) \<Rightarrow> (Inl e, db2) | (Inr _, db2) \<Rightarrow> (Inl err, db2))))"

definition finalize_end ::
  "custody_env \<Rightarrow> custody_request \<Rightarrow> (custody_error + ledger_result) \<Rightarrow> custody_db \<Rightarrow> (custody_error + custody_request option) \<times> custody_db" where
  "finalize_end E claimed outcome db =
     (case outcome of
        Inl e \<Rightarrow> finalize_fail E claimed e db
      | Inr result \<Rightarrow>
         (case advanceWatermark E (rq_sourceAccount claimed) (rq_network claimed) (nv_sequence (rq_envelope claimed)) db of
            (Inl e, db1) \<Rightarrow> finalize_fail E claimed e db1
          | (Inr _, db1) \<Rightarrow>
             (case update_custody_request (at_request (rq_id claimed) Cr_submitting)
                     (\<lambda>r. r\<lparr>rq_status := Cr_submitted, rq_ledgerResult := Some (result, now E)\<rparr>) db1 of
                (Inl e, db2) \<Rightarrow> finalize_fail E claimed e db2
              | (Inr submitted, db2) \<Rightarrow>
                 (case custody_audit E (submission_event ''custody.envelope.submitted'' claimed True (lr_hash result)) db2 of
                    (Inl e, db3) \<Rightarrow> finalize_fail E claimed e db3
                  | (Inr _, db3) \<Rightarrow> (Inr submitted, db3)))))"

text \<open>\<open>submit\<close> is the call of Horizon (or of the option \<open>submit\<close>) with the signed transaction.\<close>

definition finalizeAndSubmit ::
  "custody_env \<Rightarrow> signer_adapter option \<Rightarrow> (custody_tx \<Rightarrow> (string \<times> string \<times> string) list \<Rightarrow> custody_error + ledger_result)
   \<Rightarrow> oid \<Rightarrow> custody_db \<Rightarrow> (custody_error + custody_request option) \<times> custody_db" where
  "finalizeAndSubmit E chosen submit i db =
     (if \<not> valid_oid E i then (Inl (Other_failure ''CastError''), db)
      else case finalize_claim i db of
        (Inl e, db1) \<Rightarrow> (Inl e, db1)
      | (Inr claimed, db1) \<Rightarrow>
         (case finalize_build E chosen claimed db1 of
            Inl e \<Rightarrow> finalize_end E claimed (Inl e) db1
          | Inr (tx, signatures) \<Rightarrow> finalize_end E claimed (submit tx signatures) db1))"

text \<open>
  The default \<open>submit\<close>: an answer of Horizon without an HTTP status is ambiguous, one with a status
  is a definite failure.
\<close>

datatype horizon_answer = Horizon_ok ledger_result | Horizon_status int string | Horizon_silent string

definition horizon_submit :: "horizon_answer \<Rightarrow> custody_error + ledger_result" where
  "horizon_submit a = (case a of
     Horizon_ok r \<Rightarrow> Inr r
   | Horizon_status n m \<Rightarrow> Inl (Other_failure m)
   | Horizon_silent m \<Rightarrow> Inl (Ambiguous_submission (if m = [] then ''Horizon submission outcome unknown'' else m)))"

subsection \<open>Reconciliation and expiry\<close>

datatype reconcile_outcome = Reconciled_submitted ledger_result | Reconciled_failed "string option"

definition reconciled_as :: "custody_env \<Rightarrow> reconcile_outcome \<Rightarrow> custody_request \<Rightarrow> custody_request" where
  "reconciled_as E outcome r = (case outcome of
     Reconciled_submitted result \<Rightarrow> r\<lparr>rq_status := Cr_submitted, rq_ledgerResult := Some (result, now E)\<rparr>
   | Reconciled_failed reason \<Rightarrow> r\<lparr>rq_status := Cr_failed,
       rq_failureReason := Some (if truthy reason then the reason else ''Reconciled as failed'')\<rparr>)"

definition reconcileSubmission ::
  "custody_env \<Rightarrow> oid \<Rightarrow> reconcile_outcome \<Rightarrow> custody_db \<Rightarrow> (custody_error + custody_request) \<times> custody_db" where
  "reconcileSubmission E i outcome db =
     (case request_by_id E i db of
        Inl e \<Rightarrow> (Inl e, db)
      | Inr r \<Rightarrow>
         if rq_status r \<noteq> Cr_submitting then (Inl (Custody_refused ''Cannot reconcile a request in this status''), db)
         else case update_custody_request (at_request i Cr_submitting) (reconciled_as E outcome) db of
           (Inl e, db1) \<Rightarrow> (Inl e, db1)
         | (Inr None, db1) \<Rightarrow> (Inl (Custody_refused ''Reconciliation conflict; reload and retry''), db1)
         | (Inr (Some reconciled), db1) \<Rightarrow>
            (case (case outcome of Reconciled_failed _ \<Rightarrow> (Inr (), db1)
                   | Reconciled_submitted _ \<Rightarrow> advanceWatermark E (rq_sourceAccount r) (rq_network r) (rq_sequence r) db1) of
               (Inl e, db2) \<Rightarrow> (Inl e, db2)
             | (Inr _, db2) \<Rightarrow> audited E (custody_event ''custody.envelope.reconciled'' ''custody_approval_request'' i True [])
                 reconciled db2))"

definition stale_request :: "time \<Rightarrow> custody_request \<Rightarrow> bool" where
  "stale_request t r \<longleftrightarrow> rq_status r \<in> {Cr_pending, Cr_quorum_reached} \<and> rq_maxTime r < t"

definition expireStaleRequests :: "time \<Rightarrow> custody_db \<Rightarrow> nat \<times> custody_db" where
  "expireStaleRequests t db =
     (length (filter (stale_request t) (cd_requests db)),
      db\<lparr>cd_requests := update_many (stale_request t) (\<lambda>r. r\<lparr>rq_status := Cr_expired\<rparr>) (cd_requests db)\<rparr>)"

end
