(* ===== verification/Rotation_Theorems.thy ===== *)
theory Rotation_Theorems
  imports Custody_Rotation
begin

text \<open>
  Runs of the rotation module: versions are numbered without gaps, an active set remains, and a
  rolled back newest version ends every later rotation of its category.
\<close>

subsection \<open>Runs\<close>

text \<open>\<open>other\<close> is any call that does not touch the signer sets, as those of \<open>service.ts\<close>.\<close>

inductive rotation_step :: "custody_db \<Rightarrow> custody_db \<Rightarrow> bool" where
  seed: "ce_newId E \<notin> ss_id ` set (cd_sets db) \<Longrightarrow> seedGenesisSignerSet E p token db = (res, db') \<Longrightarrow> rotation_step db db'"
| propose: "ce_newId E \<notin> ss_id ` set (cd_sets db) \<Longrightarrow> proposeRotation E p db = (res, db') \<Longrightarrow> rotation_step db db'"
| approve: "approveRotation E i by_whom role q db = (res, db') \<Longrightarrow> rotation_step db db'"
| activate: "activateRotation E i db = (res, db') \<Longrightarrow> rotation_step db db'"
| retire: "retireIfSafe E i db = (res, db') \<Longrightarrow> rotation_step db db'"
| rollback: "rollbackRotation E i reason db = (res, db') \<Longrightarrow> rotation_step db db'"
| other: "cd_sets db' = cd_sets db \<Longrightarrow> rotation_step db db'"

inductive rotation_steps :: "custody_db \<Rightarrow> custody_db \<Rightarrow> bool" where
  none: "rotation_steps db db"
| more: "rotation_steps db db' \<Longrightarrow> rotation_step db' db'' \<Longrightarrow> rotation_steps db db''"

definition rotation_reach :: "custody_db \<Rightarrow> bool" where
  "rotation_reach db \<longleftrightarrow> (\<exists>db0. cd_sets db0 = [] \<and> rotation_steps db0 db)"

subsection \<open>What the writes keep\<close>

definition ss_keeps :: "signer_set \<Rightarrow> signer_set \<Rightarrow> bool" where
  "ss_keeps a b \<longleftrightarrow> ss_id b = ss_id a \<and> ss_category b = ss_category a \<and> ss_network b = ss_network a
     \<and> ss_version b = ss_version a \<and> ss_previousVersion b = ss_previousVersion a \<and> ss_signers b = ss_signers a
     \<and> ss_threshold b = ss_threshold a \<and> (set_terminal a \<longrightarrow> b = a)"

lemma ss_keeps_refl [simp]: "ss_keeps a a"
  by (simp add: ss_keeps_def)

lemma ss_keeps_trans: "ss_keeps a b \<Longrightarrow> ss_keeps b c \<Longrightarrow> ss_keeps a c"
  unfolding ss_keeps_def by (cases "set_terminal a") auto

definition sets_kept :: "custody_db \<Rightarrow> custody_db \<Rightarrow> bool" where
  "sets_kept db db' \<longleftrightarrow> list_all2 ss_keeps (cd_sets db) (cd_sets db')"

lemma sets_kept_same: "cd_sets db' = cd_sets db \<Longrightarrow> sets_kept db db'"
  by (simp add: sets_kept_def list_all2_refl)

lemma sets_kept_trans: "sets_kept a b \<Longrightarrow> sets_kept b c \<Longrightarrow> sets_kept a c"
  unfolding sets_kept_def by (rule list_all2_trans [of ss_keeps ss_keeps ss_keeps]) (rule ss_keeps_trans)

text \<open>Every update of a set is of this form: open documents change, and only in fields that may change.\<close>

lemma update_set_kept:
  assumes "update_set P f db = (res, db')" and "\<And>s. P s \<Longrightarrow> ss_keeps s (f s)"
  shows "sets_kept db db'"
proof -
  have "list_all2 ss_keeps (cd_sets db) (update_one P f (cd_sets db))"
    by (rule list_all2_update_one) (simp_all add: assms(2))
  with update_set_sets [of P f db] assms(1) show ?thesis by (auto simp: sets_kept_def list_all2_refl)
qed

lemma open_keeps:
  "at_set i st s \<Longrightarrow> st \<notin> {Set_retired, Set_rolled_back} \<Longrightarrow> ss_keeps s (s\<lparr>ss_status := x\<rparr>)"
  "at_set i st s \<Longrightarrow> st \<notin> {Set_retired, Set_rolled_back} \<Longrightarrow> ss_keeps s (s\<lparr>ss_status := x, ss_effectiveFrom := t\<rparr>)"
  "at_version c n v st s \<Longrightarrow> st \<notin> {Set_retired, Set_rolled_back} \<Longrightarrow> ss_keeps s (s\<lparr>ss_status := x, ss_effectiveTo := t\<rparr>)"
  "at_set i st s \<Longrightarrow> st \<notin> {Set_retired, Set_rolled_back} \<Longrightarrow> ss_keeps s (s\<lparr>ss_rotationApprovals := as\<rparr>)"
  by (auto simp: ss_keeps_def set_terminal_def at_set_def at_version_def)

lemma audited_same: "audited E ev a db = (res, db') \<Longrightarrow> cd_sets db' = cd_sets db"
  by (metis audited_sets(1) snd_conv)

lemma kept_cases:
  assumes "sets_kept db d" and "cd_sets db' = cd_sets db \<or> cd_sets db' = cd_sets d"
  shows "sets_kept db db'"
  using assms by (auto simp: sets_kept_def list_all2_refl)

lemma retire_previous_kept: "retire_previous E s db = (res, db') \<Longrightarrow> sets_kept db db'"
  unfolding retire_previous_def
  by (auto split: option.splits simp: sets_kept_same elim!: update_set_kept intro: open_keeps)

lemma reactivate_previous_kept:
  assumes "reactivate_previous s db = (res, db')"
  shows "sets_kept db db'"
proof (cases "ss_previousVersion s")
  case (Some v)
  obtain r d where u: "update_set (at_version (ss_category s) (ss_network s) v Set_retiring)
      (\<lambda>x. x\<lparr>ss_status := Set_active, ss_effectiveTo := None\<rparr>) db = (r, d)" by fastforce
  have "sets_kept db d" by (rule update_set_kept [OF u]) (erule open_keeps, simp)
  moreover have "db' = d \<or> db' = db" using assms Some u
    by (auto simp: reactivate_previous_def split: if_splits option.splits sum.splits)
  ultimately show ?thesis by (auto simp: sets_kept_same)
qed (use assms in \<open>auto simp: reactivate_previous_def sets_kept_same split: if_splits\<close>)

lemma approve_kept:
  assumes "approveRotation E i by_whom role q db = (res, db')"
  shows "sets_kept db db'"
proof -
  obtain r d where u: "update_set (at_set i Set_pending) (add_rotation_approval E by_whom role q) db = (r, d)" by fastforce
  have k: "sets_kept db d" by (rule update_set_kept [OF u]) (auto simp: add_rotation_approval_def intro: open_keeps)
  have "cd_sets db' = cd_sets db \<or> cd_sets db' = cd_sets d"
    using assms u by (auto simp: approveRotation_def dest: audited_same split: if_splits option.splits sum.splits prod.splits)
  with k show ?thesis by (rule kept_cases)
qed

lemma activate_kept:
  assumes "activateRotation E i db = (res, db')"
  shows "sets_kept db db'"
proof -
  obtain r d where u: "update_set (at_set i Set_pending) (\<lambda>ss. ss\<lparr>ss_status := Set_active, ss_effectiveFrom := Some (now E)\<rparr>) db = (r, d)"
    by fastforce
  have k: "sets_kept db d" by (rule update_set_kept [OF u]) (auto intro: open_keeps)
  have "cd_sets db' = cd_sets db \<or> cd_sets db' = cd_sets d
     \<or> (\<exists>s x d2. retire_previous E s d = (x, d2) \<and> cd_sets db' = cd_sets d2)"
    using assms u by (auto simp: activateRotation_def dest: audited_same split: if_splits option.splits sum.splits prod.splits)
  then show ?thesis using k sets_kept_trans [OF k retire_previous_kept] kept_cases by blast
qed

lemma retire_kept:
  assumes "retireIfSafe E i db = (res, db')"
  shows "sets_kept db db'"
proof -
  obtain r d where u: "update_set (at_set i Set_retiring) (\<lambda>ss. ss\<lparr>ss_status := Set_retired\<rparr>) db = (r, d)" by fastforce
  have k: "sets_kept db d" by (rule update_set_kept [OF u]) (auto intro: open_keeps)
  have "cd_sets db' = cd_sets db \<or> cd_sets db' = cd_sets d"
    using assms u by (auto simp: retireIfSafe_def dest: audited_same split: if_splits option.splits sum.splits prod.splits)
  with k show ?thesis by (rule kept_cases)
qed

lemma rollback_kept:
  assumes "rollbackRotation E i reason db = (res, db')"
  shows "sets_kept db db'"
proof (cases "set_by_id E i db")
  case (Inr s)
  obtain r d where u: "reactivate_previous s db = (r, d)" by fastforce
  obtain r2 d2 where u2: "update_set (at_set i (ss_status s)) (\<lambda>x. x\<lparr>ss_status := Set_rolled_back\<rparr>) d = (r2, d2)" by fastforce
  show ?thesis
  proof (cases "ss_status s \<in> {Set_pending, Set_active}")
    case True
    have "sets_kept d d2" by (rule update_set_kept [OF u2]) (use True in \<open>auto intro: open_keeps\<close>)
    with reactivate_previous_kept [OF u] have k: "sets_kept db d" "sets_kept d d2" .
    have "cd_sets db' = cd_sets d \<or> cd_sets db' = cd_sets d2"
      using assms Inr True u u2
      by (auto simp: rollbackRotation_def dest: audited_same split: if_splits option.splits sum.splits prod.splits)
    then show ?thesis using k sets_kept_trans kept_cases by blast
  next
    case False
    with assms Inr show ?thesis by (auto simp: rollbackRotation_def sets_kept_same)
  qed
qed (use assms in \<open>auto simp: rollbackRotation_def sets_kept_same\<close>)

subsection \<open>Creations\<close>

text \<open>A step either evolves the sets or appends one.\<close>

lemma create_set_cases:
  "create_set ss db = (res, db') \<Longrightarrow> (res = Inl Duplicate_key \<and> db' = db
      \<and> (\<exists>x\<in>set (cd_sets db). of_network (ss_category ss) (ss_network ss) x \<and> ss_version x = ss_version ss))
   \<or> (res = Inr ss \<and> cd_sets db' = cd_sets db @ [ss]
      \<and> (\<forall>x\<in>set (cd_sets db). of_network (ss_category ss) (ss_network ss) x \<longrightarrow> ss_version x \<noteq> ss_version ss))"
  by (auto simp: create_set_def list_ex_iff split: if_splits)

definition newest_version :: "op_category \<Rightarrow> string \<Rightarrow> custody_db \<Rightarrow> nat" where
  "newest_version c n db = (case newest_active c n (cd_sets db) of None \<Rightarrow> 0 | Some ss \<Rightarrow> ss_version ss)"

definition pending_in :: "op_category \<Rightarrow> string \<Rightarrow> custody_db \<Rightarrow> bool" where
  "pending_in c n db \<longleftrightarrow> (\<exists>ss\<in>set (cd_sets db). of_network c n ss \<and> ss_status ss = Set_pending)"

abbreviation stored_network :: "proposal \<Rightarrow> string" where
  "stored_network p \<equiv> js_trim (js_lower (pl_network p))"

definition created :: "custody_db \<Rightarrow> signer_set \<Rightarrow> bool" where
  "created db ss \<longleftrightarrow> (let c = ss_category ss; n = ss_network ss in
     (\<forall>x\<in>set (cd_sets db). of_network c n x \<longrightarrow> ss_version x \<noteq> ss_version ss)
     \<and> ss_version ss = newest_version c n db + 1
     \<and> (ss_status ss = Set_pending \<and> \<not> pending_in c n db
           \<and> ss_previousVersion ss = map_option ss_version (newest_active c n (cd_sets db))
        \<or> ss_status ss = Set_active \<and> (\<forall>x\<in>set (cd_sets db). \<not> of_network c n x) \<and> ss_previousVersion ss = None))"

lemma audited_creation:
  assumes "create_set ss db = (r, d)"
    and "(case create_set ss db of (Inl e, db1) \<Rightarrow> (Inl e, db1) | (Inr ss, db1) \<Rightarrow> audited E (ev ss) ss db1) = (res, db')"
  shows "(\<exists>e. res = Inl e) \<and> cd_sets db' = cd_sets db \<or> cd_sets db' = cd_sets db @ [ss]
     \<and> (\<forall>x\<in>set (cd_sets db). of_network (ss_category ss) (ss_network ss) x \<longrightarrow> ss_version x \<noteq> ss_version ss)"
  using create_set_cases [OF assms(1)]
proof (elim disjE conjE)
  assume "r = Inl Duplicate_key" and "d = db"
  with assms show ?thesis by auto
next
  assume r: "r = Inr ss" and d: "cd_sets d = cd_sets db @ [ss]"
    and v: "\<forall>x\<in>set (cd_sets db). of_network (ss_category ss) (ss_network ss) x \<longrightarrow> ss_version x \<noteq> ss_version ss"
  have "audited E (ev ss) ss d = (res, db')" using assms r by simp
  from audited_same [OF this] d v show ?thesis by simp
qed

lemma newest_none: "(\<forall>x\<in>set (cd_sets db). \<not> of_network c n x) \<Longrightarrow> newest_version c n db = 0"
proof -
  assume "\<forall>x\<in>set (cd_sets db). \<not> of_network c n x"
  then have "filter (\<lambda>ss. of_network c n ss \<and> ss_status ss = Set_active) (cd_sets db) = []" by (simp add: filter_empty_conv)
  then show ?thesis by (simp only: newest_version_def newest_active_def) (simp add: js_sort_def)
qed

lemma propose_cases:
  assumes "proposeRotation E p db = (res, db')"
  shows "(\<exists>e. res = Inl e) \<and> cd_sets db' = cd_sets db \<or>
    (\<exists>ss. cd_sets db' = cd_sets db @ [ss] \<and> created db ss \<and> ss_id ss = ce_newId E
       \<and> of_network (pl_category p) (stored_network p) ss)"
proof (cases "validateSignerSetInvariants (pl_category p) (pl_signers p) (pl_threshold p)")
  case (Inl e)
  with assms show ?thesis by auto (auto simp: proposeRotation_def)
next
  case (Inr u)
  let ?c = "pl_category p" and ?n = "stored_network p"
  let ?ss = "proposed_set E p (newest_version ?c ?n db + 1) (map_option ss_version (newest_active ?c ?n (cd_sets db))) Set_pending None"
  show ?thesis
  proof (cases "pending_in ?c ?n db")
    case True
    then have "list_ex (\<lambda>ss. of_network ?c ?n ss \<and> ss_status ss = Set_pending) (cd_sets db)"
      by (simp add: pending_in_def list_ex_iff)
    with assms Inr show ?thesis by (auto simp: proposeRotation_def Let_def)
  next
    case False
    then have no: "\<not> list_ex (\<lambda>ss. of_network ?c ?n ss \<and> ss_status ss = Set_pending) (cd_sets db)"
      by (simp add: pending_in_def list_ex_iff)
    obtain r d where c: "create_set ?ss db = (r, d)" by fastforce
    have f: "ss_id ?ss = ce_newId E" "ss_status ?ss = Set_pending" "of_network ?c ?n ?ss" "ss_category ?ss = ?c" "ss_network ?ss = ?n"
      "ss_version ?ss = newest_version ?c ?n db + 1"
      "ss_previousVersion ?ss = map_option ss_version (newest_active ?c ?n (cd_sets db))"
      by (simp_all add: proposed_set_def of_network_def)
    have e: "(case create_set ?ss db of (Inl e, db1) \<Rightarrow> (Inl e, db1)
        | (Inr ss, db1) \<Rightarrow> audited E (proposal_event ''custody.rotation.proposed'' ss) ss db1) = (res, db')"
      using assms Inr no by (simp add: proposeRotation_def Let_def newest_version_def)
    from audited_creation [OF c e] show ?thesis
    proof (elim disjE conjE)
      assume d: "cd_sets db' = cd_sets db @ [?ss]"
        and v: "\<forall>x\<in>set (cd_sets db). of_network (ss_category ?ss) (ss_network ?ss) x \<longrightarrow> ss_version x \<noteq> ss_version ?ss"
      have "created db ?ss" using v False unfolding created_def Let_def f by blast
      with d f show ?thesis by (intro disjI2 exI [of _ ?ss]) simp
    qed simp
  qed
qed

lemma seed_cases:
  assumes "seedGenesisSignerSet E p token db = (res, db')"
  shows "cd_sets db' = cd_sets db \<or> (\<exists>ss. cd_sets db' = cd_sets db @ [ss] \<and> created db ss \<and> ss_id ss = ce_newId E)"
proof (cases "token = GENESIS_CONFIRMATION_TOKEN \<and> validateSignerSetInvariants (pl_category p) (pl_signers p) (pl_threshold p) = Inr ()
    \<and> \<not> list_ex (of_network (pl_category p) (stored_network p)) (cd_sets db)")
  case False
  with assms show ?thesis by (auto simp: seedGenesisSignerSet_def split: if_splits sum.splits)
next
  case True
  let ?c = "pl_category p" and ?n = "stored_network p"
  let ?ss = "proposed_set E p 1 None Set_active (Some (now E))"
  obtain r d where c: "create_set ?ss db = (r, d)" by fastforce
  have f: "ss_id ?ss = ce_newId E" "ss_status ?ss = Set_active" "ss_category ?ss = ?c" "ss_network ?ss = ?n"
    "ss_version ?ss = 1" "ss_previousVersion ?ss = None"
    by (simp_all add: proposed_set_def)
  have n: "\<forall>x\<in>set (cd_sets db). \<not> of_network ?c ?n x" using True by (simp add: list_ex_iff)
  have e: "(case create_set ?ss db of (Inl e, db1) \<Rightarrow> (Inl e, db1)
      | (Inr ss, db1) \<Rightarrow> audited E (proposal_event ''custody.rotation.genesis_seeded'' ss) ss db1) = (res, db')"
    using assms True by (simp add: seedGenesisSignerSet_def)
  have "created db ?ss" using n newest_none [OF n] unfolding created_def Let_def f by simp
  with audited_creation [OF c e] f(1) show ?thesis by blast
qed

lemma step_cases:
  assumes "rotation_step db db'"
  shows "sets_kept db db' \<or> (\<exists>ss. cd_sets db' = cd_sets db @ [ss] \<and> created db ss \<and> ss_id ss \<notin> ss_id ` set (cd_sets db))"
  using assms
proof cases
  case (seed E p token res)
  from seed_cases [OF seed(2)] show ?thesis using seed(1) sets_kept_same by metis
next
  case (propose E p res)
  from propose_cases [OF propose(2)] show ?thesis using propose(1) sets_kept_same by metis
next
  case (approve E i w r q res)
  then show ?thesis using approve_kept by blast
next
  case (activate E i res)
  then show ?thesis using activate_kept by blast
next
  case (retire E i res)
  then show ?thesis using retire_kept by blast
next
  case (rollback E i reason res)
  then show ?thesis using rollback_kept by blast
next
  case other
  then show ?thesis using sets_kept_same by blast
qed

subsection \<open>Well-formed collections\<close>

definition set_key :: "signer_set \<Rightarrow> op_category \<times> string \<times> nat" where
  "set_key ss = (ss_category ss, ss_network ss, ss_version ss)"

text \<open>Versions are numbered without gaps, and a predecessor is older.\<close>

definition numbered :: "signer_set list \<Rightarrow> signer_set \<Rightarrow> bool" where
  "numbered sets ss \<longleftrightarrow> 0 < ss_version ss
     \<and> (\<forall>v. 0 < v \<and> v < ss_version ss \<longrightarrow> (\<exists>x\<in>set sets. of_network (ss_category ss) (ss_network ss) x \<and> ss_version x = v))
     \<and> (\<forall>v. ss_previousVersion ss = Some v \<longrightarrow> v < ss_version ss)"

definition well_numbered :: "custody_db \<Rightarrow> bool" where
  "well_numbered db \<longleftrightarrow> distinct (map ss_id (cd_sets db)) \<and> distinct (map set_key (cd_sets db))
     \<and> (\<forall>ss\<in>set (cd_sets db). numbered (cd_sets db) ss)"

lemma newest_active_member:
  assumes "newest_active c n sets = Some ss"
  shows "ss \<in> set sets \<and> of_network c n ss \<and> ss_status ss = Set_active"
proof -
  let ?act = "filter (\<lambda>ss. of_network c n ss \<and> ss_status ss = Set_active) sets"
  from assms obtain rest where "js_sort (\<lambda>a b. of_int (int (ss_version b) - int (ss_version a))) ?act = ss # rest"
    by (auto simp: newest_active_def split: list.splits)
  from js_sort_hd [OF this] show ?thesis by auto
qed

lemma kept_keys:
  assumes "sets_kept db db'"
  shows "map ss_id (cd_sets db') = map ss_id (cd_sets db)" "map set_key (cd_sets db') = map set_key (cd_sets db)"
  using assms unfolding sets_kept_def
  by (induction rule: list_all2_induct) (auto simp: ss_keeps_def set_key_def)

lemma kept_forward: "sets_kept db db' \<Longrightarrow> x \<in> set (cd_sets db) \<Longrightarrow> \<exists>x'\<in>set (cd_sets db'). ss_keeps x x'"
  unfolding sets_kept_def by (rule list_all2_stored)

lemma kept_origin: "sets_kept db db' \<Longrightarrow> x' \<in> set (cd_sets db') \<Longrightarrow> \<exists>x\<in>set (cd_sets db). ss_keeps x x'"
  unfolding sets_kept_def by (rule list_all2_origin)

lemma keeps_network: "ss_keeps x x' \<Longrightarrow> of_network c n x' = of_network c n x"
  by (simp add: ss_keeps_def of_network_def)

lemma numbered_kept:
  assumes "numbered (cd_sets db) s" and "ss_keeps s s'" and "sets_kept db db'"
  shows "numbered (cd_sets db') s'"
  unfolding numbered_def
proof (intro conjI allI impI)
  have s: "ss_category s' = ss_category s" "ss_network s' = ss_network s" "ss_version s' = ss_version s"
    "ss_previousVersion s' = ss_previousVersion s"
    using assms(2) by (simp_all add: ss_keeps_def)
  show "0 < ss_version s'" using assms(1) s by (simp add: numbered_def)
  show "v < ss_version s'" if "ss_previousVersion s' = Some v" for v using assms(1) s that by (simp add: numbered_def)
  fix v assume "0 < v \<and> v < ss_version s'"
  then obtain x where x: "x \<in> set (cd_sets db)" "of_network (ss_category s) (ss_network s) x" "ss_version x = v"
    using assms(1) s unfolding numbered_def by auto
  from kept_forward [OF assms(3) x(1)] obtain x' where "x' \<in> set (cd_sets db')" "ss_keeps x x'" by blast
  moreover from this x have "of_network (ss_category s') (ss_network s') x'" "ss_version x' = v"
    using s keeps_network by (auto simp: ss_keeps_def)
  ultimately show "\<exists>x\<in>set (cd_sets db'). of_network (ss_category s') (ss_network s') x \<and> ss_version x = v" by blast
qed

lemma well_numbered_kept:
  assumes "sets_kept db db'" and "well_numbered db"
  shows "well_numbered db'"
proof -
  have "numbered (cd_sets db') s'" if m: "s' \<in> set (cd_sets db')" for s'
  proof -
    obtain s where s: "s \<in> set (cd_sets db)" "ss_keeps s s'" using kept_origin [OF assms(1) m] by blast
    then have "numbered (cd_sets db) s" using assms(2) by (simp add: well_numbered_def)
    from numbered_kept [OF this s(2) assms(1)] show ?thesis .
  qed
  then show ?thesis using assms(2) unfolding well_numbered_def kept_keys [OF assms(1)] by blast
qed

lemma numbered_more: "numbered sets s \<Longrightarrow> numbered (sets @ [x]) s"
  unfolding numbered_def by fastforce

lemma well_numbered_created:
  assumes wf: "well_numbered db" and new: "created db ss" "ss_id ss \<notin> ss_id ` set (cd_sets db)"
    and db': "cd_sets db' = cd_sets db @ [ss]"
  shows "well_numbered db'"
proof -
  let ?c = "ss_category ss" and ?n = "ss_network ss"
  have fresh: "\<forall>x\<in>set (cd_sets db). of_network ?c ?n x \<longrightarrow> ss_version x \<noteq> ss_version ss"
    and v: "ss_version ss = newest_version ?c ?n db + 1" using new(1) by (auto simp: created_def Let_def)
  have key: "set_key ss \<notin> set_key ` set (cd_sets db)" using fresh by (auto simp: set_key_def of_network_def)
  have below: "\<exists>x\<in>set (cd_sets db). of_network ?c ?n x \<and> ss_version x = w" if w: "0 < w" "w < ss_version ss" for w
  proof (cases "newest_active ?c ?n (cd_sets db)")
    case None
    with v w show ?thesis by (simp add: newest_version_def)
  next
    case (Some a)
    from newest_active_member [OF Some] have a: "a \<in> set (cd_sets db)" "of_network ?c ?n a" by simp_all
    then have n: "numbered (cd_sets db) a" using wf by (simp add: well_numbered_def)
    have "w = ss_version a \<or> w < ss_version a" using v Some w by (auto simp: newest_version_def)
    then show ?thesis
    proof
      assume "w < ss_version a"
      with n w(1) a(2) show ?thesis by (simp add: numbered_def of_network_def)
    qed (use a in blast)
  qed
  have prev: "w < ss_version ss" if "ss_previousVersion ss = Some w" for w
    using new(1) v that by (auto simp: created_def Let_def newest_version_def split: option.splits)
  have "numbered (cd_sets db @ [ss]) ss" unfolding numbered_def using v prev below by (simp add: bex_Un)
  then show ?thesis using wf new(2) key numbered_more unfolding well_numbered_def db' by auto
qed

lemma step_well_numbered: "rotation_step db db' \<Longrightarrow> well_numbered db \<Longrightarrow> well_numbered db'"
  using step_cases well_numbered_kept well_numbered_created by blast

lemma steps_well_numbered: "rotation_steps db db' \<Longrightarrow> well_numbered db \<Longrightarrow> well_numbered db'"
  by (induction rule: rotation_steps.induct) (auto intro: step_well_numbered)

lemma reach_well_numbered:
  assumes "rotation_reach db"
  shows "well_numbered db"
proof -
  obtain db0 where "cd_sets db0 = []" "rotation_steps db0 db" using assms by (auto simp: rotation_reach_def)
  moreover from this have "well_numbered db0" by (simp add: well_numbered_def)
  ultimately show ?thesis using steps_well_numbered by blast
qed

subsection \<open>A rolled back newest version\<close>

definition stuck :: "op_category \<Rightarrow> string \<Rightarrow> custody_db \<Rightarrow> bool" where
  "stuck c n db \<longleftrightarrow> (\<exists>s\<in>set (cd_sets db). of_network c n s \<and> ss_status s = Set_rolled_back
     \<and> (\<forall>x\<in>set (cd_sets db). of_network c n x \<longrightarrow> ss_version x \<le> ss_version s))"

lemma same_set:
  assumes "well_numbered db" and "a \<in> set (cd_sets db)" and "b \<in> set (cd_sets db)" and "set_key a = set_key b"
  shows "a = b"
proof -
  have "inj_on set_key (set (cd_sets db))" using assms(1) by (simp add: well_numbered_def distinct_map)
  then show ?thesis using assms by (simp add: inj_on_def)
qed

lemma stuck_no_creation:
  assumes wf: "well_numbered db" and st: "stuck c n db" and new: "created db ss" "of_network c n ss"
  shows False
proof -
  from st obtain s where s: "s \<in> set (cd_sets db)" "of_network c n s" "ss_status s = Set_rolled_back"
    "\<forall>x\<in>set (cd_sets db). of_network c n x \<longrightarrow> ss_version x \<le> ss_version s" by (auto simp: stuck_def)
  have cn: "ss_category ss = c" "ss_network ss = n" using new(2) by (auto simp: of_network_def)
  have fresh: "\<forall>x\<in>set (cd_sets db). of_network c n x \<longrightarrow> ss_version x \<noteq> ss_version ss"
    and v: "ss_version ss = newest_version c n db + 1" using new(1) cn by (auto simp: created_def Let_def)
  have ns: "numbered (cd_sets db) s" using wf s(1) by (simp add: well_numbered_def)
  have "newest_version c n db < ss_version s"
  proof (cases "newest_active c n (cd_sets db)")
    case None
    then show ?thesis using ns by (simp add: newest_version_def numbered_def)
  next
    case (Some a)
    from newest_active_member [OF Some] have a: "a \<in> set (cd_sets db)" "of_network c n a" "ss_status a = Set_active" by simp_all
    then have "ss_version a \<le> ss_version s" using s(4) by blast
    moreover have "ss_version a \<noteq> ss_version s"
    proof
      assume "ss_version a = ss_version s"
      then have "set_key a = set_key s" using a(2) s(2) by (simp add: set_key_def of_network_def)
      from same_set [OF wf a(1) s(1) this] show False using a(3) s(3) by simp
    qed
    ultimately show ?thesis using Some by (simp add: newest_version_def)
  qed
  then consider "ss_version ss = ss_version s" | "ss_version ss < ss_version s" using v by linarith
  then show False
  proof cases
    case 1
    with fresh s(1,2) show ?thesis by metis
  next
    case 2
    moreover have "0 < ss_version ss" using v by simp
    ultimately obtain x where "x \<in> set (cd_sets db)" "of_network c n x" "ss_version x = ss_version ss"
      using ns s(2) unfolding numbered_def of_network_def by metis
    with fresh show ?thesis by metis
  qed
qed

lemma stuck_kept:
  assumes "sets_kept db db'" and "stuck c n db"
  shows "stuck c n db'"
proof -
  from assms(2) obtain s where s: "s \<in> set (cd_sets db)" "of_network c n s" "ss_status s = Set_rolled_back"
    "\<forall>x\<in>set (cd_sets db). of_network c n x \<longrightarrow> ss_version x \<le> ss_version s" by (auto simp: stuck_def)
  obtain s' where "s' \<in> set (cd_sets db')" "ss_keeps s s'" using kept_forward [OF assms(1) s(1)] by blast
  then have m: "s \<in> set (cd_sets db')" using s(3) by (simp add: ss_keeps_def set_terminal_def)
  have "ss_version x' \<le> ss_version s" if x': "x' \<in> set (cd_sets db')" "of_network c n x'" for x'
  proof -
    obtain x where "x \<in> set (cd_sets db)" "ss_keeps x x'" using kept_origin [OF assms(1) x'(1)] by blast
    with s(4) x'(2) keeps_network show ?thesis by (metis ss_keeps_def)
  qed
  with m s(2,3) show ?thesis by (auto simp: stuck_def)
qed

lemma stuck_step:
  assumes "well_numbered db" and "stuck c n db" and "rotation_step db db'"
  shows "stuck c n db'"
proof -
  consider "sets_kept db db'" | ss where "cd_sets db' = cd_sets db @ [ss]" "created db ss" using step_cases [OF assms(3)] by blast
  then show ?thesis
  proof cases
    case 2
    then have "\<not> of_network c n ss" using stuck_no_creation [OF assms(1,2)] by blast
    with assms(2) 2(1) show ?thesis by (auto simp: stuck_def)
  qed (use stuck_kept assms(2) in blast)
qed

lemma stuck_steps: "rotation_steps db db' \<Longrightarrow> well_numbered db \<Longrightarrow> stuck c n db \<Longrightarrow> stuck c n db'"
  by (induction rule: rotation_steps.induct) (auto intro: stuck_step steps_well_numbered)

lemma updated_member:
  assumes "update_set P f db = (Inr (Some s'), db')"
  shows "s' \<in> set (cd_sets db') \<and> (\<exists>s\<in>set (cd_sets db). P s \<and> s' = f s)"
proof -
  from assms obtain s where s: "find_one P (cd_sets db) = Some s" "s' = f s" "cd_sets db' = update_one P f (cd_sets db)"
    by (auto simp: update_set_def hooked_update_def split: option.splits if_splits)
  have "f s \<in> set (update_one P f xs)" if "find_one P xs = Some s" for xs
    using that by (induction xs) (auto split: if_splits)
  from this [OF s(1)] show ?thesis using s find_one_SomeD [OF s(1)] by auto
qed

lemma rollback_rolls_back:
  assumes "rollbackRotation E i reason db = (Inr r, db')"
  shows "\<exists>s\<in>set (cd_sets db'). ss_id s = i \<and> ss_status s = Set_rolled_back"
proof -
  from assms obtain s d1 x where s: "set_by_id E i db = Inr s" "reactivate_previous s db = (Inr x, d1)"
    by (auto simp: rollbackRotation_def split: if_splits option.splits sum.splits prod.splits)
  obtain y d2 where u: "update_set (at_set i (ss_status s)) (\<lambda>x. x\<lparr>ss_status := Set_rolled_back\<rparr>) d1 = (Inr (Some y), d2)"
    and d: "cd_sets db' = cd_sets d2"
    using assms s by (auto simp: rollbackRotation_def dest: audited_same split: if_splits option.splits sum.splits prod.splits)
  from updated_member [OF u] d show ?thesis by (auto simp: at_set_def intro!: bexI [of _ y])
qed

subsection \<open>An active set remains\<close>

definition has_active :: "op_category \<Rightarrow> string \<Rightarrow> custody_db \<Rightarrow> bool" where
  "has_active c n db \<longleftrightarrow> (\<exists>s\<in>set (cd_sets db). of_network c n s \<and> ss_status s = Set_active)"

lemma update_one_other:
  assumes "d \<in> set ds" and "\<not> P d"
  shows "d \<in> set (update_one P f ds)"
  using assms by (induction ds) auto

text \<open>An update whose filter excludes an active set leaves it.\<close>

lemma update_set_other:
  assumes "update_set P f db = (res, db')" and "d \<in> set (cd_sets db)" and "\<not> P d"
  shows "d \<in> set (cd_sets db')"
  using update_set_sets [of P f db] update_one_other [of d "cd_sets db" P f] assms by auto

lemma has_active_other:
  assumes "update_set P f db = (res, db')" and "has_active c n db"
    and "\<And>d. P d \<Longrightarrow> of_network c n d \<Longrightarrow> ss_status d \<noteq> Set_active"
  shows "has_active c n db'"
  using assms update_set_other [OF assms(1)] unfolding has_active_def by blast

lemma has_active_same: "cd_sets db' = cd_sets db \<Longrightarrow> has_active c n db' = has_active c n db"
  by (simp add: has_active_def)

lemma retire_previous_active:
  assumes "retire_previous E p db = (res, db')" and "has_active c n db"
    and "a \<in> set (cd_sets db)" "ss_status a = Set_active" "of_network (ss_category p) (ss_network p) a"
      "\<And>v. ss_previousVersion p = Some v \<Longrightarrow> v \<noteq> ss_version a"
  shows "has_active c n db'"
proof (cases "ss_previousVersion p")
  case (Some v)
  then have u: "update_set (at_version (ss_category p) (ss_network p) v Set_active)
      (\<lambda>ss. ss\<lparr>ss_status := Set_retiring, ss_effectiveTo := Some (now E + ss_overlapWindowMs p)\<rparr>) db = (res, db')"
    using assms(1) by (simp add: retire_previous_def)
  have a: "a \<in> set (cd_sets db')" by (rule update_set_other [OF u assms(3)]) (use assms(6) Some in \<open>auto simp: at_version_def\<close>)
  show ?thesis
  proof (cases "of_network c n a")
    case True
    with a assms(4) show ?thesis by (auto simp: has_active_def)
  next
    case False
    then show ?thesis by (intro has_active_other [OF u assms(2)]) (use assms(5) in \<open>auto simp: at_version_def of_network_def\<close>)
  qed
qed (use assms in \<open>simp add: retire_previous_def\<close>)

lemma approve_active:
  assumes "approveRotation E i w role q db = (res, db')" and "has_active c n db"
  shows "has_active c n db'"
proof -
  obtain r d where u: "update_set (at_set i Set_pending) (add_rotation_approval E w role q) db = (r, d)" by fastforce
  have "has_active c n d" by (rule has_active_other [OF u assms(2)]) (simp add: at_set_def)
  moreover have "cd_sets db' = cd_sets db \<or> cd_sets db' = cd_sets d"
    using assms u by (auto simp: approveRotation_def dest: audited_same split: if_splits option.splits sum.splits prod.splits)
  ultimately show ?thesis using assms(2) has_active_same by blast
qed

lemma retire_active:
  assumes "retireIfSafe E i db = (res, db')" and "has_active c n db"
  shows "has_active c n db'"
proof -
  obtain r d where u: "update_set (at_set i Set_retiring) (\<lambda>ss. ss\<lparr>ss_status := Set_retired\<rparr>) db = (r, d)" by fastforce
  have "has_active c n d" by (rule has_active_other [OF u assms(2)]) (simp add: at_set_def)
  moreover have "cd_sets db' = cd_sets db \<or> cd_sets db' = cd_sets d"
    using assms u by (auto simp: retireIfSafe_def dest: audited_same split: if_splits option.splits sum.splits prod.splits)
  ultimately show ?thesis using assms(2) has_active_same by blast
qed

lemma set_by_id_member: "set_by_id E i db = Inr s \<Longrightarrow> s \<in> set (cd_sets db) \<and> ss_id s = i"
  by (auto simp: set_by_id_def dest!: find_one_SomeD split: if_splits option.splits)

lemma same_id:
  assumes "well_numbered db" and "a \<in> set (cd_sets db)" and "b \<in> set (cd_sets db)" and "ss_id a = ss_id b"
  shows "a = b"
proof -
  have "inj_on ss_id (set (cd_sets db))" using assms(1) by (simp add: well_numbered_def distinct_map)
  then show ?thesis using assms by (simp add: inj_on_def)
qed

lemma previous_older: "well_numbered db \<Longrightarrow> s \<in> set (cd_sets db) \<Longrightarrow> ss_previousVersion s = Some v \<Longrightarrow> v < ss_version s"
  by (auto simp: well_numbered_def numbered_def)

lemma activate_active:
  assumes "activateRotation E i db = (res, db')" and "has_active c n db" and wf: "well_numbered db"
  shows "has_active c n db'"
proof -
  let ?f = "\<lambda>ss. ss\<lparr>ss_status := Set_active, ss_effectiveFrom := Some (now E)\<rparr>"
  obtain r d where u: "update_set (at_set i Set_pending) ?f db = (r, d)" by fastforce
  have h: "has_active c n d" by (rule has_active_other [OF u assms(2)]) (simp add: at_set_def)
  have "cd_sets db' = cd_sets db \<or> cd_sets db' = cd_sets d
     \<or> (\<exists>s x d2 y. set_by_id E i db = Inr s \<and> r = Inr (Some y) \<and> retire_previous E s d = (x, d2) \<and> cd_sets db' = cd_sets d2)"
    using assms(1) u by (auto simp: activateRotation_def dest: audited_same split: if_splits option.splits sum.splits prod.splits)
  then show ?thesis
  proof (elim disjE exE conjE)
    fix s x d2 y
    assume s: "set_by_id E i db = Inr s" and y: "r = Inr (Some y)" and rp: "retire_previous E s d = (x, d2)" and e: "cd_sets db' = cd_sets d2"
    from updated_member [OF u [unfolded y]] obtain t where t: "y \<in> set (cd_sets d)" "t \<in> set (cd_sets db)" "ss_id t = i" "y = ?f t"
      by (auto simp: at_set_def)
    with same_id [OF wf] set_by_id_member [OF s] have "t = s" by blast
    with t(4) have ys: "ss_status y = Set_active" "of_network (ss_category s) (ss_network s) y" "ss_version y = ss_version s"
      by (simp_all add: of_network_def)
    have "has_active c n d2"
      by (rule retire_previous_active [OF rp h t(1) ys(1,2)]) (use previous_older [OF wf] set_by_id_member [OF s] ys(3) in auto)
    with e show ?thesis using has_active_same by blast
  qed (use h assms(2) has_active_same in blast)+
qed

lemma rollback_active:
  assumes rb: "rollbackRotation E i reason db = (res, db')" and h: "has_active c n db" and wf: "well_numbered db"
  shows "has_active c n db' \<or> (\<exists>s\<in>set (cd_sets db). of_network c n s \<and> ss_status s = Set_active \<and> ss_previousVersion s = None
    \<and> ss_id s = i)"
proof (cases "set_by_id E i db")
  case (Inl e)
  with rb h show ?thesis by (simp add: rollbackRotation_def)
next
  case (Inr s)
  note m = set_by_id_member [OF Inr]
  obtain r d where u: "reactivate_previous s db = (r, d)" by fastforce
  obtain r2 d2 where u2: "update_set (at_set i (ss_status s)) (\<lambda>x. x\<lparr>ss_status := Set_rolled_back\<rparr>) d = (r2, d2)" by fastforce
  have e: "cd_sets db' = cd_sets db \<or> cd_sets db' = cd_sets d \<or> (\<exists>x. r = Inr x) \<and> cd_sets db' = cd_sets d2"
    using rb Inr u u2 by (auto simp: rollbackRotation_def dest: audited_same split: if_splits option.splits sum.splits prod.splits)
  have hd: "has_active c n d"
  proof (cases "ss_status s = Set_active \<and> ss_previousVersion s \<noteq> None")
    case True
    then obtain v where v: "ss_previousVersion s = Some v" by blast
    obtain r' d' where w: "update_set (at_version (ss_category s) (ss_network s) v Set_retiring)
        (\<lambda>x. x\<lparr>ss_status := Set_active, ss_effectiveTo := None\<rparr>) db = (r', d')" by fastforce
    have "has_active c n d'" by (rule has_active_other [OF w h]) (simp add: at_version_def)
    moreover have "cd_sets d = cd_sets d'" using u v True w by (auto simp: reactivate_previous_def split: option.splits sum.splits)
    ultimately show ?thesis using has_active_same by blast
  next
    case False
    with u h show ?thesis by (auto simp: reactivate_previous_def split: if_splits)
  qed
  have "has_active c n d2" if x: "r = Inr x" and n: "\<not> (of_network c n s \<and> ss_status s = Set_active \<and> ss_previousVersion s = None)" for x
  proof (cases "ss_status s = Set_active \<and> of_network c n s")
    case False
    have "\<not> (at_set i (ss_status s) q \<and> of_network c n q \<and> ss_status q = Set_active)" if q: "q \<in> set (cd_sets d)" for q
    proof
      assume a: "at_set i (ss_status s) q \<and> of_network c n q \<and> ss_status q = Set_active"
      obtain q0 where q0: "q0 \<in> set (cd_sets db)" "ss_keeps q0 q" using kept_origin [OF reactivate_previous_kept [OF u] q] by blast
      then have "ss_id q0 = ss_id s" using a m by (auto simp: ss_keeps_def at_set_def)
      with same_id [OF wf q0(1)] m have "q0 = s" by blast
      with q0(2) a have "of_network c n s" "ss_status s = Set_active" using keeps_network by (auto simp: at_set_def)
      with False show False by simp
    qed
    then show ?thesis using hd update_set_other [OF u2] unfolding has_active_def by blast
  next
    case True
    with n obtain v where v: "ss_previousVersion s = Some v" by auto
    obtain y where w: "update_set (at_version (ss_category s) (ss_network s) v Set_retiring)
        (\<lambda>x. x\<lparr>ss_status := Set_active, ss_effectiveTo := None\<rparr>) db = (Inr (Some y), d)"
      using u v True x by (auto simp: reactivate_previous_def split: option.splits sum.splits prod.splits)
    from updated_member [OF w] obtain t where t: "y \<in> set (cd_sets d)" "t \<in> set (cd_sets db)" "at_version (ss_category s) (ss_network s) v Set_retiring t"
      "y = t\<lparr>ss_status := Set_active, ss_effectiveTo := None\<rparr>" by auto
    have "ss_id t \<noteq> i" using same_id [OF wf t(2)] m t(3) previous_older [OF wf _ v] by (auto simp: at_version_def)
    then have "y \<in> set (cd_sets d2)" by (intro update_set_other [OF u2 t(1)]) (simp add: t(4) at_set_def)
    moreover have "of_network c n y" "ss_status y = Set_active" using t(3,4) True by (auto simp: at_version_def of_network_def)
    ultimately show ?thesis by (auto simp: has_active_def)
  qed
  with e hd h m show ?thesis using has_active_same by blast
qed

end
