(* ===== verification/Custody_System.thy ===== *)
theory Custody_System
  imports Custody_Service Rotation_Theorems
begin

text \<open>
  Concurrent custody calls.  A call in progress is a task between two of its stages; other calls, of
  this service and of the rotation module, run in between.  \<open>cs_sent\<close> records every transaction that was
  handed to the ledger, with the request and the signatures.
\<close>

datatype custody_task =
  Ct_insert custody_request
| Ct_approve oid string signer_role custody_request signer_set
| Ct_pushed oid custody_request signer_set
| Ct_claimed custody_request
| Ct_ready custody_request custody_tx "(string \<times> string \<times> string) list"
| Ct_sent custody_request "custody_error + ledger_result"

record custody_system =
  cs_db :: custody_db
  cs_tasks :: "custody_task list"
  cs_sent :: "(oid \<times> custody_tx \<times> (string \<times> string \<times> string) list) list"

definition cs_goes :: "custody_system \<Rightarrow> custody_db \<Rightarrow> custody_task list \<Rightarrow> custody_system" where
  "cs_goes s db ts = s\<lparr>cs_db := db, cs_tasks := ts\<rparr>"

definition then_task :: "(custody_error + 'a) \<Rightarrow> ('a \<Rightarrow> custody_task) \<Rightarrow> custody_task list" where
  "then_task res t = (case res of Inl e \<Rightarrow> [] | Inr a \<Rightarrow> [t a])"

inductive custody_step :: "custody_system \<Rightarrow> custody_system \<Rightarrow> bool" where
  prepare: "request_prepare E inp (cs_db s) = Inr r \<Longrightarrow>
    custody_step s (cs_goes s (cs_db s) (cs_tasks s @ [Ct_insert r]))"
| insert: "cs_tasks s = ts @ Ct_insert r # us \<Longrightarrow> rq_id r \<notin> rq_id ` set (cd_requests (cs_db s))
    \<Longrightarrow> request_insert E r (cs_db s) = (res, db) \<Longrightarrow> custody_step s (cs_goes s db (ts @ us))"
| check: "approve_check E i sid role (cs_db s) = Inr (r, ss) \<Longrightarrow>
    custody_step s (cs_goes s (cs_db s) (cs_tasks s @ [Ct_approve i sid role r ss]))"
| push: "cs_tasks s = ts @ Ct_approve i sid role r ss # us \<Longrightarrow> approve_push E i sid role r (cs_db s) = (res, db)
    \<Longrightarrow> custody_step s (cs_goes s db (ts @ then_task res (\<lambda>u. Ct_pushed i u ss) @ us))"
| promote: "cs_tasks s = ts @ Ct_pushed i u ss # us \<Longrightarrow> approve_promote i u ss (cs_db s) = (res, db)
    \<Longrightarrow> custody_step s (cs_goes s db (ts @ us))"
| claim: "finalize_claim i (cs_db s) = (res, db) \<Longrightarrow> custody_step s (cs_goes s db (cs_tasks s @ then_task res Ct_claimed))"
| build: "cs_tasks s = ts @ Ct_claimed c # us \<Longrightarrow> custody_step s (cs_goes s (cs_db s) (ts @
      (case finalize_build E chosen c (cs_db s) of Inl e \<Rightarrow> Ct_sent c (Inl e) | Inr (tx, sigs) \<Rightarrow> Ct_ready c tx sigs) # us))"
| submit: "cs_tasks s = ts @ Ct_ready c tx sigs # us \<Longrightarrow> custody_step s
      ((cs_goes s (cs_db s) (ts @ Ct_sent c outcome # us))\<lparr>cs_sent := cs_sent s @ [(rq_id c, tx, sigs)]\<rparr>)"
| finish: "cs_tasks s = ts @ Ct_sent c outcome # us \<Longrightarrow> finalize_end E c outcome (cs_db s) = (res, db)
    \<Longrightarrow> custody_step s (cs_goes s db (ts @ us))"
| reconcile: "reconcileSubmission E i outcome (cs_db s) = (res, db) \<Longrightarrow> custody_step s (cs_goes s db (cs_tasks s))"
| expire: "expireStaleRequests t (cs_db s) = (n, db) \<Longrightarrow> custody_step s (cs_goes s db (cs_tasks s))"
| rotation: "rotation_step (cs_db s) db \<Longrightarrow> cd_requests db = cd_requests (cs_db s)
    \<Longrightarrow> custody_step s (cs_goes s db (cs_tasks s))"
| configure: "update_set (\<lambda>ss. ss_id ss = i) (\<lambda>ss. ss\<lparr>ss_payoutPolicy := p\<rparr>) (cs_db s) = (res, db)
    \<Longrightarrow> custody_step s (cs_goes s db (cs_tasks s))"
| crash: "cs_tasks s = ts @ t # us \<Longrightarrow> custody_step s (cs_goes s (cs_db s) (ts @ us))"

inductive custody_steps :: "custody_system \<Rightarrow> custody_system \<Rightarrow> bool" where
  none: "custody_steps s s"
| more: "custody_steps s s' \<Longrightarrow> custody_step s' s'' \<Longrightarrow> custody_steps s s''"

definition custody_start :: custody_system where
  "custody_start = \<lparr> cs_db = \<lparr>cd_sets = [], cd_requests = [], cd_watermarks = [], cd_audits = []\<rparr>, cs_tasks = [], cs_sent = [] \<rparr>"

definition custody_reach :: "custody_system \<Rightarrow> bool" where
  "custody_reach s \<longleftrightarrow> custody_steps custody_start s"

subsection \<open>The calls of the rotation module do not touch the requests\<close>

lemma update_set_requests: "update_set P f db = (res, db') \<Longrightarrow> cd_requests db' = cd_requests db"
  by (auto simp: update_set_def split: prod.splits)

lemma audited_requests: "audited E ev a db = (res, db') \<Longrightarrow> cd_requests db' = cd_requests db"
  by (metis audited_sets(2) snd_conv)

lemma create_set_requests: "create_set ss db = (res, db') \<Longrightarrow> cd_requests db' = cd_requests db"
  by (auto simp: create_set_def split: if_splits)

lemma retire_previous_requests: "retire_previous E p db = (res, db') \<Longrightarrow> cd_requests db' = cd_requests db"
  by (auto simp: retire_previous_def dest: update_set_requests split: option.splits)

lemma reactivate_requests: "reactivate_previous p db = (res, db') \<Longrightarrow> cd_requests db' = cd_requests db"
  by (auto simp: reactivate_previous_def dest: update_set_requests split: option.splits if_splits prod.splits sum.splits)

lemmas set_call_requests = update_set_requests audited_requests create_set_requests retire_previous_requests reactivate_requests

lemma rotation_calls_requests:
  "seedGenesisSignerSet E p token db = (r1, db') \<Longrightarrow> cd_requests db' = cd_requests db"
  "proposeRotation E p db = (r2, db') \<Longrightarrow> cd_requests db' = cd_requests db"
  "approveRotation E i w role q db = (r3, db') \<Longrightarrow> cd_requests db' = cd_requests db"
  "activateRotation E i db = (r4, db') \<Longrightarrow> cd_requests db' = cd_requests db"
  "retireIfSafe E i db = (r5, db') \<Longrightarrow> cd_requests db' = cd_requests db"
  "rollbackRotation E i reason db = (r6, db') \<Longrightarrow> cd_requests db' = cd_requests db"
  unfolding seedGenesisSignerSet_def proposeRotation_def approveRotation_def activateRotation_def retireIfSafe_def
    rollbackRotation_def Let_def
  by (auto dest!: set_call_requests split: if_splits option.splits sum.splits prod.splits)

subsection \<open>How requests evolve\<close>

definition undecided :: "custody_request \<Rightarrow> bool" where
  "undecided r \<longleftrightarrow> rq_status r \<in> {Cr_pending, Cr_quorum_reached}"

definition rq_keeps :: "custody_request \<Rightarrow> custody_request \<Rightarrow> bool" where
  "rq_keeps a b \<longleftrightarrow> rq_id b = rq_id a \<and> rq_network b = rq_network a \<and> rq_category b = rq_category a
     \<and> rq_sourceAccount b = rq_sourceAccount a \<and> rq_sequence b = rq_sequence a \<and> rq_envelope b = rq_envelope a
     \<and> rq_envelopeHash b = rq_envelopeHash a \<and> rq_signerSetVersion b = rq_signerSetVersion a
     \<and> set (map ca_signerId (rq_approvals a)) \<subseteq> set (map ca_signerId (rq_approvals b)) \<and> (undecided b \<longrightarrow> undecided a)"

lemma rq_keeps_refl [simp]: "rq_keeps a a"
  by (simp add: rq_keeps_def)

lemma rq_keeps_trans: "rq_keeps a b \<Longrightarrow> rq_keeps b c \<Longrightarrow> rq_keeps a c"
  unfolding rq_keeps_def by auto

definition requests_kept :: "custody_db \<Rightarrow> custody_db \<Rightarrow> bool" where
  "requests_kept db db' \<longleftrightarrow> list_all2 rq_keeps (cd_requests db) (cd_requests db')"

lemma requests_kept_same: "cd_requests db' = cd_requests db \<Longrightarrow> requests_kept db db'"
  by (simp add: requests_kept_def list_all2_refl)

lemma requests_kept_trans: "requests_kept a b \<Longrightarrow> requests_kept b c \<Longrightarrow> requests_kept a c"
  unfolding requests_kept_def by (rule list_all2_trans [of rq_keeps rq_keeps rq_keeps]) (rule rq_keeps_trans)

lemma update_custody_request_kept:
  assumes "update_custody_request P f db = (res, db')" and "\<And>r. P r \<Longrightarrow> rq_keeps r (f r)"
  shows "requests_kept db db'"
proof -
  have "list_all2 rq_keeps (cd_requests db) (update_one P f (cd_requests db))"
    by (rule list_all2_update_one) (simp_all add: assms(2))
  with assms(1) show ?thesis
    by (auto simp: update_custody_request_def hooked_update_def requests_kept_def list_all2_refl split: option.splits if_splits)
qed

lemma update_custody_request_sets: "update_custody_request P f db = (res, db') \<Longrightarrow> cd_sets db' = cd_sets db"
  by (auto simp: update_custody_request_def split: prod.splits)

lemma updated_request:
  assumes "update_custody_request P f db = (Inr (Some r'), db')"
  shows "r' \<in> set (cd_requests db') \<and> (\<exists>r\<in>set (cd_requests db). P r \<and> r' = f r)"
proof -
  from assms obtain r where r: "find_one P (cd_requests db) = Some r" "r' = f r" "cd_requests db' = update_one P f (cd_requests db)"
    by (auto simp: update_custody_request_def hooked_update_def split: option.splits if_splits)
  have "f r \<in> set (update_one P f xs)" if "find_one P xs = Some r" for xs
    using that by (induction xs) (auto split: if_splits)
  from this [OF r(1)] show ?thesis using r find_one_SomeD [OF r(1)] by auto
qed

text \<open>Each stage keeps the sets and evolves the requests.\<close>

definition quiet_stage :: "custody_db \<Rightarrow> custody_db \<Rightarrow> bool" where
  "quiet_stage db db' \<longleftrightarrow> requests_kept db db' \<and> cd_sets db' = cd_sets db"

lemma quiet_stage_refl [simp]: "quiet_stage db db"
  by (simp add: quiet_stage_def requests_kept_same)

lemma quiet_stage_trans: "quiet_stage a b \<Longrightarrow> quiet_stage b c \<Longrightarrow> quiet_stage a c"
  using requests_kept_trans by (auto simp: quiet_stage_def)

lemma quiet_after: "quiet_stage a b \<Longrightarrow> c = b \<or> quiet_stage b c \<Longrightarrow> quiet_stage a c"
  by (elim disjE) (simp, rule quiet_stage_trans)

lemma update_custody_request_quiet:
  "update_custody_request P f db = (res, db') \<Longrightarrow> (\<And>r. P r \<Longrightarrow> rq_keeps r (f r)) \<Longrightarrow> quiet_stage db db'"
  by (simp add: quiet_stage_def update_custody_request_kept update_custody_request_sets)

lemma custody_audit_quiet: "custody_audit E ev db = (res, db') \<Longrightarrow> quiet_stage db db'"
  by (auto simp: custody_audit_def quiet_stage_def requests_kept_same split: option.splits)

lemma audited_quiet: "audited E ev a db = (res, db') \<Longrightarrow> quiet_stage db db'"
  by (auto simp: audited_def dest: custody_audit_quiet split: prod.splits sum.splits)

lemma watermark_quiet: "advanceWatermark E a n q db = (res, db') \<Longrightarrow> quiet_stage db db'"
  by (auto simp: advanceWatermark_def quiet_stage_def requests_kept_same split: option.splits)

lemma closing_keeps:
  "rq_keeps r (r\<lparr>rq_status := Cr_submitting\<rparr>)" "rq_keeps r (r\<lparr>rq_status := Cr_expired\<rparr>)"
  "rq_keeps r (r\<lparr>rq_status := Cr_failed, rq_failureReason := m\<rparr>)"
  "rq_keeps r (r\<lparr>rq_status := Cr_submitted, rq_ledgerResult := l\<rparr>)"
  "at_request i Cr_pending r \<Longrightarrow> rq_keeps r (r\<lparr>rq_status := Cr_quorum_reached\<rparr>)"
  "rq_keeps r (add_approval E sid role r)" "rq_keeps r (reconciled_as E outcome r)"
  by (auto simp: rq_keeps_def undecided_def at_request_def add_approval_def reconciled_as_def split: reconcile_outcome.splits)

lemma approve_push_quiet:
  assumes "approve_push E i sid role r db = (res, db')"
  shows "quiet_stage db db'"
proof -
  obtain x d where u: "update_custody_request (at_request i (rq_status r)) (add_approval E sid role) db = (x, d)" by fastforce
  have q: "quiet_stage db d" by (rule update_custody_request_quiet [OF u]) (rule closing_keeps)
  have "db' = d \<or> quiet_stage d db'"
    using assms u by (auto simp: approve_push_def dest: audited_quiet split: sum.splits option.splits)
  with q show ?thesis by (rule quiet_after)
qed

lemma approve_promote_quiet:
  assumes "approve_promote i u ss db = (res, db')"
  shows "quiet_stage db db'"
proof -
  obtain x d where w: "update_custody_request (at_request i Cr_pending) (\<lambda>r. r\<lparr>rq_status := Cr_quorum_reached\<rparr>) db = (x, d)" by fastforce
  have "quiet_stage db d" by (rule update_custody_request_quiet [OF w]) (rule closing_keeps)
  then show ?thesis using assms w by (auto simp: approve_promote_def split: if_splits sum.splits option.splits)
qed

lemma claim_quiet:
  assumes "finalize_claim i db = (res, db')"
  shows "quiet_stage db db'"
proof -
  obtain x d where w: "update_custody_request (at_request i Cr_quorum_reached) (\<lambda>r. r\<lparr>rq_status := Cr_submitting\<rparr>) db = (x, d)" by fastforce
  have "quiet_stage db d" by (rule update_custody_request_quiet [OF w]) (rule closing_keeps)
  then show ?thesis using assms w by (auto simp: finalize_claim_def split: sum.splits option.splits)
qed

lemma fail_quiet:
  assumes "finalize_fail E c err db = (res, db')"
  shows "quiet_stage db db'"
proof -
  obtain x d where w: "update_custody_request (at_request (rq_id c) Cr_submitting)
      (\<lambda>r. r\<lparr>rq_status := Cr_failed, rq_failureReason := Some (custody_message err)\<rparr>) db = (x, d)" by fastforce
  have q: "quiet_stage db d" by (rule update_custody_request_quiet [OF w]) (rule closing_keeps)
  show ?thesis
  proof (cases "ambiguous err")
    case True
    with assms show ?thesis by (auto simp: finalize_fail_def dest: custody_audit_quiet split: prod.splits sum.splits)
  next
    case False
    with assms w have "db' = d \<or> quiet_stage d db'"
      by (auto simp: finalize_fail_def dest: custody_audit_quiet split: prod.splits sum.splits)
    with q show ?thesis by (rule quiet_after)
  qed
qed

lemma end_quiet:
  assumes "finalize_end E c outcome db = (res, db')"
  shows "quiet_stage db db'"
proof (cases outcome)
  case (Inl e)
  with assms fail_quiet show ?thesis by (simp add: finalize_end_def)
next
  case (Inr result)
  obtain x d1 where a: "advanceWatermark E (rq_sourceAccount c) (rq_network c) (nv_sequence (rq_envelope c)) db = (x, d1)" by fastforce
  obtain y d2 where w: "update_custody_request (at_request (rq_id c) Cr_submitting)
      (\<lambda>r. r\<lparr>rq_status := Cr_submitted, rq_ledgerResult := Some (result, now E)\<rparr>) d1 = (y, d2)" by fastforce
  obtain z d3 where u: "custody_audit E (submission_event ''custody.envelope.submitted'' c True (lr_hash result)) d2 = (z, d3)" by fastforce
  have q1: "quiet_stage db d1" by (rule watermark_quiet [OF a])
  have "quiet_stage d1 d2" by (rule update_custody_request_quiet [OF w]) (rule closing_keeps)
  with q1 have q2: "quiet_stage db d2" by (rule quiet_stage_trans)
  then have q3: "quiet_stage db d3" using custody_audit_quiet [OF u] by (rule quiet_stage_trans)
  have "(\<exists>e. finalize_fail E c e d1 = (res, db')) \<or> (\<exists>e. finalize_fail E c e d2 = (res, db'))
    \<or> (\<exists>e. finalize_fail E c e d3 = (res, db')) \<or> db' = d3"
    using assms Inr a w u by (auto simp: finalize_end_def split: sum.splits)
  then show ?thesis
  proof (elim disjE exE)
    fix e assume "finalize_fail E c e d1 = (res, db')"
    from quiet_stage_trans [OF q1 fail_quiet [OF this]] show ?thesis .
  next
    fix e assume "finalize_fail E c e d2 = (res, db')"
    from quiet_stage_trans [OF q2 fail_quiet [OF this]] show ?thesis .
  next
    fix e assume "finalize_fail E c e d3 = (res, db')"
    from quiet_stage_trans [OF q3 fail_quiet [OF this]] show ?thesis .
  qed (use q3 in simp)
qed

lemma reconcile_quiet:
  assumes "reconcileSubmission E i outcome db = (res, db')"
  shows "quiet_stage db db'"
proof -
  obtain x d where w: "update_custody_request (at_request i Cr_submitting) (reconciled_as E outcome) db = (x, d)" by fastforce
  have q: "quiet_stage db d" by (rule update_custody_request_quiet [OF w]) (rule closing_keeps)
  have wm: "quiet_stage d d2" if "advanceWatermark E a n sq d = (y, d2)" for a n sq y d2
    using that by (rule watermark_quiet)
  have "db' = db \<or> db' = d \<or> quiet_stage d db'
    \<or> (\<exists>a n sq y d2. advanceWatermark E a n sq d = (y, d2) \<and> (db' = d2 \<or> quiet_stage d2 db'))"
    using assms w
    by (cases outcome) (auto simp: reconcileSubmission_def dest: audited_quiet watermark_quiet
        split: if_splits sum.splits option.splits prod.splits)
  then show ?thesis
  proof (elim disjE exE conjE)
    fix a n sq y d2
    assume a: "advanceWatermark E a n sq d = (y, d2)"
    have dd: "quiet_stage db d2" by (rule quiet_stage_trans [OF q wm [OF a]])
    show ?thesis if "db' = d2" using dd that by simp
    show ?thesis if "quiet_stage d2 db'" by (rule quiet_stage_trans [OF dd that])
  qed (use q quiet_stage_trans [OF q] in auto)
qed

lemma expire_quiet_stage:
  assumes "expireStaleRequests t db = (n, db')"
  shows "quiet_stage db db'"
proof -
  have "list_all2 rq_keeps rs (update_many (stale_request t) (\<lambda>r. r\<lparr>rq_status := Cr_expired\<rparr>) rs)" for rs
    by (induction rs) (auto simp: update_many_def closing_keeps)
  with assms show ?thesis by (auto simp: expireStaleRequests_def quiet_stage_def requests_kept_def)
qed

end
