(* ===== verification/Rotation_Properties.thy ===== *)
theory Rotation_Properties
  imports Rotation_Theorems Stellar_Key_Theorems
begin

text \<open>What the rotation of signer sets guarantees, and where it stops working.\<close>

lemma step_keeps_active:
  assumes "rotation_step db db'" and "has_active c n db" and "well_numbered db"
  shows "has_active c n db' \<or> (\<exists>s\<in>set (cd_sets db). of_network c n s \<and> ss_status s = Set_active \<and> ss_previousVersion s = None
    \<and> (\<exists>E reason. snd (rollbackRotation E (ss_id s) reason db) = db'))"
  using assms(1)
proof cases
  case (seed E p token res)
  from seed_cases [OF seed(2)] assms(2) show ?thesis by (auto simp: has_active_def)
next
  case (propose E p res)
  from propose_cases [OF propose(2)] assms(2) show ?thesis by (auto simp: has_active_def)
next
  case (approve E i w r q res)
  from approve_active [OF approve assms(2)] show ?thesis ..
next
  case (activate E i res)
  from activate_active [OF activate assms(2,3)] show ?thesis ..
next
  case (retire E i res)
  from retire_active [OF retire assms(2)] show ?thesis ..
next
  case (rollback E i reason res)
  from rollback_active [OF rollback assms(2,3)]
  show ?thesis
  proof
    assume "\<exists>s\<in>set (cd_sets db). of_network c n s \<and> ss_status s = Set_active \<and> ss_previousVersion s = None \<and> ss_id s = i"
    then obtain s where s: "s \<in> set (cd_sets db)" "of_network c n s" "ss_status s = Set_active" "ss_previousVersion s = None" "ss_id s = i"
      by blast
    have "snd (rollbackRotation E (ss_id s) reason db) = db'" using rollback s(5) by simp
    with s(1-4) show ?thesis by blast
  qed simp
next
  case other
  with assms(2) has_active_same show ?thesis by blast
qed

text \<open>
  C38. Custody never loses its signers by a rotation: once a category has an active signer set, every call of
  the module leaves an active one, except a rollback of an active set that has no predecessor.
\<close>

theorem an_active_set_remains:
  assumes "rotation_reach db" and "rotation_step db db'" and "has_active c n db"
  shows "has_active c n db' \<or> (\<exists>s\<in>set (cd_sets db). of_network c n s \<and> ss_status s = Set_active \<and> ss_previousVersion s = None
    \<and> (\<exists>E reason. snd (rollbackRotation E (ss_id s) reason db) = db'))"
  using step_keeps_active [OF assms(2,3) reach_well_numbered [OF assms(1)]] .

text \<open>
  C39. After a successful rollback of the newest version, no rotation of that category can be proposed ever again:
  the version number of every later proposal is one that exists already, so each proposal fails and stores nothing.
\<close>

theorem rollback_ends_rotation:
  assumes "rotation_reach db" and "set_by_id E i db = Inr s"
    and "\<forall>x\<in>set (cd_sets db). of_network (ss_category s) (ss_network s) x \<longrightarrow> ss_version x \<le> ss_version s"
    and "rollbackRotation E i reason db = (Inr r, db1)" and "rotation_steps db1 db2"
    and "pl_category p = ss_category s" and "stored_network p = ss_network s"
  shows "(\<exists>e. fst (proposeRotation E' p db2) = Inl e) \<and> cd_sets (snd (proposeRotation E' p db2)) = cd_sets db2"
proof -
  have wf: "well_numbered db" by (rule reach_well_numbered [OF assms(1)])
  have k: "sets_kept db db1" by (rule rollback_kept [OF assms(4)])
  have wf1: "well_numbered db1" by (rule well_numbered_kept [OF k wf])
  obtain s1 where s1: "s1 \<in> set (cd_sets db1)" "ss_id s1 = i" "ss_status s1 = Set_rolled_back"
    using rollback_rolls_back [OF assms(4)] by blast
  obtain s0 where s0: "s0 \<in> set (cd_sets db)" "ss_keeps s0 s1" using kept_origin [OF k s1(1)] by blast
  have m: "s \<in> set (cd_sets db)" "ss_id s = i" using set_by_id_member [OF assms(2)] by simp_all
  have "ss_id s0 = ss_id s" using s0(2) s1(2) m(2) by (simp add: ss_keeps_def)
  then have "s0 = s" by (rule same_id [OF wf s0(1) m(1)])
  then have cn: "of_network (ss_category s) (ss_network s) s1" "ss_version s1 = ss_version s"
    using s0(2) by (simp_all add: ss_keeps_def of_network_def)
  have max: "ss_version x \<le> ss_version s" if x: "x \<in> set (cd_sets db1)" "of_network (ss_category s) (ss_network s) x" for x
  proof -
    obtain y where y: "y \<in> set (cd_sets db)" "ss_keeps y x" using kept_origin [OF k x(1)] by blast
    have "of_network (ss_category s) (ss_network s) y" using keeps_network [OF y(2)] x(2) by blast
    then have "ss_version y \<le> ss_version s" using assms(3) y(1) by blast
    then show ?thesis using y(2) by (simp add: ss_keeps_def)
  qed
  have "stuck (ss_category s) (ss_network s) db1"
    unfolding stuck_def by (rule bexI [OF _ s1(1)]) (simp add: cn s1(3) max)
  then have st: "stuck (ss_category s) (ss_network s) db2" by (rule stuck_steps [OF assms(5) wf1])
  have wf2: "well_numbered db2" by (rule steps_well_numbered [OF assms(5) wf1])
  obtain res db3 where pr: "proposeRotation E' p db2 = (res, db3)" by fastforce
  from propose_cases [OF pr] show ?thesis
  proof
    assume "\<exists>ss. cd_sets db3 = cd_sets db2 @ [ss] \<and> created db2 ss \<and> ss_id ss = ce_newId E'
      \<and> of_network (pl_category p) (stored_network p) ss"
    then obtain ss where "created db2 ss" "of_network (ss_category s) (ss_network s) ss" using assms(6,7) by auto
    then show ?thesis using stuck_no_creation [OF wf2 st] by blast
  qed (simp add: pr)
qed

subsection \<open>Two active sets\<close>

text \<open>
  A pending rotation survives the rollback of the set it was meant to replace.  When it is activated, its
  recorded predecessor is not active and nothing is retired: the set that the rollback brought back and the
  new one are both active, and look-ups without an order find the older of the two.
\<close>

lemma custody_audit_same: "custody_audit E ev db = (r, db') \<Longrightarrow> cd_sets db' = cd_sets db"
  by (auto simp: custody_audit_def split: option.splits)

lemma activation_leaves_other_active:
  assumes "activateRotation E i db = (Inr (act, None), db')" and "well_numbered db"
    and "a \<in> set (cd_sets db)" and "of_network c n a" and "ss_status a = Set_active"
    and "s \<in> set (cd_sets db)" and "ss_id s = i" and "of_network c n s"
  shows "a \<in> set (cd_sets db') \<and> (\<exists>b\<in>set (cd_sets db'). of_network c n b \<and> ss_status b = Set_active \<and> ss_id b = i \<and> b \<noteq> a)"
proof -
  let ?f = "\<lambda>ss. ss\<lparr>ss_status := Set_active, ss_effectiveFrom := Some (now E)\<rparr>"
  obtain q y d where q: "set_by_id E i db = Inr q" "ss_status q = Set_pending" and u: "update_set (at_set i Set_pending) ?f db = (Inr (Some y), d)"
    and rp: "retire_previous E q d = (Inr None, d)" and e: "cd_sets db' = cd_sets d"
  proof -
    from assms(1) obtain q y d d2 where *: "set_by_id E i db = Inr q" "ss_status q = Set_pending"
      "update_set (at_set i Set_pending) ?f db = (Inr (Some y), d)" "retire_previous E q d = (Inr None, d2)" "cd_sets db' = cd_sets d2"
      by (auto simp: activateRotation_def audited_def dest: custody_audit_same split: if_splits option.splits sum.splits prod.splits)
    have "cd_sets d2 = cd_sets d \<and> d2 = d" using *(4)
      by (auto simp: retire_previous_def update_set_def hooked_update_def split: option.splits if_splits)
    with * that show thesis by blast
  qed
  from updated_member [OF u] have y: "y \<in> set (cd_sets d)" by blast
  from updated_member [OF u] obtain t where t: "t \<in> set (cd_sets db)" "ss_id t = i" "ss_status t = Set_pending" "y = ?f t"
    by (auto simp: at_set_def)
  have "t = s" using same_id [OF assms(2) t(1) assms(6)] t(2) assms(7) by simp
  then have "of_network c n y" using t(4) assms(8) by (simp add: of_network_def)
  moreover have "a \<in> set (cd_sets d)" by (rule update_set_other [OF u assms(3)]) (simp add: at_set_def assms(5))
  moreover have "y \<noteq> a"
  proof
    assume "y = a"
    then have "ss_id a = ss_id t" using t(4) by auto
    from same_id [OF assms(2,3) t(1) this] t(3) assms(5) show False by simp
  qed
  ultimately show ?thesis using y e t(2,4) by auto
qed

subsection \<open>Padded identifiers\<close>

text \<open>
  The conditions on a set compare identifiers as they are given; the schema stores them trimmed.  Two
  identifiers that differ in spaces only pass the check, and the stored set can never reach its threshold.
\<close>

lemma js_trim_pad: "js_trim ''a '' = ''a''" "js_trim ''a'' = ''a''"
  by (simp_all add: js_trim_def is_ws_def)

lemma padded_set_unreachable:
  assumes "k1 \<noteq> k2"
  defines "sgs \<equiv> [\<lparr>sg_signerId = ''a'', sg_role = Sig_security, sg_publicKey = k1, sg_weight = 1\<rparr>,
    \<lparr>sg_signerId = ''a '', sg_role = Sig_security, sg_publicKey = k2, sg_weight = 1\<rparr>]"
  assumes "isValidStellarPublicKey (js_trim k1)" and "isValidStellarPublicKey (js_trim k2)" and "js_trim k1 \<noteq> js_trim k2"
  shows "validateSignerSetInvariants Cat_emergency sgs 2 = Inr () \<and> sumApprovedWeight ids (map stored_signer sgs) < 2"
proof -
  have "validateSignerSetInvariants Cat_emergency sgs 2 = Inr ()"
    using assms by (simp add: validateSignerSetInvariants_def getThresholdPolicy_def DEFAULT_THRESHOLD_POLICIES_def
        normalizeStellarPublicKey_def is_integer_def)
  moreover have "sumApprovedWeight ids (map stored_signer sgs) \<le> 1"
  proof -
    have w: "signer_weight (map stored_signer sgs) i = (if i = ''a'' then 1 else 0)" for i
      by (simp add: sgs_def signer_weight_def stored_signer_def js_trim_pad)
    have "(\<Sum>i\<in>set ids. if i = ''a'' then (1 :: rat) else 0) \<le> 1"
      by (simp add: sum.delta)
    then show ?thesis by (simp add: sumApprovedWeight_sum w)
  qed
  ultimately show ?thesis by simp
qed

subsection \<open>Witnesses\<close>

definition demo_sdk :: stellar_sdk where
  "demo_sdk = \<lparr> sk_TESTNET = ''Test'', sk_PUBLIC = ''Public'', sk_payment = (\<lambda>d a x. Inr (d @ x)), sk_setOptions = (\<lambda>_. Inr ''options''),
     sk_memo = (\<lambda>_ x. Inr x), sk_txHash = (\<lambda>_. replicate 64 (CHR ''0'')), sk_localSign = (\<lambda>i _. i) \<rparr>"

definition demo_custody :: "oid \<Rightarrow> time \<Rightarrow> custody_env" where
  "demo_custody i t = \<lparr> now = t, valid_oid = (\<lambda>_. True), tamper_ok = (\<lambda>_. True), auditlog_ok = True, critical_cfg = None,
     commit_fault = None, ce_vars = (\<lambda>v. if v = ''ENABLE_MOCK_STELLAR'' then Some ''true'' else None),
     ce_protocol = (\<lambda>_. Some ''https:''), ce_sdk = demo_sdk, ce_iso = (\<lambda>_. ''t''), ce_num = (\<lambda>_. ''n''),
     ce_collate = (\<lambda>_ _. 0), ce_sha = (\<lambda>x. x), ce_newId = i, ce_watermarkFault = None \<rparr>"

definition demo_proposal :: proposal where
  "demo_proposal = \<lparr> pl_category = Cat_emergency, pl_network = ''testnet'',
     pl_signers = [\<lparr>sg_signerId = ''a'', sg_role = Sig_security, sg_publicKey = zero_account, sg_weight = 1\<rparr>,
       \<lparr>sg_signerId = ''b'', sg_role = Sig_issuer, sg_publicKey = one_account, sg_weight = 1\<rparr>],
     pl_threshold = 1, pl_overlapWindowMs = None, pl_createdBy = ''ops'', pl_requestId = None \<rparr>"

definition empty_custody :: custody_db where
  "empty_custody = \<lparr>cd_sets = [], cd_requests = [], cd_watermarks = [], cd_audits = []\<rparr>"

definition seeded_custody :: custody_db where
  "seeded_custody = snd (seedGenesisSignerSet (demo_custody ''s1'' 0) demo_proposal GENESIS_CONFIRMATION_TOKEN empty_custody)"

lemma demo_keys: "js_trim zero_account = zero_account" "js_trim one_account = one_account" "zero_account \<noteq> one_account"
  by (simp_all add: zero_account_def one_account_def js_trim_def is_ws_def)

lemma demo_signers_valid: "validateSignerSetInvariants Cat_emergency (pl_signers demo_proposal) 1 = Inr ()"
  by (simp add: validateSignerSetInvariants_def getThresholdPolicy_def DEFAULT_THRESHOLD_POLICIES_def demo_proposal_def
      normalizeStellarPublicKey_def is_integer_def demo_keys demo_keys(3) [symmetric] zero_account_valid one_account_valid)

lemma demo_network: "stored_network demo_proposal = ''testnet''"
  by (simp add: demo_proposal_def js_lower_def to_lower_char_def js_trim_def is_ws_def)

lemma demo_env_simps [simp]:
  "now (demo_custody i t) = t" "valid_oid (demo_custody i t) = (\<lambda>_. True)" "ce_newId (demo_custody i t) = i"
  "ce_sdk (demo_custody i t) = demo_sdk"
  by (simp_all add: demo_custody_def)

lemma demo_audit [simp]: "audited (demo_custody i t) ev a db = (Inr a, db\<lparr>cd_audits := cd_audits db @ [audit_row_of ev]\<rparr>)"
  by (simp add: audited_def custody_audit_def log_audit_event_def demo_custody_def env.truncate_def)

definition seeded_set :: signer_set where
  "seeded_set = proposed_set (demo_custody ''s1'' 0) demo_proposal 1 None Set_active (Some 0)"

lemma demo_fields: "pl_category demo_proposal = Cat_emergency" "pl_threshold demo_proposal = 1"
  by (simp_all add: demo_proposal_def)

lemma seeded_fields: "ss_id seeded_set = ''s1''" "ss_status seeded_set = Set_active" "ss_version seeded_set = 1"
  "ss_previousVersion seeded_set = None" "ss_category seeded_set = Cat_emergency" "ss_network seeded_set = ''testnet''"
  by (simp_all add: seeded_set_def proposed_set_def demo_fields demo_network)

lemma seeded_sets: "cd_sets seeded_custody = [seeded_set]"
  by (simp add: seeded_custody_def seedGenesisSignerSet_def demo_fields demo_signers_valid
      empty_custody_def create_set_def seeded_set_def)

lemma seeded_reach: "rotation_reach seeded_custody"
proof -
  have "rotation_step empty_custody seeded_custody"
    by (rule rotation_step.seed [of "demo_custody ''s1'' 0" _ demo_proposal GENESIS_CONFIRMATION_TOKEN])
      (simp add: empty_custody_def, unfold seeded_custody_def, rule surjective_pairing)
  then show ?thesis unfolding rotation_reach_def
    by (intro exI [of _ empty_custody]) (simp add: empty_custody_def, metis empty_custody_def rotation_steps.intros)
qed

lemma seeded_by_id: "set_by_id (demo_custody i t) ''s1'' seeded_custody = Inr seeded_set"
  by (simp add: set_by_id_def seeded_sets seeded_fields)

definition rolled_custody :: custody_db where
  "rolled_custody = snd (rollbackRotation (demo_custody ''x'' 1) ''s1'' ''compromised'' seeded_custody)"

lemma rolled_back: "\<exists>r. rollbackRotation (demo_custody ''x'' 1) ''s1'' ''compromised'' seeded_custody = (Inr r, rolled_custody)"
  by (simp add: rolled_custody_def rollbackRotation_def seeded_by_id seeded_fields reactivate_previous_def update_set_def
      hooked_update_def seeded_sets at_set_def set_terminal_def)

lemma rollback_ends_rotation_witness:
  "(\<exists>e. fst (proposeRotation (demo_custody ''s2'' 2) demo_proposal rolled_custody) = Inl e)
   \<and> cd_sets (snd (proposeRotation (demo_custody ''s2'' 2) demo_proposal rolled_custody)) = cd_sets rolled_custody"
proof -
  obtain r where r: "rollbackRotation (demo_custody ''x'' 1) ''s1'' ''compromised'' seeded_custody = (Inr r, rolled_custody)"
    using rolled_back by blast
  show ?thesis
    by (rule rollback_ends_rotation [OF seeded_reach seeded_by_id _ r rotation_steps.none])
      (simp_all add: seeded_sets seeded_fields demo_fields demo_network)
qed

lemma an_active_set_remains_witness:
  "has_active Cat_emergency ''testnet'' (snd (retireIfSafe (demo_custody ''x'' 1) ''s1'' seeded_custody))
   \<and> \<not> has_active Cat_emergency ''testnet'' rolled_custody"
proof -
  let ?db = "snd (retireIfSafe (demo_custody ''x'' 1) ''s1'' seeded_custody)"
  have h: "has_active Cat_emergency ''testnet'' seeded_custody"
    by (simp add: has_active_def seeded_sets seeded_fields of_network_def)
  have same: "?db = seeded_custody" by (simp add: retireIfSafe_def seeded_by_id seeded_fields)
  have "rotation_step seeded_custody ?db" by (rule rotation_step.retire) (rule surjective_pairing)
  from an_active_set_remains [OF seeded_reach this h] have "has_active Cat_emergency ''testnet'' ?db" using h same by simp
  moreover have "\<not> has_active Cat_emergency ''testnet'' rolled_custody"
    by (simp add: rolled_custody_def rollbackRotation_def seeded_by_id seeded_fields reactivate_previous_def update_set_def
        hooked_update_def seeded_sets at_set_def set_terminal_def has_active_def)
  ultimately show ?thesis by blast
qed

text \<open>The exception: rolling the genesis set back leaves its category without an active set.\<close>

lemma genesis_rollback:
  "has_active Cat_emergency ''testnet'' seeded_custody
   \<and> (\<exists>r. rollbackRotation (demo_custody ''x'' 1) ''s1'' ''compromised'' seeded_custody = (Inr r, rolled_custody))
   \<and> \<not> has_active Cat_emergency ''testnet'' rolled_custody"
proof (intro conjI)
  show "has_active Cat_emergency ''testnet'' seeded_custody"
    by (simp add: has_active_def seeded_sets seeded_fields of_network_def)
  show "\<exists>r. rollbackRotation (demo_custody ''x'' 1) ''s1'' ''compromised'' seeded_custody = (Inr r, rolled_custody)"
    by (rule rolled_back)
  show "\<not> has_active Cat_emergency ''testnet'' rolled_custody"
    by (simp add: rolled_custody_def rollbackRotation_def seeded_by_id seeded_fields reactivate_previous_def update_set_def
        hooked_update_def seeded_sets at_set_def set_terminal_def has_active_def)
qed

end
