(* ===== verification/Custody_Theorems.thy ===== *)
theory Custody_Theorems
  imports Custody_System Rotation_Properties
begin

text \<open>What holds in every reachable state of concurrent custody calls.\<close>

subsection \<open>Order of states\<close>

definition set_same :: "signer_set \<Rightarrow> signer_set \<Rightarrow> bool" where
  "set_same a b \<longleftrightarrow> set_key b = set_key a \<and> ss_signers b = ss_signers a \<and> ss_threshold b = ss_threshold a"

definition db_le :: "custody_db \<Rightarrow> custody_db \<Rightarrow> bool" where
  "db_le db db' \<longleftrightarrow> (\<forall>q\<in>set (cd_requests db). \<exists>q'\<in>set (cd_requests db'). rq_keeps q q')
     \<and> (\<forall>a\<in>set (cd_sets db). \<exists>b\<in>set (cd_sets db'). set_same a b)"

lemma set_same_refl [simp]: "set_same a a"
  by (simp add: set_same_def)

lemma db_le_more:
  "set (cd_requests db) \<subseteq> set (cd_requests db') \<Longrightarrow> set (cd_sets db) \<subseteq> set (cd_sets db') \<Longrightarrow> db_le db db'"
  unfolding db_le_def using rq_keeps_refl set_same_refl by blast

lemma db_le_refl [simp]: "db_le db db"
  by (simp add: db_le_more)

lemma keeps_same: "ss_keeps a b \<Longrightarrow> set_same a b"
  by (simp add: ss_keeps_def set_same_def set_key_def)

lemma kept_le:
  assumes "requests_kept db db'" and "sets_kept db db'"
  shows "db_le db db'"
  unfolding db_le_def
proof (intro conjI ballI)
  fix q assume "q \<in> set (cd_requests db)"
  with assms(1) show "\<exists>q'\<in>set (cd_requests db'). rq_keeps q q'" unfolding requests_kept_def by (rule list_all2_stored)
next
  fix a assume "a \<in> set (cd_sets db)"
  from kept_forward [OF assms(2) this] show "\<exists>b\<in>set (cd_sets db'). set_same a b" using keeps_same by blast
qed

lemma quiet_le: "quiet_stage db db' \<Longrightarrow> db_le db db'"
  by (simp add: quiet_stage_def kept_le sets_kept_same)

lemma insert_cases:
  assumes "request_insert E r db = (res, db')"
  shows "cd_sets db' = cd_sets db \<and> (cd_requests db' = cd_requests db
    \<or> cd_requests db' = cd_requests db @ [r] \<and> (\<forall>x\<in>set (cd_requests db). \<not> same_slot r x))"
proof (cases "request_create r db")
  case (Pair c d)
  then have d: "(c = Inr r \<and> cd_sets d = cd_sets db \<and> cd_requests d = cd_requests db @ [r] \<and> (\<forall>x\<in>set (cd_requests db). \<not> same_slot r x))
    \<or> (\<exists>e. c = Inl e \<and> d = db)"
    by (auto simp: request_create_def list_ex_iff split: if_splits)
  then show ?thesis
  proof
    assume c: "c = Inr r \<and> cd_sets d = cd_sets db \<and> cd_requests d = cd_requests db @ [r] \<and> (\<forall>x\<in>set (cd_requests db). \<not> same_slot r x)"
    then have "request_audit E r d = (res, db')" using assms Pair by (simp add: request_insert_def)
    then have "cd_sets db' = cd_sets d" "cd_requests db' = cd_requests d"
      by (auto simp: request_audit_def dest: audited_same audited_requests)
    with c show ?thesis by simp
  qed (use assms Pair in \<open>auto simp: request_insert_def\<close>)
qed

lemma insert_le: "request_insert E r db = (res, db') \<Longrightarrow> db_le db db'"
  using insert_cases [of E r db res db'] by (intro db_le_more) auto

lemma rotation_le:
  assumes "rotation_step db db'" and "cd_requests db' = cd_requests db"
  shows "db_le db db'"
  using step_cases [OF assms(1)]
proof
  assume "sets_kept db db'"
  then show ?thesis by (intro kept_le requests_kept_same assms(2))
next
  assume "\<exists>ss. cd_sets db' = cd_sets db @ [ss] \<and> created db ss \<and> ss_id ss \<notin> ss_id ` set (cd_sets db)"
  then show ?thesis using assms(2) by (intro db_le_more) auto
qed

lemma first_updated:
  assumes "find_one P ds = Some d" and "R d (f d)" and "\<And>x. R x x"
  shows "list_all2 R ds (update_one P f ds)"
  using assms(1) by (induction ds) (auto simp: assms(2,3) list_all2_refl split: if_splits)

lemma configure_kept:
  assumes "update_set (\<lambda>ss. ss_id ss = i) (\<lambda>ss. ss\<lparr>ss_payoutPolicy := p\<rparr>) db = (res, db')"
  shows "sets_kept db db'"
proof (cases "find_one (\<lambda>ss. ss_id ss = i) (cd_sets db)")
  case None
  with assms show ?thesis by (auto simp: update_set_def hooked_update_def sets_kept_same)
next
  case (Some d)
  show ?thesis
  proof (cases "set_terminal d")
    case True
    with assms Some show ?thesis by (auto simp: update_set_def hooked_update_def sets_kept_same)
  next
    case False
    then have "list_all2 ss_keeps (cd_sets db) (update_one (\<lambda>ss. ss_id ss = i) (\<lambda>ss. ss\<lparr>ss_payoutPolicy := p\<rparr>) (cd_sets db))"
      by (intro first_updated [OF Some]) (simp_all add: ss_keeps_def)
    with assms Some False show ?thesis by (auto simp: update_set_def hooked_update_def sets_kept_def)
  qed
qed

lemma step_le: "custody_step s s' \<Longrightarrow> db_le (cs_db s) (cs_db s')"
proof (induction rule: custody_step.induct)
  case (insert s ts r us E res db)
  then show ?case by (simp add: cs_goes_def insert_le)
next
  case (push s ts i sid role r ss us E res db)
  then show ?case by (simp add: cs_goes_def quiet_le approve_push_quiet)
next
  case (promote s ts i u ss us res db)
  then show ?case by (simp add: cs_goes_def quiet_le approve_promote_quiet)
next
  case (claim i s res db)
  then show ?case by (simp add: cs_goes_def quiet_le claim_quiet)
next
  case (finish s ts c outcome us E res db)
  then show ?case by (simp add: cs_goes_def quiet_le end_quiet)
next
  case (reconcile E i outcome s res db)
  then show ?case by (simp add: cs_goes_def quiet_le reconcile_quiet)
next
  case (expire t s n db)
  then show ?case by (simp add: cs_goes_def quiet_le expire_quiet_stage)
next
  case (rotation s db)
  then show ?case by (simp add: cs_goes_def rotation_le)
next
  case (configure i p s res db)
  then show ?case by (simp add: cs_goes_def kept_le configure_kept requests_kept_same update_set_requests)
qed (simp_all add: cs_goes_def)

subsection \<open>Quorum\<close>

definition pins :: "custody_request \<Rightarrow> signer_set \<Rightarrow> bool" where
  "pins q ss \<longleftrightarrow> set_key ss = (rq_category q, rq_network q, rq_signerSetVersion q)"

text \<open>
  A transaction is backed by a request: it was built from the request's envelope, every signature is that
  of a distinct approver under the key the pinned set holds, and these approvers reach the threshold.
\<close>

definition backed :: "custody_db \<Rightarrow> oid \<Rightarrow> custody_tx \<Rightarrow> (string \<times> string \<times> string) list \<Rightarrow> bool" where
  "backed db i tx sigs \<longleftrightarrow> (\<exists>q\<in>set (cd_requests db). \<exists>ss\<in>set (cd_sets db). rq_id q = i \<and> \<not> undecided q \<and> pins q ss
     \<and> (\<exists>S. build_transaction S (rq_envelope q) = Inr tx) \<and> distinct (map fst sigs)
     \<and> set (map fst sigs) \<subseteq> set (map ca_signerId (rq_approvals q))
     \<and> (\<forall>x\<in>set sigs. \<exists>sg\<in>set (ss_signers ss). sg_signerId sg = fst x \<and> sg_publicKey sg = fst (snd x))
     \<and> ss_threshold ss \<le> sumApprovedWeight (map fst sigs) (ss_signers ss))"

definition claimed_ok :: "custody_db \<Rightarrow> custody_request \<Rightarrow> bool" where
  "claimed_ok db c \<longleftrightarrow> (\<exists>q\<in>set (cd_requests db). rq_keeps c q \<and> \<not> undecided q)"

lemma backed_le:
  assumes "db_le db db'" and "backed db i tx sigs"
  shows "backed db' i tx sigs"
proof -
  from assms(2) obtain q ss S where q: "q \<in> set (cd_requests db)" "ss \<in> set (cd_sets db)" "rq_id q = i" "\<not> undecided q" "pins q ss"
    "build_transaction S (rq_envelope q) = Inr tx" "distinct (map fst sigs)"
    "set (map fst sigs) \<subseteq> set (map ca_signerId (rq_approvals q))"
    "\<forall>x\<in>set sigs. \<exists>sg\<in>set (ss_signers ss). sg_signerId sg = fst x \<and> sg_publicKey sg = fst (snd x)"
    "ss_threshold ss \<le> sumApprovedWeight (map fst sigs) (ss_signers ss)"
    unfolding backed_def by blast
  obtain q' where q': "q' \<in> set (cd_requests db')" "rq_keeps q q'" using assms(1) q(1) by (auto simp: db_le_def)
  obtain ss' where ss': "ss' \<in> set (cd_sets db')" "set_same ss ss'" using assms(1) q(2) by (auto simp: db_le_def)
  have keep: "rq_id q' = i" "\<not> undecided q'" "pins q' ss'" "rq_envelope q' = rq_envelope q"
    "set (map ca_signerId (rq_approvals q)) \<subseteq> set (map ca_signerId (rq_approvals q'))"
    using q'(2) ss'(2) q(3-5) by (auto simp: rq_keeps_def set_same_def pins_def)
  have "set (map fst sigs) \<subseteq> set (map ca_signerId (rq_approvals q'))" using q(8) keep(5) by (rule subset_trans)
  moreover have "ss_signers ss' = ss_signers ss" "ss_threshold ss' = ss_threshold ss" using ss'(2) by (simp_all add: set_same_def)
  ultimately show ?thesis
    unfolding backed_def using q'(1) ss'(1) keep(1-4) q(6,7,9,10)
    by (intro bexI [of _ q'] bexI [of _ ss'] conjI exI [of _ S]) simp_all
qed

lemma claimed_le:
  assumes "db_le db db'" and "claimed_ok db c"
  shows "claimed_ok db' c"
proof -
  from assms(2) obtain q where q: "q \<in> set (cd_requests db)" "rq_keeps c q" "\<not> undecided q" by (auto simp: claimed_ok_def)
  obtain q' where q': "q' \<in> set (cd_requests db')" "rq_keeps q q'" using assms(1) q(1) by (auto simp: db_le_def)
  have "\<not> undecided q'" using q'(2) q(3) by (auto simp: rq_keeps_def)
  with q' rq_keeps_trans [OF q(2) q'(2)] show ?thesis by (auto simp: claimed_ok_def)
qed

lemma signatures_of:
  "sign_all adapter h signers ids = Inr sigs \<Longrightarrow>
   map fst sigs = filter (\<lambda>i. find_one (\<lambda>sg. sg_signerId sg = i) signers \<noteq> None) ids
   \<and> (\<forall>x\<in>set sigs. \<exists>sg\<in>set signers. sg_signerId sg = fst x \<and> sg_publicKey sg = fst (snd x))"
proof (induction ids arbitrary: sigs)
  case (Cons i ids)
  show ?case
  proof (cases "find_one (\<lambda>sg. sg_signerId sg = i) signers")
    case None
    with Cons show ?thesis by simp
  next
    case (Some sg)
    then obtain s rest where r: "sign_all adapter h signers ids = Inr rest" "sigs = (i, sg_publicKey sg, s) # rest"
      using Cons.prems by (cases "adapter i h"; cases "sign_all adapter h signers ids") auto
    from Cons.IH [OF r(1)] find_one_SomeD [OF Some] show ?thesis by (auto simp: r(2) Some)
  qed
qed simp

lemma absent_weight: "sumApprovedWeight (filter (\<lambda>i. find_one (\<lambda>sg. sg_signerId sg = i) signers \<noteq> None) ids) signers
  = sumApprovedWeight ids signers"
  unfolding sumApprovedWeight_sum
  by (rule sum.mono_neutral_left) (auto simp: signer_weight_def split: option.splits)

lemma pinned_member: "pinned_set c db = Some ss \<Longrightarrow> ss \<in> set (cd_sets db) \<and> pins c ss"
  by (auto simp: pinned_set_def pins_def set_key_def of_network_def dest!: find_one_SomeD)

lemma build_backed:
  assumes "finalize_build E chosen c db = Inr (tx, sigs)" and "claimed_ok db c"
  shows "backed db (rq_id c) tx sigs"
proof -
  from assms(1) obtain ss where ss: "pinned_set c db = Some ss" "ss_threshold ss \<le> request_weight c ss"
    "finalize_sign E chosen c ss = Inr (tx, sigs)"
    by (auto simp: finalize_build_def Let_def not_less split: if_splits sum.splits option.splits)
  from ss(3) obtain adapter h where b: "build_transaction (ce_sdk E) (rq_envelope c) = Inr tx"
    and s: "sign_all adapter h (ss_signers ss) (dedupe (map ca_signerId (rq_approvals c))) = Inr sigs"
    by (auto simp: finalize_sign_def map_sum_def split: sum.splits)
  from assms(2) obtain q where q: "q \<in> set (cd_requests db)" "rq_keeps c q" "\<not> undecided q" by (auto simp: claimed_ok_def)
  note sg = signatures_of [OF s]
  have "sumApprovedWeight (map fst sigs) (ss_signers ss)
    = sumApprovedWeight (dedupe (map ca_signerId (rq_approvals c))) (ss_signers ss)"
    using sg absent_weight by metis
  then have "sumApprovedWeight (map fst sigs) (ss_signers ss) = request_weight c ss"
    by (simp add: request_weight_def sumApprovedWeight_sum)
  moreover have "distinct (map fst sigs)" "set (map fst sigs) \<subseteq> set (map ca_signerId (rq_approvals q))"
    using sg q(2) by (auto simp: rq_keeps_def)
  moreover have "rq_id q = rq_id c" "rq_envelope q = rq_envelope c" "pins q ss" "ss \<in> set (cd_sets db)"
    using q(2) pinned_member [OF ss(1)] by (auto simp: rq_keeps_def pins_def)
  ultimately show ?thesis unfolding backed_def using q(1,3) b ss(2) sg
    by (intro bexI [of _ q] bexI [of _ ss] conjI exI [of _ "ce_sdk E"]) simp_all
qed

subsection \<open>The invariant\<close>

fun task_ok :: "custody_db \<Rightarrow> custody_task \<Rightarrow> bool" where
  "task_ok db (Ct_claimed c) = claimed_ok db c"
| "task_ok db (Ct_ready c tx sigs) = backed db (rq_id c) tx sigs"
| "task_ok db t = True"

fun finalizing :: "custody_task \<Rightarrow> oid list" where
  "finalizing (Ct_claimed c) = [rq_id c]"
| "finalizing (Ct_ready c tx sigs) = [rq_id c]"
| "finalizing t = []"

definition finalized :: "custody_system \<Rightarrow> oid list" where
  "finalized s = concat (map finalizing (cs_tasks s)) @ map fst (cs_sent s)"

definition sent_ok :: "custody_db \<Rightarrow> oid \<times> custody_tx \<times> (string \<times> string \<times> string) list \<Rightarrow> bool" where
  "sent_ok db x \<longleftrightarrow> backed db (fst x) (fst (snd x)) (snd (snd x))"

definition custody_inv :: "custody_system \<Rightarrow> bool" where
  "custody_inv s \<longleftrightarrow> distinct (map rq_id (cd_requests (cs_db s))) \<and> list_all (task_ok (cs_db s)) (cs_tasks s)
     \<and> list_all (sent_ok (cs_db s)) (cs_sent s) \<and> distinct (finalized s)"

lemma task_le: "db_le db db' \<Longrightarrow> task_ok db t \<Longrightarrow> task_ok db' t"
  by (cases t) (auto intro: claimed_le backed_le)

lemma tasks_le: "db_le db db' \<Longrightarrow> list_all (task_ok db) ts \<Longrightarrow> list_all (task_ok db') ts"
  by (auto simp: list_all_iff intro: task_le)

lemma sent_le: "db_le db db' \<Longrightarrow> list_all (sent_ok db) xs \<Longrightarrow> list_all (sent_ok db') xs"
  by (auto simp: list_all_iff sent_ok_def intro: backed_le)

lemma kept_request_ids: "requests_kept db db' \<Longrightarrow> map rq_id (cd_requests db') = map rq_id (cd_requests db)"
  unfolding requests_kept_def by (induction rule: list_all2_induct) (auto simp: rq_keeps_def)

lemma quiet_ids: "quiet_stage db db' \<Longrightarrow> map rq_id (cd_requests db') = map rq_id (cd_requests db)"
  by (simp add: quiet_stage_def kept_request_ids)

text \<open>A step that only moves the database along and drops or renames tasks.\<close>

lemma inv_moves:
  assumes "custody_inv s" and "db_le (cs_db s) db" and "distinct (map rq_id (cd_requests db))"
    and "list_all (task_ok db) ts" and "distinct (concat (map finalizing ts) @ map fst (cs_sent s))"
  shows "custody_inv (cs_goes s db ts)"
  using assms sent_le [OF assms(2)] by (simp add: custody_inv_def cs_goes_def finalized_def)

lemma distinct_drop: "distinct (concat (map finalizing (ts @ t # us)) @ ys) \<Longrightarrow> distinct (concat (map finalizing (ts @ us)) @ ys)"
  by auto

lemma finalized_closed:
  assumes "custody_inv s" and "i \<in> set (finalized s)"
  shows "\<exists>q\<in>set (cd_requests (cs_db s)). rq_id q = i \<and> \<not> undecided q"
proof -
  from assms(2) consider t where "t \<in> set (cs_tasks s)" "i \<in> set (finalizing t)" | x where "x \<in> set (cs_sent s)" "fst x = i"
    by (auto simp: finalized_def)
  then show ?thesis
  proof cases
    case (1 t)
    then have "task_ok (cs_db s) t" using assms(1) by (auto simp: custody_inv_def list_all_iff)
    with 1(2) show ?thesis by (cases t) (auto simp: claimed_ok_def backed_def rq_keeps_def)
  next
    case (2 x)
    then have "sent_ok (cs_db s) x" using assms(1) by (auto simp: custody_inv_def list_all_iff)
    with 2(2) show ?thesis by (auto simp: sent_ok_def backed_def)
  qed
qed

lemma claim_cases:
  assumes "finalize_claim i db = (Inr c, db')"
  shows "c \<in> set (cd_requests db') \<and> \<not> undecided c \<and> (\<exists>q\<in>set (cd_requests db). rq_id q = rq_id c \<and> undecided q)"
proof -
  have u: "update_custody_request (at_request i Cr_quorum_reached) (\<lambda>r. r\<lparr>rq_status := Cr_submitting\<rparr>) db = (Inr (Some c), db')"
    using assms by (auto simp: finalize_claim_def split: sum.splits option.splits prod.splits)
  from updated_request [OF u] show ?thesis by (auto simp: undecided_def at_request_def)
qed

lemma claim_fresh:
  assumes "custody_inv s" and "finalize_claim i (cs_db s) = (Inr c, db)"
  shows "rq_id c \<notin> set (finalized s)"
proof
  assume "rq_id c \<in> set (finalized s)"
  from finalized_closed [OF assms(1) this] obtain q where q: "q \<in> set (cd_requests (cs_db s))" "rq_id q = rq_id c" "\<not> undecided q"
    by blast
  from claim_cases [OF assms(2)] obtain q' where q': "q' \<in> set (cd_requests (cs_db s))" "rq_id q' = rq_id c" "undecided q'" by blast
  have "inj_on rq_id (set (cd_requests (cs_db s)))" using assms(1) by (simp add: custody_inv_def distinct_map)
  then have "q = q'" using q(1,2) q'(1,2) by (simp add: inj_on_def)
  with q(3) q'(3) show False by simp
qed

lemma inv_parts:
  assumes "custody_inv s"
  shows "distinct (map rq_id (cd_requests (cs_db s)))" "list_all (task_ok (cs_db s)) (cs_tasks s)"
    "distinct (concat (map finalizing (cs_tasks s)) @ map fst (cs_sent s))"
  using assms by (simp_all add: custody_inv_def finalized_def)

text \<open>Stages that end a task, and calls without tasks.\<close>

lemma inv_quiet:
  assumes "custody_inv s" and "quiet_stage (cs_db s) db"
  shows "custody_inv (cs_goes s db (cs_tasks s))"
  using inv_parts [OF assms(1)] assms quiet_le [OF assms(2)] quiet_ids [OF assms(2)] tasks_le
  by (intro inv_moves) auto

lemma inv_quiet_task:
  assumes "custody_inv s" and "quiet_stage (cs_db s) db" and "cs_tasks s = ts @ t # us"
    and "list_all (\<lambda>t. task_ok db t \<and> finalizing t = []) vs"
  shows "custody_inv (cs_goes s db (ts @ vs @ us))"
proof (rule inv_moves [OF assms(1) quiet_le [OF assms(2)]])
  note p = inv_parts [OF assms(1)]
  show "distinct (map rq_id (cd_requests db))" using p(1) quiet_ids [OF assms(2)] by simp
  have "list_all (task_ok db) (ts @ t # us)" using tasks_le [OF quiet_le [OF assms(2)] p(2)] assms(3) by simp
  with assms(4) show "list_all (task_ok db) (ts @ vs @ us)" by (auto simp: list_all_iff)
  have c: "concat (map finalizing vs) = []" using assms(4) by (auto simp: list_all_iff)
  have "concat (map finalizing (ts @ vs @ us)) = concat (map finalizing (ts @ us))"
    by (simp only: map_append concat_append c append_Nil)
  with distinct_drop [OF p(3) [unfolded assms(3)]]
  show "distinct (concat (map finalizing (ts @ vs @ us)) @ map fst (cs_sent s))" by (simp only:)
qed

lemma inv_push:
  assumes "custody_inv s" and "cs_tasks s = ts @ Ct_approve i sid role r ss # us"
    and "approve_push E i sid role r (cs_db s) = (res, db)"
  shows "custody_inv (cs_goes s db (ts @ then_task res (\<lambda>u. Ct_pushed i u ss) @ us))"
  by (rule inv_quiet_task [OF assms(1) approve_push_quiet [OF assms(3)] assms(2)])
    (auto simp: then_task_def split: sum.splits)

lemma inv_ends:
  assumes "custody_inv s" and "cs_tasks s = ts @ t # us" and "quiet_stage (cs_db s) db"
  shows "custody_inv (cs_goes s db (ts @ us))"
  using inv_quiet_task [OF assms(1,3,2), of "[]"] by simp

lemma inv_insert:
  assumes "custody_inv s" and "cs_tasks s = ts @ Ct_insert r # us" and "rq_id r \<notin> rq_id ` set (cd_requests (cs_db s))"
    and "request_insert E r (cs_db s) = (res, db)"
  shows "custody_inv (cs_goes s db (ts @ us))"
proof (rule inv_moves [OF assms(1) insert_le [OF assms(4)]])
  note p = inv_parts [OF assms(1)]
  show "distinct (map rq_id (cd_requests db))" using insert_cases [OF assms(4)] p(1) assms(3) by auto
  show "list_all (task_ok db) (ts @ us)" using tasks_le [OF insert_le [OF assms(4)] p(2)] assms(2) by simp
  show "distinct (concat (map finalizing (ts @ us)) @ map fst (cs_sent s))" by (rule distinct_drop [OF p(3) [unfolded assms(2)]])
qed

lemma inv_claim:
  assumes "custody_inv s" and "finalize_claim i (cs_db s) = (res, db)"
  shows "custody_inv (cs_goes s db (cs_tasks s @ then_task res Ct_claimed))"
proof (rule inv_moves [OF assms(1) quiet_le [OF claim_quiet [OF assms(2)]]])
  note p = inv_parts [OF assms(1)]
  show "distinct (map rq_id (cd_requests db))" using p(1) quiet_ids [OF claim_quiet [OF assms(2)]] by simp
  have new: "list_all (task_ok db) (then_task res Ct_claimed)"
    using claim_cases assms(2) by (cases res) (auto simp: then_task_def claimed_ok_def intro!: bexI [where x = "_"] dest: claim_cases)
  show "list_all (task_ok db) (cs_tasks s @ then_task res Ct_claimed)"
    using tasks_le [OF quiet_le [OF claim_quiet [OF assms(2)]] p(2)] new by simp
  show "distinct (concat (map finalizing (cs_tasks s @ then_task res Ct_claimed)) @ map fst (cs_sent s))"
  proof (cases res)
    case (Inl e)
    with p(3) show ?thesis by (simp add: then_task_def)
  next
    case (Inr c)
    with assms(2) claim_fresh [OF assms(1)] have "rq_id c \<notin> set (finalized s)" by blast
    with p(3) Inr show ?thesis by (auto simp: then_task_def finalized_def)
  qed
qed

lemma inv_build:
  assumes "custody_inv s" and "cs_tasks s = ts @ Ct_claimed c # us"
  shows "custody_inv (cs_goes s (cs_db s) (ts @
      (case finalize_build E chosen c (cs_db s) of Inl e \<Rightarrow> Ct_sent c (Inl e) | Inr (tx, sigs) \<Rightarrow> Ct_ready c tx sigs) # us))"
proof (cases "finalize_build E chosen c (cs_db s)")
  case (Inl e)
  with inv_quiet_task [OF assms(1) quiet_stage_refl assms(2), of "[Ct_sent c (Inl e)]"] show ?thesis by simp
next
  case (Inr y)
  obtain tx sigs where y: "y = (tx, sigs)" by (cases y)
  note p = inv_parts [OF assms(1)]
  have c: "claimed_ok (cs_db s) c" using p(2) assms(2) by simp
  have "custody_inv (cs_goes s (cs_db s) (ts @ Ct_ready c tx sigs # us))"
  proof (rule inv_moves [OF assms(1) db_le_refl p(1)])
    show "list_all (task_ok (cs_db s)) (ts @ Ct_ready c tx sigs # us)"
      using p(2) assms(2) build_backed [OF Inr [unfolded y] c] by simp
    show "distinct (concat (map finalizing (ts @ Ct_ready c tx sigs # us)) @ map fst (cs_sent s))"
      using p(3) assms(2) by simp
  qed
  then show ?thesis by (simp add: Inr y)
qed

lemma inv_submit:
  assumes "custody_inv s" and "cs_tasks s = ts @ Ct_ready c tx sigs # us"
  shows "custody_inv ((cs_goes s (cs_db s) (ts @ Ct_sent c outcome # us))\<lparr>cs_sent := cs_sent s @ [(rq_id c, tx, sigs)]\<rparr>)"
proof -
  have "distinct (concat (map finalizing (ts @ us)) @ map fst (cs_sent s) @ [rq_id c])"
    using inv_parts(3) [OF assms(1)] assms(2) by auto
  then show ?thesis using assms by (simp add: custody_inv_def cs_goes_def finalized_def sent_ok_def)
qed

lemma inv_step: "custody_step s s' \<Longrightarrow> custody_inv s \<Longrightarrow> custody_inv s'"
proof (induction rule: custody_step.induct)
  case (prepare E inp s r)
  have "custody_inv (cs_goes s (cs_db s) (cs_tasks s @ [Ct_insert r]))"
    using inv_parts [OF prepare(2)] by (intro inv_moves [OF prepare(2)]) simp_all
  then show ?case .
next
  case (insert s ts r us E res db)
  then show ?case by (intro inv_insert)
next
  case (check E i sid role s r ss)
  show ?case using inv_parts [OF check(2)] by (intro inv_moves [OF check(2)]) simp_all
next
  case (push s ts i sid role r ss us E res db)
  then show ?case by (intro inv_push)
next
  case (promote s ts i u ss us res db)
  show ?case by (rule inv_ends [OF promote(3) promote(1) approve_promote_quiet [OF promote(2)]])
next
  case (claim i s res db)
  then show ?case by (intro inv_claim)
next
  case (build s ts c us E chosen)
  then show ?case by (intro inv_build)
next
  case (submit s ts c tx sigs us outcome)
  then show ?case by (intro inv_submit)
next
  case (finish s ts c outcome us E res db)
  show ?case by (rule inv_ends [OF finish(3) finish(1) end_quiet [OF finish(2)]])
next
  case (reconcile E i outcome s res db)
  show ?case by (rule inv_quiet [OF reconcile(2) reconcile_quiet [OF reconcile(1)]])
next
  case (expire t s n db)
  show ?case by (rule inv_quiet [OF expire(2) expire_quiet_stage [OF expire(1)]])
next
  case (rotation s db)
  show ?case
    by (rule inv_moves [OF rotation(3) rotation_le [OF rotation(1,2)]])
      (use inv_parts [OF rotation(3)] tasks_le [OF rotation_le [OF rotation(1,2)]] rotation(2) in simp_all)
next
  case (configure i p s res db)
  have le: "db_le (cs_db s) db" and r: "cd_requests db = cd_requests (cs_db s)"
    using configure(1) by (simp_all add: kept_le configure_kept requests_kept_same update_set_requests)
  show ?case
    by (rule inv_moves [OF configure(2) le]) (use inv_parts [OF configure(2)] tasks_le [OF le] r in simp_all)
next
  case (crash s ts t us)
  show ?case by (rule inv_ends [OF crash(2) crash(1) quiet_stage_refl])
qed

lemma reach_inv: "custody_reach s \<Longrightarrow> custody_inv s"
proof -
  have "custody_steps a b \<Longrightarrow> custody_inv a \<Longrightarrow> custody_inv b" for a b
    by (induction rule: custody_steps.induct) (auto intro: inv_step)
  moreover have "custody_inv custody_start" by (simp add: custody_inv_def custody_start_def finalized_def)
  ultimately show "custody_reach s \<Longrightarrow> custody_inv s" by (simp add: custody_reach_def)
qed

subsection \<open>Sequence numbers\<close>

lemma db_le_trans:
  assumes "db_le a b" and "db_le b c"
  shows "db_le a c"
  unfolding db_le_def
proof (intro conjI ballI)
  fix q assume "q \<in> set (cd_requests a)"
  then obtain q1 where q1: "q1 \<in> set (cd_requests b)" "rq_keeps q q1" using assms(1) by (auto simp: db_le_def)
  then obtain q2 where "q2 \<in> set (cd_requests c)" "rq_keeps q1 q2" using assms(2) by (auto simp: db_le_def)
  with q1(2) show "\<exists>q'\<in>set (cd_requests c). rq_keeps q q'" using rq_keeps_trans by blast
next
  fix x assume "x \<in> set (cd_sets a)"
  then obtain x1 where x1: "x1 \<in> set (cd_sets b)" "set_same x x1" using assms(1) by (auto simp: db_le_def)
  then obtain x2 where "x2 \<in> set (cd_sets c)" "set_same x1 x2" using assms(2) by (auto simp: db_le_def)
  with x1(2) show "\<exists>y\<in>set (cd_sets c). set_same x y" by (auto simp: set_same_def)
qed

lemma steps_le: "custody_steps s s' \<Longrightarrow> db_le (cs_db s) (cs_db s')"
proof (induction rule: custody_steps.induct)
  case (more s s' s'')
  from db_le_trans [OF more(3) step_le [OF more(2)]] show ?case .
qed simp

lemma prepared_slot:
  assumes "request_prepare E inp db = Inr r" and "buildEnvelope E inp = Inr v"
  shows "rq_sourceAccount r = nv_sourceAccount v \<and> rq_network r = nv_network v \<and> rq_sequence r = nv_sequence v"
  using assms by (auto simp: request_prepare_def new_custody_request_def split: sum.splits option.splits)

definition request_slot :: "custody_request \<Rightarrow> string \<times> string \<times> string" where
  "request_slot r = (rq_sourceAccount r, rq_network r, rq_sequence r)"

lemma taken_slot:
  assumes "q \<in> set (cd_requests db)" and "same_slot r q"
  shows "\<exists>e. request_insert E r db = (Inl e, db)"
  using assms by (auto simp: request_insert_def request_create_def list_ex_iff)

text \<open>
  C36. Every transaction the platform sends for signing accounts is backed by its signers, however calls
  interleave: a request is sent at most once, its transaction is built from the envelope that was approved, each
  signature is that of a distinct approver under the key of the pinned signer set, and they reach its threshold.
\<close>

theorem custody_quorum:
  assumes "custody_reach s"
  shows "distinct (map fst (cs_sent s)) \<and> (\<forall>x\<in>set (cs_sent s). backed (cs_db s) (fst x) (fst (snd x)) (snd (snd x)))"
proof -
  have i: "custody_inv s" by (rule reach_inv [OF assms])
  have "distinct (map fst (cs_sent s))" using inv_parts(3) [OF i] by simp
  moreover have "list_all (sent_ok (cs_db s)) (cs_sent s)" using i by (simp add: custody_inv_def)
  ultimately show ?thesis by (simp add: list_all_iff sent_ok_def)
qed

lemma kept_request_slots: "requests_kept db db' \<Longrightarrow> map request_slot (cd_requests db') = map request_slot (cd_requests db)"
  unfolding requests_kept_def by (induction rule: list_all2_induct) (auto simp: rq_keeps_def request_slot_def)

definition slots_distinct :: "custody_db \<Rightarrow> bool" where
  "slots_distinct db \<longleftrightarrow> distinct (map request_slot (cd_requests db))"

lemma quiet_slots: "quiet_stage db db' \<Longrightarrow> slots_distinct db \<Longrightarrow> slots_distinct db'"
  using kept_request_slots [of db db'] by (simp add: quiet_stage_def slots_distinct_def)

lemma same_requests_slots: "cd_requests db' = cd_requests db \<Longrightarrow> slots_distinct db \<Longrightarrow> slots_distinct db'"
  by (simp add: slots_distinct_def)

lemma insert_slots: "request_insert E r db = (res, db') \<Longrightarrow> slots_distinct db \<Longrightarrow> slots_distinct db'"
  using insert_cases [of E r db res db'] by (auto simp: slots_distinct_def request_slot_def same_slot_def)

lemma step_slots: "custody_step s s' \<Longrightarrow> slots_distinct (cs_db s) \<Longrightarrow> slots_distinct (cs_db s')"
proof (induction rule: custody_step.induct)
  case (insert s ts r us E res db)
  then show ?case by (simp add: cs_goes_def insert_slots)
next
  case (push s ts i sid role r ss us E res db)
  then show ?case by (simp add: cs_goes_def quiet_slots [OF approve_push_quiet])
next
  case (promote s ts i u ss us res db)
  then show ?case by (simp add: cs_goes_def quiet_slots [OF approve_promote_quiet])
next
  case (claim i s res db)
  then show ?case by (simp add: cs_goes_def quiet_slots [OF claim_quiet])
next
  case (finish s ts c outcome us E res db)
  then show ?case by (simp add: cs_goes_def quiet_slots [OF end_quiet])
next
  case (reconcile E i outcome s res db)
  then show ?case by (simp add: cs_goes_def quiet_slots [OF reconcile_quiet])
next
  case (expire t s n db)
  then show ?case by (simp add: cs_goes_def quiet_slots [OF expire_quiet_stage])
next
  case (rotation s db)
  then show ?case by (simp add: cs_goes_def same_requests_slots)
next
  case (configure i p s res db)
  then show ?case by (simp add: cs_goes_def same_requests_slots [OF update_set_requests])
qed (simp_all add: cs_goes_def)

lemma reach_slots: "custody_reach s \<Longrightarrow> slots_distinct (cs_db s)"
proof -
  have "custody_steps a b \<Longrightarrow> slots_distinct (cs_db a) \<Longrightarrow> slots_distinct (cs_db b)" for a b
    by (induction rule: custody_steps.induct) (auto intro: step_slots)
  moreover have "slots_distinct (cs_db custody_start)" by (simp add: slots_distinct_def custody_start_def)
  ultimately show "custody_reach s \<Longrightarrow> slots_distinct (cs_db s)" by (simp add: custody_reach_def)
qed

lemma slot_refused:
  assumes "q \<in> set (cd_requests db)" and "buildEnvelope E inp = Inr v"
    and "nv_sourceAccount v = rq_sourceAccount q" and "nv_network v = rq_network q" and "nv_sequence v = rq_sequence q"
  shows "\<exists>e. requestApproval E inp db = (Inl e, db)"
proof (cases "request_prepare E inp db")
  case (Inl e)
  then show ?thesis by (simp add: requestApproval_def)
next
  case (Inr r)
  have "same_slot r q" using prepared_slot [OF Inr assms(2)] assms(3-5) by (simp add: same_slot_def)
  from taken_slot [OF assms(1) this] show ?thesis by (simp add: requestApproval_def Inr)
qed

text \<open>
  C40. However calls interleave, no two stored requests of one account and network have the same
  sequence number, as long as their sequences are written without leading zeros; and a request for a
  number that is taken is refused and stores nothing.  (The index compares texts: \<open>''07''\<close> passes for
  another sequence than \<open>''7''\<close>, see \<open>sequence_taken_twice\<close>.)
\<close>

theorem sequence_number_unique:
  assumes "custody_reach s"
  shows "distinct (map (\<lambda>r. (rq_sourceAccount r, rq_network r, decimal_value (rq_sequence r)))
      (filter (\<lambda>r. plain_number (rq_sequence r)) (cd_requests (cs_db s))))
    \<and> (\<forall>r\<in>set (cd_requests (cs_db s)). \<forall>E inp v. buildEnvelope E inp = Inr v
        \<longrightarrow> (nv_sourceAccount v, nv_network v, decimal_value (nv_sequence v))
            = (rq_sourceAccount r, rq_network r, decimal_value (rq_sequence r))
        \<longrightarrow> plain_number (nv_sequence v) \<longrightarrow> plain_number (rq_sequence r)
        \<longrightarrow> (\<exists>e. requestApproval E inp (cs_db s) = (Inl e, cs_db s)))"
proof (intro conjI ballI allI impI)
  let ?rs = "filter (\<lambda>r. plain_number (rq_sequence r)) (cd_requests (cs_db s))"
  have d: "distinct (map request_slot ?rs)"
    using reach_slots [OF assms] by (simp add: slots_distinct_def distinct_map_filter)
  have "inj_on (\<lambda>(a, n, q). (a, n, decimal_value q)) (request_slot ` set ?rs)"
    by (rule inj_onI) (auto simp: request_slot_def intro: plain_number_inj)
  with d have "distinct (map (\<lambda>(a, n, q). (a, n, decimal_value q)) (map request_slot ?rs))"
    by (simp only: distinct_map set_map)
  then show "distinct (map (\<lambda>r. (rq_sourceAccount r, rq_network r, decimal_value (rq_sequence r))) ?rs)"
    by (simp add: request_slot_def comp_def)
  show "\<exists>e. requestApproval E inp (cs_db s) = (Inl e, cs_db s)"
    if "r \<in> set (cd_requests (cs_db s))" and "buildEnvelope E inp = Inr v"
      and "(nv_sourceAccount v, nv_network v, decimal_value (nv_sequence v))
            = (rq_sourceAccount r, rq_network r, decimal_value (rq_sequence r))"
      and "plain_number (nv_sequence v)" and "plain_number (rq_sequence r)" for r E inp v
    using that plain_number_inj [OF that(4,5)] by (intro slot_refused) auto
qed

text \<open>The index has no filter on the status: a request that failed or expired keeps its sequence.\<close>

lemma sequence_taken_for_ever:
  assumes "r \<in> set (cd_requests (cs_db s))" and "custody_steps s s'" and "buildEnvelope E inp = Inr v"
    and "nv_sourceAccount v = rq_sourceAccount r" and "nv_network v = rq_network r" and "nv_sequence v = rq_sequence r"
  shows "\<exists>e. requestApproval E inp (cs_db s') = (Inl e, cs_db s')"
proof -
  obtain q where q: "q \<in> set (cd_requests (cs_db s'))" "rq_keeps r q"
    using steps_le [OF assms(2)] assms(1) by (auto simp: db_le_def)
  show ?thesis by (rule slot_refused [OF q(1) assms(3)]) (use assms(4-6) q(2) in \<open>simp_all add: rq_keeps_def\<close>)
qed

subsection \<open>Payouts\<close>

lemma payout_checked:
  assumes "payout_guard E v ss db = Inr ()" and "ei_category (nv_intent v) = Cat_payout"
  shows "\<exists>policy amount sofar. ss_payoutPolicy ss = Some policy
    \<and> stroops_of (param_field (ei_params (nv_intent v)) ''amount'') = Inr amount \<and> 0 < amount
    \<and> sumPayoutStroopsToday E (nv_sourceAccount v) (nv_network v) db = Inr sofar
    \<and> (\<exists>d. param_field (ei_params (nv_intent v)) ''destination'' = Some (J_string d)
         \<and> normalizeStellarPublicKey d \<in> set (map normalizeStellarPublicKey (py_allowedDestinations policy)))
    \<and> (\<forall>l b. py_maxAmount policy = Some l \<longrightarrow> js_BigInt l = Inr b \<longrightarrow> amount \<le> b)
    \<and> (\<forall>l b. py_dailyLimit policy = Some l \<longrightarrow> js_BigInt l = Inr b \<longrightarrow> sofar + amount \<le> b)"
  using assms
  by (auto simp: payout_guard_def assertPayoutWithinPolicy_def within_limit_def Let_def not_less
      split: option.splits sum.splits json.splits if_splits)

lemma sum_stroops_append:
  "sum_stroops a rs = Inr n \<Longrightarrow> sum_stroops a (rs @ [r]) = sum_stroops n [r]"
  by (induction rs arbitrary: a) (auto simp: Let_def split: if_splits sum.splits)

text \<open>
  C37. A payout that is accepted goes to a destination of the allow list, stays within the limit of one
  operation, and the day's total including it stays within the daily limit of the active signer set.
\<close>

theorem payout_within_policy:
  assumes "requestApproval E inp db = (Inr r, db')" and "rq_category r = Cat_payout"
  shows "\<exists>ss policy amount total. active_set Cat_payout (rq_network r) db = Some ss \<and> ss_payoutPolicy ss = Some policy
    \<and> stroops_of (param_field (ei_params (nv_intent (rq_envelope r))) ''amount'') = Inr amount \<and> 0 < amount
    \<and> (\<exists>d. param_field (ei_params (nv_intent (rq_envelope r))) ''destination'' = Some (J_string d)
         \<and> normalizeStellarPublicKey d \<in> set (map normalizeStellarPublicKey (py_allowedDestinations policy)))
    \<and> (\<forall>l b. py_maxAmount policy = Some l \<longrightarrow> js_BigInt l = Inr b \<longrightarrow> amount \<le> b)
    \<and> sumPayoutStroopsToday E (rq_sourceAccount r) (rq_network r) db' = Inr total
    \<and> (\<forall>l b. py_dailyLimit policy = Some l \<longrightarrow> js_BigInt l = Inr b \<longrightarrow> total \<le> b)"
proof -
  obtain v ss h where v: "active_set (ei_category (nv_intent v)) (nv_network v) db = Some ss" "payout_guard E v ss db = Inr ()"
    "request_prepare E inp db = Inr (new_custody_request E inp v ss h)" "request_insert E (new_custody_request E inp v ss h) db = (Inr r, db')"
    using assms(1) by (auto simp: requestApproval_def request_prepare_def split: sum.splits option.splits)
  have r: "r = new_custody_request E inp v ss h" and rs: "cd_requests db' = cd_requests db @ [r]"
  proof -
    have "(\<exists>d. request_audit E (new_custody_request E inp v ss h) d = (Inr r, db') \<and> cd_requests d = cd_requests db @ [new_custody_request E inp v ss h])"
      using v(4) by (auto simp: request_insert_def request_create_def split: if_splits)
    then obtain d where d: "request_audit E (new_custody_request E inp v ss h) d = (Inr r, db')"
      "cd_requests d = cd_requests db @ [new_custody_request E inp v ss h]" by blast
    show "r = new_custody_request E inp v ss h" using d(1) by (auto simp: request_audit_def audited_def split: prod.splits sum.splits)
    then show "cd_requests db' = cd_requests db @ [r]"
      using d audited_requests unfolding request_audit_def by metis
  qed
  have f: "rq_network r = nv_network v" "rq_category r = ei_category (nv_intent v)" "rq_envelope r = v" "rq_sourceAccount r = nv_sourceAccount v"
    "rq_status r = Cr_pending" "rq_createdAt r = now E"
    by (simp_all add: r new_custody_request_def)
  have cat: "ei_category (nv_intent v) = Cat_payout" using assms(2) f by simp
  from payout_checked [OF v(2) cat] obtain policy amount sofar where p: "ss_payoutPolicy ss = Some policy"
    "stroops_of (param_field (ei_params (nv_intent v)) ''amount'') = Inr amount" "0 < amount"
    "sumPayoutStroopsToday E (nv_sourceAccount v) (nv_network v) db = Inr sofar"
    "\<exists>d. param_field (ei_params (nv_intent v)) ''destination'' = Some (J_string d)
       \<and> normalizeStellarPublicKey d \<in> set (map normalizeStellarPublicKey (py_allowedDestinations policy))"
    "\<forall>l b. py_maxAmount policy = Some l \<longrightarrow> js_BigInt l = Inr b \<longrightarrow> amount \<le> b"
    "\<forall>l b. py_dailyLimit policy = Some l \<longrightarrow> js_BigInt l = Inr b \<longrightarrow> sofar + amount \<le> b" by blast
  have "start_of_day_utc (now E) \<le> now E" by (simp add: start_of_day_utc_def)
  then have "filter (counts_today E (rq_sourceAccount r) (rq_network r)) (cd_requests db')
    = filter (counts_today E (nv_sourceAccount v) (nv_network v)) (cd_requests db) @ [r]"
    using f cat by (simp add: rs counts_today_def)
  moreover have "sum_stroops sofar [r] = Inr (sofar + amount) \<or> sum_stroops sofar [r] = Inr sofar"
    using p(2) f by (simp add: Let_def)
  ultimately obtain total where t: "sumPayoutStroopsToday E (rq_sourceAccount r) (rq_network r) db' = Inr total" "total \<le> sofar + amount"
    using sum_stroops_append p(3,4) by (auto simp: sumPayoutStroopsToday_def)
  have "\<forall>l b. py_dailyLimit policy = Some l \<longrightarrow> js_BigInt l = Inr b \<longrightarrow> total \<le> b" using p(7) t(2) by fastforce
  then show ?thesis using v(1) cat p t(1) f by (intro exI [of _ ss] exI [of _ policy] exI [of _ amount] exI [of _ total]) simp
qed

text \<open>
  The guard looks at the category of the intent, the transaction at its operation: the same payment under
  another category passes without an allow list and without limits.
\<close>

lemma payment_without_policy:
  assumes "ei_category (nv_intent v) \<noteq> Cat_payout"
  shows "payout_guard E v ss db = Inr () \<and> buildOperations S (nv_intent v) = buildOperations S ((nv_intent v)\<lparr>ei_category := Cat_payout\<rparr>)"
  using assms by (simp add: payout_guard_def buildOperations_def)

text \<open>A new set has no payout policy, so after a rotation every payout request is refused.\<close>

lemma created_without_policy: "ss_payoutPolicy (proposed_set E p v pv st t) = None"
  by (simp add: proposed_set_def)

lemma no_policy_no_payout:
  assumes "ss_payoutPolicy ss = None" and "ei_category (nv_intent v) = Cat_payout"
  shows "\<exists>m. payout_guard E v ss db = Inl (Custody_refused m)"
  using assms by (simp add: payout_guard_def)

text \<open>The watermark is written after the transaction has landed; if that fails, the request is marked failed.\<close>

lemma landed_but_failed:
  assumes "ce_watermarkFault E = Some e" and "\<not> ambiguous e"
    and "find_one (at_request (rq_id c) Cr_submitting) (cd_requests db) = Some r"
  shows "\<exists>r'\<in>set (cd_requests (snd (finalize_end E c (Inr result) db))). rq_id r' = rq_id c \<and> rq_status r' = Cr_failed"
proof -
  let ?f = "\<lambda>r. r\<lparr>rq_status := Cr_failed, rq_failureReason := Some (custody_message e)\<rparr>"
  let ?rs = "update_one (at_request (rq_id c) Cr_submitting) ?f (cd_requests db)"
  have u: "update_custody_request (at_request (rq_id c) Cr_submitting) ?f db = (Inr (Some (?f r)), db\<lparr>cd_requests := ?rs\<rparr>)"
    using find_one_SomeD [OF assms(3)] assms(3)
    by (simp add: update_custody_request_def hooked_update_def request_terminal_def at_request_def)
  have "cd_requests (snd (finalize_end E c (Inr result) db)) = ?rs"
    using assms(1,2) u by (auto simp: finalize_end_def advanceWatermark_def finalize_fail_def custody_audit_def
        split: prod.splits sum.splits option.splits)
  moreover have "?f r \<in> set ?rs" using updated_request [OF u] by simp
  ultimately show ?thesis using find_one_SomeD [OF assms(3)] by (auto simp: at_request_def intro!: bexI [of _ "?f r"])
qed

end
