(* ===== verification/Custody_Examples.thy ===== *)
theory Custody_Examples
  imports Custody_Theorems
begin

text \<open>Concrete runs of the custody services: an emergency operation that is submitted, and a payout.\<close>

lemma demo_config: "\<exists>cfg. getStellarConfig (demo_custody i t) = Inr cfg \<and> sf_network cfg = ''testnet''"
  by (simp add: getStellarConfig_def env_value_def demo_custody_def parseStellarNetwork_def STELLAR_NETWORKS_def
      js_lower_def to_lower_char_def js_trim_def is_ws_def config_of_def)

definition demo_approval_input :: "intent \<Rightarrow> approval_input" where
  "demo_approval_input n = \<lparr> ai_sourceAccount = zero_account, ai_sequence = ''7'', ai_minTime = 0, ai_maxTime = 1000, ai_memo = None,
     ai_intent = n, ai_requestedBy = ''ops'', ai_requestId = None \<rparr>"

definition demo_envelope :: "intent \<Rightarrow> envelope" where
  "demo_envelope n = \<lparr> nv_network = ''testnet'', nv_networkPassphrase = ''Test'', nv_sourceAccount = zero_account,
     nv_sequence = ''7'', nv_minTime = 0, nv_maxTime = 1000, nv_memo = \<lparr>mm_type = Memo_none, mm_value = None\<rparr>, nv_intent = n \<rparr>"

lemma demo_built:
  assumes "ei_operation n \<noteq> []"
  shows "buildEnvelope (demo_custody i t) (demo_approval_input n) = Inr (demo_envelope n)"
proof -
  obtain cfg where c: "getStellarConfig (demo_custody i t) = Inr cfg" "sf_network cfg = ''testnet''" using demo_config by blast
  have "getNetworkPassphrase (demo_custody i t) ''testnet'' = Inr ''Test''"
    by (simp add: getNetworkPassphrase_def demo_sdk_def)
  moreover have "digits_only ''7''" by (simp add: digits_only_def is_digit_def)
  ultimately show ?thesis using assms c
    by (simp add: buildEnvelope_def demo_approval_input_def normalizeStellarPublicKey_def demo_keys zero_account_valid demo_envelope_def)
qed

lemma demo_fresh:
  assumes "0 \<le> t" and "t \<le> 1000"
  shows "assertEnvelopeFresh (demo_custody i t) (demo_envelope n) None = Inr ()"
proof -
  obtain cfg where c: "getStellarConfig (demo_custody i t) = Inr cfg" "sf_network cfg = ''testnet''" using demo_config by blast
  have "getNetworkPassphrase (demo_custody i t) ''testnet'' = Inr ''Test''"
    by (simp add: getNetworkPassphrase_def demo_sdk_def)
  with assms c show ?thesis by (simp add: assertEnvelopeFresh_def demo_envelope_def)
qed

subsection \<open>An emergency operation\<close>

definition emergency :: intent where
  "emergency = \<lparr> ei_category = Cat_emergency, ei_operation = ''emergency.setSignerOptions'',
     ei_params = J_object [(''masterWeight'', J_number 0)] \<rparr>"

lemma emergency_operations: "buildOperations demo_sdk emergency = Inr [''options'']"
  by (simp add: buildOperations_def emergency_def buildSetSignerOptions_def param_field_def json_truthy_def demo_sdk_def)

definition emergency_hash :: string where
  "emergency_hash = canonicalHash (demo_custody ''r1'' 1) (J_array [J_string ''options''])"

lemma emergency_hashed: "computeOperationsHash (demo_custody i t) emergency = Inr emergency_hash"
  by (simp add: computeOperationsHash_def emergency_operations emergency_hash_def canonicalHash_def canonicalize_def demo_custody_def)

definition emergency_request :: custody_request where
  "emergency_request = new_custody_request (demo_custody ''r1'' 1) (demo_approval_input emergency) (demo_envelope emergency) seeded_set emergency_hash"

lemma request_fields:
  "rq_id emergency_request = ''r1''" "rq_status emergency_request = Cr_pending" "rq_approvals emergency_request = []"
  "rq_network emergency_request = ''testnet''" "rq_category emergency_request = Cat_emergency"
  "rq_sourceAccount emergency_request = zero_account" "rq_sequence emergency_request = ''7''"
  "rq_envelope emergency_request = demo_envelope emergency" "rq_maxTime emergency_request = 1000"
  "rq_signerSetVersion emergency_request = 1" "rq_operationsHash emergency_request = emergency_hash"
  by (simp_all add: emergency_request_def new_custody_request_def demo_envelope_def emergency_def seeded_fields)

lemma request_envelope_hash: "rq_envelopeHash emergency_request = computeEnvelopeHash (demo_custody i t) (demo_envelope emergency)"
  by (simp add: emergency_request_def new_custody_request_def computeEnvelopeHash_def canonicalHash_def canonicalize_def envelope_json_def
      demo_custody_def)

definition with_requests :: "custody_request list \<Rightarrow> audit_row list \<Rightarrow> custody_db" where
  "with_requests rs au = \<lparr>cd_sets = [seeded_set], cd_requests = rs, cd_watermarks = [], cd_audits = au\<rparr>"

lemma with_requests_simps [simp]:
  "cd_sets (with_requests rs au) = [seeded_set]" "cd_requests (with_requests rs au) = rs"
  "cd_watermarks (with_requests rs au) = []" "cd_audits (with_requests rs au) = au"
  "(with_requests rs au)\<lparr>cd_requests := rs'\<rparr> = with_requests rs' au"
  "(with_requests rs au)\<lparr>cd_audits := au'\<rparr> = with_requests rs au'"
  by (simp_all add: with_requests_def)

lemma emergency_prepared: "request_prepare (demo_custody ''r1'' 1) (demo_approval_input emergency) (with_requests [] au) = Inr emergency_request"
proof -
  have b: "buildEnvelope (demo_custody ''r1'' 1) (demo_approval_input emergency) = Inr (demo_envelope emergency)"
    by (rule demo_built) (simp add: emergency_def)
  have "active_set Cat_emergency ''testnet'' (with_requests [] au) = Some seeded_set"
    by (simp add: active_set_def of_network_def seeded_fields)
  moreover have "nv_intent (demo_envelope emergency) = emergency" "nv_network (demo_envelope emergency) = ''testnet''"
    "ei_category emergency = Cat_emergency"
    by (simp_all add: demo_envelope_def emergency_def)
  ultimately show ?thesis
    using demo_fresh [of 1 "''r1''" emergency]
    by (simp add: request_prepare_def b getWatermark_def payout_guard_def emergency_hashed emergency_request_def)
qed

lemma emergency_inserted:
  "\<exists>au'. request_insert (demo_custody ''r1'' 1) emergency_request (with_requests [] au) = (Inr emergency_request, with_requests [emergency_request] au')"
  by (simp add: request_insert_def request_create_def request_audit_def) (rule exI, rule refl)

definition approved_request :: custody_request where
  "approved_request = add_approval (demo_custody ''x'' 1) ''a'' Sig_security emergency_request"

lemma approved_fields:
  "rq_id approved_request = ''r1''" "rq_status approved_request = Cr_pending"
  "rq_approvals approved_request = [\<lparr>ca_signerId = ''a'', ca_role = Sig_security, ca_approvedAt = 1\<rparr>]"
  by (simp_all add: approved_request_def add_approval_def request_fields)

lemma seeded_signers: "ss_threshold seeded_set = 1" "ss_signers seeded_set = map stored_signer (pl_signers demo_proposal)"
  by (simp_all add: seeded_set_def proposed_set_def demo_fields)

lemma find_a: "find_one (\<lambda>sg. sg_signerId sg = ''a'') (ss_signers seeded_set)
    = Some \<lparr>sg_signerId = ''a'', sg_role = Sig_security, sg_publicKey = zero_account, sg_weight = 1\<rparr>"
  by (simp add: seeded_signers demo_proposal_def stored_signer_def demo_keys js_trim_pad)

lemma a_eligible: "list_ex (\<lambda>sg. sg_signerId sg = ''a'' \<and> sg_role sg = Sig_security) (ss_signers seeded_set)"
  using find_one_SomeD [OF find_a] unfolding list_ex_iff by (intro bexI) auto

lemma emergency_checked:
  "approve_check (demo_custody ''x'' 1) ''r1'' ''a'' Sig_security (with_requests [emergency_request] au) = Inr (emergency_request, seeded_set)"
  by (simp add: approve_check_def request_by_id_def request_fields of_network_def seeded_fields a_eligible)

lemma emergency_pushed:
  "\<exists>au'. approve_push (demo_custody ''x'' 1) ''r1'' ''a'' Sig_security emergency_request (with_requests [emergency_request] au)
    = (Inr approved_request, with_requests [approved_request] au')"
  by (simp add: approve_push_def update_custody_request_def hooked_update_def at_request_def request_fields request_terminal_def
      approved_request_def) (rule exI, rule refl)

lemma a_weight: "request_weight approved_request seeded_set = 1"
  by (simp add: request_weight_def approved_fields sumApprovedWeight_sum signer_weight_def find_a)

definition quorum_request :: custody_request where
  "quorum_request = approved_request\<lparr>rq_status := Cr_quorum_reached\<rparr>"

lemma emergency_promoted:
  "approve_promote ''r1'' approved_request seeded_set (with_requests [approved_request] au) = (Inr quorum_request, with_requests [quorum_request] au)"
  by (simp add: approve_promote_def a_weight seeded_signers(1) approved_fields update_custody_request_def hooked_update_def at_request_def
      request_terminal_def quorum_request_def)

definition claimed_request :: custody_request where
  "claimed_request = quorum_request\<lparr>rq_status := Cr_submitting\<rparr>"

lemma emergency_claimed:
  "finalize_claim ''r1'' (with_requests [quorum_request] au) = (Inr claimed_request, with_requests [claimed_request] au)"
  by (simp add: finalize_claim_def update_custody_request_def hooked_update_def at_request_def request_terminal_def quorum_request_def
      approved_fields claimed_request_def)

lemma claimed_fields:
  "rq_id claimed_request = ''r1''" "rq_network claimed_request = ''testnet''" "rq_category claimed_request = Cat_emergency"
  "rq_sourceAccount claimed_request = zero_account" "rq_maxTime claimed_request = 1000"
  "rq_envelope claimed_request = demo_envelope emergency" "rq_signerSetVersion claimed_request = 1"
  "rq_operationsHash claimed_request = emergency_hash" "rq_approvals claimed_request = rq_approvals approved_request"
  "rq_envelopeHash claimed_request = rq_envelopeHash emergency_request"
  by (simp_all add: claimed_request_def quorum_request_def approved_request_def add_approval_def request_fields)

lemma emergency_signed:
  "\<exists>tx. finalize_build (demo_custody ''x'' 1) None claimed_request (with_requests [claimed_request] au)
     = Inr (tx, [(''a'', zero_account, ''a'')])"
proof -
  obtain cfg where c: "getStellarConfig (demo_custody ''x'' 1) = Inr cfg" "sf_network cfg = ''testnet''" "sf_mock cfg"
    by (simp add: getStellarConfig_def env_value_def demo_custody_def parseStellarNetwork_def STELLAR_NETWORKS_def
      js_lower_def to_lower_char_def js_trim_def is_ws_def config_of_def)
  have ad: "createSignerAdapter (demo_custody ''x'' 1) = Inr (local_sign demo_sdk)" by (simp add: createSignerAdapter_def c)
  have sg: "local_sign demo_sdk ''a'' (sk_txHash demo_sdk tx) = Inr ''a''" for tx
    by (simp add: local_sign_def demo_sdk_def list_all_iff hex_char_def)
  have in_env: "nv_intent (demo_envelope emergency) = emergency" by (simp add: demo_envelope_def)
  obtain tx where tx: "build_transaction demo_sdk (demo_envelope emergency) = Inr tx"
    by (simp add: build_transaction_def in_env emergency_operations) (simp add: demo_envelope_def)
  have w: "request_weight claimed_request seeded_set = 1"
    using a_weight by (simp add: request_weight_def claimed_fields)
  have ps: "pinned_set claimed_request (with_requests [claimed_request] au) = Some seeded_set"
    by (simp add: pinned_set_def of_network_def claimed_fields seeded_fields)
  have ids: "dedupe (map ca_signerId (rq_approvals claimed_request)) = [''a'']"
    by (simp add: claimed_fields approved_fields dedupe_def)
  have fs: "finalize_sign (demo_custody ''x'' 1) None claimed_request seeded_set = Inr (tx, [(''a'', zero_account, ''a'')])"
    by (simp add: finalize_sign_def claimed_fields(6) tx ad ids find_a sg)
  show ?thesis
    using demo_fresh [of 1 "''x''" emergency] fs
    by (simp add: finalize_build_def claimed_fields(1-8,10) request_envelope_hash [of "''x''" 1, symmetric] getWatermark_def in_env
        emergency_hashed ps w seeded_signers(1))
qed

subsection \<open>Witnesses\<close>

lemma seeded_db: "\<exists>au. seeded_custody = with_requests [] au"
  by (simp add: seeded_custody_def seedGenesisSignerSet_def demo_fields demo_signers_valid empty_custody_def create_set_def
      seeded_set_def with_requests_def)

definition sys :: "custody_db \<Rightarrow> custody_task list \<Rightarrow> custody_system" where
  "sys db ts = \<lparr>cs_db = db, cs_tasks = ts, cs_sent = []\<rparr>"

lemma sys_simps [simp]: "cs_db (sys db ts) = db" "cs_tasks (sys db ts) = ts" "cs_sent (sys db ts) = []"
  "cs_goes (sys db ts) db' ts' = sys db' ts'"
  by (simp_all add: sys_def cs_goes_def)

lemma reach_step: "custody_reach s \<Longrightarrow> custody_step s s' \<Longrightarrow> custody_reach s'"
  unfolding custody_reach_def by (rule custody_steps.more)

lemma seeded_system: "custody_reach (sys seeded_custody [])"
proof -
  have st: "custody_start = sys empty_custody []" by (simp add: custody_start_def sys_def empty_custody_def)
  have "rotation_step empty_custody seeded_custody"
    by (rule rotation_step.seed [of "demo_custody ''s1'' 0" _ demo_proposal GENESIS_CONFIRMATION_TOKEN])
      (simp add: empty_custody_def, unfold seeded_custody_def, rule surjective_pairing)
  moreover have "cd_requests seeded_custody = cd_requests empty_custody"
  proof -
    obtain au where "seeded_custody = with_requests [] au" using seeded_db by blast
    then have "cd_requests seeded_custody = cd_requests (with_requests [] au)" by (rule arg_cong)
    then show ?thesis by (simp add: empty_custody_def)
  qed
  ultimately have "custody_step custody_start (sys seeded_custody [])"
    unfolding st using custody_step.rotation [of "sys empty_custody []" seeded_custody] by simp
  then show ?thesis by (rule reach_step [rotated]) (simp add: custody_reach_def custody_steps.none)
qed

text \<open>Requested, approved, claimed and sent.\<close>

lemma submitted_run:
  "\<exists>tx au. custody_reach \<lparr>cs_db = with_requests [claimed_request] au, cs_tasks = [Ct_sent claimed_request (Inl (Ambiguous_submission ''timeout''))],
     cs_sent = [(''r1'', tx, [(''a'', zero_account, ''a'')])]\<rparr>"
proof -
  obtain au0 where d0: "seeded_custody = with_requests [] au0" using seeded_db by blast
  have s1: "custody_reach (sys (with_requests [] au0) [Ct_insert emergency_request])"
    by (rule reach_step [OF seeded_system], unfold d0)
      (use custody_step.prepare [of "demo_custody ''r1'' 1" "demo_approval_input emergency" "sys (with_requests [] au0) []"] emergency_prepared in simp)
  obtain au1 where i: "request_insert (demo_custody ''r1'' 1) emergency_request (with_requests [] au0)
      = (Inr emergency_request, with_requests [emergency_request] au1)" using emergency_inserted by blast
  have s2: "custody_reach (sys (with_requests [emergency_request] au1) [])"
    by (rule reach_step [OF s1])
      (use custody_step.insert [of "sys (with_requests [] au0) [Ct_insert emergency_request]" "[]" emergency_request "[]"] i in simp)
  have s3: "custody_reach (sys (with_requests [emergency_request] au1) [Ct_approve ''r1'' ''a'' Sig_security emergency_request seeded_set])"
    by (rule reach_step [OF s2])
      (use custody_step.check [of "demo_custody ''x'' 1" "''r1''" "''a''" Sig_security "sys (with_requests [emergency_request] au1) []"]
        emergency_checked in simp)
  obtain au2 where p: "approve_push (demo_custody ''x'' 1) ''r1'' ''a'' Sig_security emergency_request (with_requests [emergency_request] au1)
      = (Inr approved_request, with_requests [approved_request] au2)" using emergency_pushed by blast
  have "custody_step (sys (with_requests [emergency_request] au1) [Ct_approve ''r1'' ''a'' Sig_security emergency_request seeded_set])
    (cs_goes (sys (with_requests [emergency_request] au1) [Ct_approve ''r1'' ''a'' Sig_security emergency_request seeded_set])
      (with_requests [approved_request] au2) ([] @ then_task (Inr approved_request) (\<lambda>u. Ct_pushed ''r1'' u seeded_set) @ []))"
    by (rule custody_step.push [where E = "demo_custody ''x'' 1"]) (use p in simp_all)
  from reach_step [OF s3 this]
  have s4: "custody_reach (sys (with_requests [approved_request] au2) [Ct_pushed ''r1'' approved_request seeded_set])"
    by (simp add: then_task_def)
  have s5: "custody_reach (sys (with_requests [quorum_request] au2) [])"
    by (rule reach_step [OF s4])
      (use custody_step.promote [of "sys (with_requests [approved_request] au2) [Ct_pushed ''r1'' approved_request seeded_set]" "[]"]
        emergency_promoted in simp)
  have s6: "custody_reach (sys (with_requests [claimed_request] au2) [Ct_claimed claimed_request])"
    by (rule reach_step [OF s5])
      (use custody_step.claim [of "''r1''" "sys (with_requests [quorum_request] au2) []"] emergency_claimed in \<open>simp add: then_task_def\<close>)
  obtain tx where b: "finalize_build (demo_custody ''x'' 1) None claimed_request (with_requests [claimed_request] au2)
      = Inr (tx, [(''a'', zero_account, ''a'')])" using emergency_signed by blast
  have s7: "custody_reach (sys (with_requests [claimed_request] au2) [Ct_ready claimed_request tx [(''a'', zero_account, ''a'')]])"
    by (rule reach_step [OF s6])
      (use custody_step.build [of "sys (with_requests [claimed_request] au2) [Ct_claimed claimed_request]" "[]" claimed_request "[]"
         "demo_custody ''x'' 1" None] b in simp)
  have "custody_step (sys (with_requests [claimed_request] au2) [Ct_ready claimed_request tx [(''a'', zero_account, ''a'')]])
    \<lparr>cs_db = with_requests [claimed_request] au2, cs_tasks = [Ct_sent claimed_request (Inl (Ambiguous_submission ''timeout''))],
     cs_sent = [(''r1'', tx, [(''a'', zero_account, ''a'')])]\<rparr>"
    using custody_step.submit [of "sys (with_requests [claimed_request] au2) [Ct_ready claimed_request tx [(''a'', zero_account, ''a'')]]"
      "[]" claimed_request tx "[(''a'', zero_account, ''a'')]" "[]" "Inl (Ambiguous_submission ''timeout'')"]
    by (simp add: claimed_fields(1)) (simp add: sys_def)
  from reach_step [OF s7 this] show ?thesis by blast
qed

lemma custody_quorum_witness:
  "\<exists>tx au. backed (with_requests [claimed_request] au) ''r1'' tx [(''a'', zero_account, ''a'')]"
proof -
  obtain tx au where r: "custody_reach \<lparr>cs_db = with_requests [claimed_request] au,
      cs_tasks = [Ct_sent claimed_request (Inl (Ambiguous_submission ''timeout''))],
      cs_sent = [(''r1'', tx, [(''a'', zero_account, ''a'')])]\<rparr>" using submitted_run by blast
  from custody_quorum [OF r] show ?thesis by auto
qed

lemma emergency_built: "buildEnvelope (demo_custody i t) (demo_approval_input emergency) = Inr (demo_envelope emergency)"
  by (rule demo_built) (simp add: emergency_def)

lemma sequence_number_unique_witness:
  "\<exists>au e. requestApproval (demo_custody ''r2'' 2) (demo_approval_input emergency) (with_requests [claimed_request] au)
     = (Inl e, with_requests [claimed_request] au)"
proof -
  obtain tx au where r: "custody_reach \<lparr>cs_db = with_requests [claimed_request] au,
      cs_tasks = [Ct_sent claimed_request (Inl (Ambiguous_submission ''timeout''))],
      cs_sent = [(''r1'', tx, [(''a'', zero_account, ''a'')])]\<rparr>" using submitted_run by blast
  have f: "rq_sequence claimed_request = ''7''" "plain_number ''7''"
    by (simp_all add: claimed_request_def quorum_request_def approved_request_def add_approval_def request_fields
      plain_number_def is_digit_def)
  have "\<exists>e. requestApproval (demo_custody ''r2'' 2) (demo_approval_input emergency) (with_requests [claimed_request] au)
     = (Inl e, with_requests [claimed_request] au)"
    using conjunct2 [OF sequence_number_unique [OF r], rule_format, OF _ emergency_built [of "''r2''" 2], of claimed_request]
    by (simp add: f claimed_fields demo_envelope_def)
  then show ?thesis by blast
qed

text \<open>An expired request still holds its sequence.\<close>

lemma expired_keeps_sequence:
  "\<exists>e. requestApproval (demo_custody ''r2'' 2) (demo_approval_input emergency)
      (with_requests [emergency_request\<lparr>rq_status := Cr_expired\<rparr>] [])
     = (Inl e, with_requests [emergency_request\<lparr>rq_status := Cr_expired\<rparr>] [])"
proof -
  let ?s = "sys (with_requests [emergency_request\<lparr>rq_status := Cr_expired\<rparr>] []) []"
  show ?thesis
    using sequence_taken_for_ever [of "emergency_request\<lparr>rq_status := Cr_expired\<rparr>" ?s ?s, OF _ custody_steps.none emergency_built]
    by (simp add: request_fields demo_envelope_def)
qed

lemma sort_equals: "js_sort (\<lambda>a b. 0) xs = xs"
  by (induction xs) (simp_all add: js_sort_def, metis js_insert.simps list.exhaust order_refl)

text \<open>
  The index and the stale-sequence check see two sequences in \<open>''7''\<close> and \<open>''07''\<close>; the transactions
  that are signed for them have the same number.
\<close>

lemma sequence_taken_twice:
  "let inp = (demo_approval_input emergency)\<lparr>ai_sequence := ''07''\<rparr>; db = with_requests [emergency_request] [] in
     rq_status emergency_request = Cr_pending \<and> decimal_value ''07'' = decimal_value (rq_sequence emergency_request)
   \<and> (\<exists>r au. requestApproval (demo_custody ''r2'' 2) inp db = (Inr r, with_requests [emergency_request, r] au)
        \<and> rq_sourceAccount r = rq_sourceAccount emergency_request \<and> rq_network r = rq_network emergency_request)"
proof -
  let ?inp = "(demo_approval_input emergency)\<lparr>ai_sequence := ''07''\<rparr>" and ?v = "(demo_envelope emergency)\<lparr>nv_sequence := ''07''\<rparr>"
  let ?E = "demo_custody ''r2'' 2" and ?db = "with_requests [emergency_request] []"
  obtain cfg where c: "getStellarConfig ?E = Inr cfg" "sf_network cfg = ''testnet''" using demo_config by blast
  have p: "getNetworkPassphrase ?E ''testnet'' = Inr ''Test''" by (simp add: getNetworkPassphrase_def demo_sdk_def)
  have b: "buildEnvelope ?E ?inp = Inr ?v"
    using c p by (simp add: buildEnvelope_def demo_approval_input_def normalizeStellarPublicKey_def demo_keys zero_account_valid
      demo_envelope_def digits_only_def is_digit_def emergency_def)
  have fresh: "assertEnvelopeFresh ?E ?v None = Inr ()"
    using c p by (simp add: assertEnvelopeFresh_def demo_envelope_def demo_custody_def)
  have act: "active_set Cat_emergency ''testnet'' ?db = Some seeded_set"
    by (simp add: active_set_def of_network_def seeded_fields)
  let ?r = "new_custody_request ?E ?inp ?v seeded_set emergency_hash"
  have v: "nv_intent ?v = emergency" "nv_network ?v = ''testnet''" "ei_category emergency = Cat_emergency" "nv_sourceAccount ?v = zero_account"
    by (simp_all add: demo_envelope_def emergency_def)
  have prep: "request_prepare ?E ?inp ?db = Inr ?r"
    using fresh act by (simp add: request_prepare_def b getWatermark_def payout_guard_def emergency_hashed v)
  have h: "rq_envelopeHash ?r \<noteq> rq_envelopeHash emergency_request"
    unfolding request_envelope_hash [of "''r2''" 2]
    by (simp add: new_custody_request_def computeEnvelopeHash_def canonicalHash_def canonicalize_def envelope_json_def
      demo_envelope_def demo_custody_def json_quote_def json_char_def sort_equals)
  have s: "\<not> same_slot ?r emergency_request"
    by (simp add: same_slot_def new_custody_request_def request_fields)
  have "\<exists>au. request_insert ?E ?r ?db = (Inr ?r, with_requests [emergency_request, ?r] au)"
    using h s by (simp add: request_insert_def request_create_def request_audit_def) (rule exI, rule refl)
  then obtain au where "requestApproval ?E ?inp ?db = (Inr ?r, with_requests [emergency_request, ?r] au)"
    using prep by (auto simp: requestApproval_def)
  moreover have "rq_sourceAccount ?r = zero_account" "rq_network ?r = ''testnet''"
    by (simp_all add: new_custody_request_def v)
  ultimately show ?thesis
    by (auto simp: Let_def request_fields decimal_value_def decimal_digit_def)
qed

definition payout_intent :: intent where
  "payout_intent = \<lparr> ei_category = Cat_payout, ei_operation = ''distribution.payment'',
     ei_params = J_object [(''destination'', J_string one_account), (''assetCode'', J_string ''native''), (''amount'', J_string ''2.5'')] \<rparr>"

lemma payout_fields: "ei_category payout_intent = Cat_payout" "ei_operation payout_intent = ''distribution.payment''"
  "param_field (ei_params payout_intent) ''destination'' = Some (J_string one_account)"
  "param_field (ei_params payout_intent) ''assetCode'' = Some (J_string ''native'')"
  "param_field (ei_params payout_intent) ''amount'' = Some (J_string ''2.5'')"
  by (simp_all add: payout_intent_def param_field_def)

definition payout_set :: signer_set where
  "payout_set = seeded_set\<lparr>ss_category := Cat_payout,
     ss_payoutPolicy := Some \<lparr>py_allowedDestinations = [one_account], py_maxAmount = Some ''30000000'', py_dailyLimit = Some ''30000000''\<rparr>\<rparr>"

definition demo_payout_db :: custody_db where
  "demo_payout_db = \<lparr>cd_sets = [payout_set], cd_requests = [], cd_watermarks = [], cd_audits = []\<rparr>"

lemma payout_texts: "toStroops ''2.5'' = Inr 25000000" "js_BigInt ''30000000'' = Inr 30000000"
  by (simp_all add: toStroops_def STROOPS_PER_UNIT_def js_BigInt_def js_trim_def is_ws_def radix_text_def radix_digit_def)

lemma payout_requested:
  "\<exists>r db'. requestApproval (demo_custody ''p1'' 1) (demo_approval_input payout_intent) demo_payout_db = (Inr r, db') \<and> rq_category r = Cat_payout"
proof -
  have b: "buildEnvelope (demo_custody ''p1'' 1) (demo_approval_input payout_intent) = Inr (demo_envelope payout_intent)"
    by (rule demo_built) (simp add: payout_intent_def)
  have n: "nv_intent (demo_envelope payout_intent) = payout_intent" "nv_network (demo_envelope payout_intent) = ''testnet''"
    by (simp_all add: demo_envelope_def)
  have a: "active_set Cat_payout ''testnet'' demo_payout_db = Some payout_set"
    by (simp add: active_set_def demo_payout_db_def of_network_def payout_set_def seeded_fields)
  have g: "payout_guard (demo_custody ''p1'' 1) (demo_envelope payout_intent) payout_set demo_payout_db = Inr ()"
    by (simp add: payout_guard_def n payout_fields payout_set_def sumPayoutStroopsToday_def demo_payout_db_def
        stroops_of_def payout_texts assertPayoutWithinPolicy_def within_limit_def normalizeStellarPublicKey_def demo_keys one_account_valid)
  obtain h where h: "computeOperationsHash (demo_custody ''p1'' 1) payout_intent = Inr h"
    by (simp add: computeOperationsHash_def buildOperations_def payout_fields buildPayment_def
        normalizeStellarPublicKey_def demo_keys one_account_valid demo_sdk_def)
  have "request_prepare (demo_custody ''p1'' 1) (demo_approval_input payout_intent) demo_payout_db
    = Inr (new_custody_request (demo_custody ''p1'' 1) (demo_approval_input payout_intent) (demo_envelope payout_intent) payout_set h)"
    using demo_fresh [of 1 "''p1''" payout_intent] a g h
    by (simp add: request_prepare_def b n getWatermark_def demo_payout_db_def payout_fields)
  then show ?thesis
    by (simp add: requestApproval_def request_insert_def request_create_def request_audit_def demo_payout_db_def new_custody_request_def n payout_fields)
qed

lemma payout_within_policy_witness:
  "\<exists>r db' ss. requestApproval (demo_custody ''p1'' 1) (demo_approval_input payout_intent) demo_payout_db = (Inr r, db')
     \<and> active_set Cat_payout (rq_network r) demo_payout_db = Some ss"
proof -
  obtain r db' where r: "requestApproval (demo_custody ''p1'' 1) (demo_approval_input payout_intent) demo_payout_db = (Inr r, db')"
    "rq_category r = Cat_payout" using payout_requested by blast
  from payout_within_policy [OF r] r(1) show ?thesis by blast
qed

end
