(* ===== verification/Spec2Isabelle.thy ===== *)
theory Spec2Isabelle
  imports Domain_Theorems Repayment_Properties Ledger_Theorems Settlement_Theorems Dashboard_Theorems
    Payout_Theorems Investment_Properties Gateway_Theorems Audit_Properties Event_Theorems
    Approval_Admins Fx_Theorems Stellar_Key_Theorems Custody_Examples
begin

text \<open>
  Verification library of Chain-Move, a platform on which investors fund vehicles, drivers
  repay them by hire purchase, and an administrator runs the pools.

  \<^bold>\<open>The program.\<close>  The platform is a Next.js application over MongoDB.  Its core is the
  service code under \<open>lib/\<close>: services read documents, check a status table, write the documents
  in a database session and append history and audit rows.  Loans, vehicles, investments and
  hire-purchase contracts have status tables; payments arrive from a provider, are settled,
  allocated to instalments, posted to a double-entry ledger and shown on a dashboard; pools
  pay investors out.

  \<^bold>\<open>Theories and sources.\<close>
  \<^item> \<open>Prelude\<close>: numbers, money rounding, \<open>trim\<close>, walks through status tables, the locales
    \<open>lifecycle\<close> (a status table with its checker) and \<open>optimistic_lock\<close> (versioned updates).
  \<^item> \<open>Platform\<close>: collections as lists of documents, \<open>runInSession\<close>, driver errors, and
    \<open>logAuditEvent\<close> of \<open>lib/security/audit-log.ts\<close>.
  \<^item> \<open>Domain_Lifecycles\<close>, \<open>Domain_Services\<close>: \<open>lib/domain/*-state-machine.ts\<close> and
    \<open>lib/domain/*-transition-service.ts\<close>, one definition per service, with their effects on other
    collections.  \<open>Domain_Properties\<close>, \<open>Domain_Guarantees\<close>, \<open>Domain_Theorems\<close>: histories are walks,
    no lost update, the conditions and effects of activation and completion.
  \<^item> \<open>Contract_Model\<close>, \<open>Contract_Service\<close>, \<open>Contract_Theorems\<close>: \<open>lib/contracts/\<close> and
    \<open>lib/services/contract-transition.service.ts\<close>; timelines, a vehicle serves one contract,
    activation, the schedule of instalments.
  \<^item> \<open>Allocation_Engine\<close>, \<open>Allocation_Theorems\<close>: \<open>lib/repayments/allocation-engine.ts\<close>;
    conservation, order, agreement with a re-derivation.
  \<^item> \<open>Repayment_Service\<close>, \<open>Repayment_Theorems\<close>, \<open>Repayment_Properties\<close>:
    \<open>lib/repayments/repayment-engine.service.ts\<close>; contract balances are the sum of the payments
    applied, a provider reference counts once, no reversal succeeds.
  \<^item> \<open>Ledger_Model\<close>, \<open>Ledger_Posting\<close>, \<open>Ledger_Projection\<close>: \<open>lib/ledger/\<close> with the documents of
    \<open>models/Ledger*.ts\<close>.  \<open>Ledger_Books\<close>, \<open>Ledger_Invariants\<close>: the locale \<open>ledger_service\<close> proves once
    what any posting policy keeps and is interpreted three times (exact, bounded, charted
    journals).  \<open>Ledger_Refinement\<close>: an abstract book of balances per category that the posting
    helpers implement.  \<open>Ledger_Guarantees\<close>, \<open>Ledger_Theorems\<close>: balance, idempotence, reversal,
    typing of accounts, accumulated tolerance.
  \<^item> \<open>Settlement_Model\<close>, \<open>Settlement_Service\<close>, \<open>Settlement_Guarantees\<close>, \<open>Settlement_Theorems\<close>:
    \<open>lib/settlement/\<close> and the settlement step of \<open>lib/stellar/indexer.ts\<close>; timelines, money moved
    by a transition, timeouts, termination of the identifier search.
  \<^item> \<open>Csv_Export\<close>, \<open>Ledger_Dashboard\<close>, \<open>Dashboard_Theorems\<close>: \<open>lib/exports/csv-stream.ts\<close>,
    \<open>lib/ledger/ledger.ts\<close>, \<open>app/api/transactions/ledger/\<close>, \<open>lib/api/pagination.ts\<close> and the money
    helpers of \<open>lib/api/serialization.ts\<close>; scoping, paging with the order of equal timestamps left to
    the database, a round trip through a CSV reader.
  \<^item> \<open>Js_Sort\<close>: the stable sort of JavaScript arrays, shared by the later components.
  \<^item> \<open>Payout_Engine\<close>, \<open>Payout_Service\<close>, \<open>Payout_Theorems\<close>: \<open>lib/payouts/\<close>; the largest-remainder
    division and the distribution service with its provider.
  \<^item> \<open>Json_Text\<close>: JSON values, the canonical texts the code hashes, and their injectivity.
  \<^item> \<open>Consent_Model\<close>, \<open>Consent_Service\<close>, \<open>Consent_Theorems\<close>: \<open>lib/consent/financial-consent.ts\<close>;
    what stands behind a consent that passes the check: the history of a run with TTL deletions and
    changing documents leads back to the call that accepted and to the call that opened the challenge.
  \<^item> \<open>Investment_Service\<close>, \<open>Investment_Theorems\<close>, \<open>Investment_Properties\<close>:
    \<open>lib/services/investments.service.ts\<close> and \<open>pools.service.ts\<close>; capacity of pools, conservation
    of wallets, the guard of an investment by a consent, idempotent repetition.
  \<^item> \<open>Gateway_Service\<close>, \<open>Gateway_Theorems\<close>: \<open>lib/services/paystack-processing.service.ts\<close>; a
    provider reference credits a wallet once, a replayed callback changes nothing.
  \<^item> \<open>Audit_Chain\<close>, \<open>Audit_Log\<close>, \<open>Audit_Theorems\<close>, \<open>Audit_Properties\<close>: the tamper-evident log of
    \<open>lib/security/\<close> (\<open>audit-hash.ts\<close>, \<open>tamper-evident-audit.ts\<close>, \<open>audit-checkpoint.ts\<close>,
    \<open>audit-verification.ts\<close>); what the last hash binds, that the written log verifies, what a failed
    insert does to a partition.
  \<^item> \<open>Event_Projection\<close>, \<open>Event_Theorems\<close>: \<open>lib/stellar/events/\<close> and \<open>lib/stellar/projections/\<close>;
    rebuilding a projection does not depend on the order of delivery.
  \<^item> \<open>Approval_Model\<close>, \<open>Approval_Service\<close>, \<open>Approval_System\<close>, \<open>Approval_Theorems\<close>,
    \<open>Approval_Properties\<close>, \<open>Approval_Admins\<close>: \<open>lib/approvals/\<close> and the role change of
    \<open>lib/services/\<close>; every call is a sequence of stages, a step relation interleaves the stages of
    concurrent calls, and the properties are invariants of the reachable states.
  \<^item> \<open>Decimal_Text\<close>, \<open>Fx_Quotes\<close>, \<open>Fx_Service\<close>, \<open>Fx_Theorems\<close>: \<open>lib/fx/\<close>; the locale
    \<open>quote_contract\<close> holds of the in-memory repository and, with a driver whose ids cast to
    themselves, of MongoDB; a quote is consumed once, and the repositories answer alike but for ids
    that do not cast to an ObjectId.
  \<^item> \<open>Stellar_Key\<close>, \<open>Stellar_Key_Theorems\<close>: \<open>lib/validation/stellar.ts\<close> on 32-bit words; the
    checksum rejects every key with one wrong character.
  \<^item> \<open>Custody_Policy\<close>, \<open>Custody_Envelope\<close>, \<open>Custody_Rotation\<close>, \<open>Rotation_Theorems\<close>,
    \<open>Rotation_Properties\<close>, \<open>Custody_Service\<close>, \<open>Custody_System\<close>, \<open>Custody_Theorems\<close>,
    \<open>Custody_Examples\<close>: \<open>lib/custody/\<close> and \<open>lib/stellar/config.ts\<close>; rotations run one after another,
    the calls that approve and send are split into stages and interleave.  What is sent has the
    quorum of its pinned signer set and is sent once; sequence numbers written without leading zeros
    are used once; a rollback ends the rotations of a category.

  \<^bold>\<open>How the code is represented.\<close>
  \<^item> State is explicit: a record of collections goes in and comes out.  A thrown error is \<open>Inl\<close>,
    together with the state it leaves; a transaction that aborts restores the collections and
    keeps what was written outside the session (audit rows).  That every other write of a
    transaction passes \<open>{ session }\<close> is read off the code once and built into the rollback; no
    theorem here checks it.
  \<^item> Amounts are exact rationals with the code's own rounding; non-finite numbers are kept as
    \<open>jsnum\<close> where the code tests for them.  Times are milliseconds, dates are counted in UTC days
    with a fixed offset where the code takes calendar days.
  \<^item> What the code cannot see coming is an argument: clock, fresh identifiers, the validity
    check of object ids, faults of commits and inserts, the answers of payment providers, the
    collation order of \<open>localeCompare\<close>.  Hypotheses about them state documented behaviour
    (identifiers are fresh, unique indexes hold) and every property with a hypothesis has a
    witness in which all of them hold.
  \<^item> A conditional update (\<open>findOneAndUpdate\<close>) is atomic.  Services run one after another; the
    conditions that guard against interleaving are part of the definitions.  The payout service
    is split at its \<open>await\<close> to show what overlapping calls do.
  \<^item> The ledger is called without a caller's session, as everywhere in the repository: the
    journal is written before its entries.  A failing insert of an entry is modelled; the books
    balance only while no insert fails (\<open>good_env\<close>).  The optional \<open>name\<close> of an account is never passed and
    left out.  Texts that print durations in settlement timelines are shortened.

  \<^bold>\<open>Loops and bounds.\<close>  Loops are structural recursions over the collection they visit, except
  the remainder loop of the payouts (measure: the remainder) and the three attempts of
  \<open>initiateSettlement\<close>, which the model counts as the code does.  No fuel is used.

  \<^bold>\<open>Not modelled.\<close>  User interface, route wrappers, request validation by zod, authentication,
  the HTTP adapters of Paystack and Stellar, mail and file storage, scripts and the Rust
  contracts: their behaviour is input and output around the services, or lies in libraries.
  Account recovery, the reconciliation of provider exports, the integrity catalogue, fleet
  records, risk scores and privacy requests are not modelled: most of their code is queries over
  many collections, around small rules.
\<close>

end
